(* ===== verification/Prelude.thy ===== *)
theory Prelude
  imports Main "HOL-Library.Word"
begin

text \<open>
  Shared vocabulary of the development: the result type of fallible Go functions, the
  byte strings and the functions of Go's package strings that the agent calls, and
  generic lemmas on lists and maps that several components use.

  A Go string is a sequence of bytes, so it is a char list here (a char of HOL is one of
  256 values).  A Go (value, error) pair whose value is unused when the error is set is
  \<open>'e + 'a\<close>.
\<close>

named_theorems go_string \<open>facts about the functions of package strings\<close>
named_theorems go_map \<open>facts about Go maps as partial functions\<close>

type_synonym i8 = "8 word"
type_synonym i32 = "32 word"

type_synonym ('e, 'a) result = "'e + 'a"

abbreviation (input) Err :: "'e \<Rightarrow> ('e, 'a) result" where "Err \<equiv> Inl"
abbreviation (input) Ok :: "'a \<Rightarrow> ('e, 'a) result" where "Ok \<equiv> Inr"

section \<open>Package strings\<close>

text \<open>strings.Split with a one-byte separator; the result is never empty.\<close>

fun split_on :: "char \<Rightarrow> string \<Rightarrow> string list" where
  "split_on c [] = [[]]"
| "split_on c (x # xs) =
     (if x = c then [] # split_on c xs
      else (case split_on c xs of [] \<Rightarrow> [[x]] | y # ys \<Rightarrow> (x # y) # ys))"

text \<open>strings.Join.\<close>

fun join :: "string \<Rightarrow> string list \<Rightarrow> string" where
  "join sep [] = []"
| "join sep [x] = x"
| "join sep (x # y # ys) = x @ sep @ join sep (y # ys)"

text \<open>strings.Contains for a one-byte needle, and strings.HasPrefix / HasSuffix.\<close>

definition contains_char :: "char \<Rightarrow> string \<Rightarrow> bool" where
  "contains_char c s = (c \<in> set s)"

definition has_prefix :: "string \<Rightarrow> string \<Rightarrow> bool" where
  "has_prefix s p = (take (length p) s = p)"

definition has_suffix :: "string \<Rightarrow> string \<Rightarrow> bool" where
  "has_suffix s p = (length p \<le> length s \<and> drop (length s - length p) s = p)"

text \<open>strings.LastIndex for a one-byte needle: None stands for the result -1.\<close>

fun last_index :: "char \<Rightarrow> string \<Rightarrow> nat option" where
  "last_index c [] = None"
| "last_index c (x # xs) =
     (case last_index c xs of
        Some i \<Rightarrow> Some (Suc i)
      | None \<Rightarrow> (if x = c then Some 0 else None))"

text \<open>strings.ReplaceAll of a one-byte needle by the empty string.\<close>

definition remove_char :: "char \<Rightarrow> string \<Rightarrow> string" where
  "remove_char c s = filter (\<lambda>x. x \<noteq> c) s"

text \<open>strings.TrimSpace on ASCII space characters.\<close>

definition is_space :: "char \<Rightarrow> bool" where
  "is_space c = (c \<in> {CHR '' '', CHR 0x09, CHR 0x0A, CHR 0x0B, CHR 0x0C, CHR 0x0D})"

definition trim_space :: "string \<Rightarrow> string" where
  "trim_space s = rev (dropWhile is_space (rev (dropWhile is_space s)))"

lemma split_on_not_Nil [simp, go_string]: "split_on c s \<noteq> []"
  by (cases s) (auto split: list.splits)

lemma split_on_no_sep [go_string]: "x \<in> set (split_on c s) \<Longrightarrow> c \<notin> set x"
proof (induction s arbitrary: x)
  case Nil
  then show ?case by simp
next
  case (Cons a s)
  show ?case
  proof (cases "split_on c s")
    case Nil
    then show ?thesis by simp
  next
    case (Cons y ys)
    with Cons.IH Cons.prems show ?thesis by (auto split: if_splits)
  qed
qed

lemma split_on_plain [simp, go_string]: "c \<notin> set s \<Longrightarrow> split_on c s = [s]"
  by (induction s) auto

lemma split_on_append [go_string]:
  "c \<notin> set x \<Longrightarrow> split_on c (x @ c # s) = x # split_on c s"
  by (induction x) auto

lemma split_on_join [go_string]:
  assumes "xs \<noteq> []" and "\<forall>x\<in>set xs. c \<notin> set x"
  shows "split_on c (join [c] xs) = xs"
  using assms
proof (induction "[c]" xs rule: join.induct)
  case (3 x y ys)
  then show ?case by (simp add: split_on_append)
qed simp_all

lemma join_split_on [go_string]: "join [c] (split_on c s) = s"
proof (induction s)
  case (Cons a s)
  show ?case
  proof (cases "split_on c s")
    case Nil
    then show ?thesis by simp
  next
    case (Cons y ys)
    with Cons.IH show ?thesis by (cases ys) auto
  qed
qed simp

lemma set_join [go_string]:
  "set (join sep xs) \<subseteq> set sep \<union> (\<Union>x\<in>set xs. set x)"
  by (induction sep xs rule: join.induct) auto

lemma join_eq_Nil [go_string]:
  "sep \<noteq> [] \<Longrightarrow> join sep xs = [] \<longleftrightarrow> xs = [] \<or> xs = [[]]"
  by (induction sep xs rule: join.induct) auto

lemma last_index_None [go_string]: "last_index c s = None \<longleftrightarrow> c \<notin> set s"
  by (induction s) (auto split: option.splits)

lemma last_index_Some [go_string]:
  "last_index c s = Some i \<Longrightarrow> i < length s \<and> s ! i = c \<and> c \<notin> set (drop (Suc i) s)"
proof (induction s arbitrary: i)
  case (Cons a s)
  then show ?case
    by (auto split: option.splits if_splits simp: last_index_None)
qed simp

lemma split_last_unique:
  "u @ c # x = v @ c # y \<Longrightarrow> c \<notin> set x \<Longrightarrow> c \<notin> set y \<Longrightarrow> x = y"
  by (auto simp: append_eq_append_conv2 append_eq_Cons_conv Cons_eq_append_conv)

lemma has_suffix_append [go_string]: "has_suffix (s @ p) p"
  by (simp add: has_suffix_def)

lemma has_suffix_iff [go_string]: "has_suffix s p \<longleftrightarrow> (\<exists>u. s = u @ p)"
  unfolding has_suffix_def
  by (metis append_take_drop_id append_eq_append_conv_if diff_diff_cancel diff_le_self
      le_add2 length_append length_drop append_eq_conv_conj add_diff_cancel_right')

lemma has_prefix_iff [go_string]: "has_prefix s p \<longleftrightarrow> (\<exists>u. s = p @ u)"
  unfolding has_prefix_def by (metis append_eq_conv_conj append_take_drop_id)

lemma trim_space_set: "set (trim_space s) \<subseteq> set s"
  unfolding trim_space_def by (metis set_dropWhileD set_rev subsetI)

section \<open>Lists and maps\<close>

text \<open>A Go map assignment over the pairs of a list, later pairs winning.\<close>

definition put_all :: "('k \<rightharpoonup> 'v) \<Rightarrow> ('k \<times> 'v) list \<Rightarrow> ('k \<rightharpoonup> 'v)" where
  "put_all m kvs = fold (\<lambda>(k, v) m. m(k \<mapsto> v)) kvs m"

lemma put_all_Nil [simp]: "put_all m [] = m"
  by (simp add: put_all_def)

lemma put_all_Cons [simp]: "put_all m ((k, v) # kvs) = put_all (m(k \<mapsto> v)) kvs"
  by (simp add: put_all_def)

lemma put_all_notin [go_map]: "k \<notin> fst ` set kvs \<Longrightarrow> put_all m kvs k = m k"
  by (induction kvs arbitrary: m) auto

lemma put_all_map_of [go_map]:
  "distinct (map fst kvs) \<Longrightarrow> put_all m kvs = m ++ map_of kvs"
proof (induction kvs arbitrary: m)
  case (Cons kv kvs)
  obtain k v where kv: "kv = (k, v)" by (cases kv)
  from Cons.prems kv have "k \<notin> fst ` set kvs" and d: "distinct (map fst kvs)" by auto
  then have "k \<notin> dom (map_of kvs)" by (simp add: dom_map_of_conv_image_fst)
  then have "m(k \<mapsto> v) ++ map_of kvs = m ++ map_of ((k, v) # kvs)"
    by (auto simp: map_add_def fun_eq_iff split: option.splits)
  with Cons.IH [OF d, of "m(k \<mapsto> v)"] kv show ?case by (simp del: map_of.simps fun_upd_apply)
qed simp

lemma nth_append_last [simp]: "(xs @ [x]) ! length xs = x"
  by simp

lemma list_all_set_conv: "(\<forall>x\<in>set xs. P x) \<longleftrightarrow> list_all P xs"
  by (simp add: list_all_iff)

lemma ex_take_Cons:
  "(\<exists>n\<le>length (e # es). P (take n (e # es))) \<longleftrightarrow> P [] \<or> (\<exists>n\<le>length es. P (e # take n es))"
  (is "?l \<longleftrightarrow> ?r")
proof
  assume ?l
  then obtain n where n: "n \<le> length (e # es)" "P (take n (e # es))" by blast
  then show ?r by (cases n) auto
next
  assume ?r
  then show ?l
  proof
    assume "P []"
    then show ?l by (intro exI [of _ 0]) simp
  next
    assume "\<exists>n\<le>length es. P (e # take n es)"
    then obtain n where "n \<le> length es" "P (e # take n es)" by blast
    then show ?l by (intro exI [of _ "Suc n"]) simp
  qed
qed

end
