(* ===== verification/Strconv.thy ===== *)
theory Strconv
  imports Prelude
begin

text \<open>
  Package strconv as the agent uses it: Itoa / FormatInt in base 10, ParseInt with its
  base and bit-size arguments, and Atoi.  The source has no such file: these definitions
  are the standard library the mapped components call, so they have no map entry.

  ParseInt returns a value together with an error.  On a range error the value is the
  nearest representable number, which callers that drop the error (parseInt64, parseInt)
  do observe, so both components are kept.
\<close>

section \<open>Formatting\<close>

definition digit_char :: "nat \<Rightarrow> char" where
  "digit_char d = char_of (48 + d)"

fun nat_digits :: "nat \<Rightarrow> string" where
  "nat_digits n = (if n < 10 then [digit_char n] else nat_digits (n div 10) @ [digit_char (n mod 10)])"

declare nat_digits.simps [simp del]

definition itoa :: "int \<Rightarrow> string" where
  "itoa i = (if i < 0 then CHR ''-'' # nat_digits (nat (- i)) else nat_digits (nat i))"

section \<open>Parsing\<close>

datatype num_error = SyntaxError | RangeError

text \<open>The value of a digit character in bases up to 36; letters of either case.\<close>

definition digit_val :: "char \<Rightarrow> int option" where
  "digit_val c =
     (let n = of_char c :: int in
      if 48 \<le> n \<and> n \<le> 57 then Some (n - 48)
      else if 97 \<le> n \<and> n \<le> 122 then Some (n - 97 + 10)
      else if 65 \<le> n \<and> n \<le> 90 then Some (n - 65 + 10)
      else None)"

text \<open>
  The digit loop of ParseUint: acc is the value read so far, limit the largest value of
  the bit size.  The flag base0 allows underscores, whose placement is checked afterwards.
\<close>

fun uint_loop :: "bool \<Rightarrow> int \<Rightarrow> int \<Rightarrow> int \<Rightarrow> string \<Rightarrow> int \<times> num_error option" where
  "uint_loop base0 base limit acc [] = (acc, None)"
| "uint_loop base0 base limit acc (c # cs) =
     (if c = CHR ''_'' \<and> base0 then uint_loop base0 base limit acc cs
      else case digit_val c of
             None \<Rightarrow> (0, Some SyntaxError)
           | Some d \<Rightarrow>
               if base \<le> d then (0, Some SyntaxError)
               else if limit < acc * base + d then (limit, Some RangeError)
               else uint_loop base0 base limit (acc * base + d) cs)"

text \<open>underscoreOK: the class of the byte just read; a string may not end in Under.\<close>

datatype us_class = Start | Digit | Under | Other

fun underscore_scan :: "bool \<Rightarrow> us_class \<Rightarrow> string \<Rightarrow> bool" where
  "underscore_scan hex k [] = (k \<noteq> Under)"
| "underscore_scan hex k (c # cs) =
     (if (case digit_val c of Some d \<Rightarrow> d < 10 \<or> (hex \<and> d < 16) | None \<Rightarrow> False)
      then underscore_scan hex Digit cs
      else if c = CHR ''_'' then k = Digit \<and> underscore_scan hex Under cs
      else k \<noteq> Under \<and> underscore_scan hex Other cs)"

definition base_prefix :: "string \<Rightarrow> int option" where
  "base_prefix s =
     (case s of
        z # p # _ \<Rightarrow>
          if z \<noteq> CHR ''0'' then None
          else if p \<in> {CHR ''b'', CHR ''B''} then Some 2
          else if p \<in> {CHR ''o'', CHR ''O''} then Some 8
          else if p \<in> {CHR ''x'', CHR ''X''} then Some 16
          else None
      | _ \<Rightarrow> None)"

definition underscore_ok :: "string \<Rightarrow> bool" where
  "underscore_ok s =
     (case base_prefix s of
        Some b \<Rightarrow> underscore_scan (b = 16) Digit (drop 2 s)
      | None \<Rightarrow> underscore_scan False Start s)"

text \<open>The base and the digits that ParseUint settles on.\<close>

definition choose_base :: "int \<Rightarrow> string \<Rightarrow> int \<times> string" where
  "choose_base base s =
     (if base \<noteq> 0 then (base, s)
      else if hd s \<noteq> CHR ''0'' then (10, s)
      else case base_prefix s of
             Some p \<Rightarrow> if 3 \<le> length s then (p, drop 2 s) else (8, tl s)
           | None \<Rightarrow> (8, tl s))"

definition parse_uint :: "string \<Rightarrow> int \<Rightarrow> nat \<Rightarrow> int \<times> num_error option" where
  "parse_uint s base bits =
     (if s = [] then (0, Some SyntaxError)
      else
        let (b, body) = choose_base base s;
            r = uint_loop (base = 0) b (2 ^ bits - 1) 0 body
        in if snd r = None \<and> base = 0 \<and> CHR ''_'' \<in> set body \<and> \<not> underscore_ok s
           then (0, Some SyntaxError) else r)"

definition parse_int :: "string \<Rightarrow> int \<Rightarrow> nat \<Rightarrow> int \<times> num_error option" where
  "parse_int s base bits =
     (if s = [] then (0, Some SyntaxError)
      else
        let neg = (hd s = CHR ''-'');
            body = (if hd s = CHR ''+'' \<or> neg then tl s else s);
            (un, err) = parse_uint body base bits
        in if err = Some SyntaxError then (0, Some SyntaxError)
           else if \<not> neg \<and> 2 ^ (bits - 1) \<le> un then (2 ^ (bits - 1) - 1, Some RangeError)
           else if neg \<and> 2 ^ (bits - 1) < un then (- (2 ^ (bits - 1)), Some RangeError)
           else (if neg then - un else un, None))"

definition atoi :: "string \<Rightarrow> int \<times> num_error option" where
  "atoi s = parse_int s 10 64"

section \<open>Facts\<close>

lemma of_char_digit [simp]: "d < 10 \<Longrightarrow> of_char (digit_char d) = 48 + d"
  by (simp add: digit_char_def)

lemma digit_val_digit [simp]: "d < 10 \<Longrightarrow> digit_val (digit_char d) = Some (int d)"
proof -
  assume "d < 10"
  then have "(of_char (digit_char d) :: int) = 48 + int d"
    by (metis of_char_digit of_nat_of_char of_nat_add of_nat_numeral)
  with \<open>d < 10\<close> show ?thesis by (simp add: digit_val_def)
qed

lemma digit_char_eq:
  "d < 10 \<Longrightarrow> digit_char d = c \<Longrightarrow> 48 \<le> (of_char c :: nat) \<and> (of_char c :: nat) \<le> 57"
  by (auto simp: digit_char_def)

lemma digit_char_0 [simp]: "d < 10 \<Longrightarrow> digit_char d = CHR ''0'' \<longleftrightarrow> d = 0"
proof
  assume "d < 10" "digit_char d = CHR ''0''"
  then have "48 + d = (of_char CHR ''0'' :: nat)" by (metis of_char_digit)
  then show "d = 0" by simp
next
  show "d = 0 \<Longrightarrow> digit_char d = CHR ''0''" by (simp add: digit_char_def, code_simp)
qed

lemma nat_digits_not_Nil [simp]: "nat_digits n \<noteq> []"
  by (subst nat_digits.simps) simp

lemma set_nat_digits: "c \<in> set (nat_digits n) \<Longrightarrow> \<exists>d<10. c = digit_char d"
proof (induction n rule: nat_digits.induct)
  case (1 n)
  then show ?case
    by (subst (asm) (2) nat_digits.simps) (auto split: if_splits intro: exI [of _ "n mod 10"])
qed

lemma hd_nat_digits: "hd (nat_digits n) = CHR ''0'' \<longleftrightarrow> n = 0"
proof (induction n rule: nat_digits.induct)
  case (1 n)
  show ?case
  proof (cases "n < 10")
    case True
    then show ?thesis by (subst nat_digits.simps) simp
  next
    case False
    with 1 have "hd (nat_digits (n div 10)) = CHR ''0'' \<longleftrightarrow> n div 10 = 0" by simp
    with False show ?thesis by (subst nat_digits.simps) simp
  qed
qed

lemma nat_digits_no_char:
  "(of_char c :: nat) < 48 \<or> 57 < (of_char c :: nat) \<Longrightarrow> c \<notin> set (nat_digits n)"
  by (metis digit_char_eq set_nat_digits linorder_not_less)

lemma hd_nat_digits_neq:
  "(of_char c :: nat) < 48 \<or> 57 < (of_char c :: nat) \<Longrightarrow> hd (nat_digits n) \<noteq> c"
  by (metis hd_in_set nat_digits_no_char nat_digits_not_Nil)

text \<open>Every prefix of a number stays below it, so the digit loop never sees the limit.\<close>

lemma uint_loop_append:
  "uint_loop f b l a (xs @ ys) =
     (case uint_loop f b l a xs of (v, None) \<Rightarrow> uint_loop f b l v ys | r \<Rightarrow> r)"
  by (induction f b l a xs rule: uint_loop.induct) (auto split: option.splits)

lemma uint_loop_nat_digits:
  "int n \<le> l \<Longrightarrow> uint_loop f 10 l 0 (nat_digits n) = (int n, None)"
proof (induction n rule: nat_digits.induct)
  case (1 n)
  have under: "d < 10 \<Longrightarrow> digit_char d \<noteq> CHR ''_''" for d
    by (auto dest: digit_char_eq)
  show ?case
  proof (cases "n < 10")
    case True
    with "1.prems" under show ?thesis by (subst nat_digits.simps) simp
  next
    case False
    with 1 have IH: "uint_loop f 10 l 0 (nat_digits (n div 10)) = (int (n div 10), None)" by simp
    have "int (n div 10) * 10 + int (n mod 10) = int n"
      by (metis div_mult_mod_eq of_nat_add of_nat_mult of_nat_numeral)
    with "1.prems" False under [of "n mod 10"] IH show ?thesis
      by (subst nat_digits.simps) (simp add: uint_loop_append)
  qed
qed

lemma choose_base_nat_digits:
  "b = 10 \<or> b = 0 \<and> n \<noteq> 0 \<Longrightarrow> choose_base b (nat_digits n) = (10, nat_digits n)"
  by (auto simp: choose_base_def hd_nat_digits)

lemma parse_uint_nat_digits:
  assumes "b = 10 \<or> b = 0" and "int n < 2 ^ bits"
  shows "parse_uint (nat_digits n) b bits = (int n, None)"
proof (cases "b = 0 \<and> n = 0")
  case True
  then show ?thesis
    by (simp add: parse_uint_def choose_base_def nat_digits.simps base_prefix_def)
next
  case False
  with assms(1) have "choose_base b (nat_digits n) = (10, nat_digits n)"
    by (intro choose_base_nat_digits) auto
  moreover have "CHR ''_'' \<notin> set (nat_digits n)"
    by (rule nat_digits_no_char) simp
  ultimately show ?thesis
    using assms(2) by (simp add: parse_uint_def uint_loop_nat_digits)
qed

lemma parse_int_itoa:
  assumes b: "b = 10 \<or> b = 0" and lo: "- (2 ^ bits) \<le> i" and hi: "i < 2 ^ bits"
  shows "parse_int (itoa i) b (Suc bits) = (i, None)"
proof (cases "i < 0")
  case True
  with lo have "int (nat (- i)) < 2 ^ Suc bits" by simp
  with True lo parse_uint_nat_digits [OF b this] show ?thesis
    by (simp add: parse_int_def itoa_def)
next
  case False
  with hi have "int (nat i) < 2 ^ Suc bits" by simp
  moreover have "hd (nat_digits (nat i)) \<noteq> CHR ''-''" and "hd (nat_digits (nat i)) \<noteq> CHR ''+''"
    by (rule hd_nat_digits_neq; simp)+
  ultimately show ?thesis
    using False hi parse_uint_nat_digits [OF b, of "nat i" "Suc bits"]
    by (simp add: parse_int_def itoa_def)
qed

lemma itoa_inject [simp]: "itoa i = itoa j \<longleftrightarrow> i = j"
proof -
  define n where "n = nat (\<bar>i\<bar> + \<bar>j\<bar>)"
  have "int n < 2 ^ n" using less_exp [of n] by (metis of_nat_less_iff of_nat_numeral of_nat_power)
  moreover have "int n = \<bar>i\<bar> + \<bar>j\<bar>" by (simp add: n_def)
  ultimately have "- (2 ^ n) \<le> i \<and> i < 2 ^ n" "- (2 ^ n) \<le> j \<and> j < 2 ^ n" by linarith+
  then show ?thesis using parse_int_itoa [of 10] by (metis prod.inject)
qed

lemma itoa_no_char:
  "c \<noteq> CHR ''-'' \<Longrightarrow> (of_char c :: nat) < 48 \<or> 57 < (of_char c :: nat) \<Longrightarrow> c \<notin> set (itoa i)"
  by (auto simp: itoa_def nat_digits_no_char)

lemma itoa_not_Nil [simp]: "itoa i \<noteq> []"
  by (simp add: itoa_def)

text \<open>A parse that reports no error fits the bit size.\<close>

lemma digit_val_nonneg: "digit_val c = Some d \<Longrightarrow> 0 \<le> d"
  by (auto simp: digit_val_def Let_def split: if_splits)

lemma uint_loop_nonneg:
  "0 \<le> a \<Longrightarrow> 0 \<le> b \<Longrightarrow> 0 \<le> l \<Longrightarrow> 0 \<le> fst (uint_loop f b l a s)"
  by (induction f b l a s rule: uint_loop.induct)
    (auto split: option.splits simp: add_nonneg_nonneg [OF mult_nonneg_nonneg digit_val_nonneg])

lemma choose_base_nonneg: "0 \<le> b \<Longrightarrow> 0 \<le> fst (choose_base b s)"
  by (auto simp: choose_base_def base_prefix_def split: list.splits option.splits)

lemma parse_uint_nonneg: "0 \<le> b \<Longrightarrow> 0 \<le> fst (parse_uint s b bits)"
  using choose_base_nonneg [of b s]
  by (auto simp: parse_uint_def Let_def split: prod.splits
      intro!: uint_loop_nonneg dest: arg_cong [where f = fst])

lemma parse_int_range:
  assumes "0 \<le> b" and "parse_int s b (Suc bits) = (i, None)"
  shows "i < 2 ^ bits \<and> - (2 ^ bits) \<le> i"
proof -
  have "(0::int) < 2 ^ bits" by simp
  then have "0 \<le> x \<Longrightarrow> - x < 2 ^ bits" for x :: int by linarith
  then show ?thesis
    using assms(2) parse_uint_nonneg [OF assms(1), of s "Suc bits"]
      parse_uint_nonneg [OF assms(1), of "tl s" "Suc bits"]
    by (auto simp: parse_int_def Let_def split: prod.splits if_splits)
qed

end
