(* ===== verification/Base64.thy ===== *)
theory Base64
  imports Prelude
begin

text \<open>
  Package encoding/base64, base64.StdEncoding: the padded, non-strict encoding that the
  propagation headers use.  As in Go, decoding skips the bytes CR and LF, refuses
  misplaced padding and anything after it, and ignores the unused low bits of the last
  sextet.  Error offsets are not kept, since every caller drops the decoded prefix and
  wraps the error.
\<close>

section \<open>Sextets and characters\<close>

definition b64_pad :: char where
  "b64_pad = CHR ''=''"

text \<open>The alphabet A-Z a-z 0-9 + / as a function on sextets.\<close>

definition sextet_code :: "nat \<Rightarrow> nat" where
  "sextet_code n =
     (if n < 26 then 65 + n
      else if n < 52 then 97 + (n - 26)
      else if n < 62 then 48 + (n - 52)
      else if n = 62 then 43
      else 47)"

definition enc_sextet :: "nat \<Rightarrow> char" where
  "enc_sextet n = char_of (sextet_code n)"

definition dec_sextet :: "char \<Rightarrow> nat option" where
  "dec_sextet c =
     (let n = of_char c :: nat in
      if 65 \<le> n \<and> n \<le> 90 then Some (n - 65)
      else if 97 \<le> n \<and> n \<le> 122 then Some (n - 97 + 26)
      else if 48 \<le> n \<and> n \<le> 57 then Some (n - 48 + 52)
      else if n = 43 then Some 62
      else if n = 47 then Some 63
      else None)"

section \<open>Quanta\<close>

fun enc_bytes :: "nat list \<Rightarrow> string" where
  "enc_bytes [] = []"
| "enc_bytes [x] =
     [enc_sextet (x div 4), enc_sextet (x mod 4 * 16), b64_pad, b64_pad]"
| "enc_bytes [x, y] =
     [enc_sextet (x div 4), enc_sextet (x mod 4 * 16 + y div 16),
      enc_sextet (y mod 16 * 4), b64_pad]"
| "enc_bytes (x # y # z # bs) =
     enc_sextet (x div 4) # enc_sextet (x mod 4 * 16 + y div 16) #
     enc_sextet (y mod 16 * 4 + z div 64) # enc_sextet (z mod 64) # enc_bytes bs"

fun dec_bytes :: "string \<Rightarrow> nat list option" where
  "dec_bytes [] = Some []"
| "dec_bytes (a # b # c # d # r) =
     (case dec_sextet a of None \<Rightarrow> None | Some p \<Rightarrow>
      case dec_sextet b of None \<Rightarrow> None | Some q \<Rightarrow>
      if c = b64_pad
      then (if d = b64_pad \<and> r = [] then Some [p * 4 + q div 16] else None)
      else
        (case dec_sextet c of None \<Rightarrow> None | Some s \<Rightarrow>
         if d = b64_pad
         then (if r = [] then Some [p * 4 + q div 16, q mod 16 * 16 + s div 4] else None)
         else
           (case dec_sextet d of None \<Rightarrow> None | Some t \<Rightarrow>
            case dec_bytes r of None \<Rightarrow> None | Some bs \<Rightarrow>
              Some ((p * 4 + q div 16) # (q mod 16 * 16 + s div 4) # (s mod 4 * 64 + t) # bs))))"
| "dec_bytes _ = None"

definition b64_encode :: "string \<Rightarrow> string" where
  "b64_encode s = enc_bytes (map of_char s)"

definition b64_decode :: "string \<Rightarrow> string option" where
  "b64_decode s =
     map_option (map char_of) (dec_bytes (filter (\<lambda>c. c \<noteq> CHR 0x0A \<and> c \<noteq> CHR 0x0D) s))"

section \<open>The round trip\<close>

lemma of_char_enc_sextet [simp]: "n < 64 \<Longrightarrow> of_char (enc_sextet n) = sextet_code n"
  by (simp add: enc_sextet_def sextet_code_def)

lemma dec_enc_sextet [simp]: "n < 64 \<Longrightarrow> dec_sextet (enc_sextet n) = Some n"
  by (auto simp: dec_sextet_def sextet_code_def Let_def)

lemma enc_sextet_neq:
  "n < 64 \<Longrightarrow> (\<forall>k<64. sextet_code k \<noteq> of_char c) \<Longrightarrow> enc_sextet n \<noteq> c"
  by (metis of_char_enc_sextet)

lemma enc_sextet_pad [simp]: "n < 64 \<Longrightarrow> enc_sextet n \<noteq> b64_pad"
  by (rule enc_sextet_neq) (auto simp: sextet_code_def b64_pad_def)

lemma sextet_bounds [simp]:
  "x < 256 \<Longrightarrow> x div 4 < (64::nat)"
  "x mod 4 * 16 < (64::nat)"
  "y < 256 \<Longrightarrow> x mod 4 * 16 + y div 16 < (64::nat)"
  "x mod 16 * 4 < (64::nat)"
  "y < 256 \<Longrightarrow> x mod 16 * 4 + y div 64 < (64::nat)"
  "x mod 64 < (64::nat)"
  by linarith+

lemma sextet_join [simp]:
  fixes y :: nat
  assumes "y < 256"
  shows "y div 16 div 16 = 0" and "y div 16 mod 16 = y div 16"
    and "y div 64 div 4 = 0" and "y div 64 mod 4 = y div 64"
  using assms by simp_all

lemma dec_enc_bytes: "\<forall>b\<in>set bs. b < 256 \<Longrightarrow> dec_bytes (enc_bytes bs) = Some bs"
  by (induction bs rule: enc_bytes.induct) simp_all

definition b64_chars :: "char set" where
  "b64_chars = insert b64_pad (enc_sextet ` {..<64})"

lemma enc_sextet_in [simp]: "n < 64 \<Longrightarrow> enc_sextet n \<in> b64_chars"
  by (simp add: b64_chars_def)

lemma b64_pad_in [simp]: "b64_pad \<in> b64_chars"
  by (simp add: b64_chars_def)

lemma enc_bytes_set: "\<forall>b\<in>set bs. b < 256 \<Longrightarrow> set (enc_bytes bs) \<subseteq> b64_chars"
  by (induction bs rule: enc_bytes.induct) simp_all

lemma b64_encode_set: "set (b64_encode s) \<subseteq> b64_chars"
  unfolding b64_encode_def by (rule enc_bytes_set) auto

lemma notin_b64_chars:
  "c \<noteq> b64_pad \<Longrightarrow> \<forall>k<64. sextet_code k \<noteq> of_char c \<Longrightarrow> c \<notin> b64_chars"
  by (auto simp: b64_chars_def dest: enc_sextet_neq)

lemma separators_notin [simp]:
  "CHR 0x0A \<notin> b64_chars" "CHR 0x0D \<notin> b64_chars"
  "CHR ''-'' \<notin> b64_chars" "CHR '','' \<notin> b64_chars" "CHR '':'' \<notin> b64_chars"
  by (rule notin_b64_chars; auto simp: b64_pad_def sextet_code_def)+

lemma b64_encode_no_char: "c \<notin> b64_chars \<Longrightarrow> c \<notin> set (b64_encode s)"
  using b64_encode_set by blast

lemma b64_encode_eq_Nil [simp]: "b64_encode s = [] \<longleftrightarrow> s = []"
  unfolding b64_encode_def by (cases "map of_char s :: nat list" rule: enc_bytes.cases) auto

lemma filter_newline_encode:
  "filter (\<lambda>c. c \<noteq> CHR 0x0A \<and> c \<noteq> CHR 0x0D) (b64_encode s) = b64_encode s"
proof -
  have "CHR 0x0A \<notin> set (b64_encode s)" and "CHR 0x0D \<notin> set (b64_encode s)"
    by (rule b64_encode_no_char; simp)+
  then show ?thesis by (auto simp: filter_id_conv)
qed

lemma b64_decode_encode [simp]: "b64_decode (b64_encode s) = Some s"
proof -
  have "dec_bytes (b64_encode s) = Some (map of_char s)"
    unfolding b64_encode_def by (rule dec_enc_bytes) auto
  then show ?thesis
    unfolding b64_decode_def filter_newline_encode by (simp add: comp_def)
qed

lemma b64_encode_inj: "b64_encode s = b64_encode t \<longleftrightarrow> s = t"
  by (metis b64_decode_encode option.inject)

end
