(* ===== verification/Propagation.thy ===== *)
theory Propagation
  imports Strconv Base64
begin

text \<open>
  The cross-process propagation format (plugins/core/propagating.go): the wire struct
  SpanContext, the sw8 header (eight fields joined by a dash) and the sw8-correlation
  header (key:value pairs joined by commas), all text base64-coded.

  The carrier of a message (HTTP headers, message properties, ...) is the client's: the
  injector and extractor closures are arguments of encode and decode, and what they must
  satisfy is the locale carrier.
\<close>

section \<open>Data\<close>

record span_context =
  sc_trace_id :: string
  sc_parent_segment_id :: string
  sc_parent_service :: string
  sc_parent_service_instance :: string
  sc_parent_endpoint :: string
  sc_address_used_at_client :: string
  sc_parent_span_id :: i32
  sc_sample :: i8
  sc_valid :: bool
  sc_correlation :: "string \<rightharpoonup> string"

text \<open>The zero value, as built by the composite literal with no field.\<close>

definition empty_span_context :: span_context where
  "empty_span_context =
     \<lparr>sc_trace_id = [], sc_parent_segment_id = [], sc_parent_service = [],
      sc_parent_service_instance = [], sc_parent_endpoint = [], sc_address_used_at_client = [],
      sc_parent_span_id = 0, sc_sample = 0, sc_valid = False, sc_correlation = Map.empty\<rparr>"

datatype 'x decode_error =
    EmptyHeader
  | InsufficientHeaderEntities
  | BadSample
  | BadTraceId
  | BadParentSegmentId
  | BadParentSpanId
  | BadParentService
  | BadParentServiceInstance
  | BadParentEndpoint
  | BadNetworkAddress
  | ExtractorError 'x

definition Header :: string where "Header = ''sw8''"
definition HeaderCorrelation :: string where "HeaderCorrelation = ''sw8-correlation''"
definition headerLen :: nat where "headerLen = 8"

section \<open>Decoding\<close>

text \<open>decodeBase64 followed by its error check: the field is assigned in both cases.\<close>

definition try_b64 ::
    "string \<Rightarrow> (string \<Rightarrow> span_context \<Rightarrow> span_context) \<Rightarrow> 'x decode_error \<Rightarrow>
     (span_context \<Rightarrow> span_context \<times> 'x decode_error option) \<Rightarrow>
     span_context \<Rightarrow> span_context \<times> 'x decode_error option" where
  "try_b64 raw upd err k s =
     (case b64_decode raw of
        None \<Rightarrow> (upd [] s, Some err)
      | Some v \<Rightarrow> k (upd v s))"

text \<open>stringConvertInt32: base 0, so a leading zero or 0x selects the base.\<close>

definition stringConvertInt32 :: "string \<Rightarrow> i32 \<times> num_error option" where
  "stringConvertInt32 str = (let (i, err) = parse_int str 0 32 in (word_of_int i, err))"

definition DecodeSW8 :: "string \<Rightarrow> span_context \<Rightarrow> span_context \<times> 'x decode_error option" where
  "DecodeSW8 header s =
     (if header = [] then (s, Some EmptyHeader)
      else
        let hh = split_on CHR ''-'' header in
        if length hh < headerLen then (s, Some InsufficientHeaderEntities)
        else
          case parse_int (hh ! 0) 10 8 of
            (_, Some _) \<Rightarrow> (s, Some BadSample)
          | (sample, None) \<Rightarrow>
              try_b64 (hh ! 1) (\<lambda>v. sc_trace_id_update (\<lambda>_. v)) BadTraceId
              (try_b64 (hh ! 2) (\<lambda>v. sc_parent_segment_id_update (\<lambda>_. v)) BadParentSegmentId
              (\<lambda>s. let (i, err) = stringConvertInt32 (hh ! 3);
                       s = s\<lparr>sc_parent_span_id := i\<rparr> in
                   if err \<noteq> None then (s, Some BadParentSpanId)
                   else
                     try_b64 (hh ! 4) (\<lambda>v. sc_parent_service_update (\<lambda>_. v)) BadParentService
                     (try_b64 (hh ! 5) (\<lambda>v. sc_parent_service_instance_update (\<lambda>_. v))
                        BadParentServiceInstance
                     (try_b64 (hh ! 6) (\<lambda>v. sc_parent_endpoint_update (\<lambda>_. v)) BadParentEndpoint
                     (try_b64 (hh ! 7) (\<lambda>v. sc_address_used_at_client_update (\<lambda>_. v))
                        BadNetworkAddress
                     (\<lambda>s. (s\<lparr>sc_valid := True\<rparr>, None))))) s))
              (s\<lparr>sc_sample := word_of_int sample\<rparr>))"

text \<open>One comma-separated entry of sw8-correlation; a malformed one is skipped.\<close>

definition decode_correlation_entry ::
    "(string \<rightharpoonup> string) \<Rightarrow> string \<Rightarrow> (string \<rightharpoonup> string)" where
  "decode_correlation_entry m entry =
     (case split_on CHR '':'' entry of
        [rawKey, rawValue] \<Rightarrow>
          (case b64_decode rawKey of
             None \<Rightarrow> m
           | Some k \<Rightarrow> (case b64_decode rawValue of None \<Rightarrow> m | Some v \<Rightarrow> m(k \<mapsto> v)))
      | _ \<Rightarrow> m)"

definition DecodeSW8Correlation :: "string \<Rightarrow> span_context \<Rightarrow> span_context \<times> 'x decode_error option" where
  "DecodeSW8Correlation header s =
     (s\<lparr>sc_correlation :=
          (if header = [] then Map.empty
           else foldl decode_correlation_entry Map.empty (split_on CHR '','' header))\<rparr>, None)"

text \<open>The private helper decode: read one header and hand a non-empty one to a decoder.\<close>

definition decode_header ::
    "(string \<Rightarrow> ('x, string) result) \<Rightarrow> string \<Rightarrow>
     (string \<Rightarrow> span_context \<Rightarrow> span_context \<times> 'x decode_error option) \<Rightarrow>
     span_context \<Rightarrow> span_context \<times> 'x decode_error option" where
  "decode_header extractor headerKey decoder s =
     (case extractor headerKey of
        Inl e \<Rightarrow> (s, Some (ExtractorError e))
      | Inr val \<Rightarrow> if val = [] then (s, None) else decoder val s)"

definition Decode ::
    "(string \<Rightarrow> ('x, string) result) \<Rightarrow> span_context \<Rightarrow> span_context \<times> 'x decode_error option" where
  "Decode extractor s0 =
     (let s = s0\<lparr>sc_valid := False\<rparr> in
      case decode_header extractor Header DecodeSW8 s of
        (s, Some err) \<Rightarrow> (s, Some err)
      | (s, None) \<Rightarrow> decode_header extractor HeaderCorrelation DecodeSW8Correlation s)"

section \<open>Encoding\<close>

definition EncodeSW8 :: "span_context \<Rightarrow> string" where
  "EncodeSW8 s = join ''-''
     [itoa (sint (sc_sample s)),
      b64_encode (sc_trace_id s),
      b64_encode (sc_parent_segment_id s),
      itoa (sint (sc_parent_span_id s)),
      b64_encode (sc_parent_service s),
      b64_encode (sc_parent_service_instance s),
      b64_encode (sc_parent_endpoint s),
      b64_encode (sc_address_used_at_client s)]"

text \<open>
  Go ranges over the map in an unspecified order, so the order is an argument: ks
  enumerates the keys of the map, each once.
\<close>

definition range_order :: "string list \<Rightarrow> (string \<rightharpoonup> 'v) \<Rightarrow> bool" where
  "range_order ks m \<longleftrightarrow> distinct ks \<and> set ks = dom m"

definition encode_correlation_entry :: "(string \<rightharpoonup> string) \<Rightarrow> string \<Rightarrow> string" where
  "encode_correlation_entry m k =
     b64_encode k @ '':'' @ b64_encode (case m k of Some v \<Rightarrow> v | None \<Rightarrow> [])"

definition EncodeSW8Correlation :: "string list \<Rightarrow> span_context \<Rightarrow> string" where
  "EncodeSW8Correlation ks s =
     (if ks = [] then [] else join '','' (map (encode_correlation_entry (sc_correlation s)) ks))"

text \<open>The injector writes into the carrier 'c and may fail.\<close>

definition Encode ::
    "('c \<Rightarrow> string \<Rightarrow> string \<Rightarrow> 'c \<times> 'x option) \<Rightarrow> string list \<Rightarrow> span_context \<Rightarrow> 'c \<Rightarrow> 'c \<times> 'x option" where
  "Encode injector ks s c =
     (case injector c Header (EncodeSW8 s) of
        (c, Some err) \<Rightarrow> (c, Some err)
      | (c, None) \<Rightarrow> injector c HeaderCorrelation (EncodeSW8Correlation ks s))"

section \<open>The sw8 header\<close>

lemmas sw8_simps = try_b64_def stringConvertInt32_def headerLen_def Let_def

lemma header_keys_neq [simp]: "Header \<noteq> HeaderCorrelation" "HeaderCorrelation \<noteq> Header"
  by (simp_all add: Header_def HeaderCorrelation_def)

lemma itoa_signed_no_separator [simp]: "CHR '','' \<notin> set (itoa i)" "CHR '':'' \<notin> set (itoa i)"
  by (rule itoa_no_char; simp)+

text \<open>
  A negative number is printed with a minus sign, which is the field separator: the header
  of a span context with a negative sample or parent span id does not parse.
\<close>

lemma itoa_nonneg_no_dash: "0 \<le> i \<Longrightarrow> CHR ''-'' \<notin> set (itoa i)"
  by (simp add: itoa_def nat_digits_no_char)

lemma split_EncodeSW8:
  assumes "0 \<le> sint (sc_sample s)" and "0 \<le> sint (sc_parent_span_id s)"
  shows "split_on CHR ''-'' (EncodeSW8 s) =
    [itoa (sint (sc_sample s)), b64_encode (sc_trace_id s), b64_encode (sc_parent_segment_id s),
     itoa (sint (sc_parent_span_id s)), b64_encode (sc_parent_service s),
     b64_encode (sc_parent_service_instance s), b64_encode (sc_parent_endpoint s),
     b64_encode (sc_address_used_at_client s)]"
  unfolding EncodeSW8_def using assms
  by (intro split_on_join) (simp_all add: itoa_nonneg_no_dash b64_encode_no_char)

lemma EncodeSW8_not_Nil [simp]: "EncodeSW8 s \<noteq> []"
  by (simp add: EncodeSW8_def)

lemma parse_sample: "parse_int (itoa (sint (x :: i8))) 10 8 = (sint x, None)"
  using parse_int_itoa [of 10 7 "sint x"] sint_ge [of x] sint_lt [of x] by simp

lemma parse_span_id: "parse_int (itoa (sint (x :: i32))) 0 32 = (sint x, None)"
  using parse_int_itoa [of 0 31 "sint x"] sint_ge [of x] sint_lt [of x] by simp

lemma DecodeSW8_EncodeSW8:
  assumes "0 \<le> sint (sc_sample s)" and "0 \<le> sint (sc_parent_span_id s)"
  shows "DecodeSW8 (EncodeSW8 s) t =
    (s\<lparr>sc_valid := True, sc_correlation := sc_correlation t\<rparr>, None)"
  unfolding DecodeSW8_def split_EncodeSW8 [OF assms]
  by (simp add: sw8_simps parse_sample parse_span_id)

section \<open>The sw8-correlation header\<close>

lemma split_entry:
  "split_on CHR '':'' (encode_correlation_entry m k) =
     [b64_encode k, b64_encode (case m k of Some v \<Rightarrow> v | None \<Rightarrow> [])]"
  unfolding encode_correlation_entry_def
  by (simp add: split_on_append b64_encode_no_char)

lemma decode_entry:
  "m k = Some v \<Longrightarrow> decode_correlation_entry acc (encode_correlation_entry m k) = acc(k \<mapsto> v)"
  by (simp add: decode_correlation_entry_def split_entry)

lemma entry_no_comma: "CHR '','' \<notin> set (encode_correlation_entry m k)"
  by (simp add: encode_correlation_entry_def b64_encode_no_char)

lemma entry_not_Nil: "encode_correlation_entry m k \<noteq> []"
  by (simp add: encode_correlation_entry_def)

lemma decode_entries:
  "set ks \<subseteq> dom m \<Longrightarrow>
   foldl decode_correlation_entry acc (map (encode_correlation_entry m) ks) = acc ++ (m |` set ks)"
proof (induction ks arbitrary: acc)
  case (Cons k ks)
  then obtain v where v: "m k = Some v" by auto
  have "acc(k \<mapsto> v) ++ (m |` set ks) = acc ++ (m |` set (k # ks))"
    using v by (auto simp: fun_eq_iff map_add_def restrict_map_def split: option.splits)
  with Cons v show ?case by (simp add: decode_entry)
qed simp

lemma DecodeSW8Correlation_Encode:
  assumes "range_order ks (sc_correlation s)"
  shows "DecodeSW8Correlation (EncodeSW8Correlation ks s) t =
    (t\<lparr>sc_correlation := sc_correlation s\<rparr>, None)"
proof (cases "ks = []")
  case True
  with assms have "sc_correlation s = Map.empty" by (auto simp: range_order_def)
  with True show ?thesis by (simp add: DecodeSW8Correlation_def EncodeSW8Correlation_def)
next
  case False
  let ?es = "map (encode_correlation_entry (sc_correlation s)) ks"
  from False have "split_on CHR '','' (join '','' ?es) = ?es"
    by (intro split_on_join) (auto simp: entry_no_comma)
  moreover have "join '','' ?es \<noteq> []"
    using False by (auto simp: join_eq_Nil entry_not_Nil Cons_eq_map_conv)
  moreover have "(sc_correlation s) |` set ks = sc_correlation s"
    using assms by (auto simp: range_order_def restrict_map_def fun_eq_iff)
  ultimately show ?thesis
    using assms False decode_entries [of ks "sc_correlation s" Map.empty]
    by (simp add: DecodeSW8Correlation_def EncodeSW8Correlation_def range_order_def)
qed

section \<open>Validity and errors\<close>

text \<open>Every field decoder below ends with an error or with the valid flag set.\<close>

definition valid_or_error :: "span_context \<times> 'x decode_error option \<Rightarrow> bool" where
  "valid_or_error r \<longleftrightarrow> sc_valid (fst r) = (snd r = None)"

lemma DecodeSW8_valid:
  "\<not> sc_valid s \<Longrightarrow> valid_or_error (DecodeSW8 h s :: span_context \<times> 'x decode_error option)"
  unfolding DecodeSW8_def valid_or_error_def
  by (auto simp: sw8_simps split: option.splits prod.splits)

lemma DecodeSW8_few_fields:
  "length (split_on CHR ''-'' h) < 8 \<Longrightarrow> h \<noteq> [] \<Longrightarrow>
   DecodeSW8 h s = (s, Some InsufficientHeaderEntities)"
  by (simp add: DecodeSW8_def headerLen_def)

section \<open>Carriers\<close>

text \<open>
  What the propagation relies on when a client carries headers: writing a key that is
  still fresh makes it readable, and writing a key changes no other key.
\<close>

definition propagation_keys :: "string set" where
  "propagation_keys = {Header, HeaderCorrelation}"

locale carrier =
  fixes write_key :: "'c \<Rightarrow> string \<Rightarrow> string \<Rightarrow> 'c \<times> 'x option"
    and read_key :: "'c \<Rightarrow> string \<Rightarrow> ('x, string) result"
    and fresh :: "string \<Rightarrow> 'c \<Rightarrow> bool"
  assumes write_ok: "k \<in> propagation_keys \<Longrightarrow> snd (write_key c k v) = None"
    and read_write: "k \<in> propagation_keys \<Longrightarrow> fresh k c \<Longrightarrow> read_key (fst (write_key c k v)) k = Inr v"
    and read_other: "{k, k'} \<subseteq> propagation_keys \<Longrightarrow> k \<noteq> k' \<Longrightarrow> fresh k' c \<Longrightarrow>
      read_key (fst (write_key c k' v)) k = read_key c k"
    and fresh_other: "{k, k'} \<subseteq> propagation_keys \<Longrightarrow> k \<noteq> k' \<Longrightarrow> fresh k c \<Longrightarrow>
      fresh k (fst (write_key c k' v))"
begin

lemma keys [simp]: "Header \<in> propagation_keys" "HeaderCorrelation \<in> propagation_keys"
  by (simp_all add: propagation_keys_def)

lemma encode_state:
  "Encode write_key ks s c =
     (fst (write_key (fst (write_key c Header (EncodeSW8 s))) HeaderCorrelation
        (EncodeSW8Correlation ks s)), None)"
  using write_ok [of Header c "EncodeSW8 s"]
    write_ok [of HeaderCorrelation "fst (write_key c Header (EncodeSW8 s))" "EncodeSW8Correlation ks s"]
  unfolding Encode_def
  by (cases "write_key c Header (EncodeSW8 s)"; cases "snd (write_key c Header (EncodeSW8 s))")
    (auto intro: prod_eqI)

lemma read_encoded:
  assumes "fresh Header c" and "fresh HeaderCorrelation c"
  shows "read_key (fst (Encode write_key ks s c)) Header = Inr (EncodeSW8 s)"
    and "read_key (fst (Encode write_key ks s c)) HeaderCorrelation = Inr (EncodeSW8Correlation ks s)"
  using assms by (simp_all add: encode_state read_other read_write fresh_other)

text \<open>What one side encodes into a fresh carrier is what the other side decodes from it.\<close>

lemma decode_encode:
  assumes fresh: "fresh Header c" "fresh HeaderCorrelation c"
    and nonneg: "0 \<le> sint (sc_sample s)" "0 \<le> sint (sc_parent_span_id s)"
    and order: "range_order ks (sc_correlation s)"
  shows "Decode (read_key (fst (Encode write_key ks s c))) empty_span_context = (s\<lparr>sc_valid := True\<rparr>, None)"
proof (cases "ks = []")
  case True
  with order have "sc_correlation s = Map.empty" by (auto simp: range_order_def)
  with True show ?thesis
    by (simp add: Decode_def decode_header_def read_encoded [OF fresh] DecodeSW8_EncodeSW8 nonneg
        EncodeSW8Correlation_def empty_span_context_def)
next
  case False
  then have "EncodeSW8Correlation ks s \<noteq> []"
    by (auto simp: EncodeSW8Correlation_def join_eq_Nil entry_not_Nil Cons_eq_map_conv)
  then show ?thesis
    by (simp add: Decode_def decode_header_def read_encoded [OF fresh] DecodeSW8_EncodeSW8 nonneg
        DecodeSW8Correlation_Encode order)
qed

end

end
