(* ===== verification/Carriers.thy ===== *)
theory Carriers
  imports Propagation
begin

text \<open>
  The carriers of four client plugins: the injector closure of the sending interceptor and
  the extractor closure of the receiving one, over the message type they work on.  Each is
  an interpretation of the locale carrier, so the header round trip of Propagation holds
  for it.  Delivery of the message itself is the client library's.
\<close>

section \<open>Kafka messages (plugins/segmentio-kafka)\<close>

record kafka_message =
  km_topic :: string
  km_headers :: "(string \<times> string) list"

text \<open>The writer appends the header to every message of the batch.\<close>

definition kafka_add_header :: "string \<Rightarrow> string \<Rightarrow> kafka_message \<Rightarrow> kafka_message" where
  "kafka_add_header headerKey headerValue m =
     (if length (km_headers m) = 0 then m\<lparr>km_headers := [(headerKey, headerValue)]\<rparr>
      else m\<lparr>km_headers := km_headers m @ [(headerKey, headerValue)]\<rparr>)"

definition kafka_injector ::
    "kafka_message list \<Rightarrow> string \<Rightarrow> string \<Rightarrow> kafka_message list \<times> unit option" where
  "kafka_injector messageList headerKey headerValue =
     (map (kafka_add_header headerKey headerValue) messageList, None)"

text \<open>The reader returns the first header with the key, the empty string if there is none.\<close>

fun kafka_find_header :: "(string \<times> string) list \<Rightarrow> string \<Rightarrow> string" where
  "kafka_find_header [] headerKey = []"
| "kafka_find_header ((k, v) # hs) headerKey =
     (if k = headerKey then v else kafka_find_header hs headerKey)"

definition kafka_extractor :: "kafka_message \<Rightarrow> string \<Rightarrow> (unit, string) result" where
  "kafka_extractor message headerKey = Ok (kafka_find_header (km_headers message) headerKey)"

definition kafka_fresh :: "nat \<Rightarrow> string \<Rightarrow> kafka_message list \<Rightarrow> bool" where
  "kafka_fresh i k ms \<longleftrightarrow> i < length ms \<and> k \<notin> fst ` set (km_headers (ms ! i))"

lemma kafka_find_append:
  "kafka_find_header (hs @ hs') k =
     (if k \<in> fst ` set hs then kafka_find_header hs k else kafka_find_header hs' k)"
  by (induction hs k rule: kafka_find_header.induct) auto

lemma kafka_find_absent: "k \<notin> fst ` set hs \<Longrightarrow> kafka_find_header hs k = []"
  by (induction hs k rule: kafka_find_header.induct) auto

lemma kafka_add_header_headers:
  "km_headers (kafka_add_header k v m) = km_headers m @ [(k, v)]"
  by (simp add: kafka_add_header_def)

interpretation kafka: carrier kafka_injector "\<lambda>ms. kafka_extractor (ms ! i)" "kafka_fresh i" for i
  by unfold_locales
    (auto simp: kafka_injector_def kafka_extractor_def kafka_fresh_def kafka_add_header_headers
      kafka_find_append kafka_find_absent)

section \<open>Pulsar messages (plugins/pulsar)\<close>

text \<open>ProducerMessage is passed by pointer, so a nil Properties map is replaced in place.\<close>

definition pulsar_injector ::
    "(string \<rightharpoonup> string) option \<Rightarrow> string \<Rightarrow> string \<Rightarrow> (string \<rightharpoonup> string) option \<times> unit option" where
  "pulsar_injector properties headerKey headerValue =
     (case properties of
        None \<Rightarrow> (Some [headerKey \<mapsto> headerValue], None)
      | Some m \<Rightarrow> (Some (m(headerKey \<mapsto> headerValue)), None))"

definition pulsar_extractor :: "(string \<rightharpoonup> string) option \<Rightarrow> string \<Rightarrow> (unit, string) result" where
  "pulsar_extractor properties headerKey =
     Ok (case properties of
           None \<Rightarrow> []
         | Some m \<Rightarrow> (case m headerKey of None \<Rightarrow> [] | Some v \<Rightarrow> v))"

interpretation pulsar: carrier pulsar_injector pulsar_extractor "\<lambda>_ _. True"
  by unfold_locales
    (auto simp: pulsar_injector_def pulsar_extractor_def split: option.splits)

section \<open>HTTP headers (plugins/http)\<close>

text \<open>
  http.Header is a map from canonical keys to value lists: Add appends under the canonical
  key, Get returns the first value.  A key with a byte that may not occur in a header name
  is left as it is by the canonicalisation.
\<close>

definition upper_byte :: "char \<Rightarrow> char" where
  "upper_byte c = (let n = of_char c :: nat in if 97 \<le> n \<and> n \<le> 122 then char_of (n - 32) else c)"

definition lower_byte :: "char \<Rightarrow> char" where
  "lower_byte c = (let n = of_char c :: nat in if 65 \<le> n \<and> n \<le> 90 then char_of (n + 32) else c)"

definition header_token_byte :: "char \<Rightarrow> bool" where
  "header_token_byte c =
     (let n = of_char c :: nat in
      48 \<le> n \<and> n \<le> 57 \<or> 65 \<le> n \<and> n \<le> 90 \<or> 97 \<le> n \<and> n \<le> 122 \<or>
      n = 39 \<or> n = 96 \<or> c \<in> set ''!#$%&*+-.^_|~'')"

fun canonicalise :: "bool \<Rightarrow> string \<Rightarrow> string" where
  "canonicalise up [] = []"
| "canonicalise up (c # cs) =
     (if up then upper_byte c else lower_byte c) # canonicalise (c = CHR ''-'') cs"

definition canonical_key :: "string \<Rightarrow> string" where
  "canonical_key s = (if list_all header_token_byte s then canonicalise True s else s)"

type_synonym http_header = "string \<rightharpoonup> string list"

definition http_injector :: "http_header \<Rightarrow> string \<Rightarrow> string \<Rightarrow> http_header \<times> unit option" where
  "http_injector h headerKey headerValue =
     (let k = canonical_key headerKey in
      (h(k \<mapsto> (case h k of None \<Rightarrow> [headerValue] | Some vs \<Rightarrow> vs @ [headerValue])), None))"

definition http_extractor :: "http_header \<Rightarrow> string \<Rightarrow> (unit, string) result" where
  "http_extractor h headerKey =
     Ok (case h (canonical_key headerKey) of Some (v # _) \<Rightarrow> v | _ \<Rightarrow> [])"

definition http_fresh :: "string \<Rightarrow> http_header \<Rightarrow> bool" where
  "http_fresh k h \<longleftrightarrow> h (canonical_key k) = None"

lemma canonical_propagation_keys:
  "canonical_key Header = ''Sw8''" "canonical_key HeaderCorrelation = ''Sw8-Correlation''"
  unfolding Header_def HeaderCorrelation_def by code_simp+

interpretation http: carrier http_injector http_extractor http_fresh
  by unfold_locales
    (auto simp: http_injector_def http_extractor_def http_fresh_def propagation_keys_def
      canonical_propagation_keys Let_def)

section \<open>AMQP publishings (plugins/amqp)\<close>

text \<open>
  The interceptor works on a copy of the Publishing argument.  A header table is a
  reference, so writing to a table the caller supplied reaches the message that is sent,
  but a table allocated for a nil Headers field stays in the copy: the argument is never
  replaced.  The state keeps the caller's field and the copy's; aliased says that both
  hold the same table.
\<close>

record amqp_publishing =
  ap_sent :: "(string \<rightharpoonup> string) option"
  ap_copy :: "(string \<rightharpoonup> string) option"
  ap_aliased :: bool

definition amqp_before_invoke :: "(string \<rightharpoonup> string) option \<Rightarrow> amqp_publishing" where
  "amqp_before_invoke headers =
     \<lparr>ap_sent = headers, ap_copy = headers, ap_aliased = (headers \<noteq> None)\<rparr>"

definition amqp_injector ::
    "amqp_publishing \<Rightarrow> string \<Rightarrow> string \<Rightarrow> amqp_publishing \<times> unit option" where
  "amqp_injector p headerKey headerValue =
     (case ap_copy p of
        None \<Rightarrow> (p\<lparr>ap_copy := Some [headerKey \<mapsto> headerValue], ap_aliased := False\<rparr>, None)
      | Some m \<Rightarrow>
          let m' = m(headerKey \<mapsto> headerValue) in
          (if ap_aliased p then p\<lparr>ap_copy := Some m', ap_sent := Some m'\<rparr>
           else p\<lparr>ap_copy := Some m'\<rparr>, None))"

definition amqp_extractor :: "(string \<rightharpoonup> string) option \<Rightarrow> string \<Rightarrow> (unit, string) result" where
  "amqp_extractor headers headerKey =
     Ok (case headers of
           None \<Rightarrow> []
         | Some m \<Rightarrow> (case m headerKey of None \<Rightarrow> [] | Some v \<Rightarrow> v))"

definition amqp_writable :: "string \<Rightarrow> amqp_publishing \<Rightarrow> bool" where
  "amqp_writable k p \<longleftrightarrow> ap_aliased p \<and> ap_copy p \<noteq> None \<and> ap_sent p = ap_copy p"

interpretation amqp: carrier amqp_injector "\<lambda>p. amqp_extractor (ap_sent p)" amqp_writable
  by unfold_locales
    (auto simp: amqp_injector_def amqp_extractor_def amqp_writable_def Let_def split: option.splits)

section \<open>Properties\<close>

text \<open>
  A context injected by the Kafka writer is decoded unchanged from every message of the
  batch whose headers did not carry the two propagation keys before.
\<close>

theorem kafka_round_trip:
  assumes "kafka_fresh i Header ms" and "kafka_fresh i HeaderCorrelation ms"
    and "0 \<le> sint (sc_sample s)" and "0 \<le> sint (sc_parent_span_id s)"
    and "range_order ks (sc_correlation s)"
  shows "Decode (kafka_extractor (fst (Encode kafka_injector ks s ms) ! i)) empty_span_context =
    (s\<lparr>sc_valid := True\<rparr>, None)"
  using assms by (rule kafka.decode_encode)

theorem kafka_round_trip_witness:
  "Decode (kafka_extractor
     (fst (Encode kafka_injector [''k'']
        (empty_span_context\<lparr>sc_trace_id := ''t1'', sc_sample := 1, sc_correlation := [''k'' \<mapsto> ''v'']\<rparr>)
        [\<lparr>km_topic = ''t'', km_headers = [(''x'', ''y'')]\<rparr>]) ! 0)) empty_span_context =
   (empty_span_context\<lparr>sc_trace_id := ''t1'', sc_sample := 1, sc_correlation := [''k'' \<mapsto> ''v''],
      sc_valid := True\<rparr>, None)"
  by (subst kafka_round_trip)
    (simp_all add: kafka_fresh_def Header_def HeaderCorrelation_def empty_span_context_def range_order_def)

text \<open>
  The AMQP producer loses the context of a message published without a header table:
  the table it allocates stays in its copy of the argument, so what is sent carries no
  header and the consumer decodes an invalid context without an error.
\<close>

theorem amqp_nil_headers_lost:
  "let sent = ap_sent (fst (Encode amqp_injector ks s (amqp_before_invoke None))) in
   sent = None \<and>
   Decode (amqp_extractor sent) empty_span_context = (empty_span_context, None)"
  by (simp add: Encode_def amqp_injector_def amqp_before_invoke_def Decode_def decode_header_def
      amqp_extractor_def empty_span_context_def)

text \<open>
  With a header table supplied by the caller the AMQP producer and consumer carry the
  context across.
\<close>

theorem amqp_round_trip:
  assumes "0 \<le> sint (sc_sample s)" and "0 \<le> sint (sc_parent_span_id s)"
    and "range_order ks (sc_correlation s)"
  shows "Decode (amqp_extractor (ap_sent (fst (Encode amqp_injector ks s (amqp_before_invoke (Some m))))))
    empty_span_context = (s\<lparr>sc_valid := True\<rparr>, None)"
  by (rule amqp.decode_encode) (use assms in \<open>simp_all add: amqp_writable_def amqp_before_invoke_def\<close>)

theorem amqp_round_trip_witness:
  "Decode (amqp_extractor (ap_sent (fst (Encode amqp_injector [] empty_span_context
     (amqp_before_invoke (Some [''content'' \<mapsto> ''json'']))))))
   empty_span_context = (empty_span_context\<lparr>sc_valid := True\<rparr>, None)"
  by (rule amqp_round_trip) (simp_all add: empty_span_context_def range_order_def)

end
