(* ===== verification/Trace_Ignore.thy ===== *)
theory Trace_Ignore
  imports Prelude
begin

text \<open>
  Which operations are not traced (plugins/core/tracer_ignore.go): by the suffix after the
  last dot, or by a path pattern with the wildcards question mark, star and double star.
  The matcher works on byte indices into pattern and name, with backtracking; it is shown
  to decide a language of names defined from the pattern.
\<close>

section \<open>The code\<close>

definition nul :: char where "nul = CHR 0x00"

definition safeCharAt :: "string \<Rightarrow> nat \<Rightarrow> char" where
  "safeCharAt value index = (if length value \<le> index then nul else value ! index)"

text \<open>The loop of wildcardMatch for a star that ends the pattern.\<close>

function star_tail :: "string \<Rightarrow> nat \<Rightarrow> bool" where
  "star_tail operationName s =
     (let sc = safeCharAt operationName s in
      if sc = nul then True
      else if sc = CHR ''/'' then s = length operationName - 1
      else star_tail operationName (s + 1))"
  by pat_completeness auto
termination
  by (relation "measure (\<lambda>(operationName, s). length operationName - s)")
    (auto simp: safeCharAt_def split: if_splits)

text \<open>The test of normalMatch for a pattern byte other than a star.\<close>

definition one_byte_match :: "char \<Rightarrow> char \<Rightarrow> bool" where
  "one_byte_match pc sc = (pc = CHR ''?'' \<and> sc \<noteq> nul \<and> sc \<noteq> CHR ''/'' \<or> pc = sc)"

text \<open>The positions left.\<close>

definition match_left :: "string \<Rightarrow> nat \<Rightarrow> nat" where
  "match_left xs i = length xs - i"

text \<open>
  Every call either moves forward in the pattern, or keeps the pattern index and moves
  forward in the name, or keeps both and goes from a wildcard loop to normalMatch.
\<close>

function normalMatch :: "string \<Rightarrow> nat \<Rightarrow> string \<Rightarrow> nat \<Rightarrow> bool"
  and wildcardMatch :: "string \<Rightarrow> nat \<Rightarrow> string \<Rightarrow> nat \<Rightarrow> bool"
  and multiWildcardMatch :: "string \<Rightarrow> nat \<Rightarrow> string \<Rightarrow> nat \<Rightarrow> bool"
  and multi_loop :: "string \<Rightarrow> nat \<Rightarrow> string \<Rightarrow> nat \<Rightarrow> bool"
where
  "normalMatch pattern p operationName s =
     (if p < length pattern then
        if pattern ! p = CHR ''*'' then
          (if safeCharAt pattern (p + 1) = CHR ''*''
           then multiWildcardMatch pattern (p + 2) operationName s
           else wildcardMatch pattern (p + 1) operationName s)
        else if one_byte_match (pattern ! p) (safeCharAt operationName s)
        then normalMatch pattern (p + 1) operationName (s + 1)
        else False
      else s = length operationName)"
| "wildcardMatch pattern p operationName s =
     (if safeCharAt pattern p = nul then star_tail operationName s
      else if safeCharAt operationName s = CHR ''/'' then
        (if safeCharAt pattern p = CHR ''/''
         then normalMatch pattern (p + 1) operationName (s + 1) else False)
      else
        normalMatch pattern p operationName s \<or>
        (if length operationName \<le> s then False
         else wildcardMatch pattern p operationName (s + 1)))"
| "multiWildcardMatch pattern p operationName s =
     (if safeCharAt pattern p = nul then True
      else if safeCharAt pattern p = CHR ''/''
      then multi_loop pattern (p + 1) operationName s
      else multi_loop pattern p operationName s)"
| "multi_loop pattern p operationName s =
     (normalMatch pattern p operationName s \<or>
      (if length operationName \<le> s then False
       else multi_loop pattern p operationName (s + 1)))"
  by pat_completeness auto

termination
  by (relation "measures
      [case_sum (case_sum (\<lambda>(pat, p, op, s). match_left pat p) (\<lambda>(pat, p, op, s). match_left pat p))
         (case_sum (\<lambda>(pat, p, op, s). match_left pat p) (\<lambda>(pat, p, op, s). match_left pat p)),
       case_sum (case_sum (\<lambda>(pat, p, op, s). match_left op s) (\<lambda>(pat, p, op, s). match_left op s))
         (case_sum (\<lambda>(pat, p, op, s). match_left op s) (\<lambda>(pat, p, op, s). match_left op s)),
       case_sum (case_sum (\<lambda>_. 0) (\<lambda>_. 1)) (case_sum (\<lambda>_. 2) (\<lambda>_. 1))]")
    (auto simp: safeCharAt_def match_left_def split: if_splits)

declare star_tail.simps [simp del] normalMatch.simps [simp del] wildcardMatch.simps [simp del]
  multiWildcardMatch.simps [simp del] multi_loop.simps [simp del]

text \<open>operationName[suffixIdx:] for the last dot; an empty list never matches.\<close>

definition ignoreSuffix :: "string \<Rightarrow> string list \<Rightarrow> bool" where
  "ignoreSuffix operationName ignoreSuffixList =
     (if ignoreSuffixList = [] then False
      else case last_index CHR ''.'' operationName of
             None \<Rightarrow> False
           | Some suffixIdx \<Rightarrow> list_ex (\<lambda>suffix. suffix = drop suffixIdx operationName) ignoreSuffixList)"

definition traceIgnorePath :: "string \<Rightarrow> string list \<Rightarrow> bool" where
  "traceIgnorePath operationName ignorePath =
     (if ignorePath = [] then False
      else list_ex (\<lambda>pattern. normalMatch pattern 0 operationName 0) ignorePath)"

definition tracerIgnore :: "string \<Rightarrow> string list \<Rightarrow> string list \<Rightarrow> bool" where
  "tracerIgnore operationName ignoreSuffixList ignorePath =
     (ignoreSuffix operationName ignoreSuffixList \<or> traceIgnorePath operationName ignorePath)"

section \<open>The language of a pattern\<close>

text \<open>
  A star stands for any bytes but a slash, and at the end of the pattern also for such
  bytes and one final slash; a double star, together with a slash right after it, stands
  for any bytes at all.
\<close>

datatype token = Lit char | AnyByte | Star | Globstar

fun tokens :: "string \<Rightarrow> token list" where
  "tokens [] = []"
| "tokens (c # cs) =
     (if c = CHR ''*'' then
        (case cs of
           d # ds \<Rightarrow>
             if d = CHR ''*'' then
               (case ds of
                  e # es \<Rightarrow> Globstar # (if e = CHR ''/'' then tokens es else tokens ds)
                | [] \<Rightarrow> [Globstar])
             else Star # tokens cs
         | [] \<Rightarrow> [Star])
      else if c = CHR ''?'' then AnyByte # tokens cs
      else Lit c # tokens cs)"

fun lang :: "token list \<Rightarrow> string set" where
  "lang [] = {[]}"
| "lang (Lit c # ts) = {c # w | w. w \<in> lang ts}"
| "lang (AnyByte # ts) = {c # w | c w. c \<noteq> CHR ''/'' \<and> w \<in> lang ts}"
| "lang (Star # ts) =
     (if ts = [] then {u. CHR ''/'' \<notin> set u} \<union> {u @ ''/'' | u. CHR ''/'' \<notin> set u}
      else {u @ w | u w. CHR ''/'' \<notin> set u \<and> w \<in> lang ts})"
| "lang (Globstar # ts) = {u @ w | u w. w \<in> lang ts}"

section \<open>The matcher decides the language\<close>

lemma nul_neq [simp]:
  "nul \<noteq> CHR ''/''" "CHR ''/'' \<noteq> nul" "nul \<noteq> CHR ''*''" "CHR ''*'' \<noteq> nul" "nul \<noteq> CHR ''?''"
  by (simp_all add: nul_def)

lemma drop_nth: "i < length xs \<Longrightarrow> drop i xs = xs ! i # drop (Suc i) xs"
  by (simp add: Cons_nth_drop_Suc)

lemma safeCharAt_lt [simp]: "i < length xs \<Longrightarrow> safeCharAt xs i = xs ! i"
  by (simp add: safeCharAt_def)

lemma safeCharAt_ge [simp]: "length xs \<le> i \<Longrightarrow> safeCharAt xs i = nul"
  by (simp add: safeCharAt_def)

lemma nth_not_nul: "nul \<notin> set xs \<Longrightarrow> i < length xs \<Longrightarrow> xs ! i \<noteq> nul"
  by (metis nth_mem)

lemma safeCharAt_nul: "nul \<notin> set xs \<Longrightarrow> safeCharAt xs i = nul \<longleftrightarrow> length xs \<le> i"
  using nth_not_nul [of xs i] by (auto simp: safeCharAt_def)

lemma tokens_eq_Nil [simp]: "tokens s = [] \<longleftrightarrow> s = []"
  by (cases s rule: tokens.cases) (auto split: list.splits)

lemma tokens_star: "(\<And>ds. cs \<noteq> CHR ''*'' # ds) \<Longrightarrow> tokens (CHR ''*'' # cs) = Star # tokens cs"
  by (auto split: list.splits)

fun skip_slash :: "string \<Rightarrow> string" where
  "skip_slash [] = []"
| "skip_slash (c # cs) = (if c = CHR ''/'' then cs else c # cs)"

lemma tokens_globstar:
  "tokens (CHR ''*'' # CHR ''*'' # ds) = Globstar # tokens (skip_slash ds)"
  by (cases ds) simp_all

lemma ex_append_Cons:
  "(\<exists>u v. c # w = u @ v \<and> P u v) \<longleftrightarrow> P [] (c # w) \<or> (\<exists>u v. w = u @ v \<and> P (c # u) v)"
  by (simp add: Cons_eq_append_conv) blast

lemma in_Star: "ts \<noteq> [] \<Longrightarrow> w \<in> lang (Star # ts) \<longleftrightarrow> (\<exists>u v. w = u @ v \<and> CHR ''/'' \<notin> set u \<and> v \<in> lang ts)"
  by simp

lemma in_Globstar: "w \<in> lang (Globstar # ts) \<longleftrightarrow> (\<exists>u v. w = u @ v \<and> v \<in> lang ts)"
  by simp

declare lang.simps(4,5) [simp del]

lemma lang_Star_Nil:
  "w \<in> lang [Star] \<longleftrightarrow> CHR ''/'' \<notin> set w \<or> (\<exists>u. w = u @ ''/'' \<and> CHR ''/'' \<notin> set u)"
  by (auto simp: lang.simps(4))

lemma lang_Star_Cons:
  assumes "ts \<noteq> []"
  shows "c # w \<in> lang (Star # ts) \<longleftrightarrow> c # w \<in> lang ts \<or> c \<noteq> CHR ''/'' \<and> w \<in> lang (Star # ts)"
  unfolding in_Star [OF assms] ex_append_Cons by auto

lemma lang_Star_empty: "ts \<noteq> [] \<Longrightarrow> [] \<in> lang (Star # ts) \<longleftrightarrow> [] \<in> lang ts"
  by (simp add: in_Star)

lemma lang_Globstar_Cons:
  "c # w \<in> lang (Globstar # ts) \<longleftrightarrow> c # w \<in> lang ts \<or> w \<in> lang (Globstar # ts)"
  unfolding in_Globstar ex_append_Cons by auto

lemma lang_Globstar_empty: "[] \<in> lang (Globstar # ts) \<longleftrightarrow> [] \<in> lang ts"
  by (simp add: in_Globstar)

lemma lang_Globstar_Nil: "w \<in> lang [Globstar]"
  by (simp add: in_Globstar)

lemmas lang_step = lang_Star_Cons lang_Star_empty lang_Globstar_Cons lang_Globstar_empty

lemma star_tail_lang:
  assumes "nul \<notin> set op" and "s \<le> length op"
  shows "star_tail op s \<longleftrightarrow> drop s op \<in> lang [Star]"
  using assms
proof (induction op s rule: star_tail.induct)
  case (1 op s)
  show ?case
  proof (cases "s < length op")
    case False
    with "1.prems" have "s = length op" by simp
    then show ?thesis by (simp add: star_tail.simps [of op "length op"] lang_Star_Nil)
  next
    case True
    then have d: "drop s op = op ! s # drop (Suc s) op" by (rule drop_nth)
    show ?thesis
    proof (cases "op ! s = CHR ''/''")
      case True
      with \<open>s < length op\<close> d show ?thesis
        by (auto simp: star_tail.simps [of op s] lang_Star_Nil Cons_eq_append_conv)
    next
      case False
      with "1.IH" "1.prems" True nth_not_nul [of op s] d show ?thesis
        by (auto simp: star_tail.simps [of op s] lang_Star_Nil Cons_eq_append_conv)
    qed
  qed
qed

text \<open>What each of the four functions decides, from any pair of indices.\<close>

lemma match_lang:
  "nul \<notin> set pat \<Longrightarrow> nul \<notin> set op \<Longrightarrow> s \<le> length op \<Longrightarrow>
     normalMatch pat p op s \<longleftrightarrow> drop s op \<in> lang (tokens (drop p pat))"
  "nul \<notin> set pat \<Longrightarrow> nul \<notin> set op \<Longrightarrow> s \<le> length op \<Longrightarrow> safeCharAt pat p \<noteq> CHR ''*'' \<Longrightarrow>
     wildcardMatch pat p op s \<longleftrightarrow> drop s op \<in> lang (Star # tokens (drop p pat))"
  "nul \<notin> set pat \<Longrightarrow> nul \<notin> set op \<Longrightarrow> s \<le> length op \<Longrightarrow>
     multiWildcardMatch pat p op s \<longleftrightarrow> drop s op \<in> lang (Globstar # tokens (skip_slash (drop p pat)))"
  "nul \<notin> set pat \<Longrightarrow> nul \<notin> set op \<Longrightarrow> s \<le> length op \<Longrightarrow>
     multi_loop pat p op s \<longleftrightarrow> drop s op \<in> lang (Globstar # tokens (drop p pat))"
proof (induction pat p op s and pat p op s and pat p op s and pat p op s
    rule: normalMatch_wildcardMatch_multiWildcardMatch_multi_loop.induct)
  case (1 pattern p operationName s)
  show ?case
  proof (cases "p < length pattern")
    case False
    with "1.prems" show ?thesis by (auto simp: normalMatch.simps [of pattern p])
  next
    case p: True
    then have d: "drop p pattern = pattern ! p # drop (p + 1) pattern" by (simp add: drop_nth)
    show ?thesis
    proof (cases "pattern ! p = CHR ''*''")
      case star: True
      show ?thesis
      proof (cases "safeCharAt pattern (p + 1) = CHR ''*''")
        case True
        then have "p + 1 < length pattern" by (auto simp: safeCharAt_def split: if_splits)
        with True have "drop (p + 1) pattern = CHR ''*'' # drop (p + 2) pattern"
          by (simp add: drop_nth)
        with "1.IH"(1) "1.prems" p star True d show ?thesis
          by (simp add: normalMatch.simps [of pattern p] tokens_globstar del: tokens.simps)
      next
        case False
        then have "drop (p + 1) pattern \<noteq> CHR ''*'' # ds" for ds
          by (metis drop_eq_Nil2 drop_nth list.inject list.simps(3) not_le safeCharAt_lt Suc_eq_plus1)
        with "1.IH"(2) "1.prems" p star False d show ?thesis
          by (simp add: normalMatch.simps [of pattern p] tokens_star del: tokens.simps)
      qed
    next
      case lit: False
      show ?thesis
      proof (cases "s < length operationName")
        case True
        with "1.IH"(3) "1.prems" p lit d nth_not_nul [of operationName s] show ?thesis
          by (auto simp: normalMatch.simps [of pattern p] one_byte_match_def drop_nth)
      next
        case False
        with "1.prems" p lit d nth_not_nul [of pattern p] show ?thesis
          by (auto simp: normalMatch.simps [of pattern p] one_byte_match_def)
      qed
    qed
  qed
next
  case (2 pattern p operationName s)
  show ?case
  proof (cases "p < length pattern")
    case False
    with "2.prems" show ?thesis
      by (simp add: wildcardMatch.simps [of pattern p] star_tail_lang)
  next
    case p: True
    then have d: "drop p pattern = pattern ! p # drop (p + 1) pattern" by (simp add: drop_nth)
    from p have ts: "tokens (drop p pattern) \<noteq> []" by simp
    show ?thesis
    proof (cases "s < length operationName")
      case False
      with 2 p ts nth_not_nul [of pattern p] show ?thesis
        by (simp add: wildcardMatch.simps [of pattern p] lang_step)
    next
      case s: True
      show ?thesis
      proof (cases "operationName ! s = CHR ''/''")
        case True
        with 2 p s d ts nth_not_nul [of pattern p] show ?thesis
          by (simp add: wildcardMatch.simps [of pattern p] lang_step drop_nth)
      next
        case False
        with 2 p s ts nth_not_nul [of pattern p] show ?thesis
          by (simp add: wildcardMatch.simps [of pattern p] lang_step drop_nth)
      qed
    qed
  qed
next
  case (3 pattern p operationName s)
  then show ?case
    by (cases "p < length pattern")
      (auto simp: multiWildcardMatch.simps [of pattern p] drop_nth nth_not_nul lang_Globstar_Nil)
next
  case (4 pattern p operationName s)
  then show ?case
    by (cases "s < length operationName")
      (auto simp: multi_loop.simps [of pattern p] lang_step drop_nth)
qed

lemma lang_literal: "set s \<inter> {CHR ''*'', CHR ''?''} = {} \<Longrightarrow> lang (tokens s) = {s}"
  by (induction s) auto

section \<open>Properties\<close>

text \<open>
  C11. The backtracking index matcher terminates and decides exactly the language of the
  pattern, for a pattern and an operation name without NUL bytes.
\<close>

theorem normalMatch_decides_lang:
  assumes "nul \<notin> set pattern" and "nul \<notin> set operationName"
  shows "normalMatch pattern 0 operationName 0 \<longleftrightarrow> operationName \<in> lang (tokens pattern)"
  using match_lang(1) [of pattern operationName 0 0] assms by simp

theorem normalMatch_decides_lang_witness:
  "normalMatch ''/health/**/*.txt'' 0 ''/health/a/b.txt'' 0 \<longleftrightarrow>
     ''/health/a/b.txt'' \<in> lang (tokens ''/health/**/*.txt'')"
  by (rule normalMatch_decides_lang) (simp_all add: nul_def)

text \<open>
  An operation is ignored exactly if the text from its last dot on is one of the
  configured suffixes, or one of the configured patterns has the operation in its language;
  the empty pattern that an unset configuration yields ignores only the empty name.
\<close>

theorem tracerIgnore_iff:
  assumes "nul \<notin> set operationName" and "\<forall>p\<in>set paths. nul \<notin> set p"
  shows "tracerIgnore operationName suffixes paths \<longleftrightarrow>
    (\<exists>u ext. operationName = u @ ''.'' @ ext \<and> CHR ''.'' \<notin> set ext \<and> ''.'' @ ext \<in> set suffixes) \<or>
    (\<exists>p\<in>set paths. operationName \<in> lang (tokens p))"
proof -
  have "ignoreSuffix operationName suffixes \<longleftrightarrow>
      (\<exists>u ext. operationName = u @ ''.'' @ ext \<and> CHR ''.'' \<notin> set ext \<and> ''.'' @ ext \<in> set suffixes)"
    (is "_ \<longleftrightarrow> ?sfx")
  proof (cases "last_index CHR ''.'' operationName")
    case None
    moreover from None have "CHR ''.'' \<notin> set operationName" by (simp add: last_index_None)
    ultimately show ?thesis by (auto simp: ignoreSuffix_def)
  next
    case (Some i)
    note i = last_index_Some [OF Some]
    then have split: "operationName = take i operationName @ ''.'' @ drop (Suc i) operationName"
      by (metis append_Cons append_Nil append_take_drop_id drop_nth)
    have "drop i operationName = ''.'' @ drop (Suc i) operationName"
      using i by (simp add: drop_nth)
    moreover have "ext = drop (Suc i) operationName"
      if "operationName = u @ ''.'' @ ext" and "CHR ''.'' \<notin> set ext" for u ext
      using split that i by (metis append_Cons append_Nil split_last_unique)
    moreover have "ignoreSuffix operationName suffixes \<longleftrightarrow> drop i operationName \<in> set suffixes"
      using Some by (auto simp: ignoreSuffix_def list_ex_iff)
    ultimately show ?thesis using i split by metis
  qed
  moreover have "traceIgnorePath operationName paths \<longleftrightarrow> (\<exists>p\<in>set paths. operationName \<in> lang (tokens p))"
    using assms match_lang(1) [of _ operationName 0 0]
    by (auto simp: traceIgnorePath_def list_ex_iff)
  ultimately show ?thesis by (simp add: tracerIgnore_def)
qed

theorem tracerIgnore_iff_witness:
  "tracerIgnore ''GET:/favicon.ico'' [''.jpg'', ''.ico''] [''''] \<longleftrightarrow>
    (\<exists>u ext. ''GET:/favicon.ico'' = u @ ''.'' @ ext \<and> CHR ''.'' \<notin> set ext \<and>
       ''.'' @ ext \<in> set [''.jpg'', ''.ico'']) \<or>
    (\<exists>p\<in>set ['''']. ''GET:/favicon.ico'' \<in> lang (tokens p))"
  by (rule tracerIgnore_iff) (simp_all add: nul_def)

end
