(* ===== verification/Context_Store.thy ===== *)
theory Context_Store
  imports Prelude
begin

text \<open>
  The two key/value stores of a tracing context: CorrelationContext
  (plugins/core/correlation.go), which travels with the segment and to other processes, and
  RuntimeContext (plugins/core/context.go), which stays in the goroutine.  Both allocate
  their map lazily, so the inner map is an option: None is a nil map.  A receiver may be
  nil too; the methods therefore take an option of the struct where the code tests it.

  Each method is one critical section under the store's lock, so it is one function here.
\<close>

section \<open>CorrelationContext\<close>

record correlation_context =
  cc_data :: "(string \<rightharpoonup> string) option"

definition newCorrelationContext :: correlation_context where
  "newCorrelationContext = \<lparr>cc_data = None\<rparr>"

definition map_len :: "('k \<rightharpoonup> 'v) \<Rightarrow> nat" where
  "map_len m = card (dom m)"

text \<open>The map of a store; a nil map reads as the empty one.\<close>

definition cc_map :: "correlation_context \<Rightarrow> string \<rightharpoonup> string" where
  "cc_map c = (case cc_data c of None \<Rightarrow> Map.empty | Some m \<Rightarrow> m)"

definition newCorrelationContextFrom :: "(string \<rightharpoonup> string) \<Rightarrow> correlation_context" where
  "newCorrelationContextFrom m =
     (if map_len m = 0 then newCorrelationContext else \<lparr>cc_data = Some m\<rparr>)"

definition cc_Get :: "correlation_context option \<Rightarrow> string \<Rightarrow> string" where
  "cc_Get c key =
     (case c of
        None \<Rightarrow> []
      | Some c \<Rightarrow> (case cc_map c key of None \<Rightarrow> [] | Some v \<Rightarrow> v))"

definition cc_Set :: "correlation_context option \<Rightarrow> string \<Rightarrow> string \<Rightarrow> correlation_context option" where
  "cc_Set c key value =
     (case c of
        None \<Rightarrow> None
      | Some c \<Rightarrow> Some
          (if value = [] then c\<lparr>cc_data := map_option (\<lambda>m. m(key := None)) (cc_data c)\<rparr>
           else c\<lparr>cc_data := Some ((cc_map c)(key \<mapsto> value))\<rparr>))"

definition cc_Len :: "correlation_context option \<Rightarrow> nat" where
  "cc_Len c = (case c of None \<Rightarrow> 0 | Some c \<Rightarrow> map_len (cc_map c))"

text \<open>Snapshot returns a nil map for an empty store.\<close>

definition cc_Snapshot :: "correlation_context option \<Rightarrow> (string \<rightharpoonup> string) option" where
  "cc_Snapshot c =
     (case c of
        None \<Rightarrow> None
      | Some c \<Rightarrow> if map_len (cc_map c) = 0 then None else Some (cc_map c))"

definition cc_Clone :: "correlation_context option \<Rightarrow> correlation_context" where
  "cc_Clone c =
     (case c of
        None \<Rightarrow> newCorrelationContext
      | Some c \<Rightarrow>
          if map_len (cc_map c) = 0 then newCorrelationContext else \<lparr>cc_data = Some (cc_map c)\<rparr>)"

text \<open>
  Every stored value is non-empty (Set deletes on the empty string) and the map is finite.
\<close>

definition cc_wf :: "correlation_context \<Rightarrow> bool" where
  "cc_wf c \<longleftrightarrow> finite (dom (cc_map c)) \<and> [] \<notin> ran (cc_map c)"

section \<open>RuntimeContext\<close>

text \<open>A value of type interface is 'v option, None being nil.\<close>

record 'v runtime_context =
  rc_data :: "(string \<rightharpoonup> 'v) option"

definition rc_map :: "'v runtime_context \<Rightarrow> string \<rightharpoonup> 'v" where
  "rc_map r = (case rc_data r of None \<Rightarrow> Map.empty | Some m \<Rightarrow> m)"

definition rc_clone :: "'v runtime_context option \<Rightarrow> 'v runtime_context" where
  "rc_clone r =
     (case r of
        None \<Rightarrow> \<lparr>rc_data = None\<rparr>
      | Some r \<Rightarrow> if map_len (rc_map r) = 0 then \<lparr>rc_data = None\<rparr> else \<lparr>rc_data = Some (rc_map r)\<rparr>)"

definition rc_Get :: "'v runtime_context option \<Rightarrow> string \<Rightarrow> 'v option" where
  "rc_Get r key = (case r of None \<Rightarrow> None | Some r \<Rightarrow> rc_map r key)"

definition rc_Set :: "'v runtime_context option \<Rightarrow> string \<Rightarrow> 'v option \<Rightarrow> 'v runtime_context option" where
  "rc_Set r key value =
     (case r of
        None \<Rightarrow> None
      | Some r \<Rightarrow> Some
          (case value of
             None \<Rightarrow> r\<lparr>rc_data := map_option (\<lambda>m. m(key := None)) (rc_data r)\<rparr>
           | Some v \<Rightarrow> r\<lparr>rc_data := Some ((rc_map r)(key \<mapsto> v))\<rparr>))"

section \<open>The store contract\<close>

text \<open>
  What the tracer and the propagation rely on: a read returns the last value written under
  the key, and a clone reads as its original did when it was taken.
\<close>

locale kv_store =
  fixes get :: "'s \<Rightarrow> string \<Rightarrow> 'v"
    and put :: "'s \<Rightarrow> string \<Rightarrow> 'v \<Rightarrow> 's"
    and copy :: "'s \<Rightarrow> 's"
    and inv :: "'s \<Rightarrow> bool"
  assumes get_put: "inv s \<Longrightarrow> get (put s k v) k' = (if k' = k then v else get s k')"
    and get_copy: "inv s \<Longrightarrow> get (copy s) k = get s k"
    and inv_put: "inv s \<Longrightarrow> inv (put s k v)"
    and inv_copy: "inv s \<Longrightarrow> inv (copy s)"
begin

definition write_all :: "(string \<times> 'v) list \<Rightarrow> 's \<Rightarrow> 's" where
  "write_all kvs s = fold (\<lambda>(k, v) s. put s k v) kvs s"

lemma inv_write_all: "inv s \<Longrightarrow> inv (write_all kvs s)"
  unfolding write_all_def by (induction kvs arbitrary: s) (auto simp: inv_put)

lemma get_write_all:
  "inv s \<Longrightarrow> get (write_all kvs s) k = (case map_of (rev kvs) k of None \<Rightarrow> get s k | Some v \<Rightarrow> v)"
proof (induction kvs arbitrary: s)
  case Nil
  then show ?case by (simp add: write_all_def)
next
  case (Cons kv kvs)
  obtain k' v' where kv: "kv = (k', v')" by (cases kv)
  have "write_all (kv # kvs) s = write_all kvs (put s k' v')"
    by (simp add: write_all_def kv)
  with Cons kv show ?case
    by (auto simp: inv_put get_put map_add_def split: option.splits)
qed

text \<open>Writes to the original after a copy are not seen through the copy, and conversely.\<close>

lemma copy_isolated:
  "inv s \<Longrightarrow> get (write_all kvs (copy s)) k = (case map_of (rev kvs) k of None \<Rightarrow> get s k | Some v \<Rightarrow> v)"
  unfolding get_write_all [OF inv_copy] by (simp add: get_copy split: option.splits)

end

lemma map_len_0 [simp]: "finite (dom m) \<Longrightarrow> map_len m = 0 \<longleftrightarrow> m = Map.empty"
  by (simp add: map_len_def)

lemma cc_map_put [simp]:
  "cc_map (c\<lparr>cc_data := Some m\<rparr>) = m"
  "cc_map (c\<lparr>cc_data := map_option f (cc_data c)\<rparr>) = (case cc_data c of None \<Rightarrow> Map.empty | Some m \<Rightarrow> f m)"
  "cc_map \<lparr>cc_data = Some m\<rparr> = m" "cc_map newCorrelationContext = Map.empty" "cc_map \<lparr>cc_data = None\<rparr> = Map.empty"
  by (simp_all add: cc_map_def newCorrelationContext_def split: option.splits)

lemma rc_map_put [simp]:
  "rc_map (r\<lparr>rc_data := Some n\<rparr>) = n"
  "rc_map (r\<lparr>rc_data := map_option f (rc_data r)\<rparr>) = (case rc_data r of None \<Rightarrow> Map.empty | Some n \<Rightarrow> f n)"
  "rc_map \<lparr>rc_data = Some n\<rparr> = n" "rc_map \<lparr>rc_data = None\<rparr> = Map.empty"
  by (simp_all add: rc_map_def split: option.splits)

lemma cc_map_Set: "cc_map (the (cc_Set (Some c) k v)) = (cc_map c)(k := (if v = [] then None else Some v))"
  by (auto simp: cc_Set_def cc_map_def fun_eq_iff split: option.splits)

lemma cc_Set_Some: "\<exists>c'. cc_Set (Some c) k v = Some c'"
  by (simp add: cc_Set_def)

lemma cc_wf_Set: "cc_wf c \<Longrightarrow> cc_wf (the (cc_Set (Some c) k v))"
  unfolding cc_wf_def cc_map_Set by (auto simp: ran_def)

lemma cc_map_Clone: "finite (dom (cc_map c)) \<Longrightarrow> cc_map (cc_Clone (Some c)) = cc_map c"
  by (simp add: cc_Clone_def)

interpretation correlation: kv_store "\<lambda>c. cc_Get (Some c)" "\<lambda>c k v. the (cc_Set (Some c) k v)"
  "\<lambda>c. cc_Clone (Some c)" cc_wf
  by unfold_locales
    (auto simp: cc_Get_def cc_map_Set cc_map_Clone cc_wf_Set, auto simp: cc_wf_def cc_map_Clone)

lemma rc_map_Set: "rc_map (the (rc_Set (Some r) k v)) = (rc_map r)(k := v)"
  by (auto simp: rc_Set_def rc_map_def fun_eq_iff split: option.splits)

definition rc_wf :: "'v runtime_context \<Rightarrow> bool" where
  "rc_wf r \<longleftrightarrow> finite (dom (rc_map r))"

lemma rc_map_clone: "finite (dom (rc_map r)) \<Longrightarrow> rc_map (rc_clone (Some r)) = rc_map r"
  by (simp add: rc_clone_def)

interpretation runtime: kv_store "\<lambda>r. rc_Get (Some r)" "\<lambda>r k v. the (rc_Set (Some r) k v)"
  "\<lambda>r. rc_clone (Some r)" rc_wf
  by unfold_locales
    (auto simp: rc_Get_def rc_map_Set rc_map_clone rc_wf_def)

end
