(* ===== verification/Id_Generator.thy ===== *)
theory Id_Generator
  imports Strconv
begin

text \<open>
  The generator of trace and segment ids (plugins/core/id.go).  Every tracing context owns
  one IDContext and draws ids from it without a lock.  The clock reading
  (milliseconds since idEpoch) is an argument of each call; the int64 and int16 fields are
  words, so overflow is visible.
\<close>

type_synonym i64 = "64 word"
type_synonym i16 = "16 word"

record id_context =
  goid :: i64
  lastTime :: i64
  seq :: i16
  shift :: i64
  shitTime :: i64

definition NewIDContext :: "bool \<Rightarrow> i64 \<Rightarrow> id_context" where
  "NewIDContext getGoIDNow GetGoID =
     \<lparr>goid = (if getGoIDNow then GetGoID else 0), lastTime = 0, seq = 0, shift = 0, shitTime = 0\<rparr>"

definition timestamp :: "i64 \<Rightarrow> id_context \<Rightarrow> i64 \<times> id_context" where
  "timestamp now c =
     (if now <s lastTime c then
        (let c = (if shitTime c \<noteq> now then c\<lparr>shift := shift c + 1, shitTime := now\<rparr> else c)
         in (shift c, c))
      else (now, c\<lparr>lastTime := now\<rparr>))"

definition nextSeq :: "id_context \<Rightarrow> i16 \<times> id_context" where
  "nextSeq c =
     (let c = (if seq c = 10000 then c\<lparr>seq := 0\<rparr> else c);
          c = c\<lparr>seq := seq c + 1\<rparr>
      in (seq c, c))"

definition nextID :: "i64 \<Rightarrow> id_context \<Rightarrow> i64 \<times> id_context" where
  "nextID now c =
     (let (t, c) = timestamp now c; (s, c) = nextSeq c
      in (t * 10000 + scast s, c))"

text \<open>The instance id is a UUID without its dashes; Sprintf of \<open>%s.%d.%d\<close>.\<close>

definition instance_id :: "string \<Rightarrow> string" where
  "instance_id uuid = remove_char CHR ''-'' uuid"

definition GenerateGlobalID :: "string \<Rightarrow> i64 \<Rightarrow> i64 \<Rightarrow> id_context \<Rightarrow> string \<times> id_context" where
  "GenerateGlobalID globalInstanceID GetGoID now c =
     (let c = (if goid c = 0 then c\<lparr>goid := GetGoID\<rparr> else c);
          (n, c) = nextID now c
      in (globalInstanceID @ ''.'' @ itoa (sint (goid c)) @ ''.'' @ itoa (sint n), c))"

text \<open>The ids a context hands out for a sequence of clock readings.\<close>

fun id_run :: "i64 list \<Rightarrow> id_context \<Rightarrow> i64 list \<times> id_context" where
  "id_run [] c = ([], c)"
| "id_run (now # nows) c =
     (let (i, c) = nextID now c; (is, c) = id_run nows c in (i # is, c))"

section \<open>Bounds\<close>

text \<open>
  Clock readings are at most the largest Duration, \<open>2 ^ 63\<close> nanoseconds, in milliseconds.
  A context is in range when its sequence number is, and its shift leaves room for k more
  increments.
\<close>

definition clock_ok :: "i64 \<Rightarrow> bool" where
  "clock_ok now \<longleftrightarrow> 0 \<le> sint now \<and> sint now \<le> 9223372036854"

definition id_ok :: "nat \<Rightarrow> id_context \<Rightarrow> bool" where
  "id_ok k c \<longleftrightarrow> 0 \<le> sint (seq c) \<and> sint (seq c) \<le> 10000 \<and> 0 \<le> sint (shift c)
     \<and> sint (shift c) + int k \<le> 9223372036854"

lemma id_ok_new: "k \<le> 9223372036854 \<Longrightarrow> id_ok k (NewIDContext b g)"
  by (simp add: id_ok_def NewIDContext_def)

lemma sint_plus1:
  fixes w :: i64
  shows "0 \<le> sint w \<Longrightarrow> sint w < 9223372036855 \<Longrightarrow> sint (w + 1) = sint w + 1"
  by (simp add: sint_word_ariths signed_take_bit_int_eq_self)

lemma sint_seq_plus1:
  fixes w :: i16
  shows "0 \<le> sint w \<Longrightarrow> sint w < 10000 \<Longrightarrow> sint (w + 1) = sint w + 1"
  by (simp add: sint_word_ariths signed_take_bit_int_eq_self)

lemma word_seq_10000: "(w :: i16) = 10000 \<longleftrightarrow> sint w = 10000"
  by (auto intro: signed_word_eqI)

lemma sint_scast16: "sint (scast (s :: i16) :: i64) = sint s"
  by (simp add: sint_up_scast is_up)

lemma sint_id:
  fixes t :: i64 and s :: i16
  assumes "0 \<le> sint t" "sint t \<le> 9223372036854" "0 \<le> sint s" "sint s \<le> 10000"
  shows "sint (t * 10000 + scast s) = sint t * 10000 + sint s"
  using assms by (simp add: sint_word_ariths signed_take_bit_int_eq_self sint_scast16)

lemma timestamp_ok:
  assumes "timestamp now c = (t, c')" and "clock_ok now" and "id_ok (Suc k) c"
  shows "0 \<le> sint t \<and> sint t \<le> 9223372036854 \<and> id_ok k c' \<and> seq c' = seq c"
  using assms
  by (auto simp: timestamp_def clock_ok_def id_ok_def Let_def sint_plus1 split: if_splits)

lemma nextSeq_ok:
  assumes "nextSeq c = (s, c')" and "id_ok k c"
  shows "sint s = sint (seq c) mod 10000 + 1 \<and> seq c' = s \<and> id_ok k c'"
  using assms
  by (auto simp: nextSeq_def id_ok_def Let_def word_seq_10000 sint_seq_plus1 split: if_splits)

lemma nextID_ok:
  assumes "nextID now c = (i, c')" and "clock_ok now" and "id_ok (Suc k) c"
  shows "(\<exists>t. sint i = t * 10000 + (sint (seq c) mod 10000 + 1) \<and> 0 \<le> t \<and> t \<le> 9223372036854)
    \<and> sint (seq c') = sint (seq c) mod 10000 + 1 \<and> id_ok k c'"
proof -
  obtain t c1 where t: "timestamp now c = (t, c1)" by (cases "timestamp now c")
  obtain s c2 where s: "nextSeq c1 = (s, c2)" by (cases "nextSeq c1")
  from assms t s have i: "i = t * 10000 + scast s" "c' = c2" by (simp_all add: nextID_def)
  note T = timestamp_ok [OF t assms(2,3)]
  then have S: "sint s = sint (seq c) mod 10000 + 1 \<and> seq c2 = s \<and> id_ok k c2"
    using nextSeq_ok [OF s, of k] by simp
  have "0 \<le> sint (seq c) mod 10000 \<and> sint (seq c) mod 10000 < 10000" by simp
  with T S have "sint i = sint t * 10000 + sint s"
    unfolding i by (intro sint_id) auto
  with T S i show ?thesis by auto
qed

section \<open>Distinct ids\<close>

text \<open>The j-th id of a run is a timestamp followed by four digits that count the calls.\<close>

lemma id_run_nth:
  assumes "id_run nows c = (is, c')" and "\<forall>now\<in>set nows. clock_ok now"
    and "id_ok (length nows) c"
  shows "length is = length nows \<and>
    (\<forall>j<length is. \<exists>t. sint (is ! j) = t * 10000 + ((sint (seq c) + int j) mod 10000 + 1)
       \<and> 0 \<le> t \<and> t \<le> 9223372036854)"
  using assms
proof (induction nows arbitrary: c "is")
  case (Cons now nows)
  obtain i c1 where i: "nextID now c = (i, c1)" by (cases "nextID now c")
  obtain js c2 where js: "id_run nows c1 = (js, c2)" by (cases "id_run nows c1")
  from Cons.prems i js have is_def: "is = i # js" by simp
  have N: "(\<exists>t. sint i = t * 10000 + (sint (seq c) mod 10000 + 1) \<and> 0 \<le> t \<and> t \<le> 9223372036854)"
    "sint (seq c1) = sint (seq c) mod 10000 + 1" "id_ok (length nows) c1"
    using nextID_ok [OF i, of "length nows"] Cons.prems by auto
  have "c2 = c'" using Cons.prems(1) i js by simp
  with Cons.IH [of c1 js] js Cons.prems N(3)
  have IH: "length js = length nows"
    "\<And>j. j < length js \<Longrightarrow> \<exists>t. sint (js ! j) = t * 10000 + ((sint (seq c1) + int j) mod 10000 + 1)
       \<and> 0 \<le> t \<and> t \<le> 9223372036854" by auto
  have shift: "(sint (seq c1) + int j) mod 10000 = (sint (seq c) + int (Suc j)) mod 10000" for j
  proof -
    have "(sint (seq c) mod 10000 + (1 + int j)) mod 10000 = (sint (seq c) + (1 + int j)) mod 10000"
      by (rule mod_add_left_eq)
    then show ?thesis unfolding N(2) by (simp add: algebra_simps)
  qed
  have "\<exists>t. sint (is ! j) = t * 10000 + ((sint (seq c) + int j) mod 10000 + 1)
       \<and> 0 \<le> t \<and> t \<le> 9223372036854" if "j < length is" for j
    using that N(1) IH(2) [unfolded shift] by (cases j) (auto simp: is_def)
  with IH(1) show ?case by (simp add: is_def)
qed simp

lemma mod_shift_inj:
  fixes a :: int
  assumes "(a + int i) mod 10000 = (a + int j) mod 10000" and "i < 10000" "j < 10000"
  shows "i = j"
proof -
  have "10000 dvd int i - int j"
    using assms(1) mod_eq_dvd_iff [of "a + int i" 10000 "a + int j"] by simp
  then show ?thesis
    using assms(2,3) zdvd_not_zless [of "int i - int j" 10000] zdvd_not_zless [of "int j - int i" 10000]
    by (cases i j rule: linorder_cases) (auto simp: dvd_diff_commute)
qed

lemma id_run_distinct:
  assumes "id_run nows c = (is, c')" and "\<forall>now\<in>set nows. clock_ok now"
    and "id_ok (length nows) c" and "length nows \<le> 10000"
  shows "distinct is"
  unfolding distinct_conv_nth
proof (intro allI impI)
  fix i j assume ij: "i < length is" "j < length is" "i \<noteq> j"
  note R = id_run_nth [OF assms(1-3)]
  have l: "i < 10000" "j < 10000" using ij R assms(4) by auto
  let ?q = "\<lambda>j. (sint (seq c) + int j) mod 10000"
  obtain t u where "sint (is ! i) = t * 10000 + (?q i + 1)" "sint (is ! j) = u * 10000 + (?q j + 1)"
    using R ij by blast
  moreover have "(x * 10000 + (?q k + 1) - 1) mod 10000 = ?q k" for x k
    by simp
  ultimately have "is ! i = is ! j \<Longrightarrow> ?q i = ?q j" by metis
  with mod_shift_inj [OF _ l] ij show "is ! i \<noteq> is ! j" by blast
qed

lemma nextID_after:
  assumes "nextID now c = (i, c')" and "nextID now' c' = (i', c'')"
    and "clock_ok now" "clock_ok now'" "id_ok 2 c"
    and "\<not> now <s lastTime c" "now <s now'"
  shows "i <s i'"
proof -
  obtain s c1 where s: "nextSeq (c\<lparr>lastTime := now\<rparr>) = (s, c1)" by (cases "nextSeq (c\<lparr>lastTime := now\<rparr>)")
  have c': "c' = c1" "lastTime c1 = now" "i = now * 10000 + scast s"
    using assms(1,6) s by (auto simp: nextID_def timestamp_def nextSeq_def Let_def)
  have ok: "id_ok (Suc 0) c'" "id_ok 2 (c\<lparr>lastTime := now\<rparr>)"
    using nextID_ok [OF assms(1,3), of "Suc 0"] assms(5) by (auto simp: numeral_2_eq_2 id_ok_def)
  obtain s' c2 where s': "nextSeq (c'\<lparr>lastTime := now'\<rparr>) = (s', c2)" by (cases "nextSeq (c'\<lparr>lastTime := now'\<rparr>)")
  have "\<not> now' <s now" using assms(7) by (simp add: word_sless_alt)
  then have i': "i' = now' * 10000 + scast s'"
    using assms(2) s' c' by (auto simp: nextID_def timestamp_def)
  have S: "sint s = sint (seq c) mod 10000 + 1" using nextSeq_ok [OF s ok(2)] by simp
  have S': "sint s' = sint (seq c') mod 10000 + 1"
    using nextSeq_ok [OF s', of 0] ok(1) by (simp add: id_ok_def)
  have b: "0 \<le> x mod 10000 \<and> x mod 10000 < 10000" for x :: int by simp
  have "sint (now * 10000 + scast s) = sint now * 10000 + sint s"
    using assms(3) S b [of "sint (seq c)"] by (intro sint_id) (auto simp: clock_ok_def)
  moreover have "sint (now' * 10000 + scast s') = sint now' * 10000 + sint s'"
    using assms(4) S' b [of "sint (seq c')"] by (intro sint_id) (auto simp: clock_ok_def)
  moreover have "sint now < sint now'" using assms(7) by (simp add: word_sless_alt)
  ultimately show ?thesis
    using S S' b [of "sint (seq c)"] b [of "sint (seq c')"] by (simp add: word_sless_alt c'(3) i')
qed

section \<open>Global ids\<close>

text \<open>The global ids a context hands out; each call sees its own GetGoID and clock.\<close>

fun global_run :: "string \<Rightarrow> (i64 \<times> i64) list \<Rightarrow> id_context \<Rightarrow> string list" where
  "global_run uid [] c = []"
| "global_run uid ((g, now) # calls) c =
     (let (s, c) = GenerateGlobalID uid g now c in s # global_run uid calls c)"

lemma nextID_goid [simp]:
  "fst (nextID now (c\<lparr>goid := g\<rparr>)) = fst (nextID now c)"
  "snd (nextID now (c\<lparr>goid := g\<rparr>)) = (snd (nextID now c))\<lparr>goid := g\<rparr>"
  by (auto simp: nextID_def timestamp_def nextSeq_def Let_def split: prod.split)

lemma id_run_goid [simp]: "fst (id_run nows (c\<lparr>goid := g\<rparr>)) = fst (id_run nows c)"
proof (induction nows arbitrary: c)
  case (Cons now nows)
  obtain i c1 where "nextID now c = (i, c1)" by (cases "nextID now c")
  moreover then have "nextID now (c\<lparr>goid := g\<rparr>) = (i, c1\<lparr>goid := g\<rparr>)"
    using nextID_goid [of now g c] by (simp add: prod_eq_iff)
  ultimately show ?case using Cons.IH [of c1] by (simp add: split_beta)
qed simp

lemma global_run_ids:
  "\<exists>gs. length gs = length calls \<and> (\<forall>g\<in>set gs. True) \<and>
     global_run uid calls c =
       map (\<lambda>(g, n). (uid @ ''.'' @ itoa g @ ''.'') @ itoa (sint n)) (zip gs (fst (id_run (map snd calls) c)))"
proof (induction calls arbitrary: c)
  case (Cons call calls)
  obtain g now where call: "call = (g, now)" by (cases call)
  define c0 where "c0 = (if goid c = 0 then c\<lparr>goid := g\<rparr> else c)"
  obtain n c1 where n: "nextID now c0 = (n, c1)" by (cases "nextID now c0")
  from Cons.IH [of c1] obtain gs where gs: "length gs = length calls"
    "global_run uid calls c1 =
       map (\<lambda>(g, n). (uid @ ''.'' @ itoa g @ ''.'') @ itoa (sint n)) (zip gs (fst (id_run (map snd calls) c1)))"
    by auto
  have "fst (id_run (map snd (call # calls)) c) = fst (id_run (map snd (call # calls)) c0)"
    unfolding c0_def by (simp del: id_run.simps list.map)
  also have "\<dots> = n # fst (id_run (map snd calls) c1)"
    using n by (simp add: call split_beta)
  finally show ?case
    using gs n by (intro exI [of _ "sint (goid c1) # gs"])
      (simp add: call GenerateGlobalID_def Let_def flip: c0_def)
qed simp

text \<open>
  C23. The global ids that one tracing context generates (trace ids and segment ids) are
  pairwise distinct in any run of at most 10000 calls, whatever the clock does: it may
  stand still or run backwards.  The bounds exclude only int64 overflow.
\<close>

theorem global_ids_distinct:
  assumes "\<forall>call\<in>set calls. clock_ok (snd call)"
    and "id_ok (length calls) c" and "length calls \<le> 10000"
  shows "distinct (global_run uid calls c)"
proof -
  obtain gs where gs: "length gs = length calls" "global_run uid calls c =
       map (\<lambda>(g, n). (uid @ ''.'' @ itoa g @ ''.'') @ itoa (sint n)) (zip gs (fst (id_run (map snd calls) c)))"
    using global_run_ids by blast
  obtain "is" c' where i: "id_run (map snd calls) c = (is, c')"
    by (cases "id_run (map snd calls) c")
  have d: "distinct is" and l: "length is = length calls"
    using id_run_distinct [OF i] id_run_nth [OF i] assms by auto
  show ?thesis
    unfolding gs(2) i fst_conv distinct_conv_nth
  proof (intro allI impI)
    fix a b
    assume "a < length (map (\<lambda>(g, n). (uid @ ''.'' @ itoa g @ ''.'') @ itoa (sint n)) (zip gs is))"
      "b < length (map (\<lambda>(g, n). (uid @ ''.'' @ itoa g @ ''.'') @ itoa (sint n)) (zip gs is))" "a \<noteq> b"
    then have ab: "a < length is" "b < length is" "a \<noteq> b" using gs(1) l by auto
    then have "itoa (sint (is ! a)) \<noteq> itoa (sint (is ! b))"
      using d by (simp add: nth_eq_iff_index_eq signed_word_eqI) (metis nth_eq_iff_index_eq signed_word_eqI)
    moreover have "CHR ''.'' \<notin> set (itoa n)" for n by (rule itoa_no_char) simp_all
    ultimately show "map (\<lambda>(g, n). (uid @ ''.'' @ itoa g @ ''.'') @ itoa (sint n)) (zip gs is) ! a
        \<noteq> map (\<lambda>(g, n). (uid @ ''.'' @ itoa g @ ''.'') @ itoa (sint n)) (zip gs is) ! b"
      using ab gs(1) l by (auto dest!: split_last_unique)
  qed
qed

lemma global_ids_distinct_witness:
  "distinct (global_run ''u'' [(7, 5), (7, 5), (7, 3)] (NewIDContext False 0))"
  by (rule global_ids_distinct) (simp_all add: clock_ok_def id_ok_new)

text \<open>
  As long as the clock does not run backwards, ids grow with time: two consecutive
  ids drawn in different milliseconds are ordered by \<open><\<close> on int64, across every reset of
  the sequence number.
\<close>

theorem nextID_increasing:
  assumes "clock_ok now" "clock_ok now'" "id_ok 2 c" "\<not> now <s lastTime c" "now <s now'"
  shows "fst (nextID now c) <s fst (nextID now' (snd (nextID now c)))"
  using nextID_after [OF _ _ assms, of "fst (nextID now c)" "snd (nextID now c)"
      "fst (nextID now' (snd (nextID now c)))" "snd (nextID now' (snd (nextID now c)))"]
  by simp

lemma nextID_increasing_witness:
  "fst (nextID 8 \<lparr>goid = 1, lastTime = 8, seq = 9999, shift = 0, shitTime = 0\<rparr>)
    <s fst (nextID 9 (snd (nextID 8 \<lparr>goid = 1, lastTime = 8, seq = 9999, shift = 0, shitTime = 0\<rparr>)))"
  by (rule nextID_increasing) (simp_all add: clock_ok_def id_ok_def word_sless_alt)

end
