(* ===== verification/Sampler.thy ===== *)
theory Sampler
  imports Prelude
begin

text \<open>
  The samplers (plugins/core/sampler.go).  Go's float64 appears only through the operations
  of the record float_ops: ParseFloat and Sprintf of \<open>%f\<close>, the comparisons with 0 and
  1.0, and the conversion int(rate * 100); they are arguments of the model.  The draw of
  rand.Intn(100) is an argument of a sampling decision.
\<close>

record 'f float_ops =
  ParseFloat :: "string \<Rightarrow> 'f option"
  FormatFloat :: "'f \<Rightarrow> string"
  le_zero :: "'f \<Rightarrow> bool"
  ge_one :: "'f \<Rightarrow> bool"
  percent :: "'f \<Rightarrow> int"

datatype 'f sampler =
    ConstSampler bool
  | RandomSampler (samplingRate: 'f) (threshold: int)

definition NewConstSampler :: "bool \<Rightarrow> 'f sampler" where
  "NewConstSampler sample = ConstSampler sample"

definition NewRandomSampler :: "'f float_ops \<Rightarrow> 'f \<Rightarrow> 'f sampler" where
  "NewRandomSampler fl rate = RandomSampler rate (percent fl rate)"

fun IsSampled :: "'f sampler \<Rightarrow> int \<Rightarrow> bool" where
  "IsSampled (ConstSampler decision) draw = decision"
| "IsSampled (RandomSampler rate thr) draw = (thr > draw)"

datatype config_event_type = MODIFY | DELETED

record 'f dynamic_sampler =
  currentRate :: 'f
  defaultRate :: 'f
  ds_sampler :: "'f sampler option"

definition sampler_for :: "'f float_ops \<Rightarrow> 'f \<Rightarrow> 'f sampler" where
  "sampler_for fl rate =
     (if le_zero fl rate then NewConstSampler False
      else if ge_one fl rate then NewConstSampler True
      else NewRandomSampler fl rate)"

definition ds_Notify ::
    "'f float_ops \<Rightarrow> config_event_type \<Rightarrow> string \<Rightarrow> 'f dynamic_sampler \<Rightarrow> 'f dynamic_sampler" where
  "ds_Notify fl eventType newValue s =
     (let newValue = (if eventType = DELETED then FormatFloat fl (defaultRate s) else newValue)
      in case ParseFloat fl newValue of
           None \<Rightarrow> s
         | Some rate \<Rightarrow> s\<lparr>ds_sampler := Some (sampler_for fl rate), currentRate := rate\<rparr>)"

definition ds_Value :: "'f float_ops \<Rightarrow> 'f dynamic_sampler \<Rightarrow> string" where
  "ds_Value fl s = FormatFloat fl (currentRate s)"

definition ds_Key :: string where
  "ds_Key = ''agent.sample_rate''"

text \<open>A decision before the sampler is set would dereference nil: None.\<close>

definition ds_IsSampled :: "'f dynamic_sampler \<Rightarrow> int \<Rightarrow> bool option" where
  "ds_IsSampled s draw = map_option (\<lambda>sm. IsSampled sm draw) (ds_sampler s)"

definition NewDynamicSampler :: "'f float_ops \<Rightarrow> 'f \<Rightarrow> 'f dynamic_sampler" where
  "NewDynamicSampler fl rate =
     ds_Notify fl MODIFY (FormatFloat fl rate)
       \<lparr>currentRate = rate, defaultRate = rate, ds_sampler = None\<rparr>"

lemma Notify_default [simp]: "defaultRate (ds_Notify fl e v s) = defaultRate s"
  by (simp add: ds_Notify_def Let_def split: option.splits)

definition notify_all ::
    "'f float_ops \<Rightarrow> (config_event_type \<times> string) list \<Rightarrow> 'f dynamic_sampler \<Rightarrow> 'f dynamic_sampler" where
  "notify_all fl events s = fold (\<lambda>(e, v). ds_Notify fl e v) events s"

lemma notify_all_default [simp]: "defaultRate (notify_all fl events s) = defaultRate s"
  unfolding notify_all_def by (induction events arbitrary: s) auto

lemma New_default [simp]: "defaultRate (NewDynamicSampler fl rate) = rate"
  by (simp add: NewDynamicSampler_def)

lemma card_draws: "card {d :: int. 0 \<le> d \<and> d < 100} = 100"
proof -
  have "{d :: int. 0 \<le> d \<and> d < 100} = {0..<100}" by auto
  then show ?thesis by simp
qed

lemma IsSampled_count:
  assumes "0 \<le> percent fl rate" "percent fl rate \<le> 100"
  shows "card {d \<in> {0..<100}. IsSampled (NewRandomSampler fl rate) d} = nat (percent fl rate)"
proof -
  have "{d \<in> {0..<100}. IsSampled (NewRandomSampler fl rate) d} = {0..<percent fl rate}"
    using assms by (auto simp: NewRandomSampler_def)
  then show ?thesis by simp
qed

text \<open>
  Of the hundred equally likely draws, the sampler installed by a configured rate
  accepts exactly the configured percentage: none for a rate of at most 0, all for a rate
  of at least 1, and otherwise int(rate * 100) of them; an unparsable rate changes nothing.
\<close>

theorem Notify_rate:
  assumes "\<And>r. \<not> le_zero fl r \<Longrightarrow> \<not> ge_one fl r \<Longrightarrow> 0 \<le> percent fl r \<and> percent fl r < 100"
  shows "case ParseFloat fl v of
      None \<Rightarrow> ds_Notify fl MODIFY v s = s
    | Some rate \<Rightarrow>
        card {d \<in> {0..<100}. ds_IsSampled (ds_Notify fl MODIFY v s) d = Some True} =
          (if le_zero fl rate then 0 else if ge_one fl rate then 100 else nat (percent fl rate))"
  using assms IsSampled_count [of fl "the (ParseFloat fl v)"]
  by (auto simp: ds_Notify_def ds_IsSampled_def sampler_for_def NewConstSampler_def less_imp_le card_draws
      split: option.splits)

text \<open>
  Deleting the dynamic configuration restores the sampler the agent started with,
  after any history of configuration events.
\<close>

theorem Notify_deleted_restores:
  assumes "ParseFloat fl (FormatFloat fl rate) \<noteq> None"
  shows "ds_Notify fl DELETED v (notify_all fl events (NewDynamicSampler fl rate))
    = NewDynamicSampler fl rate"
  using assms
  by (auto simp: ds_Notify_def [of fl DELETED] NewDynamicSampler_def)
    (auto simp: ds_Notify_def intro!: dynamic_sampler.equality)

text \<open>A float_ops on percentages, for concrete runs.\<close>

definition percent_ops :: "int float_ops" where
  "percent_ops = \<lparr>ParseFloat = (\<lambda>s. if s = ''x'' then None else Some (int (length s))),
     FormatFloat = (\<lambda>n. replicate (nat n) CHR ''1''), le_zero = (\<lambda>n. n \<le> 0),
     ge_one = (\<lambda>n. n \<ge> 100), percent = id\<rparr>"

lemma Notify_rate_witness:
  "card {d \<in> {0..<100}. ds_IsSampled (ds_Notify percent_ops MODIFY ''abc'' (NewDynamicSampler percent_ops 7)) d = Some True} = 3"
  using Notify_rate [of percent_ops "''abc''" "NewDynamicSampler percent_ops 7"] by (simp add: percent_ops_def)

lemma Notify_deleted_restores_witness:
  "ds_Notify percent_ops DELETED [] (notify_all percent_ops [(MODIFY, ''ab'')] (NewDynamicSampler percent_ops 7))
    = NewDynamicSampler percent_ops 7"
  by (rule Notify_deleted_restores) (simp add: percent_ops_def numeral_eq_Suc)

end
