(* ===== verification/Span.thy ===== *)
theory Span
  imports Propagation
begin

text \<open>
  The recording span (plugins/core/span_default.go and span.go).  A DefaultSpan is shared
  by goroutines; every method is one critical section under opLock, except AsyncFinish of a
  segment span, which is three (AsyncFinish, End, endAndFreeze).  A critical section is a
  function on the record; the concurrent behaviour is the step relation span_step, whose
  steps are the sections of all goroutines in any order.

  A time.Time is the clock reading of the call that set it, None being the zero time.  The
  parent span is the address 'p of a span.  The tracer's log is the field ds_warnings, so
  that the rate limit of logDroppedWrite can be stated; panics are error values.
\<close>

datatype span_type = SpanTypeEntry | SpanTypeExit | SpanTypeLocal

type_synonym kvp = "string \<times> string"
type_synonym log_entry = "int \<times> kvp list"

record 'p default_span =
  ds_Refs :: "span_context list"
  ds_StartTime :: int
  ds_EndTime :: "int option"
  ds_OperationName :: string
  ds_Peer :: string
  ds_Layer :: i32
  ds_ComponentID :: i32
  ds_Tags :: "kvp list"
  ds_Logs :: "log_entry list"
  ds_IsError :: bool
  ds_SpanType :: span_type
  ds_Parent :: "'p option"
  ds_InAsyncMode :: bool
  ds_AsyncModeFinished :: bool
  ds_ended :: bool
  ds_droppedLogged :: bool
  ds_reuseCount :: nat
  ds_warnings :: "(string \<times> string \<times> string) list"

definition NewDefaultSpan :: "int \<Rightarrow> 'p option \<Rightarrow> 'p default_span" where
  "NewDefaultSpan now parent =
     \<lparr>ds_Refs = [], ds_StartTime = now, ds_EndTime = None, ds_OperationName = [], ds_Peer = [],
      ds_Layer = 0, ds_ComponentID = 0, ds_Tags = [], ds_Logs = [], ds_IsError = False,
      ds_SpanType = SpanTypeLocal, ds_Parent = parent, ds_InAsyncMode = False,
      ds_AsyncModeFinished = False, ds_ended = False, ds_droppedLogged = False,
      ds_reuseCount = 0, ds_warnings = []\<rparr>"

section \<open>Mutators\<close>

definition logDroppedWrite :: "string \<Rightarrow> string \<Rightarrow> 'p default_span \<Rightarrow> 'p default_span" where
  "logDroppedWrite oper detail ds =
     (if ds_droppedLogged ds then ds
      else ds\<lparr>ds_droppedLogged := True,
              ds_warnings := ds_warnings ds @ [(ds_OperationName ds, oper, detail)]\<rparr>)"

definition SetOperationName :: "string \<Rightarrow> 'p default_span \<Rightarrow> 'p default_span" where
  "SetOperationName name ds =
     (if ds_ended ds then logDroppedWrite ''operation name'' name ds
      else ds\<lparr>ds_OperationName := name\<rparr>)"

definition SetPeer :: "string \<Rightarrow> 'p default_span \<Rightarrow> 'p default_span" where
  "SetPeer peer ds =
     (if ds_ended ds then logDroppedWrite ''peer'' peer ds else ds\<lparr>ds_Peer := peer\<rparr>)"

definition SetSpanLayer :: "i32 \<Rightarrow> 'p default_span \<Rightarrow> 'p default_span" where
  "SetSpanLayer layer ds =
     (if ds_ended ds then logDroppedWrite ''span layer'' [] ds else ds\<lparr>ds_Layer := layer\<rparr>)"

definition SetComponent :: "i32 \<Rightarrow> 'p default_span \<Rightarrow> 'p default_span" where
  "SetComponent componentID ds =
     (if ds_ended ds then logDroppedWrite ''component'' [] ds
      else ds\<lparr>ds_ComponentID := componentID\<rparr>)"

fun upsert_tag :: "string \<Rightarrow> string \<Rightarrow> kvp list \<Rightarrow> kvp list" where
  "upsert_tag key v [] = [(key, v)]"
| "upsert_tag key v ((k, w) # tags) =
     (if k = key then (k, v) # tags else (k, w) # upsert_tag key v tags)"

definition Tag :: "string \<Rightarrow> string \<Rightarrow> 'p default_span \<Rightarrow> 'p default_span" where
  "Tag key v ds =
     (if ds_ended ds then logDroppedWrite ''tag'' key ds
      else ds\<lparr>ds_Tags := upsert_tag key v (ds_Tags ds)\<rparr>)"

text \<open>The loop of log0: an even position starts a pair, an odd one fills its value.\<close>

fun log_pairs :: "string list \<Rightarrow> kvp list" where
  "log_pairs [] = []"
| "log_pairs [k] = [(k, [])]"
| "log_pairs (k # v # ll) = (k, v) # log_pairs ll"

definition log0 :: "int \<Rightarrow> string list \<Rightarrow> 'p default_span \<Rightarrow> 'p default_span" where
  "log0 now ll ds = ds\<lparr>ds_Logs := ds_Logs ds @ [(now, log_pairs ll)]\<rparr>"

definition Log :: "int \<Rightarrow> string list \<Rightarrow> 'p default_span \<Rightarrow> 'p default_span" where
  "Log now ll ds = (if ds_ended ds then logDroppedWrite ''log'' [] ds else log0 now ll ds)"

definition Error :: "int \<Rightarrow> string list \<Rightarrow> 'p default_span \<Rightarrow> 'p default_span" where
  "Error now ll ds =
     (if ds_ended ds then logDroppedWrite ''error'' [] ds else log0 now ll (ds\<lparr>ds_IsError := True\<rparr>))"

definition ErrorOccured :: "'p default_span \<Rightarrow> 'p default_span" where
  "ErrorOccured ds =
     (if ds_ended ds then logDroppedWrite ''error flag'' [] ds else ds\<lparr>ds_IsError := True\<rparr>)"

definition appendRef :: "span_context \<Rightarrow> 'p default_span \<Rightarrow> 'p default_span" where
  "appendRef ref ds =
     (if ds_ended ds then logDroppedWrite ''ref'' [] ds else ds\<lparr>ds_Refs := ds_Refs ds @ [ref]\<rparr>)"

section \<open>Ending, reuse and async mode\<close>

text \<open>The locked part of End.\<close>

definition ds_End :: "int \<Rightarrow> 'p default_span \<Rightarrow> 'p default_span" where
  "ds_End now ds = (if ds_ended ds then ds else ds\<lparr>ds_EndTime := Some now\<rparr>)"

definition endAndFreeze :: "'p default_span \<Rightarrow> 'p default_span \<times> bool" where
  "endAndFreeze ds = (if ds_ended ds then (ds, False) else (ds\<lparr>ds_ended := True\<rparr>, True))"

definition enterReuse :: "'p default_span \<Rightarrow> 'p default_span" where
  "enterReuse ds = (if ds_ended ds then ds else ds\<lparr>ds_reuseCount := ds_reuseCount ds + 1\<rparr>)"

text \<open>
  endSyncAndFreeze: the new span, whether the caller's active span is set back to the
  parent, and whether the caller hands the span to the collector.
\<close>

definition endSyncAndFreeze :: "int \<Rightarrow> 'p default_span \<Rightarrow> 'p default_span \<times> bool \<times> bool" where
  "endSyncAndFreeze now ds =
     (if ds_reuseCount ds > 0 then (ds\<lparr>ds_reuseCount := ds_reuseCount ds - 1\<rparr>, True, False)
      else if ds_EndTime ds \<noteq> None then (ds, False, False)
      else (let ds = ds\<lparr>ds_EndTime := Some now\<rparr>
            in if \<not> ds_InAsyncMode ds \<and> \<not> ds_ended ds then (ds\<lparr>ds_ended := True\<rparr>, True, True)
               else (ds, True, False)))"

definition PrepareAsync :: "'p default_span \<Rightarrow> string + 'p default_span" where
  "PrepareAsync ds =
     (if ds_ended ds then Ok (logDroppedWrite ''prepare async'' [] ds)
      else if ds_InAsyncMode ds then Err ''already in async mode''
      else Ok (ds\<lparr>ds_InAsyncMode := True, ds_AsyncModeFinished := False\<rparr>))"

definition AsyncFinish :: "'p default_span \<Rightarrow> string + 'p default_span" where
  "AsyncFinish ds =
     (if ds_ended ds then Ok (logDroppedWrite ''async finish'' [] ds)
      else if \<not> ds_InAsyncMode ds then Err ''not in async mode''
      else if ds_AsyncModeFinished ds then Err ''already finished async''
      else Ok (ds\<lparr>ds_AsyncModeFinished := True\<rparr>))"

section \<open>Readers\<close>

definition IsEntry :: "'p default_span \<Rightarrow> bool" where
  "IsEntry ds = (ds_SpanType ds = SpanTypeEntry)"

definition IsExit :: "'p default_span \<Rightarrow> bool" where
  "IsExit ds = (ds_SpanType ds = SpanTypeExit)"

definition IsValid :: "'p default_span \<Rightarrow> bool" where
  "IsValid ds = (ds_EndTime ds = None)"

definition GetEndPointName :: "'p default_span \<Rightarrow> string" where
  "GetEndPointName ds = (if ds_SpanType ds = SpanTypeEntry then ds_OperationName ds else [])"

section \<open>The concurrent span\<close>

datatype mutation =
    MOperationName string | MPeer string | MLayer i32 | MComponent i32 | MTag string string
  | MLog int "string list" | MError int "string list" | MErrorOccured | MRef span_context | MReuse

fun mutate :: "mutation \<Rightarrow> 'p default_span \<Rightarrow> 'p default_span" where
  "mutate (MOperationName n) = SetOperationName n"
| "mutate (MPeer p) = SetPeer p"
| "mutate (MLayer l) = SetSpanLayer l"
| "mutate (MComponent i) = SetComponent i"
| "mutate (MTag k v) = Tag k v"
| "mutate (MLog now ll) = Log now ll"
| "mutate (MError now ll) = Error now ll"
| "mutate MErrorOccured = ErrorOccured"
| "mutate (MRef r) = appendRef r"
| "mutate MReuse = enterReuse"

text \<open>
  The state of a shared span: the span, the goroutines inside AsyncFinish that have
  finished its first (respectively second) section, and the number of times the span was
  handed to the collector.
\<close>

record 'p shared_span =
  ss_span :: "'p default_span"
  ss_finishing :: nat
  ss_freezing :: nat
  ss_handed :: nat

definition shared :: "'p default_span \<Rightarrow> 'p shared_span" where
  "shared ds = \<lparr>ss_span = ds, ss_finishing = 0, ss_freezing = 0, ss_handed = 0\<rparr>"

inductive span_step :: "'p shared_span \<Rightarrow> 'p shared_span \<Rightarrow> bool" where
  s_mutate: "span_step s (s\<lparr>ss_span := mutate m (ss_span s)\<rparr>)"
| s_prepare: "PrepareAsync (ss_span s) = Ok ds \<Longrightarrow> span_step s (s\<lparr>ss_span := ds\<rparr>)"
| s_end: "endSyncAndFreeze now (ss_span s) = (ds, restore, frozen) \<Longrightarrow>
    span_step s (s\<lparr>ss_span := ds, ss_handed := ss_handed s + (if frozen then 1 else 0)\<rparr>)"
| s_finish1: "AsyncFinish (ss_span s) = Ok ds \<Longrightarrow>
    span_step s (s\<lparr>ss_span := ds, ss_finishing := ss_finishing s + 1\<rparr>)"
| s_finish2: "ss_finishing s > 0 \<Longrightarrow>
    span_step s (s\<lparr>ss_span := ds_End now (ss_span s), ss_finishing := ss_finishing s - 1,
      ss_freezing := ss_freezing s + 1\<rparr>)"
| s_finish3: "ss_freezing s > 0 \<Longrightarrow> endAndFreeze (ss_span s) = (ds, frozen) \<Longrightarrow>
    span_step s (s\<lparr>ss_span := ds, ss_freezing := ss_freezing s - 1,
      ss_handed := ss_handed s + (if frozen then 1 else 0)\<rparr>)"

inductive_cases span_stepE: "span_step s s'"

text \<open>The data that the report of a span is built from.\<close>

definition reported_data where
  "reported_data ds = (ds_Refs ds, ds_StartTime ds, ds_EndTime ds, ds_OperationName ds, ds_Peer ds,
     ds_Layer ds, ds_ComponentID ds, ds_Tags ds, ds_Logs ds, ds_IsError ds, ds_SpanType ds, ds_Parent ds)"

lemmas mutator_defs = SetOperationName_def SetPeer_def SetSpanLayer_def SetComponent_def Tag_def
  Log_def Error_def ErrorOccured_def appendRef_def enterReuse_def log0_def

lemma logDroppedWrite_simps [simp]:
  "ds_ended (logDroppedWrite x y ds) = ds_ended ds"
  "ds_EndTime (logDroppedWrite x y ds) = ds_EndTime ds"
  "ds_reuseCount (logDroppedWrite x y ds) = ds_reuseCount ds"
  "ds_InAsyncMode (logDroppedWrite x y ds) = ds_InAsyncMode ds"
  "ds_Tags (logDroppedWrite x y ds) = ds_Tags ds"
  "reported_data (logDroppedWrite x y ds) = reported_data ds"
  by (simp_all add: logDroppedWrite_def reported_data_def)

lemma mutate_keeps [simp]:
  "ds_ended (mutate m ds) = ds_ended ds" "ds_EndTime (mutate m ds) = ds_EndTime ds"
  "ds_InAsyncMode (mutate m ds) = ds_InAsyncMode ds"
  by (cases m; simp add: mutator_defs)+

lemma mutate_frozen: "ds_ended ds \<Longrightarrow> reported_data (mutate m ds) = reported_data ds"
  by (cases m) (simp_all add: mutator_defs)

definition span_inv :: "'p shared_span \<Rightarrow> bool" where
  "span_inv s \<longleftrightarrow>
     ss_handed s = (if ds_ended (ss_span s) then 1 else 0) \<and>
     (ds_ended (ss_span s) \<or> ss_freezing s > 0 \<longrightarrow> ds_EndTime (ss_span s) \<noteq> None)"

lemma span_inv_new: "span_inv (shared (NewDefaultSpan now parent))"
  by (simp add: span_inv_def shared_def NewDefaultSpan_def)

lemma span_inv_step: "span_step s s' \<Longrightarrow> span_inv s \<Longrightarrow> span_inv s'"
  by (erule span_stepE)
    (auto simp: span_inv_def PrepareAsync_def AsyncFinish_def endSyncAndFreeze_def endAndFreeze_def
      ds_End_def Let_def split: if_splits)

lemma span_step_frozen:
  "span_step s s' \<Longrightarrow> span_inv s \<Longrightarrow> ds_ended (ss_span s) \<Longrightarrow>
   ds_ended (ss_span s') \<and> reported_data (ss_span s') = reported_data (ss_span s)"
  by (erule span_stepE)
    (auto simp: span_inv_def mutate_frozen PrepareAsync_def AsyncFinish_def endSyncAndFreeze_def
      endAndFreeze_def ds_End_def Let_def reported_data_def [of "default_span.ds_reuseCount_update _ _"]
      split: if_splits, auto simp: reported_data_def)

lemma span_inv_steps: "span_step\<^sup>*\<^sup>* s s' \<Longrightarrow> span_inv s \<Longrightarrow> span_inv s'"
  by (induction rule: rtranclp_induct) (auto dest: span_inv_step)

lemma span_steps_frozen:
  assumes "span_step\<^sup>*\<^sup>* s s'" "span_inv s" "ds_ended (ss_span s)"
  shows "ds_ended (ss_span s') \<and> reported_data (ss_span s') = reported_data (ss_span s)"
  using assms
proof (induction rule: rtranclp_induct)
  case (step t u)
  from span_inv_steps [OF step.hyps(1) step.prems(1)] span_step_frozen [OF step.hyps(2)] step.IH step.prems
  show ?case by simp
qed simp

lemma shared_step_mutate: "span_step\<^sup>*\<^sup>* (shared ds) (shared (mutate m ds))"
  using s_mutate [of "shared ds" m] by (auto simp: shared_def intro!: r_into_rtranclp)

text \<open>
  C18. However the critical sections of several goroutines interleave, a span is handed to
  the segment collector exactly when it is frozen, and once only; the report then finds an
  end time.
\<close>

theorem span_handed_once:
  assumes "span_step\<^sup>*\<^sup>* (shared (NewDefaultSpan now parent)) s"
  shows "ss_handed s = (if ds_ended (ss_span s) then 1 else 0) \<and>
    (ss_handed s = 0 \<or> ds_EndTime (ss_span s) \<noteq> None)"
  using span_inv_steps [OF assms span_inv_new] by (auto simp: span_inv_def)

lemma span_handed_once_witness:
  "ss_handed (shared (Tag ''k'' ''v'' (NewDefaultSpan 5 (Some 1)))) = 0"
  using span_handed_once [OF shared_step_mutate [of "NewDefaultSpan 5 (Some 1)" "MTag ''k'' ''v''"]]
  by (simp add: shared_def Tag_def NewDefaultSpan_def)

text \<open>
  Once a span is handed to the collector, no later call of any goroutine changes the
  data its report reads: the unlocked accessors of the reporting path see frozen data.
\<close>

theorem span_frozen_immutable:
  assumes "span_step\<^sup>*\<^sup>* (shared (NewDefaultSpan now parent)) s"
    and "ss_handed s > 0" and "span_step\<^sup>*\<^sup>* s s'"
  shows "reported_data (ss_span s') = reported_data (ss_span s) \<and> ss_handed s' = ss_handed s"
proof -
  have i: "span_inv s" using span_inv_steps [OF assms(1) span_inv_new] .
  with assms(2) have e: "ds_ended (ss_span s)" by (auto simp: span_inv_def split: if_splits)
  from span_steps_frozen [OF assms(3) i e] span_inv_steps [OF assms(3) i] i e show ?thesis
    by (simp add: span_inv_def)
qed

definition ended_span :: "nat shared_span" where
  "ended_span = (shared (NewDefaultSpan 5 None))\<lparr>ss_span := fst (endSyncAndFreeze 9 (NewDefaultSpan 5 None)), ss_handed := 1\<rparr>"

lemma ended_span_reach: "span_step (shared (NewDefaultSpan 5 None)) ended_span"
  using s_end [of 9 "shared (NewDefaultSpan 5 None)" "fst (endSyncAndFreeze 9 (NewDefaultSpan 5 None))" True True]
  by (simp add: ended_span_def shared_def endSyncAndFreeze_def NewDefaultSpan_def)

lemma span_frozen_immutable_witness:
  "reported_data (ss_span (ended_span\<lparr>ss_span := mutate (MTag ''k'' ''v'') (ss_span ended_span)\<rparr>))
    = reported_data (ss_span ended_span)"
  using span_frozen_immutable [of 5 None ended_span
      "ended_span\<lparr>ss_span := mutate (MTag ''k'' ''v'') (ss_span ended_span)\<rparr>"]
    ended_span_reach s_mutate [of ended_span "MTag ''k'' ''v''"]
  by (simp add: r_into_rtranclp) (simp add: ended_span_def)

section \<open>Span reuse\<close>

text \<open>The owners of a synchronous span: writes, reuse by a nested plugin, and Ends.\<close>

datatype owner_event = OMutate mutation | OEnd int

fun owner_run :: "owner_event list \<Rightarrow> 'p default_span \<Rightarrow> 'p default_span" where
  "owner_run [] ds = ds"
| "owner_run (OMutate m # es) ds = owner_run es (mutate m ds)"
| "owner_run (OEnd now # es) ds = owner_run es (fst (endSyncAndFreeze now ds))"

fun reuses :: "owner_event list \<Rightarrow> nat" where
  "reuses [] = 0"
| "reuses (e # es) = (if e = OMutate MReuse then 1 else 0) + reuses es"

fun ends :: "owner_event list \<Rightarrow> nat" where
  "ends [] = 0"
| "ends (OEnd now # es) = 1 + ends es"
| "ends (OMutate m # es) = ends es"

lemma mutate_reuseCount:
  "ds_reuseCount (mutate m ds) = ds_reuseCount ds + (if m = MReuse \<and> \<not> ds_ended ds then 1 else 0)"
  by (cases m) (simp_all add: mutator_defs)

lemma owner_run_ended: "ds_ended ds \<Longrightarrow> ds_ended (owner_run es ds)"
  by (induction es ds rule: owner_run.induct)
    (auto simp: endSyncAndFreeze_def Let_def split: if_splits)

lemma endSync_open:
  assumes "\<not> ds_ended ds" "ds_EndTime ds = None" "\<not> ds_InAsyncMode ds"
  shows "ds_ended (fst (endSyncAndFreeze now ds)) \<longleftrightarrow> ds_reuseCount ds = 0"
    and "0 < ds_reuseCount ds \<Longrightarrow> fst (endSyncAndFreeze now ds) = ds\<lparr>ds_reuseCount := ds_reuseCount ds - 1\<rparr>"
  using assms by (auto simp: endSyncAndFreeze_def)

lemma owner_run_ends:
  assumes "\<not> ds_ended ds" "ds_EndTime ds = None" "\<not> ds_InAsyncMode ds"
  shows "ds_ended (owner_run es ds) \<longleftrightarrow>
    (\<exists>n\<le>length es. ends (take n es) > ds_reuseCount ds + reuses (take n es))"
  using assms
proof (induction es arbitrary: ds)
  case (Cons e es)
  note split_n = ex_take_Cons [where P = "\<lambda>p. ends p > ds_reuseCount ds + reuses p"]
  show ?case
  proof (cases e)
    case (OMutate m)
    with Cons.IH [of "mutate m ds"] Cons.prems show ?thesis
      unfolding split_n by (auto simp: mutate_reuseCount)
  next
    case (OEnd now)
    show ?thesis
    proof (cases "ds_reuseCount ds = 0")
      case True
      with Cons.prems OEnd endSync_open(1) [OF Cons.prems] show ?thesis
        unfolding split_n by (auto intro!: exI [of _ 0] owner_run_ended)
    next
      case False
      then have less: "ds_reuseCount ds + r < Suc n \<longleftrightarrow> ds_reuseCount ds + r - Suc 0 < n" for r n
        by linarith
      with False Cons.prems OEnd endSync_open(2) [OF Cons.prems]
        Cons.IH [of "ds\<lparr>ds_reuseCount := ds_reuseCount ds - 1\<rparr>"]
      show ?thesis unfolding split_n by (auto simp: less)
    qed
  qed
qed simp

text \<open>
  C17. The span reuse rule: a span that nested plugins entered k times is frozen by the call
  of End number k + 1 and not before, i.e. at the first moment when there were more Ends
  than reuses, whatever is written to the span in between.
\<close>

theorem reuse_last_end_freezes:
  "ds_ended (owner_run es (NewDefaultSpan now parent)) \<longleftrightarrow>
    (\<exists>n\<le>length es. ends (take n es) > reuses (take n es))"
  using owner_run_ends [of "NewDefaultSpan now parent" es]
  by (simp add: NewDefaultSpan_def)

section \<open>Async spans, tags and logs\<close>

text \<open>
  After PrepareAsync, no End freezes a span: whatever owners do, it stays open and is
  not handed over, until AsyncFinish, whose last section does both.
\<close>

theorem async_finish_freezes:
  assumes "\<not> ds_ended ds" "ds_InAsyncMode ds"
  shows "\<not> ds_ended (owner_run es ds) \<and> snd (snd (endSyncAndFreeze now (owner_run es ds))) = False \<and>
    (ds_AsyncModeFinished (owner_run es ds) \<or>
      (\<exists>ds'. AsyncFinish (owner_run es ds) = Ok ds' \<and>
         endAndFreeze (ds_End now ds') = (ds'\<lparr>ds_EndTime := Some now, ds_ended := True\<rparr>, True)))"
proof -
  have "\<not> ds_ended (owner_run es ds) \<and> ds_InAsyncMode (owner_run es ds)"
    using assms
    by (induction es ds rule: owner_run.induct) (auto simp: endSyncAndFreeze_def Let_def)
  then show ?thesis
    by (auto simp: endSyncAndFreeze_def AsyncFinish_def endAndFreeze_def ds_End_def)
qed

lemma async_finish_freezes_witness:
  "\<not> ds_ended (owner_run [OEnd 7, OMutate (MTag ''k'' ''v'')] ((NewDefaultSpan 5 None)\<lparr>ds_InAsyncMode := True\<rparr>))"
  by (rule conjunct1 [OF async_finish_freezes]) (simp_all add: NewDefaultSpan_def)

lemma upsert_map_of: "map_of (upsert_tag k v tags) = (map_of tags)(k \<mapsto> v)"
  by (induction tags) (auto simp: fun_eq_iff)

lemma upsert_keys:
  "map fst (upsert_tag k v tags) = map fst tags @ (if k \<in> fst ` set tags then [] else [k])"
  by (induction tags) (auto, force+)

lemma upsert_distinct: "distinct (map fst tags) \<Longrightarrow> distinct (map fst (upsert_tag k v tags))"
  by (simp add: upsert_keys)

text \<open>
  The tags of an open span are a map: Tag overwrites the value of a key it has,
  otherwise it appends the key, and keys never repeat, after any mutations.
\<close>

theorem tags_are_map:
  assumes "\<not> ds_ended ds" "distinct (map fst (ds_Tags ds))"
  shows "map_of (ds_Tags (Tag k v ds)) = (map_of (ds_Tags ds))(k \<mapsto> v) \<and>
    distinct (map fst (ds_Tags (fold mutate ms ds))) \<and>
    map fst (ds_Tags (Tag k v ds)) = map fst (ds_Tags ds) @ (if k \<in> fst ` set (ds_Tags ds) then [] else [k])"
proof -
  have "distinct (map fst (ds_Tags (mutate m ds)))" if "distinct (map fst (ds_Tags ds))" for m and ds :: "'a default_span"
    using that by (cases m) (simp_all add: mutator_defs upsert_distinct)
  then have "distinct (map fst (ds_Tags (fold mutate ms ds)))"
    using assms(2) by (induction ms arbitrary: ds) auto
  with assms(1) show ?thesis by (simp add: Tag_def upsert_map_of upsert_keys)
qed

lemma tags_are_map_witness:
  "map fst (ds_Tags (Tag ''k'' ''v'' (NewDefaultSpan 5 None))) = [''k'']"
proof -
  have "map fst (ds_Tags (Tag ''k'' ''v'' (NewDefaultSpan 5 None))) =
    map fst (ds_Tags (NewDefaultSpan 5 None)) @ (if ''k'' \<in> fst ` set (ds_Tags (NewDefaultSpan 5 None)) then [] else [''k''])"
    using tags_are_map [of "NewDefaultSpan 5 None" "''k''" "''v''"] by (auto simp: NewDefaultSpan_def)
  then show ?thesis by (simp add: NewDefaultSpan_def)
qed

text \<open>
  Log loses no argument: flattening the pairs of the new log entry gives the arguments
  back, with an empty value added when their number is odd, and there are
  ceil(len / 2) pairs, the capacity the code reserves.
\<close>

theorem log_pairs_flatten:
  "concat (map (\<lambda>(k, v). [k, v]) (log_pairs ll)) = ll @ (if even (length ll) then [] else [[]]) \<and>
   length (log_pairs ll) = (length ll + 1) div 2"
  by (induction ll rule: log_pairs.induct) auto

definition warn_ok :: "'p default_span \<Rightarrow> bool" where
  "warn_ok ds \<longleftrightarrow> ds_droppedLogged ds = (ds_warnings ds \<noteq> []) \<and> length (ds_warnings ds) \<le> 1 \<and>
     (ds_warnings ds \<noteq> [] \<longrightarrow> ds_ended ds)"

lemma warn_ok_mutate: "warn_ok ds \<Longrightarrow> warn_ok (mutate m ds)"
  by (cases m) (auto simp: mutator_defs logDroppedWrite_def warn_ok_def)

lemma warn_ok_step: "span_step s s' \<Longrightarrow> warn_ok (ss_span s) \<Longrightarrow> warn_ok (ss_span s')"
  by (erule span_stepE)
    (auto simp: warn_ok_mutate, auto simp: warn_ok_def PrepareAsync_def AsyncFinish_def logDroppedWrite_def
      endSyncAndFreeze_def endAndFreeze_def ds_End_def Let_def split: if_splits)

text \<open>
  A span logs at most one dropped write, and only after it was frozen, so a span leaked
  across goroutines cannot flood the log.
\<close>

theorem dropped_write_logged_once:
  assumes "span_step\<^sup>*\<^sup>* (shared (NewDefaultSpan now parent)) s"
  shows "length (ds_warnings (ss_span s)) \<le> (if ds_ended (ss_span s) then 1 else 0)"
proof -
  have "warn_ok (ss_span s)"
    using assms
    by (induction rule: rtranclp_induct)
      (simp add: shared_def NewDefaultSpan_def warn_ok_def, metis warn_ok_step)
  then show ?thesis by (auto simp: warn_ok_def)
qed

lemma dropped_write_logged_once_witness:
  "length (ds_warnings (ss_span (shared (Tag ''k'' ''v'' (NewDefaultSpan 5 (Some (1 :: nat))))))) \<le>
    (if ds_ended (ss_span (shared (Tag ''k'' ''v'' (NewDefaultSpan 5 (Some (1 :: nat)))))) then 1 else 0)"
  by (rule dropped_write_logged_once) (use shared_step_mutate [of _ "MTag ''k'' ''v''"] in simp)

end
