(* ===== verification/Segment.thy ===== *)
theory Segment
  imports Span
begin

text \<open>
  The segment protocol (plugins/core/span_tracing.go): child spans register with their
  segment by a compare-and-swap on refNum, ended spans are sent to the collector goroutine
  over an unbuffered channel, the root span swaps refNum for -1 and sends the number of
  registered children, and the collector reports the segment when it has received that
  many.  The state of one segment is a record, each atomic action of a goroutine is a
  function on it, and seg_step is their interleaving.

  Goroutines that create spans are numbered; a child span is its position in the list of
  registered children.  A send and its receive on an unbuffered channel are one step.
\<close>

text \<open>A creating goroutine: idle, holding a span id, or between Load and CompareAndSwap.\<close>

datatype register_pc = GIdle | GDrawn i32 | GLoaded i32 i32

text \<open>The root's end0: not yet called, before the swap, blocked in its select, returned.\<close>

datatype root_pc = RRunning | RSwapping | RSending i32 | RReturned

text \<open>The collector: in its loop, before closeDone, before SendTracing, finished.\<close>

datatype collector_pc = CCollecting | CClosing | CReporting | CFinished

datatype reported_span = RChild nat | RRoot

record segment =
  refNum :: i32
  spanIDGenerator :: i32
  children :: "(i32 \<times> nat shared_span) list"
  root :: "nat shared_span"
  creators :: "nat \<Rightarrow> register_pc"
  root_end :: root_pc
  sending :: "nat list"
  collector :: collector_pc
  total :: int
  collected :: "nat list"
  collectorDone :: bool
  dropped :: nat
  reports :: "reported_span list list"

text \<open>newSegmentRoot and createRootSegmentContext: counters at 0, the collector started.\<close>

definition newSegmentRoot :: "nat shared_span \<Rightarrow> segment" where
  "newSegmentRoot r =
     \<lparr>refNum = 0, spanIDGenerator = 0, children = [], root = r, creators = (\<lambda>_. GIdle),
      root_end = RRunning, sending = [], collector = CCollecting, total = -1, collected = [],
      collectorDone = False, dropped = 0, reports = []\<rparr>"

section \<open>Creating spans\<close>

text \<open>createSegmentContext draws the span id before the registration.\<close>

definition draw_id :: "nat \<Rightarrow> segment \<Rightarrow> segment" where
  "draw_id g \<sigma> =
     \<sigma>\<lparr>spanIDGenerator := spanIDGenerator \<sigma> + 1,
       creators := (creators \<sigma>)(g := GDrawn (spanIDGenerator \<sigma> + 1))\<rparr>"

text \<open>
  The two halves of the loop of segmentRegister.  When the load sees a negative count the
  registration fails, and the span becomes the root of another segment.
\<close>

definition register_load :: "nat \<Rightarrow> i32 \<Rightarrow> segment \<Rightarrow> segment" where
  "register_load g sid \<sigma> =
     \<sigma>\<lparr>creators := (creators \<sigma>)(g := if refNum \<sigma> <s 0 then GIdle else GLoaded sid (refNum \<sigma>))\<rparr>"

definition register_cas :: "nat \<Rightarrow> i32 \<Rightarrow> i32 \<Rightarrow> nat default_span \<Rightarrow> segment \<Rightarrow> segment" where
  "register_cas g sid old ds \<sigma> =
     (if refNum \<sigma> = old
      then \<sigma>\<lparr>refNum := old + 1, children := children \<sigma> @ [(sid, shared ds)],
             creators := (creators \<sigma>)(g := GIdle)\<rparr>
      else \<sigma>\<lparr>creators := (creators \<sigma>)(g := GDrawn sid)\<rparr>)"

section \<open>Ending spans\<close>

text \<open>A section of a child span; when it hands the span over, end0 starts a sender.\<close>

definition child_section :: "nat \<Rightarrow> nat shared_span \<Rightarrow> segment \<Rightarrow> segment" where
  "child_section i s \<sigma> =
     \<sigma>\<lparr>children := (children \<sigma>)[i := (fst (children \<sigma> ! i), s)],
       sending := sending \<sigma> @ (if ss_handed (snd (children \<sigma> ! i)) < ss_handed s then [i] else [])\<rparr>"

definition root_section :: "nat shared_span \<Rightarrow> segment \<Rightarrow> segment" where
  "root_section s \<sigma> =
     \<sigma>\<lparr>root := s, root_end := (if ss_handed (root \<sigma>) < ss_handed s then RSwapping else root_end \<sigma>)\<rparr>"

text \<open>The operand of the send in the root's end0 is evaluated on entering its select.\<close>

definition root_swap :: "segment \<Rightarrow> segment" where
  "root_swap \<sigma> = \<sigma>\<lparr>refNum := -1, root_end := RSending (refNum \<sigma>)\<rparr>"

text \<open>The collectorDone branches of the two selects.\<close>

definition child_drop :: "nat \<Rightarrow> segment \<Rightarrow> segment" where
  "child_drop i \<sigma> = \<sigma>\<lparr>sending := remove1 i (sending \<sigma>), dropped := dropped \<sigma> + 1\<rparr>"

definition root_drop :: "segment \<Rightarrow> segment" where
  "root_drop \<sigma> = \<sigma>\<lparr>root_end := RReturned, dropped := dropped \<sigma> + 1\<rparr>"

section \<open>The collector\<close>

definition collector_check :: "segment \<Rightarrow> segment" where
  "collector_check \<sigma> =
     (if total \<sigma> = int (length (collected \<sigma>)) then \<sigma>\<lparr>collector := CClosing\<rparr> else \<sigma>)"

definition collect_span :: "nat \<Rightarrow> segment \<Rightarrow> segment" where
  "collect_span i \<sigma> =
     collector_check (\<sigma>\<lparr>sending := remove1 i (sending \<sigma>), collected := collected \<sigma> @ [i]\<rparr>)"

definition collect_total :: "i32 \<Rightarrow> segment \<Rightarrow> segment" where
  "collect_total n \<sigma> = collector_check (\<sigma>\<lparr>root_end := RReturned, total := sint n\<rparr>)"

definition close_done :: "segment \<Rightarrow> segment" where
  "close_done \<sigma> = \<sigma>\<lparr>collectorDone := True, collector := CReporting\<rparr>"

definition send_tracing :: "segment \<Rightarrow> segment" where
  "send_tracing \<sigma> =
     \<sigma>\<lparr>reports := reports \<sigma> @ [map RChild (collected \<sigma>) @ [RRoot]], collector := CFinished\<rparr>"

section \<open>The step relation\<close>

text \<open>Steps of the delivery, which need no action of the application.\<close>

inductive deliver_step :: "segment \<Rightarrow> segment \<Rightarrow> bool" where
  d_swap: "root_end \<sigma> = RSwapping \<Longrightarrow> deliver_step \<sigma> (root_swap \<sigma>)"
| d_span: "i \<in> set (sending \<sigma>) \<Longrightarrow> collector \<sigma> = CCollecting \<Longrightarrow> deliver_step \<sigma> (collect_span i \<sigma>)"
| d_total: "root_end \<sigma> = RSending n \<Longrightarrow> collector \<sigma> = CCollecting \<Longrightarrow> deliver_step \<sigma> (collect_total n \<sigma>)"
| d_drop: "i \<in> set (sending \<sigma>) \<Longrightarrow> collectorDone \<sigma> \<Longrightarrow> deliver_step \<sigma> (child_drop i \<sigma>)"
| d_root_drop: "root_end \<sigma> = RSending n \<Longrightarrow> collectorDone \<sigma> \<Longrightarrow> deliver_step \<sigma> (root_drop \<sigma>)"
| d_close: "collector \<sigma> = CClosing \<Longrightarrow> deliver_step \<sigma> (close_done \<sigma>)"
| d_report: "collector \<sigma> = CReporting \<Longrightarrow> deliver_step \<sigma> (send_tracing \<sigma>)"

text \<open>A span under construction is open.\<close>

definition open_span :: "'p default_span \<Rightarrow> bool" where
  "open_span ds \<longleftrightarrow> \<not> ds_ended ds \<and> ds_EndTime ds = None"

inductive seg_step :: "segment \<Rightarrow> segment \<Rightarrow> bool" where
  g_draw: "creators \<sigma> g = GIdle \<Longrightarrow> seg_step \<sigma> (draw_id g \<sigma>)"
| g_load: "creators \<sigma> g = GDrawn sid \<Longrightarrow> seg_step \<sigma> (register_load g sid \<sigma>)"
| g_cas: "creators \<sigma> g = GLoaded sid old \<Longrightarrow> open_span ds \<Longrightarrow> seg_step \<sigma> (register_cas g sid old ds \<sigma>)"
| g_child: "i < length (children \<sigma>) \<Longrightarrow> span_step (snd (children \<sigma> ! i)) s \<Longrightarrow> seg_step \<sigma> (child_section i s \<sigma>)"
| g_root: "span_step (root \<sigma>) s \<Longrightarrow> seg_step \<sigma> (root_section s \<sigma>)"
| g_deliver: "deliver_step \<sigma> \<sigma>' \<Longrightarrow> seg_step \<sigma> \<sigma>'"

inductive_cases deliver_stepE: "deliver_step \<sigma> \<sigma>'"
inductive_cases seg_stepE: "seg_step \<sigma> \<sigma>'"

definition segment_reach :: "segment \<Rightarrow> bool" where
  "segment_reach \<sigma> \<longleftrightarrow> (\<exists>ds. open_span ds \<and> seg_step\<^sup>*\<^sup>* (newSegmentRoot (shared ds)) \<sigma>)"

section \<open>The invariant\<close>

definition spans_inv :: "segment \<Rightarrow> bool" where
  "spans_inv \<sigma> \<longleftrightarrow> span_inv (root \<sigma>) \<and> (\<forall>c\<in>set (children \<sigma>). span_inv (snd c))"

text \<open>The root: refNum counts the children until the swap, and the total is that count.\<close>

definition count_inv :: "segment \<Rightarrow> bool" where
  "count_inv \<sigma> \<longleftrightarrow>
     (root_end \<sigma> = RRunning \<longleftrightarrow> ss_handed (root \<sigma>) = 0) \<and>
     (case root_end \<sigma> of
        RRunning \<Rightarrow> refNum \<sigma> = of_nat (length (children \<sigma>)) \<and> total \<sigma> = -1
      | RSwapping \<Rightarrow> refNum \<sigma> = of_nat (length (children \<sigma>)) \<and> total \<sigma> = -1
      | RSending n \<Rightarrow> refNum \<sigma> = -1 \<and> n = of_nat (length (children \<sigma>)) \<and> total \<sigma> = -1
      | RReturned \<Rightarrow> refNum \<sigma> = -1 \<and> total \<sigma> = int (length (children \<sigma>))) \<and>
     (\<forall>g sid old. creators \<sigma> g = GLoaded sid old \<longrightarrow> \<not> old <s 0)"

text \<open>The children: handed over exactly when being sent or collected, once each.\<close>

definition sent_inv :: "segment \<Rightarrow> bool" where
  "sent_inv \<sigma> \<longleftrightarrow>
     distinct (sending \<sigma> @ collected \<sigma>) \<and>
     set (sending \<sigma> @ collected \<sigma>) = {i. i < length (children \<sigma>) \<and> ss_handed (snd (children \<sigma> ! i)) = 1}"

definition collector_inv :: "segment \<Rightarrow> bool" where
  "collector_inv \<sigma> \<longleftrightarrow>
     (collector \<sigma> = CCollecting \<longleftrightarrow> total \<sigma> \<noteq> int (length (collected \<sigma>))) \<and>
     (collectorDone \<sigma> \<longleftrightarrow> collector \<sigma> = CReporting \<or> collector \<sigma> = CFinished) \<and>
     dropped \<sigma> = 0 \<and>
     reports \<sigma> = (if collector \<sigma> = CFinished then [map RChild (collected \<sigma>) @ [RRoot]] else [])"

definition seg_inv :: "segment \<Rightarrow> bool" where
  "seg_inv \<sigma> \<longleftrightarrow> spans_inv \<sigma> \<and> count_inv \<sigma> \<and> sent_inv \<sigma> \<and> collector_inv \<sigma>"

text \<open>The bound: fewer than \<open>2 ^ 31\<close> children, so refNum does not wrap.\<close>

definition small :: "segment \<Rightarrow> bool" where
  "small \<sigma> \<longleftrightarrow> length (children \<sigma>) < 2147483648"

lemmas create_defs = draw_id_def register_load_def register_cas_def
lemmas section_defs = child_section_def root_section_def root_swap_def child_drop_def root_drop_def
lemmas collect_defs = collector_check_def collect_span_def collect_total_def close_done_def send_tracing_def

lemma span_inv_open: "open_span ds \<Longrightarrow> span_inv (shared ds)"
  by (simp add: span_inv_def shared_def open_span_def)

lemma handed_cases: "span_inv s \<Longrightarrow> ss_handed s = 0 \<or> ss_handed s = 1"
  by (simp add: span_inv_def)

lemma handed_mono:
  assumes "span_step s s'" shows "ss_handed s \<le> ss_handed s'"
  using assms by (cases rule: span_step.cases) auto

lemma of_nat_not_neg: "n < 2147483648 \<Longrightarrow> \<not> (of_nat n :: i32) <s 0"
  by (simp add: word_sless_alt signed_of_nat signed_take_bit_int_eq_self)

lemma sint_of_nat_small: "n < 2147483648 \<Longrightarrow> sint (of_nat n :: i32) = int n"
  by (simp add: signed_of_nat signed_take_bit_int_eq_self)

lemma seg_inv_new: "open_span ds \<Longrightarrow> seg_inv (newSegmentRoot (shared ds))"
  by (auto simp: seg_inv_def newSegmentRoot_def spans_inv_def count_inv_def sent_inv_def collector_inv_def
      span_inv_open, simp_all add: shared_def)

text \<open>When every child was collected the senders are gone and the root has returned.\<close>

lemma collected_all:
  assumes "sent_inv \<sigma>" "count_inv \<sigma>" "total \<sigma> = int (length (collected \<sigma>))"
  shows "sending \<sigma> = [] \<and> root_end \<sigma> = RReturned \<and> set (collected \<sigma>) = {i. i < length (children \<sigma>)}
    \<and> (\<forall>i<length (children \<sigma>). ss_handed (snd (children \<sigma> ! i)) = 1)"
proof -
  have r: "root_end \<sigma> = RReturned" and t: "length (collected \<sigma>) = length (children \<sigma>)"
    using assms(2,3) by (auto simp: count_inv_def split: root_pc.splits)
  have sub: "set (collected \<sigma>) \<subseteq> {i. i < length (children \<sigma>)}" and d: "distinct (collected \<sigma>)"
    using assms(1) by (auto simp: sent_inv_def)
  have c: "set (collected \<sigma>) = {i. i < length (children \<sigma>)}"
    by (rule card_subset_eq [OF _ sub]) (simp_all add: distinct_card [OF d] t)
  with assms(1) have "sending \<sigma> = []"
    unfolding sent_inv_def by (cases "sending \<sigma>") auto
  with c r assms(1) show ?thesis by (auto simp: sent_inv_def)
qed

section \<open>Every step keeps the invariant\<close>

lemma small_deliver: "deliver_step \<sigma> \<sigma>' \<Longrightarrow> children \<sigma>' = children \<sigma>"
  by (erule deliver_stepE) (auto simp: section_defs collect_defs)

lemma small_step: "seg_step \<sigma> \<sigma>' \<Longrightarrow> length (children \<sigma>) \<le> length (children \<sigma>')"
  by (erule seg_stepE) (auto simp: create_defs child_section_def root_section_def dest: small_deliver)

lemma count_inv_cong:
  "root_end \<sigma>' = root_end \<sigma> \<Longrightarrow> ss_handed (root \<sigma>') = ss_handed (root \<sigma>) \<Longrightarrow> refNum \<sigma>' = refNum \<sigma> \<Longrightarrow>
   length (children \<sigma>') = length (children \<sigma>) \<Longrightarrow> total \<sigma>' = total \<sigma> \<Longrightarrow> creators \<sigma>' = creators \<sigma> \<Longrightarrow>
   count_inv \<sigma>' = count_inv \<sigma>"
  by (simp add: count_inv_def cong: root_pc.case_cong)

lemma collector_inv_cong:
  "collector \<sigma>' = collector \<sigma> \<Longrightarrow> total \<sigma>' = total \<sigma> \<Longrightarrow> collected \<sigma>' = collected \<sigma> \<Longrightarrow>
   collectorDone \<sigma>' = collectorDone \<sigma> \<Longrightarrow> dropped \<sigma>' = dropped \<sigma> \<Longrightarrow> reports \<sigma>' = reports \<sigma> \<Longrightarrow>
   collector_inv \<sigma>' = collector_inv \<sigma>"
  by (simp add: collector_inv_def)

lemma spans_inv_cong:
  "root \<sigma>' = root \<sigma> \<Longrightarrow> children \<sigma>' = children \<sigma> \<Longrightarrow> spans_inv \<sigma>' = spans_inv \<sigma>"
  by (simp add: spans_inv_def)

lemma sent_inv_cong:
  "children \<sigma>' = children \<sigma> \<Longrightarrow> sending \<sigma>' = sending \<sigma> \<Longrightarrow> collected \<sigma>' = collected \<sigma> \<Longrightarrow>
   sent_inv \<sigma>' = sent_inv \<sigma>"
  by (simp add: sent_inv_def)

lemma seg_inv_draw: "seg_inv \<sigma> \<Longrightarrow> seg_inv (draw_id g \<sigma>)"
  by (auto simp: seg_inv_def spans_inv_def count_inv_def sent_inv_def collector_inv_def draw_id_def
      split: root_pc.splits if_splits)

lemma seg_inv_load: "seg_inv \<sigma> \<Longrightarrow> seg_inv (register_load g sid \<sigma>)"
  by (auto simp: seg_inv_def spans_inv_def count_inv_def sent_inv_def collector_inv_def register_load_def
      split: root_pc.splits if_splits)

lemma sent_inv_append:
  assumes "sent_inv \<sigma>" "ss_handed s = 0" "children \<sigma>' = children \<sigma> @ [(sid, s)]"
    "sending \<sigma>' = sending \<sigma>" "collected \<sigma>' = collected \<sigma>"
  shows "sent_inv \<sigma>'"
  using assms by (auto simp: sent_inv_def nth_append less_Suc_eq)

lemma seg_inv_cas:
  assumes "seg_inv \<sigma>" "creators \<sigma> g = GLoaded sid old" "open_span ds"
  shows "seg_inv (register_cas g sid old ds \<sigma>)"
proof (cases "refNum \<sigma> = old")
  case False
  with assms show ?thesis
    by (auto simp: seg_inv_def spans_inv_def count_inv_def sent_inv_def collector_inv_def register_cas_def
      split: root_pc.splits if_splits)
next
  case True
  with assms have "\<not> refNum \<sigma> <s 0" by (auto simp: seg_inv_def count_inv_def)
  then have "refNum \<sigma> \<noteq> -1" by auto
  with assms(1) have r: "root_end \<sigma> = RRunning \<or> root_end \<sigma> = RSwapping"
    by (auto simp: seg_inv_def count_inv_def split: root_pc.splits)
  have "sent_inv (register_cas g sid old ds \<sigma>)"
    using assms(1) True by (auto simp: register_cas_def seg_inv_def shared_def intro!: sent_inv_append [of \<sigma>])
  with assms True r show ?thesis
    by (auto simp: seg_inv_def spans_inv_def count_inv_def collector_inv_def register_cas_def span_inv_open)
qed

definition handed_set :: "(i32 \<times> nat shared_span) list \<Rightarrow> nat set" where
  "handed_set cs = {i. i < length cs \<and> ss_handed (snd (cs ! i)) = 1}"

lemma sent_inv_handed:
  "sent_inv \<sigma> \<longleftrightarrow> distinct (sending \<sigma> @ collected \<sigma>) \<and>
     set (sending \<sigma> @ collected \<sigma>) = handed_set (children \<sigma>)"
  by (simp add: sent_inv_def handed_set_def)

lemma handed_set_update:
  "i < length cs \<Longrightarrow> handed_set (cs[i := (x, s)]) =
    (if ss_handed s = 1 then insert i (handed_set cs) else handed_set cs - {i})"
  by (auto simp: handed_set_def nth_list_update)

lemma sent_inv_section:
  assumes "sent_inv \<sigma>" "i < length (children \<sigma>)" "span_inv (snd (children \<sigma> ! i))" "span_inv s"
    "ss_handed (snd (children \<sigma> ! i)) \<le> ss_handed s"
  shows "sent_inv (child_section i s \<sigma>)"
proof -
  have h: "ss_handed s = 0 \<or> ss_handed s = 1" "ss_handed (snd (children \<sigma> ! i)) = 0 \<or> ss_handed (snd (children \<sigma> ! i)) = 1"
    using assms(3,4) by (auto dest: handed_cases)
  have i: "i \<in> handed_set (children \<sigma>) \<longleftrightarrow> ss_handed (snd (children \<sigma> ! i)) = 1"
    using assms(2) by (simp add: handed_set_def)
  let ?H = "handed_set (children \<sigma>)"
  have "handed_set ((children \<sigma>)[i := (x, s)]) =
      (if ss_handed (snd (children \<sigma> ! i)) < ss_handed s then insert i ?H else ?H)" for x
    using assms(5) h i unfolding handed_set_update [OF assms(2)] by auto
  moreover have "i \<notin> ?H" if "ss_handed (snd (children \<sigma> ! i)) < ss_handed s"
    using that h i by auto
  ultimately show ?thesis
    using assms(1) by (simp add: sent_inv_handed child_section_def split del: if_split)
      (auto split: if_splits)
qed

lemma seg_inv_child:
  assumes "seg_inv \<sigma>" "i < length (children \<sigma>)" "span_step (snd (children \<sigma> ! i)) s"
  shows "seg_inv (child_section i s \<sigma>)"
proof -
  have i: "span_inv (snd (children \<sigma> ! i))"
    using assms(1,2) by (auto simp: seg_inv_def spans_inv_def)
  have s: "span_inv s" using span_inv_step [OF assms(3) i] .
  have "spans_inv (child_section i s \<sigma>)"
    using assms(1) s set_update_subset_insert [of "children \<sigma>" i "(fst (children \<sigma> ! i), s)"]
    by (auto simp: seg_inv_def spans_inv_def child_section_def)
  moreover have "sent_inv (child_section i s \<sigma>)"
    using sent_inv_section [OF _ assms(2) i s handed_mono [OF assms(3)]] assms(1) by (simp add: seg_inv_def)
  moreover have "count_inv (child_section i s \<sigma>) = count_inv \<sigma>"
    by (rule count_inv_cong) (simp_all add: child_section_def)
  moreover have "collector_inv (child_section i s \<sigma>) = collector_inv \<sigma>"
    by (rule collector_inv_cong) (simp_all add: child_section_def)
  ultimately show ?thesis using assms(1) by (simp add: seg_inv_def)
qed

lemma seg_inv_root:
  assumes "seg_inv \<sigma>" "span_step (root \<sigma>) s"
  shows "seg_inv (root_section s \<sigma>)"
proof -
  have i: "span_inv (root \<sigma>)" using assms(1) by (auto simp: seg_inv_def spans_inv_def)
  note h = handed_cases [OF i] handed_cases [OF span_inv_step [OF assms(2) i]] handed_mono [OF assms(2)]
  with assms(1) span_inv_step [OF assms(2) i] show ?thesis
    by (auto simp: seg_inv_def spans_inv_def count_inv_def sent_inv_def collector_inv_def root_section_def
      split: root_pc.splits)
qed

lemma sent_inv_collect:
  assumes "sent_inv \<sigma>" "i \<in> set (sending \<sigma>)"
  shows "sent_inv (\<sigma>\<lparr>sending := remove1 i (sending \<sigma>), collected := collected \<sigma> @ [i]\<rparr>)"
  using assms by (auto simp: sent_inv_def)

lemma check_simps [simp]:
  "children (collector_check \<sigma>) = children \<sigma>" "root (collector_check \<sigma>) = root \<sigma>"
  "creators (collector_check \<sigma>) = creators \<sigma>" "root_end (collector_check \<sigma>) = root_end \<sigma>"
  "sending (collector_check \<sigma>) = sending \<sigma>" "total (collector_check \<sigma>) = total \<sigma>"
  "collected (collector_check \<sigma>) = collected \<sigma>" "collectorDone (collector_check \<sigma>) = collectorDone \<sigma>"
  "dropped (collector_check \<sigma>) = dropped \<sigma>" "reports (collector_check \<sigma>) = reports \<sigma>"
  "refNum (collector_check \<sigma>) = refNum \<sigma>"
  "collector (collector_check \<sigma>) =
     (if total \<sigma> = int (length (collected \<sigma>)) then CClosing else collector \<sigma>)"
  by (simp_all add: collector_check_def)

lemma seg_inv_deliver:
  assumes "seg_inv \<sigma>" "small \<sigma>" "deliver_step \<sigma> \<sigma>'"
  shows "seg_inv \<sigma>'"
proof -
  have inv: "spans_inv \<sigma>" "count_inv \<sigma>" "sent_inv \<sigma>" "collector_inv \<sigma>"
    using assms(1) by (auto simp: seg_inv_def)
  have closed: "sending \<sigma> = [] \<and> root_end \<sigma> = RReturned" if "collectorDone \<sigma>"
    using that inv(4) collected_all [OF inv(3,2)] by (auto simp: collector_inv_def)
  from assms(3) show ?thesis
  proof (cases rule: deliver_step.cases)
    case d_swap
    with inv show ?thesis
      by (auto simp: seg_inv_def root_swap_def spans_inv_def count_inv_def collector_inv_def
          sent_inv_cong [of "root_swap \<sigma>" \<sigma>] sent_inv_def)
  next
    case (d_span i)
    have "sent_inv \<sigma>'"
      using sent_inv_collect [OF inv(3) d_span(2)] d_span(1)
      by (simp add: collect_span_def sent_inv_def)
    with inv d_span show ?thesis
      by (auto simp: seg_inv_def collect_span_def spans_inv_def count_inv_def collector_inv_def
          split: root_pc.splits)
  next
    case (d_total n)
    with inv(2) assms(2) have "sint n = int (length (children \<sigma>))" "refNum \<sigma> = -1"
      by (auto simp: count_inv_def small_def sint_of_nat_small)
    with inv d_total show ?thesis
      by (auto simp: seg_inv_def collect_total_def spans_inv_def count_inv_def collector_inv_def sent_inv_def)
  next
    case (d_drop i)
    with closed show ?thesis by simp
  next
    case (d_root_drop n)
    with closed show ?thesis by simp
  next
    case d_close
    have "spans_inv \<sigma>' = spans_inv \<sigma>" by (rule spans_inv_cong) (simp_all add: d_close close_done_def)
    moreover have "count_inv \<sigma>' = count_inv \<sigma>" by (rule count_inv_cong) (simp_all add: d_close close_done_def)
    moreover have "sent_inv \<sigma>' = sent_inv \<sigma>" by (rule sent_inv_cong) (simp_all add: d_close close_done_def)
    moreover have "collector_inv \<sigma>'" using inv(4) d_close by (auto simp: collector_inv_def close_done_def)
    ultimately show ?thesis using inv by (simp add: seg_inv_def)
  next
    case d_report
    have "spans_inv \<sigma>' = spans_inv \<sigma>" by (rule spans_inv_cong) (simp_all add: d_report send_tracing_def)
    moreover have "count_inv \<sigma>' = count_inv \<sigma>" by (rule count_inv_cong) (simp_all add: d_report send_tracing_def)
    moreover have "sent_inv \<sigma>' = sent_inv \<sigma>" by (rule sent_inv_cong) (simp_all add: d_report send_tracing_def)
    moreover have "collector_inv \<sigma>'" using inv(4) d_report by (auto simp: collector_inv_def send_tracing_def)
    ultimately show ?thesis using inv by (simp add: seg_inv_def)
  qed
qed

lemma seg_inv_step:
  assumes "seg_step \<sigma> \<sigma>'" "seg_inv \<sigma>" "small \<sigma>"
  shows "seg_inv \<sigma>'"
  using assms(1)
proof (cases rule: seg_step.cases)
  case g_deliver
  with assms seg_inv_deliver show ?thesis by blast
qed (use assms in \<open>simp_all add: seg_inv_draw seg_inv_load seg_inv_cas seg_inv_child seg_inv_root\<close>)

lemma seg_inv_steps:
  assumes "seg_step\<^sup>*\<^sup>* \<sigma> \<sigma>'" "seg_inv \<sigma>" "small \<sigma>'"
  shows "seg_inv \<sigma>'"
  using assms
proof (induction rule: rtranclp_induct)
  case (step t u)
  have "small t" using small_step [OF step.hyps(2)] step.prems by (simp add: small_def)
  with step seg_inv_step show ?case by blast
qed

lemma segment_reach_inv: "segment_reach \<sigma> \<Longrightarrow> small \<sigma> \<Longrightarrow> seg_inv \<sigma>"
  unfolding segment_reach_def using seg_inv_steps seg_inv_new by blast

section \<open>Safety\<close>

definition root_gone :: "segment \<Rightarrow> bool" where
  "root_gone \<sigma> \<longleftrightarrow> (case root_end \<sigma> of RRunning \<Rightarrow> False | RSwapping \<Rightarrow> False | _ \<Rightarrow> True)"

lemma stopped_all:
  assumes "seg_inv \<sigma>" "collector \<sigma> \<noteq> CCollecting"
  shows "sending \<sigma> = [] \<and> root_end \<sigma> = RReturned \<and> set (collected \<sigma>) = {i. i < length (children \<sigma>)}
    \<and> (\<forall>i<length (children \<sigma>). ss_handed (snd (children \<sigma> ! i)) = 1)"
  using assms collected_all [of \<sigma>] by (auto simp: seg_inv_def collector_inv_def)

lemma root_gone_step:
  assumes "seg_step \<sigma> \<sigma>'" "seg_inv \<sigma>" "root_gone \<sigma>"
  shows "root_gone \<sigma>' \<and> length (children \<sigma>') = length (children \<sigma>)"
  using assms(1)
proof (cases rule: seg_step.cases)
  case (g_cas g sid old ds)
  from assms(2,3) have "refNum \<sigma> = -1" "\<not> old <s 0"
    using g_cas(2) by (auto simp: seg_inv_def count_inv_def root_gone_def split: root_pc.splits)
  then have "refNum \<sigma> \<noteq> old" by auto
  with g_cas assms(3) show ?thesis by (simp add: register_cas_def root_gone_def)
next
  case (g_root s)
  have "ss_handed (root \<sigma>) = 1"
    using assms(2,3) handed_cases [of "root \<sigma>"]
    by (auto simp: seg_inv_def spans_inv_def count_inv_def root_gone_def)
  moreover have "span_inv s" using g_root assms(2) span_inv_step by (auto simp: seg_inv_def spans_inv_def)
  ultimately show ?thesis
    using g_root assms(3) handed_cases [of s] by (auto simp: root_section_def root_gone_def)
next
  case g_deliver
  then show ?thesis
    using assms(3) by (cases rule: deliver_step.cases) (auto simp: section_defs collect_defs root_gone_def)
qed (use assms(3) in \<open>simp_all add: draw_id_def register_load_def child_section_def root_gone_def\<close>)

lemma root_gone_steps:
  assumes "seg_step\<^sup>*\<^sup>* \<sigma> \<sigma>'" "seg_inv \<sigma>" "root_gone \<sigma>" "small \<sigma>"
  shows "root_gone \<sigma>' \<and> length (children \<sigma>') = length (children \<sigma>) \<and> seg_inv \<sigma>'"
  using assms
proof (induction rule: rtranclp_induct)
  case (step t u)
  then have "small t" by (simp add: small_def)
  with step root_gone_step [OF step.hyps(2)] seg_inv_step [OF step.hyps(2)] show ?case by simp
qed simp

text \<open>The spans of a segment whose collector has stopped never change what was reported.\<close>

definition segment_data where
  "segment_data \<sigma> = (reported_data (ss_span (root \<sigma>)),
     map (\<lambda>(sid, s). (sid, reported_data (ss_span s))) (children \<sigma>))"

lemma handed_ended: "span_inv s \<Longrightarrow> ss_handed s = 1 \<Longrightarrow> ds_ended (ss_span s)"
  unfolding span_inv_def by (cases "ds_ended (ss_span s)") simp_all

lemma handed_frozen:
  assumes "span_step s s'" "span_inv s" "ss_handed s = 1"
  shows "reported_data (ss_span s') = reported_data (ss_span s)"
  using span_step_frozen [OF assms(1,2)] handed_ended [OF assms(2,3)] by simp

lemma stopped_step:
  assumes "seg_step \<sigma> \<sigma>'" "seg_inv \<sigma>" "collector \<sigma> \<noteq> CCollecting"
  shows "collector \<sigma>' \<noteq> CCollecting \<and> segment_data \<sigma>' = segment_data \<sigma> \<and>
    (reports \<sigma> \<noteq> [] \<longrightarrow> reports \<sigma>' = reports \<sigma>)"
proof -
  note S = stopped_all [OF assms(2,3)]
  have inv: "spans_inv \<sigma>" "count_inv \<sigma>" "collector_inv \<sigma>" using assms(2) by (auto simp: seg_inv_def)
  from assms(1) show ?thesis
  proof (cases rule: seg_step.cases)
    case (g_cas g sid old ds)
    from S inv(2) have "refNum \<sigma> = -1" "\<not> old <s 0"
      using g_cas(2) by (auto simp: count_inv_def)
    then have "refNum \<sigma> \<noteq> old" by auto
    with g_cas assms(3) show ?thesis by (simp add: register_cas_def segment_data_def)
  next
    case (g_child i s)
    have "reported_data (ss_span s) = reported_data (ss_span (snd (children \<sigma> ! i)))"
      using S g_child inv(1) by (intro handed_frozen) (auto simp: spans_inv_def)
    then have "map (\<lambda>(sid, s). (sid, reported_data (ss_span s))) ((children \<sigma>)[i := (fst (children \<sigma> ! i), s)])
        = map (\<lambda>(sid, s). (sid, reported_data (ss_span s))) (children \<sigma>)"
      using g_child by (intro nth_equalityI) (auto simp: nth_list_update split_beta)
    with g_child assms(3) show ?thesis by (simp add: child_section_def segment_data_def)
  next
    case (g_root s)
    have "ss_handed (root \<sigma>) = 1"
      using S inv handed_cases [of "root \<sigma>"] by (auto simp: spans_inv_def count_inv_def)
    then have "reported_data (ss_span s) = reported_data (ss_span (root \<sigma>))"
      using g_root inv(1) by (intro handed_frozen) (auto simp: spans_inv_def)
    with g_root assms(3) show ?thesis by (simp add: root_section_def segment_data_def)
  next
    case g_deliver
    then show ?thesis
      using S assms(3) inv(3)
      by (cases rule: deliver_step.cases)
        (auto simp: section_defs close_done_def send_tracing_def segment_data_def collector_inv_def)
  qed (use assms(3) in \<open>simp_all add: draw_id_def register_load_def segment_data_def\<close>)
qed

text \<open>
  C1. Every segment is reported at most once, and the report lists every registered child
  span exactly once and the root span last, all of them frozen, in every interleaving of
  span creation, span ends and delivery (fewer than \<open>2 ^ 31\<close> children).
\<close>

theorem segment_report_complete:
  assumes "segment_reach \<sigma>" "small \<sigma>"
  shows "reports \<sigma> = [] \<or>
    (\<exists>order. reports \<sigma> = [map RChild order @ [RRoot]] \<and> distinct order \<and>
       set order = {0..<length (children \<sigma>)} \<and> ds_ended (ss_span (root \<sigma>)) \<and>
       list_all (\<lambda>c. ds_ended (ss_span (snd c))) (children \<sigma>))"
proof (cases "collector \<sigma> = CFinished")
  case False
  with segment_reach_inv [OF assms] show ?thesis by (auto simp: seg_inv_def collector_inv_def)
next
  case True
  have inv: "seg_inv \<sigma>" using segment_reach_inv [OF assms] .
  note S = stopped_all [OF inv]
  have "ds_ended (ss_span (snd c))" if "c \<in> set (children \<sigma>)" for c
    using that S True inv by (intro handed_ended) (auto simp: in_set_conv_nth seg_inv_def spans_inv_def)
  moreover have "ds_ended (ss_span (root \<sigma>))"
    using S True inv by (intro handed_ended)
      (auto simp: seg_inv_def spans_inv_def count_inv_def dest!: handed_cases)
  ultimately show ?thesis
    using S True inv by (intro disjI2 exI [of _ "collected \<sigma>"])
      (auto simp: seg_inv_def collector_inv_def sent_inv_handed list_all_iff)
qed

text \<open>
  The drop branches of both end0 functions are unreachable, as the code's comment
  claims: nothing is ever dropped, and when collectorDone is closed no sender is waiting.
\<close>

theorem collector_never_drops:
  assumes "segment_reach \<sigma>" "small \<sigma>"
  shows "dropped \<sigma> = 0 \<and> (collectorDone \<sigma> \<longrightarrow> sending \<sigma> = [] \<and> root_end \<sigma> = RReturned)"
  using segment_reach_inv [OF assms] stopped_all [of \<sigma>]
  by (auto simp: seg_inv_def collector_inv_def)

text \<open>
  Once the root has swapped refNum, no span registers with the segment any more: its
  number of children is final, whatever steps follow.
\<close>

theorem no_registration_after_root:
  assumes "segment_reach \<sigma>" "small \<sigma>" "root_gone \<sigma>" "seg_step\<^sup>*\<^sup>* \<sigma> \<sigma>'"
  shows "length (children \<sigma>') = length (children \<sigma>) \<and> refNum \<sigma>' = -1"
  using root_gone_steps [OF assms(4) segment_reach_inv [OF assms(1,2)] assms(3,2)]
  by (auto simp: seg_inv_def count_inv_def root_gone_def split: root_pc.splits)

text \<open>
  C12. After the collector has stopped receiving, nothing any goroutine does changes the span data
  of the segment or the report: the reporter reads immutable data without locks.
\<close>

theorem reported_segment_immutable:
  assumes "segment_reach \<sigma>" "small \<sigma>" "collector \<sigma> \<noteq> CCollecting" "seg_step\<^sup>*\<^sup>* \<sigma> \<sigma>'"
  shows "segment_data \<sigma>' = segment_data \<sigma> \<and> (reports \<sigma> \<noteq> [] \<longrightarrow> reports \<sigma>' = reports \<sigma>)"
proof -
  have inv: "seg_inv \<sigma>" using segment_reach_inv [OF assms(1,2)] .
  have gone: "root_gone \<sigma>" using stopped_all [OF inv assms(3)] by (simp add: root_gone_def)
  from assms(4) show ?thesis
  proof (induction rule: rtranclp_induct)
    case base
    then show ?case by simp
  next
    case (step t u)
    have t: "collector t \<noteq> CCollecting"
      using step.hyps(1)
    proof (induction rule: rtranclp_induct)
      case (step v w)
      have "seg_inv v" using root_gone_steps [OF step.hyps(1) inv gone assms(2)] by simp
      from stopped_step [OF step.hyps(2) this step.IH] show ?case by simp
    qed (rule assms(3))
    have "seg_inv t" using root_gone_steps [OF step.hyps(1) inv gone assms(2)] by simp
    from stopped_step [OF step.hyps(2) this t] step.IH show ?case by auto
  qed
qed

section \<open>A complete run\<close>

definition open_root :: "nat shared_span" where
  "open_root = shared (NewDefaultSpan 1 None)"

text \<open>The span after its End, handed over.\<close>

definition end_of :: "int \<Rightarrow> nat shared_span \<Rightarrow> nat shared_span" where
  "end_of now s = s\<lparr>ss_span := fst (endSyncAndFreeze now (ss_span s)), ss_handed := ss_handed s + 1\<rparr>"

definition run_registered :: segment where
  "run_registered = register_cas 0 1 0 (NewDefaultSpan 2 (Some 0)) (register_load 0 1 (draw_id 0 (newSegmentRoot open_root)))"

definition run_sent :: segment where
  "run_sent = root_swap (root_section (end_of 4 open_root)
     (child_section 0 (end_of 3 (shared (NewDefaultSpan 2 (Some 0)))) run_registered))"

definition run_stopped :: segment where
  "run_stopped = collect_total 1 (collect_span 0 run_sent)"

definition run_reported :: segment where
  "run_reported = send_tracing (close_done run_stopped)"

lemma end_of_step: "open_span (ss_span s) \<Longrightarrow> \<not> ds_InAsyncMode (ss_span s) \<Longrightarrow> ds_reuseCount (ss_span s) = 0 \<Longrightarrow>
    span_step s (end_of now s)"
  using s_end [of now s "fst (endSyncAndFreeze now (ss_span s))" True True]
  by (simp add: end_of_def endSyncAndFreeze_def open_span_def)

lemma open_new: "open_span (NewDefaultSpan now parent)"
  by (simp add: open_span_def NewDefaultSpan_def)

lemma run_registered_eq:
  "run_registered = (newSegmentRoot open_root)\<lparr>refNum := 1, spanIDGenerator := 1,
     children := [(1, shared (NewDefaultSpan 2 (Some 0)))]\<rparr>"
  by (simp add: run_registered_def register_cas_def register_load_def draw_id_def newSegmentRoot_def fun_eq_iff)

lemma reach_step: "segment_reach \<sigma> \<Longrightarrow> seg_step \<sigma> \<sigma>' \<Longrightarrow> segment_reach \<sigma>'"
  unfolding segment_reach_def by (meson rtranclp.rtrancl_into_rtrancl)

lemma reach_new: "open_span ds \<Longrightarrow> segment_reach (newSegmentRoot (shared ds))"
  unfolding segment_reach_def by blast

lemma reach_registered: "segment_reach run_registered"
  unfolding run_registered_def
  by (intro reach_step [OF _ g_cas] reach_step [OF _ g_load] reach_step [OF _ g_draw])
    (simp_all add: open_root_def reach_new open_new, simp_all add: register_load_def draw_id_def newSegmentRoot_def)

lemma reach_sent: "segment_reach run_sent"
proof -
  let ?c = "end_of 3 (shared (NewDefaultSpan 2 (Some 0)))"
  have 1: "segment_reach (child_section 0 ?c run_registered)"
    by (rule reach_step [OF reach_registered g_child])
      (auto simp: run_registered_eq newSegmentRoot_def shared_def NewDefaultSpan_def open_span_def intro!: end_of_step)
  have 2: "segment_reach (root_section (end_of 4 open_root) (child_section 0 ?c run_registered))"
    by (rule reach_step [OF 1 g_root])
      (auto simp: run_registered_eq child_section_def newSegmentRoot_def open_root_def shared_def NewDefaultSpan_def
        open_span_def intro!: end_of_step)
  show ?thesis
    unfolding run_sent_def
    by (rule reach_step [OF 2 g_deliver [OF d_swap]])
      (simp add: run_registered_eq root_section_def child_section_def newSegmentRoot_def end_of_def open_root_def
        shared_def)
qed

lemma run_sent_simps [simp]:
  "sending run_sent = [0]" "root_end run_sent = RSending 1" "collector run_sent = CCollecting"
  "collected run_sent = []" "total run_sent = -1" "length (children run_sent) = 1"
  "reports run_sent = []" "refNum run_sent = -1"
  by (simp_all add: run_sent_def run_registered_eq root_swap_def root_section_def child_section_def
      newSegmentRoot_def end_of_def shared_def)

lemma reach_stopped: "segment_reach run_stopped"
proof -
  have 1: "segment_reach (collect_span 0 run_sent)"
    by (rule reach_step [OF reach_sent g_deliver [OF d_span]]) simp_all
  show ?thesis unfolding run_stopped_def
    by (rule reach_step [OF 1 g_deliver [OF d_total]]) (simp_all add: collect_span_def)
qed

lemma run_stopped_simps [simp]:
  "sending run_stopped = []" "root_end run_stopped = RReturned" "collector run_stopped = CClosing"
  "collected run_stopped = [0]" "length (children run_stopped) = 1" "reports run_stopped = []"
  by (simp_all add: run_stopped_def collect_span_def collect_total_def)

lemma reach_reported: "segment_reach run_reported"
  unfolding run_reported_def
  by (rule reach_step [OF reach_step [OF reach_stopped g_deliver [OF d_close]] g_deliver [OF d_report]])
    (simp_all add: close_done_def)

lemma run_reported_simps [simp]:
  "reports run_reported = [[RChild 0, RRoot]]" "length (children run_reported) = 1"
  by (simp_all add: run_reported_def send_tracing_def close_done_def)

lemma stopped_to_reported: "seg_step\<^sup>*\<^sup>* run_stopped run_reported"
  unfolding run_reported_def
  by (rule rtranclp.rtrancl_into_rtrancl [OF r_into_rtranclp [of seg_step, OF g_deliver [OF d_close]] g_deliver [OF d_report]])
    (simp_all add: close_done_def)

lemma segment_report_complete_witness: "list_all (\<lambda>c. ds_ended (ss_span (snd c))) (children run_reported)"
  using segment_report_complete [OF reach_reported] by (auto simp: small_def)

lemma collector_never_drops_witness: "dropped run_reported = 0"
  using collector_never_drops [OF reach_reported] by (simp add: small_def)

lemma no_registration_after_root_witness: "length (children run_reported) = length (children run_stopped)"
  using no_registration_after_root [OF reach_stopped _ _ stopped_to_reported]
  by (simp add: small_def root_gone_def)

lemma reported_segment_immutable_witness: "segment_data run_reported = segment_data run_stopped"
  using reported_segment_immutable [OF reach_stopped _ _ stopped_to_reported] by (simp add: small_def)

section \<open>Liveness\<close>

text \<open>A bound on the delivery steps that are left.\<close>

definition deliver_measure :: "segment \<Rightarrow> nat" where
  "deliver_measure \<sigma> = length (sending \<sigma>)
     + (case root_end \<sigma> of RRunning \<Rightarrow> 0 | RSwapping \<Rightarrow> 2 | RSending n \<Rightarrow> 1 | RReturned \<Rightarrow> 0)
     + (case collector \<sigma> of CCollecting \<Rightarrow> 3 | CClosing \<Rightarrow> 2 | CReporting \<Rightarrow> 1 | CFinished \<Rightarrow> 0)"

lemma deliver_measure_less:
  assumes "deliver_step \<sigma> \<sigma>'" shows "deliver_measure \<sigma>' < deliver_measure \<sigma>"
proof -
  have "length (remove1 i xs) < length xs" if "i \<in> set xs" for i :: nat and xs
    using that by (metis length_remove1 length_pos_if_in_set diff_less zero_less_one)
  with assms show ?thesis
    by (cases rule: deliver_step.cases)
      (auto simp: deliver_measure_def section_defs collect_span_def collect_total_def close_done_def send_tracing_def
        less_SucI)
qed

definition all_ended :: "segment \<Rightarrow> bool" where
  "all_ended \<sigma> \<longleftrightarrow> ss_handed (root \<sigma>) = 1 \<and> list_all (\<lambda>c. ss_handed (snd c) = 1) (children \<sigma>)"

lemma deliver_enabled:
  assumes "seg_inv \<sigma>" "all_ended \<sigma>" "collector \<sigma> \<noteq> CFinished"
  shows "\<exists>\<sigma>'. deliver_step \<sigma> \<sigma>'"
proof (cases "collector \<sigma>")
  case CCollecting
  have r: "root_end \<sigma> \<noteq> RRunning" using assms(1,2) by (auto simp: seg_inv_def count_inv_def all_ended_def)
  show ?thesis
  proof (cases "root_end \<sigma>")
    case RReturned
    with assms(1) CCollecting have "length (collected \<sigma>) \<noteq> length (children \<sigma>)"
      by (auto simp: seg_inv_def count_inv_def collector_inv_def)
    moreover have "handed_set (children \<sigma>) = {0..<length (children \<sigma>)}"
      using assms(2) by (auto simp: handed_set_def all_ended_def list_all_length)
    ultimately have "sending \<sigma> \<noteq> []"
      using assms(1) distinct_card [of "collected \<sigma>"] by (auto simp: seg_inv_def sent_inv_handed)
    then show ?thesis using d_span [OF _ CCollecting] by (meson last_in_set)
  qed (use r CCollecting d_swap d_total in blast)+
qed (use assms(3) d_close d_report in blast)+

lemma deliver_all_ended: "deliver_step \<sigma> \<sigma>' \<Longrightarrow> all_ended \<sigma> \<Longrightarrow> all_ended \<sigma>'"
  by (erule deliver_stepE) (auto simp: all_ended_def section_defs collect_span_def collect_total_def close_done_def send_tracing_def)

text \<open>
  C2. When every span of a segment has ended, delivery terminates, and only with the
  segment reported: any run of delivery steps is at most deliver_measure steps long, and a
  run that cannot go on has reported the segment.
\<close>

theorem segment_eventually_reported:
  assumes "segment_reach \<sigma>" "small \<sigma>" "all_ended \<sigma>" "(deliver_step ^^ n) \<sigma> \<sigma>'"
  shows "n \<le> deliver_measure \<sigma> \<and> ((\<exists>\<sigma>''. deliver_step \<sigma>' \<sigma>'') \<or> reports \<sigma>' \<noteq> [])"
proof -
  have "n + deliver_measure \<sigma>' \<le> deliver_measure \<sigma> \<and> seg_inv \<sigma>' \<and> small \<sigma>' \<and> all_ended \<sigma>'"
    using assms(4)
  proof (induction n arbitrary: \<sigma>')
    case 0
    with assms segment_reach_inv show ?case by simp
  next
    case (Suc n)
    from Suc.prems obtain t where t: "(deliver_step ^^ n) \<sigma> t" "deliver_step t \<sigma>'" by auto
    from Suc.IH [OF t(1)] seg_inv_deliver [OF _ _ t(2)] deliver_measure_less [OF t(2)]
      small_deliver [OF t(2)] deliver_all_ended [OF t(2)]
    show ?case by (auto simp: small_def)
  qed
  moreover have "reports \<sigma>' \<noteq> []" if "seg_inv \<sigma>'" "collector \<sigma>' = CFinished"
    using that by (simp add: seg_inv_def collector_inv_def)
  ultimately show ?thesis using deliver_enabled [of \<sigma>'] by auto
qed

lemma all_ended_run_sent: "all_ended run_sent"
  by (simp add: all_ended_def run_sent_def run_registered_eq root_swap_def root_section_def child_section_def
      newSegmentRoot_def end_of_def shared_def open_root_def)

lemma segment_eventually_reported_witness:
  "1 \<le> deliver_measure run_sent \<and> (\<exists>\<sigma>. deliver_step (collect_span 0 run_sent) \<sigma>)"
proof -
  have "(deliver_step ^^ 1) run_sent (collect_span 0 run_sent)"
    unfolding relpowp_1 by (simp add: d_span)
  from segment_eventually_reported [OF reach_sent _ all_ended_run_sent this] show ?thesis
    by (simp add: small_def collect_span_def)
qed

section \<open>Span ids\<close>

text \<open>The id a creating goroutine holds.\<close>

fun drawn :: "register_pc \<Rightarrow> i32 option" where
  "drawn GIdle = None"
| "drawn (GDrawn sid) = Some sid"
| "drawn (GLoaded sid old) = Some sid"

definition ids_inv :: "nat \<Rightarrow> segment \<Rightarrow> bool" where
  "ids_inv n \<sigma> \<longleftrightarrow> unat (spanIDGenerator \<sigma>) \<le> n \<and>
     distinct (map fst (children \<sigma>)) \<and>
     (\<forall>sid\<in>set (map fst (children \<sigma>)). 0 < unat sid \<and> unat sid \<le> unat (spanIDGenerator \<sigma>)) \<and>
     (\<forall>g sid. drawn (creators \<sigma> g) = Some sid \<longrightarrow>
        0 < unat sid \<and> unat sid \<le> unat (spanIDGenerator \<sigma>) \<and> sid \<notin> set (map fst (children \<sigma>))) \<and>
     (\<forall>g g' sid. drawn (creators \<sigma> g) = Some sid \<longrightarrow> drawn (creators \<sigma> g') = Some sid \<longrightarrow> g = g')"

lemma ids_inv_mono: "ids_inv n \<sigma> \<Longrightarrow> ids_inv (Suc n) \<sigma>"
  by (auto simp: ids_inv_def)

lemma ids_inv_cong:
  assumes "ids_inv n \<sigma>" "map fst (children \<sigma>') = map fst (children \<sigma>)"
    "spanIDGenerator \<sigma>' = spanIDGenerator \<sigma>"
    "\<And>g. drawn (creators \<sigma>' g) = drawn (creators \<sigma> g) \<or> drawn (creators \<sigma>' g) = None"
  shows "ids_inv n \<sigma>'"
proof -
  have d: "drawn (creators \<sigma>' g) = Some sid \<Longrightarrow> drawn (creators \<sigma> g) = Some sid" for g sid
    using assms(4) [of g] by auto
  show ?thesis
    using assms(1) unfolding ids_inv_def assms(2,3) by (blast dest: d)
qed

lemma ids_inv_draw:
  assumes "ids_inv n \<sigma>" "creators \<sigma> g = GIdle" "n < 2147483647"
  shows "ids_inv (Suc n) (draw_id g \<sigma>)"
proof -
  have "unat (spanIDGenerator \<sigma>) < 2147483647" using assms(1,3) by (simp add: ids_inv_def)
  then have u: "unat (spanIDGenerator \<sigma> + 1) = Suc (unat (spanIDGenerator \<sigma>))"
    by (simp add: unat_word_ariths)
  have new: "sid \<noteq> spanIDGenerator \<sigma> + 1" if "unat sid \<le> unat (spanIDGenerator \<sigma>)" for sid
    using that u by auto
  have "spanIDGenerator \<sigma> + 1 \<notin> fst ` set (children \<sigma>)"
    using assms(1) u by (auto simp: ids_inv_def)
  moreover have "drawn (creators \<sigma> g') \<noteq> Some (spanIDGenerator \<sigma> + 1)" for g'
  proof
    assume "drawn (creators \<sigma> g') = Some (spanIDGenerator \<sigma> + 1)"
    with assms(1) have "unat (spanIDGenerator \<sigma> + 1) \<le> unat (spanIDGenerator \<sigma>)"
      unfolding ids_inv_def by blast
    with u show False by simp
  qed
  ultimately
  have nd: "spanIDGenerator \<sigma> + 1 \<notin> fst ` set (children \<sigma>)"
    "\<And>g'. drawn (creators \<sigma> g') \<noteq> Some (spanIDGenerator \<sigma> + 1)" by auto
  with assms(1) new show ?thesis
    by (auto simp: ids_inv_def draw_id_def u le_Suc_eq split: if_splits)
qed

lemma ids_inv_cas:
  assumes "ids_inv n \<sigma>" "creators \<sigma> g = GLoaded sid old"
  shows "ids_inv n (register_cas g sid old ds \<sigma>)"
proof (cases "refNum \<sigma> = old")
  case False
  show ?thesis by (rule ids_inv_cong [OF assms(1)]) (use assms(2) False in \<open>auto simp: register_cas_def\<close>)
next
  case True
  have "drawn (creators \<sigma> g) = Some sid" using assms(2) by simp
  with assms(1) True show ?thesis
    by (auto simp: ids_inv_def register_cas_def split: if_splits)
qed

lemma ids_inv_step:
  assumes "seg_step \<sigma> \<sigma>'" "ids_inv n \<sigma>" "n < 2147483647"
  shows "ids_inv (Suc n) \<sigma>'"
  using assms(1)
proof (cases rule: seg_step.cases)
  case (g_draw g)
  with ids_inv_draw assms show ?thesis by blast
next
  case (g_load g sid)
  show ?thesis
    by (rule ids_inv_mono, rule ids_inv_cong [OF assms(2)]) (use g_load in \<open>auto simp: register_load_def\<close>)
next
  case (g_cas g sid old ds)
  with ids_inv_cas [OF assms(2)] ids_inv_mono show ?thesis by blast
next
  case (g_child i s)
  show ?thesis
    by (rule ids_inv_mono, rule ids_inv_cong [OF assms(2)])
      (use g_child in \<open>auto simp: child_section_def map_update list_update_same_conv\<close>)
next
  case (g_root s)
  show ?thesis
    by (rule ids_inv_mono, rule ids_inv_cong [OF assms(2)]) (use g_root in \<open>auto simp: root_section_def\<close>)
next
  case g_deliver
  have "children \<sigma>' = children \<sigma> \<and> spanIDGenerator \<sigma>' = spanIDGenerator \<sigma> \<and> creators \<sigma>' = creators \<sigma>"
    using g_deliver
    by (cases rule: deliver_step.cases) (auto simp: section_defs collect_span_def collect_total_def
        close_done_def send_tracing_def collector_check_def)
  then show ?thesis by (intro ids_inv_mono [OF ids_inv_cong [OF assms(2)]]) auto
qed

text \<open>
  The span ids of a segment's children are pairwise distinct and none is 0, the id of
  the root: ids are drawn before the registration, so a failed registration leaves a gap
  but never a duplicate (fewer than \<open>2 ^ 31\<close> steps, so the generator does not wrap).
\<close>

theorem span_ids_distinct:
  assumes "(seg_step ^^ n) (newSegmentRoot r) \<sigma>" "n < 2147483648"
  shows "distinct (map fst (children \<sigma>)) \<and> list_all (\<lambda>sid. 0 <s sid) (map fst (children \<sigma>))"
proof -
  have inv: "ids_inv n \<sigma>"
    using assms
  proof (induction n arbitrary: \<sigma>)
    case 0
    then have "\<sigma> = newSegmentRoot r" by simp
    then show ?case by (simp add: ids_inv_def newSegmentRoot_def)
  next
    case (Suc n)
    from Suc.prems(1) obtain t where t: "(seg_step ^^ n) (newSegmentRoot r) t" "seg_step t \<sigma>" by auto
    from ids_inv_step [OF t(2) Suc.IH [OF t(1)]] Suc.prems(2) show ?case by simp
  qed
  have "0 <s sid" if "sid \<in> set (map fst (children \<sigma>))" for sid
  proof -
    have "0 < unat sid" "unat sid < 2147483648" using that inv assms(2) by (auto simp: ids_inv_def)
    then have "sint (of_nat (unat sid) :: i32) = int (unat sid)" by (intro sint_of_nat_small)
    with \<open>0 < unat sid\<close> show ?thesis unfolding word_sless_alt by (simp add: unat_gt_0 word_gt_0) (metis of_nat_0_less_iff of_nat_unat unat_gt_0)
  qed
  with inv show ?thesis by (simp add: ids_inv_def list_all_iff)
qed

lemma span_ids_distinct_witness: "list_all (\<lambda>sid. 0 <s sid) (map fst (children (draw_id 0 (newSegmentRoot open_root))))"
proof -
  have "(seg_step ^^ 1) (newSegmentRoot open_root) (draw_id 0 (newSegmentRoot open_root))"
    unfolding relpowp_1 by (rule g_draw) (simp add: newSegmentRoot_def)
  from span_ids_distinct [OF this] show ?thesis by simp
qed

end
