(* ===== verification/Tracing.thy ===== *)
theory Tracing
  imports Span Context_Store Id_Generator Trace_Ignore Carriers
begin

text \<open>
  The tracing operations of one process (plugins/core/tracing.go, context.go,
  span_tracing.go, span_noop.go).  The state is an explicit heap: spans, correlation
  contexts, segments (the refNum and spanIDGenerator that the spans of a segment share),
  tracing contexts, and the goroutine-local slot of every goroutine.  An address is a
  position in its list, so allocation appends.  Each operation runs in one goroutine and is
  one function on the state; the interleavings inside a span and a segment are the subject
  of Span and Segment.

  What a call takes from its surroundings (clock, goroutine id, the outcome of the sampler,
  the connection status, the profiler's answers, configuration) is the record env.  The calls
  it makes to the profiler and to the self-observability counters are recorded in order.
  The embedded SegmentSpanImpl of a RootSegmentSpan has the address of the root span.
\<close>

section \<open>State\<close>

record segment_context =
  sx_TraceID :: string
  sx_SegmentID :: string
  sx_SpanID :: i32
  sx_ParentSpanID :: i32
  sx_ParentSegmentID :: string
  sx_segment :: nat
  sx_FirstSpan :: "nat option"
  sx_Correlation :: "nat option"

datatype span_kind = SegmentSpanImpl | RootSegmentSpan | SnapshotSpan

datatype tspan =
    SegSpan span_kind "nat default_span" segment_context
  | NoopSpan int

record shared_segment =
  sg_refNum :: i32
  sg_spanIDGenerator :: i32

record 'v tracing_context =
  tc_activeSpan :: "nat option"
  tc_Runtime :: "'v runtime_context"
  tc_ID :: id_context

datatype prof_event = TryToAddSegmentLabelSet string | AddSpanID string string i32

datatype so11y_event = TracingContextCreation bool bool | LeakedTracingContext bool | TracingContextCompletion bool

record 'v world =
  w_spans :: "tspan list"
  w_segments :: "shared_segment list"
  w_correlations :: "correlation_context list"
  w_contexts :: "'v tracing_context list"
  w_gls :: "nat \<Rightarrow> nat option"
  w_collected :: "nat list"
  w_prof :: "prof_event list"
  w_so11y :: "so11y_event list"

record env =
  e_now :: int
  e_clock :: i64
  e_goid :: i64
  e_uuid :: string
  e_sampled :: bool
  e_init :: bool
  e_disconnected :: bool
  e_ignoreSuffix :: "string list"
  e_traceIgnorePath :: "string list"
  e_service :: string
  e_instance :: string
  e_MaxKeyCount :: nat
  e_MaxValueSize :: nat
  e_profileTarget :: "string \<Rightarrow> bool"
  e_profiling :: bool

definition empty_world :: "'v world" where
  "empty_world = \<lparr>w_spans = [], w_segments = [], w_correlations = [], w_contexts = [],
     w_gls = (\<lambda>_. None), w_collected = [], w_prof = [], w_so11y = []\<rparr>"

section \<open>Heap access\<close>

definition alloc_span :: "tspan \<Rightarrow> 'v world \<Rightarrow> nat \<times> 'v world" where
  "alloc_span s w = (length (w_spans w), w\<lparr>w_spans := w_spans w @ [s]\<rparr>)"

definition alloc_correlation :: "correlation_context \<Rightarrow> 'v world \<Rightarrow> nat \<times> 'v world" where
  "alloc_correlation c w = (length (w_correlations w), w\<lparr>w_correlations := w_correlations w @ [c]\<rparr>)"

definition map_ds :: "(nat default_span \<Rightarrow> nat default_span) \<Rightarrow> nat \<Rightarrow> 'v world \<Rightarrow> 'v world" where
  "map_ds f a w =
     (case w_spans w ! a of
        SegSpan k ds sx \<Rightarrow> w\<lparr>w_spans := (w_spans w)[a := SegSpan k (f ds) sx]\<rparr>
      | NoopSpan n \<Rightarrow> w)"

fun as_segment_span :: "tspan \<Rightarrow> segment_context option" where
  "as_segment_span (SegSpan k ds sx) = Some sx"
| "as_segment_span (NoopSpan n) = None"

definition log_so11y :: "so11y_event \<Rightarrow> 'v world \<Rightarrow> 'v world" where
  "log_so11y e w = w\<lparr>w_so11y := w_so11y w @ [e]\<rparr>"

definition NewTracingContext :: "env \<Rightarrow> 'v tracing_context" where
  "NewTracingContext e =
     \<lparr>tc_activeSpan = None, tc_Runtime = \<lparr>rc_data = Some Map.empty\<rparr>, tc_ID = NewIDContext True (e_goid e)\<rparr>"

definition getTracingContext :: "nat \<Rightarrow> 'v world \<Rightarrow> nat option" where
  "getTracingContext g w = w_gls w g"

definition SetGLS :: "nat \<Rightarrow> nat option \<Rightarrow> 'v world \<Rightarrow> 'v world" where
  "SetGLS g c w = w\<lparr>w_gls := (w_gls w)(g := c)\<rparr>"

definition SaveActiveSpan :: "nat \<Rightarrow> nat option \<Rightarrow> 'v world \<Rightarrow> 'v world" where
  "SaveActiveSpan c a w =
     w\<lparr>w_contexts := (w_contexts w)[c := (w_contexts w ! c)\<lparr>tc_activeSpan := a\<rparr>]\<rparr>"

definition new_context :: "env \<Rightarrow> 'v world \<Rightarrow> nat \<times> 'v world" where
  "new_context e w = (length (w_contexts w), w\<lparr>w_contexts := w_contexts w @ [NewTracingContext e]\<rparr>)"

text \<open>ActiveSpan of the goroutine's tracing context, nil when there is no context.\<close>

definition ActiveSpan :: "nat \<Rightarrow> 'v world \<Rightarrow> nat option" where
  "ActiveSpan g w =
     (case getTracingContext g w of None \<Rightarrow> None | Some c \<Rightarrow> tc_activeSpan (w_contexts w ! c))"

definition gen_id :: "env \<Rightarrow> nat \<Rightarrow> 'v world \<Rightarrow> string \<times> 'v world" where
  "gen_id e c w =
     (let (s, i) = GenerateGlobalID (instance_id (e_uuid e)) (e_goid e) (e_clock e) (tc_ID (w_contexts w ! c))
      in (s, w\<lparr>w_contexts := (w_contexts w)[c := (w_contexts w ! c)\<lparr>tc_ID := i\<rparr>]\<rparr>))"

section \<open>Creating segment spans\<close>

text \<open>a is the address the new span will have.\<close>

definition createSegmentContext ::
    "env \<Rightarrow> nat \<Rightarrow> nat \<Rightarrow> nat default_span \<Rightarrow> segment_context option \<Rightarrow> 'v world \<Rightarrow> segment_context \<times> 'v world" where
  "createSegmentContext e c a ds parent w =
     (let (sx, w) =
        (case parent of
           None \<Rightarrow>
             (let sx = \<lparr>sx_TraceID = [], sx_SegmentID = [], sx_SpanID = 0, sx_ParentSpanID = 0,
                        sx_ParentSegmentID = [], sx_segment = 0, sx_FirstSpan = None, sx_Correlation = None\<rparr>
              in case ds_Refs ds of
                   r # _ \<Rightarrow>
                     (let (k, w) = alloc_correlation (newCorrelationContextFrom (sc_correlation r)) w
                      in (sx\<lparr>sx_TraceID := sc_trace_id r, sx_Correlation := Some k\<rparr>, w))
                 | [] \<Rightarrow>
                     (let (t, w) = gen_id e c w; (k, w) = alloc_correlation newCorrelationContext w
                      in (sx\<lparr>sx_TraceID := t, sx_Correlation := Some k\<rparr>, w)))
         | Some p \<Rightarrow>
             (let s = w_segments w ! sx_segment p; i = sg_spanIDGenerator s + 1
              in (p\<lparr>sx_ParentSegmentID := sx_SegmentID p, sx_ParentSpanID := sx_SpanID p, sx_SpanID := i\<rparr>,
                  w\<lparr>w_segments := (w_segments w)[sx_segment p := s\<lparr>sg_spanIDGenerator := i\<rparr>]\<rparr>)));
          sx = (if sx_FirstSpan sx = None then sx\<lparr>sx_FirstSpan := Some a\<rparr> else sx)
      in case sx_Correlation sx of
           Some _ \<Rightarrow> (sx, w)
         | None \<Rightarrow> (let (k, w) = alloc_correlation newCorrelationContext w in (sx\<lparr>sx_Correlation := Some k\<rparr>, w)))"

text \<open>segmentRegister as seen by one goroutine: the loop ends at its first CompareAndSwap.\<close>

definition segmentRegister :: "segment_context \<Rightarrow> 'v world \<Rightarrow> bool \<times> 'v world" where
  "segmentRegister sx w =
     (let s = w_segments w ! sx_segment sx; old = sg_refNum s
      in if old <s 0 then (False, w)
         else (True, w\<lparr>w_segments := (w_segments w)[sx_segment sx := s\<lparr>sg_refNum := old + 1\<rparr>]\<rparr>))"

definition createRootSegmentContext :: "env \<Rightarrow> nat \<Rightarrow> segment_context \<Rightarrow> 'v world \<Rightarrow> segment_context \<times> 'v world" where
  "createRootSegmentContext e c sx w =
     (let (i, w) = gen_id e c w
      in (sx\<lparr>sx_SegmentID := i, sx_segment := length (w_segments w), sx_SpanID := 0, sx_ParentSpanID := -1\<rparr>,
          w\<lparr>w_segments := w_segments w @ [\<lparr>sg_refNum = 0, sg_spanIDGenerator = 0\<rparr>]\<rparr>))"

definition NewSegmentSpan ::
    "env \<Rightarrow> nat \<Rightarrow> nat default_span \<Rightarrow> segment_context option \<Rightarrow> 'v world \<Rightarrow> nat \<times> 'v world" where
  "NewSegmentSpan e c ds parent w =
     (let (sx, w) = createSegmentContext e c (length (w_spans w)) ds parent w;
          (registered, w) = (case parent of None \<Rightarrow> (False, w) | Some p \<Rightarrow> segmentRegister p w)
      in if registered then alloc_span (SegSpan SegmentSpanImpl ds sx) w
         else (let (sx, w) = createRootSegmentContext e c sx w
               in alloc_span (SegSpan RootSegmentSpan ds sx) w))"

section \<open>Creating spans\<close>

definition newNoopSpan :: tspan where
  "newNoopSpan = NoopSpan 1"

text \<open>createNoop: the context, the span, and whether the span is a noop span to return at once.\<close>

definition createNoop :: "env \<Rightarrow> nat \<Rightarrow> string \<Rightarrow> 'v world \<Rightarrow> (nat option \<times> nat option \<times> bool) \<times> 'v world" where
  "createNoop e g operationName w =
     (case getTracingContext g w of
        Some c \<Rightarrow>
          (case tc_activeSpan (w_contexts w ! c) of
             None \<Rightarrow> ((Some c, None, False), w)
           | Some a \<Rightarrow>
               (case w_spans w ! a of
                  NoopSpan n \<Rightarrow> ((Some c, Some a, True), w\<lparr>w_spans := (w_spans w)[a := NoopSpan (n + 1)]\<rparr>)
                | SegSpan k ds sx \<Rightarrow> ((Some c, Some a, False), w)))
      | None \<Rightarrow>
          if \<not> e_init e \<or> e_disconnected e \<or> tracerIgnore operationName (e_ignoreSuffix e) (e_traceIgnorePath e)
          then (let (a, w) = alloc_span newNoopSpan (log_so11y (TracingContextCreation False True) w)
                in ((None, Some a, True), w))
          else (let (c, w) = new_context e w in ((Some c, None, False), w)))"

text \<open>The options of the core, in the order createSpan0 applies them.\<close>

record core_opts =
  co_ref :: "span_context option"
  co_type :: span_type
  co_name :: string
  co_peer :: "string option"

definition apply_core_opts :: "core_opts \<Rightarrow> nat default_span \<Rightarrow> nat default_span" where
  "apply_core_opts oo ds =
     (let ds = (case co_ref oo of None \<Rightarrow> ds | Some r \<Rightarrow> ds\<lparr>ds_Refs := ds_Refs ds @ [r]\<rparr>);
          ds = ds\<lparr>ds_SpanType := co_type oo, ds_OperationName := co_name oo\<rparr>
      in case co_peer oo of None \<Rightarrow> ds | Some p \<Rightarrow> ds\<lparr>ds_Peer := p\<rparr>)"

text \<open>
  createSpan0: the span and whether it is a noop span.  isForceSample is computed from the
  references before the options put them there.
\<close>

definition createSpan0 ::
    "env \<Rightarrow> nat \<Rightarrow> nat option \<Rightarrow> mutation list \<Rightarrow> core_opts \<Rightarrow> 'v world \<Rightarrow> (nat \<times> bool) \<times> 'v world" where
  "createSpan0 e c parent pluginOpts coreOpts w =
     (let ds = NewDefaultSpan (e_now e) parent;
          parentSpan = (case parent of None \<Rightarrow> None | Some a \<Rightarrow> as_segment_span (w_spans w ! a));
          isForceSample = (ds_Refs ds \<noteq> [])
      in if parentSpan = None \<and> \<not> isForceSample \<and> \<not> e_sampled e
         then (let w = log_so11y (TracingContextCreation False True) w;
                   w = log_so11y (LeakedTracingContext True) w;
                   (a, w) = alloc_span newNoopSpan w
               in ((a, True), w))
         else (let (a, w) = NewSegmentSpan e c (apply_core_opts coreOpts ds) parentSpan w;
                   w = fold (\<lambda>m. map_ds (mutate m) a) pluginOpts w
               in ((a, False), log_so11y (TracingContextCreation isForceSample False) w)))"

definition saveSpanToActive :: "nat \<Rightarrow> nat \<Rightarrow> nat \<Rightarrow> 'v world \<Rightarrow> 'v world" where
  "saveSpanToActive g c a w = SetGLS g (Some c) (SaveActiveSpan c (Some a) w)"

text \<open>The parent reuse test: an active span of the type that is not a snapshot.\<close>

definition reusable :: "span_type \<Rightarrow> tspan \<Rightarrow> bool" where
  "reusable t s = (case s of SegSpan k ds sx \<Rightarrow> k \<noteq> SnapshotSpan \<and> ds_SpanType ds = t | NoopSpan n \<Rightarrow> False)"

definition profile_span :: "env \<Rightarrow> bool \<Rightarrow> nat \<Rightarrow> 'v world \<Rightarrow> 'v world" where
  "profile_span e entry a w =
     (case w_spans w ! a of
        NoopSpan n \<Rightarrow> w
      | SegSpan k ds sx \<Rightarrow>
          if e_profileTarget e (ds_OperationName ds) \<and> e_profiling e
          then w\<lparr>w_prof := w_prof w @ (if entry then [TryToAddSegmentLabelSet (sx_SegmentID sx)] else [])
                   @ [AddSpanID (sx_TraceID sx) (sx_SegmentID sx) (sx_SpanID sx)]\<rparr>
          else w)"

definition CreateLocalSpan :: "env \<Rightarrow> nat \<Rightarrow> string \<Rightarrow> mutation list \<Rightarrow> 'v world \<Rightarrow> nat \<times> 'v world" where
  "CreateLocalSpan e g operationName opts w =
     (let ((ctx, tracingSpan, noop), w) = createNoop e g operationName w
      in if noop then (the tracingSpan, w)
         else (let c = the ctx;
                   ((a, _), w) = createSpan0 e c tracingSpan opts
                     \<lparr>co_ref = None, co_type = SpanTypeLocal, co_name = operationName, co_peer = None\<rparr> w;
                   w = profile_span e False a w
               in (a, saveSpanToActive g c a w)))"

text \<open>
  The profile target of an entry span is its operation name argument; plugin options do not
  set names, so it is also the name of the new span.
\<close>

definition CreateEntrySpan ::
    "env \<Rightarrow> nat \<Rightarrow> string \<Rightarrow> (string \<Rightarrow> ('x, string) result) \<Rightarrow> mutation list \<Rightarrow> 'v world \<Rightarrow>
     ('x decode_error, nat) result \<times> 'v world" where
  "CreateEntrySpan e g operationName extractor opts w =
     (let ((ctx, tracingSpan, noop), w) = createNoop e g operationName w
      in if noop then (Ok (the tracingSpan), w)
         else
           let c = the ctx in
           if (case tracingSpan of None \<Rightarrow> False | Some a \<Rightarrow> reusable SpanTypeEntry (w_spans w ! a))
           then (let a = the tracingSpan;
                     w = map_ds (SetOperationName operationName) a w;
                     w = map_ds enterReuse a w
                 in (Ok a, saveSpanToActive g c a w))
           else case Decode extractor empty_span_context of
                  (_, Some err) \<Rightarrow> (Err err, w)
                | (ref, None) \<Rightarrow>
                    (let ((a, _), w) = createSpan0 e c tracingSpan opts
                       \<lparr>co_ref = (if sc_valid ref then Some ref else None), co_type = SpanTypeEntry,
                        co_name = operationName, co_peer = None\<rparr> w;
                         w = profile_span e True a w
                     in (Ok a, saveSpanToActive g c a w)))"

text \<open>The context an exit span sends; Snapshot of the correlation is what is encoded.\<close>

definition exit_context :: "env \<Rightarrow> string \<Rightarrow> segment_context \<Rightarrow> 'v world \<Rightarrow> span_context" where
  "exit_context e peer sx w =
     \<lparr>sc_trace_id = sx_TraceID sx, sc_parent_segment_id = sx_SegmentID sx,
      sc_parent_service = e_service e, sc_parent_service_instance = e_instance e,
      sc_parent_endpoint =
        (case sx_FirstSpan sx of
           None \<Rightarrow> []
         | Some f \<Rightarrow> (case w_spans w ! f of SegSpan k ds _ \<Rightarrow> ds_OperationName ds | NoopSpan _ \<Rightarrow> [])),
      sc_address_used_at_client = peer, sc_parent_span_id = sx_SpanID sx, sc_sample = 1, sc_valid = False,
      sc_correlation =
        (case cc_Snapshot (map_option ((!) (w_correlations w)) (sx_Correlation sx)) of
           None \<Rightarrow> Map.empty | Some m \<Rightarrow> m)\<rparr>"

definition CreateExitSpan ::
    "env \<Rightarrow> nat \<Rightarrow> string \<Rightarrow> string \<Rightarrow> ('c \<Rightarrow> string \<Rightarrow> string \<Rightarrow> 'c \<times> 'x option) \<Rightarrow> string list \<Rightarrow>
     mutation list \<Rightarrow> 'c \<Rightarrow> 'v world \<Rightarrow> ('x, nat) result \<times> 'c \<times> 'v world" where
  "CreateExitSpan e g operationName peer injector ks opts cr w =
     (let ((ctx, tracingSpan, noop), w) = createNoop e g operationName w
      in if noop then (Ok (the tracingSpan), cr, w)
         else
           let c = the ctx in
           if (case tracingSpan of None \<Rightarrow> False | Some a \<Rightarrow> reusable SpanTypeExit (w_spans w ! a))
           then (let a = the tracingSpan in (Ok a, cr, saveSpanToActive g c a (map_ds enterReuse a w)))
           else
             let ((a, noop), w) = createSpan0 e c tracingSpan opts
                   \<lparr>co_ref = None, co_type = SpanTypeExit, co_name = operationName, co_peer = Some peer\<rparr> w
             in case w_spans w ! a of
                  NoopSpan _ \<Rightarrow> (Ok a, cr, saveSpanToActive g c a w)
                | SegSpan k ds sx \<Rightarrow>
                    (case Encode injector ks (exit_context e peer sx w) cr of
                       (cr, Some err) \<Rightarrow> (Err err, cr, w)
                     | (cr, None) \<Rightarrow> (Ok a, cr, saveSpanToActive g c a w)))"

section \<open>Ending spans\<close>

definition restore_active :: "nat \<Rightarrow> nat option \<Rightarrow> 'v world \<Rightarrow> 'v world" where
  "restore_active g parent w =
     (case getTracingContext g w of None \<Rightarrow> w | Some c \<Rightarrow> SaveActiveSpan c parent w)"

text \<open>The root's end0 closes its segment at once; a child is sent from a new goroutine.\<close>

definition end0 :: "nat \<Rightarrow> span_kind \<Rightarrow> segment_context \<Rightarrow> 'v world \<Rightarrow> 'v world" where
  "end0 a k sx w =
     (let w = (if k = RootSegmentSpan
               then w\<lparr>w_segments := (w_segments w)[sx_segment sx := (w_segments w ! sx_segment sx)\<lparr>sg_refNum := -1\<rparr>]\<rparr>
               else w)
      in w\<lparr>w_collected := w_collected w @ [a]\<rparr>)"

definition noop_End :: "nat \<Rightarrow> nat \<Rightarrow> int \<Rightarrow> 'v world \<Rightarrow> 'v world" where
  "noop_End g a n w =
     (let w = w\<lparr>w_spans := (w_spans w)[a := NoopSpan (n - 1)]\<rparr>
      in if n - 1 = 0 then restore_active g None (log_so11y (TracingContextCompletion True) w) else w)"

definition SpanEnd :: "env \<Rightarrow> nat \<Rightarrow> nat \<Rightarrow> 'v world \<Rightarrow> (string, 'v world) result" where
  "SpanEnd e g a w =
     (case w_spans w ! a of
        NoopSpan n \<Rightarrow> Ok (noop_End g a n w)
      | SegSpan k ds sx \<Rightarrow>
          if k = SnapshotSpan then Err ''cannot End the span in other goroutine''
          else
            let (ds', restore, frozen) = endSyncAndFreeze (e_now e) ds;
                nested = (ds_reuseCount ds > 0);
                w = w\<lparr>w_spans := (w_spans w)[a := SegSpan k ds' sx]\<rparr>;
                w = (if restore \<and> \<not> nested then log_so11y (TracingContextCompletion False) w else w);
                w = (if restore then restore_active g (ds_Parent ds) w else w)
            in Ok (if frozen then end0 a k sx w else w))"

definition SpanPrepareAsync :: "nat \<Rightarrow> 'v world \<Rightarrow> (string, 'v world) result" where
  "SpanPrepareAsync a w =
     (case w_spans w ! a of
        NoopSpan n \<Rightarrow> Ok w
      | SegSpan k ds sx \<Rightarrow>
          if k = SnapshotSpan then Err ''please use the PrepareAsync on right goroutine''
          else case PrepareAsync ds of
                 Inl p \<Rightarrow> Err p
               | Inr ds \<Rightarrow> Ok (w\<lparr>w_spans := (w_spans w)[a := SegSpan k ds sx]\<rparr>))"

text \<open>AsyncFinish, then End without a change of the active span, then endAndFreeze.\<close>

definition SpanAsyncFinish :: "env \<Rightarrow> nat \<Rightarrow> 'v world \<Rightarrow> (string, 'v world) result" where
  "SpanAsyncFinish e a w =
     (case w_spans w ! a of
        NoopSpan n \<Rightarrow> Ok w
      | SegSpan k ds sx \<Rightarrow>
          if k = SnapshotSpan then Err ''please use the AsyncFinish on right goroutine''
          else case AsyncFinish ds of
                 Inl p \<Rightarrow> Err p
               | Inr ds \<Rightarrow>
                   (let (ds, frozen) = endAndFreeze (ds_End (e_now e) ds);
                        w = log_so11y (TracingContextCompletion False) (w\<lparr>w_spans := (w_spans w)[a := SegSpan k ds sx]\<rparr>)
                    in Ok (if frozen then end0 a k sx w else w)))"

section \<open>Context operations\<close>

definition set_correlation :: "nat \<Rightarrow> (correlation_context \<Rightarrow> correlation_context) \<Rightarrow> 'v world \<Rightarrow> 'v world" where
  "set_correlation k f w = w\<lparr>w_correlations := (w_correlations w)[k := f (w_correlations w ! k)]\<rparr>"

text \<open>ExtractContext; ks is the order in which Go ranges over the carried correlation.\<close>

definition ExtractContext ::
    "nat \<Rightarrow> (string \<Rightarrow> ('x, string) result) \<Rightarrow> string list \<Rightarrow> 'v world \<Rightarrow> 'x decode_error option \<times> 'v world" where
  "ExtractContext g extractor ks w =
     (case ActiveSpan g w of
        None \<Rightarrow> (None, w)
      | Some a \<Rightarrow>
          (case w_spans w ! a of
             NoopSpan n \<Rightarrow> (None, w)
           | SegSpan k ds sx \<Rightarrow>
               if \<not> IsEntry ds then (None, w)
               else case Decode extractor empty_span_context of
                      (_, Some err) \<Rightarrow> (Some err, w)
                    | (ref, None) \<Rightarrow>
                        if \<not> sc_valid ref then (None, w)
                        else
                          let w = map_ds (appendRef ref) a w
                          in (None,
                              case sx_Correlation sx of
                                None \<Rightarrow> w
                              | Some co \<Rightarrow>
                                  fold (\<lambda>key. set_correlation co (\<lambda>cc. the (cc_Set (Some cc) key (the (sc_correlation ref key))))) ks w)))"

definition GetRuntimeContextValue :: "nat \<Rightarrow> string \<Rightarrow> 'v world \<Rightarrow> 'v option" where
  "GetRuntimeContextValue g key w =
     (case getTracingContext g w of None \<Rightarrow> None | Some c \<Rightarrow> rc_Get (Some (tc_Runtime (w_contexts w ! c))) key)"

definition set_runtime :: "nat \<Rightarrow> ('v runtime_context \<Rightarrow> 'v runtime_context) \<Rightarrow> 'v world \<Rightarrow> 'v world" where
  "set_runtime c f w =
     w\<lparr>w_contexts := (w_contexts w)[c := (w_contexts w ! c)\<lparr>tc_Runtime := f (tc_Runtime (w_contexts w ! c))\<rparr>]\<rparr>"

definition ensure_context :: "env \<Rightarrow> nat \<Rightarrow> 'v world \<Rightarrow> nat \<times> 'v world" where
  "ensure_context e g w =
     (case getTracingContext g w of
        Some c \<Rightarrow> (c, w)
      | None \<Rightarrow> (let (c, w) = new_context e w in (c, SetGLS g (Some c) w)))"

definition SetRuntimeContextValue :: "env \<Rightarrow> nat \<Rightarrow> string \<Rightarrow> 'v option \<Rightarrow> 'v world \<Rightarrow> 'v world" where
  "SetRuntimeContextValue e g key value w =
     (let (c, w) = ensure_context e g w
      in set_runtime c (\<lambda>r. the (rc_Set (Some r) key value)) w)"

text \<open>
  newSnapshotSpan: nil for no span or an ended one, a fresh noop span for a noop span, and
  otherwise a span of the same segment whose correlation is a clone.  The literal leaves
  SpanType at its zero value, SpanTypeEntry.
\<close>

definition newSnapshotSpan :: "nat option \<Rightarrow> 'v world \<Rightarrow> nat option \<times> 'v world" where
  "newSnapshotSpan current w =
     (case current of
        None \<Rightarrow> (None, w)
      | Some a \<Rightarrow>
          (case w_spans w ! a of
             NoopSpan n \<Rightarrow> (let (b, w) = alloc_span (NoopSpan 0) w in (Some b, w))
           | SegSpan k ds sx \<Rightarrow>
               if \<not> IsValid ds then (None, w)
               else
                 let (co, w) = alloc_correlation (cc_Clone (map_option ((!) (w_correlations w)) (sx_Correlation sx))) w;
                     ds' = (NewDefaultSpan 0 None)\<lparr>ds_SpanType := SpanTypeEntry,
                       ds_OperationName := ds_OperationName ds, ds_Peer := ds_Peer ds\<rparr>;
                     (b, w) = alloc_span (SegSpan SnapshotSpan ds'
                       (sx\<lparr>sx_ParentSpanID := 0, sx_ParentSegmentID := [], sx_Correlation := Some co\<rparr>)) w
                 in (Some b, w)))"

type_synonym 'v context_snapshot = "nat option \<times> 'v runtime_context"

definition CaptureContext :: "nat \<Rightarrow> 'v world \<Rightarrow> 'v context_snapshot option \<times> 'v world" where
  "CaptureContext g w =
     (case getTracingContext g w of
        None \<Rightarrow> (None, w)
      | Some c \<Rightarrow>
          (let (s, w) = newSnapshotSpan (ActiveSpan g w) w
           in (Some (s, rc_clone (Some (tc_Runtime (w_contexts w ! c)))), w)))"

definition ContinueContext :: "env \<Rightarrow> nat \<Rightarrow> 'v context_snapshot option \<Rightarrow> 'v world \<Rightarrow> 'v world" where
  "ContinueContext e g snapshot w =
     (case snapshot of
        None \<Rightarrow> w
      | Some (s, r) \<Rightarrow>
          (let (c, w) = ensure_context e g w
           in set_runtime c (\<lambda>_. rc_clone (Some r)) (SaveActiveSpan c s w)))"

text \<open>TakeSnapShot: what the runtime stores in the slot of a goroutine that g starts.\<close>

definition TakeSnapShot :: "nat \<Rightarrow> 'v world \<Rightarrow> nat option \<times> 'v world" where
  "TakeSnapShot g w =
     (case getTracingContext g w of
        None \<Rightarrow> (None, w)
      | Some c \<Rightarrow>
          (let (s, w) = newSnapshotSpan (ActiveSpan g w) w
           in (Some (length (w_contexts w)),
               w\<lparr>w_contexts := w_contexts w @
                  [\<lparr>tc_activeSpan = s, tc_Runtime = rc_clone (Some (tc_Runtime (w_contexts w ! c))),
                    tc_ID = NewIDContext False 0\<rparr>]\<rparr>)))"

definition CleanContext :: "nat \<Rightarrow> 'v world \<Rightarrow> 'v world" where
  "CleanContext g w = SetGLS g None w"

text \<open>The correlation of the active span, unless it is a snapshot or a noop span.\<close>

definition active_correlation :: "nat \<Rightarrow> 'v world \<Rightarrow> nat option" where
  "active_correlation g w =
     (case ActiveSpan g w of
        None \<Rightarrow> None
      | Some a \<Rightarrow> (case w_spans w ! a of
            SegSpan k ds sx \<Rightarrow> if k = SnapshotSpan then None else sx_Correlation sx
          | NoopSpan n \<Rightarrow> None))"

definition GetCorrelationContextValue :: "nat \<Rightarrow> string \<Rightarrow> 'v world \<Rightarrow> string" where
  "GetCorrelationContextValue g key w =
     (case active_correlation g w of None \<Rightarrow> [] | Some k \<Rightarrow> cc_Get (Some (w_correlations w ! k)) key)"

definition SetCorrelationContextValue :: "env \<Rightarrow> nat \<Rightarrow> string \<Rightarrow> string \<Rightarrow> 'v world \<Rightarrow> 'v world" where
  "SetCorrelationContextValue e g key value w =
     (case active_correlation g w of
        None \<Rightarrow> w
      | Some k \<Rightarrow>
          if length value > e_MaxValueSize e then w
          else if cc_Len (Some (w_correlations w ! k)) \<ge> e_MaxKeyCount e then w
          else set_correlation k (\<lambda>cc. the (cc_Set (Some cc) key value)) w)"

end
