(* ===== verification/Tracing_Heap.thy ===== *)
theory Tracing_Heap
  imports Tracing
begin

text \<open>
  The type invariant of the tracing heap of Tracing: every address that a span, a tracing
  context or a goroutine's slot holds is allocated, and the parent of a span is older than the
  span.  Every operation keeps it, so the code never follows a pointer the model would have to
  invent, and a walk along the parents ends.
\<close>

section \<open>No dangling pointers\<close>

text \<open>A span whose addresses lie in heaps of ns spans, nseg segments and nc correlations.\<close>

fun span_ok :: "nat \<Rightarrow> nat \<Rightarrow> nat \<Rightarrow> tspan \<Rightarrow> bool" where
  "span_ok ns nseg nc (NoopSpan n) = True"
| "span_ok ns nseg nc (SegSpan k ds sx) =
     (sx_segment sx < nseg \<and>
      (case sx_Correlation sx of None \<Rightarrow> False | Some co \<Rightarrow> co < nc) \<and>
      (case sx_FirstSpan sx of None \<Rightarrow> False | Some f \<Rightarrow> f < ns) \<and>
      (case ds_Parent ds of None \<Rightarrow> True | Some p \<Rightarrow> p < ns))"

definition active_ok :: "nat \<Rightarrow> nat option \<Rightarrow> bool" where
  "active_ok ns a = (case a of None \<Rightarrow> True | Some a \<Rightarrow> a < ns)"

fun parent_of :: "tspan \<Rightarrow> nat option" where
  "parent_of (SegSpan k ds sx) = ds_Parent ds"
| "parent_of (NoopSpan n) = None"

definition wf_world :: "'v world \<Rightarrow> bool" where
  "wf_world w \<longleftrightarrow>
     (\<forall>g c. w_gls w g = Some c \<longrightarrow> c < length (w_contexts w)) \<and>
     (\<forall>tc\<in>set (w_contexts w). active_ok (length (w_spans w)) (tc_activeSpan tc)) \<and>
     (\<forall>s\<in>set (w_spans w). span_ok (length (w_spans w)) (length (w_segments w)) (length (w_correlations w)) s) \<and>
     (\<forall>a<length (w_spans w). active_ok a (parent_of (w_spans w ! a)))"

text \<open>Heaps only grow.\<close>

definition grows :: "'v world \<Rightarrow> 'v world \<Rightarrow> bool" where
  "grows w w' \<longleftrightarrow> length (w_spans w) \<le> length (w_spans w') \<and> length (w_segments w) \<le> length (w_segments w') \<and>
     length (w_correlations w) \<le> length (w_correlations w') \<and> length (w_contexts w) \<le> length (w_contexts w')"

lemma grows_refl [simp]: "grows w w" by (simp add: grows_def)
lemma grows_trans: "grows w1 w2 \<Longrightarrow> grows w2 w3 \<Longrightarrow> grows w1 w3" by (auto simp: grows_def)

lemma span_ok_mono:
  "span_ok ns nseg nc s \<Longrightarrow> ns \<le> ns' \<Longrightarrow> nseg \<le> nseg' \<Longrightarrow> nc \<le> nc' \<Longrightarrow> span_ok ns' nseg' nc' s"
  by (cases s) (auto split: option.splits)

lemma active_ok_mono: "active_ok ns a \<Longrightarrow> ns \<le> ns' \<Longrightarrow> active_ok ns' a"
  by (auto simp: active_ok_def split: option.splits)

lemma active_ok_simps [simp]: "active_ok ns None" "active_ok ns (Some a) \<longleftrightarrow> a < ns"
  by (simp_all add: active_ok_def)

lemma wf_empty: "wf_world empty_world"
  by (simp add: wf_world_def empty_world_def)

text \<open>The heap primitives.\<close>

lemma wf_set_span:
  assumes "wf_world w" "span_ok (length (w_spans w)) (length (w_segments w)) (length (w_correlations w)) s"
    and "parent_of s = None \<or> parent_of s = parent_of (w_spans w ! a)"
  shows "wf_world (w\<lparr>w_spans := (w_spans w)[a := s]\<rparr>)"
proof (cases "a < length (w_spans w)")
  case True
  then show ?thesis
    using assms set_update_subset_insert [of "w_spans w" a s] by (auto simp: wf_world_def nth_list_update)
next
  case False
  then have "(w_spans w)[a := s] = w_spans w"
    by (metis list_update_beyond linorder_not_less)
  then show ?thesis
    using assms(1) by (simp add: wf_world_def)
qed

lemma wf_add_span:
  assumes "wf_world w" "span_ok (Suc (length (w_spans w))) (length (w_segments w)) (length (w_correlations w)) s"
    and "active_ok (length (w_spans w)) (parent_of s)"
  shows "wf_world (w\<lparr>w_spans := w_spans w @ [s]\<rparr>)"
  using assms by (auto simp: wf_world_def nth_append less_Suc_eq intro: span_ok_mono active_ok_mono)

lemma wf_set_segment: "wf_world w \<Longrightarrow> wf_world (w\<lparr>w_segments := (w_segments w)[i := s]\<rparr>)"
  by (simp add: wf_world_def)

lemma wf_add_segment: "wf_world w \<Longrightarrow> wf_world (w\<lparr>w_segments := w_segments w @ [s]\<rparr>)"
  by (auto simp: wf_world_def intro: span_ok_mono)

lemma wf_set_correlation: "wf_world w \<Longrightarrow> wf_world (set_correlation k f w)"
  by (simp add: wf_world_def set_correlation_def)

lemma wf_add_correlation: "wf_world w \<Longrightarrow> wf_world (w\<lparr>w_correlations := w_correlations w @ [c]\<rparr>)"
  by (auto simp: wf_world_def intro: span_ok_mono)

lemma wf_set_context:
  assumes "wf_world w" "active_ok (length (w_spans w)) (tc_activeSpan tc)"
  shows "wf_world (w\<lparr>w_contexts := (w_contexts w)[c := tc]\<rparr>)"
  using assms set_update_subset_insert [of "w_contexts w" c tc] by (auto simp: wf_world_def)

lemma wf_add_context:
  "wf_world w \<Longrightarrow> active_ok (length (w_spans w)) (tc_activeSpan tc) \<Longrightarrow>
   wf_world (w\<lparr>w_contexts := w_contexts w @ [tc]\<rparr>)"
  by (auto simp: wf_world_def less_SucI)

lemma wf_SetGLS: "wf_world w \<Longrightarrow> (case c of None \<Rightarrow> True | Some c \<Rightarrow> c < length (w_contexts w)) \<Longrightarrow> wf_world (SetGLS g c w)"
  by (auto simp: wf_world_def SetGLS_def split: option.splits if_splits)

lemma wf_logs [simp]:
  "wf_world (w\<lparr>w_prof := p\<rparr>) = wf_world w" "wf_world (w\<lparr>w_so11y := q\<rparr>) = wf_world w"
  "wf_world (w\<lparr>w_collected := r\<rparr>) = wf_world w" "wf_world (log_so11y x w) = wf_world w"
  "wf_world (w\<lparr>w_so11y := q, w_spans := y\<rparr>) = wf_world (w\<lparr>w_spans := y\<rparr>)"
  by (simp_all add: wf_world_def log_so11y_def)

lemma wf_span: "wf_world w \<Longrightarrow> a < length (w_spans w) \<Longrightarrow>
    span_ok (length (w_spans w)) (length (w_segments w)) (length (w_correlations w)) (w_spans w ! a)"
  by (simp add: wf_world_def)

lemma wf_parent: "wf_world w \<Longrightarrow> a < length (w_spans w) \<Longrightarrow> parent_of (w_spans w ! a) = Some p \<Longrightarrow> p < a"
  by (auto simp: wf_world_def active_ok_def split: option.splits)

lemma wf_gls: "wf_world w \<Longrightarrow> getTracingContext g w = Some c \<Longrightarrow> c < length (w_contexts w)"
  by (simp add: wf_world_def getTracingContext_def)

lemma wf_context: "wf_world w \<Longrightarrow> c < length (w_contexts w) \<Longrightarrow>
    active_ok (length (w_spans w)) (tc_activeSpan (w_contexts w ! c))"
  by (simp add: wf_world_def)

lemma wf_active: "wf_world w \<Longrightarrow> ActiveSpan g w = Some a \<Longrightarrow> a < length (w_spans w)"
  using wf_context [of w] wf_gls [of w g] by (fastforce simp: ActiveSpan_def split: option.splits)

lemma mutate_parent [simp]: "ds_Parent (mutate m ds) = ds_Parent ds"
  by (cases m) (simp_all add: mutator_defs logDroppedWrite_def)

lemma wf_map_ds:
  assumes "wf_world w" "a < length (w_spans w)" "\<And>ds. ds_Parent (f ds) = ds_Parent ds"
  shows "wf_world (map_ds f a w)"
  using wf_span [OF assms(1,2)] assms(1,3)
  by (auto simp: map_ds_def intro!: wf_set_span split: tspan.split)

lemma map_ds_lengths [simp]:
  "length (w_spans (map_ds f a w)) = length (w_spans w)" "w_contexts (map_ds f a w) = w_contexts w"
  "w_segments (map_ds f a w) = w_segments w" "w_correlations (map_ds f a w) = w_correlations w"
  "w_gls (map_ds f a w) = w_gls w"
  by (simp_all add: map_ds_def split: tspan.split)

definition apply_opts :: "mutation list \<Rightarrow> nat \<Rightarrow> 'v world \<Rightarrow> 'v world" where
  "apply_opts ms a w = fold (\<lambda>m. map_ds (mutate m) a) ms w"

lemma apply_opts_simps [simp]:
  "length (w_spans (apply_opts ms a w)) = length (w_spans w)" "w_contexts (apply_opts ms a w) = w_contexts w"
  "w_segments (apply_opts ms a w) = w_segments w" "w_correlations (apply_opts ms a w) = w_correlations w"
  "w_gls (apply_opts ms a w) = w_gls w"
  by (induction ms arbitrary: w) (simp_all add: apply_opts_def)

lemma wf_apply_opts: "wf_world w \<Longrightarrow> a < length (w_spans w) \<Longrightarrow> wf_world (apply_opts ms a w)"
  by (induction ms arbitrary: w) (simp_all add: apply_opts_def wf_map_ds)

section \<open>The operations keep the invariant\<close>

lemma wf_gen_id:
  assumes "wf_world w" "c < length (w_contexts w)" "gen_id e c w = (s, w')"
  shows "wf_world w' \<and> w_spans w' = w_spans w \<and> w_segments w' = w_segments w \<and>
    w_correlations w' = w_correlations w \<and> length (w_contexts w') = length (w_contexts w) \<and>
    (\<forall>c. tc_activeSpan (w_contexts w' ! c) = tc_activeSpan (w_contexts w ! c)) \<and> w_gls w' = w_gls w"
  using assms wf_context [OF assms(1,2)]
  by (auto simp: gen_id_def Let_def split_beta nth_list_update intro!: wf_set_context)

text \<open>What an operation may do to the heap: keep it well formed, only add to it, and keep
  the goroutine slots and the active spans.\<close>

definition quiet :: "'v world \<Rightarrow> 'v world \<Rightarrow> bool" where
  "quiet w w' \<longleftrightarrow> wf_world w' \<and> grows w w' \<and> length (w_contexts w') = length (w_contexts w) \<and>
     (\<forall>c. tc_activeSpan (w_contexts w' ! c) = tc_activeSpan (w_contexts w ! c)) \<and> w_gls w' = w_gls w"

lemma quiet_refl: "wf_world w \<Longrightarrow> quiet w w" by (simp add: quiet_def)

lemma quiet_trans: "quiet w1 w2 \<Longrightarrow> quiet w2 w3 \<Longrightarrow> quiet w1 w3"
  by (auto simp: quiet_def intro: grows_trans)

lemma quiet_log [simp]: "quiet w (log_so11y x w') = quiet w w'" "quiet w (w'\<lparr>w_prof := p\<rparr>) = quiet w w'"
  by (simp_all add: quiet_def grows_def log_so11y_def)

lemma quiet_ActiveSpan: "quiet w w' \<Longrightarrow> ActiveSpan g w' = ActiveSpan g w"
  by (simp add: quiet_def ActiveSpan_def getTracingContext_def split: option.splits)

definition sctx_ok :: "nat \<Rightarrow> segment_context \<Rightarrow> 'v world \<Rightarrow> bool" where
  "sctx_ok a sx w \<longleftrightarrow>
     (case sx_Correlation sx of None \<Rightarrow> False | Some co \<Rightarrow> co < length (w_correlations w)) \<and>
     (case sx_FirstSpan sx of None \<Rightarrow> False | Some f \<Rightarrow> f \<le> a)"

lemma quiet_add_correlation: "wf_world w \<Longrightarrow> quiet w (w\<lparr>w_correlations := w_correlations w @ [c]\<rparr>)"
  by (simp add: quiet_def grows_def wf_add_correlation)

lemma quiet_set_segment: "wf_world w \<Longrightarrow> quiet w (w\<lparr>w_segments := (w_segments w)[i := s]\<rparr>)"
  by (simp add: quiet_def grows_def wf_set_segment)

lemma quiet_gen_id: "wf_world w \<Longrightarrow> c < length (w_contexts w) \<Longrightarrow> gen_id e c w = (s, w') \<Longrightarrow> quiet w w'"
  using wf_gen_id [of w c e s w'] by (simp add: quiet_def grows_def)

lemma quiet_createSegmentContext:
  assumes "wf_world w" "c < length (w_contexts w)" "createSegmentContext e c (length (w_spans w)) ds parent w = (sx, w')"
    and "\<And>p. parent = Some p \<Longrightarrow> sctx_ok (length (w_spans w)) p w \<and> sx_segment p < length (w_segments w)"
  shows "quiet w w' \<and> sctx_ok (length (w_spans w)) sx w' \<and> w_spans w' = w_spans w
    \<and> (\<forall>p. parent = Some p \<longrightarrow> sx_segment sx = sx_segment p \<and> length (w_segments w') = length (w_segments w))"
proof (cases parent)
  case (Some p)
  with assms(3,4) [unfolded sctx_ok_def] assms(1) show ?thesis
    by (auto simp: createSegmentContext_def Let_def sctx_ok_def quiet_set_segment split: option.splits)
next
  case None
  show ?thesis
  proof (cases "ds_Refs ds")
    case Nil
    obtain t w1 where t: "gen_id e c w = (t, w1)" by (cases "gen_id e c w")
    note g = wf_gen_id [OF assms(1,2) t] quiet_gen_id [OF assms(1,2) t]
    have "quiet w (w1\<lparr>w_correlations := w_correlations w1 @ [newCorrelationContext]\<rparr>)"
      using g quiet_trans quiet_add_correlation by blast
    with assms(3) Nil None t g show ?thesis
      by (auto simp: createSegmentContext_def Let_def sctx_ok_def alloc_correlation_def)
  next
    case (Cons r rs)
    with assms None show ?thesis
      by (auto simp: createSegmentContext_def Let_def sctx_ok_def alloc_correlation_def quiet_add_correlation)
  qed
qed

lemma quiet_add_span:
  assumes "wf_world w" "span_ok (Suc (length (w_spans w))) (length (w_segments w)) (length (w_correlations w)) s"
    and "active_ok (length (w_spans w)) (parent_of s)"
  shows "quiet w (w\<lparr>w_spans := w_spans w @ [s]\<rparr>)"
  using wf_add_span [OF assms] by (simp add: quiet_def grows_def)

lemma sctx_ok_grows: "sctx_ok a sx w \<Longrightarrow> length (w_correlations w) \<le> length (w_correlations w') \<Longrightarrow> sctx_ok a sx w'"
  by (auto simp: sctx_ok_def split: option.splits)

lemma sctx_span_ok:
  "sctx_ok (length (w_spans w)) sx w \<Longrightarrow> sx_segment sx < length (w_segments w) \<Longrightarrow>
   active_ok (length (w_spans w)) (ds_Parent ds) \<Longrightarrow>
   span_ok (Suc (length (w_spans w))) (length (w_segments w)) (length (w_correlations w)) (SegSpan k ds sx)"
  by (auto simp: sctx_ok_def active_ok_def split: option.splits)

lemma quiet_NewSegmentSpan:
  assumes "wf_world w" "c < length (w_contexts w)" "NewSegmentSpan e c ds parent w = (a, w')"
    and "\<And>p. parent = Some p \<Longrightarrow> sctx_ok (length (w_spans w)) p w \<and> sx_segment p < length (w_segments w)"
    and "active_ok (length (w_spans w)) (ds_Parent ds)"
  shows "quiet w w' \<and> a < length (w_spans w') \<and> a = length (w_spans w)
    \<and> (\<exists>k sx. w_spans w' = w_spans w @ [SegSpan k ds sx] \<and> k \<noteq> SnapshotSpan)"
proof -
  obtain sx w1 where 1: "createSegmentContext e c (length (w_spans w)) ds parent w = (sx, w1)"
    by (cases "createSegmentContext e c (length (w_spans w)) ds parent w")
  note q1 = quiet_createSegmentContext [OF assms(1,2) 1 assms(4)]
  obtain b w2 where 2: "(case parent of None \<Rightarrow> (False, w1) | Some p \<Rightarrow> segmentRegister p w1) = (b, w2)"
    by (cases "case parent of None \<Rightarrow> (False, w1) | Some p \<Rightarrow> segmentRegister p w1")
  have q2: "quiet w1 w2 \<and> w_spans w2 = w_spans w1 \<and> w_correlations w2 = w_correlations w1 \<and>
      length (w_segments w2) = length (w_segments w1) \<and> (b \<longrightarrow> parent \<noteq> None)"
    using 2 q1 by (auto simp: segmentRegister_def Let_def quiet_def grows_def wf_set_segment split: option.splits if_splits)
  have q12: "quiet w w2" using q1 q2 quiet_trans by blast
  then have wf2: "wf_world w2" and c2: "c < length (w_contexts w2)" using assms(2) by (simp_all add: quiet_def)
  have sx2: "sctx_ok (length (w_spans w2)) sx w2" using q1 q2 sctx_ok_grows [of _ sx w1 w2] by simp
  show ?thesis
  proof (cases b)
    case True
    then have seg: "sx_segment sx < length (w_segments w2)" using q1 q2 assms(4) by auto
    have "quiet w2 (w2\<lparr>w_spans := w_spans w2 @ [SegSpan SegmentSpanImpl ds sx]\<rparr>)"
      using sctx_span_ok [OF sx2 seg] assms(5) q1 q2 by (intro quiet_add_span [OF wf2]) simp_all
    with assms(3) 1 2 True q1 q2 q12 show ?thesis
      by (auto simp: NewSegmentSpan_def alloc_span_def intro: quiet_trans)
  next
    case False
    obtain i w3 where 3: "gen_id e c w2 = (i, w3)" by (cases "gen_id e c w2")
    note g = wf_gen_id [OF wf2 c2 3]
    let ?w4 = "w3\<lparr>w_segments := w_segments w3 @ [\<lparr>sg_refNum = 0, sg_spanIDGenerator = 0\<rparr>]\<rparr>"
    let ?sx = "sx\<lparr>sx_SegmentID := i, sx_segment := length (w_segments w3), sx_SpanID := 0, sx_ParentSpanID := -1\<rparr>"
    have q4: "quiet w2 ?w4" using g wf_add_segment [of w3] by (simp add: quiet_def grows_def)
    then have wf4: "wf_world ?w4" by (simp add: quiet_def)
    have "sctx_ok (length (w_spans ?w4)) ?sx ?w4" using sx2 g by (auto simp: sctx_ok_def split: option.splits)
    then have "span_ok (Suc (length (w_spans ?w4))) (length (w_segments ?w4)) (length (w_correlations ?w4))
        (SegSpan RootSegmentSpan ds ?sx)"
      using assms(5) q1 q2 g by (intro sctx_span_ok) simp_all
    moreover have "active_ok (length (w_spans ?w4)) (parent_of (SegSpan RootSegmentSpan ds ?sx))"
      using assms(5) q1 q2 g by simp
    ultimately have "quiet ?w4 (?w4\<lparr>w_spans := w_spans ?w4 @ [SegSpan RootSegmentSpan ds ?sx]\<rparr>)"
      by (rule quiet_add_span [OF wf4])
    then have "quiet w (?w4\<lparr>w_spans := w_spans ?w4 @ [SegSpan RootSegmentSpan ds ?sx]\<rparr>)"
      using q12 q4 quiet_trans by blast
    with assms(3) 1 2 3 False q1 q2 g show ?thesis
      by (auto simp: NewSegmentSpan_def createRootSegmentContext_def alloc_span_def)
  qed
qed

lemma as_segment_span_ok:
  assumes "wf_world w" "a < length (w_spans w)" "as_segment_span (w_spans w ! a) = Some p"
  shows "sctx_ok (length (w_spans w)) p w \<and> sx_segment p < length (w_segments w)"
  using wf_span [OF assms(1,2)] assms(3)
  by (cases "w_spans w ! a") (auto simp: sctx_ok_def split: option.splits)

lemma apply_core_opts_parent [simp]: "ds_Parent (apply_core_opts oo ds) = ds_Parent ds"
  by (simp add: apply_core_opts_def Let_def split: option.splits)

lemma NewDefaultSpan_parent [simp]: "ds_Parent (NewDefaultSpan now p) = p"
  by (simp add: NewDefaultSpan_def)

lemma quiet_createSpan0:
  assumes "wf_world w" "c < length (w_contexts w)" "active_ok (length (w_spans w)) parent"
    and "createSpan0 e c parent opts oo w = ((a, noop), w')"
  shows "quiet w w' \<and> a < length (w_spans w') \<and> a = length (w_spans w)"
proof -
  define ps where "ps = (case parent of None \<Rightarrow> None | Some a \<Rightarrow> as_segment_span (w_spans w ! a))"
  have ok: "sctx_ok (length (w_spans w)) p w \<and> sx_segment p < length (w_segments w)" if "ps = Some p" for p
    using that assms(1,3) by (auto simp: ps_def dest: as_segment_span_ok split: option.splits)
  obtain b w1 where 1: "NewSegmentSpan e c (apply_core_opts oo (NewDefaultSpan (e_now e) parent)) ps w = (b, w1)"
    by (cases "NewSegmentSpan e c (apply_core_opts oo (NewDefaultSpan (e_now e) parent)) ps w")
  have q1: "quiet w w1" "b < length (w_spans w1)" "b = length (w_spans w)"
    using quiet_NewSegmentSpan [OF assms(1,2) 1 ok] assms(3) by auto
  then have "quiet w1 (apply_opts opts b w1)"
    by (simp add: quiet_def grows_def wf_apply_opts)
  then have q2: "quiet w (apply_opts opts b w1)" using q1 quiet_trans by blast
  have "quiet w (w\<lparr>w_spans := w_spans w @ [newNoopSpan]\<rparr>)"
    by (rule quiet_add_span [OF assms(1)]) (simp_all add: newNoopSpan_def)
  with q1 q2 assms(4) 1 show ?thesis
    by (auto simp: createSpan0_def Let_def alloc_span_def ps_def apply_opts_def [symmetric] quiet_def log_so11y_def grows_def split: if_splits)
qed

text \<open>createNoop may add a context that no slot refers to yet.\<close>

lemma wf_createNoop:
  assumes "wf_world w" "createNoop e g name w = ((ctx, span, noop), w')"
  shows "wf_world w' \<and> grows w w' \<and> w_gls w' = w_gls w \<and> ActiveSpan g w' = ActiveSpan g w \<and>
    (case ctx of None \<Rightarrow> noop \<and> w_gls w g = None | Some c \<Rightarrow> c < length (w_contexts w') \<and> (w_gls w g = Some c \<or> w_gls w g = None)) \<and>
    active_ok (length (w_spans w')) span \<and> (noop \<longrightarrow> span \<noteq> None) \<and>
    (\<not> noop \<longrightarrow> w_spans w' = w_spans w \<and> span = ActiveSpan g w) \<and>
    (\<not> noop \<longrightarrow> (case span of None \<Rightarrow> True | Some a \<Rightarrow> as_segment_span (w_spans w' ! a) \<noteq> None))"
proof (cases "getTracingContext g w")
  case None
  have "wf_world (w\<lparr>w_contexts := w_contexts w @ [NewTracingContext e]\<rparr>)"
    using assms(1) by (intro wf_add_context) (simp_all add: NewTracingContext_def)
  moreover have "wf_world (w\<lparr>w_spans := w_spans w @ [newNoopSpan]\<rparr>)"
    using assms(1) by (intro wf_add_span) (simp_all add: newNoopSpan_def)
  then have "wf_world (w\<lparr>w_so11y := x, w_spans := w_spans w @ [newNoopSpan]\<rparr>)" for x
    by (simp add: wf_world_def)
  ultimately show ?thesis
    using assms(2) None
    by (auto simp: createNoop_def alloc_span_def log_so11y_def new_context_def Let_def grows_def ActiveSpan_def
        getTracingContext_def split: if_splits)
next
  case (Some c)
  have c: "c < length (w_contexts w)" using wf_gls [OF assms(1) Some] .
  show ?thesis
  proof (cases "tc_activeSpan (w_contexts w ! c)")
    case None
    moreover have "w_gls w g = Some c" using Some by (simp add: getTracingContext_def)
    ultimately show ?thesis
      using assms c by (cases ctx) (auto simp: createNoop_def ActiveSpan_def getTracingContext_def)
  next
    case (Some a)
    have a: "a < length (w_spans w)" using wf_context [OF assms(1) c] Some by simp
    with assms \<open>getTracingContext g w = Some c\<close> c Some show ?thesis
      by (cases ctx; cases span) (auto simp: createNoop_def ActiveSpan_def getTracingContext_def grows_def intro!: wf_set_span split: tspan.splits)
  qed
qed

lemma wf_SaveActiveSpan:
  "wf_world w \<Longrightarrow> active_ok (length (w_spans w)) a \<Longrightarrow> wf_world (SaveActiveSpan c a w)"
  unfolding SaveActiveSpan_def by (rule wf_set_context) simp_all

lemma SaveActiveSpan_simps [simp]:
  "w_spans (SaveActiveSpan c a w) = w_spans w" "w_segments (SaveActiveSpan c a w) = w_segments w"
  "w_correlations (SaveActiveSpan c a w) = w_correlations w" "w_gls (SaveActiveSpan c a w) = w_gls w"
  "length (w_contexts (SaveActiveSpan c a w)) = length (w_contexts w)"
  by (simp_all add: SaveActiveSpan_def)

lemma SetGLS_simps [simp]:
  "w_spans (SetGLS g c w) = w_spans w" "w_segments (SetGLS g c w) = w_segments w"
  "w_correlations (SetGLS g c w) = w_correlations w" "w_contexts (SetGLS g c w) = w_contexts w"
  "w_gls (SetGLS g c w) = (w_gls w)(g := c)"
  by (simp_all add: SetGLS_def)

lemma wf_saveSpanToActive:
  "wf_world w \<Longrightarrow> a < length (w_spans w) \<Longrightarrow> c < length (w_contexts w) \<Longrightarrow> wf_world (saveSpanToActive g c a w)"
  unfolding saveSpanToActive_def by (intro wf_SetGLS wf_SaveActiveSpan) simp_all

lemma grows_save [simp]: "grows w (saveSpanToActive g c a w') = grows w w'"
  by (simp add: grows_def saveSpanToActive_def)

lemma quiet_profile: "quiet w w' \<Longrightarrow> quiet w (profile_span e en a w')"
  by (auto simp: profile_span_def split: tspan.split)

lemma profile_span_simps [simp]:
  "w_spans (profile_span e en a w) = w_spans w" "w_contexts (profile_span e en a w) = w_contexts w"
  "w_gls (profile_span e en a w) = w_gls w" "w_segments (profile_span e en a w) = w_segments w"
  "w_correlations (profile_span e en a w) = w_correlations w"
  by (simp_all add: profile_span_def split: tspan.split)

text \<open>The common shape of a creation that is neither a noop nor a reuse.\<close>

lemma wf_create:
  assumes "wf_world w" "createNoop e g name w = ((ctx, span, False), w1)"
    and "createSpan0 e (the ctx) span opts oo w1 = ((a, b), w2)"
  shows "wf_world w2 \<and> grows w w2 \<and> a < length (w_spans w2) \<and> the ctx < length (w_contexts w2) \<and> quiet w1 w2"
proof -
  note N = wf_createNoop [OF assms(1,2)]
  then obtain c where c: "ctx = Some c" "c < length (w_contexts w1)" by (cases ctx) auto
  from quiet_createSpan0 [of w1 c span e opts oo a b w2] N c assms(3) show ?thesis
    by (auto simp: quiet_def intro: grows_trans)
qed

lemma wf_CreateLocalSpan:
  assumes "wf_world w" "CreateLocalSpan e g name opts w = (a, w')"
  shows "wf_world w' \<and> grows w w' \<and> a < length (w_spans w')"
proof -
  obtain ctx span noop w1 where 1: "createNoop e g name w = ((ctx, span, noop), w1)"
    by (metis prod.exhaust)
  obtain b x w2 where 2: "createSpan0 e (the ctx) span opts
      \<lparr>co_ref = None, co_type = SpanTypeLocal, co_name = name, co_peer = None\<rparr> w1 = ((b, x), w2)"
    by (metis prod.exhaust)
  show ?thesis
  proof (cases noop)
    case True
    with wf_createNoop [OF assms(1) 1] assms(2) 1 show ?thesis by (auto simp: CreateLocalSpan_def)
  next
    case False
    have C: "wf_world w2 \<and> grows w w2 \<and> b < length (w_spans w2) \<and> the ctx < length (w_contexts w2) \<and> quiet w1 w2"
      using wf_create [OF assms(1) _ 2] 1 False by simp
    have "wf_world (profile_span e False b w2)" using C quiet_profile [of w1 w2] by (simp add: quiet_def)
    with C assms(2) 1 2 False show ?thesis
      by (auto simp: CreateLocalSpan_def Let_def saveSpanToActive_def grows_def
          intro!: wf_saveSpanToActive [unfolded saveSpanToActive_def])
  qed
qed

lemma enterReuse_parent [simp]: "ds_Parent (enterReuse ds) = ds_Parent ds" "ds_Parent (SetOperationName n ds) = ds_Parent ds"
  "ds_Parent (appendRef r ds) = ds_Parent ds"
  by (simp_all add: mutator_defs logDroppedWrite_def)

lemma wf_CreateEntrySpan:
  assumes "wf_world w" "CreateEntrySpan e g name extractor opts w = (r, w')"
  shows "wf_world w' \<and> grows w w' \<and> (case r of Inl _ \<Rightarrow> True | Inr a \<Rightarrow> a < length (w_spans w'))"
proof -
  obtain ctx span noop w1 where 1: "createNoop e g name w = ((ctx, span, noop), w1)"
    by (metis prod.exhaust)
  obtain ref err where D: "Decode extractor empty_span_context = (ref, err)" by fastforce
  obtain b x w2 where 2: "createSpan0 e (the ctx) span opts
      \<lparr>co_ref = (if sc_valid ref then Some ref else None), co_type = SpanTypeEntry, co_name = name, co_peer = None\<rparr> w1 = ((b, x), w2)"
    by (metis prod.exhaust)
  note N = wf_createNoop [OF assms(1) 1]
  show ?thesis
  proof (cases noop)
    case True
    with N assms(2) 1 show ?thesis by (auto simp: CreateEntrySpan_def)
  next
    case False
    have C: "wf_world w2 \<and> grows w w2 \<and> b < length (w_spans w2) \<and> the ctx < length (w_contexts w2) \<and> quiet w1 w2"
      using wf_create [OF assms(1) _ 2] 1 False by simp
    have P: "wf_world (profile_span e True b w2)" using C quiet_profile [of w1 w2] by (simp add: quiet_def)
    have I: "a < length (w_spans w1)" if "span = Some a" for a using that N by simp
    have R: "wf_world (map_ds enterReuse (the span) (map_ds (SetOperationName name) (the span) w1))"
      if "span \<noteq> None"
      using that N by (cases span) (auto intro!: wf_map_ds)
    have ctx: "the ctx < length (w_contexts w1)" using N False by (auto split: option.splits)
    from N C P R I ctx assms(2) 1 2 D False show ?thesis
      by (auto simp: CreateEntrySpan_def Let_def grows_def saveSpanToActive_def
          intro!: wf_saveSpanToActive [unfolded saveSpanToActive_def] split: option.splits if_splits)
  qed
qed

lemma wf_CreateExitSpan:
  assumes "wf_world w" "CreateExitSpan e g name peer injector ks opts cr w = (r, cr', w')"
  shows "wf_world w' \<and> grows w w' \<and> (case r of Inl _ \<Rightarrow> True | Inr a \<Rightarrow> a < length (w_spans w'))"
proof -
  obtain ctx span noop w1 where 1: "createNoop e g name w = ((ctx, span, noop), w1)"
    by (metis prod.exhaust)
  obtain b x w2 where 2: "createSpan0 e (the ctx) span opts
      \<lparr>co_ref = None, co_type = SpanTypeExit, co_name = name, co_peer = Some peer\<rparr> w1 = ((b, x), w2)"
    by (metis prod.exhaust)
  note N = wf_createNoop [OF assms(1) 1]
  show ?thesis
  proof (cases noop)
    case True
    with N assms(2) 1 show ?thesis by (auto simp: CreateExitSpan_def)
  next
    case False
    have C: "wf_world w2 \<and> grows w w2 \<and> b < length (w_spans w2) \<and> the ctx < length (w_contexts w2) \<and> quiet w1 w2"
      using wf_create [OF assms(1) _ 2] 1 False by simp
    have I: "a < length (w_spans w1)" if "span = Some a" for a using that N by simp
    have R: "wf_world (map_ds enterReuse (the span) w1)" if "span \<noteq> None"
      using that N by (cases span) (auto intro!: wf_map_ds)
    have ctx: "the ctx < length (w_contexts w1)" using N False by (auto split: option.splits)
    from N C R I ctx assms(2) 1 2 False show ?thesis
      by (auto simp: CreateExitSpan_def Let_def grows_def saveSpanToActive_def
          intro!: wf_saveSpanToActive [unfolded saveSpanToActive_def]
          split: option.splits if_splits tspan.splits prod.splits)
  qed
qed

text \<open>Ending spans.\<close>

lemma wf_restore_active:
  "wf_world w \<Longrightarrow> active_ok (length (w_spans w)) p \<Longrightarrow> wf_world (restore_active g p w)"
  by (auto simp: restore_active_def wf_SaveActiveSpan split: option.splits)

lemma restore_active_simps [simp]:
  "w_spans (restore_active g p w) = w_spans w" "w_segments (restore_active g p w) = w_segments w"
  "w_correlations (restore_active g p w) = w_correlations w" "w_gls (restore_active g p w) = w_gls w"
  "length (w_contexts (restore_active g p w)) = length (w_contexts w)"
  by (simp_all add: restore_active_def split: option.splits)

lemma wf_end0: "wf_world w \<Longrightarrow> wf_world (end0 a k sx w)"
  by (simp add: end0_def wf_set_segment)

lemma end0_simps [simp]:
  "w_spans (end0 a k sx w) = w_spans w" "length (w_segments (end0 a k sx w)) = length (w_segments w)"
  "w_correlations (end0 a k sx w) = w_correlations w" "w_gls (end0 a k sx w) = w_gls w"
  "w_contexts (end0 a k sx w) = w_contexts w"
  by (simp_all add: end0_def)

lemma log_so11y_simps [simp]:
  "w_spans (log_so11y x w) = w_spans w" "w_segments (log_so11y x w) = w_segments w"
  "w_correlations (log_so11y x w) = w_correlations w" "w_gls (log_so11y x w) = w_gls w"
  "w_contexts (log_so11y x w) = w_contexts w"
  by (simp_all add: log_so11y_def)

lemma endSync_parent: "endSyncAndFreeze now ds = (ds', r, f) \<Longrightarrow> ds_Parent ds' = ds_Parent ds"
  by (auto simp: endSyncAndFreeze_def Let_def split: if_splits)

lemma endAndFreeze_parent: "endAndFreeze (ds_End now ds) = (ds', f) \<Longrightarrow> ds_Parent ds' = ds_Parent ds"
  by (auto simp: endAndFreeze_def ds_End_def split: if_splits)

lemma wf_SpanEnd:
  assumes "wf_world w" "a < length (w_spans w)" "SpanEnd e g a w = Inr w'"
  shows "wf_world w' \<and> grows w w'"
proof (cases "w_spans w ! a")
  case (NoopSpan n)
  have "wf_world (w\<lparr>w_spans := (w_spans w)[a := NoopSpan (n - 1)]\<rparr>)"
    by (rule wf_set_span [OF assms(1)]) simp_all
  with NoopSpan assms(3) show ?thesis
    by (auto simp: SpanEnd_def noop_End_def Let_def grows_def intro!: wf_restore_active)
next
  case (SegSpan k ds sx)
  obtain ds' restore frozen where E: "endSyncAndFreeze (e_now e) ds = (ds', restore, frozen)"
    by (metis prod.exhaust)
  note ok = wf_span [OF assms(1,2), unfolded SegSpan]
  then have "wf_world (w\<lparr>w_spans := (w_spans w)[a := SegSpan k ds' sx]\<rparr>)"
    using endSync_parent [OF E] SegSpan by (intro wf_set_span [OF assms(1)]) simp_all
  moreover have "active_ok (length (w_spans w)) (ds_Parent ds)"
    using ok by (auto simp: active_ok_def)
  ultimately show ?thesis
    using assms(3) SegSpan E
    by (auto simp: SpanEnd_def Let_def grows_def intro!: wf_restore_active wf_end0 split: if_splits)
qed

lemma wf_SpanPrepareAsync:
  assumes "wf_world w" "a < length (w_spans w)" "SpanPrepareAsync a w = Inr w'"
  shows "wf_world w' \<and> grows w w'"
  using assms wf_span [OF assms(1,2)]
  by (auto simp: SpanPrepareAsync_def PrepareAsync_def logDroppedWrite_def grows_def
      intro!: wf_set_span split: tspan.splits if_splits)

lemma wf_SpanAsyncFinish:
  assumes "wf_world w" "a < length (w_spans w)" "SpanAsyncFinish e a w = Inr w'"
  shows "wf_world w' \<and> grows w w'"
proof (cases "w_spans w ! a")
  case (NoopSpan n)
  with assms show ?thesis by (simp add: SpanAsyncFinish_def)
next
  case (SegSpan k ds sx)
  note ok = wf_span [OF assms(1,2), unfolded SegSpan]
  obtain ds1 where 1: "AsyncFinish ds = Inr ds1" and k: "k \<noteq> SnapshotSpan"
    using assms(3) SegSpan by (auto simp: SpanAsyncFinish_def split: if_splits sum.splits)
  obtain ds2 f where 2: "endAndFreeze (ds_End (e_now e) ds1) = (ds2, f)" by fastforce
  have "ds_Parent ds1 = ds_Parent ds"
    using 1 by (auto simp: AsyncFinish_def logDroppedWrite_def split: if_splits)
  then have "wf_world (w\<lparr>w_spans := (w_spans w)[a := SegSpan k ds2 sx]\<rparr>)"
    using ok endAndFreeze_parent [OF 2] SegSpan by (intro wf_set_span [OF assms(1)]) simp_all
  with assms(3) SegSpan 1 2 k show ?thesis
    by (auto simp: SpanAsyncFinish_def Let_def grows_def intro!: wf_end0)
qed

lemma wf_newSnapshotSpan:
  assumes "wf_world w" "active_ok (length (w_spans w)) cur" "newSnapshotSpan cur w = (s, w')"
  shows "wf_world w' \<and> grows w w' \<and> active_ok (length (w_spans w')) s \<and> w_gls w' = w_gls w \<and> w_contexts w' = w_contexts w"
proof (cases cur)
  case None
  with assms show ?thesis by (simp add: newSnapshotSpan_def)
next
  case (Some a)
  then have a: "a < length (w_spans w)" using assms(2) by simp
  show ?thesis
  proof (cases "w_spans w ! a")
    case (NoopSpan n)
    have "wf_world (w\<lparr>w_spans := w_spans w @ [NoopSpan 0]\<rparr>)" by (rule wf_add_span [OF assms(1)]) simp_all
    with assms Some NoopSpan show ?thesis by (auto simp: newSnapshotSpan_def alloc_span_def grows_def)
  next
    case (SegSpan k ds sx)
    let ?cc = "cc_Clone (map_option ((!) (w_correlations w)) (sx_Correlation sx))"
    let ?w1 = "w\<lparr>w_correlations := w_correlations w @ [?cc]\<rparr>"
    let ?s = "SegSpan SnapshotSpan ((NewDefaultSpan 0 None)\<lparr>ds_SpanType := SpanTypeEntry,
        ds_OperationName := ds_OperationName ds, ds_Peer := ds_Peer ds\<rparr>)
      (sx\<lparr>sx_ParentSpanID := 0, sx_ParentSegmentID := [], sx_Correlation := Some (length (w_correlations w))\<rparr>)"
    have "wf_world (?w1\<lparr>w_spans := w_spans ?w1 @ [?s]\<rparr>)"
      using wf_span [OF assms(1) a] SegSpan
      by (intro wf_add_span wf_add_correlation [OF assms(1)]) (auto simp: NewDefaultSpan_def split: option.splits)
    with assms Some SegSpan show ?thesis
      by (auto simp: newSnapshotSpan_def alloc_span_def alloc_correlation_def grows_def Let_def split: if_splits)
  qed
qed

lemma wf_set_runtime: "wf_world w \<Longrightarrow> c < length (w_contexts w) \<Longrightarrow> wf_world (set_runtime c f w)"
  unfolding set_runtime_def by (intro wf_set_context) (simp_all add: wf_context)

lemma wf_ensure_context:
  assumes "wf_world w" "ensure_context e g w = (c, w')"
  shows "wf_world w' \<and> grows w w' \<and> c < length (w_contexts w') \<and> w_spans w' = w_spans w"
proof (cases "getTracingContext g w")
  case None
  have "wf_world (w\<lparr>w_contexts := w_contexts w @ [NewTracingContext e]\<rparr>)"
    using assms(1) by (intro wf_add_context) (simp_all add: NewTracingContext_def)
  with None assms(2) show ?thesis
    by (auto simp: ensure_context_def new_context_def Let_def grows_def SetGLS_def [symmetric] intro!: wf_SetGLS)
next
  case (Some c)
  with assms wf_gls [OF assms(1)] show ?thesis by (auto simp: ensure_context_def)
qed

lemma wf_ActiveSpan: "wf_world w \<Longrightarrow> active_ok (length (w_spans w)) (ActiveSpan g w)"
  using wf_active [of w g] by (cases "ActiveSpan g w") simp_all

lemma grows_set_correlation [simp]:
  "grows w (set_correlation k f w') = grows w w'" "grows (set_correlation k f w) w' = grows w w'"
  by (simp_all add: grows_def set_correlation_def)

lemma wf_fold_correlation: "wf_world w \<Longrightarrow> wf_world (fold (\<lambda>k. set_correlation co (F k)) ks w)"
  by (induction ks arbitrary: w) (simp_all add: wf_set_correlation)

lemma grows_fold_correlation: "grows w (fold (\<lambda>k. set_correlation co (F k)) ks w') = grows w w'"
  by (induction ks arbitrary: w') simp_all

lemma wf_ExtractContext:
  assumes "wf_world w" "ExtractContext g extractor ks w = (r, w')"
  shows "wf_world w' \<and> grows w w'"
proof -
  have M: "wf_world (map_ds (appendRef ref) a w)" if "ActiveSpan g w = Some a" for a ref
    using wf_active [OF assms(1) that] by (intro wf_map_ds [OF assms(1)]) simp_all
  have G: "grows w (map_ds (appendRef ref) a w)" for a ref by (simp add: grows_def)
  from assms(1) M G assms(2) show ?thesis
    unfolding ExtractContext_def Let_def
    by (auto split: option.splits tspan.splits prod.splits if_splits
        simp: wf_fold_correlation grows_fold_correlation)
qed

text \<open>
  Every operation, by any goroutine, in any surroundings, on any span address that was
  returned to the application before.  Errors are messages, the carrier a list of headers.
\<close>

inductive op_step :: "'v world \<Rightarrow> 'v world \<Rightarrow> bool" where
  o_entry: "op_step w (snd (CreateEntrySpan e g name (extractor :: string \<Rightarrow> (string, string) result) opts w))"
| o_local: "op_step w (snd (CreateLocalSpan e g name opts w))"
| o_exit: "op_step w (snd (snd (CreateExitSpan e g name peer
    (injector :: (string \<times> string) list \<Rightarrow> string \<Rightarrow> string \<Rightarrow> (string \<times> string) list \<times> string option) ks opts cr w)))"
| o_mutate: "a < length (w_spans w) \<Longrightarrow> op_step w (map_ds (mutate m) a w)"
| o_end: "a < length (w_spans w) \<Longrightarrow> SpanEnd e g a w = Inr w' \<Longrightarrow> op_step w w'"
| o_prepare: "a < length (w_spans w) \<Longrightarrow> SpanPrepareAsync a w = Inr w' \<Longrightarrow> op_step w w'"
| o_finish: "a < length (w_spans w) \<Longrightarrow> SpanAsyncFinish e a w = Inr w' \<Longrightarrow> op_step w w'"
| o_extract: "op_step w (snd (ExtractContext g (extractor :: string \<Rightarrow> (string, string) result) ks w))"
| o_runtime: "op_step w (SetRuntimeContextValue e g key v w)"
| o_capture: "op_step w (snd (CaptureContext g w))"
| o_continue: "active_ok (length (w_spans w)) s \<Longrightarrow> op_step w (ContinueContext e g (Some (s, r)) w)"
| o_go: "TakeSnapShot g w = (c, w') \<Longrightarrow> w_gls w g' = None \<Longrightarrow> op_step w (SetGLS g' c w')"
| o_clean: "op_step w (CleanContext g w)"
| o_correlation: "op_step w (SetCorrelationContextValue e g key value w)"

lemma wf_op_step: "op_step w w' \<Longrightarrow> wf_world w \<Longrightarrow> wf_world w' \<and> grows w w'"
proof (induction rule: op_step.induct)
  case (o_entry w e g name extractor opts)
  obtain r w1 where "CreateEntrySpan e g name extractor opts w = (r, w1)" by fastforce
  from wf_CreateEntrySpan [OF o_entry this] this show ?case by simp
next
  case (o_local w e g name opts)
  obtain r w1 where "CreateLocalSpan e g name opts w = (r, w1)" by fastforce
  from wf_CreateLocalSpan [OF o_local this] this show ?case by simp
next
  case (o_exit w e g name peer injector ks opts cr)
  obtain r cr' w1 where "CreateExitSpan e g name peer injector ks opts cr w = (r, cr', w1)" by (metis prod.exhaust)
  from wf_CreateExitSpan [OF o_exit this] this show ?case by simp
next
  case (o_mutate a w m)
  then show ?case by (simp add: wf_map_ds grows_def)
next
  case (o_end a w e g w')
  then show ?case using wf_SpanEnd by blast
next
  case (o_prepare a w w')
  then show ?case using wf_SpanPrepareAsync by blast
next
  case (o_finish a w e w')
  then show ?case using wf_SpanAsyncFinish by blast
next
  case (o_extract w g extractor ks)
  obtain r w1 where "ExtractContext g extractor ks w = (r, w1)" by fastforce
  from wf_ExtractContext [OF o_extract this] this show ?case by simp
next
  case (o_runtime w e g key v)
  obtain c w1 where 1: "ensure_context e g w = (c, w1)" by fastforce
  from wf_ensure_context [OF o_runtime 1] 1 show ?case
    by (simp add: SetRuntimeContextValue_def wf_set_runtime) (simp add: grows_def set_runtime_def)
next
  case (o_capture w g)
  obtain s w1 where 1: "newSnapshotSpan (ActiveSpan g w) w = (s, w1)" by fastforce
  from wf_newSnapshotSpan [OF o_capture wf_ActiveSpan [OF o_capture] 1] 1 o_capture show ?case
    by (simp add: CaptureContext_def split: option.split)
next
  case (o_continue w s e g r)
  obtain c w1 where 1: "ensure_context e g w = (c, w1)" by fastforce
  from wf_ensure_context [OF o_continue(2) 1] 1 o_continue(1) show ?case
    by (simp add: ContinueContext_def wf_set_runtime wf_SaveActiveSpan) (simp add: grows_def set_runtime_def)
next
  case (o_go g w c w' g')
  obtain s w1 where 1: "newSnapshotSpan (ActiveSpan g w) w = (s, w1)" by fastforce
  note S = wf_newSnapshotSpan [OF o_go(3) wf_ActiveSpan [OF o_go(3)] 1]
  have "wf_world (w1\<lparr>w_contexts := w_contexts w1 @ [tc]\<rparr>)" if "tc_activeSpan tc = s" for tc
    using S that by (intro wf_add_context) simp_all
  with o_go(1,3) 1 S show ?case
    by (auto simp: TakeSnapShot_def grows_def intro!: wf_SetGLS split: option.splits)
next
  case (o_clean w g)
  then show ?case by (simp add: CleanContext_def grows_def wf_SetGLS)
next
  case (o_correlation w e g key v)
  then show ?case
    by (auto simp: SetCorrelationContextValue_def wf_set_correlation split: option.split)
qed

text \<open>
  C36. From the empty process, no sequence of tracing operations of any goroutines leaves a
  dangling pointer: every slot holds a tracing context, every active span is a span, every
  span refers to an existing segment, correlation context and first span, and its parent is
  an older span, so that the parents form no cycle.
\<close>

theorem operations_keep_heap:
  assumes "op_step\<^sup>*\<^sup>* empty_world w"
  shows "wf_world w"
  using assms by (induction rule: rtranclp_induct) (auto simp: wf_empty dest: wf_op_step)

end
