(* ===== verification/Tracing_Props.thy ===== *)
theory Tracing_Props
  imports Tracing_Heap
begin

text \<open>
  What the tracing operations of Tracing guarantee: the links between parent and child
  spans, the propagation of a trace to another process and another goroutine, the nesting
  discipline of the active span, and the limits of the correlation context; and where the
  code differs from its documentation.
\<close>

section \<open>New spans\<close>

text \<open>The options of package tracing: WithLayer, WithComponent, WithTag.\<close>

fun plugin_opt :: "mutation \<Rightarrow> bool" where
  "plugin_opt (MLayer l) = True"
| "plugin_opt (MComponent i) = True"
| "plugin_opt (MTag k v) = True"
| "plugin_opt m = False"

lemma plugin_opt_keeps:
  "plugin_opt m \<Longrightarrow> \<not> ds_ended ds \<Longrightarrow>
   ds_Refs (mutate m ds) = ds_Refs ds \<and> ds_OperationName (mutate m ds) = ds_OperationName ds \<and>
   ds_SpanType (mutate m ds) = ds_SpanType ds \<and> ds_Parent (mutate m ds) = ds_Parent ds \<and>
   ds_reuseCount (mutate m ds) = ds_reuseCount ds \<and> ds_ended (mutate m ds) = ds_ended ds \<and>
   ds_EndTime (mutate m ds) = ds_EndTime ds \<and> ds_InAsyncMode (mutate m ds) = ds_InAsyncMode ds"
  by (cases m) (simp_all add: mutator_defs)

text \<open>What the options leave of a new span.\<close>

definition same_core :: "nat default_span \<Rightarrow> nat default_span \<Rightarrow> bool" where
  "same_core ds ds' \<longleftrightarrow>
     ds_Refs ds' = ds_Refs ds \<and> ds_OperationName ds' = ds_OperationName ds \<and>
     ds_SpanType ds' = ds_SpanType ds \<and> ds_Parent ds' = ds_Parent ds \<and>
     ds_reuseCount ds' = ds_reuseCount ds \<and> ds_ended ds' = ds_ended ds \<and>
     ds_EndTime ds' = ds_EndTime ds \<and> ds_InAsyncMode ds' = ds_InAsyncMode ds"

lemma same_core_refl: "same_core ds ds" by (simp add: same_core_def)

lemma apply_opts_span:
  assumes "list_all plugin_opt ms" "a < length (w_spans w)" "w_spans w ! a = SegSpan k ds sx" "\<not> ds_ended ds"
  shows "\<exists>ds'. w_spans (apply_opts ms a w) = (w_spans w)[a := SegSpan k ds' sx] \<and> same_core ds ds'"
  using assms
proof (induction ms arbitrary: w ds)
  case Nil
  then show ?case
    using list_update_id [of "w_spans w" a] same_core_refl by (metis apply_opts_def fold_Nil id_apply)
next
  case (Cons m ms)
  have k: "same_core ds (mutate m ds)" "\<not> ds_ended (mutate m ds)"
    using plugin_opt_keeps [of m ds] Cons.prems by (simp_all add: same_core_def)
  have w: "w_spans (map_ds (mutate m) a w) = (w_spans w)[a := SegSpan k (mutate m ds) sx]"
    using Cons.prems by (simp add: map_ds_def)
  from Cons.IH [of "map_ds (mutate m) a w" "mutate m ds"] Cons.prems k w
  obtain ds' where "w_spans (apply_opts ms a (map_ds (mutate m) a w)) = (w_spans w)[a := SegSpan k ds' sx]"
    "same_core (mutate m ds) ds'" by auto
  with k show ?case by (intro exI [of _ ds']) (simp add: apply_opts_def same_core_def)
qed

lemma apply_core_opts_simps [simp]:
  "ds_Refs (apply_core_opts oo ds) = ds_Refs ds @ (case co_ref oo of None \<Rightarrow> [] | Some r \<Rightarrow> [r])"
  "ds_SpanType (apply_core_opts oo ds) = co_type oo" "ds_OperationName (apply_core_opts oo ds) = co_name oo"
  "ds_reuseCount (apply_core_opts oo ds) = ds_reuseCount ds" "ds_ended (apply_core_opts oo ds) = ds_ended ds"
  "ds_EndTime (apply_core_opts oo ds) = ds_EndTime ds" "ds_InAsyncMode (apply_core_opts oo ds) = ds_InAsyncMode ds"
  by (simp_all add: apply_core_opts_def Let_def split: option.splits)

lemma NewDefaultSpan_simps [simp]:
  "ds_Refs (NewDefaultSpan now p) = []" "ds_reuseCount (NewDefaultSpan now p) = 0"
  "ds_ended (NewDefaultSpan now p) = False" "ds_EndTime (NewDefaultSpan now p) = None"
  "ds_InAsyncMode (NewDefaultSpan now p) = False"
  by (simp_all add: NewDefaultSpan_def)

text \<open>The segment context of a new span with a parent, and of one without.\<close>

lemma NewSegmentSpan_child:
  assumes "NewSegmentSpan e c ds (Some p) w = (a, w')" "c < length (w_contexts w)" "wf_world w"
    and "sx_segment p < length (w_segments w)" "sx_Correlation p = Some co" "sx_FirstSpan p = Some f"
  shows "a = length (w_spans w) \<and> (\<exists>k sx. w_spans w' = w_spans w @ [SegSpan k ds sx] \<and>
    sx_TraceID sx = sx_TraceID p \<and> sx_Correlation sx = Some co \<and> sx_FirstSpan sx = Some f \<and>
    sx_ParentSegmentID sx = sx_SegmentID p \<and>
    (if sg_refNum (w_segments w ! sx_segment p) <s 0
     then k = RootSegmentSpan \<and> sx_SpanID sx = 0 \<and> sx_ParentSpanID sx = -1 \<and> sx_segment sx = length (w_segments w)
     else k = SegmentSpanImpl \<and> sx_SegmentID sx = sx_SegmentID p \<and> sx_segment sx = sx_segment p \<and>
       sx_ParentSpanID sx = sx_SpanID p \<and> sx_SpanID sx = sg_spanIDGenerator (w_segments w ! sx_segment p) + 1))"
proof -
  let ?s = "w_segments w ! sx_segment p"
  let ?w1 = "w\<lparr>w_segments := (w_segments w)[sx_segment p := ?s\<lparr>sg_spanIDGenerator := sg_spanIDGenerator ?s + 1\<rparr>]\<rparr>"
  obtain i w3 where g: "gen_id e c ?w1 = (i, w3)" by fastforce
  have "wf_world ?w1" "c < length (w_contexts ?w1)" using assms by (simp_all add: wf_set_segment)
  from wf_gen_id [OF this g] g assms show ?thesis
    by (auto simp: NewSegmentSpan_def createSegmentContext_def segmentRegister_def createRootSegmentContext_def
        alloc_span_def Let_def split: if_splits prod.splits)
qed

lemma NewSegmentSpan_root:
  assumes "NewSegmentSpan e c ds None w = (a, w')" "c < length (w_contexts w)" "wf_world w"
  shows "a = length (w_spans w) \<and> (\<exists>sx. w_spans w' = w_spans w @ [SegSpan RootSegmentSpan ds sx] \<and>
    sx_segment sx = length (w_segments w) \<and> sx_FirstSpan sx = Some a \<and> sx_SpanID sx = 0 \<and> sx_ParentSpanID sx = -1 \<and>
    sx_ParentSegmentID sx = [] \<and> sx_Correlation sx = Some (length (w_correlations w)) \<and>
    (\<forall>r rs. ds_Refs ds = r # rs \<longrightarrow> sx_TraceID sx = sc_trace_id r \<and>
       w_correlations w' = w_correlations w @ [newCorrelationContextFrom (sc_correlation r)]))"
proof (cases "ds_Refs ds")
  case (Cons r rs)
  let ?w1 = "w\<lparr>w_correlations := w_correlations w @ [newCorrelationContextFrom (sc_correlation r)]\<rparr>"
  obtain i w3 where g: "gen_id e c ?w1 = (i, w3)" by fastforce
  have "wf_world ?w1" "c < length (w_contexts ?w1)" using assms by (simp_all add: wf_add_correlation)
  from wf_gen_id [OF this g] g assms Cons show ?thesis
    by (auto simp: NewSegmentSpan_def createSegmentContext_def createRootSegmentContext_def
        alloc_span_def alloc_correlation_def Let_def)
next
  case Nil
  obtain t w1 where t: "gen_id e c w = (t, w1)" by fastforce
  note T = wf_gen_id [OF assms(3,2) t]
  let ?w2 = "w1\<lparr>w_correlations := w_correlations w1 @ [newCorrelationContext]\<rparr>"
  obtain i w3 where g: "gen_id e c ?w2 = (i, w3)" by fastforce
  have "wf_world ?w2" "c < length (w_contexts ?w2)"
    using T assms(2) wf_add_correlation [of w1 newCorrelationContext] by simp_all
  from wf_gen_id [OF this g] T t g assms Nil show ?thesis
    by (auto simp: NewSegmentSpan_def createSegmentContext_def createRootSegmentContext_def
        alloc_span_def alloc_correlation_def Let_def)
qed

text \<open>createSpan0 with an active segment span: a recording child, whatever the sampler says.\<close>

lemma createSpan0_child:
  assumes "wf_world w" "c < length (w_contexts w)" "p < length (w_spans w)" "w_spans w ! p = SegSpan pk pds psx"
    and "list_all plugin_opt opts" "createSpan0 e c (Some p) opts oo w = ((a, noop), w')"
  shows "\<not> noop \<and> a = length (w_spans w) \<and> (\<exists>k ds sx. w_spans w' = w_spans w @ [SegSpan k ds sx] \<and>
    same_core (apply_core_opts oo (NewDefaultSpan (e_now e) (Some p))) ds \<and>
    sx_TraceID sx = sx_TraceID psx \<and> sx_Correlation sx = sx_Correlation psx \<and> sx_FirstSpan sx = sx_FirstSpan psx \<and>
    sx_ParentSegmentID sx = sx_SegmentID psx \<and>
    (if sg_refNum (w_segments w ! sx_segment psx) <s 0
     then k = RootSegmentSpan \<and> sx_SpanID sx = 0 \<and> sx_ParentSpanID sx = -1 \<and> sx_segment sx = length (w_segments w)
     else k = SegmentSpanImpl \<and> sx_SegmentID sx = sx_SegmentID psx \<and> sx_segment sx = sx_segment psx \<and>
       sx_ParentSpanID sx = sx_SpanID psx \<and> sx_SpanID sx = sg_spanIDGenerator (w_segments w ! sx_segment psx) + 1))"
proof -
  let ?ds = "apply_core_opts oo (NewDefaultSpan (e_now e) (Some p))"
  from wf_span [OF assms(1,3), unfolded assms(4)] obtain co f where
    p: "sx_Correlation psx = Some co" "sx_FirstSpan psx = Some f" "sx_segment psx < length (w_segments w)"
    by (auto split: option.splits)
  obtain b w1 where n: "NewSegmentSpan e c ?ds (Some psx) w = (b, w1)" by fastforce
  from NewSegmentSpan_child [OF n assms(2,1) p(3,1,2)] obtain k sx where
    N: "b = length (w_spans w)" "w_spans w1 = w_spans w @ [SegSpan k ?ds sx]" "sx_TraceID sx = sx_TraceID psx"
    "sx_Correlation sx = Some co" "sx_FirstSpan sx = Some f" "sx_ParentSegmentID sx = sx_SegmentID psx"
    "if sg_refNum (w_segments w ! sx_segment psx) <s 0
     then k = RootSegmentSpan \<and> sx_SpanID sx = 0 \<and> sx_ParentSpanID sx = -1 \<and> sx_segment sx = length (w_segments w)
     else k = SegmentSpanImpl \<and> sx_SegmentID sx = sx_SegmentID psx \<and> sx_segment sx = sx_segment psx \<and>
       sx_ParentSpanID sx = sx_SpanID psx \<and> sx_SpanID sx = sg_spanIDGenerator (w_segments w ! sx_segment psx) + 1"
    by blast
  obtain ds' where o: "w_spans (apply_opts opts b w1) = (w_spans w1)[b := SegSpan k ds' sx]" "same_core ?ds ds'"
    using apply_opts_span [OF assms(5), of b w1 k ?ds sx] N(1,2) by auto
  have r: "a = b" "\<not> noop" "w_spans w' = w_spans (apply_opts opts b w1)"
    using assms(4,6) n by (auto simp: createSpan0_def Let_def apply_opts_def [symmetric])
  from N o r p show ?thesis by (intro conjI exI [of _ k] exI [of _ ds'] exI [of _ sx]) (auto simp: N(1))
qed

text \<open>createSpan0 without a parent: a noop span or the root of a new segment, as the sampler says.\<close>

lemma createSpan0_root:
  assumes "wf_world w" "c < length (w_contexts w)" "list_all plugin_opt opts" "e_sampled e"
    and "createSpan0 e c None opts oo w = ((a, noop), w')"
  shows "\<not> noop \<and> a = length (w_spans w) \<and> (\<exists>ds sx. w_spans w' = w_spans w @ [SegSpan RootSegmentSpan ds sx] \<and>
    same_core (apply_core_opts oo (NewDefaultSpan (e_now e) None)) ds \<and>
    sx_segment sx = length (w_segments w) \<and> sx_FirstSpan sx = Some a \<and> sx_SpanID sx = 0 \<and> sx_ParentSpanID sx = -1 \<and>
    sx_ParentSegmentID sx = [] \<and> sx_Correlation sx = Some (length (w_correlations w)) \<and>
    (\<forall>r. co_ref oo = Some r \<longrightarrow> sx_TraceID sx = sc_trace_id r \<and>
       w_correlations w' = w_correlations w @ [newCorrelationContextFrom (sc_correlation r)]))"
proof -
  let ?ds = "apply_core_opts oo (NewDefaultSpan (e_now e) None)"
  obtain b w1 where n: "NewSegmentSpan e c ?ds None w = (b, w1)" by fastforce
  from NewSegmentSpan_root [OF n assms(2,1)] obtain sx where
    N: "b = length (w_spans w)" "w_spans w1 = w_spans w @ [SegSpan RootSegmentSpan ?ds sx]"
    "sx_segment sx = length (w_segments w)" "sx_FirstSpan sx = Some b" "sx_SpanID sx = 0" "sx_ParentSpanID sx = -1"
    "sx_ParentSegmentID sx = []" "sx_Correlation sx = Some (length (w_correlations w))"
    "\<And>r. co_ref oo = Some r \<Longrightarrow> sx_TraceID sx = sc_trace_id r \<and>
       w_correlations w1 = w_correlations w @ [newCorrelationContextFrom (sc_correlation r)]"
    by auto
  obtain ds' where o: "w_spans (apply_opts opts b w1) = (w_spans w1)[b := SegSpan RootSegmentSpan ds' sx]" "same_core ?ds ds'"
    using apply_opts_span [OF assms(3), of b w1 RootSegmentSpan ?ds sx] N(1,2) by auto
  have r: "a = b" "\<not> noop" "w_spans w' = w_spans (apply_opts opts b w1)" "w_correlations w' = w_correlations w1"
    using assms(4,5) n by (auto simp: createSpan0_def Let_def apply_opts_def [symmetric])
  from N o r show ?thesis by (intro conjI exI [of _ ds'] exI [of _ sx]) (auto simp: N(1))
qed

text \<open>createNoop when the goroutine has an active segment span, and when it has no context.\<close>

lemma createNoop_active:
  assumes "ActiveSpan g w = Some p" "w_spans w ! p = SegSpan k ds sx"
  shows "\<exists>c. w_gls w g = Some c \<and> createNoop e g name w = ((Some c, Some p, False), w)"
  using assms by (auto simp: ActiveSpan_def createNoop_def getTracingContext_def split: option.splits)

lemma createNoop_fresh:
  assumes "w_gls w g = None" "e_init e" "\<not> e_disconnected e"
    "\<not> tracerIgnore name (e_ignoreSuffix e) (e_traceIgnorePath e)"
  shows "createNoop e g name w =
    ((Some (length (w_contexts w)), None, False), w\<lparr>w_contexts := w_contexts w @ [NewTracingContext e]\<rparr>)"
  using assms by (simp add: createNoop_def getTracingContext_def new_context_def)

lemma save_simps [simp]:
  "w_spans (saveSpanToActive g c a w) = w_spans w" "w_correlations (saveSpanToActive g c a w) = w_correlations w"
  "w_segments (saveSpanToActive g c a w) = w_segments w" "w_gls (saveSpanToActive g c a w) = (w_gls w)(g := Some c)"
  by (simp_all add: saveSpanToActive_def)

lemma ActiveSpan_save [simp]:
  "c < length (w_contexts w) \<Longrightarrow> ActiveSpan g (saveSpanToActive g c a w) = Some a"
  by (simp add: ActiveSpan_def saveSpanToActive_def getTracingContext_def SetGLS_def SaveActiveSpan_def)

section \<open>Parents and children\<close>

text \<open>
  C37. A span created under an active segment span joins its trace and becomes the active
  span with the old one as its parent: it is a child of the same segment with the parent's
  span id, and, when the segment's root span has already ended, the root of a new
  segment of the same trace that names the old segment as its parent segment.
\<close>

theorem local_span_links:
  assumes "wf_world w" "ActiveSpan g w = Some p" "w_spans w ! p = SegSpan pk pds psx" "list_all plugin_opt opts"
  shows "case CreateLocalSpan e g name opts w of (a, w') \<Rightarrow>
    ActiveSpan g w' = Some a \<and>
    (case w_spans w' ! a of NoopSpan n \<Rightarrow> False
     | SegSpan k ds sx \<Rightarrow>
         ds_Parent ds = Some p \<and> ds_OperationName ds = name \<and> ds_SpanType ds = SpanTypeLocal \<and>
         sx_TraceID sx = sx_TraceID psx \<and> sx_Correlation sx = sx_Correlation psx \<and>
         sx_ParentSegmentID sx = sx_SegmentID psx \<and>
         (if sg_refNum (w_segments w ! sx_segment psx) <s 0
          then k = RootSegmentSpan \<and> sx_SpanID sx = 0 \<and> sx_ParentSpanID sx = -1
          else k = SegmentSpanImpl \<and> sx_SegmentID sx = sx_SegmentID psx \<and> sx_ParentSpanID sx = sx_SpanID psx))"
proof -
  let ?oo = "\<lparr>co_ref = None, co_type = SpanTypeLocal, co_name = name, co_peer = None\<rparr>"
  obtain c where c: "w_gls w g = Some c" "createNoop e g name w = ((Some c, Some p, False), w)"
    using createNoop_active [OF assms(2,3)] by blast
  obtain a b w2 where 2: "createSpan0 e c (Some p) opts ?oo w = ((a, b), w2)" by (metis prod.exhaust)
  have cl: "c < length (w_contexts w)" using wf_gls [OF assms(1)] c(1) by (simp add: getTracingContext_def)
  have pl: "p < length (w_spans w)" using wf_active [OF assms(1,2)] .
  note C = createSpan0_child [OF assms(1) cl pl assms(3,4) 2]
  have "quiet w w2" using quiet_createSpan0 [OF assms(1) cl _ 2] pl by simp
  then have cl2: "c < length (w_contexts (profile_span e False a w2))" using cl by (simp add: quiet_def)
  have r: "CreateLocalSpan e g name opts w = (a, saveSpanToActive g c a (profile_span e False a w2))"
    by (simp add: CreateLocalSpan_def c(2) 2)
  from C obtain k ds sx where w2: "a = length (w_spans w)" "w_spans w2 = w_spans w @ [SegSpan k ds sx]"
    and C': "same_core (apply_core_opts ?oo (NewDefaultSpan (e_now e) (Some p))) ds" "sx_TraceID sx = sx_TraceID psx"
    "sx_Correlation sx = sx_Correlation psx" "sx_ParentSegmentID sx = sx_SegmentID psx"
    "if sg_refNum (w_segments w ! sx_segment psx) <s 0
     then k = RootSegmentSpan \<and> sx_SpanID sx = 0 \<and> sx_ParentSpanID sx = -1
     else k = SegmentSpanImpl \<and> sx_SegmentID sx = sx_SegmentID psx \<and> sx_ParentSpanID sx = sx_SpanID psx"
    by (auto split: if_splits)
  have "w_spans w2 ! a = SegSpan k ds sx" using w2 by simp
  with C' cl2 show ?thesis unfolding r by (simp add: same_core_def)
qed

section \<open>From process to process\<close>

text \<open>An idle goroutine that accepts an operation name: it has no context and the agent is on.\<close>

definition accepts :: "env \<Rightarrow> nat \<Rightarrow> string \<Rightarrow> 'v world \<Rightarrow> bool" where
  "accepts e g name w \<longleftrightarrow> w_gls w g = None \<and> e_init e \<and> \<not> e_disconnected e \<and> e_sampled e \<and>
     \<not> tracerIgnore name (e_ignoreSuffix e) (e_traceIgnorePath e)"

lemma entry_from_ref:
  assumes "wf_world w" "accepts e g name w" "list_all plugin_opt opts"
    and "Decode extractor empty_span_context = (ref, None)" "sc_valid ref"
  shows "\<exists>a ds sx w'. CreateEntrySpan e g name extractor opts w = (Inr a, w') \<and>
    w_spans w' ! a = SegSpan RootSegmentSpan ds sx \<and> ds_Refs ds = [ref] \<and> ds_SpanType ds = SpanTypeEntry \<and>
    sx_TraceID sx = sc_trace_id ref \<and> ActiveSpan g w' = Some a \<and>
    sx_Correlation sx = Some (length (w_correlations w)) \<and>
    w_correlations w' = w_correlations w @ [newCorrelationContextFrom (sc_correlation ref)]"
proof -
  let ?w1 = "w\<lparr>w_contexts := w_contexts w @ [NewTracingContext e]\<rparr>"
  let ?c = "length (w_contexts w)"
  let ?oo = "\<lparr>co_ref = Some ref, co_type = SpanTypeEntry, co_name = name, co_peer = None\<rparr>"
  have wf1: "wf_world ?w1" "?c < length (w_contexts ?w1)"
    using assms(1) by (auto intro!: wf_add_context simp: NewTracingContext_def)
  obtain a b w2 where 2: "createSpan0 e ?c None opts ?oo ?w1 = ((a, b), w2)" by (metis prod.exhaust)
  have N: "createNoop e g name w = ((Some ?c, None, False), ?w1)"
    using assms(2) by (intro createNoop_fresh) (auto simp: accepts_def)
  have s: "e_sampled e" using assms(2) by (simp add: accepts_def)
  from createSpan0_root [OF wf1 assms(3) s 2] obtain ds sx where
    C: "a = length (w_spans w)" "w_spans w2 = w_spans w @ [SegSpan RootSegmentSpan ds sx]"
    "same_core (apply_core_opts ?oo (NewDefaultSpan (e_now e) None)) ds" "sx_TraceID sx = sc_trace_id ref"
    "sx_Correlation sx = Some (length (w_correlations w))"
    "w_correlations w2 = w_correlations w @ [newCorrelationContextFrom (sc_correlation ref)]" by auto
  have "quiet ?w1 w2" using quiet_createSpan0 [OF wf1 _ 2] by simp
  then have cl: "?c < length (w_contexts (profile_span e True a w2))" by (simp add: quiet_def)
  have "CreateEntrySpan e g name extractor opts w = (Inr a, saveSpanToActive g ?c a (profile_span e True a w2))"
    using N 2 assms(4,5) by (simp add: CreateEntrySpan_def)
  with C cl show ?thesis by (auto simp: same_core_def)
qed

lemma exit_context_cong:
  "w_spans w = w_spans w' \<Longrightarrow> w_correlations w = w_correlations w' \<Longrightarrow> exit_context e peer sx w = exit_context e peer sx w'"
  by (auto simp: exit_context_def split: option.split)

lemma exit_new_span:
  assumes "wf_world w" "CreateExitSpan e g name peer injector ks opts cr w = (Inr a, cr', w')"
    and "a = length (w_spans w)" "w_spans w' ! a = SegSpan k ds sx"
  shows "Encode injector ks (exit_context e peer sx w') cr = (cr', None)"
proof -
  obtain ctx span noop w1 where 1: "createNoop e g name w = ((ctx, span, noop), w1)"
    by (metis prod.exhaust)
  obtain b x w2 where 2: "createSpan0 e (the ctx) span opts
      \<lparr>co_ref = None, co_type = SpanTypeExit, co_name = name, co_peer = Some peer\<rparr> w1 = ((b, x), w2)"
    by (metis prod.exhaust)
  note N = wf_createNoop [OF assms(1) 1]
  show ?thesis
  proof (cases noop)
    case True
    with assms(2) 1 have "span = Some a" "w' = w1" using N by (auto simp: CreateExitSpan_def)
    with 1 True assms(3,4) show ?thesis
      using wf_active [OF assms(1), of g a]
      by (auto simp: createNoop_def alloc_span_def ActiveSpan_def newNoopSpan_def log_so11y_def
          new_context_def Let_def split: option.splits tspan.splits if_splits)
  next
    case False
    show ?thesis
    proof (cases "case span of None \<Rightarrow> False | Some a \<Rightarrow> reusable SpanTypeExit (w_spans w1 ! a)")
      case True
      with assms(2) 1 False have "span = Some a" by (auto simp: CreateExitSpan_def Let_def split: option.splits)
      with N False assms(3) show ?thesis by auto
    next
      case nr: False
      show ?thesis
      proof (cases "w_spans w2 ! b")
        case (NoopSpan n)
        with assms 1 2 False nr show ?thesis by (auto simp: CreateExitSpan_def Let_def)
      next
        case (SegSpan k' ds' sx')
        obtain cr1 err where E: "Encode injector ks (exit_context e peer sx' w2) cr = (cr1, err)" by fastforce
        from assms(2) 1 2 False nr SegSpan E have "err = None" "a = b" "cr' = cr1" "w' = saveSpanToActive g (the ctx) b w2"
          by (auto simp: CreateExitSpan_def Let_def split: option.splits)
        with SegSpan assms(4) E exit_context_cong [of w2 w'] show ?thesis by simp
      qed
    qed
  qed
qed

text \<open>
  C3. A trace crosses processes through a Kafka message: when a producer's new exit span
  wrote its headers to the i-th message, the consumer that reads that message in an idle
  goroutine gets the root span of a segment in the producer's trace, with one reference that
  names the producer's segment, span, service and instance, and with the producer's
  correlation values.
\<close>

theorem kafka_trace_propagates:
  assumes "wf_world w1" "CreateExitSpan e1 g1 name1 peer kafka_injector ks opts1 msgs w1 = (Inr a, msgs', w1')"
    and "a = length (w_spans w1)" "w_spans w1' ! a = SegSpan k ds sx" "0 \<le> sint (sx_SpanID sx)"
    and "range_order ks (sc_correlation (exit_context e1 peer sx w1'))"
    and "kafka_fresh i Header msgs" "kafka_fresh i HeaderCorrelation msgs"
    and "wf_world w2" "accepts e2 g2 name2 w2" "list_all plugin_opt opts2"
  shows "\<exists>b ds' sx' w2'. CreateEntrySpan e2 g2 name2 (kafka_extractor (msgs' ! i)) opts2 w2 = (Inr b, w2') \<and>
    w_spans w2' ! b = SegSpan RootSegmentSpan ds' sx' \<and> sx_TraceID sx' = sx_TraceID sx \<and>
    map sc_parent_segment_id (ds_Refs ds') = [sx_SegmentID sx] \<and>
    map sc_parent_span_id (ds_Refs ds') = [sx_SpanID sx] \<and>
    map sc_parent_service (ds_Refs ds') = [e_service e1] \<and>
    map sc_parent_service_instance (ds_Refs ds') = [e_instance e1] \<and>
    cc_map (w_correlations w2' ! the (sx_Correlation sx')) = sc_correlation (exit_context e1 peer sx w1')"
proof -
  let ?s = "exit_context e1 peer sx w1'"
  have E: "Encode kafka_injector ks ?s msgs = (msgs', None)"
    using exit_new_span [OF assms(1-4)] .
  have nn: "0 \<le> sint (sc_sample ?s)" "0 \<le> sint (sc_parent_span_id ?s)" using assms(5) by (simp_all add: exit_context_def)
  have D: "Decode (kafka_extractor (msgs' ! i)) empty_span_context = (?s\<lparr>sc_valid := True\<rparr>, None)"
    using kafka.decode_encode [OF assms(7,8) nn assms(6)] E by simp
  from entry_from_ref [OF assms(9,10,11) D] obtain b ds' sx' w2' where
    R: "CreateEntrySpan e2 g2 name2 (kafka_extractor (msgs' ! i)) opts2 w2 = (Inr b, w2')"
    "w_spans w2' ! b = SegSpan RootSegmentSpan ds' sx'" "ds_Refs ds' = [?s\<lparr>sc_valid := True\<rparr>]"
    "sx_TraceID sx' = sc_trace_id ?s" "sx_Correlation sx' = Some (length (w_correlations w2))"
    "w_correlations w2' = w_correlations w2 @ [newCorrelationContextFrom (sc_correlation ?s)]" by auto
  have "finite (dom (sc_correlation ?s))" using assms(6) by (metis List.finite_set range_order_def)
  then have "cc_map (newCorrelationContextFrom (sc_correlation ?s)) = sc_correlation ?s"
    by (simp add: newCorrelationContextFrom_def)
  with R show ?thesis by (auto simp: exit_context_def)
qed

section \<open>From goroutine to goroutine\<close>

lemma ensure_context_gls:
  "ensure_context e g w = (c, w') \<Longrightarrow> w_gls w' g = Some c \<and> w_spans w' = w_spans w \<and> w_correlations w' = w_correlations w
    \<and> w_segments w' = w_segments w"
  by (auto simp: ensure_context_def getTracingContext_def new_context_def Let_def split: option.splits)

lemma ContinueContext_active:
  assumes "wf_world w"
  shows "ActiveSpan g (ContinueContext e g (Some (s, r)) w) = s \<and>
    w_spans (ContinueContext e g (Some (s, r)) w) = w_spans w \<and>
    w_correlations (ContinueContext e g (Some (s, r)) w) = w_correlations w \<and>
    w_segments (ContinueContext e g (Some (s, r)) w) = w_segments w \<and>
    GetRuntimeContextValue g key (ContinueContext e g (Some (s, r)) w) = rc_Get (Some (rc_clone (Some r))) key"
proof -
  obtain c w1 where 1: "ensure_context e g w = (c, w1)" by fastforce
  note C = wf_ensure_context [OF assms 1] ensure_context_gls [OF 1]
  then show ?thesis
    by (simp add: ContinueContext_def 1 ActiveSpan_def getTracingContext_def set_runtime_def SaveActiveSpan_def
        GetRuntimeContextValue_def)
qed

text \<open>
  C38. A captured context carries the trace to another goroutine: after g captured and g'
  continued, the active span of g' is a snapshot with the trace, segment and span id of
  the active span of g, so a span that g' creates has that span as its parent; its
  correlation values are a copy in a store of their own; and g' reads the runtime values g
  had at the capture.
\<close>

theorem capture_continue:
  assumes "wf_world w" "ActiveSpan g w = Some p" "w_spans w ! p = SegSpan k ds sx" "ds_EndTime ds = None"
    and "tc_Runtime (w_contexts w ! the (w_gls w g)) = r" "rc_wf r"
    and "finite (dom (cc_map (w_correlations w ! the (sx_Correlation sx))))"
  shows "case CaptureContext g w of (snap, w1) \<Rightarrow> case ContinueContext e g' snap w1 of w2 \<Rightarrow>
    (case ActiveSpan g' w2 of None \<Rightarrow> False | Some s \<Rightarrow>
      (case w_spans w2 ! s of NoopSpan n \<Rightarrow> False | SegSpan k' ds' sx' \<Rightarrow>
        k' = SnapshotSpan \<and> sx_TraceID sx' = sx_TraceID sx \<and> sx_SegmentID sx' = sx_SegmentID sx \<and>
        sx_SpanID sx' = sx_SpanID sx \<and> sx_segment sx' = sx_segment sx \<and>
        sx_Correlation sx' \<noteq> sx_Correlation sx \<and>
        cc_map (w_correlations w2 ! the (sx_Correlation sx')) = cc_map (w_correlations w ! the (sx_Correlation sx)))) \<and>
    GetRuntimeContextValue g' key w2 = GetRuntimeContextValue g key w"
proof -
  obtain c where c: "w_gls w g = Some c" using assms(2) by (auto simp: ActiveSpan_def getTracingContext_def split: option.splits)
  from wf_span [OF assms(1) wf_active [OF assms(1,2)], unfolded assms(3)] obtain co where
    co: "sx_Correlation sx = Some co" "co < length (w_correlations w)" by (auto split: option.splits)
  let ?cc = "cc_Clone (Some (w_correlations w ! co))"
  let ?ds = "(NewDefaultSpan 0 None)\<lparr>ds_SpanType := SpanTypeEntry, ds_OperationName := ds_OperationName ds, ds_Peer := ds_Peer ds\<rparr>"
  let ?s = "SegSpan SnapshotSpan ?ds (sx\<lparr>sx_ParentSpanID := 0, sx_ParentSegmentID := [], sx_Correlation := Some (length (w_correlations w))\<rparr>)"
  let ?w1 = "w\<lparr>w_correlations := w_correlations w @ [?cc], w_spans := w_spans w @ [?s]\<rparr>"
  have cap: "CaptureContext g w = (Some (Some (length (w_spans w)), rc_clone (Some r)), ?w1)"
    using c assms(2-5) co(1)
    by (simp add: CaptureContext_def getTracingContext_def newSnapshotSpan_def IsValid_def alloc_span_def
        alloc_correlation_def)
  have "newSnapshotSpan (ActiveSpan g w) w = (Some (length (w_spans w)), ?w1)"
    using assms(2-4) co(1) by (simp add: newSnapshotSpan_def IsValid_def alloc_span_def alloc_correlation_def)
  then have wf1: "wf_world ?w1" using wf_newSnapshotSpan [OF assms(1) wf_ActiveSpan [OF assms(1)]] by blast
  have clone: "cc_map ?cc = cc_map (w_correlations w ! co)" using assms(7) co(1) by (simp add: cc_map_Clone)
  have fin: "finite (dom (rc_map r))" using assms(6) by (simp add: rc_wf_def)
  have "GetRuntimeContextValue g key w = rc_Get (Some r) key"
    using c assms(5) by (simp add: GetRuntimeContextValue_def getTracingContext_def)
  moreover have "rc_Get (Some (rc_clone (Some (rc_clone (Some r))))) key = rc_Get (Some r) key"
    using fin by (simp add: rc_Get_def rc_map_clone)
  ultimately show ?thesis
    unfolding cap using ContinueContext_active [OF wf1, of g' e "Some (length (w_spans w))" "rc_clone (Some r)" key]
      clone co by simp
qed

section \<open>The nesting discipline\<close>

text \<open>A program that creates a local span, runs its children and ends the span.\<close>

datatype span_tree = Node string "mutation list" "span_tree list"

fun run_tree :: "env \<Rightarrow> nat \<Rightarrow> span_tree \<Rightarrow> 'v world \<Rightarrow> 'v world" where
  "run_tree e g (Node name opts kids) w =
     (let (a, w) = CreateLocalSpan e g name opts w;
          w = fold (run_tree e g) kids w
      in case SpanEnd e g a w of Inr w \<Rightarrow> w | Inl _ \<Rightarrow> w)"

fun plugin_tree :: "span_tree \<Rightarrow> bool" where
  "plugin_tree (Node name opts kids) = (list_all plugin_opt opts \<and> list_all plugin_tree kids)"

definition noop_counted :: "nat \<Rightarrow> 'v world \<Rightarrow> bool" where
  "noop_counted g w \<longleftrightarrow> (case ActiveSpan g w of None \<Rightarrow> True
     | Some a \<Rightarrow> (case w_spans w ! a of NoopSpan n \<Rightarrow> n \<ge> 1 | SegSpan k ds sx \<Rightarrow> True))"

text \<open>What a finished subtree leaves: old spans as they were, the active span, the context.\<close>

definition balanced :: "nat \<Rightarrow> 'v world \<Rightarrow> 'v world \<Rightarrow> bool" where
  "balanced g w w' \<longleftrightarrow> wf_world w' \<and> length (w_spans w) \<le> length (w_spans w') \<and>
     (\<forall>i<length (w_spans w). w_spans w' ! i = w_spans w ! i) \<and> ActiveSpan g w' = ActiveSpan g w \<and>
     (\<forall>c. w_gls w g = Some c \<longrightarrow> w_gls w' g = Some c)"

lemma balanced_refl: "wf_world w \<Longrightarrow> balanced g w w" by (simp add: balanced_def)

lemma balanced_trans: "balanced g w1 w2 \<Longrightarrow> balanced g w2 w3 \<Longrightarrow> balanced g w1 w3"
  by (auto simp: balanced_def)

lemma balanced_counted: "balanced g w w' \<Longrightarrow> wf_world w \<Longrightarrow> noop_counted g w \<Longrightarrow> noop_counted g w'"
  using wf_active [of w g] by (auto simp: balanced_def noop_counted_def split: option.splits)

text \<open>The three ways a local span is created.\<close>

lemma create_local_cases:
  assumes "wf_world w" "noop_counted g w" "list_all plugin_opt opts" "CreateLocalSpan e g name opts w = (a, w')"
  obtains (nested) n where "ActiveSpan g w = Some a" "w_spans w ! a = NoopSpan n" "n \<ge> 1"
      "w' = w\<lparr>w_spans := (w_spans w)[a := NoopSpan (n + 1)]\<rparr>"
  | (noop) "a = length (w_spans w)" "w_spans w' = w_spans w @ [NoopSpan 1]" "ActiveSpan g w = None"
      "wf_world w'" "\<And>c. w_gls w g = Some c \<Longrightarrow> w_gls w' g = Some c" "ActiveSpan g w' = None \<or> ActiveSpan g w' = Some a"
  | (span) k ds sx where "a = length (w_spans w)" "w_spans w' = w_spans w @ [SegSpan k ds sx]" "k \<noteq> SnapshotSpan"
      "ds_Parent ds = ActiveSpan g w" "\<not> ds_ended ds" "ds_EndTime ds = None" "ds_reuseCount ds = 0" "\<not> ds_InAsyncMode ds"
      "wf_world w'" "\<And>c. w_gls w g = Some c \<Longrightarrow> w_gls w' g = Some c" "ActiveSpan g w' = Some a"
proof -
  let ?oo = "\<lparr>co_ref = None, co_type = SpanTypeLocal, co_name = name, co_peer = None\<rparr>"
  obtain ctx sp noop w1 where 1: "createNoop e g name w = ((ctx, sp, noop), w1)" by (metis prod.exhaust)
  note N = wf_createNoop [OF assms(1) 1]
  have wf': "wf_world w'" using wf_CreateLocalSpan [OF assms(1,4)] by simp
  show ?thesis
  proof (cases noop)
    case True
    with assms(4) 1 have a: "a = the sp" "w' = w1" by (simp_all add: CreateLocalSpan_def)
    show ?thesis
    proof (cases "getTracingContext g w")
      case None
      with 1 True have "w_spans w' = w_spans w @ [NoopSpan 1]" "a = length (w_spans w)" "w_gls w' = w_gls w"
        using a by (auto simp: createNoop_def alloc_span_def newNoopSpan_def log_so11y_def new_context_def Let_def split: if_splits)
      with None wf' show ?thesis by (intro noop) (auto simp: ActiveSpan_def getTracingContext_def)
    next
      case (Some c)
      with 1 True a have "\<exists>n. tc_activeSpan (w_contexts w ! c) = Some a \<and> w_spans w ! a = NoopSpan n
          \<and> w' = w\<lparr>w_spans := (w_spans w)[a := NoopSpan (n + 1)]\<rparr>"
        by (cases "tc_activeSpan (w_contexts w ! c)"; cases sp) (auto simp: createNoop_def split: tspan.splits)
      then obtain n where n: "tc_activeSpan (w_contexts w ! c) = Some a" "w_spans w ! a = NoopSpan n"
        "w' = w\<lparr>w_spans := (w_spans w)[a := NoopSpan (n + 1)]\<rparr>" by blast
      have act: "ActiveSpan g w = Some a" using Some n by (simp add: ActiveSpan_def)
      moreover have "n \<ge> 1" using assms(2) act n by (simp add: noop_counted_def)
      ultimately show ?thesis using n by (intro nested)
    qed
  next
    case False
    then obtain c where c: "ctx = Some c" "c < length (w_contexts w1)" "w_gls w g = Some c \<or> w_gls w g = None"
      using N by (cases ctx) auto
    have N': "wf_world w1" "w_gls w1 = w_gls w" "w_spans w1 = w_spans w" "sp = ActiveSpan g w"
      using N False by auto
    obtain b x w2 where 2: "createSpan0 e c sp opts ?oo w1 = ((b, x), w2)" by (metis prod.exhaust)
    have q: "quiet w1 w2" using quiet_createSpan0 [OF N'(1) c(2) _ 2] N by simp
    then have cl: "c < length (w_contexts (profile_span e False b w2))" using c(2) by (simp add: quiet_def)
    have r: "a = b" "w' = saveSpanToActive g c b (profile_span e False b w2)"
      using assms(4) 1 2 False c by (auto simp: CreateLocalSpan_def)
    have act: "ActiveSpan g w' = Some a" using r cl by simp
    have gls: "w_gls w' g = Some c" using r by simp
    show ?thesis
    proof (cases sp)
      case None
      show ?thesis
      proof (cases "e_sampled e")
        case True
        from createSpan0_root [OF N'(1) c(2) assms(3) True] 2 None obtain ds sx where
          "b = length (w_spans w1)" "w_spans w2 = w_spans w1 @ [SegSpan RootSegmentSpan ds sx]"
          "same_core (apply_core_opts ?oo (NewDefaultSpan (e_now e) None)) ds" by blast
        with N' r act gls c None wf' show ?thesis by (intro span) (auto simp: same_core_def)
      next
        case ns: False
        with 2 None have "w_spans w2 = w_spans w1 @ [NoopSpan 1]" "b = length (w_spans w1)"
          by (auto simp: createSpan0_def alloc_span_def newNoopSpan_def log_so11y_def)
        with N' r act gls c None wf' show ?thesis by (intro noop) auto
      qed
    next
      case (Some p)
      then obtain pk pds psx where p: "w_spans w1 ! p = SegSpan pk pds psx"
        using N False by (cases "w_spans w1 ! p") auto
      have pl: "p < length (w_spans w1)" using N Some by simp
      from createSpan0_child [OF N'(1) c(2) pl p assms(3) 2 [unfolded Some]] obtain k ds sx where
        C: "b = length (w_spans w1)" "w_spans w2 = w_spans w1 @ [SegSpan k ds sx]" "k \<noteq> SnapshotSpan"
        "same_core (apply_core_opts ?oo (NewDefaultSpan (e_now e) (Some p))) ds"
        by (auto split: if_splits)
      with N' r act gls c Some wf' show ?thesis by (intro span) (auto simp: same_core_def)
    qed
  qed
qed

lemma ActiveSpan_set_spans [simp]: "ActiveSpan g (w\<lparr>w_spans := ss\<rparr>) = ActiveSpan g w"
  by (simp add: ActiveSpan_def getTracingContext_def cong: option.case_cong)

lemma balanced_active: "balanced g w w' \<Longrightarrow> ActiveSpan g w = ActiveSpan g w'"
  by (simp add: balanced_def)

lemma restore_active_ActiveSpan:
  "wf_world w \<Longrightarrow> w_gls w g = Some c \<Longrightarrow> ActiveSpan g (restore_active g p w) = p"
  using wf_gls [of w g c]
  by (simp add: restore_active_def getTracingContext_def ActiveSpan_def SaveActiveSpan_def)

lemma restore_active_none: "w_gls w g = None \<Longrightarrow> restore_active g p w = w"
  by (simp add: restore_active_def getTracingContext_def)

lemma end_noop_balanced:
  assumes "balanced g w1 w2" "wf_world w" "w_spans w1 = w_spans w @ [NoopSpan 1]" "ActiveSpan g w = None"
    and "\<And>c. w_gls w g = Some c \<Longrightarrow> w_gls w1 g = Some c" "SpanEnd e g (length (w_spans w)) w2 = Inr w'"
  shows "balanced g w w'"
proof -
  let ?a = "length (w_spans w)"
  have a: "?a < length (w_spans w2)" "w_spans w2 ! ?a = NoopSpan 1" using assms(1,3) by (auto simp: balanced_def)
  have wf2: "wf_world w2" using assms(1) by (simp add: balanced_def)
  let ?w3 = "log_so11y (TracingContextCompletion True) (w2\<lparr>w_spans := (w_spans w2)[?a := NoopSpan 0]\<rparr>)"
  have w': "w' = restore_active g None ?w3" using assms(6) a(2) by (simp add: SpanEnd_def noop_End_def)
  have wf3: "wf_world ?w3" using wf_set_span [OF wf2, of "NoopSpan 0" ?a] by simp
  have act: "ActiveSpan g w' = None"
  proof (cases "w_gls w2 g")
    case None
    then show ?thesis unfolding w' by (simp add: restore_active_none) (simp add: ActiveSpan_def getTracingContext_def)
  next
    case (Some c)
    then show ?thesis unfolding w' using restore_active_ActiveSpan [OF wf3, of g c None] by simp
  qed
  have "wf_world w'" using wf_SpanEnd [OF wf2 a(1) assms(6)] by simp
  with assms(1,3-5) act show ?thesis
    unfolding w' by (auto simp: balanced_def nth_append)
qed

lemma end_span_balanced:
  assumes "balanced g w1 w2" "wf_world w" "w_spans w1 = w_spans w @ [SegSpan k ds sx]" "k \<noteq> SnapshotSpan"
    and "ds_Parent ds = ActiveSpan g w" "\<not> ds_ended ds" "ds_EndTime ds = None" "ds_reuseCount ds = 0" "\<not> ds_InAsyncMode ds"
    and "\<And>c. w_gls w g = Some c \<Longrightarrow> w_gls w1 g = Some c" "ActiveSpan g w1 = Some (length (w_spans w))"
    and "SpanEnd e g (length (w_spans w)) w2 = Inr w'"
  shows "balanced g w w'"
proof -
  let ?a = "length (w_spans w)"
  have a: "?a < length (w_spans w2)" "w_spans w2 ! ?a = SegSpan k ds sx" using assms(1,3) by (auto simp: balanced_def)
  have wf2: "wf_world w2" using assms(1) by (simp add: balanced_def)
  let ?ds = "ds\<lparr>ds_EndTime := Some (e_now e), ds_ended := True\<rparr>"
  let ?w3 = "log_so11y (TracingContextCompletion False) (w2\<lparr>w_spans := (w_spans w2)[?a := SegSpan k ?ds sx]\<rparr>)"
  have E: "endSyncAndFreeze (e_now e) ds = (?ds, True, True)"
    using assms(6-9) by (simp add: endSyncAndFreeze_def)
  have w': "w' = end0 ?a k sx (restore_active g (ds_Parent ds) ?w3)"
    using assms(4,8,12) a(2) E by (simp add: SpanEnd_def)
  have "ActiveSpan g w2 = Some ?a" using assms(1,11) by (simp add: balanced_def)
  then obtain c where c: "w_gls w2 g = Some c" by (auto simp: ActiveSpan_def getTracingContext_def split: option.splits)
  have wf3: "wf_world ?w3" using wf_set_span [OF wf2, of "SegSpan k ?ds sx" ?a] wf_span [OF wf2 a(1)] a(2) by simp
  have "ActiveSpan g w' = ds_Parent ds"
    unfolding w' using restore_active_ActiveSpan [OF wf3, of g c "ds_Parent ds"] c
    by (simp add: ActiveSpan_def getTracingContext_def)
  moreover have "wf_world w'" using wf_SpanEnd [OF wf2 a(1) assms(12)] by simp
  ultimately show ?thesis
    using assms(1,3,5,10) unfolding w' by (auto simp: balanced_def nth_append)
qed

lemma SpanEnd_Inr: "w_spans w ! a = SegSpan k ds sx \<Longrightarrow> k \<noteq> SnapshotSpan \<Longrightarrow> \<exists>w'. SpanEnd e g a w = Inr w'"
  "w_spans w ! a = NoopSpan n \<Longrightarrow> \<exists>w'. SpanEnd e g a w = Inr w'"
  by (simp_all add: SpanEnd_def Let_def split_beta)

lemma run_tree_balanced:
  "wf_world w \<Longrightarrow> noop_counted g w \<Longrightarrow> plugin_tree t \<Longrightarrow> balanced g w (run_tree e g t w)"
proof (induction t arbitrary: w)
  case (Node name opts kids)
  have forest: "balanced g v (fold (run_tree e g) ts v)"
    if "wf_world v" "noop_counted g v" "set ts \<subseteq> set kids" for v :: "'a world" and ts
    using that
  proof (induction ts arbitrary: v)
    case Nil
    then show ?case by (simp add: balanced_refl)
  next
    case (Cons t ts)
    have pt: "plugin_tree t" using Node.prems(3) Cons.prems(3) by (auto simp: list_all_iff)
    have b: "balanced g v (run_tree e g t v)" using Node.IH [of t v] Cons.prems pt by auto
    with Cons.IH [of "run_tree e g t v"] Cons.prems balanced_counted [OF b] balanced_trans [OF b]
    show ?case by (simp add: balanced_def [of g v "run_tree e g t v"])
  qed
  obtain a w1 where 1: "CreateLocalSpan e g name opts w = (a, w1)" by fastforce
  let ?w2 = "fold (run_tree e g) kids w1"
  have run: "run_tree e g (Node name opts kids) w = (case SpanEnd e g a ?w2 of Inr w \<Rightarrow> w | Inl _ \<Rightarrow> ?w2)"
    by (simp add: 1 Let_def)
  have po: "list_all plugin_opt opts" using Node.prems(3) by simp
  show ?case
    using Node.prems(1,2) po 1
  proof (cases rule: create_local_cases)
    case (nested n)
    have al: "a < length (w_spans w)" using wf_active [OF Node.prems(1) nested(1)] .
    have wf1: "wf_world w1" using wf_set_span [OF Node.prems(1)] nested(4) by simp
    have act1: "ActiveSpan g w1 = Some a" using nested(1,4) by simp
    have sp1: "w_spans w1 ! a = NoopSpan (n + 1)" using al nested(4) by simp
    then have "noop_counted g w1" using act1 nested(3) by (simp add: noop_counted_def)
    from forest [OF wf1 this] have b: "balanced g w1 ?w2" by simp
    have sp2: "w_spans ?w2 ! a = NoopSpan (n + 1)" "a < length (w_spans ?w2)"
      using b sp1 al nested(4) by (auto simp: balanced_def)
    have "SpanEnd e g a ?w2 = Inr (?w2\<lparr>w_spans := (w_spans ?w2)[a := NoopSpan n]\<rparr>)"
      using sp2 nested(3) by (simp add: SpanEnd_def noop_End_def)
    with run have r: "run_tree e g (Node name opts kids) w = ?w2\<lparr>w_spans := (w_spans ?w2)[a := NoopSpan n]\<rparr>" by simp
    have "wf_world (?w2\<lparr>w_spans := (w_spans ?w2)[a := NoopSpan n]\<rparr>)"
      using b by (intro wf_set_span) (simp_all add: balanced_def)
    with b nested al act1 show ?thesis
      unfolding r by (auto simp: balanced_def nth_list_update)
  next
    case noop
    have "noop_counted g w1" using noop(1,2,6) by (auto simp: noop_counted_def nth_append)
    from forest [OF noop(4) this] have b: "balanced g w1 ?w2" by simp
    then have "w_spans ?w2 ! a = NoopSpan 1" using noop(1,2) by (auto simp: balanced_def)
    then obtain w' where E: "SpanEnd e g a ?w2 = Inr w'" using SpanEnd_Inr(2) by blast
    from end_noop_balanced [OF b Node.prems(1) noop(2,3,5)] E noop(1) run show ?thesis by simp
  next
    case (span k ds sx)
    have "noop_counted g w1" using span(1,2,11) by (simp add: noop_counted_def)
    from forest [OF span(9) this] have b: "balanced g w1 ?w2" by simp
    then have "w_spans ?w2 ! a = SegSpan k ds sx" using span(1,2) by (auto simp: balanced_def)
    then obtain w' where E: "SpanEnd e g a ?w2 = Inr w'" using SpanEnd_Inr(1) span(3) by blast
    from end_span_balanced [OF b Node.prems(1) span(2-8) span(10) _ E [unfolded span(1)]] span(11,1) E run
    show ?thesis by simp
  qed
qed


section \<open>Ignored operations\<close>

text \<open>
  An ignored operation name suppresses one span, not a segment: a goroutine without a
  context gets a noop span and stays without one, so its next span is judged on its own
  name; and a goroutine that already has a context, as it keeps after its last span ended,
  starts a recorded root span for the same ignored name.
\<close>

theorem ignore_is_per_span:
  assumes "wf_world w" "list_all plugin_opt opts" "e_sampled e"
    and "tracerIgnore name (e_ignoreSuffix e) (e_traceIgnorePath e)"
  shows "case CreateLocalSpan e g name opts w of (a, w') \<Rightarrow>
    (case w_gls w g of
       None \<Rightarrow> w_spans w' ! a = NoopSpan 1 \<and> w_gls w' g = None
     | Some c \<Rightarrow> (case ActiveSpan g w of
           Some p \<Rightarrow> True
         | None \<Rightarrow> (case w_spans w' ! a of NoopSpan n \<Rightarrow> False
             | SegSpan k ds sx \<Rightarrow> k = RootSegmentSpan \<and> ds_OperationName ds = name)))"
proof (cases "w_gls w g")
  case None
  then show ?thesis
    using assms(4) by (auto simp: CreateLocalSpan_def createNoop_def getTracingContext_def alloc_span_def
        newNoopSpan_def log_so11y_def)
next
  case (Some c)
  show ?thesis
  proof (cases "ActiveSpan g w")
    case None
    let ?oo = "\<lparr>co_ref = None, co_type = SpanTypeLocal, co_name = name, co_peer = None\<rparr>"
    have cl: "c < length (w_contexts w)" using wf_gls [OF assms(1)] Some by (simp add: getTracingContext_def)
    have n: "createNoop e g name w = ((Some c, None, False), w)"
      using Some None by (simp add: createNoop_def ActiveSpan_def getTracingContext_def)
    obtain a b w2 where 2: "createSpan0 e c None opts ?oo w = ((a, b), w2)" by (metis prod.exhaust)
    from createSpan0_root [OF assms(1) cl assms(2,3) 2] obtain ds sx where
      C: "a = length (w_spans w)" "w_spans w2 = w_spans w @ [SegSpan RootSegmentSpan ds sx]"
      "same_core (apply_core_opts ?oo (NewDefaultSpan (e_now e) None)) ds" by blast
    have "CreateLocalSpan e g name opts w = (a, saveSpanToActive g c a (profile_span e False a w2))"
      by (simp add: CreateLocalSpan_def n 2)
    with C Some None show ?thesis by (simp add: same_core_def)
  next
    case (Some p)
    with \<open>w_gls w g = Some c\<close> show ?thesis by (simp add: split_beta)
  qed
qed

section \<open>The correlation limits\<close>


section \<open>A failing injector\<close>

text \<open>
  When the injector of an exit span fails, CreateExitSpan returns the error, and the
  active span is as before, but the span it made stays registered: refNum of the segment has
  grown, while nobody holds the span to end it.
\<close>

theorem exit_error_leaks_span:
  assumes "wf_world w" "ActiveSpan g w = Some p" "w_spans w ! p = SegSpan pk pds psx" "list_all plugin_opt opts"
    and "\<not> sg_refNum (w_segments w ! sx_segment psx) <s 0"
    and "CreateExitSpan e g name peer injector ks opts cr w = (Inl err, cr', w')"
  shows "ActiveSpan g w' = Some p \<and>
    sg_refNum (w_segments w' ! sx_segment psx) = sg_refNum (w_segments w ! sx_segment psx) + 1 \<and>
    (case w_spans w' ! length (w_spans w) of NoopSpan n \<Rightarrow> False
     | SegSpan k ds sx \<Rightarrow> k = SegmentSpanImpl \<and> sx_segment sx = sx_segment psx \<and> ds_EndTime ds = None)"
proof -
  let ?oo = "\<lparr>co_ref = None, co_type = SpanTypeExit, co_name = name, co_peer = Some peer\<rparr>"
  obtain c where c: "w_gls w g = Some c" "createNoop e g name w = ((Some c, Some p, False), w)"
    using createNoop_active [OF assms(2,3)] by blast
  obtain a b w2 where 2: "createSpan0 e c (Some p) opts ?oo w = ((a, b), w2)" by (metis prod.exhaust)
  have cl: "c < length (w_contexts w)" using wf_gls [OF assms(1)] c(1) by (simp add: getTracingContext_def)
  have pl: "p < length (w_spans w)" using wf_active [OF assms(1,2)] .
  have sl: "sx_segment psx < length (w_segments w)" using wf_span [OF assms(1) pl] assms(3) by simp
  from createSpan0_child [OF assms(1) cl pl assms(3,4) 2] assms(5) obtain ds sx where
    C: "a = length (w_spans w)" "w_spans w2 = w_spans w @ [SegSpan SegmentSpanImpl ds sx]"
    "same_core (apply_core_opts ?oo (NewDefaultSpan (e_now e) (Some p))) ds" "sx_segment sx = sx_segment psx" by auto
  have q: "quiet w w2" using quiet_createSpan0 [OF assms(1) cl _ 2] pl by simp
  have w': "w' = w2"
    using assms(6) c 2 C(1,2) by (auto simp: CreateExitSpan_def Let_def split: if_splits prod.splits option.splits)
  have "sg_refNum (w_segments w2 ! sx_segment psx) = sg_refNum (w_segments w ! sx_segment psx) + 1"
    using 2 assms(3,5) sl wf_span [OF assms(1) pl]
    by (auto simp: createSpan0_def NewSegmentSpan_def createSegmentContext_def segmentRegister_def alloc_span_def
        Let_def log_so11y_def apply_opts_def [symmetric] split: option.splits prod.splits if_splits)
  with C q assms(2) quiet_ActiveSpan [OF q, of g] show ?thesis by (simp add: w' same_core_def)
qed

section \<open>Concrete runs\<close>

definition sample_env :: env where
  "sample_env = \<lparr>e_now = 5, e_clock = 7, e_goid = 1, e_uuid = ''ab'', e_sampled = True, e_init = True,
     e_disconnected = False, e_ignoreSuffix = [''.html''], e_traceIgnorePath = [], e_service = ''svc'',
     e_instance = ''i1'', e_MaxKeyCount = 3, e_MaxValueSize = 128, e_profileTarget = (\<lambda>_. False), e_profiling = False\<rparr>"

definition one_span :: "nat world" where
  "one_span = snd (CreateLocalSpan sample_env 0 ''op'' [] empty_world)"

lemma one_span_reach: "op_step\<^sup>*\<^sup>* empty_world one_span"
  unfolding one_span_def by (rule r_into_rtranclp, rule o_local)

lemma wf_one_span: "wf_world one_span"
  using wf_op_step [OF o_local wf_empty] unfolding one_span_def by blast

lemma operations_keep_heap_witness: "wf_world one_span"
  by (rule operations_keep_heap [OF one_span_reach])

lemma not_ignored: "\<not> tracerIgnore ''op'' [''.html''] []"
  by code_simp

lemmas eval_defs = CreateLocalSpan_def createNoop_def getTracingContext_def new_context_def empty_world_def
  createSpan0_def NewSegmentSpan_def createSegmentContext_def createRootSegmentContext_def gen_id_def
  GenerateGlobalID_def nextID_def timestamp_def nextSeq_def NewTracingContext_def NewIDContext_def
  alloc_correlation_def alloc_span_def profile_span_def saveSpanToActive_def SetGLS_def SaveActiveSpan_def
  log_so11y_def apply_core_opts_def NewDefaultSpan_def

lemma one_span_facts:
  "ActiveSpan 0 one_span = Some 0" "w_gls one_span 0 = Some 0" "active_correlation 0 one_span = Some 0"
  "length (w_correlations one_span) = 1"
  "\<exists>ds sx. w_spans one_span = [SegSpan RootSegmentSpan ds sx] \<and> ds_EndTime ds = None \<and> sx_Correlation sx = Some 0
     \<and> sx_segment sx = 0 \<and> sx_FirstSpan sx = Some 0 \<and> sx_SpanID sx = 0"
  "w_segments one_span = [\<lparr>sg_refNum = 0, sg_spanIDGenerator = 0\<rparr>]"
  "w_correlations one_span = [newCorrelationContext]"
  "w_contexts one_span ! 0 = \<lparr>tc_activeSpan = Some 0, tc_Runtime = \<lparr>rc_data = Some Map.empty\<rparr>,
     tc_ID = \<lparr>goid = 1, lastTime = 7, seq = 2, shift = 0, shitTime = 0\<rparr>\<rparr>"
  using not_ignored
  by (simp_all add: one_span_def sample_env_def eval_defs ActiveSpan_def active_correlation_def Let_def word_sless_alt)

lemma local_span_links_witness:
  "case CreateLocalSpan sample_env 0 ''child'' [] one_span of (a, w) \<Rightarrow> ActiveSpan 0 w = Some a"
proof -
  obtain ds sx where s: "w_spans one_span ! 0 = SegSpan RootSegmentSpan ds sx"
    using one_span_facts(5) by auto
  have "list_all plugin_opt []" by simp
  from local_span_links [OF wf_one_span one_span_facts(1) s this, where e = sample_env and name = "''child''"]
  show ?thesis by (simp add: split_beta)
qed


lemma capture_continue_witness:
  "GetRuntimeContextValue 1 ''k'' (ContinueContext sample_env 1 (fst (CaptureContext 0 one_span)) (snd (CaptureContext 0 one_span)))
    = GetRuntimeContextValue 0 ''k'' one_span"
proof -
  obtain ds sx where s: "w_spans one_span ! 0 = SegSpan RootSegmentSpan ds sx" "ds_EndTime ds = None"
    "sx_Correlation sx = Some 0"
    using one_span_facts(5) by auto
  have r: "rc_wf (tc_Runtime (w_contexts one_span ! the (w_gls one_span 0)))"
    by (simp add: one_span_facts rc_wf_def rc_map_def)
  have "finite (dom (cc_map (w_correlations one_span ! the (sx_Correlation sx))))"
    by (simp add: s one_span_facts)
  from capture_continue [OF wf_one_span one_span_facts(1) s(1,2) refl r this, of sample_env 1 "''k''"]
  show ?thesis by (simp add: split_beta)
qed


text \<open>The goroutine of one_span after the end of its span: a context without an active span.\<close>

lemma ignore_is_per_span_witness:
  "w_spans (snd (CreateLocalSpan sample_env 1 ''a.html'' [] one_span)) ! fst (CreateLocalSpan sample_env 1 ''a.html'' [] one_span)
    = NoopSpan 1"
proof -
  have "tracerIgnore ''a.html'' (e_ignoreSuffix sample_env) (e_traceIgnorePath sample_env)"
    by (simp add: sample_env_def) code_simp
  moreover have "w_gls one_span 1 = None"
    using not_ignored by (simp add: one_span_def sample_env_def eval_defs Let_def word_sless_alt)
  ultimately show ?thesis
    using ignore_is_per_span [OF wf_one_span, of "[]" sample_env "''a.html''" 1]
    by (simp add: split_beta sample_env_def)
qed

definition broken_injector :: "unit \<Rightarrow> string \<Rightarrow> string \<Rightarrow> unit \<times> string option" where
  "broken_injector cr k v = (cr, Some ''broken'')"

lemma exit_error_leaks_span_witness:
  "sg_refNum (w_segments (snd (snd (CreateExitSpan sample_env 0 ''x'' ''peer'' broken_injector [] [] () one_span))) ! 0) = 1"
proof -
  obtain ds sx where s: "w_spans one_span ! 0 = SegSpan RootSegmentSpan ds sx" "sx_segment sx = 0"
    using one_span_facts(5) by auto
  obtain c where n: "createNoop sample_env 0 ''x'' one_span = ((Some c, Some 0, False), one_span)"
    using createNoop_active [OF one_span_facts(1) s(1)] by blast
  obtain a b w2 where 2: "createSpan0 sample_env c (Some 0) []
      \<lparr>co_ref = None, co_type = SpanTypeExit, co_name = ''x'', co_peer = Some ''peer''\<rparr> one_span = ((a, b), w2)"
    by (metis prod.exhaust)
  have "c = 0" using n by (auto simp: createNoop_def getTracingContext_def one_span_facts split: tspan.splits option.splits)
  have r0: "ds_SpanType ds = SpanTypeLocal"
    using s(1) not_ignored by (auto simp: one_span_def sample_env_def eval_defs Let_def word_sless_alt)
  note wf = wf_one_span
  have cl: "c < length (w_contexts one_span)" using wf_gls [OF wf, of 0 0] one_span_facts(2) \<open>c = 0\<close> by (simp add: getTracingContext_def)
  from createSpan0_child [OF wf cl _ s(1) _ 2] one_span_facts(5) obtain k ds' sx' where
    "a = length (w_spans one_span)" "w_spans w2 = w_spans one_span @ [SegSpan k ds' sx']" by auto
  then have "w_spans w2 ! a = SegSpan k ds' sx'" by simp
  then have "CreateExitSpan sample_env 0 ''x'' ''peer'' broken_injector [] [] () one_span = (Inl ''broken'', (), w2)"
    using n 2 r0 s(1)
    by (simp add: CreateExitSpan_def reusable_def Encode_def broken_injector_def)
  from exit_error_leaks_span [OF wf one_span_facts(1) s(1) _ _ this] s(2) this show ?thesis
    by (simp add: one_span_facts)
qed

lemma kafka_trace_propagates_witness:
  "\<exists>msgs' b w2'. CreateEntrySpan sample_env 0 ''op'' (kafka_extractor (msgs' ! 0)) [] (empty_world :: nat world) = (Inr b, w2') \<and>
    w_spans w2' \<noteq> []"
proof -
  obtain ds sx where s: "w_spans one_span = [SegSpan RootSegmentSpan ds sx]" "sx_segment sx = 0" "sx_Correlation sx = Some 0"
    "sx_FirstSpan sx = Some 0"
    using one_span_facts(5) by auto
  then have s0: "w_spans one_span ! 0 = SegSpan RootSegmentSpan ds sx" by simp
  have r0: "ds_SpanType ds = SpanTypeLocal"
    using s(1) not_ignored by (auto simp: one_span_def sample_env_def eval_defs Let_def word_sless_alt)
  let ?oo = "\<lparr>co_ref = None, co_type = SpanTypeExit, co_name = ''x'', co_peer = Some ''peer''\<rparr>"
  obtain c where n: "createNoop sample_env 0 ''x'' one_span = ((Some c, Some 0, False), one_span)"
    using createNoop_active [OF one_span_facts(1) s0] by blast
  obtain a b w2 where 2: "createSpan0 sample_env c (Some 0) [] ?oo one_span = ((a, b), w2)"
    by (metis prod.exhaust)
  have c0: "c = 0" using n by (auto simp: createNoop_def getTracingContext_def one_span_facts split: tspan.splits option.splits)
  have cl: "c < length (w_contexts one_span)" using wf_gls [OF wf_one_span, of 0 0] one_span_facts(2) c0 by (simp add: getTracingContext_def)
  from createSpan0_child [OF wf_one_span cl _ s0 _ 2] s one_span_facts(6) obtain k ds' sx' where
    C: "a = length (w_spans one_span)" "w_spans w2 = w_spans one_span @ [SegSpan k ds' sx']"
    "sx_Correlation sx' = Some 0" "sx_SpanID sx' = 1" by (auto simp: word_sless_alt)
  have corr: "w_correlations w2 = [newCorrelationContext]"
    using 2 s0 s(2-4) by (auto simp: createSpan0_def NewSegmentSpan_def createSegmentContext_def segmentRegister_def
        alloc_span_def Let_def log_so11y_def one_span_facts word_sless_alt)
  have sp: "w_spans w2 ! a = SegSpan k ds' sx'" using C by simp
  let ?m = "[\<lparr>km_topic = ''t'', km_headers = []\<rparr>]"
  obtain m' where E: "Encode kafka_injector [] (exit_context sample_env ''peer'' sx' w2) ?m = (m', None)"
    using kafka.encode_state by blast
  let ?w1 = "saveSpanToActive 0 c a w2"
  have X: "CreateExitSpan sample_env 0 ''x'' ''peer'' kafka_injector [] [] ?m one_span = (Inr a, m', ?w1)"
    using n 2 r0 s0 sp E by (simp add: CreateExitSpan_def reusable_def)
  have ro: "range_order [] (sc_correlation (exit_context sample_env ''peer'' sx' ?w1))"
    by (simp add: exit_context_def C(3) corr range_order_def cc_Snapshot_def)
  have acc: "accepts sample_env 0 ''op'' (empty_world :: nat world)"
    using not_ignored by (simp add: accepts_def empty_world_def sample_env_def)
  have sp': "w_spans ?w1 ! a = SegSpan k ds' sx'" using sp by simp
  have fr: "kafka_fresh 0 Header ?m" "kafka_fresh 0 HeaderCorrelation ?m" by (simp_all add: kafka_fresh_def)
  have "list_all plugin_opt []" by simp
  from kafka_trace_propagates [OF wf_one_span X C(1) sp' _ ro fr wf_empty acc this] C(4)
  obtain b' ds2 sx2 w2' where R: "CreateEntrySpan sample_env 0 ''op'' (kafka_extractor (m' ! 0)) [] (empty_world :: nat world) = (Inr b', w2')"
    "w_spans w2' ! b' = SegSpan RootSegmentSpan ds2 sx2" by auto
  with wf_CreateEntrySpan [OF wf_empty R(1)] have "w_spans w2' \<noteq> []" by auto
  with R(1) show ?thesis by blast
qed

end
