(* ===== verification/Meters.thy ===== *)
theory Meters
  imports Prelude "HOL-Library.Multiset"
begin

text \<open>
  The meters of the agent: counter, gauge and histogram of the core (plugins/core/metrics.go),
  the stand-ins that plugins create before the agent is initialised
  (plugins/core/metrics/bridge.go), and the registry (Tracer.registerMetrics).

  float64 enters in two ways.  Bucket bounds and observed values are compared only, so they
  are elements of a linear order 'f: any float64 but NaN.  A counter adds and converts
  floats, so it takes these operations from the record counter_ops.  Counts are 64 bit
  words, added to atomically.
\<close>

type_synonym u64 = "64 word"

datatype meter_panic = DuplicateBucket | EmptySteps

section \<open>Counters\<close>

record 'f counter_ops =
  to_uint :: "'f \<Rightarrow> u64"
  of_uint :: "u64 \<Rightarrow> 'f"
  plus_f :: "'f \<Rightarrow> 'f \<Rightarrow> 'f"
  negative_f :: "'f \<Rightarrow> bool"
  zero_f :: "'f"

record 'f counter =
  valBits :: 'f
  valInt :: u64

definition newCounter :: "'f counter_ops \<Rightarrow> 'f \<Rightarrow> 'f counter" where
  "newCounter fl val =
     (let ival = to_uint fl val
      in if of_uint fl ival = val then \<lparr>valBits = zero_f fl, valInt = ival\<rparr>
         else \<lparr>valBits = val, valInt = 0\<rparr>)"

definition counter_Get :: "'f counter_ops \<Rightarrow> 'f counter \<Rightarrow> 'f" where
  "counter_Get fl c = plus_f fl (valBits c) (of_uint fl (valInt c))"

text \<open>Inc: the CompareAndSwap loop ends with an addition to the current bits.\<close>

definition counter_Inc :: "'f counter_ops \<Rightarrow> 'f \<Rightarrow> 'f counter \<Rightarrow> 'f counter" where
  "counter_Inc fl val c =
     (if negative_f fl val then c
      else let ival = to_uint fl val
           in if of_uint fl ival = val then c\<lparr>valInt := valInt c + ival\<rparr>
              else c\<lparr>valBits := plus_f fl (valBits c) val\<rparr>)"

text \<open>The stand-in counter adds whatever it is given.\<close>

definition default_counter_Inc :: "'f counter_ops \<Rightarrow> 'f \<Rightarrow> 'f \<Rightarrow> 'f" where
  "default_counter_Inc fl val c = plus_f fl c val"

lemma counter_Inc_integral:
  "list_all (\<lambda>v. \<not> negative_f fl v \<and> of_uint fl (to_uint fl v) = v) vs \<Longrightarrow>
   fold (counter_Inc fl) vs c = c\<lparr>valInt := valInt c + sum_list (map (to_uint fl) vs)\<rparr>"
  by (induction vs arbitrary: c) (auto simp: counter_Inc_def algebra_simps)

section \<open>Histograms\<close>

type_synonym 'f buckets = "('f \<times> u64) list"

text \<open>The loop of findBucket on the indices low and high; the result is low at its end, or mid.\<close>

function bucket_loop :: "'f::linorder list \<Rightarrow> 'f \<Rightarrow> int \<Rightarrow> int \<Rightarrow> int + int" where
  "bucket_loop bs v low high =
     (if low \<le> high then
        (let mid = (low + high) div 2
         in if bs ! nat mid < v then bucket_loop bs v (mid + 1) high
            else if bs ! nat mid > v then bucket_loop bs v low (mid - 1)
            else Inl mid)
      else Inr low)"
  by pat_completeness auto

termination
  by (relation "measure (\<lambda>(bs, v, low, high). nat (high - low + 1))") auto

declare bucket_loop.simps [simp del]

definition findBucket :: "'f::linorder list \<Rightarrow> 'f \<Rightarrow> nat option" where
  "findBucket bs v =
     (case bucket_loop bs v 0 (int (length bs) - 1) of
        Inl mid \<Rightarrow> Some (nat mid)
      | Inr low \<Rightarrow>
          (let low = low - 1
           in if low < int (length bs) \<and> low \<ge> 0 then Some (nat low) else None))"

definition ObserveWithCount :: "'f::linorder \<Rightarrow> u64 \<Rightarrow> 'f buckets \<Rightarrow> 'f buckets" where
  "ObserveWithCount v c h =
     (case findBucket (map fst h) v of
        None \<Rightarrow> h
      | Some i \<Rightarrow> h[i := (fst (h ! i), snd (h ! i) + c)])"

definition Observe :: "'f::linorder \<Rightarrow> 'f buckets \<Rightarrow> 'f buckets" where
  "Observe v h = ObserveWithCount v 1 h"

fun has_adjacent_duplicate :: "'f list \<Rightarrow> bool" where
  "has_adjacent_duplicate (x # y # zs) = (x = y \<or> has_adjacent_duplicate (y # zs))"
| "has_adjacent_duplicate _ = False"

definition newHistogramFromSteps :: "'f::linorder \<Rightarrow> 'f list \<Rightarrow> meter_panic + 'f buckets" where
  "newHistogramFromSteps minVal steps =
     (let steps = sort steps
      in if steps = [] then Err EmptySteps
         else if has_adjacent_duplicate steps then Err DuplicateBucket
         else let steps = (if minVal \<noteq> hd steps then minVal # steps else steps)
              in Ok (map (\<lambda>s. (s, 0)) steps))"

text \<open>
  initBuckets of the stand-in: insertion into the sorted prefix, which is kept here with its
  last element first, as the inner loop walks it.
\<close>

fun shift_in :: "'f::linorder \<Rightarrow> 'f list \<Rightarrow> 'f list" where
  "shift_in key [] = [key]"
| "shift_in key (x # xs) = (if x > key then x # shift_in key xs else key # x # xs)"

fun init_sort :: "'f::linorder list \<Rightarrow> 'f list \<Rightarrow> meter_panic + 'f list" where
  "init_sort prefix [] = Ok (rev prefix)"
| "init_sort prefix (key # steps) =
     (if prefix \<noteq> [] \<and> hd prefix = key then Err DuplicateBucket
      else init_sort (shift_in key prefix) steps)"

definition initBuckets :: "'f::linorder \<Rightarrow> 'f list \<Rightarrow> meter_panic + 'f buckets" where
  "initBuckets minVal steps =
     (if steps = [] then Err EmptySteps
      else case init_sort [] steps of
             Inl p \<Rightarrow> Err p
           | Inr steps \<Rightarrow>
               (let steps = (if hd steps \<noteq> minVal then minVal # steps else steps)
                in Ok (map (\<lambda>s. (s, 0)) steps)))"

section \<open>The registry\<close>

text \<open>The key of registerMetrics; ks is the order in which Go ranges over the labels.\<close>

definition meter_key :: "string list \<Rightarrow> (string \<rightharpoonup> string) \<Rightarrow> string \<Rightarrow> string" where
  "meter_key ks labels name =
     concat (map (\<lambda>k. k @ ''='' @ the (labels k) @ '','') ks) @ name"

definition registerMetrics ::
    "string list \<Rightarrow> string \<Rightarrow> (string \<rightharpoonup> string) \<Rightarrow> 'm \<Rightarrow> (string \<rightharpoonup> 'm) \<Rightarrow> (string \<rightharpoonup> 'm)" where
  "registerMetrics ks name labels meter meterMap = meterMap(meter_key ks labels name \<mapsto> meter)"

section \<open>The binary search\<close>

lemma bucket_loop_spec:
  assumes "sorted bs" "distinct bs" "0 \<le> low" "low \<le> high + 1" "high < int (length bs)"
    and "\<And>i. i < nat low \<Longrightarrow> bs ! i < v" "\<And>i. nat (high + 1) \<le> i \<Longrightarrow> i < length bs \<Longrightarrow> v < bs ! i"
  shows "case bucket_loop bs v low high of
      Inl mid \<Rightarrow> 0 \<le> mid \<and> mid < int (length bs) \<and> bs ! nat mid = v
    | Inr l \<Rightarrow> 0 \<le> l \<and> l \<le> int (length bs) \<and> (\<forall>i<nat l. bs ! i < v) \<and> (\<forall>i. nat l \<le> i \<longrightarrow> i < length bs \<longrightarrow> v < bs ! i)"
  using assms
proof (induction bs v low high rule: bucket_loop.induct)
  case (1 bs v low high)
  show ?case
  proof (cases "low \<le> high")
    case False
    then have "high + 1 = low" using "1.prems"(4) by simp
    with False "1.prems" show ?thesis by (subst bucket_loop.simps) (auto simp: le_nat_iff)
  next
    case True
    define mid where "mid = (low + high) div 2"
    have mid: "low \<le> mid" "mid \<le> high" using True by (auto simp: mid_def)
    have ml: "nat mid < length bs" using mid "1.prems" by linarith
    have less: "bs ! i < v" if "bs ! nat mid < v" "i < nat (mid + 1)" for i
    proof -
      have "i \<le> nat mid" using that(2) mid "1.prems"(3) by linarith
      with that(1) ml sorted_nth_mono [OF "1.prems"(1), of i "nat mid"] show ?thesis by auto
    qed
    have greater: "v < bs ! i" if "v < bs ! nat mid" "nat mid \<le> i" "i < length bs" for i
      using that sorted_nth_mono [OF "1.prems"(1), of "nat mid" i] by (auto intro: less_le_trans)
    consider "bs ! nat mid < v" | "v < bs ! nat mid" | "bs ! nat mid = v" by (rule linorder_cases)
    then show ?thesis
    proof cases
      case 1
      then have "bucket_loop bs v low high = bucket_loop bs v (mid + 1) high"
        using True by (subst bucket_loop.simps) (simp add: mid_def Let_def)
      with "1.IH"(1) [OF True mid_def 1] "1.prems" mid less [OF 1] show ?thesis by simp
    next
      case 2
      then have "bucket_loop bs v low high = bucket_loop bs v low (mid - 1)"
        using True by (subst bucket_loop.simps) (auto simp: mid_def Let_def dest: less_asym)
      moreover have "\<not> bs ! nat mid < v" using 2 by (rule less_not_sym)
      ultimately show ?thesis
        using "1.IH"(2) [OF True mid_def _ 2] "1.prems" mid greater [OF 2] by simp
    next
      case 3
      then have "bucket_loop bs v low high = Inl mid"
        using True by (subst bucket_loop.simps) (simp add: mid_def Let_def)
      with 3 ml mid "1.prems"(3) show ?thesis by simp
    qed
  qed
qed

text \<open>The bucket of a value: the last one whose bound does not exceed it.\<close>

definition in_bucket :: "'f::linorder list \<Rightarrow> nat \<Rightarrow> 'f \<Rightarrow> bool" where
  "in_bucket bs i v \<longleftrightarrow> i < length bs \<and> bs ! i \<le> v \<and> (Suc i < length bs \<longrightarrow> v < bs ! Suc i)"

lemma in_bucket_unique:
  assumes "sorted bs" "in_bucket bs i v" "in_bucket bs j v" shows "i = j"
proof (rule ccontr)
  assume "i \<noteq> j"
  moreover have False if "i < j" "in_bucket bs i v" "in_bucket bs j v" for i j
    using that sorted_nth_mono [OF assms(1), of "Suc i" j] by (auto simp: in_bucket_def)
  ultimately show False using assms(2,3) by (metis linorder_neq_iff)
qed

lemma findBucket_spec:
  assumes "sorted bs" "distinct bs"
  shows "findBucket bs v = Some i \<longleftrightarrow> in_bucket bs i v"
proof -
  have found: "case findBucket bs v of None \<Rightarrow> (\<forall>i<length bs. v < bs ! i) | Some j \<Rightarrow> in_bucket bs j v"
  proof (cases "bucket_loop bs v 0 (int (length bs) - 1)")
    case (Inl mid)
    with bucket_loop_spec [OF assms, of 0 "int (length bs) - 1" v]
    have m: "0 \<le> mid" "mid < int (length bs)" "bs ! nat mid = v" by auto
    have "v < bs ! Suc (nat mid)" if "Suc (nat mid) < length bs"
      using that m assms sorted_nth_mono [OF assms(1), of "nat mid" "Suc (nat mid)"]
      by (metis Suc_lessD le_neq_trans lessI less_imp_le_nat n_not_Suc_n nth_eq_iff_index_eq)
    with Inl m show ?thesis by (auto simp: findBucket_def in_bucket_def)
  next
    case (Inr l)
    with bucket_loop_spec [OF assms, of 0 "int (length bs) - 1" v]
    have l: "0 \<le> l" "l \<le> int (length bs)" "\<forall>i<nat l. bs ! i < v" "\<forall>i. nat l \<le> i \<longrightarrow> i < length bs \<longrightarrow> v < bs ! i" by auto
    show ?thesis
    proof (cases "l = 0")
      case True
      with Inr l show ?thesis by (auto simp: findBucket_def)
    next
      case False
      with l have n: "nat l - 1 < nat l" "nat (l - 1) = nat l - 1" "Suc (nat l - 1) = nat l" by linarith+
      from False Inr l have "findBucket bs v = Some (nat l - 1)" by (simp add: findBucket_def n)
      moreover have "in_bucket bs (nat l - 1) v" using l n by (auto simp: in_bucket_def less_imp_le)
      ultimately show ?thesis by simp
    qed
  qed
  show ?thesis
  proof
    assume "findBucket bs v = Some i" with found show "in_bucket bs i v" by simp
  next
    assume i: "in_bucket bs i v"
    with found have "findBucket bs v \<noteq> None" by (auto simp: in_bucket_def split: option.splits)
    then obtain j where "findBucket bs v = Some j" by blast
    with found in_bucket_unique [OF assms(1) i] show "findBucket bs v = Some i" by simp
  qed
qed

section \<open>Counting\<close>

lemma Observe_fst [simp]: "map fst (ObserveWithCount v c h) = map fst h"
  by (auto simp: ObserveWithCount_def map_update split: option.splits)
    (metis list_update_id nth_map list_update_beyond not_le length_map)

lemma Observe_nth:
  assumes "sorted (map fst h)" "distinct (map fst h)" "i < length h"
  shows "snd (ObserveWithCount v c h ! i) = snd (h ! i) + (if in_bucket (map fst h) i v then c else 0)"
proof (cases "findBucket (map fst h) v")
  case None
  with findBucket_spec [OF assms(1,2)] have "\<not> in_bucket (map fst h) i v" by (metis option.distinct(1))
  with None show ?thesis by (simp add: ObserveWithCount_def)
next
  case (Some j)
  then have "in_bucket (map fst h) i v \<longleftrightarrow> i = j"
    using findBucket_spec [OF assms(1,2)] by (metis option.inject)
  with Some assms(3) show ?thesis by (auto simp: ObserveWithCount_def nth_list_update)
qed

lemma Observe_fold_fst [simp]: "map fst (fold Observe vs h) = map fst h"
  by (induction vs arbitrary: h) (simp_all add: Observe_def)

lemma Observe_length [simp]: "length (fold Observe vs h) = length h"
  using Observe_fold_fst [of vs h] by (metis length_map)

lemma has_dup_sorted: "sorted xs \<Longrightarrow> has_adjacent_duplicate xs \<longleftrightarrow> \<not> distinct xs"
  by (induction xs rule: has_adjacent_duplicate.induct) (auto simp: order.antisym)

lemma newHistogram_ok:
  assumes "newHistogramFromSteps minVal steps = Ok h" "\<forall>s\<in>set steps. minVal \<le> s"
  shows "sorted (map fst h) \<and> distinct (map fst h) \<and> list_all (\<lambda>b. snd b = 0) h \<and>
    set (map fst h) = insert minVal (set steps)"
proof -
  let ?s = "sort steps"
  have ne: "?s \<noteq> []" and nd: "\<not> has_adjacent_duplicate ?s"
    and h: "h = map (\<lambda>s. (s, 0)) (if minVal \<noteq> hd ?s then minVal # ?s else ?s)"
    using assms(1) by (simp_all add: newHistogramFromSteps_def Let_def split: if_splits)
  obtain x xs where s: "?s = x # xs" using ne by (cases ?s) auto
  have st: "set steps = set (x # xs)" using s by (metis set_sort)
  have d: "sorted (x # xs)" "distinct (x # xs)"
    using nd has_dup_sorted [of ?s] s sorted_sort [of steps] by auto
  have mn: "\<forall>s\<in>set (x # xs). minVal \<le> s" using assms(2) st by simp
  show ?thesis
  proof (cases "minVal = x")
    case True
    with h s d st show ?thesis by (auto simp: list_all_iff comp_def)
  next
    case False
    with mn d have "minVal \<notin> set (x # xs)" by (auto simp: order.antisym)
    with False h s d st mn show ?thesis by (auto simp: list_all_iff comp_def)
  qed
qed

text \<open>
  A histogram counts: after any observations, each bucket of a histogram built from
  distinct steps not below its minimum holds, as a 64 bit count, the number of observed
  values from its bound up to the next bound; values below the minimum are not counted.
\<close>

theorem histogram_counts:
  assumes "newHistogramFromSteps minVal steps = Ok h" "\<forall>s\<in>set steps. minVal \<le> s" "i < length h"
  shows "snd (fold Observe vs h ! i) = of_nat (length (filter (in_bucket (map fst h) i) vs))"
proof -
  note N = newHistogram_ok [OF assms(1,2)]
  have "snd (fold Observe vs g ! i) = snd (g ! i) + of_nat (length (filter (in_bucket (map fst h) i) vs))"
    if "map fst g = map fst h" for g
    using that
  proof (induction vs arbitrary: g)
    case (Cons v vs)
    have l: "length g = length h" using Cons.prems by (metis length_map)
    have f: "map fst (Observe v g) = map fst h" using Cons.prems by (simp add: Observe_def)
    have "snd (Observe v g ! i) = snd (g ! i) + (if in_bucket (map fst h) i v then 1 else 0)"
      using Observe_nth [of g i v 1] Cons.prems N assms(3) l by (simp add: Observe_def)
    with Cons.IH [OF f] show ?case by simp
  qed simp
  moreover have "snd (h ! i) = 0" using N assms(3) by (simp add: list_all_length)
  ultimately show ?thesis by simp
qed

lemma histogram_counts_witness:
  "snd (fold Observe [7, 1, 3 :: int] [(0, 0), (2, 0), (5, 0)] ! 1) = 1"
  using histogram_counts [of 0 "[5, 2 :: int]" "[(0, 0), (2, 0), (5, 0)]" 1 "[7, 1, 3]"]
  by (simp add: newHistogramFromSteps_def in_bucket_def)

text \<open>
  The binary search of findBucket finds the bucket of a value: on any sorted bounds without
  duplicates it returns the last bucket whose bound does not exceed the value, and none
  exactly when the value is below every bound.
\<close>

theorem findBucket_correct:
  assumes "sorted bs" "distinct bs"
  shows "(findBucket bs v = Some i \<longleftrightarrow> in_bucket bs i v) \<and>
    (findBucket bs v = None \<longleftrightarrow> list_all (\<lambda>b. v < b) bs)"
proof -
  have "findBucket bs v = None \<longleftrightarrow> list_all (\<lambda>b. v < b) bs"
  proof
    assume n: "findBucket bs v = None"
    show "list_all (\<lambda>b. v < b) bs"
    proof (rule ccontr)
      assume "\<not> list_all (\<lambda>b. v < b) bs"
      then obtain i where "i < length bs" "bs ! i \<le> v" by (auto simp: list_all_length not_less)
      then have ne: "{i. i < length bs \<and> bs ! i \<le> v} \<noteq> {}" (is "?S \<noteq> {}") by blast
      have fin: "finite ?S" by simp
      have "Max ?S \<in> ?S" using Max_in [OF fin ne] .
      moreover have "v < bs ! Suc (Max ?S)" if "Suc (Max ?S) < length bs"
      proof (rule ccontr)
        assume "\<not> v < bs ! Suc (Max ?S)"
        with that have "Suc (Max ?S) \<in> ?S" by simp
        from Max_ge [OF fin this] show False by simp
      qed
      ultimately have "in_bucket bs (Max ?S) v" by (simp add: in_bucket_def)
      with findBucket_spec [OF assms, of v] n show False by (metis option.distinct(1))
    qed
  next
    assume "list_all (\<lambda>b. v < b) bs"
    then have "\<not> in_bucket bs i v" for i by (auto simp: in_bucket_def list_all_length)
    with findBucket_spec [OF assms] show "findBucket bs v = None" by (metis option.exhaust)
  qed
  with findBucket_spec [OF assms] show ?thesis by blast
qed

lemma findBucket_correct_witness: "findBucket [0, 2, 5 :: int] 3 = Some 1"
  using findBucket_correct [of "[0, 2, 5 :: int]" 3 1] by (simp add: in_bucket_def)

section \<open>The stand-in histogram\<close>

lemma shift_in_mset [simp]: "mset (shift_in key xs) = add_mset key (mset xs)"
  by (induction xs) auto

lemma shift_in_set [simp]: "set (shift_in key xs) = insert key (set xs)"
  by (induction xs) auto

lemma shift_in_sorted: "sorted (rev xs) \<Longrightarrow> sorted (rev (shift_in key xs))"
  by (induction xs) (auto simp: sorted_append)

lemma init_sort_ok:
  "init_sort prefix steps = Ok s \<Longrightarrow> sorted (rev prefix) \<Longrightarrow> sorted s \<and> mset s = mset prefix + mset steps"
  by (induction prefix steps rule: init_sort.induct) (auto simp: shift_in_sorted split: if_splits)

text \<open>
  The insertion sort of the stand-in histogram sorts, but its duplicate check looks at
  one neighbour only: it accepts steps that the core rejects.
\<close>

theorem stand_in_steps:
  "(case init_sort [] steps of Inl p \<Rightarrow> True | Inr s \<Rightarrow> s = sort steps) \<and>
   newHistogramFromSteps 0 [1, 3, 1 :: int] = Err DuplicateBucket \<and>
   initBuckets 0 [1, 3, 1 :: int] = Ok [(0, 0), (1, 0), (1, 0), (3, 0)]"
proof -
  have "case init_sort [] steps of Inl p \<Rightarrow> True | Inr s \<Rightarrow> s = sort steps"
    using init_sort_ok [of "[]" steps] by (auto split: sum.split intro!: properties_for_sort [symmetric])
  then show ?thesis by (simp add: newHistogramFromSteps_def initBuckets_def)
qed

text \<open>
  Integral increments are exact and commute: after increments by integral values, in any
  order of the atomic additions, the counter holds their sum as a 64 bit number, and negative
  increments are ignored.
\<close>

theorem counter_sums:
  assumes "\<forall>v\<in>set vs. \<not> negative_f fl v \<longrightarrow> of_uint fl (to_uint fl v) = v" "mset ws = mset vs"
  shows "fold (counter_Inc fl) ws c =
    c\<lparr>valInt := valInt c + sum_mset (image_mset (to_uint fl) (filter_mset (\<lambda>v. \<not> negative_f fl v) (mset vs)))\<rparr>"
proof -
  have "fold (counter_Inc fl) us c =
      c\<lparr>valInt := valInt c + sum_mset (image_mset (to_uint fl) (filter_mset (\<lambda>v. \<not> negative_f fl v) (mset us)))\<rparr>"
    if "\<forall>v\<in>set us. \<not> negative_f fl v \<longrightarrow> of_uint fl (to_uint fl v) = v" for us
    using that by (induction us arbitrary: c) (auto simp: counter_Inc_def algebra_simps)
  moreover have "set ws = set vs" using assms(2) by (metis set_mset_mset)
  ultimately show ?thesis using assms by metis
qed

text \<open>Integers as the floats of a concrete counter.\<close>

definition int_ops :: "int counter_ops" where
  "int_ops = \<lparr>to_uint = word_of_int, of_uint = uint, plus_f = (+), negative_f = (\<lambda>i. i < 0), zero_f = 0\<rparr>"

lemma counter_sums_witness: "valInt (fold (counter_Inc int_ops) [2, -1, 3] (newCounter int_ops 1)) = 6"
  using counter_sums [of "[3, 2, -1]" int_ops "[2, -1, 3]" "newCounter int_ops 1"]
  by (simp add: int_ops_def newCounter_def)

end
