(* ===== verification/Transform.thy ===== *)
theory Transform
  imports Tracing_Props Meters
begin

text \<open>
  The conversion of a collected segment and of the meters to protocol messages
  (plugins/core/reporter/transform.go) and the accessors of a reported span
  (plugins/core/span_tracing.go).  A repeated field is a list, so nil and the empty slice
  are the same; a slice of pointers is a list of options.
\<close>

record segment_reference =
  sr_cross_thread :: bool
  sr_TraceId :: string
  sr_ParentTraceSegmentId :: string
  sr_ParentSpanId :: i32
  sr_ParentService :: string
  sr_ParentServiceInstance :: string
  sr_ParentEndpoint :: string
  sr_NetworkAddressUsedAtPeer :: string

record span_object =
  so_SpanId :: i32
  so_ParentSpanId :: i32
  so_StartTime :: int
  so_EndTime :: int
  so_OperationName :: string
  so_Peer :: string
  so_SpanType :: span_type
  so_SpanLayer :: i32
  so_ComponentId :: i32
  so_IsError :: bool
  so_Tags :: "kvp list"
  so_Logs :: "log_entry list"
  so_Refs :: "segment_reference list"

record segment_object =
  sg_TraceId :: string
  sg_TraceSegmentId :: string
  sg_Service :: string
  sg_ServiceInstance :: string
  sg_Spans :: "span_object list"

definition copyKeyStringValuePairs :: "kvp option list \<Rightarrow> kvp list" where
  "copyKeyStringValuePairs pairs = List.map_filter id pairs"

definition copyLogs :: "(int \<times> kvp option list) option list \<Rightarrow> log_entry list" where
  "copyLogs logs =
     List.map_filter (map_option (\<lambda>(t, data). (t, copyKeyStringValuePairs data))) logs"

text \<open>
  A reported span is its default span and its segment context.  Times are readings of a
  millisecond clock; zero is what Millisecond gives for the zero time.
\<close>

type_synonym reported = "nat default_span \<times> segment_context"

definition rs_EndTime :: "int \<Rightarrow> nat default_span \<Rightarrow> int" where
  "rs_EndTime zero ds = (case ds_EndTime ds of None \<Rightarrow> zero | Some t \<Rightarrow> t)"

definition cross_thread_ref :: "string \<Rightarrow> string \<Rightarrow> segment_context \<Rightarrow> segment_reference" where
  "cross_thread_ref service inst sx =
     \<lparr>sr_cross_thread = True, sr_TraceId = sx_TraceID sx, sr_ParentTraceSegmentId = sx_ParentSegmentID sx,
      sr_ParentSpanId = sx_ParentSpanID sx, sr_ParentService = service, sr_ParentServiceInstance = inst,
      sr_ParentEndpoint = [], sr_NetworkAddressUsedAtPeer = []\<rparr>"

definition cross_process_ref :: "segment_context \<Rightarrow> span_context \<Rightarrow> segment_reference" where
  "cross_process_ref sx tc =
     \<lparr>sr_cross_thread = False, sr_TraceId = sx_TraceID sx, sr_ParentTraceSegmentId = sc_parent_segment_id tc,
      sr_ParentSpanId = sc_parent_span_id tc, sr_ParentService = sc_parent_service tc,
      sr_ParentServiceInstance = sc_parent_service_instance tc, sr_ParentEndpoint = sc_parent_endpoint tc,
      sr_NetworkAddressUsedAtPeer = sc_address_used_at_client tc\<rparr>"

definition transform_span :: "int \<Rightarrow> string \<Rightarrow> string \<Rightarrow> bool \<Rightarrow> reported \<Rightarrow> span_object" where
  "transform_span zero service inst is_last s =
     (let (ds, sx) = s
      in \<lparr>so_SpanId = sx_SpanID sx, so_ParentSpanId = sx_ParentSpanID sx, so_StartTime = ds_StartTime ds,
          so_EndTime = rs_EndTime zero ds, so_OperationName = ds_OperationName ds, so_Peer = ds_Peer ds,
          so_SpanType = ds_SpanType ds, so_SpanLayer = ds_Layer ds, so_ComponentId = ds_ComponentID ds,
          so_IsError = ds_IsError ds, so_Tags = copyKeyStringValuePairs (map Some (ds_Tags ds)),
          so_Logs = copyLogs (map (\<lambda>(t, d). Some (t, map Some d)) (ds_Logs ds)),
          so_Refs = (if is_last \<and> -1 <s sx_ParentSpanID sx then [cross_thread_ref service inst sx] else [])
            @ map (cross_process_ref sx) (ds_Refs ds)\<rparr>)"

definition TransformSegmentObject :: "int \<Rightarrow> string \<Rightarrow> string \<Rightarrow> reported list \<Rightarrow> segment_object option" where
  "TransformSegmentObject zero service inst spans =
     (if length spans < 1 then None
      else
        let rootCtx = snd (spans ! (length spans - 1))
        in Some \<lparr>sg_TraceId = sx_TraceID rootCtx, sg_TraceSegmentId = sx_SegmentID rootCtx,
                 sg_Service = service, sg_ServiceInstance = inst,
                 sg_Spans = map (\<lambda>i. transform_span zero service inst (i = length spans - 1) (spans ! i)) [0..<length spans]\<rparr>)"

section \<open>Meters\<close>

datatype 'f reported_meter =
    SingleValue string "string \<rightharpoonup> string" 'f
  | HistogramMeter string "string \<rightharpoonup> string" "('f \<times> u64) list"
  | UnknownMeter

datatype 'f meter_metric =
    MSingle string "kvp list" 'f
  | MHistogram string "kvp list" "('f \<times> u64 \<times> bool) list"
  | MNone

record 'f meter_data =
  md_metric :: "'f meter_metric"
  md_Service :: string
  md_ServiceInstance :: string
  md_Timestamp :: int

text \<open>Labels are listed in the order ord gives for Go's range over the map.\<close>

definition transformLabels :: "((string \<rightharpoonup> string) \<Rightarrow> string list) \<Rightarrow> (string \<rightharpoonup> string) \<Rightarrow> kvp list" where
  "transformLabels ord labels = map (\<lambda>k. (k, the (labels k))) (ord labels)"

definition transform_meter ::
    "((string \<rightharpoonup> string) \<Rightarrow> string list) \<Rightarrow> 'f reported_meter \<Rightarrow> 'f meter_metric" where
  "transform_meter ord m =
     (case m of
        SingleValue name labels v \<Rightarrow> MSingle name (transformLabels ord labels) v
      | HistogramMeter name labels buckets \<Rightarrow>
          MHistogram name (transformLabels ord labels) (map (\<lambda>(b, c). (b, c, False)) buckets)
      | UnknownMeter \<Rightarrow> MNone)"

definition TransformMeterData ::
    "((string \<rightharpoonup> string) \<Rightarrow> string list) \<Rightarrow> string \<Rightarrow> string \<Rightarrow> int \<Rightarrow> 'f reported_meter list \<Rightarrow> 'f meter_data list" where
  "TransformMeterData ord service inst now metrics =
     (case map (\<lambda>m. \<lparr>md_metric = transform_meter ord m, md_Service = [], md_ServiceInstance = [], md_Timestamp = 0\<rparr>) metrics of
        [] \<Rightarrow> []
      | m # ms \<Rightarrow> m\<lparr>md_Service := service, md_ServiceInstance := inst, md_Timestamp := now\<rparr> # ms)"

section \<open>What the collector receives\<close>

lemma copy_pairs [simp]: "copyKeyStringValuePairs (map Some xs) = xs"
  by (simp add: copyKeyStringValuePairs_def List.map_filter_def comp_def)

lemma copy_logs [simp]: "copyLogs (map (\<lambda>(t, d). Some (t, map Some d)) ls) = ls"
  by (induction ls) (auto simp: copyLogs_def List.map_filter_simps)

text \<open>
  The segment object of a segment has one span object per span in order, with the
  data of the span unchanged, and carries the trace and segment id of the root; every
  upstream reference of a span appears once with the parent's segment, span, service and
  instance.
\<close>

theorem segment_object_faithful:
  "TransformSegmentObject zero service inst (spans @ [(ds, sx)]) =
     Some \<lparr>sg_TraceId = sx_TraceID sx, sg_TraceSegmentId = sx_SegmentID sx, sg_Service = service,
       sg_ServiceInstance = inst,
       sg_Spans = map (transform_span zero service inst False) spans @ [transform_span zero service inst True (ds, sx)]\<rparr> \<and>
   map (\<lambda>s. (so_OperationName s, so_Peer s, so_Tags s, so_Logs s, so_IsError s, length (so_Refs s)))
       (map (transform_span zero service inst False) spans) =
     map (\<lambda>(d, x). (ds_OperationName d, ds_Peer d, ds_Tags d, ds_Logs d, ds_IsError d, length (ds_Refs d))) spans"
proof
  have "map (\<lambda>i. transform_span zero service inst (i = length spans) ((spans @ [(ds, sx)]) ! i)) [0..<length spans]
      = map (transform_span zero service inst False) spans"
    by (rule nth_equalityI) (simp_all add: nth_append)
  then show "TransformSegmentObject zero service inst (spans @ [(ds, sx)]) =
     Some \<lparr>sg_TraceId = sx_TraceID sx, sg_TraceSegmentId = sx_SegmentID sx, sg_Service = service,
       sg_ServiceInstance = inst,
       sg_Spans = map (transform_span zero service inst False) spans @ [transform_span zero service inst True (ds, sx)]\<rparr>"
    by (simp add: TransformSegmentObject_def)
qed (auto simp: transform_span_def)

text \<open>
  No cross-thread reference is ever reported.  A span whose parent's segment is closed
  becomes the root of a new segment that knows its parent segment, but
  createRootSegmentContext sets the parent span id to -1, and the transform writes the
  reference only for a larger id: the new segment is reported without any reference.
\<close>

theorem cross_thread_reference_lost:
  assumes "wf_world w" "ActiveSpan g w = Some p" "w_spans w ! p = SegSpan pk pds psx" "list_all plugin_opt opts"
    and "sg_refNum (w_segments w ! sx_segment psx) <s 0"
  shows "case CreateLocalSpan e g name opts w of (a, w') \<Rightarrow>
    (case w_spans w' ! a of NoopSpan n \<Rightarrow> False
     | SegSpan k ds sx \<Rightarrow>
         k = RootSegmentSpan \<and> sx_TraceID sx = sx_TraceID psx \<and> sx_ParentSegmentID sx = sx_SegmentID psx \<and>
         so_Refs (transform_span zero service inst True (ds, sx)) = [])"
proof -
  let ?oo = "\<lparr>co_ref = None, co_type = SpanTypeLocal, co_name = name, co_peer = None\<rparr>"
  obtain c where c: "w_gls w g = Some c" "createNoop e g name w = ((Some c, Some p, False), w)"
    using createNoop_active [OF assms(2,3)] by blast
  obtain a b w2 where 2: "createSpan0 e c (Some p) opts ?oo w = ((a, b), w2)" by (metis prod.exhaust)
  have cl: "c < length (w_contexts w)" using wf_gls [OF assms(1)] c(1) by (simp add: getTracingContext_def)
  have pl: "p < length (w_spans w)" using wf_active [OF assms(1,2)] .
  have r: "CreateLocalSpan e g name opts w = (a, saveSpanToActive g c a (profile_span e False a w2))"
    by (simp add: CreateLocalSpan_def c(2) 2)
  from createSpan0_child [OF assms(1) cl pl assms(3,4) 2] assms(5) obtain ds sx where
    w2: "a = length (w_spans w)" "w_spans w2 = w_spans w @ [SegSpan RootSegmentSpan ds sx]"
    and C: "same_core (apply_core_opts ?oo (NewDefaultSpan (e_now e) (Some p))) ds" "sx_TraceID sx = sx_TraceID psx"
    "sx_ParentSegmentID sx = sx_SegmentID psx" "sx_ParentSpanID sx = -1" by auto
  have "w_spans w2 ! a = SegSpan RootSegmentSpan ds sx" using w2 by simp
  with C show ?thesis unfolding r by (simp add: same_core_def transform_span_def)
qed

text \<open>A goroutine that continues a trace whose segment has ended.\<close>

definition late_world :: "nat world" where
  "late_world = (case CaptureContext 0 one_span of (snap, w) \<Rightarrow>
     (case SpanEnd sample_env 0 0 w of Inl _ \<Rightarrow> w | Inr w \<Rightarrow> ContinueContext sample_env 1 snap w))"

lemma late_world_facts:
  "wf_world late_world \<and> ActiveSpan 1 late_world = Some 1 \<and>
   (\<exists>ds sx. w_spans late_world ! 1 = SegSpan SnapshotSpan ds sx \<and> sx_segment sx = 0) \<and>
   sg_refNum (w_segments late_world ! 0) = -1"
proof -
  obtain ds sx where s: "w_spans one_span = [SegSpan RootSegmentSpan ds sx]" "ds_EndTime ds = None"
    "sx_Correlation sx = Some 0" "sx_segment sx = 0"
    using one_span_facts(5) by auto
  have d: "ds_reuseCount ds = 0" "ds_InAsyncMode ds = False" "ds_ended ds = False" "ds_Parent ds = None"
    using s(1) not_ignored by (auto simp: one_span_def sample_env_def eval_defs Let_def word_sless_alt)
  obtain snap w1 where cap: "CaptureContext 0 one_span = (snap, w1)" by fastforce
  have wf1: "wf_world w1" using wf_op_step [OF o_capture [of one_span 0] wf_one_span] cap by simp
  have snap: "\<exists>r. snap = Some (Some 1, r)" and w1: "w_spans w1 = [SegSpan RootSegmentSpan ds sx, w_spans w1 ! 1]"
    "\<exists>d x. w_spans w1 ! 1 = SegSpan SnapshotSpan d x \<and> sx_segment x = 0"
    "w_segments w1 = w_segments one_span" "w_gls w1 = w_gls one_span" "w_contexts w1 = w_contexts one_span"
    using cap s one_span_facts
    by (auto simp: CaptureContext_def getTracingContext_def newSnapshotSpan_def IsValid_def alloc_span_def alloc_correlation_def)
  then have len: "0 < length (w_spans w1)" "w_spans w1 ! 0 = SegSpan RootSegmentSpan ds sx"
    "length (w_spans w1) = 2"
    by (metis length_greater_0_conv list.distinct(1), metis nth_Cons_0, metis length_Cons list.size(3) numeral_2_eq_2)
  have "\<exists>w2. SpanEnd sample_env 0 0 w1 = Inr w2 \<and> w_spans w2 ! 1 = w_spans w1 ! 1 \<and> sg_refNum (w_segments w2 ! 0) = -1"
    using len s(2,4) d w1(3) one_span_facts(6)
    by (simp add: SpanEnd_def endSyncAndFreeze_def end0_def Let_def)
  then obtain w2 where w2: "SpanEnd sample_env 0 0 w1 = Inr w2" "w_spans w2 ! 1 = w_spans w1 ! 1"
    "sg_refNum (w_segments w2 ! 0) = -1" by blast
  have wf2: "wf_world w2" and g2: "grows w1 w2" using wf_SpanEnd [OF wf1 len(1) w2(1)] by auto
  obtain r where r: "snap = Some (Some 1, r)" using snap by blast
  have "wf_world (ContinueContext sample_env 1 snap w2)"
    using wf_op_step [OF o_continue [of w2 "Some 1" sample_env 1 r] wf2] g2 len(3) by (simp add: grows_def r)
  with ContinueContext_active [OF wf2, of 1 sample_env "Some 1" r] w1(2) w2 cap r show ?thesis
    by (auto simp: late_world_def)
qed

lemma cross_thread_reference_lost_witness:
  "case CreateLocalSpan sample_env 1 ''late'' [] late_world of (a, w) \<Rightarrow>
    (case w_spans w ! a of NoopSpan n \<Rightarrow> False
     | SegSpan k ds sx \<Rightarrow> so_Refs (transform_span 0 ''svc'' ''i'' True (ds, sx)) = [])"
proof -
  obtain ds sx where f: "wf_world late_world" "ActiveSpan 1 late_world = Some 1"
    "w_spans late_world ! 1 = SegSpan SnapshotSpan ds sx" "sg_refNum (w_segments late_world ! sx_segment sx) <s 0"
    using late_world_facts by (auto simp: word_sless_alt)
  have "list_all plugin_opt []" by simp
  from cross_thread_reference_lost [OF f(1-3) this f(4), where e = sample_env and name = "''late''" and zero = 0
      and service = "''svc''" and inst = "''i''"]
  show ?thesis by (auto split: prod.splits tspan.splits)
qed

text \<open>
  Meters are reported in the order of the registry, one message each, and only the first
  message names the service, the instance and the time.
\<close>

theorem meters_first_has_header:
  "map md_metric (TransformMeterData ord service inst now metrics) = map (transform_meter ord) metrics \<and>
   map md_Service (TransformMeterData ord service inst now metrics) =
     (if metrics = [] then [] else service # replicate (length metrics - 1) [])"
  by (cases metrics) (simp_all add: TransformMeterData_def comp_def map_replicate_const)

end
