(* ===== verification/Profile_Events.thy ===== *)
theory Profile_Events
  imports Strconv "HOL-Library.Multiset"
begin

text \<open>
  The parts that trace profiling is made of: the event manager
  (plugins/core/trace_profiling_event_manager.go and profile_event_manager.go), the chunking
  writer (profile_writer.go) and the profile labels (prof_labels.go).  The manager that
  drives them is in Profile_Manager.  Methods hold the lock of their object, so each is one
  function.  A Go error is a constructor of event_error.
\<close>

section \<open>Events\<close>

datatype logic_op = OpAnd | OpOr | OpNothing

datatype event_error = EventNotRegistered | NoRules | BaseEventNotRegistered string | InvalidLogicOp logic_op

record profiling_rule =
  ru_Event :: string
  ru_Op :: logic_op
  ru_IsNot :: bool

record event_manager =
  BaseEventStatus :: "string \<rightharpoonup> bool"
  ComplexEvents :: "string \<rightharpoonup> profiling_rule list"

definition NewEventManager :: event_manager where
  "NewEventManager = \<lparr>BaseEventStatus = Map.empty, ComplexEvents = Map.empty\<rparr>"

definition RegisterBaseEvent :: "string \<Rightarrow> bool \<Rightarrow> event_manager \<Rightarrow> event_manager" where
  "RegisterBaseEvent event initialStatus m =
     m\<lparr>BaseEventStatus := (BaseEventStatus m)(event \<mapsto> initialStatus)\<rparr>"

definition RegisterComplexEvent :: "string \<Rightarrow> profiling_rule list \<Rightarrow> event_manager \<Rightarrow> event_manager" where
  "RegisterComplexEvent event expr m = m\<lparr>ComplexEvents := (ComplexEvents m)(event \<mapsto> expr)\<rparr>"

definition UpdateBaseEventStatus :: "string \<Rightarrow> bool \<Rightarrow> event_manager \<Rightarrow> (event_error, event_manager) result" where
  "UpdateBaseEventStatus event status m =
     (case BaseEventStatus m event of
        None \<Rightarrow> Err EventNotRegistered
      | Some _ \<Rightarrow> Ok (m\<lparr>BaseEventStatus := (BaseEventStatus m)(event \<mapsto> status)\<rparr>))"

definition GetBaseEventStatus :: "string \<Rightarrow> event_manager \<Rightarrow> (event_error, bool) result" where
  "GetBaseEventStatus event m =
     (case BaseEventStatus m event of None \<Rightarrow> Err EventNotRegistered | Some status \<Rightarrow> Ok status)"

definition getRuleValue :: "event_manager \<Rightarrow> profiling_rule \<Rightarrow> (event_error, bool) result" where
  "getRuleValue m rule =
     (case BaseEventStatus m (ru_Event rule) of
        None \<Rightarrow> Err (BaseEventNotRegistered (ru_Event rule))
      | Some baseStatus \<Rightarrow> Ok (if ru_IsNot rule then \<not> baseStatus else baseStatus))"

fun eval_rules :: "event_manager \<Rightarrow> bool \<Rightarrow> profiling_rule list \<Rightarrow> (event_error, bool) result" where
  "eval_rules m currentResult [] = Ok currentResult"
| "eval_rules m currentResult (rule # rules) =
     (case getRuleValue m rule of
        Inl err \<Rightarrow> Err err
      | Inr ruleValue \<Rightarrow>
          (case ru_Op rule of
             OpAnd \<Rightarrow> eval_rules m (currentResult \<and> ruleValue) rules
           | OpOr \<Rightarrow> eval_rules m (currentResult \<or> ruleValue) rules
           | OpNothing \<Rightarrow> Err (InvalidLogicOp OpNothing)))"

definition evalExpr :: "event_manager \<Rightarrow> profiling_rule list \<Rightarrow> (event_error, bool) result" where
  "evalExpr m rules =
     (case rules of
        [] \<Rightarrow> Err NoRules
      | firstRule # rest \<Rightarrow>
          (case getRuleValue m firstRule of
             Inl err \<Rightarrow> Err err
           | Inr currentResult \<Rightarrow> eval_rules m currentResult rest))"

definition ExecuteComplexEvent :: "string \<Rightarrow> event_manager \<Rightarrow> (event_error, bool) result" where
  "ExecuteComplexEvent event m =
     (case ComplexEvents m event of None \<Rightarrow> Err EventNotRegistered | Some expr \<Rightarrow> evalExpr m expr)"

definition IfProfiling :: string where "IfProfiling = ''IfProfiling''"
definition CurTaskExist :: string where "CurTaskExist = ''CurTaskExist''"
definition CouldProfile :: string where "CouldProfile = ''CouldProfile''"
definition CouldSetCurTask :: string where "CouldSetCurTask = ''CouldSetCurTask''"

definition RegisterProfileEvents :: "event_manager \<Rightarrow> event_manager" where
  "RegisterProfileEvents m =
     (let m = RegisterBaseEvent IfProfiling False m;
          m = RegisterBaseEvent CurTaskExist False m;
          r1 = \<lparr>ru_Event = IfProfiling, ru_Op = OpNothing, ru_IsNot = True\<rparr>;
          r2 = \<lparr>ru_Event = CurTaskExist, ru_Op = OpAnd, ru_IsNot = False\<rparr>;
          r3 = \<lparr>ru_Event = CurTaskExist, ru_Op = OpAnd, ru_IsNot = True\<rparr>;
          m = RegisterComplexEvent CouldProfile [r1, r2] m
      in RegisterComplexEvent CouldSetCurTask [r1, r3] m)"

section \<open>The chunking writer\<close>

record profiling_writer =
  wr_buf :: string
  wr_chunkSize :: nat

type_synonym raw_data = "string \<times> bool"

text \<open>The loop of Write: the chunks sent and the buffer left; chunkSize is positive.\<close>

function send_chunks :: "nat \<Rightarrow> string \<Rightarrow> raw_data list \<times> string" where
  "send_chunks n buf =
     (if n = 0 \<or> length buf < n then ([], buf)
      else (let (cs, rest) = send_chunks n (drop n buf) in ((take n buf, False) # cs, rest)))"
  by pat_completeness auto

termination
  by (relation "measure (\<lambda>(n, buf). length buf)") auto

declare send_chunks.simps [simp del]

definition Write :: "string \<Rightarrow> profiling_writer \<Rightarrow> raw_data list \<times> profiling_writer" where
  "Write p w =
     (let (cs, rest) = send_chunks (wr_chunkSize w) (wr_buf w @ p) in (cs, w\<lparr>wr_buf := rest\<rparr>))"

definition Flush :: "profiling_writer \<Rightarrow> raw_data list \<times> profiling_writer" where
  "Flush w =
     (if length (wr_buf w) > 0 then ([(wr_buf w, True)], w\<lparr>wr_buf := []\<rparr>)
      else ([([], True)], w\<lparr>wr_buf := []\<rparr>))"

definition NewProfilingWriter :: "nat \<Rightarrow> profiling_writer" where
  "NewProfilingWriter chunkSize = \<lparr>wr_buf = [], wr_chunkSize = chunkSize\<rparr>"

fun write_all :: "string list \<Rightarrow> profiling_writer \<Rightarrow> raw_data list \<times> profiling_writer" where
  "write_all [] w = ([], w)"
| "write_all (p # ps) w =
     (let (cs, w) = Write p w; (ds, w) = write_all ps w in (cs @ ds, w))"

section \<open>Labels\<close>

type_synonym label_set = "(string \<times> string) list"

fun label_args :: "string list \<Rightarrow> label_set" where
  "label_args (k # v # args) = (k, v) # label_args args"
| "label_args _ = []"

text \<open>
  The de-duplication loop: a label whose predecessor in the sorted list has the same key
  replaces the last label kept.
\<close>

fun dedup_from :: "string \<times> string \<Rightarrow> label_set \<Rightarrow> label_set" where
  "dedup_from l [] = [l]"
| "dedup_from l (m # ms) = (if fst m = fst l then dedup_from m ms else l # dedup_from m ms)"

definition dedup :: "label_set \<Rightarrow> label_set" where
  "dedup ls = (case ls of [] \<Rightarrow> [] | l # ls \<Rightarrow> dedup_from l ls)"

text \<open>Go compares strings by bytes.\<close>

fun str_less :: "string \<Rightarrow> string \<Rightarrow> bool" where
  "str_less [] [] = False"
| "str_less [] (y # ys) = True"
| "str_less (x # xs) [] = False"
| "str_less (x # xs) (y # ys) = (of_char x < (of_char y :: nat) \<or> x = y \<and> str_less xs ys)"

text \<open>SliceStable: insertion keeps equal keys in order.\<close>

fun insert_label :: "string \<times> string \<Rightarrow> label_set \<Rightarrow> label_set" where
  "insert_label l [] = [l]"
| "insert_label l (m # ms) = (if str_less (fst m) (fst l) then m # insert_label l ms else l # m # ms)"

definition sort_labels :: "label_set \<Rightarrow> label_set" where
  "sort_labels ls = foldr insert_label ls []"

definition UpdateTraceLabels :: "label_set \<Rightarrow> string list \<Rightarrow> string + label_set" where
  "UpdateTraceLabels s args =
     (if length args mod 2 \<noteq> 0 then Err ''uneven number of arguments to profile.UpdateTraceLabels''
      else Ok (dedup (sort_labels (s @ label_args args))))"

definition TraceLabel :: string where "TraceLabel = ''traceID''"
definition SegmentLabel :: string where "SegmentLabel = ''traceSegmentID''"
definition MinDurationLabel :: string where "MinDurationLabel = ''minDurationThreshold''"
definition SpanLabel :: string where "SpanLabel = ''spanID''"

definition AddSkyLabels :: "label_set \<Rightarrow> string \<Rightarrow> string \<Rightarrow> i32 \<Rightarrow> string + label_set" where
  "AddSkyLabels now traceID segmentID spanID =
     UpdateTraceLabels now [TraceLabel, traceID, SegmentLabel, segmentID, SpanLabel, itoa (sint spanID)]"

definition generateProfileLabels :: "string \<Rightarrow> int \<Rightarrow> string + label_set" where
  "generateProfileLabels traceSegmentID minDurationThreshold =
     UpdateTraceLabels [] [SegmentLabel, traceSegmentID, MinDurationLabel, itoa minDurationThreshold]"

definition extractSkyInternalLabels :: "label_set \<Rightarrow> label_set" where
  "extractSkyInternalLabels s =
     filter (\<lambda>l. fst l = SpanLabel \<or> fst l = SegmentLabel \<or> fst l = TraceLabel \<or> fst l = MinDurationLabel) s"

fun label_list :: "label_set \<Rightarrow> string list" where
  "label_list [] = []"
| "label_list ((k, v) # ls) = k # v # label_list ls"

section \<open>What the events mean\<close>

lemmas event_defs = GetBaseEventStatus_def UpdateBaseEventStatus_def ExecuteComplexEvent_def evalExpr_def
  getRuleValue_def

definition profile_events :: "event_manager \<Rightarrow> bool" where
  "profile_events m \<longleftrightarrow>
     ComplexEvents m = ComplexEvents (RegisterProfileEvents NewEventManager) \<and>
     dom (BaseEventStatus m) = {IfProfiling, CurTaskExist}"

definition base_status :: "event_manager \<Rightarrow> string \<Rightarrow> bool" where
  "base_status m e = (BaseEventStatus m e = Some True)"

lemma event_names: "IfProfiling \<noteq> CurTaskExist" "CouldProfile \<noteq> CouldSetCurTask"
  by (simp_all add: IfProfiling_def CurTaskExist_def CouldProfile_def CouldSetCurTask_def)

lemma profile_events_init:
  "profile_events (RegisterProfileEvents NewEventManager)"
  "\<not> base_status (RegisterProfileEvents NewEventManager) e"
  by (auto simp: profile_events_def base_status_def RegisterProfileEvents_def RegisterBaseEvent_def
        RegisterComplexEvent_def NewEventManager_def Let_def)

lemma profile_events_update:
  assumes "profile_events m" "e \<in> {IfProfiling, CurTaskExist}"
  shows "\<exists>m'. UpdateBaseEventStatus e b m = Ok m' \<and> profile_events m' \<and>
           (\<forall>e'. base_status m' e' = (if e' = e then b else base_status m e'))"
proof -
  have "e \<in> dom (BaseEventStatus m)"
    using assms by (simp add: profile_events_def)
  then obtain s where "BaseEventStatus m e = Some s"
    by auto
  then show ?thesis
    using assms by (auto simp: UpdateBaseEventStatus_def profile_events_def base_status_def)
qed

lemma profile_events_base:
  assumes "profile_events m" "e \<in> {IfProfiling, CurTaskExist}"
  shows "BaseEventStatus m e = Some (base_status m e)"
proof -
  have "e \<in> dom (BaseEventStatus m)"
    using assms by (simp add: profile_events_def)
  then show ?thesis
    by (auto simp: base_status_def)
qed

lemma complex_events:
  assumes "profile_events m"
  shows "ExecuteComplexEvent CouldProfile m = Ok (\<not> base_status m IfProfiling \<and> base_status m CurTaskExist)"
    and "ExecuteComplexEvent CouldSetCurTask m = Ok (\<not> base_status m IfProfiling \<and> \<not> base_status m CurTaskExist)"
  using assms profile_events_base [OF assms, of IfProfiling] profile_events_base [OF assms, of CurTaskExist]
  by (simp_all add: profile_events_def event_defs RegisterProfileEvents_def RegisterBaseEvent_def
        RegisterComplexEvent_def NewEventManager_def event_names event_names [symmetric] Let_def)

section \<open>Nothing is lost between the chunks\<close>

lemma send_chunks_all:
  assumes "0 < n" "send_chunks n buf = (cs, rest)"
  shows "concat (map fst cs) @ rest = buf \<and> length rest < n \<and> (\<forall>c\<in>set cs. length (fst c) = n \<and> \<not> snd c)"
  using assms
proof (induction n buf arbitrary: cs rest rule: send_chunks.induct)
  case (1 n buf)
  show ?case
  proof (cases "length buf < n")
    case True
    then show ?thesis
      using "1.prems" by (simp add: send_chunks.simps [of n buf])
  next
    case False
    obtain ds r where ds: "send_chunks n (drop n buf) = (ds, r)"
      by fastforce
    have cs: "cs = (take n buf, False) # ds" "rest = r"
      using "1.prems" False ds by (simp_all add: send_chunks.simps [of n buf])
    have "concat (map fst ds) @ r = drop n buf \<and> length r < n \<and> (\<forall>c\<in>set ds. length (fst c) = n \<and> \<not> snd c)"
      using "1.IH" "1.prems"(1) False ds by simp
    then show ?thesis
      using False cs by simp
  qed
qed

lemma write_all_chunks:
  assumes "0 < wr_chunkSize w" "write_all ps w = (cs, w')"
  shows "concat (map fst cs) @ wr_buf w' = wr_buf w @ concat ps \<and> (\<forall>c\<in>set cs. length (fst c) = wr_chunkSize w \<and> \<not> snd c)"
  using assms
proof (induction ps arbitrary: w cs)
  case (Cons p ps)
  obtain as rest where as: "send_chunks (wr_chunkSize w) (wr_buf w @ p) = (as, rest)"
    by fastforce
  obtain ds w2 where ds: "write_all ps (w\<lparr>wr_buf := rest\<rparr>) = (ds, w2)"
    by fastforce
  have cs: "cs = as @ ds" "w2 = w'"
    using Cons.prems(2) as ds by (simp_all add: Write_def)
  have "concat (map fst ds) @ wr_buf w' = rest @ concat ps \<and> (\<forall>c\<in>set ds. length (fst c) = wr_chunkSize w \<and> \<not> snd c)"
    using Cons.IH [of "w\<lparr>wr_buf := rest\<rparr>" ds] Cons.prems(1) ds cs by simp
  moreover have "concat (map fst as) @ rest = wr_buf w @ p" "\<forall>c\<in>set as. length (fst c) = wr_chunkSize w \<and> \<not> snd c"
    using send_chunks_all [OF Cons.prems(1) as] by simp_all
  ultimately show ?case
    using cs by (simp add: ball_Un)
qed simp

lemma write_all_short:
  assumes "0 < wr_chunkSize w" "length (wr_buf w) < wr_chunkSize w" "write_all ps w = (cs, w')"
  shows "length (wr_buf w') < wr_chunkSize w"
  using assms
proof (induction ps arbitrary: w cs)
  case (Cons p ps)
  obtain as rest where as: "send_chunks (wr_chunkSize w) (wr_buf w @ p) = (as, rest)"
    by fastforce
  obtain ds w2 where ds: "write_all ps (w\<lparr>wr_buf := rest\<rparr>) = (ds, w2)"
    by fastforce
  have "w2 = w'"
    using Cons.prems(3) as ds by (simp add: Write_def)
  then show ?case
    using Cons.IH [of "w\<lparr>wr_buf := rest\<rparr>" ds] Cons.prems(1) ds send_chunks_all [OF Cons.prems(1) as]
    by simp
qed simp

text \<open>
  C16. Whatever sizes the profiler writes in, the chunks the writer sends and the last one of
  Flush concatenate to what was written; every chunk but the last has exactly the chunk size,
  the last is the only one marked as last and is shorter than a chunk, and the writer is empty
  again afterwards.
\<close>
theorem profile_chunks_round_trip:
  assumes "0 < n" "write_all ps (NewProfilingWriter n) = (cs, w)" "Flush w = (ds, w')"
  shows "concat (map fst (cs @ ds)) = concat ps \<and>
         (\<exists>d. ds = [(d, True)] \<and> length d < n) \<and>
         (\<forall>c\<in>set cs. length (fst c) = n \<and> \<not> snd c) \<and> wr_buf w' = []"
proof -
  have *: "concat (map fst cs) @ wr_buf w = concat ps" "\<forall>c\<in>set cs. length (fst c) = n \<and> \<not> snd c"
    using write_all_chunks [OF _ assms(2)] assms(1) by (simp_all add: NewProfilingWriter_def)
  have "length (wr_buf w) < n"
    using write_all_short [OF _ _ assms(2)] assms(1) by (simp add: NewProfilingWriter_def)
  then show ?thesis
    using * assms(1,3) by (auto simp: Flush_def split: if_splits)
qed

theorem profile_chunks_round_trip_witness:
  "\<exists>d. [(''e'', True)] = [(d, True)] \<and> length d < 2"
proof -
  have w: "write_all [''a'', ''bcd'', ''e''] (NewProfilingWriter 2) = ([(''ab'', False), (''cd'', False)], \<lparr>wr_buf = ''e'', wr_chunkSize = 2\<rparr>)"
    by (simp add: Write_def NewProfilingWriter_def send_chunks.simps)
  have f: "Flush \<lparr>wr_buf = ''e'', wr_chunkSize = 2\<rparr> = ([(''e'', True)], \<lparr>wr_buf = [], wr_chunkSize = 2\<rparr>)"
    by (simp add: Flush_def)
  show ?thesis
    using profile_chunks_round_trip [OF _ w f] by simp
qed


section \<open>The label set\<close>

lemma str_less_irrefl [simp]: "\<not> str_less s s"
  by (induction s) auto

lemma str_less_trans: "str_less a b \<Longrightarrow> str_less b c \<Longrightarrow> str_less a c"
proof (induction a b arbitrary: c rule: str_less.induct)
  case (4 x xs y ys)
  then show ?case
    by (cases c) auto
next
  case (2 y ys)
  then show ?case
    by (cases c) auto
qed auto

lemma str_less_linear: "str_less a b \<or> a = b \<or> str_less b a"
proof (induction a b rule: str_less.induct)
  case (4 x xs y ys)
  then show ?case
    by (metis str_less.simps(4) linorder_neqE_nat of_char_eq_iff)
qed auto

lemma str_less_le_trans: "str_less a b \<Longrightarrow> \<not> str_less c b \<Longrightarrow> str_less a c"
  using str_less_linear [of b c] str_less_trans by auto

fun label_sorted :: "label_set \<Rightarrow> bool" where
  "label_sorted [] = True"
| "label_sorted (l # ls) = ((\<forall>m\<in>set ls. \<not> str_less (fst m) (fst l)) \<and> label_sorted ls)"

fun label_strict :: "label_set \<Rightarrow> bool" where
  "label_strict [] = True"
| "label_strict (l # ls) = ((\<forall>m\<in>set ls. str_less (fst l) (fst m)) \<and> label_strict ls)"

lemma set_insert_label [simp]: "set (insert_label l ls) = insert l (set ls)"
  by (induction ls) auto

lemma insert_label_sorted: "label_sorted ls \<Longrightarrow> label_sorted (insert_label l ls)"
proof (induction ls)
  case (Cons m ms)
  then show ?case
    using str_less_linear [of "fst m" "fst l"] str_less_trans
    by (cases "str_less (fst m) (fst l)") fastforce+
qed simp

lemma insert_label_map: "map_of (rev (insert_label l ls)) = map_of (rev (l # ls))"
proof (induction ls)
  case (Cons m ms)
  show ?case
  proof (cases "str_less (fst m) (fst l)")
    case True
    then have ne: "fst m \<noteq> fst l"
      by auto
    have "map_of (rev (insert_label l (m # ms))) = map_of [m] ++ map_of (rev (insert_label l ms))"
      using True by (simp add: map_of_append)
    also have "\<dots> = map_of [m] ++ (map_of [l] ++ map_of (rev ms))"
      using Cons by (simp add: map_of_append)
    also have "\<dots> = map_of [l] ++ (map_of [m] ++ map_of (rev ms))"
      using ne by (auto simp: map_add_def fun_eq_iff split: option.splits)
    finally show ?thesis
      by (simp add: map_of_append)
  qed simp
qed simp

lemma sort_labels_sorted: "label_sorted (sort_labels ls)"
  unfolding sort_labels_def by (induction ls) (simp_all add: insert_label_sorted)

lemma sort_labels_map: "map_of (rev (sort_labels ls)) = map_of (rev ls)"
  unfolding sort_labels_def by (induction ls) (simp_all add: insert_label_map map_of_append)

lemma label_sorted_head:
  assumes "label_sorted (l # m # ms)" "fst m \<noteq> fst l"
  shows "\<forall>x\<in>insert m (set ms). str_less (fst l) (fst x)"
proof
  fix x assume x: "x \<in> insert m (set ms)"
  have "str_less (fst l) (fst m)"
    using assms str_less_linear [of "fst l" "fst m"] by auto
  moreover have "\<not> str_less (fst x) (fst m)"
    using assms(1) x by auto
  ultimately show "str_less (fst l) (fst x)"
    by (rule str_less_le_trans)
qed

lemma dedup_from_keys: "set (dedup_from l ms) \<subseteq> insert l (set ms)"
  by (induction ms arbitrary: l) auto

lemma dedup_from_strict: "label_sorted (l # ms) \<Longrightarrow> label_strict (dedup_from l ms)"
proof (induction ms arbitrary: l)
  case (Cons m ms)
  show ?case
  proof (cases "fst m = fst l")
    case False
    have "\<forall>x\<in>insert m (set ms). str_less (fst l) (fst x)"
      by (rule label_sorted_head [OF Cons.prems False])
    moreover have "label_strict (dedup_from m ms)"
      using Cons by simp
    ultimately show ?thesis
      using False dedup_from_keys [of m ms] by auto
  next
    case True
    then show ?thesis
      using Cons by simp
  qed
qed simp

lemma dedup_from_map: "label_sorted (l # ms) \<Longrightarrow> map_of (dedup_from l ms) = map_of (rev (l # ms))"
proof (induction ms arbitrary: l)
  case (Cons m ms)
  have IH: "map_of (dedup_from m ms) = map_of [m] ++ map_of (rev ms)"
    using Cons by (simp add: map_of_append)
  show ?case
  proof (cases "fst m = fst l")
    case True
    then show ?thesis
      using IH by (auto simp: map_of_append map_add_def fun_eq_iff split: option.splits)
  next
    case False
    have "\<forall>x\<in>insert m (set ms). str_less (fst l) (fst x)"
      by (rule label_sorted_head [OF Cons.prems False])
    then have "\<forall>x\<in>insert m (set ms). fst x \<noteq> fst l"
      using str_less_irrefl by metis
    then have "map_of (rev (m # ms)) (fst l) = None"
      by (auto simp: map_of_eq_None_iff)
    then show ?thesis
      using IH False by (auto simp: map_of_append map_add_def fun_eq_iff split: option.splits)
  qed
qed simp

lemma dedup_sorted:
  "label_sorted ls \<Longrightarrow> label_strict (dedup ls) \<and> map_of (dedup ls) = map_of (rev ls)"
  by (cases ls) (auto simp: dedup_def dedup_from_strict dedup_from_map simp del: rev.simps)

text \<open>
  A successful update of a label set has its keys in strictly ascending byte order, hence
  each key once, and maps every key to its last value among the new labels, else to the last
  value it had; an odd number of arguments is the only error.
\<close>
theorem UpdateTraceLabels_correct:
  "case UpdateTraceLabels s args of
     Inr ls \<Rightarrow> even (length args) \<and> label_strict ls \<and>
               map_of ls = map_of (rev s) ++ map_of (rev (label_args args))
   | Inl e \<Rightarrow> odd (length args)"
  using dedup_sorted [OF sort_labels_sorted, of "s @ label_args args"]
  by (auto simp: UpdateTraceLabels_def sort_labels_map map_of_append)


section \<open>The slices behind a label set\<close>

text \<open>
  UpdateTraceLabels takes its set by value, but the list in it is a slice: append writes into
  the spare capacity of the array it shares with the caller, and the sort is in place.  A store
  holds the arrays, each with its whole capacity; a slice is an array and a length.  The
  capacity the runtime adds when append has to grow an array is the parameter grow.
\<close>

type_synonym label_store = "label_set list"
type_synonym label_slice = "nat \<times> nat"

definition slice_ok :: "label_store \<Rightarrow> label_slice \<Rightarrow> bool" where
  "slice_ok st s = (fst s < length st \<and> snd s \<le> length (st ! fst s))"

definition slice_labels :: "label_store \<Rightarrow> label_slice \<Rightarrow> label_set" where
  "slice_labels st s = take (snd s) (st ! fst s)"

definition append_label ::
  "(nat \<Rightarrow> nat) \<Rightarrow> label_store \<times> label_slice \<Rightarrow> string \<times> string \<Rightarrow> label_store \<times> label_slice" where
  "append_label grow = (\<lambda>(st, (a, n)) l.
     if n < length (st ! a) then (st[a := (st ! a)[n := l]], (a, n + 1))
     else (st @ [take n (st ! a) @ [l] @ replicate (grow n) ([], [])], (length st, n + 1)))"

definition sort_slice :: "label_store \<Rightarrow> label_slice \<Rightarrow> label_store" where
  "sort_slice st s = st[fst s := sort_labels (slice_labels st s) @ drop (snd s) (st ! fst s)]"

definition dedup_slice :: "label_store \<Rightarrow> label_slice \<Rightarrow> label_store \<times> label_slice" where
  "dedup_slice st s =
     (let ls = dedup (slice_labels st s)
      in (st @ [ls @ replicate (snd s - length ls) ([], [])], (length st, length ls)))"

definition update_slice ::
  "(nat \<Rightarrow> nat) \<Rightarrow> label_store \<Rightarrow> label_slice \<Rightarrow> label_set \<Rightarrow> label_store \<times> label_slice" where
  "update_slice grow st s ls =
     (let (st, s) = foldl (append_label grow) (st, s) ls in dedup_slice (sort_slice st s) s)"

lemma append_label_ok:
  assumes "slice_ok st s" "append_label grow (st, s) l = (st', s')"
  shows "slice_ok st' s' \<and> slice_labels st' s' = slice_labels st s @ [l]"
  using assms
  by (cases s) (auto simp: append_label_def slice_ok_def slice_labels_def take_Suc_conv_app_nth nth_append
      split: if_splits)

lemma append_labels_ok:
  assumes "slice_ok st s" "foldl (append_label grow) (st, s) ls = (st', s')"
  shows "slice_ok st' s' \<and> slice_labels st' s' = slice_labels st s @ ls"
  using assms
proof (induction ls arbitrary: st s)
  case (Cons l ls)
  obtain st1 s1 where 1: "append_label grow (st, s) l = (st1, s1)"
    by (metis surj_pair)
  show ?case
    using append_label_ok [OF Cons.prems(1) 1] Cons.IH [of st1 s1] Cons.prems(2) 1 by simp
qed simp

lemma sort_insert_length [simp]: "length (insert_label l ls) = Suc (length ls)"
  by (induction ls) auto

lemma sort_labels_length [simp]: "length (sort_labels ls) = length ls"
  unfolding sort_labels_def by (induction ls) auto

lemma sort_slice_ok:
  "slice_ok st s \<Longrightarrow> slice_labels (sort_slice st s) s = sort_labels (slice_labels st s)"
  by (auto simp: slice_ok_def slice_labels_def sort_slice_def min_def)

lemma dedup_slice_labels:
  "dedup_slice st s = (st', s') \<Longrightarrow> slice_labels st' s' = dedup (slice_labels st s)"
  by (auto simp: dedup_slice_def slice_labels_def Let_def)



lemma label_order [simp]:
  "str_less MinDurationLabel SpanLabel" "str_less MinDurationLabel TraceLabel" "str_less MinDurationLabel SegmentLabel"
  "str_less SpanLabel TraceLabel" "str_less SpanLabel SegmentLabel" "str_less TraceLabel SegmentLabel"
  by code_simp+

lemma label_order_not [simp]:
  "\<not> str_less SpanLabel MinDurationLabel" "\<not> str_less TraceLabel MinDurationLabel"
  "\<not> str_less SegmentLabel MinDurationLabel" "\<not> str_less TraceLabel SpanLabel"
  "\<not> str_less SegmentLabel SpanLabel" "\<not> str_less SegmentLabel TraceLabel"
  by code_simp+

lemma label_neq [simp]:
  "MinDurationLabel \<noteq> SpanLabel" "MinDurationLabel \<noteq> TraceLabel" "MinDurationLabel \<noteq> SegmentLabel"
  "SpanLabel \<noteq> TraceLabel" "SpanLabel \<noteq> SegmentLabel" "TraceLabel \<noteq> SegmentLabel"
  by (simp_all add: MinDurationLabel_def SpanLabel_def TraceLabel_def SegmentLabel_def)

definition sky_labels :: "string \<Rightarrow> string \<Rightarrow> string \<Rightarrow> label_set" where
  "sky_labels t s sp = [(TraceLabel, t), (SegmentLabel, s), (SpanLabel, sp)]"


lemmas slice_steps = update_slice_def sky_labels_def append_label_def sort_slice_def slice_labels_def
  sort_labels_def dedup_slice_def dedup_def nth_append

lemma sky_update_first:
  "update_slice (\<lambda>n. n) [[(MinDurationLabel, m), (SegmentLabel, s)]] (0, 2) (sky_labels t s a) =
   ([[(MinDurationLabel, m), (SegmentLabel, s)],
     [(MinDurationLabel, m), (SpanLabel, a), (TraceLabel, t), (SegmentLabel, s), (SegmentLabel, s)],
     [(MinDurationLabel, m), (SpanLabel, a), (TraceLabel, t), (SegmentLabel, s), ([], [])]], (2, 4))"
  by (simp add: slice_steps list_update_append label_neq [symmetric] Let_def eval_nat_numeral)

lemma sky_update_second:
  "update_slice (\<lambda>n. n)
     (st @ [[(MinDurationLabel, m), (SpanLabel, a), (TraceLabel, t), (SegmentLabel, s), ([], [])]])
     (length st, 4) (sky_labels t s b) =
   (st @ [[(MinDurationLabel, m), (SpanLabel, a), (TraceLabel, t), (SegmentLabel, s), (TraceLabel, t)],
          [(MinDurationLabel, m), (SpanLabel, a), (SpanLabel, b), (TraceLabel, t), (TraceLabel, t), (SegmentLabel, s), (SegmentLabel, s)] @ replicate 4 ([], []),
          [(MinDurationLabel, m), (SpanLabel, b), (TraceLabel, t), (SegmentLabel, s)] @ replicate 3 ([], [])], (length st + 2, 4))"
  by (simp add: slice_steps list_update_append label_neq [symmetric] Let_def eval_nat_numeral)

lemma sky_update_in_place:
  "update_slice grow (st @ [[(MinDurationLabel, m), (SpanLabel, b), (TraceLabel, t), (SegmentLabel, s)] @ replicate 3 ([], [])])
     (length st, 4) (sky_labels t s c) =
   (st @ [[(MinDurationLabel, m), (SpanLabel, b), (SpanLabel, c), (TraceLabel, t), (TraceLabel, t), (SegmentLabel, s), (SegmentLabel, s)],
          [(MinDurationLabel, m), (SpanLabel, c), (TraceLabel, t), (SegmentLabel, s)] @ replicate 3 ([], [])], (length st + 1, 4))"
  by (simp add: slice_steps list_update_append label_neq [symmetric] Let_def eval_nat_numeral)

text \<open>
  The label set of a goroutine is overwritten by the third span added to a profiled segment:
  from the set made by generateProfileLabels and with an append that doubles, the set installed
  for the second span (b) holds four labels, and while the set of the third (c) is computed it
  loses its segment label and gets the span label twice.  The runtime shares that set with
  every goroutine started under it.
\<close>
theorem label_set_overwritten:
  "\<exists>st1 s1 st2 s2 st3 s3.
     update_slice (\<lambda>n. n) [[(MinDurationLabel, m), (SegmentLabel, s)]] (0, 2) (sky_labels t s a) = (st1, s1) \<and>
     update_slice (\<lambda>n. n) st1 s1 (sky_labels t s b) = (st2, s2) \<and>
     update_slice (\<lambda>n. n) st2 s2 (sky_labels t s c) = (st3, s3) \<and>
     slice_labels st2 s2 = [(MinDurationLabel, m), (SpanLabel, b), (TraceLabel, t), (SegmentLabel, s)] \<and>
     slice_labels st3 s2 = [(MinDurationLabel, m), (SpanLabel, b), (SpanLabel, c), (TraceLabel, t)]"
proof -
  let ?g = "\<lambda>n::nat. n"
  let ?A = "[(MinDurationLabel, m), (SegmentLabel, s)]"
  let ?B = "[(MinDurationLabel, m), (SpanLabel, a), (TraceLabel, t), (SegmentLabel, s), (SegmentLabel, s)]"
  let ?C = "[(MinDurationLabel, m), (SpanLabel, a), (TraceLabel, t), (SegmentLabel, s), (TraceLabel, t)]"
  let ?D = "[(MinDurationLabel, m), (SpanLabel, a), (SpanLabel, b), (TraceLabel, t), (TraceLabel, t), (SegmentLabel, s), (SegmentLabel, s)] @ replicate 4 ([], [])"
  note 1 = sky_update_first [of m s t a]
  note 2 = sky_update_second [of "[?A, ?B]" m a t s b]
  note 3 = sky_update_in_place [of ?g "[?A, ?B, ?C, ?D]" m b t s c]
  show ?thesis
    using 1 2 3 by (simp add: slice_labels_def eval_nat_numeral)
qed


section \<open>Go versions\<close>

definition is_digit :: "char \<Rightarrow> bool" where
  "is_digit c = (48 \<le> (of_char c :: nat) \<and> (of_char c :: nat) \<le> 57)"

text \<open>The leftmost match of go(\d+)\.(\d+): the groups are maximal runs of digits.\<close>

fun go_version :: "string \<Rightarrow> (string \<times> string) option" where
  "go_version [] = None"
| "go_version (c # s) =
     (let r = tl s; major = takeWhile is_digit r; r1 = dropWhile is_digit r; minor = takeWhile is_digit (tl r1)
      in if c = CHR ''g'' \<and> s \<noteq> [] \<and> hd s = CHR ''o'' \<and> major \<noteq> [] \<and> r1 \<noteq> [] \<and> hd r1 = CHR ''.'' \<and> minor \<noteq> []
         then Some (major, minor) else go_version s)"

definition isGoVersionLMoreThan120 :: "string \<Rightarrow> bool" where
  "isGoVersionLMoreThan120 version =
     (case go_version version of
        None \<Rightarrow> False
      | Some (a, b) \<Rightarrow>
          (let (major, err1) = atoi a; (minor, err2) = atoi b
           in if err1 \<noteq> None \<or> err2 \<noteq> None then False
              else if major < 1 then False else if major > 1 then True else minor \<ge> 20))"

lemma is_digit_itoa: "0 \<le> i \<Longrightarrow> \<forall>c\<in>set (itoa i). is_digit c"
  by (auto simp: itoa_def is_digit_def dest!: set_nat_digits)

lemma digits_then:
  assumes "\<forall>c\<in>set xs. is_digit c" "ys = [] \<or> \<not> is_digit (hd ys)"
  shows "takeWhile is_digit (xs @ ys) = xs" "dropWhile is_digit (xs @ ys) = ys"
  using assms by (induction xs) (auto simp: takeWhile_eq_Nil_iff dropWhile_eq_self_iff)

lemma isGoVersion_correct:
  assumes "0 \<le> M" "M < 2 ^ 63" "0 \<le> N" "N < 2 ^ 63" "rest = [] \<or> \<not> is_digit (hd rest)"
  shows "isGoVersionLMoreThan120 (''go'' @ itoa M @ ''.'' @ itoa N @ rest) \<longleftrightarrow> 1 < M \<or> M = 1 \<and> 20 \<le> N"
proof -
  have "\<not> is_digit CHR ''.''"
    by (simp add: is_digit_def)
  then have "go_version (''go'' @ itoa M @ ''.'' @ itoa N @ rest) = Some (itoa M, itoa N)"
    using digits_then [of "itoa M" "''.'' @ itoa N @ rest"] digits_then [of "itoa N" rest] assms
      is_digit_itoa [of M] is_digit_itoa [of N]
    by (simp add: Let_def)
  moreover have "atoi (itoa M) = (M, None)" "atoi (itoa N) = (N, None)"
    using parse_int_itoa [of 10 63 M] parse_int_itoa [of 10 63 N] assms by (simp_all add: atoi_def)
  ultimately show ?thesis
    using assms by (auto simp: isGoVersionLMoreThan120_def)
qed

section \<open>Labels of the old runtimes\<close>

text \<open>Before Go 1.20 the labels of a goroutine are a map; withLabels19 overlays the set on it.\<close>

definition withLabels19 :: "(string \<rightharpoonup> string) \<Rightarrow> label_set \<Rightarrow> (string \<rightharpoonup> string)" where
  "withLabels19 parentLabels labels = foldl (\<lambda>m (k, v). m(k \<mapsto> v)) parentLabels labels"

lemma withLabels19_map: "withLabels19 p ls = p ++ map_of (rev ls)"
  unfolding withLabels19_def by (induction ls arbitrary: p) (auto simp: map_of_append map_add_def fun_eq_iff split: option.splits)

end
