(* ===== verification/Profile_Manager.thy ===== *)
theory Profile_Manager
  imports Profile_Events
begin

text \<open>
  The manager of trace profiling (plugins/core/profile.go).  Every locked section of a method,
  and every stretch of a goroutine between two blocking points, is one function on the state of
  the manager; profile_step interleaves them: the commands of the backend, the timers addTask
  starts, the profiler that writes into the chunking writer, the monitor goroutine, the worker of
  the report channel and the reporter.  Times are nanoseconds since the epoch.  Tasks are shared
  by pointer between the queue and TraceProfileTask, and the queue only grows: a pointer to a task
  is its index in the queue.  Log lines are left out.  Whether pprof.StartCPUProfile fails
  (another CPU profile is running) is an argument.  The channels are unbounded here where the
  program blocks at 100 entries: the order of their entries is the same.
\<close>

datatype task_status = Pending | Running | Finished | Reported

record profile_task =
  pt_SerialNumber :: string
  pt_TaskID :: string
  pt_EndpointName :: string
  pt_Duration :: int
  pt_MinDurationThreshold :: int
  pt_DumpPeriod :: int
  pt_MaxSamplingCount :: int
  pt_StartTime :: int
  pt_CreateTime :: int
  pt_Status :: task_status
  pt_EndTime :: int

record current_task =
  ct_serialNumber :: string
  ct_taskID :: string
  ct_minDurationThreshold :: int
  ct_endpointName :: string
  ct_endTime :: int
  ct_duration :: int

record profile_result =
  pr_Payload :: string
  pr_TaskID :: string
  pr_IsLast :: bool

record profile_manager =
  TraceProfileTask :: "nat option"
  ProfileTaskQueue :: "profile_task list"
  rawCh :: "raw_data list"
  FinalReportResults :: "profile_result list"
  profilingWriter :: profiling_writer
  profileEvents :: event_manager
  currentTask :: "current_task option"

definition timeOut :: int where "timeOut = 120000000000"
definition ChunkSize :: nat where "ChunkSize = 1024 * 1024"

definition NewProfileManager :: profile_manager where
  "NewProfileManager =
     \<lparr>TraceProfileTask = None, ProfileTaskQueue = [], rawCh = [], FinalReportResults = [],
      profilingWriter = NewProfilingWriter ChunkSize,
      profileEvents = RegisterProfileEvents NewEventManager, currentTask = None\<rparr>"

section \<open>Tasks\<close>

definition parseInt64 :: "string \<Rightarrow> int" where "parseInt64 s = fst (parse_int s 10 64)"
definition parseInt :: "string \<Rightarrow> int" where "parseInt s = fst (atoi s)"

text \<open>time.Duration(d) * time.Minute is an int64 product.\<close>

definition minutes :: "int \<Rightarrow> int" where
  "minutes d = sint (word_of_int (d * 60000000000) :: 64 word)"

definition UnixMilli :: "int \<Rightarrow> int" where "UnixMilli ms = ms * 1000000"

definition empty_task :: profile_task where
  "empty_task =
     \<lparr>pt_SerialNumber = [], pt_TaskID = [], pt_EndpointName = [], pt_Duration = 0,
      pt_MinDurationThreshold = 0, pt_DumpPeriod = 0, pt_MaxSamplingCount = 0, pt_StartTime = 0,
      pt_CreateTime = 0, pt_Status = Pending, pt_EndTime = 0\<rparr>"

definition task_arg :: "string \<times> string \<Rightarrow> profile_task \<times> int \<Rightarrow> profile_task \<times> int" where
  "task_arg = (\<lambda>(k, v) (task, t).
     if k = ''TaskId'' then (task\<lparr>pt_TaskID := v\<rparr>, t)
     else if k = ''EndpointName'' then (task\<lparr>pt_EndpointName := v\<rparr>, t)
     else if k = ''Duration'' then (task\<lparr>pt_Duration := parseInt v\<rparr>, t)
     else if k = ''MinDurationThreshold'' then (task\<lparr>pt_MinDurationThreshold := parseInt64 v\<rparr>, t)
     else if k = ''DumpPeriod'' then (task\<lparr>pt_DumpPeriod := parseInt v\<rparr>, t)
     else if k = ''MaxSamplingCount'' then (task\<lparr>pt_MaxSamplingCount := parseInt v\<rparr>, t)
     else if k = ''StartTime'' then (task\<lparr>pt_StartTime := UnixMilli (parseInt64 v)\<rparr>, t)
     else if k = ''CreateTime'' then
       (let temp = parseInt64 v in (task\<lparr>pt_CreateTime := UnixMilli temp\<rparr>, if temp > t then temp else t))
     else if k = ''SerialNumber'' then (task\<lparr>pt_SerialNumber := v\<rparr>, t)
     else (task, t))"

definition overlaps :: "profile_task \<Rightarrow> profile_task \<Rightarrow> bool" where
  "overlaps task t = (pt_EndTime task > pt_StartTime t \<and> pt_StartTime task < pt_EndTime t)"

text \<open>addTask: the manager and the timer it starts, as the due time and the task.\<close>

definition addTask :: "int \<Rightarrow> profile_task \<Rightarrow> profile_manager \<Rightarrow> profile_manager \<times> (int \<times> nat) option" where
  "addTask now task m =
     (if list_ex (overlaps task) (ProfileTaskQueue m) then (m, None)
      else (let delay = pt_StartTime task - now; delay = (if delay < 0 then 0 else delay)
            in (m\<lparr>ProfileTaskQueue := ProfileTaskQueue m @ [task]\<rparr>,
                Some (now + delay, length (ProfileTaskQueue m)))))"

definition AddProfileTask ::
  "int \<Rightarrow> (string \<times> string) list \<Rightarrow> int \<Rightarrow> profile_manager \<Rightarrow> profile_manager \<times> (int \<times> nat) option \<times> int" where
  "AddProfileTask now args t m =
     (let (task, t) = foldl (\<lambda>acc a. task_arg a acc) (empty_task, t) args;
          task = task\<lparr>pt_EndTime := pt_StartTime task + minutes (pt_Duration task), pt_Status := Pending\<rparr>;
          (m, timer) = addTask now task m
      in (m, timer, t))"

definition set_status :: "nat \<Rightarrow> task_status \<Rightarrow> profile_manager \<Rightarrow> profile_manager" where
  "set_status i s m =
     m\<lparr>ProfileTaskQueue := (ProfileTaskQueue m)[i := (ProfileTaskQueue m ! i)\<lparr>pt_Status := s\<rparr>]\<rparr>"

definition RemoveProfileTask :: "int \<Rightarrow> profile_manager \<Rightarrow> profile_manager" where
  "RemoveProfileTask now m =
     (case TraceProfileTask m of
        None \<Rightarrow> m
      | Some i \<Rightarrow>
          (let t = ProfileTaskQueue m ! i
           in if pt_Status t = Reported \<or> now > pt_EndTime t + timeOut then m\<lparr>TraceProfileTask := None\<rparr> else m))"

text \<open>ProfileFinish writes through TraceProfileTask: None is the nil dereference.\<close>

definition ProfileFinish :: "profile_manager \<Rightarrow> profile_manager option" where
  "ProfileFinish m =
     (case TraceProfileTask m of None \<Rightarrow> None | Some i \<Rightarrow> Some (set_status i Reported m))"

section \<open>Starting a profile\<close>

text \<open>The callers of UpdateBaseEventStatus log its error and go on.\<close>

definition set_event :: "string \<Rightarrow> bool \<Rightarrow> profile_manager \<Rightarrow> profile_manager" where
  "set_event e b m =
     (case UpdateBaseEventStatus e b (profileEvents m) of
        Inl err \<Rightarrow> m
      | Inr ev \<Rightarrow> m\<lparr>profileEvents := ev\<rparr>)"

definition IfProfilingNow :: "profile_manager \<Rightarrow> bool" where
  "IfProfilingNow m =
     (case GetBaseEventStatus IfProfiling (profileEvents m) of Inl err \<Rightarrow> False | Inr ok \<Rightarrow> ok)"

definition CheckIfProfileTarget :: "string \<Rightarrow> profile_manager \<Rightarrow> bool" where
  "CheckIfProfileTarget endpoint m =
     (case currentTask m of None \<Rightarrow> False | Some c \<Rightarrow> ct_endpointName c = endpoint)"

definition generateCurrentTask :: "profile_task \<Rightarrow> profile_manager \<Rightarrow> profile_manager" where
  "generateCurrentTask t m =
     set_event CurTaskExist True
       (m\<lparr>currentTask := Some
            \<lparr>ct_serialNumber = pt_SerialNumber t, ct_taskID = pt_TaskID t,
             ct_minDurationThreshold = pt_MinDurationThreshold t, ct_endpointName = pt_EndpointName t,
             ct_endTime = pt_EndTime t, ct_duration = pt_Duration t\<rparr>\<rparr>)"

text \<open>
  tryStartCPUProfiling: the manager and whether the monitor goroutine was started.  Its only
  caller has just set TraceProfileTask.
\<close>

definition tryStartCPUProfiling :: "bool \<Rightarrow> profile_manager \<Rightarrow> profile_manager \<times> bool" where
  "tryStartCPUProfiling startErr m =
     (case ExecuteComplexEvent CouldProfile (profileEvents m) of
        Inl err \<Rightarrow> (m, False)
      | Inr ok \<Rightarrow>
          (case TraceProfileTask m of
             None \<Rightarrow> (m, False)
           | Some i \<Rightarrow>
               if ok \<and> pt_Status (ProfileTaskQueue m ! i) = Pending then
                 (if startErr then (m, False)
                  else (set_status i Running (set_event IfProfiling True m), True))
               else (m, False)))"

definition trySetCurrentTaskAndStartProfile ::
  "int \<Rightarrow> bool \<Rightarrow> nat \<Rightarrow> profile_manager \<Rightarrow> profile_manager \<times> bool" where
  "trySetCurrentTaskAndStartProfile now startErr i m =
     (if (case currentTask m of None \<Rightarrow> False | Some c \<Rightarrow> now < ct_endTime c + timeOut) then (m, False)
      else (case ExecuteComplexEvent CouldSetCurTask (profileEvents m) of
              Inl err \<Rightarrow> (m, False)
            | Inr ok \<Rightarrow>
                if ok then tryStartCPUProfiling startErr (generateCurrentTask (ProfileTaskQueue m ! i) m)
                else (m, False)))"

text \<open>The function addTask gives to time.AfterFunc.\<close>

definition timer_fires :: "int \<Rightarrow> bool \<Rightarrow> nat \<Rightarrow> profile_manager \<Rightarrow> profile_manager \<times> bool" where
  "timer_fires now startErr i m =
     (if TraceProfileTask m \<noteq> None then (m, False)
      else trySetCurrentTaskAndStartProfile now startErr i (m\<lparr>TraceProfileTask := Some i\<rparr>))"

section \<open>The goroutines\<close>

definition profiler_writes :: "string \<Rightarrow> profile_manager \<Rightarrow> profile_manager" where
  "profiler_writes p m =
     (let (cs, w) = Write p (profilingWriter m) in m\<lparr>rawCh := rawCh m @ cs, profilingWriter := w\<rparr>)"

definition flush_writer :: "profile_manager \<Rightarrow> profile_manager" where
  "flush_writer m =
     (let (cs, w) = Flush (profilingWriter m) in m\<lparr>rawCh := rawCh m @ cs, profilingWriter := w\<rparr>)"

text \<open>The last locked section of the worker, after the last chunk was passed on.\<close>

definition finish_current :: "profile_manager \<Rightarrow> profile_manager" where
  "finish_current m =
     (let m = (case TraceProfileTask m of None \<Rightarrow> m | Some i \<Rightarrow> set_status i Finished m);
          m = m\<lparr>currentTask := None\<rparr>
      in m\<lparr>profileEvents := (profileEvents m)
            \<lparr>BaseEventStatus := (BaseEventStatus (profileEvents m))(CurTaskExist \<mapsto> False)\<rparr>\<rparr>)"

datatype monitor_state = MStart | MSleep int | MStopped | MFlush
datatype worker_state = WIdle | WSend current_task raw_data | WClear

text \<open>
  pw_written and pw_got are history: what the profiler wrote and what was put on
  FinalReportResults since the last profile was started.  pw_crashed: a nil dereference ended the
  reporter's loop (its recover is outside the loop) or the monitor.
\<close>

record profile_world =
  pw_m :: profile_manager
  pw_now :: int
  pw_timers :: "(int \<times> nat) list"
  pw_monitors :: "monitor_state list"
  pw_worker :: worker_state
  pw_written :: string
  pw_got :: "profile_result list"
  pw_crashed :: bool

definition profile_init :: profile_world where
  "profile_init =
     \<lparr>pw_m = NewProfileManager, pw_now = 0, pw_timers = [], pw_monitors = [], pw_worker = WIdle,
      pw_written = [], pw_got = [], pw_crashed = False\<rparr>"

definition do_add :: "(string \<times> string) list \<Rightarrow> int \<Rightarrow> profile_world \<Rightarrow> profile_world" where
  "do_add args t w =
     (let (m, timer, t') = AddProfileTask (pw_now w) args t (pw_m w)
      in w\<lparr>pw_m := m, pw_timers := pw_timers w @ (case timer of None \<Rightarrow> [] | Some tm \<Rightarrow> [tm])\<rparr>)"

definition do_fire :: "bool \<Rightarrow> int \<times> nat \<Rightarrow> profile_world \<Rightarrow> profile_world" where
  "do_fire startErr tm w =
     (let (m, started) = timer_fires (pw_now w) startErr (snd tm) (pw_m w);
          w = w\<lparr>pw_m := m, pw_timers := remove1 tm (pw_timers w)\<rparr>
      in if started then w\<lparr>pw_monitors := pw_monitors w @ [MStart], pw_written := [], pw_got := []\<rparr> else w)"

definition do_monitor :: "monitor_state \<Rightarrow> profile_world \<Rightarrow> profile_world" where
  "do_monitor s w =
     (let rest = remove1 s (pw_monitors w) in
      case s of
        MStart \<Rightarrow>
          (case currentTask (pw_m w) of
             None \<Rightarrow> w\<lparr>pw_crashed := True\<rparr>
           | Some c \<Rightarrow> w\<lparr>pw_monitors := rest @ [MSleep (pw_now w + minutes (ct_duration c))]\<rparr>)
      | MSleep wake \<Rightarrow> if wake \<le> pw_now w then w\<lparr>pw_monitors := rest @ [MStopped]\<rparr> else w
      | MStopped \<Rightarrow> w\<lparr>pw_monitors := rest @ [MFlush], pw_m := set_event IfProfiling False (pw_m w)\<rparr>
      | MFlush \<Rightarrow> w\<lparr>pw_monitors := rest, pw_m := flush_writer (pw_m w)\<rparr>)"

definition do_worker :: "profile_world \<Rightarrow> profile_world" where
  "do_worker w =
     (case pw_worker w of
        WIdle \<Rightarrow>
          (case rawCh (pw_m w) of
             [] \<Rightarrow> w
           | d # ds \<Rightarrow>
               (let w = w\<lparr>pw_m := (pw_m w)\<lparr>rawCh := ds\<rparr>\<rparr>
                in case currentTask (pw_m w) of None \<Rightarrow> w | Some c \<Rightarrow> w\<lparr>pw_worker := WSend c d\<rparr>))
      | WSend c d \<Rightarrow>
          (let r = \<lparr>pr_Payload = fst d, pr_TaskID = ct_taskID c, pr_IsLast = snd d\<rparr>
           in w\<lparr>pw_m := (pw_m w)\<lparr>FinalReportResults := FinalReportResults (pw_m w) @ [r]\<rparr>,
                pw_got := pw_got w @ [r], pw_worker := if snd d then WClear else WIdle\<rparr>)
      | WClear \<Rightarrow> w\<lparr>pw_m := finish_current (pw_m w), pw_worker := WIdle\<rparr>)"

text \<open>The reporter takes a result, sends it, and calls ProfileFinish after the last one.\<close>

definition do_report :: "profile_world \<Rightarrow> profile_world" where
  "do_report w =
     (case FinalReportResults (pw_m w) of
        [] \<Rightarrow> w
      | r # rs \<Rightarrow>
          (let w = w\<lparr>pw_m := (pw_m w)\<lparr>FinalReportResults := rs\<rparr>\<rparr>
           in if pr_IsLast r then
                (case ProfileFinish (pw_m w) of None \<Rightarrow> w\<lparr>pw_crashed := True\<rparr> | Some m \<Rightarrow> w\<lparr>pw_m := m\<rparr>)
              else w))"

definition profiler_on :: "profile_world \<Rightarrow> bool" where
  "profiler_on w = list_ex (\<lambda>s. case s of MStart \<Rightarrow> True | MSleep t \<Rightarrow> True | _ \<Rightarrow> False) (pw_monitors w)"

inductive profile_step :: "profile_world \<Rightarrow> profile_world \<Rightarrow> bool" where
  p_add: "profile_step w (do_add args t w)"
| p_tick: "0 \<le> d \<Longrightarrow> profile_step w (w\<lparr>pw_now := pw_now w + d\<rparr>)"
| p_fire: "tm \<in> set (pw_timers w) \<Longrightarrow> fst tm \<le> pw_now w \<Longrightarrow> profile_step w (do_fire startErr tm w)"
| p_write: "profiler_on w \<Longrightarrow>
    profile_step w (w\<lparr>pw_m := profiler_writes p (pw_m w), pw_written := pw_written w @ p\<rparr>)"
| p_monitor: "s \<in> set (pw_monitors w) \<Longrightarrow> profile_step w (do_monitor s w)"
| p_worker: "profile_step w (do_worker w)"
| p_report: "\<not> pw_crashed w \<Longrightarrow> profile_step w (do_report w)"
| p_remove: "profile_step w (w\<lparr>pw_m := RemoveProfileTask (pw_now w) (pw_m w)\<rparr>)"

inductive_cases profile_stepE: "profile_step w w'"

definition profile_reach :: "profile_world \<Rightarrow> bool" where
  "profile_reach w \<longleftrightarrow> profile_step\<^sup>*\<^sup>* profile_init w"

section \<open>What the operations leave alone\<close>

named_theorems profile_frame \<open>the fields of the manager an operation does not touch\<close>

lemma addTask_frame [profile_frame]:
  "TraceProfileTask (fst (addTask n t m)) = TraceProfileTask m"
  "rawCh (fst (addTask n t m)) = rawCh m"
  "profilingWriter (fst (addTask n t m)) = profilingWriter m"
  "profileEvents (fst (addTask n t m)) = profileEvents m"
  "currentTask (fst (addTask n t m)) = currentTask m"
  "\<exists>ts. ProfileTaskQueue (fst (addTask n t m)) = ProfileTaskQueue m @ ts"
  by (auto simp: addTask_def Let_def)

lemma set_status_frame [profile_frame, simp]:
  "TraceProfileTask (set_status i s m) = TraceProfileTask m"
  "rawCh (set_status i s m) = rawCh m"
  "profilingWriter (set_status i s m) = profilingWriter m"
  "profileEvents (set_status i s m) = profileEvents m"
  "currentTask (set_status i s m) = currentTask m"
  "FinalReportResults (set_status i s m) = FinalReportResults m"
  "length (ProfileTaskQueue (set_status i s m)) = length (ProfileTaskQueue m)"
  by (simp_all add: set_status_def)

lemma set_event_frame [profile_frame, simp]:
  "TraceProfileTask (set_event e b m) = TraceProfileTask m"
  "rawCh (set_event e b m) = rawCh m"
  "profilingWriter (set_event e b m) = profilingWriter m"
  "currentTask (set_event e b m) = currentTask m"
  "FinalReportResults (set_event e b m) = FinalReportResults m"
  "ProfileTaskQueue (set_event e b m) = ProfileTaskQueue m"
  by (simp_all add: set_event_def split: sum.splits)

lemma RemoveProfileTask_frame [profile_frame, simp]:
  "rawCh (RemoveProfileTask n m) = rawCh m"
  "profilingWriter (RemoveProfileTask n m) = profilingWriter m"
  "profileEvents (RemoveProfileTask n m) = profileEvents m"
  "currentTask (RemoveProfileTask n m) = currentTask m"
  "FinalReportResults (RemoveProfileTask n m) = FinalReportResults m"
  "ProfileTaskQueue (RemoveProfileTask n m) = ProfileTaskQueue m"
  "TraceProfileTask (RemoveProfileTask n m) = None \<or> TraceProfileTask (RemoveProfileTask n m) = TraceProfileTask m"
  by (auto simp: RemoveProfileTask_def Let_def split: option.splits)

lemma ProfileFinish_frame [profile_frame]:
  "ProfileFinish m = Some m' \<Longrightarrow> \<exists>i. TraceProfileTask m = Some i \<and> m' = set_status i Reported m"
  by (auto simp: ProfileFinish_def split: option.splits)

lemma set_event_status:
  assumes "profile_events (profileEvents m)" "e \<in> {IfProfiling, CurTaskExist}"
  shows "profile_events (profileEvents (set_event e b m))"
    and "base_status (profileEvents (set_event e b m)) e' = (if e' = e then b else base_status (profileEvents m) e')"
  using profile_events_update [OF assms, of b] by (auto simp: set_event_def)

lemma generateCurrentTask_simps [simp]:
  "TraceProfileTask (generateCurrentTask t m) = TraceProfileTask m"
  "rawCh (generateCurrentTask t m) = rawCh m"
  "profilingWriter (generateCurrentTask t m) = profilingWriter m"
  "FinalReportResults (generateCurrentTask t m) = FinalReportResults m"
  "ProfileTaskQueue (generateCurrentTask t m) = ProfileTaskQueue m"
  "currentTask (generateCurrentTask t m) \<noteq> None"
  "map_option ct_taskID (currentTask (generateCurrentTask t m)) = Some (pt_TaskID t)"
  by (simp_all add: generateCurrentTask_def)

lemma generateCurrentTask_events:
  assumes "profile_events (profileEvents m)"
  shows "profile_events (profileEvents (generateCurrentTask t m))"
    and "base_status (profileEvents (generateCurrentTask t m)) e =
           (if e = CurTaskExist then True else base_status (profileEvents m) e)"
  using set_event_status [of "m\<lparr>currentTask := c\<rparr>" CurTaskExist True for c] assms
  by (simp_all add: generateCurrentTask_def set_event_status)

text \<open>What a timer can do, when the events are the registered ones.\<close>

lemma timer_fires_cases:
  assumes "profile_events (profileEvents m)" "timer_fires now startErr i m = (m', started)"
  obtains (dropped) "TraceProfileTask m \<noteq> None" "m' = m" "\<not> started"
  | (busy) "TraceProfileTask m = None" "m' = m\<lparr>TraceProfileTask := Some i\<rparr>" "\<not> started"
  | (taken) "TraceProfileTask m = None" "\<not> started" "\<not> base_status (profileEvents m) CurTaskExist"
      "m' = generateCurrentTask (ProfileTaskQueue m ! i) (m\<lparr>TraceProfileTask := Some i\<rparr>)"
      "startErr \<or> pt_Status (ProfileTaskQueue m ! i) \<noteq> Pending"
  | (started) "TraceProfileTask m = None" "started" "\<not> base_status (profileEvents m) CurTaskExist"
      "m' = set_status i Running (set_event IfProfiling True
              (generateCurrentTask (ProfileTaskQueue m ! i) (m\<lparr>TraceProfileTask := Some i\<rparr>)))"
      "\<not> startErr" "pt_Status (ProfileTaskQueue m ! i) = Pending"
proof (cases "TraceProfileTask m")
  case (Some j)
  then have "m' = m" "\<not> started"
    using assms(2) by (auto simp: timer_fires_def)
  then show thesis
    using Some by (intro dropped) auto
next
  case None
  let ?m = "m\<lparr>TraceProfileTask := Some i\<rparr>"
  let ?g = "generateCurrentTask (ProfileTaskQueue m ! i) ?m"
  have ev: "profile_events (profileEvents ?m)"
    using assms(1) by simp
  have t: "trySetCurrentTaskAndStartProfile now startErr i ?m = (m', started)"
    using assms(2) None by (simp add: timer_fires_def)
  show thesis
  proof (cases "(\<not> base_status (profileEvents m) IfProfiling \<and> \<not> base_status (profileEvents m) CurTaskExist) \<and>
           \<not> (case currentTask m of None \<Rightarrow> False | Some c \<Rightarrow> now < ct_endTime c + timeOut)")
    case False
    then have "m' = ?m" "\<not> started"
      using t complex_events(2) [OF ev] by (auto simp: trySetCurrentTaskAndStartProfile_def split: if_splits)
    then show thesis
      using None by (intro busy) auto
  next
    case True
    have att: "tryStartCPUProfiling startErr ?g = (m', started)"
      using t True complex_events(2) [OF ev] by (auto simp: trySetCurrentTaskAndStartProfile_def split: if_splits)
    have "ExecuteComplexEvent CouldProfile (profileEvents ?g) = Inr True"
      using complex_events(1) [OF generateCurrentTask_events(1) [OF ev]] generateCurrentTask_events(2) [OF ev] True event_names
      by simp
    have idle: "\<not> base_status (profileEvents m) CurTaskExist"
      using True by simp
    have m': "(m', started) =
        (if pt_Status (ProfileTaskQueue m ! i) = Pending \<and> \<not> startErr
         then (set_status i Running (set_event IfProfiling True ?g), True) else (?g, False))"
      using att \<open>ExecuteComplexEvent CouldProfile (profileEvents ?g) = Inr True\<close> by (auto simp: tryStartCPUProfiling_def split: if_splits)
    show thesis
    proof (cases "pt_Status (ProfileTaskQueue m ! i) = Pending \<and> \<not> startErr")
      case True
      with m' None idle show thesis
        by (intro started) auto
    next
      case False
      with m' None idle show thesis
        by (intro taken) auto
    qed
  qed
qed

section \<open>The invariants\<close>

definition worker_last :: "worker_state \<Rightarrow> bool" where
  "worker_last s = (case s of WIdle \<Rightarrow> False | WSend c d \<Rightarrow> snd d | WClear \<Rightarrow> True)"

text \<open>
  A profile in progress is exactly one of: a monitor, the last chunk in the channel, and the
  worker that handles the last chunk.
\<close>

definition tokens :: "profile_world \<Rightarrow> nat" where
  "tokens w = length (pw_monitors w) + length (filter snd (rawCh (pw_m w))) + (if worker_last (pw_worker w) then 1 else 0)"

definition event_inv :: "profile_world \<Rightarrow> bool" where
  "event_inv w \<longleftrightarrow>
     profile_events (profileEvents (pw_m w)) \<and>
     (base_status (profileEvents (pw_m w)) CurTaskExist \<longleftrightarrow> currentTask (pw_m w) \<noteq> None) \<and>
     (base_status (profileEvents (pw_m w)) IfProfiling \<longrightarrow> (\<exists>s\<in>set (pw_monitors w). s \<noteq> MFlush)) \<and>
     wr_chunkSize (profilingWriter (pw_m w)) = ChunkSize"

definition token_inv :: "profile_world \<Rightarrow> bool" where
  "token_inv w \<longleftrightarrow>
     tokens w \<le> 1 \<and>
     (tokens w = 1 \<longrightarrow> currentTask (pw_m w) \<noteq> None) \<and>
     (tokens w = 0 \<longrightarrow> rawCh (pw_m w) = [] \<and> pw_worker w = WIdle) \<and>
     (pw_monitors w = [] \<longrightarrow> wr_buf (profilingWriter (pw_m w)) = []) \<and>
     (filter snd (rawCh (pw_m w)) \<noteq> [] \<longrightarrow> (\<exists>cs d. rawCh (pw_m w) = cs @ [(d, True)])) \<and>
     (worker_last (pw_worker w) \<longrightarrow> rawCh (pw_m w) = []) \<and>
     (\<forall>c d. pw_worker w = WSend c d \<longrightarrow> currentTask (pw_m w) = Some c)"

lemma profile_init_inv: "event_inv profile_init" "token_inv profile_init"
  by (auto simp: event_inv_def token_inv_def profile_init_def NewProfileManager_def profile_events_init
        NewProfilingWriter_def tokens_def worker_last_def)

lemma profiler_on_monitor: "profiler_on w \<Longrightarrow> pw_monitors w \<noteq> []"
  by (auto simp: profiler_on_def)

lemma Write_chunks:
  assumes "Write p w = (cs, w')" "0 < wr_chunkSize w"
  shows "filter snd cs = []" "wr_chunkSize w' = wr_chunkSize w"
    "concat (map fst cs) @ wr_buf w' = wr_buf w @ p"
proof -
  obtain ds rest where "send_chunks (wr_chunkSize w) (wr_buf w @ p) = (ds, rest)"
    by (metis surj_pair)
  with assms send_chunks_all [OF assms(2) this] show
    "filter snd cs = []" "wr_chunkSize w' = wr_chunkSize w" "concat (map fst cs) @ wr_buf w' = wr_buf w @ p"
    by (auto simp: Write_def filter_empty_conv)
qed

lemma ChunkSize_pos [simp]: "0 < ChunkSize"
  by (simp add: ChunkSize_def)

lemma profiler_writes_simps:
  assumes "wr_chunkSize (profilingWriter m) = ChunkSize"
  obtains cs where "rawCh (profiler_writes p m) = rawCh m @ cs" "filter snd cs = []"
    "concat (map fst cs) @ wr_buf (profilingWriter (profiler_writes p m)) = wr_buf (profilingWriter m) @ p"
    "wr_chunkSize (profilingWriter (profiler_writes p m)) = ChunkSize"
proof -
  obtain cs w where w: "Write p (profilingWriter m) = (cs, w)"
    by (metis surj_pair)
  show thesis
    using that [of cs] w Write_chunks [OF w] assms by (simp add: profiler_writes_def)
qed

lemma profiler_writes_frame [simp]:
  "TraceProfileTask (profiler_writes p m) = TraceProfileTask m"
  "profileEvents (profiler_writes p m) = profileEvents m"
  "currentTask (profiler_writes p m) = currentTask m"
  "FinalReportResults (profiler_writes p m) = FinalReportResults m"
  "ProfileTaskQueue (profiler_writes p m) = ProfileTaskQueue m"
  by (simp_all add: profiler_writes_def split: prod.splits)

lemma flush_writer_simps [simp]:
  "rawCh (flush_writer m) = rawCh m @ [(wr_buf (profilingWriter m), True)]"
  "wr_buf (profilingWriter (flush_writer m)) = []"
  "wr_chunkSize (profilingWriter (flush_writer m)) = wr_chunkSize (profilingWriter m)"
  "TraceProfileTask (flush_writer m) = TraceProfileTask m"
  "profileEvents (flush_writer m) = profileEvents m"
  "currentTask (flush_writer m) = currentTask m"
  "FinalReportResults (flush_writer m) = FinalReportResults m"
  "ProfileTaskQueue (flush_writer m) = ProfileTaskQueue m"
  by (simp_all add: flush_writer_def Flush_def)

lemma finish_current_simps [simp]:
  "rawCh (finish_current m) = rawCh m"
  "profilingWriter (finish_current m) = profilingWriter m"
  "currentTask (finish_current m) = None"
  "TraceProfileTask (finish_current m) = TraceProfileTask m"
  "FinalReportResults (finish_current m) = FinalReportResults m"
  "length (ProfileTaskQueue (finish_current m)) = length (ProfileTaskQueue m)"
  by (simp_all add: finish_current_def Let_def split: option.splits)

lemma finish_current_events:
  assumes "profile_events (profileEvents m)"
  shows "profile_events (profileEvents (finish_current m))"
    and "base_status (profileEvents (finish_current m)) e =
           (if e = CurTaskExist then False else base_status (profileEvents m) e)"
  using assms by (auto simp: finish_current_def Let_def profile_events_def base_status_def split: option.splits)

lemma token_inv_monitors:
  assumes "token_inv w" "s \<in> set (pw_monitors w)"
  shows "pw_monitors w = [s]" "filter snd (rawCh (pw_m w)) = []" "\<not> worker_last (pw_worker w)"
    "tokens w = 1" "currentTask (pw_m w) \<noteq> None"
proof -
  have "length (pw_monitors w) \<le> 1" "pw_monitors w \<noteq> []"
    using assms by (auto simp: token_inv_def tokens_def)
  then obtain x where "pw_monitors w = [x]"
    by (cases "pw_monitors w") auto
  then show "pw_monitors w = [s]" "filter snd (rawCh (pw_m w)) = []" "\<not> worker_last (pw_worker w)"
    "tokens w = 1" "currentTask (pw_m w) \<noteq> None"
    using assms by (auto simp: token_inv_def tokens_def split: if_splits)
qed

lemma AddProfileTask_frame [simp]:
  assumes "AddProfileTask n args t m = (m', timer, t')"
  shows "TraceProfileTask m' = TraceProfileTask m" "rawCh m' = rawCh m" "profilingWriter m' = profilingWriter m"
    "profileEvents m' = profileEvents m" "currentTask m' = currentTask m"
proof -
  obtain task u where "foldl (\<lambda>acc a. task_arg a acc) (empty_task, t) args = (task, u)"
    by (metis surj_pair)
  then have "m' = fst (addTask n (task\<lparr>pt_EndTime := pt_StartTime task + minutes (pt_Duration task), pt_Status := Pending\<rparr>) m)"
    using assms by (auto simp: AddProfileTask_def Let_def split: prod.splits)
  then show "TraceProfileTask m' = TraceProfileTask m" "rawCh m' = rawCh m" "profilingWriter m' = profilingWriter m"
    "profileEvents m' = profileEvents m" "currentTask m' = currentTask m"
    by (simp_all add: profile_frame)
qed

lemma do_add_frame:
  "rawCh (pw_m (do_add args t w)) = rawCh (pw_m w)"
  "profilingWriter (pw_m (do_add args t w)) = profilingWriter (pw_m w)"
  "profileEvents (pw_m (do_add args t w)) = profileEvents (pw_m w)"
  "currentTask (pw_m (do_add args t w)) = currentTask (pw_m w)"
  "TraceProfileTask (pw_m (do_add args t w)) = TraceProfileTask (pw_m w)"
  "pw_monitors (do_add args t w) = pw_monitors w" "pw_worker (do_add args t w) = pw_worker w"
  "pw_written (do_add args t w) = pw_written w" "pw_got (do_add args t w) = pw_got w"
  by (auto simp: do_add_def split: prod.splits dest: AddProfileTask_frame)

lemma do_report_frame:
  "rawCh (pw_m (do_report w)) = rawCh (pw_m w)"
  "profilingWriter (pw_m (do_report w)) = profilingWriter (pw_m w)"
  "profileEvents (pw_m (do_report w)) = profileEvents (pw_m w)"
  "currentTask (pw_m (do_report w)) = currentTask (pw_m w)"
  "TraceProfileTask (pw_m (do_report w)) = TraceProfileTask (pw_m w)"
  "pw_monitors (do_report w) = pw_monitors w" "pw_worker (do_report w) = pw_worker w"
  "pw_written (do_report w) = pw_written w" "pw_got (do_report w) = pw_got w"
  by (auto simp: do_report_def Let_def split: list.splits option.splits dest!: ProfileFinish_frame)

text \<open>The invariants look at these fields only.\<close>

lemma inv_cong:
  assumes "rawCh (pw_m w') = rawCh (pw_m w)" "profilingWriter (pw_m w') = profilingWriter (pw_m w)"
    "profileEvents (pw_m w') = profileEvents (pw_m w)" "currentTask (pw_m w') = currentTask (pw_m w)"
    "pw_monitors w' = pw_monitors w" "pw_worker w' = pw_worker w"
  shows "event_inv w' = event_inv w" "token_inv w' = token_inv w" "tokens w' = tokens w"
  using assms by (simp_all add: event_inv_def token_inv_def tokens_def)

lemma token_inv_idle:
  assumes "event_inv w" "token_inv w" "\<not> base_status (profileEvents (pw_m w)) CurTaskExist"
  shows "tokens w = 0" "pw_monitors w = []" "rawCh (pw_m w) = []" "pw_worker w = WIdle"
proof -
  have "currentTask (pw_m w) = None"
    using assms(1,3) by (simp add: event_inv_def)
  moreover have "tokens w = 0 \<or> tokens w = 1"
    using assms(2) by (auto simp: token_inv_def)
  ultimately show t: "tokens w = 0"
    using assms(2) by (auto simp: token_inv_def)
  then show "pw_monitors w = []" "rawCh (pw_m w) = []" "pw_worker w = WIdle"
    using assms(2) by (simp_all add: token_inv_def, simp add: tokens_def)
qed

lemma do_fire_inv:
  assumes "event_inv w" "token_inv w"
  shows "event_inv (do_fire startErr tm w) \<and> token_inv (do_fire startErr tm w)"
proof -
  let ?m = "pw_m w"
  obtain m' started where t: "timer_fires (pw_now w) startErr (snd tm) ?m = (m', started)"
    by (metis surj_pair)
  have ev: "profile_events (profileEvents ?m)"
    using assms(1) by (simp add: event_inv_def)
  let ?k = "?m\<lparr>TraceProfileTask := Some (snd tm)\<rparr>"
  note idle = token_inv_idle [OF assms]
  have evk: "profile_events (profileEvents ?k)"
    using ev by simp
  from ev t show ?thesis
  proof (cases rule: timer_fires_cases)
    case dropped
    then have "do_fire startErr tm w = w\<lparr>pw_m := m', pw_timers := remove1 tm (pw_timers w)\<rparr>"
      using t by (simp add: do_fire_def)
    then show ?thesis
      using assms dropped inv_cong(1,2) [of "w\<lparr>pw_m := m', pw_timers := remove1 tm (pw_timers w)\<rparr>" w] by auto
  next
    case busy
    then have "do_fire startErr tm w = w\<lparr>pw_m := m', pw_timers := remove1 tm (pw_timers w)\<rparr>"
      using t by (simp add: do_fire_def)
    then show ?thesis
      using assms busy inv_cong(1,2) [of "w\<lparr>pw_m := m', pw_timers := remove1 tm (pw_timers w)\<rparr>" w] by auto
  next
    case taken
    then show ?thesis
      using t taken(2,4) assms idle [OF taken(3)] generateCurrentTask_events [OF evk]
      by (simp add: do_fire_def event_inv_def token_inv_def tokens_def event_names event_names [symmetric])
  next
    case started
    let ?g = "generateCurrentTask (ProfileTaskQueue ?m ! snd tm) ?k"
    show ?thesis
      using t started(2,4) assms idle [OF started(3)] generateCurrentTask_events [OF evk, of "ProfileTaskQueue ?m ! snd tm"]
        set_event_status [OF generateCurrentTask_events(1) [OF evk], of IfProfiling]
      by (simp add: do_fire_def event_inv_def token_inv_def tokens_def worker_last_def event_names event_names [symmetric])
  qed
qed

lemma do_monitor_inv:
  assumes "event_inv w" "token_inv w" "s \<in> set (pw_monitors w)"
  shows "event_inv (do_monitor s w) \<and> token_inv (do_monitor s w)"
proof -
  note m = token_inv_monitors [OF assms(2,3)]
  have ev: "profile_events (profileEvents (pw_m w))"
    using assms(1) by (simp add: event_inv_def)
  have ns: "\<not> base_status (profileEvents (pw_m w)) IfProfiling" if "s = MFlush"
    using that m assms(1) by (auto simp: event_inv_def)
  show ?thesis
    using assms m ns set_event_status [OF ev, of IfProfiling]
    by (cases s) (auto simp: do_monitor_def event_inv_def token_inv_def tokens_def Let_def event_names event_names [symmetric])
qed

lemma token_inv_take:
  assumes "token_inv w" "pw_worker w = WIdle" "rawCh (pw_m w) = d # ds"
  shows "\<exists>c. currentTask (pw_m w) = Some c" "snd d \<Longrightarrow> ds = []"
    "filter snd ds \<noteq> [] \<Longrightarrow> \<exists>cs d. ds = cs @ [(d, True)]"
proof -
  have "tokens w \<noteq> 0" "tokens w \<le> 1"
    using assms by (auto simp: token_inv_def)
  then have "tokens w = 1"
    by simp
  then show "\<exists>c. currentTask (pw_m w) = Some c"
    using assms(1) by (simp add: token_inv_def)
  have r: "\<exists>cs e. d # ds = cs @ [(e, True)]" if "filter snd (d # ds) \<noteq> []"
    using that assms(1,3) by (simp add: token_inv_def)
  have n: "length (filter snd (d # ds)) \<le> 1"
    using \<open>tokens w \<le> 1\<close> assms(3) by (simp add: tokens_def)
  show "ds = []" if "snd d"
  proof -
    have "filter snd (d # ds) \<noteq> []"
      using that by auto
    then obtain cs e where "d # ds = cs @ [(e, True)]"
      using r by blast
    then show "ds = []"
      using n that by (cases cs) auto
  qed
  show "\<exists>cs d. ds = cs @ [(d, True)]" if "filter snd ds \<noteq> []"
  proof -
    have "filter snd (d # ds) \<noteq> []"
      using that by auto
    then obtain cs e where "d # ds = cs @ [(e, True)]"
      using r by blast
    then show ?thesis
      using that by (cases cs) auto
  qed
qed

lemma do_worker_inv:
  assumes "event_inv w" "token_inv w"
  shows "event_inv (do_worker w) \<and> token_inv (do_worker w)"
proof (cases "pw_worker w")
  case WIdle
  show ?thesis
  proof (cases "rawCh (pw_m w)")
    case Nil
    then show ?thesis
      using assms WIdle by (simp add: do_worker_def)
  next
    case (Cons d ds)
    note tk = token_inv_take [OF assms(2) WIdle Cons]
    from tk(1) obtain c where c: "currentTask (pw_m w) = Some c"
      by auto
    have "do_worker w = w\<lparr>pw_m := (pw_m w)\<lparr>rawCh := ds\<rparr>, pw_worker := WSend c d\<rparr>"
      using WIdle Cons c by (simp add: do_worker_def)
    moreover have "event_inv (w\<lparr>pw_m := (pw_m w)\<lparr>rawCh := ds\<rparr>, pw_worker := WSend c d\<rparr>)"
      using assms(1) by (simp add: event_inv_def)
    moreover have "tokens (w\<lparr>pw_m := (pw_m w)\<lparr>rawCh := ds\<rparr>, pw_worker := WSend c d\<rparr>) = tokens w"
      using WIdle Cons by (simp add: tokens_def worker_last_def)
    moreover have "tokens w \<noteq> 0"
      using assms(2) Cons by (auto simp: token_inv_def)
    ultimately show ?thesis
      using assms(2) tk(2,3) c by (auto simp: token_inv_def worker_last_def)
  qed
next
  case (WSend c d)
  let ?s = "if snd d then WClear else WIdle"
  have "tokens (do_worker w) = tokens w" "worker_last (pw_worker (do_worker w)) = worker_last (pw_worker w)"
    "pw_monitors (do_worker w) = pw_monitors w" "currentTask (pw_m (do_worker w)) = currentTask (pw_m w)"
    "rawCh (pw_m (do_worker w)) = rawCh (pw_m w)" "profilingWriter (pw_m (do_worker w)) = profilingWriter (pw_m w)"
    "profileEvents (pw_m (do_worker w)) = profileEvents (pw_m w)" "pw_worker (do_worker w) = ?s"
    using WSend by (auto simp: do_worker_def tokens_def worker_last_def Let_def)
  moreover have "tokens w \<noteq> 0"
    using assms(2) WSend by (auto simp: token_inv_def)
  ultimately show ?thesis
    using assms by (auto simp: event_inv_def token_inv_def)
next
  case WClear
  have ev: "profile_events (profileEvents (pw_m w))"
    using assms(1) by (simp add: event_inv_def)
  have w': "do_worker w = w\<lparr>pw_m := finish_current (pw_m w), pw_worker := WIdle\<rparr>"
    using WClear by (simp add: do_worker_def)
  have "tokens w = 1" "rawCh (pw_m w) = []" "pw_monitors w = []"
    using assms(2) WClear by (auto simp: token_inv_def tokens_def worker_last_def)
  then show ?thesis
    using assms finish_current_events [OF ev] unfolding w'
    by (simp add: event_inv_def token_inv_def tokens_def worker_last_def event_names)
qed

lemma profile_step_inv:
  assumes "profile_step w w'" "event_inv w" "token_inv w"
  shows "event_inv w' \<and> token_inv w'"
  using assms(1)
proof (cases rule: profile_step.cases)
  case (p_add args t)
  then show ?thesis
    using assms(2,3) inv_cong(1,2) [OF do_add_frame(1-4,6,7)] by simp
next
  case (p_write p)
  have ch: "wr_chunkSize (profilingWriter (pw_m w)) = ChunkSize"
    using assms(2) by (simp add: event_inv_def)
  obtain s where s: "s \<in> set (pw_monitors w)"
    using profiler_on_monitor p_write by (cases "pw_monitors w") auto
  note m = token_inv_monitors [OF assms(3) s]
  obtain cs where cs: "rawCh (profiler_writes p (pw_m w)) = rawCh (pw_m w) @ cs" "filter snd cs = []"
    "wr_chunkSize (profilingWriter (profiler_writes p (pw_m w))) = ChunkSize"
    by (rule profiler_writes_simps [OF ch])
  have "tokens w' = tokens w" "event_inv w'"
    using p_write assms(2) cs by (simp_all add: event_inv_def tokens_def)
  moreover have "token_inv w'"
    using p_write assms(3) cs m \<open>tokens w' = tokens w\<close> by (simp add: token_inv_def)
  ultimately show ?thesis
    by simp
next
  case p_report
  then show ?thesis
    using assms(2,3) inv_cong(1,2) [OF do_report_frame(1-4,6,7)] by simp
next
  case (p_tick d)
  then show ?thesis
    using assms(2,3) inv_cong(1,2) [of w' w] by auto
next
  case p_remove
  then show ?thesis
    using assms(2,3) inv_cong(1,2) [of w' w] by auto
next
  case (p_fire tm startErr)
  then show ?thesis
    using do_fire_inv assms(2,3) by blast
next
  case (p_monitor s)
  then show ?thesis
    using do_monitor_inv assms(2,3) by blast
next
  case p_worker
  then show ?thesis
    using do_worker_inv assms(2,3) by blast
qed

lemma profile_reach_inv: "profile_reach w \<Longrightarrow> event_inv w \<and> token_inv w"
  unfolding profile_reach_def
proof (induction rule: rtranclp_induct)
  case base
  then show ?case
    using profile_init_inv by simp
next
  case (step y z)
  then show ?case
    using profile_step_inv by blast
qed

section \<open>What the invariants give\<close>


lemma profile_reach_init: "profile_reach profile_init"
  by (simp add: profile_reach_def)


section \<open>A profile that fails to start\<close>

definition profile_stuck :: "profile_world \<Rightarrow> bool" where
  "profile_stuck w \<longleftrightarrow> tokens w = 0 \<and> currentTask (pw_m w) \<noteq> None"

lemma stuck_fields:
  assumes "profile_stuck w" "token_inv w" "event_inv w"
  shows "pw_monitors w = []" "rawCh (pw_m w) = []" "pw_worker w = WIdle"
    "base_status (profileEvents (pw_m w)) CurTaskExist"
proof -
  show "pw_monitors w = []"
    using assms(1) by (simp add: profile_stuck_def tokens_def)
  show "rawCh (pw_m w) = []" "pw_worker w = WIdle"
    using assms(1,2) by (simp_all add: profile_stuck_def token_inv_def)
  show "base_status (profileEvents (pw_m w)) CurTaskExist"
    using assms(1,3) by (simp add: profile_stuck_def event_inv_def)
qed

lemma stuck_step:
  assumes "profile_step w w'" "profile_stuck w" "token_inv w" "event_inv w"
  shows "profile_stuck w' \<and> currentTask (pw_m w') = currentTask (pw_m w) \<and> pw_got w' = pw_got w"
  using assms(1)
proof (cases rule: profile_step.cases)
  case (p_add args t)
  then show ?thesis
    using assms(2) do_add_frame inv_cong(3) [OF do_add_frame(1-4,6,7)] by (simp add: profile_stuck_def)
next
  case p_report
  then show ?thesis
    using assms(2) do_report_frame inv_cong(3) [OF do_report_frame(1-4,6,7)] by (simp add: profile_stuck_def)
next
  case (p_fire tm startErr)
  obtain m' started where t: "timer_fires (pw_now w) startErr (snd tm) (pw_m w) = (m', started)"
    by (metis surj_pair)
  have ev: "profile_events (profileEvents (pw_m w))"
    using assms(4) by (simp add: event_inv_def)
  from ev t have "(m' = pw_m w \<or> m' = (pw_m w)\<lparr>TraceProfileTask := Some (snd tm)\<rparr>) \<and> \<not> started"
    by (cases rule: timer_fires_cases) (use stuck_fields [OF assms(2-4)] in auto)
  then show ?thesis
    using p_fire t assms(2) by (auto simp: do_fire_def profile_stuck_def tokens_def)
next
  case (p_write p)
  then show ?thesis
    using stuck_fields [OF assms(2-4)] profiler_on_monitor by auto
next
  case p_worker
  then show ?thesis
    using assms(2) stuck_fields [OF assms(2-4)] by (simp add: do_worker_def)
qed (use assms stuck_fields [OF assms(2-4)] in \<open>auto simp: profile_stuck_def tokens_def\<close>)

text \<open>
  A CPU profile that fails to start blocks trace profiling for good: in a state with a
  current task and neither a monitor nor a last chunk on its way (which is what a failed
  StartCPUProfile leaves), no sequence of steps, however long it waits and whatever tasks the
  backend sends, ever changes the current task, starts a monitor or produces a result.
\<close>
theorem failed_start_blocks:
  assumes "profile_reach w" "tokens w = 0" "currentTask (pw_m w) = Some c" "profile_step\<^sup>*\<^sup>* w w'"
  shows "currentTask (pw_m w') = Some c \<and> pw_monitors w' = [] \<and> pw_got w' = pw_got w"
proof -
  have "profile_reach w' \<and> profile_stuck w' \<and> currentTask (pw_m w') = Some c \<and> pw_got w' = pw_got w"
    using assms(4)
  proof (induction rule: rtranclp_induct)
    case base
    then show ?case
      using assms(1-3) by (simp add: profile_stuck_def)
  next
    case (step y z)
    then show ?case
      using stuck_step [OF step.hyps(2)] profile_reach_inv [of y]
      by (auto simp: profile_reach_def intro: rtranclp.rtrancl_into_rtrancl)
  qed
  then show ?thesis
    using stuck_fields(1) [of w'] profile_reach_inv [of w'] by blast
qed

section \<open>Concrete runs\<close>

definition run_manager :: profile_manager where
  "run_manager = NewProfileManager\<lparr>ProfileTaskQueue := [empty_task], TraceProfileTask := Some 0\<rparr>"

definition run_timer :: profile_world where
  "run_timer = profile_init\<lparr>pw_m := run_manager\<lparr>TraceProfileTask := None\<rparr>, pw_timers := [(0, 0)]\<rparr>"

definition run_failed :: profile_world where
  "run_failed = profile_init\<lparr>pw_m := generateCurrentTask empty_task run_manager\<rparr>"

lemma minutes_0 [simp]: "minutes 0 = 0"
  by (simp add: minutes_def)

lemma run_timer: "do_add [] 0 profile_init = run_timer"
  by (simp add: do_add_def AddProfileTask_def addTask_def run_timer_def run_manager_def profile_init_def
        NewProfileManager_def empty_task_def Let_def)

lemma run_manager_events: "profile_events (profileEvents run_manager)" "\<not> base_status (profileEvents run_manager) e"
  by (simp_all add: run_manager_def NewProfileManager_def profile_events_init)

lemma run_timer_fires:
  "timer_fires 0 startErr 0 (run_manager\<lparr>TraceProfileTask := None\<rparr>) =
     (if startErr then (generateCurrentTask empty_task run_manager, False)
      else (set_status 0 Running (set_event IfProfiling True (generateCurrentTask empty_task run_manager)), True))"
proof -
  have m: "run_manager\<lparr>TraceProfileTask := Some 0\<rparr> = run_manager" "currentTask run_manager = None"
    "TraceProfileTask run_manager = Some 0" "ProfileTaskQueue run_manager = [empty_task]"
    "pt_Status empty_task = Pending"
    by (simp_all add: run_manager_def NewProfileManager_def empty_task_def)
  have "ExecuteComplexEvent CouldSetCurTask (profileEvents run_manager) = Inr True"
    using complex_events(2) [OF run_manager_events(1)] run_manager_events(2) by simp
  moreover have "ExecuteComplexEvent CouldProfile (profileEvents (generateCurrentTask empty_task run_manager)) = Inr True"
    using complex_events(1) [OF generateCurrentTask_events(1) [OF run_manager_events(1)]]
      generateCurrentTask_events(2) [OF run_manager_events(1)] run_manager_events(2) event_names
    by simp
  ultimately show ?thesis
    by (simp add: m timer_fires_def trySetCurrentTaskAndStartProfile_def tryStartCPUProfiling_def)
qed

lemma run_failed: "do_fire True (0, 0) run_timer = run_failed"
  using run_timer_fires [of True] by (simp add: do_fire_def run_timer_def run_failed_def profile_init_def)

lemma run_failed_reach: "profile_reach run_failed"
proof -
  have "profile_step profile_init run_timer"
    using p_add [of profile_init "[]" 0] run_timer by simp
  moreover have "profile_step run_timer run_failed"
    using p_fire [of "(0, 0)" run_timer True] run_failed by (simp add: run_timer_def profile_init_def)
  ultimately show ?thesis
    unfolding profile_reach_def by (meson converse_rtranclp_into_rtranclp rtranclp.rtrancl_refl)
qed

theorem failed_start_blocks_witness:
  "\<exists>c w. currentTask (pw_m run_failed) = Some c \<and> profile_step run_failed w \<and>
         w \<noteq> run_failed \<and> currentTask (pw_m w) = Some c \<and> pw_monitors w = []"
proof -
  obtain c where "currentTask (generateCurrentTask empty_task run_manager) = Some c"
    using generateCurrentTask_simps(6) by blast
  then have c: "currentTask (pw_m run_failed) = Some c"
    by (simp add: run_failed_def)
  have t: "tokens run_failed = 0"
    by (simp add: run_failed_def tokens_def worker_last_def profile_init_def run_manager_def NewProfileManager_def)
  let ?w = "run_failed\<lparr>pw_now := pw_now run_failed + 1\<rparr>"
  have s: "profile_step run_failed ?w"
    using p_tick [of 1] by simp
  have "pw_now ?w \<noteq> pw_now run_failed"
    by simp
  then have "?w \<noteq> run_failed"
    by metis
  then show ?thesis
    using c s failed_start_blocks [OF run_failed_reach t c r_into_rtranclp [of profile_step, OF s]] by blast
qed

section \<open>The run of a task\<close>

definition run_task :: current_task where
  "run_task = the (currentTask (generateCurrentTask empty_task run_manager))"

definition run_started :: profile_world where
  "run_started = profile_init\<lparr>pw_m := set_status 0 Running (set_event IfProfiling True (generateCurrentTask empty_task run_manager)),
     pw_monitors := [MStart]\<rparr>"

lemma run_started: "do_fire False (0, 0) run_timer = run_started"
  using run_timer_fires [of False] by (simp add: do_fire_def run_timer_def run_started_def profile_init_def)

definition run_flushed :: profile_world where
  "run_flushed = profile_init\<lparr>pw_m := flush_writer (set_event IfProfiling False (pw_m run_started))\<rparr>"

lemma run_current: "currentTask (pw_m run_started) = Some run_task"
  using generateCurrentTask_simps(6) [of empty_task run_manager]
  by (simp only: run_started_def run_task_def option.collapse) simp

lemma run_task_duration [simp]: "ct_duration run_task = 0" "ct_endTime run_task = 0"
  by (simp_all add: run_task_def generateCurrentTask_def empty_task_def)

lemma run_flushed:
  "do_monitor MFlush (do_monitor MStopped (do_monitor (MSleep 0) (do_monitor MStart run_started))) = run_flushed"
proof -
  have n: "pw_now run_started = 0" "pw_monitors run_started = [MStart]"
    "run_started\<lparr>pw_monitors := [], pw_m := m\<rparr> = profile_init\<lparr>pw_m := m\<rparr>" for m
    by (simp_all add: run_started_def profile_init_def)
  show ?thesis
    using run_current n by (simp add: do_monitor_def run_flushed_def)
qed

lemma run_flushed_reach: "profile_reach run_flushed"
proof -
  have 1: "profile_step profile_init run_timer"
    using p_add [of profile_init "[]" 0] run_timer by simp
  have 2: "profile_step run_timer run_started"
    using p_fire [of "(0, 0)" run_timer False] run_started by (simp add: run_timer_def profile_init_def)
  let ?a = "do_monitor MStart run_started"
  have a: "?a = run_started\<lparr>pw_monitors := [MSleep 0]\<rparr>"
    using run_current by (simp add: do_monitor_def) (simp add: run_started_def profile_init_def)
  have 3: "profile_step run_started ?a"
    by (rule p_monitor) (simp add: run_started_def)
  let ?b = "do_monitor (MSleep 0) ?a"
  have b: "?b = run_started\<lparr>pw_monitors := [MStopped]\<rparr>"
    unfolding a by (simp add: do_monitor_def) (simp add: run_started_def profile_init_def)
  have 4: "profile_step ?a ?b"
    by (rule p_monitor) (simp add: a)
  let ?c = "do_monitor MStopped ?b"
  have c: "MFlush \<in> set (pw_monitors ?c)"
    unfolding b by (simp add: do_monitor_def)
  have 5: "profile_step ?b ?c"
    by (rule p_monitor) (simp add: b)
  have 6: "profile_step ?c (do_monitor MFlush ?c)"
    by (rule p_monitor) (rule c)
  show ?thesis
    unfolding profile_reach_def run_flushed [symmetric]
    using 1 2 3 4 5 6 by (meson converse_rtranclp_into_rtranclp rtranclp.rtrancl_refl)
qed

section \<open>What reaches the reporter\<close>

definition pending :: "profile_world \<Rightarrow> string" where
  "pending w =
     (case pw_worker w of WSend c d \<Rightarrow> fst d | _ \<Rightarrow> []) @ concat (map fst (rawCh (pw_m w))) @
     wr_buf (profilingWriter (pw_m w))"

definition one_last :: "profile_result list \<Rightarrow> bool" where
  "one_last rs \<longleftrightarrow> (\<exists>qs r. rs = qs @ [r] \<and> pr_IsLast r \<and> (\<forall>q\<in>set qs. \<not> pr_IsLast q))"

definition data_inv :: "profile_world \<Rightarrow> bool" where
  "data_inv w \<longleftrightarrow>
     concat (map pr_Payload (pw_got w)) @ pending w = pw_written w \<and>
     (\<exists>tid. (\<forall>r\<in>set (pw_got w). pr_TaskID r = tid) \<and>
        (tokens w = 1 \<longrightarrow> map_option ct_taskID (currentTask (pw_m w)) = Some tid)) \<and>
     (tokens w = 1 \<and> pw_worker w \<noteq> WClear \<longrightarrow> (\<forall>r\<in>set (pw_got w). \<not> pr_IsLast r)) \<and>
     (tokens w = 0 \<and> pw_got w \<noteq> [] \<or> pw_worker w = WClear \<longrightarrow> one_last (pw_got w))"

lemma data_inv_cong:
  assumes "rawCh (pw_m w') = rawCh (pw_m w)" "profilingWriter (pw_m w') = profilingWriter (pw_m w)"
    "currentTask (pw_m w') = currentTask (pw_m w)"
    "pw_monitors w' = pw_monitors w" "pw_worker w' = pw_worker w"
    "pw_written w' = pw_written w" "pw_got w' = pw_got w"
  shows "data_inv w' = data_inv w"
  using assms by (simp add: data_inv_def tokens_def pending_def)

lemma data_inv_fire:
  assumes "event_inv w" "token_inv w" "data_inv w"
  shows "data_inv (do_fire startErr tm w)"
proof -
  let ?m = "pw_m w"
  obtain m' started where t: "timer_fires (pw_now w) startErr (snd tm) ?m = (m', started)"
    by (metis surj_pair)
  have ev: "profile_events (profileEvents ?m)"
    using assms(1) by (simp add: event_inv_def)
  note idle = token_inv_idle [OF assms(1,2)]
  from ev t show ?thesis
  proof (cases rule: timer_fires_cases)
    case dropped
    then show ?thesis
      using t assms data_inv_cong [of "w\<lparr>pw_m := m', pw_timers := remove1 tm (pw_timers w)\<rparr>" w]
      by (auto simp: do_fire_def)
  next
    case busy
    then show ?thesis
      using t assms data_inv_cong [of "w\<lparr>pw_m := m', pw_timers := remove1 tm (pw_timers w)\<rparr>" w]
      by (auto simp: do_fire_def)
  next
    case taken
    then show ?thesis
      using t assms(3) idle [OF taken(3)]
      by (auto simp: do_fire_def data_inv_def tokens_def pending_def worker_last_def)
  next
    case started
    have "wr_buf (profilingWriter ?m) = []"
      using idle [OF started(3)] assms(2) by (simp add: token_inv_def)
    then show ?thesis
      using t started(2,4) idle [OF started(3)]
      by (auto simp: do_fire_def data_inv_def pending_def)
  qed
qed

lemma data_inv_monitor:
  assumes "token_inv w" "data_inv w" "s \<in> set (pw_monitors w)"
  shows "data_inv (do_monitor s w)"
proof -
  note m = token_inv_monitors [OF assms(1,3)]
  obtain c where c: "currentTask (pw_m w) = Some c"
    using m(5) by auto
  have "pending (do_monitor s w) = pending w" "pw_got (do_monitor s w) = pw_got w"
    "pw_written (do_monitor s w) = pw_written w" "tokens (do_monitor s w) = 1"
    "pw_worker (do_monitor s w) = pw_worker w" "currentTask (pw_m (do_monitor s w)) = currentTask (pw_m w)"
    using m c by (cases s; simp add: do_monitor_def pending_def tokens_def Let_def)+
  then show ?thesis
    using assms(2) m(4) by (simp add: data_inv_def)
qed

lemma token_one:
  assumes "token_inv w" "pw_worker w \<noteq> WIdle \<or> rawCh (pw_m w) \<noteq> []"
  shows "tokens w = 1"
proof -
  have "tokens w \<le> 1" "tokens w \<noteq> 0"
    using assms by (auto simp: token_inv_def)
  then show ?thesis
    by simp
qed

lemma data_inv_worker:
  assumes "event_inv w" "token_inv w" "data_inv w"
  shows "data_inv (do_worker w)"
proof (cases "pw_worker w")
  case WIdle
  show ?thesis
  proof (cases "rawCh (pw_m w)")
    case Nil
    then show ?thesis
      using assms WIdle by (simp add: do_worker_def)
  next
    case (Cons d ds)
    note tk = token_inv_take [OF assms(2) WIdle Cons]
    from tk(1) obtain c where c: "currentTask (pw_m w) = Some c"
      by auto
    have w': "do_worker w = w\<lparr>pw_m := (pw_m w)\<lparr>rawCh := ds\<rparr>, pw_worker := WSend c d\<rparr>"
      using WIdle Cons c by (simp add: do_worker_def)
    have "tokens (do_worker w) = tokens w" "pending (do_worker w) = pending w"
      unfolding w' using WIdle Cons by (simp_all add: tokens_def worker_last_def pending_def)
    moreover have "tokens w = 1"
      using token_one [OF assms(2)] Cons by simp
    ultimately show ?thesis
      using assms(3) WIdle c w' by (simp add: data_inv_def)
  qed
next
  case (WSend c d)
  let ?r = "\<lparr>pr_Payload = fst d, pr_TaskID = ct_taskID c, pr_IsLast = snd d\<rparr>"
  have c: "currentTask (pw_m w) = Some c"
    using assms(2) WSend by (simp add: token_inv_def)
  have t: "tokens w = 1"
    using token_one [OF assms(2)] WSend by simp
  have w': "tokens (do_worker w) = 1" "pw_got (do_worker w) = pw_got w @ [?r]"
    "pw_written (do_worker w) = pw_written w" "currentTask (pw_m (do_worker w)) = Some c"
    "pw_worker (do_worker w) = (if snd d then WClear else WIdle)"
    "concat (map pr_Payload (pw_got w)) @ pending w = concat (map pr_Payload (pw_got (do_worker w))) @ pending (do_worker w)"
    using WSend t c by (auto simp: do_worker_def tokens_def worker_last_def Let_def pending_def)
  have g: "\<forall>r\<in>set (pw_got w). \<not> pr_IsLast r" "\<forall>r\<in>set (pw_got w). pr_TaskID r = ct_taskID c"
    using assms(3) t c WSend by (auto simp: data_inv_def)
  have "one_last (pw_got w @ [?r])" if "snd d"
    using g(1) that by (auto simp: one_last_def)
  then show ?thesis
    using assms(3) g w' unfolding data_inv_def by (auto split: if_splits)
next
  case WClear
  have w': "do_worker w = w\<lparr>pw_m := finish_current (pw_m w), pw_worker := WIdle\<rparr>"
    using WClear by (simp add: do_worker_def)
  have "tokens w = 1" "rawCh (pw_m w) = []" "pw_monitors w = []"
    using assms(2) WClear by (auto simp: token_inv_def tokens_def worker_last_def)
  then show ?thesis
    using assms(3) WClear unfolding w'
    by (auto simp: data_inv_def tokens_def worker_last_def pending_def)
qed

lemma data_inv_step:
  assumes "profile_step w w'" "event_inv w" "token_inv w" "data_inv w"
  shows "data_inv w'"
  using assms(1)
proof (cases rule: profile_step.cases)
  case (p_add args t)
  then show ?thesis
    using assms(4) data_inv_cong [OF do_add_frame(1,2,4,6-9)] by simp
next
  case (p_write p)
  have ch: "wr_chunkSize (profilingWriter (pw_m w)) = ChunkSize"
    using assms(2) by (simp add: event_inv_def)
  obtain s where s: "s \<in> set (pw_monitors w)"
    using profiler_on_monitor p_write by (cases "pw_monitors w") auto
  obtain cs where cs: "rawCh (profiler_writes p (pw_m w)) = rawCh (pw_m w) @ cs" "filter snd cs = []"
    "concat (map fst cs) @ wr_buf (profilingWriter (profiler_writes p (pw_m w))) = wr_buf (profilingWriter (pw_m w)) @ p"
    by (rule profiler_writes_simps [OF ch])
  have t: "tokens w' = tokens w"
    using p_write cs by (simp add: tokens_def)
  have p: "pending w' = pending w @ p"
    using p_write cs by (simp add: pending_def)
  have w: "pw_got w' = pw_got w" "pw_written w' = pw_written w @ p" "pw_worker w' = pw_worker w"
    "currentTask (pw_m w') = currentTask (pw_m w)"
    using p_write by simp_all
  have "concat (map pr_Payload (pw_got w)) @ pending w = pw_written w"
    using assms(4) by (simp add: data_inv_def)
  then have "concat (map pr_Payload (pw_got w')) @ pending w' = pw_written w'"
    using p w by (metis append_assoc)
  then show ?thesis
    using assms(4) t w unfolding data_inv_def by simp
next
  case p_report
  then show ?thesis
    using assms(4) data_inv_cong [OF do_report_frame(1,2,4,6-9)] by simp
next
  case (p_tick d)
  then show ?thesis
    using assms(4) data_inv_cong [of w' w] by auto
next
  case p_remove
  then show ?thesis
    using assms(4) data_inv_cong [of w' w] by auto
next
  case (p_fire tm startErr)
  then show ?thesis
    using data_inv_fire assms(2-4) by blast
next
  case (p_monitor s)
  then show ?thesis
    using data_inv_monitor assms(3,4) by blast
next
  case p_worker
  then show ?thesis
    using data_inv_worker assms(2-4) by blast
qed

lemma profile_reach_data: "profile_reach w \<Longrightarrow> data_inv w"
  unfolding profile_reach_def
proof (induction rule: rtranclp_induct)
  case base
  show ?case
    by (simp add: data_inv_def profile_init_def pending_def NewProfileManager_def NewProfilingWriter_def
        tokens_def worker_last_def)
next
  case (step y z)
  then show ?case
    using data_inv_step profile_reach_inv [of y] by (auto simp: profile_reach_def)
qed



section \<open>The queue\<close>

definition task_times :: "profile_manager \<Rightarrow> (int \<times> int) list" where
  "task_times m = map (\<lambda>t. (pt_StartTime t, pt_EndTime t)) (ProfileTaskQueue m)"

definition disjoint_times :: "(int \<times> int) list \<Rightarrow> bool" where
  "disjoint_times ts = sorted_wrt (\<lambda>a b. snd b \<le> fst a \<or> snd a \<le> fst b) ts"

lemma task_times_set_status [simp]: "task_times (set_status i s m) = task_times m"
proof (cases "i < length (ProfileTaskQueue m)")
  case True
  then show ?thesis
    by (simp add: task_times_def set_status_def map_update list_update_same_conv)
next
  case False
  then show ?thesis
    by (simp add: task_times_def set_status_def list_update_beyond)
qed

lemma task_times_simps [simp]:
  "task_times (set_event e b m) = task_times m"
  "task_times (generateCurrentTask t m) = task_times m"
  "task_times (m\<lparr>TraceProfileTask := x\<rparr>) = task_times m"
  "task_times (m\<lparr>currentTask := y\<rparr>) = task_times m"
  "task_times (m\<lparr>rawCh := z\<rparr>) = task_times m"
  "task_times (m\<lparr>FinalReportResults := r\<rparr>) = task_times m"
  "task_times (m\<lparr>profileEvents := ev\<rparr>) = task_times m"
  "task_times (flush_writer m) = task_times m"
  "task_times (profiler_writes p m) = task_times m"
  "task_times (RemoveProfileTask n m) = task_times m"
  by (simp_all add: task_times_def)

lemma task_times_finish [simp]: "task_times (finish_current m) = task_times m"
  by (simp add: finish_current_def Let_def split: option.splits)

lemma task_times_fires:
  "timer_fires now e i m = (m', started) \<Longrightarrow> task_times m' = task_times m"
  by (auto simp: timer_fires_def trySetCurrentTaskAndStartProfile_def tryStartCPUProfiling_def
      split: if_splits sum.splits option.splits)

lemma task_times_ProfileFinish: "ProfileFinish m = Some m' \<Longrightarrow> task_times m' = task_times m"
  by (auto dest: ProfileFinish_frame)

lemma addTask_disjoint:
  assumes "disjoint_times (task_times m)"
  shows "disjoint_times (task_times (fst (addTask now task m)))"
  using assms
  by (auto simp: addTask_def Let_def disjoint_times_def task_times_def sorted_wrt_append overlaps_def list_ex_iff
      not_less)

lemma do_add_disjoint:
  assumes "disjoint_times (task_times (pw_m w))"
  shows "disjoint_times (task_times (pw_m (do_add args t w)))"
proof -
  obtain task u where f: "foldl (\<lambda>acc a. task_arg a acc) (empty_task, t) args = (task, u)"
    by (metis surj_pair)
  then have "pw_m (do_add args t w) =
      fst (addTask (pw_now w) (task\<lparr>pt_EndTime := pt_StartTime task + minutes (pt_Duration task), pt_Status := Pending\<rparr>) (pw_m w))"
    by (cases "addTask (pw_now w) (task\<lparr>pt_EndTime := pt_StartTime task + minutes (pt_Duration task), pt_Status := Pending\<rparr>) (pw_m w)")
      (simp add: do_add_def AddProfileTask_def Let_def)
  then show ?thesis
    using addTask_disjoint [OF assms] by simp
qed

lemma disjoint_step:
  assumes "profile_step w w'" "disjoint_times (task_times (pw_m w))"
  shows "disjoint_times (task_times (pw_m w'))"
  using assms(1)
proof (cases rule: profile_step.cases)
  case (p_add args t)
  then show ?thesis
    using do_add_disjoint assms(2) by simp
next
  case (p_fire tm startErr)
  then show ?thesis
    using assms(2) task_times_fires by (auto simp: do_fire_def Let_def split: prod.splits)
next
  case (p_monitor s)
  then show ?thesis
    using assms(2) by (cases s) (auto simp: do_monitor_def Let_def split: option.splits)
next
  case p_worker
  then show ?thesis
    using assms(2)
    by (cases "pw_worker w") (auto simp: do_worker_def Let_def split: list.splits option.splits)
next
  case p_report
  then show ?thesis
    using assms(2) task_times_ProfileFinish
    by (auto simp: do_report_def Let_def split: list.splits option.splits)
qed (use assms(2) in auto)

text \<open>
  C6. The tasks accepted by AddProfileTask never overlap in time, whatever commands arrive and
  whatever the timers and goroutines do: of any two tasks in the queue one ends before the
  other starts.
\<close>
theorem profile_tasks_disjoint:
  assumes "profile_reach w" "i < j" "j < length (ProfileTaskQueue (pw_m w))"
  shows "pt_EndTime (ProfileTaskQueue (pw_m w) ! i) \<le> pt_StartTime (ProfileTaskQueue (pw_m w) ! j) \<or>
         pt_EndTime (ProfileTaskQueue (pw_m w) ! j) \<le> pt_StartTime (ProfileTaskQueue (pw_m w) ! i)"
proof -
  have "disjoint_times (task_times (pw_m w))"
    using assms(1) unfolding profile_reach_def
  proof (induction rule: rtranclp_induct)
    case base
    show ?case
      by (simp add: profile_init_def NewProfileManager_def task_times_def disjoint_times_def)
  qed (rule disjoint_step)
  then show ?thesis
    using assms(2,3) by (auto simp: disjoint_times_def sorted_wrt_iff_nth_less task_times_def)
qed

definition run_two :: profile_world where
  "run_two = profile_init\<lparr>pw_m := NewProfileManager\<lparr>ProfileTaskQueue := [empty_task, empty_task]\<rparr>, pw_timers := [(0, 0), (0, 1)]\<rparr>"

lemma run_two: "do_add [] 0 run_timer = run_two"
  by (simp add: do_add_def AddProfileTask_def addTask_def run_timer_def run_two_def run_manager_def profile_init_def
        NewProfileManager_def empty_task_def overlaps_def Let_def)

theorem profile_tasks_disjoint_witness:
  "pt_EndTime (ProfileTaskQueue (pw_m run_two) ! 0) \<le> pt_StartTime (ProfileTaskQueue (pw_m run_two) ! 1) \<or>
   pt_EndTime (ProfileTaskQueue (pw_m run_two) ! 1) \<le> pt_StartTime (ProfileTaskQueue (pw_m run_two) ! 0)"
proof (rule profile_tasks_disjoint)
  have "profile_step profile_init run_timer" "profile_step run_timer run_two"
    using p_add [of profile_init "[]" 0] run_timer p_add [of run_timer "[]" 0] run_two by simp_all
  then show "profile_reach run_two"
    unfolding profile_reach_def by (meson converse_rtranclp_into_rtranclp rtranclp.rtrancl_refl)
qed (simp_all add: run_two_def)

section \<open>Two races of the reporter\<close>

lemma run_flushed_fields:
  "rawCh (pw_m run_flushed) = [([], True)]" "pw_worker run_flushed = WIdle"
  "currentTask (pw_m run_flushed) = Some run_task" "TraceProfileTask (pw_m run_flushed) = Some 0"
  "FinalReportResults (pw_m run_flushed) = []" "pw_crashed run_flushed = False"
  "ProfileTaskQueue (pw_m run_flushed) = [empty_task\<lparr>pt_Status := Running\<rparr>]"
  "pw_monitors run_flushed = []" "pw_now run_flushed = 0" "pw_got run_flushed = []"
  using run_current
  by (simp_all add: run_flushed_def run_started_def profile_init_def run_manager_def set_status_def
      NewProfileManager_def NewProfilingWriter_def)

definition run_sent :: profile_world where
  "run_sent = do_worker (do_worker run_flushed)"

lemma run_sent_fields:
  "pw_worker run_sent = WClear" "rawCh (pw_m run_sent) = []" "TraceProfileTask (pw_m run_sent) = Some 0"
  "FinalReportResults (pw_m run_sent) = [\<lparr>pr_Payload = [], pr_TaskID = ct_taskID run_task, pr_IsLast = True\<rparr>]"
  "ProfileTaskQueue (pw_m run_sent) = [empty_task\<lparr>pt_Status := Running\<rparr>]" "pw_crashed run_sent = False"
  "pw_monitors run_sent = []" "pw_now run_sent = 0" "map pr_IsLast (pw_got run_sent) = [True]"
  by (simp_all add: run_sent_def do_worker_def Let_def run_flushed_fields)

definition run_reported :: profile_world where
  "run_reported = run_sent\<lparr>pw_m := set_status 0 Reported ((pw_m run_sent)\<lparr>FinalReportResults := []\<rparr>)\<rparr>"

lemma run_reported: "do_report run_sent = run_reported"
  by (simp add: do_report_def run_sent_fields ProfileFinish_def run_reported_def)

lemma run_reported_fields:
  "pw_worker run_reported = WClear" "rawCh (pw_m run_reported) = []" "TraceProfileTask (pw_m run_reported) = Some 0"
  "FinalReportResults (pw_m run_reported) = []"
  "ProfileTaskQueue (pw_m run_reported) = [empty_task\<lparr>pt_Status := Reported\<rparr>]" "pw_crashed run_reported = False"
  "pw_monitors run_reported = []" "pw_now run_reported = 0" "map pr_IsLast (pw_got run_reported) = [True]"
  by (simp_all add: run_reported_def run_sent_fields set_status_def)

lemma run_sent_reach: "profile_reach run_sent"
  using run_flushed_reach p_worker [of run_flushed] p_worker [of "do_worker run_flushed"]
  unfolding profile_reach_def run_sent_def by (meson rtranclp.rtrancl_into_rtrancl)

text \<open>
  The worker overwrites the reporter's status.  The worker sends the last result before it
  marks the task, so the reporter may mark it Reported first: a reachable state has the result
  consumed, no profile in progress and the task Finished, which RemoveProfileTask keeps until
  two minutes after its end although it was reported; a task whose timer fires meanwhile is
  dropped.
\<close>
theorem reported_overwritten:
  "\<exists>w. profile_reach w \<and> tokens w = 0 \<and> FinalReportResults (pw_m w) = [] \<and> \<not> pw_crashed w \<and>
       map pr_IsLast (pw_got w) = [True] \<and>
       TraceProfileTask (pw_m w) = Some 0 \<and> pt_Status (ProfileTaskQueue (pw_m w) ! 0) = Finished \<and>
       RemoveProfileTask (pw_now w) (pw_m w) = pw_m w \<and>
       (\<forall>now i. timer_fires now False i (pw_m w) = (pw_m w, False))"
proof -
  let ?w = "do_worker run_reported"
  have w: "?w = run_reported\<lparr>pw_m := finish_current (pw_m run_reported), pw_worker := WIdle\<rparr>"
    by (simp add: do_worker_def run_reported_fields)
  have "profile_reach ?w"
    using run_sent_reach p_report [of run_sent] p_worker [of run_reported] run_sent_fields(6) run_reported
    unfolding profile_reach_def by (simp add: rtranclp.rtrancl_into_rtrancl)
  moreover have t: "tokens ?w = 0" "FinalReportResults (pw_m ?w) = []" "\<not> pw_crashed ?w"
    "TraceProfileTask (pw_m ?w) = Some 0"
    unfolding w by (simp_all add: run_reported_fields tokens_def worker_last_def run_flushed_def profile_init_def)
  moreover have "map pr_IsLast (pw_got ?w) = [True]"
    unfolding w by (simp add: run_reported_fields)
  moreover have q: "ProfileTaskQueue (pw_m ?w) = [empty_task\<lparr>pt_Status := Finished\<rparr>]"
    unfolding w by (simp add: finish_current_def run_reported_fields set_status_def)
  moreover have "RemoveProfileTask (pw_now ?w) (pw_m ?w) = pw_m ?w"
    using t(4) q by (simp add: RemoveProfileTask_def timeOut_def empty_task_def)
      (simp add: w run_reported_fields)
  ultimately show ?thesis
    by (intro exI [of _ ?w]) (simp add: timer_fires_def)
qed

text \<open>
  The reporter of profile results can die of a nil dereference: if the last result of a task
  is taken from the channel more than two minutes after the task ended, RemoveProfileTask may
  have dropped TraceProfileTask, and ProfileFinish writes through it.
\<close>
theorem profile_finish_nil:
  "\<exists>w. profile_reach w \<and> pw_crashed w"
proof -
  let ?t = "run_sent\<lparr>pw_now := pw_now run_sent + (timeOut + 1)\<rparr>"
  let ?r = "?t\<lparr>pw_m := RemoveProfileTask (pw_now ?t) (pw_m ?t)\<rparr>"
  have r: "TraceProfileTask (pw_m ?r) = None" "FinalReportResults (pw_m ?r) = FinalReportResults (pw_m run_sent)"
    by (simp_all add: RemoveProfileTask_def run_sent_fields timeOut_def empty_task_def)
  have 1: "profile_step run_sent ?t"
    by (rule p_tick) (simp add: timeOut_def)
  have 2: "profile_step ?t ?r"
    by (rule p_remove)
  have 3: "profile_step ?r (do_report ?r)"
    by (rule p_report) (simp add: run_sent_fields)
  have "pw_crashed (do_report ?r)"
    using r by (simp add: do_report_def run_sent_fields ProfileFinish_def)
  then show ?thesis
    using run_sent_reach 1 2 3 unfolding profile_reach_def by (meson rtranclp.rtrancl_into_rtrancl)
qed

end
