(* ===== verification/Backends.thy ===== *)
theory Backends
  imports Strconv "HOL-Library.Multiset"
begin

text \<open>
  The list of collector addresses (plugins/core/reporter/backend_addresses.go) and the resolver
  that publishes it to gRPC (static_backend_resolver.go).  net.SplitHostPort and
  net.JoinHostPort are modelled from the standard library; errors are values, the warnings that
  skipped entries log are left out.
\<close>

section \<open>Package net\<close>

datatype net_error = MissingPort | TooManyColons | MissingBracket | UnexpectedOpen | UnexpectedClose

fun first_index :: "char \<Rightarrow> string \<Rightarrow> nat option" where
  "first_index c [] = None"
| "first_index c (x # xs) = (if x = c then Some 0 else map_option Suc (first_index c xs))"

definition SplitHostPort :: "string \<Rightarrow> (net_error, string \<times> string) result" where
  "SplitHostPort s =
     (case last_index CHR '':'' s of
        None \<Rightarrow> Err MissingPort
      | Some i \<Rightarrow>
          (let brackets = (\<lambda>j k host.
                 if CHR ''['' \<in> set (drop j s) then Err UnexpectedOpen
                 else if CHR '']'' \<in> set (drop k s) then Err UnexpectedClose
                 else Ok (host, drop (i + 1) s))
           in if s ! 0 = CHR ''['' then
                (case first_index CHR '']'' s of
                   None \<Rightarrow> Err MissingBracket
                 | Some e \<Rightarrow>
                     if e + 1 = length s then Err MissingPort
                     else if e + 1 = i then brackets 1 (e + 1) (take (e - 1) (drop 1 s))
                     else if s ! (e + 1) = CHR '':'' then Err TooManyColons
                     else Err MissingPort)
              else if CHR '':'' \<in> set (take i s) then Err TooManyColons
              else brackets 0 0 (take i s)))"

definition JoinHostPort :: "string \<Rightarrow> string \<Rightarrow> string" where
  "JoinHostPort host port =
     (if CHR '':'' \<in> set host then ''['' @ host @ '']:'' @ port else host @ '':'' @ port)"

section \<open>Parsing the configured list\<close>

datatype addr_error = EmptyAddress | InvalidAddress string | BadHostPort net_error | InvalidPort string

definition splitBackendServiceAddress :: "string \<Rightarrow> (addr_error, string \<times> string) result" where
  "splitBackendServiceAddress serverAddr =
     (let serverAddr = trim_space serverAddr in
      if serverAddr = [] then Err EmptyAddress
      else (case SplitHostPort serverAddr of
              Inl err \<Rightarrow> Err (BadHostPort err)
            | Inr (host, port) \<Rightarrow>
                if host = [] \<or> port = [] then Err (InvalidAddress serverAddr)
                else if list_ex (\<lambda>digit. (of_char digit :: nat) < 48 \<or> 57 < (of_char digit :: nat)) port
                then Err (InvalidPort port)
                else (let (portNumber, portErr) = atoi port
                      in if portErr \<noteq> None \<or> portNumber < 1 \<or> portNumber > 65535 then Err (InvalidPort port)
                         else Ok (host, itoa portNumber))))"

datatype backend_error = NoValidBackendService | TooFewBackends | UpdateStateRejected

text \<open>The loop over the parts; seen holds the addresses already in out, in order.\<close>

fun backend_loop :: "string list \<Rightarrow> string list \<Rightarrow> string list" where
  "backend_loop out [] = out"
| "backend_loop out (part # parts) =
     (let part = trim_space part in
      if part = [] then backend_loop out parts
      else (case splitBackendServiceAddress part of
              Inl err \<Rightarrow> backend_loop out parts
            | Inr (host, port) \<Rightarrow>
                (let normalized = JoinHostPort host port
                 in if normalized \<in> set out then backend_loop out parts
                    else backend_loop (out @ [normalized]) parts)))"

definition parseBackendServiceList :: "string \<Rightarrow> (backend_error, string list) result" where
  "parseBackendServiceList raw =
     (let raw = trim_space raw in
      if raw = [] then Err NoValidBackendService
      else if \<not> contains_char CHR '','' raw then
        (case splitBackendServiceAddress raw of
           Inl err \<Rightarrow> Ok [raw]
         | Inr (host, port) \<Rightarrow> Ok [JoinHostPort host port])
      else (let out = backend_loop [] (split_on CHR '','' raw)
            in if out = [] then Err NoValidBackendService else Ok out))"

section \<open>The static resolver\<close>

record resolver_address =
  ra_Addr :: string
  ra_ServerName :: string

definition configuredAddressesAsResolverState :: "string list \<Rightarrow> resolver_address list" where
  "configuredAddressesAsResolverState backends =
     map (\<lambda>cfg. case SplitHostPort cfg of
                   Inl err \<Rightarrow> \<lparr>ra_Addr = cfg, ra_ServerName = []\<rparr>
                 | Inr (host, port) \<Rightarrow> \<lparr>ra_Addr = cfg, ra_ServerName = host\<rparr>) backends"

record static_builder =
  sb_backends :: "string list"
  sb_targetValue :: string

definition newStaticBackendResolverBuilder :: "string list \<Rightarrow> (backend_error, static_builder) result" where
  "newStaticBackendResolverBuilder backends =
     (if length backends < 2 then Err TooFewBackends
      else Ok \<lparr>sb_backends = backends,
               sb_targetValue = ''skywalking-static'' @ '':///'' @ join '','' backends\<rparr>)"

text \<open>rand.Shuffle: a swap of i with a drawn index, for i from the last index down to 1.\<close>

fun shuffle :: "nat \<Rightarrow> (nat \<Rightarrow> nat) \<Rightarrow> 'a list \<Rightarrow> 'a list" where
  "shuffle 0 draw xs = xs"
| "shuffle (Suc i) draw xs =
     (let j = draw (Suc (Suc i)) in shuffle i draw (xs[Suc i := xs ! j, j := xs ! Suc i]))"

text \<open>
  Build: the resolver keeps the shuffled addresses (the result) and publishes their names; the
  answer of ClientConn.UpdateState is an argument.
\<close>

definition Build :: "(nat \<Rightarrow> nat) \<Rightarrow> bool \<Rightarrow> static_builder \<Rightarrow> (backend_error, resolver_address list \<times> string list) result" where
  "Build draw rejected b =
     (let addresses = configuredAddressesAsResolverState (sb_backends b);
          addresses = shuffle (length addresses - 1) draw addresses
      in if rejected then Err UpdateStateRejected else Ok (addresses, map ra_Addr addresses))"

section \<open>Splitting what was joined\<close>

lemma first_index_None: "first_index c s = None \<longleftrightarrow> c \<notin> set s"
  by (induction s) auto

lemma first_index_append: "c \<notin> set u \<Longrightarrow> first_index c (u @ c # v) = Some (length u)"
  by (induction u) auto

lemma first_index_Some:
  "first_index c s = Some i \<Longrightarrow> i < length s \<and> s ! i = c \<and> c \<notin> set (take i s)"
proof (induction s arbitrary: i)
  case (Cons x xs)
  then show ?case
    by (cases i) (auto split: if_splits)
qed simp

lemma last_index_append: "c \<notin> set v \<Longrightarrow> last_index c (u @ c # v) = Some (length u)"
  by (induction u) (auto simp: last_index_None split: option.splits)

definition no_brackets :: "string \<Rightarrow> bool" where
  "no_brackets s \<longleftrightarrow> CHR ''['' \<notin> set s \<and> CHR '']'' \<notin> set s"

lemma SplitHostPort_join:
  assumes "no_brackets host" "no_brackets port" "CHR '':'' \<notin> set port" "host \<noteq> []"
  shows "SplitHostPort (JoinHostPort host port) = Inr (host, port)"
proof (cases "CHR '':'' \<in> set host")
  case True
  let ?s = "''['' @ host @ '']:'' @ port"
  have l: "last_index CHR '':'' ?s = Some (length host + 2)"
    using last_index_append [of "CHR '':''" port "''['' @ host @ '']''"] assms(3) by simp
  have f: "first_index CHR '']'' ?s = Some (length host + 1)"
    using first_index_append [of "CHR '']''" "''['' @ host" "'':'' @ port"] assms(1) by (simp add: no_brackets_def)
  show ?thesis
    using True assms l f by (simp add: SplitHostPort_def JoinHostPort_def no_brackets_def Let_def)
next
  case False
  let ?s = "host @ '':'' @ port"
  have l: "last_index CHR '':'' ?s = Some (length host)"
    using last_index_append [of "CHR '':''" port host] assms(3) by simp
  have h: "?s ! 0 \<noteq> CHR ''[''"
    using assms(1,4) by (cases host) (auto simp: no_brackets_def)
  show ?thesis
    using False assms l h by (simp add: SplitHostPort_def JoinHostPort_def no_brackets_def Let_def)
qed

lemma SplitHostPort_ok:
  assumes "SplitHostPort s = Inr (host, port)"
  shows "no_brackets host \<and> no_brackets port \<and> CHR '':'' \<notin> set port \<and> set host \<subseteq> set s \<and> (\<exists>u. s = u @ port)"
proof -
  obtain i where i: "last_index CHR '':'' s = Some i"
    using assms by (auto simp: SplitHostPort_def split: option.splits)
  have c: "CHR '':'' \<notin> set (drop (Suc i) s)"
    using last_index_Some [OF i] by simp
  have suffix: "\<exists>u. s = u @ drop (Suc i) s"
    by (metis append_take_drop_id)
  show ?thesis
  proof (cases "s ! 0 = CHR ''[''")
    case True
    obtain e where e: "first_index CHR '']'' s = Some e"
      using assms i True by (auto simp: SplitHostPort_def Let_def split: option.splits)
    have r: "e + 1 = i" "host = take (e - 1) (drop 1 s)" "port = drop (i + 1) s"
      "CHR ''['' \<notin> set (drop 1 s)" "CHR '']'' \<notin> set (drop (e + 1) s)"
      using assms i True e by (auto simp: SplitHostPort_def Let_def split: if_splits)
    have "set host \<subseteq> set (drop 1 s)"
      using r(2) set_take_subset by fast
    moreover have "host = drop 1 (take e s)"
      using r(2) by (simp add: drop_take)
    then have "set host \<subseteq> set (take e s)"
      using set_drop_subset by metis
    moreover have "CHR '']'' \<notin> set (take e s)"
      using first_index_Some [OF e] by simp
    moreover have "set port \<subseteq> set (drop (e + 1) s)"
      using r(1,3) set_drop_subset_set_drop [of "e + 1" "i + 1" s] by simp
    moreover have "set port \<subseteq> set (drop 1 s)"
      using r(1,3) set_drop_subset_set_drop [of 1 "i + 1" s] by simp
    ultimately show ?thesis
      using r(3-5) c suffix set_drop_subset [of 1 s] unfolding no_brackets_def by auto
  next
    case False
    have r: "host = take i s" "port = drop (i + 1) s" "CHR ''['' \<notin> set s" "CHR '']'' \<notin> set s"
      using assms i False by (auto simp: SplitHostPort_def Let_def split: if_splits)
    then have "set host \<subseteq> set s" "set port \<subseteq> set s"
      using set_take_subset set_drop_subset by metis+
    then show ?thesis
      using r c suffix unfolding no_brackets_def by auto
  qed
qed

section \<open>The addresses accepted\<close>

text \<open>What a normalized entry of a list is: a host and a port number in decimal.\<close>

definition normal_address :: "string \<Rightarrow> bool" where
  "normal_address a \<longleftrightarrow>
     (\<exists>host n. a = JoinHostPort host (itoa n) \<and> host \<noteq> [] \<and> no_brackets host \<and> 1 \<le> n \<and> n \<le> 65535)"

lemma itoa_port:
  "no_brackets (itoa n)" "CHR '':'' \<notin> set (itoa n)" "CHR '','' \<notin> set (itoa n)"
  by (simp_all add: no_brackets_def itoa_no_char)

lemma split_backend_ok:
  assumes "splitBackendServiceAddress s = Inr (host, port)"
  shows "\<exists>n. port = itoa n \<and> 1 \<le> n \<and> n \<le> 65535" "host \<noteq> []" "no_brackets host" "set host \<subseteq> set s"
proof -
  let ?t = "trim_space s"
  obtain h p where hp: "SplitHostPort ?t = Inr (h, p)" "h = host" "h \<noteq> []"
    and n: "\<exists>n. port = itoa n \<and> 1 \<le> n \<and> n \<le> 65535"
    using assms by (auto simp: splitBackendServiceAddress_def Let_def split: if_splits sum.splits prod.splits)
  show "\<exists>n. port = itoa n \<and> 1 \<le> n \<and> n \<le> 65535" "host \<noteq> []" "no_brackets host" "set host \<subseteq> set s"
    using hp n SplitHostPort_ok [OF hp(1)] trim_space_set [of s] by auto
qed

lemma split_backend_normal:
  "splitBackendServiceAddress s = Inr (host, port) \<Longrightarrow> normal_address (JoinHostPort host port)"
  using split_backend_ok [of s host port] by (auto simp: normal_address_def)

lemma backend_loop_Cons:
  "backend_loop out (part # parts) = backend_loop out parts \<or>
   (\<exists>a. normal_address a \<and> a \<notin> set out \<and> backend_loop out (part # parts) = backend_loop (out @ [a]) parts)"
proof (cases "splitBackendServiceAddress (trim_space part)")
  case (Inl err)
  then show ?thesis
    by (simp add: Let_def)
next
  case (Inr hp)
  obtain host port where hp: "hp = (host, port)"
    by fastforce
  show ?thesis
    using Inr hp split_backend_normal [of "trim_space part" host port] by (auto simp: Let_def)
qed

lemma backend_loop_normal:
  assumes "\<forall>a\<in>set out. normal_address a" "distinct out"
  shows "(\<forall>a\<in>set (backend_loop out parts). normal_address a) \<and> distinct (backend_loop out parts)"
  using assms
proof (induction parts arbitrary: out)
  case (Cons part parts)
  from backend_loop_Cons [of out part parts] show ?case
  proof (elim disjE exE conjE)
    assume "backend_loop out (part # parts) = backend_loop out parts"
    then show ?thesis
      using Cons by metis
  next
    fix a
    assume a: "normal_address a" "a \<notin> set out" "backend_loop out (part # parts) = backend_loop (out @ [a]) parts"
    have "\<forall>x\<in>set (out @ [a]). normal_address x" "distinct (out @ [a])"
      using Cons.prems a by auto
    then show ?thesis
      unfolding a(3) by (rule Cons.IH)
  qed
qed simp

text \<open>
  A configured list with a comma is normalized: it is rejected or gives a non-empty list
  without duplicates whose every entry is a host and a port from 1 to 65535 in canonical
  decimal, with IPv6 hosts in brackets.
\<close>
theorem backend_list_normal:
  assumes "contains_char CHR '','' raw"
  shows "case parseBackendServiceList raw of
           Inl e \<Rightarrow> e = NoValidBackendService
         | Inr out \<Rightarrow> out \<noteq> [] \<and> distinct out \<and> (\<forall>a\<in>set out. normal_address a)"
proof -
  have comma: "CHR '','' \<in> set (trim_space raw)"
  proof -
    have "\<not> is_space CHR '',''"
      by (simp add: is_space_def)
    then have d: "CHR '','' \<in> set (dropWhile is_space s) \<longleftrightarrow> CHR '','' \<in> set s" for s
      by (induction s) auto
    show ?thesis
      using assms d [of "rev (dropWhile is_space raw)"] d [of raw]
      by (simp add: trim_space_def contains_char_def)
  qed
  then have "trim_space raw \<noteq> []"
    by auto
  then show ?thesis
    using backend_loop_normal [of "[]" "split_on CHR '','' (trim_space raw)"] comma
    by (simp add: parseBackendServiceList_def contains_char_def Let_def)
qed

text \<open>
  Addresses are printed by JoinHostPort.  A host that can be printed into a list and read back
  has no comma and does not start with a space.
\<close>

definition clean_host :: "string \<Rightarrow> bool" where
  "clean_host h \<longleftrightarrow> h \<noteq> [] \<and> no_brackets h \<and> CHR '','' \<notin> set h \<and> \<not> is_space (hd h)"

lemma trim_space_id: "s \<noteq> [] \<Longrightarrow> \<not> is_space (hd s) \<Longrightarrow> \<not> is_space (last s) \<Longrightarrow> trim_space s = s"
proof -
  assume s: "s \<noteq> []" "\<not> is_space (hd s)" "\<not> is_space (last s)"
  have "dropWhile is_space s = s"
    using s(1,2) by (cases s) auto
  moreover have "dropWhile is_space (rev s) = rev s"
    using s(1,3) by (cases s rule: rev_cases) auto
  ultimately show "trim_space s = s"
    by (simp add: trim_space_def)
qed

lemma is_space_less: "is_space c \<Longrightarrow> (of_char c :: nat) < 48"
  by (auto simp: is_space_def)

lemma last_itoa: "0 \<le> n \<Longrightarrow> \<not> is_space (last (itoa n))"
proof -
  assume n: "0 \<le> n"
  have "last (itoa n) \<in> set (nat_digits (nat n))"
    using n by (simp add: itoa_def)
  then obtain d where "d < 10" "last (itoa n) = digit_char d"
    using set_nat_digits by blast
  moreover from this have "48 \<le> (of_char (last (itoa n)) :: nat)"
    by simp
  ultimately show ?thesis
    using is_space_less by fastforce
qed

lemma trim_address:
  assumes "clean_host h" "1 \<le> n"
  shows "trim_space (JoinHostPort h (itoa n)) = JoinHostPort h (itoa n)" "JoinHostPort h (itoa n) \<noteq> []"
    "\<not> is_space (hd (JoinHostPort h (itoa n)))" "\<not> is_space (last (JoinHostPort h (itoa n)))"
proof -
  have "hd (JoinHostPort h (itoa n)) = CHR ''['' \<or> hd (JoinHostPort h (itoa n)) = hd h"
    using assms(1) by (simp add: JoinHostPort_def clean_host_def)
  then show hd: "\<not> is_space (hd (JoinHostPort h (itoa n)))"
    using assms(1) by (auto simp: clean_host_def is_space_def)
  have "last (JoinHostPort h (itoa n)) = last (itoa n)"
    by (simp add: JoinHostPort_def)
  then show last: "\<not> is_space (last (JoinHostPort h (itoa n)))"
    using last_itoa [of n] assms(2) by simp
  show ne: "JoinHostPort h (itoa n) \<noteq> []"
    by (simp add: JoinHostPort_def)
  show "trim_space (JoinHostPort h (itoa n)) = JoinHostPort h (itoa n)"
    by (rule trim_space_id [OF ne hd last])
qed

lemma split_backend_join:
  assumes "clean_host h" "1 \<le> n" "n \<le> 65535"
  shows "splitBackendServiceAddress (JoinHostPort h (itoa n)) = Inr (h, itoa n)"
proof -
  have s: "SplitHostPort (JoinHostPort h (itoa n)) = Inr (h, itoa n)"
    using assms(1) itoa_port by (intro SplitHostPort_join) (simp_all add: clean_host_def)
  have d: "\<not> list_ex (\<lambda>digit. (of_char digit :: nat) < 48 \<or> 57 < (of_char digit :: nat)) (itoa n)"
    using assms(2) by (auto simp: list_ex_iff itoa_def dest!: set_nat_digits)
  have a: "atoi (itoa n) = (n, None)"
    using parse_int_itoa [of 10 63 n] assms(2,3) by (simp add: atoi_def)
  show ?thesis
    using assms trim_address [OF assms(1,2)] s d a
    by (simp add: splitBackendServiceAddress_def clean_host_def Let_def)
qed

definition print_address :: "string \<times> int \<Rightarrow> string" where
  "print_address = (\<lambda>(h, n). JoinHostPort h (itoa n))"

lemma backend_loop_print:
  assumes "\<forall>(h, n)\<in>set as. clean_host h \<and> 1 \<le> n \<and> n \<le> 65535" "distinct (out @ map print_address as)"
  shows "backend_loop out (map print_address as) = out @ map print_address as"
  using assms
proof (induction as arbitrary: out)
  case (Cons a as)
  obtain h n where a: "a = (h, n)"
    by fastforce
  have h: "clean_host h" "1 \<le> n" "n \<le> 65535"
    using Cons.prems(1) a by auto
  show ?case
    using Cons a h trim_address [OF h(1,2)] split_backend_join [OF h]
    by (simp add: print_address_def Let_def)
qed simp

lemma print_address_no_comma: "clean_host h \<Longrightarrow> CHR '','' \<notin> set (print_address (h, n))"
  using itoa_port(3) [of n] by (simp add: print_address_def JoinHostPort_def clean_host_def)

lemma last_join: "xs \<noteq> [] \<Longrightarrow> last xs \<noteq> [] \<Longrightarrow> join sep xs \<noteq> [] \<and> last (join sep xs) = last (last xs)"
  by (induction sep xs rule: join.induct) (auto simp: last_append)

text \<open>
  Printing and parsing: two or more distinct addresses with ports from 1 to 65535, joined by
  commas, are parsed back to exactly these addresses in their order.
\<close>
theorem backend_list_round_trip:
  assumes "\<forall>(h, n)\<in>set as. clean_host h \<and> 1 \<le> n \<and> n \<le> 65535"
    and "distinct (map print_address as)" "2 \<le> length as"
  shows "parseBackendServiceList (join '','' (map print_address as)) = Inr (map print_address as)"
proof -
  let ?ps = "map print_address as"
  obtain a b rest where as: "as = a # b # rest"
    using assms(3) by (cases as; cases "tl as") auto
  have ps: "?ps = print_address a # print_address b # map print_address rest"
    using as by simp
  have ok: "clean_host (fst x)" "1 \<le> snd x" if "x \<in> set as" for x
    using assms(1) that by auto
  have comma: "CHR '','' \<in> set (join '','' ?ps)"
    by (simp add: ps)
  have addr: "print_address x \<noteq> []" "\<not> is_space (hd (print_address x))" "\<not> is_space (last (print_address x))"
    if "x \<in> set as" for x
    using trim_address [of "fst x" "snd x"] ok [OF that] by (simp_all add: print_address_def split_beta)
  have hd: "hd (join '','' ?ps) = hd (print_address a)" "join '','' ?ps \<noteq> []"
    using addr(1) [of a] as by (simp_all add: ps)
  have la: "as \<noteq> []" "last as \<in> set as"
    using as by (simp, metis last_in_set list.distinct(1))
  then have "last ?ps \<noteq> []"
    using addr(1) [OF la(2)] by (simp add: last_map)
  then have "last (join '','' ?ps) = last (print_address (last as))"
    using last_join [of ?ps "'',''"] la(1) by (simp add: last_map)
  then have "\<not> is_space (hd (join '','' ?ps))" "\<not> is_space (last (join '','' ?ps))"
    using hd addr(2) [of a] addr(3) [OF la(2)] as by simp_all
  then have trim: "trim_space (join '','' ?ps) = join '','' ?ps"
    using trim_space_id hd(2) by blast
  have "split_on CHR '','' (join '','' ?ps) = ?ps"
  proof (rule split_on_join)
    show "?ps \<noteq> []"
      using la(1) by simp
    show "\<forall>x\<in>set ?ps. CHR '','' \<notin> set x"
      using print_address_no_comma ok(1) by (metis (no_types, lifting) image_iff list.set_map surjective_pairing)
  qed
  moreover have "backend_loop [] ?ps = ?ps"
    using backend_loop_print [of as "[]"] assms by simp
  ultimately show ?thesis
    using trim comma hd(2) as by (simp add: parseBackendServiceList_def contains_char_def Let_def)
qed

definition two_addresses :: "(string \<times> int) list" where
  "two_addresses = [(''oap'', 11800), (''::1'', 80)]"

lemma two_addresses: "\<forall>(h, n)\<in>set two_addresses. clean_host h \<and> 1 \<le> n \<and> n \<le> 65535" "2 \<le> length two_addresses"
  by (simp_all add: two_addresses_def clean_host_def no_brackets_def is_space_def)

lemma two_addresses_distinct: "distinct (map print_address two_addresses)"
  by (simp add: two_addresses_def print_address_def JoinHostPort_def)

theorem backend_list_round_trip_witness:
  "parseBackendServiceList (join '','' [''oap:'' @ itoa 11800, ''[::1]:'' @ itoa 80]) =
     Inr [''oap:'' @ itoa 11800, ''[::1]:'' @ itoa 80]"
  using backend_list_round_trip [OF two_addresses(1) two_addresses_distinct two_addresses(2)]
  by (simp add: two_addresses_def print_address_def JoinHostPort_def)

theorem backend_list_normal_witness:
  "case parseBackendServiceList '' , oap:0, [::1]:00080 ,:1,oap'' of
     Inl e \<Rightarrow> e = NoValidBackendService
   | Inr out \<Rightarrow> out \<noteq> [] \<and> distinct out \<and> (\<forall>a\<in>set out. normal_address a)"
  by (rule backend_list_normal) (simp add: contains_char_def)

section \<open>The resolver\<close>

lemma shuffle_perm: "k < length xs \<Longrightarrow> (\<forall>n. 0 < n \<longrightarrow> draw n < n) \<Longrightarrow> mset (shuffle k draw xs) = mset xs"
proof (induction k arbitrary: xs)
  case (Suc i)
  let ?j = "draw (Suc (Suc i))"
  have j: "?j < length xs"
    using Suc.prems by (meson Suc_lessI Suc_less_eq less_trans_Suc order.strict_trans zero_less_Suc)
  have "mset (xs[Suc i := xs ! ?j, ?j := xs ! Suc i]) = mset xs"
    using Suc.prems(1) j by (simp add: mset_swap)
  then show ?case
    using Suc by (simp add: Let_def)
qed simp

text \<open>
  The resolver publishes the configured addresses, whatever the random draws are: the
  addresses it keeps are a permutation of the configured list, each with the host it dials as
  its server name, and the names it publishes are those of the addresses in the same order.
\<close>
theorem resolver_publishes_backends:
  assumes "newStaticBackendResolverBuilder backends = Inr b" "\<forall>n. 0 < n \<longrightarrow> draw n < n"
    and "Build draw rejected b = Inr (addresses, published)"
  shows "mset addresses = mset (configuredAddressesAsResolverState backends) \<and>
         mset published = mset backends \<and> published = map ra_Addr addresses \<and> \<not> rejected"
proof -
  have b: "sb_backends b = backends" "2 \<le> length backends"
    using assms(1) by (auto simp: newStaticBackendResolverBuilder_def split: if_splits)
  let ?as = "configuredAddressesAsResolverState backends"
  have l: "length ?as - 1 < length ?as"
    using b(2) by (simp add: configuredAddressesAsResolverState_def)
  have a: "addresses = shuffle (length ?as - 1) draw ?as" "published = map ra_Addr addresses" "\<not> rejected"
    using assms(3) b(1) by (auto simp: Build_def Let_def split: if_splits)
  have m: "mset addresses = mset ?as"
    using shuffle_perm [OF l assms(2)] a(1) by simp
  have "map ra_Addr ?as = backends"
    by (induction backends) (simp_all add: configuredAddressesAsResolverState_def split: sum.splits)
  then have "mset published = mset backends"
    using m a(2) by (metis mset_map)
  then show ?thesis
    using m a by simp
qed

theorem resolver_publishes_backends_witness:
  "\<exists>as ps. Build (\<lambda>n. 0) False \<lparr>sb_backends = [''a:1'', ''b:2''], sb_targetValue = ''skywalking-static:///a:1,b:2''\<rparr> = Inr (as, ps) \<and>
     mset ps = mset [''a:1'', ''b:2'']"
proof -
  have 1: "newStaticBackendResolverBuilder [''a:1'', ''b:2''] =
      Inr \<lparr>sb_backends = [''a:1'', ''b:2''], sb_targetValue = ''skywalking-static:///a:1,b:2''\<rparr>"
    by (simp add: newStaticBackendResolverBuilder_def)
  obtain as ps where 2: "Build (\<lambda>n. 0) False \<lparr>sb_backends = [''a:1'', ''b:2''], sb_targetValue = ''skywalking-static:///a:1,b:2''\<rparr> = Inr (as, ps)"
    by (simp add: Build_def Let_def)
  show ?thesis
    using resolver_publishes_backends [OF 1 _ 2] 2 by auto
qed

end
