(* ===== verification/Connections.thy ===== *)
theory Connections
  imports Backends
begin

text \<open>
  The connection manager of the reporters (plugins/core/reporter/conn_manager.go) and the
  logger of authentication failures (auth_failure_log.go).  A gRPC connection is a number;
  whether dialling succeeds and what state a connection is in are answers of gRPC, arguments
  here.  A ManagedConnection owns its connection, so the pointer to it is identified by the
  number of the connection.  Every locked section is one function; conn_step interleaves them
  for any number of goroutines.  Durations are nanoseconds.
\<close>

datatype connection_status = Connected | Disconnect | Shutdown

datatype connectivity = Idle | Connecting | Ready | TransientFailure | ShutdownState

record managed_connection =
  mc_connection :: nat
  mc_status :: connection_status
  mc_refCount :: int

record connection_manager =
  cm_serverAddr :: string
  cm_backends :: "string list"
  cm_multiBackend :: bool
  connManager :: "string \<rightharpoonup> managed_connection"
  resolvedBackendAddrs :: "string list"

definition NewConnectionManager :: "string \<Rightarrow> (backend_error, connection_manager) result" where
  "NewConnectionManager serverAddr =
     (case parseBackendServiceList serverAddr of
        Inl err \<Rightarrow> Err err
      | Inr backends \<Rightarrow>
          (let multi = length backends \<ge> 2
           in Ok \<lparr>cm_serverAddr = (if multi then serverAddr else backends ! 0), cm_backends = backends,
                  cm_multiBackend = multi, connManager = Map.empty, resolvedBackendAddrs = []\<rparr>))"

text \<open>The first section of GetConnection: the connection found, if any.\<close>

definition acquire :: "string \<Rightarrow> connection_manager \<Rightarrow> connection_manager \<times> nat option" where
  "acquire addr cm =
     (case connManager cm addr of
        None \<Rightarrow> (cm, None)
      | Some managed \<Rightarrow>
          (cm\<lparr>connManager := (connManager cm)(addr \<mapsto> managed\<lparr>mc_refCount := mc_refCount managed + 1\<rparr>)\<rparr>,
           Some (mc_connection managed)))"

text \<open>
  The section after createConnection: the manager, the connection to return, and whether the
  new connection is stored (and its checker started) or closed.
\<close>

definition publish_connection :: "string \<Rightarrow> nat \<Rightarrow> connection_manager \<Rightarrow> connection_manager \<times> nat \<times> bool" where
  "publish_connection addr conn cm =
     (case acquire addr cm of
        (cm', Some existing) \<Rightarrow> (cm', existing, False)
      | (cm', None) \<Rightarrow>
          (cm'\<lparr>connManager := (connManager cm')(addr \<mapsto>
              \<lparr>mc_connection = conn, mc_status = Connected, mc_refCount = 1\<rparr>)\<rparr>, conn, True))"

text \<open>ReleaseConnection: the manager and the connection closed.\<close>

definition ReleaseConnection :: "string \<Rightarrow> connection_manager \<Rightarrow> connection_manager \<times> nat option" where
  "ReleaseConnection addr cm =
     (case connManager cm addr of
        None \<Rightarrow> (cm, None)
      | Some managed \<Rightarrow>
          (let managed = managed\<lparr>mc_refCount := mc_refCount managed - 1\<rparr>
           in if mc_refCount managed \<le> 0
              then (cm\<lparr>connManager := (connManager cm)(addr := None)\<rparr>, Some (mc_connection managed))
              else (cm\<lparr>connManager := (connManager cm)(addr \<mapsto> managed)\<rparr>, None)))"

definition GetConnectionStatus :: "(nat \<Rightarrow> connectivity) \<Rightarrow> string \<Rightarrow> connection_manager \<Rightarrow> connection_manager \<times> connection_status" where
  "GetConnectionStatus state addr cm =
     (case connManager cm addr of
        None \<Rightarrow> (cm, Shutdown)
      | Some managed \<Rightarrow>
          (let managed = (if state (mc_connection managed) = ShutdownState then managed\<lparr>mc_status := Shutdown\<rparr> else managed)
           in (cm\<lparr>connManager := (connManager cm)(addr \<mapsto> managed)\<rparr>, mc_status managed)))"

text \<open>checkConnectionStatus: what a round reads, and the section that stores the new status.\<close>

definition status_of :: "connectivity \<Rightarrow> connection_status" where
  "status_of state =
     (case state of TransientFailure \<Rightarrow> Disconnect | ShutdownState \<Rightarrow> Shutdown | _ \<Rightarrow> Connected)"

definition check_store :: "string \<Rightarrow> nat \<Rightarrow> connection_status \<Rightarrow> connection_manager \<Rightarrow> connection_manager \<times> bool" where
  "check_store addr conn newStatus cm =
     (case connManager cm addr of
        None \<Rightarrow> (cm, False)
      | Some current \<Rightarrow>
          if mc_connection current \<noteq> conn then (cm, False)
          else (cm\<lparr>connManager := (connManager cm)(addr \<mapsto> current\<lparr>mc_status := newStatus\<rparr>)\<rparr>, True))"

section \<open>Goroutines\<close>

text \<open>
  cw_pending: connections dialled and not yet published; cw_held: the handles GetConnection
  returned and nobody released yet; cw_checkers: the status goroutines, with the connection and
  the status read when they are between their two sections.
\<close>

record conn_world =
  cw_cm :: connection_manager
  cw_next :: nat
  cw_closed :: "nat set"
  cw_pending :: "(string \<times> nat) list"
  cw_held :: "(string \<times> nat) list"
  cw_checkers :: "(string \<times> (nat \<times> connection_status) option) list"

definition conn_init :: "connection_manager \<Rightarrow> conn_world" where
  "conn_init cm = \<lparr>cw_cm = cm, cw_next = 0, cw_closed = {}, cw_pending = [], cw_held = [], cw_checkers = []\<rparr>"

inductive conn_step :: "conn_world \<Rightarrow> conn_world \<Rightarrow> bool" where
  c_hit: "acquire addr (cw_cm w) = (cm, Some conn) \<Longrightarrow>
    conn_step w (w\<lparr>cw_cm := cm, cw_held := (addr, conn) # cw_held w\<rparr>)"
| c_dial: "acquire addr (cw_cm w) = (cm, None) \<Longrightarrow>
    conn_step w (w\<lparr>cw_pending := (addr, cw_next w) # cw_pending w, cw_next := cw_next w + 1\<rparr>)"
| c_publish: "(addr, conn) \<in> set (cw_pending w) \<Longrightarrow> publish_connection addr conn (cw_cm w) = (cm, ret, stored) \<Longrightarrow>
    conn_step w (w\<lparr>cw_cm := cm, cw_pending := remove1 (addr, conn) (cw_pending w),
      cw_held := (addr, ret) # cw_held w,
      cw_closed := (if stored then cw_closed w else insert conn (cw_closed w)),
      cw_checkers := (if stored then (addr, None) # cw_checkers w else cw_checkers w)\<rparr>)"
| c_release: "(addr, conn) \<in> set (cw_held w) \<Longrightarrow> ReleaseConnection addr (cw_cm w) = (cm, dead) \<Longrightarrow>
    conn_step w (w\<lparr>cw_cm := cm, cw_held := remove1 (addr, conn) (cw_held w),
      cw_closed := (case dead of None \<Rightarrow> cw_closed w | Some c \<Rightarrow> insert c (cw_closed w))\<rparr>)"
| c_status: "GetConnectionStatus state addr (cw_cm w) = (cm, s) \<Longrightarrow> conn_step w (w\<lparr>cw_cm := cm\<rparr>)"
| c_check_gone: "(addr, None) \<in> set (cw_checkers w) \<Longrightarrow> connManager (cw_cm w) addr = None \<Longrightarrow>
    conn_step w (w\<lparr>cw_checkers := remove1 (addr, None) (cw_checkers w)\<rparr>)"
| c_check_read: "(addr, None) \<in> set (cw_checkers w) \<Longrightarrow> connManager (cw_cm w) addr = Some m \<Longrightarrow>
    conn_step w (w\<lparr>cw_checkers := (addr, Some (mc_connection m, status_of state)) # remove1 (addr, None) (cw_checkers w)\<rparr>)"
| c_check_store: "(addr, Some (conn, s)) \<in> set (cw_checkers w) \<Longrightarrow> check_store addr conn s (cw_cm w) = (cm, alive) \<Longrightarrow>
    conn_step w (w\<lparr>cw_cm := cm, cw_checkers :=
      (if alive then [(addr, None)] else []) @ remove1 (addr, Some (conn, s)) (cw_checkers w)\<rparr>)"

inductive_cases conn_stepE: "conn_step w w'"

section \<open>The reference counts\<close>

text \<open>What the operations do to the slots: the connection and the reference count of an address.\<close>

definition slots :: "connection_manager \<Rightarrow> string \<Rightarrow> (nat \<times> int) option" where
  "slots cm addr = map_option (\<lambda>m. (mc_connection m, mc_refCount m)) (connManager cm addr)"

lemma slots_upd [simp]:
  "slots (cm\<lparr>connManager := (connManager cm)(a \<mapsto> m)\<rparr>) = (slots cm)(a \<mapsto> (mc_connection m, mc_refCount m))"
  "slots (cm\<lparr>connManager := (connManager cm)(a := None)\<rparr>) = (slots cm)(a := None)"
  by (auto simp: slots_def fun_eq_iff)

lemma slots_None: "connManager cm addr = None \<longleftrightarrow> slots cm addr = None"
  by (simp add: slots_def)

lemma acquire_Some:
  "acquire addr cm = (cm', Some c) \<Longrightarrow> \<exists>r. slots cm addr = Some (c, r) \<and> slots cm' = (slots cm)(addr \<mapsto> (c, r + 1))"
  by (auto simp: acquire_def slots_def [of cm] fun_eq_iff split: option.splits)

lemma acquire_None: "acquire addr cm = (cm', None) \<Longrightarrow> slots cm addr = None \<and> cm' = cm"
  by (auto simp: acquire_def slots_def split: option.splits)

lemma publish_cases:
  assumes "publish_connection addr conn cm = (cm', ret, stored)"
  shows "stored \<and> slots cm addr = None \<and> ret = conn \<and> slots cm' = (slots cm)(addr \<mapsto> (conn, 1)) \<or>
         \<not> stored \<and> (\<exists>r. slots cm addr = Some (ret, r) \<and> slots cm' = (slots cm)(addr \<mapsto> (ret, r + 1)))"
proof (cases "acquire addr cm")
  case (Pair cm1 found)
  show ?thesis
  proof (cases found)
    case None
    then have "slots cm addr = None" "cm1 = cm"
      using acquire_None Pair by auto
    then show ?thesis
      using assms Pair None by (auto simp: publish_connection_def)
  next
    case (Some c)
    then show ?thesis
      using assms Pair acquire_Some [of addr cm cm1 c] by (auto simp: publish_connection_def)
  qed
qed

lemma release_cases:
  assumes "ReleaseConnection addr cm = (cm', dead)" "slots cm addr = Some (c, r)"
  shows "r \<le> 1 \<and> dead = Some c \<and> slots cm' = (slots cm)(addr := None) \<or>
         1 < r \<and> dead = None \<and> slots cm' = (slots cm)(addr \<mapsto> (c, r - 1))"
  using assms by (auto simp: ReleaseConnection_def slots_def [of cm] Let_def fun_eq_iff split: option.splits if_splits)

lemma status_slots:
  "GetConnectionStatus state addr cm = (cm', s) \<Longrightarrow> slots cm' = slots cm"
  "check_store addr conn s cm = (cm', alive) \<Longrightarrow> slots cm' = slots cm"
  by (auto simp: GetConnectionStatus_def check_store_def slots_def fun_eq_iff Let_def split: option.splits if_splits)

text \<open>
  The invariant: a slot counts the handles held for its address, all of them on its connection,
  which is open; and every connection ever dialled is stored, waiting to be published, or closed.
\<close>

definition held_at :: "string \<Rightarrow> (string \<times> nat) list \<Rightarrow> nat list" where
  "held_at addr hs = map snd (filter (\<lambda>h. fst h = addr) hs)"

lemma held_at_Cons [simp]:
  "held_at addr ((a, c) # hs) = (if a = addr then c # held_at addr hs else held_at addr hs)"
  by (simp add: held_at_def)

definition count_at :: "(string \<Rightarrow> (nat \<times> int) option) \<Rightarrow> (string \<times> nat) list \<Rightarrow> string \<Rightarrow> bool" where
  "count_at sl hs addr \<longleftrightarrow>
     (case sl addr of
        None \<Rightarrow> held_at addr hs = []
      | Some (c, r) \<Rightarrow> 0 < r \<and> r = int (length (held_at addr hs)) \<and> set (held_at addr hs) \<subseteq> {c})"

definition count_inv :: "(string \<Rightarrow> (nat \<times> int) option) \<Rightarrow> (string \<times> nat) list \<Rightarrow> bool" where
  "count_inv sl hs \<longleftrightarrow> (\<forall>addr. count_at sl hs addr)"

definition used :: "(string \<Rightarrow> (nat \<times> int) option) \<Rightarrow> nat set" where
  "used sl = {c. \<exists>a r. sl a = Some (c, r)}"

definition one_slot :: "(string \<Rightarrow> (nat \<times> int) option) \<Rightarrow> bool" where
  "one_slot sl \<longleftrightarrow> (\<forall>a b c r s. sl a = Some (c, r) \<and> sl b = Some (c, s) \<longrightarrow> a = b)"

definition open_inv :: "(string \<Rightarrow> (nat \<times> int) option) \<Rightarrow> nat list \<Rightarrow> nat set \<Rightarrow> nat \<Rightarrow> bool" where
  "open_inv sl pend closed n \<longleftrightarrow>
     used sl \<union> set pend \<union> closed = {..<n} \<and> used sl \<inter> set pend = {} \<and> used sl \<inter> closed = {} \<and>
     set pend \<inter> closed = {} \<and> one_slot sl \<and> distinct pend"

definition conn_inv :: "conn_world \<Rightarrow> bool" where
  "conn_inv w \<longleftrightarrow> count_inv (slots (cw_cm w)) (cw_held w) \<and>
     open_inv (slots (cw_cm w)) (map snd (cw_pending w)) (cw_closed w) (cw_next w)"

lemma count_inv_add:
  assumes "count_inv sl hs" "sl addr = Some (c, r)"
  shows "count_inv (sl(addr \<mapsto> (c, r + 1))) ((addr, c) # hs)"
proof -
  have "count_at (sl(addr \<mapsto> (c, r + 1))) ((addr, c) # hs) a" for a
  proof -
    have "count_at sl hs a" "count_at sl hs addr"
      using assms(1) by (simp_all add: count_inv_def)
    then show ?thesis
      using assms(2) by (cases "a = addr"; cases "sl a") (auto simp: count_at_def)
  qed
  then show ?thesis
    by (simp add: count_inv_def)
qed

lemma count_inv_new:
  assumes "count_inv sl hs" "sl addr = None"
  shows "count_inv (sl(addr \<mapsto> (c, 1))) ((addr, c) # hs)"
proof -
  have "count_at (sl(addr \<mapsto> (c, 1))) ((addr, c) # hs) a" for a
  proof -
    have "count_at sl hs a" "count_at sl hs addr"
      using assms(1) by (simp_all add: count_inv_def)
    then show ?thesis
      using assms(2) by (cases "a = addr"; cases "sl a") (auto simp: count_at_def)
  qed
  then show ?thesis
    by (simp add: count_inv_def)
qed

lemma held_at_remove1:
  "(addr, c) \<in> set hs \<Longrightarrow> held_at addr (remove1 (addr, c) hs) = remove1 c (held_at addr hs)"
  "a \<noteq> addr \<Longrightarrow> held_at a (remove1 (addr, c) hs) = held_at a hs"
  by (induction hs) (auto simp: held_at_def)

lemma held_at_in: "(addr, c) \<in> set hs \<Longrightarrow> c \<in> set (held_at addr hs)"
  by (force simp: held_at_def)

lemma count_inv_held:
  assumes "count_inv sl hs" "(addr, c) \<in> set hs"
  shows "\<exists>r. sl addr = Some (c, r)"
proof -
  have "count_at sl hs addr"
    using assms(1) by (simp add: count_inv_def)
  then show ?thesis
    using held_at_in [OF assms(2)] by (auto simp: count_at_def split: option.splits)
qed

lemma count_inv_remove:
  assumes "count_inv sl hs" "(addr, c) \<in> set hs" "sl addr = Some (c, r)"
  shows "count_inv (sl(addr := (if r \<le> 1 then None else Some (c, r - 1)))) (remove1 (addr, c) hs)"
proof -
  let ?sl = "sl(addr := (if r \<le> 1 then None else Some (c, r - 1)))"
  let ?l = "held_at addr hs"
  have in_l: "c \<in> set ?l"
    by (rule held_at_in [OF assms(2)])
  then have l: "length (remove1 c ?l) = length ?l - 1" "0 < length ?l"
    using length_pos_if_in_set [OF in_l] by (simp_all add: length_remove1)
  have "count_at sl hs addr"
    using assms(1) by (simp add: count_inv_def)
  then have i: "r = int (length ?l)" "set ?l \<subseteq> {c}"
    using assms(3) by (simp_all add: count_at_def)
  have s: "set (remove1 c ?l) \<subseteq> {c}"
    using i(2) set_remove1_subset [of c ?l] by blast
  have here: "count_at ?sl (remove1 (addr, c) hs) addr"
  proof (cases "r \<le> 1")
    case True
    then have "remove1 c ?l = []"
      using l i(1) by (cases "remove1 c ?l") simp_all
    then show ?thesis
      using True held_at_remove1(1) [OF assms(2)] by (simp add: count_at_def)
  next
    case False
    then show ?thesis
      using held_at_remove1(1) [OF assms(2)] i(1) l s by (simp add: count_at_def of_nat_diff del: set_remove1_subset)
  qed
  have other: "count_at ?sl (remove1 (addr, c) hs) a" if "a \<noteq> addr" for a
  proof -
    have "count_at sl hs a"
      using assms(1) by (simp add: count_inv_def)
    then show ?thesis
      by (simp only: count_at_def held_at_remove1(2) [OF that] fun_upd_other [OF that])
  qed
  show ?thesis
    unfolding count_inv_def
  proof
    fix a
    show "count_at ?sl (remove1 (addr, c) hs) a"
      using here other [of a] by (cases "a = addr") simp_all
  qed
qed

lemma usedI: "sl a = Some (c, r) \<Longrightarrow> c \<in> used sl"
  by (auto simp: used_def)

lemma used_slot: "sl addr = Some (c, r) \<Longrightarrow> used (sl(addr \<mapsto> (c, r'))) = used sl"
  unfolding used_def by (auto, metis fun_upd_other fun_upd_same option.inject prod.inject)

lemma usedE:
  assumes "c \<in> used sl"
  obtains a r where "sl a = Some (c, r)"
  using assms by (auto simp: used_def)

lemma used_new:
  assumes "sl addr = None"
  shows "used (sl(addr \<mapsto> (c, r))) = insert c (used sl)"
proof (intro set_eqI iffI)
  fix x
  assume "x \<in> used (sl(addr \<mapsto> (c, r)))"
  then obtain a s where "(sl(addr \<mapsto> (c, r))) a = Some (x, s)"
    by (rule usedE)
  then show "x \<in> insert c (used sl)"
    using usedI [of sl a x s] by (cases "a = addr") auto
next
  fix x
  assume x: "x \<in> insert c (used sl)"
  show "x \<in> used (sl(addr \<mapsto> (c, r)))"
  proof (cases "x = c")
    case True
    then show ?thesis
      by (intro usedI [of _ addr]) auto
  next
    case False
    with x obtain a s where "sl a = Some (x, s)"
      by (auto elim: usedE)
    then show ?thesis
      using assms by (intro usedI [of _ a _ s]) auto
  qed
qed

lemma used_drop:
  assumes "sl addr = Some (c, r)" "one_slot sl"
  shows "used (sl(addr := None)) = used sl - {c}"
proof (intro set_eqI iffI)
  fix x
  assume "x \<in> used (sl(addr := None))"
  then obtain a s where a: "a \<noteq> addr" "sl a = Some (x, s)"
    by (auto elim!: usedE split: if_splits)
  then have "x \<noteq> c"
    using assms unfolding one_slot_def by blast
  then show "x \<in> used sl - {c}"
    using a usedI [of sl a] by simp
next
  fix x
  assume "x \<in> used sl - {c}"
  then obtain a s where "sl a = Some (x, s)" "x \<noteq> c"
    by (auto elim: usedE)
  then show "x \<in> used (sl(addr := None))"
    using assms(1) by (intro usedI [of _ a _ s]) auto
qed

lemma one_slot_upd:
  assumes "one_slot sl" "c \<notin> used sl \<or> (\<exists>r. sl addr = Some (c, r))"
  shows "one_slot (sl(addr \<mapsto> (c, r')))"
proof -
  have "a = addr" if "sl a = Some (c, s)" for a s
    using assms that usedI [of sl a c s] unfolding one_slot_def by blast
  then show ?thesis
    using assms(1) unfolding one_slot_def by (metis fun_upd_apply option.inject prod.inject)
qed

lemma one_slot_drop: "one_slot sl \<Longrightarrow> one_slot (sl(addr := None))"
  unfolding one_slot_def by (metis fun_upd_other fun_upd_same option.distinct(1))

lemma open_inv_slot:
  assumes "open_inv sl pend closed n" "sl addr = Some (c, r)"
  shows "open_inv (sl(addr \<mapsto> (c, r'))) pend closed n"
  using assms one_slot_upd [of sl c addr r'] by (auto simp: open_inv_def used_slot [where sl = sl, OF assms(2)])

lemma open_inv_dial: "open_inv sl pend closed n \<Longrightarrow> open_inv sl (n # pend) closed (n + 1)"
  by (auto simp: open_inv_def lessThan_Suc)

lemma open_inv_store:
  assumes "open_inv sl pend closed n" "sl addr = None" "c \<in> set pend"
  shows "open_inv (sl(addr \<mapsto> (c, 1))) (remove1 c pend) closed n"
  using assms one_slot_upd [of sl c addr 1] by (auto simp: open_inv_def used_new)

lemma open_inv_lose:
  "open_inv sl pend closed n \<Longrightarrow> c \<in> set pend \<Longrightarrow> open_inv sl (remove1 c pend) (insert c closed) n"
  by (auto simp: open_inv_def)

lemma open_inv_drop:
  assumes "open_inv sl pend closed n" "sl addr = Some (c, r)"
  shows "open_inv (sl(addr := None)) pend (insert c closed) n"
proof -
  have "c \<in> used sl"
    using assms(2) by (auto simp: used_def)
  then show ?thesis
    using assms one_slot_drop [of sl addr] by (auto simp: open_inv_def used_drop)
qed

lemma snd_remove1:
  "distinct (map snd ps) \<Longrightarrow> (a, c) \<in> set ps \<Longrightarrow> map snd (remove1 (a, c) ps) = remove1 c (map snd ps)"
  by (induction ps) force+

lemma conn_step_inv:
  assumes "conn_step w w'" "conn_inv w"
  shows "conn_inv w'"
  using assms(1)
proof (cases rule: conn_step.cases)
  case (c_hit addr cm conn)
  then show ?thesis
    using acquire_Some [OF c_hit(2)] assms(2) count_inv_add open_inv_slot by (fastforce simp: conn_inv_def)
next
  case (c_dial addr cm)
  then show ?thesis
    using assms(2) open_inv_dial by (simp add: conn_inv_def)
next
  case (c_publish addr conn cm ret stored)
  have p: "map snd (remove1 (addr, conn) (cw_pending w)) = remove1 conn (map snd (cw_pending w))"
    "conn \<in> set (map snd (cw_pending w))"
    using assms(2) c_publish(2) by (auto simp: conn_inv_def open_inv_def intro!: snd_remove1 image_eqI)
  show ?thesis
    using publish_cases [OF c_publish(3)]
  proof (elim disjE conjE exE)
    assume "stored" "slots (cw_cm w) addr = None" "ret = conn" "slots cm = (slots (cw_cm w))(addr \<mapsto> (conn, 1))"
    then show ?thesis
      using c_publish p assms(2) count_inv_new open_inv_store [OF _ _ p(2)] by (simp add: conn_inv_def)
  next
    fix r
    assume "\<not> stored" "slots (cw_cm w) addr = Some (ret, r)" "slots cm = (slots (cw_cm w))(addr \<mapsto> (ret, r + 1))"
    then show ?thesis
      using c_publish p assms(2) count_inv_add open_inv_lose [OF open_inv_slot p(2)] by (simp add: conn_inv_def)
  qed
next
  case (c_release addr conn cm dead)
  obtain r where r: "slots (cw_cm w) addr = Some (conn, r)"
    using count_inv_held c_release(2) assms(2) by (fastforce simp: conn_inv_def)
  have c: "count_inv ((slots (cw_cm w))(addr := (if r \<le> 1 then None else Some (conn, r - 1)))) (remove1 (addr, conn) (cw_held w))"
    using count_inv_remove [where sl = "slots (cw_cm w)", OF _ c_release(2) r] assms(2) by (simp add: conn_inv_def)
  show ?thesis
    using release_cases [OF c_release(3) r] c c_release(1) assms(2) open_inv_drop [where sl = "slots (cw_cm w)", OF _ r] open_inv_slot [where sl = "slots (cw_cm w)", OF _ r]
    by (auto simp: conn_inv_def)
next
  case (c_status state addr cm s)
  then show ?thesis
    using assms(2) status_slots(1) by (simp add: conn_inv_def)
next
  case (c_check_store addr conn s cm alive)
  then show ?thesis
    using assms(2) status_slots(2) by (simp add: conn_inv_def)
qed (use assms(2) in \<open>auto simp: conn_inv_def\<close>)

lemma conn_init_inv: "connManager cm = Map.empty \<Longrightarrow> conn_inv (conn_init cm)"
  by (simp add: conn_inv_def conn_init_def count_inv_def count_at_def held_at_def slots_def open_inv_def used_def one_slot_def)

lemma conn_reach_inv: "conn_step\<^sup>*\<^sup>* (conn_init cm) w \<Longrightarrow> connManager cm = Map.empty \<Longrightarrow> conn_inv w"
  by (induction rule: rtranclp_induct) (auto simp: conn_init_inv intro: conn_step_inv)

text \<open>
  C8. However many goroutines get and release connections, dial in parallel and lose the race to
  publish: a connection somebody holds is open and is the one stored for its address, with as
  many references as there are holders; and once everybody released and no dial is pending,
  every connection that was ever dialled is closed and the address reports Shutdown.
\<close>
theorem held_connection_open:
  assumes "conn_step\<^sup>*\<^sup>* (conn_init cm) w" "connManager cm = Map.empty"
  shows "(\<forall>(addr, c)\<in>set (cw_held w). c \<notin> cw_closed w \<and>
           slots (cw_cm w) addr = Some (c, int (length (held_at addr (cw_held w))))) \<and>
         (cw_held w = [] \<and> cw_pending w = [] \<longrightarrow>
           cw_closed w = {..<cw_next w} \<and> (\<forall>state addr. snd (GetConnectionStatus state addr (cw_cm w)) = Shutdown))"
proof -
  have i: "conn_inv w"
    by (rule conn_reach_inv [OF assms])
  have "c \<notin> cw_closed w \<and> slots (cw_cm w) addr = Some (c, int (length (held_at addr (cw_held w))))"
    if "(addr, c) \<in> set (cw_held w)" for addr c
  proof -
    note h = that
    have "count_inv (slots (cw_cm w)) (cw_held w)"
      using i by (simp add: conn_inv_def)
    then obtain r where r: "slots (cw_cm w) addr = Some (c, r)"
      using count_inv_held h by blast
    have "count_at (slots (cw_cm w)) (cw_held w) addr"
      using i by (simp add: conn_inv_def count_inv_def)
    moreover have "c \<in> used (slots (cw_cm w))"
      using r by (rule usedI)
    ultimately show ?thesis
      using r i by (auto simp: count_at_def conn_inv_def open_inv_def)
  qed
  moreover have "cw_closed w = {..<cw_next w} \<and> (\<forall>state addr. snd (GetConnectionStatus state addr (cw_cm w)) = Shutdown)"
    if "cw_held w = []" "cw_pending w = []"
  proof -
    have none: "slots (cw_cm w) addr = None" for addr
    proof -
      have "count_at (slots (cw_cm w)) [] addr"
        using i that by (simp add: conn_inv_def count_inv_def)
      then show ?thesis
        by (auto simp: count_at_def held_at_def split: option.splits)
    qed
    then have "used (slots (cw_cm w)) = {}"
      by (simp add: used_def)
    then show ?thesis
      using i that none by (auto simp: conn_inv_def open_inv_def GetConnectionStatus_def slots_None [symmetric] slots_def)
  qed
  ultimately show ?thesis
    by blast
qed

definition empty_manager :: connection_manager where
  "empty_manager = \<lparr>cm_serverAddr = ''oap:1'', cm_backends = [''oap:1''], cm_multiBackend = False,
     connManager = Map.empty, resolvedBackendAddrs = []\<rparr>"

text \<open>Two goroutines dial for one address; the second to publish closes its own connection.\<close>

definition race_world :: conn_world where
  "race_world = (conn_init empty_manager)\<lparr>
     cw_cm := empty_manager\<lparr>connManager := [''a'' \<mapsto> \<lparr>mc_connection = 1, mc_status = Connected, mc_refCount = 2\<rparr>]\<rparr>,
     cw_next := 2, cw_closed := {0}, cw_held := [(''a'', 1), (''a'', 1)], cw_checkers := [(''a'', None)]\<rparr>"

lemma race_reach: "conn_step\<^sup>*\<^sup>* (conn_init empty_manager) race_world"
proof -
  let ?i = "conn_init empty_manager"
  let ?d1 = "?i\<lparr>cw_pending := [(''a'', 0)], cw_next := 1\<rparr>"
  let ?d2 = "?i\<lparr>cw_pending := [(''a'', 1), (''a'', 0)], cw_next := Suc 1\<rparr>"
  let ?m = "empty_manager\<lparr>connManager := [''a'' \<mapsto> \<lparr>mc_connection = 1, mc_status = Connected, mc_refCount = 1\<rparr>]\<rparr>"
  let ?p = "?i\<lparr>cw_cm := ?m, cw_pending := [(''a'', 0)], cw_next := Suc 1, cw_held := [(''a'', 1)], cw_checkers := [(''a'', None)]\<rparr>"
  have a: "acquire ''a'' empty_manager = (empty_manager, None)"
    by (simp add: acquire_def empty_manager_def)
  have 1: "conn_step ?i ?d1"
    using c_dial [of "''a''" ?i empty_manager] a by (simp add: conn_init_def)
  have 2: "conn_step ?d1 ?d2"
    using c_dial [of "''a''" ?d1 empty_manager] a by (simp add: conn_init_def numeral_2_eq_2)
  have "publish_connection ''a'' 1 empty_manager = (?m, 1, True)"
    using a by (simp add: publish_connection_def empty_manager_def)
  then have 3: "conn_step ?d2 ?p"
    using c_publish [of "''a''" 1 ?d2 ?m 1 True] by (simp add: conn_init_def)
  have "publish_connection ''a'' 0 ?m = (cw_cm race_world, 1, False)"
    by (simp add: publish_connection_def acquire_def race_world_def)
  then have 4: "conn_step ?p race_world"
    using c_publish [of "''a''" 0 ?p "cw_cm race_world" 1 False] by (simp add: conn_init_def race_world_def numeral_2_eq_2)
  show ?thesis
    using 1 2 3 4 by (meson converse_rtranclp_into_rtranclp rtranclp.rtrancl_refl)
qed

theorem held_connection_open_witness:
  "1 \<notin> cw_closed race_world \<and> slots (cw_cm race_world) ''a'' = Some (1, 2)"
  using held_connection_open [OF race_reach]
  by (simp add: empty_manager_def race_world_def held_at_def conn_init_def)

section \<open>GetConnection\<close>

text \<open>
  GetConnection without interference; dial is the number of a connection dialled now, None when
  createConnection fails.  None is the error.
\<close>

definition GetConnection :: "string \<Rightarrow> nat option \<Rightarrow> connection_manager \<Rightarrow> (connection_manager \<times> nat) option" where
  "GetConnection addr dial cm =
     (case acquire addr cm of
        (cm, Some conn) \<Rightarrow> Some (cm, conn)
      | (cm, None) \<Rightarrow>
          (case dial of
             None \<Rightarrow> None
           | Some new \<Rightarrow> (case publish_connection addr new cm of (cm, conn, stored) \<Rightarrow> Some (cm, conn))))"

lemma GetConnection_slots:
  assumes "GetConnection addr dial cm = Some (cm', conn)"
  shows "\<exists>r. slots cm' addr = Some (conn, r) \<and>
             (r, conn) = (case slots cm addr of None \<Rightarrow> (1, the dial) | Some (d, q) \<Rightarrow> (q + 1, d))"
proof (cases "acquire addr cm")
  case (Pair cm1 found)
  show ?thesis
  proof (cases found)
    case None
    then have "slots cm addr = None" "cm1 = cm"
      using acquire_None Pair by auto
    then show ?thesis
      using assms Pair None by (auto simp: GetConnection_def publish_connection_def split: option.splits)
  next
    case (Some d)
    then show ?thesis
      using assms Pair acquire_Some [of addr cm cm1 d] by (auto simp: GetConnection_def)
  qed
qed

lemma GetConnection_fails:
  "GetConnection addr dial cm = None \<longleftrightarrow> slots cm addr = None \<and> dial = None"
  by (auto simp: GetConnection_def acquire_def publish_connection_def slots_def split: option.splits prod.splits)

end
