(* ===== verification/Transport.thy ===== *)
theory Transport
  imports Prelude
begin

text \<open>
  The transport helpers of plugins/core/reporter/conn_manager.go (the deadline of the first frame,
  the timers of streams and sends, the keepalive parameters) and the throttled logger of
  plugins/core/reporter/auth_failure_log.go.  Durations are nanoseconds; where they are added they
  are int64 words.
\<close>

section \<open>The first frame of a connection\<close>

text \<open>
  clearDeadlineAfterFirstReadConn: the dial deadline is cleared once the first HTTP/2 frame has
  been read completely, however the transport cuts it into reads.
\<close>

type_synonym byte = "8 word"

record frame_conn =
  fc_hdr :: "byte list"
  fc_read :: nat
  fc_cleared :: bool

definition frame_conn_init :: frame_conn where
  "frame_conn_init = \<lparr>fc_hdr = replicate 9 0, fc_read = 0, fc_cleared = False\<rparr>"

definition frame_length :: "byte list \<Rightarrow> nat" where
  "frame_length hdr = unat (hdr ! 0) * 65536 + unat (hdr ! 1) * 256 + unat (hdr ! 2)"

text \<open>copy(dst[i:], src).\<close>

definition copy_at :: "'a list \<Rightarrow> nat \<Rightarrow> 'a list \<Rightarrow> 'a list" where
  "copy_at dst i src =
     (let n = min (length src) (length dst - i) in take i dst @ take n src @ drop (i + n) dst)"

text \<open>Read with the bytes the connection returned; the flag is the call of SetDeadline.\<close>

definition conn_Read :: "byte list \<Rightarrow> frame_conn \<Rightarrow> frame_conn \<times> bool" where
  "conn_Read b c =
     (if length b > 0 \<and> \<not> fc_cleared c then
        (let c = (if fc_read c < length (fc_hdr c) then c\<lparr>fc_hdr := copy_at (fc_hdr c) (fc_read c) b\<rparr> else c);
             c = c\<lparr>fc_read := fc_read c + length b\<rparr>
         in if fc_read c \<ge> length (fc_hdr c) \<and> fc_read c \<ge> length (fc_hdr c) + frame_length (fc_hdr c)
            then (c\<lparr>fc_cleared := True\<rparr>, True) else (c, False))
      else (c, False))"

fun read_all :: "byte list list \<Rightarrow> frame_conn \<Rightarrow> frame_conn \<times> nat" where
  "read_all [] c = (c, 0)"
| "read_all (b # bs) c =
     (let (c, set_deadline) = conn_Read b c; (c, n) = read_all bs c
      in (c, n + (if set_deadline then 1 else 0)))"

definition first_frame_complete :: "byte list \<Rightarrow> bool" where
  "first_frame_complete s \<longleftrightarrow> 9 \<le> length s \<and> 9 + frame_length s \<le> length s"

text \<open>The reader has seen s and not the whole first frame.\<close>

definition frame_state :: "byte list \<Rightarrow> frame_conn \<Rightarrow> bool" where
  "frame_state s c \<longleftrightarrow>
     length (fc_hdr c) = 9 \<and> take (length s) (fc_hdr c) = take 9 s \<and> fc_read c = length s \<and> \<not> fc_cleared c"

lemma frame_length_eq: "9 \<le> length s \<Longrightarrow> h = take 9 s \<Longrightarrow> frame_length h = frame_length s"
  by (simp add: frame_length_def)

lemma copy_header:
  assumes "length dst = 9" "take (length s) dst = take 9 s" "length s < 9"
  shows "length (copy_at dst (length s) b) = 9 \<and> take (length (s @ b)) (copy_at dst (length s) b) = take 9 (s @ b)"
  using assms by (auto simp: copy_at_def Let_def min_def)

lemma conn_Read_step:
  assumes "frame_state s c" "b \<noteq> []"
  shows "if first_frame_complete (s @ b) then fc_cleared (fst (conn_Read b c)) \<and> snd (conn_Read b c)
         else frame_state (s @ b) (fst (conn_Read b c)) \<and> \<not> snd (conn_Read b c)"
proof -
  define h where "h = (if length s < 9 then copy_at (fc_hdr c) (length s) b else fc_hdr c)"
  have st: "length (fc_hdr c) = 9" "take (length s) (fc_hdr c) = take 9 s" "fc_read c = length s" "\<not> fc_cleared c"
    using assms(1) by (simp_all add: frame_state_def)
  have h: "length h = 9" "take (length (s @ b)) h = take 9 (s @ b)"
    using copy_header [OF st(1,2)] st unfolding h_def by auto
  have f: "frame_length h = frame_length (s @ b)" if "9 \<le> length (s @ b)"
    using frame_length_eq [OF that] h that by simp
  have r: "conn_Read b c =
      (let c' = c\<lparr>fc_hdr := h, fc_read := length (s @ b)\<rparr>
       in if 9 \<le> length (s @ b) \<and> 9 + frame_length h \<le> length (s @ b) then (c'\<lparr>fc_cleared := True\<rparr>, True) else (c', False))"
    using st h(1) assms(2) unfolding h_def by (cases "length s < 9") (simp_all add: conn_Read_def Let_def)
  show ?thesis
    using r f h st
    by (cases "9 \<le> length (s @ b)") (simp_all add: first_frame_complete_def frame_state_def Let_def)
qed

lemma read_all_cleared: "fc_cleared c \<Longrightarrow> read_all bs c = (c, 0)"
  by (induction bs) (simp_all add: conn_Read_def)

lemma first_frame_mono: "first_frame_complete s \<Longrightarrow> first_frame_complete (s @ t)"
proof -
  assume s: "first_frame_complete s"
  then have "frame_length (s @ t) = frame_length s"
    by (cases "s = []") (auto simp: first_frame_complete_def frame_length_def nth_append)
  then show ?thesis
    using s by (simp add: first_frame_complete_def)
qed

lemma read_all_state:
  assumes "frame_state s c" "\<not> first_frame_complete s"
  shows "fc_cleared (fst (read_all bs c)) = first_frame_complete (s @ concat bs) \<and>
         snd (read_all bs c) = (if first_frame_complete (s @ concat bs) then 1 else 0)"
  using assms
proof (induction bs arbitrary: s c)
  case Nil
  then show ?case
    by (simp add: frame_state_def)
next
  case (Cons b bs)
  show ?case
  proof (cases "b = []")
    case True
    then have "conn_Read b c = (c, False)"
      by (simp add: conn_Read_def)
    then show ?thesis
      using True Cons by (simp add: split_beta Let_def)
  next
    case False
    obtain c' d where c': "conn_Read b c = (c', d)"
      by fastforce
    note st = conn_Read_step [OF Cons.prems(1) False]
    show ?thesis
    proof (cases "first_frame_complete (s @ b)")
      case True
      then show ?thesis
        using st c' read_all_cleared [of c' bs] first_frame_mono [OF True, of "concat bs"] by simp
    next
      case False
      then show ?thesis
        using st c' Cons.IH [of "s @ b" c'] by (simp add: split_beta Let_def)
    qed
  qed
qed

text \<open>
  C20. The deadline of a new connection is cleared exactly when the server's first frame is
  complete, whatever pieces the reads return: after any reads the reader has cleared it if and
  only if the bytes read so far contain the 9-byte header and the payload length it announces,
  and it called SetDeadline once in that case and not at all otherwise.
\<close>
theorem deadline_cleared_iff:
  "fc_cleared (fst (read_all bs frame_conn_init)) = first_frame_complete (concat bs) \<and>
   snd (read_all bs frame_conn_init) = (if first_frame_complete (concat bs) then 1 else 0)"
  using read_all_state [of "[]" frame_conn_init bs]
  by (simp add: frame_state_def frame_conn_init_def first_frame_complete_def)

section \<open>Opening a stream\<close>

text \<open>
  BackendStreamContext: the timer callback and stopOpenTimer are sections of one mutex; cancel may
  be called by the client at any time.
\<close>

record stream_context =
  sc_opened :: bool
  sc_cancelled :: bool
  sc_timer :: bool

definition BackendStreamContext :: stream_context where
  "BackendStreamContext = \<lparr>sc_opened = False, sc_cancelled = False, sc_timer = True\<rparr>"

definition open_timer_fires :: "stream_context \<Rightarrow> stream_context" where
  "open_timer_fires s = s\<lparr>sc_cancelled := sc_cancelled s \<or> \<not> sc_opened s\<rparr>"

definition stopOpenTimer :: "stream_context \<Rightarrow> stream_context \<times> bool" where
  "stopOpenTimer s = (s\<lparr>sc_opened := True, sc_timer := False\<rparr>, sc_cancelled s)"

text \<open>
  The timer may already have started its callback when it is stopped, so the callback may run
  once more after stopOpenTimer.
\<close>

datatype stream_event = TimerCallback | StopOpen | ClientCancel

fun stream_run :: "stream_event list \<Rightarrow> stream_context \<Rightarrow> stream_context \<times> bool list" where
  "stream_run [] s = (s, [])"
| "stream_run (TimerCallback # es) s = stream_run es (open_timer_fires s)"
| "stream_run (StopOpen # es) s =
     (let (s, timedOut) = stopOpenTimer s; (s, rs) = stream_run es s in (s, timedOut # rs))"
| "stream_run (ClientCancel # es) s = stream_run es (s\<lparr>sc_cancelled := True\<rparr>)"

lemma opened_run:
  "sc_opened s \<Longrightarrow> ClientCancel \<notin> set es \<Longrightarrow> sc_cancelled (fst (stream_run es s)) = sc_cancelled s"
  by (induction es s rule: stream_run.induct)
    (auto simp: open_timer_fires_def stopOpenTimer_def split_beta Let_def)

text \<open>
  The race between opening a stream and its timeout is decided once: if stopOpenTimer
  reports no timeout, no later timer callback cancels the context, only the client does; if it
  reports one, the context is cancelled.
\<close>
theorem open_timeout_decided:
  assumes "stream_run es BackendStreamContext = (s, rs)" "stopOpenTimer s = (s', timedOut)"
    and "stream_run fs s' = (s'', rs')" "ClientCancel \<notin> set fs"
  shows "sc_cancelled s'' = timedOut"
proof -
  have "s' = s\<lparr>sc_opened := True, sc_timer := False\<rparr>" "timedOut = sc_cancelled s"
    using assms(2) by (simp_all add: stopOpenTimer_def)
  then show ?thesis
    using opened_run [of s' fs] assms(3,4) by simp
qed

theorem open_timeout_decided_witness:
  "sc_cancelled (fst (stream_run [TimerCallback] (fst (stopOpenTimer BackendStreamContext)))) = False"
proof -
  obtain s' where s': "stopOpenTimer BackendStreamContext = (s', False)"
    by (simp add: stopOpenTimer_def BackendStreamContext_def)
  obtain s'' rs where f: "stream_run [TimerCallback] s' = (s'', rs)"
    by fastforce
  show ?thesis
    using open_timeout_decided [of "[]", OF _ s' f] s' f by simp
qed

section \<open>Bounded sends\<close>

text \<open>
  BoundSendWatchdog: a timer that is armed for the length of one send.  None is a watchdog without
  a cancel function.  Do gives the deadline it left armed and whether cancel was called while
  send, which takes dur, was running.
\<close>

record watchdog =
  wd_timeout :: int
  wd_armed :: "int option"

definition default_bound_send :: int where "default_bound_send = 60000000000"

definition NewBoundSendWatchdog :: "bool \<Rightarrow> int \<Rightarrow> watchdog option" where
  "NewBoundSendWatchdog has_cancel timeout =
     (let timeout = (if timeout \<le> 0 then default_bound_send else timeout)
      in if has_cancel then Some \<lparr>wd_timeout = timeout, wd_armed = None\<rparr> else None)"

definition wd_Do :: "int \<Rightarrow> int \<Rightarrow> watchdog option \<Rightarrow> watchdog option \<times> bool" where
  "wd_Do now dur w =
     (case w of
        None \<Rightarrow> (None, False)
      | Some w \<Rightarrow>
          (let w = w\<lparr>wd_armed := Some (now + wd_timeout w)\<rparr>;
               fired = (the (wd_armed w) < now + dur)
           in (Some (w\<lparr>wd_armed := None\<rparr>), fired)))"

fun wd_run :: "(int \<times> int) list \<Rightarrow> watchdog option \<Rightarrow> watchdog option \<times> bool list" where
  "wd_run [] w = (w, [])"
| "wd_run ((now, dur) # ds) w =
     (let (w, fired) = wd_Do now dur w; (w, fs) = wd_run ds w in (w, fired # fs))"

text \<open>
  A reused watchdog cancels exactly the sends that take longer than its timeout (60 seconds
  when none is configured), however many sends came before; it is disarmed between sends.
\<close>
theorem watchdog_cancels_slow_sends:
  "snd (wd_run ds (NewBoundSendWatchdog True timeout)) =
     map (\<lambda>(now, dur). (if timeout \<le> 0 then default_bound_send else timeout) < dur) ds \<and>
   fst (wd_run ds (NewBoundSendWatchdog True timeout)) = NewBoundSendWatchdog True timeout"
  by (induction ds) (auto simp: NewBoundSendWatchdog_def wd_Do_def Let_def split_beta)

section \<open>Keepalive and timeouts\<close>

type_synonym i64 = "64 word"

definition seconds :: "nat \<Rightarrow> i64" where
  "seconds n = word_of_nat (n * 1000000000)"

definition keepalive_time :: "i64 \<Rightarrow> i64" where
  "keepalive_time checkInterval =
     (let interval = (if sint checkInterval < 0 then 0 else checkInterval);
          timeParam = seconds 30;
          derived = interval + seconds 10
      in if sint timeParam < sint derived then derived else timeParam)"

definition BackendRPCContext_timeout :: "i64 \<Rightarrow> i64" where
  "BackendRPCContext_timeout at_least =
     (if sint (seconds 30) < sint at_least then at_least else seconds 30)"

definition multiBackend_minConnect :: "nat \<Rightarrow> i64" where
  "multiBackend_minConnect n =
     (let perList = seconds 2 * word_of_nat n
      in if sint (seconds 5) < sint perList then perList else seconds 5)"

lemma sint_seconds: "n \<le> 9000000000 \<Longrightarrow> sint (seconds n) = int n * 1000000000"
  unfolding seconds_def signed_of_nat by (subst signed_take_bit_int_eq_self) auto

lemma sint_add_64:
  fixes a b :: i64
  assumes "- (2 ^ 63) \<le> sint a + sint b" "sint a + sint b < 2 ^ 63"
  shows "sint (a + b) = sint a + sint b"
  using assms by (simp add: sint_word_ariths signed_take_bit_int_eq_self)

text \<open>
  The keepalive interval is never below 30 seconds, also when the configured interval is
  negative or so large that the sum overflows; without overflow it is the larger of 30 seconds
  and the heartbeat interval plus 10 seconds, so pings are always sparser than heartbeats.
\<close>
theorem keepalive_bounds:
  "30000000000 \<le> sint (keepalive_time i) \<and>
   (0 \<le> sint i \<and> sint i < 2 ^ 63 - 10000000000 \<longrightarrow>
      sint (keepalive_time i) = max 30000000000 (sint i + 10000000000) \<and> sint i < sint (keepalive_time i))"
proof -
  have s: "sint (seconds 30) = 30000000000" "sint (seconds 10) = 10000000000"
    by (simp_all add: sint_seconds)
  have "sint (i + seconds 10) = sint i + 10000000000" if "0 \<le> sint i" "sint i < 2 ^ 63 - 10000000000"
    using sint_add_64 [of i "seconds 10"] that s by simp
  then show ?thesis
    using s by (auto simp: keepalive_time_def Let_def)
qed

theorem keepalive_bounds_witness:
  "sint (keepalive_time (seconds 60)) = 70000000000"
proof -
  have "sint (seconds 60) = 60000000000"
    by (simp add: sint_seconds)
  then show ?thesis
    using keepalive_bounds [of "seconds 60"] by simp
qed

section \<open>Authentication failures\<close>

datatype rpc_code = Unauthenticated | PermissionDenied | OtherCode

text \<open>The error of a call: none, one that is no gRPC status, or a status code.\<close>

datatype rpc_error = NoError | NotAStatus | Status rpc_code

definition authFailureLogInterval :: int where "authFailureLogInterval = 30000000000"

text \<open>note with a logger: the time of the last log line, and whether a line is logged.\<close>

definition note_failure :: "int \<Rightarrow> rpc_error \<Rightarrow> int option \<Rightarrow> int option \<times> bool" where
  "note_failure now err last_log =
     (case err of
        Status code \<Rightarrow>
          if code = OtherCode then (last_log, False)
          else if (case last_log of None \<Rightarrow> False | Some l \<Rightarrow> now - l < authFailureLogInterval) then (last_log, False)
          else (Some now, True)
      | _ \<Rightarrow> (last_log, False))"

fun note_all :: "(int \<times> rpc_error) list \<Rightarrow> int option \<Rightarrow> int list" where
  "note_all [] last_log = []"
| "note_all ((now, err) # es) last_log =
     (let (last_log, logged) = note_failure now err last_log
      in (if logged then [now] else []) @ note_all es last_log)"

definition auth_error :: "rpc_error \<Rightarrow> bool" where
  "auth_error err \<longleftrightarrow> err = Status Unauthenticated \<or> err = Status PermissionDenied"

lemma note_failure_cases:
  "note_failure now err l =
     (if auth_error err \<and> (\<forall>t. l = Some t \<longrightarrow> authFailureLogInterval \<le> now - t) then (Some now, True) else (l, False))"
  by (cases err) (auto simp: note_failure_def auth_error_def split: option.splits rpc_code.splits, (metis rpc_code.exhaust)+)

definition log_list :: "int option \<Rightarrow> int list" where
  "log_list l = (case l of None \<Rightarrow> [] | Some t \<Rightarrow> [t])"

lemma note_all_logs:
  assumes "sorted (map fst es)" "\<forall>t. l = Some t \<longrightarrow> (\<forall>e\<in>set es. t \<le> fst e)"
  shows "sorted_wrt (\<lambda>a b. a + authFailureLogInterval \<le> b) (log_list l @ note_all es l) \<and>
         (\<forall>(now, err)\<in>set es. auth_error err \<longrightarrow>
            (\<exists>x\<in>set (log_list l @ note_all es l). x \<le> now \<and> now < x + authFailureLogInterval)) \<and>
         (\<forall>x\<in>set (note_all es l). \<exists>err. (x, err) \<in> set es \<and> auth_error err)"
  using assms
proof (induction es arbitrary: l)
  case Nil
  then show ?case
    by (auto simp: log_list_def split: option.splits)
next
  case (Cons e es)
  obtain now err where e: "e = (now, err)"
    by fastforce
  let ?c = "auth_error err \<and> (\<forall>t. l = Some t \<longrightarrow> authFailureLogInterval \<le> now - t)"
  let ?l = "if ?c then Some now else l"
  have n: "note_all ((now, err) # es) l = (if ?c then [now] else []) @ note_all es ?l"
    by (cases ?c) (auto simp: note_failure_cases)
  have later: "\<forall>x\<in>set es. now \<le> fst x"
    using Cons.prems(1) e by auto
  have IH: "sorted_wrt (\<lambda>a b. a + authFailureLogInterval \<le> b) (log_list ?l @ note_all es ?l) \<and>
      (\<forall>(now, err)\<in>set es. auth_error err \<longrightarrow>
         (\<exists>x\<in>set (log_list ?l @ note_all es ?l). x \<le> now \<and> now < x + authFailureLogInterval)) \<and>
      (\<forall>x\<in>set (note_all es ?l). \<exists>err. (x, err) \<in> set es \<and> auth_error err)"
    using Cons.prems later by (intro Cons.IH) (auto simp: e)
  show ?case
  proof (cases ?c)
    case True
    have pos: "0 < authFailureLogInterval"
      by (simp add: authFailureLogInterval_def)
    have l: "log_list ?l = [now]"
      using True by (simp add: log_list_def)
    have n': "note_all ((now, err) # es) l = now # note_all es ?l"
      using n True by simp
    have all: "\<forall>x\<in>set (note_all es ?l). now + authFailureLogInterval \<le> x"
      using IH l by simp
    have "t + authFailureLogInterval \<le> now" if "l = Some t" for t
      using True that by auto
    moreover from this have "t + authFailureLogInterval \<le> x" if "l = Some t" "x \<in> set (note_all es ?l)" for t x
      using all that pos by fastforce
    ultimately have "sorted_wrt (\<lambda>a b. a + authFailureLogInterval \<le> b) (log_list l @ note_all ((now, err) # es) l)"
      unfolding n' using IH l by (cases l) (auto simp: log_list_def)
    then show ?thesis
      using IH l pos True by (simp only: e n') auto
  next
    case False
    have l: "?l = l" and n': "note_all ((now, err) # es) l = note_all es l"
      using n False by (simp_all only: if_False append_Nil)
    have "\<exists>x\<in>set (log_list l). x \<le> now \<and> now < x + authFailureLogInterval" if "auth_error err"
    proof -
      obtain t where "l = Some t" "\<not> authFailureLogInterval \<le> now - t"
        using False \<open>auth_error err\<close> by auto
      then show ?thesis
        using Cons.prems(2) e by (simp add: log_list_def)
    qed
    then show ?thesis
      using IH by (simp only: e n' l) fastforce
  qed
qed

text \<open>
  The log of authentication failures is throttled and complete: when the clock does not go
  back, two log lines are at least 30 seconds apart, only authentication and authorization
  failures are logged, and every such failure is logged or follows a log line by less than 30
  seconds.
\<close>
theorem auth_log_throttled:
  assumes "sorted (map fst es)"
  shows "sorted_wrt (\<lambda>a b. a + authFailureLogInterval \<le> b) (note_all es None) \<and>
         (\<forall>(now, err)\<in>set es. auth_error err \<longrightarrow>
            (\<exists>x\<in>set (note_all es None). x \<le> now \<and> now < x + authFailureLogInterval)) \<and>
         (\<forall>x\<in>set (note_all es None). \<exists>err. (x, err) \<in> set es \<and> auth_error err)"
  using note_all_logs [of es None] assms by (simp add: log_list_def)

theorem auth_log_throttled_witness:
  "note_all [(1, Status Unauthenticated), (2, Status PermissionDenied), (5, NotAStatus), (30000000001, Status PermissionDenied)] None
     = [1, 30000000001] \<and> sorted_wrt (\<lambda>a b. a + authFailureLogInterval \<le> b) [1, 30000000001]"
proof -
  have n: "note_all [(1, Status Unauthenticated), (2, Status PermissionDenied), (5, NotAStatus), (30000000001, Status PermissionDenied)] None
     = [1, 30000000001]"
    by (simp add: note_failure_def authFailureLogInterval_def)
  show ?thesis
    using auth_log_throttled [of "[(1, Status Unauthenticated), (2, Status PermissionDenied), (5, NotAStatus), (30000000001, Status PermissionDenied)]"] n
    by simp
qed

end
