(* ===== verification/Send_Pipeline.thy ===== *)
theory Send_Pipeline
  imports Connections Transform Profile_Manager "HOL-Library.Sublist"
begin

text \<open>
  The send side of the reporters: plugins/core/reporter/grpc/grpc.go and kafka/kafka.go.  A
  buffered channel is a list with a capacity; a send of a select with a default never waits.
  The three stream loops of initSendPipeline differ in the message only and are one function on
  the message type; its answers from gRPC (the connection status, whether the stream opens, how
  a send ends) come from an environment.  A panic inside a recovered function is a value.
\<close>

section \<open>Channels\<close>

record 'a chan =
  ch_buf :: "'a list"
  ch_cap :: nat
  ch_closed :: bool

definition make_chan :: "nat \<Rightarrow> 'a chan" where
  "make_chan n = \<lparr>ch_buf = [], ch_cap = n, ch_closed = False\<rparr>"

text \<open>What the code sees of a send; Recovered stands for a panic caught by a deferred recover.\<close>

datatype offer = Accepted | BufferFull | Recovered | NothingToSend

definition try_send :: "'a \<Rightarrow> 'a chan \<Rightarrow> 'a chan \<times> offer" where
  "try_send x ch =
     (if ch_closed ch then (ch, Recovered)
      else if length (ch_buf ch) < ch_cap ch then (ch\<lparr>ch_buf := ch_buf ch @ [x]\<rparr>, Accepted)
      else (ch, BufferFull))"

text \<open>A computation that may panic.\<close>

datatype 'a ran = Panicked | Returned 'a

definition SendTracing :: "'o option ran \<Rightarrow> 'o chan \<Rightarrow> 'o chan \<times> offer" where
  "SendTracing transformed ch =
     (case transformed of
        Panicked \<Rightarrow> (ch, Recovered)
      | Returned None \<Rightarrow> (ch, NothingToSend)
      | Returned (Some segmentObject) \<Rightarrow> try_send segmentObject ch)"

text \<open>
  SendMetrics transforms before it registers its recover: a panic of the transform escapes, None.
  A nil slice of messages is sent nowhere.
\<close>

definition SendMetrics :: "'m list ran \<Rightarrow> 'm list chan \<Rightarrow> ('m list chan \<times> offer) option" where
  "SendMetrics transformed ch =
     (case transformed of
        Panicked \<Rightarrow> None
      | Returned meters \<Rightarrow> Some (if meters = [] then (ch, NothingToSend) else try_send meters ch))"

definition SendLog :: "'l \<Rightarrow> 'l chan \<Rightarrow> 'l chan \<times> offer" where
  "SendLog log ch = try_send log ch"

definition close_chan :: "'a chan \<Rightarrow> 'a chan option" where
  "close_chan ch = (if ch_closed ch then None else Some (ch\<lparr>ch_closed := True\<rparr>))"

section \<open>A stream loop\<close>

datatype send_end = SendOk | SendFailed | SendPanicked

definition sendWithRecover :: "send_end \<Rightarrow> bool \<times> bool" where
  "sendWithRecover e = (case e of SendPanicked \<Rightarrow> (True, False) | SendOk \<Rightarrow> (False, False) | SendFailed \<Rightarrow> (False, True))"

text \<open>openBackendStream: the error of opening and the timeout of the open timer; true is a stream.\<close>

definition openBackendStream :: "bool \<Rightarrow> bool \<Rightarrow> bool" where
  "openBackendStream open_err timedOut = (\<not> (open_err \<or> timedOut))"

text \<open>
  LTop is the head of the loop, LStream the range over the channel on an open stream, LDone the
  goroutine's end.  ls_tried is history: every message taken from the channel with how its send
  ended.
\<close>

datatype loop_state = LTop | LStream | LDone

record 'a stream_loop =
  ls_chan :: "'a chan"
  ls_state :: loop_state
  ls_tried :: "('a \<times> send_end) list"
  ls_drained :: bool

record loop_env =
  le_status :: connection_status
  le_open_err :: bool
  le_timedOut :: bool
  le_send :: send_end

text \<open>
  One transition of the goroutine: a test of the status with the attempt to open the stream, or
  one message.  When the channel is closed and empty the range ends, the stream is closed and the
  loop left; blocked on an open empty channel nothing changes.
\<close>

definition loop_next :: "loop_env \<Rightarrow> 'a stream_loop \<Rightarrow> 'a stream_loop" where
  "loop_next env l =
     (case ls_state l of
        LTop \<Rightarrow>
          (case le_status env of
             Shutdown \<Rightarrow> l\<lparr>ls_state := LDone\<rparr>
           | Disconnect \<Rightarrow> l
           | Connected \<Rightarrow> if openBackendStream (le_open_err env) (le_timedOut env) then l\<lparr>ls_state := LStream\<rparr> else l)
      | LStream \<Rightarrow>
          (case ch_buf (ls_chan l) of
             [] \<Rightarrow> if ch_closed (ls_chan l) then l\<lparr>ls_state := LDone, ls_drained := True\<rparr> else l
           | s # rest \<Rightarrow>
               (let l = l\<lparr>ls_chan := (ls_chan l)\<lparr>ch_buf := rest\<rparr>, ls_tried := ls_tried l @ [(s, le_send env)]\<rparr>;
                    (recovered, sendErr) = sendWithRecover (le_send env)
                in if recovered then l else if sendErr then l\<lparr>ls_state := LTop\<rparr> else l))
      | LDone \<Rightarrow> l)"

definition loop_init :: "nat \<Rightarrow> 'a stream_loop" where
  "loop_init n = \<lparr>ls_chan = make_chan n, ls_state = LTop, ls_tried = [], ls_drained = False\<rparr>"

text \<open>The loop among its producers; the second component lists what the channel accepted.\<close>

datatype ('a) pipe_event = PSend 'a | PClose | PLoop loop_env

definition pipe_next :: "'a pipe_event \<Rightarrow> 'a stream_loop \<times> 'a list \<Rightarrow> 'a stream_loop \<times> 'a list" where
  "pipe_next e = (\<lambda>(l, acc).
     case e of
       PSend x \<Rightarrow>
         (case try_send x (ls_chan l) of
            (ch, Accepted) \<Rightarrow> (l\<lparr>ls_chan := ch\<rparr>, acc @ [x])
          | (ch, _) \<Rightarrow> (l\<lparr>ls_chan := ch\<rparr>, acc))
     | PClose \<Rightarrow> (case close_chan (ls_chan l) of None \<Rightarrow> (l, acc) | Some ch \<Rightarrow> (l\<lparr>ls_chan := ch\<rparr>, acc))
     | PLoop env \<Rightarrow> (loop_next env l, acc))"

definition pipe_run :: "'a pipe_event list \<Rightarrow> nat \<Rightarrow> 'a stream_loop \<times> 'a list" where
  "pipe_run es n = fold pipe_next es (loop_init n, [])"

definition delivered :: "'a stream_loop \<Rightarrow> 'a list" where
  "delivered l = map fst (filter (\<lambda>(x, e). e = SendOk) (ls_tried l))"

definition pipe_inv :: "'a stream_loop \<times> 'a list \<Rightarrow> bool" where
  "pipe_inv = (\<lambda>(l, acc).
     map fst (ls_tried l) @ ch_buf (ls_chan l) = acc \<and> length (ch_buf (ls_chan l)) \<le> ch_cap (ls_chan l) \<and>
     (ls_drained l \<longrightarrow> ch_buf (ls_chan l) = [] \<and> ch_closed (ls_chan l) \<and> ls_state l = LDone))"

lemma pipe_next_inv:
  assumes "pipe_inv w"
  shows "pipe_inv (pipe_next e w)"
proof -
  obtain l acc where w: "w = (l, acc)"
    by fastforce
  show ?thesis
  proof (cases e)
    case (PSend x)
    then show ?thesis
      using assms by (auto simp: w pipe_inv_def pipe_next_def try_send_def)
  next
    case PClose
    then show ?thesis
      using assms by (auto simp: w pipe_inv_def pipe_next_def close_chan_def)
  next
    case (PLoop env)
    then show ?thesis
      using assms
      by (cases "ls_state l"; cases "le_status env"; cases "ch_buf (ls_chan l)"; cases "le_send env")
        (auto simp: w pipe_inv_def pipe_next_def loop_next_def sendWithRecover_def Let_def)
  qed
qed

lemma pipe_run_inv: "pipe_inv (pipe_run es n)"
proof -
  have "pipe_inv (fold pipe_next es w)" if "pipe_inv w" for w :: "'a stream_loop \<times> 'a list"
    using that by (induction es arbitrary: w) (simp_all add: pipe_next_inv)
  then show ?thesis
    by (simp add: pipe_run_def pipe_inv_def loop_init_def make_chan_def)
qed

lemma filter_subseq: "subseq (map fst (filter P xs)) (map fst xs)"
  by (simp add: subseq_map)

text \<open>
  C13. A stream loop hands its messages to gRPC in the order the channel accepted them, each at
  most once, whatever the connection does: what was tried so far, followed by what is still in
  the channel, is exactly what was accepted; what was sent successfully is a subsequence of it;
  the channel never holds more than its capacity; and a loop that ended by draining its closed
  channel has tried everything.
\<close>
theorem pipeline_in_order:
  assumes "pipe_run es n = (l, accepted)"
  shows "map fst (ls_tried l) @ ch_buf (ls_chan l) = accepted \<and> subseq (delivered l) accepted \<and>
         length (ch_buf (ls_chan l)) \<le> ch_cap (ls_chan l) \<and>
         (ls_drained l \<longrightarrow> map fst (ls_tried l) = accepted)"
proof -
  have i: "pipe_inv (l, accepted)"
    using pipe_run_inv [of es n] assms by simp
  have "subseq (delivered l) (map fst (ls_tried l))"
    unfolding delivered_def by (rule filter_subseq)
  then have "subseq (delivered l) (map fst (ls_tried l) @ ch_buf (ls_chan l))"
    by (rule subseq_order.order_trans) (simp add: prefix_imp_subseq)
  then show ?thesis
    using i by (auto simp: pipe_inv_def)
qed

theorem pipeline_in_order_witness:
  "\<exists>l. pipe_run [PSend ''a'', PSend ''b'', PLoop \<lparr>le_status = Connected, le_open_err = False, le_timedOut = False, le_send = SendOk\<rparr>,
       PLoop \<lparr>le_status = Connected, le_open_err = False, le_timedOut = False, le_send = SendFailed\<rparr>, PSend ''c''] 2 = (l, [''a'', ''b'', ''c'']) \<and>
     map fst (ls_tried l) @ ch_buf (ls_chan l) = [''a'', ''b'', ''c''] \<and> delivered l = []"
proof -
  let ?es = "[PSend ''a'', PSend ''b'', PLoop \<lparr>le_status = Connected, le_open_err = False, le_timedOut = False, le_send = SendOk\<rparr>,
       PLoop \<lparr>le_status = Connected, le_open_err = False, le_timedOut = False, le_send = SendFailed\<rparr>, PSend ''c'']"
  obtain l where l: "pipe_run ?es 2 = (l, [''a'', ''b'', ''c''])" "delivered l = []"
    by (simp add: pipe_run_def pipe_next_def loop_next_def loop_init_def make_chan_def try_send_def openBackendStream_def
        sendWithRecover_def delivered_def)
  show ?thesis
    using pipeline_in_order [OF l(1)] l by blast
qed

section \<open>Draining after Close\<close>

definition good_env :: "loop_env \<Rightarrow> bool" where
  "good_env env \<longleftrightarrow> le_status env = Connected \<and> \<not> le_open_err env \<and> \<not> le_timedOut env"

definition loop_work :: "'a stream_loop \<Rightarrow> nat" where
  "loop_work l =
     (case ls_state l of LDone \<Rightarrow> 0 | LTop \<Rightarrow> 2 * length (ch_buf (ls_chan l)) + 2 | LStream \<Rightarrow> 2 * length (ch_buf (ls_chan l)) + 1)"

lemma loop_next_work:
  assumes "good_env env" "ch_closed (ls_chan l)" "ls_state l \<noteq> LDone"
  shows "loop_work (loop_next env l) < loop_work l \<and> ch_closed (ls_chan (loop_next env l)) \<and>
         map fst (ls_tried (loop_next env l)) @ ch_buf (ls_chan (loop_next env l)) = map fst (ls_tried l) @ ch_buf (ls_chan l) \<and>
         (ls_state (loop_next env l) = LDone \<longrightarrow> ls_drained (loop_next env l) \<and> ch_buf (ls_chan (loop_next env l)) = [])"
  using assms
  by (cases "ls_state l"; cases "ch_buf (ls_chan l)"; cases "le_send env")
    (auto simp: loop_work_def loop_next_def good_env_def openBackendStream_def sendWithRecover_def)

lemma loop_next_done: "ls_state l = LDone \<Longrightarrow> loop_next env l = l"
  by (simp add: loop_next_def)

lemma loop_fold_done: "ls_state l = LDone \<Longrightarrow> fold loop_next envs l = l"
  by (induction envs) (simp_all add: loop_next_done)



section \<open>The management loop\<close>

text \<open>
  check of the gRPC reporter: a round with the status, and whether the report of the properties
  and the keep-alive succeed.  The result lists whether properties and ping were sent.
\<close>

record check_state =
  instancePropertiesSubmitted :: bool
  propertyRefreshHeartbeats :: nat

definition check_init :: check_state where
  "check_init = \<lparr>instancePropertiesSubmitted = False, propertyRefreshHeartbeats = 0\<rparr>"

datatype check_action = Returned_shutdown | Slept | Beat bool

definition check_round :: "connection_status \<Rightarrow> bool \<Rightarrow> check_state \<Rightarrow> check_state \<times> check_action" where
  "check_round status props_ok s =
     (case status of
        Shutdown \<Rightarrow> (s, Returned_shutdown)
      | Disconnect \<Rightarrow> (s\<lparr>instancePropertiesSubmitted := False\<rparr>, Slept)
      | Connected \<Rightarrow>
          (let due = (\<not> instancePropertiesSubmitted s \<or> propertyRefreshHeartbeats s \<ge> 10);
               s = (if due \<and> props_ok then s\<lparr>instancePropertiesSubmitted := True, propertyRefreshHeartbeats := 0\<rparr> else s)
           in (s\<lparr>propertyRefreshHeartbeats := propertyRefreshHeartbeats s + 1\<rparr>, Beat due)))"

fun check_run :: "(connection_status \<times> bool) list \<Rightarrow> check_state \<Rightarrow> check_action list" where
  "check_run [] s = []"
| "check_run ((status, props_ok) # rs) s =
     (let (s, a) = check_round status props_ok s
      in a # (if a = Returned_shutdown then [] else check_run rs s))"

lemma check_run_connected:
  assumes "s = \<lparr>instancePropertiesSubmitted = True, propertyRefreshHeartbeats = h\<rparr>" "1 \<le> h" "h \<le> 10"
  shows "check_run (replicate n (Connected, True)) s = map (\<lambda>i. Beat ((i + h) mod 10 = 0)) [0..<n]"
  using assms
proof (induction n arbitrary: s h)
  case (Suc n)
  have up: "[0..<Suc n] = 0 # map Suc [0..<n]"
    by (simp add: map_Suc_upt upt_conv_Cons del: upt_Suc)
  show ?case
  proof (cases "h = 10")
    case True
    then show ?thesis
      using Suc.IH [of "\<lparr>instancePropertiesSubmitted = True, propertyRefreshHeartbeats = 1\<rparr>" 1] Suc.prems
      unfolding up by (simp add: check_round_def)
  next
    case False
    then show ?thesis
      using Suc.IH [of "\<lparr>instancePropertiesSubmitted = True, propertyRefreshHeartbeats = Suc h\<rparr>" "Suc h"] Suc.prems
      unfolding up by (simp add: check_round_def)
  qed
qed simp

text \<open>
  While the backend is reachable and reports succeed, every round sends a heartbeat and the
  instance properties go out in the first round and in every tenth round after it, so that a
  standby that took over learns the instance within ten heartbeats; a disconnection makes the
  next connected round report them again.
\<close>
theorem properties_refreshed:
  "check_run (replicate n (Connected, True)) check_init = map (\<lambda>i. Beat (i mod 10 = 0)) [0..<n] \<and>
   (\<forall>s ok ok'. snd (check_round Connected ok (fst (check_round Disconnect ok' s))) = Beat True)"
proof -
  have "check_run (replicate n (Connected, True)) check_init = map (\<lambda>i. Beat (i mod 10 = 0)) [0..<n]"
  proof (cases n)
    case (Suc m)
    have up: "[0..<Suc m] = 0 # map Suc [0..<m]"
      by (simp add: map_Suc_upt upt_conv_Cons del: upt_Suc)
    show ?thesis
      using check_run_connected [of "\<lparr>instancePropertiesSubmitted = True, propertyRefreshHeartbeats = 1\<rparr>" 1 m]
      unfolding Suc up by (simp add: check_round_def check_init_def)
  qed simp
  then show ?thesis
    by (simp add: check_round_def Let_def)
qed

section \<open>Profile commands\<close>

text \<open>
  fetchProfileTasksOnce after a successful query: the commands are handled in order, the largest
  time is kept for the next query, and finished tasks are removed.  The timers started are
  collected.
\<close>

definition handleProfileTask ::
  "int \<Rightarrow> string \<times> (string \<times> string) list \<Rightarrow> int \<Rightarrow> profile_manager \<Rightarrow> profile_manager \<times> (int \<times> nat) option \<times> int" where
  "handleProfileTask now cmd t m =
     (if fst cmd \<noteq> ''ProfileTaskQuery'' then (m, None, t) else AddProfileTask now (snd cmd) t m)"

fun handle_commands ::
  "int \<Rightarrow> (string \<times> (string \<times> string) list) list \<Rightarrow> int \<Rightarrow> profile_manager \<Rightarrow> profile_manager \<times> (int \<times> nat) list \<times> int" where
  "handle_commands now [] t m = (m, [], t)"
| "handle_commands now (cmd # cmds) t m =
     (let (m, timer, nt) = handleProfileTask now cmd t m;
          t = (if nt > t then nt else t);
          (m, timers, t) = handle_commands now cmds t m
      in (m, (case timer of None \<Rightarrow> [] | Some tm \<Rightarrow> [tm]) @ timers, t))"

definition fetchProfileTasksOnce ::
  "int \<Rightarrow> (string \<times> (string \<times> string) list) list option \<Rightarrow> int \<Rightarrow> profile_manager \<Rightarrow> profile_manager \<times> (int \<times> nat) list \<times> int" where
  "fetchProfileTasksOnce now resp lastProfileCommandTime m =
     (case resp of
        None \<Rightarrow> (m, [], lastProfileCommandTime)
      | Some cmds \<Rightarrow>
          (case handle_commands now cmds lastProfileCommandTime m of
             (m, timers, t) \<Rightarrow> (RemoveProfileTask now m, timers, t)))"

lemma task_arg_time: "task_arg a (task, t) = (task', t') \<Longrightarrow> t \<le> t'"
  by (auto simp: task_arg_def Let_def split: prod.splits if_splits)

lemma task_args_time: "foldl (\<lambda>acc a. task_arg a acc) (task, t) args = (task', t') \<Longrightarrow> t \<le> t'"
proof (induction args arbitrary: task t)
  case (Cons a args)
  obtain task1 t1 where 1: "task_arg a (task, t) = (task1, t1)"
    by (metis surj_pair)
  show ?case
    using task_arg_time [OF 1] Cons.IH [of task1 t1] Cons.prems 1 by simp
qed simp

lemma AddProfileTask_time: "AddProfileTask now args t m = (m', timer, t') \<Longrightarrow> t \<le> t'"
proof -
  assume a: "AddProfileTask now args t m = (m', timer, t')"
  obtain task u where f: "foldl (\<lambda>acc a. task_arg a acc) (empty_task, t) args = (task, u)"
    by (metis surj_pair)
  have "t' = u"
    using a f
    by (cases "addTask now (task\<lparr>pt_EndTime := pt_StartTime task + minutes (pt_Duration task), pt_Status := Pending\<rparr>) m")
      (simp add: AddProfileTask_def Let_def)
  then show "t \<le> t'"
    using task_args_time [OF f] by simp
qed

lemma handle_commands_time: "handle_commands now cmds t m = (m', timers, t') \<Longrightarrow> t \<le> t'"
proof (induction cmds arbitrary: t m timers m' t')
  case (Cons cmd cmds)
  obtain m1 timer nt where 1: "handleProfileTask now cmd t m = (m1, timer, nt)"
    by (metis surj_pair)
  obtain m2 ts t2 where 2: "handle_commands now cmds (if nt > t then nt else t) m1 = (m2, ts, t2)"
    by (metis surj_pair)
  have "t2 = t'"
    using Cons.prems 1 2 by simp
  then show ?case
    using Cons.IH [OF 2] by (simp split: if_splits)
qed simp

lemma fetch_time: "fetchProfileTasksOnce now resp t m = (m', timers, t') \<Longrightarrow> t \<le> t'"
  by (auto simp: fetchProfileTasksOnce_def handle_commands_time split: option.splits prod.splits)

section \<open>Kafka\<close>

text \<open>
  The send loops of the Kafka reporter: per message, how marshalling ends and whether the writer
  fails.  The result lists the messages written and, per message, whether an error was logged
  for a failed write.
\<close>

datatype marshal_end = MarshalOk | MarshalFailed | MarshalPanicked

definition logFrequency :: nat where "logFrequency = 30"

definition kafka_send :: "marshal_end \<Rightarrow> bool \<Rightarrow> nat \<Rightarrow> nat \<times> bool \<times> bool" where
  "kafka_send m write_err consecutiveErrors =
     (if m = MarshalPanicked then (consecutiveErrors, False, False)
      else if m = MarshalFailed then (consecutiveErrors, False, False)
      else if write_err then
        (let consecutiveErrors = consecutiveErrors + 1
         in (consecutiveErrors, False, consecutiveErrors = 1 \<or> consecutiveErrors mod logFrequency = 0))
      else (if consecutiveErrors > 0 then 0 else consecutiveErrors, True, False))"

fun kafka_loop :: "('a \<times> marshal_end \<times> bool) list \<Rightarrow> nat \<Rightarrow> 'a list \<times> bool list" where
  "kafka_loop [] errs = ([], [])"
| "kafka_loop ((s, m, write_err) # rest) errs =
     (let (errs, written, logged) = kafka_send m write_err errs; (ws, ls) = kafka_loop rest errs
      in ((if written then [s] else []) @ ws, logged # ls))"

lemma kafka_loop_written:
  "fst (kafka_loop ms errs) = map fst (filter (\<lambda>(s, m, write_err). m = MarshalOk \<and> \<not> write_err) ms)"
proof (induction ms arbitrary: errs)
  case (Cons x ms)
  obtain s m e where x: "x = (s, m, e)"
    by (cases x)
  show ?case
    using Cons by (cases m; cases e) (simp_all add: x kafka_send_def split_beta Let_def)
qed simp

lemma kafka_loop_failures:
  "snd (kafka_loop (map (\<lambda>s. (s, MarshalOk, True)) xs) errs) =
     map (\<lambda>i. errs + i = 0 \<or> (errs + i + 1) mod logFrequency = 0) [0..<length xs]"
proof (induction xs arbitrary: errs)
  case (Cons x xs)
  have up: "[0..<length (x # xs)] = 0 # map Suc [0..<length xs]"
    by (simp add: map_Suc_upt upt_conv_Cons del: upt_Suc)
  show ?case
    using Cons [of "Suc errs"] unfolding up by (simp add: kafka_send_def split_beta Let_def)
qed simp

text \<open>
  The Kafka loop writes, in order, exactly the messages that marshal and whose write
  succeeds, also after panics; and in an uninterrupted run of failed writes an error is logged
  for the first one and for every thirtieth.
\<close>
theorem kafka_loop_correct:
  "fst (kafka_loop ms errs) = map fst (filter (\<lambda>(s, m, write_err). m = MarshalOk \<and> \<not> write_err) ms) \<and>
   snd (kafka_loop (map (\<lambda>s. (s, MarshalOk, True)) xs) 0) =
     map (\<lambda>i. i = 0 \<or> (i + 1) mod 30 = 0) [0..<length xs]"
  using kafka_loop_written [of ms errs] kafka_loop_failures [of xs 0] by (simp add: logFrequency_def)

text \<open>
  checkOnce: the flag is whether the properties were submitted before; how the two messages are
  marshalled and written are arguments.  The result is the new flag and what was written
  (properties, ping).
\<close>

definition checkOnce :: "bool \<Rightarrow> bool \<Rightarrow> bool \<Rightarrow> bool \<Rightarrow> bool \<Rightarrow> bool \<times> bool \<times> bool" where
  "checkOnce submitted props_marshal_err props_write_err ping_marshal_err ping_write_err =
     (if \<not> submitted \<and> props_marshal_err then (False, False, False)
      else if \<not> submitted \<and> props_write_err then (False, False, False)
      else (let sent = \<not> submitted
            in if ping_marshal_err then (True, sent, False) else (True, sent, \<not> ping_write_err)))"

text \<open>The connection status of the Kafka reporter is computed once, when it boots.\<close>

definition updateConnectionStatus :: "bool \<Rightarrow> connection_status" where
  "updateConnectionStatus reachable = (if reachable then Connected else Disconnect)"

fun kafka_check_run :: "(bool \<times> bool \<times> bool \<times> bool) list \<Rightarrow> bool \<Rightarrow> bool \<times> (bool \<times> bool) list" where
  "kafka_check_run [] submitted = (submitted, [])"
| "kafka_check_run ((a, b, c, d) # rs) submitted =
     (let (submitted, sent) = checkOnce submitted a b c d; (submitted, ss) = kafka_check_run rs submitted
      in (submitted, sent # ss))"

text \<open>
  Over any rounds of the Kafka reporter the instance properties are written at most once,
  no ping is written before them, and the flag says whether they were.
\<close>
theorem kafka_properties_once:
  assumes "kafka_check_run rs False = (submitted, sent)"
  shows "length (filter fst sent) \<le> 1 \<and> (submitted \<longleftrightarrow> (\<exists>x\<in>set sent. fst x)) \<and>
         (\<forall>i<length sent. snd (sent ! i) \<longrightarrow> (\<exists>j\<le>i. fst (sent ! j)))"
proof -
  have after: "fst (kafka_check_run rs True) \<and> filter fst (snd (kafka_check_run rs True)) = []" for rs
    by (induction rs) (auto simp: checkOnce_def split_beta Let_def)
  show ?thesis
    using assms
  proof (induction rs arbitrary: sent)
    case (Cons r rs)
    obtain a b c d where r: "r = (a, b, c, d)"
      by (cases r)
    show ?case
    proof (cases "a \<or> b")
      case True
      obtain p ss where p: "kafka_check_run rs False = (p, ss)"
        by fastforce
      have "checkOnce False a b c d = (False, False, False)"
        using True by (auto simp: checkOnce_def)
      then have ss: "kafka_check_run rs False = (submitted, ss)" "sent = (False, False) # ss"
        using Cons.prems p by (simp_all add: r)
      have IH: "length (filter fst ss) \<le> 1" "submitted \<longleftrightarrow> (\<exists>x\<in>set ss. fst x)"
        "\<And>i. i < length ss \<Longrightarrow> snd (ss ! i) \<Longrightarrow> \<exists>j\<le>i. fst (ss ! j)"
        using Cons.IH [OF ss(1)] by blast+
      have "\<exists>j\<le>i. fst (sent ! j)" if "i < length sent" "snd (sent ! i)" for i
      proof (cases i)
        case (Suc k)
        have h: "k < length ss" "snd (ss ! k)"
          using that ss(2) Suc by simp_all
        obtain j where "j \<le> k" "fst (ss ! j)"
          using IH(3) [OF h] by blast
        then show ?thesis
          using Suc ss(2) by (intro exI [of _ "Suc j"]) simp
      qed (use that ss(2) in simp)
      then show ?thesis
        using IH ss(2) by auto
    next
      case False
      obtain p ss where p: "kafka_check_run rs True = (p, ss)"
        by fastforce
      have "checkOnce False a b c d = (True, True, \<not> c \<and> \<not> d)"
        using False by (auto simp: checkOnce_def)
      then have ss: "kafka_check_run rs True = (submitted, ss)" "fst (hd sent)" "sent = hd sent # ss"
        using Cons.prems p by (auto simp: r)
      have "filter fst ss = []" "submitted"
        using after [of rs] ss(1) by simp_all
      moreover have "fst (sent ! 0)"
        using ss(2,3) by (metis nth_Cons_0)
      ultimately show ?thesis
        using ss(2,3) by (metis One_nat_def filter.simps(2) le0 length_Cons list.set_intros(1) list.size(3) order_refl)
    qed
  qed simp
qed

theorem kafka_properties_once_witness:
  "length (filter fst (snd (kafka_check_run [(False, True, False, False), (False, False, False, True), (False, False, False, False)] False))) \<le> 1"
  using kafka_properties_once [of "[(False, True, False, False), (False, False, False, True), (False, False, False, False)]"]
  by (metis surj_pair snd_conv)

end
