(* ===== verification/Grpc_Reporter.thy ===== *)
theory Grpc_Reporter
  imports Send_Pipeline
begin

text \<open>
  The gRPC reporter as a whole (plugins/core/reporter/grpc/grpc.go): its three channels with
  their stream loops, the connection manager they ask for the status, and Close.  Each loop is
  the one of theory Send_Pipeline; here the status comes from the connection manager, which the
  trace loop also tells when it has drained.
\<close>

record ('s, 'm, 'l) grpc_reporter =
  tracing_pipe :: "'s stream_loop \<times> 's list"
  metrics_pipe :: "'m list stream_loop \<times> 'm list list"
  log_pipe :: "'l stream_loop \<times> 'l list"
  gr_serverAddr :: string
  gr_connManager :: connection_manager
  bootFlag :: bool
  gr_releases :: nat

definition maxSendQueueSize :: nat where "maxSendQueueSize = 30000"

text \<open>
  The reporter after Boot, given the size of its channels (maxSendQueueSize, or the option
  WithMaxSendQueueSize) and the manager in which it holds one reference.
\<close>

definition booted :: "nat \<Rightarrow> string \<Rightarrow> connection_manager \<Rightarrow> ('s, 'm, 'l) grpc_reporter" where
  "booted n addr cm =
     \<lparr>tracing_pipe = (loop_init n, []), metrics_pipe = (loop_init n, []),
      log_pipe = (loop_init n, []), gr_serverAddr = addr, gr_connManager = cm,
      bootFlag = True, gr_releases = 0\<rparr>"

definition ConnectionStatus ::
  "(nat \<Rightarrow> connectivity) \<Rightarrow> ('s, 'm, 'l) grpc_reporter \<Rightarrow> ('s, 'm, 'l) grpc_reporter \<times> connection_status" where
  "ConnectionStatus state r =
     (case GetConnectionStatus state (gr_serverAddr r) (gr_connManager r) of
        (cm, status) \<Rightarrow> (r\<lparr>gr_connManager := cm\<rparr>, status))"

definition closeGRPCConn :: "('s, 'm, 'l) grpc_reporter \<Rightarrow> ('s, 'm, 'l) grpc_reporter" where
  "closeGRPCConn r =
     r\<lparr>gr_connManager := fst (ReleaseConnection (gr_serverAddr r) (gr_connManager r)),
       gr_releases := gr_releases r + 1\<rparr>"

text \<open>NewGRPCReporter without options makes channels of maxSendQueueSize.\<close>

definition booted_default :: "string \<Rightarrow> connection_manager \<Rightarrow> ('s, 'm, 'l) grpc_reporter" where
  "booted_default = booted maxSendQueueSize"

text \<open>Closing a closed channel panics: the call ends there with the channels closed so far.\<close>

definition close_pipe :: "'a stream_loop \<times> 'a list \<Rightarrow> ('a stream_loop \<times> 'a list) option" where
  "close_pipe p =
     (case close_chan (ls_chan (fst p)) of
        None \<Rightarrow> None
      | Some ch \<Rightarrow> Some ((fst p)\<lparr>ls_chan := ch\<rparr>, snd p))"

definition Close :: "('s, 'm, 'l) grpc_reporter \<Rightarrow> ('s, 'm, 'l) grpc_reporter \<times> bool" where
  "Close r =
     (if bootFlag r then
        (case close_pipe (tracing_pipe r) of
           None \<Rightarrow> (r, False)
         | Some t \<Rightarrow>
             (let r = r\<lparr>tracing_pipe := t\<rparr>
              in case close_pipe (metrics_pipe r) of
                   None \<Rightarrow> (r, False)
                 | Some m \<Rightarrow>
                     (let r = r\<lparr>metrics_pipe := m\<rparr>
                      in case close_pipe (log_pipe r) of
                           None \<Rightarrow> (r, False)
                         | Some l \<Rightarrow> (r\<lparr>log_pipe := l\<rparr>, True))))
      else (closeGRPCConn r, True))"

text \<open>
  A transition of a loop of the reporter: at its head the loop asks for the status.  The answers
  of gRPC are the state of the connections, whether the stream opens, and how a send ends.
\<close>

record grpc_env =
  ge_state :: "nat \<Rightarrow> connectivity"
  ge_open_err :: bool
  ge_timedOut :: bool
  ge_send :: send_end

definition loop_env_of :: "grpc_env \<Rightarrow> connection_status \<Rightarrow> loop_env" where
  "loop_env_of e status =
     \<lparr>le_status = status, le_open_err = ge_open_err e, le_timedOut = ge_timedOut e, le_send = ge_send e\<rparr>"

definition ask :: "grpc_env \<Rightarrow> loop_state \<Rightarrow> ('s, 'm, 'l) grpc_reporter \<Rightarrow> ('s, 'm, 'l) grpc_reporter \<times> loop_env" where
  "ask e st r =
     (if st = LTop
      then (case ConnectionStatus (ge_state e) r of (r, status) \<Rightarrow> (r, loop_env_of e status))
      else (r, loop_env_of e Connected))"

definition loop_pipe :: "loop_env \<Rightarrow> 'a stream_loop \<times> 'a list \<Rightarrow> 'a stream_loop \<times> 'a list" where
  "loop_pipe env p = (loop_next env (fst p), snd p)"

definition trace_loop_next :: "grpc_env \<Rightarrow> ('s, 'm, 'l) grpc_reporter \<Rightarrow> ('s, 'm, 'l) grpc_reporter" where
  "trace_loop_next e r =
     (case ask e (ls_state (fst (tracing_pipe r))) r of
        (r, env) \<Rightarrow>
          (let p = loop_pipe env (tracing_pipe r);
               drained = (ls_drained (fst p) \<and> \<not> ls_drained (fst (tracing_pipe r)));
               r = r\<lparr>tracing_pipe := p\<rparr>
           in if drained then closeGRPCConn r else r))"

definition metrics_loop_next :: "grpc_env \<Rightarrow> ('s, 'm, 'l) grpc_reporter \<Rightarrow> ('s, 'm, 'l) grpc_reporter" where
  "metrics_loop_next e r =
     (case ask e (ls_state (fst (metrics_pipe r))) r of
        (r, env) \<Rightarrow> r\<lparr>metrics_pipe := loop_pipe env (metrics_pipe r)\<rparr>)"

definition log_loop_next :: "grpc_env \<Rightarrow> ('s, 'm, 'l) grpc_reporter \<Rightarrow> ('s, 'm, 'l) grpc_reporter" where
  "log_loop_next e r =
     (case ask e (ls_state (fst (log_pipe r))) r of
        (r, env) \<Rightarrow> r\<lparr>log_pipe := loop_pipe env (log_pipe r)\<rparr>)"

text \<open>The history of a pipe grows by what its channel accepted.\<close>

definition offered :: "'a chan \<times> offer \<Rightarrow> 'a list \<Rightarrow> 'a stream_loop \<times> 'a list \<Rightarrow> 'a stream_loop \<times> 'a list" where
  "offered co xs p =
     ((fst p)\<lparr>ls_chan := fst co\<rparr>, snd p @ (if snd co = Accepted then xs else []))"

definition segment_of :: "'s option ran \<Rightarrow> 's list" where
  "segment_of t = (case t of Returned (Some s) \<Rightarrow> [s] | _ \<Rightarrow> [])"

datatype ('s, 'm, 'l) grpc_event =
  GTracing "'s option ran" | GMetrics "'m list ran" | GLog 'l | GClose
| GTraceLoop grpc_env | GMetricsLoop grpc_env | GLogLoop grpc_env

definition grpc_next :: "('s, 'm, 'l) grpc_event \<Rightarrow> ('s, 'm, 'l) grpc_reporter \<Rightarrow> ('s, 'm, 'l) grpc_reporter" where
  "grpc_next ev r =
     (case ev of
        GTracing t \<Rightarrow>
          r\<lparr>tracing_pipe := offered (SendTracing t (ls_chan (fst (tracing_pipe r)))) (segment_of t) (tracing_pipe r)\<rparr>
      | GMetrics t \<Rightarrow>
          (case SendMetrics t (ls_chan (fst (metrics_pipe r))) of
             None \<Rightarrow> r
           | Some co \<Rightarrow> r\<lparr>metrics_pipe := offered co (case t of Returned ms \<Rightarrow> [ms] | Panicked \<Rightarrow> []) (metrics_pipe r)\<rparr>)
      | GLog x \<Rightarrow> r\<lparr>log_pipe := offered (SendLog x (ls_chan (fst (log_pipe r)))) [x] (log_pipe r)\<rparr>
      | GClose \<Rightarrow> fst (Close r)
      | GTraceLoop e \<Rightarrow> trace_loop_next e r
      | GMetricsLoop e \<Rightarrow> metrics_loop_next e r
      | GLogLoop e \<Rightarrow> log_loop_next e r)"

section \<open>Each channel is a pipe\<close>

lemma offered_try_send: "offered (try_send x (ls_chan (fst p))) [x] p = pipe_next (PSend x) p"
  by (cases p; cases "try_send x (ls_chan (fst p))"; cases "snd (try_send x (ls_chan (fst p)))")
    (auto simp: offered_def pipe_next_def)

lemma offered_nothing: "o' \<noteq> Accepted \<Longrightarrow> offered (ls_chan (fst p), o') xs p = p"
  by (cases p) (simp add: offered_def)

lemma loop_pipe_next: "loop_pipe env p = pipe_next (PLoop env) p"
  by (cases p) (simp add: loop_pipe_def pipe_next_def)

lemma close_pipe_next: "close_pipe p = Some q \<Longrightarrow> q = pipe_next PClose p"
  by (cases p) (auto simp: close_pipe_def pipe_next_def split: option.splits)

lemma pipe_inv_tried:
  "pipe_inv p \<Longrightarrow> map fst (ls_tried (fst p)) @ ch_buf (ls_chan (fst p)) = snd p"
  "pipe_inv p \<Longrightarrow> ls_drained (fst p) \<Longrightarrow> map fst (ls_tried (fst p)) = snd p"
  by (cases p; auto simp: pipe_inv_def)+

definition evolves :: "'a stream_loop \<times> 'a list \<Rightarrow> 'a stream_loop \<times> 'a list \<Rightarrow> bool" where
  "evolves p q \<longleftrightarrow> (\<exists>es. q = fold pipe_next es p)"

lemma evolves_refl [simp, intro]: "evolves p p"
  by (auto simp: evolves_def intro: exI [of _ "[]"])

lemma evolves_step [intro]: "evolves p (pipe_next e p)"
  by (auto simp: evolves_def intro: exI [of _ "[e]"])

lemma evolves_trans: "evolves p q \<Longrightarrow> evolves q s \<Longrightarrow> evolves p s"
  unfolding evolves_def by (metis fold_append comp_apply)

lemma ask_pipes:
  assumes "ask e st r = (r', env)"
  shows "tracing_pipe r' = tracing_pipe r \<and> metrics_pipe r' = metrics_pipe r \<and> log_pipe r' = log_pipe r \<and>
         gr_releases r' = gr_releases r \<and> bootFlag r' = bootFlag r"
  using assms by (auto simp: ask_def ConnectionStatus_def split: if_splits prod.splits)

lemma closeGRPCConn_pipes [simp]:
  "tracing_pipe (closeGRPCConn r) = tracing_pipe r" "metrics_pipe (closeGRPCConn r) = metrics_pipe r"
  "log_pipe (closeGRPCConn r) = log_pipe r" "gr_releases (closeGRPCConn r) = gr_releases r + 1"
  "bootFlag (closeGRPCConn r) = bootFlag r"
  by (simp_all add: closeGRPCConn_def)

lemma Close_evolves:
  "evolves (tracing_pipe r) (tracing_pipe (fst (Close r)))"
  "evolves (metrics_pipe r) (metrics_pipe (fst (Close r)))"
  "evolves (log_pipe r) (log_pipe (fst (Close r)))"
  "bootFlag r \<Longrightarrow> gr_releases (fst (Close r)) = gr_releases r"
  "bootFlag (fst (Close r)) = bootFlag r"
  by (auto simp: Close_def Let_def split: option.splits dest!: close_pipe_next)

lemma Close_drained:
  "bootFlag r \<Longrightarrow> ls_drained (fst (tracing_pipe (fst (Close r)))) = ls_drained (fst (tracing_pipe r))"
  by (auto simp: Close_def close_pipe_def Let_def split: option.splits)

lemma SendTracing_offered:
  "evolves p (offered (SendTracing t (ls_chan (fst p))) (segment_of t) p)"
proof (cases t)
  case (Returned x)
  then show ?thesis
    by (cases x) (auto simp: SendTracing_def segment_of_def offered_try_send offered_nothing)
qed (simp add: SendTracing_def offered_nothing)

lemma SendMetrics_offered:
  "SendMetrics t (ls_chan (fst p)) = Some co \<Longrightarrow>
   evolves p (offered co (case t of Returned ms \<Rightarrow> [ms] | Panicked \<Rightarrow> []) p)"
  by (cases t) (auto simp: SendMetrics_def offered_try_send offered_nothing split: if_splits)

lemma grpc_next_evolves:
  "evolves (tracing_pipe r) (tracing_pipe (grpc_next ev r)) \<and>
   evolves (metrics_pipe r) (metrics_pipe (grpc_next ev r)) \<and>
   evolves (log_pipe r) (log_pipe (grpc_next ev r))"
proof (cases ev)
  case (GTracing t)
  then show ?thesis
    by (simp add: grpc_next_def SendTracing_offered)
next
  case (GMetrics t)
  then show ?thesis
    by (auto simp: grpc_next_def SendMetrics_offered split: option.splits)
next
  case (GLog x)
  then show ?thesis
    by (auto simp: grpc_next_def SendLog_def offered_try_send)
next
  case GClose
  then show ?thesis
    by (simp add: grpc_next_def Close_evolves)
next
  case (GTraceLoop e)
  obtain r' env where a: "ask e (ls_state (fst (tracing_pipe r))) r = (r', env)"
    by (metis surj_pair)
  show ?thesis
    using ask_pipes [OF a] by (auto simp: GTraceLoop grpc_next_def trace_loop_next_def a Let_def loop_pipe_next)
next
  case (GMetricsLoop e)
  obtain r' env where a: "ask e (ls_state (fst (metrics_pipe r))) r = (r', env)"
    by (metis surj_pair)
  show ?thesis
    using ask_pipes [OF a] by (auto simp: GMetricsLoop grpc_next_def metrics_loop_next_def a loop_pipe_next)
next
  case (GLogLoop e)
  obtain r' env where a: "ask e (ls_state (fst (log_pipe r))) r = (r', env)"
    by (metis surj_pair)
  show ?thesis
    using ask_pipes [OF a] by (auto simp: GLogLoop grpc_next_def log_loop_next_def a loop_pipe_next)
qed

definition reporter_run ::
  "nat \<Rightarrow> string \<Rightarrow> connection_manager \<Rightarrow> ('s, 'm, 'l) grpc_event list \<Rightarrow> ('s, 'm, 'l) grpc_reporter" where
  "reporter_run n addr cm es = fold grpc_next es (booted n addr cm)"

lemma grpc_run_evolves:
  "evolves (tracing_pipe r) (tracing_pipe (fold grpc_next es r)) \<and>
   evolves (metrics_pipe r) (metrics_pipe (fold grpc_next es r)) \<and>
   evolves (log_pipe r) (log_pipe (fold grpc_next es r))"
proof (induction es arbitrary: r)
  case (Cons e es)
  show ?case
    using grpc_next_evolves [of r e] Cons [of "grpc_next e r"] by (auto intro: evolves_trans)
qed simp


section \<open>The connection\<close>

text \<open>The trace loop releases the connection exactly when it drains.\<close>

definition release_inv :: "('s, 'm, 'l) grpc_reporter \<Rightarrow> bool" where
  "release_inv r \<longleftrightarrow> bootFlag r \<and> gr_releases r = (if ls_drained (fst (tracing_pipe r)) then 1 else 0) \<and>
     (ls_drained (fst (tracing_pipe r)) \<longrightarrow> ls_state (fst (tracing_pipe r)) = LDone)"

lemma loop_next_drained:
  "ls_drained (loop_next env l) \<Longrightarrow> ls_drained l \<or> ls_state (loop_next env l) = LDone"
  by (auto simp: loop_next_def sendWithRecover_def Let_def split: loop_state.splits connection_status.splits list.splits send_end.splits if_splits)

lemma trace_loop_next_ask:
  assumes "ask e (ls_state (fst (tracing_pipe r))) r = (r', env)"
  shows "trace_loop_next e r =
    (if ls_drained (fst (loop_pipe env (tracing_pipe r))) \<and> \<not> ls_drained (fst (tracing_pipe r))
     then closeGRPCConn (r'\<lparr>tracing_pipe := loop_pipe env (tracing_pipe r)\<rparr>)
     else r'\<lparr>tracing_pipe := loop_pipe env (tracing_pipe r)\<rparr>)"
  using ask_pipes [OF assms] by (simp add: trace_loop_next_def assms Let_def)

lemma trace_loop_release:
  assumes "release_inv r"
  shows "release_inv (trace_loop_next e r)"
proof -
  obtain r' env where a: "ask e (ls_state (fst (tracing_pipe r))) r = (r', env)"
    by (metis surj_pair)
  note s = ask_pipes [OF a]
  show ?thesis
  proof (cases "ls_drained (fst (tracing_pipe r))")
    case True
    then have "loop_pipe env (tracing_pipe r) = tracing_pipe r"
      using assms loop_next_done by (cases "tracing_pipe r") (auto simp: loop_pipe_def release_inv_def)
    then show ?thesis
      using assms s True unfolding trace_loop_next_ask [OF a] by (simp add: release_inv_def)
  next
    case False
    then show ?thesis
      using assms s loop_next_drained [of env "fst (tracing_pipe r)"]
      unfolding trace_loop_next_ask [OF a] by (auto simp: release_inv_def loop_pipe_def)
  qed
qed

lemma grpc_next_release:
  assumes "release_inv r"
  shows "release_inv (grpc_next ev r)"
proof (cases ev)
  case GClose
  have b: "bootFlag r"
    using assms by (simp add: release_inv_def)
  have "ls_state (fst (tracing_pipe (fst (Close r)))) = ls_state (fst (tracing_pipe r))"
    using b by (auto simp: Close_def close_pipe_def Let_def split: option.splits)
  then show ?thesis
    using assms b Close_evolves(4,5) [of r] Close_drained [of r] by (simp add: GClose grpc_next_def release_inv_def)
next
  case (GTraceLoop e)
  then show ?thesis
    using trace_loop_release [OF assms] by (simp add: grpc_next_def)
next
  case (GMetricsLoop e)
  obtain r' env where a: "ask e (ls_state (fst (metrics_pipe r))) r = (r', env)"
    by (metis surj_pair)
  show ?thesis
    using assms ask_pipes [OF a] by (simp add: GMetricsLoop grpc_next_def metrics_loop_next_def a release_inv_def)
next
  case (GLogLoop e)
  obtain r' env where a: "ask e (ls_state (fst (log_pipe r))) r = (r', env)"
    by (metis surj_pair)
  show ?thesis
    using assms ask_pipes [OF a] by (simp add: GLogLoop grpc_next_def log_loop_next_def a release_inv_def)
qed (use assms in \<open>auto simp: grpc_next_def release_inv_def offered_def split: option.splits\<close>)

text \<open>
  A booted reporter gives its reference to the connection back at most once, however often
  Close is called, and only after its trace loop has found the closed channel empty, with every
  accepted segment tried.
\<close>
theorem connection_released_once:
  fixes es :: "('s, 'm, 'l) grpc_event list"
  shows "let r = reporter_run n addr cm es in gr_releases r \<le> 1 \<and>
         (gr_releases r = 1 \<longleftrightarrow> ls_drained (fst (tracing_pipe r))) \<and>
         (gr_releases r = 1 \<longrightarrow> map fst (ls_tried (fst (tracing_pipe r))) = snd (tracing_pipe r))"
proof -
  let ?r = "reporter_run n addr cm es"
  have "release_inv (fold grpc_next es w)" if "release_inv w" for w :: "('s, 'm, 'l) grpc_reporter"
    using that by (induction es arbitrary: w) (simp_all add: grpc_next_release)
  moreover have "release_inv (booted n addr cm)"
    by (simp add: release_inv_def booted_def loop_init_def)
  ultimately have i: "release_inv ?r"
    by (simp add: reporter_run_def)
  have "evolves (loop_init n, []) (tracing_pipe ?r)"
    using grpc_run_evolves [of "booted n addr cm" es] by (simp add: reporter_run_def booted_def)
  then obtain ts where "tracing_pipe ?r = pipe_run ts n"
    by (auto simp: evolves_def pipe_run_def)
  then have "pipe_inv (tracing_pipe ?r)"
    using pipe_run_inv by metis
  then show ?thesis
    using i pipe_inv_tried(2) [of "tracing_pipe ?r"] by (auto simp: release_inv_def Let_def)
qed

end
