(* ===== verification/Kafka_Reporter.thy ===== *)
theory Kafka_Reporter
  imports Send_Pipeline
begin

text \<open>
  The Kafka reporter (plugins/core/reporter/kafka/kafka.go): three channels, the goroutine of each
  that marshals and writes its messages, the management loop, and Close.  Marshalling and what the
  messages know of themselves (the segment id, the service of a log) are functions of protobuf,
  arguments here; a write fails when the Kafka client says so, and always on a closed writer, as
  the client documents.
\<close>

record kafka_message =
  km_Topic :: string
  km_Key :: string
  km_Value :: "nat list"

datatype marshalled = Payload "nat list" | MarshalError | MarshalPanic

record ('s, 'm, 'l) kafka_proto =
  marshal_segment :: "'s \<Rightarrow> marshalled"
  marshal_meters :: "'m list \<Rightarrow> marshalled"
  marshal_log :: "'l \<Rightarrow> marshalled"
  GetTraceSegmentId :: "'s \<Rightarrow> string"
  log_Service :: "'l \<Rightarrow> string"

record kafka_config =
  topicSegment :: string
  topicMeter :: string
  topicLogging :: string
  topicManagement :: string
  kc_ServiceInstanceName :: string

definition topicKeyRegister :: string where "topicKeyRegister = ''register-''"

record ('s, 'm, 'l) kafka_reporter =
  kr_tracingSendCh :: "'s chan"
  kr_metricsSendCh :: "'m list chan"
  kr_logSendCh :: "'l chan"
  kr_tracingErrors :: nat
  kr_metricsErrors :: nat
  kr_logErrors :: nat
  kr_submitted :: bool
  kr_connectionStatus :: connection_status
  kr_bootFlag :: bool
  kr_writerClosed :: bool
  kr_written :: "kafka_message list"

definition kafkaMaxSendQueueSize :: nat where "kafkaMaxSendQueueSize = 30000"

definition NewKafkaReporter :: "nat \<Rightarrow> ('s, 'm, 'l) kafka_reporter" where
  "NewKafkaReporter n =
     \<lparr>kr_tracingSendCh = make_chan n, kr_metricsSendCh = make_chan n, kr_logSendCh = make_chan n,
      kr_tracingErrors = 0, kr_metricsErrors = 0, kr_logErrors = 0, kr_submitted = False,
      kr_connectionStatus = Disconnect, kr_bootFlag = False, kr_writerClosed = False, kr_written = []\<rparr>"

text \<open>Boot, given whether the first broker answers.\<close>

definition kafka_Boot :: "bool \<Rightarrow> ('s, 'm, 'l) kafka_reporter \<Rightarrow> ('s, 'm, 'l) kafka_reporter" where
  "kafka_Boot reachable r = r\<lparr>kr_connectionStatus := updateConnectionStatus reachable, kr_bootFlag := True\<rparr>"

definition kafka_ConnectionStatus :: "('s, 'm, 'l) kafka_reporter \<Rightarrow> connection_status" where
  "kafka_ConnectionStatus r = kr_connectionStatus r"

section \<open>The send loops\<close>

definition end_of :: "marshalled \<Rightarrow> marshal_end" where
  "end_of m = (case m of Payload _ \<Rightarrow> MarshalOk | MarshalError \<Rightarrow> MarshalFailed | MarshalPanic \<Rightarrow> MarshalPanicked)"

definition payload_of :: "marshalled \<Rightarrow> nat list" where
  "payload_of m = (case m of Payload bs \<Rightarrow> bs | _ \<Rightarrow> [])"

text \<open>One message of a loop: the error counter and what is written.\<close>

definition send_one :: "marshalled \<Rightarrow> bool \<Rightarrow> string \<Rightarrow> string \<Rightarrow> nat \<Rightarrow> nat \<times> kafka_message list" where
  "send_one m write_err topic key consecutiveErrors =
     (case kafka_send (end_of m) write_err consecutiveErrors of
        (consecutiveErrors, written, logged) \<Rightarrow>
          (consecutiveErrors, if written then [\<lparr>km_Topic = topic, km_Key = key, km_Value = payload_of m\<rparr>] else []))"

definition tracingSendLoop ::
  "('s, 'm, 'l) kafka_proto \<Rightarrow> kafka_config \<Rightarrow> bool \<Rightarrow> ('s, 'm, 'l) kafka_reporter \<Rightarrow> ('s, 'm, 'l) kafka_reporter" where
  "tracingSendLoop p cfg write_err r =
     (case ch_buf (kr_tracingSendCh r) of
        [] \<Rightarrow> r
      | s # rest \<Rightarrow>
          (case send_one (marshal_segment p s) (write_err \<or> kr_writerClosed r) (topicSegment cfg)
                  (GetTraceSegmentId p s) (kr_tracingErrors r) of
             (errs, ms) \<Rightarrow>
               r\<lparr>kr_tracingSendCh := (kr_tracingSendCh r)\<lparr>ch_buf := rest\<rparr>, kr_tracingErrors := errs,
                 kr_written := kr_written r @ ms\<rparr>))"

definition metricsSendLoop ::
  "('s, 'm, 'l) kafka_proto \<Rightarrow> kafka_config \<Rightarrow> bool \<Rightarrow> ('s, 'm, 'l) kafka_reporter \<Rightarrow> ('s, 'm, 'l) kafka_reporter" where
  "metricsSendLoop p cfg write_err r =
     (case ch_buf (kr_metricsSendCh r) of
        [] \<Rightarrow> r
      | s # rest \<Rightarrow>
          (case send_one (marshal_meters p s) (write_err \<or> kr_writerClosed r) (topicMeter cfg)
                  (kc_ServiceInstanceName cfg) (kr_metricsErrors r) of
             (errs, ms) \<Rightarrow>
               r\<lparr>kr_metricsSendCh := (kr_metricsSendCh r)\<lparr>ch_buf := rest\<rparr>, kr_metricsErrors := errs,
                 kr_written := kr_written r @ ms\<rparr>))"

definition logSendLoop ::
  "('s, 'm, 'l) kafka_proto \<Rightarrow> kafka_config \<Rightarrow> bool \<Rightarrow> ('s, 'm, 'l) kafka_reporter \<Rightarrow> ('s, 'm, 'l) kafka_reporter" where
  "logSendLoop p cfg write_err r =
     (case ch_buf (kr_logSendCh r) of
        [] \<Rightarrow> r
      | s # rest \<Rightarrow>
          (case send_one (marshal_log p s) (write_err \<or> kr_writerClosed r) (topicLogging cfg)
                  (log_Service p s) (kr_logErrors r) of
             (errs, ms) \<Rightarrow>
               r\<lparr>kr_logSendCh := (kr_logSendCh r)\<lparr>ch_buf := rest\<rparr>, kr_logErrors := errs,
                 kr_written := kr_written r @ ms\<rparr>))"

section \<open>Producers, management and Close\<close>

definition kafka_SendTracing :: "'s option ran \<Rightarrow> ('s, 'm, 'l) kafka_reporter \<Rightarrow> ('s, 'm, 'l) kafka_reporter" where
  "kafka_SendTracing t r = r\<lparr>kr_tracingSendCh := fst (SendTracing t (kr_tracingSendCh r))\<rparr>"

text \<open>A panic of the transform of the meters is not recovered: None.\<close>

definition kafka_SendMetrics :: "'m list ran \<Rightarrow> ('s, 'm, 'l) kafka_reporter \<Rightarrow> ('s, 'm, 'l) kafka_reporter option" where
  "kafka_SendMetrics t r =
     map_option (\<lambda>co. r\<lparr>kr_metricsSendCh := fst co\<rparr>) (SendMetrics t (kr_metricsSendCh r))"

definition kafka_SendLog :: "'l \<Rightarrow> ('s, 'm, 'l) kafka_reporter \<Rightarrow> ('s, 'm, 'l) kafka_reporter" where
  "kafka_SendLog log r = r\<lparr>kr_logSendCh := fst (SendLog log (kr_logSendCh r))\<rparr>"

text \<open>A round of check: the answers are the ends of the two marshals and the two writes.\<close>

definition kafka_check ::
  "kafka_config \<Rightarrow> marshalled \<Rightarrow> bool \<Rightarrow> marshalled \<Rightarrow> bool \<Rightarrow> ('s, 'm, 'l) kafka_reporter \<Rightarrow> ('s, 'm, 'l) kafka_reporter" where
  "kafka_check cfg props props_err ping ping_err r =
     (case checkOnce (kr_submitted r) (end_of props \<noteq> MarshalOk) (props_err \<or> kr_writerClosed r)
             (end_of ping \<noteq> MarshalOk) (ping_err \<or> kr_writerClosed r) of
        (submitted, sent_props, sent_ping) \<Rightarrow>
          r\<lparr>kr_submitted := submitted,
            kr_written := kr_written r @
              (if sent_props then [\<lparr>km_Topic = topicManagement cfg, km_Key = topicKeyRegister @ kc_ServiceInstanceName cfg,
                                    km_Value = payload_of props\<rparr>] else []) @
              (if sent_ping then [\<lparr>km_Topic = topicManagement cfg, km_Key = kc_ServiceInstanceName cfg,
                                   km_Value = payload_of ping\<rparr>] else [])\<rparr>)"

text \<open>
  Close: the channels, then the writer; a channel closed twice panics, the call ending there.
\<close>

definition kafka_Close :: "('s, 'm, 'l) kafka_reporter \<Rightarrow> ('s, 'm, 'l) kafka_reporter" where
  "kafka_Close r =
     (if \<not> kr_bootFlag r then r
      else case close_chan (kr_tracingSendCh r) of
        None \<Rightarrow> r
      | Some t \<Rightarrow>
          (let r = r\<lparr>kr_tracingSendCh := t\<rparr>
           in case close_chan (kr_metricsSendCh r) of
                None \<Rightarrow> r
              | Some m \<Rightarrow>
                  (let r = r\<lparr>kr_metricsSendCh := m\<rparr>
                   in case close_chan (kr_logSendCh r) of
                        None \<Rightarrow> r
                      | Some l \<Rightarrow> r\<lparr>kr_logSendCh := l, kr_writerClosed := True\<rparr>)))"

datatype ('s, 'm, 'l) kafka_event =
  KTracing "'s option ran" | KMetrics "'m list ran" | KLog 'l | KClose
| KTraceLoop bool | KMetricsLoop bool | KLogLoop bool | KCheck marshalled bool marshalled bool

definition kafka_next ::
  "('s, 'm, 'l) kafka_proto \<Rightarrow> kafka_config \<Rightarrow> ('s, 'm, 'l) kafka_event \<Rightarrow> ('s, 'm, 'l) kafka_reporter \<Rightarrow> ('s, 'm, 'l) kafka_reporter" where
  "kafka_next p cfg ev r =
     (case ev of
        KTracing t \<Rightarrow> kafka_SendTracing t r
      | KMetrics t \<Rightarrow> (case kafka_SendMetrics t r of None \<Rightarrow> r | Some r \<Rightarrow> r)
      | KLog x \<Rightarrow> kafka_SendLog x r
      | KClose \<Rightarrow> kafka_Close r
      | KTraceLoop e \<Rightarrow> tracingSendLoop p cfg e r
      | KMetricsLoop e \<Rightarrow> metricsSendLoop p cfg e r
      | KLogLoop e \<Rightarrow> logSendLoop p cfg e r
      | KCheck props pe ping qe \<Rightarrow> kafka_check cfg props pe ping qe r)"

definition kafka_run ::
  "('s, 'm, 'l) kafka_proto \<Rightarrow> kafka_config \<Rightarrow> ('s, 'm, 'l) kafka_event list \<Rightarrow> ('s, 'm, 'l) kafka_reporter \<Rightarrow> ('s, 'm, 'l) kafka_reporter" where
  "kafka_run p cfg es r = fold (kafka_next p cfg) es r"

section \<open>What is written\<close>

text \<open>The messages the loops may write: of a segment, of a batch of meters, of a log, or of the management loop.\<close>

definition kafka_message_ok :: "('s, 'm, 'l) kafka_proto \<Rightarrow> kafka_config \<Rightarrow> kafka_message \<Rightarrow> bool" where
  "kafka_message_ok p cfg m \<longleftrightarrow>
     (\<exists>s. m = \<lparr>km_Topic = topicSegment cfg, km_Key = GetTraceSegmentId p s, km_Value = payload_of (marshal_segment p s)\<rparr> \<and>
          end_of (marshal_segment p s) = MarshalOk) \<or>
     (\<exists>s. m = \<lparr>km_Topic = topicMeter cfg, km_Key = kc_ServiceInstanceName cfg, km_Value = payload_of (marshal_meters p s)\<rparr> \<and>
          end_of (marshal_meters p s) = MarshalOk) \<or>
     (\<exists>s. m = \<lparr>km_Topic = topicLogging cfg, km_Key = log_Service p s, km_Value = payload_of (marshal_log p s)\<rparr> \<and>
          end_of (marshal_log p s) = MarshalOk) \<or>
     km_Topic m = topicManagement cfg \<and>
       (km_Key m = topicKeyRegister @ kc_ServiceInstanceName cfg \<or> km_Key m = kc_ServiceInstanceName cfg)"

lemma send_one_written:
  "send_one m write_err topic key errs = (errs', ms) \<Longrightarrow>
   ms = (if end_of m = MarshalOk \<and> \<not> write_err then [\<lparr>km_Topic = topic, km_Key = key, km_Value = payload_of m\<rparr>] else [])"
  by (cases m) (auto simp: send_one_def kafka_send_def end_of_def Let_def split: if_splits)

lemma Close_written: "kr_written (kafka_Close r) = kr_written r"
  by (simp add: kafka_Close_def Let_def split: option.splits)

lemma kafka_next_written:
  "\<exists>ms. kr_written (kafka_next p cfg ev r) = kr_written r @ ms \<and> (\<forall>m\<in>set ms. kafka_message_ok p cfg m) \<and>
        (kr_writerClosed r \<longrightarrow> ms = [])"
proof (cases ev)
  case (KTraceLoop e)
  show ?thesis
  proof (cases "ch_buf (kr_tracingSendCh r)")
    case (Cons s rest)
    obtain errs ms where o: "send_one (marshal_segment p s) (e \<or> kr_writerClosed r) (topicSegment cfg)
        (GetTraceSegmentId p s) (kr_tracingErrors r) = (errs, ms)"
      by fastforce
    have "kr_written (kafka_next p cfg ev r) = kr_written r @ ms"
      using o by (simp add: KTraceLoop Cons kafka_next_def tracingSendLoop_def)
    then show ?thesis
      using send_one_written [OF o] by (auto simp: kafka_message_ok_def)
  qed (simp add: KTraceLoop kafka_next_def tracingSendLoop_def)
next
  case (KMetricsLoop e)
  show ?thesis
  proof (cases "ch_buf (kr_metricsSendCh r)")
    case (Cons s rest)
    obtain errs ms where o: "send_one (marshal_meters p s) (e \<or> kr_writerClosed r) (topicMeter cfg)
        (kc_ServiceInstanceName cfg) (kr_metricsErrors r) = (errs, ms)"
      by fastforce
    have "kr_written (kafka_next p cfg ev r) = kr_written r @ ms"
      using o by (simp add: KMetricsLoop Cons kafka_next_def metricsSendLoop_def)
    then show ?thesis
      using send_one_written [OF o] by (auto simp: kafka_message_ok_def)
  qed (simp add: KMetricsLoop kafka_next_def metricsSendLoop_def)
next
  case (KLogLoop e)
  show ?thesis
  proof (cases "ch_buf (kr_logSendCh r)")
    case (Cons s rest)
    obtain errs ms where o: "send_one (marshal_log p s) (e \<or> kr_writerClosed r) (topicLogging cfg)
        (log_Service p s) (kr_logErrors r) = (errs, ms)"
      by fastforce
    have "kr_written (kafka_next p cfg ev r) = kr_written r @ ms"
      using o by (simp add: KLogLoop Cons kafka_next_def logSendLoop_def)
    then show ?thesis
      using send_one_written [OF o] by (auto simp: kafka_message_ok_def)
  qed (simp add: KLogLoop kafka_next_def logSendLoop_def)
next
  case (KCheck props pe ping qe)
  obtain sub a b where c: "checkOnce (kr_submitted r) (end_of props \<noteq> MarshalOk) (pe \<or> kr_writerClosed r)
      (end_of ping \<noteq> MarshalOk) (qe \<or> kr_writerClosed r) = (sub, a, b)"
    by (metis surj_pair)
  have "\<not> a \<and> \<not> b" if "kr_writerClosed r"
    using c that by (auto simp: checkOnce_def Let_def split: if_splits)
  then show ?thesis
    using c by (auto simp: KCheck kafka_next_def kafka_check_def kafka_message_ok_def)
qed (auto simp: kafka_next_def kafka_SendTracing_def kafka_SendMetrics_def kafka_SendLog_def Close_written split: option.splits)

lemma kafka_run_written:
  "\<exists>ms. kr_written (kafka_run p cfg es r) = kr_written r @ ms \<and> (\<forall>m\<in>set ms. kafka_message_ok p cfg m)"
proof (induction es arbitrary: r)
  case (Cons e es)
  obtain ms where a: "kr_written (kafka_next p cfg e r) = kr_written r @ ms" "\<forall>m\<in>set ms. kafka_message_ok p cfg m"
    using kafka_next_written [of p cfg e r] by blast
  obtain ns where b: "kr_written (kafka_run p cfg es (kafka_next p cfg e r)) = kr_written (kafka_next p cfg e r) @ ns"
    "\<forall>m\<in>set ns. kafka_message_ok p cfg m"
    using Cons [of "kafka_next p cfg e r"] by blast
  then show ?case
    using a by (intro exI [of _ "ms @ ns"]) (auto simp: kafka_run_def)
qed (simp add: kafka_run_def)

text \<open>
  Whatever happens, the Kafka reporter writes a segment under the segment topic with its own
  segment id as the key, meters under the meter topic and the instance name, a log under the
  logging topic and its service, and management messages under the management topic; and only
  what marshalled.
\<close>
theorem kafka_topics:
  "list_all (kafka_message_ok p cfg) (kr_written (kafka_run p cfg es (kafka_Boot reachable (NewKafkaReporter n))))"
  using kafka_run_written [of p cfg es "kafka_Boot reachable (NewKafkaReporter n)"]
  by (auto simp: kafka_Boot_def NewKafkaReporter_def list_all_iff)

lemma kafka_closed_next:
  assumes "kr_writerClosed r"
  shows "kr_writerClosed (kafka_next p cfg ev r) \<and> kr_written (kafka_next p cfg ev r) = kr_written r"
proof -
  have "kr_writerClosed (kafka_next p cfg ev r)"
    using assms
    by (cases ev)
      (auto simp: kafka_next_def kafka_SendTracing_def kafka_SendMetrics_def kafka_SendLog_def kafka_Close_def
        tracingSendLoop_def metricsSendLoop_def logSendLoop_def kafka_check_def Let_def
        split: option.splits list.splits prod.splits)
  then show ?thesis
    using kafka_next_written [of p cfg ev r] assms by auto
qed

text \<open>
  Close of the Kafka reporter does not drain: the writer is closed while messages still wait in
  the channels, and nothing is written from then on, though the loops go on to empty them.
\<close>
theorem kafka_close_loses_queue:
  assumes "kr_bootFlag r" "\<not> ch_closed (kr_tracingSendCh r)" "\<not> ch_closed (kr_metricsSendCh r)" "\<not> ch_closed (kr_logSendCh r)"
  shows "kr_written (kafka_run p cfg es (kafka_Close r)) = kr_written r \<and>
         ch_buf (kr_tracingSendCh (kafka_Close r)) = ch_buf (kr_tracingSendCh r)"
proof -
  have c: "kr_writerClosed (kafka_Close r)" "kr_written (kafka_Close r) = kr_written r"
    "ch_buf (kr_tracingSendCh (kafka_Close r)) = ch_buf (kr_tracingSendCh r)"
    using assms by (simp_all add: kafka_Close_def close_chan_def Let_def)
  have "kr_written (fold (kafka_next p cfg) es w) = kr_written w" if "kr_writerClosed w" for w
    using that by (induction es arbitrary: w) (simp_all add: kafka_closed_next)
  then show ?thesis
    using c by (simp add: kafka_run_def)
qed

theorem kafka_close_loses_queue_witness:
  "\<exists>(r :: (string, nat, nat) kafka_reporter) p cfg. ch_buf (kr_tracingSendCh r) = [''segment''] \<and>
     kr_written (kafka_run p cfg [KTraceLoop False] (kafka_Close r)) = []"
proof -
  let ?p = "\<lparr>marshal_segment = (\<lambda>_. Payload [1]), marshal_meters = (\<lambda>_. Payload []), marshal_log = (\<lambda>_. Payload []),
     GetTraceSegmentId = id, log_Service = (\<lambda>_. [])\<rparr> :: (string, nat, nat) kafka_proto"
  let ?cfg = "\<lparr>topicSegment = ''s'', topicMeter = ''m'', topicLogging = ''l'', topicManagement = ''g'', kc_ServiceInstanceName = ''i''\<rparr>"
  let ?r = "kafka_SendTracing (Returned (Some ''segment'')) (kafka_Boot True (NewKafkaReporter 3)) :: (string, nat, nat) kafka_reporter"
  have "kr_bootFlag ?r" "\<not> ch_closed (kr_tracingSendCh ?r)" "\<not> ch_closed (kr_metricsSendCh ?r)" "\<not> ch_closed (kr_logSendCh ?r)"
    "ch_buf (kr_tracingSendCh ?r) = [''segment'']" "kr_written ?r = []"
    by (simp_all add: kafka_SendTracing_def kafka_Boot_def NewKafkaReporter_def SendTracing_def try_send_def make_chan_def)
  then show ?thesis
    using kafka_close_loses_queue [of ?r ?p ?cfg "[KTraceLoop False]"] by metis
qed

end
