(* ===== verification/Dynamic_Config.thy ===== *)
theory Dynamic_Config
  imports Sampler Connections
begin

text \<open>
  Dynamic configuration: the configuration discovery service of the reporters
  (plugins/core/reporter/config_discovery.go) and the goroutine that polls it (cds_manager.go).
  A command is its name with its arguments.  Watchers are objects, one state per key; the locale
  config_watcher states what the service relies on, and the dynamic sampler provides it.
\<close>

type_synonym command = "string \<times> (string \<times> string) list"

record 'w config_service =
  cds_UUID :: string
  watchers :: "string \<rightharpoonup> 'w"

definition NewConfigDiscoveryService :: "'w config_service" where
  "NewConfigDiscoveryService = \<lparr>cds_UUID = [], watchers = Map.empty\<rparr>"

definition BindWatchers :: "(string \<times> 'w) list \<Rightarrow> 'w config_service \<Rightarrow> 'w config_service" where
  "BindWatchers ws s = s\<lparr>watchers := fold (\<lambda>(key, w) m. m(key \<mapsto> w)) ws Map.empty\<rparr>"

text \<open>The loop of HandleCommand over the arguments: the uuid and the map of new values.\<close>

definition config_arg :: "string \<times> string \<Rightarrow> string \<times> (string \<rightharpoonup> string) \<Rightarrow> string \<times> (string \<rightharpoonup> string)" where
  "config_arg = (\<lambda>(key, val) (uuid, newConfigs).
     if key = ''SerialNumber'' then (uuid, newConfigs)
     else if key = ''UUID'' then (val, newConfigs)
     else (uuid, newConfigs(key \<mapsto> val)))"

definition config_args :: "(string \<times> string) list \<Rightarrow> string \<times> (string \<rightharpoonup> string)" where
  "config_args args = fold config_arg args ([], Map.empty)"

text \<open>The body of the loop over the watchers, for one watcher.\<close>

definition notify_watcher ::
  "(config_event_type \<Rightarrow> string \<Rightarrow> 'w \<Rightarrow> 'w) \<Rightarrow> ('w \<Rightarrow> string) \<Rightarrow> string option \<Rightarrow> 'w \<Rightarrow> 'w" where
  "notify_watcher Notify Value pair w =
     (case pair of
        None \<Rightarrow> Notify DELETED [] w
      | Some val \<Rightarrow>
          if val = [] then Notify DELETED [] w
          else if val \<noteq> Value w then Notify MODIFY val w else w)"

definition HandleCommand ::
  "(config_event_type \<Rightarrow> string \<Rightarrow> 'w \<Rightarrow> 'w) \<Rightarrow> ('w \<Rightarrow> string) \<Rightarrow>
   (string \<times> string) list \<Rightarrow> 'w config_service \<Rightarrow> 'w config_service" where
  "HandleCommand Notify Value args s =
     (case config_args args of (uuid, newConfigs) \<Rightarrow>
        if cds_UUID s = uuid then s
        else s\<lparr>watchers := (\<lambda>key. map_option (notify_watcher Notify Value (newConfigs key)) (watchers s key)),
               cds_UUID := uuid\<rparr>)"

section \<open>The polling goroutine\<close>

record 'w cds_manager =
  cdsService :: "'w config_service option"

text \<open>
  NewCDSManager: with an interval of at most 0 there is no client and dynamic configuration is
  off; else a reference to the connection is taken.  dial is the argument of GetConnection.
\<close>

definition NewCDSManager ::
  "string \<Rightarrow> int \<Rightarrow> nat option \<Rightarrow> connection_manager \<Rightarrow> ('w cds_manager \<times> connection_manager) option" where
  "NewCDSManager addr cdsInterval dial cm =
     (if cdsInterval > 0 then
        (case GetConnection addr dial cm of
           None \<Rightarrow> None
         | Some (cm, conn) \<Rightarrow> Some (\<lparr>cdsService = Some NewConfigDiscoveryService\<rparr>, cm))
      else Some (\<lparr>cdsService = None\<rparr>, cm))"

text \<open>
  A round of the loop of InitCDS: the status, and what FetchConfigurations returns (None is an
  error).  Only the first command of a response is looked at.  The result says whether the
  goroutine goes on.
\<close>

definition cds_round ::
  "(config_event_type \<Rightarrow> string \<Rightarrow> 'w \<Rightarrow> 'w) \<Rightarrow> ('w \<Rightarrow> string) \<Rightarrow>
   connection_status \<Rightarrow> command list option \<Rightarrow> 'w config_service \<Rightarrow> 'w config_service \<times> bool" where
  "cds_round Notify Value status resp s =
     (case status of
        Shutdown \<Rightarrow> (s, False)
      | Disconnect \<Rightarrow> (s, True)
      | Connected \<Rightarrow>
          (case resp of
             None \<Rightarrow> (s, True)
           | Some cmds \<Rightarrow>
               (if cmds \<noteq> [] \<and> fst (hd cmds) = ''ConfigurationDiscoveryCommand''
                then HandleCommand Notify Value (snd (hd cmds)) s else s, True)))"

fun cds_run ::
  "(config_event_type \<Rightarrow> string \<Rightarrow> 'w \<Rightarrow> 'w) \<Rightarrow> ('w \<Rightarrow> string) \<Rightarrow>
   (connection_status \<times> command list option) list \<Rightarrow> 'w config_service \<Rightarrow> 'w config_service" where
  "cds_run Notify Value [] s = s"
| "cds_run Notify Value ((status, resp) # rs) s =
     (case cds_round Notify Value status resp s of
        (s, go) \<Rightarrow> if go then cds_run Notify Value rs s else s)"

text \<open>InitCDS: without a client there are no watchers and no goroutine.\<close>

definition InitCDS ::
  "(config_event_type \<Rightarrow> string \<Rightarrow> 'w \<Rightarrow> 'w) \<Rightarrow> ('w \<Rightarrow> string) \<Rightarrow> (string \<times> 'w) list \<Rightarrow>
   (connection_status \<times> command list option) list \<Rightarrow> 'w cds_manager \<Rightarrow> 'w cds_manager" where
  "InitCDS Notify Value ws rounds m =
     (case cdsService m of
        None \<Rightarrow> m
      | Some s \<Rightarrow> m\<lparr>cdsService := Some (cds_run Notify Value rounds (BindWatchers ws s))\<rparr>)"

section \<open>What a watcher promises\<close>

text \<open>
  accepts tells the events a watcher understands; norm is how it prints a value it took.  An
  accepted event forgets the ones before it, and another one is without effect.
\<close>

locale config_watcher =
  fixes Notify :: "config_event_type \<Rightarrow> string \<Rightarrow> 'w \<Rightarrow> 'w"
    and Value :: "'w \<Rightarrow> string"
    and accepts :: "config_event_type \<Rightarrow> string \<Rightarrow> 'w \<Rightarrow> bool"
    and norm :: "string \<Rightarrow> string"
  assumes notify_last: "accepts e v w \<Longrightarrow> Notify e v (Notify e' v' w) = Notify e v w"
    and notify_ignored: "\<not> accepts e v w \<Longrightarrow> Notify e v w = w"
    and accepts_notify: "accepts e v (Notify e' v' w) = accepts e v w"
    and value_modify: "accepts MODIFY v w \<Longrightarrow> Value (Notify MODIFY v w) = norm v"
begin

text \<open>reach w: the states the watcher w can be in after any commands.\<close>

definition reach :: "'w \<Rightarrow> 'w \<Rightarrow> bool" where
  "reach w w' \<longleftrightarrow> (\<exists>evs. w' = fold (\<lambda>(e, v). Notify e v) evs w)"

lemma reach_refl: "reach w w"
  by (auto simp: reach_def intro: exI [of _ "[]"])

lemma reach_notify: "reach w w' \<Longrightarrow> reach w (Notify e v w')"
  by (auto simp: reach_def) (rule exI [where x = "_ @ [(e, v)]"], simp)

lemma reach_watcher: "reach w w' \<Longrightarrow> reach w (notify_watcher Notify Value p w')"
  by (auto simp: notify_watcher_def reach_notify split: option.splits)

lemma fold_accepts: "accepts e v (fold (\<lambda>(e, v). Notify e v) evs w) = accepts e v w"
  by (induction evs arbitrary: w) (simp_all add: accepts_notify split_beta)

lemma reach_accepts: "reach w w' \<Longrightarrow> accepts e v w' = accepts e v w"
  using fold_accepts unfolding reach_def by blast

lemma fold_last: "accepts e v w \<Longrightarrow> Notify e v (fold (\<lambda>(e, v). Notify e v) evs w) = Notify e v w"
  by (induction evs arbitrary: w) (simp_all add: accepts_notify notify_last split_beta)

lemma reach_last: "reach w w' \<Longrightarrow> accepts e v w \<Longrightarrow> Notify e v w' = Notify e v w"
  using fold_last unfolding reach_def by blast

lemma handle_reach:
  assumes "\<forall>key. rel_option reach (ws key) (watchers s key)"
  shows "\<forall>key. rel_option reach (ws key) (watchers (HandleCommand Notify Value args s) key)"
proof
  fix key
  have "rel_option reach (ws key) (watchers s key)"
    using assms by blast
  then show "rel_option reach (ws key) (watchers (HandleCommand Notify Value args s) key)"
    by (cases "ws key"; cases "watchers s key") (simp_all add: HandleCommand_def reach_watcher split_beta)
qed

lemma run_reach:
  assumes "\<forall>key. rel_option reach (ws key) (watchers s key)"
  shows "\<forall>key. rel_option reach (ws key) (watchers (cds_run Notify Value rs s) key)"
  using assms
proof (induction rs arbitrary: s)
  case (Cons r rs)
  obtain status resp where r: "r = (status, resp)"
    by (cases r)
  obtain s' go where c: "cds_round Notify Value status resp s = (s', go)"
    by (metis surj_pair)
  have "\<forall>key. rel_option reach (ws key) (watchers s' key)"
    using c Cons.prems handle_reach [OF Cons.prems]
    by (auto simp: cds_round_def split: connection_status.splits option.splits if_splits)
  then show ?case
    using Cons.IH by (simp add: r c)
qed simp

text \<open>A command with a new UUID decides every watcher, whatever came before it.\<close>

lemma command_decides:
  assumes "config_args args = (uuid, newConfigs)" "cds_UUID s \<noteq> uuid" "watchers s key = Some w" "reach w0 w"
  shows "\<exists>w'. watchers (HandleCommand Notify Value args s) key = Some w' \<and>
     (case newConfigs key of
        None \<Rightarrow> accepts DELETED [] w0 \<longrightarrow> w' = Notify DELETED [] w0
      | Some v \<Rightarrow>
          (v = [] \<longrightarrow> accepts DELETED [] w0 \<longrightarrow> w' = Notify DELETED [] w0) \<and>
          (v \<noteq> [] \<longrightarrow> accepts MODIFY v w0 \<longrightarrow> w' = Notify MODIFY v w0 \<or> w' = w \<and> Value w = v) \<and>
          (v \<noteq> [] \<longrightarrow> \<not> accepts MODIFY v w0 \<longrightarrow> w' = w))"
  using assms reach_last [OF assms(4)] reach_accepts [OF assms(4)] notify_ignored
  by (auto simp: HandleCommand_def notify_watcher_def split: option.splits)

end

section \<open>The dynamic sampler\<close>

definition sampler_accepts :: "'f float_ops \<Rightarrow> config_event_type \<Rightarrow> string \<Rightarrow> 'f dynamic_sampler \<Rightarrow> bool" where
  "sampler_accepts fl e v s = (ParseFloat fl (if e = DELETED then FormatFloat fl (defaultRate s) else v) \<noteq> None)"

definition sampler_norm :: "'f float_ops \<Rightarrow> string \<Rightarrow> string" where
  "sampler_norm fl v = (case ParseFloat fl v of None \<Rightarrow> v | Some r \<Rightarrow> FormatFloat fl r)"

interpretation sampling: config_watcher "ds_Notify fl" "ds_Value fl" "sampler_accepts fl" "sampler_norm fl" for fl
proof
  show "ds_Notify fl e v (ds_Notify fl e' v' w) = ds_Notify fl e v w" if "sampler_accepts fl e v w" for e v w e' v'
    using that by (cases "e = DELETED") (auto simp: sampler_accepts_def ds_Notify_def Let_def split: option.splits)
qed (auto simp: sampler_accepts_def ds_Notify_def ds_Value_def sampler_norm_def split: option.splits)

text \<open>
  The service of an agent whose only watcher is its sampler, and what a command asks of it.
\<close>

definition sampler_service :: "'f float_ops \<Rightarrow> 'f \<Rightarrow> 'f dynamic_sampler config_service" where
  "sampler_service fl rate = BindWatchers [(ds_Key, NewDynamicSampler fl rate)] NewConfigDiscoveryService"

definition wanted :: "'f float_ops \<Rightarrow> 'f \<Rightarrow> string option \<Rightarrow> 'f dynamic_sampler" where
  "wanted fl rate pair =
     (case pair of
        None \<Rightarrow> NewDynamicSampler fl rate
      | Some v \<Rightarrow> if v = [] then NewDynamicSampler fl rate else ds_Notify fl MODIFY v (NewDynamicSampler fl rate))"

lemma sampler_service_watchers: "watchers (sampler_service fl rate) = [ds_Key \<mapsto> NewDynamicSampler fl rate]"
  by (simp add: sampler_service_def BindWatchers_def)

lemma sampler_run_watchers:
  "\<exists>w. watchers (cds_run (ds_Notify fl) (ds_Value fl) rs (sampler_service fl rate)) ds_Key = Some w \<and>
       sampling.reach fl (NewDynamicSampler fl rate) w"
proof -
  let ?s = "cds_run (ds_Notify fl) (ds_Value fl) rs (sampler_service fl rate)"
  have "\<forall>key. rel_option (sampling.reach fl) (watchers (sampler_service fl rate) key) (watchers ?s key)"
    by (rule sampling.run_reach) (auto intro: option.rel_refl sampling.reach_refl)
  then show ?thesis
    by (metis fun_upd_same option_rel_Some1 sampler_service_watchers)
qed

lemma New_deleted:
  assumes "ParseFloat fl (FormatFloat fl rate) \<noteq> None"
  shows "ds_Notify fl DELETED v (NewDynamicSampler fl rate) = NewDynamicSampler fl rate"
  using assms by (auto simp: NewDynamicSampler_def ds_Notify_def Let_def)



text \<open>
  Only the first command of a response is handled, and a UUID equal to the one known, also the
  empty one at the start, changes nothing.
\<close>
theorem config_first_command_only:
  "cds_round Notify Value Connected (Some (c # cs)) s = cds_round Notify Value Connected (Some [c]) s \<and>
   (fst (config_args args) = cds_UUID s \<longrightarrow> HandleCommand Notify Value args s = s) \<and>
   (fst c \<noteq> ''ConfigurationDiscoveryCommand'' \<longrightarrow> cds_round Notify Value Connected (Some (c # cs)) s = (s, True))"
  by (auto simp: cds_round_def HandleCommand_def split: prod.splits)

end
