(* ===== verification/Pprof.thy ===== *)
theory Pprof
  imports Send_Pipeline
begin

text \<open>
  Profiling on demand: the tasks (plugins/core/pprof.go) and the manager of the reporter that
  receives, starts, stops and uploads them (plugins/core/reporter/pprof_manager.go).  The runtime
  is the CPU profiler, of which there is one, and the two sampling rates; what a profile contains
  and whether a file or a call fails are answers of the runtime, arguments here.
\<close>

section \<open>Tasks\<close>

record pprof_command =
  pc_taskID :: string
  pc_events :: string
  pc_duration :: int
  pc_createTime :: int
  pc_dumpPeriod :: int

definition IsInvalidEvent :: "pprof_command \<Rightarrow> bool" where
  "IsInvalidEvent c =
     (\<not> (pc_events c = ''heap'' \<or> pc_events c = ''allocs'' \<or> pc_events c = ''goroutine'' \<or>
         pc_events c = ''threadcreate'' \<or> pc_events c = ''cpu'' \<or> pc_events c = ''block'' \<or> pc_events c = ''mutex''))"

definition IsDirectSamplingType :: "pprof_command \<Rightarrow> bool" where
  "IsDirectSamplingType c =
     (pc_events c = ''heap'' \<or> pc_events c = ''allocs'' \<or> pc_events c = ''goroutine'' \<or> pc_events c = ''threadcreate'')"

definition HasDumpPeriod :: "pprof_command \<Rightarrow> bool" where
  "HasDumpPeriod c = (pc_events c = ''block'' \<or> pc_events c = ''mutex'')"

text \<open>The CPU profiler is free, or used by a task or by trace profiling (theory Profile_Manager).\<close>

datatype cpu_user = PprofTask | TraceProfiling

record cpu_runtime =
  profilingIsRunning :: bool
  cpu_owner :: "cpu_user option"
  block_rate :: int
  mutex_rate :: int

definition idle_runtime :: cpu_runtime where
  "idle_runtime = \<lparr>profilingIsRunning = False, cpu_owner = None, block_rate = 0, mutex_rate = 0\<rparr>"

text \<open>pprof.StartCPUProfile fails exactly when the profiler is in use.\<close>

definition StartCPUProfile :: "cpu_user \<Rightarrow> cpu_runtime \<Rightarrow> cpu_runtime \<times> bool" where
  "StartCPUProfile u r = (if cpu_owner r = None then (r\<lparr>cpu_owner := Some u\<rparr>, True) else (r, False))"

definition StopCPUProfile :: "cpu_runtime \<Rightarrow> cpu_runtime" where
  "StopCPUProfile r = r\<lparr>cpu_owner := None\<rparr>"

datatype start_error = AlreadyRunning | NoWriter | CPUProfileInUse

text \<open>StartTask; the first argument says whether getWriter succeeds.\<close>

definition StartTask :: "bool \<Rightarrow> pprof_command \<Rightarrow> cpu_runtime \<Rightarrow> cpu_runtime \<times> start_error option" where
  "StartTask writer_ok c r =
     (if pc_events c = ''cpu'' \<and> profilingIsRunning r then (r, Some AlreadyRunning)
      else
        let r = (if pc_events c = ''cpu'' then r\<lparr>profilingIsRunning := True\<rparr> else r)
        in if \<not> writer_ok
           then ((if pc_events c = ''cpu'' then r\<lparr>profilingIsRunning := False\<rparr> else r), Some NoWriter)
           else if pc_events c = ''cpu'' then
             (case StartCPUProfile PprofTask r of
                (r, True) \<Rightarrow> (r, None)
              | (r, False) \<Rightarrow> (r\<lparr>profilingIsRunning := False\<rparr>, Some CPUProfileInUse))
           else if pc_events c = ''block'' then (r\<lparr>block_rate := pc_dumpPeriod c\<rparr>, None)
           else if pc_events c = ''mutex'' then (r\<lparr>mutex_rate := pc_dumpPeriod c\<rparr>, None)
           else (r, None))"

text \<open>StopTask, its effect on the runtime.\<close>

definition StopTask :: "pprof_command \<Rightarrow> cpu_runtime \<Rightarrow> cpu_runtime" where
  "StopTask c r =
     (if pc_events c = ''cpu'' then (StopCPUProfile r)\<lparr>profilingIsRunning := False\<rparr>
      else if pc_events c = ''block'' then r\<lparr>block_rate := 0\<rparr>
      else if pc_events c = ''mutex'' then r\<lparr>mutex_rate := 0\<rparr>
      else r)"

text \<open>
  readPprofData: the bytes in the buffer, or what reading the file back gives (nothing or a part
  on an error, which is only logged).
\<close>

definition readPprofData :: "string \<Rightarrow> nat list \<Rightarrow> nat list \<Rightarrow> nat list" where
  "readPprofData pprofFilePath written file_data = (if pprofFilePath = [] then written else file_data)"

section \<open>The contract of a task\<close>

text \<open>
  What the manager relies on: ok held r says that the runtime r is consistent with the tasks
  held, those started and not yet stopped.
\<close>

locale task_command =
  fixes start :: "bool \<Rightarrow> 'c \<Rightarrow> 'r \<Rightarrow> 'r \<times> 'x option"
    and stop :: "'c \<Rightarrow> 'r \<Rightarrow> 'r"
    and ok :: "'c list \<Rightarrow> 'r \<Rightarrow> bool"
  assumes start_ok: "ok held r \<Longrightarrow> start w c r = (r', None) \<Longrightarrow> ok (c # held) r'"
    and start_err: "ok held r \<Longrightarrow> start w c r = (r', Some x) \<Longrightarrow> ok held r'"
    and stop_ok: "ok held r \<Longrightarrow> c \<in> set held \<Longrightarrow> ok (remove1 c held) (stop c r)"
begin

text \<open>A task that is started and stopped at once leaves the held tasks as they were.\<close>

lemma direct: "ok held r \<Longrightarrow> start w c r = (r', None) \<Longrightarrow> ok held (stop c r')"
  using stop_ok [OF start_ok, of held r w c r' c] by simp

lemma start_cases:
  assumes "ok held r" "start w c r = (r', e)"
  shows "ok (case e of None \<Rightarrow> c # held | Some _ \<Rightarrow> held) r'"
  using assms start_ok start_err by (cases e) auto

end

definition is_cpu :: "pprof_command \<Rightarrow> bool" where "is_cpu c = (pc_events c = ''cpu'')"

definition runtime_ok :: "pprof_command list \<Rightarrow> cpu_runtime \<Rightarrow> bool" where
  "runtime_ok held r \<longleftrightarrow>
     length (filter is_cpu held) = (if profilingIsRunning r then 1 else 0) \<and>
     (profilingIsRunning r \<longleftrightarrow> cpu_owner r = Some PprofTask)"

lemma filter_remove1_length:
  "c \<in> set xs \<Longrightarrow> length (filter P (remove1 c xs)) = (if P c then length (filter P xs) - 1 else length (filter P xs))"
  by (simp add: filter_remove1 length_remove1)

interpretation task: task_command StartTask StopTask runtime_ok
proof
  show "runtime_ok (c # held) r'" if "runtime_ok held r" "StartTask w c r = (r', None)" for held r w c r'
    using that
    by (auto simp: runtime_ok_def StartTask_def StartCPUProfile_def is_cpu_def Let_def split: if_splits)
  show "runtime_ok held r'" if "runtime_ok held r" "StartTask w c r = (r', Some x)" for held r w c r' x
    using that
    by (auto simp: runtime_ok_def StartTask_def StartCPUProfile_def is_cpu_def Let_def split: if_splits)
  show "runtime_ok (remove1 c held) (StopTask c r)" if "runtime_ok held r" "c \<in> set held" for held r c
    using that filter_remove1_length [OF that(2), of is_cpu]
    by (auto simp: runtime_ok_def StopTask_def StopCPUProfile_def is_cpu_def)
qed

section \<open>The manager\<close>

datatype pprof_status = PprofSuccess | ExecutionTaskError

datatype pprof_result = Content "nat list" | ErrorMessage start_error

record pprof_data =
  pd_TaskId :: string
  pd_Type :: pprof_status
  pd_ContentSize :: int
  pd_Result :: pprof_result

record pprof_manager =
  pm_runtime :: cpu_runtime
  LastUpdateTime :: int
  pprofFilePath :: string
  pprofSendCh :: "pprof_data chan"
  pm_timers :: "pprof_command list"

definition maxPprofSendQueueSize :: nat where "maxPprofSendQueueSize = 30000"

definition pprofTaskDurationMaxMinute :: int where "pprofTaskDurationMaxMinute = 15 * 60000000000"

text \<open>
  NewPprofTaskManager: an interval of at most 0 is an error, and so is a connection that cannot
  be dialled; else a reference to the connection is taken.
\<close>

definition NewPprofTaskManager ::
  "string \<Rightarrow> int \<Rightarrow> string \<Rightarrow> nat option \<Rightarrow> connection_manager \<Rightarrow> (pprof_manager \<times> connection_manager) option" where
  "NewPprofTaskManager addr pprofInterval path dial cm =
     (if pprofInterval \<le> 0 then None
      else case GetConnection addr dial cm of
             None \<Rightarrow> None
           | Some (cm, conn) \<Rightarrow>
               Some (\<lparr>pm_runtime = idle_runtime, LastUpdateTime = 0, pprofFilePath = path,
                      pprofSendCh = make_chan maxPprofSendQueueSize, pm_timers = []\<rparr>, cm))"

text \<open>deserializePprofTaskCommand: the loop over the arguments keeps the values in a command.\<close>

definition pprof_arg :: "string \<times> string \<Rightarrow> pprof_command \<Rightarrow> pprof_command" where
  "pprof_arg = (\<lambda>(k, v) c.
     if k = ''TaskId'' then c\<lparr>pc_taskID := v\<rparr>
     else if k = ''Events'' then c\<lparr>pc_events := v\<rparr>
     else if k = ''Duration'' then
       (case atoi v of (val, err) \<Rightarrow> if err = None \<and> val > 0 then c\<lparr>pc_duration := val\<rparr> else c)
     else if k = ''DumpPeriod'' then
       (case atoi v of (val, err) \<Rightarrow> if err = None \<and> val \<ge> 0 then c\<lparr>pc_dumpPeriod := val\<rparr> else c)
     else if k = ''CreateTime'' then c\<lparr>pc_createTime := fst (parse_int v 10 64)\<rparr>
     else c)"

definition deserializePprofTaskCommand :: "(string \<times> string) list \<Rightarrow> pprof_command" where
  "deserializePprofTaskCommand args =
     (let c = fold pprof_arg args
        \<lparr>pc_taskID = [], pc_events = [], pc_duration = 0, pc_createTime = 0, pc_dumpPeriod = 0\<rparr>
      in c\<lparr>pc_duration := minutes (pc_duration c)\<rparr>)"

definition checkCommand :: "pprof_command \<Rightarrow> bool" where
  "checkCommand c =
     (if pc_taskID c = [] then False
      else if IsInvalidEvent c then False
      else if \<not> IsDirectSamplingType c \<and> (pc_duration c \<le> 0 \<or> pc_duration c > pprofTaskDurationMaxMinute) then False
      else if HasDumpPeriod c \<and> pc_dumpPeriod c \<le> 0 then False
      else True)"

definition int32 :: "int \<Rightarrow> int" where "int32 n = sint (word_of_int n :: 32 word)"

definition send_pprof :: "pprof_data \<Rightarrow> pprof_manager \<Rightarrow> pprof_manager" where
  "send_pprof d m = m\<lparr>pprofSendCh := fst (try_send d (pprofSendCh m))\<rparr>"

definition ReportPprof :: "string \<Rightarrow> nat list \<Rightarrow> pprof_manager \<Rightarrow> pprof_manager" where
  "ReportPprof taskID content m =
     send_pprof \<lparr>pd_TaskId = taskID, pd_Type = PprofSuccess, pd_ContentSize = int32 (int (length content)),
                 pd_Result = Content content\<rparr> m"

definition ReportPprofError :: "string \<Rightarrow> start_error \<Rightarrow> pprof_manager \<Rightarrow> pprof_manager" where
  "ReportPprofError taskID err m =
     send_pprof \<lparr>pd_TaskId = taskID, pd_Type = ExecutionTaskError, pd_ContentSize = 0, pd_Result = ErrorMessage err\<rparr> m"

text \<open>
  What the runtime answers while a command is handled or a timer fires: whether a writer can be
  made, the profile written, and what reading its file back gives.
\<close>

record pprof_env =
  pe_writer_ok :: bool
  pe_written :: "nat list"
  pe_file_data :: "nat list"

definition stop_and_report :: "pprof_env \<Rightarrow> pprof_command \<Rightarrow> pprof_manager \<Rightarrow> pprof_manager" where
  "stop_and_report e c m =
     ReportPprof (pc_taskID c) (readPprofData (pprofFilePath m) (pe_written e) (pe_file_data e))
       (m\<lparr>pm_runtime := StopTask c (pm_runtime m)\<rparr>)"

definition HandlePprofCommand :: "pprof_env \<Rightarrow> (string \<times> string) list \<Rightarrow> pprof_manager \<Rightarrow> pprof_manager" where
  "HandlePprofCommand e args m =
     (let command = deserializePprofTaskCommand args
      in if pc_createTime command > LastUpdateTime m then
           (let m = m\<lparr>LastUpdateTime := pc_createTime command\<rparr>
            in if \<not> checkCommand command then m
               else
                 (case StartTask (pe_writer_ok e) command (pm_runtime m) of
                    (r, Some err) \<Rightarrow> ReportPprofError (pc_taskID command) err (m\<lparr>pm_runtime := r\<rparr>)
                  | (r, None) \<Rightarrow>
                      (let m = m\<lparr>pm_runtime := r\<rparr>
                       in if IsDirectSamplingType command then stop_and_report e command m
                          else m\<lparr>pm_timers := command # pm_timers m\<rparr>)))
         else m)"

text \<open>The function of AfterFunc.\<close>

definition pprof_timer :: "pprof_env \<Rightarrow> pprof_command \<Rightarrow> pprof_manager \<Rightarrow> pprof_manager" where
  "pprof_timer e c m = stop_and_report e c (m\<lparr>pm_timers := remove1 c (pm_timers m)\<rparr>)"

text \<open>
  A round of the loop of InitPprofTask; the response is None on an error, and only its first
  command is looked at.  The boolean says whether the goroutine goes on.
\<close>

definition pprof_round ::
  "pprof_env \<Rightarrow> connection_status \<Rightarrow> (string \<times> (string \<times> string) list) list option \<Rightarrow> pprof_manager \<Rightarrow> pprof_manager \<times> bool" where
  "pprof_round e status resp m =
     (case status of
        Shutdown \<Rightarrow> (m, False)
      | Disconnect \<Rightarrow> (m, True)
      | Connected \<Rightarrow>
          (case resp of
             None \<Rightarrow> (m, True)
           | Some cmds \<Rightarrow>
               (if cmds \<noteq> [] \<and> fst (hd cmds) = ''PprofTaskQuery'' then HandlePprofCommand e (snd (hd cmds)) m else m, True)))"

text \<open>
  The manager among the timers, the uploader and trace profiling, which takes the CPU profiler
  when it is free and gives it back (theory Profile_Manager).
\<close>

inductive pprof_step :: "pprof_manager \<Rightarrow> pprof_manager \<Rightarrow> bool" where
  pp_round: "pprof_step m (fst (pprof_round e status resp m))"
| pp_timer: "c \<in> set (pm_timers m) \<Longrightarrow> pprof_step m (pprof_timer e c m)"
| pp_trace_start: "pprof_step m (m\<lparr>pm_runtime := fst (StartCPUProfile TraceProfiling (pm_runtime m))\<rparr>)"
| pp_trace_stop: "cpu_owner (pm_runtime m) = Some TraceProfiling \<Longrightarrow>
    pprof_step m (m\<lparr>pm_runtime := StopCPUProfile (pm_runtime m)\<rparr>)"
| pp_upload: "ch_buf (pprofSendCh m) = d # rest \<Longrightarrow>
    pprof_step m (m\<lparr>pprofSendCh := (pprofSendCh m)\<lparr>ch_buf := rest\<rparr>\<rparr>)"

inductive_cases pprof_stepE: "pprof_step m m'"

definition pprof_inv :: "pprof_manager \<Rightarrow> bool" where
  "pprof_inv m \<longleftrightarrow> runtime_ok (pm_timers m) (pm_runtime m) \<and> (\<forall>c\<in>set (pm_timers m). checkCommand c \<and> \<not> IsDirectSamplingType c)"

lemma report_frame [simp]:
  "pm_runtime (ReportPprof t d m) = pm_runtime m" "pm_timers (ReportPprof t d m) = pm_timers m"
  "LastUpdateTime (ReportPprof t d m) = LastUpdateTime m"
  "pm_runtime (ReportPprofError t e m) = pm_runtime m" "pm_timers (ReportPprofError t e m) = pm_timers m"
  "LastUpdateTime (ReportPprofError t e m) = LastUpdateTime m"
  by (simp_all add: ReportPprof_def ReportPprofError_def send_pprof_def)

lemma handle_inv:
  assumes "pprof_inv m"
  shows "pprof_inv (HandlePprofCommand e args m)"
proof -
  define c where "c = deserializePprofTaskCommand args"
  obtain r err where s: "StartTask (pe_writer_ok e) c (pm_runtime m) = (r, err)"
    by fastforce
  have o: "runtime_ok (pm_timers m) (pm_runtime m)"
    using assms by (simp add: pprof_inv_def)
  show ?thesis
  proof (cases "pc_createTime c > LastUpdateTime m \<and> checkCommand c")
    case True
    show ?thesis
    proof (cases err)
      case None
      then show ?thesis
        using True assms s task.start_ok [OF o] task.direct [OF o]
        by (auto simp: HandlePprofCommand_def c_def [symmetric] pprof_inv_def Let_def stop_and_report_def)
    next
      case (Some x)
      then show ?thesis
        using True assms s task.start_err [OF o]
        by (auto simp: HandlePprofCommand_def c_def [symmetric] pprof_inv_def Let_def)
    qed
  qed (use assms in \<open>auto simp: HandlePprofCommand_def c_def [symmetric] pprof_inv_def Let_def\<close>)
qed

lemma round_inv: "pprof_inv m \<Longrightarrow> pprof_inv (fst (pprof_round e status resp m))"
  using handle_inv by (auto simp: pprof_round_def split: connection_status.splits option.splits)

lemma timer_inv:
  assumes "pprof_inv m" "c \<in> set (pm_timers m)"
  shows "pprof_inv (pprof_timer e c m)"
  using assms task.stop_ok [of "pm_timers m" "pm_runtime m" c]
  by (auto simp: pprof_inv_def pprof_timer_def stop_and_report_def dest: notin_set_remove1 [rotated])

lemma trace_inv:
  "runtime_ok held r \<Longrightarrow> runtime_ok held (fst (StartCPUProfile TraceProfiling r))"
  "runtime_ok held r \<Longrightarrow> cpu_owner r = Some TraceProfiling \<Longrightarrow> runtime_ok held (StopCPUProfile r)"
  by (auto simp: runtime_ok_def StartCPUProfile_def StopCPUProfile_def)

lemma pprof_step_inv: "pprof_step m m' \<Longrightarrow> pprof_inv m \<Longrightarrow> pprof_inv m'"
proof (induction rule: pprof_step.induct)
  case (pp_trace_stop m)
  then show ?case
    using trace_inv(2) by (simp add: pprof_inv_def)
qed (auto simp: round_inv timer_inv, auto simp: pprof_inv_def trace_inv(1))

lemma pprof_reach_inv: "pprof_step\<^sup>*\<^sup>* m m' \<Longrightarrow> pprof_inv m \<Longrightarrow> pprof_inv m'"
  by (induction rule: rtranclp_induct) (auto intro: pprof_step_inv)

lemma New_pprof_inv: "NewPprofTaskManager addr i path dial cm = Some (m, cm') \<Longrightarrow> pprof_inv m"
  by (auto simp: NewPprofTaskManager_def pprof_inv_def runtime_ok_def idle_runtime_def split: if_splits option.splits)

text \<open>
  C19. CPU profiles never overlap: whatever commands arrive, whenever timers fire and whatever
  trace profiling does, at most one CPU task waits for its timer, the flag profilingIsRunning says
  whether there is one, the CPU profiler then belongs to it, and every task that waits was checked,
  so that it stops within fifteen minutes.
\<close>
theorem pprof_one_cpu_task:
  assumes "NewPprofTaskManager addr i path dial cm = Some (m0, cm')" "pprof_step\<^sup>*\<^sup>* m0 m"
  shows "length (filter is_cpu (pm_timers m)) \<le> 1 \<and>
     (profilingIsRunning (pm_runtime m) \<longleftrightarrow> (\<exists>c\<in>set (pm_timers m). is_cpu c)) \<and>
     (cpu_owner (pm_runtime m) = Some PprofTask \<longleftrightarrow> profilingIsRunning (pm_runtime m)) \<and>
     (\<forall>c\<in>set (pm_timers m). 0 < pc_duration c \<and> pc_duration c \<le> pprofTaskDurationMaxMinute)"
proof -
  have i: "pprof_inv m"
    using pprof_reach_inv [OF assms(2)] New_pprof_inv [OF assms(1)] by blast
  then have l: "length (filter is_cpu (pm_timers m)) = (if profilingIsRunning (pm_runtime m) then 1 else 0)"
    by (simp add: pprof_inv_def runtime_ok_def)
  have "(\<exists>c\<in>set (pm_timers m). is_cpu c) \<longleftrightarrow> length (filter is_cpu (pm_timers m)) \<noteq> 0"
    by (simp add: filter_empty_conv)
  then show ?thesis
    using i l by (auto simp: pprof_inv_def runtime_ok_def checkCommand_def split: if_splits)
qed

theorem pprof_one_cpu_task_witness:
  "\<exists>m0 (m :: pprof_manager) cm cm'. NewPprofTaskManager ''a'' 1 [] (Some 7) cm = Some (m0, cm') \<and>
     pm_timers m = [\<lparr>pc_taskID = ''t'', pc_events = ''cpu'', pc_duration = 60000000000, pc_createTime = 9, pc_dumpPeriod = 0\<rparr>] \<and>
     length (filter is_cpu (pm_timers m)) \<le> 1"
proof -
  let ?cm = "\<lparr>cm_serverAddr = ''a'', cm_backends = [''a''], cm_multiBackend = False, connManager = Map.empty, resolvedBackendAddrs = []\<rparr>"
  let ?e = "\<lparr>pe_writer_ok = True, pe_written = [], pe_file_data = []\<rparr>"
  let ?args = "[(''TaskId'', ''t''), (''Events'', ''cpu''), (''Duration'', ''1''), (''CreateTime'', ''9'')]"
  obtain m0 cm' where n: "NewPprofTaskManager ''a'' 1 [] (Some 7) ?cm = Some (m0, cm')"
    "pm_runtime m0 = idle_runtime" "LastUpdateTime m0 = 0" "pm_timers m0 = []"
    by (simp add: NewPprofTaskManager_def GetConnection_def acquire_def publish_connection_def)
  let ?m = "fst (pprof_round ?e Connected (Some [(''PprofTaskQuery'', ?args)]) m0)"
  have s: "pprof_step\<^sup>*\<^sup>* m0 ?m"
    by (rule r_into_rtranclp) (rule pp_round)
  have d: "deserializePprofTaskCommand ?args =
      \<lparr>pc_taskID = ''t'', pc_events = ''cpu'', pc_duration = 60000000000, pc_createTime = 9, pc_dumpPeriod = 0\<rparr>"
    by code_simp
  have t: "pm_timers ?m = [deserializePprofTaskCommand ?args]"
    using n unfolding d
    by (simp add: pprof_round_def HandlePprofCommand_def d Let_def checkCommand_def IsInvalidEvent_def IsDirectSamplingType_def
        HasDumpPeriod_def pprofTaskDurationMaxMinute_def StartTask_def StartCPUProfile_def idle_runtime_def)
  show ?thesis
    using n(1) t [unfolded d] conjunct1 [OF pprof_one_cpu_task [OF n(1) s]] by blast
qed

section \<open>Every branch of a command\<close>

text \<open>
  What a command does, on every branch: one that is not newer than the last is ignored; an
  invalid one only moves the time of the last command; a task that cannot start is reported as
  failed, unless the channel is full; a direct task is run and its profile queued; any other is
  left to its timer.
\<close>
theorem pprof_command_outcome:
  "let c = deserializePprofTaskCommand args in
     if pc_createTime c \<le> LastUpdateTime m then HandlePprofCommand e args m = m
     else if \<not> checkCommand c then HandlePprofCommand e args m = m\<lparr>LastUpdateTime := pc_createTime c\<rparr>
     else let m' = m\<lparr>LastUpdateTime := pc_createTime c, pm_runtime := fst (StartTask (pe_writer_ok e) c (pm_runtime m))\<rparr>
          in case snd (StartTask (pe_writer_ok e) c (pm_runtime m)) of
               Some err \<Rightarrow>
                 HandlePprofCommand e args m = ReportPprofError (pc_taskID c) err m' \<and>
                 pm_timers (HandlePprofCommand e args m) = pm_timers m
             | None \<Rightarrow>
                 if IsDirectSamplingType c then
                   HandlePprofCommand e args m =
                     ReportPprof (pc_taskID c) (readPprofData (pprofFilePath m) (pe_written e) (pe_file_data e)) m'
                 else HandlePprofCommand e args m = m'\<lparr>pm_timers := c # pm_timers m\<rparr>"
proof -
  let ?c = "deserializePprofTaskCommand args"
  obtain r err where s: "StartTask (pe_writer_ok e) ?c (pm_runtime m) = (r, err)"
    by fastforce
  have "StopTask ?c r = r" if "IsDirectSamplingType ?c"
    using that by (auto simp: StopTask_def IsDirectSamplingType_def)
  then show ?thesis
    using s by (auto simp: HandlePprofCommand_def Let_def stop_and_report_def split: option.splits)
qed

text \<open>
  The bound of fifteen minutes is checked after the product with a minute has wrapped: a task
  that asks for 9007199254740993 minutes is accepted as a task of one minute.
\<close>
theorem pprof_duration_wraps:
  "pc_duration (deserializePprofTaskCommand
     [(''TaskId'', ''t''), (''Events'', ''cpu''), (''Duration'', ''9007199254740993'')]) = 60000000000 \<and>
   checkCommand (deserializePprofTaskCommand
     [(''TaskId'', ''t''), (''Events'', ''cpu''), (''Duration'', ''9007199254740993'')])"
  by code_simp

text \<open>
  Block tasks do not exclude each other: when a second one starts before the first stops, the
  stop of the first turns sampling off while the second still waits for its timer.
\<close>
theorem pprof_block_overlap:
  assumes "pc_events c = ''block''" "pc_events d = ''block''"
    and "StartTask True c r = (r1, None)" "StartTask True d r1 = (r2, e)"
  shows "e = None \<and> block_rate r2 = pc_dumpPeriod d \<and> block_rate (StopTask c r2) = 0"
  using assms by (auto simp: StartTask_def StopTask_def)

theorem pprof_block_overlap_witness:
  "block_rate (StopTask \<lparr>pc_taskID = ''a'', pc_events = ''block'', pc_duration = 1, pc_createTime = 1, pc_dumpPeriod = 5\<rparr>
     (idle_runtime\<lparr>block_rate := 7\<rparr>)) = 0"
  using pprof_block_overlap [of "\<lparr>pc_taskID = ''a'', pc_events = ''block'', pc_duration = 1, pc_createTime = 1, pc_dumpPeriod = 5\<rparr>"
      "\<lparr>pc_taskID = ''b'', pc_events = ''block'', pc_duration = 1, pc_createTime = 2, pc_dumpPeriod = 7\<rparr>"
      idle_runtime "idle_runtime\<lparr>block_rate := 5\<rparr>" "idle_runtime\<lparr>block_rate := 7\<rparr>" None]
  by (simp add: StartTask_def idle_runtime_def)

section \<open>Uploading\<close>

definition maxChunkSize :: nat where "maxChunkSize = 1048576"

text \<open>
  The messages of a stream: the metadata, then pieces of the content.  up_send k and up_done k
  are the answers at the k-th chunk: whether Send succeeds, whether the context has ended.
\<close>

datatype up_msg = Metadata string pprof_status int | Chunk "nat list"

datatype up_error = NoClient | CollectError | SendMetadata | RecvError | Oversize | Rejected | SendChunk nat | CtxTimeout

datatype up_status = UpGoOn | UpTooLarge | UpTaskError

record up_env =
  up_client :: bool
  up_collect :: bool
  up_meta :: bool
  up_resp :: "up_status option"
  up_send :: "nat \<Rightarrow> bool"
  up_done :: "nat \<Rightarrow> bool"

function upload_chunks :: "up_env \<Rightarrow> nat list \<Rightarrow> nat \<Rightarrow> nat \<Rightarrow> up_msg list \<times> up_error option" where
  "upload_chunks e content offset chunkCount =
     (if offset < length content then
        (let end' = offset + maxChunkSize;
             end' = (if end' > length content then length content else end');
             chunk = take (end' - offset) (drop offset content)
         in if \<not> up_send e chunkCount then ([], Some (SendChunk chunkCount))
            else if up_done e (chunkCount + 1) then ([Chunk chunk], Some CtxTimeout)
            else (case upload_chunks e content (offset + maxChunkSize) (chunkCount + 1) of
                    (ms, err) \<Rightarrow> (Chunk chunk # ms, err)))
      else ([], None))"
  by auto
termination
  by (relation "measure (\<lambda>(e, content, offset, chunkCount). length content - offset)")
    (auto simp: maxChunkSize_def)

declare upload_chunks.simps [simp del]

definition GetContent :: "pprof_data \<Rightarrow> nat list" where
  "GetContent d = (case pd_Result d of Content bs \<Rightarrow> bs | ErrorMessage _ \<Rightarrow> [])"

definition uploadPprofDataOnce :: "up_env \<Rightarrow> pprof_data \<Rightarrow> up_msg list \<times> up_error option" where
  "uploadPprofDataOnce e d =
     (if \<not> up_client e then ([], Some NoClient)
      else if \<not> up_collect e then ([], Some CollectError)
      else if \<not> up_meta e then ([], Some SendMetadata)
      else
        let meta = Metadata (pd_TaskId d) (pd_Type d) (pd_ContentSize d)
        in case up_resp e of
             None \<Rightarrow> ([meta], Some RecvError)
           | Some UpTooLarge \<Rightarrow> ([meta], Some Oversize)
           | Some UpTaskError \<Rightarrow> ([meta], Some Rejected)
           | Some UpGoOn \<Rightarrow> (case upload_chunks e (GetContent d) 0 0 of (ms, err) \<Rightarrow> (meta # ms, err)))"

text \<open>The receiver puts the chunks together.\<close>

definition received :: "up_msg list \<Rightarrow> nat list" where
  "received ms = concat (map (\<lambda>m. case m of Chunk c \<Rightarrow> c | Metadata _ _ _ \<Rightarrow> []) ms)"

definition chunk_ok :: "up_msg \<Rightarrow> bool" where
  "chunk_ok m = (case m of Chunk c \<Rightarrow> 0 < length c \<and> length c \<le> maxChunkSize | Metadata _ _ _ \<Rightarrow> False)"

lemma received_simps [simp]:
  "received [] = []" "received (Chunk c # ms) = c @ received ms" "received (Metadata t s n # ms) = received ms"
  by (simp_all add: received_def)

lemma upload_chunks_sound:
  assumes "upload_chunks e content offset k = (ms, err)" "offset \<le> length content"
  shows "(\<exists>rest. drop offset content = received ms @ rest \<and> (err = None \<longrightarrow> rest = [])) \<and> (\<forall>m\<in>set ms. chunk_ok m)"
  using assms
proof (induction e content offset k arbitrary: ms err rule: upload_chunks.induct)
  case (1 e content offset k)
  let ?stop = "min (offset + maxChunkSize) (length content)"
  let ?chunk = "take (?stop - offset) (drop offset content)"
  have endeq: "(if offset + maxChunkSize > length content then length content else offset + maxChunkSize) = ?stop"
    by simp
  show ?case
  proof (cases "offset < length content")
    case False
    then show ?thesis
      using "1.prems" by (subst (asm) upload_chunks.simps) simp
  next
    case True
    have mx: "0 < maxChunkSize"
      by (simp add: maxChunkSize_def)
    then have c: "chunk_ok (Chunk ?chunk)"
      using True by (simp add: chunk_ok_def)
    have d: "drop offset content = ?chunk @ drop ?stop content"
      using True mx append_take_drop_id [of "?stop - offset" "drop offset content"] by (simp add: drop_drop)
    obtain ms' err' where r: "upload_chunks e content (offset + maxChunkSize) (k + 1) = (ms', err')"
      by fastforce
    have u: "(ms, err) =
       (if \<not> up_send e k then ([], Some (SendChunk k))
        else if up_done e (k + 1) then ([Chunk ?chunk], Some CtxTimeout) else (Chunk ?chunk # ms', err'))"
      using "1.prems"(1) True r unfolding upload_chunks.simps [of e content offset k] Let_def endeq
      by (simp split: if_splits)
    show ?thesis
    proof (cases "up_send e k \<and> \<not> up_done e (k + 1)")
      case False
      then show ?thesis
        using u c d by (cases "up_send e k") (auto intro: exI [of _ "drop ?stop content"])
    next
      case True
      show ?thesis
      proof (cases "offset + maxChunkSize \<le> length content")
        case le: True
        then have "(\<exists>rest. drop (offset + maxChunkSize) content = received ms' @ rest \<and> (err' = None \<longrightarrow> rest = [])) \<and>
            (\<forall>m\<in>set ms'. chunk_ok m)"
          using "1.IH" \<open>offset < length content\<close> True r by (auto simp: Let_def)
        moreover have "?stop = offset + maxChunkSize"
          using le by simp
        moreover have "ms = Chunk ?chunk # ms'" "err = err'"
          using u True by simp_all
        ultimately show ?thesis
          using c d by (metis append.assoc received_simps(2) set_ConsD)
      next
        case False
        then have "ms' = [] \<and> err' = None"
          using r by (subst (asm) upload_chunks.simps) simp
        then show ?thesis
          using u True c d False by (auto simp: min_def)
      qed
    qed
  qed
qed

text \<open>
  An upload without an error has sent the metadata and then the whole content, cut into
  nonempty chunks of at most a megabyte; one that fails has sent a prefix, and never more.
\<close>
theorem pprof_upload_round_trip:
  assumes "uploadPprofDataOnce e d = (ms, err)" "ms \<noteq> []"
  shows "hd ms = Metadata (pd_TaskId d) (pd_Type d) (pd_ContentSize d) \<and> (\<forall>m\<in>set (tl ms). chunk_ok m) \<and>
         (\<exists>rest. GetContent d = received ms @ rest) \<and> (err = None \<longrightarrow> received ms = GetContent d)"
proof -
  obtain ms' err' where r: "upload_chunks e (GetContent d) 0 0 = (ms', err')"
    by fastforce
  show ?thesis
    using assms upload_chunks_sound [OF r] r
    by (auto simp: uploadPprofDataOnce_def Let_def split: if_splits option.splits up_status.splits)
qed

theorem pprof_upload_round_trip_witness:
  "\<exists>ms. uploadPprofDataOnce \<lparr>up_client = True, up_collect = True, up_meta = True, up_resp = Some UpGoOn,
         up_send = (\<lambda>_. True), up_done = (\<lambda>_. False)\<rparr>
       \<lparr>pd_TaskId = ''t'', pd_Type = PprofSuccess, pd_ContentSize = 2, pd_Result = Content [1, 2]\<rparr> = (ms, None) \<and>
     received ms = [1, 2]"
proof -
  let ?e = "\<lparr>up_client = True, up_collect = True, up_meta = True, up_resp = Some UpGoOn,
         up_send = (\<lambda>_. True), up_done = (\<lambda>_. False)\<rparr>"
  let ?d = "\<lparr>pd_TaskId = ''t'', pd_Type = PprofSuccess, pd_ContentSize = 2, pd_Result = Content [1, 2]\<rparr>"
  have u: "uploadPprofDataOnce ?e ?d = ([Metadata ''t'' PprofSuccess 2, Chunk [1, 2]], None)"
    by (simp add: uploadPprofDataOnce_def GetContent_def upload_chunks.simps maxChunkSize_def)
  then show ?thesis
    using pprof_upload_round_trip [OF u] by (simp add: GetContent_def)
qed

text \<open>
  The message of a failed task never leaves the agent: the upload of an error report sends its
  metadata and nothing else, whatever the error was.
\<close>
theorem pprof_error_text_lost:
  "uploadPprofDataOnce e \<lparr>pd_TaskId = t, pd_Type = ExecutionTaskError, pd_ContentSize = 0, pd_Result = ErrorMessage x\<rparr> =
   uploadPprofDataOnce e \<lparr>pd_TaskId = t, pd_Type = ExecutionTaskError, pd_ContentSize = 0, pd_Result = ErrorMessage y\<rparr>"
  by (simp add: uploadPprofDataOnce_def GetContent_def Let_def split: option.split up_status.split)

end
