(* ===== verification/Reporter_Start.thy ===== *)
theory Reporter_Start
  imports Grpc_Reporter Kafka_Reporter Dynamic_Config Pprof
begin

text \<open>
  The start of the reporters as the generated code does it (the templates of
  tools/go-agent/instrument/reporter/instrument.go): initManager makes the connection manager, the
  configuration manager and the pprof manager, and the init function of the reporter uses them or
  falls back.  TLS credentials are files and are left out.  The numbers are those of the connections
  dialled, None when dialling fails.
\<close>

datatype init_error = ErrNoValidBackendService | ErrOther

record 'w managers =
  mg_connManager :: connection_manager
  mg_cdsManager :: "'w cds_manager"
  mg_pprofTaskManager :: pprof_manager

definition initManager ::
  "string \<Rightarrow> int \<Rightarrow> int \<Rightarrow> string \<Rightarrow> nat option \<Rightarrow> nat option \<Rightarrow> (init_error, 'w managers) result" where
  "initManager backendServiceVal cdsFetchInterval pprofFetchInterval path d1 d2 =
     (case NewConnectionManager backendServiceVal of
        Inl NoValidBackendService \<Rightarrow> Err ErrNoValidBackendService
      | Inl _ \<Rightarrow> Err ErrOther
      | Inr cm \<Rightarrow>
          (case NewCDSManager backendServiceVal cdsFetchInterval d1 cm of
             None \<Rightarrow> Err ErrOther
           | Some (cds, cm) \<Rightarrow>
               (case NewPprofTaskManager backendServiceVal pprofFetchInterval path d2 cm of
                  None \<Rightarrow> Err ErrOther
                | Some (pprof, cm) \<Rightarrow>
                    Ok \<lparr>mg_connManager = cm, mg_cdsManager = cds, mg_pprofTaskManager = pprof\<rparr>)))"

definition NewGRPCReporter ::
  "nat \<Rightarrow> string \<Rightarrow> nat option \<Rightarrow> connection_manager \<Rightarrow> ('s, 'm, 'l) grpc_reporter option" where
  "NewGRPCReporter maxSendQueue serverAddr dial cm =
     map_option (\<lambda>(cm, conn). booted maxSendQueue serverAddr cm) (GetConnection serverAddr dial cm)"

record init_config =
  ic_Discard :: bool
  ic_BackendService :: string
  ic_CDSFetchInterval :: int
  ic_PprofFetchInterval :: int
  ic_PprofFilePath :: string
  ic_MaxSendQueue :: nat

datatype ('s, 'm, 'l, 'w) started =
    Discarding
  | GRPC "('s, 'm, 'l) grpc_reporter" "'w managers"
  | Kafka "('s, 'm, 'l) kafka_reporter" "'w cds_manager option"

text \<open>The init function generated for the gRPC reporter.\<close>

definition init_grpc ::
  "init_config \<Rightarrow> nat option \<Rightarrow> nat option \<Rightarrow> nat option \<Rightarrow> (init_error, ('s, 'm, 'l, 'w) started) result" where
  "init_grpc c d1 d2 d3 =
     (if ic_Discard c then Ok Discarding
      else case initManager (ic_BackendService c) (ic_CDSFetchInterval c) (ic_PprofFetchInterval c) (ic_PprofFilePath c) d1 d2 of
             Inl ErrNoValidBackendService \<Rightarrow> Ok Discarding
           | Inl ErrOther \<Rightarrow> Err ErrOther
           | Inr mg \<Rightarrow>
               (case NewGRPCReporter (ic_MaxSendQueue c) (ic_BackendService c) d3 (mg_connManager mg) of
                  None \<Rightarrow> Err ErrOther
                | Some r \<Rightarrow> Ok (GRPC r (mg\<lparr>mg_connManager := gr_connManager r\<rparr>))))"

text \<open>The init function generated for the Kafka reporter: without a backend it goes on without CDS.\<close>

definition init_kafka ::
  "init_config \<Rightarrow> nat option \<Rightarrow> nat option \<Rightarrow> (init_error, ('s, 'm, 'l, 'w) started) result" where
  "init_kafka c d1 d2 =
     (if ic_Discard c then Ok Discarding
      else case initManager (ic_BackendService c) (ic_CDSFetchInterval c) (ic_PprofFetchInterval c) (ic_PprofFilePath c) d1 d2 of
             Inl ErrNoValidBackendService \<Rightarrow> Ok (Kafka (NewKafkaReporter (ic_MaxSendQueue c)) None)
           | Inl ErrOther \<Rightarrow> Err ErrOther
           | Inr mg \<Rightarrow> Ok (Kafka (NewKafkaReporter (ic_MaxSendQueue c)) (Some (mg_cdsManager mg))))"

section \<open>References\<close>

lemma get_fresh:
  "GetConnection addr dial cm = Some (cm', c) \<Longrightarrow> slots cm addr = None \<Longrightarrow> slots cm' addr = Some (c, 1)"
  using GetConnection_slots [of addr dial cm cm' c] by auto

lemma get_more:
  "GetConnection addr dial cm = Some (cm', c) \<Longrightarrow> slots cm addr = Some (d, q) \<Longrightarrow> slots cm' addr = Some (d, q + 1)"
  using GetConnection_slots [of addr dial cm cm' c] by auto

lemma new_manager_empty: "NewConnectionManager serverAddr = Inr cm \<Longrightarrow> slots cm addr = None"
  by (auto simp: NewConnectionManager_def slots_def Let_def split: sum.splits)

text \<open>The references a started gRPC reporter finds on its connection.\<close>

definition refs :: "int \<Rightarrow> int" where "refs cdsInterval = (if cdsInterval > 0 then 3 else 2)"

lemma init_grpc_slots:
  fixes mg :: "'w managers"
  assumes "init_grpc c d1 d2 d3 = Inr (GRPC r mg)"
  shows "\<exists>conn. slots (gr_connManager r) (gr_serverAddr r) = Some (conn, refs (ic_CDSFetchInterval c))"
    and "gr_serverAddr r = ic_BackendService c" and "release_inv r" and "gr_releases r = 0"
    and "\<exists>cm. r = booted (ic_MaxSendQueue c) (ic_BackendService c) cm"
proof -
  let ?a = "ic_BackendService c"
  obtain mg0 :: "'w managers" where m: "initManager ?a (ic_CDSFetchInterval c) (ic_PprofFetchInterval c) (ic_PprofFilePath c) d1 d2 = Inr mg0"
    and n: "NewGRPCReporter (ic_MaxSendQueue c) ?a d3 (mg_connManager mg0) = Some r"
    using assms by (auto simp: init_grpc_def split: if_splits sum.splits init_error.splits option.splits)
  obtain cm0 and cds :: "'w cds_manager" and cm1 pprof cm2 where cm0: "NewConnectionManager ?a = Inr cm0"
    and cds: "NewCDSManager ?a (ic_CDSFetchInterval c) d1 cm0 = Some (cds, cm1)"
    and pprof: "NewPprofTaskManager ?a (ic_PprofFetchInterval c) (ic_PprofFilePath c) d2 cm1 = Some (pprof, cm2)"
    and mg0: "mg_connManager mg0 = cm2"
    using m by (auto simp: initManager_def split: sum.splits backend_error.splits option.splits prod.splits)
  obtain conn cm3 where g: "GetConnection ?a d3 cm2 = Some (cm3, conn)" "r = booted (ic_MaxSendQueue c) ?a cm3"
    using n mg0 by (auto simp: NewGRPCReporter_def)
  obtain e where p: "GetConnection ?a d2 cm1 = Some (cm2, e)"
    using pprof by (auto simp: NewPprofTaskManager_def split: if_splits option.splits)
  have "\<exists>conn. slots cm3 ?a = Some (conn, refs (ic_CDSFetchInterval c))"
  proof (cases "ic_CDSFetchInterval c > 0")
    case True
    then obtain f where "GetConnection ?a d1 cm0 = Some (cm1, f)"
      using cds by (auto simp: NewCDSManager_def split: if_splits option.splits)
    then have "slots cm1 ?a = Some (f, 1)"
      using get_fresh new_manager_empty [OF cm0] by blast
    then show ?thesis
      using True get_more [OF g(1)] get_more [OF p] by (simp add: refs_def)
  next
    case False
    then have "slots cm1 ?a = None"
      using cds new_manager_empty [OF cm0, of ?a] by (simp add: NewCDSManager_def)
    then show ?thesis
      using False get_more [OF g(1)] get_fresh [OF p] by (simp add: refs_def)
  qed
  then show "\<exists>conn. slots (gr_connManager r) (gr_serverAddr r) = Some (conn, refs (ic_CDSFetchInterval c))"
    and "gr_serverAddr r = ic_BackendService c" and "release_inv r" and "gr_releases r = 0"
    and "\<exists>cm. r = booted (ic_MaxSendQueue c) (ic_BackendService c) cm"
    using g(2) by (auto simp: booted_def release_inv_def loop_init_def)
qed

text \<open>The reporter keeps the count: the references it found less the one it may have released.\<close>

definition refs_inv :: "nat \<Rightarrow> int \<Rightarrow> ('s, 'm, 'l) grpc_reporter \<Rightarrow> bool" where
  "refs_inv conn n r \<longleftrightarrow> release_inv r \<and>
     slots (gr_connManager r) (gr_serverAddr r) = Some (conn, n - int (gr_releases r))"

lemma ask_slots:
  "ask e st r = (r', env) \<Longrightarrow> slots (gr_connManager r') = slots (gr_connManager r) \<and> gr_serverAddr r' = gr_serverAddr r"
  by (auto simp: ask_def ConnectionStatus_def split: if_splits prod.splits dest: status_slots(1))

lemma Close_slots:
  "bootFlag r \<Longrightarrow> gr_connManager (fst (Close r)) = gr_connManager r \<and> gr_serverAddr (fst (Close r)) = gr_serverAddr r"
  by (auto simp: Close_def Let_def split: option.splits)

lemma release_keeps:
  assumes "slots cm addr = Some (conn, k)" "k \<ge> 2"
  shows "slots (fst (ReleaseConnection addr cm)) addr = Some (conn, k - 1)"
proof -
  obtain cm' dead where r: "ReleaseConnection addr cm = (cm', dead)"
    by fastforce
  show ?thesis
    using release_cases [OF r assms(1)] assms(2) r by auto
qed

lemma trace_loop_refs:
  assumes "refs_inv conn n r" "n \<ge> 2"
  shows "refs_inv conn n (trace_loop_next e r)"
proof -
  obtain r' env where a: "ask e (ls_state (fst (tracing_pipe r))) r = (r', env)"
    by (metis surj_pair)
  note s = ask_pipes [OF a] ask_slots [OF a]
  have inv: "release_inv (trace_loop_next e r)"
    using assms(1) trace_loop_release [of r e] by (simp add: refs_inv_def)
  have k: "slots (gr_connManager r) (gr_serverAddr r) = Some (conn, n - int (gr_releases r))" "release_inv r"
    using assms(1) by (simp_all add: refs_inv_def)
  show ?thesis
  proof (cases "ls_drained (fst (loop_pipe env (tracing_pipe r))) \<and> \<not> ls_drained (fst (tracing_pipe r))")
    case True
    then have "gr_releases r = 0"
      using k(2) by (simp add: release_inv_def)
    then have "slots (fst (ReleaseConnection (gr_serverAddr r) (gr_connManager r'))) (gr_serverAddr r) = Some (conn, n - 1)"
      using release_keeps [of "gr_connManager r'" "gr_serverAddr r" conn n] k(1) s assms(2) by simp
    then show ?thesis
      using inv True s \<open>gr_releases r = 0\<close> unfolding trace_loop_next_ask [OF a]
      by (simp add: refs_inv_def closeGRPCConn_def)
  next
    case False
    then show ?thesis
      using inv k s unfolding trace_loop_next_ask [OF a] if_not_P [OF False] by (simp add: refs_inv_def)
  qed
qed

lemma grpc_next_refs:
  assumes "refs_inv conn n r" "n \<ge> 2"
  shows "refs_inv conn n (grpc_next ev r)"
proof (cases ev)
  case GClose
  have b: "bootFlag r"
    using assms(1) by (simp add: refs_inv_def release_inv_def)
  then show ?thesis
    using assms grpc_next_release [of r ev] Close_slots [OF b] Close_evolves(4) [OF b]
    by (simp add: GClose refs_inv_def grpc_next_def)
next
  case (GTraceLoop e)
  then show ?thesis
    using trace_loop_refs [OF assms] by (simp add: grpc_next_def)
next
  case (GMetricsLoop e)
  obtain r' env where a: "ask e (ls_state (fst (metrics_pipe r))) r = (r', env)"
    by (metis surj_pair)
  show ?thesis
    using assms grpc_next_release [of r ev] ask_pipes [OF a] ask_slots [OF a]
    by (simp add: GMetricsLoop refs_inv_def grpc_next_def metrics_loop_next_def a)
next
  case (GLogLoop e)
  obtain r' env where a: "ask e (ls_state (fst (log_pipe r))) r = (r', env)"
    by (metis surj_pair)
  show ?thesis
    using assms grpc_next_release [of r ev] ask_pipes [OF a] ask_slots [OF a]
    by (simp add: GLogLoop refs_inv_def grpc_next_def log_loop_next_def a)
qed (use assms grpc_next_release [of r ev] in \<open>auto simp: refs_inv_def grpc_next_def split: option.splits\<close>)

lemma grpc_next_addr:
  assumes "bootFlag w"
  shows "gr_serverAddr (grpc_next e w) = gr_serverAddr w"
proof (cases e)
  case GClose
  then show ?thesis
    using Close_slots [OF assms] by (simp add: grpc_next_def)
next
  case (GTraceLoop env)
  then show ?thesis
    using ask_slots [of env "ls_state (fst (tracing_pipe w))" w]
    by (auto simp: grpc_next_def trace_loop_next_def Let_def closeGRPCConn_def split: prod.splits)
next
  case (GMetricsLoop env)
  then show ?thesis
    using ask_slots [of env "ls_state (fst (metrics_pipe w))" w]
    by (auto simp: grpc_next_def metrics_loop_next_def split: prod.splits)
next
  case (GLogLoop env)
  then show ?thesis
    using ask_slots [of env "ls_state (fst (log_pipe w))" w]
    by (auto simp: grpc_next_def log_loop_next_def split: prod.splits)
qed (auto simp: grpc_next_def split: option.splits)

lemma grpc_run_refs:
  assumes "refs_inv conn n w" "n \<ge> 2"
  shows "refs_inv conn n (fold grpc_next es w)"
    and "gr_serverAddr (fold grpc_next es w) = gr_serverAddr w"
proof -
  have "refs_inv conn n (fold grpc_next es w) \<and> gr_serverAddr (fold grpc_next es w) = gr_serverAddr w"
    using assms
  proof (induction es arbitrary: w)
    case (Cons e es)
    have "bootFlag w"
      using Cons.prems(1) by (simp add: refs_inv_def release_inv_def)
    then show ?case
      using Cons.IH [OF grpc_next_refs [OF Cons.prems]] Cons.prems(2) grpc_next_addr by simp
  qed simp
  then show "refs_inv conn n (fold grpc_next es w)" "gr_serverAddr (fold grpc_next es w) = gr_serverAddr w"
    by blast+
qed

text \<open>
  A started gRPC reporter never closes its connection: the configuration manager (when its
  interval is positive), the pprof manager and the reporter take a reference each and Close gives
  back one, so whatever is sent and however often Close is called, the connection stays stored with
  at least one reference, and the loops that end when the status is Shutdown go on.
\<close>
theorem close_leaves_connection:
  assumes "init_grpc c d1 d2 d3 = Inr (GRPC r mg)"
  shows "\<exists>conn k. slots (gr_connManager (fold grpc_next es r)) (ic_BackendService c) = Some (conn, k) \<and> 1 \<le> k \<and>
           k = refs (ic_CDSFetchInterval c) - int (gr_releases (fold grpc_next es r))"
proof -
  note i = init_grpc_slots [OF assms]
  obtain conn where "slots (gr_connManager r) (gr_serverAddr r) = Some (conn, refs (ic_CDSFetchInterval c))"
    using i(1) by blast
  then have "refs_inv conn (refs (ic_CDSFetchInterval c)) r"
    using i by (simp add: refs_inv_def)
  moreover have two: "refs (ic_CDSFetchInterval c) \<ge> 2"
    by (simp add: refs_def)
  ultimately have f: "refs_inv conn (refs (ic_CDSFetchInterval c)) (fold grpc_next es r)"
    "gr_serverAddr (fold grpc_next es r) = ic_BackendService c"
    using grpc_run_refs i(2) by metis+
  then have "gr_releases (fold grpc_next es r) \<le> 1"
    by (auto simp: refs_inv_def release_inv_def)
  then show ?thesis
    using f two by (auto simp: refs_inv_def)
qed

theorem close_leaves_connection_witness:
  "\<exists>(r :: (string, nat, nat) grpc_reporter) (mg :: nat managers) conn k.
     init_grpc \<lparr>ic_Discard = False, ic_BackendService = ''oap'', ic_CDSFetchInterval = 20, ic_PprofFetchInterval = 20,
        ic_PprofFilePath = [], ic_MaxSendQueue = 10\<rparr> (Some 1) (Some 2) (Some 3) = Inr (GRPC r mg) \<and>
     slots (gr_connManager (fold grpc_next [GClose, GClose] r)) ''oap'' = Some (conn, k) \<and> 1 \<le> k"
proof -
  let ?c = "\<lparr>ic_Discard = False, ic_BackendService = ''oap'', ic_CDSFetchInterval = 20, ic_PprofFetchInterval = 20,
        ic_PprofFilePath = [], ic_MaxSendQueue = 10\<rparr>"
  have "parseBackendServiceList ''oap'' = Inr [''oap'']"
    by (simp add: parseBackendServiceList_def splitBackendServiceAddress_def SplitHostPort_def contains_char_def
        trim_space_def is_space_def)
  then have "\<exists>(r :: (string, nat, nat) grpc_reporter) (mg :: nat managers).
      init_grpc ?c (Some 1) (Some 2) (Some 3) = Inr (GRPC r mg)"
    by (simp add: init_grpc_def initManager_def NewConnectionManager_def NewCDSManager_def NewPprofTaskManager_def
        NewGRPCReporter_def GetConnection_def acquire_def publish_connection_def Let_def)
  then obtain r :: "(string, nat, nat) grpc_reporter" and mg :: "nat managers"
    where i: "init_grpc ?c (Some 1) (Some 2) (Some 3) = Inr (GRPC r mg)"
    by blast
  show ?thesis
    using i close_leaves_connection [OF i, of "[GClose, GClose]"] by auto
qed

text \<open>
  The fallbacks: without a valid backend the gRPC agent discards and the Kafka agent runs
  without dynamic configuration; but a pprof interval of at most 0, which the log calls disabling
  pprof, fails the start of either reporter.
\<close>
theorem init_fallbacks:
  "(NewConnectionManager (ic_BackendService c) = Inl NoValidBackendService \<longrightarrow>
      init_grpc c d1 d2 d3 = Inr Discarding \<and>
      (\<not> ic_Discard c \<longrightarrow> init_kafka c d1 d2 = Inr (Kafka (NewKafkaReporter (ic_MaxSendQueue c)) None))) \<and>
   (NewConnectionManager (ic_BackendService c) = Inr cm \<and> ic_PprofFetchInterval c \<le> 0 \<and> \<not> ic_Discard c \<longrightarrow>
      init_grpc c d1 d2 d3 = Inl ErrOther \<and> init_kafka c d1 d2 = Inl ErrOther)"
  by (auto simp: init_grpc_def init_kafka_def initManager_def NewPprofTaskManager_def split: option.splits)

end
