(* ===== verification/Metrics_Handover.thy ===== *)
theory Metrics_Handover
  imports Prelude "HOL-Library.Multiset"
begin

text \<open>
  The list that carries meters created before the agent exists from the program to the agent: the
  functions the agent adds to package runtime (the template of
  tools/go-agent/instrument/runtime/instrument.go).  A counter, changed by compare-and-swap, counts
  the appends since the last hand-over; the list itself is a plain variable.  Goroutines run one
  access at a time.
\<close>

section \<open>Without interference\<close>

record 'a register =
  locker :: nat
  registers :: "'a list"
  hooks :: "'a list"

definition empty_register :: "'a register" where
  "empty_register = \<lparr>locker = 0, registers = [], hooks = []\<rparr>"

definition metrics_register_append :: "'a \<Rightarrow> 'a register \<Rightarrow> 'a register" where
  "metrics_register_append v s = s\<lparr>locker := locker s + 1, registers := registers s @ [v]\<rparr>"

definition metrics_hook_append :: "'a \<Rightarrow> 'a register \<Rightarrow> 'a register" where
  "metrics_hook_append f s = s\<lparr>locker := locker s + 1, hooks := hooks s @ [f]\<rparr>"

definition metrics_obtain :: "'a register \<Rightarrow> 'a register \<times> 'a list \<times> 'a list" where
  "metrics_obtain s =
     (if locker s = 0 then (s, [], [])
      else (s\<lparr>locker := 0, registers := [], hooks := []\<rparr>, registers s, hooks s))"

datatype 'a register_call = RAppend 'a | HAppend 'a | Obtain

fun register_run :: "'a register_call list \<Rightarrow> 'a register \<Rightarrow> 'a list \<times> 'a list \<times> 'a register" where
  "register_run [] s = ([], [], s)"
| "register_run (RAppend v # cs) s = register_run cs (metrics_register_append v s)"
| "register_run (HAppend v # cs) s = register_run cs (metrics_hook_append v s)"
| "register_run (Obtain # cs) s =
     (case metrics_obtain s of (s, rs, hs) \<Rightarrow>
        case register_run cs s of (rs', hs', s) \<Rightarrow> (rs @ rs', hs @ hs', s))"

definition appended :: "'a register_call list \<Rightarrow> 'a list" where
  "appended cs = concat (map (\<lambda>c. case c of RAppend v \<Rightarrow> [v] | _ \<Rightarrow> []) cs)"

definition hooked :: "'a register_call list \<Rightarrow> 'a list" where
  "hooked cs = concat (map (\<lambda>c. case c of HAppend v \<Rightarrow> [v] | _ \<Rightarrow> []) cs)"

lemma appended_simps [simp]:
  "appended [] = []" "appended (RAppend v # cs) = v # appended cs" "appended (HAppend v # cs) = appended cs"
  "appended (Obtain # cs) = appended cs" "hooked [] = []" "hooked (RAppend v # cs) = hooked cs"
  "hooked (HAppend v # cs) = v # hooked cs" "hooked (Obtain # cs) = hooked cs"
  by (simp_all add: appended_def hooked_def)

definition register_inv :: "'a register \<Rightarrow> bool" where
  "register_inv s \<longleftrightarrow> (locker s = 0 \<longrightarrow> registers s = [] \<and> hooks s = [])"

lemma register_run_all:
  "register_inv s \<Longrightarrow> register_run cs s = (rs, hs, s') \<Longrightarrow>
   register_inv s' \<and> rs @ registers s' = registers s @ appended cs \<and> hs @ hooks s' = hooks s @ hooked cs"
proof (induction cs arbitrary: s rs hs s')
  case (Cons c cs)
  show ?case
  proof (cases c)
    case (RAppend v)
    then show ?thesis
      using Cons.IH [of "metrics_register_append v s" rs hs s'] Cons.prems
      by (simp add: metrics_register_append_def register_inv_def)
  next
    case (HAppend v)
    then show ?thesis
      using Cons.IH [of "metrics_hook_append v s" rs hs s'] Cons.prems
      by (simp add: metrics_hook_append_def register_inv_def)
  next
    case Obtain
    obtain s1 r1 h1 where o: "metrics_obtain s = (s1, r1, h1)"
      by (metis surj_pair)
    obtain r2 h2 s2 where r: "register_run cs s1 = (r2, h2, s2)"
      by (metis surj_pair)
    have i: "register_inv s1" "r1 @ registers s1 = registers s" "h1 @ hooks s1 = hooks s"
      using o Cons.prems(1) by (auto simp: metrics_obtain_def register_inv_def split: if_splits)
    have e: "rs = r1 @ r2" "hs = h1 @ h2" "s' = s2"
      using Cons.prems(2) o r by (simp_all add: Obtain)
    have n: "register_inv s2 \<and> r2 @ registers s2 = registers s1 @ appended cs \<and> h2 @ hooks s2 = hooks s1 @ hooked cs"
      using Cons.IH [OF i(1) r] .
    show ?thesis
      using n i e by (auto simp: Obtain simp flip: append.assoc)
  qed
qed simp

text \<open>
  Calls that do not overlap hand every meter and every hook over exactly once and in order: what
  the agent obtained, followed by what still waits, is what was appended.
\<close>
theorem handover_sequential:
  assumes "register_run cs empty_register = (rs, hs, s)"
  shows "rs @ registers s = appended cs \<and> hs @ hooks s = hooked cs \<and> (locker s = 0 \<longrightarrow> rs = appended cs)"
  using register_run_all [OF _ assms] by (auto simp: empty_register_def register_inv_def)

theorem handover_sequential_witness:
  "\<exists>rs s. register_run [RAppend ''a'', Obtain, RAppend ''b'', Obtain] empty_register = (rs, [], s) \<and> rs = [''a'', ''b'']"
proof -
  have r: "register_run [RAppend ''a'', Obtain, RAppend ''b'', Obtain] empty_register = ([''a'', ''b''], [], empty_register)"
    by (simp add: empty_register_def metrics_register_append_def metrics_obtain_def)
  show ?thesis
    using handover_sequential [OF r] r by simp
qed

section \<open>With interference\<close>

text \<open>
  The places of a goroutine in an append: before the load, before the compare-and-swap with the
  value loaded, before the list is read, before it is written back, and at the end.  The obtaining
  goroutine reads the list and replaces it in two accesses as well.
\<close>

datatype 'a append_pc = ALoad | ACas nat | ARead | AWrite "'a list" | ADone

datatype 'a obtain_pc = OLoad | OCas nat | ORead | OReset "'a list" | OReturned "'a list"

record 'a handover =
  h_locker :: nat
  h_registers :: "'a list"
  h_appends :: "('a \<times> 'a append_pc) list"
  h_obtain :: "'a obtain_pc"

inductive handover_step :: "'a handover \<Rightarrow> 'a handover \<Rightarrow> bool" where
  a_load: "i < length (h_appends h) \<Longrightarrow> h_appends h ! i = (v, ALoad) \<Longrightarrow>
    handover_step h (h\<lparr>h_appends := (h_appends h)[i := (v, ACas (h_locker h))]\<rparr>)"
| a_cas: "i < length (h_appends h) \<Longrightarrow> h_appends h ! i = (v, ACas tmp) \<Longrightarrow> h_locker h = tmp \<Longrightarrow>
    handover_step h (h\<lparr>h_locker := tmp + 1, h_appends := (h_appends h)[i := (v, ARead)]\<rparr>)"
| a_cas_fails: "i < length (h_appends h) \<Longrightarrow> h_appends h ! i = (v, ACas tmp) \<Longrightarrow> h_locker h \<noteq> tmp \<Longrightarrow>
    handover_step h (h\<lparr>h_appends := (h_appends h)[i := (v, ALoad)]\<rparr>)"
| a_read: "i < length (h_appends h) \<Longrightarrow> h_appends h ! i = (v, ARead) \<Longrightarrow>
    handover_step h (h\<lparr>h_appends := (h_appends h)[i := (v, AWrite (h_registers h))]\<rparr>)"
| a_write: "i < length (h_appends h) \<Longrightarrow> h_appends h ! i = (v, AWrite xs) \<Longrightarrow>
    handover_step h (h\<lparr>h_registers := xs @ [v], h_appends := (h_appends h)[i := (v, ADone)]\<rparr>)"
| o_load: "h_obtain h = OLoad \<Longrightarrow> h_locker h \<noteq> 0 \<Longrightarrow> handover_step h (h\<lparr>h_obtain := OCas (h_locker h)\<rparr>)"
| o_none: "h_obtain h = OLoad \<Longrightarrow> h_locker h = 0 \<Longrightarrow> handover_step h (h\<lparr>h_obtain := OReturned []\<rparr>)"
| o_cas: "h_obtain h = OCas tmp \<Longrightarrow> h_locker h = tmp \<Longrightarrow>
    handover_step h (h\<lparr>h_locker := 0, h_obtain := ORead\<rparr>)"
| o_cas_fails: "h_obtain h = OCas tmp \<Longrightarrow> h_locker h \<noteq> tmp \<Longrightarrow> handover_step h (h\<lparr>h_obtain := OLoad\<rparr>)"
| o_read: "h_obtain h = ORead \<Longrightarrow> handover_step h (h\<lparr>h_obtain := OReset (h_registers h)\<rparr>)"
| o_reset: "h_obtain h = OReset xs \<Longrightarrow> handover_step h (h\<lparr>h_registers := [], h_obtain := OReturned xs\<rparr>)"

definition handover_init :: "'a list \<Rightarrow> 'a handover" where
  "handover_init vs = \<lparr>h_locker = 0, h_registers = [], h_appends = map (\<lambda>v. (v, ALoad)) vs, h_obtain = OLoad\<rparr>"

text \<open>Meters that the agent has, or that still wait in the list.\<close>

definition surviving :: "'a handover \<Rightarrow> 'a list" where
  "surviving h = (case h_obtain h of OReturned xs \<Rightarrow> xs | OReset xs \<Rightarrow> xs | _ \<Rightarrow> []) @
     (case h_obtain h of OReset xs \<Rightarrow> [] | _ \<Rightarrow> h_registers h)"

text \<open>No meter is invented or duplicated, whatever the interleaving.\<close>

definition handover_inv :: "'a list \<Rightarrow> 'a handover \<Rightarrow> bool" where
  "handover_inv vs h \<longleftrightarrow> map fst (h_appends h) = vs \<and> set (h_registers h) \<subseteq> set vs \<and>
     (\<forall>v xs. (v, AWrite xs) \<in> set (h_appends h) \<longrightarrow> set xs \<subseteq> set vs) \<and>
     (\<forall>xs. h_obtain h = OReset xs \<or> h_obtain h = OReturned xs \<longrightarrow> set xs \<subseteq> set vs)"

lemma map_fst_update:
  "i < length xs \<Longrightarrow> xs ! i = (v, p) \<Longrightarrow> map fst (xs[i := (v, q)]) = map fst xs"
  by (metis fst_conv list_update_id map_update nth_map)

lemma in_update: "(v, p) \<in> set (xs[i := (w, q)]) \<Longrightarrow> (v, p) \<in> set xs \<or> (v, p) = (w, q)"
  using set_update_subset_insert by fastforce

lemma handover_step_inv: "handover_step h h' \<Longrightarrow> handover_inv vs h \<Longrightarrow> handover_inv vs h'"
proof (induction rule: handover_step.induct)
  case (a_write i h v xs)
  then have "v \<in> set vs" "set xs \<subseteq> set vs"
    unfolding handover_inv_def by (metis fst_conv in_set_conv_nth length_map nth_map, metis nth_mem)
  moreover have "set ys \<subseteq> set vs" if "(w, AWrite ys) \<in> set ((h_appends h)[i := (v, ADone)])" for w ys
    using a_write.prems in_update [OF that] unfolding handover_inv_def by blast
  moreover have "map fst ((h_appends h)[i := (v, ADone)]) = vs"
    using a_write by (simp add: handover_inv_def map_fst_update)
  ultimately show ?case
    using a_write.prems by (simp add: handover_inv_def)
qed (auto simp: handover_inv_def map_fst_update dest!: in_update)

lemma handover_reach_inv: "handover_step\<^sup>*\<^sup>* h h' \<Longrightarrow> handover_inv vs h \<Longrightarrow> handover_inv vs h'"
  by (induction rule: rtranclp_induct) (auto intro: handover_step_inv)

text \<open>
  A meter can be lost.  The compare-and-swap does not protect the list: of two goroutines that
  append at the same time, one may write back the list it read before the other wrote, and then a
  meter whose append has returned is neither obtained nor waiting.  But nothing is ever handed over
  that was not appended.
\<close>
theorem handover_loses_meter:
  "(\<exists>h. handover_step\<^sup>*\<^sup>* (handover_init [''a'', ''b'']) h \<and> h_appends h = [(''a'', ADone), (''b'', ADone)] \<and>
        surviving h = [''a'']) \<and>
   (\<forall>h. handover_step\<^sup>*\<^sup>* (handover_init vs) h \<longrightarrow> set (surviving h) \<subseteq> set vs)"
proof
  let ?st = "\<lambda>l rs p q. \<lparr>h_locker = l, h_registers = rs, h_appends = [(''a'', p), (''b'', q)], h_obtain = OLoad\<rparr>"
  have steps:
    "handover_step (?st 0 [] ALoad ALoad) (?st 0 [] (ACas 0) ALoad)"
    "handover_step (?st 0 [] (ACas 0) ALoad) (?st 1 [] ARead ALoad)"
    "handover_step (?st 1 [] ARead ALoad) (?st 1 [] (AWrite []) ALoad)"
    "handover_step (?st 1 [] (AWrite []) ALoad) (?st 1 [] (AWrite []) (ACas 1))"
    "handover_step (?st 1 [] (AWrite []) (ACas 1)) (?st 2 [] (AWrite []) ARead)"
    "handover_step (?st 2 [] (AWrite []) ARead) (?st 2 [] (AWrite []) (AWrite []))"
    "handover_step (?st 2 [] (AWrite []) (AWrite [])) (?st 2 [''b''] (AWrite []) ADone)"
    "handover_step (?st 2 [''b''] (AWrite []) ADone) (?st 2 [''a''] ADone ADone)"
    using a_load [of 0 "?st 0 [] ALoad ALoad"] a_cas [of 0 "?st 0 [] (ACas 0) ALoad"] a_read [of 0 "?st 1 [] ARead ALoad"]
      a_load [of 1 "?st 1 [] (AWrite []) ALoad"] a_cas [of 1 "?st 1 [] (AWrite []) (ACas 1)"]
      a_read [of 1 "?st 2 [] (AWrite []) ARead"] a_write [of 1 "?st 2 [] (AWrite []) (AWrite [])"]
      a_write [of 0 "?st 2 [''b''] (AWrite []) ADone"]
    by (simp_all add: numeral_2_eq_2)
  have "handover_step\<^sup>*\<^sup>* (?st 0 [] ALoad ALoad) (?st 2 [''a''] ADone ADone)"
    by (rule converse_rtranclp_into_rtranclp, rule steps)+ (rule rtranclp.rtrancl_refl)
  then show "\<exists>h. handover_step\<^sup>*\<^sup>* (handover_init [''a'', ''b'']) h \<and> h_appends h = [(''a'', ADone), (''b'', ADone)] \<and>
      surviving h = [''a'']"
    by (intro exI [of _ "?st 2 [''a''] ADone ADone"]) (simp add: handover_init_def surviving_def)
  have "handover_inv vs (handover_init vs)"
    by (auto simp: handover_inv_def handover_init_def comp_def)
  then have "handover_inv vs h" if "handover_step\<^sup>*\<^sup>* (handover_init vs) h" for h
    using handover_reach_inv [OF that] by blast
  then show "\<forall>h. handover_step\<^sup>*\<^sup>* (handover_init vs) h \<longrightarrow> set (surviving h) \<subseteq> set vs"
    by (fastforce simp: handover_inv_def surviving_def split: obtain_pc.splits)
qed

theorem handover_loses_meter_witness:
  "set (surviving (handover_init [''a'', ''b''])) \<subseteq> {''a'', ''b''}"
  using handover_loses_meter [of "[''a'', ''b'']"] by auto

section \<open>Linking\<close>

text \<open>
  The names the runtime template links to an implementation, and those the linker file of a plugin
  refers to; an unresolved one stays nil, and the linker then keeps the function that does nothing
  (plugins/core/operator/common.go).
\<close>

definition runtime_links :: "string list" where
  "runtime_links =
     [''TLSGetMethod'', ''TLSSetMethod'', ''GlobalOperatorSetMethodName'', ''GlobalOperatorGetMethodName'',
      ''GlobalLoggerSetMethodName'', ''GlobalLoggerGetMethodName'', ''GoroutineIDGetterMethodName'',
      ''GlobalTracerInitNotifyMethodName'', ''GlobalTracerInitNotifyGetMethodName'',
      ''MetricsRegisterAppendMethodName'', ''MetricsObtainMethodName'']"

definition MetricsAppender :: "'a \<Rightarrow> 'a register \<Rightarrow> 'a register" where
  "MetricsAppender v s =
     (if ''MetricsRegisterAppendMethodName'' \<in> set runtime_links then metrics_register_append v s else s)"

definition MetricsCollectAppender :: "'a \<Rightarrow> 'a register \<Rightarrow> 'a register" where
  "MetricsCollectAppender f s =
     (if ''MetricsHookAppendMethodName'' \<in> set runtime_links then metrics_hook_append f s else s)"

text \<open>
  A collect hook registered before the agent exists is lost: the runtime template defines the
  function that would append it, but links no name to it, so the appender of the plugins stays the
  one that does nothing, while that of the meters works.
\<close>
theorem early_hook_lost:
  "MetricsCollectAppender f s = s \<and> registers (MetricsAppender v s) = registers s @ [v]"
  by (simp add: MetricsCollectAppender_def MetricsAppender_def runtime_links_def metrics_register_append_def)

end
