(* ===== verification/So11y.thy ===== *)
theory So11y
  imports Prelude
begin

text \<open>
  Self-observability (plugins/core/so11y.go): the counters of contexts and the double-checked
  creation of one error counter per plugin, by any number of goroutines.  Counting is atomic (theory
  Meters), so a counter is a number here; the first use of GetSo11y creates the fixed counters.
\<close>

section \<open>Context counters\<close>

record so11y =
  propagatedContextCounter :: nat
  propagatedIgnoreContextCounter :: nat
  samplerContextCounter :: nat
  samplerIgnoreContextCounter :: nat
  finishContextCounter :: nat
  finishIgnoreContextCounter :: nat
  leakedContextCounter :: nat
  leakedIgnoreContextCounter :: nat

definition new_so11y :: so11y where
  "new_so11y = \<lparr>propagatedContextCounter = 0, propagatedIgnoreContextCounter = 0, samplerContextCounter = 0,
     samplerIgnoreContextCounter = 0, finishContextCounter = 0, finishIgnoreContextCounter = 0,
     leakedContextCounter = 0, leakedIgnoreContextCounter = 0\<rparr>"

text \<open>The names and labels under which GetSo11y registers them, in the order of the fields.\<close>

definition so11y_names :: "(string \<times> (string \<times> string) list) list" where
  "so11y_names =
     [(''sw_go_created_tracing_context_counter'', [(''created_by'', ''propagated'')]),
      (''sw_go_created_ignored_context_counter'', [(''created_by'', ''propagated'')]),
      (''sw_go_created_tracing_context_counter'', [(''created_by'', ''sampler'')]),
      (''sw_go_created_ignored_context_counter'', [(''created_by'', ''sampler'')]),
      (''sw_go_finished_tracing_context_counter'', []),
      (''sw_go_finished_ignored_context_counter'', []),
      (''sw_go_possible_leaked_context_counter'', [(''created_by'', ''tracing'')]),
      (''sw_go_possible_leaked_context_counter'', [(''source'', ''ignore'')])]"

definition MeasureTracingContextCreation :: "bool \<Rightarrow> bool \<Rightarrow> so11y \<Rightarrow> so11y" where
  "MeasureTracingContextCreation isForceSample isIgnored s =
     (if isForceSample then
        (if isIgnored then s\<lparr>propagatedIgnoreContextCounter := propagatedIgnoreContextCounter s + 1\<rparr>
         else s\<lparr>propagatedContextCounter := propagatedContextCounter s + 1\<rparr>)
      else
        (if isIgnored then s\<lparr>samplerIgnoreContextCounter := samplerIgnoreContextCounter s + 1\<rparr>
         else s\<lparr>samplerContextCounter := samplerContextCounter s + 1\<rparr>))"

definition MeasureTracingContextCompletion :: "bool \<Rightarrow> so11y \<Rightarrow> so11y" where
  "MeasureTracingContextCompletion isIgnored s =
     (if isIgnored then s\<lparr>finishIgnoreContextCounter := finishIgnoreContextCounter s + 1\<rparr>
      else s\<lparr>finishContextCounter := finishContextCounter s + 1\<rparr>)"

definition MeasureLeakedTracingContext :: "bool \<Rightarrow> so11y \<Rightarrow> so11y" where
  "MeasureLeakedTracingContext isIgnored s =
     (if isIgnored then s\<lparr>leakedIgnoreContextCounter := leakedIgnoreContextCounter s + 1\<rparr>
      else s\<lparr>leakedContextCounter := leakedContextCounter s + 1\<rparr>)"

text \<open>The eight counters are told apart by name and labels, and each call moves exactly one.\<close>

lemma so11y_names_distinct: "distinct so11y_names \<and> length so11y_names = 8"
  by (simp add: so11y_names_def)

definition contexts_created :: "so11y \<Rightarrow> nat" where
  "contexts_created s = propagatedContextCounter s + propagatedIgnoreContextCounter s + samplerContextCounter s +
     samplerIgnoreContextCounter s"

definition contexts_finished :: "so11y \<Rightarrow> nat" where
  "contexts_finished s = finishContextCounter s + finishIgnoreContextCounter s"

lemma measure_counts:
  "contexts_created (MeasureTracingContextCreation f i s) = contexts_created s + 1"
  "contexts_finished (MeasureTracingContextCreation f i s) = contexts_finished s"
  "contexts_created (MeasureTracingContextCompletion i s) = contexts_created s"
  "contexts_finished (MeasureTracingContextCompletion i s) = contexts_finished s + 1"
  "contexts_created (MeasureLeakedTracingContext i s) = contexts_created s"
  "contexts_finished (MeasureLeakedTracingContext i s) = contexts_finished s"
  by (simp_all add: contexts_created_def contexts_finished_def MeasureTracingContextCreation_def
      MeasureTracingContextCompletion_def MeasureLeakedTracingContext_def)

section \<open>One counter per plugin\<close>

text \<open>
  CollectErrorOfPlugin: the first load of the map (with the increment when a counter is found), the
  wait for the mutex t.mu, and the locked section (load again, else create, store and increment),
  which no other goroutine sees halfway because all of them store under the lock, but which others
  may load past.  em maps a plugin to its counter, a position in counts.
\<close>

datatype error_pc = EStart | EWait | ELocked | EMiss | EStored nat | EDone

record error_world =
  errorCounterMap :: "string \<rightharpoonup> nat"
  ew_counts :: "nat list"
  ew_mu :: "nat option"
  ew_calls :: "(string \<times> error_pc) list"

definition ew_init :: "string list \<Rightarrow> error_world" where
  "ew_init names = \<lparr>errorCounterMap = Map.empty, ew_counts = [], ew_mu = None, ew_calls = map (\<lambda>n. (n, EStart)) names\<rparr>"

inductive error_step :: "error_world \<Rightarrow> error_world \<Rightarrow> bool" where
  e_hit: "i < length (ew_calls w) \<Longrightarrow> ew_calls w ! i = (n, EStart) \<Longrightarrow> errorCounterMap w n = Some c \<Longrightarrow>
    error_step w (w\<lparr>ew_counts := (ew_counts w)[c := ew_counts w ! c + 1], ew_calls := (ew_calls w)[i := (n, EDone)]\<rparr>)"
| e_miss: "i < length (ew_calls w) \<Longrightarrow> ew_calls w ! i = (n, EStart) \<Longrightarrow> errorCounterMap w n = None \<Longrightarrow>
    error_step w (w\<lparr>ew_calls := (ew_calls w)[i := (n, EWait)]\<rparr>)"
| e_lock: "i < length (ew_calls w) \<Longrightarrow> ew_calls w ! i = (n, EWait) \<Longrightarrow> ew_mu w = None \<Longrightarrow>
    error_step w (w\<lparr>ew_mu := Some i, ew_calls := (ew_calls w)[i := (n, ELocked)]\<rparr>)"
| e_again: "i < length (ew_calls w) \<Longrightarrow> ew_calls w ! i = (n, ELocked) \<Longrightarrow> errorCounterMap w n = Some c \<Longrightarrow>
    error_step w (w\<lparr>ew_counts := (ew_counts w)[c := ew_counts w ! c + 1], ew_mu := None,
      ew_calls := (ew_calls w)[i := (n, EDone)]\<rparr>)"
| e_still: "i < length (ew_calls w) \<Longrightarrow> ew_calls w ! i = (n, ELocked) \<Longrightarrow> errorCounterMap w n = None \<Longrightarrow>
    error_step w (w\<lparr>ew_calls := (ew_calls w)[i := (n, EMiss)]\<rparr>)"
| e_store: "i < length (ew_calls w) \<Longrightarrow> ew_calls w ! i = (n, EMiss) \<Longrightarrow>
    error_step w (w\<lparr>errorCounterMap := (errorCounterMap w)(n \<mapsto> length (ew_counts w)), ew_counts := ew_counts w @ [0],
      ew_calls := (ew_calls w)[i := (n, EStored (length (ew_counts w)))]\<rparr>)"
| e_count: "i < length (ew_calls w) \<Longrightarrow> ew_calls w ! i = (n, EStored c) \<Longrightarrow>
    error_step w (w\<lparr>ew_counts := (ew_counts w)[c := ew_counts w ! c + 1], ew_mu := None,
      ew_calls := (ew_calls w)[i := (n, EDone)]\<rparr>)"

inductive_cases error_stepE: "error_step w w'"

definition finished :: "string \<Rightarrow> (string \<times> error_pc) list \<Rightarrow> nat" where
  "finished n calls = length (filter (\<lambda>c. c = (n, EDone)) calls)"

definition holds_lock :: "error_pc \<Rightarrow> bool" where
  "holds_lock pc \<longleftrightarrow> pc = ELocked \<or> pc = EMiss \<or> (\<exists>c. pc = EStored c)"

text \<open>
  The invariant.  Of the places: the lock is held by the one call inside its section; a call that
  missed under the lock still misses, and one that stored finds its counter.  Of the counters: each
  belongs to one plugin, and counts the finished calls of it.
\<close>

definition pc_ok :: "(string \<rightharpoonup> nat) \<Rightarrow> nat option \<Rightarrow> (string \<times> error_pc) list \<Rightarrow> bool" where
  "pc_ok em mu calls \<longleftrightarrow>
     (\<forall>i<length calls. \<forall>n pc. calls ! i = (n, pc) \<longrightarrow>
        (holds_lock pc \<longleftrightarrow> mu = Some i) \<and> (pc = EMiss \<longrightarrow> em n = None) \<and> (\<forall>c. pc = EStored c \<longrightarrow> em n = Some c))"

definition counts_ok :: "(string \<rightharpoonup> nat) \<Rightarrow> nat list \<Rightarrow> (string \<times> error_pc) list \<Rightarrow> bool" where
  "counts_ok em counts calls \<longleftrightarrow>
     (\<forall>n c. em n = Some c \<longrightarrow> c < length counts \<and> counts ! c = finished n calls) \<and>
     (\<forall>n m c. em n = Some c \<longrightarrow> em m = Some c \<longrightarrow> n = m) \<and>
     (\<forall>c<length counts. \<exists>n. em n = Some c) \<and>
     (\<forall>n. em n = None \<longrightarrow> finished n calls = 0)"

definition error_inv :: "error_world \<Rightarrow> bool" where
  "error_inv w \<longleftrightarrow> pc_ok (errorCounterMap w) (ew_mu w) (ew_calls w) \<and>
     counts_ok (errorCounterMap w) (ew_counts w) (ew_calls w)"

lemma finished_update:
  "i < length calls \<Longrightarrow> calls ! i = (n, p) \<Longrightarrow> p \<noteq> EDone \<Longrightarrow>
   finished m (calls[i := (n, q)]) = finished m calls + (if q = EDone \<and> m = n then 1 else 0)"
proof (induction calls arbitrary: i)
  case (Cons c calls)
  show ?case
  proof (cases i)
    case 0
    then show ?thesis
      using Cons.prems by (auto simp: finished_def)
  next
    case (Suc k)
    then show ?thesis
      using Cons.prems Cons.IH [of k] by (auto simp: finished_def split: if_splits)
  qed
qed simp

lemma pc_ok_update:
  assumes "pc_ok em mu calls" "i < length calls" "calls ! i = (n, p)"
    and "holds_lock q \<longleftrightarrow> mu' = Some i" "\<And>j. j \<noteq> i \<Longrightarrow> mu' = Some j \<longleftrightarrow> mu = Some j"
    and "q = EMiss \<longrightarrow> em' n = None" "\<And>c. q = EStored c \<Longrightarrow> em' n = Some c" "em' = em \<or> mu = Some i"
  shows "pc_ok em' mu' (calls[i := (n, q)])"
  unfolding pc_ok_def
proof (intro allI impI)
  fix j m pc
  assume j: "j < length (calls[i := (n, q)])" "calls[i := (n, q)] ! j = (m, pc)"
  show "(holds_lock pc \<longleftrightarrow> mu' = Some j) \<and> (pc = EMiss \<longrightarrow> em' m = None) \<and> (\<forall>c. pc = EStored c \<longrightarrow> em' m = Some c)"
  proof (cases "j = i")
    case True
    then show ?thesis
      using j assms(2,4,6,7) by simp
  next
    case False
    then have o: "(holds_lock pc \<longleftrightarrow> mu = Some j) \<and> (pc = EMiss \<longrightarrow> em m = None) \<and> (\<forall>c. pc = EStored c \<longrightarrow> em m = Some c)"
      using j assms(1) unfolding pc_ok_def by simp
    show ?thesis
    proof (cases "em' = em")
      case True
      then show ?thesis
        using o assms(5) [OF False] by simp
    next
      case other: False
      then have "\<not> holds_lock pc"
        using assms(8) o False by simp
      then show ?thesis
        using o assms(5) [OF False] by (auto simp: holds_lock_def)
    qed
  qed
qed

lemma counts_ok_same:
  assumes "counts_ok em counts calls" "i < length calls" "calls ! i = (n, p)" "p \<noteq> EDone" "q \<noteq> EDone"
  shows "counts_ok em counts (calls[i := (n, q)])"
  using assms by (simp add: counts_ok_def finished_update [OF assms(2,3,4)])

lemma counts_ok_inc:
  assumes "counts_ok em counts calls" "i < length calls" "calls ! i = (n, p)" "p \<noteq> EDone" "em n = Some c"
  shows "counts_ok em (counts[c := counts ! c + 1]) (calls[i := (n, EDone)])"
  unfolding counts_ok_def
proof (intro conjI allI impI)
  note fin = finished_update [OF assms(2,3,4)]
  fix m d
  assume m: "em m = Some d"
  then show "d < length (counts[c := counts ! c + 1])"
    using assms(1) by (simp add: counts_ok_def)
  have "d = c \<longleftrightarrow> m = n"
    using m assms(1,5) unfolding counts_ok_def by (metis option.inject)
  then show "counts[c := counts ! c + 1] ! d = finished m (calls[i := (n, EDone)])"
    using m assms(1,5) unfolding counts_ok_def fin by (cases "d = c") simp_all
next
  note fin = finished_update [OF assms(2,3,4)]
  fix m
  assume "em m = None"
  then show "finished m (calls[i := (n, EDone)]) = 0"
    using assms(1,5) unfolding counts_ok_def fin by auto
qed (use assms(1) in \<open>auto simp: counts_ok_def\<close>)

lemma counts_ok_new:
  assumes "counts_ok em counts calls" "i < length calls" "calls ! i = (n, p)" "p \<noteq> EDone" "em n = None" "q \<noteq> EDone"
  shows "counts_ok (em(n \<mapsto> length counts)) (counts @ [0]) (calls[i := (n, q)])"
proof -
  have s: "counts_ok em counts (calls[i := (n, q)])"
    by (rule counts_ok_same [OF assms(1,2,3,4,6)])
  let ?k = "length counts" and ?calls = "calls[i := (n, q)]"
  have old: "em m = Some c \<Longrightarrow> c < ?k" for m c
    using s by (simp add: counts_ok_def)
  have zero: "finished n ?calls = 0"
    using s assms(5) by (simp add: counts_ok_def)
  show ?thesis
    unfolding counts_ok_def
  proof (intro conjI allI impI)
    fix m c
    assume m: "(em(n \<mapsto> ?k)) m = Some c"
    show "c < length (counts @ [0])"
      using m old [of m c] by (cases "m = n") auto
    show "(counts @ [0]) ! c = finished m ?calls"
      using m old [of m c] zero s by (cases "m = n") (auto simp: nth_append counts_ok_def)
    fix m'
    assume m': "(em(n \<mapsto> ?k)) m' = Some c"
    show "m = m'"
      using m m' old [of m c] old [of m' c] s unfolding counts_ok_def by (cases "m = n"; cases "m' = n") auto
  next
    fix c
    assume c: "c < length (counts @ [0])"
    show "\<exists>m. (em(n \<mapsto> ?k)) m = Some c"
    proof (cases "c = ?k")
      case False
      then obtain m where "em m = Some c"
        using c s by (auto simp: counts_ok_def less_Suc_eq)
      then show ?thesis
        using assms(5) by (intro exI [of _ m]) auto
    qed auto
  next
    fix m
    assume "(em(n \<mapsto> ?k)) m = None"
    then show "finished m ?calls = 0"
      using s by (auto simp: counts_ok_def split: if_splits)
  qed
qed

lemma error_step_inv: "error_step w w' \<Longrightarrow> error_inv w \<Longrightarrow> error_inv w'"
proof (induction rule: error_step.induct)
  case (e_hit i w n c)
  then have "ew_mu w \<noteq> Some i"
    unfolding error_inv_def pc_ok_def holds_lock_def by blast
  then show ?case
    using e_hit pc_ok_update [of "errorCounterMap w" "ew_mu w" "ew_calls w" i n EStart "EDone" "ew_mu w" "errorCounterMap w"] counts_ok_inc [of "errorCounterMap w" "ew_counts w" "ew_calls w" i n EStart c]
    by (simp add: error_inv_def holds_lock_def)
next
  case (e_miss i w n)
  then have "ew_mu w \<noteq> Some i"
    unfolding error_inv_def pc_ok_def holds_lock_def by blast
  then show ?case
    using e_miss pc_ok_update [of "errorCounterMap w" "ew_mu w" "ew_calls w" i n EStart "EWait" "ew_mu w" "errorCounterMap w"] counts_ok_same [of "errorCounterMap w" "ew_counts w" "ew_calls w" i n EStart EWait]
    by (simp add: error_inv_def holds_lock_def)
next
  case (e_lock i w n)
  then show ?case
    using pc_ok_update [of "errorCounterMap w" "None" "ew_calls w" i n EWait "ELocked" "Some i" "errorCounterMap w"] counts_ok_same [of "errorCounterMap w" "ew_counts w" "ew_calls w" i n EWait ELocked]
    by (simp add: error_inv_def holds_lock_def)
next
  case (e_again i w n c)
  then have "ew_mu w = Some i"
    unfolding error_inv_def pc_ok_def holds_lock_def by blast
  then show ?case
    using e_again pc_ok_update [of "errorCounterMap w" "Some i" "ew_calls w" i n ELocked "EDone" "None" "errorCounterMap w"] counts_ok_inc [of "errorCounterMap w" "ew_counts w" "ew_calls w" i n ELocked c]
    by (simp add: error_inv_def holds_lock_def)
next
  case (e_still i w n)
  then have "ew_mu w = Some i"
    unfolding error_inv_def pc_ok_def holds_lock_def by blast
  then show ?case
    using e_still pc_ok_update [of "errorCounterMap w" "Some i" "ew_calls w" i n ELocked "EMiss" "Some i" "errorCounterMap w"] counts_ok_same [of "errorCounterMap w" "ew_counts w" "ew_calls w" i n ELocked EMiss]
    by (simp add: error_inv_def holds_lock_def)
next
  case (e_store i w n)
  then have m: "ew_mu w = Some i" "errorCounterMap w n = None"
    unfolding error_inv_def pc_ok_def holds_lock_def by blast+
  then show ?case
    using e_store pc_ok_update [of "errorCounterMap w" "Some i" "ew_calls w" i n EMiss "EStored (length (ew_counts w))" "Some i" "(errorCounterMap w)(n \<mapsto> length (ew_counts w))"]
      counts_ok_new [of "errorCounterMap w" "ew_counts w" "ew_calls w" i n EMiss "EStored (length (ew_counts w))"]
    by (simp add: error_inv_def holds_lock_def)
next
  case (e_count i w n c)
  then have m: "ew_mu w = Some i" "errorCounterMap w n = Some c"
    unfolding error_inv_def pc_ok_def holds_lock_def by blast+
  then show ?case
    using e_count pc_ok_update [of "errorCounterMap w" "Some i" "ew_calls w" i n "EStored c" "EDone" "None" "errorCounterMap w"] counts_ok_inc [of "errorCounterMap w" "ew_counts w" "ew_calls w" i n "EStored c" c]
    by (simp add: error_inv_def holds_lock_def)
qed

lemma error_reach_inv: "error_step\<^sup>*\<^sup>* w w' \<Longrightarrow> error_inv w \<Longrightarrow> error_inv w'"
  by (induction rule: rtranclp_induct) (auto intro: error_step_inv)

lemma ew_init_inv: "error_inv (ew_init names)"
proof -
  have "finished n (map (\<lambda>n. (n, EStart)) names) = 0" for n
    by (simp add: finished_def comp_def)
  then show ?thesis
    by (simp add: error_inv_def pc_ok_def counts_ok_def ew_init_def holds_lock_def)
qed

text \<open>
  C9. Errors of plugins are counted exactly, by any number of goroutines: at every moment each plugin
  has at most one counter, distinct plugins have distinct ones, and a counter holds the number of
  calls for its plugin that have finished; no call is lost or counted twice.
\<close>
theorem plugin_errors_counted:
  assumes "error_step\<^sup>*\<^sup>* (ew_init names) w"
  shows "(\<forall>n. case errorCounterMap w n of
            None \<Rightarrow> finished n (ew_calls w) = 0
          | Some c \<Rightarrow> c < length (ew_counts w) \<and> ew_counts w ! c = finished n (ew_calls w)) \<and>
     inj_on (errorCounterMap w) (dom (errorCounterMap w)) \<and>
     length (ew_counts w) = card (dom (errorCounterMap w))"
proof -
  have i: "counts_ok (errorCounterMap w) (ew_counts w) (ew_calls w)"
    using error_reach_inv [OF assms ew_init_inv] by (simp add: error_inv_def)
  let ?em = "errorCounterMap w"
  have one: "n = m" if "?em n = Some c" "?em m = Some c" for n m c
    using i that unfolding counts_ok_def by blast
  then have inj: "inj_on ?em (dom ?em)"
    by (auto simp: inj_on_def dom_def)
  have "(\<lambda>n. the (?em n)) ` dom ?em = {..<length (ew_counts w)}"
  proof (intro equalityI subsetI)
    fix c
    assume "c \<in> {..<length (ew_counts w)}"
    then obtain n where "?em n = Some c"
      using i unfolding counts_ok_def by blast
    then show "c \<in> (\<lambda>n. the (?em n)) ` dom ?em"
      by (intro image_eqI [of _ _ n]) auto
  qed (use i in \<open>auto simp: counts_ok_def\<close>)
  moreover have "inj_on (\<lambda>n. the (?em n)) (dom ?em)"
    using one by (auto simp: inj_on_def)
  ultimately have "card (dom ?em) = length (ew_counts w)"
    using card_image by (metis card_lessThan)
  then show ?thesis
    using i inj by (auto simp: counts_ok_def split: option.splits)
qed

theorem plugin_errors_counted_witness:
  "\<exists>w. error_step\<^sup>*\<^sup>* (ew_init [''http'', ''http'']) w \<and> errorCounterMap w ''http'' = Some 0 \<and>
     ew_counts w ! 0 = finished ''http'' (ew_calls w) \<and> finished ''http'' (ew_calls w) = 2"
proof -
  let ?w = "\<lambda>em cs mu p q. \<lparr>errorCounterMap = em, ew_counts = cs, ew_mu = mu, ew_calls = [(''http'', p), (''http'', q)]\<rparr>"
  let ?m = "[''http'' \<mapsto> 0 :: nat]"
  have steps:
    "error_step (?w Map.empty [] None EStart EStart) (?w Map.empty [] None EWait EStart)"
    "error_step (?w Map.empty [] None EWait EStart) (?w Map.empty [] None EWait EWait)"
    "error_step (?w Map.empty [] None EWait EWait) (?w Map.empty [] (Some 0) ELocked EWait)"
    "error_step (?w Map.empty [] (Some 0) ELocked EWait) (?w Map.empty [] (Some 0) EMiss EWait)"
    "error_step (?w Map.empty [] (Some 0) EMiss EWait) (?w ?m [0] (Some 0) (EStored 0) EWait)"
    "error_step (?w ?m [0] (Some 0) (EStored 0) EWait) (?w ?m [1] None EDone EWait)"
    "error_step (?w ?m [1] None EDone EWait) (?w ?m [1] (Some 1) EDone ELocked)"
    "error_step (?w ?m [1] (Some 1) EDone ELocked) (?w ?m [2] None EDone EDone)"
    using e_miss [of 0 "?w Map.empty [] None EStart EStart"] e_miss [of 1 "?w Map.empty [] None EWait EStart"]
      e_lock [of 0 "?w Map.empty [] None EWait EWait"] e_still [of 0 "?w Map.empty [] (Some 0) ELocked EWait"]
      e_store [of 0 "?w Map.empty [] (Some 0) EMiss EWait"] e_count [of 0 "?w ?m [0] (Some 0) (EStored 0) EWait"]
      e_lock [of 1 "?w ?m [1] None EDone EWait"] e_again [of 1 "?w ?m [1] (Some 1) EDone ELocked"]
    by (simp_all add: numeral_2_eq_2)
  have "error_step\<^sup>*\<^sup>* (?w Map.empty [] None EStart EStart) (?w ?m [2] None EDone EDone)"
    by (rule converse_rtranclp_into_rtranclp, rule steps)+ (rule rtranclp.rtrancl_refl)
  then have r: "error_step\<^sup>*\<^sup>* (ew_init [''http'', ''http'']) (?w ?m [2] None EDone EDone)"
    by (simp add: ew_init_def)
  show ?thesis
    using r plugin_errors_counted [OF r] by (intro exI [of _ "?w ?m [2] None EDone EDone"]) (simp add: finished_def)
qed

end
