(* ===== verification/Meter_Registry.thy ===== *)
theory Meter_Registry
  imports Meters Transform
begin

text \<open>
  The meters as objects: those of the core (plugins/core/metrics.go), the stand-ins that programs
  create before the agent exists (plugins/core/metrics/bridge.go and metrics.go), how
  reachNotInitMetrics connects the ones to the others, and what sendMetrics reports.  Objects are
  positions in the lists of a world.  The counts of a histogram are cells of their own, because a
  stand-in and the histogram of the core share them.  ord is the order of Go's range over labels.
\<close>

datatype core_meter = CoreCounter nat | CoreGauge nat | CoreHistogram nat

datatype stand_in = InitCounter nat | InitGauge nat | InitHistogram nat

record 'f core_counter =
  kc_name :: string
  kc_labels :: "string \<rightharpoonup> string"
  kc_counter :: "'f counter"

record gauge =
  ga_name :: string
  ga_labels :: "string \<rightharpoonup> string"
  ga_getter :: "nat"

record 'f histogram =
  hi_name :: string
  hi_labels :: "string \<rightharpoonup> string"
  hi_buckets :: "('f \<times> nat) list"

text \<open>A stand-in keeps its own value until ChangeFunctions connects it.\<close>

record 'f init_counter =
  ic_name :: string
  ic_labels :: "string \<rightharpoonup> string"
  ic_val :: 'f
  ic_core :: "nat option"

record 'f meter_world =
  mw_counters :: "'f core_counter list"
  mw_gauges :: "gauge list"
  mw_histograms :: "'f histogram list"
  mw_init_counters :: "'f init_counter list"
  mw_init_gauges :: "gauge list"
  mw_init_histograms :: "'f histogram list"
  mw_cells :: "u64 list"
  mw_registers :: "stand_in list"
  mw_init_hooks :: "nat list"
  meterMap :: "string \<rightharpoonup> core_meter"
  meterCollectListeners :: "nat list"

section \<open>Meters of the core\<close>

definition add_counter ::
  "string \<Rightarrow> (string \<rightharpoonup> string) \<Rightarrow> 'f counter \<Rightarrow> 'f meter_world \<Rightarrow> 'f meter_world \<times> core_meter" where
  "add_counter name labels c w =
     (w\<lparr>mw_counters := mw_counters w @ [\<lparr>kc_name = name, kc_labels = labels, kc_counter = c\<rparr>]\<rparr>,
      CoreCounter (length (mw_counters w)))"

definition register_meter ::
  "((string \<rightharpoonup> string) \<Rightarrow> string list) \<Rightarrow> string \<Rightarrow> (string \<rightharpoonup> string) \<Rightarrow> 'f meter_world \<times> core_meter \<Rightarrow> 'f meter_world \<times> core_meter" where
  "register_meter ord name labels wm =
     (case wm of (w, m) \<Rightarrow> (w\<lparr>meterMap := registerMetrics (ord labels) name labels m (meterMap w)\<rparr>, m))"

definition NewCounter ::
  "((string \<rightharpoonup> string) \<Rightarrow> string list) \<Rightarrow> 'f counter_ops \<Rightarrow> string \<Rightarrow> (string \<rightharpoonup> string) \<Rightarrow> 'f meter_world \<Rightarrow> 'f meter_world \<times> core_meter" where
  "NewCounter ord fl name labels w = register_meter ord name labels (add_counter name labels (newCounter fl (zero_f fl)) w)"

definition NewGauge ::
  "((string \<rightharpoonup> string) \<Rightarrow> string list) \<Rightarrow> string \<Rightarrow> nat \<Rightarrow> (string \<rightharpoonup> string) \<Rightarrow> 'f meter_world \<Rightarrow> 'f meter_world \<times> core_meter" where
  "NewGauge ord name getter labels w =
     register_meter ord name labels
       (w\<lparr>mw_gauges := mw_gauges w @ [\<lparr>ga_name = name, ga_labels = labels, ga_getter = getter\<rparr>]\<rparr>,
        CoreGauge (length (mw_gauges w)))"

text \<open>Fresh cells for the buckets of a histogram.\<close>

definition new_cells :: "'f buckets \<Rightarrow> 'f meter_world \<Rightarrow> 'f meter_world \<times> ('f \<times> nat) list" where
  "new_cells bs w =
     (w\<lparr>mw_cells := mw_cells w @ map snd bs\<rparr>, zip (map fst bs) [length (mw_cells w)..<length (mw_cells w) + length bs])"

definition NewHistogram ::
  "((string \<rightharpoonup> string) \<Rightarrow> string list) \<Rightarrow> string \<Rightarrow> 'f::linorder \<Rightarrow> 'f list \<Rightarrow> (string \<rightharpoonup> string) \<Rightarrow> 'f meter_world \<Rightarrow>
   (meter_panic, 'f meter_world \<times> core_meter) result" where
  "NewHistogram ord name minValue steps labels w =
     (case newHistogramFromSteps minValue steps of
        Inl p \<Rightarrow> Err p
      | Inr bs \<Rightarrow>
          (case new_cells bs w of
             (w, cells) \<Rightarrow>
               Ok (register_meter ord name labels
                 (w\<lparr>mw_histograms := mw_histograms w @ [\<lparr>hi_name = name, hi_labels = labels, hi_buckets = cells\<rparr>]\<rparr>,
                  CoreHistogram (length (mw_histograms w))))))"

definition AddCollectHook :: "nat \<Rightarrow> 'f meter_world \<Rightarrow> 'f meter_world" where
  "AddCollectHook f w = w\<lparr>meterCollectListeners := meterCollectListeners w @ [f]\<rparr>"

section \<open>Stand-ins\<close>

definition newDefaultCounter ::
  "'f counter_ops \<Rightarrow> string \<Rightarrow> (string \<rightharpoonup> string) \<Rightarrow> 'f meter_world \<Rightarrow> 'f meter_world \<times> nat" where
  "newDefaultCounter fl name labels w =
     (w\<lparr>mw_init_counters := mw_init_counters w @ [\<lparr>ic_name = name, ic_labels = labels, ic_val = zero_f fl, ic_core = None\<rparr>],
        mw_registers := mw_registers w @ [InitCounter (length (mw_init_counters w))]\<rparr>,
      length (mw_init_counters w))"

definition newDefaultGauge ::
  "string \<Rightarrow> nat \<Rightarrow> (string \<rightharpoonup> string) \<Rightarrow> 'f meter_world \<Rightarrow> 'f meter_world \<times> nat" where
  "newDefaultGauge name getter labels w =
     (w\<lparr>mw_init_gauges := mw_init_gauges w @ [\<lparr>ga_name = name, ga_labels = labels, ga_getter = getter\<rparr>],
        mw_registers := mw_registers w @ [InitGauge (length (mw_init_gauges w))]\<rparr>,
      length (mw_init_gauges w))"

definition newDefaultHistogram ::
  "string \<Rightarrow> 'f::linorder \<Rightarrow> 'f list \<Rightarrow> (string \<rightharpoonup> string) \<Rightarrow> 'f meter_world \<Rightarrow> (meter_panic, 'f meter_world \<times> nat) result" where
  "newDefaultHistogram name minVal steps labels w =
     (case initBuckets minVal steps of
        Inl p \<Rightarrow> Err p
      | Inr bs \<Rightarrow>
          (case new_cells bs w of
             (w, cells) \<Rightarrow>
               Ok (w\<lparr>mw_init_histograms := mw_init_histograms w @ [\<lparr>hi_name = name, hi_labels = labels, hi_buckets = cells\<rparr>],
                     mw_registers := mw_registers w @ [InitHistogram (length (mw_init_histograms w))]\<rparr>,
                   length (mw_init_histograms w))))"

definition init_counter_Get :: "'f counter_ops \<Rightarrow> 'f meter_world \<Rightarrow> nat \<Rightarrow> 'f" where
  "init_counter_Get fl w i =
     (case ic_core (mw_init_counters w ! i) of
        None \<Rightarrow> ic_val (mw_init_counters w ! i)
      | Some c \<Rightarrow> counter_Get fl (kc_counter (mw_counters w ! c)))"

definition init_counter_Inc :: "'f counter_ops \<Rightarrow> 'f \<Rightarrow> nat \<Rightarrow> 'f meter_world \<Rightarrow> 'f meter_world" where
  "init_counter_Inc fl v i w =
     (let s = mw_init_counters w ! i
      in case ic_core s of
           None \<Rightarrow> w\<lparr>mw_init_counters := (mw_init_counters w)[i := s\<lparr>ic_val := default_counter_Inc fl v (ic_val s)\<rparr>]\<rparr>
         | Some c \<Rightarrow>
             (let k = mw_counters w ! c
              in w\<lparr>mw_counters := (mw_counters w)[c := k\<lparr>kc_counter := counter_Inc fl v (kc_counter k)\<rparr>]\<rparr>))"

text \<open>Observing changes a cell, for a stand-in and for a histogram of the core alike.\<close>

definition observe_cells :: "'f::linorder \<Rightarrow> u64 \<Rightarrow> ('f \<times> nat) list \<Rightarrow> u64 list \<Rightarrow> u64 list" where
  "observe_cells v c bs cells =
     (case findBucket (map fst bs) v of
        None \<Rightarrow> cells
      | Some i \<Rightarrow> cells[snd (bs ! i) := cells ! snd (bs ! i) + c])"

section \<open>Connecting them\<close>

definition reach_one ::
  "((string \<rightharpoonup> string) \<Rightarrow> string list) \<Rightarrow> 'f counter_ops \<Rightarrow> stand_in \<Rightarrow> 'f meter_world \<Rightarrow> 'f meter_world" where
  "reach_one ord fl m w =
     (case m of
        InitCounter i \<Rightarrow>
          (let s = mw_init_counters w ! i;
               w1 = fst (add_counter (ic_name s) (ic_labels s) (newCounter fl (init_counter_Get fl w i)) w);
               c = length (mw_counters w);
               w2 = w1\<lparr>mw_init_counters := (mw_init_counters w1)[i := s\<lparr>ic_core := Some c\<rparr>]\<rparr>
           in fst (register_meter ord (ic_name s) (ic_labels s) (w2, CoreCounter c)))
      | InitGauge i \<Rightarrow>
          (let s = mw_init_gauges w ! i
           in fst (NewGauge ord (ga_name s) (ga_getter s) (ga_labels s) w))
      | InitHistogram i \<Rightarrow>
          (let s = mw_init_histograms w ! i
           in fst (register_meter ord (hi_name s) (hi_labels s)
                (w\<lparr>mw_histograms := mw_histograms w @ [\<lparr>hi_name = hi_name s, hi_labels = hi_labels s, hi_buckets = hi_buckets s\<rparr>]\<rparr>,
                 CoreHistogram (length (mw_histograms w))))))"

definition reachNotInitMetrics ::
  "((string \<rightharpoonup> string) \<Rightarrow> string list) \<Rightarrow> 'f counter_ops \<Rightarrow> 'f meter_world \<Rightarrow> 'f meter_world" where
  "reachNotInitMetrics ord fl w =
     (let registers = mw_registers w; hooks = mw_init_hooks w;
          w = w\<lparr>mw_registers := [], mw_init_hooks := []\<rparr>
      in fold AddCollectHook hooks (fold (reach_one ord fl) registers w))"

text \<open>sendMetrics reports the meters of the map, in the order ks of Go's range over it.\<close>

definition reported ::
  "'f counter_ops \<Rightarrow> (nat \<Rightarrow> 'f) \<Rightarrow> 'f meter_world \<Rightarrow> core_meter \<Rightarrow> 'f reported_meter" where
  "reported fl getters w m =
     (case m of
        CoreCounter c \<Rightarrow>
          (let k = mw_counters w ! c in SingleValue (kc_name k) (kc_labels k) (counter_Get fl (kc_counter k)))
      | CoreGauge g \<Rightarrow> (let k = mw_gauges w ! g in SingleValue (ga_name k) (ga_labels k) (getters (ga_getter k)))
      | CoreHistogram h \<Rightarrow>
          (let k = mw_histograms w ! h
           in HistogramMeter (hi_name k) (hi_labels k) (map (\<lambda>(b, i). (b, mw_cells w ! i)) (hi_buckets k))))"

definition sendMetrics ::
  "string list \<Rightarrow> 'f counter_ops \<Rightarrow> (nat \<Rightarrow> 'f) \<Rightarrow> 'f meter_world \<Rightarrow> 'f reported_meter list" where
  "sendMetrics ks fl getters w = map (\<lambda>k. reported fl getters w (the (meterMap w k))) ks"

section \<open>Nothing counted before the start is lost\<close>

definition exact :: "'f counter_ops \<Rightarrow> bool" where
  "exact fl \<longleftrightarrow> (\<forall>v. plus_f fl v (of_uint fl 0) = v) \<and> (\<forall>i. plus_f fl (zero_f fl) (of_uint fl i) = of_uint fl i)"

lemma newCounter_Get: "exact fl \<Longrightarrow> counter_Get fl (newCounter fl v) = v"
  unfolding exact_def newCounter_def counter_Get_def Let_def by (cases "of_uint fl (to_uint fl v) = v") (simp, metis, simp)

definition linked_ok :: "'f meter_world \<Rightarrow> bool" where
  "linked_ok w \<longleftrightarrow> (\<forall>i<length (mw_init_counters w). \<forall>c. ic_core (mw_init_counters w ! i) = Some c \<longrightarrow> c < length (mw_counters w))"

text \<open>What a stand-in shows: its name, its labels, its value.\<close>

definition shown :: "'f counter_ops \<Rightarrow> 'f meter_world \<Rightarrow> nat \<Rightarrow> string \<times> (string \<rightharpoonup> string) \<times> 'f" where
  "shown fl w i = (ic_name (mw_init_counters w ! i), ic_labels (mw_init_counters w ! i), init_counter_Get fl w i)"

definition linked_to :: "'f counter_ops \<Rightarrow> 'f meter_world \<Rightarrow> nat \<Rightarrow> bool" where
  "linked_to fl w i \<longleftrightarrow>
     (\<exists>c. ic_core (mw_init_counters w ! i) = Some c \<and> c < length (mw_counters w) \<and>
          reported fl (\<lambda>_. zero_f fl) w (CoreCounter c) =
            SingleValue (ic_name (mw_init_counters w ! i)) (ic_labels (mw_init_counters w ! i)) (init_counter_Get fl w i))"

lemma reach_one_frame:
  assumes "linked_ok w" "exact fl" "case m of InitCounter i \<Rightarrow> i < length (mw_init_counters w) | _ \<Rightarrow> True"
  shows "linked_ok (reach_one ord fl m w) \<and> length (mw_init_counters (reach_one ord fl m w)) = length (mw_init_counters w) \<and>
         mw_cells (reach_one ord fl m w) = mw_cells w \<and>
         (\<forall>i<length (mw_init_counters w). shown fl (reach_one ord fl m w) i = shown fl w i \<and>
            (linked_to fl w i \<longrightarrow> linked_to fl (reach_one ord fl m w) i))"
proof (cases m)
  case (InitCounter j)
  then show ?thesis
    using assms newCounter_Get [OF assms(2)]
    by (auto simp: reach_one_def add_counter_def register_meter_def linked_ok_def shown_def linked_to_def init_counter_Get_def
        reported_def nth_append nth_list_update Let_def less_Suc_eq split: option.splits)
qed (use assms in \<open>auto simp: reach_one_def NewGauge_def register_meter_def linked_ok_def shown_def linked_to_def
      init_counter_Get_def reported_def Let_def split: option.splits\<close>)

definition valid_pending :: "'f meter_world \<Rightarrow> stand_in list \<Rightarrow> bool" where
  "valid_pending w ms \<longleftrightarrow> (\<forall>i. InitCounter i \<in> set ms \<longrightarrow> i < length (mw_init_counters w))"

lemma reach_one_links:
  assumes "linked_ok w" "exact fl" "i < length (mw_init_counters w)"
  shows "linked_to fl (reach_one ord fl (InitCounter i) w) i"
  using assms newCounter_Get [OF assms(2)]
  by (auto simp: reach_one_def add_counter_def register_meter_def linked_to_def init_counter_Get_def reported_def nth_append Let_def)

lemma reach_fold:
  assumes "linked_ok w" "exact fl" "valid_pending w ms"
  shows "length (mw_init_counters (fold (reach_one ord fl) ms w)) = length (mw_init_counters w) \<and>
         mw_cells (fold (reach_one ord fl) ms w) = mw_cells w \<and>
         (\<forall>i<length (mw_init_counters w). shown fl (fold (reach_one ord fl) ms w) i = shown fl w i \<and>
            (linked_to fl w i \<or> InitCounter i \<in> set ms \<longrightarrow> linked_to fl (fold (reach_one ord fl) ms w) i))"
  using assms
proof (induction ms arbitrary: w)
  case (Cons m ms)
  let ?w = "reach_one ord fl m w"
  have c: "case m of InitCounter i \<Rightarrow> i < length (mw_init_counters w) | _ \<Rightarrow> True"
    using Cons.prems(3) by (auto simp: valid_pending_def split: stand_in.splits)
  note fr = reach_one_frame [OF Cons.prems(1,2) c, of ord]
  have v: "valid_pending ?w ms"
    using Cons.prems(3) fr by (simp add: valid_pending_def)
  have IH: "length (mw_init_counters (fold (reach_one ord fl) ms ?w)) = length (mw_init_counters ?w) \<and>
         mw_cells (fold (reach_one ord fl) ms ?w) = mw_cells ?w \<and>
         (\<forall>i<length (mw_init_counters ?w). shown fl (fold (reach_one ord fl) ms ?w) i = shown fl ?w i \<and>
            (linked_to fl ?w i \<or> InitCounter i \<in> set ms \<longrightarrow> linked_to fl (fold (reach_one ord fl) ms ?w) i))"
    using Cons.IH [OF _ Cons.prems(2) v] fr by blast
  have "linked_to fl ?w i" if "m = InitCounter i" "i < length (mw_init_counters w)" for i
    using that reach_one_links [OF Cons.prems(1,2)] by simp
  then show ?case
    using IH fr by auto
qed simp

lemma hooks_frame:
  "mw_init_counters (fold AddCollectHook hs w) = mw_init_counters w" "mw_counters (fold AddCollectHook hs w) = mw_counters w"
  "mw_cells (fold AddCollectHook hs w) = mw_cells w"
  "meterCollectListeners (fold AddCollectHook hs w) = meterCollectListeners w @ hs"
  by (induction hs arbitrary: w) (simp_all add: AddCollectHook_def)

lemma hooks_shown [simp]:
  "shown fl (fold AddCollectHook hs w) i = shown fl w i" "linked_to fl (fold AddCollectHook hs w) i = linked_to fl w i"
  by (simp_all add: shown_def linked_to_def init_counter_Get_def reported_def hooks_frame split: option.splits)

text \<open>
  What was counted before the agent existed is kept: connecting the stand-ins changes the value
  of none of them, every waiting stand-in counter is then backed by a counter of the core that
  reports its name, its labels and its value, and the counts of the histograms are untouched.
\<close>
theorem early_meters_kept:
  assumes "linked_ok w" "exact fl" "valid_pending w (mw_registers w)" "i < length (mw_init_counters w)"
  shows "shown fl (reachNotInitMetrics ord fl w) i = shown fl w i \<and>
         (InitCounter i \<in> set (mw_registers w) \<longrightarrow> linked_to fl (reachNotInitMetrics ord fl w) i) \<and>
         mw_cells (reachNotInitMetrics ord fl w) = mw_cells w"
proof -
  let ?w = "w\<lparr>mw_registers := [], mw_init_hooks := []\<rparr>"
  have s: "linked_ok ?w" "valid_pending ?w (mw_registers w)" "shown fl ?w i = shown fl w i"
    using assms by (simp_all add: linked_ok_def valid_pending_def shown_def init_counter_Get_def split: option.split)
  show ?thesis
    using reach_fold [OF s(1) assms(2) s(2), of ord] assms(4) s(3)
    by (simp add: reachNotInitMetrics_def Let_def hooks_frame)
qed

definition no_meters :: "'f meter_world" where
  "no_meters = \<lparr>mw_counters = [], mw_gauges = [], mw_histograms = [], mw_init_counters = [], mw_init_gauges = [],
     mw_init_histograms = [], mw_cells = [], mw_registers = [], mw_init_hooks = [], meterMap = Map.empty,
     meterCollectListeners = []\<rparr>"

theorem early_meters_kept_witness:
  "shown int_ops (reachNotInitMetrics (\<lambda>_. []) int_ops
       (init_counter_Inc int_ops 5 0 (fst (newDefaultCounter int_ops ''c'' Map.empty no_meters)))) 0 = (''c'', Map.empty, 5)"
proof -
  let ?w = "init_counter_Inc int_ops 5 0 (fst (newDefaultCounter int_ops ''c'' Map.empty no_meters))"
  have w: "linked_ok ?w" "exact int_ops" "valid_pending ?w (mw_registers ?w)" "0 < length (mw_init_counters ?w)"
    "shown int_ops ?w 0 = (''c'', Map.empty, 5)"
    by (simp_all add: init_counter_Inc_def newDefaultCounter_def no_meters_def int_ops_def default_counter_Inc_def linked_ok_def
        exact_def valid_pending_def shown_def init_counter_Get_def Let_def)
  show ?thesis
    using early_meters_kept [OF w(1-4), of "\<lambda>_. []"] w(5) by simp
qed

text \<open>
  Two meters with one name and the same labels replace each other: the second NewCounter takes the
  place of the first, and what the first counts is not reported any more.
\<close>

lemma same_name_replaces:
  assumes "NewCounter ord fl name labels w = (w1, CoreCounter a)" "NewCounter ord fl name labels w1 = (w2, CoreCounter b)"
    and "\<forall>c. CoreCounter c \<in> ran (meterMap w) \<longrightarrow> c < length (mw_counters w)"
  shows "meterMap w2 (meter_key (ord labels) labels name) = Some (CoreCounter b) \<and> CoreCounter a \<notin> ran (meterMap w2)"
proof -
  let ?key = "meter_key (ord labels) labels name"
  have a: "a = length (mw_counters w)" "b = Suc a" "meterMap w2 = (meterMap w)(?key \<mapsto> CoreCounter b)"
    using assms(1,2) by (auto simp: NewCounter_def add_counter_def register_meter_def registerMetrics_def)
  have "CoreCounter a \<notin> ran (meterMap w)"
    using assms(3) a(1) by auto
  then show ?thesis
    using a by (auto simp: ran_def)
qed

end
