(* ===== verification/Log_Report.thy ===== *)
theory Log_Report
  imports Tracing_Heap
begin

text \<open>
  Log correlation (plugins/core/logreport.go): the context a log line is given from the active span,
  with the search for an endpoint name along the parents, and the log record that is sent.  The heap
  is that of theory Tracing.  ord is the order of Go's range over labels; times are nanoseconds.
\<close>

section \<open>Span accessors\<close>

definition noopContextValue :: string where "noopContextValue = ''N/A''"

definition GetOperationName :: "tspan \<Rightarrow> string" where
  "GetOperationName s = (case s of SegSpan k ds sx \<Rightarrow> ds_OperationName ds | NoopSpan n \<Rightarrow> [])"

definition GetTraceID :: "tspan \<Rightarrow> string" where
  "GetTraceID s = (case s of SegSpan k ds sx \<Rightarrow> sx_TraceID sx | NoopSpan n \<Rightarrow> noopContextValue)"

definition GetSegmentID :: "tspan \<Rightarrow> string" where
  "GetSegmentID s = (case s of SegSpan k ds sx \<Rightarrow> sx_SegmentID sx | NoopSpan n \<Rightarrow> noopContextValue)"

definition GetSpanID :: "tspan \<Rightarrow> i32" where
  "GetSpanID s = (case s of SegSpan k ds sx \<Rightarrow> sx_SpanID sx | NoopSpan n \<Rightarrow> -1)"

section \<open>The endpoint of a log line\<close>

text \<open>findEndpointNameBySpan: the loop may go on forever on a heap whose parents form a cycle.\<close>

partial_function (option) findEndpointNameBySpan :: "tspan list \<Rightarrow> nat option \<Rightarrow> string option" where
  "findEndpointNameBySpan spans tmp =
     (case tmp of
        None \<Rightarrow> Some []
      | Some a \<Rightarrow>
          if GetOperationName (spans ! a) \<noteq> [] then Some (GetOperationName (spans ! a))
          else findEndpointNameBySpan spans (parent_of (spans ! a)))"

text \<open>The k-th ancestor of a span.\<close>

fun ancestor :: "tspan list \<Rightarrow> nat \<Rightarrow> nat option \<Rightarrow> nat option" where
  "ancestor spans 0 t = t"
| "ancestor spans (Suc k) t = (case t of None \<Rightarrow> None | Some a \<Rightarrow> ancestor spans k (parent_of (spans ! a)))"

definition older_parents :: "tspan list \<Rightarrow> bool" where
  "older_parents spans \<longleftrightarrow> (\<forall>a<length spans. active_ok a (parent_of (spans ! a)))"

lemma ancestor_None [simp]: "ancestor spans k None = None"
  by (cases k) simp_all

lemma find_endpoint_spec:
  assumes "older_parents spans" "a < length spans"
  shows "\<exists>n. findEndpointNameBySpan spans (Some a) = Some n \<and>
    (n = [] \<longrightarrow> (\<forall>k b. ancestor spans k (Some a) = Some b \<longrightarrow> GetOperationName (spans ! b) = [])) \<and>
    (n \<noteq> [] \<longrightarrow> (\<exists>k b. ancestor spans k (Some a) = Some b \<and> GetOperationName (spans ! b) = n \<and>
       (\<forall>j<k. \<forall>c. ancestor spans j (Some a) = Some c \<longrightarrow> GetOperationName (spans ! c) = [])))"
  using assms(2)
proof (induction a rule: less_induct)
  case (less a)
  show ?case
  proof (cases "GetOperationName (spans ! a) \<noteq> []")
    case True
    then show ?thesis
      by (subst findEndpointNameBySpan.simps) (simp, intro exI [of _ 0] exI [of _ a], simp)
  next
    case name: False
    then have step: "findEndpointNameBySpan spans (Some a) = findEndpointNameBySpan spans (parent_of (spans ! a))"
      by (subst findEndpointNameBySpan.simps) simp
    show ?thesis
    proof (cases "parent_of (spans ! a)")
      case None
      have "GetOperationName (spans ! b) = []" if "ancestor spans k (Some a) = Some b" for k b
        using that name None by (cases k) simp_all
      then show ?thesis
        unfolding step None by (subst findEndpointNameBySpan.simps) simp
    next
      case (Some p)
      have p: "p < a" "p < length spans"
        using assms(1) less.prems Some by (auto simp: older_parents_def active_ok_def)
      have empty: "GetOperationName (spans ! b) = []"
        if "\<forall>k b. ancestor spans k (Some p) = Some b \<longrightarrow> GetOperationName (spans ! b) = []" "ancestor spans k (Some a) = Some b"
        for k b
        using that name Some by (cases k) auto
      obtain n where n: "findEndpointNameBySpan spans (Some p) = Some n"
        "n = [] \<longrightarrow> (\<forall>k b. ancestor spans k (Some p) = Some b \<longrightarrow> GetOperationName (spans ! b) = [])"
        "n \<noteq> [] \<longrightarrow> (\<exists>k b. ancestor spans k (Some p) = Some b \<and> GetOperationName (spans ! b) = n \<and>
           (\<forall>j<k. \<forall>c. ancestor spans j (Some p) = Some c \<longrightarrow> GetOperationName (spans ! c) = []))"
        using less.IH [OF p] by blast
      have "\<exists>k b. ancestor spans k (Some a) = Some b \<and> GetOperationName (spans ! b) = n \<and>
           (\<forall>j<k. \<forall>c. ancestor spans j (Some a) = Some c \<longrightarrow> GetOperationName (spans ! c) = [])" if "n \<noteq> []"
      proof -
        note nonempty = that
        obtain k b where k: "ancestor spans k (Some p) = Some b" "GetOperationName (spans ! b) = n"
          "\<forall>j<k. \<forall>c. ancestor spans j (Some p) = Some c \<longrightarrow> GetOperationName (spans ! c) = []"
          using n(3) nonempty by blast
        have "GetOperationName (spans ! c) = []" if "j < Suc k" "ancestor spans j (Some a) = Some c" for j c
          using that k(3) name Some by (cases j) auto
        then show ?thesis
          using k(1,2) Some by (intro exI [of _ "Suc k"] exI [of _ b]) auto
      qed
      then show ?thesis
        unfolding step Some using n(1,2) empty by blast
    qed
  qed
qed

section \<open>The context of a log line\<close>

record log_context =
  lc_ServiceName :: string
  lc_InstanceName :: string
  lc_TraceID :: string
  lc_TraceSegmentID :: string
  lc_SpanID :: i32
  lc_EndPoint :: string

text \<open>GetLogContext in goroutine g; entity is that of an initialised tracer.  None is not returning.\<close>

definition GetLogContext :: "(string \<times> string) option \<Rightarrow> nat \<Rightarrow> bool \<Rightarrow> 'v world \<Rightarrow> log_context option" where
  "GetLogContext entity g withEndpoint w =
     (let activeSpan = (case ActiveSpan g w of Some a \<Rightarrow> w_spans w ! a | None \<Rightarrow> NoopSpan 0);
          endpoint = (case ActiveSpan g w of
             Some a \<Rightarrow> if withEndpoint then findEndpointNameBySpan (w_spans w) (Some a) else Some []
           | None \<Rightarrow> Some []);
          (serviceName, instanceName) = (case entity of None \<Rightarrow> ([], []) | Some e \<Rightarrow> e)
      in map_option (\<lambda>endpoint.
           \<lparr>lc_ServiceName = serviceName, lc_InstanceName = instanceName, lc_TraceID = GetTraceID activeSpan,
            lc_TraceSegmentID = GetSegmentID activeSpan, lc_SpanID = GetSpanID activeSpan, lc_EndPoint = endpoint\<rparr>) endpoint)"

definition Millisecond :: "int \<Rightarrow> int" where
  "Millisecond t = (if t \<ge> 0 then t div 1000000 else - ((- t) div 1000000))"

record log_data =
  ld_Timestamp :: int
  ld_Service :: string
  ld_ServiceInstance :: string
  ld_Endpoint :: string
  ld_Text :: string
  ld_TraceId :: string
  ld_TraceSegmentId :: string
  ld_SpanId :: i32
  ld_Tags :: "(string \<times> string) list"
  ld_Layer :: string

text \<open>
  ReportLog: ctx is None when it is not a log context, timeObj None when it is not a time, with now
  as the fallback.  None is a call that sends nothing.
\<close>

definition ReportLog ::
  "((string \<rightharpoonup> string) \<Rightarrow> string list) \<Rightarrow> bool \<Rightarrow> int \<Rightarrow> log_context option \<Rightarrow> int option \<Rightarrow> string \<Rightarrow> string \<Rightarrow>
   (string \<rightharpoonup> string) \<Rightarrow> log_data option" where
  "ReportLog ord has_entity now ctx timeObj level msg labels =
     (case ctx of
        None \<Rightarrow> None
      | Some c \<Rightarrow>
          if \<not> has_entity then None
          else
            let timeData = (case timeObj of Some t \<Rightarrow> t | None \<Rightarrow> now)
            in Some \<lparr>ld_Timestamp = Millisecond timeData, ld_Service = lc_ServiceName c,
                     ld_ServiceInstance = lc_InstanceName c, ld_Endpoint = lc_EndPoint c, ld_Text = msg,
                     ld_TraceId = lc_TraceID c, ld_TraceSegmentId = lc_TraceSegmentID c, ld_SpanId = lc_SpanID c,
                     ld_Tags = (''LEVEL'', level) # map (\<lambda>k. (k, the (labels k))) (ord labels),
                     ld_Layer = ''GENERAL''\<rparr>)"

lemma wf_older: "wf_world w \<Longrightarrow> older_parents (w_spans w)"
  by (simp add: wf_world_def older_parents_def)

text \<open>
  C21. A log line always gets its context: after any tracing operations of any goroutines the search
  for the endpoint ends, because a parent is older than its span, and it finds the nearest name
  among the span and its ancestors; the ids are those of the active span, or the placeholders when
  there is none.
\<close>
theorem log_context_found:
  assumes "op_step\<^sup>*\<^sup>* empty_world w"
  shows "\<exists>c. GetLogContext entity g True w = Some c \<and>
    (case ActiveSpan g w of
       None \<Rightarrow> lc_EndPoint c = [] \<and> lc_TraceID c = ''N/A'' \<and> lc_SpanID c = -1
     | Some a \<Rightarrow>
         lc_TraceID c = GetTraceID (w_spans w ! a) \<and> lc_TraceSegmentID c = GetSegmentID (w_spans w ! a) \<and>
         lc_SpanID c = GetSpanID (w_spans w ! a) \<and>
         (lc_EndPoint c = [] \<longrightarrow>
            (\<forall>k b. ancestor (w_spans w) k (Some a) = Some b \<longrightarrow> GetOperationName (w_spans w ! b) = [])) \<and>
         (lc_EndPoint c \<noteq> [] \<longrightarrow>
            (\<exists>k b. ancestor (w_spans w) k (Some a) = Some b \<and> GetOperationName (w_spans w ! b) = lc_EndPoint c \<and>
               (\<forall>j<k. \<forall>d. ancestor (w_spans w) j (Some a) = Some d \<longrightarrow> GetOperationName (w_spans w ! d) = []))))"
proof -
  have "wf_world w"
    using assms by (induction rule: rtranclp_induct) (auto simp: wf_empty dest: wf_op_step)
  then have o: "older_parents (w_spans w)" and a: "\<And>a. ActiveSpan g w = Some a \<Longrightarrow> a < length (w_spans w)"
    using wf_older wf_active by blast+
  show ?thesis
  proof (cases "ActiveSpan g w")
    case None
    then show ?thesis
      by (simp add: GetLogContext_def GetTraceID_def GetSpanID_def noopContextValue_def split_beta)
  next
    case (Some b)
    obtain n where n: "findEndpointNameBySpan (w_spans w) (Some b) = Some n"
      "n = [] \<longrightarrow> (\<forall>k c. ancestor (w_spans w) k (Some b) = Some c \<longrightarrow> GetOperationName (w_spans w ! c) = [])"
      "n \<noteq> [] \<longrightarrow> (\<exists>k c. ancestor (w_spans w) k (Some b) = Some c \<and> GetOperationName (w_spans w ! c) = n \<and>
         (\<forall>j<k. \<forall>d. ancestor (w_spans w) j (Some b) = Some d \<longrightarrow> GetOperationName (w_spans w ! d) = []))"
      using find_endpoint_spec [OF o a [OF Some]] by blast
    obtain c where c: "GetLogContext entity g True w = Some c" "lc_TraceID c = GetTraceID (w_spans w ! b)"
      "lc_TraceSegmentID c = GetSegmentID (w_spans w ! b)" "lc_SpanID c = GetSpanID (w_spans w ! b)" "lc_EndPoint c = n"
      by (simp add: GetLogContext_def Some n(1) split_beta Let_def)
    show ?thesis
      using n(2,3) c(2-5) unfolding c(1) Some by simp
  qed
qed

theorem log_context_found_witness:
  "\<exists>c. GetLogContext None 0 True (empty_world :: nat world) = Some c \<and> lc_TraceID c = ''N/A''"
  using log_context_found [of "empty_world :: nat world" None 0]
  by (auto simp: ActiveSpan_def getTracingContext_def empty_world_def)

end
