(* ===== verification/Interceptor.thy ===== *)
theory Interceptor
  imports Prelude
begin

text \<open>
  The instrumented method: the statement inserted at the head of an intercepted method and the two
  adapter functions generated for it (the templates method_inserts, method_intercept_before and
  method_intercept_after of tools/go-agent/instrument/plugins), with the invocation object of
  plugins/core/operator/invocation.go.

  A value of type interface{} is 'v option, None being nil; the static types of parameters and
  results are predicates on values.  An interceptor is what it does to the invocation, a list of
  calls of its methods, and how it ends.  The method's own code is a function of its parameters and
  of the state 's of the program.  A recover in a function deferred by the second adapter does not
  stop a panic of the method itself: that adapter runs as a deferred function of the method, and its
  own deferred function is run by its return.
\<close>

section \<open>Invocations\<close>

record 'v invocation =
  iv_callerInstance :: "'v option"
  iv_args :: "'v option list"
  iv_isContinue :: bool
  iv_returnValues :: "'v option list"
  iv_context :: "'v option"
  iv_interTimeCost :: int
  iv_beforeInterStart :: int

datatype 'v inv_op = ChangeArg int "'v option" | DefineReturnValues "'v option list" | SetContext "'v option"

datatype inter_end = IReturn | IError | IPanic

record 'v method_sig =
  ms_recv :: bool
  ms_params :: "('v \<Rightarrow> bool) list"
  ms_results :: "('v \<Rightarrow> bool) list"
  ms_zeros :: "'v option list"

record 'v interceptor =
  BeforeInvoke :: "'v invocation \<Rightarrow> 'v inv_op list \<times> inter_end"
  AfterInvoke :: "'v invocation \<Rightarrow> 'v option list \<Rightarrow> 'v inv_op list \<times> inter_end"

text \<open>
  changeArgCallback: an index that names no parameter panics, and so does a value the type assertion
  refuses, nil among them.  None is a panic.
\<close>

definition change_arg :: "('v \<Rightarrow> bool) list \<Rightarrow> int \<Rightarrow> 'v option \<Rightarrow> 'v option list \<times> 'v invocation \<Rightarrow> ('v option list \<times> 'v invocation) option" where
  "change_arg types index value = (\<lambda>(params, iv).
     if index < 0 \<or> int (length types) \<le> index then None
     else (case value of
             None \<Rightarrow> None
           | Some x \<Rightarrow>
               if (types ! nat index) x
               then Some (params[nat index := Some x], iv\<lparr>iv_args := (iv_args iv)[nat index := Some x]\<rparr>)
               else None))"

definition apply_op :: "('v \<Rightarrow> bool) list \<Rightarrow> 'v inv_op \<Rightarrow> 'v option list \<times> 'v invocation \<Rightarrow> ('v option list \<times> 'v invocation) option" where
  "apply_op types oper pi =
     (case oper of
        ChangeArg index value \<Rightarrow> change_arg types index value pi
      | DefineReturnValues vs \<Rightarrow> Some (fst pi, (snd pi)\<lparr>iv_isContinue := True, iv_returnValues := vs\<rparr>)
      | SetContext c \<Rightarrow> Some (fst pi, (snd pi)\<lparr>iv_context := c\<rparr>))"

text \<open>The calls in order, up to the first that panics, and how the interceptor ended then.\<close>

fun run_ops :: "('v \<Rightarrow> bool) list \<Rightarrow> 'v inv_op list \<Rightarrow> inter_end \<Rightarrow> 'v option list \<times> 'v invocation \<Rightarrow> ('v option list \<times> 'v invocation) \<times> inter_end" where
  "run_ops types [] e pi = (pi, e)"
| "run_ops types (oper # ops) e pi =
     (case apply_op types oper pi of
        None \<Rightarrow> (pi, IPanic)
      | Some pi' \<Rightarrow> run_ops types ops e pi')"

text \<open>
  The assignments of the values an interceptor defined to result variables: a missing value is an
  index out of range, a value of another type fails its assertion; both panic, with the variables
  assigned so far.  nil stands for the zero value.
\<close>

fun assign_results :: "('v \<Rightarrow> bool) list \<Rightarrow> 'v option list \<Rightarrow> 'v option list \<Rightarrow> 'v option list \<Rightarrow> 'v option list \<times> bool" where
  "assign_results (t # ts) (z # zs) (r # rs) (v # vs) =
     (if (case v of None \<Rightarrow> True | Some x \<Rightarrow> t x)
      then (case assign_results ts zs rs vs of
              (rs', panics) \<Rightarrow> ((case v of None \<Rightarrow> z | Some x \<Rightarrow> v) # rs', panics))
      else (r # rs, True))"
| "assign_results (t # ts) zs rs [] = (rs, True)"
| "assign_results ts zs rs vs = (rs, False)"

section \<open>The adapters\<close>

datatype observation = ErrorOfPlugin | LogError | LogWarn | DurationOfInterceptor int

definition new_invocation :: "'v method_sig \<Rightarrow> int \<Rightarrow> 'v option \<Rightarrow> 'v option list \<Rightarrow> 'v invocation" where
  "new_invocation sg start recv params =
     \<lparr>iv_callerInstance = (if ms_recv sg then recv else None), iv_args = params, iv_isContinue = False,
      iv_returnValues = [], iv_context = None, iv_interTimeCost = 0, iv_beforeInterStart = start\<rparr>"

definition add_cost :: "int \<Rightarrow> 'v invocation \<Rightarrow> 'v invocation" where
  "add_cost now iv = iv\<lparr>iv_interTimeCost := iv_interTimeCost iv + (now - iv_beforeInterStart iv)\<rparr>"

text \<open>
  The first adapter: the parameters it leaves, its results, the invocation, whether the method is
  skipped, and what it reports.  After a panic the named results are their zero values.
\<close>

definition pre_adapter ::
  "'v method_sig \<Rightarrow> 'v interceptor \<Rightarrow> int \<Rightarrow> int \<Rightarrow> 'v option \<Rightarrow> 'v option list \<Rightarrow>
   'v option list \<times> 'v option list \<times> 'v invocation \<times> bool \<times> observation list" where
  "pre_adapter sg ic start now recv params =
     (let iv = new_invocation sg start recv params; (ops, e) = BeforeInvoke ic iv;
          ((params, iv), e) = run_ops (ms_params sg) ops e (params, iv)
      in case e of
           IPanic \<Rightarrow> (params, ms_zeros sg, add_cost now iv, False, [ErrorOfPlugin, LogError])
         | IError \<Rightarrow> (params, ms_zeros sg, add_cost now iv, False, [LogWarn])
         | IReturn \<Rightarrow>
             if iv_isContinue iv
             then (case assign_results (ms_results sg) (ms_zeros sg) (ms_zeros sg) (iv_returnValues iv) of
                     (rets, True) \<Rightarrow> (params, ms_zeros sg, add_cost now iv, False, [ErrorOfPlugin, LogError])
                   | (rets, False) \<Rightarrow> (params, rets, add_cost now iv, True, []))
             else (params, ms_zeros sg, add_cost now iv, False, []))"

text \<open>The second adapter: the result variables it leaves and what it reports.\<close>

definition post_adapter ::
  "'v method_sig \<Rightarrow> 'v interceptor \<Rightarrow> int \<Rightarrow> 'v option list \<Rightarrow> 'v invocation \<Rightarrow> 'v option list \<Rightarrow>
   'v option list \<times> observation list" where
  "post_adapter sg ic now params iv rets =
     (let (ops, e) = AfterInvoke ic iv rets;
          ((params, iv), e) = run_ops (ms_params sg) ops e (params, iv);
          dur = [DurationOfInterceptor (iv_interTimeCost (add_cost now iv))];
          warn = (if e = IError then [LogWarn] else [])
      in if e = IPanic then (rets, [ErrorOfPlugin, LogError] @ dur)
         else if iv_isContinue iv
         then (case assign_results (ms_results sg) (ms_zeros sg) rets (iv_returnValues iv) of
                 (rets, True) \<Rightarrow> (rets, warn @ [ErrorOfPlugin, LogError] @ dur)
               | (rets, False) \<Rightarrow> (rets, warn @ dur))
         else (rets, warn @ dur))"

section \<open>The instrumented call\<close>

text \<open>A panicking body leaves its result variables, which the deferred adapter sees.\<close>

datatype ('v, 'p) body_end = BReturn "'v option list" | BPanic 'p "'v option list"

datatype ('v, 'p) call_end = CReturned "'v option list" | CPanicked 'p

type_synonym ('v, 'p, 's) method_body = "'v option list \<Rightarrow> 's \<Rightarrow> 's \<times> ('v, 'p) body_end"

definition plain_call :: "('v, 'p, 's) method_body \<Rightarrow> 'v option list \<Rightarrow> 's \<Rightarrow> 's \<times> ('v, 'p) call_end" where
  "plain_call body params s =
     (case body params s of
        (s', BReturn rs) \<Rightarrow> (s', CReturned rs)
      | (s', BPanic p rs) \<Rightarrow> (s', CPanicked p))"

definition enhanced_call ::
  "'v method_sig \<Rightarrow> 'v interceptor \<Rightarrow> (nat \<Rightarrow> int) \<Rightarrow> ('v, 'p, 's) method_body \<Rightarrow> 'v option \<Rightarrow> 'v option list \<Rightarrow> 's \<Rightarrow>
   ('s \<times> ('v, 'p) call_end) \<times> observation list" where
  "enhanced_call sg ic clock body recv params s =
     (case pre_adapter sg ic (clock 0) (clock 1) recv params of
        (params', rets, iv, skip, obs) \<Rightarrow>
          if skip then ((s, CReturned rets), obs)
          else (case body params' s of
                  (s', BReturn rs) \<Rightarrow>
                    (case post_adapter sg ic (clock 2) params' iv rs of
                       (rs', obs') \<Rightarrow> ((s', CReturned rs'), obs @ obs'))
                | (s', BPanic p rs) \<Rightarrow>
                    (case post_adapter sg ic (clock 2) params' iv rs of
                       (rs', obs') \<Rightarrow> ((s', CPanicked p), obs @ obs'))))"

section \<open>Interceptors that only watch\<close>

fun watches :: "'v inv_op \<Rightarrow> bool" where
  "watches (SetContext c) = True"
| "watches _ = False"

definition watching :: "'v interceptor \<Rightarrow> bool" where
  "watching ic \<longleftrightarrow> (\<forall>iv. list_all watches (fst (BeforeInvoke ic iv))) \<and>
     (\<forall>iv rets. list_all watches (fst (AfterInvoke ic iv rets)))"

lemma new_invocation_simps [simp]:
  "\<not> iv_isContinue (new_invocation sg start recv params)"
  "iv_beforeInterStart (new_invocation sg start recv params) = start"
  "iv_interTimeCost (new_invocation sg start recv params) = 0"
  "iv_args (new_invocation sg start recv params) = params"
  by (simp_all add: new_invocation_def)

lemma add_cost_simps [simp]:
  "iv_isContinue (add_cost now iv) = iv_isContinue iv"
  "iv_returnValues (add_cost now iv) = iv_returnValues iv"
  "iv_beforeInterStart (add_cost now iv) = iv_beforeInterStart iv"
  "iv_interTimeCost (add_cost now iv) = iv_interTimeCost iv + (now - iv_beforeInterStart iv)"
  by (simp_all add: add_cost_def)

lemma run_watching:
  assumes "list_all watches ops" "run_ops types ops e (params, iv) = ((params', iv'), e')"
  shows "params' = params \<and> iv_isContinue iv' = iv_isContinue iv \<and> iv_returnValues iv' = iv_returnValues iv \<and> e' = e"
  using assms
proof (induction ops arbitrary: iv)
  case (Cons oper ops)
  then obtain c where "oper = SetContext c"
    by (cases oper) auto
  then show ?case
    using Cons.IH [of "iv\<lparr>iv_context := c\<rparr>"] Cons.prems by (simp add: apply_op_def)
qed simp

lemma watching_pre:
  assumes "watching ic" "pre_adapter sg ic start now recv params = (params', rets, iv, skip, obs)"
  shows "params' = params \<and> \<not> skip \<and> \<not> iv_isContinue iv"
proof -
  obtain ops e where b: "BeforeInvoke ic (new_invocation sg start recv params) = (ops, e)"
    by fastforce
  obtain p i e' where r: "run_ops (ms_params sg) ops e (params, new_invocation sg start recv params) = ((p, i), e')"
    by (metis surj_pair)
  have w: "list_all watches ops"
    using assms(1) b by (metis fst_conv watching_def)
  show ?thesis
    using assms(2) run_watching [OF w r]
    by (auto simp: pre_adapter_def Let_def b r split: inter_end.splits)
qed

lemma watching_post:
  assumes "watching ic" "\<not> iv_isContinue iv" "post_adapter sg ic now params iv rets = (rets', obs)"
  shows "rets' = rets"
proof -
  obtain ops e where a: "AfterInvoke ic iv rets = (ops, e)"
    by fastforce
  obtain p i e' where r: "run_ops (ms_params sg) ops e (params, iv) = ((p, i), e')"
    by (metis surj_pair)
  have w: "list_all watches ops"
    using assms(1) a by (metis fst_conv watching_def)
  show ?thesis
    using assms(2,3) run_watching [OF w r] by (auto simp: post_adapter_def Let_def a r split: if_splits)
qed

text \<open>
  C10. An interceptor that only watches is transparent: whether its two functions return, fail or
  panic, the method runs once on the arguments of the caller, its results and its panic reach the
  caller unchanged, and the state is the one the method leaves.
\<close>

theorem call_transparent:
  assumes "watching ic"
  shows "fst (enhanced_call sg ic clock body recv params s) = plain_call body params s"
proof -
  obtain params' rets iv skip obs where
    p: "pre_adapter sg ic (clock 0) (clock 1) recv params = (params', rets, iv, skip, obs)"
    by (metis surj_pair)
  note w = watching_pre [OF assms p]
  show ?thesis
    using w p watching_post [OF assms]
    by (auto simp: enhanced_call_def plain_call_def split: prod.splits body_end.splits)
qed

section \<open>Values an interceptor defines\<close>

definition fits :: "('v \<Rightarrow> bool) list \<Rightarrow> 'v option list \<Rightarrow> bool" where
  "fits types vs \<longleftrightarrow> length types \<le> length vs \<and>
     list_all2 (\<lambda>t v. case v of None \<Rightarrow> True | Some x \<Rightarrow> t x) types (take (length types) vs)"

definition defined :: "'v option list \<Rightarrow> 'v option list \<Rightarrow> 'v option list" where
  "defined zeros vs = map2 (\<lambda>z v. case v of None \<Rightarrow> z | Some x \<Rightarrow> v) zeros vs"

lemma assign_results_fit:
  assumes "length zs = length ts" "length rs = length ts"
  shows "snd (assign_results ts zs rs vs) = (\<not> fits ts vs) \<and>
         (fits ts vs \<longrightarrow> fst (assign_results ts zs rs vs) = defined zs vs)"
  using assms
proof (induction ts zs rs vs rule: assign_results.induct)
  case (1 t ts z zs r rs v vs)
  have f: "fits (t # ts) (v # vs) \<longleftrightarrow> (case v of None \<Rightarrow> True | Some x \<Rightarrow> t x) \<and> fits ts vs"
    by (auto simp: fits_def)
  show ?case
  proof (cases "case v of None \<Rightarrow> True | Some x \<Rightarrow> t x")
    case True
    then show ?thesis
      using 1 f by (simp add: defined_def split_beta split: option.splits)
  qed (simp add: f)
qed (auto simp: fits_def defined_def)

lemma post_watching:
  assumes "\<forall>iv rets. list_all watches (fst (AfterInvoke ic iv rets))"
  shows "fst (post_adapter sg ic now params iv rets) =
     (if snd (AfterInvoke ic iv rets) = IPanic \<or> \<not> iv_isContinue iv then rets
      else fst (assign_results (ms_results sg) (ms_zeros sg) rets (iv_returnValues iv)))"
proof -
  obtain ops e where a: "AfterInvoke ic iv rets = (ops, e)"
    by fastforce
  then have w: "list_all watches ops"
    using assms by (metis fst_conv)
  obtain p i e' where r: "run_ops (ms_params sg) ops e (params, iv) = ((p, i), e')"
    by (metis surj_pair)
  show ?thesis
    using run_watching [OF w r] by (auto simp: post_adapter_def Let_def a r split: prod.splits bool.splits)
qed


text \<open>One result of type number: the interceptor defines 7 and then panics, the method returns 1.\<close>

definition failing_interceptor :: "int interceptor" where
  "failing_interceptor = \<lparr>BeforeInvoke = \<lambda>iv. ([DefineReturnValues [Some 7]], IPanic), AfterInvoke = \<lambda>iv rets. ([], IReturn)\<rparr>"

definition one_result :: "int method_sig" where
  "one_result = \<lparr>ms_recv = False, ms_params = [], ms_results = [\<lambda>x. True], ms_zeros = [Some 0]\<rparr>"


theorem call_transparent_witness:
  "fst (enhanced_call one_result \<lparr>BeforeInvoke = \<lambda>iv. ([SetContext (Some 3)], IPanic), AfterInvoke = \<lambda>iv rets. ([], IError)\<rparr>
     (\<lambda>i. int i) (\<lambda>params s. (s + 1, BPanic ''p'' [Some 1])) None [] (0 :: nat)) = (1, CPanicked ''p'')"
  by (subst call_transparent) (simp_all add: watching_def plain_call_def)

section \<open>The time of an interceptor\<close>

text \<open>A BeforeInvoke that ended as it should and defined its values skips the method.\<close>

definition skipped :: "'v method_sig \<Rightarrow> 'v interceptor \<Rightarrow> (nat \<Rightarrow> int) \<Rightarrow> 'v option \<Rightarrow> 'v option list \<Rightarrow> bool" where
  "skipped sg ic clock recv params =
     (case pre_adapter sg ic (clock 0) (clock 1) recv params of (params', rets, iv, skip, obs) \<Rightarrow> skip)"

fun durations :: "observation list \<Rightarrow> int list" where
  "durations [] = []"
| "durations (DurationOfInterceptor d # obs) = d # durations obs"
| "durations (_ # obs) = durations obs"

lemma durations_append [simp]: "durations (obs @ obs') = durations obs @ durations obs'"
  by (induction obs rule: durations.induct) simp_all

lemma run_ops_times:
  assumes "run_ops types ops e (params, iv) = ((params', iv'), e')"
  shows "iv_interTimeCost iv' = iv_interTimeCost iv \<and> iv_beforeInterStart iv' = iv_beforeInterStart iv"
  using assms
proof (induction ops arbitrary: params iv)
  case (Cons oper ops)
  show ?case
  proof (cases "apply_op types oper (params, iv)")
    case (Some pi)
    then have "iv_interTimeCost (snd pi) = iv_interTimeCost iv \<and> iv_beforeInterStart (snd pi) = iv_beforeInterStart iv"
      by (auto simp: apply_op_def change_arg_def split: inv_op.splits if_splits option.splits)
    then show ?thesis
      using Some Cons.IH [of "fst pi" "snd pi"] Cons.prems by simp
  qed (use Cons.prems in simp)
qed simp

lemma pre_times:
  assumes "pre_adapter sg ic start now recv params = (params', rets, iv, skip, obs)"
  shows "iv_interTimeCost iv = now - start \<and> iv_beforeInterStart iv = start \<and> durations obs = []"
proof -
  obtain ops e where b: "BeforeInvoke ic (new_invocation sg start recv params) = (ops, e)"
    by fastforce
  obtain p i e' where r: "run_ops (ms_params sg) ops e (params, new_invocation sg start recv params) = ((p, i), e')"
    by (metis surj_pair)
  show ?thesis
    using assms run_ops_times [OF r]
    by (auto simp: pre_adapter_def Let_def b r split: inter_end.splits if_splits prod.splits bool.splits)
qed

lemma post_times:
  "durations (snd (post_adapter sg ic now params iv rets)) = [iv_interTimeCost iv + (now - iv_beforeInterStart iv)]"
proof -
  obtain ops e where a: "AfterInvoke ic iv rets = (ops, e)"
    by fastforce
  obtain p i e' where r: "run_ops (ms_params sg) ops e (params, iv) = ((p, i), e')"
    by (metis surj_pair)
  show ?thesis
    using run_ops_times [OF r] by (auto simp: post_adapter_def Let_def a r split: prod.splits bool.splits)
qed

text \<open>
  The duration reported for an interceptor is not the time spent in it: the clock is not read
  again before AfterInvoke, so the running time of the method itself is counted, and the time of
  BeforeInvoke twice; a skipped method reports nothing.
\<close>

theorem duration_counts_method:
  "durations (snd (enhanced_call sg ic clock body recv params s)) =
     (if skipped sg ic clock recv params then [] else [(clock 1 - clock 0) + (clock 2 - clock 0)])"
proof -
  obtain params' rets iv skip obs where
    p: "pre_adapter sg ic (clock 0) (clock 1) recv params = (params', rets, iv, skip, obs)"
    by (metis surj_pair)
  then show ?thesis
    using pre_times [OF p] post_times [of sg ic "clock 2" params' iv]
    by (auto simp: enhanced_call_def skipped_def p split: prod.splits body_end.splits)
      (metis snd_conv)+
qed

end
