(* ===== verification/Agent_Config.thy ===== *)
theory Agent_Config
  imports Strconv
begin

text \<open>
  The configuration of the agent at compile time (tools/go-agent/config/loader.go) and what the code
  generated from it computes when the program starts.

  A value of the file is \<open>${KEY:default}\<close> or plain text.  The environment is a function from names to
  values, the empty string standing for a variable that is not set, as for os.Getenv.  A generated
  function is modelled by what it returns; its literals are taken to be free of quotes, backslashes
  and newlines, which the generator does not escape.  Reading YAML is an argument.
\<close>

section \<open>A value with its environment variable\<close>

record string_value =
  EnvKey :: string
  Default :: string

definition no_value :: string_value where
  "no_value = \<lparr>EnvKey = [], Default = []\<rparr>"

text \<open>
  EnvRegularRegex: dollar, brace, one or more of [_A-Z0-9], a colon, a greedy run of characters that
  are no newline, a brace.  match_here tries it at the head of the string; FindStringSubmatch takes
  the leftmost match.
\<close>

definition is_env_char :: "char \<Rightarrow> bool" where
  "is_env_char c =
     (let n = of_char c :: nat in n = 95 \<or> (65 \<le> n \<and> n \<le> 90) \<or> (48 \<le> n \<and> n \<le> 57))"

definition newline :: char where
  "newline = CHR 0x0A"

definition match_value :: "string \<Rightarrow> string option" where
  "match_value d =
     (let line = takeWhile (\<lambda>c. c \<noteq> newline) d
      in case last_index CHR ''}'' line of
           None \<Rightarrow> None
         | Some i \<Rightarrow> Some (take i line))"

definition match_here :: "string \<Rightarrow> (string \<times> string) option" where
  "match_here s =
     (if has_prefix s ''${''
      then (let r = drop 2 s; env = takeWhile is_env_char r; r = dropWhile is_env_char r
            in if env = [] \<or> \<not> has_prefix r '':'' then None
               else (case match_value (drop 1 r) of
                       None \<Rightarrow> None
                     | Some d \<Rightarrow> Some (env, d)))
      else None)"

fun FindStringSubmatch :: "string \<Rightarrow> (string \<times> string) option" where
  "FindStringSubmatch [] = None"
| "FindStringSubmatch (c # s) =
     (case match_here (c # s) of
        Some g \<Rightarrow> Some g
      | None \<Rightarrow> FindStringSubmatch s)"

definition UnmarshalString :: "string \<Rightarrow> string_value \<Rightarrow> string_value" where
  "UnmarshalString val s =
     (case FindStringSubmatch val of
        None \<Rightarrow> s\<lparr>Default := val\<rparr>
      | Some (env, d) \<Rightarrow> s\<lparr>EnvKey := env, Default := d\<rparr>)"

definition overwriteValue :: "string_value \<Rightarrow> string_value \<Rightarrow> string_value" where
  "overwriteValue s other =
     (let s = (if EnvKey other \<noteq> [] then s\<lparr>EnvKey := EnvKey other\<rparr> else s)
      in if Default other \<noteq> [] then s\<lparr>Default := Default other\<rparr> else s)"

definition GetStringResult :: "(string \<Rightarrow> string) \<Rightarrow> string_value \<Rightarrow> string" where
  "GetStringResult getenv s =
     (let val = Default s
      in if EnvKey s \<noteq> [] \<and> getenv (EnvKey s) \<noteq> [] then getenv (EnvKey s) else val)"

definition GetListStringResult :: "(string \<Rightarrow> string) \<Rightarrow> string_value \<Rightarrow> string list" where
  "GetListStringResult getenv s =
     (let val = GetStringResult getenv s
      in if val = [] then [] else split_on CHR '','' val)"

section \<open>The generated functions\<close>

definition ToGoStringValue :: "(string \<Rightarrow> string) \<Rightarrow> string_value \<Rightarrow> string" where
  "ToGoStringValue getenv s =
     (if EnvKey s = [] then Default s
      else let tmpValue = getenv (EnvKey s)
           in if tmpValue = [] then Default s else tmpValue)"

definition splitResult :: "string \<Rightarrow> string list" where
  "splitResult s =
     (let t = split_on CHR '','' s
      in if length t = 1 \<and> t ! 0 = [] then [] else filter (\<lambda>v. v \<noteq> []) t)"

definition ToGoStringListValue :: "(string \<Rightarrow> string) \<Rightarrow> string_value \<Rightarrow> string list" where
  "ToGoStringListValue getenv s =
     (if EnvKey s = [] then splitResult (Default s)
      else let tmpValue = getenv (EnvKey s)
           in if tmpValue = [] then splitResult (Default s) else splitResult tmpValue)"

text \<open>
  The default of a number or a boolean is pasted into the code as it is: literal is its value as a
  Go expression of the type, None if the compiler refuses it, in which case there is no program to
  run.  A value of the environment that does not parse panics.
\<close>

datatype 'a go_run = NotCompiled | Panics | Returns 'a

definition as_constant :: "'a option \<Rightarrow> 'a go_run" where
  "as_constant c = (case c of None \<Rightarrow> NotCompiled | Some v \<Rightarrow> Returns v)"

definition ToGoIntValue :: "(string \<Rightarrow> int option) \<Rightarrow> (string \<Rightarrow> string) \<Rightarrow> string_value \<Rightarrow> int go_run" where
  "ToGoIntValue literal getenv s =
     (case literal (Default s) of
        None \<Rightarrow> NotCompiled
      | Some d \<Rightarrow>
          if EnvKey s = [] then Returns d
          else let tmpValue = getenv (EnvKey s)
               in if tmpValue = [] then Returns d
                  else (case atoi tmpValue of
                          (res, None) \<Rightarrow> Returns res
                        | (res, Some err) \<Rightarrow> Panics))"

text \<open>strconv.ParseFloat with bit size 64 is an argument.\<close>

definition ToGoFloatValue ::
  "(string \<Rightarrow> 'f option) \<Rightarrow> (string \<Rightarrow> 'f option) \<Rightarrow> (string \<Rightarrow> string) \<Rightarrow> string_value \<Rightarrow> 'f go_run" where
  "ToGoFloatValue literal parseFloat getenv s =
     (case literal (Default s) of
        None \<Rightarrow> NotCompiled
      | Some d \<Rightarrow>
          if EnvKey s = [] then Returns d
          else let tmpValue = getenv (EnvKey s)
               in if tmpValue = [] then Returns d
                  else (case parseFloat tmpValue of
                          None \<Rightarrow> Panics
                        | Some res \<Rightarrow> Returns res))"

definition to_lower :: "char \<Rightarrow> char" where
  "to_lower c = (let n = of_char c :: nat in if 65 \<le> n \<and> n \<le> 90 then char_of (n + 32) else c)"

definition equal_fold :: "string \<Rightarrow> string \<Rightarrow> bool" where
  "equal_fold s t \<longleftrightarrow> map to_lower s = map to_lower t"

definition ToGoBoolValue :: "(string \<Rightarrow> bool option) \<Rightarrow> (string \<Rightarrow> string) \<Rightarrow> string_value \<Rightarrow> bool go_run" where
  "ToGoBoolValue literal getenv s =
     (case literal (Default s) of
        None \<Rightarrow> NotCompiled
      | Some d \<Rightarrow>
          if EnvKey s = [] then Returns d
          else let tmpValue = getenv (EnvKey s)
               in if tmpValue = [] then Returns d else Returns (equal_fold tmpValue ''true''))"

section \<open>The language of the regular expression\<close>

definition env_match :: "string \<Rightarrow> string \<Rightarrow> string \<Rightarrow> string \<Rightarrow> string \<Rightarrow> bool" where
  "env_match val pre env d post \<longleftrightarrow>
     val = pre @ ''${'' @ env @ '':'' @ d @ ''}'' @ post \<and> env \<noteq> [] \<and> list_all is_env_char env \<and> newline \<notin> set d"

lemma colon_no_env [simp]: "\<not> is_env_char CHR '':''"
  by (simp add: is_env_char_def)

lemma newline_no_brace [simp]: "newline \<noteq> CHR ''}''" "CHR ''}'' \<noteq> newline"
  by (simp_all add: newline_def)

lemma last_index_split:
  "last_index c s = Some i \<Longrightarrow> s = take i s @ c # drop (Suc i) s \<and> c \<notin> set (drop (Suc i) s)"
proof (induction s arbitrary: i)
  case (Cons x s)
  then show ?case
    by (cases "last_index c s") (auto split: if_splits simp: last_index_None)
qed simp

lemma last_index_after:
  "\<exists>i. last_index c (a @ c # b) = Some i \<and> length a \<le> i"
proof (induction a)
  case Nil
  show ?case by (cases "last_index c b") auto
next
  case (Cons x a)
  then show ?case by auto
qed

lemma takeWhile_all: "list_all P a \<Longrightarrow> \<not> P x \<Longrightarrow> takeWhile P (a @ x # b) = a \<and> dropWhile P (a @ x # b) = x # b"
  by (induction a) auto

lemma match_value_Some:
  assumes "match_value d = Some x"
  shows "\<exists>post. d = x @ ''}'' @ post \<and> newline \<notin> set x"
proof -
  let ?line = "takeWhile (\<lambda>c. c \<noteq> newline) d"
  obtain i where i: "last_index CHR ''}'' ?line = Some i" "x = take i ?line"
    using assms by (auto simp: match_value_def Let_def split: option.splits)
  have "newline \<notin> set ?line"
    by (auto dest: set_takeWhileD)
  then have "newline \<notin> set x"
    using i(2) by (auto dest: in_set_takeD)
  moreover have "d = ?line @ dropWhile (\<lambda>c. c \<noteq> newline) d"
    by simp
  ultimately show ?thesis
    using last_index_split [OF i(1)] i(2) by (metis append.assoc append_Cons append_Nil)
qed

lemma match_value_longest:
  assumes "newline \<notin> set x"
  shows "\<exists>y. match_value (x @ ''}'' @ post) = Some y \<and> length x \<le> length y"
proof -
  let ?line = "takeWhile (\<lambda>c. c \<noteq> newline) (x @ ''}'' @ post)"
  have line: "?line = x @ CHR ''}'' # takeWhile (\<lambda>c. c \<noteq> newline) post"
    using assms by (subst takeWhile_append2) auto
  obtain i where i: "last_index CHR ''}'' ?line = Some i" "length x \<le> i"
    unfolding line using last_index_after by metis
  have "i < length ?line"
    using arg_cong [OF last_index_split [OF i(1), THEN conjunct1], of length] by simp
  then show ?thesis
    using i by (auto simp: match_value_def Let_def)
qed

lemma match_here_Some:
  assumes "match_here s = Some (env, d)"
  shows "\<exists>post. env_match s [] env d post"
proof -
  let ?r = "drop 2 s"
  have p: "has_prefix s ''${''" and e: "env = takeWhile is_env_char ?r" "env \<noteq> []"
    and c: "has_prefix (dropWhile is_env_char ?r) '':''" and m: "match_value (drop 1 (dropWhile is_env_char ?r)) = Some d"
    using assms by (auto simp: match_here_def Let_def split: if_splits option.splits)
  obtain post where post: "drop 1 (dropWhile is_env_char ?r) = d @ ''}'' @ post" "newline \<notin> set d"
    using match_value_Some [OF m] by blast
  have "dropWhile is_env_char ?r = '':'' @ d @ ''}'' @ post"
    using c post(1) unfolding has_prefix_iff by auto
  then have "?r = env @ '':'' @ d @ ''}'' @ post"
    unfolding e(1) by (metis takeWhile_dropWhile_id)
  moreover have "s = ''${'' @ ?r"
    using p by (auto simp: has_prefix_iff)
  moreover have "list_all is_env_char env"
    using e(1) by (auto simp: list_all_iff dest: set_takeWhileD)
  ultimately show ?thesis
    using e(2) post(2) unfolding env_match_def by (metis append_Nil)
qed

lemma match_here_longest:
  assumes "env_match s [] env d post"
  shows "\<exists>d'. match_here s = Some (env, d') \<and> length d \<le> length d'"
proof -
  have s: "s = ''${'' @ env @ CHR '':'' # d @ ''}'' @ post" and env: "env \<noteq> []" "list_all is_env_char env" "newline \<notin> set d"
    using assms by (auto simp: env_match_def)
  have r: "drop 2 s = env @ CHR '':'' # d @ ''}'' @ post"
    using s by simp
  obtain d' where "match_value (d @ ''}'' @ post) = Some d'" "length d \<le> length d'"
    using match_value_longest [OF env(3)] by blast
  then show ?thesis
    using takeWhile_all [OF env(2) colon_no_env, of "d @ ''}'' @ post"] env(1)
    by (simp add: match_here_def Let_def r) (simp add: s has_prefix_def)
qed

lemma find_Some:
  "FindStringSubmatch val = Some g \<Longrightarrow>
   \<exists>pre s. val = pre @ s \<and> match_here s = Some g \<and> (\<forall>pre' s'. val = pre' @ s' \<and> length pre' < length pre \<longrightarrow> match_here s' = None)"
proof (induction val)
  case (Cons c val)
  show ?case
  proof (cases "match_here (c # val)")
    case None
    then obtain pre s where *: "val = pre @ s" "match_here s = Some g"
      "\<And>pre' s'. val = pre' @ s' \<Longrightarrow> length pre' < length pre \<Longrightarrow> match_here s' = None"
      using Cons by auto
    have "match_here s' = None" if "c # val = pre' @ s'" "length pre' < length (c # pre)" for pre' s'
      using that None *(3) by (cases pre') auto
    then show ?thesis
      using * by (intro exI [of _ "c # pre"] exI [of _ s]) simp
  next
    case (Some g')
    then show ?thesis
      using Cons.prems by (intro exI [of _ "[]"] exI [of _ "c # val"]) simp
  qed
qed simp

lemma find_None: "FindStringSubmatch val = None \<Longrightarrow> val = pre @ s \<Longrightarrow> match_here s = None"
proof (induction val arbitrary: pre)
  case Nil
  then show ?case by (simp add: match_here_def has_prefix_def)
next
  case (Cons c val)
  then show ?case by (cases pre) (auto split: option.splits)
qed

definition leftmost_longest :: "string \<Rightarrow> string \<Rightarrow> string \<Rightarrow> bool" where
  "leftmost_longest val env d \<longleftrightarrow>
     (\<exists>pre post. env_match val pre env d post \<and>
        (\<forall>pre' env' d' post'. env_match val pre' env' d' post' \<longrightarrow>
           length pre \<le> length pre' \<and> (length pre = length pre' \<longrightarrow> env' = env \<and> length d' \<le> length d)))"

lemma env_match_append: "env_match s [] env d post \<Longrightarrow> env_match (pre @ s) pre env d post"
  by (simp add: env_match_def)

lemma env_match_suffix:
  assumes "env_match val pre env d post"
  obtains s where "val = pre @ s" "env_match s [] env d post"
proof
  show "val = pre @ ''${'' @ env @ '':'' @ d @ ''}'' @ post"
    using assms by (simp add: env_match_def)
  show "env_match (''${'' @ env @ '':'' @ d @ ''}'' @ post) [] env d post"
    using assms by (simp add: env_match_def)
qed

lemma find_leftmost:
  assumes "FindStringSubmatch val = Some (env, d)"
  shows "leftmost_longest val env d"
proof -
  obtain pre s where s: "val = pre @ s" "match_here s = Some (env, d)"
    and left: "\<And>pre' s'. val = pre' @ s' \<Longrightarrow> length pre' < length pre \<Longrightarrow> match_here s' = None"
    using find_Some [OF assms] by blast
  have "length pre \<le> length pre' \<and> (length pre = length pre' \<longrightarrow> env' = env \<and> length d' \<le> length d)"
    if m: "env_match val pre' env' d' post'" for pre' env' d' post'
  proof -
    obtain s' where s': "val = pre' @ s'" "env_match s' [] env' d' post'"
      using m by (rule env_match_suffix)
    obtain d'' where "match_here s' = Some (env', d'')" "length d' \<le> length d''"
      using match_here_longest [OF s'(2)] by blast
    moreover have "\<not> length pre' < length pre"
      using left [OF s'(1)] calculation(1) by auto
    moreover have "s' = s" if "length pre = length pre'"
      using that s(1) s'(1) by simp
    ultimately show ?thesis
      using s(2) by auto
  qed
  moreover obtain post where "env_match val pre env d post"
    using match_here_Some [OF s(2)] env_match_append unfolding s(1) by blast
  ultimately show ?thesis
    unfolding leftmost_longest_def by blast
qed

lemma leftmost_longest_unique:
  assumes "leftmost_longest val env d" "leftmost_longest val env' d'"
  shows "env' = env \<and> d' = d"
proof -
  obtain pre post where a: "env_match val pre env d post"
    "\<And>pre' env' d' post'. env_match val pre' env' d' post' \<Longrightarrow> length pre \<le> length pre' \<and> (length pre = length pre' \<longrightarrow> env' = env \<and> length d' \<le> length d)"
    using assms(1) unfolding leftmost_longest_def by blast
  obtain pre' post' where b: "env_match val pre' env' d' post'"
    "\<And>pre env d post. env_match val pre env d post \<Longrightarrow> length pre' \<le> length pre \<and> (length pre' = length pre \<longrightarrow> env = env' \<and> length d \<le> length d')"
    using assms(2) unfolding leftmost_longest_def by blast
  have l: "length pre = length pre'" "length d = length d'" "env' = env"
    using a(2) [OF b(1)] b(2) [OF a(1)] by auto
  moreover have "pre @ ''${'' @ env @ '':'' @ d @ ''}'' @ post = pre' @ ''${'' @ env' @ '':'' @ d' @ ''}'' @ post'"
    using a(1) b(1) by (simp add: env_match_def)
  ultimately show ?thesis
    by simp
qed

text \<open>
  C24. UnmarshalString reads a value by the leftmost match of \<open>${KEY:default}\<close> with the longest default on
  its line, and takes the whole text as the default exactly when nothing matches.
\<close>

theorem unmarshal_decides_regex:
  "UnmarshalString val no_value = \<lparr>EnvKey = env, Default = d\<rparr> \<longleftrightarrow>
     leftmost_longest val env d \<or> ((\<nexists>pre env d post. env_match val pre env d post) \<and> env = [] \<and> d = val)"
proof (cases "FindStringSubmatch val")
  case None
  have n: "\<not> env_match val pre env d post" for pre env d post
  proof
    assume "env_match val pre env d post"
    then obtain s where "val = pre @ s" "env_match s [] env d post"
      by (rule env_match_suffix)
    then show False
      using find_None [OF None] match_here_longest by fastforce
  qed
  then have "\<not> leftmost_longest val env d"
    unfolding leftmost_longest_def by blast
  then show ?thesis
    using None n by (auto simp: UnmarshalString_def no_value_def)
next
  case (Some g)
  obtain env' d' where g: "g = (env', d')"
    by fastforce
  have l: "leftmost_longest val env' d'"
    using find_leftmost Some g by simp
  then have "\<exists>pre env d post. env_match val pre env d post"
    unfolding leftmost_longest_def by blast
  moreover have "leftmost_longest val env d \<longleftrightarrow> env = env' \<and> d = d'"
    using l leftmost_longest_unique [OF l] by blast
  moreover have "UnmarshalString val no_value = \<lparr>EnvKey = env', Default = d'\<rparr>"
    by (simp add: UnmarshalString_def no_value_def Some g)
  ultimately show ?thesis
    by (metis string_value.ext_inject)
qed

lemma unmarshal_whole:
  assumes "env \<noteq> []" "list_all is_env_char env" "newline \<notin> set d"
  shows "UnmarshalString (''${'' @ env @ '':'' @ d @ ''}'') s = s\<lparr>EnvKey := env, Default := d\<rparr>"
proof -
  have m: "env_match (''${'' @ env @ '':'' @ d @ ''}'') [] env d []"
    using assms by (simp add: env_match_def)
  then obtain d' where d': "match_here (''${'' @ env @ '':'' @ d @ ''}'') = Some (env, d')" "length d \<le> length d'"
    using match_here_longest by blast
  then obtain post where "env_match (''${'' @ env @ '':'' @ d @ ''}'') [] env d' post"
    using match_here_Some by blast
  then have e: "d @ ''}'' = d' @ ''}'' @ post"
    by (simp add: env_match_def)
  have "length d + 1 = length d' + 1 + length post"
    using arg_cong [OF e, of length] by simp
  then have "length d' = length d"
    using d'(2) by simp
  then have "d' = d"
    using e by simp
  then show ?thesis
    using d'(1) by (simp add: UnmarshalString_def)
qed

section \<open>The configuration file\<close>

text \<open>The structs of the file, in its order; a plugin's part is kept as the map YAML gave, None when the file has none.\<close>

record correlation_config =
  co_MaxKeyCount :: string_value
  co_MaxValueSize :: string_value

record meter_config =
  mt_CollectInterval :: string_value

record agent_config =
  ag_ServiceName :: string_value
  ag_InstanceEnvName :: string_value
  ag_Sampler :: string_value
  ag_Meter :: meter_config
  ag_Correlation :: correlation_config
  ag_IgnoreSuffix :: string_value
  ag_TraceIgnorePath :: string_value

record grpc_pprof_config =
  gp_PprofFetchInterval :: string_value
  gp_PprofFilePath :: string_value

record grpc_tls_config =
  tl_Enable :: string_value
  tl_CAPath :: string_value
  tl_ClientKeyPath :: string_value
  tl_ClientCertChainPath :: string_value
  tl_InsecureSkipVerify :: string_value

record grpc_reporter_config =
  gr_BackendService :: string_value
  gr_MaxSendQueue :: string_value
  gr_Authentication :: string_value
  gr_CDSFetchInterval :: string_value
  gr_ProfileFetchInterval :: string_value
  gr_TLS :: grpc_tls_config
  gr_Pprof :: grpc_pprof_config

record kafka_reporter_config =
  ka_Brokers :: string_value
  ka_TopicSegment :: string_value
  ka_TopicMeter :: string_value
  ka_TopicLogging :: string_value
  ka_TopicManagement :: string_value
  ka_MaxSendQueue :: string_value
  ka_BatchSize :: string_value
  ka_BatchBytes :: string_value
  ka_BatchTimeoutMillis :: string_value
  ka_Acks :: string_value

record reporter_config =
  re_Discard :: string_value
  re_Type :: string_value
  re_CheckInterval :: string_value
  re_GRPC :: grpc_reporter_config
  re_Kafka :: kafka_reporter_config

record log_tracing_config =
  lt_Enabled :: string_value
  lt_Key :: string_value

record log_reporter_config =
  lr_Enabled :: string_value
  lr_LabelKeys :: string_value

record log_config =
  lo_Type :: string_value
  lo_Tracing :: log_tracing_config
  lo_Reporter :: log_reporter_config

record 'p plugin_config =
  pl_data :: "'p option"
  pl_Excluded :: string_value

record 'p config =
  cf_Agent :: agent_config
  cf_Reporter :: reporter_config
  cf_Log :: log_config
  cf_Plugin :: "'p plugin_config"

text \<open>
  What package reflect shows of a value of these types: a StringValue, another struct with the name of
  its type and its fields, or a map.  combineConfigFields writes into its first argument; None is its
  panic.  Two structs of one type have as many fields.
\<close>

datatype 'p rvalue = RValue string_value | RStruct string "'p rvalue list" | RMap "'p option"

fun combineConfigFields :: "'p rvalue \<Rightarrow> 'p rvalue \<Rightarrow> 'p rvalue option"
  and combineAll :: "'p rvalue list \<Rightarrow> 'p rvalue list \<Rightarrow> 'p rvalue list option" where
  "combineConfigFields (RValue s) (RValue s2) = Some (RValue (overwriteValue s s2))"
| "combineConfigFields (RMap m) (RMap m2) = Some (RMap m)"
| "combineConfigFields (RStruct t fs) (RStruct t2 fs2) =
     (if t \<noteq> t2 then None else map_option (RStruct t) (combineAll fs fs2))"
| "combineConfigFields _ _ = None"
| "combineAll [] fs2 = Some []"
| "combineAll (f # fs) [] = None"
| "combineAll (f # fs) (f2 # fs2) =
     (case combineConfigFields f f2 of
        None \<Rightarrow> None
      | Some g \<Rightarrow> map_option (Cons g) (combineAll fs fs2))"

definition reflect_Correlation :: "correlation_config \<Rightarrow> 'p rvalue" where
  "reflect_Correlation c = RStruct ''Correlation''
     [RValue (co_MaxKeyCount c), RValue (co_MaxValueSize c)]"

definition reflect_Meter :: "meter_config \<Rightarrow> 'p rvalue" where
  "reflect_Meter c = RStruct ''Meter''
     [RValue (mt_CollectInterval c)]"

definition reflect_Agent :: "agent_config \<Rightarrow> 'p rvalue" where
  "reflect_Agent c = RStruct ''Agent''
     [RValue (ag_ServiceName c), RValue (ag_InstanceEnvName c), RValue (ag_Sampler c), reflect_Meter (ag_Meter c), reflect_Correlation (ag_Correlation c), RValue (ag_IgnoreSuffix c), RValue (ag_TraceIgnorePath c)]"

definition reflect_GRPCReporterPprof :: "grpc_pprof_config \<Rightarrow> 'p rvalue" where
  "reflect_GRPCReporterPprof c = RStruct ''GRPCReporterPprof''
     [RValue (gp_PprofFetchInterval c), RValue (gp_PprofFilePath c)]"

definition reflect_GRPCReporterTLS :: "grpc_tls_config \<Rightarrow> 'p rvalue" where
  "reflect_GRPCReporterTLS c = RStruct ''GRPCReporterTLS''
     [RValue (tl_Enable c), RValue (tl_CAPath c), RValue (tl_ClientKeyPath c), RValue (tl_ClientCertChainPath c), RValue (tl_InsecureSkipVerify c)]"

definition reflect_GRPCReporter :: "grpc_reporter_config \<Rightarrow> 'p rvalue" where
  "reflect_GRPCReporter c = RStruct ''GRPCReporter''
     [RValue (gr_BackendService c), RValue (gr_MaxSendQueue c), RValue (gr_Authentication c), RValue (gr_CDSFetchInterval c), RValue (gr_ProfileFetchInterval c), reflect_GRPCReporterTLS (gr_TLS c), reflect_GRPCReporterPprof (gr_Pprof c)]"

definition reflect_KafkaReporter :: "kafka_reporter_config \<Rightarrow> 'p rvalue" where
  "reflect_KafkaReporter c = RStruct ''KafkaReporter''
     [RValue (ka_Brokers c), RValue (ka_TopicSegment c), RValue (ka_TopicMeter c), RValue (ka_TopicLogging c), RValue (ka_TopicManagement c), RValue (ka_MaxSendQueue c), RValue (ka_BatchSize c), RValue (ka_BatchBytes c), RValue (ka_BatchTimeoutMillis c), RValue (ka_Acks c)]"

definition reflect_Reporter :: "reporter_config \<Rightarrow> 'p rvalue" where
  "reflect_Reporter c = RStruct ''Reporter''
     [RValue (re_Discard c), RValue (re_Type c), RValue (re_CheckInterval c), reflect_GRPCReporter (re_GRPC c), reflect_KafkaReporter (re_Kafka c)]"

definition reflect_LogTracing :: "log_tracing_config \<Rightarrow> 'p rvalue" where
  "reflect_LogTracing c = RStruct ''LogTracing''
     [RValue (lt_Enabled c), RValue (lt_Key c)]"

definition reflect_LogReporter :: "log_reporter_config \<Rightarrow> 'p rvalue" where
  "reflect_LogReporter c = RStruct ''LogReporter''
     [RValue (lr_Enabled c), RValue (lr_LabelKeys c)]"

definition reflect_Log :: "log_config \<Rightarrow> 'p rvalue" where
  "reflect_Log c = RStruct ''Log''
     [RValue (lo_Type c), reflect_LogTracing (lo_Tracing c), reflect_LogReporter (lo_Reporter c)]"

definition reflect_Plugin :: "'p plugin_config \<Rightarrow> 'p rvalue" where
  "reflect_Plugin c = RStruct ''Plugin'' [RStruct ''PluginConfig'' [RMap (pl_data c)], RValue (pl_Excluded c)]"

definition reflect_Config :: "'p config \<Rightarrow> 'p rvalue" where
  "reflect_Config c = RStruct ''Config''
     [reflect_Agent (cf_Agent c), reflect_Reporter (cf_Reporter c), reflect_Log (cf_Log c), reflect_Plugin (cf_Plugin c)]"

text \<open>The struct behind a reflected value.\<close>

fun struct_fields :: "'p rvalue \<Rightarrow> 'p rvalue list" where
  "struct_fields (RStruct t fs) = fs"
| "struct_fields _ = []"

fun the_value :: "'p rvalue \<Rightarrow> string_value" where
  "the_value (RValue s) = s"
| "the_value _ = no_value"

fun the_map :: "'p rvalue \<Rightarrow> 'p option" where
  "the_map (RMap m) = m"
| "the_map _ = None"

definition read_Correlation :: "'p rvalue \<Rightarrow> correlation_config" where
  "read_Correlation v = (let fs = struct_fields v in
     \<lparr>co_MaxKeyCount = the_value (fs ! 0),
      co_MaxValueSize = the_value (fs ! 1)\<rparr>)"

definition read_Meter :: "'p rvalue \<Rightarrow> meter_config" where
  "read_Meter v = (let fs = struct_fields v in
     \<lparr>mt_CollectInterval = the_value (fs ! 0)\<rparr>)"

definition read_Agent :: "'p rvalue \<Rightarrow> agent_config" where
  "read_Agent v = (let fs = struct_fields v in
     \<lparr>ag_ServiceName = the_value (fs ! 0),
      ag_InstanceEnvName = the_value (fs ! 1),
      ag_Sampler = the_value (fs ! 2),
      ag_Meter = read_Meter (fs ! 3),
      ag_Correlation = read_Correlation (fs ! 4),
      ag_IgnoreSuffix = the_value (fs ! 5),
      ag_TraceIgnorePath = the_value (fs ! 6)\<rparr>)"

definition read_GRPCReporterPprof :: "'p rvalue \<Rightarrow> grpc_pprof_config" where
  "read_GRPCReporterPprof v = (let fs = struct_fields v in
     \<lparr>gp_PprofFetchInterval = the_value (fs ! 0),
      gp_PprofFilePath = the_value (fs ! 1)\<rparr>)"

definition read_GRPCReporterTLS :: "'p rvalue \<Rightarrow> grpc_tls_config" where
  "read_GRPCReporterTLS v = (let fs = struct_fields v in
     \<lparr>tl_Enable = the_value (fs ! 0),
      tl_CAPath = the_value (fs ! 1),
      tl_ClientKeyPath = the_value (fs ! 2),
      tl_ClientCertChainPath = the_value (fs ! 3),
      tl_InsecureSkipVerify = the_value (fs ! 4)\<rparr>)"

definition read_GRPCReporter :: "'p rvalue \<Rightarrow> grpc_reporter_config" where
  "read_GRPCReporter v = (let fs = struct_fields v in
     \<lparr>gr_BackendService = the_value (fs ! 0),
      gr_MaxSendQueue = the_value (fs ! 1),
      gr_Authentication = the_value (fs ! 2),
      gr_CDSFetchInterval = the_value (fs ! 3),
      gr_ProfileFetchInterval = the_value (fs ! 4),
      gr_TLS = read_GRPCReporterTLS (fs ! 5),
      gr_Pprof = read_GRPCReporterPprof (fs ! 6)\<rparr>)"

definition read_KafkaReporter :: "'p rvalue \<Rightarrow> kafka_reporter_config" where
  "read_KafkaReporter v = (let fs = struct_fields v in
     \<lparr>ka_Brokers = the_value (fs ! 0),
      ka_TopicSegment = the_value (fs ! 1),
      ka_TopicMeter = the_value (fs ! 2),
      ka_TopicLogging = the_value (fs ! 3),
      ka_TopicManagement = the_value (fs ! 4),
      ka_MaxSendQueue = the_value (fs ! 5),
      ka_BatchSize = the_value (fs ! 6),
      ka_BatchBytes = the_value (fs ! 7),
      ka_BatchTimeoutMillis = the_value (fs ! 8),
      ka_Acks = the_value (fs ! 9)\<rparr>)"

definition read_Reporter :: "'p rvalue \<Rightarrow> reporter_config" where
  "read_Reporter v = (let fs = struct_fields v in
     \<lparr>re_Discard = the_value (fs ! 0),
      re_Type = the_value (fs ! 1),
      re_CheckInterval = the_value (fs ! 2),
      re_GRPC = read_GRPCReporter (fs ! 3),
      re_Kafka = read_KafkaReporter (fs ! 4)\<rparr>)"

definition read_LogTracing :: "'p rvalue \<Rightarrow> log_tracing_config" where
  "read_LogTracing v = (let fs = struct_fields v in
     \<lparr>lt_Enabled = the_value (fs ! 0),
      lt_Key = the_value (fs ! 1)\<rparr>)"

definition read_LogReporter :: "'p rvalue \<Rightarrow> log_reporter_config" where
  "read_LogReporter v = (let fs = struct_fields v in
     \<lparr>lr_Enabled = the_value (fs ! 0),
      lr_LabelKeys = the_value (fs ! 1)\<rparr>)"

definition read_Log :: "'p rvalue \<Rightarrow> log_config" where
  "read_Log v = (let fs = struct_fields v in
     \<lparr>lo_Type = the_value (fs ! 0),
      lo_Tracing = read_LogTracing (fs ! 1),
      lo_Reporter = read_LogReporter (fs ! 2)\<rparr>)"

definition read_Plugin :: "'p rvalue \<Rightarrow> 'p plugin_config" where
  "read_Plugin v = (let fs = struct_fields v in
     \<lparr>pl_data = the_map (struct_fields (fs ! 0) ! 0), pl_Excluded = the_value (fs ! 1)\<rparr>)"

definition read_Config :: "'p rvalue \<Rightarrow> 'p config" where
  "read_Config v = (let fs = struct_fields v in
     \<lparr>cf_Agent = read_Agent (fs ! 0), cf_Reporter = read_Reporter (fs ! 1), cf_Log = read_Log (fs ! 2),
      cf_Plugin = read_Plugin (fs ! 3)\<rparr>)"

definition overwriteFrom :: "'p config \<Rightarrow> 'p config \<Rightarrow> 'p config option" where
  "overwriteFrom c other = map_option read_Config (combineConfigFields (reflect_Config c) (reflect_Config other))"

text \<open>
  LoadConfig, given the embedded file, the file system and the YAML decoder, which writes into a
  struct and returns an error if the text or one of its values is malformed.  The state is the
  package variable, None before the first load; the decoder is handed the struct it points to, or a
  fresh one.  The second component is the error.
\<close>

definition zero_config :: "'p config" where
  "zero_config = \<lparr>
     cf_Agent = \<lparr>ag_ServiceName = no_value, ag_InstanceEnvName = no_value, ag_Sampler = no_value,
       ag_Meter = \<lparr>mt_CollectInterval = no_value\<rparr>,
       ag_Correlation = \<lparr>co_MaxKeyCount = no_value, co_MaxValueSize = no_value\<rparr>,
       ag_IgnoreSuffix = no_value, ag_TraceIgnorePath = no_value\<rparr>,
     cf_Reporter = \<lparr>re_Discard = no_value, re_Type = no_value, re_CheckInterval = no_value,
       re_GRPC = \<lparr>gr_BackendService = no_value, gr_MaxSendQueue = no_value, gr_Authentication = no_value,
         gr_CDSFetchInterval = no_value, gr_ProfileFetchInterval = no_value,
         gr_TLS = \<lparr>tl_Enable = no_value, tl_CAPath = no_value, tl_ClientKeyPath = no_value,
           tl_ClientCertChainPath = no_value, tl_InsecureSkipVerify = no_value\<rparr>,
         gr_Pprof = \<lparr>gp_PprofFetchInterval = no_value, gp_PprofFilePath = no_value\<rparr>\<rparr>,
       re_Kafka = \<lparr>ka_Brokers = no_value, ka_TopicSegment = no_value, ka_TopicMeter = no_value,
         ka_TopicLogging = no_value, ka_TopicManagement = no_value, ka_MaxSendQueue = no_value,
         ka_BatchSize = no_value, ka_BatchBytes = no_value, ka_BatchTimeoutMillis = no_value, ka_Acks = no_value\<rparr>\<rparr>,
     cf_Log = \<lparr>lo_Type = no_value, lo_Tracing = \<lparr>lt_Enabled = no_value, lt_Key = no_value\<rparr>,
       lo_Reporter = \<lparr>lr_Enabled = no_value, lr_LabelKeys = no_value\<rparr>\<rparr>,
     cf_Plugin = \<lparr>pl_data = None, pl_Excluded = no_value\<rparr>\<rparr>"

definition LoadConfig ::
  "'e + string \<Rightarrow> (string \<Rightarrow> 'e + string) \<Rightarrow> (string \<Rightarrow> 'p config \<Rightarrow> 'p config \<times> 'e option) \<Rightarrow>
   string \<Rightarrow> 'p config option \<Rightarrow> ('p config option \<times> 'e option) option" where
  "LoadConfig embedded readFile unmarshal path config =
     (case embedded of
        Inl err \<Rightarrow> Some (config, Some err)
      | Inr defaultConfig \<Rightarrow>
          (case unmarshal defaultConfig (case config of None \<Rightarrow> zero_config | Some c \<Rightarrow> c) of
             (c, Some err) \<Rightarrow> Some (Some c, Some err)
           | (c, None) \<Rightarrow>
               if path = [] then Some (Some c, None)
               else (case readFile path of
                       Inl err \<Rightarrow> Some (Some c, Some err)
                     | Inr definedContent \<Rightarrow>
                         (case unmarshal definedContent zero_config of
                            (u, Some err) \<Rightarrow> Some (Some c, Some err)
                          | (u, None) \<Rightarrow> map_option (\<lambda>c'. (Some c', None)) (overwriteFrom c u)))))"

section \<open>Merging two files\<close>

fun leaves :: "'p rvalue \<Rightarrow> string_value list" where
  "leaves (RValue s) = [s]"
| "leaves (RStruct t fs) = concat (map leaves fs)"
| "leaves (RMap m) = []"

fun maps :: "'p rvalue \<Rightarrow> 'p option list" where
  "maps (RValue s) = []"
| "maps (RStruct t fs) = concat (map maps fs)"
| "maps (RMap m) = [m]"

fun same_type :: "'p rvalue \<Rightarrow> 'p rvalue \<Rightarrow> bool" where
  "same_type (RValue s) (RValue s2) = True"
| "same_type (RMap m) (RMap m2) = True"
| "same_type (RStruct t fs) (RStruct t2 fs2) = (t = t2 \<and> list_all2 same_type fs fs2)"
| "same_type _ _ = False"

text \<open>The values of a configuration in the order of its fields.\<close>

definition config_values :: "'p config \<Rightarrow> string_value list" where
  "config_values c = leaves (reflect_Config c)"

lemma same_type_leaves:
  "same_type v w \<Longrightarrow> length (leaves v) = length (leaves w)"
proof (induction v w rule: same_type.induct)
  case (3 t fs t2 fs2)
  then have "list_all2 (\<lambda>v w. length (leaves v) = length (leaves w)) fs fs2"
    by (auto simp: list_all2_conv_all_nth)
  then have "sum_list (map (length \<circ> leaves) fs) = sum_list (map (length \<circ> leaves) fs2)"
    by (induction rule: list_all2_induct) auto
  then show ?case
    by (simp add: length_concat)
qed auto

lemma map2_append: "length xs = length ys \<Longrightarrow> map2 f (xs @ xs') (ys @ ys') = map2 f xs ys @ map2 f xs' ys'"
  by simp

lemma combine_same_type:
  fixes v w :: "'p rvalue" and vs ws :: "'p rvalue list"
  shows "same_type v w \<Longrightarrow> \<exists>u. combineConfigFields v w = Some u \<and> same_type v u \<and>
     leaves u = map2 overwriteValue (leaves v) (leaves w) \<and> maps u = maps v"
    and "list_all2 same_type vs ws \<Longrightarrow> \<exists>us. combineAll vs ws = Some us \<and> list_all2 same_type vs us \<and>
     concat (map leaves us) = map2 overwriteValue (concat (map leaves vs)) (concat (map leaves ws)) \<and>
     concat (map maps us) = concat (map maps vs)"
proof (induction v w and vs ws rule: combineConfigFields_combineAll.induct)
  case (3 t fs t2 fs2)
  then obtain us where "combineAll fs fs2 = Some us" "list_all2 same_type fs us"
    "concat (map leaves us) = map2 overwriteValue (concat (map leaves fs)) (concat (map leaves fs2))"
    "concat (map maps us) = concat (map maps fs)"
    by auto
  then show ?case
    using "3.prems" by simp
next
  case (7 f fs f2 fs2)
  obtain g where g: "combineConfigFields f f2 = Some g" "same_type f g"
    "leaves g = map2 overwriteValue (leaves f) (leaves f2)" "maps g = maps f"
    using 7 by auto
  obtain gs where "combineAll fs fs2 = Some gs" "list_all2 same_type fs gs"
    "concat (map leaves gs) = map2 overwriteValue (concat (map leaves fs)) (concat (map leaves fs2))"
    "concat (map maps gs) = concat (map maps fs)"
    using "7.IH"(2) [OF g(1)] "7.prems" by auto
  then show ?case
    using g same_type_leaves [of f f2] "7.prems" by simp
qed simp_all

lemmas reflect_defs = reflect_Correlation_def reflect_Meter_def reflect_Agent_def reflect_GRPCReporterPprof_def
  reflect_GRPCReporterTLS_def reflect_GRPCReporter_def reflect_KafkaReporter_def reflect_Reporter_def
  reflect_LogTracing_def reflect_LogReporter_def reflect_Log_def reflect_Plugin_def reflect_Config_def

lemmas read_defs = read_Correlation_def read_Meter_def read_Agent_def read_GRPCReporterPprof_def
  read_GRPCReporterTLS_def read_GRPCReporter_def read_KafkaReporter_def read_Reporter_def
  read_LogTracing_def read_LogReporter_def read_Log_def read_Plugin_def read_Config_def

lemma same_type_reflect: "same_type (reflect_Config c) (reflect_Config c2)"
  by (simp add: reflect_defs)

lemma same_type_RStruct: "same_type (RStruct t fs) v \<longleftrightarrow> (\<exists>gs. v = RStruct t gs \<and> list_all2 same_type fs gs)"
  by (cases v) auto

lemma same_type_RValue: "same_type (RValue s) v \<longleftrightarrow> (\<exists>s'. v = RValue s')"
  by (cases v) auto

lemma same_type_RMap: "same_type (RMap m) v \<longleftrightarrow> (\<exists>m'. v = RMap m')"
  by (cases v) auto

lemmas same_type_iffs = list_all2_Cons1 same_type_RStruct same_type_RValue same_type_RMap

lemma reflect_read_Correlation [simp]: "same_type (reflect_Correlation c) v \<Longrightarrow> reflect_Correlation (read_Correlation v) = v"
  by (auto simp: reflect_Correlation_def read_Correlation_def same_type_iffs)

lemma reflect_read_Meter [simp]: "same_type (reflect_Meter c) v \<Longrightarrow> reflect_Meter (read_Meter v) = v"
  by (auto simp: reflect_Meter_def read_Meter_def same_type_iffs)

lemma reflect_read_Agent [simp]: "same_type (reflect_Agent c) v \<Longrightarrow> reflect_Agent (read_Agent v) = v"
  by (auto simp: reflect_Agent_def read_Agent_def same_type_iffs)

lemma reflect_read_GRPCReporterPprof [simp]: "same_type (reflect_GRPCReporterPprof c) v \<Longrightarrow> reflect_GRPCReporterPprof (read_GRPCReporterPprof v) = v"
  by (auto simp: reflect_GRPCReporterPprof_def read_GRPCReporterPprof_def same_type_iffs)

lemma reflect_read_GRPCReporterTLS [simp]: "same_type (reflect_GRPCReporterTLS c) v \<Longrightarrow> reflect_GRPCReporterTLS (read_GRPCReporterTLS v) = v"
  by (auto simp: reflect_GRPCReporterTLS_def read_GRPCReporterTLS_def same_type_iffs)

lemma reflect_read_GRPCReporter [simp]: "same_type (reflect_GRPCReporter c) v \<Longrightarrow> reflect_GRPCReporter (read_GRPCReporter v) = v"
  by (auto simp: reflect_GRPCReporter_def read_GRPCReporter_def same_type_iffs)

lemma reflect_read_KafkaReporter [simp]: "same_type (reflect_KafkaReporter c) v \<Longrightarrow> reflect_KafkaReporter (read_KafkaReporter v) = v"
  by (auto simp: reflect_KafkaReporter_def read_KafkaReporter_def same_type_iffs)

lemma reflect_read_Reporter [simp]: "same_type (reflect_Reporter c) v \<Longrightarrow> reflect_Reporter (read_Reporter v) = v"
  by (auto simp: reflect_Reporter_def read_Reporter_def same_type_iffs)

lemma reflect_read_LogTracing [simp]: "same_type (reflect_LogTracing c) v \<Longrightarrow> reflect_LogTracing (read_LogTracing v) = v"
  by (auto simp: reflect_LogTracing_def read_LogTracing_def same_type_iffs)

lemma reflect_read_LogReporter [simp]: "same_type (reflect_LogReporter c) v \<Longrightarrow> reflect_LogReporter (read_LogReporter v) = v"
  by (auto simp: reflect_LogReporter_def read_LogReporter_def same_type_iffs)

lemma reflect_read_Log [simp]: "same_type (reflect_Log c) v \<Longrightarrow> reflect_Log (read_Log v) = v"
  by (auto simp: reflect_Log_def read_Log_def same_type_iffs)

lemma reflect_read_Plugin [simp]: "same_type (reflect_Plugin c) v \<Longrightarrow> reflect_Plugin (read_Plugin v) = v"
  by (auto simp: reflect_Plugin_def read_Plugin_def same_type_iffs)

lemma reflect_read: "same_type (reflect_Config c) v \<Longrightarrow> reflect_Config (read_Config v) = v"
  by (auto simp: reflect_Config_def read_Config_def same_type_iffs)

lemma merge_fields_exist:
  "\<exists>c'. overwriteFrom c other = Some c' \<and>
     config_values c' = map2 overwriteValue (config_values c) (config_values other) \<and>
     pl_data (cf_Plugin c') = pl_data (cf_Plugin c)"
proof -
  obtain u where u: "combineConfigFields (reflect_Config c) (reflect_Config other) = Some u"
    "same_type (reflect_Config c) u" "leaves u = map2 overwriteValue (config_values c) (config_values other)"
    "maps u = maps (reflect_Config c)"
    using combine_same_type(1) [OF same_type_reflect, of c other] unfolding config_values_def by blast
  have r: "reflect_Config (read_Config u) = u"
    by (rule reflect_read [OF u(2)])
  then have "maps (reflect_Config (read_Config u)) = maps (reflect_Config c)"
    using u(4) by simp
  then have "pl_data (cf_Plugin (read_Config u)) = pl_data (cf_Plugin c)"
    by (simp add: reflect_defs)
  then show ?thesis
    using u(1,3) r by (simp add: overwriteFrom_def config_values_def)
qed

text \<open>
  Reading a second file over a first never panics, and every value of the result is that of the
  first, with the name of the environment variable and the default each replaced by what is not
  empty in the second.  The configuration of the plugins is the one exception: it stays that of the
  first file, whatever the second says, since its map is no struct.
\<close>

theorem merge_fields:
  "\<exists>c'. overwriteFrom c other = Some c' \<and>
     config_values c' = map2 overwriteValue (config_values c) (config_values other) \<and>
     pl_data (cf_Plugin c') = pl_data (cf_Plugin c)"
  by (rule merge_fields_exist)

definition effective :: "(string \<Rightarrow> string) \<Rightarrow> string_value \<Rightarrow> string_value \<Rightarrow> string" where
  "effective getenv d u =
     (let key = (if EnvKey u \<noteq> [] then EnvKey u else EnvKey d)
      in if key \<noteq> [] \<and> getenv key \<noteq> [] then getenv key
         else if Default u \<noteq> [] then Default u else Default d)"

lemma overwrite_effective: "GetStringResult getenv (overwriteValue d u) = effective getenv d u"
  by (simp add: GetStringResult_def overwriteValue_def effective_def Let_def)

text \<open>
  What a merged value means when it is read: the environment wins whenever the variable is set,
  also when the second file names none, since plain text there keeps the variable of the first; then
  the default of the second file, and the default of the first when the second has none or an empty
  one.
\<close>

theorem merged_values_effective:
  "\<exists>c'. overwriteFrom c other = Some c' \<and>
     map (GetStringResult getenv) (config_values c') = map2 (effective getenv) (config_values c) (config_values other)"
  using merge_fields_exist [of c other] by (auto simp: overwrite_effective)

section \<open>Reading at compile time and at run time\<close>

text \<open>
  The generated functions compute what the readers of the agent's own compilation compute in the
  same environment, but for lists: GetListStringResult keeps empty elements, the generated function
  drops them, so that a list of excluded plugins or of Kafka brokers is not read the same way.
\<close>

theorem readers_agree:
  "ToGoStringValue getenv s = GetStringResult getenv s \<and>
   ToGoStringListValue getenv s = filter (\<lambda>v. v \<noteq> []) (GetListStringResult getenv s)"
proof -
  have v: "ToGoStringValue getenv s = GetStringResult getenv s"
    by (simp add: ToGoStringValue_def GetStringResult_def Let_def)
  have split: "splitResult t = (if t = [] then [] else filter (\<lambda>v. v \<noteq> []) (split_on CHR '','' t))" for t
    by (auto simp: splitResult_def Let_def length_Suc_conv split: if_splits)
  have "ToGoStringListValue getenv s = splitResult (ToGoStringValue getenv s)"
    by (simp add: ToGoStringListValue_def ToGoStringValue_def Let_def)
  then show ?thesis
    using v by (simp add: split v GetListStringResult_def Let_def)
qed

section \<open>Loading and reading back\<close>

text \<open>
  A value written as \<open>${KEY:default}\<close> is read back as it is, for every name of the allowed characters
  and every default on one line, braces and colons included.
\<close>

theorem value_round_trip:
  assumes "env \<noteq> []" "list_all is_env_char env" "newline \<notin> set d"
  shows "UnmarshalString (''${'' @ env @ '':'' @ d @ ''}'') s = \<lparr>EnvKey = env, Default = d\<rparr>"
  using unmarshal_whole [OF assms, of s] by simp

theorem value_round_trip_witness:
  "UnmarshalString ''${SW_1:a:${b}}'' no_value = \<lparr>EnvKey = ''SW_1'', Default = ''a:${b}''\<rparr>"
  using value_round_trip [of "''SW_1''" "''a:${b}''" no_value] by (simp add: is_env_char_def newline_def)

text \<open>
  A first load with a readable embedded file always leaves a configuration: that of the embedded
  file unless every step succeeded, and then the second file read over it.
\<close>

theorem load_leaves_default:
  "\<exists>c' e. LoadConfig (Inr dflt) readFile unmarshal path None = Some (Some c', e) \<and>
     (e = None \<or> c' = fst (unmarshal dflt zero_config))"
proof -
  obtain c e where u: "unmarshal dflt zero_config = (c, e)"
    by fastforce
  obtain r where "readFile path = r"
    by simp
  then show ?thesis
    using merge_fields_exist [of c]
    by (cases e; cases r) (fastforce simp: LoadConfig_def u split: prod.splits option.splits)+
qed

end
