(* ===== verification/Go_Syntax.thy ===== *)
theory Go_Syntax
  imports Strconv
begin

text \<open>
  The syntax of Go types and signatures, as far as the instrumentation looks at it (package dst), and
  the functions of tools/go-agent/tools that name, prefix and complete it: enhancement.go, types.go,
  and of dst.go the identity of a function and the analysis of imports.

  An expression that is none of these is OtherExpr.  An identifier has its name only; a tag is the
  literal of the source with its quotes.  Where the code writes into the tree the function returns
  the tree it leaves.
\<close>

section \<open>Types and fields\<close>

datatype chan_dir = SEND | RECV | BOTH

datatype expr =
  Ident string
| StarExpr expr
| SelectorExpr expr string
| Ellipsis expr
| ArrayType "string option" expr
| MapType expr expr
| ChanType chan_dir expr
| FuncType "field list" "field list"
| InterfaceType "field list"
| StructType "field list"
| TypeAssertExpr expr
| OtherExpr
and field = Field (fieldNames: "string list") (fieldType: expr) (fieldTag: "string option")

record func_decl =
  fn_Recv :: "field list option"
  fn_Name :: string
  fn_Params :: "field list"
  fn_Results :: "field list option"

section \<open>Names of types\<close>

text \<open>GenerateTypeNameByExp; the list functions are its two loops over parameters and results.\<close>

fun GenerateTypeNameByExp :: "expr \<Rightarrow> string" and type_names :: "field list \<Rightarrow> string list" where
  "GenerateTypeNameByExp (StarExpr x) = ''*'' @ GenerateTypeNameByExp x"
| "GenerateTypeNameByExp (TypeAssertExpr x) = GenerateTypeNameByExp x"
| "GenerateTypeNameByExp (InterfaceType ms) = ''interface{}''"
| "GenerateTypeNameByExp (Ident n) = n"
| "GenerateTypeNameByExp (SelectorExpr x sel) = GenerateTypeNameByExp x @ ''.'' @ sel"
| "GenerateTypeNameByExp (Ellipsis x) = ''[]'' @ GenerateTypeNameByExp x"
| "GenerateTypeNameByExp (ArrayType len x) = ''[]'' @ GenerateTypeNameByExp x"
| "GenerateTypeNameByExp (FuncType ps rs) =
     ''func('' @ join '', '' (type_names ps) @ '')'' @
     (if rs = [] then [] else ''('' @ join '', '' (type_names rs) @ '')'')"
| "GenerateTypeNameByExp (ChanType dir x) =
     (case dir of SEND \<Rightarrow> ''chan<-'' | RECV \<Rightarrow> ''<-chan'' | BOTH \<Rightarrow> ''chan'') @ '' '' @ GenerateTypeNameByExp x"
| "GenerateTypeNameByExp (MapType k x) = []"
| "GenerateTypeNameByExp (StructType fs) = []"
| "GenerateTypeNameByExp OtherExpr = []"
| "type_names [] = []"
| "type_names (Field ns t tag # fs) = GenerateTypeNameByExp t # type_names fs"

text \<open>IsBasicDataType.\<close>

definition basicDataTypes :: "string list" where
  "basicDataTypes =
     [''bool'', ''int8'', ''int16'', ''int32'', ''int64'', ''uint8'', ''uint16'', ''uint32'', ''uint64'', ''int'', ''uint'', ''uintptr'',
      ''float32'', ''float64'', ''complex64'', ''complex128'', ''string'', ''error'', ''interface{}'', ''_'', ''byte'', ''any'']"

definition IsBasicDataType :: "string \<Rightarrow> bool" where
  "IsBasicDataType name = (name \<in> set basicDataTypes)"

definition OtherPackageRefPrefix :: string where
  "OtherPackageRefPrefix = ''swref_''"

fun addPackagePrefixForArgsAndClone :: "string \<Rightarrow> expr \<Rightarrow> expr" where
  "addPackagePrefixForArgsAndClone pkg (Ident n) =
     (if IsBasicDataType n then Ident n else SelectorExpr (Ident pkg) n)"
| "addPackagePrefixForArgsAndClone pkg (StarExpr x) = StarExpr (addPackagePrefixForArgsAndClone pkg x)"
| "addPackagePrefixForArgsAndClone pkg (Ellipsis x) = Ellipsis (addPackagePrefixForArgsAndClone pkg x)"
| "addPackagePrefixForArgsAndClone pkg (SelectorExpr x sel) =
     (if x = Ident pkg then SelectorExpr (Ident (OtherPackageRefPrefix @ pkg)) sel else SelectorExpr x sel)"
| "addPackagePrefixForArgsAndClone pkg e = e"

section \<open>Parameters\<close>

datatype field_list_type = FieldListTypeParam | FieldListTypeResult | FieldListTypeRecv

record parameter_info =
  pi_Name :: string
  pi_Type :: expr
  pi_TypeName :: string

definition newParameterInfo :: "string \<Rightarrow> expr \<Rightarrow> parameter_info" where
  "newParameterInfo name tp = \<lparr>pi_Name = name, pi_Type = tp, pi_TypeName = GenerateTypeNameByExp tp\<rparr>"

definition defineName :: "field_list_type \<Rightarrow> nat \<Rightarrow> string" where
  "defineName ft i =
     (case ft of FieldListTypeParam \<Rightarrow> ''skywalking_param_''
      | FieldListTypeResult \<Rightarrow> ''skywalking_result_''
      | FieldListTypeRecv \<Rightarrow> ''skywalking_recv_'') @ nat_digits i"

text \<open>The loop that gives a name to the first parameter of a field that has none, and stops.\<close>

fun rename_blank :: "string \<Rightarrow> string list \<Rightarrow> string list" where
  "rename_blank d [] = []"
| "rename_blank d (n # ns) = (if n = ''_'' then d # ns else n # rename_blank d ns)"

definition enhance_field :: "field_list_type \<Rightarrow> nat \<Rightarrow> field \<Rightarrow> field" where
  "enhance_field ft i f =
     (if fieldNames f = [] then Field [defineName ft i] (fieldType f) (fieldTag f)
      else Field (rename_blank (defineName ft i) (fieldNames f)) (fieldType f) (fieldTag f))"

fun enhance_fields :: "field_list_type \<Rightarrow> nat \<Rightarrow> field list \<Rightarrow> field list" where
  "enhance_fields ft i [] = []"
| "enhance_fields ft i (f # fs) = enhance_field ft i f # enhance_fields ft (Suc i) fs"

definition infos_of :: "field list \<Rightarrow> parameter_info list" where
  "infos_of fs = concat (map (\<lambda>f. map (\<lambda>n. newParameterInfo n (fieldType f)) (fieldNames f)) fs)"

text \<open>The fields with their new names, and the list it returns; None is a nil field list.\<close>

definition EnhanceParameterNames ::
  "field list option \<Rightarrow> field_list_type \<Rightarrow> field list option \<times> parameter_info list" where
  "EnhanceParameterNames fl ft =
     (case fl of
        None \<Rightarrow> (None, [])
      | Some fs \<Rightarrow> (Some (enhance_fields ft 0 fs), infos_of (enhance_fields ft 0 fs)))"

record packaged_parameter_info = parameter_info +
  pi_PackageName :: string

definition EnhanceParameterNamesWithPackagePrefix ::
  "string \<Rightarrow> field list option \<Rightarrow> field_list_type \<Rightarrow> field list option \<times> packaged_parameter_info list" where
  "EnhanceParameterNamesWithPackagePrefix pkg fl ft =
     (case EnhanceParameterNames fl ft of
        (fs, params) \<Rightarrow>
          (fs, map (\<lambda>p. \<lparr>pi_Name = pi_Name p, pi_Type = pi_Type p, pi_TypeName = pi_TypeName p, pi_PackageName = pkg\<rparr>) params))"

definition PackagedType :: "packaged_parameter_info \<Rightarrow> expr" where
  "PackagedType p = addPackagePrefixForArgsAndClone (pi_PackageName p) (pi_Type p)"

definition PackagedTypeName :: "packaged_parameter_info \<Rightarrow> string" where
  "PackagedTypeName p = GenerateTypeNameByExp (PackagedType p)"

section \<open>The identity of a function\<close>

definition clean_package :: "string \<Rightarrow> string" where
  "clean_package pkg = map (\<lambda>c. if c \<in> {CHR ''/'', CHR ''.'', CHR ''-'', CHR ''@''} then CHR ''_'' else c) pkg"

text \<open>A receiver that is no pointer to a name gives the empty string.  The receiver's list is not empty.\<close>

definition BuildFuncIdentity :: "string \<Rightarrow> func_decl \<Rightarrow> string" where
  "BuildFuncIdentity pkgPath node =
     (case fn_Recv node of
        None \<Rightarrow> clean_package pkgPath @ ''_'' @ fn_Name node
      | Some rs \<Rightarrow>
          (case fieldType (hd rs) of
             StarExpr (Ident receiver) \<Rightarrow> clean_package pkgPath @ ''_'' @ receiver @ fn_Name node
           | _ \<Rightarrow> []))"

section \<open>Imports\<close>

text \<open>An import with its optional name and its path, without the quotes.\<close>

record import_spec =
  is_Name :: "string option"
  is_Path :: string

record import_analyzer =
  ia_imports :: "string \<Rightarrow> (string \<rightharpoonup> import_spec) option"
  ia_usedImports :: "string \<rightharpoonup> import_spec"

definition CreateImportAnalyzer :: import_analyzer where
  "CreateImportAnalyzer = \<lparr>ia_imports = (\<lambda>f. None), ia_usedImports = Map.empty\<rparr>"

text \<open>filepath.Base of an import path: what follows the last slash.  A path has no slash at its end.\<close>

definition path_base :: "string \<Rightarrow> string" where
  "path_base p = last (split_on CHR ''/'' p)"

definition import_name :: "import_spec \<Rightarrow> string" where
  "import_name s = (case is_Name s of None \<Rightarrow> path_base (is_Path s) | Some n \<Rightarrow> n)"

definition AnalyzeFileImports :: "string \<Rightarrow> import_spec list \<Rightarrow> import_analyzer \<Rightarrow> import_analyzer" where
  "AnalyzeFileImports filePath specs a =
     a\<lparr>ia_imports := (ia_imports a)(filePath := Some (map_of (rev (map (\<lambda>s. (import_name s, s)) specs))))\<rparr>"

fun analyzeFieldImport :: "string \<Rightarrow> expr \<Rightarrow> import_analyzer \<Rightarrow> import_analyzer" where
  "analyzeFieldImport filePath (SelectorExpr (Ident p) sel) a =
     (case ia_imports a filePath of
        None \<Rightarrow> a
      | Some imports \<Rightarrow>
          (case imports p of
             None \<Rightarrow> a
           | Some spec \<Rightarrow> a\<lparr>ia_usedImports := (ia_usedImports a)(p \<mapsto> spec)\<rparr>))"
| "analyzeFieldImport filePath (Ellipsis x) a = analyzeFieldImport filePath x a"
| "analyzeFieldImport filePath (ArrayType len x) a = analyzeFieldImport filePath x a"
| "analyzeFieldImport filePath (StarExpr x) a = analyzeFieldImport filePath x a"
| "analyzeFieldImport filePath (ChanType dir x) a = analyzeFieldImport filePath x a"
| "analyzeFieldImport filePath _ a = a"

definition AnalyzeNeedsImports :: "string \<Rightarrow> field list \<Rightarrow> import_analyzer \<Rightarrow> import_analyzer" where
  "AnalyzeNeedsImports filePath fl a = fold (\<lambda>f. analyzeFieldImport filePath (fieldType f)) fl a"

text \<open>The used imports in the order the range over the map visits them are an argument.\<close>

definition AppendUsedImports :: "import_spec list \<Rightarrow> import_spec list \<Rightarrow> import_spec list" where
  "AppendUsedImports used decl =
     fold (\<lambda>spec specs. if is_Path spec \<in> is_Path ` set specs then specs else specs @ [spec]) used decl"

section \<open>Type names are read back\<close>

text \<open>
  A reader of Go's type syntax for names, qualified names, pointers, slices, channels and the empty
  interface; an arrow belongs to the leftmost chan, whatever the spaces.  plain is the part of the
  types whose names it reads back.
\<close>

definition is_name_char :: "char \<Rightarrow> bool" where
  "is_name_char c =
     (let n = of_char c :: nat in n = 95 \<or> (65 \<le> n \<and> n \<le> 90) \<or> (97 \<le> n \<and> n \<le> 122) \<or> (48 \<le> n \<and> n \<le> 57))"

definition is_name :: "string \<Rightarrow> bool" where
  "is_name n \<longleftrightarrow> n \<noteq> [] \<and> list_all is_name_char n \<and> n \<notin> {''chan'', ''interface'', ''func'', ''map'', ''struct''}"

definition read_name :: "string \<Rightarrow> expr option" where
  "read_name s =
     (let p = takeWhile is_name_char s; r = dropWhile is_name_char s
      in if r = [] \<and> is_name p then Some (Ident p)
         else if has_prefix r ''.'' \<and> is_name p \<and> is_name (drop 1 r) then Some (SelectorExpr (Ident p) (drop 1 r))
         else None)"

function read_type :: "string \<Rightarrow> expr option" where
  "read_type s =
     (if has_prefix s ''*'' then map_option StarExpr (read_type (drop 1 s))
      else if has_prefix s ''[]'' then map_option (ArrayType None) (read_type (drop 2 s))
      else if has_prefix s ''<-chan '' then map_option (ChanType RECV) (read_type (drop 7 s))
      else if has_prefix s ''chan<- '' then map_option (ChanType SEND) (read_type (drop 7 s))
      else if has_prefix s ''chan <-'' then map_option (ChanType SEND) (read_type (drop 7 s))
      else if has_prefix s ''chan '' then map_option (ChanType BOTH) (read_type (drop 5 s))
      else if s = ''interface{}'' then Some (InterfaceType [])
      else read_name s)"
  by auto
termination
  by (relation "measure length") (auto simp: has_prefix_iff)

declare read_type.simps [simp del]

fun plain :: "expr \<Rightarrow> bool" where
  "plain (Ident n) = is_name n"
| "plain (SelectorExpr (Ident p) n) = (is_name p \<and> is_name n)"
| "plain (StarExpr x) = plain x"
| "plain (ArrayType None x) = plain x"
| "plain (ChanType BOTH x) = (plain x \<and> (case x of ChanType RECV y \<Rightarrow> False | _ \<Rightarrow> True))"
| "plain (ChanType dir x) = plain x"
| "plain (InterfaceType ms) = (ms = [])"
| "plain _ = False"

lemma special_chars [simp]:
  "\<not> is_name_char CHR ''*''" "\<not> is_name_char CHR ''[''" "\<not> is_name_char CHR ''<''" "\<not> is_name_char CHR '' ''"
  "\<not> is_name_char CHR ''.''" "\<not> is_name_char CHR ''{''"
  by (simp_all add: is_name_char_def)

lemma prefix_set: "has_prefix s p \<Longrightarrow> set p \<subseteq> set s"
  by (auto simp: has_prefix_iff)

lemma read_type_name:
  assumes "list_all (\<lambda>c. is_name_char c \<or> c = CHR ''.'') s"
  shows "read_type s = read_name s"
proof -
  have n: "c \<notin> set s" if "\<not> is_name_char c" "c \<noteq> CHR ''.''" for c
    using assms that by (auto simp: list_all_iff)
  have "\<not> has_prefix s ''*''" "\<not> has_prefix s ''[]''" "\<not> has_prefix s ''<-chan ''" "\<not> has_prefix s ''chan<- ''"
    "\<not> has_prefix s ''chan <-''" "\<not> has_prefix s ''chan ''"
    using n by (auto dest!: prefix_set)
  moreover have "s \<noteq> ''interface{}''"
    using n [of "CHR ''{''"] by auto
  ultimately show ?thesis
    by (simp add: read_type.simps [of s])
qed

lemma name_chars: "is_name n \<Longrightarrow> list_all is_name_char n"
  by (simp add: is_name_def)

lemma read_name_Ident:
  assumes "is_name n"
  shows "read_name n = Some (Ident n)"
proof -
  have t: "takeWhile is_name_char n = n" and d: "dropWhile is_name_char n = []"
    using name_chars [OF assms] by (auto simp: list_all_iff takeWhile_eq_all_conv dropWhile_eq_Nil_conv)
  show ?thesis
    unfolding read_name_def t d Let_def using assms by simp
qed

lemma read_name_Selector:
  assumes "is_name p" "is_name n"
  shows "read_name (p @ CHR ''.'' # n) = Some (SelectorExpr (Ident p) n)"
proof -
  have "takeWhile is_name_char (p @ CHR ''.'' # n) = p" "dropWhile is_name_char (p @ CHR ''.'' # n) = CHR ''.'' # n"
    using name_chars [OF assms(1)] by (auto simp: list_all_iff takeWhile_append2 dropWhile_append2)
  then show ?thesis
    using assms by (simp add: read_name_def has_prefix_def Let_def)
qed

lemma name_no_arrow:
  assumes "is_name n"
  shows "\<not> has_prefix (n @ r) ''<-''"
proof -
  obtain c m where "n = c # m" "is_name_char c"
    using assms name_chars [OF assms] by (cases n) (simp_all add: is_name_def)
  then show ?thesis
    by (auto simp: has_prefix_def)
qed

lemma plain_no_arrow:
  assumes "plain x" "\<And>y. x \<noteq> ChanType RECV y"
  shows "\<not> has_prefix (GenerateTypeNameByExp x) ''<-''"
proof (cases x)
  case (Ident n)
  then show ?thesis
    using assms(1) name_no_arrow [of n "[]"] by simp
next
  case (SelectorExpr y n)
  then obtain p where p: "y = Ident p" "is_name p"
    using assms(1) by (cases y) simp_all
  then show ?thesis
    using SelectorExpr name_no_arrow [of p "''.'' @ n"] by simp
next
  case (ChanType dir y)
  then have "dir \<noteq> RECV"
    using assms(2) by blast
  then show ?thesis
    unfolding ChanType by (cases dir) (simp_all add: has_prefix_def)
next
  case (TypeAssertExpr y)
  then show ?thesis using assms(1) by simp
qed (simp_all add: has_prefix_def)

text \<open>
  The name GenerateTypeNameByExp prints for a type is the type again when it is read as Go, for
  names, qualified names, pointers, slices, channels and the empty interface in any nesting, except
  a two-way channel of receive channels.
\<close>

theorem type_name_round_trip:
  assumes "plain e"
  shows "read_type (GenerateTypeNameByExp e) = Some e"
  using assms
proof (induction e rule: plain.induct)
  case (1 n)
  then have "list_all (\<lambda>c. is_name_char c \<or> c = CHR ''.'') n"
    by (auto simp: is_name_def list_all_iff)
  then show ?case
    using 1 by (simp add: read_type_name read_name_Ident)
next
  case (2 p n)
  then have "list_all (\<lambda>c. is_name_char c \<or> c = CHR ''.'') (p @ CHR ''.'' # n)"
    by (auto simp: is_name_def list_all_iff)
  then show ?case
    using 2 by (simp add: read_type_name read_name_Selector)
next
  case (5 x)
  then have "\<not> has_prefix (GenerateTypeNameByExp x) ''<-''"
    by (intro plain_no_arrow) auto
  then show ?case
    using 5 by (subst read_type.simps) (simp add: has_prefix_def)
qed (auto simp: has_prefix_def read_type.simps [of "_ # _"])

section \<open>Names of parameters\<close>

definition blanks :: "field \<Rightarrow> nat" where
  "blanks f = length (filter (\<lambda>n. n = ''_'') (fieldNames f))"

definition names_of :: "field list \<Rightarrow> string list" where
  "names_of fs = concat (map fieldNames fs)"

lemma names_of_simps [simp]: "names_of [] = []" "names_of (f # fs) = fieldNames f @ names_of fs"
  by (simp_all add: names_of_def)

lemma infos_names: "map pi_Name (infos_of fs) = names_of fs"
  by (induction fs) (simp_all add: infos_of_def newParameterInfo_def o_def)

lemma nat_digits_inject [simp]: "nat_digits m = nat_digits n \<longleftrightarrow> m = n"
  using itoa_inject [of "int m" "int n"] by (simp add: itoa_def)

lemma defineName_inject [simp]: "defineName ft i = defineName ft j \<longleftrightarrow> i = j"
  by (simp add: defineName_def)

lemma defineName_prefix: "has_prefix (defineName ft i) ''skywalking_''"
  by (cases ft) (simp_all add: defineName_def has_prefix_def)

lemma defineName_not_blank [simp]: "defineName ft i \<noteq> ''_''" "''_'' \<noteq> defineName ft i"
  by (cases ft; simp add: defineName_def)+

lemma rename_no_blank: "filter (\<lambda>n. n = ''_'') ns = [] \<Longrightarrow> rename_blank d ns = ns"
  by (induction ns) (auto split: if_splits)

lemma rename_blank_once:
  assumes "length (filter (\<lambda>n. n = ''_'') ns) \<le> 1"
  shows "rename_blank d ns = map (\<lambda>n. if n = ''_'' then d else n) ns"
  using assms
proof (induction ns)
  case (Cons n ns)
  then show ?case
    by (cases "n = ''_''") (auto simp: filter_empty_conv intro!: map_idI [symmetric])
qed simp

lemma enhance_field_names:
  assumes "blanks f \<le> 1"
  shows "fieldNames (enhance_field ft i f) =
     (if fieldNames f = [] then [defineName ft i]
      else map (\<lambda>n. if n = ''_'' then defineName ft i else n) (fieldNames f))"
  using assms rename_blank_once by (simp add: enhance_field_def blanks_def)

lemma distinct_rename:
  assumes "length (filter (\<lambda>n. n = b) ns) \<le> 1" "distinct (filter (\<lambda>n. n \<noteq> b) ns)" "d \<notin> set ns"
  shows "distinct (map (\<lambda>n. if n = b then d else n) ns)"
  using assms
proof (induction ns)
  case (Cons n ns)
  then show ?case
    by (cases "n = b") (auto simp: filter_empty_conv)
qed simp

lemma enhanced_set:
  assumes "list_all (\<lambda>f. blanks f \<le> 1) fs" "n \<in> set (names_of (enhance_fields ft i fs))"
  shows "(n \<in> set (names_of fs) \<and> n \<noteq> ''_'') \<or> (\<exists>j\<ge>i. n = defineName ft j)"
  using assms
proof (induction fs arbitrary: i)
  case (Cons f fs)
  then consider "n \<in> set (fieldNames (enhance_field ft i f))" | "n \<in> set (names_of (enhance_fields ft (Suc i) fs))"
    by auto
  then show ?case
  proof cases
    case 1
    then show ?thesis
      using Cons.prems(1) by (auto simp: enhance_field_names split: if_splits)
  next
    case 2
    then show ?thesis
      using Cons.IH [of "Suc i"] Cons.prems(1) by (auto dest: Suc_leD)
  qed
qed simp

lemma enhanced_distinct:
  assumes "list_all (\<lambda>f. blanks f \<le> 1) fs" "distinct (filter (\<lambda>n. n \<noteq> ''_'') (names_of fs))"
    and "list_all (\<lambda>n. \<not> has_prefix n ''skywalking_'') (names_of fs)"
  shows "distinct (names_of (enhance_fields ft i fs))"
  using assms
proof (induction fs arbitrary: i)
  case (Cons f fs)
  let ?new = "fieldNames (enhance_field ft i f)" and ?rest = "names_of (enhance_fields ft (Suc i) fs)"
  have fresh: "defineName ft j \<notin> set (names_of (f # fs))" for j
    using Cons.prems(3) defineName_prefix by (auto simp: list_all_iff)
  have new: "?new = (if fieldNames f = [] then [defineName ft i] else map (\<lambda>n. if n = ''_'' then defineName ft i else n) (fieldNames f))"
    using Cons.prems(1) by (simp add: enhance_field_names)
  have "distinct ?new"
    using Cons.prems(1,2) fresh [of i] distinct_rename [of "''_''" "fieldNames f"] unfolding new by (simp add: blanks_def)
  moreover have "distinct ?rest"
    using Cons by simp
  moreover have "set ?new \<inter> set ?rest = {}"
  proof (rule ccontr)
    assume "set ?new \<inter> set ?rest \<noteq> {}"
    then obtain n where n: "n \<in> set ?new" "n \<in> set ?rest"
      by blast
    have "(n \<in> set (fieldNames f) \<and> n \<noteq> ''_'') \<or> n = defineName ft i"
      using n(1) unfolding new by (auto split: if_splits)
    moreover have "(n \<in> set (names_of fs) \<and> n \<noteq> ''_'') \<or> (\<exists>j\<ge>Suc i. n = defineName ft j)"
      using enhanced_set [OF _ n(2)] Cons.prems(1) by simp
    ultimately show False
      using fresh Cons.prems(2) by auto
  qed
  ultimately show ?case
    by simp
qed simp

lemma enhanced_length: "length (names_of (enhance_fields ft i fs)) = sum_list (map (\<lambda>f. max 1 (length (fieldNames f))) fs)"
proof (induction fs arbitrary: i)
  case (Cons f fs)
  have "length (rename_blank d ns) = length ns" for d ns
    by (induction ns) auto
  then show ?case
    using Cons by (cases "fieldNames f") (auto simp: enhance_field_def)
qed simp

text \<open>
  After EnhanceParameterNames every parameter of a signature has a name that can be used: the names
  it returns are pairwise distinct, none is the blank, and there is one for each parameter, as long
  as no field has two blanks, which would leave the second one without a name.
\<close>

theorem parameters_named:
  assumes "list_all (\<lambda>f. blanks f \<le> 1) fs" "distinct (filter (\<lambda>n. n \<noteq> ''_'') (names_of fs))"
    and "list_all (\<lambda>n. \<not> has_prefix n ''skywalking_'') (names_of fs)"
  shows "let ns = map pi_Name (snd (EnhanceParameterNames (Some fs) ft)) in
     distinct ns \<and> ''_'' \<notin> set ns \<and> length ns = sum_list (map (\<lambda>f. max 1 (length (fieldNames f))) fs)"
  using enhanced_distinct [OF assms, of ft 0] enhanced_set [OF assms(1), of "''_''" ft 0]
  by (auto simp: EnhanceParameterNames_def infos_names enhanced_length Let_def)

theorem parameters_named_witness:
  "let ns = map pi_Name (snd (EnhanceParameterNames
       (Some [Field [''a'', ''_''] (Ident ''int'') None, Field [] (Ident ''T'') None]) FieldListTypeParam))
   in distinct ns \<and> ''_'' \<notin> set ns \<and> length ns = 3"
  using parameters_named [of "[Field [''a'', ''_''] (Ident ''int'') None, Field [] (Ident ''T'') None]" FieldListTypeParam]
  by (simp add: blanks_def has_prefix_def)

lemma second_blank_unnamed:
  "map pi_Name (snd (EnhanceParameterNames (Some [Field [''_'', ''_''] t None]) FieldListTypeParam)) = [''skywalking_param_0'', ''_'']"
  by (simp add: EnhanceParameterNames_def infos_of_def enhance_field_def newParameterInfo_def defineName_def nat_digits.simps digit_char_def char_of_def bit_0)

theorem type_name_round_trip_witness:
  "read_type ''chan<- []*pkg.T'' = Some (ChanType SEND (ArrayType None (StarExpr (SelectorExpr (Ident ''pkg'') ''T''))))"
  using type_name_round_trip [of "ChanType SEND (ArrayType None (StarExpr (SelectorExpr (Ident ''pkg'') ''T'')))"]
  by (simp add: is_name_def is_name_char_def)

section \<open>Names that lose information\<close>

text \<open>
  What the printed names and identities do not keep: a map type has no name at all, grouped
  parameters of a function type count once, the length of an array is lost, a method of a receiver
  that is no pointer has no identity, and a function has the identity of a method whose receiver and
  name make up its name.
\<close>

theorem names_lose_information:
  "GenerateTypeNameByExp (StarExpr (MapType k v)) = ''*'' \<and>
   GenerateTypeNameByExp (FuncType [Field [a, b] (Ident n) None] []) = GenerateTypeNameByExp (FuncType [Field [a] (Ident n) None] []) \<and>
   GenerateTypeNameByExp (ArrayType (Some l) x) = GenerateTypeNameByExp (ArrayType None x) \<and>
   BuildFuncIdentity pkg \<lparr>fn_Recv = Some [Field [r] (Ident t) None], fn_Name = f, fn_Params = ps, fn_Results = rs\<rparr> = [] \<and>
   BuildFuncIdentity pkg \<lparr>fn_Recv = Some [Field [r] (StarExpr (Ident t)) None], fn_Name = f, fn_Params = ps, fn_Results = rs\<rparr> =
     BuildFuncIdentity pkg \<lparr>fn_Recv = None, fn_Name = t @ f, fn_Params = ps, fn_Results = rs\<rparr>"
  by (simp add: BuildFuncIdentity_def)

section \<open>Imports that are needed\<close>

text \<open>The package names a parameter type refers to, as far as the analysis descends.\<close>

fun package_refs :: "expr \<Rightarrow> string list" where
  "package_refs (SelectorExpr (Ident p) sel) = [p]"
| "package_refs (Ellipsis x) = package_refs x"
| "package_refs (ArrayType len x) = package_refs x"
| "package_refs (StarExpr x) = package_refs x"
| "package_refs (ChanType dir x) = package_refs x"
| "package_refs _ = []"

lemma analyze_imports [simp]: "ia_imports (analyzeFieldImport path t a) = ia_imports a"
  by (induction path t a rule: analyzeFieldImport.induct) (auto split: option.splits)

lemma analyze_used:
  "ia_usedImports (analyzeFieldImport path t a) p =
     (case ia_imports a path of
        None \<Rightarrow> ia_usedImports a p
      | Some imports \<Rightarrow> if p \<in> set (package_refs t) \<and> imports p \<noteq> None then imports p else ia_usedImports a p)"
  by (induction path t a rule: analyzeFieldImport.induct) (auto split: option.splits)

text \<open>
  After a file and a list of parameters were analysed, the imports noted are exactly those of the
  file whose name, or else the last element of whose path, a parameter type refers to.
\<close>

theorem needed_imports_found:
  "ia_usedImports (AnalyzeNeedsImports path fs (AnalyzeFileImports path specs CreateImportAnalyzer)) p =
     (if p \<in> set (concat (map (package_refs \<circ> fieldType) fs))
      then map_of (rev (map (\<lambda>s. (import_name s, s)) specs)) p else None)"
proof -
  have "ia_imports a path = Some m \<Longrightarrow>
      ia_usedImports (fold (\<lambda>f. analyzeFieldImport path (fieldType f)) fs a) p =
        (if p \<in> set (concat (map (package_refs \<circ> fieldType) fs)) \<and> m p \<noteq> None then m p else ia_usedImports a p)" for a m
    by (induction fs arbitrary: a) (auto simp: analyze_used)
  then show ?thesis
    by (simp add: AnalyzeNeedsImports_def AnalyzeFileImports_def CreateImportAnalyzer_def)
qed

end
