(* ===== verification/Plugin_Config.thy ===== *)
theory Plugin_Config
  imports Go_Syntax Agent_Config
begin

text \<open>
  The configuration of a plugin (tools/go-agent/instrument/plugins/enhance_config.go): a struct
  variable marked with a directive becomes a list of assignments, one for each field, that the
  generated code runs after the start of the agent.  The values come from the plugin part of the file
  (PluginConfig of config/loader.go) and are parsed by plugins/core/tools and plugins/core/tracer_tools.go.
\<close>

section \<open>The plugin part of the file\<close>

text \<open>
  A decoded YAML value: null, a map with distinct keys, or anything else, of which only the text that
  fmt prints for it is used.  A panic is its message.
\<close>

datatype yaml = YNull | YMap "(string \<times> yaml) list" | YOther string

definition yaml_get :: "(string \<times> yaml) list \<Rightarrow> string \<Rightarrow> yaml option" where
  "yaml_get m k = (case map_of m k of Some YNull \<Rightarrow> None | r \<Rightarrow> r)"

text \<open>The loop over the rest of the path: a panic, the early return of nil, or the value it ends with.\<close>

fun descend :: "string list \<Rightarrow> yaml option \<Rightarrow> string list \<Rightarrow> string + yaml option option" where
  "descend paths res [] = Inr (Some res)"
| "descend paths None (p # ps) = Inr None"
| "descend paths (Some (YMap m)) (p # ps) = descend paths (yaml_get m p) ps"
| "descend paths (Some y) (p # ps) = Inl (''cannot identity the path: %s'' @ join ''.'' paths)"

definition ParseToStringValue ::
  "(yaml \<Rightarrow> string) \<Rightarrow> (string \<times> yaml) list option \<Rightarrow> string list \<Rightarrow> string + string_value option" where
  "ParseToStringValue sprint data paths =
     (case paths of
        [] \<Rightarrow> Inr None
      | p # ps \<Rightarrow>
          (case descend paths (case data of None \<Rightarrow> None | Some m \<Rightarrow> yaml_get m p) ps of
             Inl e \<Rightarrow> Inl e
           | Inr None \<Rightarrow> Inr None
           | Inr (Some None) \<Rightarrow> Inl (''the value of path is not found: '' @ join ''.'' paths)
           | Inr (Some (Some res)) \<Rightarrow> Inr (Some (UnmarshalString (sprint res) no_value))))"

section \<open>The fields of the configuration struct\<close>

datatype config_field =
  ConfigField (cf_name: string) (cf_type: string) (cf_key: string) (cf_children: "config_field list")

text \<open>
  reflect.StructTag.Lookup: blanks, a key, a colon and a quoted value, again and again.  Unquoting a
  Go string is an argument.
\<close>

fun scan_quoted :: "string \<Rightarrow> (string \<times> string) option" where
  "scan_quoted [] = None"
| "scan_quoted (c # r) =
     (if c = CHR 0x22 then Some ([], r)
      else if c = CHR 0x5C then (case r of [] \<Rightarrow> None | d # r' \<Rightarrow> map_option (\<lambda>(v, rest). (c # d # v, rest)) (scan_quoted r'))
      else map_option (\<lambda>(v, rest). (c # v, rest)) (scan_quoted r))"

definition is_tag_char :: "char \<Rightarrow> bool" where
  "is_tag_char c \<longleftrightarrow> 32 < (of_char c :: nat) \<and> c \<noteq> CHR '':'' \<and> c \<noteq> CHR 0x22 \<and> c \<noteq> CHR 0x7F"

lemma scan_quoted_length: "scan_quoted s = Some (v, rest) \<Longrightarrow> length rest < length s"
  by (induction s arbitrary: v rest rule: scan_quoted.induct) (fastforce split: if_splits list.splits)+

function Lookup :: "(string \<Rightarrow> string option) \<Rightarrow> string \<Rightarrow> string \<Rightarrow> string option" where
  "Lookup unquote key tag =
     (let tag = dropWhile (\<lambda>c. c = CHR '' '') tag; name = takeWhile is_tag_char tag; r = dropWhile is_tag_char tag
      in if tag = [] \<or> name = [] \<or> \<not> has_prefix r [CHR '':'', CHR 0x22] then None
         else (case scan_quoted (drop 2 r) of
                 None \<Rightarrow> None
               | Some (v, rest) \<Rightarrow>
                   if key = name then unquote ([CHR 0x22] @ v @ [CHR 0x22]) else Lookup unquote key rest))"
  by auto
termination
proof (relation "measure (\<lambda>(unquote, key, tag). length tag)")
  fix unquote key tag tag' name r vr v rest
  assume "tag' = dropWhile (\<lambda>c. c = CHR '' '') tag" "r = dropWhile is_tag_char tag'"
    and s: "scan_quoted (drop 2 r) = Some vr" "(v, rest) = vr"
  then have "length r \<le> length tag"
    by (metis length_dropWhile_le order_trans)
  then have "length rest < length tag"
    using scan_quoted_length [of "drop 2 r" v rest] s by simp
  then show "((unquote, key, rest), (unquote, key, tag)) \<in> measure (\<lambda>(unquote, key, tag). length tag)"
    by simp
qed auto

declare Lookup.simps [simp del]

definition is_upper :: "char \<Rightarrow> bool" where
  "is_upper c \<longleftrightarrow> 65 \<le> (of_char c :: nat) \<and> (of_char c :: nat) \<le> 90"

text \<open>The loop with its index; names are ASCII.\<close>

fun default_key :: "nat \<Rightarrow> string \<Rightarrow> string" where
  "default_key i [] = []"
| "default_key i (r # rs) =
     (if is_upper r then (if i \<noteq> 0 then ''_'' else []) @ [to_lower r] else [r]) @ default_key (Suc i) rs"

definition generateDefaultKey :: "string \<Rightarrow> string" where
  "generateDefaultKey keyName = default_key 0 keyName"

definition initFlags :: "(string \<Rightarrow> string option) \<Rightarrow> string \<Rightarrow> string option \<Rightarrow> string" where
  "initFlags unquote name flagLit =
     (case flagLit of
        None \<Rightarrow> generateDefaultKey name
      | Some lit \<Rightarrow>
          (case Lookup unquote ''config'' lit of
             Some value \<Rightarrow> value
           | None \<Rightarrow> generateDefaultKey name))"

fun NewConfigField :: "(string \<Rightarrow> string option) \<Rightarrow> field \<Rightarrow> string + config_field"
  and NewConfigFields :: "(string \<Rightarrow> string option) \<Rightarrow> field list \<Rightarrow> string + config_field list"
  and new_fields :: "(string \<Rightarrow> string option) \<Rightarrow> field list \<Rightarrow> string + config_field list" where
  "NewConfigField unquote (Field [] t tag) = Inl ''the config structure must have named field''"
| "NewConfigField unquote (Field (n # ns) (Ident t) tag) = Inr (ConfigField n t (initFlags unquote n tag) [])"
| "NewConfigField unquote (Field (n # ns) (ArrayType len x) tag) =
     Inr (ConfigField n (GenerateTypeNameByExp (ArrayType len x)) (initFlags unquote n tag) [])"
| "NewConfigField unquote (Field (n # ns) (StructType fs) tag) =
     (case NewConfigFields unquote fs of
        Inl e \<Rightarrow> Inl e
      | Inr cs \<Rightarrow> Inr (ConfigField n [] (initFlags unquote n tag) cs))"
| "NewConfigField unquote (Field (n # ns) t tag) = Inl (''the config structure field '' @ n @ '' is not supported'')"
| "NewConfigFields unquote fs =
     (if fs = [] then Inl ''the config structure must have at least one field'' else new_fields unquote fs)"
| "new_fields unquote [] = Inr []"
| "new_fields unquote (f # fs) =
     (case NewConfigField unquote f of
        Inl e \<Rightarrow> Inl e
      | Inr c \<Rightarrow> (case new_fields unquote fs of Inl e \<Rightarrow> Inl e | Inr cs \<Rightarrow> Inr (c # cs)))"

text \<open>The comments before a declaration, None where the node has no decorations.\<close>

definition ContainsDirective :: "string list option \<Rightarrow> string \<Rightarrow> bool" where
  "ContainsDirective desc directive =
     (case desc of None \<Rightarrow> False | Some ss \<Rightarrow> list_ex (\<lambda>s. has_prefix s directive) ss)"

definition FindDirective :: "string list option \<Rightarrow> string \<Rightarrow> string" where
  "FindDirective desc directive =
     (case desc of
        None \<Rightarrow> []
      | Some ss \<Rightarrow> (case find (\<lambda>s. has_prefix s directive) ss of None \<Rightarrow> [] | Some s \<Rightarrow> s))"

definition DirectiveConfig :: string where
  "DirectiveConfig = ''//skywalking:config''"

record config_enhance =
  ce_ConfigPrefix :: string
  ce_VarName :: string
  ce_Fields :: "config_field list"
  ce_GenerateConfigFunName :: string

text \<open>What follows the first blank of the directive, if there is one.\<close>

definition second_part :: "string \<Rightarrow> string option" where
  "second_part s =
     (case dropWhile (\<lambda>c. c \<noteq> CHR '' '') s of [] \<Rightarrow> None | c # rest \<Rightarrow> Some rest)"

definition NewConfigEnhance ::
  "(string \<Rightarrow> string option) \<Rightarrow> string \<Rightarrow> string list option \<Rightarrow> string \<Rightarrow> expr \<Rightarrow> string + config_enhance" where
  "NewConfigEnhance unquote instName decorations varName varType =
     (let directive = FindDirective decorations DirectiveConfig
      in if directive = [] then Inl ''cannot find the config directive''
         else (case varType of
                 StructType fs \<Rightarrow>
                   (case NewConfigFields unquote fs of
                      Inl e \<Rightarrow> Inl e
                    | Inr cs \<Rightarrow>
                        Inr \<lparr>ce_ConfigPrefix = (case second_part directive of Some p \<Rightarrow> p | None \<Rightarrow> instName),
                             ce_VarName = varName, ce_Fields = cs, ce_GenerateConfigFunName = ''initConfig'' @ varName\<rparr>)
               | _ \<Rightarrow> Inl ''the config type must be a structure''))"

section \<open>The generated assignments\<close>

text \<open>
  One generated statement: the field it assigns, the declared type of the result, and the literals of
  its default and of the environment variable, which is empty when the statement does not look one up.
\<close>

record config_assignment =
  as_target :: string
  as_type :: string
  as_default :: string
  as_envKey :: string

definition config_types :: "string list" where
  "config_types = [''string'', ''bool'', ''int'', ''int16'', ''int32'', ''int64'', ''float32'', ''float64'', ''float'', ''[]string'']"

text \<open>A panic of the generator is its message; parse is ParseToStringValue on the loaded file.\<close>

fun GenerateAssignFieldValue ::
  "(string list \<Rightarrow> string + string_value option) \<Rightarrow> string \<Rightarrow> string list \<Rightarrow> string list \<Rightarrow> config_field \<Rightarrow> string + config_assignment list"
  and assign_children ::
  "(string list \<Rightarrow> string + string_value option) \<Rightarrow> string \<Rightarrow> string list \<Rightarrow> string list \<Rightarrow> config_field list \<Rightarrow> string + config_assignment list" where
  "GenerateAssignFieldValue parse varName fs ps (ConfigField n t k children) =
     (if children \<noteq> [] then assign_children parse varName (fs @ [n]) (ps @ [k]) children
      else (case parse (ps @ [k]) of
              Inl e \<Rightarrow> Inl e
            | Inr None \<Rightarrow> Inl (''cannot find the config '' @ join ''.'' (ps @ [k]))
            | Inr (Some v) \<Rightarrow>
                if t \<notin> set config_types then Inl (''unsupported config type '' @ t)
                else Inr [\<lparr>as_target = varName @ ''.'' @ join ''.'' (fs @ [n]), as_type = t, as_default = Default v, as_envKey = EnvKey v\<rparr>]))"
| "assign_children parse varName fs ps [] = Inr []"
| "assign_children parse varName fs ps (c # cs) =
     (case GenerateAssignFieldValue parse varName fs ps c of
        Inl e \<Rightarrow> Inl e
      | Inr as \<Rightarrow> (case assign_children parse varName fs ps cs of Inl e \<Rightarrow> Inl e | Inr bs \<Rightarrow> Inr (as @ bs)))"

definition BuildForDelegator :: "(string list \<Rightarrow> string + string_value option) \<Rightarrow> config_enhance \<Rightarrow> string + config_assignment list" where
  "BuildForDelegator parse e = assign_children parse (ce_VarName e) [] [ce_ConfigPrefix e] (ce_Fields e)"

section \<open>Running the assignments\<close>

text \<open>
  plugins/core/tools: an empty text is zero, and so is everything before the agent has started;
  otherwise the call reaches the tools of the tracer.  ParseFloat of package strconv is an argument.
\<close>

definition GetEnvValue :: "bool \<Rightarrow> (string \<Rightarrow> string) \<Rightarrow> string \<Rightarrow> string" where
  "GetEnvValue started getenv key = (if key = [] \<or> \<not> started then [] else getenv key)"

definition ParseBool :: "bool \<Rightarrow> string \<Rightarrow> bool" where
  "ParseBool started val = (if val = [] \<or> \<not> started then False else equal_fold val ''true'')"

definition tools_ParseInt :: "bool \<Rightarrow> string \<Rightarrow> int \<Rightarrow> nat \<Rightarrow> int \<times> num_error option" where
  "tools_ParseInt started val base bitSize =
     (if val = [] \<or> base = 0 \<or> bitSize = 0 \<or> \<not> started then (0, None) else parse_int val base bitSize)"

definition tools_ParseFloat :: "(string \<Rightarrow> nat \<Rightarrow> 'f option) \<Rightarrow> 'f \<Rightarrow> bool \<Rightarrow> string \<Rightarrow> nat \<Rightarrow> 'f option" where
  "tools_ParseFloat parseFloat zero started val bitSize =
     (if val = [] \<or> bitSize = 0 \<or> \<not> started then Some zero else parseFloat val bitSize)"

definition ParseStringArray :: "bool \<Rightarrow> string \<Rightarrow> string list" where
  "ParseStringArray started val =
     (if val = [] \<or> \<not> started then [] else split_on CHR '','' (remove_char CHR '' '' val))"

definition tools_Atoi :: "bool \<Rightarrow> string \<Rightarrow> int \<times> num_error option" where
  "tools_Atoi started s = (if s = [] \<or> \<not> started then (0, None) else atoi s)"

datatype 'f config_value = CString string | CBool bool | CInt int | CFloat 'f | CStrings "string list"

definition or_panic :: "int \<times> num_error option \<Rightarrow> 'f config_value go_run" where
  "or_panic r = (case r of (v, None) \<Rightarrow> Returns (CInt v) | (v, Some err) \<Rightarrow> Panics)"

text \<open>
  The function a statement calls.  ParseInt returns an int64 and ParseFloat a float64, which Go does
  not convert to the declared result, and there is no type float: those do not compile.
\<close>

definition run_assignment ::
  "(string \<Rightarrow> nat \<Rightarrow> 'f option) \<Rightarrow> 'f \<Rightarrow> bool \<Rightarrow> (string \<Rightarrow> string) \<Rightarrow> config_assignment \<Rightarrow> 'f config_value go_run" where
  "run_assignment parseFloat zero started getenv a =
     (let v = (if as_envKey a = [] then [] else GetEnvValue started getenv (as_envKey a));
          result = (if v \<noteq> [] then v else as_default a);
          t = as_type a
      in if t = ''string'' then Returns (CString result)
         else if t = ''bool'' then Returns (CBool (ParseBool started result))
         else if t = ''int'' then or_panic (tools_Atoi started result)
         else if t = ''int64'' then or_panic (tools_ParseInt started result 10 64)
         else if t = ''float64'' then
           (case tools_ParseFloat parseFloat zero started result 64 of None \<Rightarrow> Panics | Some x \<Rightarrow> Returns (CFloat x))
         else if t = ''[]string'' then Returns (CStrings (ParseStringArray started result))
         else NotCompiled)"

section \<open>Every field is assigned its own value\<close>

fun leaf_names :: "config_field \<Rightarrow> string list list" and leaf_keys :: "config_field \<Rightarrow> string list list" where
  "leaf_names (ConfigField n t k cs) = (if cs = [] then [[n]] else map (Cons n) (concat (map leaf_names cs)))"
| "leaf_keys (ConfigField n t k cs) = (if cs = [] then [[k]] else map (Cons k) (concat (map leaf_keys cs)))"

lemma assign_leaves:
  "GenerateAssignFieldValue parse var fs ps c = Inr as \<Longrightarrow>
     map as_target as = map (\<lambda>l. var @ ''.'' @ join ''.'' (fs @ l)) (leaf_names c) \<and>
     map (\<lambda>a. Inr (Some \<lparr>EnvKey = as_envKey a, Default = as_default a\<rparr>)) as = map (\<lambda>l. parse (ps @ l)) (leaf_keys c)"
  "assign_children parse var fs ps cs = Inr as \<Longrightarrow>
     map as_target as = map (\<lambda>l. var @ ''.'' @ join ''.'' (fs @ l)) (concat (map leaf_names cs)) \<and>
     map (\<lambda>a. Inr (Some \<lparr>EnvKey = as_envKey a, Default = as_default a\<rparr>)) as = map (\<lambda>l. parse (ps @ l)) (concat (map leaf_keys cs))"
proof (induction parse var fs ps c and parse var fs ps cs arbitrary: as and as
    rule: GenerateAssignFieldValue_assign_children.induct)
  case (1 parse varName fs ps n t k children)
  then show ?case
    by (auto split: if_splits sum.splits option.splits simp: o_def)
next
  case (3 parse varName fs ps c cs)
  then show ?case
    by (auto split: sum.splits)
qed simp

text \<open>
  When the generator does not panic, it assigns every leaf of the configuration struct exactly once
  and in order, however deeply nested, and each statement has the default and the environment
  variable of the value the file has at the path of its keys below the plugin's prefix.
\<close>

theorem fields_assigned:
  assumes "BuildForDelegator parse e = Inr as"
  shows "map as_target as = map (\<lambda>l. ce_VarName e @ ''.'' @ join ''.'' l) (concat (map leaf_names (ce_Fields e))) \<and>
     map (\<lambda>a. Inr (Some \<lparr>EnvKey = as_envKey a, Default = as_default a\<rparr>)) as =
       map (\<lambda>l. parse (ce_ConfigPrefix e # l)) (concat (map leaf_keys (ce_Fields e)))"
  using assign_leaves(2) [of parse "ce_VarName e" "[]" "[ce_ConfigPrefix e]" "ce_Fields e" as] assms
  by (simp add: BuildForDelegator_def)

section \<open>The tag that is not read\<close>

text \<open>
  A tag that begins with the key config, as every tag of the plugins does, never names a
  configuration item: the literal still has its quote, which becomes part of the first key, so the
  item is looked up under the default key of the field, whatever the tag says.
\<close>

theorem config_tag_ignored:
  assumes "list_all (\<lambda>c. c \<noteq> CHR 0x22 \<and> c \<noteq> CHR 0x5C) v"
  shows "initFlags unquote name (Some ([CHR 0x60] @ ''config:'' @ [CHR 0x22] @ v @ [CHR 0x22, CHR 0x60])) = generateDefaultKey name"
proof -
  have scan: "scan_quoted (v @ [CHR 0x22, CHR 0x60]) = Some (v, [CHR 0x60])"
    using assms by (induction v) auto
  have "Lookup unquote ''config'' [CHR 0x60] = None"
    by (simp add: Lookup.simps [of _ _ "[CHR 0x60]"] is_tag_char_def has_prefix_def)
  then show ?thesis
    by (simp add: initFlags_def Lookup.simps [of _ _ "_ # _"] is_tag_char_def has_prefix_def scan)
qed

theorem config_tag_ignored_witness:
  "initFlags (\<lambda>q. Some q) ''MaxArgs'' (Some ([CHR 0x60] @ ''config:'' @ [CHR 0x22] @ ''size'' @ [CHR 0x22, CHR 0x60])) = ''max_args''"
  by (subst config_tag_ignored) (simp_all add: generateDefaultKey_def is_upper_def to_lower_def char_of_def bit_0)

text \<open>The demo of the development guide: two values of the plugin http, one in a nested struct.\<close>

definition demo_enhance :: config_enhance where
  "demo_enhance = \<lparr>ce_ConfigPrefix = ''http'', ce_VarName = ''config'',
     ce_Fields = [ConfigField ''A'' ''bool'' ''a'' [], ConfigField ''Client'' [] ''client'' [ConfigField ''B'' ''int'' ''b'' []]],
     ce_GenerateConfigFunName = ''initConfigconfig''\<rparr>"

definition demo_parse :: "string list \<Rightarrow> string + string_value option" where
  "demo_parse = ParseToStringValue (\<lambda>y. case y of YOther s \<Rightarrow> s | _ \<Rightarrow> [])
     (Some [(''http'', YMap [(''a'', YOther ''${A:x}''), (''client'', YMap [(''b'', YOther ''7'')])])])"

lemma demo_assignments:
  "BuildForDelegator demo_parse demo_enhance =
     Inr [\<lparr>as_target = ''config.A'', as_type = ''bool'', as_default = ''x'', as_envKey = ''A''\<rparr>,
          \<lparr>as_target = ''config.Client.B'', as_type = ''int'', as_default = ''7'', as_envKey = []\<rparr>]"
  by code_simp

theorem fields_assigned_witness:
  "map (\<lambda>l. ''config.'' @ join ''.'' l) (concat (map leaf_names (ce_Fields demo_enhance))) = [''config.A'', ''config.Client.B'']"
  using fields_assigned [OF demo_assignments] by (simp add: demo_enhance_def)

text \<open>
  What a generated statement computes for each type it may declare: the environment first, then
  the default, parsed as the type says; a statement that declares int16, int32, float32 or float
  passes the generator and does not compile.
\<close>

theorem assignment_outcome:
  "run_assignment parseFloat zero True getenv \<lparr>as_target = x, as_type = t, as_default = d, as_envKey = k\<rparr> =
     (let r = (if k \<noteq> [] \<and> getenv k \<noteq> [] then getenv k else d)
      in if t \<in> {''int16'', ''int32'', ''float32'', ''float''} then NotCompiled
         else if t = ''string'' then Returns (CString r)
         else if t = ''bool'' then Returns (CBool (r \<noteq> [] \<and> equal_fold r ''true''))
         else if t = ''[]string'' then Returns (CStrings (if r = [] then [] else split_on CHR '','' (remove_char CHR '' '' r)))
         else if t = ''float64'' then
           (if r = [] then Returns (CFloat zero) else case parseFloat r 64 of None \<Rightarrow> Panics | Some v \<Rightarrow> Returns (CFloat v))
         else if t = ''int'' \<or> t = ''int64'' then
           (if r = [] then Returns (CInt 0) else case parse_int r 10 64 of (v, None) \<Rightarrow> Returns (CInt v) | (v, Some e) \<Rightarrow> Panics)
         else NotCompiled)"
proof -
  let ?r = "if k \<noteq> [] \<and> getenv k \<noteq> [] then getenv k else d"
  have r: "(let v = (if k = [] then [] else GetEnvValue True getenv k) in if v \<noteq> [] then v else d) = ?r"
    by (simp add: GetEnvValue_def)
  show ?thesis
    unfolding run_assignment_def Let_def config_assignment.simps
    by (simp add: r [unfolded Let_def] or_panic_def ParseBool_def tools_Atoi_def tools_ParseInt_def tools_ParseFloat_def
        ParseStringArray_def atoi_def)
qed

end
