(* ===== verification/Plugin_Match.thy ===== *)
theory Plugin_Match
  imports Go_Syntax Agent_Config
begin

text \<open>
  Which plugin instruments a compilation, and which declarations it enhances
  (tools/go-agent/instrument/plugins/instrument.go, tools/go-agent/tools/vendor.go and the matchers of
  plugins/core/instrument).

  A plugin is a record of what the methods of its interface return.  A filter is a function of the
  declaration that answers or panics (None); the other files of the package, which no filter reads,
  are left out.  A missing file or module is an error message.  Paths are those of Unix.
\<close>

section \<open>Matchers and filters\<close>

datatype enhance_type = EnhanceTypeMethod | EnhanceTypeStruct | EnhanceTypeForce

record type_spec =
  ts_Name :: string
  ts_Type :: expr

type_synonym method_filter = "func_decl \<Rightarrow> bool option"
type_synonym struct_filter = "type_spec \<Rightarrow> bool option"

record enhance_matcher =
  em_Type :: enhance_type
  em_Name :: string
  em_Receiver :: string
  em_MethodFilters :: "method_filter list"
  em_StructFilters :: "struct_filter list"
  em_ForceEnhance :: bool

definition NewStaticMethodEnhance :: "string \<Rightarrow> method_filter list \<Rightarrow> enhance_matcher" where
  "NewStaticMethodEnhance name filters =
     \<lparr>em_Type = EnhanceTypeMethod, em_Name = name, em_Receiver = [], em_MethodFilters = filters, em_StructFilters = [],
      em_ForceEnhance = False\<rparr>"

definition NewMethodEnhance :: "string \<Rightarrow> string \<Rightarrow> method_filter list \<Rightarrow> enhance_matcher" where
  "NewMethodEnhance receiver name filters =
     \<lparr>em_Type = EnhanceTypeMethod, em_Name = name, em_Receiver = receiver, em_MethodFilters = filters, em_StructFilters = [],
      em_ForceEnhance = False\<rparr>"

definition NewStructEnhance :: "string \<Rightarrow> struct_filter list \<Rightarrow> enhance_matcher" where
  "NewStructEnhance name filters =
     \<lparr>em_Type = EnhanceTypeStruct, em_Name = name, em_Receiver = [], em_MethodFilters = [], em_StructFilters = filters,
      em_ForceEnhance = False\<rparr>"

definition NewForceEnhance :: enhance_matcher where
  "NewForceEnhance =
     \<lparr>em_Type = EnhanceTypeForce, em_Name = [], em_Receiver = [], em_MethodFilters = [], em_StructFilters = [],
      em_ForceEnhance = True\<rparr>"

text \<open>The type names of the matchers differ from those of the tools in variadic parameters, functions and channels.\<close>

fun generateTypeNameByExp :: "expr \<Rightarrow> string" where
  "generateTypeNameByExp (StarExpr x) = ''*'' @ generateTypeNameByExp x"
| "generateTypeNameByExp (TypeAssertExpr x) = generateTypeNameByExp x"
| "generateTypeNameByExp (InterfaceType ms) = ''interface{}''"
| "generateTypeNameByExp (Ident n) = n"
| "generateTypeNameByExp (SelectorExpr x sel) = generateTypeNameByExp x @ ''.'' @ sel"
| "generateTypeNameByExp (Ellipsis x) = ''...'' @ generateTypeNameByExp x"
| "generateTypeNameByExp (ArrayType len x) = ''[]'' @ generateTypeNameByExp x"
| "generateTypeNameByExp _ = []"

definition verifyTypeName :: "expr \<Rightarrow> string \<Rightarrow> bool" where
  "verifyTypeName e val = (generateTypeNameByExp e = val)"

text \<open>The loop with its running result.\<close>

fun count_loop :: "field list \<Rightarrow> int \<Rightarrow> int" where
  "count_loop [] res = res"
| "count_loop (f # fs) res =
     (if fieldNames f = [] then count_loop fs (res + 1) else count_loop fs (res + int (length (fieldNames f))))"

definition fieldListParameterCount :: "field list option \<Rightarrow> int" where
  "fieldListParameterCount fl = (case fl of None \<Rightarrow> 0 | Some fs \<Rightarrow> count_loop fs 0)"

text \<open>The inner loop over the names of one field: the answer, or the index after them.\<close>

fun names_loop :: "nat \<Rightarrow> int \<Rightarrow> int \<Rightarrow> bool \<Rightarrow> bool + int" where
  "names_loop 0 inx realInx same = Inr realInx"
| "names_loop (Suc n) inx realInx same = (if realInx = inx then Inl same else names_loop n inx (realInx + 1) same)"

fun verify_loop :: "field list \<Rightarrow> int \<Rightarrow> string \<Rightarrow> int \<Rightarrow> bool" where
  "verify_loop [] inx typeStr realInx = False"
| "verify_loop (f # fs) inx typeStr realInx =
     (if fieldNames f = []
      then (if realInx = inx then verifyTypeName (fieldType f) typeStr else verify_loop fs inx typeStr (realInx + 1))
      else (case names_loop (length (fieldNames f)) inx realInx (verifyTypeName (fieldType f) typeStr) of
              Inl r \<Rightarrow> r
            | Inr i \<Rightarrow> verify_loop fs inx typeStr i))"

definition verifyTypeSameInFieldList :: "field list option \<Rightarrow> int \<Rightarrow> string \<Rightarrow> bool" where
  "verifyTypeSameInFieldList fl inx typeStr =
     (if fieldListParameterCount fl \<le> inx then False
      else (case fl of None \<Rightarrow> False | Some fs \<Rightarrow> verify_loop fs inx typeStr 0))"

definition WithArgsCount :: "int \<Rightarrow> method_filter" where
  "WithArgsCount argsCount decl = Some (fieldListParameterCount (Some (fn_Params decl)) = argsCount)"

definition WithResultCount :: "int \<Rightarrow> method_filter" where
  "WithResultCount resultCount decl = Some (fieldListParameterCount (fn_Results decl) = resultCount)"

definition WithArgType :: "int \<Rightarrow> string \<Rightarrow> method_filter" where
  "WithArgType argIndex dataType decl = Some (verifyTypeSameInFieldList (Some (fn_Params decl)) argIndex dataType)"

text \<open>A negative index of a function without results reads the list of a nil pointer.\<close>

definition WithResultType :: "int \<Rightarrow> string \<Rightarrow> method_filter" where
  "WithResultType argIndex dataType decl =
     (if fn_Results decl = None \<and> argIndex < 0 then None
      else Some (verifyTypeSameInFieldList (fn_Results decl) argIndex dataType))"

definition no_receiver :: "func_decl \<Rightarrow> bool" where
  "no_receiver decl = (fn_Recv decl = None \<or> fn_Recv decl = Some [])"

definition WithStaticMethod :: method_filter where
  "WithStaticMethod decl = Some (no_receiver decl)"

definition WithReceiverType :: "string \<Rightarrow> method_filter" where
  "WithReceiverType dataType decl =
     (case fn_Recv decl of
        Some (r # rs) \<Rightarrow> Some (verifyTypeName (fieldType r) dataType)
      | _ \<Rightarrow> Some False)"

text \<open>The first name of an embedded field is an index out of range.\<close>

fun field_exists :: "string \<Rightarrow> field list \<Rightarrow> bool option" where
  "field_exists name [] = Some False"
| "field_exists name (f # fs) =
     (case fieldNames f of
        [] \<Rightarrow> None
      | n # ns \<Rightarrow> if n = name then Some True else field_exists name fs)"

definition WithFieldExists :: "string \<Rightarrow> struct_filter" where
  "WithFieldExists fieldName structType =
     (case ts_Type structType of StructType fs \<Rightarrow> field_exists fieldName fs | _ \<Rightarrow> None)"

fun field_of_type :: "string \<Rightarrow> string \<Rightarrow> field list \<Rightarrow> bool option" where
  "field_of_type name tp [] = Some False"
| "field_of_type name tp (f # fs) =
     (if name = [] \<and> (fieldNames f = [] \<or> hd (fieldNames f) = name) then Some (verifyTypeName (fieldType f) tp)
      else (case fieldNames f of
              [] \<Rightarrow> None
            | n # ns \<Rightarrow> if n = name then Some (verifyTypeName (fieldType f) tp) else field_of_type name tp fs))"

definition WithFiledType :: "string \<Rightarrow> string \<Rightarrow> struct_filter" where
  "WithFiledType filedName filedType structType =
     (case ts_Type structType of StructType fs \<Rightarrow> field_of_type filedName filedType fs | _ \<Rightarrow> None)"

section \<open>Cutting strings\<close>

text \<open>strings.Cut: before and after the first occurrence of a separator that is not empty.\<close>

fun cut :: "string \<Rightarrow> string \<Rightarrow> (string \<times> string) option" where
  "cut sep [] = None"
| "cut sep (c # s) =
     (if has_prefix (c # s) sep then Some ([], drop (length sep) (c # s))
      else map_option (\<lambda>(b, a). (c # b, a)) (cut sep s))"

definition VendorDir :: string where
  "VendorDir = ''/vendor/''"

definition UnVendor :: "string \<Rightarrow> string" where
  "UnVendor path = (case cut VendorDir path of None \<Rightarrow> path | Some (b, a) \<Rightarrow> a)"

section \<open>Vendored modules\<close>

record vendor_module =
  vm_Name :: string
  vm_Version :: string

text \<open>strings.SplitAfterN with a blank and three parts: the second without its blank, and the third.\<close>

definition module_info :: "string \<Rightarrow> (string \<times> string) option" where
  "module_info s =
     (case cut '' '' s of
        None \<Rightarrow> None
      | Some (h, rest) \<Rightarrow> (case cut '' '' rest of None \<Rightarrow> None | Some (name, version) \<Rightarrow> Some (trim_space name, version)))"

fun parse_modules :: "string list \<Rightarrow> vendor_module option \<Rightarrow> (string \<rightharpoonup> vendor_module) \<Rightarrow> string + (string \<rightharpoonup> vendor_module)" where
  "parse_modules [] m modules = Inr modules"
| "parse_modules (line # lines) m modules =
     (let moduleString = trim_space line
      in if has_prefix moduleString ''# ''
         then (case module_info moduleString of
                 None \<Rightarrow> Inl ''module data cannot be analyzed''
               | Some (name, version) \<Rightarrow>
                   let v = \<lparr>vm_Name = name, vm_Version = version\<rparr>
                   in parse_modules lines (Some v) (modules(name \<mapsto> v)))
         else if has_prefix moduleString ''#'' \<or> moduleString = [] then parse_modules lines m modules
         else (case m of
                 None \<Rightarrow> Inl ''cannot found previous module data''
               | Some v \<Rightarrow> parse_modules lines m (modules(moduleString \<mapsto> v))))"

definition ParseVendorModule :: "(string \<Rightarrow> string + string) \<Rightarrow> string \<Rightarrow> string + (string \<rightharpoonup> vendor_module)" where
  "ParseVendorModule readFile path =
     (case readFile path of
        Inl err \<Rightarrow> Inl err
      | Inr content \<Rightarrow> parse_modules (split_on CHR 0x0A content) None Map.empty)"

definition tryToGetVersionByVendor :: "(string \<Rightarrow> string + string) \<Rightarrow> string \<Rightarrow> string \<Rightarrow> string + string" where
  "tryToGetVersionByVendor readFile goFilePath pkgName =
     (case cut (VendorDir @ pkgName) goFilePath of
        None \<Rightarrow> Inr []
      | Some (before, after) \<Rightarrow>
          (case ParseVendorModule readFile (before @ VendorDir @ ''modules.txt'') of
             Inl err \<Rightarrow> Inl err
           | Inr modules \<Rightarrow>
               (case modules pkgName of
                  None \<Rightarrow> Inl (''cannot found the current module in vendor: '' @ pkgName)
                | Some m \<Rightarrow> Inr (vm_Version m))))"

section \<open>Plugins\<close>

record point =
  pt_PackagePath :: string
  pt_At :: enhance_matcher
  pt_Interceptor :: string
  pt_PackageName :: string

record plugin =
  pg_Name :: string
  pg_BasePackage :: string
  pg_VersionChecker :: "string \<Rightarrow> bool"
  pg_Points :: "point list"

text \<open>
  module.EscapePath writes a capital letter as an exclamation mark and the small letter; a path it
  refuses gives the empty string.  It is an argument.  Only the first Go file among the arguments counts.
\<close>

fun tryToFindThePluginVersion ::
  "(string \<Rightarrow> string) \<Rightarrow> (string \<Rightarrow> string + string) \<Rightarrow> string list \<Rightarrow> plugin \<Rightarrow> string + string" where
  "tryToFindThePluginVersion escape readFile [] ins = Inr []"
| "tryToFindThePluginVersion escape readFile (arg # args) ins =
     (if \<not> has_suffix arg ''.go'' then tryToFindThePluginVersion escape readFile args ins
      else let escapedBasePkg = escape (pg_BasePackage ins)
           in (case tryToGetVersionByVendor readFile arg escapedBasePkg of
                 Inl err \<Rightarrow> Inl err
               | Inr vendor \<Rightarrow>
                   if vendor \<noteq> [] then Inr vendor
                   else (case cut escapedBasePkg arg of
                           None \<Rightarrow> Inr []
                         | Some (before, afterPkg) \<Rightarrow>
                             if \<not> has_prefix afterPkg ''@'' then Inr []
                             else (case cut ''/'' afterPkg of
                                     None \<Rightarrow> Inl ''could not found the first directory index''
                                   | Some (version, rest) \<Rightarrow> Inr (drop 1 version)))))"

record instrument_state =
  in_realInst :: "plugin option"
  in_methodFilters :: "point list"
  in_structFilters :: "point list"
  in_forceEnhance :: bool
  in_containsEnhance :: bool
  in_Package :: string

definition NewPluginInstrument :: instrument_state where
  "NewPluginInstrument =
     \<lparr>in_realInst = None, in_methodFilters = [], in_structFilters = [], in_forceEnhance = False,
      in_containsEnhance = False, in_Package = []\<rparr>"

definition add_point :: "point \<Rightarrow> instrument_state \<Rightarrow> instrument_state" where
  "add_point p i =
     (case em_Type (pt_At p) of
        EnhanceTypeMethod \<Rightarrow> i\<lparr>in_methodFilters := in_methodFilters i @ [p]\<rparr>
      | EnhanceTypeStruct \<Rightarrow> i\<lparr>in_structFilters := in_structFilters i @ [p]\<rparr>
      | EnhanceTypeForce \<Rightarrow> i\<lparr>in_forceEnhance := True\<rparr>)"

text \<open>version is the result of tryToFindThePluginVersion for the arguments of the compilation.\<close>

fun could_handle :: "string list \<Rightarrow> string \<Rightarrow> (plugin \<Rightarrow> string + string) \<Rightarrow> plugin list \<Rightarrow> instrument_state \<Rightarrow> instrument_state \<times> bool" where
  "could_handle excluded pkg version [] i = (i, False)"
| "could_handle excluded pkg version (ins # instruments) i =
     (if pg_Name ins \<in> set excluded then could_handle excluded pkg version instruments i
      else if \<not> has_prefix pkg (pg_BasePackage ins) then could_handle excluded pkg version instruments i
      else (case version ins of
              Inl err \<Rightarrow> could_handle excluded pkg version instruments i
            | Inr v \<Rightarrow>
                if pg_VersionChecker ins v
                then (fold add_point (pg_Points ins) (i\<lparr>in_realInst := Some ins, in_Package := pkg\<rparr>), True)
                else could_handle excluded pkg version instruments i))"

definition CouldHandle ::
  "(string \<Rightarrow> string) \<Rightarrow> (string \<Rightarrow> string + string) \<Rightarrow> string_value \<Rightarrow> (string \<Rightarrow> string) \<Rightarrow> plugin list \<Rightarrow>
   string \<Rightarrow> string list \<Rightarrow> instrument_state \<Rightarrow> instrument_state \<times> bool" where
  "CouldHandle escape readFile excludedValue getenv instruments pkg allArgs i =
     could_handle (GetListStringResult getenv excludedValue) pkg (tryToFindThePluginVersion escape readFile allArgs) instruments i"

section \<open>Matching declarations\<close>

text \<open>filepath.Join of a base package and a path below it; neither has dots or double slashes.\<close>

definition join_path :: "string \<Rightarrow> string \<Rightarrow> string" where
  "join_path a b = (if b = [] then a else if a = [] then b else a @ ''/'' @ b)"

definition verifyPackageIsMatch :: "instrument_state \<Rightarrow> point \<Rightarrow> bool" where
  "verifyPackageIsMatch i p =
     (case in_realInst i of None \<Rightarrow> False | Some ins \<Rightarrow> in_Package i = join_path (pg_BasePackage ins) (pt_PackagePath p))"

fun filters_pass :: "('d \<Rightarrow> bool option) list \<Rightarrow> 'd \<Rightarrow> bool option" where
  "filters_pass [] d = Some True"
| "filters_pass (f # fs) d =
     (case f d of None \<Rightarrow> None | Some b \<Rightarrow> if b then filters_pass fs d else Some False)"

definition validateStructIsMatch :: "enhance_matcher \<Rightarrow> type_spec \<Rightarrow> bool option" where
  "validateStructIsMatch matcher node =
     (if em_Name matcher \<noteq> ts_Name node then Some False
      else (case ts_Type node of
              StructType fs \<Rightarrow> filters_pass (em_StructFilters matcher) node
            | _ \<Rightarrow> Some False))"

definition validateMethodInsMatch :: "enhance_matcher \<Rightarrow> func_decl \<Rightarrow> bool option" where
  "validateMethodInsMatch matcher node =
     (if em_Name matcher \<noteq> fn_Name node then Some False
      else if em_Receiver matcher \<noteq> []
      then (case fn_Recv node of
              Some (r # rs) \<Rightarrow> Some (GenerateTypeNameByExp (fieldType r) = em_Receiver matcher)
            | _ \<Rightarrow> Some False)
      else filters_pass (em_MethodFilters matcher) node)"

datatype ast_node = TypeSpecNode type_spec | FuncDeclNode func_decl | OtherNode

datatype edit = EnhanceStruct point type_spec | EnhanceMethod point func_decl | NoEdit

text \<open>The first point that matches; None is a panic of a filter.\<close>

fun first_match :: "(point \<Rightarrow> bool option) \<Rightarrow> point list \<Rightarrow> point option option" where
  "first_match valid [] = Some None"
| "first_match valid (p # ps) =
     (case valid p of None \<Rightarrow> None | Some b \<Rightarrow> if b then Some (Some p) else first_match valid ps)"

definition matches_struct :: "instrument_state \<Rightarrow> type_spec \<Rightarrow> point \<Rightarrow> bool option" where
  "matches_struct i n p = (if verifyPackageIsMatch i p then validateStructIsMatch (pt_At p) n else Some False)"

definition matches_method :: "instrument_state \<Rightarrow> func_decl \<Rightarrow> point \<Rightarrow> bool option" where
  "matches_method i n p = (if verifyPackageIsMatch i p then validateMethodInsMatch (pt_At p) n else Some False)"

definition force_edit :: "instrument_state \<Rightarrow> instrument_state \<times> edit \<times> bool" where
  "force_edit i =
     (if in_forceEnhance i \<and> \<not> in_containsEnhance i then (i\<lparr>in_containsEnhance := True\<rparr>, NoEdit, True) else (i, NoEdit, False))"

text \<open>The state, the enhancement added, and the result.\<close>

definition FilterAndEdit :: "ast_node \<Rightarrow> instrument_state \<Rightarrow> (instrument_state \<times> edit \<times> bool) option" where
  "FilterAndEdit node i =
     (case node of
        TypeSpecNode n \<Rightarrow>
          (case first_match (matches_struct i n) (in_structFilters i) of
             None \<Rightarrow> None
           | Some (Some p) \<Rightarrow> Some (i\<lparr>in_containsEnhance := True\<rparr>, EnhanceStruct p n, True)
           | Some None \<Rightarrow> Some (force_edit i))
      | FuncDeclNode n \<Rightarrow>
          (case first_match (matches_method i n) (in_methodFilters i) of
             None \<Rightarrow> None
           | Some (Some p) \<Rightarrow> Some (i\<lparr>in_containsEnhance := True\<rparr>, EnhanceMethod p n, True)
           | Some None \<Rightarrow> Some (force_edit i))
      | OtherNode \<Rightarrow> Some (force_edit i))"

section \<open>Filters on parameters\<close>

text \<open>The type of each parameter, one entry for each name.\<close>

definition param_types :: "field list option \<Rightarrow> expr list" where
  "param_types fl =
     (case fl of None \<Rightarrow> [] | Some fs \<Rightarrow> concat (map (\<lambda>f. replicate (max 1 (length (fieldNames f))) (fieldType f)) fs))"

lemma count_loop_types: "count_loop fs res = res + int (length (param_types (Some fs)))"
proof (induction fs arbitrary: res)
  case (Cons f fs)
  then show ?case
    by (cases "fieldNames f") (auto simp: param_types_def)
qed (simp add: param_types_def)

lemma names_loop_result:
  "names_loop n inx realInx same = (if realInx \<le> inx \<and> inx < realInx + int n then Inl same else Inr (realInx + int n))"
  by (induction n inx realInx same rule: names_loop.induct) auto

lemma verify_loop_types:
  "verify_loop fs inx t i \<longleftrightarrow> i \<le> inx \<and> inx < i + int (length (param_types (Some fs))) \<and>
     generateTypeNameByExp (param_types (Some fs) ! nat (inx - i)) = t"
proof (induction fs arbitrary: i)
  case (Cons f fs)
  let ?n = "max 1 (length (fieldNames f))" and ?ts = "param_types (Some fs)"
  have types: "param_types (Some (f # fs)) = replicate ?n (fieldType f) @ ?ts"
    by (simp add: param_types_def)
  have loop: "verify_loop (f # fs) inx t i =
     (if i \<le> inx \<and> inx < i + int ?n then generateTypeNameByExp (fieldType f) = t else verify_loop fs inx t (i + int ?n))"
    by (cases "fieldNames f") (auto simp: names_loop_result verifyTypeName_def)
  show ?case
  proof (cases "i \<le> inx \<and> inx < i + int ?n")
    case True
    then show ?thesis
      unfolding loop types by (simp add: nth_append) linarith
  next
    case False
    have d: "nat (inx - (i + int n)) = nat (inx - i) - n" for n
      by arith
    show ?thesis
      using False unfolding loop types Cons.IH d by (auto simp: nth_append)
  qed
qed (simp add: param_types_def)

text \<open>
  The filters on parameters and results see one parameter for each name and one for a field without
  names: the count is their number, and the type filter holds exactly when the index is one of them
  and its type prints as the given text.
\<close>

theorem parameter_filters_decide:
  "fieldListParameterCount fl = int (length (param_types fl)) \<and>
   verifyTypeSameInFieldList fl inx t =
     (0 \<le> inx \<and> inx < int (length (param_types fl)) \<and> generateTypeNameByExp (param_types fl ! nat inx) = t)"
  by (cases fl) (auto simp: fieldListParameterCount_def verifyTypeSameInFieldList_def count_loop_types verify_loop_types param_types_def)

section \<open>Filters that are not asked\<close>

text \<open>
  A point that names a receiver never asks its filters: whatever they are, the method is matched by
  name and receiver type alone.  Without a receiver every filter must hold, in order, up to the first
  that fails or panics.
\<close>

theorem receiver_ignores_filters:
  "receiver \<noteq> [] \<Longrightarrow> validateMethodInsMatch (NewMethodEnhance receiver name filters) node =
     validateMethodInsMatch (NewMethodEnhance receiver name []) node"
  by (auto simp: validateMethodInsMatch_def NewMethodEnhance_def split: option.splits list.splits)

theorem receiver_ignores_filters_witness:
  "validateMethodInsMatch (NewMethodEnhance ''*T'' ''Do'' [WithArgsCount 9])
     \<lparr>fn_Recv = Some [Field [''t''] (StarExpr (Ident ''T'')) None], fn_Name = ''Do'', fn_Params = [], fn_Results = None\<rparr> = Some True"
  by (subst receiver_ignores_filters) (simp_all add: validateMethodInsMatch_def NewMethodEnhance_def)

text \<open>A filter for a field panics on a struct with an embedded field before it.\<close>

lemma embedded_field_panics:
  "WithFieldExists name \<lparr>ts_Name = s, ts_Type = StructType (Field [] t tag # fs)\<rparr> = None \<and>
   (name \<noteq> [] \<longrightarrow> WithFiledType name tp \<lparr>ts_Name = s, ts_Type = StructType (Field [] t tag # fs)\<rparr> = None)"
  by (simp add: WithFieldExists_def WithFiledType_def)

section \<open>The plugin that is chosen\<close>

definition eligible :: "string list \<Rightarrow> string \<Rightarrow> (plugin \<Rightarrow> string + string) \<Rightarrow> plugin \<Rightarrow> bool" where
  "eligible excluded pkg version ins \<longleftrightarrow>
     pg_Name ins \<notin> set excluded \<and> has_prefix pkg (pg_BasePackage ins) \<and>
     (case version ins of Inl e \<Rightarrow> False | Inr v \<Rightarrow> pg_VersionChecker ins v)"

definition points_of :: "enhance_type \<Rightarrow> plugin \<Rightarrow> point list" where
  "points_of t ins = filter (\<lambda>p. em_Type (pt_At p) = t) (pg_Points ins)"

lemma fold_points:
  "fold add_point ps i = i\<lparr>in_methodFilters := in_methodFilters i @ filter (\<lambda>p. em_Type (pt_At p) = EnhanceTypeMethod) ps,
     in_structFilters := in_structFilters i @ filter (\<lambda>p. em_Type (pt_At p) = EnhanceTypeStruct) ps,
     in_forceEnhance := in_forceEnhance i \<or> list_ex (\<lambda>p. em_Type (pt_At p) = EnhanceTypeForce) ps\<rparr>"
  by (induction ps arbitrary: i) (auto simp: add_point_def split: enhance_type.splits)

text \<open>
  A compilation is handled by the first registered plugin that is not excluded, whose base package
  begins the name of the package and which accepts the version found; the state then holds exactly
  the points of that plugin, sorted by their kind, and without such a plugin nothing changes.
\<close>

theorem plugin_chosen:
  "could_handle excluded pkg version instruments NewPluginInstrument =
     (case find (eligible excluded pkg version) instruments of
        None \<Rightarrow> (NewPluginInstrument, False)
      | Some ins \<Rightarrow>
          (\<lparr>in_realInst = Some ins, in_methodFilters = points_of EnhanceTypeMethod ins,
            in_structFilters = points_of EnhanceTypeStruct ins, in_forceEnhance = (points_of EnhanceTypeForce ins \<noteq> []),
            in_containsEnhance = False, in_Package = pkg\<rparr>, True))"
  by (induction instruments)
    (auto simp: eligible_def points_of_def fold_points NewPluginInstrument_def list_ex_iff filter_empty_conv split: sum.splits)

lemma first_match_Some: "first_match v ps = Some (Some p) \<Longrightarrow> p \<in> set ps \<and> v p = Some True"
  by (induction ps) (auto split: option.splits if_splits)

text \<open>
  What is enhanced was asked for: an edit of a method is by a point of the plugin for methods, for
  this package, with the name of the method and, when the point names one, its receiver type; and a
  struct is a struct type of the point's name in the point's package.
\<close>

theorem edits_asked_for:
  "case FilterAndEdit node i of
     Some (i', EnhanceMethod p n, r) \<Rightarrow>
       r \<and> node = FuncDeclNode n \<and> p \<in> set (in_methodFilters i) \<and> verifyPackageIsMatch i p \<and> em_Name (pt_At p) = fn_Name n \<and>
       (em_Receiver (pt_At p) = [] \<or>
        (\<exists>f rest. fn_Recv n = Some (f # rest) \<and> GenerateTypeNameByExp (fieldType f) = em_Receiver (pt_At p)))
   | Some (i', EnhanceStruct p n, r) \<Rightarrow>
       r \<and> node = TypeSpecNode n \<and> p \<in> set (in_structFilters i) \<and> verifyPackageIsMatch i p \<and> em_Name (pt_At p) = ts_Name n \<and>
       (\<exists>fs. ts_Type n = StructType fs)
   | _ \<Rightarrow> True"
proof (cases node)
  case (TypeSpecNode n)
  show ?thesis
  proof (cases "first_match (matches_struct i n) (in_structFilters i)")
    case (Some r)
    then show ?thesis
      using TypeSpecNode first_match_Some [of "matches_struct i n" "in_structFilters i"]
      by (cases r) (fastforce simp: FilterAndEdit_def force_edit_def matches_struct_def validateStructIsMatch_def
          split: if_splits expr.splits)+
  qed (simp add: FilterAndEdit_def TypeSpecNode)
next
  case (FuncDeclNode n)
  show ?thesis
  proof (cases "first_match (matches_method i n) (in_methodFilters i)")
    case (Some r)
    then show ?thesis
      using FuncDeclNode first_match_Some [of "matches_method i n" "in_methodFilters i"]
      by (cases r) (fastforce simp: FilterAndEdit_def force_edit_def matches_method_def validateMethodInsMatch_def
          split: if_splits option.splits list.splits)+
  qed (simp add: FilterAndEdit_def FuncDeclNode)
qed (simp add: FilterAndEdit_def force_edit_def)

section \<open>The vendored modules are read back\<close>

text \<open>A module of the file: its name, its version with whatever follows, and its packages.\<close>

type_synonym module_entry = "string \<times> string \<times> string list"

fun module_lines :: "module_entry \<Rightarrow> string list" where
  "module_lines (name, version, pkgs) = [''# '' @ name @ '' '' @ version, ''## explicit''] @ pkgs"

definition modules_txt :: "module_entry list \<Rightarrow> string" where
  "modules_txt mods = join [newline] (concat (map module_lines mods))"

fun module_map :: "module_entry \<Rightarrow> (string \<times> vendor_module) list" where
  "module_map (name, version, pkgs) = map (\<lambda>k. (k, \<lparr>vm_Name = name, vm_Version = version\<rparr>)) (name # pkgs)"

definition word :: "string \<Rightarrow> bool" where
  "word s \<longleftrightarrow> s \<noteq> [] \<and> list_all (\<lambda>c. \<not> is_space c) s \<and> hd s \<noteq> CHR ''#''"

definition version_text :: "string \<Rightarrow> bool" where
  "version_text v \<longleftrightarrow> v \<noteq> [] \<and> \<not> is_space (last v) \<and> newline \<notin> set v"

fun module_entry_ok :: "module_entry \<Rightarrow> bool" where
  "module_entry_ok (name, version, pkgs) \<longleftrightarrow> word name \<and> version_text version \<and> list_all word pkgs"

lemma newline_space [simp]: "is_space newline" "is_space CHR '' ''" "\<not> is_space CHR ''#''"
  by (simp_all add: is_space_def newline_def)

lemma trim_ends:
  assumes "s \<noteq> []" "\<not> is_space (hd s)" "\<not> is_space (last s)"
  shows "trim_space s = s"
proof -
  obtain t c where t: "s = t @ [c]"
    using assms(1) by (cases s rule: rev_cases) auto
  have "dropWhile is_space s = s"
    using assms(1,2) by (cases s) auto
  then show ?thesis
    using assms(3) by (simp add: trim_space_def t)
qed

lemma trim_word: "word s \<Longrightarrow> trim_space s = s"
  by (intro trim_ends) (auto simp: word_def list_all_iff)

lemma cut_blank: "CHR '' '' \<notin> set a \<Longrightarrow> cut '' '' (a @ '' '' @ b) = Some (a, b)"
  by (induction a) (auto simp: has_prefix_def)

lemma word_no_blank: "word s \<Longrightarrow> CHR '' '' \<notin> set s" "word s \<Longrightarrow> newline \<notin> set s"
  by (auto simp: word_def list_all_iff newline_def is_space_def)

lemma module_line:
  assumes "word name" "version_text version"
  shows "trim_space (''# '' @ name @ '' '' @ version) = ''# '' @ name @ '' '' @ version"
    and "module_info (''# '' @ name @ '' '' @ version) = Some (name, version)"
proof -
  show "trim_space (''# '' @ name @ '' '' @ version) = ''# '' @ name @ '' '' @ version"
    using assms by (intro trim_ends) (auto simp: version_text_def)
  have "cut '' '' (''# '' @ name @ '' '' @ version) = Some (''#'', name @ '' '' @ version)"
    by (simp add: has_prefix_def)
  then show "module_info (''# '' @ name @ '' '' @ version) = Some (name, version)"
    using cut_blank [OF word_no_blank(1) [OF assms(1)], of version] trim_word [OF assms(1)] by (simp add: module_info_def)
qed

lemma parse_packages:
  "list_all word pkgs \<Longrightarrow>
   parse_modules (pkgs @ lines) (Some v) modules = parse_modules lines (Some v) (put_all modules (map (\<lambda>k. (k, v)) pkgs))"
proof (induction pkgs arbitrary: modules)
  case (Cons p pkgs)
  then have "trim_space p = p" "p \<noteq> []" "hd p \<noteq> CHR ''#''"
    using trim_word by (auto simp: word_def)
  moreover from this have "\<not> has_prefix p ''#''" "\<not> has_prefix p ''# ''"
    by (cases p; auto simp: has_prefix_def)+
  ultimately show ?case
    using Cons by (simp add: Let_def)
qed simp

lemma explicit_line: "trim_space ''## explicit'' = ''## explicit''"
  by (rule trim_ends) (simp_all add: is_space_def)

lemma put_all_append: "put_all m (xs @ ys) = put_all (put_all m xs) ys"
  by (induction xs arbitrary: m) auto

lemma parse_module_entries:
  "list_all module_entry_ok mods \<Longrightarrow>
   \<exists>m'. parse_modules (concat (map module_lines mods)) m modules = Inr (put_all modules (concat (map module_map mods)))"
proof (induction mods arbitrary: m modules)
  case (Cons e mods)
  obtain name version pkgs where e: "e = (name, version, pkgs)"
    by (cases e)
  let ?v = "\<lparr>vm_Name = name, vm_Version = version\<rparr>"
  have ok: "word name" "version_text version" "list_all word pkgs"
    using Cons.prems by (simp_all add: e)
  have "parse_modules (module_lines e @ lines) m modules =
      parse_modules lines (Some ?v) (put_all modules (module_map e))" for lines
    using module_line [OF ok(1,2)] explicit_line parse_packages [OF ok(3)] by (simp add: e Let_def has_prefix_def)
  then show ?case
    using Cons by (simp add: put_all_append)
qed simp

lemma module_lines_no_newline:
  "module_entry_ok e \<Longrightarrow> list_all (\<lambda>l. newline \<notin> set l) (module_lines e)"
proof (cases e)
  case (fields name version pkgs)
  moreover assume "module_entry_ok e"
  ultimately show ?thesis
    using word_no_blank(2) by (auto simp: list_all_iff version_text_def newline_def)
qed

text \<open>
  A file modules.txt is read back: every module and every package listed below it is found with the
  name and the version of its module, what follows a replaced module's version included.
\<close>

theorem vendor_modules_round_trip:
  assumes "list_all module_entry_ok mods" "mods \<noteq> []"
  shows "ParseVendorModule (\<lambda>path. Inr (modules_txt mods)) path = Inr (put_all Map.empty (concat (map module_map mods)))"
proof -
  have n: "list_all (\<lambda>l. newline \<notin> set l) (concat (map module_lines mods))"
    using assms(1) module_lines_no_newline by (fastforce simp: list_all_iff)
  have "concat (map module_lines mods) \<noteq> []"
    using assms(2) by (cases mods) (auto simp: module_lines.simps split: prod.splits)
  then have "split_on newline (modules_txt mods) = concat (map module_lines mods)"
    using n split_on_join unfolding modules_txt_def by (simp add: list_all_iff)
  then show ?thesis
    using parse_module_entries [OF assms(1), of None Map.empty] by (simp add: ParseVendorModule_def newline_def)
qed

theorem vendor_modules_round_trip_witness:
  "\<exists>m. ParseVendorModule (\<lambda>path. Inr (modules_txt [(''g.com/a'', ''v1.0 => b v2'', [''g.com/a/x'']), (''h'', ''v3'', [])])) ''p'' = Inr m \<and>
     map_option vm_Version (m ''g.com/a/x'') = Some ''v1.0 => b v2'' \<and> m ''y'' = None"
  by (subst vendor_modules_round_trip) (simp_all add: word_def version_text_def newline_def is_space_def)

section \<open>The version in a path\<close>

definition occurs_before :: "string \<Rightarrow> string \<Rightarrow> string \<Rightarrow> bool" where
  "occurs_before sep a b \<longleftrightarrow> (\<exists>k<length a. has_prefix (drop k (a @ sep @ b)) sep)"

lemma cut_first: "sep \<noteq> [] \<Longrightarrow> \<not> occurs_before sep a b \<Longrightarrow> cut sep (a @ sep @ b) = Some (a, b)"
proof (induction a)
  case Nil
  then show ?case by (cases sep) (auto simp: has_prefix_def)
next
  case (Cons c a)
  have n: "\<not> has_prefix (drop k ((c # a) @ sep @ b)) sep" if "k < Suc (length a)" for k
    using Cons.prems(2) that by (auto simp: occurs_before_def)
  have "\<not> has_prefix (c # a @ sep @ b) sep"
    using n [of 0] by simp
  moreover have "\<not> occurs_before sep a b"
    using n [of "Suc k" for k] by (auto simp: occurs_before_def)
  ultimately show ?case
    using Cons.IH Cons.prems(1) by simp
qed

text \<open>
  For a package of the module cache the version of the plugin's framework is the one in the path of
  the first Go file of the compilation: what stands between @ and the next slash after the escaped
  base package.
\<close>

theorem version_found:
  assumes "escape (pg_BasePackage ins) = e" "e \<noteq> []" "\<not> occurs_before e dir (''@'' @ version @ ''/'' @ file)"
    and "cut (VendorDir @ e) (dir @ e @ ''@'' @ version @ ''/'' @ file) = None" "CHR ''/'' \<notin> set version"
    and "has_suffix file ''.go''" "list_all (\<lambda>a. \<not> has_suffix a ''.go'') flags"
  shows "tryToFindThePluginVersion escape readFile (flags @ (dir @ e @ ''@'' @ version @ ''/'' @ file) # others) ins = Inr version"
  using assms(7)
proof (induction flags)
  case Nil
  let ?arg = "dir @ e @ ''@'' @ version @ ''/'' @ file"
  have s: "has_suffix ?arg ''.go''"
    using assms(6) unfolding has_suffix_iff by auto
  have c: "cut e ?arg = Some (dir, ''@'' @ version @ ''/'' @ file)"
    using cut_first [OF assms(2,3)] by simp
  have "\<not> occurs_before ''/'' (''@'' @ version) file"
  proof
    assume "occurs_before ''/'' (''@'' @ version) file"
    then obtain k where k: "k < length (''@'' @ version)" "has_prefix (drop k ((''@'' @ version) @ ''/'' @ file)) ''/''"
      by (auto simp: occurs_before_def)
    then have "((''@'' @ version) @ ''/'' @ file) ! k = CHR ''/''"
      by (auto simp: has_prefix_iff Cons_nth_drop_Suc [symmetric] dest!: arg_cong [where f = hd])
    then have "CHR ''/'' \<in> set (''@'' @ version)"
      using k(1) by (metis nth_append nth_mem)
    then show False
      using assms(5) by simp
  qed
  then have "cut ''/'' (''@'' @ version @ ''/'' @ file) = Some (''@'' @ version, file)"
    using cut_first [of "''/''" "''@'' @ version" "file"] by simp
  then show ?case
    using s c assms(1,4) by (simp add: tryToGetVersionByVendor_def Let_def has_prefix_def)
qed simp

definition demo_plugin :: plugin where
  "demo_plugin = \<lparr>pg_Name = ''x'', pg_BasePackage = ''g/x'', pg_VersionChecker = \<lambda>v. True, pg_Points = []\<rparr>"

theorem version_found_witness:
  "tryToFindThePluginVersion (\<lambda>p. p) (\<lambda>p. Inl ''none'') [''-p'', ''/m/g/x@v1/a.go''] demo_plugin = Inr ''v1''"
proof -
  have "\<not> occurs_before ''g/x'' ''/m/'' ''@v1/a.go''"
  proof
    assume "occurs_before ''g/x'' ''/m/'' ''@v1/a.go''"
    then obtain k where "k < 3" "has_prefix (drop k ''/m/g/x@v1/a.go'') ''g/x''"
      by (auto simp: occurs_before_def eval_nat_numeral)
    moreover from this have "k = 0 \<or> k = 1 \<or> k = 2"
      by arith
    ultimately show False
      by (auto simp: has_prefix_def)
  qed
  moreover have "cut (VendorDir @ ''g/x'') ''/m/g/x@v1/a.go'' = None"
    by (simp add: VendorDir_def has_prefix_def)
  ultimately show ?thesis
    using version_found [of "\<lambda>p. p" demo_plugin "''g/x''" "''/m/''" "''v1''" "''a.go''" "[''-p'']" "\<lambda>p. Inl ''none''" "[]"]
    by (simp add: demo_plugin_def has_suffix_def)
qed

end
