(* ===== verification/Agent_Flags.thy ===== *)
theory Agent_Flags
  imports Strconv
begin

text \<open>
  The command line of the agent tool (tools/go-agent/tools/flags.go, cmd/main.go and
  instrument/api/flags.go).  The go command runs the tool with its own options, the path of a
  compiler and the arguments of that compiler; the tool parses them, decides what to do, and runs
  the compiler with what the instrumentation made of its arguments.

  A struct of flags is a map from the tag of a field to its value.  None is a panic.
\<close>

section \<open>Flags\<close>

datatype flag_value = FString string | FBool bool | FStrings "string list"

type_synonym flags = "string \<rightharpoonup> flag_value"

text \<open>strings.SplitN with the separator = and at most two parts.\<close>

definition split_eq :: "string \<Rightarrow> string \<times> string option" where
  "split_eq s =
     (takeWhile (\<lambda>c. c \<noteq> CHR ''='') s,
      case dropWhile (\<lambda>c. c \<noteq> CHR ''='') s of [] \<Rightarrow> None | c # v \<Rightarrow> Some v)"

text \<open>The flags, the shift, and whether the argument is an option.\<close>

definition parseFlag :: "flags \<Rightarrow> string \<Rightarrow> string \<Rightarrow> (flags \<times> nat \<times> bool) option" where
  "parseFlag fl curArg nextArg =
     (case curArg of
        [] \<Rightarrow> None
      | c # cs \<Rightarrow>
          if c \<noteq> CHR ''-'' then Some (fl, 1, False)
          else (case split_eq curArg of (opt, val) \<Rightarrow>
                  (case fl opt of
                     None \<Rightarrow>
                       if val \<noteq> None then Some (fl, 1, True)
                       else if nextArg = [] \<or> (1 < length nextArg \<and> hd nextArg \<noteq> CHR ''-'') then Some (fl, 2, True)
                       else Some (fl, 1, True)
                   | Some v \<Rightarrow>
                       (case val of
                          Some x \<Rightarrow> (case v of FString y \<Rightarrow> Some (fl(opt \<mapsto> FString x), 1, True) | _ \<Rightarrow> None)
                        | None \<Rightarrow>
                            (case v of
                               FString y \<Rightarrow> Some (fl(opt \<mapsto> FString nextArg), 2, True)
                             | FBool b \<Rightarrow> Some (fl(opt \<mapsto> FBool True), 1, True)
                             | FStrings y \<Rightarrow> Some (fl, 1, True))))))"

lemma parseFlag_shift: "parseFlag fl cur nxt = Some (fl', shift, opt) \<Longrightarrow> 0 < shift"
  by (auto simp: parseFlag_def split: list.splits if_splits option.splits flag_value.splits prod.splits)

text \<open>The loop from index i: the flags, the index it stops at and that of the first argument that is no option.\<close>

function parse_loop :: "string list \<Rightarrow> flags \<Rightarrow> nat \<Rightarrow> nat option \<Rightarrow> (flags \<times> nat \<times> nat option) option" where
  "parse_loop args fl i first =
     (if i < length args - 1
      then (case parseFlag fl (args ! i) (args ! Suc i) of
              None \<Rightarrow> None
            | Some (fl', shift, isOption) \<Rightarrow>
                parse_loop args fl' (i + shift) (if \<not> isOption \<and> first = None then Some i else first))
      else Some (fl, i, first))"
  by auto
termination
  by (relation "measure (\<lambda>(args, fl, i, first). length args - i)") (auto dest!: parseFlag_shift)

declare parse_loop.simps [simp del]

text \<open>The result -1 is None.  Without a tagged field the result is 0.\<close>

definition ParseFlags :: "flags \<Rightarrow> string list \<Rightarrow> (string + flags \<times> nat option) option" where
  "ParseFlags fl args =
     (if args = [] then Some (Inl ''no args'')
      else if fl = Map.empty then Some (Inr (fl, Some 0))
      else (case parse_loop args fl 0 None of
              None \<Rightarrow> None
            | Some (fl, i, first) \<Rightarrow>
                (case (if i < length args then map_option fst (parseFlag fl (args ! i) []) else Some fl) of
                   None \<Rightarrow> None
                 | Some fl \<Rightarrow>
                     Some (Inr (if fl ''all-args'' = None then fl else fl(''all-args'' \<mapsto> FStrings args), first)))))"

text \<open>filepath.Base and filepath.Ext on Unix, and ParseProxyCommandName.\<close>

definition filepath_Base :: "string \<Rightarrow> string" where
  "filepath_Base p =
     (let q = rev (dropWhile (\<lambda>c. c = CHR ''/'') (rev p))
      in if p = [] then ''.'' else if q = [] then ''/'' else last (split_on CHR ''/'' q))"

definition filepath_Ext :: "string \<Rightarrow> string" where
  "filepath_Ext s =
     (let e = last (split_on CHR ''/'' s)
      in case last_index CHR ''.'' e of None \<Rightarrow> [] | Some i \<Rightarrow> drop i e)"

definition ParseProxyCommandName :: "string list \<Rightarrow> nat \<Rightarrow> string" where
  "ParseProxyCommandName args firstNonOptionIndex =
     (if args = [] then []
      else let cmd = filepath_Base (args ! firstNonOptionIndex); ext = filepath_Ext cmd
           in take (length cmd - length ext) cmd)"

section \<open>The tool\<close>

definition EnhancementToolFlags :: flags where
  "EnhancementToolFlags =
     [''-h'' \<mapsto> FBool False, ''-debug'' \<mapsto> FString [], ''-config'' \<mapsto> FString [], ''-inject'' \<mapsto> FString [],
      ''-all'' \<mapsto> FBool False, ''-version'' \<mapsto> FBool False]"

definition CompileOptions :: flags where
  "CompileOptions =
     [''-p'' \<mapsto> FString [], ''-o'' \<mapsto> FString [], ''all-args'' \<mapsto> FStrings [], ''-lang'' \<mapsto> FString [], ''-debug'' \<mapsto> FString []]"

definition string_flag :: "flags \<Rightarrow> string \<Rightarrow> string" where
  "string_flag fl t = (case fl t of Some (FString s) \<Rightarrow> s | _ \<Rightarrow> [])"

definition bool_flag :: "flags \<Rightarrow> string \<Rightarrow> bool" where
  "bool_flag fl t = (fl t = Some (FBool True))"

text \<open>
  What main does last: leave with a message, inject the agent into a project, or run a command.  The
  file system, the loading of the configuration and the instrumentation answer through arguments:
  stat gives whether a path is a directory, execute new arguments or an error.
\<close>

datatype tool_end =
  PanicEnd | UsageExit | VersionExit | InjectEnd "string option" | DebugPathEnd | FatalEnd string | Run "string list"

definition tool_main ::
  "(flags \<Rightarrow> string option) \<Rightarrow> (string \<Rightarrow> bool option) \<Rightarrow> (string \<Rightarrow> string option) \<Rightarrow>
   (flags \<Rightarrow> string list \<Rightarrow> string + string list) \<Rightarrow> string list \<Rightarrow> tool_end" where
  "tool_main inject stat loadConfig execute args =
     (case ParseFlags EnhancementToolFlags args of
        None \<Rightarrow> PanicEnd
      | Some (Inl e) \<Rightarrow> UsageExit
      | Some (Inr (fl, first)) \<Rightarrow>
          if bool_flag fl ''-h'' then UsageExit
          else if string_flag fl ''-inject'' \<noteq> [] then InjectEnd (inject fl)
          else if bool_flag fl ''-version'' then VersionExit
          else (case first of
                  None \<Rightarrow> UsageExit
                | Some k \<Rightarrow>
                    if string_flag fl ''-debug'' \<noteq> [] \<and> stat (string_flag fl ''-debug'') \<noteq> Some True then DebugPathEnd
                    else if ParseProxyCommandName args k \<noteq> ''compile'' then Run (drop k args)
                    else (case loadConfig (string_flag fl ''-config'') of
                            Some e \<Rightarrow> FatalEnd e
                          | None \<Rightarrow>
                              (case ParseFlags CompileOptions args of
                                 None \<Rightarrow> PanicEnd
                               | Some (Inl e) \<Rightarrow> Run (drop k args)
                               | Some (Inr (co, _)) \<Rightarrow>
                                   (case execute co args of
                                      Inl e \<Rightarrow> FatalEnd e
                                    | Inr args' \<Rightarrow> Run (drop k args'))))))"

section \<open>The version of the language\<close>

definition CheckGoVersionGreaterOrEqual :: "string \<Rightarrow> int \<Rightarrow> int \<Rightarrow> bool" where
  "CheckGoVersionGreaterOrEqual lang requiredMajor requiredMinor =
     (if lang = [] \<or> \<not> has_prefix lang ''go'' then False
      else let parts = split_on CHR ''.'' (drop 2 lang)
           in if length parts < 2 then False
              else (case (parse_int (parts ! 0) 10 64, parse_int (parts ! 1) 10 64) of
                      ((currentMajor, None), (currentMinor, None)) \<Rightarrow>
                        requiredMajor < currentMajor \<or> (currentMajor = requiredMajor \<and> requiredMinor \<le> currentMinor)
                    | _ \<Rightarrow> False))"

text \<open>A compilation the instrumentation can handle names its package and its output.\<close>

definition options_IsValid :: "flags \<Rightarrow> bool" where
  "options_IsValid co \<longleftrightarrow> string_flag co ''-p'' \<noteq> [] \<and> string_flag co ''-o'' \<noteq> []"

section \<open>Versions\<close>

lemma itoa_digits: "0 \<le> i \<Longrightarrow> CHR ''.'' \<notin> set (itoa i)"
  by (rule itoa_no_char) simp_all

text \<open>
  The check of the language version compares major and minor number lexicographically, for every
  version go<major>.<minor> with or without a patch, in numbers below 2 to the 63.
\<close>

theorem version_check_correct:
  assumes "0 \<le> a" "a < 2 ^ 63" "0 \<le> b" "b < 2 ^ 63" "rest = [] \<or> hd rest = CHR ''.''"
  shows "CheckGoVersionGreaterOrEqual (''go'' @ itoa a @ ''.'' @ itoa b @ rest) M N =
     (M < a \<or> (M = a \<and> N \<le> b))"
proof -
  have p: "split_on CHR ''.'' (itoa a @ CHR ''.'' # itoa b @ rest) = itoa a # split_on CHR ''.'' (itoa b @ rest)"
    using itoa_digits [OF assms(1)] by (simp add: split_on_append)
  have "\<exists>ps. split_on CHR ''.'' (itoa b @ rest) = itoa b # ps"
    using itoa_digits [OF assms(3)] assms(5) by (cases rest) (auto simp: split_on_append)
  moreover have "parse_int (itoa a) 10 64 = (a, None)" "parse_int (itoa b) 10 64 = (b, None)"
    using parse_int_itoa [of 10 63 a] parse_int_itoa [of 10 63 b] assms by simp_all
  ultimately show ?thesis
    by (auto simp: CheckGoVersionGreaterOrEqual_def p has_prefix_def)
qed

theorem version_check_correct_witness:
  "CheckGoVersionGreaterOrEqual ''go1.21.3'' 1 20 \<and> \<not> CheckGoVersionGreaterOrEqual ''go1.21.3'' 2 0"
  using version_check_correct [of 1 21 "''.3''" 1 20] version_check_correct [of 1 21 "''.3''" 2 0]
  by (simp add: itoa_def nat_digits.simps digit_char_def char_of_def bit_0)

section \<open>The command among the options\<close>

text \<open>The options a user may put before the command: a text flag and its value, a switch, or name=value.\<close>

datatype opt_item = OText string string | OSwitch string | OAssign string string

fun render :: "opt_item \<Rightarrow> string list" where
  "render (OText n v) = [n, v]"
| "render (OSwitch n) = [n]"
| "render (OAssign n v) = [n @ CHR ''='' # v]"

definition option_name :: "string \<Rightarrow> bool" where
  "option_name n \<longleftrightarrow> n \<noteq> [] \<and> hd n = CHR ''-'' \<and> CHR ''='' \<notin> set n"

fun known :: "flags \<Rightarrow> opt_item \<Rightarrow> bool" where
  "known fl (OText n v) = (option_name n \<and> (case fl n of Some (FString x) \<Rightarrow> True | _ \<Rightarrow> False))"
| "known fl (OSwitch n) = (option_name n \<and> (case fl n of Some (FBool x) \<Rightarrow> True | _ \<Rightarrow> False))"
| "known fl (OAssign n v) = (option_name n \<and> (case fl n of Some (FString x) \<Rightarrow> True | _ \<Rightarrow> False))"

fun set_item :: "opt_item \<Rightarrow> flags \<Rightarrow> flags" where
  "set_item (OText n v) fl = fl(n \<mapsto> FString v)"
| "set_item (OSwitch n) fl = fl(n \<mapsto> FBool True)"
| "set_item (OAssign n v) fl = fl(n \<mapsto> FString v)"

definition renders :: "opt_item list \<Rightarrow> string list" where
  "renders items = concat (map render items)"

lemma renders_simps [simp]: "renders [] = []" "renders (it # items) = render it @ renders items"
  by (simp_all add: renders_def)

lemma split_eq_name: "CHR ''='' \<notin> set n \<Longrightarrow> split_eq n = (n, None)"
  by (induction n) (auto simp: split_eq_def split: list.splits)

lemma split_eq_assign: "CHR ''='' \<notin> set n \<Longrightarrow> split_eq (n @ CHR ''='' # v) = (n, Some v)"
  by (induction n) (auto simp: split_eq_def)

lemma parse_option:
  assumes "option_name n"
  shows "parseFlag fl (n @ s) nxt =
    (case split_eq (n @ s) of (opt, val) \<Rightarrow>
       (case fl opt of
          None \<Rightarrow>
            if val \<noteq> None then Some (fl, 1, True)
            else if nxt = [] \<or> (1 < length nxt \<and> hd nxt \<noteq> CHR ''-'') then Some (fl, 2, True)
            else Some (fl, 1, True)
        | Some v \<Rightarrow>
            (case val of
               Some x \<Rightarrow> (case v of FString y \<Rightarrow> Some (fl(opt \<mapsto> FString x), 1, True) | _ \<Rightarrow> None)
             | None \<Rightarrow>
                 (case v of
                    FString y \<Rightarrow> Some (fl(opt \<mapsto> FString nxt), 2, True)
                  | FBool b \<Rightarrow> Some (fl(opt \<mapsto> FBool True), 1, True)
                  | FStrings y \<Rightarrow> Some (fl, 1, True)))))"
  using assms by (cases n) (simp_all add: parseFlag_def option_name_def)

lemma parse_known:
  assumes "known fl it" "render it = cur # more"
  shows "parseFlag fl cur (if more = [] then nxt else hd more) = Some (set_item it fl, length (render it), True)"
proof (cases it)
  case (OText n v)
  then show ?thesis
    using assms parse_option [of n fl "[]" v] by (auto simp: split_eq_name option_name_def split: option.splits flag_value.splits)
next
  case (OSwitch n)
  then show ?thesis
    using assms parse_option [of n fl "[]" nxt] by (auto simp: split_eq_name option_name_def split: option.splits flag_value.splits)
next
  case (OAssign n v)
  then show ?thesis
    using assms parse_option [of n fl "CHR ''='' # v" nxt] by (auto simp: split_eq_assign option_name_def split: option.splits flag_value.splits)
qed

lemma known_set: "known fl it \<Longrightarrow> known fl it' \<Longrightarrow> known (set_item it fl) it'"
  by (cases it; cases it') (auto split: option.splits flag_value.splits)

lemma loop_items:
  assumes "list_all (known fl) items" "rest \<noteq> []"
  shows "parse_loop (pre @ renders items @ rest) fl (length pre) None =
    parse_loop (pre @ renders items @ rest) (fold set_item items fl) (length pre + length (renders items)) None"
  using assms
proof (induction items arbitrary: fl pre)
  case (Cons it items)
  let ?args = "pre @ renders (it # items) @ rest"
  obtain cur more where r: "render it = cur # more"
    by (cases it) simp_all
  have more: "more = [] \<or> (\<exists>v. more = [v])"
    using r by (cases it) auto
  let ?nxt = "(renders items @ rest) ! 0"
  have "?args ! length pre = cur" "?args ! Suc (length pre) = (if more = [] then ?nxt else hd more)"
    using r more by (auto simp: nth_append)
  moreover have "length pre < length ?args - 1"
    using r more Cons.prems(2) by (cases rest) auto
  ultimately have "parse_loop ?args fl (length pre) None =
      parse_loop ?args (set_item it fl) (length pre + length (render it)) None"
    using parse_known [OF _ r, of fl ?nxt] Cons.prems(1) by (subst parse_loop.simps) simp
  also have "\<dots> = parse_loop ?args (fold set_item (it # items) fl) (length pre + length (renders (it # items))) None"
    using Cons.IH [of "set_item it fl" "pre @ render it"] Cons.prems
    by (auto simp: list_all_iff known_set add.assoc)
  finally show ?case .
qed simp

lemma loop_first: "parse_loop args fl i (Some k) = Some (fl', j, first) \<Longrightarrow> first = Some k"
proof (induction args fl i "Some k" arbitrary: fl' j first rule: parse_loop.induct)
  case (1 args fl i)
  show ?case
  proof (cases "i < length args - 1")
    case False
    then show ?thesis
      using "1.prems" by (simp add: parse_loop.simps [of _ _ i])
  next
    case True
    then obtain fl2 shift opt where p: "parseFlag fl (args ! i) (args ! Suc i) = Some (fl2, shift, opt)"
      "parse_loop args fl2 (i + shift) (Some k) = Some (fl', j, first)"
      using "1.prems" by (subst (asm) parse_loop.simps) (auto split: option.splits)
    then show ?thesis
      using "1.hyps" [OF True p(1) refl refl] by simp
  qed
qed

lemma command_found_step:
  assumes "list_all (known fl) items" "cmd \<noteq> []" "hd cmd \<noteq> CHR ''-''" "rest \<noteq> []"
    and "ParseFlags fl (renders items @ cmd # rest) = Some (Inr (fl', first))" "fl \<noteq> Map.empty"
  shows "first = Some (length (renders items))"
proof -
  let ?args = "renders items @ cmd # rest" and ?k = "length (renders items)"
  have l: "parse_loop ?args fl 0 None = parse_loop ?args (fold set_item items fl) ?k None"
    using loop_items [of fl items "cmd # rest" "[]"] assms(1) by simp
  have "parseFlag g cmd nxt = Some (g, 1, False)" for g nxt
    using assms(2,3) by (cases cmd) (simp_all add: parseFlag_def)
  then have c: "parse_loop ?args (fold set_item items fl) ?k None = parse_loop ?args (fold set_item items fl) (?k + 1) (Some ?k)"
    using assms(4) by (subst parse_loop.simps) (simp add: nth_append)
  obtain g j fst' where p: "parse_loop ?args fl 0 None = Some (g, j, fst')" "first = fst'"
    using assms(5,6) by (auto simp: ParseFlags_def split: option.splits)
  then show ?thesis
    using loop_first [of ?args "fold set_item items fl" "?k + 1" ?k g j fst'] l c by simp
qed

text \<open>
  Whatever known options stand before it, the parser finds the command: the index it returns is
  that of the first argument after the options, if at least one argument follows the command and
  parsing ends at all.
\<close>

theorem command_found:
  assumes "list_all (known fl) items" "cmd \<noteq> []" "hd cmd \<noteq> CHR ''-''" "rest \<noteq> []" "fl \<noteq> Map.empty"
    and "ParseFlags fl (renders items @ cmd # rest) = Some (Inr (fl', first))"
  shows "first = Some (length (renders items))"
  using command_found_step [OF assms(1-4,6,5)] .

text \<open>
  Every tool of the toolchain but the compiler is run with its own arguments and nothing else: the
  options of the agent are cut off, the rest is passed on unchanged.
\<close>

theorem other_commands_untouched:
  assumes "list_all (known EnhancementToolFlags) items" "cmd \<noteq> []" "hd cmd \<noteq> CHR ''-''" "rest \<noteq> []"
    and "ParseFlags EnhancementToolFlags (renders items @ cmd # rest) = Some (Inr (fl, first))"
    and "\<not> bool_flag fl ''-h''" "string_flag fl ''-inject'' = []" "\<not> bool_flag fl ''-version''" "string_flag fl ''-debug'' = []"
    and "ParseProxyCommandName (renders items @ cmd # rest) (length (renders items)) \<noteq> ''compile''"
  shows "tool_main inject stat loadConfig execute (renders items @ cmd # rest) = Run (cmd # rest)"
proof -
  have "EnhancementToolFlags \<noteq> Map.empty"
    by (metis EnhancementToolFlags_def fun_upd_same option.distinct(1))
  then have "first = Some (length (renders items))"
    using command_found_step assms(1-5) by blast
  then show ?thesis
    using assms(5-) by (simp add: tool_main_def)
qed

section \<open>Examples and limits\<close>

definition demo_args :: "string list" where
  "demo_args = renders [OAssign ''-config'' ''a.yaml'', OText ''-debug'' []] @ ''/t/link'' # [''-o'', ''x'']"

lemma tool_flags_not_empty: "EnhancementToolFlags \<noteq> Map.empty"
  by (metis EnhancementToolFlags_def fun_upd_same option.distinct(1))

lemma tool_flags_simps [simp]:
  "EnhancementToolFlags ''-o'' = None" "EnhancementToolFlags ''all-args'' = None"
  "EnhancementToolFlags ''-all'' = Some (FBool False)" "EnhancementToolFlags ''-config'' = Some (FString [])"
  "EnhancementToolFlags ''-debug'' = Some (FString [])"
  by (simp_all add: EnhancementToolFlags_def)

lemma demo_parse:
  "ParseFlags EnhancementToolFlags demo_args =
     Some (Inr (EnhancementToolFlags(''-config'' \<mapsto> FString ''a.yaml'', ''-debug'' \<mapsto> FString []), Some 3))"
proof -
  let ?items = "[OAssign ''-config'' ''a.yaml'', OText ''-debug'' []]"
  have "parse_loop demo_args EnhancementToolFlags 0 None = parse_loop demo_args (fold set_item ?items EnhancementToolFlags) 3 None"
    using loop_items [of EnhancementToolFlags ?items "''/t/link'' # [''-o'', ''x'']" "[]"] by (simp add: demo_args_def option_name_def eval_nat_numeral)
  also have "\<dots> = Some (fold set_item ?items EnhancementToolFlags, 5, Some 3)"
    by (simp add: demo_args_def parse_loop.simps [of _ _ 3] parse_loop.simps [of _ _ 4] parse_loop.simps [of _ _ 5]
        parseFlag_def split_eq_def)
  finally show ?thesis
    using tool_flags_not_empty by (simp add: ParseFlags_def) (simp add: demo_args_def parseFlag_def)
qed

theorem command_found_witness:
  "\<exists>fl'. ParseFlags EnhancementToolFlags demo_args =
     Some (Inr (fl', Some (length (renders [OAssign ''-config'' ''a.yaml'', OText ''-debug'' []]))))"
  using command_found [of EnhancementToolFlags "[OAssign ''-config'' ''a.yaml'', OText ''-debug'' []]" "''/t/link''" "[''-o'', ''x'']"]
    demo_parse unfolding demo_args_def
  by (auto simp: option_name_def EnhancementToolFlags_def)

theorem other_commands_untouched_witness:
  "tool_main inject stat loadConfig execute demo_args = Run [''/t/link'', ''-o'', ''x'']"
  unfolding demo_args_def
  by (rule other_commands_untouched [OF _ _ _ _ demo_parse [unfolded demo_args_def]])
    (simp_all add: option_name_def EnhancementToolFlags_def bool_flag_def string_flag_def ParseProxyCommandName_def
      filepath_Base_def filepath_Ext_def)

text \<open>A switch given a value, and an empty argument where an option is expected, stop the tool with a panic.\<close>

lemma switch_value_panics:
  "fl n = Some (FBool b) \<Longrightarrow> option_name n \<Longrightarrow> parseFlag fl (n @ CHR ''='' # v) nxt = None"
  using parse_option [of n fl "CHR ''='' # v" nxt] by (simp add: split_eq_assign option_name_def)

text \<open>A command without any argument is not found.\<close>

lemma lone_command_missed:
  "cmd \<noteq> [] \<Longrightarrow> hd cmd \<noteq> CHR ''-'' \<Longrightarrow> fl \<noteq> Map.empty \<Longrightarrow> fl ''all-args'' = None \<Longrightarrow>
   ParseFlags fl [cmd] = Some (Inr (fl, None))"
  by (cases cmd) (simp_all add: ParseFlags_def parse_loop.simps parseFlag_def)

text \<open>
  The tool stops with a panic when one of its switches is given a value, as in -all=true, whatever
  follows: the value is stored as a text in a boolean field.
\<close>

theorem switch_with_value_panics:
  "tool_main inject stat loadConfig execute ((''-all='' @ v) # arg # args) = PanicEnd"
proof -
  have "parseFlag EnhancementToolFlags (''-all='' @ v) nxt = None" for nxt
    using switch_value_panics [of EnhancementToolFlags "''-all''" False v nxt] by (simp add: option_name_def)
  then show ?thesis
    using tool_flags_not_empty by (simp add: tool_main_def ParseFlags_def parse_loop.simps)
qed

end
