(* ===== verification/Agent_Inject.thy ===== *)
theory Agent_Inject
  imports Prelude
begin

text \<open>
  The injection of the agent into a project (tools/go-agent/cmd/injector.go): which modules and main
  packages of a directory tree it finds, which files it writes, and the import added to a single file.

  A directory has a name, whether it has an entry go.mod, and its subdirectories in the order of their
  names; its Go files, in the same order, are a separate state, since the injection adds to them.  A
  file that does not parse has no package or no imports.  Directories can be read; the command go get
  answers through an argument.
\<close>

section \<open>Directories and files\<close>

datatype dir = Dir (dir_name: string) (has_mod: bool) (subdirs: "dir list")

record go_file =
  gf_name :: string
  gf_package :: "string option"
  gf_imports :: "string list option"

type_synonym files = "string \<Rightarrow> go_file list"

definition sub_path :: "string \<Rightarrow> dir \<Rightarrow> string" where
  "sub_path path d = path @ ''/'' @ dir_name d"

text \<open>Only the first file is looked at; an error is treated like a package that is not main.\<close>

definition containsMainPackageInCurrentDirectory :: "files \<Rightarrow> string \<Rightarrow> bool" where
  "containsMainPackageInCurrentDirectory files dir =
     (case files dir of [] \<Rightarrow> False | f # fs \<Rightarrow> gf_package f = Some ''main'')"

section \<open>Finding the projects\<close>

record project =
  ProjectPath :: string
  MainPackageDirs :: "string list"

text \<open>
  The variables of findProjects.  The stack holds positions in the result, which are pointers in the
  code; its last element comes first.
\<close>

record find_state =
  fs_result :: "project list"
  fs_stack :: "nat list"
  fs_prefix :: string

definition new_find_state :: find_state where
  "new_find_state = \<lparr>fs_result = [], fs_stack = [], fs_prefix = []\<rparr>"

datatype visit_end = VPanic | VSkipDir find_state | VContinue find_state

text \<open>The function WalkDir calls for a directory.  base is the last element of the path.\<close>

definition visit :: "bool \<Rightarrow> (string \<Rightarrow> bool) \<Rightarrow> string \<Rightarrow> string \<Rightarrow> bool \<Rightarrow> find_state \<Rightarrow> visit_end" where
  "visit all isMain path base hasMod st =
     (if has_prefix base ''.'' then VSkipDir st
      else (case (if fs_prefix st \<noteq> [] \<and> \<not> has_prefix path (fs_prefix st)
                  then (case fs_stack st of
                          tp # nx # rest \<Rightarrow>
                            Some (st\<lparr>fs_stack := nx # rest, fs_prefix := ProjectPath (fs_result st ! nx)\<rparr>)
                        | _ \<Rightarrow> None)
                  else Some st) of
              None \<Rightarrow> VPanic
            | Some st \<Rightarrow>
                if hasMod \<and> fs_stack st \<noteq> [] \<and> \<not> all then VSkipDir st
                else let st = (if hasMod
                        then st\<lparr>fs_result := fs_result st @ [\<lparr>ProjectPath = path, MainPackageDirs = []\<rparr>],
                                fs_stack := length (fs_result st) # fs_stack st, fs_prefix := path\<rparr>
                        else st)
                     in if \<not> isMain path then VContinue st
                        else (case fs_stack st of
                                [] \<Rightarrow> VPanic
                              | tp # rest \<Rightarrow>
                                  VContinue (st\<lparr>fs_result := (fs_result st)[tp :=
                                    (fs_result st ! tp)\<lparr>MainPackageDirs := MainPackageDirs (fs_result st ! tp) @ [path]\<rparr>]\<rparr>))))"

fun walk :: "bool \<Rightarrow> (string \<Rightarrow> bool) \<Rightarrow> string \<Rightarrow> dir \<Rightarrow> find_state \<Rightarrow> find_state option"
  and walk_all :: "bool \<Rightarrow> (string \<Rightarrow> bool) \<Rightarrow> string \<Rightarrow> dir list \<Rightarrow> find_state \<Rightarrow> find_state option" where
  "walk all isMain path (Dir base hasMod ds) st =
     (case visit all isMain path base hasMod st of
        VPanic \<Rightarrow> None
      | VSkipDir st \<Rightarrow> Some st
      | VContinue st \<Rightarrow> walk_all all isMain path ds st)"
| "walk_all all isMain path [] st = Some st"
| "walk_all all isMain path (d # ds) st =
     (case walk all isMain (path @ ''/'' @ dir_name d) d st of
        None \<Rightarrow> None
      | Some st \<Rightarrow> walk_all all isMain path ds st)"

definition findProjects :: "(string \<Rightarrow> bool) \<Rightarrow> string \<Rightarrow> dir \<Rightarrow> bool \<Rightarrow> project list option" where
  "findProjects isMain currentDir d all = map_option fs_result (walk all isMain currentDir d new_find_state)"

definition project_isValid :: "project \<Rightarrow> bool" where
  "project_isValid p \<longleftrightarrow> ProjectPath p \<noteq> [] \<and> MainPackageDirs p \<noteq> []"

section \<open>Injecting a directory\<close>

definition projectBaseImportPath :: string where
  "projectBaseImportPath = ''github.com/apache/skywalking-go''"

definition swImportFileName :: string where
  "swImportFileName = ''skywalking_inject.go''"

definition swImportFile :: go_file where
  "swImportFile = \<lparr>gf_name = swImportFileName, gf_package = Some ''main'', gf_imports = Some [projectBaseImportPath]\<rparr>"

text \<open>None is an error.\<close>

fun contains_import_loop :: "go_file list \<Rightarrow> bool option" where
  "contains_import_loop [] = Some False"
| "contains_import_loop (f # fs) =
     (case gf_imports f of
        None \<Rightarrow> None
      | Some imps \<Rightarrow> if projectBaseImportPath \<in> set imps then Some True else contains_import_loop fs)"

definition alreadyContainsLibraryImport :: "files \<Rightarrow> string \<Rightarrow> bool option" where
  "alreadyContainsLibraryImport files dir = contains_import_loop (files dir)"

text \<open>Writing a file puts it at its place by name, or replaces the one of its name.\<close>

fun put_file :: "go_file \<Rightarrow> go_file list \<Rightarrow> go_file list" where
  "put_file g [] = [g]"
| "put_file g (f # fs) =
     (if gf_name f = gf_name g then g # fs
      else if (gf_name g, gf_name f) \<in> lexord {(a, b). (of_char a :: nat) < of_char b} then g # f # fs
      else f # put_file g fs)"

definition appendNewImportFile :: "files \<Rightarrow> string \<Rightarrow> files" where
  "appendNewImportFile files dir = files(dir := put_file swImportFile (files dir))"

text \<open>The files, the directories go get ran in, and whether it ended without an error.\<close>

fun inject_mains :: "string list \<Rightarrow> files \<Rightarrow> files \<times> bool" where
  "inject_mains [] files = (files, True)"
| "inject_mains (mainDir # ds) files =
     (case alreadyContainsLibraryImport files mainDir of
        None \<Rightarrow> (files, False)
      | Some True \<Rightarrow> inject_mains ds files
      | Some False \<Rightarrow> inject_mains ds (appendNewImportFile files mainDir))"

fun inject_projects :: "(string \<Rightarrow> bool) \<Rightarrow> project list \<Rightarrow> files \<Rightarrow> files \<times> string list \<times> bool" where
  "inject_projects goGet [] files = (files, [], True)"
| "inject_projects goGet (p # ps) files =
     (if \<not> goGet (ProjectPath p) then (files, [ProjectPath p], False)
      else (case inject_mains (MainPackageDirs p) files of
              (files, False) \<Rightarrow> (files, [ProjectPath p], False)
            | (files, True) \<Rightarrow>
                (case inject_projects goGet ps files of
                   (files, gets, ok) \<Rightarrow> (files, ProjectPath p # gets, ok))))"

definition injectDir :: "(string \<Rightarrow> bool) \<Rightarrow> string \<Rightarrow> dir \<Rightarrow> bool \<Rightarrow> files \<Rightarrow> (files \<times> string list \<times> bool) option" where
  "injectDir goGet path d allProjects files =
     (if \<not> has_mod d then Some (files, [], False)
      else (case findProjects (containsMainPackageInCurrentDirectory files) path d allProjects of
              None \<Rightarrow> None
            | Some projects \<Rightarrow> Some (inject_projects goGet (filter project_isValid projects) files)))"

section \<open>Injecting a file, and the version\<close>

datatype file_decl = ImportDecl "string list" | OtherDecl string

fun decl_imports :: "file_decl \<Rightarrow> string list" where
  "decl_imports (ImportDecl imps) = imps"
| "decl_imports (OtherDecl x) = []"

definition containsImport :: "file_decl \<Rightarrow> bool" where
  "containsImport d = (projectBaseImportPath \<in> set (decl_imports d))"

text \<open>Appends the import to the last import declaration; None if there is none.\<close>

fun append_to_last :: "file_decl list \<Rightarrow> file_decl list option" where
  "append_to_last [] = None"
| "append_to_last (d # ds) =
     (case append_to_last ds of
        Some ds' \<Rightarrow> Some (d # ds')
      | None \<Rightarrow> (case d of
                  ImportDecl imps \<Rightarrow> Some (ImportDecl (imps @ [projectBaseImportPath]) # ds)
                | OtherDecl x \<Rightarrow> None))"

definition addingProjectImportInFileAndRewrite :: "file_decl list \<Rightarrow> file_decl list \<times> bool" where
  "addingProjectImportInFileAndRewrite decls =
     (if list_ex containsImport decls then (decls, True)
      else (case append_to_last decls of
              Some ds \<Rightarrow> (ds, False)
            | None \<Rightarrow> (ImportDecl [projectBaseImportPath] # decls, False)))"

definition is_hex :: "char \<Rightarrow> bool" where
  "is_hex c =
     (let n = of_char c :: nat in (48 \<le> n \<and> n \<le> 57) \<or> (65 \<le> n \<and> n \<le> 70) \<or> (97 \<le> n \<and> n \<le> 102))"

definition gitSHARegex :: "string \<Rightarrow> bool" where
  "gitSHARegex s \<longleftrightarrow> list_all is_hex s \<and> (length s = 40 \<or> length s = 7)"

definition getCompitableVersion :: "string \<Rightarrow> string" where
  "getCompitableVersion version =
     (if \<not> gitSHARegex version \<and> \<not> has_prefix version ''v'' then ''v'' @ version else version)"

section \<open>One module\<close>

text \<open>The main packages of a module: not in hidden directories nor in modules below.\<close>

definition hidden :: "dir \<Rightarrow> bool" where
  "hidden d = has_prefix (dir_name d) ''.''"

fun main_dirs :: "(string \<Rightarrow> bool) \<Rightarrow> string \<Rightarrow> dir \<Rightarrow> string list" where
  "main_dirs isMain path (Dir n m ds) =
     (if isMain path then [path] else []) @
     concat (map (\<lambda>d. if hidden d \<or> has_mod d then [] else main_dirs isMain (path @ ''/'' @ dir_name d) d) ds)"

definition one_project :: "string \<Rightarrow> string list \<Rightarrow> find_state" where
  "one_project root ps = \<lparr>fs_result = [\<lparr>ProjectPath = root, MainPackageDirs = ps\<rparr>], fs_stack = [0], fs_prefix = root\<rparr>"

lemma walk_module:
  "all = False \<Longrightarrow> st = one_project root ps \<Longrightarrow> has_prefix path root \<Longrightarrow>
      walk all isMain path d st =
        Some (one_project root (ps @ (if hidden d \<or> has_mod d then [] else main_dirs isMain path d)))"
  "all = False \<Longrightarrow> st = one_project root ps \<Longrightarrow> has_prefix path root \<Longrightarrow>
      walk_all all isMain path ds st =
        Some (one_project root (ps @ concat (map (\<lambda>d. if hidden d \<or> has_mod d then [] else main_dirs isMain (path @ ''/'' @ dir_name d) d) ds)))"
proof (induction all isMain path d st and all isMain path ds st arbitrary: ps and ps rule: walk_walk_all.induct)
  case (1 all isMain path base hasMod ds st)
  show ?case
  proof (cases "has_prefix base ''.'' \<or> hasMod")
    case True
    then show ?thesis
      using "1.prems" by (auto simp: visit_def one_project_def hidden_def)
  next
    case False
    have v: "visit all isMain path base hasMod st = VContinue (one_project root (ps @ (if isMain path then [path] else [])))"
      using False "1.prems" by (simp add: visit_def one_project_def)
    show ?thesis
      using "1.IH" [OF v _ refl] "1.prems" v False by (simp add: hidden_def)
  qed
next
  case (3 all isMain path d ds st)
  have p: "has_prefix (path @ ''/'' @ dir_name d) root"
    using "3.prems"(3) by (auto simp: has_prefix_iff)
  show ?case
    using "3.IH"(1) [OF "3.prems"(1,2) p] "3.IH"(2) [OF _ "3.prems"(1) refl "3.prems"(3)] by simp
qed simp

text \<open>
  Without the option for all projects, the tool finds one project, the directory it was given, with
  every main package below it that is neither in a hidden directory nor in a module of its own, in
  the order of the walk, and nothing else; it does not panic.
\<close>

theorem one_project_found:
  assumes "has_mod d" "\<not> hidden d"
  shows "findProjects isMain path d False = Some [\<lparr>ProjectPath = path, MainPackageDirs = main_dirs isMain path d\<rparr>]"
proof (cases d)
  case (Dir n m ds)
  have "visit False isMain path n m new_find_state = VContinue (one_project path (if isMain path then [path] else []))"
    using assms Dir by (simp add: visit_def new_find_state_def one_project_def hidden_def)
  then show ?thesis
    using walk_module(2) [OF refl refl, where root = path and path = path and isMain = isMain and ds = ds
        and ps = "if isMain path then [path] else []"] Dir
    by (simp add: findProjects_def one_project_def has_prefix_def)
qed

theorem one_project_found_witness:
  "findProjects (\<lambda>p. True) ''/r'' (Dir ''r'' True [Dir ''.git'' False [], Dir ''a'' True [Dir ''b'' False []], Dir ''c'' False []]) False =
     Some [\<lparr>ProjectPath = ''/r'', MainPackageDirs = [''/r'', ''/r/c'']\<rparr>]"
  by (subst one_project_found) (simp_all add: hidden_def has_prefix_def)

text \<open>
  With the option for all projects a main package can be given to a module it does not belong to:
  of two directories a and ab below a project, the second counts as part of the module a, since its
  path begins with the other's; and after two nested modules only one of them is left.
\<close>

theorem all_projects_misattributed:
  "map (\<lambda>p. (ProjectPath p, MainPackageDirs p))
     (the (findProjects (\<lambda>p. p = ''/r/ab'') ''/r'' (Dir ''r'' True [Dir ''a'' True [], Dir ''ab'' False []]) True)) =
     [(''/r'', []), (''/r/a'', [''/r/ab''])] \<and>
   map (\<lambda>p. (ProjectPath p, MainPackageDirs p))
     (the (findProjects (\<lambda>p. p = ''/r/c'') ''/r'' (Dir ''r'' True [Dir ''a'' True [Dir ''b'' True []], Dir ''c'' False []]) True)) =
     [(''/r'', []), (''/r/a'', [''/r/c'']), (''/r/a/b'', [])]"
  by (simp add: findProjects_def new_find_state_def visit_def has_prefix_def)

section \<open>Injecting twice\<close>

lemma put_file_mem: "g \<in> set (put_file g fs)"
  by (induction fs) auto

lemma put_file_hd:
  "gf_package g = Some ''main'' \<Longrightarrow> (case fs of [] \<Rightarrow> False | f # fs \<Rightarrow> gf_package f = Some ''main'') \<Longrightarrow>
   (case put_file g fs of [] \<Rightarrow> False | f # fs \<Rightarrow> gf_package f = Some ''main'')"
  by (cases fs) auto

lemma append_main:
  assumes "containsMainPackageInCurrentDirectory files d"
  shows "containsMainPackageInCurrentDirectory (appendNewImportFile files d) = containsMainPackageInCurrentDirectory files"
  using assms put_file_hd [of swImportFile "files d"]
  by (auto simp: containsMainPackageInCurrentDirectory_def appendNewImportFile_def swImportFile_def fun_eq_iff)

definition readable :: "files \<Rightarrow> string \<Rightarrow> bool" where
  "readable files d = list_all (\<lambda>f. gf_imports f \<noteq> None) (files d)"

lemma put_file_contains:
  "list_all (\<lambda>f. gf_imports f \<noteq> None) fs \<Longrightarrow> contains_import_loop (put_file swImportFile fs) = Some True"
  by (induction fs) (auto simp: swImportFile_def)

lemma loop_false: "contains_import_loop fs = Some False \<Longrightarrow> list_all (\<lambda>f. gf_imports f \<noteq> None) fs"
  by (induction fs) (auto split: option.splits if_splits)

lemma append_contains:
  assumes "alreadyContainsLibraryImport files d = Some False"
  shows "alreadyContainsLibraryImport (appendNewImportFile files d) e =
     (if e = d then Some True else alreadyContainsLibraryImport files e)"
  using put_file_contains loop_false assms
  by (simp add: alreadyContainsLibraryImport_def appendNewImportFile_def)

lemma mains_kept:
  "inject_mains ds files = (files', ok) \<Longrightarrow> list_all (containsMainPackageInCurrentDirectory files) ds \<Longrightarrow>
   containsMainPackageInCurrentDirectory files' = containsMainPackageInCurrentDirectory files \<and>
   (\<forall>e. alreadyContainsLibraryImport files e = Some True \<longrightarrow> alreadyContainsLibraryImport files' e = Some True)"
proof (induction ds arbitrary: files)
  case (Cons d ds)
  show ?case
  proof (cases "alreadyContainsLibraryImport files d")
    case None
    then show ?thesis using Cons.prems by simp
  next
    case (Some b)
    let ?g = "if b then files else appendNewImportFile files d"
    have "containsMainPackageInCurrentDirectory ?g = containsMainPackageInCurrentDirectory files"
      using Cons.prems append_main by simp
    moreover have "alreadyContainsLibraryImport ?g e = Some True" if "alreadyContainsLibraryImport files e = Some True" for e
      using that Some append_contains [of files d e] by (cases b) auto
    moreover have "inject_mains ds ?g = (files', ok)"
      using Cons.prems(1) Some by (cases b) simp_all
    ultimately show ?thesis
      using Cons.IH [of ?g] Cons.prems(2) by simp
  qed
qed simp

lemma mains_contained:
  "inject_mains ds files = (files', True) \<Longrightarrow> list_all (containsMainPackageInCurrentDirectory files) ds \<Longrightarrow>
   list_all (\<lambda>d. alreadyContainsLibraryImport files' d = Some True) ds"
proof (induction ds arbitrary: files)
  case (Cons d ds)
  show ?case
  proof (cases "alreadyContainsLibraryImport files d")
    case None
    then show ?thesis using Cons.prems by simp
  next
    case (Some b)
    let ?g = "if b then files else appendNewImportFile files d"
    have m: "containsMainPackageInCurrentDirectory ?g = containsMainPackageInCurrentDirectory files"
      using Cons.prems append_main by simp
    have i: "inject_mains ds ?g = (files', True)"
      using Cons.prems(1) Some by (cases b) simp_all
    have "alreadyContainsLibraryImport ?g d = Some True"
      using Some append_contains [of files d d] by (cases b) auto
    then show ?thesis
      using Cons.IH [OF i] mains_kept [OF i] Cons.prems(2) m by simp
  qed
qed simp

lemma contained_mains: "list_all (\<lambda>d. alreadyContainsLibraryImport files d = Some True) ds \<Longrightarrow> inject_mains ds files = (files, True)"
  by (induction ds) auto

definition all_mains :: "project list \<Rightarrow> string list" where
  "all_mains ps = concat (map MainPackageDirs ps)"

lemma all_mains_Cons [simp]: "all_mains (p # ps) = MainPackageDirs p @ all_mains ps" "all_mains [] = []"
  by (simp_all add: all_mains_def)

lemma projects_kept:
  "inject_projects goGet ps files = (files', gets, ok) \<Longrightarrow> list_all (containsMainPackageInCurrentDirectory files) (all_mains ps) \<Longrightarrow>
   containsMainPackageInCurrentDirectory files' = containsMainPackageInCurrentDirectory files \<and>
   (\<forall>e. alreadyContainsLibraryImport files e = Some True \<longrightarrow> alreadyContainsLibraryImport files' e = Some True)"
proof (induction ps arbitrary: files gets)
  case (Cons p ps)
  obtain g b where m: "inject_mains (MainPackageDirs p) files = (g, b)"
    by fastforce
  note k = mains_kept [OF m]
  consider "\<not> goGet (ProjectPath p)" | "goGet (ProjectPath p)" "\<not> b" | "goGet (ProjectPath p)" b
    by blast
  then show ?case
  proof cases
    case 1
    then show ?thesis using Cons.prems(1) by simp
  next
    case 2
    then show ?thesis using Cons.prems k m by simp
  next
    case 3
    obtain gets' where r: "inject_projects goGet ps g = (files', gets', ok)"
      using Cons.prems(1) m 3 by (auto split: prod.splits)
    show ?thesis
      using Cons.IH [OF r] k Cons.prems(2) by simp
  qed
qed simp

lemma projects_contained:
  "inject_projects goGet ps files = (files', gets, True) \<Longrightarrow> list_all (containsMainPackageInCurrentDirectory files) (all_mains ps) \<Longrightarrow>
   list_all (\<lambda>d. alreadyContainsLibraryImport files' d = Some True) (all_mains ps) \<and> list_all goGet (map ProjectPath ps) \<and> gets = map ProjectPath ps"
proof (induction ps arbitrary: files gets)
  case (Cons p ps)
  obtain g b where m: "inject_mains (MainPackageDirs p) files = (g, b)"
    by fastforce
  have b: b "goGet (ProjectPath p)"
    using Cons.prems(1) m by (auto split: if_splits bool.splits)
  then obtain gets' where r: "inject_projects goGet ps g = (files', gets', True)" "gets = ProjectPath p # gets'"
    using Cons.prems(1) m by (auto split: prod.splits)
  have g: "containsMainPackageInCurrentDirectory g = containsMainPackageInCurrentDirectory files"
    using mains_kept [OF m] Cons.prems(2) by simp
  have i: "inject_mains (MainPackageDirs p) files = (g, True)"
    using m b by simp
  have "list_all (\<lambda>d. alreadyContainsLibraryImport g d = Some True) (MainPackageDirs p)"
    using mains_contained [OF i] Cons.prems(2) by simp
  moreover have "alreadyContainsLibraryImport files' e = Some True" if "alreadyContainsLibraryImport g e = Some True" for e
    using projects_kept [OF r(1)] g Cons.prems(2) that by simp
  ultimately have "list_all (\<lambda>d. alreadyContainsLibraryImport files' d = Some True) (MainPackageDirs p)"
    by (simp add: list_all_iff)
  then show ?case
    using Cons.IH [OF r(1)] g b r(2) Cons.prems(2) by simp
qed simp

lemma contained_projects:
  "list_all (\<lambda>d. alreadyContainsLibraryImport files d = Some True) (all_mains ps) \<Longrightarrow> list_all goGet (map ProjectPath ps) \<Longrightarrow>
   inject_projects goGet ps files = (files, map ProjectPath ps, True)"
  by (induction ps) (auto simp: contained_mains)

lemma visit_mains:
  assumes "list_all isMain (all_mains (fs_result st))"
  shows "case visit all isMain path base hasMod st of VPanic \<Rightarrow> True
    | VSkipDir st' \<Rightarrow> list_all isMain (all_mains (fs_result st')) | VContinue st' \<Rightarrow> list_all isMain (all_mains (fs_result st'))"
proof -
  have new: "list_all isMain (all_mains (ps @ [p])) \<longleftrightarrow> list_all isMain (all_mains ps) \<and> list_all isMain (MainPackageDirs p)" for ps p
    by (simp add: all_mains_def)
  have upd: "list_all isMain (all_mains (ps[i := (ps ! i)\<lparr>MainPackageDirs := MainPackageDirs (ps ! i) @ [path]\<rparr>]))"
    if "list_all isMain (all_mains ps)" "isMain path" for ps i
    using that
  proof (induction ps arbitrary: i)
    case (Cons p ps)
    then show ?case by (cases i) simp_all
  qed simp
  show ?thesis
    using assms by (auto simp: visit_def Let_def new upd split: list.splits)
qed

lemma walk_mains:
  "walk all isMain path d st = Some st' \<Longrightarrow> list_all isMain (all_mains (fs_result st)) \<Longrightarrow> list_all isMain (all_mains (fs_result st'))"
  "walk_all all isMain path ds st = Some st' \<Longrightarrow> list_all isMain (all_mains (fs_result st)) \<Longrightarrow> list_all isMain (all_mains (fs_result st'))"
proof (induction all isMain path d st and all isMain path ds st arbitrary: st' and st' rule: walk_walk_all.induct)
  case (1 all isMain path base hasMod ds st)
  then show ?case
    using visit_mains [OF "1.prems"(2), of all path base hasMod] by (auto split: visit_end.splits)
qed (auto split: option.splits)

lemma found_mains:
  assumes "findProjects isMain path d all = Some ps"
  shows "list_all isMain (all_mains (filter project_isValid ps))"
proof -
  obtain st where st: "walk all isMain path d new_find_state = Some st" "ps = fs_result st"
    using assms by (auto simp: findProjects_def)
  have "list_all isMain (all_mains ps)"
    using walk_mains(1) [OF st(1)] by (simp add: st(2) new_find_state_def)
  then show ?thesis
    by (auto simp: all_mains_def list_all_iff)
qed

text \<open>
  C27. Injecting a directory that was injected without an error changes nothing: the same modules get the
  dependency, every main package already has the import, no file is written.
\<close>

theorem inject_twice:
  assumes "injectDir goGet path d all files = Some (files', gets, True)"
  shows "injectDir goGet path d all files' = Some (files', gets, True)"
proof -
  obtain ps where ps: "has_mod d" "findProjects (containsMainPackageInCurrentDirectory files) path d all = Some ps"
    "inject_projects goGet (filter project_isValid ps) files = (files', gets, True)"
    using assms by (auto simp: injectDir_def split: if_splits option.splits)
  note m = found_mains [OF ps(2)]
  have "containsMainPackageInCurrentDirectory files' = containsMainPackageInCurrentDirectory files"
    using projects_kept [OF ps(3) m] by simp
  moreover have "inject_projects goGet (filter project_isValid ps) files' = (files', gets, True)"
    using projects_contained [OF ps(3) m] contained_projects [of files' "filter project_isValid ps" goGet] by simp
  ultimately show ?thesis
    using ps(1,2) by (simp add: injectDir_def)
qed

definition demo_files :: files where
  "demo_files = (\<lambda>p. if p = ''/r'' then [\<lparr>gf_name = ''m.go'', gf_package = Some ''main'', gf_imports = Some [''fmt'']\<rparr>] else [])"

lemma demo_inject:
  "injectDir (\<lambda>p. True) ''/r'' (Dir ''r'' True []) False demo_files = Some (appendNewImportFile demo_files ''/r'', [''/r''], True)"
  by (simp add: injectDir_def findProjects_def visit_def new_find_state_def has_prefix_def demo_files_def project_isValid_def
      containsMainPackageInCurrentDirectory_def alreadyContainsLibraryImport_def projectBaseImportPath_def)

theorem inject_twice_witness:
  "injectDir (\<lambda>p. True) ''/r'' (Dir ''r'' True []) False (appendNewImportFile demo_files ''/r'') =
     Some (appendNewImportFile demo_files ''/r'', [''/r''], True)"
  by (rule inject_twice [OF demo_inject])

section \<open>One file\<close>

definition file_imports :: "file_decl list \<Rightarrow> string list" where
  "file_imports ds = concat (map decl_imports ds)"

lemma file_imports_simps [simp]: "file_imports [] = []" "file_imports (d # ds) = decl_imports d @ file_imports ds"
  by (simp_all add: file_imports_def)

lemma contains_file_imports: "list_ex containsImport ds \<longleftrightarrow> projectBaseImportPath \<in> set (file_imports ds)"
  by (induction ds) (auto simp: containsImport_def)

lemma append_to_last_imports:
  "case append_to_last ds of
     Some ds' \<Rightarrow> file_imports ds' = file_imports ds @ [projectBaseImportPath]
   | None \<Rightarrow> file_imports ds = []"
  by (induction ds) (auto split: option.splits file_decl.splits)

text \<open>
  Adding the import to a file: afterwards the file has it; a file that had it is left as it is; and
  otherwise the imports are the same with this one at their end.
\<close>

theorem import_added_once:
  "case addingProjectImportInFileAndRewrite decls of (decls', existing) \<Rightarrow>
     projectBaseImportPath \<in> set (file_imports decls') \<and> addingProjectImportInFileAndRewrite decls' = (decls', True) \<and>
     (if projectBaseImportPath \<in> set (file_imports decls) then existing \<and> decls' = decls
      else \<not> existing \<and> file_imports decls' = file_imports decls @ [projectBaseImportPath])"
  using append_to_last_imports [of decls]
  by (auto simp: addingProjectImportInFileAndRewrite_def contains_file_imports split: option.splits)

section \<open>The version of the dependency\<close>

lemma not_hex_v [simp]: "\<not> is_hex CHR ''v''"
  by (simp add: is_hex_def)

theorem version_stable: "getCompitableVersion (getCompitableVersion v) = getCompitableVersion v"
  by (simp add: getCompitableVersion_def has_prefix_def)

end
