(* ===== verification/Rewrite_Context.thy ===== *)
theory Rewrite_Context
  imports Go_Syntax Plugin_Config "HOL-Library.Monad_Syntax"
begin

text \<open>
  The state and the naming rules of the rewriting of plugin files into the package they instrument
  (tools/go-agent/instrument/plugins/rewrite/context.go and import.go).

  The interceptors of a plugin and the operator files of the agent are compiled inside the package
  they enhance.  Their declarations are renamed so that they cannot clash, and so are the references
  to them.  The context holds the mapping of names: a stack of scopes for variables, one for types,
  the native types, and the imports that were removed.

  The last element of a stack of the code comes first here.  The caser of golang.org/x/text is a
  function of the context.  Of the file that is being processed the context keeps the import
  declarations.  An import path is held without its quotes.  A panic is None.
\<close>

section \<open>Names\<close>

definition GenerateCommonPrefix :: string where
  "GenerateCommonPrefix = ''skywalking_''"

definition GenerateMethodPrefix :: string where
  "GenerateMethodPrefix = GenerateCommonPrefix @ ''enhance_''"

definition OperatorDirs :: "string list" where
  "OperatorDirs = [''operator'', ''log'', ''tracing'', ''tools'', ''metrics'', ''profile'']"

definition OperatePrefix :: string where
  "OperatePrefix = GenerateCommonPrefix @ ''operator''"

definition TypePrefix :: string where
  "TypePrefix = OperatePrefix @ ''Type''"

definition VarPrefix :: string where
  "VarPrefix = OperatePrefix @ ''Var''"

definition StaticMethodPrefix :: string where
  "StaticMethodPrefix = OperatePrefix @ ''StaticMethod''"

definition BeforeInterStart :: string where
  "BeforeInterStart = ''beforeInterStart''"

definition EnhanceFromBasePackage :: string where
  "EnhanceFromBasePackage = ''github.com/apache/skywalking-go/plugins/core''"

text \<open>strings.Contains.\<close>

definition contains_text :: "string \<Rightarrow> string \<Rightarrow> bool" where
  "contains_text s p = list_ex (\<lambda>i. has_prefix (drop i s) p) [0..<Suc (length s)]"

text \<open>
  The identifiers of Go that strconv.ParseFloat accepts: it reads infinity and not-a-number in any
  case, and every other number begins with a digit, a sign or a point.
\<close>

definition float_word :: "string \<Rightarrow> bool" where
  "float_word name = (map to_lower name \<in> set [''inf'', ''infinity'', ''nan''])"

definition typeIsBasicTypeValueOrEnhanceName :: "string \<Rightarrow> bool" where
  "typeIsBasicTypeValueOrEnhanceName name =
     (if has_prefix name OperatePrefix \<or> has_prefix name GenerateMethodPrefix \<or> IsBasicDataType name \<or>
         name \<in> set [''nil'', ''true'', ''false'', ''append'', ''panic'', ''new'', ''delete''] then True
      else float_word name)"

definition callIsBasicNamesOrEnhanceName :: "string \<Rightarrow> bool" where
  "callIsBasicNamesOrEnhanceName name =
     (has_prefix name OperatePrefix \<or> has_prefix name GenerateMethodPrefix \<or>
      name \<in> set [''make'', ''recover'', ''len''])"

section \<open>The context\<close>

record rewrite_import_info =
  ri_pkgName :: string
  ri_isAgentCore :: bool

record native_type =
  nt_packageName :: string
  nt_typeName :: string

record rewrite_mapping =
  rewriteVarNames :: "(string \<rightharpoonup> string) list"
  rewriteTypeNames :: "(string \<rightharpoonup> string) list"
  nativeTypes :: "string \<rightharpoonup> native_type"

record rw_context =
  rc_pkgFullPath :: string
  rc_titleCase :: "string \<Rightarrow> string"
  rc_targetPackage :: string
  rc_currentPackageTitle :: string
  rc_imports :: "import_spec list list"
  rc_packageImport :: "string \<rightharpoonup> rewrite_import_info"
  rc_rewriteMapping :: rewrite_mapping
  rc_InitFuncDetector :: "string list"

definition newRewriteFuncMapping :: "(string \<rightharpoonup> string) \<Rightarrow> (string \<rightharpoonup> string) \<Rightarrow> rewrite_mapping" where
  "newRewriteFuncMapping varNames typeNames =
     \<lparr>rewriteVarNames = [varNames], rewriteTypeNames = [typeNames], nativeTypes = Map.empty\<rparr>"

text \<open>The caser is an argument.  No file is being processed yet.\<close>

definition NewContext :: "(string \<Rightarrow> string) \<Rightarrow> string \<Rightarrow> string \<Rightarrow> rw_context" where
  "NewContext caser compilePkgFullPath targetPackage =
     \<lparr>rc_pkgFullPath = compilePkgFullPath, rc_titleCase = caser, rc_targetPackage = targetPackage,
      rc_currentPackageTitle = [], rc_imports = [],
      rc_packageImport = [targetPackage \<mapsto> \<lparr>ri_pkgName = targetPackage, ri_isAgentCore = False\<rparr>],
      rc_rewriteMapping = newRewriteFuncMapping Map.empty Map.empty, rc_InitFuncDetector = []\<rparr>"

definition appendInitFunction :: "string \<Rightarrow> rw_context \<Rightarrow> rw_context" where
  "appendInitFunction name c = c\<lparr>rc_InitFuncDetector := rc_InitFuncDetector c @ [name]\<rparr>"

definition alreadyGenerated :: "rw_context \<Rightarrow> string \<Rightarrow> bool" where
  "alreadyGenerated c name \<longleftrightarrow>
     has_prefix name GenerateCommonPrefix \<or> has_prefix name (rc_titleCase c GenerateCommonPrefix)"

section \<open>The mapping of names\<close>

fun put_last :: "string \<Rightarrow> string \<Rightarrow> (string \<rightharpoonup> string) list \<Rightarrow> (string \<rightharpoonup> string) list option" where
  "put_last k v [] = None"
| "put_last k v (m # ms) = Some (m(k \<mapsto> v) # ms)"

definition addVarMapping :: "string \<Rightarrow> string \<Rightarrow> rw_context \<Rightarrow> rw_context option" where
  "addVarMapping k v c =
     map_option (\<lambda>ms. c\<lparr>rc_rewriteMapping := (rc_rewriteMapping c)\<lparr>rewriteVarNames := ms\<rparr>\<rparr>)
       (put_last k v (rewriteVarNames (rc_rewriteMapping c)))"

definition addTypeMapping :: "string \<Rightarrow> string \<Rightarrow> rw_context \<Rightarrow> rw_context option" where
  "addTypeMapping k v c =
     map_option (\<lambda>ms. c\<lparr>rc_rewriteMapping := (rc_rewriteMapping c)\<lparr>rewriteTypeNames := ms\<rparr>\<rparr>)
       (put_last k v (rewriteTypeNames (rc_rewriteMapping c)))"

definition addNativeTypeMapping :: "string \<Rightarrow> string \<Rightarrow> string \<Rightarrow> rewrite_mapping \<Rightarrow> rewrite_mapping" where
  "addNativeTypeMapping k packageName typeName m =
     m\<lparr>nativeTypes := (nativeTypes m)(k \<mapsto> \<lparr>nt_packageName = packageName, nt_typeName = typeName\<rparr>)\<rparr>"

definition pushBlockStack :: "rw_context \<Rightarrow> rw_context" where
  "pushBlockStack c =
     c\<lparr>rc_rewriteMapping := (rc_rewriteMapping c)
         \<lparr>rewriteVarNames := Map.empty # rewriteVarNames (rc_rewriteMapping c),
          rewriteTypeNames := Map.empty # rewriteTypeNames (rc_rewriteMapping c)\<rparr>\<rparr>"

definition popBlockStack :: "rw_context \<Rightarrow> rw_context option" where
  "popBlockStack c =
     (case (rewriteVarNames (rc_rewriteMapping c), rewriteTypeNames (rc_rewriteMapping c)) of
        (v # vs, t # ts) \<Rightarrow>
          Some (c\<lparr>rc_rewriteMapping := (rc_rewriteMapping c)\<lparr>rewriteVarNames := vs, rewriteTypeNames := ts\<rparr>\<rparr>)
      | _ \<Rightarrow> None)"

text \<open>The loops of findVarMappingName and findTypeMappingName, from the innermost scope outwards.\<close>

fun find_name :: "(string \<rightharpoonup> string) list \<Rightarrow> string \<Rightarrow> string" where
  "find_name [] name = []"
| "find_name (m # ms) name = (case m name of Some v \<Rightarrow> v | None \<Rightarrow> find_name ms name)"

definition findVarMappingName :: "rw_context \<Rightarrow> string \<Rightarrow> string" where
  "findVarMappingName c name = find_name (rewriteVarNames (rc_rewriteMapping c)) name"

definition findTypeMappingName :: "rw_context \<Rightarrow> string \<Rightarrow> string" where
  "findTypeMappingName c name = find_name (rewriteTypeNames (rc_rewriteMapping c)) name"

definition findNativeTypeMapping :: "rw_context \<Rightarrow> string \<Rightarrow> native_type option" where
  "findNativeTypeMapping c name = nativeTypes (rc_rewriteMapping c) name"

section \<open>Names of the members of a package\<close>

definition generateStaticMethod :: "rw_context \<Rightarrow> rewrite_import_info \<Rightarrow> string \<Rightarrow> string" where
  "generateStaticMethod c r name =
     (if typeIsBasicTypeValueOrEnhanceName name then name
      else if ri_isAgentCore r then StaticMethodPrefix @ rc_titleCase c (ri_pkgName r) @ name
      else name)"

definition generateType :: "rw_context \<Rightarrow> rewrite_import_info \<Rightarrow> string \<Rightarrow> string" where
  "generateType c r name =
     (if ri_isAgentCore r then TypePrefix @ rc_titleCase c (ri_pkgName r) @ name else name)"

section \<open>Imports\<close>

text \<open>Import: the context after an import of the file, and whether the import is deleted.\<close>

definition Import :: "import_spec \<Rightarrow> rw_context \<Rightarrow> rw_context \<times> bool" where
  "Import imp c =
     (let operatorCode = list_ex (\<lambda>d. is_Path imp = EnhanceFromBasePackage @ ''/'' @ d) OperatorDirs;
          shouldRemove = (operatorCode \<or> is_Path imp = rc_pkgFullPath c)
      in if shouldRemove then
           (let subPath = path_base (is_Path imp);
                info = \<lparr>ri_pkgName = subPath, ri_isAgentCore = operatorCode\<rparr>;
                key = (case is_Name imp of None \<Rightarrow> subPath | Some n \<Rightarrow> n)
            in (c\<lparr>rc_packageImport := (rc_packageImport c)(key \<mapsto> info)\<rparr>, True))
         else (c, False))"

text \<open>A declaration is added in front of the file where it has none.\<close>

definition AddingImportToCurrentFile :: "string \<Rightarrow> string \<Rightarrow> rw_context \<Rightarrow> rw_context" where
  "AddingImportToCurrentFile name path c =
     (if rc_pkgFullPath c = path then c
      else if list_ex (\<lambda>gen. list_ex (\<lambda>imp. is_Path imp = path) gen) (rc_imports c) then c
      else (let gens = (if rc_imports c = [] then [[]] else rc_imports c)
            in c\<lparr>rc_imports := butlast gens @ [last gens @ [\<lparr>is_Name = Some name, is_Path = path\<rparr>]]\<rparr>))"

section \<open>Directives\<close>

definition DirectivePublic :: string where
  "DirectivePublic = ''//skywalking:public''"

definition DirectiveReferenceGenerate :: string where
  "DirectiveReferenceGenerate = ''//skywalking:ref_generate''"

definition DirectiveNative :: string where
  "DirectiveNative = ''//skywalking:native''"

definition DirectiveInit :: string where
  "DirectiveInit = ''//skywalking:init''"

text \<open>strings.SplitN of the directive at its first two spaces; fewer parts than three panic.\<close>

definition split_directive :: "string \<Rightarrow> (string \<times> string) option" where
  "split_directive comment =
     (case split_on CHR '' '' comment of
        a # b # d # ds \<Rightarrow> Some (b, join '' '' (d # ds))
      | _ \<Rightarrow> None)"

definition analyzeNativeTypeDirective :: "string \<Rightarrow> (string \<times> string) option" where
  "analyzeNativeTypeDirective comment = split_directive comment"

definition analyzeReferenceGenerateDirective :: "string \<Rightarrow> (string \<times> string) option" where
  "analyzeReferenceGenerateDirective comment = split_directive comment"

text \<open>The declarations the analysis visits: functions, and types with the comments of their declaration.\<close>

datatype ref_node = RefFunc string | RefType string

fun addReferenceGenerateMapping :: "(string \<Rightarrow> string) \<Rightarrow> ref_node \<Rightarrow> string \<Rightarrow> string \<Rightarrow> string \<Rightarrow> rewrite_mapping \<Rightarrow> rewrite_mapping" where
  "addReferenceGenerateMapping caser (RefFunc d) k packageName typeName m =
     addNativeTypeMapping k packageName (caser GenerateMethodPrefix @ caser (path_base packageName) @ typeName) m"
| "addReferenceGenerateMapping caser (RefType d) k packageName typeName m =
     addNativeTypeMapping k packageName (caser TypePrefix @ caser (path_base packageName) @ typeName) m"

definition analyzeNativeOrReferenceFields :: "ref_node \<Rightarrow> string list option \<Rightarrow> string \<Rightarrow> rw_context \<Rightarrow> rw_context option" where
  "analyzeNativeOrReferenceFields node decorations currentDeclareName c =
     do {
       c1 \<leftarrow> (let native = FindDirective decorations DirectiveNative
              in if native \<noteq> [] then do {
                   (name, typeName) \<leftarrow> analyzeNativeTypeDirective native;
                   Some (c\<lparr>rc_rewriteMapping := addNativeTypeMapping currentDeclareName name typeName (rc_rewriteMapping c)\<rparr>)
                 } else Some c);
       (let reference = FindDirective decorations DirectiveReferenceGenerate
        in if reference \<noteq> [] then do {
             (name, typeName) \<leftarrow> analyzeReferenceGenerateDirective reference;
             Some (c1\<lparr>rc_rewriteMapping :=
                addReferenceGenerateMapping (rc_titleCase c1) node currentDeclareName name typeName (rc_rewriteMapping c1)\<rparr>)
           } else Some c1)
     }"

text \<open>
  The declarations of the parsed content in the order the traversal meets them, with the comments the
  code looks at: those of a function, and of a type those of the declaration around it.
\<close>

fun ref_name :: "ref_node \<Rightarrow> string" where
  "ref_name (RefFunc d) = d"
| "ref_name (RefType d) = d"

fun IncludeNativeOrReferenceGenerateFiles :: "(ref_node \<times> string list option) list \<Rightarrow> rw_context \<Rightarrow> rw_context option" where
  "IncludeNativeOrReferenceGenerateFiles [] c = Some c"
| "IncludeNativeOrReferenceGenerateFiles ((node, decorations) # ds) c =
     do {
       c1 \<leftarrow> analyzeNativeOrReferenceFields node decorations (ref_name node) c;
       IncludeNativeOrReferenceGenerateFiles ds c1
     }"

end
