(* ===== verification/Rewrite_Tree.thy ===== *)
theory Rewrite_Tree
  imports Rewrite_Context
begin

text \<open>
  The rewriting of expressions, statements and parameter lists
  (tools/go-agent/instrument/plugins/rewrite/context.go, func.go, and RemovePackageRef of
  tools/go-agent/tools/dst.go).

  The code writes into the tree it walks.  Here a function returns the node it leaves, what it wrote
  into the node around it (a slot), and the context; a panic is None.  The caller passes the kind of
  the node around, as the code passes the node itself.  dstutil.Apply visits a node and, where the
  visit returned true, its children in order; after a visit that returned false it does not call the
  function for leaving the node, as its documentation says.  A node that occurs twice in the tree
  after a rewriting is written at one occurrence only; what the code writes there a second time are
  the names the node has already.
\<close>

section \<open>Trees\<close>

datatype gexpr =
  E_Ident string
| E_Selector gexpr string
| E_Index gexpr gexpr
| E_Slice gexpr "gexpr option" "gexpr option" "gexpr option"
| E_Star gexpr
| E_Array "gexpr option" gexpr
| E_Ellipsis "gexpr option"
| E_Composite "gexpr option" "gexpr list"
| E_KeyValue gexpr gexpr
| E_Unary string gexpr
| E_Call gexpr "gexpr list"
| E_Func "gfield list option" "gfield list option" "gfield list option"
| E_TypeAssert gexpr "gexpr option"
| E_FuncLit "gfield list option" "gfield list option" "gfield list option" "gstmt list"
| E_Binary gexpr string gexpr
| E_Paren gexpr
| E_Map gexpr gexpr
| E_Chan gexpr
| E_Struct "gfield list"
| E_Interface "gfield list"
| E_BasicLit string
and gfield = G_Field "string list" gexpr "string option"
and gstmt =
  S_Block "gstmt list"
| S_Assign "gexpr list" string "gexpr list"
| S_Return "gexpr list"
| S_Expr gexpr
| S_If "gstmt option" gexpr "gstmt list" "gstmt option"
| S_Range "gexpr option" "gexpr option" gexpr "gstmt list"
| S_Decl "gspec list"
| S_TypeSwitch "gstmt option" gstmt "gstmt list"
| S_Switch "gstmt option" "gexpr option" "gstmt list"
| S_Case "gexpr list" "gstmt list"
| S_For "gstmt option" "gexpr option" "gstmt option" "gstmt list"
| S_Defer gexpr
| S_Go gexpr
| S_Labeled string gstmt
| S_Send gexpr gexpr
| S_IncDec gexpr string
| S_Comm "gstmt option" "gstmt list"
| S_Select "gstmt list"
| S_Branch string
and gspec =
  V_Spec "string list" "gexpr option" "gexpr list"
| T_Spec string gexpr

text \<open>The kind of the node around an expression.\<close>

datatype parent =
  In_Call | In_Field | In_Ellipsis | In_Star | In_TypeAssert | In_Composite | In_Array | In_ValueSpec
| In_Binary | In_Case | In_KeyValue | In_Paren | In_Unary | In_Return | In_Assign | In_Chan | In_Other

text \<open>
  What was written into the node around: Put fills the slot the code names for the kind of the node (the
  type of a field, assertion, literal or value, the element of an array, the operand or argument with
  the index that was passed, all right-hand sides of an assignment), Put_Fun the function of a call.
\<close>

datatype slot = Keep | Put gexpr | Put_Fun gexpr

definition filled :: "gexpr \<Rightarrow> slot \<Rightarrow> gexpr" where
  "filled e w = (case w of Put r \<Rightarrow> r | _ \<Rightarrow> e)"

definition called :: "gexpr \<Rightarrow> slot \<Rightarrow> gexpr" where
  "called e w = (case w of Put_Fun r \<Rightarrow> r | _ \<Rightarrow> e)"

text \<open>RemovePackageRef with its two helpers; the first index of a case without one panics.\<close>

definition RemovePackageRef :: "parent \<Rightarrow> string \<Rightarrow> int \<Rightarrow> slot option" where
  "RemovePackageRef parent sel inx =
     (case parent of
        In_Call \<Rightarrow> Some (Put_Fun (E_Ident sel))
      | In_Case \<Rightarrow> if inx < 0 then None else Some (Put (E_Ident sel))
      | In_ValueSpec \<Rightarrow> Some Keep
      | In_Other \<Rightarrow> Some Keep
      | _ \<Rightarrow> Some (Put (E_Ident sel)))"

section \<open>Loops\<close>

text \<open>A loop over a slice with its index: the results in order, the state passed along.\<close>

fun each :: "(nat \<Rightarrow> 'a \<Rightarrow> 's \<Rightarrow> ('b \<times> 's) option) \<Rightarrow> nat \<Rightarrow> 'a list \<Rightarrow> 's \<Rightarrow> ('b list \<times> 's) option" where
  "each f i [] s = Some ([], s)"
| "each f i (x # xs) s =
     do { (y, s1) \<leftarrow> f i x s; (ys, s2) \<leftarrow> each f (Suc i) xs s1; Some (y # ys, s2) }"

definition opt :: "('a \<Rightarrow> 's \<Rightarrow> ('b \<times> 's) option) \<Rightarrow> 'a option \<Rightarrow> 's \<Rightarrow> ('b option \<times> 's) option" where
  "opt f x s = (case x of None \<Rightarrow> Some (None, s) | Some a \<Rightarrow> do { (b, s1) \<leftarrow> f a s; Some (Some b, s1) })"

lemma each_cong [fundef_cong]:
  assumes "xs = ys" and "\<And>i x s. x \<in> set ys \<Longrightarrow> f i x s = g i x s"
  shows "each f i xs s = each g i ys s"
  using assms(2) unfolding assms(1)
  by (induction ys arbitrary: i s) (auto split: Option.bind_splits)

lemma opt_cong [fundef_cong]:
  assumes "x = y" and "\<And>a s. y = Some a \<Longrightarrow> f a s = g a s"
  shows "opt f x s = opt g y s"
  using assms by (auto simp: opt_def split: option.splits)

section \<open>Names\<close>

type_synonym names = "string \<times> string"
type_synonym outcome = "gexpr \<times> slot \<times> names"

definition no_names :: names where
  "no_names = ([], [])"

definition note_type :: "names \<Rightarrow> rw_context \<Rightarrow> rw_context option" where
  "note_type kv c = (if fst kv \<noteq> [] then addTypeMapping (fst kv) (snd kv) c else Some c)"

definition note_var :: "names \<Rightarrow> rw_context \<Rightarrow> rw_context option" where
  "note_var kv c = (if fst kv \<noteq> [] then addVarMapping (fst kv) (snd kv) c else Some c)"

text \<open>A selector whose operand is a name, in enhanceTypeNameWhenRewrite.\<close>

definition put_type :: "parent \<Rightarrow> int \<Rightarrow> gexpr \<Rightarrow> slot option" where
  "put_type parent argIndex e =
     (if parent \<in> {In_Field, In_Ellipsis, In_Star, In_TypeAssert, In_Composite, In_Array, In_ValueSpec} then Some (Put e)
      else if parent = In_Binary then (if argIndex = 0 \<or> argIndex = 1 then Some (Put e) else None)
      else if parent = In_Case then (if argIndex < 0 then None else Some (Put e))
      else Some Keep)"

definition enhance_selector :: "string \<Rightarrow> string \<Rightarrow> parent \<Rightarrow> int \<Rightarrow> rw_context \<Rightarrow> (outcome \<times> rw_context) option" where
  "enhance_selector pkgRef sel parent argIndex c =
     (let foundPackage = rc_packageImport c pkgRef;
          v = findVarMappingName c pkgRef;
          this = E_Selector (E_Ident pkgRef) sel
      in if v \<noteq> [] then Some ((E_Selector (E_Ident v) sel, Keep, no_names), c)
         else if has_prefix pkgRef OtherPackageRefPrefix then
           Some ((E_Selector (E_Ident (drop (length OtherPackageRefPrefix) pkgRef)) sel, Keep, no_names), c)
         else if parent = In_Call then
           (case foundPackage of
              Some info \<Rightarrow>
                (let s = findVarMappingName c sel
                 in if s \<noteq> [] then
                      Some ((E_Selector (E_Ident pkgRef) s,
                             if 0 \<le> argIndex then Put (E_Ident s) else Put_Fun (E_Ident s), no_names), c)
                    else Some ((this, Put_Fun (E_Ident (generateStaticMethod c info sel)), no_names), c))
            | None \<Rightarrow> Some ((this, if 0 \<le> argIndex then Put this else Put_Fun this, no_names), c))
         else do {
           w \<leftarrow> put_type parent argIndex
                  (case foundPackage of Some info \<Rightarrow> E_Ident (generateType c info sel) | None \<Rightarrow> this);
           Some ((this, w, no_names), c)
         })"

text \<open>A name, in enhanceTypeNameWhenRewrite.  A native type is a new selector that takes its place.\<close>

definition enhance_ident :: "string \<Rightarrow> parent \<Rightarrow> int \<Rightarrow> rw_context \<Rightarrow> (outcome \<times> rw_context) option" where
  "enhance_ident name parent argIndex c =
     (if typeIsBasicTypeValueOrEnhanceName name \<or> callIsBasicNamesOrEnhanceName name then
        Some ((E_Ident name, Keep, no_names), c)
      else if findVarMappingName c name \<noteq> [] then
        Some ((E_Ident (findVarMappingName c name), Keep, no_names), c)
      else if findTypeMappingName c name \<noteq> [] then
        Some ((E_Ident (findTypeMappingName c name), Keep, no_names), c)
      else (case findNativeTypeMapping c name of
              Some native \<Rightarrow>
                (let pkgBase = path_base (nt_packageName native)
                 in do {
                      ((_, w, _), c1) \<leftarrow> enhance_selector pkgBase (nt_typeName native) parent argIndex
                        (AddingImportToCurrentFile pkgBase (nt_packageName native) c);
                      Some ((E_Ident name, w, no_names), c1)
                    })
            | None \<Rightarrow>
                (let new = (if parent = In_Call then StaticMethodPrefix @ rc_currentPackageTitle c @ name
                            else if \<not> contains_text name BeforeInterStart then TypePrefix @ rc_currentPackageTitle c @ name
                            else name)
                 in Some ((E_Ident new, Keep, (name, new)), c))))"

text \<open>
  What a traversal visits again is what an argument or operand wrote over the function of its call or
  the type of its assertion: a name or a selector of a name.
\<close>

definition enhance_again :: "gexpr \<Rightarrow> parent \<Rightarrow> int \<Rightarrow> rw_context \<Rightarrow> (outcome \<times> rw_context) option" where
  "enhance_again e parent argIndex c =
     (case e of
        E_Ident name \<Rightarrow> enhance_ident name parent argIndex c
      | E_Selector (E_Ident pkgRef) sel \<Rightarrow> enhance_selector pkgRef sel parent argIndex c
      | _ \<Rightarrow> Some ((e, Keep, no_names), c))"

text \<open>The function an argument list wrote over its call; the last one stays.\<close>

definition overridden :: "(gexpr \<times> slot) list \<Rightarrow> gexpr option" where
  "overridden ws =
     fold (\<lambda>(e, w) o'. case w of Put_Fun r \<Rightarrow> Some r | _ \<Rightarrow> o') ws None"

section \<open>The traversals\<close>

lemma size_member: "x \<in> set xs \<Longrightarrow> size x < size_list size xs"
  by (induction xs) auto

text \<open>
  enhanceTypeNameWhenRewrite, rewriteVarIfExistingMapping, enhanceFuncParameter, enhanceFuncStmt, and
  the part of its traversal that reaches expressions; enhanceVarNameWhenRewrite follows.
\<close>

function enhanceType :: "gexpr \<Rightarrow> parent \<Rightarrow> int \<Rightarrow> rw_context \<Rightarrow> (outcome \<times> rw_context) option"
  and rewriteVar :: "gexpr \<Rightarrow> parent \<Rightarrow> rw_context \<Rightarrow> ((gexpr \<times> slot \<times> bool) \<times> rw_context) option"
  and enhanceVar :: "gexpr \<Rightarrow> rw_context \<Rightarrow> ((gexpr \<times> names) \<times> rw_context) option"
  and enhanceFuncParameter :: "gfield list option \<Rightarrow> rw_context \<Rightarrow> (gfield list option \<times> rw_context) option"
  and enhanceFuncStmt :: "gstmt \<Rightarrow> rw_context \<Rightarrow> (gstmt \<times> rw_context) option"
  and walk_expr :: "gexpr \<Rightarrow> rw_context \<Rightarrow> (gexpr \<times> rw_context) option" where
  "enhanceType e parent argIndex c =
     (case e of
        E_Ident name \<Rightarrow> enhance_ident name parent argIndex c
      | E_Selector x sel \<Rightarrow>
          (case x of
             E_Ident pkgRef \<Rightarrow> enhance_selector pkgRef sel parent argIndex c
           | _ \<Rightarrow> do { ((x1, w, kv), c1) \<leftarrow> enhanceType x parent (- 1) c; Some ((E_Selector x1 sel, w, kv), c1) })
      | E_Star x \<Rightarrow>
          do { ((x1, w, kv), c1) \<leftarrow> enhanceType x In_Star (- 1) c; Some ((E_Star (filled x1 w), Keep, kv), c1) }
      | E_Array len x \<Rightarrow>
          do { ((x1, w, kv), c1) \<leftarrow> enhanceType x In_Array (- 1) c; Some ((E_Array len (filled x1 w), Keep, kv), c1) }
      | E_Ellipsis x \<Rightarrow>
          do { (r, c1) \<leftarrow> opt (\<lambda>t. enhanceType t In_Ellipsis (- 1)) x c;
               Some ((E_Ellipsis (map_option (\<lambda>(x1, w, kv). filled x1 w) r), Keep,
                      case r of None \<Rightarrow> no_names | Some (x1, w, kv) \<Rightarrow> kv), c1) }
      | E_Composite ty elts \<Rightarrow>
          do { (elts1, c1) \<leftarrow> each (\<lambda>i elt s.
                 case elt of
                   E_KeyValue k v \<Rightarrow>
                     do { ((v1, w, _), s1) \<leftarrow> rewriteVar v In_KeyValue s; Some (E_KeyValue k (filled v1 w), s1) }
                 | E_Call f args \<Rightarrow>
                     do { ((e1, _, _), s1) \<leftarrow> enhanceType (E_Call f args) In_Composite (- 1) s; Some (e1, s1) }
                 | _ \<Rightarrow> Some (elt, s)) 0 elts c;
               (r, c2) \<leftarrow> opt (\<lambda>t. enhanceType t In_Composite (- 1)) ty c1;
               Some ((E_Composite (map_option (\<lambda>(x1, w, kv). filled x1 w) r) elts1, Keep,
                      case r of None \<Rightarrow> no_names | Some (x1, w, kv) \<Rightarrow> kv), c2) }
      | E_Unary op x \<Rightarrow>
          do { ((x1, w, kv), c1) \<leftarrow> enhanceType x In_Unary (- 1) c; Some ((E_Unary op x1, Keep, kv), c1) }
      | E_Call f args \<Rightarrow>
          do { (ws, c1) \<leftarrow> each (\<lambda>i a s. do { ((a1, w, _), s1) \<leftarrow> enhanceType a In_Call (int i) s; Some ((a1, w), s1) }) 0 args c;
               ((f1, w, kv), c2) \<leftarrow>
                 (case overridden ws of
                    Some g \<Rightarrow> enhance_again g In_Call (- 1) c1
                  | None \<Rightarrow> enhanceType f In_Call (- 1) c1);
               Some ((E_Call (called f1 w) (map (\<lambda>(a1, w1). filled a1 w1) ws), Keep,
                      case (case overridden ws of Some g \<Rightarrow> g | None \<Rightarrow> f) of E_Ident _ \<Rightarrow> kv | _ \<Rightarrow> no_names), c2) }
      | E_Func tps ps rs \<Rightarrow>
          do { (tps1, c1) \<leftarrow> enhanceFuncParameter tps c;
               (ps1, c2) \<leftarrow> enhanceFuncParameter ps c1;
               (rs1, c3) \<leftarrow> enhanceFuncParameter rs c2;
               Some ((E_Func tps1 ps1 rs1, Keep, no_names), c3) }
      | E_Index x i \<Rightarrow>
          do { ((i1, _, _), c1) \<leftarrow> rewriteVar i In_Other c;
               ((x1, w, kv), c2) \<leftarrow> enhanceType x In_Other (- 1) c1;
               Some ((E_Index x1 i1, Keep, kv), c2) }
      | E_TypeAssert x ty \<Rightarrow>
          do { (r, c1) \<leftarrow> opt (\<lambda>t. enhanceType t In_TypeAssert (- 1)) ty c;
               ((x1, w, kv), c2) \<leftarrow> enhanceType x In_TypeAssert (- 1) c1;
               Some ((E_TypeAssert x1 (case w of Put t \<Rightarrow> Some t
                        | _ \<Rightarrow> map_option (\<lambda>(t1, w1, kv1). filled t1 w1) r), Keep, kv), c2) }
      | E_FuncLit tps ps rs body \<Rightarrow>
          do { (tps1, c1) \<leftarrow> enhanceFuncParameter tps c;
               (ps1, c2) \<leftarrow> enhanceFuncParameter ps c1;
               (rs1, c3) \<leftarrow> enhanceFuncParameter rs c2;
               (body1, c4) \<leftarrow> each (\<lambda>i. enhanceFuncStmt) 0 body c3;
               Some ((E_FuncLit tps1 ps1 rs1 body1, Keep, no_names), c4) }
      | E_Binary x op y \<Rightarrow>
          do { ((x1, w1, _), c1) \<leftarrow> enhanceType x In_Binary 0 c;
               ((y1, w2, _), c2) \<leftarrow> enhanceType y In_Binary 1 c1;
               Some ((E_Binary (filled x1 w1) op (filled y1 w2), Keep, no_names), c2) }
      | E_Paren x \<Rightarrow>
          do { ((x1, w, _), c1) \<leftarrow> rewriteVar x In_Paren c; Some ((E_Paren (filled x1 w), Keep, no_names), c1) }
      | E_Map k v \<Rightarrow>
          do { ((k1, _, _), c1) \<leftarrow> enhanceType k In_Other (- 1) c;
               ((v1, _, _), c2) \<leftarrow> enhanceType v In_Other (- 1) c1;
               Some ((E_Map k1 v1, Keep, no_names), c2) }
      | _ \<Rightarrow> Some ((e, Keep, no_names), c))"
| "rewriteVar e parent c =
     (case e of
        E_Ident name \<Rightarrow>
          (let v = findVarMappingName c name
           in if v \<noteq> [] then Some ((E_Ident v, Keep, True), c) else Some ((e, Keep, False), c))
      | E_Selector x sel \<Rightarrow>
          (if (case x of E_Ident pkg \<Rightarrow> rc_packageImport c pkg \<noteq> None | _ \<Rightarrow> False) then
             do { w \<leftarrow> RemovePackageRef parent sel (- 1); Some ((e, w, True), c) }
           else do { ((x1, _, b), c1) \<leftarrow> rewriteVar x In_Other c; Some ((E_Selector x1 sel, Keep, b), c1) })
      | E_Composite ty elts \<Rightarrow>
          do { (r, c1) \<leftarrow> opt (\<lambda>t. enhanceType t In_Composite (- 1)) ty c;
               (elts1, c2) \<leftarrow> each (\<lambda>i elt s.
                 case elt of
                   E_KeyValue k v \<Rightarrow>
                     do { ((v1, w, _), s1) \<leftarrow> rewriteVar v In_KeyValue s; Some (E_KeyValue k (filled v1 w), s1) }
                 | _ \<Rightarrow> Some (elt, s)) 0 elts c1;
               Some ((E_Composite (map_option (\<lambda>(x1, w, kv). filled x1 w) r) elts1, Keep, False), c2) }
      | E_Unary op x \<Rightarrow>
          do { ((x1, _, _), c1) \<leftarrow> enhanceType x In_Unary (- 1) c; Some ((E_Unary op x1, Keep, False), c1) }
      | E_Index x i \<Rightarrow>
          do { ((i1, _, _), c1) \<leftarrow> rewriteVar i In_Other c;
               ((x1, _, _), c2) \<leftarrow> rewriteVar x In_Other c1;
               Some ((E_Index x1 i1, Keep, False), c2) }
      | E_Call f args \<Rightarrow>
          do { ((f1, w, _), c1) \<leftarrow> enhanceType f In_Call (- 1) c;
               (ws, c2) \<leftarrow> each (\<lambda>i a s. do { ((a1, w1, _), s1) \<leftarrow> rewriteVar a In_Call s; Some ((a1, w1), s1) }) 0 args c1;
               Some ((E_Call (case overridden ws of Some g \<Rightarrow> g | None \<Rightarrow> called f1 w) (map fst ws), Keep, False), c2) }
      | E_Star x \<Rightarrow>
          do { ((x1, w, _), c1) \<leftarrow> enhanceType x In_Star (- 1) c; Some ((E_Star (filled x1 w), Keep, False), c1) }
      | E_FuncLit tps ps rs body \<Rightarrow>
          do { (ps1, c1) \<leftarrow> enhanceFuncParameter ps (pushBlockStack c);
               (rs1, c2) \<leftarrow> enhanceFuncParameter rs c1;
               (body1, c3) \<leftarrow> each (\<lambda>i. enhanceFuncStmt) 0 body c2;
               c4 \<leftarrow> popBlockStack c3;
               Some ((E_FuncLit tps ps1 rs1 body1, Keep, False), c4) }
      | _ \<Rightarrow> Some ((e, Keep, False), c))"
| "enhanceVar e c =
     (case e of
        E_Ident name \<Rightarrow>
          (if typeIsBasicTypeValueOrEnhanceName name then Some ((e, no_names), c)
           else if findVarMappingName c name \<noteq> [] then Some ((E_Ident (findVarMappingName c name), no_names), c)
           else do { c1 \<leftarrow> addVarMapping name name c; Some ((e, (name, name)), c1) })
      | E_Selector x sel \<Rightarrow> do { ((x1, kv), c1) \<leftarrow> enhanceVar x c; Some ((E_Selector x1 sel, kv), c1) }
      | E_Index x i \<Rightarrow>
          do { ((i1, _, _), c1) \<leftarrow> rewriteVar i In_Other c;
               ((x1, kv), c2) \<leftarrow> enhanceVar x c1;
               Some ((E_Index x1 i1, kv), c2) }
      | _ \<Rightarrow> Some ((e, no_names), c))"
| "enhanceFuncParameter fl_list c =
     opt (each (\<lambda>i fl s.
       case fl of G_Field ns ty tag \<Rightarrow>
         do { (_, s1) \<leftarrow> each (\<lambda>j n t. do { t1 \<leftarrow> addVarMapping n n t; Some ((), t1) }) 0 ns s;
              ((ty1, w, kv), s2) \<leftarrow> enhanceType ty In_Field (- 1) s1;
              s3 \<leftarrow> note_type kv s2;
              Some (G_Field ns (filled ty1 w) tag, s3) }) 0) fl_list c"
| "enhanceFuncStmt stmt c =
     (case stmt of
        S_Block body \<Rightarrow>
          do { (body1, c1) \<leftarrow> each (\<lambda>i. enhanceFuncStmt) 0 body (pushBlockStack c); Some (S_Block body1, c1) }
      | S_Assign lhs tok rhs \<Rightarrow>
          do { (lhs1, c1) \<leftarrow> each (\<lambda>i l s. do { ((l1, kv), s1) \<leftarrow> enhanceVar l s; s2 \<leftarrow> note_var kv s1; Some (l1, s2) }) 0 lhs c;
               (rhs1, c2) \<leftarrow> each (\<lambda>i r s. do { ((r1, _, kv), s1) \<leftarrow> enhanceType r In_Other (int i) s;
                                                s2 \<leftarrow> note_type kv s1; Some (r1, s2) }) 0 rhs c1;
               Some (S_Assign lhs1 tok rhs1, c2) }
      | S_Return rs \<Rightarrow>
          do { (rs1, c1) \<leftarrow> each (\<lambda>i r s. do { ((r1, _, _), s1) \<leftarrow> enhanceType r In_Return (int i) s; Some (r1, s1) }) 0 rs c;
               Some (S_Return rs1, c1) }
      | S_Expr x \<Rightarrow> do { ((x1, _, _), c1) \<leftarrow> enhanceType x In_Other (- 1) c; Some (S_Expr x1, c1) }
      | S_If init cond body els \<Rightarrow>
          do { (init1, c1) \<leftarrow> opt enhanceFuncStmt init (pushBlockStack c);
               ((cond1, _, _), c2) \<leftarrow> enhanceType cond In_Other (- 1) c1;
               (body1, c3) \<leftarrow> each (\<lambda>i. enhanceFuncStmt) 0 body c2;
               (els1, c4) \<leftarrow> opt enhanceFuncStmt els c3;
               Some (S_If init1 cond1 body1 els1, c4) }
      | S_Range key val x body \<Rightarrow>
          do { ((x1, _, _), c1) \<leftarrow> enhanceType x In_Other (- 1) c;
               (key1, c2) \<leftarrow> opt (\<lambda>k s. do { ((k1, kv), s1) \<leftarrow> enhanceVar k s; s2 \<leftarrow> note_var kv s1; Some (k1, s2) }) key c1;
               (val1, c3) \<leftarrow> opt (\<lambda>k s. do { ((k1, kv), s1) \<leftarrow> enhanceVar k s; s2 \<leftarrow> note_var kv s1; Some (k1, s2) }) val c2;
               (body1, c4) \<leftarrow> each (\<lambda>i. enhanceFuncStmt) 0 body c3;
               Some (S_Range key1 val1 x1 body1, c4) }
      | S_Decl specs \<Rightarrow>
          do { (specs1, c1) \<leftarrow> each (\<lambda>i sp s.
                 case sp of
                   V_Spec ns ty vals \<Rightarrow>
                     do { (ns1, s1) \<leftarrow> each (\<lambda>j n t.
                            if typeIsBasicTypeValueOrEnhanceName n then Some (n, t)
                            else if findVarMappingName t n \<noteq> [] then Some (findVarMappingName t n, t)
                            else do { t1 \<leftarrow> addVarMapping n n t; t2 \<leftarrow> note_var (n, n) t1; Some (n, t2) }) 0 ns s;
                          (r, s2) \<leftarrow> opt (\<lambda>t. enhanceType t In_ValueSpec (- 1)) ty s1;
                          (ws, s3) \<leftarrow> each (\<lambda>j v t. do { ((v1, w, _), t1) \<leftarrow> enhanceType v In_ValueSpec (- 1) t; Some ((v1, w), t1) }) 0 vals s2;
                          Some (V_Spec ns1 (fold (\<lambda>(v, w) ty'. case w of Put t \<Rightarrow> Some t | _ \<Rightarrow> ty') ws
                                              (map_option (\<lambda>(t1, w, kv). filled t1 w) r)) (map fst ws), s3) }
                 | T_Spec n ty \<Rightarrow> do { (ty1, s1) \<leftarrow> walk_expr ty s; Some (T_Spec n ty1, s1) }) 0 specs c;
               Some (S_Decl specs1, c1) }
      | S_TypeSwitch init asg body \<Rightarrow>
          do { (init1, c1) \<leftarrow> opt enhanceFuncStmt init (pushBlockStack c);
               (asg1, c2) \<leftarrow> enhanceFuncStmt asg c1;
               (body1, c3) \<leftarrow> each (\<lambda>i. enhanceFuncStmt) 0 body c2;
               Some (S_TypeSwitch init1 asg1 body1, c3) }
      | S_Switch init tag body \<Rightarrow>
          do { (init1, c1) \<leftarrow> opt enhanceFuncStmt init c;
               (tag1, c2) \<leftarrow> opt (\<lambda>t s. do { ((t1, _, _), s1) \<leftarrow> enhanceType t In_Other (- 1) s; Some (t1, s1) }) tag c1;
               (body1, c3) \<leftarrow> each (\<lambda>i. enhanceFuncStmt) 0 body c2;
               Some (S_Switch init1 tag1 body1, c3) }
      | S_Case exprs body \<Rightarrow>
          do { (exprs1, c1) \<leftarrow> each (\<lambda>i x s. do { ((x1, w, _), s1) \<leftarrow> enhanceType x In_Case (int i) s; Some (filled x1 w, s1) }) 0 exprs c;
               (body1, c2) \<leftarrow> each (\<lambda>i. enhanceFuncStmt) 0 body c1;
               Some (S_Case exprs1 body1, c2) }
      | S_For init cond post body \<Rightarrow>
          do { (init1, c1) \<leftarrow> opt enhanceFuncStmt init c;
               (cond1, c2) \<leftarrow> opt walk_expr cond c1;
               (post1, c3) \<leftarrow> opt enhanceFuncStmt post c2;
               (body1, c4) \<leftarrow> each (\<lambda>i. enhanceFuncStmt) 0 body (pushBlockStack c3);
               Some (S_For init1 cond1 post1 body1, c4) }
      | S_Defer x \<Rightarrow> do { (x1, c1) \<leftarrow> walk_expr x c; Some (S_Defer x1, c1) }
      | S_Go x \<Rightarrow> do { (x1, c1) \<leftarrow> walk_expr x c; Some (S_Go x1, c1) }
      | S_Labeled l s \<Rightarrow> do { (s1, c1) \<leftarrow> enhanceFuncStmt s c; Some (S_Labeled l s1, c1) }
      | S_Send ch v \<Rightarrow> do { (ch1, c1) \<leftarrow> walk_expr ch c; (v1, c2) \<leftarrow> walk_expr v c1; Some (S_Send ch1 v1, c2) }
      | S_IncDec x tok \<Rightarrow> do { (x1, c1) \<leftarrow> walk_expr x c; Some (S_IncDec x1 tok, c1) }
      | S_Comm comm body \<Rightarrow>
          do { (comm1, c1) \<leftarrow> opt enhanceFuncStmt comm c;
               (body1, c2) \<leftarrow> each (\<lambda>i. enhanceFuncStmt) 0 body c1;
               Some (S_Comm comm1 body1, c2) }
      | S_Select body \<Rightarrow>
          do { (body1, c1) \<leftarrow> each (\<lambda>i. enhanceFuncStmt) 0 body (pushBlockStack c); Some (S_Select body1, c1) }
      | S_Branch tok \<Rightarrow> Some (stmt, c))"
| "walk_expr e c =
     (case e of
        E_Binary x op y \<Rightarrow>
          do { ((x1, w1, _), c1) \<leftarrow> rewriteVar x In_Binary c;
               ((y1, w2, _), c2) \<leftarrow> rewriteVar y In_Binary c1;
               Some (E_Binary (filled x1 w1) op (filled y1 w2), c2) }
      | E_Call f args \<Rightarrow>
          do { ((f1, w, _), c1) \<leftarrow> enhanceType f In_Call (- 1) c;
               (ws, c2) \<leftarrow> each (\<lambda>i a s. do { ((a1, w1, _), s1) \<leftarrow> enhanceType a In_Call (int i) s; Some ((a1, w1), s1) }) 0 args c1;
               Some (E_Call (case overridden ws of Some g \<Rightarrow> g | None \<Rightarrow> called f1 w) (map (\<lambda>(a1, w1). filled a1 w1) ws), c2) }
      | E_Func tps ps rs \<Rightarrow>
          do { (ps1, c1) \<leftarrow> enhanceFuncParameter ps c;
               (rs1, c2) \<leftarrow> enhanceFuncParameter rs c1;
               Some (E_Func tps ps1 rs1, c2) }
      | E_TypeAssert x ty \<Rightarrow>
          do { ((x1, w, _), c1) \<leftarrow> enhanceType x In_TypeAssert (- 1) c;
               (r, c2) \<leftarrow> (case w of
                  Put t \<Rightarrow> do { ((t1, w1, _), s1) \<leftarrow> enhance_again t In_TypeAssert (- 1) c1; Some (Some (filled t1 w1), s1) }
                | _ \<Rightarrow> opt (\<lambda>t s. do { ((t1, w1, _), s1) \<leftarrow> enhanceType t In_TypeAssert (- 1) s; Some (filled t1 w1, s1) }) ty c1);
               Some (E_TypeAssert x1 r, c2) }
      | E_Selector x sel \<Rightarrow> do { (x1, c1) \<leftarrow> walk_expr x c; Some (E_Selector x1 sel, c1) }
      | E_Index x i \<Rightarrow> do { (x1, c1) \<leftarrow> walk_expr x c; (i1, c2) \<leftarrow> walk_expr i c1; Some (E_Index x1 i1, c2) }
      | E_Slice x lo hi mx \<Rightarrow>
          do { (x1, c1) \<leftarrow> walk_expr x c; (lo1, c2) \<leftarrow> opt walk_expr lo c1; (hi1, c3) \<leftarrow> opt walk_expr hi c2;
               (mx1, c4) \<leftarrow> opt walk_expr mx c3; Some (E_Slice x1 lo1 hi1 mx1, c4) }
      | E_Star x \<Rightarrow> do { (x1, c1) \<leftarrow> walk_expr x c; Some (E_Star x1, c1) }
      | E_Array len x \<Rightarrow>
          do { (len1, c1) \<leftarrow> opt walk_expr len c; (x1, c2) \<leftarrow> walk_expr x c1; Some (E_Array len1 x1, c2) }
      | E_Ellipsis x \<Rightarrow> do { (x1, c1) \<leftarrow> opt walk_expr x c; Some (E_Ellipsis x1, c1) }
      | E_Composite ty elts \<Rightarrow>
          do { (ty1, c1) \<leftarrow> opt walk_expr ty c; (elts1, c2) \<leftarrow> each (\<lambda>i. walk_expr) 0 elts c1;
               Some (E_Composite ty1 elts1, c2) }
      | E_KeyValue k v \<Rightarrow> do { (k1, c1) \<leftarrow> walk_expr k c; (v1, c2) \<leftarrow> walk_expr v c1; Some (E_KeyValue k1 v1, c2) }
      | E_Unary op x \<Rightarrow> do { (x1, c1) \<leftarrow> walk_expr x c; Some (E_Unary op x1, c1) }
      | E_FuncLit tps ps rs body \<Rightarrow>
          do { (ps1, c1) \<leftarrow> enhanceFuncParameter ps c;
               (rs1, c2) \<leftarrow> enhanceFuncParameter rs c1;
               (body1, c3) \<leftarrow> each (\<lambda>i. enhanceFuncStmt) 0 body (pushBlockStack c2);
               Some (E_FuncLit tps ps1 rs1 body1, c3) }
      | E_Paren x \<Rightarrow> do { (x1, c1) \<leftarrow> walk_expr x c; Some (E_Paren x1, c1) }
      | E_Map k v \<Rightarrow> do { (k1, c1) \<leftarrow> walk_expr k c; (v1, c2) \<leftarrow> walk_expr v c1; Some (E_Map k1 v1, c2) }
      | E_Chan x \<Rightarrow> do { (x1, c1) \<leftarrow> walk_expr x c; Some (E_Chan x1, c1) }
      | E_Struct fs \<Rightarrow>
          do { (fs1, c1) \<leftarrow> each (\<lambda>i fl s. case fl of G_Field ns ty tag \<Rightarrow> do { (ty1, s1) \<leftarrow> walk_expr ty s; Some (G_Field ns ty1 tag, s1) }) 0 fs c;
               Some (E_Struct fs1, c1) }
      | E_Interface fs \<Rightarrow>
          do { (fs1, c1) \<leftarrow> each (\<lambda>i fl s. case fl of G_Field ns ty tag \<Rightarrow> do { (ty1, s1) \<leftarrow> walk_expr ty s; Some (G_Field ns ty1 tag, s1) }) 0 fs c;
               Some (E_Interface fs1, c1) }
      | _ \<Rightarrow> Some (e, c))"
  by pat_completeness auto

termination enhanceType
proof (relation "measure (\<lambda>x. case x of
    Inl (Inl (e, _)) \<Rightarrow> size e
  | Inl (Inr (Inl (e, _))) \<Rightarrow> size e
  | Inl (Inr (Inr (e, _))) \<Rightarrow> size e
  | Inr (Inl (fs, _)) \<Rightarrow> size_option (size_list size) fs
  | Inr (Inr (Inl (s, _))) \<Rightarrow> size s
  | Inr (Inr (Inr (e, _))) \<Rightarrow> size e)", goal_cases)
qed (auto simp: less_Suc_eq_le dest!: size_member)

text \<open>The equations of the traversals for each constructor.\<close>

declare enhanceType.simps [simp del] rewriteVar.simps [simp del] enhanceVar.simps [simp del]
  enhanceFuncParameter.simps [simp del] enhanceFuncStmt.simps [simp del] walk_expr.simps [simp del]

lemmas type_eqs =
  enhanceType.simps [of "E_Ident n" for n, unfolded gexpr.case]
  enhanceType.simps [of "E_Selector x s" for x s, unfolded gexpr.case]
  enhanceType.simps [of "E_Index x y" for x y, unfolded gexpr.case]
  enhanceType.simps [of "E_Slice x a b d" for x a b d, unfolded gexpr.case]
  enhanceType.simps [of "E_Star x" for x, unfolded gexpr.case]
  enhanceType.simps [of "E_Array a x" for a x, unfolded gexpr.case]
  enhanceType.simps [of "E_Ellipsis a" for a, unfolded gexpr.case]
  enhanceType.simps [of "E_Composite a xs" for a xs, unfolded gexpr.case]
  enhanceType.simps [of "E_KeyValue x y" for x y, unfolded gexpr.case]
  enhanceType.simps [of "E_Unary s x" for s x, unfolded gexpr.case]
  enhanceType.simps [of "E_Call x xs" for x xs, unfolded gexpr.case]
  enhanceType.simps [of "E_Func a b d" for a b d, unfolded gexpr.case]
  enhanceType.simps [of "E_TypeAssert x a" for x a, unfolded gexpr.case]
  enhanceType.simps [of "E_FuncLit a b d xs" for a b d xs, unfolded gexpr.case]
  enhanceType.simps [of "E_Binary x s y" for x s y, unfolded gexpr.case]
  enhanceType.simps [of "E_Paren x" for x, unfolded gexpr.case]
  enhanceType.simps [of "E_Map x y" for x y, unfolded gexpr.case]
  enhanceType.simps [of "E_Chan x" for x, unfolded gexpr.case]
  enhanceType.simps [of "E_Struct xs" for xs, unfolded gexpr.case]
  enhanceType.simps [of "E_Interface xs" for xs, unfolded gexpr.case]
  enhanceType.simps [of "E_BasicLit s" for s, unfolded gexpr.case]

lemmas var_eqs =
  rewriteVar.simps [of "E_Ident n" for n, unfolded gexpr.case]
  rewriteVar.simps [of "E_Selector x s" for x s, unfolded gexpr.case]
  rewriteVar.simps [of "E_Index x y" for x y, unfolded gexpr.case]
  rewriteVar.simps [of "E_Slice x a b d" for x a b d, unfolded gexpr.case]
  rewriteVar.simps [of "E_Star x" for x, unfolded gexpr.case]
  rewriteVar.simps [of "E_Array a x" for a x, unfolded gexpr.case]
  rewriteVar.simps [of "E_Ellipsis a" for a, unfolded gexpr.case]
  rewriteVar.simps [of "E_Composite a xs" for a xs, unfolded gexpr.case]
  rewriteVar.simps [of "E_KeyValue x y" for x y, unfolded gexpr.case]
  rewriteVar.simps [of "E_Unary s x" for s x, unfolded gexpr.case]
  rewriteVar.simps [of "E_Call x xs" for x xs, unfolded gexpr.case]
  rewriteVar.simps [of "E_Func a b d" for a b d, unfolded gexpr.case]
  rewriteVar.simps [of "E_TypeAssert x a" for x a, unfolded gexpr.case]
  rewriteVar.simps [of "E_FuncLit a b d xs" for a b d xs, unfolded gexpr.case]
  rewriteVar.simps [of "E_Binary x s y" for x s y, unfolded gexpr.case]
  rewriteVar.simps [of "E_Paren x" for x, unfolded gexpr.case]
  rewriteVar.simps [of "E_Map x y" for x y, unfolded gexpr.case]
  rewriteVar.simps [of "E_Chan x" for x, unfolded gexpr.case]
  rewriteVar.simps [of "E_Struct xs" for xs, unfolded gexpr.case]
  rewriteVar.simps [of "E_Interface xs" for xs, unfolded gexpr.case]
  rewriteVar.simps [of "E_BasicLit s" for s, unfolded gexpr.case]

lemmas name_eqs =
  enhanceVar.simps [of "E_Ident n" for n, unfolded gexpr.case]
  enhanceVar.simps [of "E_Selector x s" for x s, unfolded gexpr.case]
  enhanceVar.simps [of "E_Index x y" for x y, unfolded gexpr.case]
  enhanceVar.simps [of "E_Slice x a b d" for x a b d, unfolded gexpr.case]
  enhanceVar.simps [of "E_Star x" for x, unfolded gexpr.case]
  enhanceVar.simps [of "E_Array a x" for a x, unfolded gexpr.case]
  enhanceVar.simps [of "E_Ellipsis a" for a, unfolded gexpr.case]
  enhanceVar.simps [of "E_Composite a xs" for a xs, unfolded gexpr.case]
  enhanceVar.simps [of "E_KeyValue x y" for x y, unfolded gexpr.case]
  enhanceVar.simps [of "E_Unary s x" for s x, unfolded gexpr.case]
  enhanceVar.simps [of "E_Call x xs" for x xs, unfolded gexpr.case]
  enhanceVar.simps [of "E_Func a b d" for a b d, unfolded gexpr.case]
  enhanceVar.simps [of "E_TypeAssert x a" for x a, unfolded gexpr.case]
  enhanceVar.simps [of "E_FuncLit a b d xs" for a b d xs, unfolded gexpr.case]
  enhanceVar.simps [of "E_Binary x s y" for x s y, unfolded gexpr.case]
  enhanceVar.simps [of "E_Paren x" for x, unfolded gexpr.case]
  enhanceVar.simps [of "E_Map x y" for x y, unfolded gexpr.case]
  enhanceVar.simps [of "E_Chan x" for x, unfolded gexpr.case]
  enhanceVar.simps [of "E_Struct xs" for xs, unfolded gexpr.case]
  enhanceVar.simps [of "E_Interface xs" for xs, unfolded gexpr.case]
  enhanceVar.simps [of "E_BasicLit s" for s, unfolded gexpr.case]

lemmas walk_eqs =
  walk_expr.simps [of "E_Ident n" for n, unfolded gexpr.case]
  walk_expr.simps [of "E_Selector x s" for x s, unfolded gexpr.case]
  walk_expr.simps [of "E_Index x y" for x y, unfolded gexpr.case]
  walk_expr.simps [of "E_Slice x a b d" for x a b d, unfolded gexpr.case]
  walk_expr.simps [of "E_Star x" for x, unfolded gexpr.case]
  walk_expr.simps [of "E_Array a x" for a x, unfolded gexpr.case]
  walk_expr.simps [of "E_Ellipsis a" for a, unfolded gexpr.case]
  walk_expr.simps [of "E_Composite a xs" for a xs, unfolded gexpr.case]
  walk_expr.simps [of "E_KeyValue x y" for x y, unfolded gexpr.case]
  walk_expr.simps [of "E_Unary s x" for s x, unfolded gexpr.case]
  walk_expr.simps [of "E_Call x xs" for x xs, unfolded gexpr.case]
  walk_expr.simps [of "E_Func a b d" for a b d, unfolded gexpr.case]
  walk_expr.simps [of "E_TypeAssert x a" for x a, unfolded gexpr.case]
  walk_expr.simps [of "E_FuncLit a b d xs" for a b d xs, unfolded gexpr.case]
  walk_expr.simps [of "E_Binary x s y" for x s y, unfolded gexpr.case]
  walk_expr.simps [of "E_Paren x" for x, unfolded gexpr.case]
  walk_expr.simps [of "E_Map x y" for x y, unfolded gexpr.case]
  walk_expr.simps [of "E_Chan x" for x, unfolded gexpr.case]
  walk_expr.simps [of "E_Struct xs" for xs, unfolded gexpr.case]
  walk_expr.simps [of "E_Interface xs" for xs, unfolded gexpr.case]
  walk_expr.simps [of "E_BasicLit s" for s, unfolded gexpr.case]

lemmas stmt_eqs =
  enhanceFuncStmt.simps [of "S_Block xs" for xs, unfolded gstmt.case]
  enhanceFuncStmt.simps [of "S_Assign xs s ys" for xs s ys, unfolded gstmt.case]
  enhanceFuncStmt.simps [of "S_Return xs" for xs, unfolded gstmt.case]
  enhanceFuncStmt.simps [of "S_Expr x" for x, unfolded gstmt.case]
  enhanceFuncStmt.simps [of "S_If a x xs b" for a x xs b, unfolded gstmt.case]
  enhanceFuncStmt.simps [of "S_Range a b x xs" for a b x xs, unfolded gstmt.case]
  enhanceFuncStmt.simps [of "S_Decl xs" for xs, unfolded gstmt.case]
  enhanceFuncStmt.simps [of "S_TypeSwitch a x xs" for a x xs, unfolded gstmt.case]
  enhanceFuncStmt.simps [of "S_Switch a b xs" for a b xs, unfolded gstmt.case]
  enhanceFuncStmt.simps [of "S_Case xs ys" for xs ys, unfolded gstmt.case]
  enhanceFuncStmt.simps [of "S_For a b d xs" for a b d xs, unfolded gstmt.case]
  enhanceFuncStmt.simps [of "S_Defer x" for x, unfolded gstmt.case]
  enhanceFuncStmt.simps [of "S_Go x" for x, unfolded gstmt.case]
  enhanceFuncStmt.simps [of "S_Labeled s x" for s x, unfolded gstmt.case]
  enhanceFuncStmt.simps [of "S_Send x y" for x y, unfolded gstmt.case]
  enhanceFuncStmt.simps [of "S_IncDec x s" for x s, unfolded gstmt.case]
  enhanceFuncStmt.simps [of "S_Comm a xs" for a xs, unfolded gstmt.case]
  enhanceFuncStmt.simps [of "S_Select xs" for xs, unfolded gstmt.case]
  enhanceFuncStmt.simps [of "S_Branch s" for s, unfolded gstmt.case]

end
