(* ===== verification/Rewrite_File.thy ===== *)
theory Rewrite_File
  imports Rewrite_Tree
begin

text \<open>
  The rewriting of declarations and files (tools/go-agent/instrument/plugins/rewrite/func.go, type.go,
  var.go, rewrite.go).

  A file has its import declarations and then its other declarations, as Go wants it.  A function
  returns the declaration it leaves and the context.  The maps of files of the code are visited in an
  order that is an argument, a list of positions.  Parsing, and writing a file with its debug
  information, are arguments that can fail.
\<close>

section \<open>Declarations\<close>

record gfunc =
  fd_Decs :: "string list option"
  fd_Recv :: "gfield list option"
  fd_Name :: string
  fd_Params :: "gfield list option"
  fd_Results :: "gfield list option"
  fd_Body :: "gstmt list option"

datatype gtoken = VAR_TOK | CONST_TOK | TYPE_TOK

datatype gdecl =
  D_Func gfunc
| D_Gen gtoken "string list option" "gspec list"

record gfile =
  file_Name :: string
  file_Imports :: "import_spec list list"
  file_Decls :: "gdecl list"

definition no_list :: "gfield list option \<Rightarrow> bool" where
  "no_list fl_list = (case fl_list of None \<Rightarrow> True | Some l \<Rightarrow> l = [])"

definition isInitFunc :: "gfunc \<Rightarrow> bool" where
  "isInitFunc f \<longleftrightarrow> fd_Name f = ''init'' \<and> no_list (fd_Params f) \<and> no_list (fd_Results f)"

section \<open>Functions\<close>

definition initFunctionDetector :: "gfunc \<Rightarrow> rw_context \<Rightarrow> rw_context option" where
  "initFunctionDetector f c =
     (if FindDirective (fd_Decs f) DirectiveInit \<noteq> [] then
        (if \<not> no_list (fd_Recv f) then None else Some (appendInitFunction (fd_Name f) c))
      else Some c)"

definition rename_func :: "gfunc \<Rightarrow> rw_context \<Rightarrow> gfunc" where
  "rename_func f c =
     (if \<not> has_prefix (fd_Name f) GenerateMethodPrefix \<and> \<not> isInitFunc f then
        (let prefix = (if ContainsDirective (fd_Decs f) DirectivePublic then rc_titleCase c GenerateMethodPrefix
                       else StaticMethodPrefix)
         in f\<lparr>fd_Name := prefix @ rc_currentPackageTitle c @ fd_Name f\<rparr>)
      else f)"

definition enhance_receiver :: "gfield \<Rightarrow> rw_context \<Rightarrow> (gfield \<times> rw_context) option" where
  "enhance_receiver fl c =
     (case fl of G_Field ns ty tag \<Rightarrow>
        do {
          c1 \<leftarrow> (case ns of [] \<Rightarrow> Some c | n # _ \<Rightarrow> addVarMapping n n c);
          ((ty1, w, kv), c2) \<leftarrow> enhanceType ty In_Field (- 1) c1;
          c3 \<leftarrow> note_type kv c2;
          Some (G_Field ns (filled ty1 w) tag, c3)
        })"

definition Func :: "gfunc \<Rightarrow> rw_context \<Rightarrow> (gfunc \<times> rw_context) option" where
  "Func f c =
     do {
       (f1, c1) \<leftarrow> (case fd_Recv f of
          None \<Rightarrow> Some (rename_func f c, c)
        | Some [fl] \<Rightarrow> do { (fl1, d) \<leftarrow> enhance_receiver fl c; Some (f\<lparr>fd_Recv := Some [fl1]\<rparr>, d) }
        | Some _ \<Rightarrow> Some (f, c));
       c2 \<leftarrow> initFunctionDetector f1 c1;
       (ps, c3) \<leftarrow> enhanceFuncParameter (fd_Params f1) c2;
       (rs, c4) \<leftarrow> enhanceFuncParameter (fd_Results f1) c3;
       (body, c5) \<leftarrow> opt (each (\<lambda>i. enhanceFuncStmt) 0) (fd_Body f1) c4;
       Some (f1\<lparr>fd_Params := ps, fd_Results := rs, fd_Body := body\<rparr>, c5)
     }"

section \<open>Types and variables\<close>

definition generateTypePrefix :: "string list option \<Rightarrow> rw_context \<Rightarrow> string" where
  "generateTypePrefix decs c =
     (if \<not> ContainsDirective decs DirectivePublic then TypePrefix else rc_titleCase c TypePrefix)"

definition enhance_method :: "gfield \<Rightarrow> rw_context \<Rightarrow> (gfield \<times> rw_context) option" where
  "enhance_method fl c =
     (case fl of G_Field ns ty tag \<Rightarrow>
        (case ty of
           E_Ident n \<Rightarrow> do { ((ty1, _, _), c1) \<leftarrow> enhanceType ty In_Other (- 1) c; Some (G_Field ns ty1 tag, c1) }
         | E_Func tps ps rs \<Rightarrow>
             do { (ps1, c1) \<leftarrow> enhanceFuncParameter ps c;
                  (rs1, c2) \<leftarrow> enhanceFuncParameter rs c1;
                  Some (G_Field ns (E_Func tps ps1 rs1) tag, c2) }
         | _ \<Rightarrow> Some (fl, c)))"

definition enhance_struct_field :: "gfield \<Rightarrow> rw_context \<Rightarrow> (gfield \<times> rw_context) option" where
  "enhance_struct_field fl c =
     (case fl of G_Field ns ty tag \<Rightarrow>
        do { ((ty1, w, _), c1) \<leftarrow> enhanceType ty In_Field (- 1) c; Some (G_Field ns (filled ty1 w) tag, c1) })"

text \<open>Type, for the name and the type of a declaration; decs are the comments of the declaration around it.\<close>

definition Type :: "string \<Rightarrow> gexpr \<Rightarrow> string list option \<Rightarrow> bool \<Rightarrow> rw_context \<Rightarrow> (gspec \<times> rw_context) option" where
  "Type oldName ty decs onlyName c =
     do {
       (n, c1) \<leftarrow> (if alreadyGenerated c oldName then Some (oldName, c)
                  else (let new = generateTypePrefix decs c @ rc_currentPackageTitle c @ oldName
                        in do { d \<leftarrow> addTypeMapping oldName new c; Some (new, d) }));
       if onlyName then Some (T_Spec n ty, c1)
       else (case ty of
               E_Interface ms \<Rightarrow>
                 do { (ms1, c2) \<leftarrow> each (\<lambda>i. enhance_method) 0 ms c1; Some (T_Spec n (E_Interface ms1), c2) }
             | E_Func tps ps rs \<Rightarrow>
                 do { (ps1, c2) \<leftarrow> enhanceFuncParameter ps c1;
                      (rs1, c3) \<leftarrow> enhanceFuncParameter rs c2;
                      Some (T_Spec n (E_Func tps ps1 rs1), c3) }
             | E_Struct fs \<Rightarrow>
                 do { (fs1, c2) \<leftarrow> each (\<lambda>i. enhance_struct_field) 0 fs c1; Some (T_Spec n (E_Struct fs1), c2) }
             | _ \<Rightarrow> Some (T_Spec n ty, c1))
     }"

definition Var :: "string list \<Rightarrow> gexpr option \<Rightarrow> gexpr list \<Rightarrow> bool \<Rightarrow> rw_context \<Rightarrow> (gspec \<times> rw_context) option" where
  "Var names ty vals onlyName c =
     do {
       (ns, c1) \<leftarrow> (case names of
          [oldName] \<Rightarrow>
            (let new = (if alreadyGenerated c oldName then oldName
                        else VarPrefix @ rc_currentPackageTitle c @ oldName)
             in do { d \<leftarrow> addVarMapping oldName new c; Some ([new], d) })
        | _ \<Rightarrow> Some (names, c));
       if onlyName then Some (V_Spec ns ty vals, c1)
       else do {
         (r, c2) \<leftarrow> opt (\<lambda>t. enhanceType t In_ValueSpec (- 1)) ty c1;
         (ws, c3) \<leftarrow> each (\<lambda>i v s. do { ((v1, w, _), s1) \<leftarrow> enhanceType v In_ValueSpec (- 1) s; Some ((v1, w), s1) }) 0 vals c2;
         Some (V_Spec ns (fold (\<lambda>(v, w) ty'. case w of Put t \<Rightarrow> Some t | _ \<Rightarrow> ty') ws
                            (map_option (\<lambda>(t1, w, kv). filled t1 w) r)) (map fst ws), c3)
       }
     }"

section \<open>Files\<close>

text \<open>The declarations of a file, as processSingleFile visits them.\<close>

definition process_decl :: "gdecl \<Rightarrow> rw_context \<Rightarrow> (gdecl \<times> rw_context) option" where
  "process_decl d c =
     (case d of
        D_Func f \<Rightarrow> do { (f1, c1) \<leftarrow> Func f c; Some (D_Func f1, c1) }
      | D_Gen tok decs specs \<Rightarrow>
          do { (specs1, c1) \<leftarrow> each (\<lambda>i sp s. case sp of
                   T_Spec n ty \<Rightarrow> Type n ty decs False s
                 | V_Spec ns ty vals \<Rightarrow> Var ns ty vals False s) 0 specs c;
               Some (D_Gen tok decs specs1, c1) })"

fun process_imports :: "import_spec list \<Rightarrow> rw_context \<Rightarrow> import_spec list \<times> rw_context" where
  "process_imports [] c = ([], c)"
| "process_imports (imp # imps) c =
     (let (c1, delete) = Import imp c; (imps1, c2) = process_imports imps c1
      in (if delete then imps1 else imp # imps1, c2))"

fun process_import_decls :: "import_spec list list \<Rightarrow> rw_context \<Rightarrow> import_spec list list \<times> rw_context" where
  "process_import_decls [] c = ([], c)"
| "process_import_decls (gen # gens) c =
     (let (gen1, c1) = process_imports gen c; (gens1, c2) = process_import_decls gens c1 in (gen1 # gens1, c2))"

definition RemoveImportDefineIfNoPackage :: "gfile \<Rightarrow> gfile" where
  "RemoveImportDefineIfNoPackage f = f\<lparr>file_Imports := filter (\<lambda>gen. gen \<noteq> []) (file_Imports f)\<rparr>"

definition processSingleFile :: "gfile \<Rightarrow> string \<Rightarrow> rw_context \<Rightarrow> (gfile \<times> rw_context) option" where
  "processSingleFile f fromPackage c =
     (let (imports, c1) = process_import_decls (file_Imports f) (c\<lparr>rc_currentPackageTitle := rc_titleCase c fromPackage\<rparr>)
      in do {
           (decls, c2) \<leftarrow> each (\<lambda>i. process_decl) 0 (file_Decls f) (c1\<lparr>rc_imports := imports\<rparr>);
           Some (RemoveImportDefineIfNoPackage
                   \<lparr>file_Name = rc_targetPackage c, file_Imports = rc_imports c2, file_Decls = decls\<rparr>, c2)
         })"

definition SingleFile :: "gfile \<Rightarrow> rw_context \<Rightarrow> (gfile \<times> rw_context) option" where
  "SingleFile f c = processSingleFile f (rc_targetPackage c) c"

definition top_level_decl :: "gdecl \<Rightarrow> rw_context \<Rightarrow> (gdecl \<times> rw_context) option" where
  "top_level_decl d c =
     (case d of
        D_Func f \<Rightarrow> Some (d, c)
      | D_Gen tok decs specs \<Rightarrow>
          do { (specs1, c1) \<leftarrow> each (\<lambda>i sp s. case sp of
                   V_Spec ns ty vals \<Rightarrow> (if tok = VAR_TOK \<or> tok = CONST_TOK then Var ns ty vals True s else Some (sp, s))
                 | T_Spec n ty \<Rightarrow> (if tok = TYPE_TOK then Type n ty decs True s else Some (sp, s))) 0 specs c;
               Some (D_Gen tok decs specs1, c1) })"

text \<open>The files at the positions of an order, one after the other.\<close>

fun at_positions :: "(gfile \<Rightarrow> rw_context \<Rightarrow> (gfile \<times> rw_context) option) \<Rightarrow> nat list \<Rightarrow> gfile list \<Rightarrow> rw_context \<Rightarrow> (gfile list \<times> rw_context) option" where
  "at_positions f [] fs c = Some (fs, c)"
| "at_positions f (i # is) fs c = do { (x, c1) \<leftarrow> f (fs ! i) c; at_positions f is (fs[i := x]) c1 }"

definition top_level_file :: "gfile \<Rightarrow> rw_context \<Rightarrow> (gfile \<times> rw_context) option" where
  "top_level_file f c =
     do { (decls, c1) \<leftarrow> each (\<lambda>i. top_level_decl) 0 (file_Decls f) c; Some (f\<lparr>file_Decls := decls\<rparr>, c1) }"

definition rewriteTopLevelNames :: "nat list \<Rightarrow> gfile list \<Rightarrow> rw_context \<Rightarrow> (gfile list \<times> rw_context) option" where
  "rewriteTopLevelNames order files c = at_positions top_level_file order files c"

record file_info =
  fi_PackageName :: string
  fi_FileName :: string
  fi_FileData :: string
  fi_DebugBaseDir :: string

definition NewFile :: "string \<Rightarrow> string \<Rightarrow> string \<Rightarrow> file_info" where
  "NewFile packageName fileName data =
     \<lparr>fi_PackageName = packageName, fi_FileName = fileName, fi_FileData = data, fi_DebugBaseDir = []\<rparr>"

definition NewFileWithDebug :: "string \<Rightarrow> string \<Rightarrow> string \<Rightarrow> string \<Rightarrow> file_info" where
  "NewFileWithDebug packageName fileName data debugBaseDir =
     \<lparr>fi_PackageName = packageName, fi_FileName = fileName, fi_FileData = data, fi_DebugBaseDir = debugBaseDir\<rparr>"

fun parse_all :: "(string \<Rightarrow> string \<Rightarrow> string + gfile) \<Rightarrow> file_info list \<Rightarrow> string + gfile list" where
  "parse_all parse [] = Inr []"
| "parse_all parse (f # fs) =
     (case parse (fi_FileName f) (fi_FileData f) of
        Inl e \<Rightarrow> Inl e
      | Inr x \<Rightarrow> (case parse_all parse fs of Inl e \<Rightarrow> Inl e | Inr xs \<Rightarrow> Inr (x # xs)))"

definition written_path :: "string \<Rightarrow> string \<Rightarrow> file_info \<Rightarrow> string" where
  "written_path prefix targetDir f =
     targetDir @ ''/'' @ prefix @ fi_PackageName f @ ''_'' @ path_base (fi_FileName f)"

text \<open>
  The loop that processes and writes: an error (Inl) of the writing ends it, a panic is None.  The
  result has the paths and the files in the order they were written.
\<close>

fun write_files :: "(file_info \<Rightarrow> gfile \<Rightarrow> string option) \<Rightarrow> string \<Rightarrow> string \<Rightarrow> string \<Rightarrow> nat list \<Rightarrow> file_info list \<Rightarrow> gfile list \<Rightarrow>
    rw_context \<Rightarrow> (string + (string \<times> gfile) list \<times> rw_context) option" where
  "write_files write prefix targetDir fromPackage [] infos files c = Some (Inr ([], c))"
| "write_files write prefix targetDir fromPackage (i # is) infos files c =
     do {
       (f, c1) \<leftarrow> processSingleFile (files ! i) fromPackage c;
       (case write (infos ! i) f of
          Some err \<Rightarrow> Some (Inl err)
        | None \<Rightarrow> do {
            r \<leftarrow> write_files write prefix targetDir fromPackage is infos files c1;
            Some (case r of Inl err \<Rightarrow> Inl err
                  | Inr (fs, c2) \<Rightarrow> Inr ((written_path prefix targetDir (infos ! i), f) # fs, c2))
          })
     }"

definition MultipleFilesWithWritten ::
  "(string \<Rightarrow> string \<Rightarrow> string + gfile) \<Rightarrow> (file_info \<Rightarrow> gfile \<Rightarrow> string option) \<Rightarrow> nat list \<Rightarrow> nat list \<Rightarrow>
   string \<Rightarrow> string \<Rightarrow> string \<Rightarrow> file_info list \<Rightarrow> rw_context \<Rightarrow> (string + (string \<times> gfile) list \<times> rw_context) option" where
  "MultipleFilesWithWritten parse write order1 order2 prefix targetDir fromPackage originalFiles c =
     (let c1 = c\<lparr>rc_currentPackageTitle := rc_titleCase c fromPackage\<rparr>
      in (case parse_all parse originalFiles of
            Inl e \<Rightarrow> Some (Inl e)
          | Inr files \<Rightarrow>
              do {
                (files1, c2) \<leftarrow> rewriteTopLevelNames order1 files c1;
                write_files write prefix targetDir fromPackage order2 originalFiles files1 c2
              }))"

end
