(* ===== verification/Rewrite_Scopes.thy ===== *)
theory Rewrite_Scopes
  imports Rewrite_File
begin

text \<open>
  What a rewriting does to its context, whatever the tree: the relations between the context before and
  after that every elementary step keeps are kept by the traversals.  They are stated as a locale, and
  proved for it by one induction over the trees.
\<close>

named_theorems leads_intros \<open>rules of the calculus of contexts\<close>

text \<open>Every result of a step from context c is related to c.\<close>

definition leads :: "(rw_context \<Rightarrow> rw_context \<Rightarrow> bool) \<Rightarrow> rw_context \<Rightarrow> ('a \<times> rw_context) option \<Rightarrow> bool" where
  "leads R c m \<longleftrightarrow> (\<forall>r d. m = Some (r, d) \<longrightarrow> R c d)"

definition leads_to :: "(rw_context \<Rightarrow> rw_context \<Rightarrow> bool) \<Rightarrow> rw_context \<Rightarrow> rw_context option \<Rightarrow> bool" where
  "leads_to R c m \<longleftrightarrow> (\<forall>d. m = Some d \<longrightarrow> R c d)"

lemma leads_case_prod [leads_intros]:
  "(\<And>a b. x = (a, b) \<Longrightarrow> leads R c (f a b s)) \<Longrightarrow> leads R c (case_prod f x s)"
  by (cases x) simp

lemma leads_pair [leads_intros]: "leads R c (f a b) \<Longrightarrow> leads R c (case_prod f (a, b))"
  by simp

lemma leads_if [leads_intros]:
  "(b \<Longrightarrow> leads R c m) \<Longrightarrow> (\<not> b \<Longrightarrow> leads R c m') \<Longrightarrow> leads R c (if b then m else m')"
  by simp

text \<open>The names a traversal of the left-hand sides returns are a variable and itself.\<close>

lemma enhanceVar_names:
  fixes e :: gexpr
  assumes "enhanceVar e c = Some ((e1, kv), d)"
  shows "fst kv = snd kv"
  using assms
proof (induction "size e" arbitrary: e c e1 d rule: less_induct)
  case less
  have IH: "fst kv = snd kv" if "enhanceVar x s = Some ((x1, kv), t)" "size x < size e" for x s x1 t
    using less.hyps that by blast
  show ?case
  proof (cases e)
    case (E_Ident n)
    then show ?thesis using less.prems
      by (auto simp: name_eqs no_names_def Option.bind_eq_Some_conv split: if_splits)
  next
    case (E_Selector x s)
    then show ?thesis using less.prems IH [of x] by (auto simp: name_eqs Option.bind_eq_Some_conv)
  next
    case (E_Index x y)
    then show ?thesis using less.prems IH [of x] by (auto simp: name_eqs Option.bind_eq_Some_conv)
  qed (use less.prems in \<open>auto simp: name_eqs no_names_def\<close>)
qed

text \<open>
  A relation of contexts that the elementary steps keep: a variable mapped to itself, a type mapped, a
  scope opened, a scope closed that was opened before, and an import added.
\<close>

locale context_relation =
  fixes R :: "rw_context \<Rightarrow> rw_context \<Rightarrow> bool"
  assumes R_refl: "R c c"
    and R_trans: "R c d \<Longrightarrow> R d e \<Longrightarrow> R c e"
    and R_var: "addVarMapping n n c = Some d \<Longrightarrow> R c d"
    and R_type: "addTypeMapping k v c = Some d \<Longrightarrow> R c d"
    and R_push: "R c (pushBlockStack c)"
    and R_pop: "R (pushBlockStack c) d \<Longrightarrow> popBlockStack d = Some e \<Longrightarrow> R c e"
    and R_import: "R c (AddingImportToCurrentFile name path c)"
begin

lemma leads_Some [leads_intros]: "R c d \<Longrightarrow> leads R c (Some (r, d))"
  by (simp add: leads_def)

lemma leads_here [leads_intros]: "leads R c (Some (r, c))"
  by (simp add: leads_def R_refl)

lemma leads_bind [leads_intros]:
  "leads R c m \<Longrightarrow> (\<And>x d. m = Some (x, d) \<Longrightarrow> leads R d (k (x, d))) \<Longrightarrow> leads R c (Option.bind m k)"
  unfolding leads_def using R_trans by (fastforce simp: Option.bind_eq_Some_conv)

lemma leads_to_bind [leads_intros]:
  "leads_to R c m \<Longrightarrow> (\<And>d. m = Some d \<Longrightarrow> leads R d (k d)) \<Longrightarrow> leads R c (Option.bind m k)"
  unfolding leads_def leads_to_def using R_trans by (fastforce simp: Option.bind_eq_Some_conv)

lemma leads_pure_bind:
  "(\<And>x. m = Some x \<Longrightarrow> leads R c (k x)) \<Longrightarrow> leads R c (Option.bind m k)"
  unfolding leads_def by (auto simp: Option.bind_eq_Some_conv)

lemma leads_from: "R c d \<Longrightarrow> leads R d m \<Longrightarrow> leads R c m"
  unfolding leads_def using R_trans by blast

lemma leads_pushed: "leads R (pushBlockStack c) m \<Longrightarrow> leads R c m"
  by (rule leads_from [OF R_push])

lemma leads_each:
  assumes "\<And>i x s. x \<in> set xs \<Longrightarrow> leads R s (f i x s)"
  shows "leads R c (each f i xs c)"
  using assms
proof (induction xs arbitrary: i c)
  case Nil
  show ?case by (simp add: leads_here)
next
  case (Cons x xs)
  show ?case
    by (simp, intro leads_intros) (use Cons in \<open>auto intro: R_refl\<close>)
qed

lemma leads_opt:
  assumes "\<And>x s. x \<in> set_option o' \<Longrightarrow> leads R s (f x s)"
  shows "leads R c (opt f o' c)"
  using assms by (cases o') (auto simp: opt_def intro!: leads_intros R_refl)

lemma leads_each_pushed:
  assumes "\<And>i x s. x \<in> set xs \<Longrightarrow> leads R s (f i x s)"
  shows "leads R c (each f i xs (pushBlockStack c))"
  by (rule leads_pushed, rule leads_each) (rule assms)

lemma leads_opt_pushed:
  assumes "\<And>x s. x \<in> set_option o' \<Longrightarrow> leads R s (f x s)"
  shows "leads R c (opt f o' (pushBlockStack c))"
  by (rule leads_pushed, rule leads_opt) (rule assms)

lemma leads_note_type [leads_intros]: "leads_to R c (note_type kv c)"
  by (auto simp: leads_to_def note_type_def R_refl split: if_splits dest: R_type)

lemma leads_note_var: "fst kv = snd kv \<Longrightarrow> leads_to R c (note_var kv c)"
  by (auto simp: leads_to_def note_var_def R_refl split: if_splits dest: R_var)

lemma leads_add_var [leads_intros]: "leads_to R c (addVarMapping n n c)"
  by (auto simp: leads_to_def dest: R_var)

lemma leads_selector: "leads R c (enhance_selector pkg sel p i c)"
  unfolding enhance_selector_def Let_def
  by (auto simp: leads_def R_refl Option.bind_eq_Some_conv split: if_splits option.splits)

lemma leads_ident: "leads R c (enhance_ident n p i c)"
proof -
  have "leads R c (do { ((_, w, _), c1) \<leftarrow> enhance_selector a b p i (AddingImportToCurrentFile a q c); Some ((E_Ident n, w, no_names), c1) })"
    for a b q
    by (rule leads_from [OF R_import [where name = a and path = q]]) (intro leads_intros leads_selector R_refl)
  then show ?thesis
    unfolding enhance_ident_def Let_def
    by (intro leads_if leads_here) (auto split: option.splits intro: leads_here)
qed

lemma leads_again: "leads R c (enhance_again e p i c)"
  unfolding enhance_again_def
  by (auto split: gexpr.splits intro: leads_ident leads_selector leads_here)


text \<open>One tree: all the traversals of an expression, and of the operand of a key and value.\<close>

definition ok :: "gexpr \<Rightarrow> bool" where
  "ok e \<longleftrightarrow> (\<forall>p i c. leads R c (enhanceType e p i c)) \<and> (\<forall>p c. leads R c (rewriteVar e p c)) \<and>
            (\<forall>c. leads R c (enhanceVar e c)) \<and> (\<forall>c. leads R c (walk_expr e c))"

definition ok_expr :: "gexpr \<Rightarrow> bool" where
  "ok_expr e \<longleftrightarrow> ok e \<and> (\<forall>k v. e = E_KeyValue k v \<longrightarrow> ok v)"

fun ok_field :: "gfield \<Rightarrow> bool" where
  "ok_field (G_Field ns ty tag) = ok ty"

definition ok_stmt :: "gstmt \<Rightarrow> bool" where
  "ok_stmt s \<longleftrightarrow> (\<forall>c. leads R c (enhanceFuncStmt s c))"

fun ok_spec :: "gspec \<Rightarrow> bool" where
  "ok_spec (V_Spec ns ty vals) \<longleftrightarrow> (\<forall>t. ty = Some t \<longrightarrow> ok t) \<and> (\<forall>v\<in>set vals. ok v)"
| "ok_spec (T_Spec n ty) = ok ty"

lemma ok_type: "ok e \<Longrightarrow> leads R c (enhanceType e p i c)"
  and ok_var: "ok e \<Longrightarrow> leads R c (rewriteVar e p c)"
  and ok_name: "ok e \<Longrightarrow> leads R c (enhanceVar e c)"
  and ok_walk: "ok e \<Longrightarrow> leads R c (walk_expr e c)"
  by (simp_all add: ok_def)

lemma ok_exprD: "ok_expr e \<Longrightarrow> ok e"
  by (simp add: ok_expr_def)

lemma ok_key_value: "ok_expr (E_KeyValue k v) \<Longrightarrow> ok v"
  by (simp add: ok_expr_def)

lemma ok_stmtD: "ok_stmt s \<Longrightarrow> leads R c (enhanceFuncStmt s c)"
  by (simp add: ok_stmt_def)

lemma leads_ref [leads_intros]: "leads R c (Option.bind (RemovePackageRef p sel i) (\<lambda>w. Some (g w, c)))"
  by (auto simp: leads_def R_refl Option.bind_eq_Some_conv)

lemma leads_case_option [leads_intros]:
  "(x = None \<Longrightarrow> leads R c m) \<Longrightarrow> (\<And>a. x = Some a \<Longrightarrow> leads R c (g a)) \<Longrightarrow> leads R c (case x of None \<Rightarrow> m | Some a \<Rightarrow> g a)"
  by (cases x) auto

lemma leads_case_slot [leads_intros]:
  "(\<And>e. leads R c (g e)) \<Longrightarrow> leads R c m \<Longrightarrow> (\<And>e. leads R c (h e)) \<Longrightarrow> leads R c (case w of Keep \<Rightarrow> m | Put e \<Rightarrow> g e | Put_Fun e \<Rightarrow> h e)"
  by (cases w) auto

lemma leads_case_field [leads_intros]:
  "(\<And>ns ty tag. f = G_Field ns ty tag \<Longrightarrow> leads R c (g ns ty tag)) \<Longrightarrow> leads R c (case f of G_Field ns ty tag \<Rightarrow> g ns ty tag)"
  by (cases f) auto

lemma leads_case_spec [leads_intros]:
  "(\<And>ns ty vals. sp = V_Spec ns ty vals \<Longrightarrow> leads R c (g ns ty vals)) \<Longrightarrow> (\<And>n ty. sp = T_Spec n ty \<Longrightarrow> leads R c (h n ty)) \<Longrightarrow>
   leads R c (case sp of V_Spec ns ty vals \<Rightarrow> g ns ty vals | T_Spec n ty \<Rightarrow> h n ty)"
  by (cases sp) auto

lemmas leads_step = leads_intros leads_each leads_opt ok_type ok_var ok_name ok_walk ok_stmtD leads_again
  leads_each_pushed leads_opt_pushed R_refl

lemma leads_fields:
  assumes "\<And>fs f. fs \<in> set_option fl_list \<Longrightarrow> f \<in> set fs \<Longrightarrow> ok_field f"
  shows "leads R c (enhanceFuncParameter fl_list c)"
proof -
  have "leads R s (case f of G_Field ns ty tag \<Rightarrow>
         do { (_, s1) \<leftarrow> each (\<lambda>j n t. do { t1 \<leftarrow> addVarMapping n n t; Some ((), t1) }) 0 ns s;
              ((ty1, w, kv), s2) \<leftarrow> enhanceType ty In_Field (- 1) s1;
              s3 \<leftarrow> note_type kv s2;
              Some (G_Field ns (filled ty1 w) tag, s3) })" if "ok_field f" for f s
    using that by (cases f) (auto intro!: leads_step)
  with assms show ?thesis
    unfolding enhanceFuncParameter.simps by (intro leads_opt leads_each) blast
qed


lemma ok_exprI:
  assumes "\<And>p i c. leads R c (enhanceType e p i c)" and "\<And>p c. leads R c (rewriteVar e p c)"
    and "\<And>c. leads R c (enhanceVar e c)" and "\<And>c. leads R c (walk_expr e c)"
    and "\<And>k v. e = E_KeyValue k v \<Longrightarrow> ok v"
  shows "ok_expr e"
  using assms by (simp add: ok_expr_def ok_def)

lemma ok_option: "(\<And>x. x \<in> set_option a \<Longrightarrow> ok_expr x) \<Longrightarrow> x \<in> set_option a \<Longrightarrow> ok x"
  by (blast intro: ok_exprD)

text \<open>The elements of a composite literal, and the body of a function literal with its scope.\<close>

lemma leads_elts:
  assumes "\<And>x. x \<in> set elts \<Longrightarrow> ok_expr x"
  shows "leads R c (each (\<lambda>i elt s.
                 case elt of
                   E_KeyValue k v \<Rightarrow>
                     do { ((v1, w, _), s1) \<leftarrow> rewriteVar v In_KeyValue s; Some (E_KeyValue k (filled v1 w), s1) }
                 | E_Call f args \<Rightarrow>
                     do { ((e1, _, _), s1) \<leftarrow> enhanceType (E_Call f args) In_Composite (- 1) s; Some (e1, s1) }
                 | _ \<Rightarrow> Some (elt, s)) i elts c)" (is "leads R c (each ?f i elts c)")
    and "leads R c (each (\<lambda>i elt s.
                 case elt of
                   E_KeyValue k v \<Rightarrow>
                     do { ((v1, w, _), s1) \<leftarrow> rewriteVar v In_KeyValue s; Some (E_KeyValue k (filled v1 w), s1) }
                 | _ \<Rightarrow> Some (elt, s)) i elts c)" (is "leads R c (each ?g i elts c)")
proof -
  have "leads R s (?f i x s) \<and> leads R s (?g i x s)" if "x \<in> set elts" for i x s
  proof (cases x)
    case (E_KeyValue k v)
    with assms [OF that] have "ok v" by (simp add: ok_key_value)
    then show ?thesis unfolding E_KeyValue gexpr.case by (intro conjI leads_step)
  next
    case (E_Call f args)
    with assms [OF that] have "ok (E_Call f args)" by (simp add: ok_exprD)
    then show ?thesis unfolding E_Call gexpr.case by (intro conjI leads_step)
  qed (simp_all add: leads_here)
  then show "leads R c (each ?f i elts c)" and "leads R c (each ?g i elts c)"
    by (blast intro: leads_each)+
qed

lemma leads_func_lit:
  assumes "\<And>c. leads R c (enhanceFuncParameter ps c)" and "\<And>c. leads R c (enhanceFuncParameter rs c)"
    and "\<And>s c. s \<in> set body \<Longrightarrow> leads R c (enhanceFuncStmt s c)"
  shows "leads R c (rewriteVar (E_FuncLit tps ps rs body) p c)"
proof -
  have "leads R (pushBlockStack c)
      (do { (ps1, c1) \<leftarrow> enhanceFuncParameter ps (pushBlockStack c);
            (rs1, c2) \<leftarrow> enhanceFuncParameter rs c1;
            (body1, c3) \<leftarrow> each (\<lambda>i. enhanceFuncStmt) 0 body c2;
            Some ((ps1, rs1, body1), c3) })"
    by (intro leads_intros leads_each assms R_refl)
  then show ?thesis
    unfolding var_eqs leads_def by (fastforce simp: Option.bind_eq_Some_conv intro: R_pop)
qed

lemmas tree_eqs = type_eqs var_eqs name_eqs walk_eqs

lemma ok_E_Ident:
  shows "ok_expr (E_Ident n)"
  by (rule ok_exprI; (simp only: tree_eqs Let_def)?;
      ((intro leads_ident leads_step; (erule enhanceVar_names | simp)?) | simp add: ok_exprD))

lemma ok_E_Index:
  assumes "ok_expr x" and "ok_expr y"
  shows "ok_expr (E_Index x y)"
  by (rule ok_exprI; (simp only: tree_eqs Let_def)?;
      ((intro leads_step; ((clarify; erule enhanceVar_names) | (drule assms; simp add: ok_exprD) | simp add: ok_exprD assms)?) | simp add: ok_exprD assms))

lemma ok_E_Slice:
  assumes "ok_expr x" and "(\<And>x. x \<in> set_option a \<Longrightarrow> ok_expr x)" and "(\<And>x. x \<in> set_option b \<Longrightarrow> ok_expr x)" and "(\<And>x. x \<in> set_option d \<Longrightarrow> ok_expr x)"
  shows "ok_expr (E_Slice x a b d)"
  by (rule ok_exprI; (simp only: tree_eqs Let_def)?;
      ((intro leads_step; ((clarify; erule enhanceVar_names) | (drule assms; simp add: ok_exprD) | simp add: ok_exprD assms)?) | simp add: ok_exprD assms))

lemma ok_E_Star:
  assumes "ok_expr x"
  shows "ok_expr (E_Star x)"
  by (rule ok_exprI; (simp only: tree_eqs Let_def)?;
      ((intro leads_step; ((clarify; erule enhanceVar_names) | (drule assms; simp add: ok_exprD) | simp add: ok_exprD assms)?) | simp add: ok_exprD assms))

lemma ok_E_Array:
  assumes "(\<And>x. x \<in> set_option a \<Longrightarrow> ok_expr x)" and "ok_expr x"
  shows "ok_expr (E_Array a x)"
  by (rule ok_exprI; (simp only: tree_eqs Let_def)?;
      ((intro leads_step; ((clarify; erule enhanceVar_names) | (drule assms; simp add: ok_exprD) | simp add: ok_exprD assms)?) | simp add: ok_exprD assms))

lemma ok_E_Ellipsis:
  assumes "(\<And>x. x \<in> set_option a \<Longrightarrow> ok_expr x)"
  shows "ok_expr (E_Ellipsis a)"
  by (rule ok_exprI; (simp only: tree_eqs Let_def)?;
      ((intro leads_step; ((clarify; erule enhanceVar_names) | (drule assms; simp add: ok_exprD) | simp add: ok_exprD assms)?) | simp add: ok_exprD assms))

lemma ok_E_Composite:
  assumes "(\<And>x. x \<in> set_option a \<Longrightarrow> ok_expr x)" and "(\<And>x. x \<in> set xs \<Longrightarrow> ok_expr x)"
  shows "ok_expr (E_Composite a xs)"
  by (rule ok_exprI; (simp only: type_eqs(8) var_eqs(8) name_eqs(8) walk_eqs(8))?;
      ((intro leads_elts leads_step; ((clarify; erule enhanceVar_names) | (drule assms; simp add: ok_exprD) | simp add: ok_exprD assms)?) | simp add: ok_exprD assms))

lemma ok_E_KeyValue:
  assumes "ok_expr x" and "ok_expr y"
  shows "ok_expr (E_KeyValue x y)"
  by (rule ok_exprI; (simp only: tree_eqs Let_def)?;
      ((intro leads_step; ((clarify; erule enhanceVar_names) | (drule assms; simp add: ok_exprD) | simp add: ok_exprD assms)?) | simp add: ok_exprD assms))

lemma ok_E_Unary:
  assumes "ok_expr x"
  shows "ok_expr (E_Unary s x)"
  by (rule ok_exprI; (simp only: tree_eqs Let_def)?;
      ((intro leads_step; ((clarify; erule enhanceVar_names) | (drule assms; simp add: ok_exprD) | simp add: ok_exprD assms)?) | simp add: ok_exprD assms))

lemma ok_E_Call:
  assumes "ok_expr x" and "(\<And>x. x \<in> set xs \<Longrightarrow> ok_expr x)"
  shows "ok_expr (E_Call x xs)"
  by (rule ok_exprI; (simp only: tree_eqs Let_def)?;
      ((intro leads_step; ((clarify; erule enhanceVar_names) | (drule assms; simp add: ok_exprD) | simp add: ok_exprD assms)?) | simp add: ok_exprD assms))

lemma ok_E_Func:
  assumes "(\<And>fs f. fs \<in> set_option a \<Longrightarrow> f \<in> set fs \<Longrightarrow> ok_field f)" and "(\<And>fs f. fs \<in> set_option b \<Longrightarrow> f \<in> set fs \<Longrightarrow> ok_field f)" and "(\<And>fs f. fs \<in> set_option d \<Longrightarrow> f \<in> set fs \<Longrightarrow> ok_field f)"
  shows "ok_expr (E_Func a b d)"
  by (rule ok_exprI; (simp only: tree_eqs Let_def)?;
      ((intro leads_fields leads_step; ((clarify; erule enhanceVar_names) | (drule assms; simp add: ok_exprD) | simp add: ok_exprD assms)?) | simp add: ok_exprD assms))

lemma ok_E_TypeAssert:
  assumes "ok_expr x" and "(\<And>x. x \<in> set_option a \<Longrightarrow> ok_expr x)"
  shows "ok_expr (E_TypeAssert x a)"
  by (rule ok_exprI; (simp only: tree_eqs Let_def)?;
      ((intro leads_step; ((clarify; erule enhanceVar_names) | (drule assms; simp add: ok_exprD) | simp add: ok_exprD assms)?) | simp add: ok_exprD assms))

lemma ok_E_FuncLit:
  assumes "(\<And>fs f. fs \<in> set_option a \<Longrightarrow> f \<in> set fs \<Longrightarrow> ok_field f)" and "(\<And>fs f. fs \<in> set_option b \<Longrightarrow> f \<in> set fs \<Longrightarrow> ok_field f)" and "(\<And>fs f. fs \<in> set_option d \<Longrightarrow> f \<in> set fs \<Longrightarrow> ok_field f)" and "(\<And>s. s \<in> set xs \<Longrightarrow> ok_stmt s)"
  shows "ok_expr (E_FuncLit a b d xs)"
  by (rule ok_exprI; (simp only: type_eqs(14) name_eqs(14) walk_eqs(14))?;
      ((intro leads_fields leads_func_lit leads_step; ((clarify; erule enhanceVar_names) | (drule assms; simp add: ok_exprD) | simp add: ok_exprD assms)?) | simp add: ok_exprD assms))

lemma ok_E_Binary:
  assumes "ok_expr x" and "ok_expr y"
  shows "ok_expr (E_Binary x s y)"
  by (rule ok_exprI; (simp only: tree_eqs Let_def)?;
      ((intro leads_step; ((clarify; erule enhanceVar_names) | (drule assms; simp add: ok_exprD) | simp add: ok_exprD assms)?) | simp add: ok_exprD assms))

lemma ok_E_Paren:
  assumes "ok_expr x"
  shows "ok_expr (E_Paren x)"
  by (rule ok_exprI; (simp only: tree_eqs Let_def)?;
      ((intro leads_step; ((clarify; erule enhanceVar_names) | (drule assms; simp add: ok_exprD) | simp add: ok_exprD assms)?) | simp add: ok_exprD assms))

lemma ok_E_Map:
  assumes "ok_expr x" and "ok_expr y"
  shows "ok_expr (E_Map x y)"
  by (rule ok_exprI; (simp only: tree_eqs Let_def)?;
      ((intro leads_step; ((clarify; erule enhanceVar_names) | (drule assms; simp add: ok_exprD) | simp add: ok_exprD assms)?) | simp add: ok_exprD assms))

lemma ok_E_Chan:
  assumes "ok_expr x"
  shows "ok_expr (E_Chan x)"
  by (rule ok_exprI; (simp only: tree_eqs Let_def)?;
      ((intro leads_step; ((clarify; erule enhanceVar_names) | (drule assms; simp add: ok_exprD) | simp add: ok_exprD assms)?) | simp add: ok_exprD assms))

lemma ok_E_Struct:
  assumes "(\<And>f. f \<in> set xs \<Longrightarrow> ok_field f)"
  shows "ok_expr (E_Struct xs)"
  by (rule ok_exprI; (simp only: tree_eqs Let_def)?;
      ((intro leads_step; ((clarify; erule enhanceVar_names) | (drule assms; simp add: ok_exprD) | simp add: ok_exprD assms)?) | simp add: ok_exprD assms))

lemma ok_E_Interface:
  assumes "(\<And>f. f \<in> set xs \<Longrightarrow> ok_field f)"
  shows "ok_expr (E_Interface xs)"
  by (rule ok_exprI; (simp only: tree_eqs Let_def)?;
      ((intro leads_step; ((clarify; erule enhanceVar_names) | (drule assms; simp add: ok_exprD) | simp add: ok_exprD assms)?) | simp add: ok_exprD assms))

lemma ok_E_BasicLit:
  shows "ok_expr (E_BasicLit s)"
  by (rule ok_exprI; (simp only: tree_eqs Let_def)?;
      ((intro leads_step; (erule enhanceVar_names | simp)?) | simp add: ok_exprD))

lemma ok_S_Block:
  assumes "(\<And>s. s \<in> set xs \<Longrightarrow> ok_stmt s)"
  shows "ok_stmt (S_Block xs)"
  unfolding ok_stmt_def stmt_eqs
  by (intro allI leads_step; ((clarify; erule enhanceVar_names) | (drule assms; simp add: ok_exprD) | simp add: ok_exprD assms)?)

lemma ok_S_Assign:
  assumes "(\<And>x. x \<in> set xs \<Longrightarrow> ok_expr x)" and "(\<And>x. x \<in> set ys \<Longrightarrow> ok_expr x)"
  shows "ok_stmt (S_Assign xs s ys)"
  unfolding ok_stmt_def stmt_eqs
  by (intro allI leads_note_var leads_step; ((clarify; erule enhanceVar_names) | (drule assms; simp add: ok_exprD) | simp add: ok_exprD assms)?)

lemma ok_S_Return:
  assumes "(\<And>x. x \<in> set xs \<Longrightarrow> ok_expr x)"
  shows "ok_stmt (S_Return xs)"
  unfolding ok_stmt_def stmt_eqs
  by (intro allI leads_step; ((clarify; erule enhanceVar_names) | (drule assms; simp add: ok_exprD) | simp add: ok_exprD assms)?)

lemma ok_S_Expr:
  assumes "ok_expr x"
  shows "ok_stmt (S_Expr x)"
  unfolding ok_stmt_def stmt_eqs
  by (intro allI leads_step; ((clarify; erule enhanceVar_names) | (drule assms; simp add: ok_exprD) | simp add: ok_exprD assms)?)

lemma ok_S_If:
  assumes "(\<And>s. s \<in> set_option a \<Longrightarrow> ok_stmt s)" and "ok_expr x" and "(\<And>s. s \<in> set xs \<Longrightarrow> ok_stmt s)" and "(\<And>s. s \<in> set_option b \<Longrightarrow> ok_stmt s)"
  shows "ok_stmt (S_If a x xs b)"
  unfolding ok_stmt_def stmt_eqs
  by (intro allI leads_step; ((clarify; erule enhanceVar_names) | (drule assms; simp add: ok_exprD) | simp add: ok_exprD assms)?)

lemma ok_S_Range:
  assumes "(\<And>x. x \<in> set_option a \<Longrightarrow> ok_expr x)" and "(\<And>x. x \<in> set_option b \<Longrightarrow> ok_expr x)" and "ok_expr x" and "(\<And>s. s \<in> set xs \<Longrightarrow> ok_stmt s)"
  shows "ok_stmt (S_Range a b x xs)"
  unfolding ok_stmt_def stmt_eqs
  by (intro allI leads_note_var leads_step; ((clarify; erule enhanceVar_names) | (drule assms; simp add: ok_exprD) | simp add: ok_exprD assms)?)

lemma ok_S_Decl:
  assumes "(\<And>s. s \<in> set xs \<Longrightarrow> ok_spec s)"
  shows "ok_stmt (S_Decl xs)"
  unfolding ok_stmt_def stmt_eqs
  by (intro allI leads_note_var leads_step; ((clarify; erule enhanceVar_names) | (drule assms; simp add: ok_exprD) | simp add: ok_exprD assms)?)

lemma ok_S_TypeSwitch:
  assumes "(\<And>s. s \<in> set_option a \<Longrightarrow> ok_stmt s)" and "ok_stmt x" and "(\<And>s. s \<in> set xs \<Longrightarrow> ok_stmt s)"
  shows "ok_stmt (S_TypeSwitch a x xs)"
  unfolding ok_stmt_def stmt_eqs
  by (intro allI leads_step; ((clarify; erule enhanceVar_names) | (drule assms; simp add: ok_exprD) | simp add: ok_exprD assms)?)

lemma ok_S_Switch:
  assumes "(\<And>s. s \<in> set_option a \<Longrightarrow> ok_stmt s)" and "(\<And>x. x \<in> set_option b \<Longrightarrow> ok_expr x)" and "(\<And>s. s \<in> set xs \<Longrightarrow> ok_stmt s)"
  shows "ok_stmt (S_Switch a b xs)"
  unfolding ok_stmt_def stmt_eqs
  by (intro allI leads_step; ((clarify; erule enhanceVar_names) | (drule assms; simp add: ok_exprD) | simp add: ok_exprD assms)?)

lemma ok_S_Case:
  assumes "(\<And>x. x \<in> set xs \<Longrightarrow> ok_expr x)" and "(\<And>s. s \<in> set ys \<Longrightarrow> ok_stmt s)"
  shows "ok_stmt (S_Case xs ys)"
  unfolding ok_stmt_def stmt_eqs
  by (intro allI leads_step; ((clarify; erule enhanceVar_names) | (drule assms; simp add: ok_exprD) | simp add: ok_exprD assms)?)

lemma ok_S_For:
  assumes "(\<And>s. s \<in> set_option a \<Longrightarrow> ok_stmt s)" and "(\<And>x. x \<in> set_option b \<Longrightarrow> ok_expr x)" and "(\<And>s. s \<in> set_option d \<Longrightarrow> ok_stmt s)" and "(\<And>s. s \<in> set xs \<Longrightarrow> ok_stmt s)"
  shows "ok_stmt (S_For a b d xs)"
  unfolding ok_stmt_def stmt_eqs
  by (intro allI leads_step; ((clarify; erule enhanceVar_names) | (drule assms; simp add: ok_exprD) | simp add: ok_exprD assms)?)

lemma ok_S_Defer:
  assumes "ok_expr x"
  shows "ok_stmt (S_Defer x)"
  unfolding ok_stmt_def stmt_eqs
  by (intro allI leads_step; ((clarify; erule enhanceVar_names) | (drule assms; simp add: ok_exprD) | simp add: ok_exprD assms)?)

lemma ok_S_Go:
  assumes "ok_expr x"
  shows "ok_stmt (S_Go x)"
  unfolding ok_stmt_def stmt_eqs
  by (intro allI leads_step; ((clarify; erule enhanceVar_names) | (drule assms; simp add: ok_exprD) | simp add: ok_exprD assms)?)

lemma ok_S_Labeled:
  assumes "ok_stmt x"
  shows "ok_stmt (S_Labeled s x)"
  unfolding ok_stmt_def stmt_eqs
  by (intro allI leads_step; ((clarify; erule enhanceVar_names) | (drule assms; simp add: ok_exprD) | simp add: ok_exprD assms)?)

lemma ok_S_Send:
  assumes "ok_expr x" and "ok_expr y"
  shows "ok_stmt (S_Send x y)"
  unfolding ok_stmt_def stmt_eqs
  by (intro allI leads_step; ((clarify; erule enhanceVar_names) | (drule assms; simp add: ok_exprD) | simp add: ok_exprD assms)?)

lemma ok_S_IncDec:
  assumes "ok_expr x"
  shows "ok_stmt (S_IncDec x s)"
  unfolding ok_stmt_def stmt_eqs
  by (intro allI leads_step; ((clarify; erule enhanceVar_names) | (drule assms; simp add: ok_exprD) | simp add: ok_exprD assms)?)

lemma ok_S_Comm:
  assumes "(\<And>s. s \<in> set_option a \<Longrightarrow> ok_stmt s)" and "(\<And>s. s \<in> set xs \<Longrightarrow> ok_stmt s)"
  shows "ok_stmt (S_Comm a xs)"
  unfolding ok_stmt_def stmt_eqs
  by (intro allI leads_step; ((clarify; erule enhanceVar_names) | (drule assms; simp add: ok_exprD) | simp add: ok_exprD assms)?)

lemma ok_S_Select:
  assumes "(\<And>s. s \<in> set xs \<Longrightarrow> ok_stmt s)"
  shows "ok_stmt (S_Select xs)"
  unfolding ok_stmt_def stmt_eqs
  by (intro allI leads_step; ((clarify; erule enhanceVar_names) | (drule assms; simp add: ok_exprD) | simp add: ok_exprD assms)?)

lemma ok_S_Branch:
  shows "ok_stmt (S_Branch s)"
  unfolding ok_stmt_def stmt_eqs
  by (intro allI leads_step; (erule enhanceVar_names | simp)?)

lemma leads_case_ident:
  "(\<And>n. x = E_Ident n \<Longrightarrow> leads R c (g n)) \<Longrightarrow> leads R c m \<Longrightarrow> leads R c (case x of E_Ident n \<Rightarrow> g n | _ \<Rightarrow> m)"
  by (cases x) simp_all

lemma ok_E_Selector:
  assumes "ok_expr x"
  shows "ok_expr (E_Selector x s)"
proof (rule ok_exprI)
  note x = assms [THEN ok_exprD]
  show "leads R c (enhanceType (E_Selector x s) p i c)" for p i c
    unfolding type_eqs(2) by (intro leads_case_ident leads_selector leads_step x)
  show "leads R c (rewriteVar (E_Selector x s) p c)" for p c
    unfolding var_eqs(2) by (intro leads_step x)
  show "leads R c (enhanceVar (E_Selector x s) c)" for c
    unfolding name_eqs(2) by (intro leads_step x)
  show "leads R c (walk_expr (E_Selector x s) c)" for c
    unfolding walk_eqs(2) by (intro leads_step x)
qed simp

lemmas ok_cases =
  ok_E_Ident ok_E_Index ok_E_Slice ok_E_Star ok_E_Array ok_E_Ellipsis
  ok_E_Composite ok_E_KeyValue ok_E_Unary ok_E_Call ok_E_Func ok_E_TypeAssert
  ok_E_FuncLit ok_E_Binary ok_E_Paren ok_E_Map ok_E_Chan ok_E_Struct
  ok_E_Interface ok_E_BasicLit ok_S_Block ok_S_Assign ok_S_Return ok_S_Expr
  ok_S_If ok_S_Range ok_S_Decl ok_S_TypeSwitch ok_S_Switch ok_S_Case
  ok_S_For ok_S_Defer ok_S_Go ok_S_Labeled ok_S_Send ok_S_IncDec
  ok_S_Comm ok_S_Select ok_S_Branch ok_E_Selector

lemma ok_trees:
  fixes e :: gexpr and f :: gfield and s :: gstmt and sp :: gspec
  shows "ok_expr e" and "ok_field f" and "ok_stmt s" and "ok_spec sp"
proof (induction e and f and s and sp)
  case (V_Spec ns ty vals)
  then show ?case by (auto intro: ok_exprD)
qed ((rule ok_cases; (assumption | fast)) | simp add: ok_exprD)+

lemma type_related: "enhanceType e p i c = Some (r, d) \<Longrightarrow> R c d"
  using ok_type [OF ok_exprD, OF ok_trees(1), of c e p i] unfolding leads_def by blast

lemma var_related: "rewriteVar e p c = Some (r, d) \<Longrightarrow> R c d"
  using ok_var [OF ok_exprD, OF ok_trees(1), of c e p] unfolding leads_def by blast

lemma stmt_related: "enhanceFuncStmt s c = Some (r, d) \<Longrightarrow> R c d"
  using ok_stmtD [OF ok_trees(3), of c s] by (auto simp: leads_def)

lemma stmts_related: "each (\<lambda>i. enhanceFuncStmt) j ss c = Some (r, d) \<Longrightarrow> R c d"
  using leads_each [of ss "\<lambda>i. enhanceFuncStmt" c j] ok_stmtD [OF ok_trees(3)] by (auto simp: leads_def)

lemma params_related: "enhanceFuncParameter ps c = Some (r, d) \<Longrightarrow> R c d"
  using leads_fields [of ps c] ok_trees(2) by (auto simp: leads_def)

end

section \<open>The scopes\<close>

text \<open>
  A stack of scopes stack_grows from another: scopes are added in front of it, and its innermost scope is
  related to what it was.
\<close>

definition touched :: "((string \<rightharpoonup> string) \<Rightarrow> (string \<rightharpoonup> string) \<Rightarrow> bool) \<Rightarrow> (string \<rightharpoonup> string) list \<Rightarrow> (string \<rightharpoonup> string) list \<Rightarrow> bool" where
  "touched P S T \<longleftrightarrow> T = S \<or> (\<exists>F F' U. S = F # U \<and> T = F' # U \<and> P F F')"

definition stack_grows :: "((string \<rightharpoonup> string) \<Rightarrow> (string \<rightharpoonup> string) \<Rightarrow> bool) \<Rightarrow> (string \<rightharpoonup> string) list \<Rightarrow> (string \<rightharpoonup> string) list \<Rightarrow> bool" where
  "stack_grows P S S' \<longleftrightarrow> (\<exists>Fs T. S' = Fs @ T \<and> (\<forall>G\<in>set Fs. P Map.empty G) \<and> touched P S T)"

locale frame_order =
  fixes P :: "(string \<rightharpoonup> string) \<Rightarrow> (string \<rightharpoonup> string) \<Rightarrow> bool"
  assumes P_refl: "P F F"
    and P_trans: "P F G \<Longrightarrow> P G H \<Longrightarrow> P F H"
begin

lemma touched_refl: "touched P S S"
  by (simp add: touched_def)

lemma touched_trans: "touched P S T \<Longrightarrow> touched P T U \<Longrightarrow> touched P S U"
  unfolding touched_def by (auto intro: P_trans)

lemma stack_refl: "stack_grows P S S"
  unfolding stack_grows_def by (intro exI [of _ "[]"] exI [of _ S]) (simp add: touched_refl)

lemma stack_trans:
  assumes "stack_grows P S T" and "stack_grows P T U"
  shows "stack_grows P S U"
proof -
  obtain Fs T' where T: "T = Fs @ T'" "\<forall>G\<in>set Fs. P Map.empty G" "touched P S T'"
    using assms(1) unfolding stack_grows_def by blast
  obtain Gs U' where U: "U = Gs @ U'" "\<forall>G\<in>set Gs. P Map.empty G" "touched P T U'"
    using assms(2) unfolding stack_grows_def by blast
  show ?thesis
  proof (cases Fs)
    case Nil
    with T U show ?thesis unfolding stack_grows_def by (metis append_Nil touched_trans)
  next
    case (Cons f fs)
    then obtain f' where f: "U' = f' # fs @ T'" "P Map.empty f'"
      using T U(3) P_trans P_refl unfolding touched_def by auto
    then have "U = (Gs @ f' # fs) @ T'" "\<forall>G\<in>set (Gs @ f' # fs). P Map.empty G"
      using U T(2) Cons by auto
    with T(3) show ?thesis unfolding stack_grows_def by blast
  qed
qed

lemma stack_push: "stack_grows P S (Map.empty # S)"
  unfolding stack_grows_def by (intro exI [of _ "[Map.empty]"] exI [of _ S]) (simp add: touched_refl P_refl)

lemma stack_pop:
  assumes "stack_grows P (Map.empty # S) (F # T)"
  shows "stack_grows P S T"
proof -
  obtain Fs U where U: "F # T = Fs @ U" "\<forall>G\<in>set Fs. P Map.empty G" "touched P (Map.empty # S) U"
    using assms unfolding stack_grows_def by blast
  obtain F' where F': "U = F' # S" "P Map.empty F'"
    using U(3) P_refl unfolding touched_def by auto
  show ?thesis
  proof (cases Fs)
    case Nil
    with U F' show ?thesis by (simp add: stack_refl)
  next
    case (Cons f fs)
    with U F' have "T = (fs @ [F']) @ S" "\<forall>G\<in>set (fs @ [F']). P Map.empty G" by auto
    then show ?thesis unfolding stack_grows_def by (metis touched_refl)
  qed
qed

lemma stack_put: "P F F' \<Longrightarrow> stack_grows P (F # S) (F' # S)"
  unfolding stack_grows_def touched_def by (intro exI [of _ "[]"] exI [of _ "F' # S"]) auto

lemma stack_length: "stack_grows P S S' \<Longrightarrow> length S \<le> length S'"
  by (auto simp: stack_grows_def touched_def)

end

text \<open>A scope of variables gains variables that are mapped to themselves; one of types gains types.\<close>

definition own_names :: "(string \<rightharpoonup> string) \<Rightarrow> (string \<rightharpoonup> string) \<Rightarrow> bool" where
  "own_names F F' \<longleftrightarrow> (\<forall>n. F' n = F n \<or> F' n = Some n)"

definition more_names :: "(string \<rightharpoonup> string) \<Rightarrow> (string \<rightharpoonup> string) \<Rightarrow> bool" where
  "more_names F F' \<longleftrightarrow> dom F \<subseteq> dom F'"

interpretation own: frame_order own_names
  by unfold_locales (auto simp: own_names_def, metis)

interpretation more: frame_order more_names
  by unfold_locales (auto simp: more_names_def)

definition scopes :: "rw_context \<Rightarrow> (string \<rightharpoonup> string) list" where
  "scopes c = rewriteVarNames (rc_rewriteMapping c)"

definition type_scopes :: "rw_context \<Rightarrow> (string \<rightharpoonup> string) list" where
  "type_scopes c = rewriteTypeNames (rc_rewriteMapping c)"

definition scopes_grow :: "rw_context \<Rightarrow> rw_context \<Rightarrow> bool" where
  "scopes_grow c d \<longleftrightarrow> stack_grows own_names (scopes c) (scopes d) \<and> stack_grows more_names (type_scopes c) (type_scopes d)"

lemma put_lastE:
  assumes "put_last k v S = Some T"
  obtains F U where "S = F # U" and "T = F(k \<mapsto> v) # U"
  using assms by (cases S) auto

lemma scopes_AddingImport [simp]:
  "scopes (AddingImportToCurrentFile n p c) = scopes c"
  "type_scopes (AddingImportToCurrentFile n p c) = type_scopes c"
  by (simp_all add: AddingImportToCurrentFile_def scopes_def type_scopes_def Let_def)

lemma scopes_push [simp]:
  "scopes (pushBlockStack c) = Map.empty # scopes c"
  "type_scopes (pushBlockStack c) = Map.empty # type_scopes c"
  by (simp_all add: pushBlockStack_def scopes_def type_scopes_def)

lemma scopes_pop:
  assumes "popBlockStack c = Some d"
  obtains F G where "scopes c = F # scopes d" and "type_scopes c = G # type_scopes d"
  using assms by (auto simp: popBlockStack_def scopes_def type_scopes_def split: list.splits)

interpretation scoping: context_relation scopes_grow
proof unfold_locales
  show "scopes_grow c c" for c
    by (simp add: scopes_grow_def own.stack_refl more.stack_refl)
  show "scopes_grow c e" if "scopes_grow c d" "scopes_grow d e" for c d e
    using that by (auto simp: scopes_grow_def intro: own.stack_trans more.stack_trans)
  show "scopes_grow c d" if add: "addVarMapping n n c = Some d" for n c d
  proof -
    obtain F U where F: "scopes c = F # U" "scopes d = F(n \<mapsto> n) # U" and t: "type_scopes d = type_scopes c"
      using add by (auto simp: addVarMapping_def scopes_def type_scopes_def elim!: put_lastE)
    have "own_names F (F(n \<mapsto> n))" by (simp add: own_names_def)
    with F t show ?thesis by (simp add: scopes_grow_def own.stack_put more.stack_refl)
  qed
  show "scopes_grow c d" if add: "addTypeMapping k v c = Some d" for k v c d
  proof -
    obtain F U where F: "type_scopes c = F # U" "type_scopes d = F(k \<mapsto> v) # U" and t: "scopes d = scopes c"
      using add by (auto simp: addTypeMapping_def scopes_def type_scopes_def elim!: put_lastE)
    have "more_names F (F(k \<mapsto> v))" by (auto simp: more_names_def)
    with F t show ?thesis by (simp add: scopes_grow_def own.stack_refl more.stack_put)
  qed
  show "scopes_grow c (pushBlockStack c)" for c
    by (simp add: scopes_grow_def own.stack_push more.stack_push)
  show "scopes_grow c e" if "scopes_grow (pushBlockStack c) d" "popBlockStack d = Some e" for c d e
    using that by (auto simp: scopes_grow_def elim!: scopes_pop intro: own.stack_pop more.stack_pop)
  show "scopes_grow c (AddingImportToCurrentFile name path c)" for c name path
    by (simp add: scopes_grow_def own.stack_refl more.stack_refl)
qed

end
