(* ===== verification/Rewrite_Props.thy ===== *)
theory Rewrite_Props
  imports Rewrite_Scopes "HOL-Library.Multiset"
begin

text \<open>
  Properties of the rewriting of plugin files: references follow declarations, what stays of the
  scopes, what becomes of imports, and the inputs on which the rewriting goes wrong.
\<close>

section \<open>What a rewriting leaves alone\<close>

text \<open>The context without its scopes and the imports of the file.\<close>

definition same_setting :: "rw_context \<Rightarrow> rw_context \<Rightarrow> bool" where
  "same_setting c d \<longleftrightarrow>
     rc_pkgFullPath d = rc_pkgFullPath c \<and> rc_titleCase d = rc_titleCase c \<and> rc_targetPackage d = rc_targetPackage c \<and>
     rc_currentPackageTitle d = rc_currentPackageTitle c \<and> rc_packageImport d = rc_packageImport c \<and>
     nativeTypes (rc_rewriteMapping d) = nativeTypes (rc_rewriteMapping c) \<and> rc_InitFuncDetector d = rc_InitFuncDetector c"

lemma same_setting_steps:
  "addVarMapping k v c = Some d \<Longrightarrow> same_setting c d"
  "addTypeMapping k v c = Some d \<Longrightarrow> same_setting c d"
  "same_setting c (pushBlockStack c)"
  "popBlockStack c = Some d \<Longrightarrow> same_setting c d"
  "same_setting c (AddingImportToCurrentFile name path c)"
  by (auto simp: same_setting_def addVarMapping_def addTypeMapping_def pushBlockStack_def popBlockStack_def
      AddingImportToCurrentFile_def Let_def split: list.splits)

interpretation setting: context_relation same_setting
proof unfold_locales
  show "same_setting c e" if "same_setting c d" "same_setting d e" for c d e
    using that by (simp add: same_setting_def)
  show "same_setting c e" if "same_setting (pushBlockStack c) d" "popBlockStack d = Some e" for c d e
    using that same_setting_steps(3) [of c] same_setting_steps(4) [of d e] by (simp add: same_setting_def)
qed (simp add: same_setting_def, (rule same_setting_steps; assumption)+)

text \<open>The paths the file imports.\<close>

definition imported :: "rw_context \<Rightarrow> string list" where
  "imported c = map is_Path (concat (rc_imports c))"

definition imports_grow :: "rw_context \<Rightarrow> rw_context \<Rightarrow> bool" where
  "imports_grow c d \<longleftrightarrow> (\<exists>ps. mset (imported d) = mset (imported c) + mset ps \<and> distinct ps \<and> set ps \<inter> set (imported c) = {})"

lemma imported_add:
  "mset (imported (AddingImportToCurrentFile name path c)) =
     mset (imported c) + (if rc_pkgFullPath c = path \<or> path \<in> set (imported c) then {#} else {#path#})"
proof -
  have m: "list_ex (\<lambda>gen. list_ex (\<lambda>imp. is_Path imp = path) gen) (rc_imports c) \<longleftrightarrow> path \<in> set (imported c)"
    by (auto simp: imported_def list_ex_iff)
  show ?thesis
  proof (cases "rc_imports c" rule: rev_cases)
    case Nil
    then show ?thesis using m by (auto simp: AddingImportToCurrentFile_def Let_def imported_def)
  next
    case (snoc gens gen)
    then show ?thesis using m by (auto simp: AddingImportToCurrentFile_def Let_def imported_def)
  qed
qed

lemma imported_same [simp]:
  "addVarMapping k v c = Some d \<Longrightarrow> imported d = imported c"
  "addTypeMapping k v c = Some d \<Longrightarrow> imported d = imported c"
  "imported (pushBlockStack c) = imported c"
  "popBlockStack c = Some d \<Longrightarrow> imported d = imported c"
  by (auto simp: imported_def addVarMapping_def addTypeMapping_def pushBlockStack_def popBlockStack_def split: list.splits)

lemma imports_grow_refl [simp]: "imports_grow c c"
  unfolding imports_grow_def by (intro exI [of _ "[]"]) simp

interpretation importing: context_relation imports_grow
proof unfold_locales
  show "imports_grow c e" if cd: "imports_grow c d" and de: "imports_grow d e" for c d e
  proof -
    obtain ps where p: "mset (imported d) = mset (imported c) + mset ps" "distinct ps" "set ps \<inter> set (imported c) = {}"
      using cd unfolding imports_grow_def by blast
    obtain qs where q: "mset (imported e) = mset (imported d) + mset qs" "distinct qs" "set qs \<inter> set (imported d) = {}"
      using de unfolding imports_grow_def by blast
    have "set (imported d) = set (imported c) \<union> set ps"
      using p(1) by (metis mset_append set_append set_mset_mset)
    with p q show ?thesis unfolding imports_grow_def by (intro exI [of _ "ps @ qs"]) auto
  qed
  show "imports_grow c (AddingImportToCurrentFile name path c)" for c name path
    unfolding imports_grow_def imported_add
    by (cases "rc_pkgFullPath c = path \<or> path \<in> set (imported c)")
      (simp, intro exI [of _ "[path]"], simp)+
qed (simp_all add: imports_grow_def)

section \<open>Names\<close>

lemma has_prefix_append [simp]: "has_prefix (p @ s) p"
  by (simp add: has_prefix_def)

lemma generated_names:
  "has_prefix (TypePrefix @ s) OperatePrefix" "has_prefix (VarPrefix @ s) OperatePrefix"
  "has_prefix (StaticMethodPrefix @ s) OperatePrefix"
  by (simp_all add: TypePrefix_def VarPrefix_def StaticMethodPrefix_def)

lemma generated_basic [simp]:
  "typeIsBasicTypeValueOrEnhanceName (TypePrefix @ s)" "typeIsBasicTypeValueOrEnhanceName (VarPrefix @ s)"
  "typeIsBasicTypeValueOrEnhanceName (StaticMethodPrefix @ s)"
  using generated_names by (simp_all add: typeIsBasicTypeValueOrEnhanceName_def)

lemma generated_not_Nil [simp]: "TypePrefix \<noteq> []" "VarPrefix \<noteq> []" "StaticMethodPrefix \<noteq> []"
  by (simp_all add: TypePrefix_def VarPrefix_def StaticMethodPrefix_def OperatePrefix_def GenerateCommonPrefix_def)

text \<open>A name that the rewriting of a name may change.\<close>

definition plain_name :: "string \<Rightarrow> bool" where
  "plain_name n \<longleftrightarrow> \<not> typeIsBasicTypeValueOrEnhanceName n \<and> \<not> callIsBasicNamesOrEnhanceName n"

lemma find_add_type:
  "addTypeMapping k v c = Some d \<Longrightarrow> v \<noteq> [] \<Longrightarrow> findTypeMappingName d k = v"
  "addTypeMapping k v c = Some d \<Longrightarrow> findVarMappingName d n = findVarMappingName c n"
  by (auto simp: addTypeMapping_def findTypeMappingName_def findVarMappingName_def elim!: put_lastE)

lemma find_add_var:
  "addVarMapping k v c = Some d \<Longrightarrow> findVarMappingName d n = (if n = k then v else findVarMappingName c n)"
  by (auto simp: addVarMapping_def findVarMappingName_def elim!: put_lastE)

section \<open>References follow declarations\<close>


text \<open>
  A function without receiver that is neither public nor an initialiser gets a name with the prefix
  of static methods and the title of its package.  A call of it inside the package, where its name is
  mapped to nothing else, and a call through an import of the agent's package, where no variable has its
  name, call that name.\<close>

theorem calls_follow_function:
  assumes "\<not> has_prefix (fd_Name f) GenerateMethodPrefix" and "\<not> isInitFunc f" and "\<not> ContainsDirective (fd_Decs f) DirectivePublic"
    and "plain_name (fd_Name f)" and "findVarMappingName d (fd_Name f) = []" and "findTypeMappingName d (fd_Name f) = []"
    and "findNativeTypeMapping d (fd_Name f) = None" and "rc_currentPackageTitle d = rc_currentPackageTitle c"
    and "rc_packageImport e pkg = Some \<lparr>ri_pkgName = q, ri_isAgentCore = True\<rparr>" and "findVarMappingName e pkg = []"
    and "\<not> has_prefix pkg OtherPackageRefPrefix" and "rc_titleCase e q = rc_currentPackageTitle c"
    and "findVarMappingName e (fd_Name f) = []"
  shows "fst (fst (the (enhance_ident (fd_Name f) In_Call (- 1) d))) = E_Ident (fd_Name (rename_func f c)) \<and>
         fst (snd (fst (the (enhance_selector pkg (fd_Name f) In_Call (- 1) e)))) = Put_Fun (E_Ident (fd_Name (rename_func f c)))"
  using assms
  by (simp add: rename_func_def enhance_ident_def enhance_selector_def plain_name_def generateStaticMethod_def Let_def)

text \<open>
  A public function is declared under a name with the title of the prefix of generated methods, but a
  call of it inside its own package calls the name of a static method, which nobody declares.\<close>

theorem public_function_missed:
  assumes "\<not> has_prefix (fd_Name f) GenerateMethodPrefix" and "\<not> isInitFunc f" and "ContainsDirective (fd_Decs f) DirectivePublic"
    and "plain_name (fd_Name f)" and "findVarMappingName c (fd_Name f) = []" and "findTypeMappingName c (fd_Name f) = []"
    and "findNativeTypeMapping c (fd_Name f) = None" and "rc_titleCase c GenerateMethodPrefix \<noteq> StaticMethodPrefix"
  shows "fst (fst (the (enhance_ident (fd_Name f) In_Call (- 1) c))) \<noteq> E_Ident (fd_Name (rename_func f c))"
  using assms by (simp add: rename_func_def enhance_ident_def plain_name_def Let_def)

text \<open>
  Rewriting a name again changes nothing: a name that was given a prefix is left alone at every later
  place and in every later context.\<close>

theorem rewritten_name_stays:
  assumes "enhance_ident n p i c = Some ((E_Ident m, w, (k, v)), d)" and "k \<noteq> []" and "\<not> contains_text n BeforeInterStart"
  shows "k = n \<and> v = m \<and> enhance_ident m p' i' c' = Some ((E_Ident m, Keep, no_names), c')"
proof -
  have "k = n \<and> v = m \<and> (m = StaticMethodPrefix @ rc_currentPackageTitle c @ n \<or> m = TypePrefix @ rc_currentPackageTitle c @ n)"
    using assms by (auto simp: enhance_ident_def Let_def no_names_def Option.bind_eq_Some_conv enhance_selector_def
        split: if_splits option.splits)
  then show ?thesis by (auto simp: enhance_ident_def)
qed

section \<open>Scopes\<close>

lemma grown_find:
  assumes "stack_grows own_names S S'"
  shows "find_name S' n = find_name S n \<or> find_name S' n = n"
proof -
  obtain Fs T where S': "S' = Fs @ T" and Fs: "\<forall>G\<in>set Fs. own_names Map.empty G" and T: "touched own_names S T"
    using assms unfolding stack_grows_def by blast
  have "find_name T n = find_name S n \<or> find_name T n = n"
    using T by (auto simp: touched_def own_names_def split: option.splits)
       (metis option.inject option.simps(3))+
  then have "find_name (Fs @ T) n = find_name S n \<or> find_name (Fs @ T) n = n"
    using Fs by (induction Fs) (auto simp: own_names_def split: option.splits; metis option.inject option.simps(3))+
  with S' show ?thesis by simp
qed

lemma scopes_find:
  "scopes_grow c d \<Longrightarrow> findVarMappingName d n = findVarMappingName c n \<or> findVarMappingName d n = n"
  unfolding scopes_grow_def findVarMappingName_def scopes_def by (blast dest: grown_find)

text \<open>
  C32. A statement leaves every scope that was there, and what it maps are variables to themselves: a
  name is found as before or as itself.  But the scope it opens for a block, an if or a type switch is
  never closed.\<close>

theorem blocks_stay_open:
  assumes "enhanceFuncStmt s c = Some (s', d)"
  shows "(findVarMappingName d n = findVarMappingName c n \<or> findVarMappingName d n = n) \<and>
         length (scopes c) \<le> length (scopes d) \<and>
         ((\<exists>body. s = S_Block body) \<or> (\<exists>init cond body els. s = S_If init cond body els) \<or>
          (\<exists>init asg body. s = S_TypeSwitch init asg body) \<longrightarrow> length (scopes c) < length (scopes d))"
proof (intro conjI impI)
  show "findVarMappingName d n = findVarMappingName c n \<or> findVarMappingName d n = n"
    by (rule scopes_find [OF scoping.stmt_related [OF assms]])
  have len: "length (scopes e) \<le> length (scopes d)" if "scopes_grow e d" for e d
    using that by (auto simp: scopes_grow_def intro: own.stack_length)
  show "length (scopes c) \<le> length (scopes d)"
    by (rule len [OF scoping.stmt_related [OF assms]])
  assume "(\<exists>body. s = S_Block body) \<or> (\<exists>init cond body els. s = S_If init cond body els) \<or>
          (\<exists>init asg body. s = S_TypeSwitch init asg body)"
  then have "scopes_grow (pushBlockStack c) d"
  proof (elim disjE exE)
    fix body assume "s = S_Block body"
    with assms show ?thesis by (auto simp: stmt_eqs Option.bind_eq_Some_conv intro: scoping.stmts_related)
  next
    fix init cond body els assume s: "s = S_If init cond body els"
    have "leads scopes_grow (pushBlockStack c) (enhanceFuncStmt s c)"
      unfolding s stmt_eqs
      by (intro scoping.leads_step scoping.ok_trees(3) scoping.ok_exprD [OF scoping.ok_trees(1)])
    with assms show ?thesis by (auto simp: leads_def)
  next
    fix init asg body assume s: "s = S_TypeSwitch init asg body"
    have "leads scopes_grow (pushBlockStack c) (enhanceFuncStmt s c)"
      unfolding s stmt_eqs
      by (intro scoping.leads_step scoping.ok_trees(3) scoping.ok_exprD [OF scoping.ok_trees(1)])
    with assms show ?thesis by (auto simp: leads_def)
  qed
  from len [OF this] show "length (scopes c) < length (scopes d)" by simp
qed

text \<open>The parameters of a list are mapped to themselves once it was visited.\<close>

lemma each_add_vars:
  assumes "each (\<lambda>j n t. do { t1 \<leftarrow> addVarMapping n n t; Some ((), t1) }) i ns c = Some (r, d)" and "n \<in> set ns"
  shows "findVarMappingName d n = n"
  using assms
proof (induction ns arbitrary: i c r)
  case (Cons a ns)
  from Cons.prems(1) obtain c1 r' where c1: "addVarMapping a a c = Some c1"
    and rest: "each (\<lambda>j n t. do { t1 \<leftarrow> addVarMapping n n t; Some ((), t1) }) (Suc i) ns c1 = Some (r', d)"
    by (auto simp: Option.bind_eq_Some_conv)
  show ?case
  proof (cases "n \<in> set ns")
    case True
    then show ?thesis by (rule Cons.IH [OF rest])
  next
    case False
    with Cons.prems(2) have "findVarMappingName c1 n = n" by (simp add: find_add_var [OF c1])
    moreover have "leads scopes_grow c1 (each (\<lambda>j n t. do { t1 \<leftarrow> addVarMapping n n t; Some ((), t1) }) (Suc i) ns c1)"
      by (intro scoping.leads_step)
    then have "scopes_grow c1 d" using rest by (simp add: leads_def)
    ultimately show ?thesis using scopes_find [of c1 d n] by simp
  qed
qed simp

lemma fields_step_related:
  assumes "(case fl of G_Field ns ty tag \<Rightarrow>
         do { (_, s1) \<leftarrow> each (\<lambda>j n t. do { t1 \<leftarrow> addVarMapping n n t; Some ((), t1) }) 0 ns s;
              ((ty1, w, kv), s2) \<leftarrow> enhanceType ty In_Field (- 1) s1;
              s3 \<leftarrow> note_type kv s2;
              Some (G_Field ns (filled ty1 w) tag, s3) }) = Some (r, d)" (is "?step fl s = _")
  shows "scopes_grow s d" and "fl = G_Field ns ty tag \<Longrightarrow> n \<in> set ns \<Longrightarrow> findVarMappingName d n = n"
proof -
  have "leads scopes_grow s (?step fl s)"
    using scoping.ok_trees(2) [of fl]
    by (cases fl) (auto intro!: scoping.leads_step scoping.ok_exprD [OF scoping.ok_trees(1)])
  with assms show "scopes_grow s d" by (auto simp: leads_def)
  assume fl: "fl = G_Field ns ty tag" and n: "n \<in> set ns"
  from assms fl obtain u s1 ty1 w kv s2 where
    s1: "each (\<lambda>j n t. do { t1 \<leftarrow> addVarMapping n n t; Some ((), t1) }) 0 ns s = Some (u, s1)"
    and s2: "enhanceType ty In_Field (- 1) s1 = Some ((ty1, w, kv), s2)" and d: "note_type kv s2 = Some d"
    by (auto simp: Option.bind_eq_Some_conv)
  have "scopes_grow s1 s2" by (rule scoping.type_related [OF s2])
  moreover have "scopes_grow s2 d"
    using scoping.leads_note_type [of s2 kv] d by (simp add: leads_to_def)
  ultimately show "findVarMappingName d n = n"
    using each_add_vars [OF s1 n] scopes_find [of s1 s2 n] scopes_find [of s2 d n] by auto
qed

lemma each_member:
  assumes "each f i xs s = Some (ys, t)" and "x \<in> set xs"
    and "\<And>i x y s t. f i x s = Some (y, t) \<Longrightarrow> Q s t" and "\<And>s. Q s s" and "\<And>s t u. Q s t \<Longrightarrow> Q t u \<Longrightarrow> Q s u"
  shows "\<exists>j y s1 t1. f j x s1 = Some (y, t1) \<and> Q s s1 \<and> Q t1 t"
  using assms(1,2)
proof (induction xs arbitrary: i s ys)
  case (Cons a xs)
  from Cons.prems(1) obtain y s1 ys' where y: "f i a s = Some (y, s1)" and rest: "each f (Suc i) xs s1 = Some (ys', t)"
    by (auto simp: Option.bind_eq_Some_conv)
  have run: "Q s' t'" if "each f k zs s' = Some (vs, t')" for k zs s' vs t'
    using that by (induction zs arbitrary: k s' vs) (auto simp: Option.bind_eq_Some_conv intro: assms(3-5))
  show ?case
  proof (cases "x = a")
    case True
    with y run [OF rest] assms(4) show ?thesis by blast
  next
    case False
    with Cons.IH [OF rest] Cons.prems(2) show ?thesis using assms(3) [OF y] assms(5) by (metis set_ConsD)
  qed
qed simp

lemma parameters_own:
  assumes "enhanceFuncParameter (Some ps) c = Some (r, d)" and "G_Field ns ty tag \<in> set ps" and "n \<in> set ns"
  shows "findVarMappingName d n = n"
proof -
  let ?step = "\<lambda>i fl s. case fl of G_Field ns ty tag \<Rightarrow>
         do { (_, s1) \<leftarrow> each (\<lambda>j n t. do { t1 \<leftarrow> addVarMapping n n t; Some ((), t1) }) 0 ns s;
              ((ty1, w, kv), s2) \<leftarrow> enhanceType ty In_Field (- 1) s1;
              s3 \<leftarrow> note_type kv s2;
              Some (G_Field ns (filled ty1 w) tag, s3) }"
  from assms(1) obtain ys where "each ?step 0 ps c = Some (ys, d)"
    by (auto simp: enhanceFuncParameter.simps opt_def Option.bind_eq_Some_conv)
  then obtain j y s1 t1 where "?step j (G_Field ns ty tag) s1 = Some (y, t1)" and grow: "scopes_grow t1 d"
    using each_member [of ?step 0 ps c ys d "G_Field ns ty tag" scopes_grow] assms(2) fields_step_related(1)
      scoping.R_refl scoping.R_trans by blast
  with fields_step_related(2) assms(3) have "findVarMappingName t1 n = n" by blast
  with scopes_find [OF grow, of n] show ?thesis by simp
qed

text \<open>
  The parameters and results of a function keep their names, and keep them after the function: its
  names are entered in the scope that is open, and no scope is opened for it.  A variable of the package
  with the name of a parameter of any function visited before is then no longer found under the name it
  is declared with, and a reference to it stays as it is.\<close>

theorem parameter_outlives_function:
  assumes "Func f c = Some (f', d)" and "fd_Params f = Some ps \<or> fd_Results f = Some ps" and "G_Field ns ty tag \<in> set ps"
    and "n \<in> set ns" and "n \<noteq> []" and "plain_name n"
  shows "findVarMappingName d n = n \<and> enhance_ident n p i d = Some ((E_Ident n, Keep, no_names), d)"
proof -
  from assms(1) obtain f1 c1 c2 qs c3 rs c4 body where
    r: "(case fd_Recv f of
          None \<Rightarrow> Some (rename_func f c, c)
        | Some [fl] \<Rightarrow> do { (fl1, d) \<leftarrow> enhance_receiver fl c; Some (f\<lparr>fd_Recv := Some [fl1]\<rparr>, d) }
        | Some _ \<Rightarrow> Some (f, c)) = Some (f1, c1)"
    and c3: "enhanceFuncParameter (fd_Params f1) c2 = Some (qs, c3)"
    and c4: "enhanceFuncParameter (fd_Results f1) c3 = Some (rs, c4)"
    and c5: "opt (each (\<lambda>i. enhanceFuncStmt) 0) (fd_Body f1) c4 = Some (body, d)"
    unfolding Func_def by (auto simp: Option.bind_eq_Some_conv)
  have f1: "fd_Params f1 = fd_Params f" "fd_Results f1 = fd_Results f"
    using r by (auto simp: rename_func_def Let_def Option.bind_eq_Some_conv split: option.splits list.splits if_splits)
  have g: "scopes_grow c3 c4" by (rule scoping.params_related [OF c4])
  have h: "scopes_grow c4 d"
    using c5 by (cases "fd_Body f1")
      (auto simp: opt_def Option.bind_eq_Some_conv scoping.R_refl intro: scoping.stmts_related)
  from assms(2) have "findVarMappingName c4 n = n"
  proof
    assume "fd_Params f = Some ps"
    with c3 f1 have "findVarMappingName c3 n = n" using parameters_own assms(3,4) by metis
    with scopes_find [OF g, of n] show ?thesis by simp
  next
    assume "fd_Results f = Some ps"
    with c4 f1 show ?thesis using parameters_own assms(3,4) by metis
  qed
  with scopes_find [OF h, of n] have "findVarMappingName d n = n" by simp
  with assms(5,6) show ?thesis by (simp add: enhance_ident_def plain_name_def)
qed

section \<open>Where the rewriting goes wrong\<close>

text \<open>A name that stands for the package it is imported from: no variable, no reference of another package.\<close>

definition package_name :: "rw_context \<Rightarrow> string \<Rightarrow> bool" where
  "package_name c pkg \<longleftrightarrow> findVarMappingName c pkg = [] \<and> \<not> has_prefix pkg OtherPackageRefPrefix"

text \<open>
  A member of an agent package that is passed to a function, and is not a variable known by its name,
  takes the place of the function: the call calls the member, and its argument is left as it was.\<close>

theorem argument_takes_function:
  assumes "rc_packageImport c pkg = Some \<lparr>ri_pkgName = q, ri_isAgentCore = True\<rparr>" and "package_name c pkg"
    and "findVarMappingName c m = []" and "\<not> typeIsBasicTypeValueOrEnhanceName m"
  shows "enhanceType (E_Call f [E_Selector (E_Ident pkg) m]) p i c =
         Some ((E_Call (E_Ident (StaticMethodPrefix @ rc_titleCase c q @ m)) [E_Selector (E_Ident pkg) m], Keep, no_names), c)"
proof -
  have arg: "enhanceType (E_Selector (E_Ident pkg) m) In_Call 0 c =
      Some ((E_Selector (E_Ident pkg) m, Put_Fun (E_Ident (StaticMethodPrefix @ rc_titleCase c q @ m)), no_names), c)"
    using assms by (simp add: type_eqs enhance_selector_def package_name_def generateStaticMethod_def Let_def)
  show ?thesis
    by (simp add: type_eqs(11) arg overridden_def enhance_again_def enhance_ident_def filled_def called_def no_names_def)
qed

text \<open>
  A comparison whose left operand is a field of a member of a package panics.\<close>

theorem comparison_panics:
  assumes "package_name c a"
  shows "enhanceType (E_Binary (E_Selector (E_Selector (E_Ident a) b) s) op y) p i c = None"
  using assms by (simp add: type_eqs enhance_selector_def package_name_def put_type_def Let_def)

text \<open>
  A variable that is initialised with a member of a package that is not the agent's, without a type, is
  given that member as its type.\<close>

theorem value_becomes_type:
  assumes "package_name c a" and "rc_packageImport c a = None" and "a \<noteq> x" and "scopes c \<noteq> []"
  shows "\<exists>d N. Var [x] None [E_Selector (E_Ident a) v] False c =
           Some (V_Spec [N] (Some (E_Selector (E_Ident a) v)) [E_Selector (E_Ident a) v], d)"
proof -
  define N where "N = (if alreadyGenerated c x then x else VarPrefix @ rc_currentPackageTitle c @ x)"
  obtain d where d: "addVarMapping x N c = Some d"
    using assms(4) by (cases "scopes c") (auto simp: addVarMapping_def scopes_def)
  have s: "rc_packageImport d a = None"
    using same_setting_steps(1) [OF d] assms(2) by (simp add: same_setting_def)
  have "findVarMappingName d a = []"
    using find_add_var [OF d, of a] assms(1,3) by (simp add: package_name_def)
  then have "enhanceType (E_Selector (E_Ident a) v) In_ValueSpec (- 1) d =
      Some ((E_Selector (E_Ident a) v, Put (E_Selector (E_Ident a) v), no_names), d)"
    using assms(1) s by (simp add: type_eqs enhance_selector_def package_name_def put_type_def Let_def)
  with d show ?thesis by (simp add: Var_def N_def opt_def Let_def)
qed

text \<open>
  A reference to another package that was marked is unmarked, whatever the context imports, unless a
  variable has the marked name.\<close>

theorem marked_reference_restored:
  assumes "findVarMappingName c (OtherPackageRefPrefix @ pkg) = []"
  shows "enhanceType (E_Selector (E_Ident (OtherPackageRefPrefix @ pkg)) n) p i c =
         Some ((E_Selector (E_Ident pkg) n, Keep, no_names), c)"
  using assms by (simp add: type_eqs enhance_selector_def Let_def)

text \<open>The names Go declares in every file, apart from those of types.\<close>

definition predeclared :: "string list" where
  "predeclared =
     [''true'', ''false'', ''iota'', ''nil'', ''append'', ''cap'', ''clear'', ''close'', ''complex'', ''copy'', ''delete'',
      ''imag'', ''len'', ''make'', ''max'', ''min'', ''new'', ''panic'', ''print'', ''println'', ''real'', ''recover'']"

definition predeclared_lost :: "string list" where
  "predeclared_lost =
     [''iota'', ''cap'', ''clear'', ''close'', ''complex'', ''copy'', ''imag'', ''max'', ''min'', ''print'', ''println'', ''real'']"

lemma predeclared_plain: "list_all (\<lambda>n. plain_name n \<longleftrightarrow> n \<in> set predeclared_lost) predeclared"
  by code_simp

text \<open>
  Of the names that Go declares itself iota, cap, clear, close, complex, copy, imag, max, min, print,
  println and real, and no others, are renamed like functions of the package where nothing is mapped to
  them.\<close>

theorem predeclared_renamed:
  assumes "n \<in> set predeclared" and "findVarMappingName c n = []" and "findTypeMappingName c n = []"
    and "findNativeTypeMapping c n = None"
  shows "enhance_ident n In_Call (- 1) c =
    (if n \<in> set predeclared_lost
     then Some ((E_Ident (StaticMethodPrefix @ rc_currentPackageTitle c @ n), Keep, (n, StaticMethodPrefix @ rc_currentPackageTitle c @ n)), c)
     else Some ((E_Ident n, Keep, no_names), c))"
proof -
  have "plain_name n \<longleftrightarrow> n \<in> set predeclared_lost"
    using predeclared_plain assms(1) by (simp add: list_all_iff)
  with assms(2-4) show ?thesis
    by (cases "n \<in> set predeclared_lost") (auto simp: enhance_ident_def plain_name_def Let_def)
qed

section \<open>Package variables\<close>

text \<open>What the first pass over the files does to the context: the package variables known so far stay known.\<close>

definition declared_as :: "rw_context \<Rightarrow> string \<Rightarrow> string" where
  "declared_as c n = VarPrefix @ rc_currentPackageTitle c @ n"

definition keeps_declared :: "rw_context \<Rightarrow> rw_context \<Rightarrow> bool" where
  "keeps_declared s t \<longleftrightarrow> same_setting s t \<and>
     (\<forall>n. \<not> alreadyGenerated s n \<and> findVarMappingName s n = declared_as s n \<longrightarrow> findVarMappingName t n = declared_as s n)"

lemma same_setting_names:
  assumes "same_setting s t"
  shows "declared_as t n = declared_as s n" and "alreadyGenerated t n = alreadyGenerated s n"
  using assms by (simp_all add: same_setting_def declared_as_def alreadyGenerated_def)

lemma keeps_declared_refl: "keeps_declared s s"
  by (simp add: keeps_declared_def same_setting_def)

lemma keeps_declared_trans: "keeps_declared s t \<Longrightarrow> keeps_declared t u \<Longrightarrow> keeps_declared s u"
  using same_setting_names [of s t] setting.R_trans [of s t u] by (simp add: keeps_declared_def)

lemma Var_name_only:
  assumes "Var names ty vals True s = Some (r, t)"
  shows "keeps_declared s t" and "names = [n] \<Longrightarrow> \<not> alreadyGenerated s n \<Longrightarrow> findVarMappingName t n = declared_as s n"
proof -
  have *: "keeps_declared s t \<and> (\<forall>n. names = [n] \<and> \<not> alreadyGenerated s n \<longrightarrow> findVarMappingName t n = declared_as s n)"
  proof (cases "\<exists>m. names = [m]")
    case True
    then obtain m where m: "names = [m]" by blast
    with assms have t: "addVarMapping m (if alreadyGenerated s m then m else declared_as s m) s = Some t"
      by (auto simp: Var_def declared_as_def Let_def Option.bind_eq_Some_conv)
    show ?thesis
      using m find_add_var [OF t] same_setting_steps(1) [OF t] by (auto simp: keeps_declared_def)
  next
    case False
    with assms have "t = s" by (auto simp: Var_def split: list.splits)
    with False show ?thesis by (auto simp: keeps_declared_refl)
  qed
  from * show "keeps_declared s t" by blast
  from * show "names = [n] \<Longrightarrow> \<not> alreadyGenerated s n \<Longrightarrow> findVarMappingName t n = declared_as s n" by blast
qed

lemma Type_name_only:
  assumes "Type n ty decs True s = Some (r, t)"
  shows "keeps_declared s t"
proof (cases "alreadyGenerated s n")
  case True
  with assms show ?thesis by (simp add: Type_def keeps_declared_refl)
next
  case False
  with assms obtain N where "addTypeMapping n N s = Some t"
    by (auto simp: Type_def Let_def Option.bind_eq_Some_conv)
  then show ?thesis
    using find_add_type(2) same_setting_steps(2) by (auto simp: keeps_declared_def)
qed

lemma each_keeps:
  assumes "each f i xs s = Some (ys, t)" and "\<And>i x y s t. f i x s = Some (y, t) \<Longrightarrow> keeps_declared s t"
  shows "keeps_declared s t"
  using assms(1)
  by (induction xs arbitrary: i s ys)
    (auto simp: keeps_declared_refl Option.bind_eq_Some_conv intro: assms(2) keeps_declared_trans)

lemma spec_name_only:
  assumes "(case sp of
      V_Spec ns ty vals \<Rightarrow> (if tok = VAR_TOK \<or> tok = CONST_TOK then Var ns ty vals True s else Some (sp, s))
    | T_Spec n ty \<Rightarrow> (if tok = TYPE_TOK then Type n ty decs True s else Some (sp, s))) = Some (y, t)"
  shows "keeps_declared s t"
  using assms Var_name_only(1) Type_name_only
  by (auto simp: keeps_declared_refl split: gspec.splits if_splits)

lemma decl_name_only: "top_level_decl d s = Some (y, t) \<Longrightarrow> keeps_declared s t"
  by (auto simp: top_level_decl_def keeps_declared_refl Option.bind_eq_Some_conv split: gdecl.splits
      elim!: each_keeps intro: spec_name_only)

lemma file_name_only: "top_level_file f s = Some (y, t) \<Longrightarrow> keeps_declared s t"
  by (auto simp: top_level_file_def Option.bind_eq_Some_conv elim!: each_keeps intro: decl_name_only)

lemma file_declares:
  assumes "top_level_file f c = Some (y, t)" and "D_Gen tok decs specs \<in> set (file_Decls f)" and "tok = VAR_TOK \<or> tok = CONST_TOK"
    and "V_Spec [n] ty vals \<in> set specs" and "\<not> alreadyGenerated c n"
  shows "findVarMappingName t n = declared_as c n"
proof -
  from assms(1) obtain ds where "each (\<lambda>i. top_level_decl) 0 (file_Decls f) c = Some (ds, t)"
    by (auto simp: top_level_file_def Option.bind_eq_Some_conv)
  from each_member [OF this assms(2), of keeps_declared] obtain j z s1 t1
    where z: "top_level_decl (D_Gen tok decs specs) s1 = Some (z, t1)" and c: "keeps_declared c s1" and t: "keeps_declared t1 t"
    using decl_name_only keeps_declared_refl keeps_declared_trans by blast
  let ?f = "\<lambda>i sp s. case sp of
      V_Spec ns ty vals \<Rightarrow> (if tok = VAR_TOK \<or> tok = CONST_TOK then Var ns ty vals True s else Some (sp, s))
    | T_Spec n ty \<Rightarrow> (if tok = TYPE_TOK then Type n ty decs True s else Some (sp, s))"
  from z obtain ss where "each ?f 0 specs s1 = Some (ss, t1)"
    by (auto simp: top_level_decl_def Option.bind_eq_Some_conv)
  from each_member [OF this assms(4), of keeps_declared] obtain k y s2 t2
    where y: "?f k (V_Spec [n] ty vals) s2 = Some (y, t2)" and s2: "keeps_declared s1 s2" and t2: "keeps_declared t2 t1"
    using spec_name_only keeps_declared_refl keeps_declared_trans by blast
  have cs: "keeps_declared c s2" and tt: "keeps_declared t2 t" and ct: "keeps_declared c t2"
    using c s2 t t2 spec_name_only [OF y] keeps_declared_trans by metis+
  have s: "same_setting c s2" "same_setting c t2" using cs ct by (simp_all add: keeps_declared_def)
  have "findVarMappingName t2 n = declared_as s2 n"
    using y assms(3,5) same_setting_names(2) [OF s(1)] by (auto intro: Var_name_only(2))
  with tt assms(5) show ?thesis
    by (simp add: keeps_declared_def same_setting_names [OF s(1)] same_setting_names [OF s(2)])
qed

lemma positions_keep: "at_positions top_level_file is fs c = Some (fs', d) \<Longrightarrow> keeps_declared c d"
  by (induction "is" arbitrary: fs c)
    (auto simp: keeps_declared_refl Option.bind_eq_Some_conv intro: file_name_only keeps_declared_trans)


section \<open>Imports\<close>

text \<open>
  Relations of contexts that are kept by any mapping of a variable and by the detection of initialisers
  as well are kept by the rewriting of declarations.
\<close>

locale declaration_relation = context_relation +
  assumes R_name: "addVarMapping k v c = Some d \<Longrightarrow> R c d"
    and R_init: "R c (appendInitFunction n c)"
begin

lemma all_ok: "ok e"
  by (rule ok_exprD [OF ok_trees(1)])

lemmas all_steps = leads_step all_ok leads_fields ok_trees(2,3)

lemma leads_to_name [leads_intros]: "leads_to R c (addVarMapping k v c)"
  by (auto simp: leads_to_def dest: R_name)

lemma leads_to_type: "leads_to R c (addTypeMapping k v c)"
  by (auto simp: leads_to_def dest: R_type)

lemma leads_to_init: "leads_to R c (initFunctionDetector f c)"
  by (auto simp: leads_to_def initFunctionDetector_def R_refl R_init)

lemma leads_receiver: "leads R c (enhance_receiver fl c)"
proof -
  have "leads_to R c (case ns of [] \<Rightarrow> Some c | n # _ \<Rightarrow> addVarMapping n n c)" for ns
    by (cases ns) (auto simp: leads_to_def R_refl dest: R_name)
  then show ?thesis
    unfolding enhance_receiver_def by (intro all_steps)
qed

lemma leads_Func: "leads R c (Func f c)"
proof -
  have "leads R c (case fd_Recv f of
          None \<Rightarrow> Some (rename_func f c, c)
        | Some [fl] \<Rightarrow> do { (fl1, d) \<leftarrow> enhance_receiver fl c; Some (f\<lparr>fd_Recv := Some [fl1]\<rparr>, d) }
        | Some _ \<Rightarrow> Some (f, c))"
    by (auto split: option.splits list.splits intro!: leads_here leads_intros leads_receiver R_refl)
  note head = this
  show ?thesis
    unfolding Func_def by (rule leads_bind [OF head]) (intro all_steps leads_to_init leads_opt leads_each)
qed

lemma leads_Type: "leads R c (Type n ty decs onlyName c)"
proof -
  have meth: "leads R c (enhance_method fl c)" for fl c
    unfolding enhance_method_def
    by (cases fl; simp only: gfield.case; auto split: gexpr.splits intro!: all_steps)
  have fld: "leads R c (enhance_struct_field fl c)" for fl c
    unfolding enhance_struct_field_def by (intro all_steps)
  have "leads R d (case ty of
               E_Interface ms \<Rightarrow>
                 do { (ms1, c2) \<leftarrow> each (\<lambda>i. enhance_method) 0 ms d; Some (T_Spec m (E_Interface ms1), c2) }
             | E_Func tps ps rs \<Rightarrow>
                 do { (ps1, c2) \<leftarrow> enhanceFuncParameter ps d;
                      (rs1, c3) \<leftarrow> enhanceFuncParameter rs c2;
                      Some (T_Spec m (E_Func tps ps1 rs1), c3) }
             | E_Struct fs \<Rightarrow>
                 do { (fs1, c2) \<leftarrow> each (\<lambda>i. enhance_struct_field) 0 fs d; Some (T_Spec m (E_Struct fs1), c2) }
             | _ \<Rightarrow> Some (T_Spec m ty, d))" for d m
    by (cases ty; simp only: gexpr.case; intro all_steps meth fld leads_each)
  then show ?thesis
    unfolding Type_def Let_def by (intro all_steps leads_to_type)
qed

lemma leads_Var: "leads R c (Var names ty vals onlyName c)"
proof -
  have "leads R c (case names of
          [oldName] \<Rightarrow>
            (let new = (if alreadyGenerated c oldName then oldName
                        else VarPrefix @ rc_currentPackageTitle c @ oldName)
             in do { d \<leftarrow> addVarMapping oldName new c; Some ([new], d) })
        | _ \<Rightarrow> Some (names, c))"
    by (auto simp: Let_def split: list.splits intro!: leads_here leads_intros R_refl)
  then show ?thesis
    unfolding Var_def by (intro all_steps)
qed

lemma leads_decl: "leads R c (process_decl d c)"
  unfolding process_decl_def
  by (cases d; simp only: gdecl.case; intro all_steps leads_Func leads_each leads_Type leads_Var)

end

interpretation file_importing: declaration_relation imports_grow
  by unfold_locales (simp_all add: imports_grow_def, simp add: imported_def appendInitFunction_def)

text \<open>The imports the rewriting of a file removes: the agent's packages and the package itself.\<close>

definition own_import :: "rw_context \<Rightarrow> string \<Rightarrow> bool" where
  "own_import c p \<longleftrightarrow> p = rc_pkgFullPath c \<or> p \<in> set (map (\<lambda>d. EnhanceFromBasePackage @ ''/'' @ d) OperatorDirs)"

lemma Import_own:
  "snd (Import imp c) = own_import c (is_Path imp)" "rc_pkgFullPath (fst (Import imp c)) = rc_pkgFullPath c"
  "rc_targetPackage (fst (Import imp c)) = rc_targetPackage c"
  by (auto simp: Import_def own_import_def Let_def list_ex_iff)

lemma own_import_same: "rc_pkgFullPath d = rc_pkgFullPath c \<Longrightarrow> own_import d p = own_import c p"
  by (simp add: own_import_def)

lemma process_imports_kept:
  "fst (process_imports imps c) = filter (\<lambda>i. \<not> own_import c (is_Path i)) imps \<and>
   rc_pkgFullPath (snd (process_imports imps c)) = rc_pkgFullPath c"
proof (induction imps arbitrary: c)
  case (Cons imp imps)
  obtain c1 del where c1: "Import imp c = (c1, del)" by (cases "Import imp c")
  with Import_own [of imp c] have del: "del = own_import c (is_Path imp)" and p: "rc_pkgFullPath c1 = rc_pkgFullPath c" by simp_all
  have "own_import c1 = own_import c" by (rule ext, rule own_import_same [OF p])
  with c1 del p Cons.IH [of c1] show ?case by (simp add: case_prod_beta Let_def)
qed simp

lemma process_import_decls_kept:
  "fst (process_import_decls gens c) = map (filter (\<lambda>i. \<not> own_import c (is_Path i))) gens"
proof (induction gens arbitrary: c)
  case (Cons gen gens)
  obtain g c1 where g: "process_imports gen c = (g, c1)" by (cases "process_imports gen c")
  with process_imports_kept [of gen c] have g': "g = filter (\<lambda>i. \<not> own_import c (is_Path i)) gen"
    and p: "rc_pkgFullPath c1 = rc_pkgFullPath c" by simp_all
  have "own_import c1 = own_import c" by (rule ext, rule own_import_same [OF p])
  with g g' Cons.IH [of c1] show ?case by (simp add: case_prod_beta Let_def)
qed simp

lemma concat_nonempty: "concat (filter (\<lambda>g. g \<noteq> []) gens) = concat gens"
  by (induction gens) auto

text \<open>
  The rewriting of a file puts it into the target package, removes the imports of the agent's packages
  and of the package itself, keeps the others, and adds imports of paths the file does not import, each
  once; no import declaration is left empty.\<close>

theorem imports_of_rewritten_file:
  assumes "processSingleFile f from c = Some (f', d)"
  shows "file_Name f' = rc_targetPackage c \<and> [] \<notin> set (file_Imports f') \<and>
    (\<exists>ps. mset (map is_Path (concat (file_Imports f'))) =
            mset (filter (\<lambda>p. \<not> own_import c p) (map is_Path (concat (file_Imports f)))) + mset ps \<and>
          distinct ps \<and> set ps \<inter> set (filter (\<lambda>p. \<not> own_import c p) (map is_Path (concat (file_Imports f)))) = {})"
proof -
  define c0 where "c0 = c\<lparr>rc_currentPackageTitle := rc_titleCase c from\<rparr>"
  obtain gens c1 where i: "process_import_decls (file_Imports f) c0 = (gens, c1)"
    by (cases "process_import_decls (file_Imports f) c0")
  with assms obtain decls where
    decls: "each (\<lambda>i. process_decl) 0 (file_Decls f) (c1\<lparr>rc_imports := gens\<rparr>) = Some (decls, d)"
    and f': "f' = RemoveImportDefineIfNoPackage \<lparr>file_Name = rc_targetPackage c, file_Imports = rc_imports d, file_Decls = decls\<rparr>"
    by (auto simp: processSingleFile_def c0_def Option.bind_eq_Some_conv)
  have "gens = map (filter (\<lambda>i. \<not> own_import c (is_Path i))) (file_Imports f)"
    using process_import_decls_kept [of "file_Imports f" c0] i by (simp add: c0_def own_import_def)
  then have kept: "imported (c1\<lparr>rc_imports := gens\<rparr>) = filter (\<lambda>p. \<not> own_import c p) (map is_Path (concat (file_Imports f)))"
    by (simp add: imported_def filter_concat filter_map o_def)
  have "imports_grow (c1\<lparr>rc_imports := gens\<rparr>) d"
    using importing.leads_each [of "file_Decls f" "\<lambda>i. process_decl" "c1\<lparr>rc_imports := gens\<rparr>" 0]
      file_importing.leads_decl decls by (simp add: leads_def)
  with kept f' show ?thesis
    by (auto simp: imports_grow_def imported_def RemoveImportDefineIfNoPackage_def concat_nonempty)
qed

section \<open>Instances\<close>

text \<open>A caser: the first letter in upper case and the others in lower case.\<close>

definition english_title :: "string \<Rightarrow> string" where
  "english_title s =
     (case s of [] \<Rightarrow> []
      | x # xs \<Rightarrow> (let n = of_char x :: nat in if 97 \<le> n \<and> n \<le> 122 then char_of (n - 32) else x) # map to_lower xs)"

definition gin :: rw_context where
  "gin = (fst (Import \<lparr>is_Name = None, is_Path = EnhanceFromBasePackage @ ''/tracing''\<rparr>
            (NewContext english_title ''github.com/gin-gonic/gin'' ''gin'')))
          \<lparr>rc_currentPackageTitle := ''Gin''\<rparr>"

definition tracing_ctx :: rw_context where
  "tracing_ctx = (NewContext english_title ''github.com/gin-gonic/gin'' ''gin'')\<lparr>rc_currentPackageTitle := ''Tracing''\<rparr>"

lemma gin_facts:
  "rc_packageImport gin ''tracing'' = Some \<lparr>ri_pkgName = ''tracing'', ri_isAgentCore = True\<rparr>"
  "findVarMappingName gin ''tracing'' = []" "\<not> has_prefix ''tracing'' OtherPackageRefPrefix"
  "rc_titleCase gin ''tracing'' = rc_currentPackageTitle tracing_ctx" "scopes gin = [Map.empty]"
  by (code_simp, code_simp, code_simp, code_simp)
    (simp add: gin_def scopes_def Import_def NewContext_def newRewriteFuncMapping_def Let_def)


lemma blocks_stay_open_witness:
  "\<exists>d. enhanceFuncStmt (S_Block [S_Assign [E_Ident ''x''] '':='' [E_BasicLit ''1'']]) gin =
         Some (S_Block [S_Assign [E_Ident ''x''] '':='' [E_BasicLit ''1'']], d) \<and> length (scopes gin) < length (scopes d)"
proof -
  have x: "\<not> typeIsBasicTypeValueOrEnhanceName ''x''" by code_simp
  have "findVarMappingName (pushBlockStack gin) ''x'' = []" by code_simp
  then obtain d where d: "enhanceFuncStmt (S_Block [S_Assign [E_Ident ''x''] '':='' [E_BasicLit ''1'']]) gin =
      Some (S_Block [S_Assign [E_Ident ''x''] '':='' [E_BasicLit ''1'']], d)"
    by (simp add: stmt_eqs name_eqs type_eqs x note_var_def note_type_def no_names_def addVarMapping_def pushBlockStack_def)
  from blocks_stay_open [OF d, of "''x''"] d show ?thesis by blast
qed

lemma parameter_outlives_function_witness:
  "\<exists>f' d. Func \<lparr>fd_Decs = None, fd_Recv = None, fd_Name = ''f'', fd_Params = Some [G_Field [''config''] (E_Ident ''int'') None],
              fd_Results = None, fd_Body = Some []\<rparr> gin = Some (f', d) \<and> findVarMappingName d ''config'' = ''config''"
proof -
  let ?f = "\<lparr>fd_Decs = None, fd_Recv = None, fd_Name = ''f'', fd_Params = Some [G_Field [''config''] (E_Ident ''int'') None],
              fd_Results = None, fd_Body = Some []\<rparr>"
  have n: "plain_name ''config''" "typeIsBasicTypeValueOrEnhanceName ''int''" by code_simp+
  have r: "rename_func ?f gin = ?f\<lparr>fd_Name := StaticMethodPrefix @ ''Ginf''\<rparr>" by code_simp
  obtain f' d where d: "Func ?f gin = Some (f', d)"
    using gin_facts(5)
    by (auto simp: Func_def r initFunctionDetector_def FindDirective_def enhanceFuncParameter.simps opt_def
        addVarMapping_def scopes_def type_eqs enhance_ident_def n note_type_def no_names_def)
  from parameter_outlives_function [OF d, of "[G_Field [''config''] (E_Ident ''int'') None]" "[''config'']" "E_Ident ''int''" None "''config''"]
    n(1) d show ?thesis by auto
qed

lemma argument_takes_function_witness:
  "enhanceType (E_Call (E_Ident ''register'') [E_Selector (E_Ident ''tracing'') ''CreateSpan'']) In_Other (- 1) gin =
   Some ((E_Call (E_Ident (StaticMethodPrefix @ ''TracingCreateSpan'')) [E_Selector (E_Ident ''tracing'') ''CreateSpan''], Keep, no_names), gin)"
proof -
  have "package_name gin ''tracing''" "findVarMappingName gin ''CreateSpan'' = []"
    "\<not> typeIsBasicTypeValueOrEnhanceName ''CreateSpan''" "rc_titleCase gin ''tracing'' = ''Tracing''"
    by code_simp+
  then show ?thesis using argument_takes_function [OF gin_facts(1), of "''CreateSpan''" "E_Ident ''register''" In_Other "- 1"] by simp
qed


lemma imports_of_rewritten_file_witness:
  "\<exists>f' d. processSingleFile \<lparr>file_Name = ''p'', file_Imports = [[\<lparr>is_Name = None, is_Path = ''github.com/gin-gonic/gin''\<rparr>,
       \<lparr>is_Name = None, is_Path = ''net/http''\<rparr>]], file_Decls = []\<rparr> ''gin'' gin = Some (f', d) \<and> file_Name f' = ''gin''"
proof -
  let ?f = "\<lparr>file_Name = ''p'', file_Imports = [[\<lparr>is_Name = None, is_Path = ''github.com/gin-gonic/gin''\<rparr>,
       \<lparr>is_Name = None, is_Path = ''net/http''\<rparr>]], file_Decls = []\<rparr>"
  obtain f' d where d: "processSingleFile ?f ''gin'' gin = Some (f', d)"
    by (simp add: processSingleFile_def case_prod_beta Let_def)
  have "rc_targetPackage gin = ''gin''" by code_simp
  with imports_of_rewritten_file [OF d] d show ?thesis by auto
qed

end
