(* ===== verification/Line_Directive.thy ===== *)
theory Line_Directive
  imports Strconv
begin

text \<open>
  How a generated file is written so that the debugger finds the original one (tools/go-agent/tools/dst.go:
  BuildDSTDebugInfo, GenerateDSTFileContent, WriteDSTFile and what they call).

  A restored tree is its printed text with, for each declaration, whether it imports, and the lines of
  its position and its end.  The standard library restores and prints it, reads and creates files; these
  are arguments that can fail.  An error is its message.  Paths are those of Unix.
\<close>

section \<open>Lines\<close>

abbreviation newline :: char where "newline \<equiv> CHR 0x0A"

text \<open>
  What repeated calls of ReadBytes with a newline return without an error: the lines with their newline.
  What follows the last newline comes with an error, and the code drops it.
\<close>

fun complete_lines :: "string \<Rightarrow> string list" where
  "complete_lines [] = []"
| "complete_lines (x # xs) =
     (if x = newline then [x] # complete_lines xs
      else (case complete_lines xs of
              [] \<Rightarrow> []
            | l # ls \<Rightarrow> (x # l) # ls))"

text \<open>A blank of a Go regular expression.\<close>

definition is_blank :: "char \<Rightarrow> bool" where
  "is_blank c \<longleftrightarrow> c \<in> {CHR '' '', CHR 0x09, CHR 0x0A, CHR 0x0C, CHR 0x0D}"

definition quoted :: "string \<Rightarrow> bool" where
  "quoted t \<longleftrightarrow> 3 \<le> length t \<and> hd t = CHR 0x22 \<and> last t = CHR 0x22 \<and> newline \<notin> set t"

text \<open>
  The pattern packageImportExp: a quoted text, after one word and blanks or after nothing.  The word is as
  long as it can be, since a blank must follow it, and so are the blanks, since a quote must follow them.
\<close>

definition packageImportExp :: "string \<Rightarrow> bool" where
  "packageImportExp t \<longleftrightarrow>
     (let word = takeWhile (\<lambda>c. \<not> is_blank c) t;
          rest = dropWhile (\<lambda>c. \<not> is_blank c) t
      in quoted t \<or> word \<noteq> [] \<and> rest \<noteq> [] \<and> quoted (dropWhile is_blank rest))"

section \<open>The end of the imports\<close>

record ast_decl =
  ad_import :: bool
  ad_line :: int
  ad_end_line :: int

record printed_file =
  pf_decls :: "ast_decl list"
  pf_text :: string

text \<open>The loop over the declarations: the line where the last of the leading imports ends, if there is one.\<close>

fun import_end :: "ast_decl list \<Rightarrow> int option \<Rightarrow> int option" where
  "import_end [] pos = pos"
| "import_end (d # ds) pos = (if ad_import d then import_end ds (Some (ad_end_line d)) else pos)"

definition skipped_line :: "string \<Rightarrow> bool" where
  "skipped_line line \<longleftrightarrow>
     (let trimed = trim_space line
      in trimed = [] \<or> trimed = '')'' \<or> has_prefix trimed ''import '' \<or> packageImportExp trimed)"

fun find_loop :: "int \<Rightarrow> int \<Rightarrow> string list \<Rightarrow> string + int" where
  "find_loop importEndLine lineNumber [] = Inl ''EOF''"
| "find_loop importEndLine lineNumber (line # ls) =
     (let lineNumber' = lineNumber + 1
      in if lineNumber' < importEndLine then find_loop importEndLine lineNumber' ls
         else if skipped_line line then find_loop importEndLine lineNumber' ls
         else Inr lineNumber')"

definition findFirstNoImportLocation :: "ast_decl list \<Rightarrow> string \<Rightarrow> string + int" where
  "findFirstNoImportLocation decls content =
     (case import_end decls None of
        Some importEndLine \<Rightarrow> find_loop importEndLine 0 (complete_lines content)
      | None \<Rightarrow>
          (case decls of
             [] \<Rightarrow> Inr 1
           | d # ds \<Rightarrow> find_loop (ad_line d) 0 (complete_lines content)))"

section \<open>Debug information and content\<close>

record debug_info =
  di_FilePath :: string
  di_Line :: int
  di_CheckOldLine :: bool

text \<open>The restored tree is an argument, None where there is no file; reading the source is one too.\<close>

definition BuildDSTDebugInfo :: "(string \<Rightarrow> string + string) \<Rightarrow> string \<Rightarrow> (string + printed_file) option \<Rightarrow> string + debug_info" where
  "BuildDSTDebugInfo read_file srcPath file =
     (case file of
        None \<Rightarrow> Inr \<lparr>di_FilePath = srcPath, di_Line = 1, di_CheckOldLine = False\<rparr>
      | Some (Inl err) \<Rightarrow> Inl err
      | Some (Inr f) \<Rightarrow>
          (case read_file srcPath of
             Inl err \<Rightarrow> Inl err
           | Inr originalFile \<Rightarrow>
               (case findFirstNoImportLocation (pf_decls f) originalFile of
                  Inl err \<Rightarrow> Inl err
                | Inr line \<Rightarrow> Inr \<lparr>di_FilePath = srcPath, di_Line = line, di_CheckOldLine = True\<rparr>)))"

definition line_directive :: "string \<Rightarrow> int \<Rightarrow> string" where
  "line_directive path line = ''//line '' @ path @ '':'' @ itoa line @ [newline]"

text \<open>The loop that copies the lines: what is written, and whether the directive was.\<close>

fun copy_lines :: "debug_info \<Rightarrow> int \<Rightarrow> int \<Rightarrow> bool \<Rightarrow> string list \<Rightarrow> string \<times> bool" where
  "copy_lines debug newLine lineCount alreadyChange [] = ([], alreadyChange)"
| "copy_lines debug newLine lineCount alreadyChange (line # ls) =
     (let here = (lineCount = newLine);
          written = (if here then line_directive (di_FilePath debug) (di_Line debug) @ line else line);
          (out, changed) = copy_lines debug newLine (lineCount + 1) (alreadyChange \<or> here) ls
      in (written @ out, changed))"

definition writeDSTFileWithDebug :: "printed_file \<Rightarrow> debug_info \<Rightarrow> string + string" where
  "writeDSTFileWithDebug f debug =
     (if \<not> di_CheckOldLine debug then Inr (line_directive (di_FilePath debug) (di_Line debug) @ pf_text f)
      else (case findFirstNoImportLocation (pf_decls f) (pf_text f) of
              Inl err \<Rightarrow> Inl err
            | Inr newPosition \<Rightarrow>
                (let (out, alreadyChange) = copy_lines debug newPosition 1 False (complete_lines (pf_text f))
                 in if \<not> alreadyChange then Inl ''rewrite file line number failure: EOF'' else Inr out)))"

definition GenerateDSTFileContent :: "string + printed_file \<Rightarrow> debug_info option \<Rightarrow> string + string" where
  "GenerateDSTFileContent restored debug =
     (case restored of
        Inl err \<Rightarrow> Inl err
      | Inr f \<Rightarrow> (case debug of
                   Some d \<Rightarrow> writeDSTFileWithDebug f d
                 | None \<Rightarrow> Inr (pf_text f)))"

text \<open>The files of the directory; creating a file and writing it can fail, the file then exists and is empty.\<close>

definition WriteDSTFile ::
  "(string \<Rightarrow> string option) \<Rightarrow> (string \<Rightarrow> string option) \<Rightarrow> string \<Rightarrow> string + printed_file \<Rightarrow> debug_info option \<Rightarrow>
   (string \<rightharpoonup> string) \<Rightarrow> (string \<rightharpoonup> string) \<times> string option" where
  "WriteDSTFile create_error write_error path file debug files =
     (case create_error path of
        Some err \<Rightarrow> (files, Some err)
      | None \<Rightarrow>
          (case GenerateDSTFileContent file debug of
             Inl err \<Rightarrow> (files(path \<mapsto> []), Some err)
           | Inr content \<Rightarrow>
               (case write_error content of
                  Some err \<Rightarrow> (files(path \<mapsto> []), Some err)
                | None \<Rightarrow> (files(path \<mapsto> content), None))))"

section \<open>Lines and their text\<close>

text \<open>What follows the last newline.\<close>

fun unfinished :: "string \<Rightarrow> string" where
  "unfinished [] = []"
| "unfinished (x # xs) = (if x = newline \<or> newline \<in> set xs then unfinished xs else x # xs)"

lemma complete_lines_Nil: "complete_lines s = [] \<longleftrightarrow> newline \<notin> set s"
  by (induction s) (auto split: list.splits)

lemma unfinished_all: "newline \<notin> set s \<Longrightarrow> unfinished s = s"
  by (cases s) auto

lemma concat_complete_lines: "concat (complete_lines s) @ unfinished s = s"
proof (induction s)
  case (Cons x s)
  show ?case
  proof (cases "complete_lines s")
    case Nil
    then have "newline \<notin> set s" by (simp add: complete_lines_Nil)
    with Nil show ?thesis by (simp add: unfinished_all)
  next
    case (Cons l ls)
    then have "newline \<in> set s" using complete_lines_Nil [of s] by auto
    with Cons Cons.IH show ?thesis by simp
  qed
qed simp

lemma complete_lines_line: "l \<in> set (complete_lines s) \<Longrightarrow> \<exists>u. l = u @ [newline] \<and> newline \<notin> set u"
proof (induction s arbitrary: l)
  case (Cons x s)
  show ?case
  proof (cases "x = newline")
    case True
    with Cons.prems consider "l = [newline]" | "l \<in> set (complete_lines s)" by auto
    then show ?thesis
    proof cases
      case 1
      then show ?thesis by (intro exI [of _ "[]"]) simp
    next
      case 2
      then show ?thesis by (rule Cons.IH)
    qed
  next
    case False
    with Cons.prems obtain m ms where m: "complete_lines s = m # ms" and l: "l = x # m \<or> l \<in> set ms"
      by (cases "complete_lines s") auto
    obtain u where u: "m = u @ [newline]" "newline \<notin> set u" using Cons.IH [of m] m by auto
    from l show ?thesis
    proof
      assume "l = x # m"
      with u False show ?thesis by (intro exI [of _ "x # u"]) simp
    next
      assume "l \<in> set ms"
      with m show ?thesis using Cons.IH [of l] by simp
    qed
  qed
qed simp

text \<open>A text that ends with a newline is its lines.\<close>

lemma unfinished_ended: "last s = newline \<Longrightarrow> unfinished s = []"
  by (induction s) (auto split: if_splits dest: last_in_set)

lemma find_loop_found:
  assumes "find_loop e k ls = Inr n"
  shows "k < n \<and> n \<le> k + int (length ls) \<and> e \<le> n \<and> \<not> skipped_line (ls ! nat (n - k - 1)) \<and>
         (\<forall>j < nat (n - k - 1). int j + k + 1 < e \<or> skipped_line (ls ! j))"
  using assms
proof (induction ls arbitrary: k)
  case (Cons l ls)
  show ?case
  proof (cases "k + 1 < e \<or> skipped_line l")
    case True
    with Cons.prems have "find_loop e (k + 1) ls = Inr n" by (auto simp: Let_def split: if_splits)
    from Cons.IH [OF this] have IH: "k + 1 < n" "n \<le> k + 1 + int (length ls)" "e \<le> n"
      "\<not> skipped_line (ls ! nat (n - (k + 1) - 1))"
      "\<forall>j < nat (n - (k + 1) - 1). int j + (k + 1) + 1 < e \<or> skipped_line (ls ! j)"
      by blast+
    have m: "nat (n - k - 1) = Suc (nat (n - (k + 1) - 1))" using IH(1) by simp
    have "int j + k + 1 < e \<or> skipped_line ((l # ls) ! j)" if "j < nat (n - k - 1)" for j
      using that IH(5) True m by (cases j) auto
    with IH m show ?thesis by auto
  next
    case False
    with Cons.prems have "n = k + 1" by (auto simp: Let_def split: if_splits)
    with False show ?thesis by auto
  qed
qed simp

lemma copy_lines_before:
  "newLine < lineCount \<Longrightarrow> copy_lines d newLine lineCount a ls = (concat ls, a)"
  by (induction ls arbitrary: lineCount a) (simp_all add: Let_def)

lemma copy_lines_at:
  assumes "lineCount \<le> newLine" and "newLine < lineCount + int (length ls)"
  shows "copy_lines d newLine lineCount a ls =
    (let m = nat (newLine - lineCount)
     in (concat (take m ls) @ line_directive (di_FilePath d) (di_Line d) @ concat (drop m ls), True))"
  using assms
proof (induction ls arbitrary: lineCount a)
  case (Cons l ls)
  show ?case
  proof (cases "lineCount = newLine")
    case True
    then show ?thesis by (simp add: copy_lines_before Let_def)
  next
    case False
    with Cons.prems have m: "nat (newLine - lineCount) = Suc (nat (newLine - (lineCount + 1)))" by simp
    have "copy_lines d newLine (lineCount + 1) (a \<or> False) ls =
      (let m = nat (newLine - (lineCount + 1))
       in (concat (take m ls) @ line_directive (di_FilePath d) (di_Line d) @ concat (drop m ls), True))"
      by (rule Cons.IH) (use False Cons.prems in auto)
    with False show ?thesis by (simp add: m Let_def)
  qed
qed simp

section \<open>The positions a debugger sees\<close>

text \<open>
  A line of the form of the directive gives the position of the next line; every other line has a
  position, and the next line the one after it.  The directive looked for is an argument.
\<close>

fun positions :: "string \<Rightarrow> int \<Rightarrow> string \<times> int \<Rightarrow> string list \<Rightarrow> ((string \<times> int) \<times> string) list" where
  "positions file n here [] = []"
| "positions file n here (l # ls) =
     (if l = line_directive file n then positions file n (file, n) ls
      else (here, l) # positions file n (fst here, snd here + 1) ls)"

definition is_line :: "string \<Rightarrow> bool" where
  "is_line l \<longleftrightarrow> (\<exists>u. l = u @ [newline] \<and> newline \<notin> set u)"

lemma complete_lines_append: "is_line l \<Longrightarrow> complete_lines (l @ s) = l # complete_lines s"
proof -
  have "newline \<notin> set u \<Longrightarrow> complete_lines ((u @ [newline]) @ s) = (u @ [newline]) # complete_lines s" for u
    by (induction u) auto
  then show "is_line l \<Longrightarrow> complete_lines (l @ s) = l # complete_lines s" by (auto simp: is_line_def)
qed

lemma complete_lines_concat: "(\<And>l. l \<in> set ls \<Longrightarrow> is_line l) \<Longrightarrow> complete_lines (concat ls) = ls"
  by (induction ls) (simp_all add: complete_lines_append)

lemma is_line_directive: "newline \<notin> set path \<Longrightarrow> is_line (line_directive path n)"
  unfolding is_line_def line_directive_def
  using itoa_no_char [of newline n] by (intro exI [of _ "''//line '' @ path @ '':'' @ itoa n"]) (auto simp: digit_char_eq)

lemma positions_plain:
  "line_directive file n \<notin> set ls \<Longrightarrow>
   positions file n (p, k) ls = map (\<lambda>j. ((p, k + int j), ls ! j)) [0..<length ls]"
proof (induction ls arbitrary: k)
  case (Cons l ls)
  have "[0..<length (l # ls)] = 0 # map Suc [0..<length ls]" by (simp add: map_Suc_upt upt_conv_Cons del: upt_Suc)
  moreover from Cons.prems have "l \<noteq> line_directive file n" by auto
  ultimately show ?case using Cons by simp
qed simp

lemma positions_append:
  "line_directive file n \<notin> set ls \<Longrightarrow>
   positions file n (p, k) (ls @ line_directive file n # ms) =
   map (\<lambda>j. ((p, k + int j), ls ! j)) [0..<length ls] @ positions file n (file, n) ms"
proof (induction ls arbitrary: k)
  case (Cons l ls)
  have "[0..<length (l # ls)] = 0 # map Suc [0..<length ls]" by (simp add: map_Suc_upt upt_conv_Cons del: upt_Suc)
  moreover from Cons.prems have "l \<noteq> line_directive file n" by auto
  ultimately show ?case using Cons by simp
qed simp

lemma copy_lines_far: "int (length ls) \<le> n - k \<Longrightarrow> copy_lines d n k False ls = (concat ls, False)"
  by (induction ls arbitrary: k) (simp_all add: Let_def)

lemma write_with_directive:
  assumes "writeDSTFileWithDebug f d = Inr out" and "di_CheckOldLine d"
  shows "\<exists>m < length (complete_lines (pf_text f)).
    findFirstNoImportLocation (pf_decls f) (pf_text f) = Inr (int m + 1) \<and>
    out = concat (take m (complete_lines (pf_text f))) @ line_directive (di_FilePath d) (di_Line d) @
          concat (drop m (complete_lines (pf_text f)))"
proof -
  let ?ls = "complete_lines (pf_text f)"
  obtain n where n: "findFirstNoImportLocation (pf_decls f) (pf_text f) = Inr n"
    and c: "copy_lines d n 1 False ?ls = (out, True)"
    using assms by (auto simp: writeDSTFileWithDebug_def split: sum.splits if_splits prod.splits)
  have "1 \<le> n"
    using n find_loop_found by (fastforce simp: findFirstNoImportLocation_def split: option.splits list.splits)
  have "n < 1 + int (length ?ls)"
    using c copy_lines_far [of ?ls n 1 d] by (cases "n < 1 + int (length ?ls)") auto
  with \<open>1 \<le> n\<close> copy_lines_at [of 1 n ?ls d False] c
  show ?thesis using n by (intro exI [of _ "nat (n - 1)"]) (auto simp: Let_def)
qed

text \<open>
  A file that is written with its debug information is the printed file with the directive in front of
  the first line after the imports, and without what follows its last newline.  Read with the directive,
  the lines before keep their numbers in the new file, and the lines from there on are those of the
  original file, counted from the first line after its own imports.
\<close>

theorem debug_lines:
  assumes "BuildDSTDebugInfo read_file src (Some (Inr f)) = Inr d" and "writeDSTFileWithDebug g d = Inr out"
    and "newline \<notin> set src" and "line_directive src (di_Line d) \<notin> set (complete_lines (pf_text g))"
  shows "\<exists>m original. findFirstNoImportLocation (pf_decls g) (pf_text g) = Inr (int m + 1) \<and>
    read_file src = Inr original \<and> findFirstNoImportLocation (pf_decls f) original = Inr (di_Line d) \<and>
    positions src (di_Line d) (new_path, 1) (complete_lines out) =
      map (\<lambda>j. (if j < m then (new_path, int j + 1) else (src, di_Line d + int (j - m)), complete_lines (pf_text g) ! j))
        [0..<length (complete_lines (pf_text g))]"
proof -
  let ?ls = "complete_lines (pf_text g)" and ?dir = "line_directive src (di_Line d)"
  obtain original where o: "read_file src = Inr original" "findFirstNoImportLocation (pf_decls f) original = Inr (di_Line d)"
    and d: "di_CheckOldLine d" "di_FilePath d = src"
    using assms(1) by (auto simp: BuildDSTDebugInfo_def split: sum.splits)
  obtain m where m: "m < length ?ls" "findFirstNoImportLocation (pf_decls g) (pf_text g) = Inr (int m + 1)"
    and out: "out = concat (take m ?ls) @ ?dir @ concat (drop m ?ls)"
    using write_with_directive [OF assms(2) d(1)] d(2) by auto
  have lines: "is_line l" if "l \<in> set ?ls" for l
    using complete_lines_line [OF that] by (auto simp: is_line_def)
  have "out = concat (take m ?ls @ ?dir # drop m ?ls)" by (simp add: out)
  then have "complete_lines out = take m ?ls @ ?dir # drop m ?ls"
    using complete_lines_concat [of "take m ?ls @ ?dir # drop m ?ls"] lines is_line_directive [OF assms(3)]
    by (auto dest: in_set_takeD in_set_dropD)
  then have "positions src (di_Line d) (new_path, 1) (complete_lines out) =
      map (\<lambda>j. ((new_path, 1 + int j), take m ?ls ! j)) [0..<m] @
      map (\<lambda>j. ((src, di_Line d + int j), drop m ?ls ! j)) [0..<length ?ls - m]"
  proof -
    have "?dir \<notin> set (take m ?ls)" "?dir \<notin> set (drop m ?ls)"
      using assms(4) by (auto dest: in_set_takeD in_set_dropD)
    with m(1) \<open>complete_lines out = _\<close> show ?thesis
      by (simp add: positions_append positions_plain min_def)
  qed
  also have "\<dots> = map (\<lambda>j. (if j < m then (new_path, int j + 1) else (src, di_Line d + int (j - m)), ?ls ! j)) [0..<length ?ls]"
    using m(1) by (intro nth_equalityI) (auto simp: nth_append)
  finally show ?thesis using m(2) o by blast
qed

text \<open>
  A printed file that ends with a newline loses nothing: without the line of the directive the written
  file is the printed one.
\<close>

theorem written_text_kept:
  assumes "writeDSTFileWithDebug f d = Inr out" and "last (pf_text f) = newline"
  shows "\<exists>u v. out = u @ line_directive (di_FilePath d) (di_Line d) @ v \<and> u @ v = pf_text f"
proof (cases "di_CheckOldLine d")
  case True
  obtain m where out: "out = concat (take m (complete_lines (pf_text f))) @ line_directive (di_FilePath d) (di_Line d) @
      concat (drop m (complete_lines (pf_text f)))"
    using write_with_directive [OF assms(1) True] by blast
  have "concat (take m (complete_lines (pf_text f))) @ concat (drop m (complete_lines (pf_text f))) = pf_text f"
    using concat_complete_lines [of "pf_text f"] unfinished_ended [OF assms(2)]
    by (metis append_Nil2 append_take_drop_id concat_append)
  with out show ?thesis by blast
next
  case False
  with assms(1) show ?thesis
    by (intro exI [of _ "[]"] exI [of _ "pf_text f"]) (simp add: writeDSTFileWithDebug_def)
qed

text \<open>An original file with an import, and the printed file that was made from it.\<close>

definition original_text :: string where
  "original_text = ''package p'' @ [newline, newline] @ ''import '' @ [CHR 0x22] @ ''x'' @ [CHR 0x22] @ [newline] @ ''var a = 1'' @ [newline]"

definition original_file :: printed_file where
  "original_file = \<lparr>pf_decls = [\<lparr>ad_import = True, ad_line = 3, ad_end_line = 3\<rparr>, \<lparr>ad_import = False, ad_line = 4, ad_end_line = 4\<rparr>],
     pf_text = original_text\<rparr>"

definition rewritten_file :: printed_file where
  "rewritten_file = \<lparr>pf_decls = [\<lparr>ad_import = False, ad_line = 2, ad_end_line = 2\<rparr>],
     pf_text = ''package q'' @ [newline] @ ''var b = 1'' @ [newline] @ ''var c = 2'' @ [newline]\<rparr>"

lemma debug_lines_witness:
  "\<exists>out. writeDSTFileWithDebug rewritten_file \<lparr>di_FilePath = ''/p.go'', di_Line = 4, di_CheckOldLine = True\<rparr> = Inr out \<and>
     map fst (positions ''/p.go'' 4 (''/q.go'', 1) (complete_lines out)) = [(''/q.go'', 1), (''/p.go'', 4), (''/p.go'', 5)]"
proof -
  let ?d = "\<lparr>di_FilePath = ''/p.go'', di_Line = 4, di_CheckOldLine = True\<rparr>"
  have b: "BuildDSTDebugInfo (\<lambda>p. Inr original_text) ''/p.go'' (Some (Inr original_file)) = Inr ?d"
    by code_simp
  have e: "case writeDSTFileWithDebug rewritten_file ?d of Inr out \<Rightarrow> True | Inl e \<Rightarrow> False" by code_simp
  then obtain out where out: "writeDSTFileWithDebug rewritten_file ?d = Inr out" by (auto split: sum.splits)
  have l: "length (complete_lines (pf_text rewritten_file)) = 3"
    "findFirstNoImportLocation (pf_decls rewritten_file) (pf_text rewritten_file) = Inr 2"
    "line_directive ''/p.go'' 4 \<notin> set (complete_lines (pf_text rewritten_file))"
    by code_simp+
  obtain m where "int m + 1 = 2" and p: "positions ''/p.go'' 4 (''/q.go'', 1) (complete_lines out) =
      map (\<lambda>j. (if j < m then (''/q.go'', int j + 1) else (''/p.go'', 4 + int (j - m)), complete_lines (pf_text rewritten_file) ! j)) [0..<3]"
    using debug_lines [OF b out, of "''/q.go''"] l by auto
  then have "m = 1" by simp
  with p out show ?thesis by (auto simp: upt_rec)
qed

end
