(* ===== verification/Compile_Run.thy ===== *)
theory Compile_Run
  imports Agent_Flags Plugin_Match
begin

text \<open>
  The instrumentation of one compilation (tools/go-agent/instrument/instrument.go): which instrument
  handles it, how its files are parsed, edited and written to the build directory, and how the
  arguments of the compiler change.

  The state of the instruments and of the disk is one type; an instrument is a record of its
  operations on it, where FilterAndEdit stands for a whole traversal of one file.  Parsing and the
  writing of a file answer through arguments.  The order in which a map of files is visited is a
  function of the map.  Paths are those of Unix.
\<close>

section \<open>Instruments and files\<close>

record ('w, 'f) instrumenter =
  CouldHandle :: "flags \<Rightarrow> 'w \<Rightarrow> bool \<times> 'w"
  FilterAndEdit :: "string \<Rightarrow> 'f \<Rightarrow> 'w \<Rightarrow> ('f \<times> bool) \<times> 'w"
  AfterEnhanceFile :: "string \<Rightarrow> string \<Rightarrow> 'w \<Rightarrow> string option \<times> 'w"
  WriteExtraFiles :: "string \<Rightarrow> 'w \<Rightarrow> (string + string list) \<times> 'w"

record 'f compiled_file =
  cf_argsIndex :: nat
  cf_dstFile :: 'f

datatype 'f parse_end = ParsedFile 'f | ParseError string | ParsePanic

text \<open>filepath.Dir of a clean path, and filepath.Join of a directory and a name.\<close>

definition path_dir :: "string \<Rightarrow> string" where
  "path_dir p =
     (case last_index CHR ''/'' p of
        None \<Rightarrow> ''.''
      | Some i \<Rightarrow> if i = 0 then ''/'' else take i p)"

definition path_join :: "string \<Rightarrow> string \<Rightarrow> string" where
  "path_join d n = (if d = ''.'' then n else if d = ''/'' then ''/'' @ n else d @ ''/'' @ n)"

text \<open>strings.ReplaceAll of backslashes by slashes.\<close>

definition to_slash :: "string \<Rightarrow> string" where
  "to_slash s = map (\<lambda>c. if c = CHR 0x5C then CHR ''/'' else c) s"

section \<open>Parsing\<close>

text \<open>
  The loop of parseFilesInArgs.  A panic is recovered by the deferred function, and the call returns the
  zero values of its results: no files and no error.
\<close>

fun parse_args :: "(string \<Rightarrow> 'f parse_end) \<Rightarrow> nat \<Rightarrow> string list \<Rightarrow> (string \<rightharpoonup> 'f compiled_file) \<Rightarrow> string + (string \<rightharpoonup> 'f compiled_file)" where
  "parse_args parse inx [] m = Inr m"
| "parse_args parse inx (path # ps) m =
     (if \<not> has_suffix path ''.go'' then parse_args parse (Suc inx) ps m
      else (case parse path of
              ParseError e \<Rightarrow> Inl e
            | ParsePanic \<Rightarrow> Inr Map.empty
            | ParsedFile f \<Rightarrow> parse_args parse (Suc inx) ps (m(path \<mapsto> \<lparr>cf_argsIndex = inx, cf_dstFile = f\<rparr>))))"

definition parseFilesInArgs :: "(string \<Rightarrow> 'f parse_end) \<Rightarrow> string list \<Rightarrow> string + (string \<rightharpoonup> 'f compiled_file)" where
  "parseFilesInArgs parse args = parse_args parse 0 args Map.empty"

section \<open>Editing and writing\<close>

text \<open>The loop over the files: the files as they are edited, and the paths of those that changed, in order.\<close>

fun edit_files :: "('w, 'f) instrumenter \<Rightarrow> string list \<Rightarrow> (string \<rightharpoonup> 'f compiled_file) \<Rightarrow> 'w \<Rightarrow>
    ((string \<rightharpoonup> 'f compiled_file) \<times> string list) \<times> 'w" where
  "edit_files inst [] m w = ((m, []), w)"
| "edit_files inst (path # ps) m w =
     (case m path of
        None \<Rightarrow> edit_files inst ps m w
      | Some info \<Rightarrow>
          (let ((f, changed), w1) = FilterAndEdit inst path (cf_dstFile info) w;
               ((m1, chg), w2) = edit_files inst ps (m(path \<mapsto> info\<lparr>cf_dstFile := f\<rparr>)) w1
           in ((m1, if changed then path # chg else chg), w2)))"

definition build_path :: "string \<Rightarrow> string \<Rightarrow> string" where
  "build_path buildDir src = to_slash (path_join buildDir (path_base src))"

text \<open>The loop over the changed files, with the arguments as they are rewritten.\<close>

fun write_changed :: "(string \<Rightarrow> string \<Rightarrow> 'f \<Rightarrow> 'w \<Rightarrow> string option \<times> 'w) \<Rightarrow> ('w, 'f) instrumenter \<Rightarrow> string \<Rightarrow> string list \<Rightarrow>
    (string \<rightharpoonup> 'f compiled_file) \<Rightarrow> string list \<Rightarrow> 'w \<Rightarrow> (string + string list) \<times> 'w" where
  "write_changed write inst buildDir [] m args w = (Inr args, w)"
| "write_changed write inst buildDir (src # ss) m args w =
     (case m src of
        None \<Rightarrow> write_changed write inst buildDir ss m args w
      | Some info \<Rightarrow>
          (let dest = build_path buildDir src;
               (err, w1) = write src dest (cf_dstFile info) w
           in (case err of
                 Some e \<Rightarrow> (Inl e, w1)
               | None \<Rightarrow>
                   (let (err2, w2) = AfterEnhanceFile inst src dest w1
                    in (case err2 of
                          Some e \<Rightarrow> (Inl e, w2)
                        | None \<Rightarrow> write_changed write inst buildDir ss m (args[cf_argsIndex info := dest]) w2)))))"

definition instrumentFiles ::
  "(string \<Rightarrow> 'f parse_end) \<Rightarrow> ((string \<rightharpoonup> 'f compiled_file) \<Rightarrow> string list) \<Rightarrow>
   (string \<Rightarrow> string \<Rightarrow> 'f \<Rightarrow> 'w \<Rightarrow> string option \<times> 'w) \<Rightarrow> string \<Rightarrow> ('w, 'f) instrumenter \<Rightarrow> string list \<Rightarrow> 'w \<Rightarrow>
   (string + string list) \<times> 'w" where
  "instrumentFiles parse order write buildDir inst args w =
     (case parseFilesInArgs parse args of
        Inl e \<Rightarrow> (Inl e, w)
      | Inr m \<Rightarrow>
          (let ((m1, changed), w1) = edit_files inst (order m) m w
           in write_changed write inst buildDir changed m1 args w1))"

section \<open>The compilation\<close>

text \<open>The first instrument that can handle the compilation; those before it have seen it.\<close>

fun find_instrument :: "('w, 'f) instrumenter list \<Rightarrow> flags \<Rightarrow> 'w \<Rightarrow> ('w, 'f) instrumenter option \<times> 'w" where
  "find_instrument [] opts w = (None, w)"
| "find_instrument (ins # is) opts w =
     (let (ok, w1) = CouldHandle ins opts w in if ok then (Some ins, w1) else find_instrument is opts w1)"

definition execute0 ::
  "(string \<Rightarrow> 'f parse_end) \<Rightarrow> ((string \<rightharpoonup> 'f compiled_file) \<Rightarrow> string list) \<Rightarrow>
   (string \<Rightarrow> string \<Rightarrow> 'f \<Rightarrow> 'w \<Rightarrow> string option \<times> 'w) \<Rightarrow> ('w, 'f) instrumenter list \<Rightarrow> flags \<Rightarrow> string list \<Rightarrow> 'w \<Rightarrow>
   (string + string list) \<times> 'w" where
  "execute0 parse order write instruments opts args w =
     (let (found, w1) = find_instrument instruments opts w
      in (case found of
            None \<Rightarrow> (Inr args, w1)
          | Some inst \<Rightarrow>
              (let buildDir = path_dir (string_flag opts ''-o'');
                   (r, w2) = instrumentFiles parse order write buildDir inst args w1
               in (case r of
                     Inl e \<Rightarrow> (Inl e, w2)
                   | Inr args1 \<Rightarrow>
                       (let (extra, w3) = WriteExtraFiles inst buildDir w2
                        in (case extra of
                              Inl e \<Rightarrow> (Inl e, w3)
                            | Inr files \<Rightarrow> (Inr (if files \<noteq> [] then args1 @ files else args1), w3)))))))"

text \<open>The log file of the instrumentation can fail to open.\<close>

definition Execute ::
  "(flags \<Rightarrow> string option) \<Rightarrow> (string \<Rightarrow> 'f parse_end) \<Rightarrow> ((string \<rightharpoonup> 'f compiled_file) \<Rightarrow> string list) \<Rightarrow>
   (string \<Rightarrow> string \<Rightarrow> 'f \<Rightarrow> 'w \<Rightarrow> string option \<times> 'w) \<Rightarrow> ('w, 'f) instrumenter list \<Rightarrow> flags \<Rightarrow> string list \<Rightarrow> 'w \<Rightarrow>
   (string + string list) \<times> 'w" where
  "Execute initLogger parse order write instruments opts args w =
     (if \<not> options_IsValid opts then (Inr args, w)
      else (let opts1 = opts(''-p'' \<mapsto> FString (UnVendor (string_flag opts ''-p'')))
            in (case initLogger opts1 of
                  Some e \<Rightarrow> (Inl e, w)
                | None \<Rightarrow> execute0 parse order write instruments opts1 args w)))"

section \<open>What becomes of the arguments\<close>

text \<open>A file the parser returns stands at its index, which is the last of its path.\<close>

definition entry_at :: "(string \<Rightarrow> 'f parse_end) \<Rightarrow> string list \<Rightarrow> string \<Rightarrow> 'f compiled_file \<Rightarrow> bool" where
  "entry_at parse args p info \<longleftrightarrow>
     cf_argsIndex info < length args \<and> args ! cf_argsIndex info = p \<and> has_suffix p ''.go'' \<and>
     parse p = ParsedFile (cf_dstFile info) \<and> p \<notin> set (drop (Suc (cf_argsIndex info)) args)"

definition parsed_at :: "(string \<Rightarrow> 'f parse_end) \<Rightarrow> string list \<Rightarrow> (string \<rightharpoonup> 'f compiled_file) \<Rightarrow> bool" where
  "parsed_at parse args m \<longleftrightarrow> (\<forall>p info. m p = Some info \<longrightarrow> entry_at parse args p info)"

lemma entry_at_snoc: "entry_at parse args p info \<Longrightarrow> a \<noteq> p \<Longrightarrow> entry_at parse (args @ [a]) p info"
  using Suc_leI [of "cf_argsIndex info" "length args"] by (auto simp: entry_at_def nth_append)

lemma entry_at_last:
  "has_suffix a ''.go'' \<Longrightarrow> parse a = ParsedFile f \<Longrightarrow> entry_at parse (args @ [a]) a \<lparr>cf_argsIndex = length args, cf_dstFile = f\<rparr>"
  by (simp add: entry_at_def)

lemma parsed_at_other: "parsed_at parse args m \<Longrightarrow> \<not> has_suffix a ''.go'' \<Longrightarrow> parsed_at parse (args @ [a]) m"
  unfolding parsed_at_def by (metis entry_at_snoc entry_at_def)

lemma parsed_at_file:
  assumes "parsed_at parse args m" and "has_suffix a ''.go''" and "parse a = ParsedFile f"
  shows "parsed_at parse (args @ [a]) (m(a \<mapsto> \<lparr>cf_argsIndex = length args, cf_dstFile = f\<rparr>))"
  using assms entry_at_last [of a parse f args] unfolding parsed_at_def by (auto intro: entry_at_snoc)

lemma parse_args_at:
  "parsed_at parse before m \<Longrightarrow> parse_args parse (length before) ps m = Inr m' \<Longrightarrow> parsed_at parse (before @ ps) m'"
proof (induction ps arbitrary: before m)
  case (Cons a ps)
  show ?case
  proof (cases "has_suffix a ''.go''")
    case False
    with Cons.prems Cons.IH [of "before @ [a]" m] show ?thesis by (simp add: parsed_at_other)
  next
    case True
    show ?thesis
    proof (cases "parse a")
      case (ParsedFile f)
      from Cons.IH [OF parsed_at_file [OF Cons.prems(1) True ParsedFile]] Cons.prems(2) True ParsedFile
      show ?thesis by (simp del: fun_upd_apply)
    qed (use True Cons.prems in \<open>auto simp: parsed_at_def\<close>)
  qed
qed simp

lemma parseFilesInArgs_at: "parseFilesInArgs parse args = Inr m \<Longrightarrow> parsed_at parse args m"
  using parse_args_at [of parse "[]" Map.empty args m] by (simp add: parseFilesInArgs_def parsed_at_def)

lemma nth_in_drop: "i < j \<Longrightarrow> j < length xs \<Longrightarrow> xs ! j \<in> set (drop (Suc i) xs)"
  by (auto simp: in_set_conv_nth intro!: exI [of _ "j - Suc i"])

lemma last_position:
  assumes "k < length xs" and "i < length xs" and "xs ! k = xs ! i" and "xs ! i \<notin> set (drop (Suc k) xs)"
  shows "k = i \<longleftrightarrow> xs ! i \<notin> set (drop (Suc i) xs)"
  using assms nth_in_drop [of k i xs] nth_in_drop [of i k xs] by (cases k i rule: linorder_cases) auto

text \<open>Editing keeps the indices, and changed files are files of the map, each once.\<close>

lemma edit_files_kept:
  assumes "edit_files inst ps m w = ((m', chg), w')"
  shows "(\<forall>p. map_option cf_argsIndex (m' p) = map_option cf_argsIndex (m p)) \<and> set chg \<subseteq> dom m \<inter> set ps \<and>
         (distinct ps \<longrightarrow> distinct chg)"
  using assms
proof (induction ps arbitrary: m w chg)
  case (Cons p ps)
  show ?case
  proof (cases "m p")
    case None
    with Cons.prems Cons.IH [of m w chg] show ?thesis by auto
  next
    case (Some info)
    obtain f changed w1 where e: "FilterAndEdit inst p (cf_dstFile info) w = ((f, changed), w1)" by (metis surj_pair)
    with Some Cons.prems obtain rest where r: "edit_files inst ps (m(p \<mapsto> info\<lparr>cf_dstFile := f\<rparr>)) w1 = ((m', rest), w')"
      and d: "chg = (if changed then p # rest else rest)"
      by (auto simp: Let_def split: prod.splits)
    have "map_option cf_argsIndex ((m(p \<mapsto> info\<lparr>cf_dstFile := f\<rparr>)) q) = map_option cf_argsIndex (m q)" for q
      using Some by simp
    moreover have "dom (m(p \<mapsto> info\<lparr>cf_dstFile := f\<rparr>)) = dom m" using Some by auto
    moreover have "p \<in> dom m" using Some by auto
    ultimately show ?thesis using Cons.IH [OF r] d by (auto simp del: fun_upd_apply)
  qed
qed simp

text \<open>The arguments after the changed files were written: those at their indices name the new files.\<close>

lemma write_changed_args:
  assumes "write_changed write inst buildDir srcs m args w = (Inr args', w')" and "set srcs \<subseteq> dom m"
    and "\<And>p info. m p = Some info \<Longrightarrow> cf_argsIndex info < length args \<and> org ! cf_argsIndex info = p" and "length org = length args"
  shows "length args' = length args \<and>
    (\<forall>i < length args. args' ! i =
       (if org ! i \<in> set srcs \<and> map_option cf_argsIndex (m (org ! i)) = Some i then build_path buildDir (org ! i) else args ! i))"
  using assms
proof (induction srcs arbitrary: args w)
  case (Cons p ps)
  then obtain info where info: "m p = Some info" by auto
  obtain e w1 where w1: "write p (build_path buildDir p) (cf_dstFile info) w = (e, w1)" by (metis surj_pair)
  obtain e2 w2 where w2: "AfterEnhanceFile inst p (build_path buildDir p) w1 = (e2, w2)" by (metis surj_pair)
  let ?k = "cf_argsIndex info" and ?args = "args[cf_argsIndex info := build_path buildDir p]"
  have e: "e = None" "e2 = None" and rest: "write_changed write inst buildDir ps m ?args w2 = (Inr args', w')"
    using Cons.prems(1) info w1 w2 by (auto simp: Let_def split: option.splits)
  have k: "?k < length args" "org ! ?k = p" using Cons.prems(3) [OF info] by simp_all
  have IH: "length args' = length ?args \<and>
    (\<forall>i < length ?args. args' ! i =
       (if org ! i \<in> set ps \<and> map_option cf_argsIndex (m (org ! i)) = Some i then build_path buildDir (org ! i) else ?args ! i))"
    by (rule Cons.IH [OF rest]) (use Cons.prems in auto)
  have "args' ! i = (if org ! i \<in> set (p # ps) \<and> map_option cf_argsIndex (m (org ! i)) = Some i
      then build_path buildDir (org ! i) else args ! i)" if i: "i < length args" for i
  proof (cases "i = ?k")
    case True
    with IH i k info show ?thesis by simp
  next
    case False
    then have a: "?args ! i = args ! i" by simp
    from IH i have "args' ! i = (if org ! i \<in> set ps \<and> map_option cf_argsIndex (m (org ! i)) = Some i
      then build_path buildDir (org ! i) else ?args ! i)" by simp
    with a False info show ?thesis by (cases "org ! i = p") auto
  qed
  with IH show ?case by simp
qed simp

text \<open>The arguments after the files of a compilation were instrumented without an error.\<close>

lemma instrumented_arguments:
  assumes r: "instrumentFiles parse order write dir inst args w = (Inr args1, w')"
  shows "\<exists>edited. set edited \<subseteq> {p \<in> set args. has_suffix p ''.go''} \<and>
    args1 = map (\<lambda>i. if args ! i \<in> set edited \<and> args ! i \<notin> set (drop (Suc i) args)
                     then build_path dir (args ! i) else args ! i) [0..<length args]"
proof -
  from r obtain m where m: "parseFilesInArgs parse args = Inr m"
    by (cases "parseFilesInArgs parse args") (simp_all add: instrumentFiles_def)
  obtain m1 edited w3 where e: "edit_files inst (order m) m w = ((m1, edited), w3)" by (metis surj_pair)
  with r m have wr: "write_changed write inst dir edited m1 args w3 = (Inr args1, w')"
    by (simp add: instrumentFiles_def)
  note at = parseFilesInArgs_at [OF m, unfolded parsed_at_def entry_at_def, rule_format]
  have idx: "map_option cf_argsIndex (m1 p) = map_option cf_argsIndex (m p)" and dom: "set edited \<subseteq> dom m" for p
    using edit_files_kept [OF e] by auto
  have at1: "cf_argsIndex info < length args \<and> args ! cf_argsIndex info = p" if "m1 p = Some info" for p info
  proof -
    from idx [of p] that obtain i0 where "m p = Some i0" "cf_argsIndex i0 = cf_argsIndex info" by (cases "m p") auto
    with at [of p i0] show ?thesis by simp
  qed
  have "m1 p = None \<longleftrightarrow> m p = None" for p using idx [of p] by (cases "m p"; cases "m1 p") auto
  then have "set edited \<subseteq> dom m1" using dom by (auto simp: dom_def)
  note changed = write_changed_args [OF wr this at1 refl]
  have "map_option cf_argsIndex (m (args ! i)) = Some i \<longleftrightarrow> args ! i \<notin> set (drop (Suc i) args)"
    if i: "i < length args" and mem: "args ! i \<in> set edited" for i
  proof -
    obtain info where info: "m (args ! i) = Some info" using mem dom by auto
    with last_position [of "cf_argsIndex info" args i] at [OF info] i show ?thesis by simp
  qed
  with changed idx have "args1 = map (\<lambda>i. if args ! i \<in> set edited \<and> args ! i \<notin> set (drop (Suc i) args)
                     then build_path dir (args ! i) else args ! i) [0..<length args]"
    by (intro nth_equalityI) auto
  moreover have "p \<in> set args \<and> has_suffix p ''.go''" if mem: "p \<in> set edited" for p
  proof -
    obtain info where "m p = Some info" using mem dom by auto
    then show ?thesis using at [of p info] nth_mem [of "cf_argsIndex info" args] by auto
  qed
  ultimately show ?thesis by blast
qed

text \<open>
  A compilation that is instrumented without an error keeps all its arguments but those of files an
  edit changed: at the last place of its path such a file is replaced by the file of the same name in the
  build directory.  Files the instrument writes are added at the end.
\<close>

theorem compiled_arguments:
  assumes "execute0 parse order write instruments opts args w = (Inr args', w')"
  shows "\<exists>edited extra. set edited \<subseteq> {p \<in> set args. has_suffix p ''.go''} \<and>
    args' = map (\<lambda>i. if args ! i \<in> set edited \<and> args ! i \<notin> set (drop (Suc i) args)
                     then build_path (path_dir (string_flag opts ''-o'')) (args ! i) else args ! i) [0..<length args] @ extra"
proof (cases "find_instrument instruments opts w")
  case (Pair found w1)
  show ?thesis
  proof (cases found)
    case None
    with assms Pair have "args' = map (\<lambda>i. args ! i) [0..<length args] @ []"
      by (simp add: execute0_def map_nth)
    then show ?thesis by (intro exI [of _ "[]"]) simp
  next
    case (Some inst)
    let ?dir = "path_dir (string_flag opts ''-o'')"
    obtain res w2 where r0: "instrumentFiles parse order write ?dir inst args w1 = (res, w2)" by (metis surj_pair)
    with assms Pair Some obtain args1 where res: "res = Inr args1" by (cases res) (simp_all add: execute0_def Let_def)
    obtain ex w4 where x: "WriteExtraFiles inst ?dir w2 = (ex, w4)" by (metis surj_pair)
    with assms Pair Some r0 res obtain extra where "ex = Inr extra" by (cases ex) (simp_all add: execute0_def Let_def)
    with assms Pair Some r0 res x have "args' = args1 @ extra" by (auto simp: execute0_def Let_def)
    with instrumented_arguments [OF r0 [unfolded res]] show ?thesis by blast
  qed
qed

text \<open>
  A panic of the parser at a Go file, after files that parsed, is taken for an empty set of files: the
  compilation goes on with its arguments, none of its files is instrumented, and no error is reported.
\<close>

theorem parse_panic_silent:
  assumes "args = before @ path # after" and "has_suffix path ''.go''" and "parse path = ParsePanic"
    and "\<And>p. p \<in> set before \<Longrightarrow> has_suffix p ''.go'' \<Longrightarrow> \<exists>f. parse p = ParsedFile f" and "order Map.empty = []"
  shows "instrumentFiles parse order write buildDir inst args w = (Inr args, w)"
proof -
  have "parse_args parse k (before @ path # after) m = Inr Map.empty" for k m
    using assms(4)
  proof (induction before arbitrary: k m)
    case (Cons a bs)
    then show ?case by (cases "has_suffix a ''.go''") fastforce+
  qed (simp add: assms(2,3))
  then have "parseFilesInArgs parse args = Inr Map.empty" by (simp add: parseFilesInArgs_def assms(1))
  with assms(5) show ?thesis by (simp add: instrumentFiles_def)
qed

end
