(* ===== verification/Facade.thy ===== *)
theory Facade
  imports Tracing_Props
begin

text \<open>
  Package tracing as the plugins see it (plugins/core/tracing/api.go, bridge.go, span.go): the checks of
  its arguments, what it answers when no agent is installed, and the span it hands out, on the world of
  Tracing.

  GetOperator answers nil until the agent is installed; the flag installed says which.  The injector and
  the extractor are functions, None being nil.  A type assertion of the package on a value of the core
  cannot fail and is left out.  An interface value that is nil is None.
\<close>

section \<open>Spans of the plugins\<close>

datatype api_span = ApiNoop | SpanWrapper nat

datatype 'x api_error = ErrParameter | ErrPeerEmpty | TracerError 'x

text \<open>
  The setters of a span of the core.  A snapshot panics in those it overrides; SetPeer it inherits from
  the span inside.
\<close>

fun snapshot_refusal :: "mutation \<Rightarrow> string option" where
  "snapshot_refusal (MOperationName n) = Some ''cannot update the operation name of span in other goroutine''"
| "snapshot_refusal (MLayer l) = Some ''cannot update the layer of span in other goroutine''"
| "snapshot_refusal (MComponent i) = Some ''cannot update the compoenent of span in other goroutine''"
| "snapshot_refusal (MTag k v) = Some ''cannot add tag of span in other goroutine''"
| "snapshot_refusal (MLog now ll) = Some ''cannot add log of span in other goroutine''"
| "snapshot_refusal (MError now ll) = Some ''cannot add error of span in other goroutine''"
| "snapshot_refusal MErrorOccured = Some ''cannot add error of span in other goroutine''"
| "snapshot_refusal _ = None"

definition span_set :: "mutation \<Rightarrow> nat \<Rightarrow> 'v world \<Rightarrow> (string, 'v world) result" where
  "span_set m a w =
     (case w_spans w ! a of
        NoopSpan n \<Rightarrow> Ok w
      | SegSpan k ds sx \<Rightarrow>
          (if k = SnapshotSpan
           then (case snapshot_refusal m of Some p \<Rightarrow> Err p | None \<Rightarrow> Ok (map_ds (mutate m) a w))
           else Ok (map_ds (mutate m) a w)))"

text \<open>A call of the wrapper goes to the span inside; the noop span of the package does nothing.\<close>

definition wrapped :: "(nat \<Rightarrow> 'v world \<Rightarrow> (string, 'v world) result) \<Rightarrow> api_span \<Rightarrow> 'v world \<Rightarrow> (string, 'v world) result" where
  "wrapped f s w = (case s of ApiNoop \<Rightarrow> Ok w | SpanWrapper a \<Rightarrow> f a w)"

definition api_Tag :: "string \<Rightarrow> string \<Rightarrow> api_span \<Rightarrow> 'v world \<Rightarrow> (string, 'v world) result" where
  "api_Tag k v = wrapped (span_set (MTag k v))"

definition api_SetSpanLayer :: "i32 \<Rightarrow> api_span \<Rightarrow> 'v world \<Rightarrow> (string, 'v world) result" where
  "api_SetSpanLayer l = wrapped (span_set (MLayer l))"

definition api_SetOperationName :: "string \<Rightarrow> api_span \<Rightarrow> 'v world \<Rightarrow> (string, 'v world) result" where
  "api_SetOperationName n = wrapped (span_set (MOperationName n))"

definition api_SetPeer :: "string \<Rightarrow> api_span \<Rightarrow> 'v world \<Rightarrow> (string, 'v world) result" where
  "api_SetPeer p = wrapped (span_set (MPeer p))"

definition api_SetComponent :: "i32 \<Rightarrow> api_span \<Rightarrow> 'v world \<Rightarrow> (string, 'v world) result" where
  "api_SetComponent i = wrapped (span_set (MComponent i))"

definition api_Log :: "int \<Rightarrow> string list \<Rightarrow> api_span \<Rightarrow> 'v world \<Rightarrow> (string, 'v world) result" where
  "api_Log now ll = wrapped (span_set (MLog now ll))"

definition api_Error :: "int \<Rightarrow> string list \<Rightarrow> api_span \<Rightarrow> 'v world \<Rightarrow> (string, 'v world) result" where
  "api_Error now ll = wrapped (span_set (MError now ll))"

definition api_ErrorOccured :: "api_span \<Rightarrow> 'v world \<Rightarrow> (string, 'v world) result" where
  "api_ErrorOccured = wrapped (span_set MErrorOccured)"

definition api_End :: "env \<Rightarrow> nat \<Rightarrow> api_span \<Rightarrow> 'v world \<Rightarrow> (string, 'v world) result" where
  "api_End e g = wrapped (SpanEnd e g)"

definition api_PrepareAsync :: "api_span \<Rightarrow> 'v world \<Rightarrow> (string, 'v world) result" where
  "api_PrepareAsync = wrapped SpanPrepareAsync"

definition api_AsyncFinish :: "env \<Rightarrow> api_span \<Rightarrow> 'v world \<Rightarrow> (string, 'v world) result" where
  "api_AsyncFinish e = wrapped (SpanAsyncFinish e)"

text \<open>The readers.  A noop span of the core answers like the noop span of the package.\<close>

definition noopSpanTraceOrSegmentID :: string where
  "noopSpanTraceOrSegmentID = ''N/A''"

definition read_span :: "'a \<Rightarrow> (nat default_span \<Rightarrow> segment_context \<Rightarrow> 'a) \<Rightarrow> api_span \<Rightarrow> 'v world \<Rightarrow> 'a" where
  "read_span noop f s w =
     (case s of
        ApiNoop \<Rightarrow> noop
      | SpanWrapper a \<Rightarrow> (case w_spans w ! a of NoopSpan n \<Rightarrow> noop | SegSpan k ds sx \<Rightarrow> f ds sx))"

definition api_TraceID :: "api_span \<Rightarrow> 'v world \<Rightarrow> string" where
  "api_TraceID = read_span noopSpanTraceOrSegmentID (\<lambda>ds sx. sx_TraceID sx)"

definition api_TraceSegmentID :: "api_span \<Rightarrow> 'v world \<Rightarrow> string" where
  "api_TraceSegmentID = read_span noopSpanTraceOrSegmentID (\<lambda>ds sx. sx_SegmentID sx)"

definition api_SpanID :: "api_span \<Rightarrow> 'v world \<Rightarrow> i32" where
  "api_SpanID = read_span (-1) (\<lambda>ds sx. sx_SpanID sx)"

definition api_IsProfileTarget :: "env \<Rightarrow> api_span \<Rightarrow> 'v world \<Rightarrow> bool" where
  "api_IsProfileTarget e = read_span False (\<lambda>ds sx. e_profiling e \<and> e_profileTarget e (GetEndPointName ds))"

section \<open>The options\<close>

definition WithLayer :: "i32 \<Rightarrow> mutation" where
  "WithLayer l = MLayer l"

definition WithComponent :: "i32 \<Rightarrow> mutation" where
  "WithComponent i = MComponent i"

definition WithTag :: "string \<Rightarrow> string \<Rightarrow> mutation" where
  "WithTag k v = MTag k v"

section \<open>The operations\<close>

definition api_CreateEntrySpan ::
    "bool \<Rightarrow> env \<Rightarrow> nat \<Rightarrow> string \<Rightarrow> (string \<Rightarrow> ('x, string) result) option \<Rightarrow> mutation list \<Rightarrow> 'v world \<Rightarrow>
     ('x decode_error api_error, api_span) result \<times> 'v world" where
  "api_CreateEntrySpan installed e g operationName extractor opts w =
     (case extractor of
        None \<Rightarrow> (Err ErrParameter, w)
      | Some ext \<Rightarrow>
          (if operationName = [] then (Err ErrParameter, w)
           else if \<not> installed then (Ok ApiNoop, w)
           else (case CreateEntrySpan e g operationName ext opts w of
                   (Err x, w1) \<Rightarrow> (Err (TracerError x), w1)
                 | (Ok a, w1) \<Rightarrow> (Ok (SpanWrapper a), w1))))"

definition api_CreateLocalSpan ::
    "bool \<Rightarrow> env \<Rightarrow> nat \<Rightarrow> string \<Rightarrow> mutation list \<Rightarrow> 'v world \<Rightarrow> ('x api_error, api_span) result \<times> 'v world" where
  "api_CreateLocalSpan installed e g operationName opts w =
     (if operationName = [] then (Err ErrParameter, w)
      else if \<not> installed then (Ok ApiNoop, w)
      else (case CreateLocalSpan e g operationName opts w of (a, w1) \<Rightarrow> (Ok (SpanWrapper a), w1)))"

definition api_CreateExitSpan ::
    "bool \<Rightarrow> env \<Rightarrow> nat \<Rightarrow> string \<Rightarrow> string \<Rightarrow> ('c \<Rightarrow> string \<Rightarrow> string \<Rightarrow> 'c \<times> 'x option) option \<Rightarrow> string list \<Rightarrow>
     mutation list \<Rightarrow> 'c \<Rightarrow> 'v world \<Rightarrow> ('x api_error, api_span) result \<times> 'c \<times> 'v world" where
  "api_CreateExitSpan installed e g operationName peer injector ks opts cr w =
     (case injector of
        None \<Rightarrow> (Err ErrParameter, cr, w)
      | Some put \<Rightarrow>
          (if operationName = [] then (Err ErrParameter, cr, w)
           else if peer = [] then (Err ErrPeerEmpty, cr, w)
           else if \<not> installed then (Ok ApiNoop, cr, w)
           else (case CreateExitSpan e g operationName peer put ks opts cr w of
                   (Err x, cr1, w1) \<Rightarrow> (Err (TracerError x), cr1, w1)
                 | (Ok a, cr1, w1) \<Rightarrow> (Ok (SpanWrapper a), cr1, w1))))"

definition api_ExtractContext ::
    "bool \<Rightarrow> nat \<Rightarrow> (string \<Rightarrow> ('x, string) result) option \<Rightarrow> string list \<Rightarrow> 'v world \<Rightarrow>
     'x decode_error api_error option \<times> 'v world" where
  "api_ExtractContext installed g extractor ks w =
     (case extractor of
        None \<Rightarrow> (Some ErrParameter, w)
      | Some ext \<Rightarrow>
          (if \<not> installed then (None, w)
           else (case ExtractContext g ext ks w of (err, w1) \<Rightarrow> (map_option TracerError err, w1))))"

definition api_ActiveSpan :: "bool \<Rightarrow> nat \<Rightarrow> 'v world \<Rightarrow> api_span option" where
  "api_ActiveSpan installed g w = (if installed then map_option SpanWrapper (ActiveSpan g w) else None)"

definition api_GetRuntimeContextValue :: "bool \<Rightarrow> nat \<Rightarrow> string \<Rightarrow> 'v world \<Rightarrow> 'v option" where
  "api_GetRuntimeContextValue installed g key w = (if installed then GetRuntimeContextValue g key w else None)"

definition api_SetRuntimeContextValue :: "bool \<Rightarrow> env \<Rightarrow> nat \<Rightarrow> string \<Rightarrow> 'v option \<Rightarrow> 'v world \<Rightarrow> 'v world" where
  "api_SetRuntimeContextValue installed e g key val w =
     (if installed then SetRuntimeContextValue e g key val w else w)"

definition api_CaptureContext :: "bool \<Rightarrow> nat \<Rightarrow> 'v world \<Rightarrow> 'v context_snapshot option \<times> 'v world" where
  "api_CaptureContext installed g w = (if installed then CaptureContext g w else (None, w))"

definition api_ContinueContext :: "bool \<Rightarrow> env \<Rightarrow> nat \<Rightarrow> 'v context_snapshot option \<Rightarrow> 'v world \<Rightarrow> 'v world" where
  "api_ContinueContext installed e g ctx w = (if installed then ContinueContext e g ctx w else w)"

definition api_CleanContext :: "bool \<Rightarrow> nat \<Rightarrow> 'v world \<Rightarrow> 'v world" where
  "api_CleanContext installed g w = (if installed then CleanContext g w else w)"

definition api_GetCorrelationContextValue :: "bool \<Rightarrow> nat \<Rightarrow> string \<Rightarrow> 'v world \<Rightarrow> string" where
  "api_GetCorrelationContextValue installed g key w = (if installed then GetCorrelationContextValue g key w else [])"

definition api_SetCorrelationContextValue :: "bool \<Rightarrow> env \<Rightarrow> nat \<Rightarrow> string \<Rightarrow> string \<Rightarrow> 'v world \<Rightarrow> 'v world" where
  "api_SetCorrelationContextValue installed e g key val w =
     (if installed then SetCorrelationContextValue e g key val w else w)"

section \<open>Every call is a sequence of operations of the tracer\<close>

text \<open>
  One call of a plugin, with errors as messages and a list of headers as carrier.  A span the plugin
  holds is one the tracer made.
\<close>

definition held :: "api_span \<Rightarrow> 'v world \<Rightarrow> bool" where
  "held s w = (case s of ApiNoop \<Rightarrow> True | SpanWrapper a \<Rightarrow> a < length (w_spans w))"

inductive api_step :: "bool \<Rightarrow> 'v world \<Rightarrow> 'v world \<Rightarrow> bool" where
  a_entry: "api_step installed w (snd (api_CreateEntrySpan installed e g name
     (extractor :: (string \<Rightarrow> (string, string) result) option) opts w))"
| a_local: "api_step installed w (snd (api_CreateLocalSpan installed e g name opts w :: (string api_error, api_span) result \<times> 'v world))"
| a_exit: "api_step installed w (snd (snd (api_CreateExitSpan installed e g name peer
     (injector :: ((string \<times> string) list \<Rightarrow> string \<Rightarrow> string \<Rightarrow> (string \<times> string) list \<times> string option) option) ks opts cr w)))"
| a_extract: "api_step installed w (snd (api_ExtractContext installed g (extractor :: (string \<Rightarrow> (string, string) result) option) ks w))"
| a_set: "held s w \<Longrightarrow> wrapped (span_set m) s w = Inr w' \<Longrightarrow> api_step installed w w'"
| a_end: "held s w \<Longrightarrow> api_End e g s w = Inr w' \<Longrightarrow> api_step installed w w'"
| a_prepare: "held s w \<Longrightarrow> api_PrepareAsync s w = Inr w' \<Longrightarrow> api_step installed w w'"
| a_finish: "held s w \<Longrightarrow> api_AsyncFinish e s w = Inr w' \<Longrightarrow> api_step installed w w'"
| a_runtime: "api_step installed w (api_SetRuntimeContextValue installed e g key v w)"
| a_capture: "api_step installed w (snd (api_CaptureContext installed g w))"
| a_continue: "active_ok (length (w_spans w)) s \<Longrightarrow> api_step installed w (api_ContinueContext installed e g (Some (s, r)) w)"
| a_clean: "api_step installed w (api_CleanContext installed g w)"
| a_correlation: "api_step installed w (api_SetCorrelationContextValue installed e g key val w)"

lemma span_set_step: "a < length (w_spans w) \<Longrightarrow> span_set m a w = Inr w' \<Longrightarrow> op_step\<^sup>*\<^sup>* w w'"
  by (auto simp: span_set_def intro: o_mutate split: tspan.splits if_splits option.splits)

lemma api_step_operations: "api_step installed w w' \<Longrightarrow> op_step\<^sup>*\<^sup>* w w'"
proof (induction rule: api_step.induct)
  case (a_entry installed w e g name extractor opts)
  show ?case
    using o_entry [of w e g name "the extractor" opts]
    by (auto simp: api_CreateEntrySpan_def split: option.splits prod.splits sum.splits)
next
  case (a_local installed w e g name opts)
  show ?case using o_local [of w e g name opts] by (auto simp: api_CreateLocalSpan_def split: prod.splits)
next
  case (a_exit installed w e g name peer injector ks opts cr)
  show ?case
    using o_exit [of w e g name peer "the injector" ks opts cr]
    by (auto simp: api_CreateExitSpan_def split: option.splits prod.splits sum.splits)
next
  case (a_extract installed w g extractor ks)
  show ?case using o_extract [of w g "the extractor" ks] by (auto simp: api_ExtractContext_def split: option.splits prod.splits)
next
  case (a_set s w m w' installed)
  then show ?case by (cases s) (auto simp: wrapped_def held_def intro: span_set_step)
next
  case (a_end s w e g w' installed)
  then show ?case by (cases s) (auto simp: wrapped_def held_def api_End_def intro: o_end)
next
  case (a_prepare s w w' installed)
  then show ?case by (cases s) (auto simp: wrapped_def held_def api_PrepareAsync_def intro: o_prepare)
next
  case (a_finish s w e w' installed)
  then show ?case by (cases s) (auto simp: wrapped_def held_def api_AsyncFinish_def intro: o_finish)
next
  case (a_runtime installed w e g key v)
  show ?case using o_runtime [of w e g key v] by (auto simp: api_SetRuntimeContextValue_def)
next
  case (a_capture installed w g)
  show ?case using o_capture [of w g] by (auto simp: api_CaptureContext_def)
next
  case (a_continue w s installed e g r)
  then show ?case using o_continue [of w s e g r] by (auto simp: api_ContinueContext_def)
next
  case (a_clean installed w g)
  show ?case using o_clean [of w g] by (auto simp: api_CleanContext_def)
next
  case (a_correlation installed w e g key val)
  show ?case using o_correlation [of w e g key val] by (auto simp: api_SetCorrelationContextValue_def)
qed

text \<open>
  Whatever plugins call through package tracing, in any order and in any goroutines, the state is one
  that operations of the tracer reach, and its heap is well formed: a plugin cannot leave a dangling span,
  context or segment through the package.
\<close>

theorem plugin_calls_refine:
  assumes "(api_step installed)\<^sup>*\<^sup>* empty_world w"
  shows "op_step\<^sup>*\<^sup>* empty_world w \<and> wf_world w"
proof -
  have "op_step\<^sup>*\<^sup>* empty_world w"
    using assms by (induction rule: rtranclp_induct) (auto dest: api_step_operations intro: rtranclp_trans)
  moreover from this have "wf_world w"
    by (induction rule: rtranclp_induct) (auto simp: wf_empty dest: wf_op_step)
  ultimately show ?thesis ..
qed

text \<open>
  Without an agent no call of a plugin that holds no span of the tracer changes anything, and the
  spans it gets are the noop span of the package; the arguments are checked all the same.
\<close>

theorem no_agent_no_effect:
  assumes "name \<noteq> []" and "peer \<noteq> []"
  shows "api_CreateEntrySpan False e g name (Some extractor) opts w = (Inr ApiNoop, w) \<and>
    api_CreateLocalSpan False e g name opts w = (Inr ApiNoop, w) \<and>
    api_CreateExitSpan False e g name peer (Some injector) ks opts cr w = (Inr ApiNoop, cr, w) \<and>
    api_CreateExitSpan False e g name [] (Some injector) ks opts cr w = (Inl ErrPeerEmpty, cr, w) \<and>
    api_ActiveSpan False g w = None \<and> api_CaptureContext False g w = (None, w) \<and>
    wrapped f ApiNoop w = Inr w \<and> api_TraceID ApiNoop w = ''N/A'' \<and> api_SpanID ApiNoop w = -1"
  using assms
  by (simp add: api_CreateEntrySpan_def api_CreateLocalSpan_def api_CreateExitSpan_def api_ActiveSpan_def api_CaptureContext_def
      wrapped_def api_TraceID_def api_SpanID_def read_span_def noopSpanTraceOrSegmentID_def)

section \<open>Spans of another goroutine\<close>

text \<open>
  A span that was captured in another goroutine refuses to be named, tagged, logged on, ended or made
  asynchronous, by a panic; but its peer can be set.
\<close>

theorem snapshot_peer_written:
  assumes "w_spans w ! a = SegSpan SnapshotSpan ds sx" and "\<not> ds_ended ds" and "a < length (w_spans w)"
  shows "(\<exists>p. api_SetOperationName n (SpanWrapper a) w = Inl p) \<and> (\<exists>p. api_Tag k v (SpanWrapper a) w = Inl p) \<and>
    (\<exists>p. api_Error now ll (SpanWrapper a) w = Inl p) \<and> (\<exists>p. api_End e g (SpanWrapper a) w = Inl p) \<and>
    (\<exists>p. api_PrepareAsync (SpanWrapper a) w = Inl p) \<and>
    (\<exists>w'. api_SetPeer peer (SpanWrapper a) w = Inr w' \<and> w_spans w' ! a = SegSpan SnapshotSpan (ds\<lparr>ds_Peer := peer\<rparr>) sx)"
  using assms
  by (simp add: wrapped_def span_set_def api_SetOperationName_def api_Tag_def api_Error_def api_End_def api_PrepareAsync_def
      api_SetPeer_def SpanEnd_def SpanPrepareAsync_def map_ds_def SetPeer_def)

end
