(* ===== verification/Db_Peer.thy ===== *)
theory Db_Peer
  imports Strconv
begin

text \<open>
  The peer of a PostgreSQL connection (plugins/core/tracing/postgres_peer.go): the addresses of the primary
  and of the fallbacks, without repetition, as one text.  The package has its own string functions, to
  import nothing into the code it is copied to; they are compared here with those of the library.

  A string is indexed in bytes.  An index out of range is a panic, None.
\<close>

section \<open>The string functions of the package\<close>

record PostgreSQLAddress =
  pa_Host :: string
  pa_Port :: "16 word"

definition pg_hasPrefix :: "string \<Rightarrow> string \<Rightarrow> bool" where
  "pg_hasPrefix val prefix = (if length prefix > length val then False else take (length prefix) val = prefix)"

definition pg_hasSuffix :: "string \<Rightarrow> string \<Rightarrow> bool" where
  "pg_hasSuffix val suffix = (if length suffix > length val then False else drop (length val - length suffix) val = suffix)"

fun count_bytes :: "string \<Rightarrow> char \<Rightarrow> nat \<Rightarrow> nat" where
  "count_bytes [] target count = count"
| "count_bytes (c # cs) target count = count_bytes cs target (if c = target then count + 1 else count)"

definition countRune :: "string \<Rightarrow> char \<Rightarrow> nat" where
  "countRune val target = count_bytes val target 0"

text \<open>The loop that fills the buffer from its end; pos is the position behind the next digit.\<close>

fun fill_digits :: "nat \<Rightarrow> 16 word \<Rightarrow> char list \<Rightarrow> string option" where
  "fill_digits pos val buf =
     (if val = 0 then Some (drop pos buf)
      else (case pos of
              0 \<Rightarrow> None
            | Suc p \<Rightarrow> fill_digits p (val div 10) (buf[p := char_of (unat (48 + val mod 10))])))"

declare fill_digits.simps [simp del]

definition uint16ToString :: "16 word \<Rightarrow> string option" where
  "uint16ToString val = (if val = 0 then Some ''0'' else fill_digits 5 val (replicate 5 (CHR 0x00)))"

text \<open>The loop of joinStrings over the items; first says that nothing was written yet.\<close>

fun append_items :: "string \<Rightarrow> bool \<Rightarrow> string list \<Rightarrow> string \<Rightarrow> string" where
  "append_items sep first [] buf = buf"
| "append_items sep first (item # items) buf =
     append_items sep False items ((if first then buf else buf @ sep) @ item)"

definition joinStrings :: "string list \<Rightarrow> string \<Rightarrow> string" where
  "joinStrings items separator =
     (case items of
        [] \<Rightarrow> []
      | [x] \<Rightarrow> x
      | _ \<Rightarrow> append_items separator True items [])"

section \<open>The peer\<close>

definition format_address :: "string \<Rightarrow> string \<Rightarrow> string" where
  "format_address host port =
     (if pg_hasPrefix host ''/''
      then (if pg_hasSuffix host ''/'' then host @ ''.s.PGSQL.'' @ port else host @ ''/.s.PGSQL.'' @ port)
      else if countRune host (CHR '':'') > 1 \<and> \<not> pg_hasPrefix host ''['' then ''['' @ host @ '']:'' @ port
      else host @ '':'' @ port)"

definition appendPostgreSQLPeerAddress :: "string list \<Rightarrow> PostgreSQLAddress \<Rightarrow> string list option" where
  "appendPostgreSQLPeerAddress addresses a =
     (if pa_Host a = [] then Some addresses
      else (case uint16ToString (pa_Port a) of
              None \<Rightarrow> None
            | Some port \<Rightarrow>
                (let formatted = format_address (pa_Host a) port
                 in Some (if formatted \<in> set addresses then addresses else addresses @ [formatted]))))"

fun append_all :: "PostgreSQLAddress list \<Rightarrow> string list \<Rightarrow> string list option" where
  "append_all [] addresses = Some addresses"
| "append_all (a # rest) addresses = Option.bind (appendPostgreSQLPeerAddress addresses a) (append_all rest)"

definition BuildPostgreSQLPeer :: "PostgreSQLAddress \<Rightarrow> PostgreSQLAddress list \<Rightarrow> string option" where
  "BuildPostgreSQLPeer primary fallbacks =
     Option.bind (appendPostgreSQLPeerAddress [] primary)
       (\<lambda>addresses. map_option (\<lambda>as. joinStrings as '','') (append_all fallbacks addresses))"

section \<open>The functions agree with the library\<close>

lemma pg_hasPrefix_eq [simp]: "pg_hasPrefix val p = has_prefix val p"
  by (auto simp: pg_hasPrefix_def has_prefix_def)

lemma pg_hasSuffix_eq [simp]: "pg_hasSuffix val p = has_suffix val p"
  by (auto simp: pg_hasSuffix_def has_suffix_def)

lemma count_bytes_eq: "count_bytes s c n = n + length (filter (\<lambda>x. x = c) s)"
  by (induction s arbitrary: n) auto

lemma countRune_eq [simp]: "countRune s c = length (filter (\<lambda>x. x = c) s)"
  by (simp add: countRune_def count_bytes_eq)

lemma append_items_eq: "append_items sep False items buf = buf @ concat (map (\<lambda>x. sep @ x) items)"
  by (induction items arbitrary: buf) auto

lemma join_concat: "join sep (x # items) = x @ concat (map (\<lambda>x. sep @ x) items)"
  by (induction items arbitrary: x) auto

lemma joinStrings_eq [simp]: "joinStrings items sep = join sep items"
  by (cases "(sep, items)" rule: join.cases) (auto simp: joinStrings_def append_items_eq join_concat)

lemma digit_byte: "char_of (unat (48 + v mod 10 :: 16 word)) = digit_char (unat v mod 10)"
proof -
  have m: "unat (v mod 10) = unat v mod 10" by (simp add: unat_mod)
  have "unat (48 + v mod 10) = (48 + unat (v mod 10)) mod 65536" by (simp add: unat_word_ariths)
  also have "\<dots> = 48 + unat v mod 10" unfolding m by (intro mod_less) (simp add: order.strict_trans2 [of _ "48 + 10"])
  finally show ?thesis by (simp add: digit_char_def)
qed

lemma fill_digits_eq:
  assumes "unat v < 10 ^ n" and "pos = n + k" and "length buf = 5" and "pos \<le> 5"
  shows "fill_digits pos v buf =
    Some ((if v = 0 then [] else nat_digits (unat v)) @ drop pos buf)"
  using assms
proof (induction n arbitrary: v pos buf)
  case 0
  then have "v = 0" by (simp add: unat_eq_zero)
  then show ?case by (simp add: fill_digits.simps)
next
  case (Suc n)
  show ?case
  proof (cases "v = 0")
    case True
    then show ?thesis by (simp add: fill_digits.simps)
  next
    case False
    let ?p = "n + k" and ?d = "digit_char (unat v mod 10)"
    have div: "unat (v div 10) = unat v div 10" by (simp add: unat_div)
    have lt: "unat (v div 10) < 10 ^ n" using Suc.prems(1) unfolding div by (simp add: less_mult_imp_div_less mult.commute)
    have p: "?p < 5" using Suc.prems(2,4) by simp
    have "fill_digits pos v buf = fill_digits ?p (v div 10) (buf[?p := ?d])"
      using False Suc.prems(2) by (subst fill_digits.simps) (simp add: digit_byte)
    also have "\<dots> = Some ((if v div 10 = 0 then [] else nat_digits (unat (v div 10))) @ drop ?p (buf[?p := ?d]))"
      using Suc.prems(3) p by (intro Suc.IH [OF lt refl]) auto
    also have "drop ?p (buf[?p := ?d]) = ?d # drop pos buf"
      using p Suc.prems(2,3) by (simp add: Cons_nth_drop_Suc [symmetric])
    also have "(if v div 10 = 0 then [] else nat_digits (unat (v div 10))) @ ?d # drop pos buf = nat_digits (unat v) @ drop pos buf"
    proof -
      have z: "v div 10 = 0 \<longleftrightarrow> unat v < 10" using div by (metis unat_eq_zero div_eq_0_iff zero_neq_numeral)
      show ?thesis unfolding z div by (subst (2) nat_digits.simps) simp
    qed
    finally show ?thesis using False by simp
  qed
qed

text \<open>
  The conversion of a port by hand never runs out of its buffer of five bytes and is the decimal
  representation.
\<close>

theorem port_digits: "uint16ToString v = Some (itoa (uint v))"
proof -
  have "unat v < 2 ^ LENGTH(16)" by (rule unsigned_less)
  then have "unat v < 10 ^ 5" by simp
  then have f: "fill_digits 5 v (replicate 5 (CHR 0x00)) = Some ((if v = 0 then [] else nat_digits (unat v)) @ [])"
    using fill_digits_eq [of v 5 5 0 "replicate 5 (CHR 0x00)"] by simp
  have z: "nat_digits 0 = ''0''" by (subst nat_digits.simps) (simp add: digit_char_def char_of_def bit_0)
  show ?thesis
  proof (cases "v = 0")
    case True
    then show ?thesis by (simp add: uint16ToString_def itoa_def z)
  next
    case False
    moreover have "itoa (uint v) = nat_digits (unat v)" by (simp add: itoa_def)
    ultimately show ?thesis by (simp only: uint16ToString_def f if_False append_Nil2)
  qed
qed

section \<open>What the peer names\<close>

text \<open>The first occurrence of each element.\<close>

definition first_of_each :: "'a list \<Rightarrow> 'a list" where
  "first_of_each xs = rev (remdups (rev xs))"

lemma first_of_each_simps [simp]:
  "first_of_each [] = []"
  "first_of_each (xs @ [x]) = (if x \<in> set xs then first_of_each xs else first_of_each xs @ [x])"
  "set (first_of_each xs) = set xs" "distinct (first_of_each xs)"
  by (simp_all add: first_of_each_def)

definition address_text :: "PostgreSQLAddress \<Rightarrow> string" where
  "address_text a = format_address (pa_Host a) (itoa (uint (pa_Port a)))"

definition address_texts :: "PostgreSQLAddress list \<Rightarrow> string list" where
  "address_texts as = map address_text (filter (\<lambda>a. pa_Host a \<noteq> []) as)"

lemma append_address:
  "appendPostgreSQLPeerAddress (first_of_each (address_texts as)) a = Some (first_of_each (address_texts (as @ [a])))"
  by (simp add: appendPostgreSQLPeerAddress_def port_digits address_texts_def address_text_def)

lemma append_all_addresses:
  "append_all bs (first_of_each (address_texts as)) = Some (first_of_each (address_texts (as @ bs)))"
  by (induction bs arbitrary: as) (simp_all add: append_address)

text \<open>
  The peer of a connection is the texts of its addresses that have a host, each once, in the order of
  their first occurrence, separated by commas; building it never panics.
\<close>

theorem peer_of_addresses:
  "BuildPostgreSQLPeer primary fallbacks = Some (join '','' (first_of_each (address_texts (primary # fallbacks))))"
  using append_address [of "[]" primary] append_all_addresses [of fallbacks "[primary]"]
  by (simp add: BuildPostgreSQLPeer_def address_texts_def)

lemma format_no_comma: "CHR '','' \<notin> set (format_address h (itoa (uint (p :: 16 word)))) \<longleftrightarrow> CHR '','' \<notin> set h"
proof -
  have "CHR '','' \<notin> set (itoa (uint p))" by (simp add: itoa_def nat_digits_no_char)
  then show ?thesis by (simp add: format_address_def)
qed



end
