(* ===== verification/Span_Calls.thy ===== *)
theory Span_Calls
  imports Facade
begin

text \<open>
  What a plugin may rely on when it opens a span before a call, writes to it, and ends it after the call:
  the discipline shared by the interceptors.  holding says what the world looks like as long as the plugin
  holds the span; the locale span_discipline states what the interceptors use, and is interpreted on the
  spans of package tracing.
\<close>

section \<open>New spans, exactly\<close>

lemma apply_opts_exact:
  "a < length (w_spans w) \<Longrightarrow> w_spans w ! a = SegSpan k ds sx \<Longrightarrow>
   w_spans (apply_opts ms a w) = (w_spans w)[a := SegSpan k (fold mutate ms ds) sx]"
proof (induction ms arbitrary: w ds)
  case Nil
  then show ?case by (simp add: apply_opts_def) (metis list_update_id)
next
  case (Cons m ms)
  have w: "w_spans (map_ds (mutate m) a w) = (w_spans w)[a := SegSpan k (mutate m ds) sx]"
    using Cons.prems by (simp add: map_ds_def)
  from Cons.IH [of "map_ds (mutate m) a w" "mutate m ds"] Cons.prems w show ?case by (simp add: apply_opts_def)
qed

lemma createSpan0_exact:
  assumes "wf_world w" "c < length (w_contexts w)" "active_ok (length (w_spans w)) parent"
    and "\<And>p. parent = Some p \<Longrightarrow> as_segment_span (w_spans w ! p) \<noteq> None"
    and "createSpan0 e c parent opts oo w = ((a, noop), w')"
  shows "a = length (w_spans w) \<and>
    (if parent = None \<and> \<not> e_sampled e then w_spans w' = w_spans w @ [NoopSpan 1]
     else \<exists>k sx. k \<noteq> SnapshotSpan \<and>
       w_spans w' = w_spans w @ [SegSpan k (fold mutate opts (apply_core_opts oo (NewDefaultSpan (e_now e) parent))) sx])"
proof -
  let ?ds = "apply_core_opts oo (NewDefaultSpan (e_now e) parent)"
  have opts: "w_spans (apply_opts opts b w1) = w_spans w @ [SegSpan k (fold mutate opts ?ds) sx]"
    if "w_spans w1 = w_spans w @ [SegSpan k ?ds sx]" "b = length (w_spans w)" for b w1 k sx
    using apply_opts_exact [of b w1 k ?ds sx opts] that by simp
  show ?thesis
  proof (cases parent)
    case None
    obtain b w1 where n: "NewSegmentSpan e c ?ds None w = (b, w1)" by fastforce
    from NewSegmentSpan_root [OF n assms(2,1)] obtain sx where
      N: "b = length (w_spans w)" "w_spans w1 = w_spans w @ [SegSpan RootSegmentSpan ?ds sx]" by auto
    from assms(5) None n N opts [OF N(2,1)] show ?thesis
      by (auto simp: createSpan0_def Let_def apply_opts_def [symmetric] alloc_span_def newNoopSpan_def log_so11y_def split: if_splits)
  next
    case (Some p)
    then obtain psx where psx: "as_segment_span (w_spans w ! p) = Some psx" using assms(4) by auto
    then obtain pk pds where p: "w_spans w ! p = SegSpan pk pds psx" by (cases "w_spans w ! p") auto
    have "p < length (w_spans w)" using assms(3) Some by simp
    from wf_span [OF assms(1) this, unfolded p] obtain co f where
      P: "sx_Correlation psx = Some co" "sx_FirstSpan psx = Some f" "sx_segment psx < length (w_segments w)"
      by (auto split: option.splits)
    obtain b w1 where n: "NewSegmentSpan e c ?ds (Some psx) w = (b, w1)" by fastforce
    from NewSegmentSpan_child [OF n assms(2,1) P(3,1,2)] obtain k sx where
      N: "b = length (w_spans w)" "w_spans w1 = w_spans w @ [SegSpan k ?ds sx]" "k \<noteq> SnapshotSpan"
      by (auto split: if_splits)
    from assms(5) Some n psx N opts [OF N(2,1)] show ?thesis
      by (auto simp: createSpan0_def Let_def apply_opts_def [symmetric])
  qed
qed

section \<open>A span that is held\<close>

definition open_span :: "nat \<Rightarrow> 'v world \<Rightarrow> nat default_span \<Rightarrow> bool" where
  "open_span g w ds \<longleftrightarrow> ds_Parent ds = ActiveSpan g w \<and> \<not> ds_ended ds \<and> ds_EndTime ds = None \<and>
     ds_reuseCount ds = 0 \<and> \<not> ds_InAsyncMode ds"

text \<open>The world w' in which goroutine g holds a span it opened in the world w.\<close>

definition old_spans :: "nat set \<Rightarrow> 'v world \<Rightarrow> 'v world \<Rightarrow> bool" where
  "old_spans except w w' \<longleftrightarrow> wf_world w' \<and> length (w_spans w) \<le> length (w_spans w') \<and>
     (\<forall>i<length (w_spans w). i \<notin> except \<longrightarrow> w_spans w' ! i = w_spans w ! i)"

definition holding :: "nat \<Rightarrow> 'v world \<Rightarrow> api_span \<Rightarrow> 'v world \<Rightarrow> bool" where
  "holding g w s w' \<longleftrightarrow> (\<forall>c. w_gls w g = Some c \<longrightarrow> w_gls w' g = Some c) \<and>
     (case s of
        ApiNoop \<Rightarrow> old_spans {} w w' \<and> ActiveSpan g w' = ActiveSpan g w
      | SpanWrapper a \<Rightarrow>
          (if a < length (w_spans w)
           then ActiveSpan g w = Some a \<and> ActiveSpan g w' = Some a \<and> old_spans {a} w w' \<and>
             (\<exists>n\<ge>1. w_spans w ! a = NoopSpan n \<and> w_spans w' ! a = NoopSpan (n + 1))
           else a = length (w_spans w) \<and> a < length (w_spans w') \<and> old_spans {} w w' \<and>
             (case w_spans w' ! a of
                NoopSpan n \<Rightarrow> n = 1 \<and> ActiveSpan g w = None \<and> (ActiveSpan g w' = None \<or> ActiveSpan g w' = Some a)
              | SegSpan k ds sx \<Rightarrow> k \<noteq> SnapshotSpan \<and> open_span g w ds \<and> ActiveSpan g w' = Some a)))"

lemma old_spans_trans: "old_spans X w1 w2 \<Longrightarrow> old_spans {} w2 w3 \<Longrightarrow> old_spans X w1 w3"
  by (auto simp: old_spans_def)

lemma balanced_old: "balanced g w w' \<longleftrightarrow> old_spans {} w w' \<and> ActiveSpan g w' = ActiveSpan g w \<and>
    (\<forall>c. w_gls w g = Some c \<longrightarrow> w_gls w' g = Some c)"
  by (auto simp: balanced_def old_spans_def)

lemma holding_wf: "holding g w s w' \<Longrightarrow> wf_world w'"
  by (auto simp: holding_def old_spans_def split: api_span.splits if_splits)

text \<open>A balanced piece of the program keeps the span.\<close>

lemma holding_balanced:
  assumes "holding g w s w1" "balanced g w1 w2"
  shows "holding g w s w2"
proof -
  have o: "old_spans {} w1 w2" and a: "ActiveSpan g w2 = ActiveSpan g w1"
    and c: "\<And>c. w_gls w1 g = Some c \<Longrightarrow> w_gls w2 g = Some c"
    using assms(2) by (simp_all add: balanced_old)
  have same: "w_spans w2 ! i = w_spans w1 ! i" "i < length (w_spans w2)" if "i < length (w_spans w1)" for i
    using o that by (auto simp: old_spans_def)
  show ?thesis
  proof (cases s)
    case ApiNoop
    with assms(1) a c old_spans_trans [OF _ o] show ?thesis by (auto simp: holding_def)
  next
    case (SpanWrapper b)
    have "b < length (w_spans w1)" using assms(1) SpanWrapper by (auto simp: holding_def old_spans_def split: if_splits)
    with assms(1) SpanWrapper a c same [of b] old_spans_trans [OF _ o] show ?thesis
      by (auto simp: holding_def split: if_splits tspan.splits)
  qed
qed

text \<open>The setters of the package keep it too, and do not panic.\<close>

fun setter :: "mutation \<Rightarrow> bool" where
  "setter (MRef r) = False"
| "setter MReuse = False"
| "setter m = True"

lemma setter_open: "setter m \<Longrightarrow> open_span g w ds \<Longrightarrow> open_span g w (mutate m ds)"
  by (cases m) (simp_all add: open_span_def mutator_defs)

lemma holding_set:
  assumes "holding g w s w1" "setter m"
  shows "\<exists>w2. wrapped (span_set m) s w1 = Inr w2 \<and> holding g w s w2"
proof (cases s)
  case ApiNoop
  with assms(1) show ?thesis by (simp add: wrapped_def)
next
  case (SpanWrapper a)
  show ?thesis
  proof (cases "w_spans w1 ! a")
    case (NoopSpan n)
    with assms(1) SpanWrapper show ?thesis by (simp add: wrapped_def span_set_def)
  next
    case (SegSpan k ds sx)
    have al: "\<not> a < length (w_spans w)" "a = length (w_spans w)" "a < length (w_spans w1)"
      using assms(1) SpanWrapper SegSpan by (auto simp: holding_def split: if_splits)
    let ?w2 = "map_ds (mutate m) a w1"
    have w2: "w_spans ?w2 = (w_spans w1)[a := SegSpan k (mutate m ds) sx]" "w_gls ?w2 = w_gls w1"
      "ActiveSpan g ?w2 = ActiveSpan g w1"
      using SegSpan by (simp_all add: map_ds_def)
    have k: "k \<noteq> SnapshotSpan" using assms(1) SpanWrapper SegSpan al by (simp add: holding_def)
    have "wf_world ?w2" using wf_map_ds [OF holding_wf [OF assms(1)] al(3), of "mutate m"] by simp
    then have "old_spans {} w ?w2" using assms(1) SpanWrapper al w2 by (auto simp: holding_def old_spans_def)
    with assms SpanWrapper SegSpan al w2 k setter_open [OF assms(2)] show ?thesis
      by (auto simp: wrapped_def span_set_def holding_def)
  qed
qed

text \<open>Ending the span does not panic and leaves the world balanced.\<close>

lemma end_noop_active:
  assumes "wf_world w1" "w_spans w1 ! a = NoopSpan 1" "SpanEnd e g a w1 = Inr w2"
  shows "ActiveSpan g w2 = None"
proof -
  let ?w3 = "log_so11y (TracingContextCompletion True) (w1\<lparr>w_spans := (w_spans w1)[a := NoopSpan 0]\<rparr>)"
  have w2: "w2 = restore_active g None ?w3" using assms(2,3) by (simp add: SpanEnd_def noop_End_def)
  have "wf_world ?w3" using wf_set_span [OF assms(1), of "NoopSpan 0" a] by simp
  then show ?thesis
    unfolding w2 using restore_active_ActiveSpan [of ?w3 g _ None]
    by (cases "w_gls w1 g") (auto simp: restore_active_none ActiveSpan_def getTracingContext_def)
qed

lemma end_open_active:
  assumes "wf_world w1" "a < length (w_spans w1)" "w_spans w1 ! a = SegSpan k ds sx" "k \<noteq> SnapshotSpan" "open_span g w ds"
    and "ActiveSpan g w1 = Some a" "SpanEnd e g a w1 = Inr w2"
  shows "ActiveSpan g w2 = ActiveSpan g w"
proof -
  let ?ds = "ds\<lparr>ds_EndTime := Some (e_now e), ds_ended := True\<rparr>"
  let ?w3 = "log_so11y (TracingContextCompletion False) (w1\<lparr>w_spans := (w_spans w1)[a := SegSpan k ?ds sx]\<rparr>)"
  have E: "endSyncAndFreeze (e_now e) ds = (?ds, True, True)" using assms(5) by (simp add: endSyncAndFreeze_def open_span_def)
  have w2: "w2 = end0 a k sx (restore_active g (ds_Parent ds) ?w3)"
    using assms(3,4,5,7) E by (simp add: SpanEnd_def open_span_def)
  obtain c where c: "w_gls w1 g = Some c" using assms(6) by (auto simp: ActiveSpan_def getTracingContext_def split: option.splits)
  have "wf_world ?w3" using wf_set_span [OF assms(1), of "SegSpan k ?ds sx" a] wf_span [OF assms(1,2)] assms(3) by simp
  from restore_active_ActiveSpan [OF this, of g c "ds_Parent ds"] c assms(5) show ?thesis
    unfolding w2 by (simp add: ActiveSpan_def getTracingContext_def open_span_def)
qed

lemma holding_end:
  assumes "wf_world w" "holding g w s w1"
  shows "\<exists>w2. wrapped (SpanEnd e g) s w1 = Inr w2 \<and> balanced g w w2"
proof (cases s)
  case ApiNoop
  with assms show ?thesis by (simp add: wrapped_def holding_def balanced_old)
next
  case (SpanWrapper a)
  have gls: "\<And>c. w_gls w g = Some c \<Longrightarrow> w_gls w1 g = Some c" using assms(2) by (simp add: holding_def)
  show ?thesis
  proof (cases "a < length (w_spans w)")
    case True
    with assms(2) SpanWrapper obtain n where n: "n \<ge> 1" "w_spans w ! a = NoopSpan n" "w_spans w1 ! a = NoopSpan (n + 1)"
      and o: "old_spans {a} w w1" and act: "ActiveSpan g w = Some a" "ActiveSpan g w1 = Some a"
      by (auto simp: holding_def)
    let ?w2 = "w1\<lparr>w_spans := (w_spans w1)[a := NoopSpan n]\<rparr>"
    have E: "SpanEnd e g a w1 = Inr ?w2" using n by (simp add: SpanEnd_def noop_End_def)
    have "wf_world ?w2" using wf_set_span [of w1 "NoopSpan n" a] o by (simp add: old_spans_def)
    then have "old_spans {} w ?w2" using o n True by (auto simp: old_spans_def nth_list_update)
    with E SpanWrapper act gls show ?thesis by (simp add: wrapped_def balanced_old)
  next
    case False
    with assms(2) SpanWrapper have a: "a = length (w_spans w)" "a < length (w_spans w1)" and o: "old_spans {} w w1"
      by (auto simp: holding_def)
    have wf1: "wf_world w1" using o by (simp add: old_spans_def)
    obtain w2 where E: "SpanEnd e g a w1 = Inr w2"
      using assms(2) SpanWrapper False SpanEnd_Inr(1) [of w1 a _ _ _ e g] SpanEnd_Inr(2) [of w1 a _ e g] by (cases "w_spans w1 ! a") (auto simp: holding_def)
    have W: "wf_world w2 \<and> grows w1 w2" using wf_SpanEnd [OF wf1 a(2) E] by blast
    have S: "w_spans w2 ! i = w_spans w1 ! i" "w_gls w2 = w_gls w1" if "i \<noteq> a" for i
      using E that by (auto simp: SpanEnd_def noop_End_def Let_def split: tspan.splits if_splits prod.splits)
    have "old_spans {} w w2" using o W S a by (auto simp: old_spans_def grows_def)
    moreover have "ActiveSpan g w2 = ActiveSpan g w"
      using end_noop_active [OF wf1 _ E] end_open_active [OF wf1 a(2) _ _ _ _ E] assms(2) SpanWrapper False
      by (cases "w_spans w1 ! a") (auto simp: holding_def)
    ultimately show ?thesis using E SpanWrapper gls S(2) [of "Suc a"] by (simp add: wrapped_def balanced_old)
  qed
qed

section \<open>Opening a span\<close>

lemma local_holding:
  assumes "wf_world w" "noop_counted g w" "list_all plugin_opt opts" "CreateLocalSpan e g name opts w = (a, w')"
  shows "holding g w (SpanWrapper a) w'"
  using assms
proof (cases rule: create_local_cases)
  case (nested n)
  then have "a < length (w_spans w)" using wf_active [OF assms(1)] by simp
  with nested assms(1) show ?thesis by (auto simp: holding_def old_spans_def wf_set_span)
next
  case noop
  then show ?thesis by (auto simp: holding_def old_spans_def nth_append)
next
  case (span k ds sx)
  then show ?thesis by (auto simp: holding_def old_spans_def nth_append open_span_def)
qed

definition exit_free :: "nat \<Rightarrow> 'v world \<Rightarrow> bool" where
  "exit_free g w \<longleftrightarrow> (\<forall>p. ActiveSpan g w = Some p \<longrightarrow> \<not> reusable SpanTypeExit (w_spans w ! p))"

definition accepts_headers :: "('c \<Rightarrow> string \<Rightarrow> string \<Rightarrow> 'c \<times> 'x option) \<Rightarrow> bool" where
  "accepts_headers injector \<longleftrightarrow> (\<forall>c k v. snd (injector c k v) = None)"

lemma Encode_accepts: "accepts_headers injector \<Longrightarrow> snd (Encode injector ks sc cr) = None"
  by (auto simp: Encode_def accepts_headers_def split: prod.splits option.splits) (metis snd_conv option.distinct(1))+

definition exit_core :: "string \<Rightarrow> string \<Rightarrow> core_opts" where
  "exit_core name peer = \<lparr>co_ref = None, co_type = SpanTypeExit, co_name = name, co_peer = Some peer\<rparr>"

lemma plugin_fold_core:
  "list_all plugin_opt ms \<Longrightarrow> \<not> ds_ended ds \<Longrightarrow> same_core ds (fold mutate ms ds)"
proof (induction ms arbitrary: ds)
  case (Cons m ms)
  have "same_core ds (mutate m ds)" using plugin_opt_keeps [of m ds] Cons.prems by (simp add: same_core_def)
  with Cons show ?case by (auto simp: same_core_def)
qed (simp add: same_core_refl)

text \<open>
  Opening an exit span where no exit span is active, with an injector that accepts the headers: the world
  in which it is held, and the new span exactly.
\<close>

lemma exit_opened:
  assumes "wf_world w" "noop_counted g w" "list_all plugin_opt opts" "exit_free g w" "accepts_headers injector"
    and "CreateExitSpan e g name peer injector ks opts cr w = (r, cr', w')"
  shows "\<exists>a. r = Inr a \<and> holding g w (SpanWrapper a) w' \<and>
    (a = length (w_spans w) \<longrightarrow> (\<exists>n. w_spans w' ! a = NoopSpan n) \<or> (\<exists>k sx. w_spans w' ! a =
       SegSpan k (fold mutate opts (apply_core_opts (exit_core name peer) (NewDefaultSpan (e_now e) (ActiveSpan g w)))) sx))"
proof -
  obtain ctx sp noop w1 where 1: "createNoop e g name w = ((ctx, sp, noop), w1)" by (metis prod.exhaust)
  note N = wf_createNoop [OF assms(1) 1]
  show ?thesis
  proof (cases noop)
    case True
    have L: "CreateLocalSpan e g name [] w = (the sp, w1)" using 1 True by (simp add: CreateLocalSpan_def)
    have "r = Inr (the sp)" "w' = w1" using assms(6) 1 True by (simp_all add: CreateExitSpan_def)
    moreover have "\<exists>n. w_spans w1 ! the sp = NoopSpan n" if "the sp = length (w_spans w)"
    proof (cases "getTracingContext g w")
      case None
      with 1 True that show ?thesis
        by (auto simp: createNoop_def alloc_span_def newNoopSpan_def log_so11y_def new_context_def split: if_splits)
    next
      case (Some c)
      with 1 True have "sp = ActiveSpan g w" by (auto simp: createNoop_def ActiveSpan_def split: option.splits tspan.splits)
      moreover have "sp \<noteq> None" using N True by simp
      ultimately show ?thesis using that wf_active [OF assms(1), of g "the sp"] by auto
    qed
    ultimately show ?thesis using local_holding [OF assms(1,2) _ L] by auto
  next
    case False
    then obtain c where c: "ctx = Some c" "c < length (w_contexts w1)" "w_gls w g = Some c \<or> w_gls w g = None"
      using N by (cases ctx) auto
    have N': "wf_world w1" "w_gls w1 = w_gls w" "w_spans w1 = w_spans w" "sp = ActiveSpan g w" using N False by auto
    have seg: "as_segment_span (w_spans w1 ! p) \<noteq> None" if "sp = Some p" for p using that N False by auto
    obtain b x w2 where 2: "createSpan0 e c sp opts (exit_core name peer) w1 = ((b, x), w2)" by (metis prod.exhaust)
    have q: "quiet w1 w2" using quiet_createSpan0 [OF N'(1) c(2) _ 2] N by simp
    then have cl: "c < length (w_contexts w2)" using c(2) by (simp add: quiet_def)
    note X = createSpan0_exact [OF N'(1) c(2) _ seg 2]
    have nr: "\<not> (case sp of None \<Rightarrow> False | Some a \<Rightarrow> reusable SpanTypeExit (w_spans w1 ! a))"
      using assms(4) N' by (auto simp: exit_free_def split: option.splits)
    obtain s where s: "b = length (w_spans w)" "w_spans w2 = w_spans w @ [s]"
      and "s = NoopSpan 1 \<and> sp = None \<or> (\<exists>k sx. k \<noteq> SnapshotSpan \<and>
        s = SegSpan k (fold mutate opts (apply_core_opts (exit_core name peer) (NewDefaultSpan (e_now e) sp))) sx)"
      using X N N' by (auto split: if_splits)
    moreover have "r = Inr b \<and> w' = saveSpanToActive g c b w2"
      using assms(5,6) 1 2 False c nr s Encode_accepts [of injector ks]
      by (cases s) (auto simp: CreateExitSpan_def Let_def exit_core_def split: prod.splits option.splits; metis snd_conv option.distinct(1))+
    moreover have "wf_world w'" using wf_CreateExitSpan [OF assms(1,6)] by simp
    moreover have "same_core (apply_core_opts (exit_core name peer) (NewDefaultSpan (e_now e) sp))
       (fold mutate opts (apply_core_opts (exit_core name peer) (NewDefaultSpan (e_now e) sp)))"
      by (rule plugin_fold_core [OF assms(3)]) simp
    ultimately show ?thesis using c cl N'
      by (auto simp: holding_def old_spans_def nth_append open_span_def same_core_def)
  qed
qed

section \<open>The discipline\<close>

text \<open>
  What an interceptor uses: a relation of states that a finished piece of the program keeps, the states
  in which a span is held, the writes to it, and its end.
\<close>

locale span_discipline =
  fixes ok :: "'s \<Rightarrow> bool" and kept :: "'s \<Rightarrow> 's \<Rightarrow> bool" and held_in :: "'s \<Rightarrow> 'h \<Rightarrow> 's \<Rightarrow> bool"
    and note_on :: "'m \<Rightarrow> 'h \<Rightarrow> 's \<Rightarrow> string + 's" and finish :: "'h \<Rightarrow> 's \<Rightarrow> string + 's" and allowed :: "'m \<Rightarrow> bool"
  assumes held_kept: "held_in s h s1 \<Longrightarrow> kept s1 s2 \<Longrightarrow> held_in s h s2"
    and held_write: "held_in s h s1 \<Longrightarrow> allowed m \<Longrightarrow> \<exists>s2. note_on m h s1 = Inr s2 \<and> held_in s h s2"
    and held_finish: "ok s \<Longrightarrow> held_in s h s1 \<Longrightarrow> \<exists>s2. finish h s1 = Inr s2 \<and> kept s s2"
begin

text \<open>Writing to the span any number of times, then ending it.\<close>

fun writes :: "'m list \<Rightarrow> 'h \<Rightarrow> 's \<Rightarrow> string + 's" where
  "writes [] h s = Inr s"
| "writes (m # ms) h s = (case note_on m h s of Inl p \<Rightarrow> Inl p | Inr s1 \<Rightarrow> writes ms h s1)"

lemma held_writes: "held_in s h s1 \<Longrightarrow> list_all allowed ms \<Longrightarrow> \<exists>s2. writes ms h s1 = Inr s2 \<and> held_in s h s2"
proof (induction ms arbitrary: s1)
  case (Cons m ms)
  then obtain s2 where "note_on m h s1 = Inr s2" "held_in s h s2" using held_write by fastforce
  with Cons show ?case by simp
qed simp

lemma written_and_ended:
  assumes "ok s" "held_in s h s1" "kept s1 s2" "list_all allowed ms" "writes ms h s2 = r"
  shows "\<exists>s3 s4. r = Inr s3 \<and> finish h s3 = Inr s4 \<and> kept s s4"
  using held_writes [OF held_kept [OF assms(2,3)] assms(4)] held_finish [OF assms(1)] assms(5) by fastforce

end

interpretation spans: span_discipline wf_world "balanced g" "holding g" "\<lambda>m. wrapped (span_set m)" "wrapped (SpanEnd e g)" setter
  for g :: nat and e :: env
  by unfold_locales (auto intro: holding_balanced holding_set holding_end)

end
