(* ===== verification/Sql_Plugin.thy ===== *)
theory Sql_Plugin
  imports Facade Interceptor Db_Peer
begin

text \<open>
  The interceptors of database/sql (plugins/sql/entry, plugins/sql/mysql, plugins/sql/pgxstdlib): a call
  on a database, connection, transaction or statement becomes a span that names the database, and what the
  call returns inherits the description of the database.

  The state is the world of Tracing and the dynamic field the agent adds to each instance, by address.
  Values of the runtime context are those the plugin stores.  A nil instance, span, context or value is
  None or SNil.  An interceptor function ends as in Interceptor: it returns, returns an error or panics;
  a panic is an index out of range, a call on a nil interface or a panic of the span.
\<close>

section \<open>State\<close>

record db_info =
  DBType :: string
  ComponentID :: i32
  Peer :: string

datatype dynamic_field = DInfo db_info | DOther

datatype sql_kind = KDB | KConn | KTx | KStmt

datatype sql_value = SNil | SObj sql_kind nat | SErr string | SOther string

datatype rt_value = RTrue | RInfo db_info | RAny

record sql_state =
  sq_world :: "rt_value world"
  sq_field :: "nat \<Rightarrow> dynamic_field option"

datatype sql_context = CtxSpan api_span | CtxInfo db_info api_span

text \<open>
  What a call finds: whether the agent is installed, the goroutine, the option that collects parameters,
  the print of a parameter by fmt, and the order of the correlation map.
\<close>

record sql_site =
  at_installed :: bool
  at_goroutine :: nat
  at_collect :: bool
  at_print :: "sql_value \<Rightarrow> string"
  at_keys :: "string list"

record sql_args =
  sa_query :: string
  sa_params :: "sql_value list"

section \<open>Spans\<close>

definition getInstanceInfo :: "nat option \<Rightarrow> sql_state \<Rightarrow> db_info option" where
  "getInstanceInfo caller s =
     (case caller of
        None \<Rightarrow> None
      | Some a \<Rightarrow> (case sq_field s a of Some (DInfo i) \<Rightarrow> Some i | _ \<Rightarrow> None))"

definition db_opts :: "db_info \<Rightarrow> mutation list" where
  "db_opts i = [WithComponent (ComponentID i), WithLayer 1, WithTag ''db.type'' (DBType i)]"

definition createExitSpan ::
    "sql_site \<Rightarrow> env \<Rightarrow> nat option \<Rightarrow> string \<Rightarrow> mutation list \<Rightarrow> sql_state \<Rightarrow> (string api_error, api_span option) result \<times> sql_state" where
  "createExitSpan t e caller name opts s =
     (case getInstanceInfo caller s of
        None \<Rightarrow> (Ok None, s)
      | Some i \<Rightarrow>
          (case api_CreateExitSpan (at_installed t) e (at_goroutine t) (DBType i @ ''/'' @ name) (Peer i)
                  (Some (\<lambda>(c :: unit) k v. (c, None))) (at_keys t) (opts @ db_opts i) () (sq_world s) of
             (Err x, _, w) \<Rightarrow> (Err x, s\<lparr>sq_world := w\<rparr>)
           | (Ok sp, _, w) \<Rightarrow> (Ok (Some sp), s\<lparr>sq_world := w\<rparr>)))"

definition createLocalSpan ::
    "sql_site \<Rightarrow> env \<Rightarrow> nat option \<Rightarrow> string \<Rightarrow> mutation list \<Rightarrow> sql_state \<Rightarrow>
     (string api_error, (api_span \<times> db_info) option) result \<times> sql_state" where
  "createLocalSpan t e caller name opts s =
     (case getInstanceInfo caller s of
        None \<Rightarrow> (Ok None, s)
      | Some i \<Rightarrow>
          (case api_CreateLocalSpan (at_installed t) e (at_goroutine t) (DBType i @ ''/'' @ name) (opts @ db_opts i) (sq_world s) of
             (Err x, w) \<Rightarrow> (Err x, s\<lparr>sq_world := w\<rparr>)
           | (Ok sp, w) \<Rightarrow> (Ok (Some (sp, i)), s\<lparr>sq_world := w\<rparr>)))"

text \<open>The parameters of a statement as one text.\<close>

fun append_params :: "(sql_value \<Rightarrow> string) \<Rightarrow> sql_value list \<Rightarrow> string \<Rightarrow> string" where
  "append_params print [] res = res"
| "append_params print (x # xs) res = append_params print xs (res @ '', '' @ print x)"

definition argsToString :: "(sql_value \<Rightarrow> string) \<Rightarrow> sql_value list \<Rightarrow> string" where
  "argsToString print xs =
     (case xs of [] \<Rightarrow> [] | [x] \<Rightarrow> print x | x # ys \<Rightarrow> append_params print ys (print x))"

section \<open>Before and after a call\<close>

type_synonym before_end = "(sql_context option \<times> inter_end) \<times> sql_state"

text \<open>Calls that become an exit span; with params, those of the call are collected.\<close>

definition exit_before :: "string \<Rightarrow> mutation list \<Rightarrow> bool \<Rightarrow> sql_site \<Rightarrow> env \<Rightarrow> nat option \<Rightarrow> sql_args \<Rightarrow> sql_state \<Rightarrow> before_end" where
  "exit_before name opts params t e caller args s =
     (case createExitSpan t e caller name opts s of
        (Err x, s1) \<Rightarrow> ((None, IError), s1)
      | (Ok sp, s1) \<Rightarrow>
          (if params \<and> at_collect t \<and> sa_params args \<noteq> []
           then (case sp of
                   None \<Rightarrow> ((None, IPanic), s1)
                 | Some x \<Rightarrow>
                     (case api_Tag ''db.sql.parameters'' (argsToString (at_print t) (sa_params args)) x (sq_world s1) of
                        Err p \<Rightarrow> ((None, IPanic), s1)
                      | Ok w \<Rightarrow> ((Some (CtxSpan x), IReturn), s1\<lparr>sq_world := w\<rparr>)))
           else ((map_option CtxSpan sp, IReturn), s1)))"

definition GeneralExecBeforeInvoke :: "string \<Rightarrow> sql_site \<Rightarrow> env \<Rightarrow> nat option \<Rightarrow> sql_args \<Rightarrow> sql_state \<Rightarrow> before_end" where
  "GeneralExecBeforeInvoke name t e caller args = exit_before name [WithTag ''db.statement'' (sa_query args)] True t e caller args"

definition GeneralQueryBeforeInvoke :: "string \<Rightarrow> sql_site \<Rightarrow> env \<Rightarrow> nat option \<Rightarrow> sql_args \<Rightarrow> sql_state \<Rightarrow> before_end" where
  "GeneralQueryBeforeInvoke name t e caller args = exit_before name [WithTag ''db.statement'' (sa_query args)] True t e caller args"

definition GeneralPingBeforeInvoke :: "string \<Rightarrow> sql_site \<Rightarrow> env \<Rightarrow> nat option \<Rightarrow> sql_args \<Rightarrow> sql_state \<Rightarrow> before_end" where
  "GeneralPingBeforeInvoke name = exit_before name [] False"

definition GeneralRawBeforeInvoke :: "string \<Rightarrow> sql_site \<Rightarrow> env \<Rightarrow> nat option \<Rightarrow> sql_args \<Rightarrow> sql_state \<Rightarrow> before_end" where
  "GeneralRawBeforeInvoke name = exit_before name [] False"

text \<open>Calls that become a local span, and keep the description of the database for what they return.\<close>

definition local_before :: "string \<Rightarrow> mutation list \<Rightarrow> sql_site \<Rightarrow> env \<Rightarrow> nat option \<Rightarrow> sql_state \<Rightarrow> before_end" where
  "local_before name opts t e caller s =
     (case createLocalSpan t e caller name opts s of
        (Err x, s1) \<Rightarrow> ((None, IError), s1)
      | (Ok None, s1) \<Rightarrow> ((None, IReturn), s1)
      | (Ok (Some (sp, i)), s1) \<Rightarrow> ((Some (CtxInfo i sp), IReturn), s1))"

definition GeneralPrepareBeforeInvoke :: "string \<Rightarrow> sql_site \<Rightarrow> env \<Rightarrow> nat option \<Rightarrow> sql_args \<Rightarrow> sql_state \<Rightarrow> before_end" where
  "GeneralPrepareBeforeInvoke name t e caller args = local_before name [WithTag ''db.statement'' (sa_query args)] t e caller"

definition GeneralBeginTxBeforeInvoke :: "string \<Rightarrow> sql_site \<Rightarrow> env \<Rightarrow> nat option \<Rightarrow> sql_args \<Rightarrow> sql_state \<Rightarrow> before_end" where
  "GeneralBeginTxBeforeInvoke name t e caller args = local_before name [] t e caller"

text \<open>
  The end of the span, with the error at a position of the results; a position the results do not have
  panics before the span is ended.
\<close>

definition ctx_span :: "sql_context \<Rightarrow> api_span" where
  "ctx_span c = (case c of CtxSpan sp \<Rightarrow> sp | CtxInfo i sp \<Rightarrow> sp)"

definition finish_span :: "nat \<Rightarrow> sql_site \<Rightarrow> env \<Rightarrow> sql_context \<Rightarrow> sql_value list \<Rightarrow> sql_state \<Rightarrow> inter_end \<times> sql_state" where
  "finish_span i t e c results s =
     (if length results \<le> i then (IPanic, s)
      else (case (case results ! i of SErr m \<Rightarrow> api_Error (e_now e) [m] (ctx_span c) (sq_world s) | _ \<Rightarrow> Ok (sq_world s)) of
              Err p \<Rightarrow> (IPanic, s)
            | Ok w \<Rightarrow>
                (case api_End e (at_goroutine t) (ctx_span c) w of
                   Err p \<Rightarrow> (IPanic, s\<lparr>sq_world := w\<rparr>)
                 | Ok w1 \<Rightarrow> (IReturn, s\<lparr>sq_world := w1\<rparr>))))"

definition exit_after :: "nat \<Rightarrow> sql_site \<Rightarrow> env \<Rightarrow> sql_context option \<Rightarrow> sql_value list \<Rightarrow> sql_state \<Rightarrow> inter_end \<times> sql_state" where
  "exit_after i t e ctx results s = (case ctx of None \<Rightarrow> (IReturn, s) | Some c \<Rightarrow> finish_span i t e c results s)"

definition GeneralExecAfterInvoke :: "sql_site \<Rightarrow> env \<Rightarrow> sql_context option \<Rightarrow> sql_value list \<Rightarrow> sql_state \<Rightarrow> inter_end \<times> sql_state" where
  "GeneralExecAfterInvoke = exit_after 1"

definition GeneralQueryAfterInvoke :: "sql_site \<Rightarrow> env \<Rightarrow> sql_context option \<Rightarrow> sql_value list \<Rightarrow> sql_state \<Rightarrow> inter_end \<times> sql_state" where
  "GeneralQueryAfterInvoke = exit_after 1"

definition GeneralPingAfterInvoke :: "sql_site \<Rightarrow> env \<Rightarrow> sql_context option \<Rightarrow> sql_value list \<Rightarrow> sql_state \<Rightarrow> inter_end \<times> sql_state" where
  "GeneralPingAfterInvoke = exit_after 0"

definition GeneralRawAfterInvoke :: "sql_site \<Rightarrow> env \<Rightarrow> sql_context option \<Rightarrow> sql_value list \<Rightarrow> sql_state \<Rightarrow> inter_end \<times> sql_state" where
  "GeneralRawAfterInvoke = exit_after 1"

text \<open>What the call returns inherits the description, when it is a value of the kind asked for.\<close>

definition set_field :: "nat \<Rightarrow> dynamic_field option \<Rightarrow> sql_state \<Rightarrow> sql_state" where
  "set_field a d s = s\<lparr>sq_field := (sq_field s)(a := d)\<rparr>"

definition inherit :: "sql_kind \<Rightarrow> dynamic_field option \<Rightarrow> sql_value \<Rightarrow> sql_state \<Rightarrow> sql_state" where
  "inherit kind d r s = (case r of SObj k a \<Rightarrow> (if k = kind then set_field a d s else s) | _ \<Rightarrow> s)"

definition local_after :: "sql_kind \<Rightarrow> sql_site \<Rightarrow> env \<Rightarrow> sql_context option \<Rightarrow> sql_value list \<Rightarrow> sql_state \<Rightarrow> inter_end \<times> sql_state" where
  "local_after kind t e ctx results s =
     (case ctx of
        Some (CtxInfo i sp) \<Rightarrow>
          (case finish_span 1 t e (CtxInfo i sp) results s of
             (IReturn, s1) \<Rightarrow> (IReturn, inherit kind (Some (DInfo i)) (results ! 0) s1)
           | (x, s1) \<Rightarrow> (x, s1))
      | Some (CtxSpan sp) \<Rightarrow> (IPanic, s)
      | None \<Rightarrow> (IReturn, s))"

definition GeneralPrepareAfterInvoke :: "sql_site \<Rightarrow> env \<Rightarrow> sql_context option \<Rightarrow> sql_value list \<Rightarrow> sql_state \<Rightarrow> inter_end \<times> sql_state" where
  "GeneralPrepareAfterInvoke = local_after KStmt"

definition GeneralBeginTxAfterInvoke :: "sql_site \<Rightarrow> env \<Rightarrow> sql_context option \<Rightarrow> sql_value list \<Rightarrow> sql_state \<Rightarrow> inter_end \<times> sql_state" where
  "GeneralBeginTxAfterInvoke = local_after KTx"

section \<open>The interceptors\<close>

record sql_interceptor =
  si_before :: "sql_site \<Rightarrow> env \<Rightarrow> nat option \<Rightarrow> sql_args \<Rightarrow> sql_state \<Rightarrow> before_end"
  si_after :: "sql_site \<Rightarrow> env \<Rightarrow> nat option \<Rightarrow> sql_context option \<Rightarrow> sql_value list \<Rightarrow> sql_state \<Rightarrow> inter_end \<times> sql_state"

definition PingInterceptor :: sql_interceptor where
  "PingInterceptor = \<lparr>si_before = GeneralPingBeforeInvoke ''Ping'', si_after = (\<lambda>t e c. GeneralPingAfterInvoke t e)\<rparr>"

definition ConnPingInterceptor :: sql_interceptor where
  "ConnPingInterceptor = \<lparr>si_before = GeneralPingBeforeInvoke ''Conn/Ping'', si_after = (\<lambda>t e c. GeneralPingAfterInvoke t e)\<rparr>"

definition ExecInterceptor :: sql_interceptor where
  "ExecInterceptor = \<lparr>si_before = GeneralExecBeforeInvoke ''Exec'', si_after = (\<lambda>t e c. GeneralExecAfterInvoke t e)\<rparr>"

definition ConnExecInterceptor :: sql_interceptor where
  "ConnExecInterceptor = \<lparr>si_before = GeneralExecBeforeInvoke ''Conn/Exec'', si_after = (\<lambda>t e c. GeneralExecAfterInvoke t e)\<rparr>"

definition QueryInterceptor :: sql_interceptor where
  "QueryInterceptor = \<lparr>si_before = GeneralQueryBeforeInvoke ''Query'', si_after = (\<lambda>t e c. GeneralQueryAfterInvoke t e)\<rparr>"

definition ConnQueryInterceptor :: sql_interceptor where
  "ConnQueryInterceptor = \<lparr>si_before = GeneralQueryBeforeInvoke ''Conn/Query'', si_after = (\<lambda>t e c. GeneralQueryAfterInvoke t e)\<rparr>"

definition ConnRawInterceptor :: sql_interceptor where
  "ConnRawInterceptor = \<lparr>si_before = GeneralRawBeforeInvoke ''Conn/Raw'', si_after = (\<lambda>t e c. GeneralRawAfterInvoke t e)\<rparr>"

definition PrepareInterceptor :: sql_interceptor where
  "PrepareInterceptor = \<lparr>si_before = GeneralPrepareBeforeInvoke ''Prepare'', si_after = (\<lambda>t e c. GeneralPrepareAfterInvoke t e)\<rparr>"

definition ConnPrepareInterceptor :: sql_interceptor where
  "ConnPrepareInterceptor = \<lparr>si_before = GeneralPrepareBeforeInvoke ''Conn/Prepare'', si_after = (\<lambda>t e c. GeneralPrepareAfterInvoke t e)\<rparr>"

definition TxPrepareInterceptor :: sql_interceptor where
  "TxPrepareInterceptor = \<lparr>si_before = GeneralPrepareBeforeInvoke ''Tx/Prepare'', si_after = (\<lambda>t e c. GeneralPrepareAfterInvoke t e)\<rparr>"

definition BeginTXInterceptor :: sql_interceptor where
  "BeginTXInterceptor = \<lparr>si_before = GeneralBeginTxBeforeInvoke ''BeginTx'', si_after = (\<lambda>t e c. GeneralBeginTxAfterInvoke t e)\<rparr>"

definition ConnBeginTXInterceptor :: sql_interceptor where
  "ConnBeginTXInterceptor = \<lparr>si_before = GeneralBeginTxBeforeInvoke ''Conn/BeginTx'', si_after = (\<lambda>t e c. GeneralBeginTxAfterInvoke t e)\<rparr>"

definition ConnInterceptor :: sql_interceptor where
  "ConnInterceptor = \<lparr>si_before = (\<lambda>t e c args. local_before ''Conn'' [] t e c), si_after = (\<lambda>t e c. local_after KConn t e)\<rparr>"

definition TxCommitInterceptor :: sql_interceptor where
  "TxCommitInterceptor = \<lparr>si_before = exit_before ''Tx/Commit'' [] False, si_after = (\<lambda>t e c. exit_after 0 t e)\<rparr>"

definition TxRollbackInterceptor :: sql_interceptor where
  "TxRollbackInterceptor = \<lparr>si_before = exit_before ''Tx/Rollback'' [] False, si_after = (\<lambda>t e c. exit_after 0 t e)\<rparr>"

definition TxExecInterceptor :: sql_interceptor where
  "TxExecInterceptor = \<lparr>si_before = (\<lambda>t e c args. exit_before ''Tx/Exec'' [WithTag ''db.statement'' (sa_query args)] True t e c args),
     si_after = (\<lambda>t e c. exit_after 1 t e)\<rparr>"

definition TxQueryInterceptor :: sql_interceptor where
  "TxQueryInterceptor = \<lparr>si_before = (\<lambda>t e c args. exit_before ''Tx/Query'' [WithTag ''db.statement'' (sa_query args)] True t e c args),
     si_after = (\<lambda>t e c. exit_after 1 t e)\<rparr>"

definition StmtExecInterceptor :: sql_interceptor where
  "StmtExecInterceptor = \<lparr>si_before = exit_before ''Stmt/Exec'' [] True, si_after = (\<lambda>t e c. exit_after 1 t e)\<rparr>"

definition StmtQueryInterceptor :: sql_interceptor where
  "StmtQueryInterceptor = \<lparr>si_before = exit_before ''Stmt/Query'' [] True, si_after = (\<lambda>t e c. exit_after 1 t e)\<rparr>"

definition TxStmtInterceptor :: sql_interceptor where
  "TxStmtInterceptor = \<lparr>si_before = (\<lambda>t e c args s. ((None, IReturn), s)),
     si_after = (\<lambda>t e c ctx results s.
       if results = [] then (IPanic, s) else (IReturn, inherit KStmt (map_option DInfo (getInstanceInfo c s)) (results ! 0) s))\<rparr>"

text \<open>Opening a database: the driver's interceptor leaves the description in the runtime context.\<close>

definition set_runtime_value :: "sql_site \<Rightarrow> env \<Rightarrow> string \<Rightarrow> rt_value option \<Rightarrow> sql_state \<Rightarrow> sql_state" where
  "set_runtime_value t e key v s =
     s\<lparr>sq_world := api_SetRuntimeContextValue (at_installed t) e (at_goroutine t) key v (sq_world s)\<rparr>"

definition get_runtime_value :: "sql_site \<Rightarrow> string \<Rightarrow> sql_state \<Rightarrow> rt_value option" where
  "get_runtime_value t key s = api_GetRuntimeContextValue (at_installed t) (at_goroutine t) key (sq_world s)"

definition InstanceInterceptor :: sql_interceptor where
  "InstanceInterceptor = \<lparr>si_before = (\<lambda>t e c args s. ((None, IReturn), set_runtime_value t e ''needInfo'' (Some RTrue) s)),
     si_after = (\<lambda>t e c ctx results s.
       (let s1 = set_runtime_value t e ''needInfo'' None s;
            v = get_runtime_value t ''info'' s1;
            s2 = set_runtime_value t e ''info'' None (set_runtime_value t e ''needInfo'' None s1)
        in case v of
             Some (RInfo i) \<Rightarrow>
               (if results = [] then (IPanic, s2) else (IReturn, inherit KDB (Some (DInfo i)) (results ! 0) s2))
           | _ \<Rightarrow> (IReturn, s2)))\<rparr>"

text \<open>ParseDSN of the MySQL driver, with the address of the configuration it returned.\<close>

definition mysql_info :: "string \<Rightarrow> db_info" where
  "mysql_info addr = \<lparr>DBType = ''Mysql'', ComponentID = 5012, Peer = addr\<rparr>"

definition ParseInterceptor_AfterInvoke :: "sql_site \<Rightarrow> env \<Rightarrow> string option \<Rightarrow> sql_state \<Rightarrow> inter_end \<times> sql_state" where
  "ParseInterceptor_AfterInvoke t e addr s =
     (case addr of
        None \<Rightarrow> (IReturn, s)
      | Some x \<Rightarrow>
          (if get_runtime_value t ''needInfo'' s = Some RTrue
           then (IReturn, set_runtime_value t e ''info'' (Some (RInfo (mysql_info x))) s) else (IReturn, s)))"

text \<open>OpenConnector of pgx; its configuration is what pgx.ParseConfig makes of the first argument.\<close>

record ConnConfig =
  cc_address :: PostgreSQLAddress
  cc_Fallbacks :: "PostgreSQLAddress option list"

definition buildPeerAddress :: "ConnConfig option \<Rightarrow> string option" where
  "buildPeerAddress cfg =
     (case cfg of None \<Rightarrow> Some [] | Some c \<Rightarrow> BuildPostgreSQLPeer (cc_address c) (map the (filter (\<lambda>f. f \<noteq> None) (cc_Fallbacks c))))"

definition buildDBInfoFromConnConfig :: "ConnConfig option \<Rightarrow> db_info option option" where
  "buildDBInfoFromConnConfig cfg =
     (case cfg of
        None \<Rightarrow> Some None
      | Some c \<Rightarrow>
          map_option (\<lambda>peer. if peer = [] then None
             else Some \<lparr>DBType = ''PostgreSQL'', ComponentID = 22, Peer = peer\<rparr>) (buildPeerAddress cfg))"

definition OpenConnector_AfterInvoke ::
    "(string \<Rightarrow> ConnConfig option) \<Rightarrow> sql_site \<Rightarrow> env \<Rightarrow> string list \<Rightarrow> sql_state \<Rightarrow> inter_end \<times> sql_state" where
  "OpenConnector_AfterInvoke ParseConfig t e args s =
     (if get_runtime_value t ''needInfo'' s \<noteq> Some RTrue then (IReturn, s)
      else (case args of
              [] \<Rightarrow> (IReturn, s)
            | name # _ \<Rightarrow>
                (if name = [] then (IReturn, s)
                 else (case buildDBInfoFromConnConfig (ParseConfig name) of
                         None \<Rightarrow> (IPanic, s)
                       | Some None \<Rightarrow> (IReturn, s)
                       | Some (Some i) \<Rightarrow> (IReturn, set_runtime_value t e ''info'' (Some (RInfo i)) s)))))"

section \<open>An intercepted call\<close>

text \<open>
  The adapters of Interceptor run the second function whatever the first did, and keep a panic of either
  away from the caller.
\<close>

definition sql_call ::
    "sql_interceptor \<Rightarrow> sql_site \<Rightarrow> env \<Rightarrow> env \<Rightarrow> nat option \<Rightarrow> sql_args \<Rightarrow>
     (sql_state \<Rightarrow> sql_value list \<times> sql_state) \<Rightarrow> sql_state \<Rightarrow> sql_value list \<times> sql_state" where
  "sql_call ic t e e' caller args body s =
     (let ((ctx, _), s1) = si_before ic t e caller args s;
          (results, s2) = body s1;
          (_, s3) = si_after ic t e' caller ctx results s2
      in (results, s3))"

section \<open>The intercepted methods\<close>

text \<open>
  The points of the plugin: the receiver, the method, the number of its results, and the interceptor.
  Open is a function.
\<close>

definition sql_points :: "(string \<times> string \<times> nat \<times> sql_interceptor) list" where
  "sql_points =
     [([], ''Open'', 2, InstanceInterceptor),
      (''*DB'', ''PingContext'', 1, PingInterceptor),
      (''*DB'', ''PrepareContext'', 2, PrepareInterceptor),
      (''*DB'', ''ExecContext'', 2, ExecInterceptor),
      (''*DB'', ''QueryContext'', 2, QueryInterceptor),
      (''*DB'', ''BeginTx'', 2, BeginTXInterceptor),
      (''*DB'', ''Conn'', 2, ConnInterceptor),
      (''*Conn'', ''PingContext'', 1, ConnPingInterceptor),
      (''*Conn'', ''ExecContext'', 2, ConnExecInterceptor),
      (''*Conn'', ''QueryContext'', 2, ConnQueryInterceptor),
      (''*Conn'', ''PrepareContext'', 2, ConnPrepareInterceptor),
      (''*Conn'', ''Raw'', 1, ConnRawInterceptor),
      (''*Conn'', ''BeginTx'', 2, ConnBeginTXInterceptor),
      (''*Tx'', ''Commit'', 1, TxCommitInterceptor),
      (''*Tx'', ''Rollback'', 1, TxRollbackInterceptor),
      (''*Tx'', ''PrepareContext'', 2, TxPrepareInterceptor),
      (''*Tx'', ''StmtContext'', 1, TxStmtInterceptor),
      (''*Tx'', ''ExecContext'', 2, TxExecInterceptor),
      (''*Tx'', ''QueryContext'', 2, TxQueryInterceptor),
      (''*Stmt'', ''ExecContext'', 2, StmtExecInterceptor),
      (''*Stmt'', ''QueryContext'', 2, StmtQueryInterceptor)]"

end
