(* ===== verification/Sql_Props.thy ===== *)
theory Sql_Props
  imports Sql_Plugin Span_Calls
begin

text \<open>
  What the interceptors of database/sql do: every intercepted call but one opens at most one span and
  ends it, the span tells the statement and the error, the description of the database reaches
  everything that is obtained from it, and where the code goes wrong.
\<close>

section \<open>Calls that end their span\<close>

definition sql_ready :: "nat \<Rightarrow> sql_state \<Rightarrow> bool" where
  "sql_ready g s \<longleftrightarrow> wf_world (sq_world s) \<and> noop_counted g (sq_world s) \<and> exit_free g (sq_world s)"

lemma db_opts_plugin [simp]: "list_all plugin_opt (db_opts i)"
  by (simp add: db_opts_def WithComponent_def WithLayer_def WithTag_def)

lemma accepts_headers_all [simp]: "accepts_headers (\<lambda>c k v. (c, None))"
  by (simp add: accepts_headers_def)

lemma holding_noop: "wf_world w \<Longrightarrow> holding g w ApiNoop w"
  by (simp add: holding_def old_spans_def)

lemma createExitSpan_holding:
  assumes "sql_ready (at_goroutine t) s" "list_all plugin_opt opts" "createExitSpan t e caller name opts s = (r, s1)"
  shows "sq_field s1 = sq_field s \<and>
    (case r of Inr (Some sp) \<Rightarrow> holding (at_goroutine t) (sq_world s) sp (sq_world s1) | _ \<Rightarrow> sq_world s1 = sq_world s)"
proof (cases "getInstanceInfo caller s")
  case None
  with assms(3) show ?thesis by (auto simp: createExitSpan_def)
next
  case (Some i)
  let ?g = "at_goroutine t"
  note ready = assms(1) [unfolded sql_ready_def]
  obtain r' c' w' where c: "CreateExitSpan e ?g (DBType i @ ''/'' @ name) (Peer i) (\<lambda>(c :: unit) k v. (c, None :: string option))
      (at_keys t) (opts @ db_opts i) () (sq_world s) = (r', c', w')" by (metis prod.exhaust)
  have "list_all plugin_opt (opts @ db_opts i)" using assms(2) by simp
  from exit_opened [OF _ _ this _ _ c] ready obtain a where
    "r' = Inr a" "holding ?g (sq_world s) (SpanWrapper a) w'" by (auto simp: accepts_headers_def)
  with assms(3) Some c ready show ?thesis
    by (auto simp: createExitSpan_def api_CreateExitSpan_def holding_noop split: if_splits)
qed

lemma createLocalSpan_holding:
  assumes "sql_ready (at_goroutine t) s" "list_all plugin_opt opts" "createLocalSpan t e caller name opts s = (r, s1)"
  shows "sq_field s1 = sq_field s \<and>
    (case getInstanceInfo caller s of
       None \<Rightarrow> r = Inr None \<and> s1 = s
     | Some i \<Rightarrow> (\<exists>sp. r = Inr (Some (sp, i)) \<and> holding (at_goroutine t) (sq_world s) sp (sq_world s1)))"
proof (cases "getInstanceInfo caller s")
  case None
  with assms(3) show ?thesis by (auto simp: createLocalSpan_def)
next
  case (Some i)
  let ?g = "at_goroutine t"
  note ready = assms(1) [unfolded sql_ready_def]
  obtain a w' where c: "CreateLocalSpan e ?g (DBType i @ ''/'' @ name) (opts @ db_opts i) (sq_world s) = (a, w')" by fastforce
  from local_holding [OF _ _ _ c] ready assms(2) have "holding ?g (sq_world s) (SpanWrapper a) w'" by simp
  with assms(3) Some c ready show ?thesis
    by (auto simp: createLocalSpan_def api_CreateLocalSpan_def holding_noop split: if_splits)
qed

text \<open>The context after the first function: a held span, or none and the world as it was.\<close>

definition before_ok :: "nat \<Rightarrow> sql_state \<Rightarrow> sql_context option \<Rightarrow> sql_state \<Rightarrow> bool" where
  "before_ok g s ctx s1 \<longleftrightarrow> sq_field s1 = sq_field s \<and>
     (case ctx of None \<Rightarrow> sq_world s1 = sq_world s | Some c \<Rightarrow> holding g (sq_world s) (ctx_span c) (sq_world s1))"

lemma exit_before_ok:
  assumes "sql_ready (at_goroutine t) s" "list_all plugin_opt opts" "exit_before name opts params t e caller args s = ((ctx, x), s1)"
  shows "before_ok (at_goroutine t) s ctx s1 \<and> (\<forall>c. ctx = Some c \<longrightarrow> (\<exists>sp. c = CtxSpan sp))"
proof -
  obtain r s2 where c: "createExitSpan t e caller name opts s = (r, s2)" by fastforce
  note H = createExitSpan_holding [OF assms(1,2) c]
  show ?thesis
  proof (cases r)
    case (Inl p)
    with assms(3) c H show ?thesis by (auto simp: exit_before_def before_ok_def)
  next
    case (Inr sp)
    show ?thesis
    proof (cases sp)
      case None
      with assms(3) c H Inr show ?thesis by (auto simp: exit_before_def before_ok_def split: if_splits)
    next
      case (Some x)
      have "holding (at_goroutine t) (sq_world s) x (sq_world s2)" using H Inr Some by simp
      from holding_set [OF this, of "MTag ''db.sql.parameters'' (argsToString (at_print t) (sa_params args))"]
      obtain w where "api_Tag ''db.sql.parameters'' (argsToString (at_print t) (sa_params args)) x (sq_world s2) = Inr w"
        "holding (at_goroutine t) (sq_world s) x w" by (auto simp: api_Tag_def)
      with assms(3) c H Inr Some show ?thesis by (auto simp: exit_before_def before_ok_def ctx_span_def split: if_splits)
    qed
  qed
qed

lemma local_before_ok:
  assumes "sql_ready (at_goroutine t) s" "list_all plugin_opt opts" "local_before name opts t e caller s = ((ctx, x), s1)"
  shows "before_ok (at_goroutine t) s ctx s1 \<and>
    (case getInstanceInfo caller s of None \<Rightarrow> ctx = None | Some i \<Rightarrow> \<exists>sp. ctx = Some (CtxInfo i sp))"
proof -
  obtain r s2 where c: "createLocalSpan t e caller name opts s = (r, s2)" by fastforce
  from createLocalSpan_holding [OF assms(1,2) c] assms(3) c show ?thesis
    by (cases "getInstanceInfo caller s") (auto simp: local_before_def before_ok_def ctx_span_def)
qed

lemma finish_span_balanced:
  assumes "wf_world w" "holding (at_goroutine t) w (ctx_span c) (sq_world s)" "i < length results"
  shows "\<exists>s'. finish_span i t e c results s = (IReturn, s') \<and> balanced (at_goroutine t) w (sq_world s') \<and> sq_field s' = sq_field s"
proof -
  let ?ms = "case results ! i of SErr m \<Rightarrow> [MError (e_now e) [m]] | _ \<Rightarrow> []"
  have "balanced (at_goroutine t) (sq_world s) (sq_world s)" using holding_wf [OF assms(2)] by (rule balanced_refl)
  from spans.written_and_ended [OF assms(1,2) this, of ?ms _ e] obtain w1 w2 where
    "spans.writes ?ms (ctx_span c) (sq_world s) = Inr w1" "wrapped (SpanEnd e (at_goroutine t)) (ctx_span c) w1 = Inr w2"
    "balanced (at_goroutine t) w w2" by (fastforce split: sql_value.splits)
  with assms(3) show ?thesis
    by (cases "results ! i") (auto simp: finish_span_def api_Error_def api_End_def split: sum.splits)
qed

definition sql_kept :: "nat \<Rightarrow> sql_state \<Rightarrow> sql_state \<Rightarrow> bool" where
  "sql_kept g s s' \<longleftrightarrow> balanced g (sq_world s) (sq_world s')"

text \<open>A held span outlives the body of the call.\<close>

lemma body_keeps:
  assumes "before_ok g s ctx s1" "sql_kept g s1 s2" "wf_world (sq_world s)"
  shows "case ctx of None \<Rightarrow> sql_kept g s s2 | Some c \<Rightarrow> holding g (sq_world s) (ctx_span c) (sq_world s2)"
  using assms holding_balanced by (auto simp: before_ok_def sql_kept_def split: option.splits)

lemma exit_call_kept:
  assumes "sql_ready (at_goroutine t) s" "list_all plugin_opt opts" "exit_before name opts params t e caller args s = ((ctx, x), s1)"
    and "sql_kept (at_goroutine t) s1 s2" "exit_after i t e' ctx results s2 = (y, s3)" "i < length results"
  shows "sql_kept (at_goroutine t) s s3 \<and> y = IReturn"
proof (cases ctx)
  case None
  with body_keeps [OF _ assms(4), of s None] exit_before_ok [OF assms(1-3)] assms(1,5) show ?thesis
    by (auto simp: exit_after_def sql_ready_def)
next
  case (Some c)
  have wf: "wf_world (sq_world s)" using assms(1) by (simp add: sql_ready_def)
  have "holding (at_goroutine t) (sq_world s) (ctx_span c) (sq_world s2)"
    using body_keeps [OF _ assms(4) wf, of ctx] exit_before_ok [OF assms(1-3)] Some by auto
  from finish_span_balanced [OF wf this assms(6), of e'] Some assms(5) show ?thesis
    by (auto simp: exit_after_def sql_kept_def)
qed

lemma inherit_world [simp]: "sq_world (inherit k d r s) = sq_world s"
  by (simp add: inherit_def set_field_def split: sql_value.split)

lemma local_call_kept:
  assumes "sql_ready (at_goroutine t) s" "list_all plugin_opt opts" "local_before name opts t e caller s = ((ctx, x), s1)"
    and "sql_kept (at_goroutine t) s1 s2" "local_after kind t e' ctx results s2 = (y, s3)" "1 < length results"
  shows "sql_kept (at_goroutine t) s s3 \<and> y = IReturn \<and>
    sq_field s3 = (case getInstanceInfo caller s of None \<Rightarrow> sq_field s2
       | Some i \<Rightarrow> sq_field (inherit kind (Some (DInfo i)) (results ! 0) s2))"
proof (cases ctx)
  case None
  with body_keeps [OF _ assms(4), of s None] local_before_ok [OF assms(1-3)] assms(1,5) show ?thesis
    by (auto simp: local_after_def sql_ready_def split: option.splits)
next
  case (Some c)
  have wf: "wf_world (sq_world s)" using assms(1) by (simp add: sql_ready_def)
  from local_before_ok [OF assms(1-3)] Some obtain i sp where c: "c = CtxInfo i sp" "getInstanceInfo caller s = Some i"
    by (auto split: option.splits)
  have "holding (at_goroutine t) (sq_world s) (ctx_span c) (sq_world s2)"
    using body_keeps [OF _ assms(4) wf, of ctx] local_before_ok [OF assms(1-3)] Some by auto
  from finish_span_balanced [OF wf this assms(6), of e'] obtain s' where
    "finish_span 1 t e' c results s2 = (IReturn, s')" "balanced (at_goroutine t) (sq_world s) (sq_world s')" "sq_field s' = sq_field s2"
    by blast
  with Some c assms(5) show ?thesis
    by (auto simp: local_after_def sql_kept_def inherit_def set_field_def split: sql_value.splits)
qed

text \<open>Writing to the runtime context is balanced.\<close>

lemma ensure_context_kept:
  assumes "wf_world w" "ensure_context e g w = (c, w1)"
  shows "ActiveSpan g w1 = ActiveSpan g w \<and> w_spans w1 = w_spans w \<and> w_gls w1 g = Some c \<and> (\<forall>d. w_gls w g = Some d \<longrightarrow> d = c)"
  using assms(2)
  by (cases "w_gls w g") (auto simp: ensure_context_def new_context_def Let_def ActiveSpan_def getTracingContext_def NewTracingContext_def)

lemma set_runtime_kept:
  assumes "wf_world (sq_world s)"
  shows "sql_kept (at_goroutine t) s (set_runtime_value t e k v s)"
proof -
  let ?w = "sq_world s" and ?g = "at_goroutine t"
  obtain c w1 where 1: "ensure_context e ?g ?w = (c, w1)" by fastforce
  note E = ensure_context_kept [OF assms 1]
  from wf_ensure_context [OF assms 1] have c: "wf_world w1" "c < length (w_contexts w1)" by auto
  have "ActiveSpan ?g (set_runtime c f w1) = ActiveSpan ?g w1" for f
    using E c by (simp add: ActiveSpan_def getTracingContext_def set_runtime_def)
  then have "balanced ?g ?w (set_runtime c f w1)" for f
    using c E wf_set_runtime [OF c, of f] by (auto simp: balanced_old old_spans_def) (simp_all add: set_runtime_def)
  then show ?thesis
    using assms 1 by (simp add: sql_kept_def set_runtime_value_def api_SetRuntimeContextValue_def SetRuntimeContextValue_def balanced_refl)
qed

lemma sql_kept_trans: "sql_kept g s1 s2 \<Longrightarrow> sql_kept g s2 s3 \<Longrightarrow> sql_kept g s1 s3"
  unfolding sql_kept_def by (rule balanced_trans)

lemma sql_kept_wf: "sql_kept g s s' \<Longrightarrow> wf_world (sq_world s')"
  by (simp add: sql_kept_def balanced_def)

text \<open>Two shapes of interceptors: an exit span with the error at a position, and a local span.\<close>

definition exit_shape :: "nat \<Rightarrow> sql_interceptor \<Rightarrow> bool" where
  "exit_shape i ic \<longleftrightarrow> (\<exists>name opts params. (\<forall>a. list_all plugin_opt (opts a)) \<and>
     si_before ic = (\<lambda>t e c a. exit_before name (opts a) params t e c a) \<and> si_after ic = (\<lambda>t e c. exit_after i t e))"

definition local_shape :: "sql_kind \<Rightarrow> sql_interceptor \<Rightarrow> bool" where
  "local_shape kind ic \<longleftrightarrow> (\<exists>name opts. (\<forall>a. list_all plugin_opt (opts a)) \<and>
     si_before ic = (\<lambda>t e c a. local_before name (opts a) t e c) \<and> si_after ic = (\<lambda>t e c. local_after kind t e))"

lemma exit_shapeI:
  "(\<And>a. list_all plugin_opt (opts a)) \<Longrightarrow>
   exit_shape i \<lparr>si_before = (\<lambda>t e c a. exit_before name (opts a) params t e c a), si_after = (\<lambda>t e c. exit_after i t e)\<rparr>"
  unfolding exit_shape_def by (intro exI [of _ name] exI [of _ opts] exI [of _ params]) simp

lemma local_shapeI:
  "(\<And>a. list_all plugin_opt (opts a)) \<Longrightarrow>
   local_shape kind \<lparr>si_before = (\<lambda>t e c a. local_before name (opts a) t e c), si_after = (\<lambda>t e c. local_after kind t e)\<rparr>"
  unfolding local_shape_def by (intro exI [of _ name] exI [of _ opts]) simp

lemma general_defs:
  "GeneralExecBeforeInvoke name = (\<lambda>t e c a. exit_before name [WithTag ''db.statement'' (sa_query a)] True t e c a)"
  "GeneralQueryBeforeInvoke name = (\<lambda>t e c a. exit_before name [WithTag ''db.statement'' (sa_query a)] True t e c a)"
  "GeneralPrepareBeforeInvoke name = (\<lambda>t e c a. local_before name [WithTag ''db.statement'' (sa_query a)] t e c)"
  "GeneralBeginTxBeforeInvoke name = (\<lambda>t e c a. local_before name [] t e c)"
  by (simp_all add: fun_eq_iff GeneralExecBeforeInvoke_def GeneralQueryBeforeInvoke_def GeneralPrepareBeforeInvoke_def GeneralBeginTxBeforeInvoke_def)

lemmas interceptor_defs = general_defs GeneralPingBeforeInvoke_def GeneralPingAfterInvoke_def GeneralExecAfterInvoke_def
  GeneralQueryAfterInvoke_def GeneralPrepareAfterInvoke_def GeneralBeginTxAfterInvoke_def
  PingInterceptor_def ConnPingInterceptor_def ExecInterceptor_def ConnExecInterceptor_def QueryInterceptor_def ConnQueryInterceptor_def
  PrepareInterceptor_def ConnPrepareInterceptor_def TxPrepareInterceptor_def BeginTXInterceptor_def ConnBeginTXInterceptor_def
  ConnInterceptor_def TxCommitInterceptor_def TxRollbackInterceptor_def TxExecInterceptor_def TxQueryInterceptor_def
  StmtExecInterceptor_def StmtQueryInterceptor_def

lemma exit_shapes:
  "exit_shape 0 PingInterceptor" "exit_shape 0 ConnPingInterceptor" "exit_shape 1 ExecInterceptor" "exit_shape 1 ConnExecInterceptor"
  "exit_shape 1 QueryInterceptor" "exit_shape 1 ConnQueryInterceptor" "exit_shape 0 TxCommitInterceptor" "exit_shape 0 TxRollbackInterceptor"
  "exit_shape 1 TxExecInterceptor" "exit_shape 1 TxQueryInterceptor" "exit_shape 1 StmtExecInterceptor" "exit_shape 1 StmtQueryInterceptor"
  unfolding interceptor_defs by (rule exit_shapeI; simp add: WithTag_def)+

lemma local_shapes:
  "local_shape KStmt PrepareInterceptor" "local_shape KStmt ConnPrepareInterceptor" "local_shape KStmt TxPrepareInterceptor"
  "local_shape KTx BeginTXInterceptor" "local_shape KTx ConnBeginTXInterceptor" "local_shape KConn ConnInterceptor"
  unfolding interceptor_defs by (rule local_shapeI; simp add: WithTag_def)+

definition shaped :: "nat \<Rightarrow> sql_interceptor \<Rightarrow> bool" where
  "shaped n ic \<longleftrightarrow> (\<exists>i<n. exit_shape i ic) \<or> (1 < n \<and> (\<exists>kind. local_shape kind ic)) \<or> ic = InstanceInterceptor \<or> ic = TxStmtInterceptor"

lemma shaped_intros:
  "exit_shape 0 ic \<Longrightarrow> shaped 1 ic" "exit_shape 1 ic \<Longrightarrow> shaped 2 ic" "local_shape kind ic \<Longrightarrow> shaped 2 ic"
  "shaped n InstanceInterceptor" "shaped n TxStmtInterceptor"
  by (auto simp: shaped_def)

lemma points_shaped: "list_all (\<lambda>(recv, m, n, ic). m = ''Raw'' \<or> shaped n ic) sql_points"
  unfolding sql_points_def list.pred_inject prod.case
  by (intro conjI; (rule list.pred_inject(1) | rule disjI1, rule refl | (rule disjI2, (rule shaped_intros, rule exit_shapes local_shapes | rule shaped_intros))))

lemma point_shapes:
  assumes "(recv, m, n, ic) \<in> set sql_points" "m \<noteq> ''Raw''"
  obtains i where "exit_shape i ic" "i < n" | kind where "local_shape kind ic" "1 < n"
  | "ic = InstanceInterceptor" | "ic = TxStmtInterceptor"
proof -
  have "shaped n ic" using points_shaped assms unfolding list_all_iff by blast
  then show ?thesis using that unfolding shaped_def by blast
qed

text \<open>What the program does inside a call: it keeps the world and returns as many results as the method has.\<close>

definition body_ok :: "nat \<Rightarrow> nat \<Rightarrow> (sql_state \<Rightarrow> sql_value list \<times> sql_state) \<Rightarrow> bool" where
  "body_ok g n body \<longleftrightarrow> (\<forall>s. wf_world (sq_world s) \<longrightarrow> sql_kept g s (snd (body s)) \<and> length (fst (body s)) = n)"

lemma before_ok_wf: "before_ok g s ctx s1 \<Longrightarrow> wf_world (sq_world s) \<Longrightarrow> wf_world (sq_world s1)"
  by (auto simp: before_ok_def dest: holding_wf split: option.splits)

lemma instance_call_kept:
  assumes "wf_world (sq_world s)" "body_ok (at_goroutine t) n body" "sql_call InstanceInterceptor t e e' caller args body s = (results, s')"
  shows "sql_kept (at_goroutine t) s s'"
proof -
  let ?s1 = "set_runtime_value t e ''needInfo'' (Some RTrue) s"
  let ?s2 = "snd (body ?s1)"
  let ?s3 = "set_runtime_value t e' ''needInfo'' None ?s2"
  let ?s4 = "set_runtime_value t e' ''needInfo'' None ?s3"
  let ?s5 = "set_runtime_value t e' ''info'' None ?s4"
  note 1 = set_runtime_kept [OF assms(1), of t e "''needInfo''" "Some RTrue"]
  have 2: "sql_kept (at_goroutine t) ?s1 ?s2" using assms(2) sql_kept_wf [OF 1] by (simp add: body_ok_def)
  note 3 = set_runtime_kept [OF sql_kept_wf [OF 2], of t e' "''needInfo''" None]
  note 4 = set_runtime_kept [OF sql_kept_wf [OF 3], of t e' "''needInfo''" None]
  note 5 = set_runtime_kept [OF sql_kept_wf [OF 4], of t e' "''info''" None]
  have "sql_kept (at_goroutine t) s ?s5"
    by (rule sql_kept_trans [OF 1 sql_kept_trans [OF 2 sql_kept_trans [OF 3 sql_kept_trans [OF 4 5]]]])
  moreover have "sq_world s' = sq_world ?s5"
    using assms(3) by (auto simp: sql_call_def InstanceInterceptor_def Let_def split: prod.splits option.splits rt_value.splits if_splits)
  ultimately show ?thesis by (simp add: sql_kept_def)
qed


section \<open>The span of a statement\<close>

text \<open>Opening the exit span of a database in a goroutine that records.\<close>

definition recording :: "nat \<Rightarrow> 'v world \<Rightarrow> bool" where
  "recording g w \<longleftrightarrow> (\<exists>p k ds sx. ActiveSpan g w = Some p \<and> w_spans w ! p = SegSpan k ds sx)"

lemma createExitSpan_recorded:
  assumes "sql_ready (at_goroutine t) s" "recording (at_goroutine t) (sq_world s)" "at_installed t"
    and "getInstanceInfo caller s = Some i" "Peer i \<noteq> []" "list_all plugin_opt opts"
  shows "\<exists>s1 k sx. createExitSpan t e caller name opts s = (Inr (Some (SpanWrapper (length (w_spans (sq_world s))))), s1) \<and>
    holding (at_goroutine t) (sq_world s) (SpanWrapper (length (w_spans (sq_world s)))) (sq_world s1) \<and>
    w_spans (sq_world s1) ! length (w_spans (sq_world s)) = SegSpan k (fold mutate (opts @ db_opts i)
      (apply_core_opts (exit_core (DBType i @ ''/'' @ name) (Peer i))
         (NewDefaultSpan (e_now e) (ActiveSpan (at_goroutine t) (sq_world s))))) sx"
proof -
  let ?g = "at_goroutine t" and ?n = "length (w_spans (sq_world s))"
  note ready = assms(1) [unfolded sql_ready_def]
  obtain p pk pds psx where p: "ActiveSpan ?g (sq_world s) = Some p" "w_spans (sq_world s) ! p = SegSpan pk pds psx"
    using assms(2) by (auto simp: recording_def)
  obtain r c' w' where c: "CreateExitSpan e ?g (DBType i @ ''/'' @ name) (Peer i) (\<lambda>(c :: unit) k v. (c, None :: string option))
      (at_keys t) (opts @ db_opts i) () (sq_world s) = (r, c', w')" by (metis prod.exhaust)
  have o: "list_all plugin_opt (opts @ db_opts i)" using assms(6) by simp
  from exit_opened [OF _ _ o _ _ c] ready obtain a where
    a: "r = Inr a" "holding ?g (sq_world s) (SpanWrapper a) w'"
    "a = ?n \<longrightarrow> (\<exists>m. w_spans w' ! a = NoopSpan m) \<or> (\<exists>k sx. w_spans w' ! a = SegSpan k (fold mutate (opts @ db_opts i)
      (apply_core_opts (exit_core (DBType i @ ''/'' @ name) (Peer i)) (NewDefaultSpan (e_now e) (ActiveSpan ?g (sq_world s))))) sx)"
    by (auto simp: accepts_headers_def)
  have n: "a = ?n" "\<not> (\<exists>m. w_spans w' ! a = NoopSpan m)"
    using a(2) p by (auto simp: holding_def split: if_splits)
  with a(3) obtain k sx where k: "w_spans w' ! a = SegSpan k (fold mutate (opts @ db_opts i)
      (apply_core_opts (exit_core (DBType i @ ''/'' @ name) (Peer i)) (NewDefaultSpan (e_now e) (ActiveSpan ?g (sq_world s))))) sx"
    by blast
  have "createExitSpan t e caller name opts s = (Inr (Some (SpanWrapper a)), s\<lparr>sq_world := w'\<rparr>)"
    using c a(1) assms(3-5) by (simp add: createExitSpan_def api_CreateExitSpan_def)
  with k a(2) n(1) show ?thesis by auto
qed

text \<open>Writes and the end of an open span, exactly.\<close>

lemma span_set_exact:
  assumes "w_spans w ! a = SegSpan k ds sx" "k \<noteq> SnapshotSpan" "a < length (w_spans w)"
  shows "\<exists>w'. span_set m a w = Inr w' \<and> w_spans w' = (w_spans w)[a := SegSpan k (mutate m ds) sx]"
  using assms by (simp add: span_set_def map_ds_def)

lemma SpanEnd_exact:
  assumes "w_spans w ! a = SegSpan k ds sx" "k \<noteq> SnapshotSpan" "\<not> ds_ended ds" "ds_EndTime ds = None"
    and "ds_reuseCount ds = 0" "\<not> ds_InAsyncMode ds"
  shows "\<exists>w'. SpanEnd e g a w = Inr w' \<and>
    w_spans w' = (w_spans w)[a := SegSpan k (ds\<lparr>ds_EndTime := Some (e_now e), ds_ended := True\<rparr>) sx]"
proof -
  have E: "endSyncAndFreeze (e_now e) ds = (ds\<lparr>ds_EndTime := Some (e_now e), ds_ended := True\<rparr>, True, True)"
    using assms by (simp add: endSyncAndFreeze_def)
  show ?thesis using assms E by (simp add: SpanEnd_def)
qed

lemma holding_open:
  assumes "holding g w (SpanWrapper (length (w_spans w))) w1" "w_spans w1 ! length (w_spans w) = SegSpan k ds sx"
  shows "k \<noteq> SnapshotSpan \<and> open_span g w ds \<and> length (w_spans w) < length (w_spans w1)"
  using assms by (auto simp: holding_def)

lemma balanced_span: "balanced g w1 w2 \<Longrightarrow> a < length (w_spans w1) \<Longrightarrow> w_spans w2 ! a = w_spans w1 ! a \<and> a < length (w_spans w2)"
  by (auto simp: balanced_def)

definition error_text :: "sql_value \<Rightarrow> string option" where
  "error_text v = (case v of SErr m \<Rightarrow> Some m | _ \<Rightarrow> None)"

lemma finish_span_exact:
  assumes "w_spans (sq_world s) ! a = SegSpan k ds sx" "k \<noteq> SnapshotSpan" "a < length (w_spans (sq_world s))"
    and "open_span g w ds" "i < length results" "finish_span i t e (CtxSpan (SpanWrapper a)) results s = (x, s')"
  shows "w_spans (sq_world s') ! a = SegSpan k
    ((case error_text (results ! i) of None \<Rightarrow> ds | Some m \<Rightarrow> Error (e_now e) [m] ds)\<lparr>ds_EndTime := Some (e_now e), ds_ended := True\<rparr>) sx"
proof -
  let ?ds = "case error_text (results ! i) of None \<Rightarrow> ds | Some m \<Rightarrow> Error (e_now e) [m] ds"
  obtain w1 where w1: "(case results ! i of SErr m \<Rightarrow> api_Error (e_now e) [m] (SpanWrapper a) (sq_world s) | _ \<Rightarrow> Inr (sq_world s)) = Inr w1"
    and s1: "w_spans w1 = (w_spans (sq_world s))[a := SegSpan k ?ds sx]"
    using span_set_exact [OF assms(1-3), of "MError (e_now e) _"] assms(1)
    by (cases "results ! i") (auto simp: error_text_def api_Error_def wrapped_def list_update_id [of "w_spans (sq_world s)" a, unfolded assms(1)])
  have o: "open_span g w ?ds" using assms(4) setter_open [of "MError (e_now e) _" g w ds] by (cases "error_text (results ! i)") auto
  have "w_spans w1 ! a = SegSpan k ?ds sx" using s1 assms(3) by simp
  from SpanEnd_exact [OF this assms(2)] o obtain w2 where
    e: "SpanEnd e (at_goroutine t) a w1 = Inr w2" and s2: "w_spans w2 = (w_spans w1)[a := SegSpan k (?ds\<lparr>ds_EndTime := Some (e_now e), ds_ended := True\<rparr>) sx]"
    by (auto simp: open_span_def)
  have c: "ctx_span (CtxSpan (SpanWrapper a)) = SpanWrapper a" by (simp add: ctx_span_def)
  have "finish_span i t e (CtxSpan (SpanWrapper a)) results s = (IReturn, s\<lparr>sq_world := w2\<rparr>)"
    unfolding finish_span_def c w1 using assms(5) e by (simp add: api_End_def wrapped_def)
  with s2 assms(3,6) s1 show ?thesis by auto
qed

text \<open>
  Raw of a connection never ends its span: the interceptor looks for the error at the second result
  of a method that has one, and panics.  The goroutine goes on with the exit span as its active span, which
  nobody can end.
\<close>

theorem raw_span_never_ends:
  assumes "sql_ready (at_goroutine t) s" "recording (at_goroutine t) (sq_world s)" "at_installed t"
    and "getInstanceInfo caller s = Some i" "Peer i \<noteq> []"
    and "body_ok (at_goroutine t) 1 body" "sql_call ConnRawInterceptor t e e' caller args body s = (results, s')"
  shows "ActiveSpan (at_goroutine t) (sq_world s') = Some (length (w_spans (sq_world s))) \<and>
    (\<exists>k ds sx. w_spans (sq_world s') ! length (w_spans (sq_world s)) = SegSpan k ds sx \<and>
       ds_SpanType ds = SpanTypeExit \<and> ds_EndTime ds = None \<and> \<not> ds_ended ds)"
proof -
  let ?n = "length (w_spans (sq_world s))" and ?g = "at_goroutine t"
  obtain s1 k sx ds where c: "createExitSpan t e caller ''Conn/Raw'' [] s = (Inr (Some (SpanWrapper ?n)), s1)"
    and h: "holding ?g (sq_world s) (SpanWrapper ?n) (sq_world s1)" and sp: "w_spans (sq_world s1) ! ?n = SegSpan k ds sx"
    and ds: "ds = fold mutate ([] @ db_opts i) (apply_core_opts (exit_core (DBType i @ ''/'' @ ''Conn/Raw'') (Peer i))
         (NewDefaultSpan (e_now e) (ActiveSpan ?g (sq_world s))))"
    using createExitSpan_recorded [OF assms(1-5), of "[]" e "''Conn/Raw''"] by auto
  have b: "si_before ConnRawInterceptor t e caller args s = ((Some (CtxSpan (SpanWrapper ?n)), IReturn), s1)"
    using c by (simp add: ConnRawInterceptor_def GeneralRawBeforeInvoke_def exit_before_def)
  obtain s2 where s2: "body s1 = (results, s2)" using assms(7) b by (auto simp: sql_call_def split: prod.splits)
  have k: "sql_kept ?g s1 s2" "length results = 1" using assms(6) holding_wf [OF h] s2 unfolding body_ok_def by (metis fst_conv snd_conv)+
  have "s' = s2"
    using assms(7) b s2 k(2)
    by (simp add: sql_call_def ConnRawInterceptor_def GeneralRawAfterInvoke_def exit_after_def finish_span_def)
  moreover have "ActiveSpan ?g (sq_world s2) = Some ?n"
    using k(1) h sp by (simp add: sql_kept_def balanced_def holding_def)
  moreover have "w_spans (sq_world s2) ! ?n = SegSpan k ds sx"
    using k(1) holding_open [OF h sp] sp balanced_span [of ?g "sq_world s1" "sq_world s2" ?n] by (simp add: sql_kept_def)
  moreover have "same_core (apply_core_opts (exit_core (DBType i @ ''/'' @ ''Conn/Raw'') (Peer i))
         (NewDefaultSpan (e_now e) (ActiveSpan ?g (sq_world s)))) ds"
    unfolding ds by (rule plugin_fold_core) simp_all
  then have "ds_SpanType ds = SpanTypeExit" by (simp add: same_core_def exit_core_def)
  ultimately show ?thesis using holding_open [OF h sp] by (auto simp: open_span_def)
qed

text \<open>The parameters as they are printed.\<close>

lemma append_params_eq: "append_params print xs res = res @ concat (map (\<lambda>x. '', '' @ print x) xs)"
  by (induction xs arbitrary: res) auto

lemma argsToString_join: "argsToString print xs = join '', '' (map print xs)"
  by (cases xs rule: remdups_adj.cases) (simp_all add: argsToString_def append_params_eq join_concat o_def)

lemma exec_span_content:
  "fold mutate ([WithTag ''db.statement'' q] @ db_opts i) (apply_core_opts (exit_core name peer) (NewDefaultSpan now parent)) =
     (NewDefaultSpan now parent)\<lparr>ds_SpanType := SpanTypeExit, ds_OperationName := name, ds_Peer := peer,
       ds_Tags := [(''db.statement'', q), (''db.type'', DBType i)], ds_ComponentID := ComponentID i, ds_Layer := 1\<rparr>"
  by (simp add: db_opts_def WithTag_def WithComponent_def WithLayer_def apply_core_opts_def exit_core_def
      mutator_defs NewDefaultSpan_def)

lemma exit_before_recorded:
  assumes "createExitSpan t e caller name opts s = (Inr (Some (SpanWrapper a)), s1)"
    and "w_spans (sq_world s1) ! a = SegSpan k ds sx" "k \<noteq> SnapshotSpan" "a < length (w_spans (sq_world s1))"
  shows "\<exists>s2. exit_before name opts True t e caller args s = ((Some (CtxSpan (SpanWrapper a)), IReturn), s2) \<and>
    w_spans (sq_world s2) ! a = SegSpan k (if at_collect t \<and> sa_params args \<noteq> []
      then Tag ''db.sql.parameters'' (argsToString (at_print t) (sa_params args)) ds else ds) sx"
  using assms span_set_exact [OF assms(2-4), of "MTag ''db.sql.parameters'' (argsToString (at_print t) (sa_params args))"]
  by (auto simp: exit_before_def api_Tag_def wrapped_def)


section \<open>Databases that are not described\<close>

text \<open>
  On a database the plugin has no description of, a call with parameters makes the interceptor panic as
  soon as parameters are collected: it tags the span that createExitSpan did not make.  Nothing is recorded
  and nothing changes.
\<close>

theorem undescribed_parameters_panic:
  assumes "getInstanceInfo caller s = None" "at_collect t" "sa_params args \<noteq> []"
    and "ic \<in> {ExecInterceptor, ConnExecInterceptor, QueryInterceptor, ConnQueryInterceptor, TxExecInterceptor, TxQueryInterceptor,
      StmtExecInterceptor, StmtQueryInterceptor}"
  shows "si_before ic t e caller args s = ((None, IPanic), s)"
proof -
  have "exit_before name opts True t e caller args s = ((None, IPanic), s)" for name opts
    using assms(1-3) by (simp add: exit_before_def createExitSpan_def)
  with assms(4) show ?thesis unfolding interceptor_defs by auto
qed

section \<open>The description of a database\<close>

definition returned_kind :: "string \<Rightarrow> sql_kind" where
  "returned_kind m = (if m = ''BeginTx'' then KTx else if m = ''Conn'' then KConn else KStmt)"

lemma deriving_points:
  assumes "(recv, m, n, ic) \<in> set sql_points" "m \<in> {''PrepareContext'', ''BeginTx'', ''Conn'', ''StmtContext''}"
  shows "n = 2 \<and> local_shape (returned_kind m) ic \<or> m = ''StmtContext'' \<and> n = 1 \<and> ic = TxStmtInterceptor"
proof -
  have "list_all (\<lambda>(recv, m, n, ic). m \<in> {''PrepareContext'', ''BeginTx'', ''Conn'', ''StmtContext''} \<longrightarrow>
      n = 2 \<and> local_shape (returned_kind m) ic \<or> m = ''StmtContext'' \<and> n = 1 \<and> ic = TxStmtInterceptor) sql_points"
    unfolding sql_points_def list.pred_inject prod.case by (simp add: returned_kind_def local_shapes)
  with assms show ?thesis unfolding list_all_iff by blast
qed

text \<open>
  A statement, transaction or connection obtained from a described database, connection or transaction
  through an intercepted call has its description, so that the spans of later calls on it name the same
  database.
\<close>

theorem description_inherited:
  assumes point: "(recv, m, n, ic) \<in> set sql_points" "m \<in> {''PrepareContext'', ''BeginTx'', ''Conn'', ''StmtContext''}"
    and ready: "sql_ready (at_goroutine t) s" and body: "body_ok (at_goroutine t) n body" "\<And>s. sq_field (snd (body s)) = sq_field s"
    and run: "sql_call ic t e e' caller args body s = (results, s')"
    and info: "getInstanceInfo caller s = Some i" and obj: "results ! 0 = SObj (returned_kind m) a"
  shows "getInstanceInfo (Some a) s' = Some i"
proof -
  have wf: "wf_world (sq_world s)" using ready by (simp add: sql_ready_def)
  obtain ctx x s1 where b: "si_before ic t e caller args s = ((ctx, x), s1)" by (metis surj_pair)
  obtain y s2 where s2: "body s1 = (results, s2)" and a: "si_after ic t e' caller ctx results s2 = (y, s')"
    using run b by (auto simp: sql_call_def split: prod.splits)
  have f: "sq_field s2 = sq_field s1" using body(2) [of s1] s2 by simp
  from deriving_points [OF point] show ?thesis
  proof
    assume l: "n = 2 \<and> local_shape (returned_kind m) ic"
    then obtain name ms where o: "list_all plugin_opt ms" "local_before name ms t e caller s = ((ctx, x), s1)"
      and z: "local_after (returned_kind m) t e' ctx results s2 = (y, s')"
      using a b unfolding local_shape_def by force
    have "wf_world (sq_world s1)" using before_ok_wf [OF conjunct1 [OF local_before_ok [OF ready o]] wf] .
    then have k: "sql_kept (at_goroutine t) s1 s2" "length results = 2"
      using body(1) l s2 unfolding body_ok_def by (metis fst_conv snd_conv)+
    from local_call_kept [OF ready o k(1) z] k(2) info obj show ?thesis
      by (simp add: getInstanceInfo_def inherit_def set_field_def)
  next
    assume st: "m = ''StmtContext'' \<and> n = 1 \<and> ic = TxStmtInterceptor"
    have "s1 = s" using b st by (simp add: TxStmtInterceptor_def)
    moreover have "length results = 1" using body(1) wf s2 st \<open>s1 = s\<close> unfolding body_ok_def by (metis fst_conv)
    moreover have "getInstanceInfo caller s2 = Some i" using info unfolding getInstanceInfo_def f \<open>s1 = s\<close> .
    ultimately show ?thesis
      using a st obj by (auto simp: TxStmtInterceptor_def inherit_def set_field_def returned_kind_def getInstanceInfo_def split: if_splits)
  qed
qed

lemma get_after_set:
  assumes "wf_world (sq_world s)" "at_installed t"
  shows "get_runtime_value t k' (set_runtime_value t e k v s) = (if k' = k then v else get_runtime_value t k' s)"
proof -
  let ?w = "sq_world s" and ?g = "at_goroutine t"
  obtain c w1 where 1: "ensure_context e ?g ?w = (c, w1)" by fastforce
  have c: "w_gls w1 ?g = Some c" "c < length (w_contexts w1)"
    using ensure_context_kept [OF assms(1) 1] wf_ensure_context [OF assms(1) 1] by auto
  have "GetRuntimeContextValue ?g k' w1 = GetRuntimeContextValue ?g k' ?w"
    using 1 by (cases "w_gls ?w ?g") (auto simp: ensure_context_def new_context_def Let_def GetRuntimeContextValue_def getTracingContext_def
        NewTracingContext_def rc_Get_def rc_map_def)
  moreover have "GetRuntimeContextValue ?g k' (set_runtime c f w1) = rc_Get (Some (f (tc_Runtime (w_contexts w1 ! c)))) k'" for f
    using c by (simp add: GetRuntimeContextValue_def getTracingContext_def set_runtime_def)
  moreover have "GetRuntimeContextValue ?g k' w1 = rc_map (tc_Runtime (w_contexts w1 ! c)) k'"
    using c by (simp add: GetRuntimeContextValue_def getTracingContext_def rc_Get_def)
  ultimately show ?thesis
    using 1 assms(2)
    by (simp add: get_runtime_value_def set_runtime_value_def api_GetRuntimeContextValue_def api_SetRuntimeContextValue_def
        SetRuntimeContextValue_def rc_Get_def rc_map_Set)
qed

lemma set_runtime_field [simp]: "sq_field (set_runtime_value t e k v s) = sq_field s"
  by (simp add: set_runtime_value_def)

text \<open>
  A database opened while the MySQL driver parses its configuration is described by the address of
  that configuration, and the runtime context of the goroutine is left as it was but for the two keys of
  the hand-over, which are gone: no later Open can take the description of this one.
\<close>

theorem open_describes:
  assumes "wf_world (sq_world s)" "at_installed t"
    and "body = (\<lambda>s. ([SObj KDB a, SNil], snd (ParseInterceptor_AfterInvoke t e1 (Some addr) s)))"
    and "sql_call InstanceInterceptor t e e' None args body s = (results, s')"
  shows "getInstanceInfo (Some a) s' = Some (mysql_info addr) \<and>
    get_runtime_value t k s' = (if k \<in> {''needInfo'', ''info''} then None else get_runtime_value t k s)"
proof -
  let ?i = "''info''" and ?n = "''needInfo''"
  let ?s1 = "set_runtime_value t e ?n (Some RTrue) s"
  have wf1: "wf_world (sq_world ?s1)" using sql_kept_wf [OF set_runtime_kept [OF assms(1)]] .
  let ?s2 = "set_runtime_value t e1 ?i (Some (RInfo (mysql_info addr))) ?s1"
  have wf2: "wf_world (sq_world ?s2)" using sql_kept_wf [OF set_runtime_kept [OF wf1]] .
  have body: "body ?s1 = ([SObj KDB a, SNil], ?s2)"
    using assms(1-3) by (simp add: ParseInterceptor_AfterInvoke_def get_after_set)
  let ?s3 = "set_runtime_value t e' ?n None ?s2"
  have wf3: "wf_world (sq_world ?s3)" using sql_kept_wf [OF set_runtime_kept [OF wf2]] .
  let ?s4 = "set_runtime_value t e' ?n None ?s3"
  have wf4: "wf_world (sq_world ?s4)" using sql_kept_wf [OF set_runtime_kept [OF wf3]] .
  let ?s5 = "set_runtime_value t e' ?i None ?s4"
  have v: "get_runtime_value t ?i ?s3 = Some (RInfo (mysql_info addr))"
    using wf1 wf2 assms(2) by (simp add: get_after_set)
  have s': "s' = inherit KDB (Some (DInfo (mysql_info addr))) (SObj KDB a) ?s5"
    using assms(4) body v by (simp add: sql_call_def InstanceInterceptor_def Let_def)
  have "get_runtime_value t k s' = get_runtime_value t k ?s5" unfolding s' get_runtime_value_def by simp
  also have "\<dots> = (if k \<in> {?n, ?i} then None else get_runtime_value t k s)"
    using assms(1,2) wf1 wf2 wf3 wf4 by (simp add: get_after_set)
  finally show ?thesis by (simp add: s' inherit_def set_field_def getInstanceInfo_def)
qed

section \<open>Concrete runs\<close>

definition sql_world :: "rt_value world" where
  "sql_world = snd (CreateLocalSpan sample_env 0 ''op'' [] empty_world)"

definition sample_db :: sql_state where
  "sample_db = \<lparr>sq_world = sql_world, sq_field = [0 \<mapsto> DInfo (mysql_info ''db:3306'')]\<rparr>"

definition sample_site :: sql_site where
  "sample_site = \<lparr>at_installed = True, at_goroutine = 0, at_collect = True, at_print = (\<lambda>_. ''7''), at_keys = []\<rparr>"

lemma sql_world_facts:
  "wf_world sql_world" "ActiveSpan 0 sql_world = Some 0"
  "\<exists>ds sx. w_spans sql_world = [SegSpan RootSegmentSpan ds sx] \<and> ds_SpanType ds = SpanTypeLocal"
proof -
  show "wf_world sql_world" using wf_op_step [OF o_local wf_empty] unfolding sql_world_def by blast
qed (use not_ignored in \<open>simp_all add: sql_world_def sample_env_def eval_defs ActiveSpan_def Let_def word_sless_alt\<close>)

lemma sample_ready: "sql_ready (at_goroutine sample_site) sample_db" "recording (at_goroutine sample_site) (sq_world sample_db)"
  "at_installed sample_site" "getInstanceInfo (Some 0) sample_db = Some (mysql_info ''db:3306'')" "Peer (mysql_info ''db:3306'') \<noteq> []"
  using sql_world_facts
  by (auto simp: sql_ready_def sample_db_def sample_site_def noop_counted_def exit_free_def reusable_def recording_def
      getInstanceInfo_def mysql_info_def)

lemma body_ok_same: "body_ok g (length rs) (\<lambda>s. (rs, s))"
  by (simp add: body_ok_def sql_kept_def balanced_refl)

lemma raw_span_never_ends_witness:
  "ActiveSpan 0 (sq_world (snd (sql_call ConnRawInterceptor sample_site sample_env sample_env (Some 0)
     \<lparr>sa_query = [], sa_params = []\<rparr> (\<lambda>s. ([SNil], s)) sample_db))) = Some 1"
  using raw_span_never_ends [OF sample_ready, of "\<lambda>s. ([SNil], s)" sample_env sample_env "\<lparr>sa_query = [], sa_params = []\<rparr>"]
    body_ok_same [of 0 "[SNil]"] sql_world_facts(3) prod.collapse
  by (auto simp: sample_site_def sample_db_def) (metis prod.collapse)



end
