(* ===== verification/Tracer_Start.thy ===== *)
theory Tracer_Start
  imports Tracing_Props Sampler Profile_Manager Agent_Config
begin

text \<open>
  The start of the tracer (plugins/core/tracer.go, tool.go, and the function InitTracer that
  tools/go-agent/instrument/agentcore generates from the configuration): the entity of the service from
  what the host answers, the writes of Init in their order, and what operations of other goroutines find
  between them.

  The host, that is the environment, the network interfaces, the process and package uuid, is an
  argument.  A reporter is a value the model does not look into; Boot and AddProfileTaskManager record
  what they are given.
\<close>

section \<open>The host\<close>

datatype net_addr = IPNet (ip_text: string) (loopback: bool) (four: bool) | OtherAddr

record host =
  ho_getenv :: "string \<Rightarrow> string"
  ho_uuid :: "string option"
  ho_pid :: int
  ho_hostname :: "string option"
  ho_GOOS :: string
  ho_addrs :: "net_addr list option"

definition UUID :: "host \<Rightarrow> string option" where
  "UUID h = map_option (remove_char CHR ''-'') (ho_uuid h)"

definition ProcessNo :: "host \<Rightarrow> string" where
  "ProcessNo h = (if ho_pid h > 0 then itoa (ho_pid h) else [])"

definition HostName :: "host \<Rightarrow> string" where
  "HostName h = (case ho_hostname h of Some hs \<Rightarrow> hs | None \<Rightarrow> ''unknown'')"

fun ipv4_addrs :: "net_addr list \<Rightarrow> string list" where
  "ipv4_addrs [] = []"
| "ipv4_addrs (OtherAddr # as) = ipv4_addrs as"
| "ipv4_addrs (IPNet ip lo v4 # as) =
     (if lo \<or> \<not> v4 \<or> ip = ''127.0.0.1'' \<or> ip = ''localhost'' then ipv4_addrs as else ip # ipv4_addrs as)"

definition AllIPV4 :: "host \<Rightarrow> string list" where
  "AllIPV4 h = (case ho_addrs h of None \<Rightarrow> [] | Some as \<Rightarrow> ipv4_addrs as)"

definition IPV4 :: "host \<Rightarrow> string" where
  "IPV4 h = (case AllIPV4 h of [] \<Rightarrow> ''no-hostname'' | ip # _ \<Rightarrow> ip)"

definition buildOSInfo :: "host \<Rightarrow> (string \<times> string) list" where
  "buildOSInfo h =
     (if ProcessNo h \<noteq> [] then [(''Process No.'', ProcessNo h)] else []) @
     [(''hostname'', HostName h), (''language'', ''go''), (''OS Name'', ho_GOOS h)] @ map (Pair ''ipv4'') (AllIPV4 h)"

record entity =
  en_ServiceName :: string
  en_ServiceInstanceName :: string
  en_Props :: "(string \<times> string) list"

definition NewEntity :: "host \<Rightarrow> string \<Rightarrow> string \<Rightarrow> entity go_run" where
  "NewEntity h service instanceEnvName =
     (let made = (\<lambda>i. \<lparr>en_ServiceName = service, en_ServiceInstanceName = i, en_Props = buildOSInfo h\<rparr>)
      in if ho_getenv h instanceEnvName = []
         then (case UUID h of None \<Rightarrow> Panics | Some u \<Rightarrow> Returns (made (u @ ''@'' @ IPV4 h)))
         else Returns (made (ho_getenv h instanceEnvName)))"

section \<open>The tracer\<close>

record limits_config =
  cl_MaxKeyCount :: int
  cl_MaxValueSize :: int

datatype 'f tracer_sampler = Fixed "'f sampler" | Dynamic "'f dynamic_sampler"

datatype logger = DefaultLogger | GivenLogger nat

datatype 'r any_reporter = DiscardReporter | GivenReporter 'r

record ('f, 'r) tracer =
  tr_ServiceEntity :: "entity option"
  tr_Reporter :: "'r any_reporter"
  tr_ProfileManager :: "profile_manager option"
  tr_initFlag :: int
  tr_Sampler :: "'f tracer_sampler"
  tr_Log :: logger
  tr_correlation :: "limits_config option"
  tr_cdsWatchers :: "'f dynamic_sampler list"
  tr_ignoreSuffix :: "string list"
  tr_traceIgnorePath :: "string list"
  tr_profiled :: bool
  tr_booted :: "(entity \<times> 'f dynamic_sampler list) option"
  tr_collect :: "int option"
  tr_notified :: "nat list"

definition newTracer :: "('f, 'r) tracer" where
  "newTracer =
     \<lparr>tr_ServiceEntity = None, tr_Reporter = DiscardReporter, tr_ProfileManager = None, tr_initFlag = 0,
      tr_Sampler = Fixed (NewConstSampler False), tr_Log = DefaultLogger, tr_correlation = None, tr_cdsWatchers = [],
      tr_ignoreSuffix = [], tr_traceIgnorePath = [], tr_profiled = False, tr_booted = None, tr_collect = None, tr_notified = []\<rparr>"

definition InitSuccess :: "('f, 'r) tracer \<Rightarrow> bool" where
  "InitSuccess t = (tr_initFlag t = 1)"

text \<open>
  The writes of Init one after the other.  A nil logger is None.  The goroutine that collects the meters
  is started with its interval in seconds, unless that is negative.  The hooks are numbers.
\<close>

record 'f init_args =
  ia_logger :: "nat option"
  ia_meterCollectSecond :: int
  ia_correlation :: limits_config
  ia_ignoreSuffix :: string
  ia_ignorePath :: string

definition init_writes ::
    "entity \<Rightarrow> 'r any_reporter \<Rightarrow> 'f tracer_sampler \<Rightarrow> 'f init_args \<Rightarrow> nat list \<Rightarrow> (('f, 'r) tracer \<Rightarrow> ('f, 'r) tracer) list" where
  "init_writes en rep samp a hooks =
     [\<lambda>t. t\<lparr>tr_ServiceEntity := Some en\<rparr>,
      \<lambda>t. t\<lparr>tr_Reporter := rep\<rparr>,
      \<lambda>t. t\<lparr>tr_Sampler := samp\<rparr>,
      \<lambda>t. (case ia_logger a of None \<Rightarrow> t | Some l \<Rightarrow> t\<lparr>tr_Log := GivenLogger l\<rparr>),
      \<lambda>t. t\<lparr>tr_ProfileManager := Some NewProfileManager\<rparr>,
      \<lambda>t. t\<lparr>tr_profiled := True\<rparr>,
      \<lambda>t. t\<lparr>tr_booted := Some (en, tr_cdsWatchers t)\<rparr>,
      \<lambda>t. t\<lparr>tr_initFlag := 1\<rparr>,
      \<lambda>t. (if ia_meterCollectSecond a < 0 then t else t\<lparr>tr_collect := Some (ia_meterCollectSecond a)\<rparr>),
      \<lambda>t. t\<lparr>tr_correlation := Some (ia_correlation a)\<rparr>,
      \<lambda>t. t\<lparr>tr_ignoreSuffix := split_on CHR '','' (ia_ignoreSuffix a)\<rparr>,
      \<lambda>t. t\<lparr>tr_traceIgnorePath := split_on CHR '','' (ia_ignorePath a)\<rparr>] @
     map (\<lambda>h t. t\<lparr>tr_notified := tr_notified t @ [h]\<rparr>) hooks"

definition Init ::
    "entity \<Rightarrow> 'r any_reporter \<Rightarrow> 'f tracer_sampler \<Rightarrow> 'f init_args \<Rightarrow> nat list \<Rightarrow> ('f, 'r) tracer \<Rightarrow> ('f, 'r) tracer" where
  "Init en rep samp a hooks = fold (\<lambda>f. f) (init_writes en rep samp a hooks)"

text \<open>NewDynamicSampler also registers the sampler as a watcher.\<close>

definition NewDynamicSampler_on :: "'f float_ops \<Rightarrow> 'f \<Rightarrow> ('f, 'r) tracer \<Rightarrow> 'f dynamic_sampler \<times> ('f, 'r) tracer" where
  "NewDynamicSampler_on fl rate t =
     (let s = NewDynamicSampler fl rate in (s, t\<lparr>tr_cdsWatchers := tr_cdsWatchers t @ [s]\<rparr>))"

section \<open>InitTracer\<close>

fun go_bind :: "'a go_run \<Rightarrow> ('a \<Rightarrow> 'b go_run) \<Rightarrow> 'b go_run" where
  "go_bind (Returns x) f = f x"
| "go_bind Panics f = Panics"
| "go_bind NotCompiled f = NotCompiled"

text \<open>
  The function generated from the configuration: rep is what the init function of the reporter returned,
  None for an error; logger is what the linked function of the log frameworks gives; literal_int and
  literal_float are the values the compiler gives to the defaults.
\<close>

definition InitTracer ::
    "(string \<Rightarrow> int option) \<Rightarrow> (string \<Rightarrow> 'f option) \<Rightarrow> 'f float_ops \<Rightarrow> host \<Rightarrow> agent_config \<Rightarrow> 'r option \<Rightarrow> nat option \<Rightarrow>
     nat list \<Rightarrow> ('f, 'r) tracer \<Rightarrow> ('f, 'r) tracer go_run" where
  "InitTracer literal_int literal_float fl h c rep logger hooks t =
     (let env = ho_getenv h
      in case rep of
           None \<Rightarrow> Returns t
         | Some r \<Rightarrow>
             go_bind (NewEntity h (ToGoStringValue env (ag_ServiceName c)) (ToGoStringValue env (ag_InstanceEnvName c))) (\<lambda>en.
             go_bind (ToGoFloatValue literal_float (Sampler.ParseFloat fl) env (ag_Sampler c)) (\<lambda>rate.
             let (samp, t1) = NewDynamicSampler_on fl rate t in
             go_bind (ToGoIntValue literal_int env (mt_CollectInterval (ag_Meter c))) (\<lambda>secs.
             go_bind (ToGoIntValue literal_int env (co_MaxKeyCount (ag_Correlation c))) (\<lambda>keys.
             go_bind (ToGoIntValue literal_int env (co_MaxValueSize (ag_Correlation c))) (\<lambda>size.
               Returns (Init en (GivenReporter r) (Dynamic samp)
                 \<lparr>ia_logger = logger, ia_meterCollectSecond = secs,
                  ia_correlation = \<lparr>cl_MaxKeyCount = keys, cl_MaxValueSize = size\<rparr>,
                  ia_ignoreSuffix = ToGoStringValue env (ag_IgnoreSuffix c),
                  ia_ignorePath = ToGoStringValue env (ag_TraceIgnorePath c)\<rparr> hooks t1)))))))"

section \<open>What operations find\<close>

text \<open>
  An operation reads the tracer of its moment: the environment of Tracing with the fields of the tracer.
  SetCorrelationContextValue reads the limits through a pointer that is nil before Init has set it.
\<close>

definition env_on :: "('f, 'r) tracer \<Rightarrow> env \<Rightarrow> env" where
  "env_on t e =
     e\<lparr>e_init := InitSuccess t, e_ignoreSuffix := tr_ignoreSuffix t, e_traceIgnorePath := tr_traceIgnorePath t\<rparr>"

definition SetCorrelation_on :: "('f, 'r) tracer \<Rightarrow> nat \<Rightarrow> string \<Rightarrow> string \<Rightarrow> 'v world \<Rightarrow> (string, 'v world) result" where
  "SetCorrelation_on t g key value w =
     (case active_correlation g w of
        None \<Rightarrow> Ok w
      | Some k \<Rightarrow>
          (case tr_correlation t of
             None \<Rightarrow> Err ''nil pointer dereference''
           | Some l \<Rightarrow>
               Ok (if int (length value) > cl_MaxValueSize l then w
                   else if int (cc_Len (Some (w_correlations w ! k))) \<ge> cl_MaxKeyCount l then w
                   else set_correlation k (\<lambda>cc. the (cc_Set (Some cc) key value)) w)))"

lemma SetCorrelation_on_limits:
  assumes "tr_correlation t = Some l" "0 \<le> cl_MaxKeyCount l" "0 \<le> cl_MaxValueSize l"
  shows "SetCorrelation_on t g key value w =
    Inr (SetCorrelationContextValue (e\<lparr>e_MaxKeyCount := nat (cl_MaxKeyCount l), e_MaxValueSize := nat (cl_MaxValueSize l)\<rparr>) g key value w)"
  using assms
  by (auto simp: SetCorrelation_on_def SetCorrelationContextValue_def split: option.split)

section \<open>After Init\<close>

lemma fold_notified:
  "fold (\<lambda>f. f) (map (\<lambda>h t. t\<lparr>tr_notified := tr_notified t @ [h]\<rparr>) hooks) t = t\<lparr>tr_notified := tr_notified t @ hooks\<rparr>"
  by (induction hooks arbitrary: t) simp_all

lemma Init_result:
  "Init en rep samp a hooks t =
     t\<lparr>tr_ServiceEntity := Some en, tr_Reporter := rep, tr_Sampler := samp,
       tr_Log := (case ia_logger a of None \<Rightarrow> tr_Log t | Some l \<Rightarrow> GivenLogger l),
       tr_ProfileManager := Some NewProfileManager, tr_profiled := True, tr_booted := Some (en, tr_cdsWatchers t),
       tr_initFlag := 1, tr_collect := (if ia_meterCollectSecond a < 0 then tr_collect t else Some (ia_meterCollectSecond a)),
       tr_correlation := Some (ia_correlation a), tr_ignoreSuffix := split_on CHR '','' (ia_ignoreSuffix a),
       tr_traceIgnorePath := split_on CHR '','' (ia_ignorePath a), tr_notified := tr_notified t @ hooks\<rparr>"
  by (cases "ia_logger a") (simp_all add: Init_def init_writes_def fold_notified)

lemma go_bind_Returns: "go_bind m f = Returns y \<longleftrightarrow> (\<exists>x. m = Returns x \<and> f x = Returns y)"
  by (cases m) simp_all

lemma InitTracer_started:
  assumes "InitTracer li lf fl h c (Some r) logger hooks t = Returns t'"
  shows "InitSuccess t' \<and> tr_correlation t' \<noteq> None \<and> tr_notified t' = tr_notified t @ hooks \<and>
    tr_ignoreSuffix t' = split_on CHR '','' (ToGoStringValue (ho_getenv h) (ag_IgnoreSuffix c)) \<and>
    tr_traceIgnorePath t' = split_on CHR '','' (ToGoStringValue (ho_getenv h) (ag_TraceIgnorePath c)) \<and>
    (\<exists>en rate. tr_ServiceEntity t' = Some en \<and> tr_Sampler t' = Dynamic (NewDynamicSampler fl rate) \<and>
       tr_booted t' = Some (en, tr_cdsWatchers t @ [NewDynamicSampler fl rate]) \<and>
       ToGoFloatValue lf (Sampler.ParseFloat fl) (ho_getenv h) (ag_Sampler c) = Returns rate)"
  using assms
  by (auto simp: InitTracer_def Let_def NewDynamicSampler_on_def go_bind_Returns Init_result InitSuccess_def)

text \<open>A fresh goroutine records a name the agent does not ignore.\<close>

lemma local_fresh:
  assumes "wf_world w" "accepts e g name w" "list_all plugin_opt opts"
  shows "case CreateLocalSpan e g name opts w of (a, w') \<Rightarrow>
    ActiveSpan g w' = Some a \<and> active_correlation g w' \<noteq> None \<and>
    (\<exists>ds sx. w_spans w' ! a = SegSpan RootSegmentSpan ds sx \<and> ds_OperationName ds = name)"
proof -
  let ?w1 = "w\<lparr>w_contexts := w_contexts w @ [NewTracingContext e]\<rparr>" and ?c = "length (w_contexts w)"
  let ?oo = "\<lparr>co_ref = None, co_type = SpanTypeLocal, co_name = name, co_peer = None\<rparr>"
  have wf1: "wf_world ?w1" "?c < length (w_contexts ?w1)"
    using assms(1) by (auto intro!: wf_add_context simp: NewTracingContext_def)
  obtain a b w2 where 2: "createSpan0 e ?c None opts ?oo ?w1 = ((a, b), w2)" by (metis prod.exhaust)
  have N: "createNoop e g name w = ((Some ?c, None, False), ?w1)"
    using assms(2) by (intro createNoop_fresh) (auto simp: accepts_def)
  have s: "e_sampled e" using assms(2) by (simp add: accepts_def)
  from createSpan0_root [OF wf1 assms(3) s 2] obtain ds sx where
    C: "a = length (w_spans w)" "w_spans w2 = w_spans w @ [SegSpan RootSegmentSpan ds sx]"
    "same_core (apply_core_opts ?oo (NewDefaultSpan (e_now e) None)) ds" "sx_Correlation sx = Some (length (w_correlations w))"
    by auto
  have "quiet ?w1 w2" using quiet_createSpan0 [OF wf1 _ 2] by simp
  then have cl: "?c < length (w_contexts (profile_span e False a w2))" by (simp add: quiet_def)
  have "CreateLocalSpan e g name opts w = (a, saveSpanToActive g ?c a (profile_span e False a w2))"
    by (simp add: CreateLocalSpan_def N 2)
  with C cl show ?thesis by (simp add: same_core_def active_correlation_def)
qed


text \<open>
  An agent whose reporter does not start leaves the tracer as it was made, and a goroutine without a
  context gets noop spans whatever the name.
\<close>

theorem failed_reporter_harmless:
  assumes "InitTracer li lf fl h c None logger hooks newTracer = Returns t" "w_gls w g = None"
  shows "t = newTracer \<and> (case CreateLocalSpan (env_on t e) g name opts w of (a, w') \<Rightarrow>
     w_spans w' ! a = NoopSpan 1 \<and> w_gls w' g = None \<and> SetCorrelation_on t g key v w' = Inr w')"
  using assms
  by (auto simp: InitTracer_def CreateLocalSpan_def createNoop_def getTracingContext_def env_on_def InitSuccess_def newTracer_def
      alloc_span_def newNoopSpan_def log_so11y_def SetCorrelation_on_def active_correlation_def ActiveSpan_def)

section \<open>While Init runs\<close>

definition init_prefix where
  "init_prefix k en rep samp a hooks t = fold (\<lambda>f. f) (take k (init_writes en rep samp a hooks)) t"

lemma take_writes:
  assumes "12 \<le> k"
  shows "take k (init_writes en rep samp a hooks) = init_writes en rep samp a (take (k - 12) hooks)"
proof -
  have l: "length (init_writes en rep samp a []) = 12" by (simp add: init_writes_def)
  have "init_writes en rep samp a hs = init_writes en rep samp a [] @ map (\<lambda>h t. t\<lparr>tr_notified := tr_notified t @ [h]\<rparr>) hs" for hs
    by (simp add: init_writes_def)
  note split = this [of hooks] this [of "take (k - 12) hooks"]
  show ?thesis using assms by (simp only: split take_append take_all l take_map)
qed

lemma init_prefix_flags:
  assumes "tr_initFlag t = 0" "tr_correlation t = None"
  shows "InitSuccess (init_prefix k en rep samp a hooks t) \<longleftrightarrow> 8 \<le> k"
    "tr_correlation (init_prefix k en rep samp a hooks t) = None \<longleftrightarrow> k < 10"
    "k < 11 \<Longrightarrow> tr_ignoreSuffix (init_prefix k en rep samp a hooks t) = tr_ignoreSuffix t"
    "k < 12 \<Longrightarrow> tr_traceIgnorePath (init_prefix k en rep samp a hooks t) = tr_traceIgnorePath t"
proof -
  consider "k < 12" | "12 \<le> k" by linarith
  then have "(InitSuccess (init_prefix k en rep samp a hooks t) \<longleftrightarrow> 8 \<le> k) \<and>
    (tr_correlation (init_prefix k en rep samp a hooks t) = None \<longleftrightarrow> k < 10) \<and>
    (k < 11 \<longrightarrow> tr_ignoreSuffix (init_prefix k en rep samp a hooks t) = tr_ignoreSuffix t) \<and>
    (k < 12 \<longrightarrow> tr_traceIgnorePath (init_prefix k en rep samp a hooks t) = tr_traceIgnorePath t)"
  proof cases
    case 1
    then have "k \<in> set [0..<12]" by simp
    then show ?thesis
      by (cases "ia_logger a") (auto simp: upt_rec init_prefix_def init_writes_def InitSuccess_def assms)
  next
    case 2
    then have "init_prefix k en rep samp a hooks t = Init en rep samp a (take (k - 12) hooks) t"
      by (simp add: init_prefix_def Init_def take_writes)
    with 2 show ?thesis by (simp add: Init_result InitSuccess_def)
  qed
  then show "InitSuccess (init_prefix k en rep samp a hooks t) \<longleftrightarrow> 8 \<le> k"
    "tr_correlation (init_prefix k en rep samp a hooks t) = None \<longleftrightarrow> k < 10"
    "k < 11 \<Longrightarrow> tr_ignoreSuffix (init_prefix k en rep samp a hooks t) = tr_ignoreSuffix t"
    "k < 12 \<Longrightarrow> tr_traceIgnorePath (init_prefix k en rep samp a hooks t) = tr_traceIgnorePath t" by blast+
qed

text \<open>
  The flag of the tracer is set three writes before its configuration is complete.  After eight or
  nine writes of Init a goroutine may open a span, which is recorded although the configuration ignores
  its name, and the next SetCorrelationContextValue of that goroutine dereferences a nil pointer; before
  the flag is set and once the limits are there no call can panic.
\<close>

theorem init_window:
  assumes "tr_initFlag t = 0" "tr_correlation t = None" "tr_ignoreSuffix t = []" "tr_traceIgnorePath t = []"
    and p: "t' = init_prefix k en rep samp a hooks t"
    and "wf_world w" "w_gls w g = None" "\<not> e_disconnected e" "e_sampled e" "list_all plugin_opt opts"
    and run: "CreateLocalSpan (env_on t' e) g name opts w = (s, w')"
  shows "((\<exists>p. SetCorrelation_on t' g key v w' = Inl p) = (k \<in> {8, 9})) \<and>
    (if k \<in> {8, 9} then \<exists>ds sx. w_spans w' ! s = SegSpan RootSegmentSpan ds sx \<and> ds_OperationName ds = name else True)"
proof -
  note F = init_prefix_flags [OF assms(1,2), of k en rep samp a hooks, folded p]
  have w: "(\<exists>ds sx. w_spans w' ! s = SegSpan RootSegmentSpan ds sx \<and> ds_OperationName ds = name) \<and> active_correlation g w' \<noteq> None"
    if "k \<in> {8, 9}"
  proof -
    have "accepts (env_on t' e) g name w"
      using that F assms(3,4,7,8,9) by (auto simp: accepts_def env_on_def tracerIgnore_def ignoreSuffix_def traceIgnorePath_def
          split: option.split)
    from local_fresh [OF assms(6) this assms(10)] run show ?thesis by auto
  qed
  have "active_correlation g w' = None" if "k < 8"
    using run that F(1) assms(7) by (auto simp: CreateLocalSpan_def createNoop_def getTracingContext_def env_on_def
        alloc_span_def newNoopSpan_def log_so11y_def active_correlation_def ActiveSpan_def)
  then have "(\<exists>p. SetCorrelation_on t' g key v w' = Inl p) = (k \<in> {8, 9})"
    using w F(2) by (cases "k < 8"; cases "k < 10") (auto simp: SetCorrelation_on_def split: option.split)
  then show ?thesis using w by presburger
qed

section \<open>The entity\<close>

text \<open>
  The entity of a service always has a name of the instance: the one of the environment, or an
  identifier without dashes with the first address that is no loopback; and its properties are the
  number of the process, if it is known, the host, the language, the system and every such address.
\<close>

theorem entity_described:
  assumes "NewEntity h service key = Returns en"
  shows "en_ServiceName en = service \<and> en_ServiceInstanceName en \<noteq> [] \<and>
    (ho_getenv h key = [] \<longrightarrow> (\<exists>u. CHR ''-'' \<notin> set u \<and>
       en_ServiceInstanceName en = u @ ''@'' @ (if AllIPV4 h = [] then ''no-hostname'' else hd (AllIPV4 h)))) \<and>
    map snd (filter (\<lambda>kv. fst kv = ''ipv4'') (en_Props en)) = AllIPV4 h \<and>
    (\<forall>ip\<in>set (AllIPV4 h). \<exists>as. ho_addrs h = Some as \<and> IPNet ip False True \<in> set as) \<and>
    map_of (en_Props en) ''language'' = Some ''go'' \<and>
    map_of (en_Props en) ''Process No.'' = (if ho_pid h > 0 then Some (itoa (ho_pid h)) else None)"
proof -
  have ip: "IPNet ip False True \<in> set as" if "ip \<in> set (ipv4_addrs as)" for ip as
    using that by (induction as rule: ipv4_addrs.induct) (auto split: if_splits)
  have props: "en_Props en = buildOSInfo h" "en_ServiceName en = service"
    using assms by (auto simp: NewEntity_def Let_def split: if_splits option.splits)
  have f: "filter (\<lambda>kv. fst kv = ''ipv4'') (map (Pair ''ipv4'') xs) = map (Pair ''ipv4'') xs" for xs :: "string list"
    by (induction xs) simp_all
  have name: "en_ServiceInstanceName en \<noteq> [] \<and> (ho_getenv h key = [] \<longrightarrow> (\<exists>u. CHR ''-'' \<notin> set u \<and>
       en_ServiceInstanceName en = u @ ''@'' @ (if AllIPV4 h = [] then ''no-hostname'' else hd (AllIPV4 h))))"
  proof (cases "ho_getenv h key = []")
    case True
    then obtain u where u: "UUID h = Some u" "en_ServiceInstanceName en = u @ ''@'' @ IPV4 h"
      using assms by (auto simp: NewEntity_def Let_def split: option.splits)
    have "CHR ''-'' \<notin> set u" using u(1) by (auto simp: UUID_def remove_char_def)
    with u(2) show ?thesis by (auto simp: IPV4_def split: list.splits)
  next
    case False
    then show ?thesis using assms by (auto simp: NewEntity_def Let_def)
  qed
  have i: "itoa (ho_pid h) \<noteq> []" if "ho_pid h > 0" by (simp add: itoa_def)
  have "map_of (map (Pair ''ipv4'') xs) ''Process No.'' = None" for xs :: "string list" by (induction xs) simp_all
  then have "map_of (en_Props en) ''Process No.'' = (if ho_pid h > 0 then Some (itoa (ho_pid h)) else None)"
    using i by (simp add: props buildOSInfo_def ProcessNo_def map_add_def)
  moreover have "\<forall>a\<in>set (AllIPV4 h). \<exists>as. ho_addrs h = Some as \<and> IPNet a False True \<in> set as"
    using ip by (cases "ho_addrs h") (auto simp: AllIPV4_def)
  ultimately show ?thesis
    using name by (simp add: props buildOSInfo_def f comp_def)
qed

section \<open>An agent that starts\<close>

definition plain_value :: "string \<Rightarrow> string_value" where
  "plain_value v = \<lparr>EnvKey = [], Default = v\<rparr>"

definition sample_config :: agent_config where
  "sample_config =
     \<lparr>ag_ServiceName = plain_value ''shop'', ag_InstanceEnvName = plain_value ''SW_INSTANCE'', ag_Sampler = plain_value ''1'',
      ag_Meter = \<lparr>mt_CollectInterval = plain_value ''20''\<rparr>,
      ag_Correlation = \<lparr>co_MaxKeyCount = plain_value ''3'', co_MaxValueSize = plain_value ''128''\<rparr>,
      ag_IgnoreSuffix = \<lparr>EnvKey = ''SW_SUFFIX'', Default = ''.jpg,.ico''\<rparr>, ag_TraceIgnorePath = plain_value ''/health/**''\<rparr>"

definition sample_host :: host where
  "sample_host =
     \<lparr>ho_getenv = (\<lambda>k. []), ho_uuid = Some ''a-b'', ho_pid = 7, ho_hostname = Some ''web'', ho_GOOS = ''linux'',
      ho_addrs = Some [IPNet ''127.0.0.1'' True True, OtherAddr, IPNet ''10.0.0.9'' False True]\<rparr>"

definition unit_floats :: "unit float_ops" where
  "unit_floats = \<lparr>ParseFloat = (\<lambda>s. Some ()), FormatFloat = (\<lambda>x. ''1''), le_zero = (\<lambda>x. False), ge_one = (\<lambda>x. True), percent = (\<lambda>x. 100)\<rparr>"

definition sample_start :: "(unit, unit) tracer go_run" where
  "sample_start = InitTracer (\<lambda>s. Some 3) (\<lambda>s. Some ()) unit_floats sample_host sample_config (Some ()) None [1, 2] newTracer"

lemma sample_started:
  "\<exists>t. sample_start = Returns t \<and> tr_notified t = [1, 2]"
proof -
  let ?v = "ToGoStringValue (ho_getenv sample_host)"
  obtain en where "NewEntity sample_host (?v (ag_ServiceName sample_config)) (?v (ag_InstanceEnvName sample_config)) = Returns en"
    by (simp add: NewEntity_def sample_host_def UUID_def)
  then show ?thesis
    by (simp add: sample_start_def InitTracer_def Let_def NewDynamicSampler_on_def Init_result newTracer_def
        ToGoFloatValue_def ToGoIntValue_def sample_config_def plain_value_def)
qed


definition sample_args :: "unit init_args" where
  "sample_args = \<lparr>ia_logger = None, ia_meterCollectSecond = 20, ia_correlation = \<lparr>cl_MaxKeyCount = 3, cl_MaxValueSize = 128\<rparr>,
     ia_ignoreSuffix = ''.jpg'', ia_ignorePath = []\<rparr>"

definition half_started :: "(unit, unit) tracer" where
  "half_started = init_prefix 8 \<lparr>en_ServiceName = ''shop'', en_ServiceInstanceName = ''i'', en_Props = []\<rparr> (GivenReporter ())
     (Fixed (NewConstSampler True)) sample_args [] newTracer"

lemma init_window_witness:
  "\<exists>p. SetCorrelation_on half_started 1 ''k'' ''v''
     (snd (CreateLocalSpan (env_on half_started sample_env) 1 ''/cart.jpg'' [] (empty_world :: unit world))) = Inl p"
proof -
  have w: "wf_world (empty_world :: unit world)" "w_gls (empty_world :: unit world) 1 = None" "\<not> e_disconnected sample_env" "e_sampled sample_env"
    by (simp_all add: wf_empty sample_env_def) (simp add: empty_world_def)
  have t: "tr_initFlag newTracer = 0" "tr_correlation newTracer = None" "tr_ignoreSuffix newTracer = []" "tr_traceIgnorePath newTracer = []"
    by (simp_all add: newTracer_def)
  show ?thesis
    using init_window [OF t half_started_def w list.pred_inject(1) prod.collapse [symmetric]]
    by blast
qed

end
