(* ===== verification/Plugin_Tools.thy ===== *)
theory Plugin_Tools
  imports Prelude
begin

text \<open>
  The tools the tracer offers to plugins (plugins/core/tracer_tools.go, plugins/core/tools): the reading
  of a field of any struct by filters, and maps that goroutines share.  The conversions of strings are
  with the configuration of plugins, which calls them.

  A value is what reflection shows of it: a pointer to a struct is the list of its fields, each with its
  name, the name of its type and its value.  Which types implement an interface is an argument; the
  argument of WithInterfaceType is a pointer to an interface, as the code takes its element.  A nil
  interface is None.
\<close>

section \<open>Fields\<close>

record 'v struct_field =
  sf_Name :: string
  sf_Type :: string
  sf_Value :: "'v option"

datatype 'v go_instance = PtrToStruct "'v struct_field list" | OtherInstance

record field_filter =
  ff_name :: string
  ff_interfaceType :: "string option"
  ff_typeVal :: "string option"

datatype filter_option = WithFieldName string | WithInterfaceType "string option" | WithType "string option"

definition SetName :: "string \<Rightarrow> field_filter \<Rightarrow> field_filter" where
  "SetName val r = r\<lparr>ff_name := val\<rparr>"

definition SetInterfaceType :: "string option \<Rightarrow> field_filter \<Rightarrow> field_filter" where
  "SetInterfaceType val r = r\<lparr>ff_interfaceType := val\<rparr>"

definition SetType :: "string option \<Rightarrow> field_filter \<Rightarrow> field_filter" where
  "SetType val r = r\<lparr>ff_typeVal := val\<rparr>"

fun apply_filter :: "filter_option \<Rightarrow> field_filter \<Rightarrow> field_filter" where
  "apply_filter (WithFieldName name) = SetName name"
| "apply_filter (WithInterfaceType typeVal) = SetInterfaceType typeVal"
| "apply_filter (WithType typeVal) = SetType typeVal"

definition checkFieldSupport :: "(string \<Rightarrow> string \<Rightarrow> bool) \<Rightarrow> 'v struct_field \<Rightarrow> field_filter \<Rightarrow> bool" where
  "checkFieldSupport implements field r =
     (if ff_name r \<noteq> [] \<and> sf_Name field \<noteq> ff_name r then False
      else (case ff_interfaceType r of
              Some i \<Rightarrow> (if \<not> implements (sf_Type field) i then False
                         else (case ff_typeVal r of Some ty \<Rightarrow> sf_Type field = ty | None \<Rightarrow> True))
            | None \<Rightarrow> (case ff_typeVal r of Some ty \<Rightarrow> sf_Type field = ty | None \<Rightarrow> True)))"

text \<open>The loop over the fields; the value of the first that is supported.\<close>

fun first_supported :: "(string \<Rightarrow> string \<Rightarrow> bool) \<Rightarrow> field_filter \<Rightarrow> 'v struct_field list \<Rightarrow> 'v option" where
  "first_supported implements r [] = None"
| "first_supported implements r (field # fs) =
     (if checkFieldSupport implements field r then sf_Value field else first_supported implements r fs)"

definition ReflectGetValue :: "(string \<Rightarrow> string \<Rightarrow> bool) \<Rightarrow> 'v go_instance \<Rightarrow> filter_option list \<Rightarrow> 'v option" where
  "ReflectGetValue implements inst opts =
     (case inst of
        OtherInstance \<Rightarrow> None
      | PtrToStruct fs \<Rightarrow>
          first_supported implements (fold apply_filter opts \<lparr>ff_name = [], ff_interfaceType = None, ff_typeVal = None\<rparr>) fs)"

definition GetInstanceValueByType ::
    "bool \<Rightarrow> (string \<Rightarrow> string \<Rightarrow> bool) \<Rightarrow> 'v go_instance option \<Rightarrow> filter_option list \<Rightarrow> 'v option" where
  "GetInstanceValueByType installed implements inst filters =
     (case inst of
        None \<Rightarrow> None
      | Some i \<Rightarrow> if filters = [] \<or> \<not> installed then None else ReflectGetValue implements i filters)"

text \<open>What one option asks of a field.\<close>

fun asks :: "(string \<Rightarrow> string \<Rightarrow> bool) \<Rightarrow> 'v struct_field \<Rightarrow> filter_option \<Rightarrow> bool" where
  "asks implements f (WithFieldName n) = (n = [] \<or> sf_Name f = n)"
| "asks implements f (WithInterfaceType i) = (case i of None \<Rightarrow> True | Some i \<Rightarrow> implements (sf_Type f) i)"
| "asks implements f (WithType ty) = (case ty of None \<Rightarrow> True | Some ty \<Rightarrow> sf_Type f = ty)"

fun option_kind :: "filter_option \<Rightarrow> nat" where
  "option_kind (WithFieldName n) = 0"
| "option_kind (WithInterfaceType i) = 1"
| "option_kind (WithType ty) = 2"

text \<open>Of several options of one kind the last counts.\<close>

definition last_of_kind :: "filter_option list \<Rightarrow> filter_option list" where
  "last_of_kind opts = List.concat (map (\<lambda>k. let ps = filter (\<lambda>p. option_kind p = k) opts in if ps = [] then [] else [last ps]) [0, 1, 2])"

lemma fold_apply:
  "checkFieldSupport implements f (fold apply_filter opts r) \<longleftrightarrow>
     (if filter (\<lambda>p. option_kind p = 0) opts = [] then ff_name r = [] \<or> sf_Name f = ff_name r
      else asks implements f (last (filter (\<lambda>p. option_kind p = 0) opts))) \<and>
     (if filter (\<lambda>p. option_kind p = 1) opts = [] then asks implements f (WithInterfaceType (ff_interfaceType r))
      else asks implements f (last (filter (\<lambda>p. option_kind p = 1) opts))) \<and>
     (if filter (\<lambda>p. option_kind p = 2) opts = [] then asks implements f (WithType (ff_typeVal r))
      else asks implements f (last (filter (\<lambda>p. option_kind p = 2) opts)))"
proof (induction opts arbitrary: r)
  case Nil
  then show ?case by (auto simp: checkFieldSupport_def split: option.splits)
next
  case (Cons p opts)
  show ?case by (cases p) (auto simp: Cons.IH SetName_def SetInterfaceType_def SetType_def)
qed

lemma supported_iff:
  "checkFieldSupport implements f (fold apply_filter opts \<lparr>ff_name = [], ff_interfaceType = None, ff_typeVal = None\<rparr>) \<longleftrightarrow>
     (\<forall>p\<in>set (last_of_kind opts). asks implements f p)"
  unfolding fold_apply last_of_kind_def Let_def by (simp add: conj_ac)

text \<open>
  A plugin reads the first field, in the order of the struct, that satisfies the last option of each
  kind; an empty name, a nil interface and a nil type ask for nothing; and it reads nil when there is no
  such field, no pointer to a struct, no option or no agent.
\<close>

theorem field_found:
  "GetInstanceValueByType installed implements inst opts =
     (case inst of
        Some (PtrToStruct fs) \<Rightarrow>
          (if installed \<and> opts \<noteq> []
           then Option.bind (List.find (\<lambda>f. \<forall>p\<in>set (last_of_kind opts). asks implements f p) fs) sf_Value
           else None)
      | _ \<Rightarrow> None)"
proof -
  have "first_supported implements (fold apply_filter opts \<lparr>ff_name = [], ff_interfaceType = None, ff_typeVal = None\<rparr>) fs =
      Option.bind (List.find (\<lambda>f. \<forall>p\<in>set (last_of_kind opts). asks implements f p) fs) sf_Value" for fs :: "'a struct_field list"
    by (induction fs) (simp_all add: supported_iff)
  then show ?thesis
    by (auto simp: GetInstanceValueByType_def ReflectGetValue_def split: option.splits go_instance.splits)
qed

section \<open>Maps\<close>

text \<open>The map of the tracer; without an agent a plugin gets one that keeps nothing.\<close>

datatype 'v sync_map = SyncMap "string \<Rightarrow> 'v option" | DefaultSyncMap

definition NewSyncMap :: "bool \<Rightarrow> 'v sync_map" where
  "NewSyncMap installed = (if installed then SyncMap (\<lambda>_. None) else DefaultSyncMap)"

fun Put :: "string \<Rightarrow> 'v \<Rightarrow> 'v sync_map \<Rightarrow> 'v sync_map" where
  "Put key val (SyncMap d) = SyncMap (d(key := Some val))"
| "Put key val DefaultSyncMap = DefaultSyncMap"

fun Get :: "string \<Rightarrow> 'v sync_map \<Rightarrow> 'v option" where
  "Get key (SyncMap d) = d key"
| "Get key DefaultSyncMap = None"

fun Remove :: "string \<Rightarrow> 'v sync_map \<Rightarrow> 'v option \<times> 'v sync_map" where
  "Remove key (SyncMap d) = (d key, SyncMap (d(key := None)))"
| "Remove key DefaultSyncMap = (None, DefaultSyncMap)"

text \<open>
  The calls of all goroutines on one map, each one atomic: what a Get finds is the last Put of its key
  that no Remove followed.
\<close>

datatype 'v map_call = CPut string 'v | CRemove string

fun call_map :: "'v map_call \<Rightarrow> 'v sync_map \<Rightarrow> 'v sync_map" where
  "call_map (CPut k v) m = Put k v m"
| "call_map (CRemove k) m = snd (Remove k m)"

fun last_put :: "string \<Rightarrow> 'v map_call list \<Rightarrow> 'v option" where
  "last_put key [] = None"
| "last_put key (CPut k v # cs) = (if k = key then Some v else last_put key cs)"
| "last_put key (CRemove k # cs) = (if k = key then None else last_put key cs)"

lemma fold_call_map: "\<exists>d'. fold call_map cs (SyncMap d) = SyncMap d'"
proof (induction cs arbitrary: d)
  case (Cons c cs)
  then show ?case by (cases c) simp_all
qed simp

theorem map_keeps_last:
  "Get key (fold call_map cs (NewSyncMap installed)) = (if installed then last_put key (rev cs) else None)"
proof (induction cs rule: rev_induct)
  case (snoc c cs)
  obtain d where "fold call_map cs (NewSyncMap True) = SyncMap d" using fold_call_map by (metis NewSyncMap_def)
  moreover have "fold call_map cs (NewSyncMap False) = DefaultSyncMap" for cs :: "'a map_call list"
  proof (induction cs)
    case (Cons c cs)
    then show ?case by (cases c) (simp_all add: NewSyncMap_def)
  qed (simp add: NewSyncMap_def)
  ultimately show ?case using snoc.IH by (cases c; cases installed) auto
qed (simp add: NewSyncMap_def)

end
