(* ===== verification/Enhance_Method.thy ===== *)
theory Enhance_Method
  imports Plugin_Match Rewrite_File Compile_Run
begin

text \<open>
  What the tool does to one declaration it enhances (tools/go-agent/instrument/plugins/enhance_method.go,
  enhance_instance.go): the names it generates, the marker it leaves in the method and the call that
  replaces it in the printed file, the imports and the adapters of the delegator file, and the field and
  the two methods of an enhanced struct.

  Paths have slashes.  The caser of package cases is an argument, and so are the bodies of the adapters,
  which are parsed from templates; Interceptor models what those do.  A declaration has the syntax of
  Go_Syntax where it is read and that of Rewrite_Tree where it is generated; to_gexpr is the same tree,
  with an argument for the nodes Go_Syntax does not tell apart.
\<close>

section \<open>Trees\<close>

fun to_gexpr :: "gexpr \<Rightarrow> expr \<Rightarrow> gexpr" and to_gfield :: "gexpr \<Rightarrow> field \<Rightarrow> gfield" where
  "to_gexpr other (Ident n) = E_Ident n"
| "to_gexpr other (StarExpr x) = E_Star (to_gexpr other x)"
| "to_gexpr other (SelectorExpr x sel) = E_Selector (to_gexpr other x) sel"
| "to_gexpr other (Ellipsis x) = E_Ellipsis (Some (to_gexpr other x))"
| "to_gexpr other (ArrayType len x) = E_Array (map_option E_BasicLit len) (to_gexpr other x)"
| "to_gexpr other (MapType k x) = E_Map (to_gexpr other k) (to_gexpr other x)"
| "to_gexpr other (ChanType dir x) = E_Chan (to_gexpr other x)"
| "to_gexpr other (FuncType ps rs) = E_Func None (Some (map (to_gfield other) ps)) (Some (map (to_gfield other) rs))"
| "to_gexpr other (InterfaceType ms) = E_Interface (map (to_gfield other) ms)"
| "to_gexpr other (StructType fs) = E_Struct (map (to_gfield other) fs)"
| "to_gexpr other (TypeAssertExpr x) = E_TypeAssert (to_gexpr other x) None"
| "to_gexpr other OtherExpr = other"
| "to_gfield other (Field ns t tag) = G_Field ns (to_gexpr other t) tag"

section \<open>A method to enhance\<close>

definition GenerateVarPrefix :: string where
  "GenerateVarPrefix = GenerateCommonPrefix @ ''var_''"

record method_enhance =
  me_funcDecl :: func_decl
  me_path :: string
  me_packageName :: string
  me_fullPackage :: string
  me_InstrumentName :: string
  me_InterceptorDefineName :: string
  me_InterceptorGeneratedName :: string
  me_InterceptorVarName :: string
  me_Parameters :: "packaged_parameter_info list"
  me_Recvs :: "packaged_parameter_info list"
  me_Results :: "packaged_parameter_info list"
  me_FuncID :: string
  me_AdapterPreFuncName :: string
  me_AdapterPostFuncName :: string
  me_replacementKey :: string
  me_replacementValue :: string

text \<open>The package name of a point: the one it gives, or the last part of its package.\<close>

definition point_package :: "string \<Rightarrow> point \<Rightarrow> string" where
  "point_package base p = (if pt_PackageName p \<noteq> [] then pt_PackageName p else path_base (join_path base (pt_PackagePath p)))"

text \<open>NewMethodEnhance, with the analyzer of imports it leaves.\<close>

definition NewMethodEnhancement ::
    "(string \<Rightarrow> string) \<Rightarrow> plugin \<Rightarrow> point \<Rightarrow> func_decl \<Rightarrow> string \<Rightarrow> import_analyzer \<Rightarrow> method_enhance \<times> import_analyzer" where
  "NewMethodEnhancement title inst matcher f path a =
     (let fullPackage = join_path (pg_BasePackage inst) (pt_PackagePath matcher);
          pkgName = point_package (pg_BasePackage inst) matcher;
          (ps, params) = EnhanceParameterNamesWithPackagePrefix pkgName (Some (fn_Params f)) FieldListTypeParam;
          (rs, results) = EnhanceParameterNamesWithPackagePrefix pkgName (fn_Results f) FieldListTypeResult;
          (rv, recvs) = EnhanceParameterNamesWithPackagePrefix pkgName (fn_Recv f) FieldListTypeRecv;
          f = \<lparr>fn_Recv = rv, fn_Name = fn_Name f, fn_Params = the ps, fn_Results = rs\<rparr>;
          a = AnalyzeNeedsImports path (the ps) a;
          a = (case rs of None \<Rightarrow> a | Some r \<Rightarrow> AnalyzeNeedsImports path r a);
          funcID = BuildFuncIdentity fullPackage f;
          packageTitle = path_base (title (join_path (pg_BasePackage inst) pkgName))
      in (\<lparr>me_funcDecl = f, me_path = path, me_packageName = pkgName, me_fullPackage = fullPackage,
           me_InstrumentName = pg_Name inst, me_InterceptorDefineName = pt_Interceptor matcher,
           me_InterceptorGeneratedName = TypePrefix @ packageTitle @ pt_Interceptor matcher,
           me_InterceptorVarName = GenerateVarPrefix @ ''interceptor_'' @ funcID,
           me_Parameters = params, me_Recvs = recvs, me_Results = results, me_FuncID = funcID,
           me_AdapterPreFuncName = GenerateMethodPrefix @ funcID,
           me_AdapterPostFuncName = GenerateMethodPrefix @ funcID @ ''_ret'',
           me_replacementKey = [], me_replacementValue = []\<rparr>, a))"

section \<open>The call in the method\<close>

text \<open>The template method_inserts: the call of the first adapter, and the deferred call of the second.\<close>

fun numbered :: "(nat \<Rightarrow> 'a \<Rightarrow> 'b) \<Rightarrow> nat \<Rightarrow> 'a list \<Rightarrow> 'b list" where
  "numbered f i [] = []"
| "numbered f i (x # xs) = f i x # numbered f (Suc i) xs"

definition result_var :: "nat \<Rightarrow> packaged_parameter_info \<Rightarrow> string" where
  "result_var i r = ''_sw_inv_res_'' @ nat_digits i"

definition method_inserts :: "method_enhance \<Rightarrow> string" where
  "method_inserts m =
     ''if '' @ concat (numbered (\<lambda>i r. result_var i r @ '','') 0 (me_Results m)) @
     ''_sw_invocation, _sw_skip := '' @ me_AdapterPreFuncName m @ ''('' @
     concat (numbered (\<lambda>i r. (if i \<noteq> 0 then '','' else []) @ ''&'' @ pi_Name r @ '','') 0 (me_Recvs m)) @
     concat (numbered (\<lambda>i p. (if i \<noteq> 0 then '','' else []) @ ''&'' @ pi_Name p) 0 (me_Parameters m)) @
     ''); _sw_skip { return '' @
     concat (numbered (\<lambda>i r. (if i \<noteq> 0 then '','' else []) @ result_var i r) 0 (me_Results m)) @
     ''} else { defer func() { '' @ me_AdapterPostFuncName m @ ''(_sw_invocation'' @
     concat (map (\<lambda>r. '',&'' @ pi_Name r) (me_Results m)) @ '')}() };''"

definition marker :: string where
  "marker = ''//goagent:enhance_''"

text \<open>BuildForInvoker, with the comments before the body of the method.\<close>

definition BuildForInvoker :: "method_enhance \<Rightarrow> string list \<Rightarrow> method_enhance \<times> string list" where
  "BuildForInvoker m lbrace =
     (let key = marker @ me_FuncID m @ [newline]
      in (m\<lparr>me_replacementKey := key, me_replacementValue := method_inserts m\<rparr>, [[newline], key] @ lbrace))"

text \<open>strings.Replace of the first occurrence.\<close>

definition replace_first :: "string \<Rightarrow> string \<Rightarrow> string \<Rightarrow> string" where
  "replace_first content old new = (case cut old content of None \<Rightarrow> content | Some (b, a) \<Rightarrow> b @ new @ a)"

definition ReplaceFileContent :: "method_enhance \<Rightarrow> string \<Rightarrow> string \<Rightarrow> string" where
  "ReplaceFileContent m path content =
     (if me_path m = path then replace_first content (me_replacementKey m) (me_replacementValue m) else content)"

section \<open>Imports\<close>

definition methodImportAgentCorePackages :: "string list" where
  "methodImportAgentCorePackages = [''log'', ''tracing'', ''operator'', ''metrics'']"

definition appendImport :: "import_spec list \<Rightarrow> string \<Rightarrow> string \<Rightarrow> import_spec list" where
  "appendImport decl name path = decl @ [\<lparr>is_Name = (if name = [] then None else Some name), is_Path = path\<rparr>]"

text \<open>
  The map methodEnhanceAdapterFiles is a set of directories; used are the imports the analyzer found,
  in the order the range visits them.
\<close>

definition MethodBuildImports ::
    "import_spec list \<Rightarrow> method_enhance \<Rightarrow> import_spec list \<times> string set \<Rightarrow> import_spec list \<times> string set" where
  "MethodBuildImports used m s =
     (let (decl, seen) = s;
          (decl, seen) =
            (if path_dir (me_path m) \<notin> seen
             then (appendImport (fold (\<lambda>n d. appendImport d [] (EnhanceFromBasePackage @ ''/'' @ n)) methodImportAgentCorePackages decl)
                     (me_packageName m) (me_fullPackage m),
                   insert (path_dir (me_path m)) seen)
             else (decl, seen))
      in (AppendUsedImports used decl, seen))"

section \<open>The adapters\<close>

definition changeTypeIfNeeds :: "expr \<Rightarrow> expr" where
  "changeTypeIfNeeds tp = (case tp of Ellipsis el \<Rightarrow> ArrayType None el | _ \<Rightarrow> tp)"

definition gfield_of :: "gexpr \<Rightarrow> string \<Rightarrow> expr \<Rightarrow> gfield" where
  "gfield_of other name tp = G_Field [name] (to_gexpr other tp) None"

definition invocation_field :: gfield where
  "invocation_field = G_Field [''invocation''] (E_Star (E_Selector (E_Ident ''operator'') ''realInvocation'')) None"

definition pre_func :: "gexpr \<Rightarrow> gstmt list \<Rightarrow> method_enhance \<Rightarrow> gfunc" where
  "pre_func other body m =
     \<lparr>fd_Decs = Some [], fd_Recv = None, fd_Name = me_AdapterPreFuncName m,
      fd_Params = Some (numbered (\<lambda>i r. gfield_of other (''recv_'' @ nat_digits i) (StarExpr (PackagedType r))) 0 (me_Recvs m) @
        numbered (\<lambda>i p. gfield_of other (''param_'' @ nat_digits i) (StarExpr (changeTypeIfNeeds (PackagedType p)))) 0 (me_Parameters m)),
      fd_Results = Some (numbered (\<lambda>i r. gfield_of other (''ret_'' @ nat_digits i) (PackagedType r)) 0 (me_Results m) @
        [invocation_field, G_Field [''skip''] (E_Ident ''bool'') None]),
      fd_Body = Some body\<rparr>"

definition post_func :: "gexpr \<Rightarrow> gstmt list \<Rightarrow> method_enhance \<Rightarrow> gfunc" where
  "post_func other body m =
     \<lparr>fd_Decs = Some [], fd_Recv = None, fd_Name = me_AdapterPostFuncName m,
      fd_Params = Some (invocation_field #
        numbered (\<lambda>i r. gfield_of other (''ret_'' @ nat_digits i) (StarExpr (PackagedType r))) 0 (me_Results m)),
      fd_Results = Some [], fd_Body = Some body\<rparr>"

definition MethodBuildForDelegator ::
    "gexpr \<Rightarrow> (method_enhance \<Rightarrow> gstmt list) \<Rightarrow> (method_enhance \<Rightarrow> gstmt list) \<Rightarrow> method_enhance \<Rightarrow> gdecl list" where
  "MethodBuildForDelegator other before after m =
     [D_Gen VAR_TOK (Some []) [V_Spec [me_InterceptorVarName m] None
        [E_Unary ''&'' (E_Composite (Some (E_Ident (me_InterceptorGeneratedName m))) [])]],
      D_Func (pre_func other (before m) m), D_Func (post_func other (after m) m)]"

section \<open>An instance to enhance\<close>

definition EnhanceInstanceField :: string where
  "EnhanceInstanceField = ''skywalkingDynamicField''"

record instance_enhance =
  ie_packageName :: string
  ie_typeSpec :: type_spec

text \<open>The type has been matched as a struct.\<close>

definition EnhanceField :: "type_spec \<Rightarrow> type_spec" where
  "EnhanceField ts =
     (case ts_Type ts of
        StructType fs \<Rightarrow> ts\<lparr>ts_Type := StructType (fs @ [Field [EnhanceInstanceField] (Ident ''interface{}'') None])\<rparr>
      | _ \<Rightarrow> ts)"

definition NewInstanceEnhance :: "type_spec \<Rightarrow> string \<Rightarrow> point \<Rightarrow> instance_enhance" where
  "NewInstanceEnhance ts basePackage p = \<lparr>ie_packageName = point_package basePackage p, ie_typeSpec = EnhanceField ts\<rparr>"

definition receiver_field :: "instance_enhance \<Rightarrow> gfield" where
  "receiver_field i =
     G_Field [''receiver''] (E_Star (E_Selector (E_Ident (ie_packageName i)) (ts_Name (ie_typeSpec i)))) None"

definition InstanceBuildForDelegator :: "instance_enhance \<Rightarrow> gdecl list" where
  "InstanceBuildForDelegator i =
     (let dynamic = E_Selector (E_Ident ''receiver'') EnhanceInstanceField
      in [D_Func \<lparr>fd_Decs = Some [], fd_Recv = Some [receiver_field i], fd_Name = ''GetSkyWalkingDynamicField'', fd_Params = Some [],
            fd_Results = Some [G_Field [] (E_Ident ''interface{}'') None], fd_Body = Some [S_Return [dynamic]]\<rparr>,
          D_Func \<lparr>fd_Decs = Some [], fd_Recv = Some [receiver_field i], fd_Name = ''SetSkyWalkingDynamicField'',
            fd_Params = Some [G_Field [''param''] (E_Ident ''interface{}'') None], fd_Results = Some [],
            fd_Body = Some [S_Assign [dynamic] ''='' [E_Ident ''param'']]\<rparr>])"

section \<open>Markers are replaced\<close>

lemma marker_no_border: "0 < j \<Longrightarrow> j < length marker \<Longrightarrow> take (length marker - j) marker \<noteq> drop j marker"
proof -
  have "\<forall>j\<in>set [1..<length marker]. take (length marker - j) marker \<noteq> drop j marker" by (simp add: marker_def upt_rec)
  then show "0 < j \<Longrightarrow> j < length marker \<Longrightarrow> take (length marker - j) marker \<noteq> drop j marker" by auto
qed

lemma marker_not_before:
  assumes "\<nexists>u v. x = u @ marker @ v"
  shows "\<not> occurs_before (marker @ y) x r"
proof
  assume "occurs_before (marker @ y) x r"
  then obtain k z where k: "k < length x" "drop k (x @ (marker @ y) @ r) = (marker @ y) @ z"
    by (auto simp: occurs_before_def has_prefix_iff)
  then have d: "drop k x @ marker @ y @ r = marker @ y @ z" by simp
  show False
  proof (cases "length marker \<le> length (drop k x)")
    case True
    with d have "take (length marker) (drop k x) = marker"
      by (metis append_eq_append_conv_if append_take_drop_id)
    then have "x = take k x @ marker @ drop (length marker) (drop k x)" by (metis append_take_drop_id)
    with assms show False by blast
  next
    case False
    let ?j = "length (drop k x)"
    have j: "0 < ?j" "?j < length marker" using False k(1) by auto
    have "drop ?j (drop k x @ marker @ y @ r) = drop ?j (marker @ y @ z)" by (simp only: d)
    then have "marker @ y @ r = drop ?j marker @ y @ z" using j by simp
    then have "take (length marker - ?j) (marker @ y @ r) = take (length marker - ?j) (drop ?j marker @ y @ z)" by simp
    then have "take (length marker - ?j) marker = drop ?j marker" by simp
    with marker_no_border [OF j] show False by simp
  qed
qed

lemma replace_first_marker:
  assumes "\<nexists>u v. x = u @ marker @ v"
  shows "replace_first (x @ (marker @ y) @ r) (marker @ y) new = x @ new @ r"
  using cut_first [OF _ marker_not_before [OF assms]] by (simp add: replace_first_def marker_def)

text \<open>The text of a file with pieces between insertions.\<close>

definition assembled :: "('a \<Rightarrow> string) \<Rightarrow> (string \<times> 'a) list \<Rightarrow> string \<Rightarrow> string" where
  "assembled f ps rest = concat (map (\<lambda>(t, m). t @ f m) ps) @ rest"

lemma assembled_simps [simp]:
  "assembled f [] rest = rest" "assembled f ((t, m) # ps) rest = t @ f m @ assembled f ps rest"
  by (simp_all add: assembled_def)

definition built :: "method_enhance \<Rightarrow> bool" where
  "built m \<longleftrightarrow> (\<exists>m0 ls. m = fst (BuildForInvoker m0 ls))"

lemma built_key: "built m \<Longrightarrow> \<exists>y. me_replacementKey m = marker @ y"
  by (auto simp: built_def BuildForInvoker_def Let_def)

lemma replace_all:
  assumes "filter (\<lambda>m. me_path m = path) es = map snd ps" "\<forall>m\<in>set es. built m"
    and "\<nexists>u v. done @ assembled me_replacementValue ps rest = u @ marker @ v"
  shows "fold (\<lambda>m. ReplaceFileContent m path) es (done @ assembled me_replacementKey ps rest) =
    done @ assembled me_replacementValue ps rest"
  using assms
proof (induction es arbitrary: ps "done")
  case (Cons m es)
  show ?case
  proof (cases "me_path m = path")
    case True
    then obtain t qs where ps: "ps = (t, m) # qs" using Cons.prems(1) by auto
    obtain y where y: "me_replacementKey m = marker @ y" using built_key Cons.prems(2) by auto
    have "\<nexists>u v. done @ t = u @ marker @ v"
    proof
      assume "\<exists>u v. done @ t = u @ marker @ v"
      then obtain u v where "done @ t = u @ marker @ v" by blast
      then have "done @ assembled me_replacementValue ps rest = u @ marker @ (v @ me_replacementValue m @ assembled me_replacementValue qs rest)"
        by (simp add: ps)
      with Cons.prems(3) show False by blast
    qed
    from replace_first_marker [OF this, of y] have
      "ReplaceFileContent m path (done @ assembled me_replacementKey ps rest) =
         (done @ t @ me_replacementValue m) @ assembled me_replacementKey qs rest"
      using True by (simp add: ReplaceFileContent_def ps y)
    moreover have "\<nexists>u v. (done @ t @ me_replacementValue m) @ assembled me_replacementValue qs rest = u @ marker @ v"
      using Cons.prems(3) by (simp add: ps)
    ultimately show ?thesis
      using Cons.IH [of qs "done @ t @ me_replacementValue m"] Cons.prems(1,2) True by (simp add: ps)
  next
    case False
    then show ?thesis using Cons.IH [of ps "done"] Cons.prems by (simp add: ReplaceFileContent_def)
  qed
qed simp

text \<open>
  After a file was printed, each marker in it becomes the call of the method it stands in, and all
  other text stays: the enhancements of the file are applied in the order of its methods, those of other
  files change nothing, and it does not matter that two methods may have the same marker.  No text of the
  result may contain the text of a marker.
\<close>

theorem markers_replaced:
  assumes "filter (\<lambda>m. me_path m = path) es = map snd ps" "\<forall>m\<in>set es. built m"
    and "\<nexists>u v. assembled me_replacementValue ps rest = u @ marker @ v"
  shows "fold (\<lambda>m. ReplaceFileContent m path) es (assembled me_replacementKey ps rest) = assembled me_replacementValue ps rest"
  using replace_all [OF assms(1,2), of "[]" rest] assms(3) by simp

section \<open>The delegator finds the interceptor\<close>

lemma path_base_last:
  assumes "CHR ''/'' \<notin> set y"
  shows "path_base (x @ CHR ''/'' # y) = y"
proof -
  have "tl (split_on CHR ''/'' (x @ CHR ''/'' # y)) \<noteq> [] \<and> last (split_on CHR ''/'' (x @ CHR ''/'' # y)) = y"
    using split_on_plain [OF assms] by (induction x) (auto split: list.splits if_splits)
  then show ?thesis by (simp add: path_base_def)
qed

lemma generated_prefixes:
  "has_prefix (TypePrefix @ x) GenerateCommonPrefix" "has_prefix (TypePrefix @ x) OperatePrefix"
  "has_prefix (GenerateVarPrefix @ x) GenerateCommonPrefix" "has_prefix (GenerateMethodPrefix @ x) GenerateMethodPrefix"
  by (simp_all add: has_prefix_iff TypePrefix_def OperatePrefix_def GenerateVarPrefix_def)

text \<open>The names of the adapters and of the interceptor's variable and type are left by the rewriting.\<close>

lemma method_names:
  assumes "NewMethodEnhancement title inst p f path a = (m, a')"
  shows "me_packageName m = point_package (pg_BasePackage inst) p"
    "me_InterceptorGeneratedName m = TypePrefix @ path_base (title (join_path (pg_BasePackage inst) (me_packageName m))) @ pt_Interceptor p"
    "me_InterceptorVarName m = GenerateVarPrefix @ ''interceptor_'' @ me_FuncID m"
    "me_AdapterPreFuncName m = GenerateMethodPrefix @ me_FuncID m"
    "me_AdapterPostFuncName m = GenerateMethodPrefix @ me_FuncID m @ ''_ret''"
  using assms by (auto simp: NewMethodEnhancement_def Let_def split: prod.splits)

lemma variable_kept:
  assumes "NewMethodEnhancement title inst p f path a = (m, a')" "rewriteVarNames (rc_rewriteMapping c) \<noteq> []"
  shows "\<exists>c'. process_decl (hd (MethodBuildForDelegator other before after m)) c = Some (hd (MethodBuildForDelegator other before after m), c')"
proof -
  note N = method_names [OF assms(1)]
  have g: "alreadyGenerated c (me_InterceptorVarName m)"
    using generated_prefixes(3) by (simp add: alreadyGenerated_def N)
  have t: "typeIsBasicTypeValueOrEnhanceName (me_InterceptorGeneratedName m)"
    using generated_prefixes(2) by (simp add: typeIsBasicTypeValueOrEnhanceName_def N)
  obtain ms where "rewriteVarNames (rc_rewriteMapping c) = ms \<and> ms \<noteq> []" using assms(2) by blast
  then obtain d where d: "addVarMapping (me_InterceptorVarName m) (me_InterceptorVarName m) c = Some d"
    by (cases ms) (auto simp: addVarMapping_def)
  have v: "enhanceType (E_Unary ''&'' (E_Composite (Some (E_Ident (me_InterceptorGeneratedName m))) [])) In_ValueSpec (- 1) d =
      Some ((E_Unary ''&'' (E_Composite (Some (E_Ident (me_InterceptorGeneratedName m))) []), Keep, no_names), d)"
    using t by (simp add: enhanceType.simps opt_def enhance_ident_def filled_def)
  show ?thesis
    by (simp add: MethodBuildForDelegator_def process_decl_def Var_def g d v opt_def)
qed

lemma adapter_names_kept:
  assumes "NewMethodEnhancement title inst p f path a = (m, a')"
  shows "Func (pre_func other body m) c = Some (f1, c1) \<Longrightarrow> fd_Name f1 = me_AdapterPreFuncName m"
    "Func (post_func other body m) c = Some (f1, c1) \<Longrightarrow> fd_Name f1 = me_AdapterPostFuncName m"
  using generated_prefixes(4)
  by (auto simp: Func_def pre_func_def post_func_def rename_func_def method_names [OF assms] split: Option.bind_splits)

text \<open>
  The generated code fits together after the rewriting.  When the files of the plugin are rewritten
  for the package of the point, the type of its interceptor gets exactly the name the delegator uses,
  unless the type is marked public; rewriting the delegator leaves the variable that holds the
  interceptor as it was generated, and the adapters keep the names the call in the method has.
\<close>

theorem delegator_links:
  assumes m: "NewMethodEnhancement title inst p f path a = (m, a')"
    and caser: "\<forall>x y. title (x @ ''/'' @ y) = title x @ ''/'' @ title y" "CHR ''/'' \<notin> set (title (me_packageName m))"
    and names: "pg_BasePackage inst \<noteq> []" "me_packageName m \<noteq> []"
    and ctx: "rc_titleCase c = title" "rc_currentPackageTitle c = title (me_packageName m)"
      "rewriteVarNames (rc_rewriteMapping c) \<noteq> []" "rewriteTypeNames (rc_rewriteMapping c) \<noteq> []"
    and ty: "\<not> alreadyGenerated c (pt_Interceptor p)" "\<not> ContainsDirective decs DirectivePublic"
  shows "\<exists>c' d. Type (pt_Interceptor p) t decs True c = Some (T_Spec (me_InterceptorGeneratedName m) t, c') \<and>
    findTypeMappingName c' (pt_Interceptor p) = me_InterceptorGeneratedName m \<and>
    process_decl (hd (MethodBuildForDelegator other before after m)) c' = Some (hd (MethodBuildForDelegator other before after m), d) \<and>
    (\<forall>body f1 c1. Func (pre_func other body m) d = Some (f1, c1) \<longrightarrow> fd_Name f1 = me_AdapterPreFuncName m)"
proof -
  note N = method_names [OF m]
  have "join_path (pg_BasePackage inst) (me_packageName m) = pg_BasePackage inst @ ''/'' @ me_packageName m"
    using names by (simp add: join_path_def)
  moreover have "path_base (title (pg_BasePackage inst @ ''/'' @ me_packageName m)) = title (me_packageName m)"
    unfolding caser(1) [rule_format] using path_base_last [OF caser(2)] by simp
  ultimately have g: "me_InterceptorGeneratedName m = TypePrefix @ rc_currentPackageTitle c @ pt_Interceptor p"
    by (simp add: N(2) ctx(2))
  obtain ms where ms: "rewriteTypeNames (rc_rewriteMapping c) = ms" "ms \<noteq> []" using ctx(4) by blast
  then obtain c' where c': "addTypeMapping (pt_Interceptor p) (me_InterceptorGeneratedName m) c = Some c'"
    "findTypeMappingName c' (pt_Interceptor p) = me_InterceptorGeneratedName m"
    "rewriteVarNames (rc_rewriteMapping c') = rewriteVarNames (rc_rewriteMapping c)"
    by (cases ms) (auto simp: addTypeMapping_def findTypeMappingName_def)
  then have "Type (pt_Interceptor p) t decs True c = Some (T_Spec (me_InterceptorGeneratedName m) t, c')"
    using ty by (simp add: Type_def generateTypePrefix_def g Let_def)
  moreover obtain d where "process_decl (hd (MethodBuildForDelegator other before after m)) c' = Some (hd (MethodBuildForDelegator other before after m), d)"
    using variable_kept [OF m] c'(3) ctx(3) by metis
  moreover have "fd_Name f1 = me_AdapterPreFuncName m" if "Func (pre_func other body m) d = Some (f1, c1)" for body f1 c1
    by (rule adapter_names_kept(1) [OF m that])
  ultimately show ?thesis using c'(2) by blast
qed

section \<open>Imports of the delegator\<close>

lemma used_appended:
  "distinct (map is_Path decl) \<Longrightarrow> distinct (map is_Path (AppendUsedImports used decl))"
  "is_Path ` set (AppendUsedImports used decl) = is_Path ` set decl \<union> is_Path ` set used"
proof -
  show "distinct (map is_Path decl) \<Longrightarrow> distinct (map is_Path (AppendUsedImports used decl))"
    unfolding AppendUsedImports_def by (induction used arbitrary: decl) auto
  show "is_Path ` set (AppendUsedImports used decl) = is_Path ` set decl \<union> is_Path ` set used"
    unfolding AppendUsedImports_def by (induction used arbitrary: decl) auto
qed

definition core_imports :: "string list" where
  "core_imports = map (\<lambda>n. EnhanceFromBasePackage @ ''/'' @ n) methodImportAgentCorePackages"

lemma first_imports:
  assumes "path_dir (me_path m) \<notin> seen"
  shows "MethodBuildImports used m ([], seen) =
    (AppendUsedImports used (map (\<lambda>p. \<lparr>is_Name = None, is_Path = p\<rparr>) core_imports @
       [\<lparr>is_Name = (if me_packageName m = [] then None else Some (me_packageName m)), is_Path = me_fullPackage m\<rparr>]),
     insert (path_dir (me_path m)) seen)"
  using assms by (simp add: MethodBuildImports_def appendImport_def methodImportAgentCorePackages_def core_imports_def)

text \<open>
  The delegator of the methods of one directory imports every package once: the packages of the agent
  its adapters use, the package of the first method, which the rewriting drops again, and those the
  parameters of any method need.
\<close>

theorem imports_once:
  assumes "\<forall>m'\<in>set ms. path_dir (me_path m') = path_dir (me_path m)" "path_dir (me_path m) \<notin> seen"
    and "me_fullPackage m \<notin> set core_imports"
    and "fold (MethodBuildImports used) (m # ms) ([], seen) = (decl, seen')"
  shows "distinct (map is_Path decl) \<and>
    set (map is_Path decl) = set core_imports \<union> {me_fullPackage m} \<union> is_Path ` set used \<and>
    seen' = insert (path_dir (me_path m)) seen"
proof -
  define d0 where "d0 = map (\<lambda>p. \<lparr>is_Name = None, is_Path = p\<rparr>) core_imports @
       [\<lparr>is_Name = (if me_packageName m = [] then None else Some (me_packageName m)), is_Path = me_fullPackage m\<rparr>]"
  have c: "distinct core_imports" by (simp add: core_imports_def methodImportAgentCorePackages_def)
  have p0: "map is_Path d0 = core_imports @ [me_fullPackage m]" by (simp add: d0_def comp_def)
  then have 0: "distinct (map is_Path d0)" using c assms(3) by simp
  have s0: "is_Path ` set d0 = set core_imports \<union> {me_fullPackage m}" unfolding set_map [symmetric] p0 by auto
  have again: "AppendUsedImports used d = d" if "is_Path ` set used \<subseteq> is_Path ` set d" for d
    using that unfolding AppendUsedImports_def by (induction used arbitrary: d) auto
  let ?d1 = "AppendUsedImports used d0" and ?s1 = "insert (path_dir (me_path m)) seen"
  have "fold (MethodBuildImports used) ms (?d1, ?s1) = (?d1, ?s1)"
    using assms(1)
  proof (induction ms)
    case (Cons m' ms)
    have "MethodBuildImports used m' (?d1, ?s1) = (?d1, ?s1)"
      using again [of ?d1] used_appended(2) [of used d0] Cons.prems by (simp add: MethodBuildImports_def)
    then show ?case using Cons by simp
  qed simp
  then have "decl = ?d1" "seen' = ?s1" using assms(4) first_imports [OF assms(2)] by (simp_all add: d0_def)
  then show ?thesis using used_appended(1) [OF 0] used_appended(2) [of used d0] s0 by auto
qed

section \<open>A concrete method\<close>

fun capital_letters :: "bool \<Rightarrow> string \<Rightarrow> string" where
  "capital_letters start [] = []"
| "capital_letters start (c # cs) =
     (let n = of_char c :: nat in if start \<and> 97 \<le> n \<and> n \<le> 122 then char_of (n - 32) else c) # capital_letters (c = CHR ''/'') cs"

lemma capital_letters_append: "capital_letters st (x @ CHR ''/'' # y) = capital_letters st x @ CHR ''/'' # capital_letters True y"
  by (induction x arbitrary: st) (auto simp: Let_def)

definition sample_plugin :: plugin where
  "sample_plugin = \<lparr>pg_Name = ''gin'', pg_BasePackage = ''github.com/gin-gonic/gin'', pg_VersionChecker = (\<lambda>v. True), pg_Points = []\<rparr>"

definition sample_point :: point where
  "sample_point = \<lparr>pt_PackagePath = [], pt_At = Plugin_Match.NewMethodEnhance ''*Engine'' ''ServeHTTP'' [],
     pt_Interceptor = ''HTTPInterceptor'', pt_PackageName = []\<rparr>"

definition sample_func :: func_decl where
  "sample_func = \<lparr>fn_Recv = Some [Field [''engine''] (StarExpr (Ident ''Engine'')) None], fn_Name = ''ServeHTTP'',
     fn_Params = [Field [''w''] (SelectorExpr (Ident ''http'') ''ResponseWriter'') None], fn_Results = None\<rparr>"

definition sample_method :: method_enhance where
  "sample_method = fst (NewMethodEnhancement (capital_letters True) sample_plugin sample_point sample_func ''gin.go'' CreateImportAnalyzer)"

definition sample_context :: rw_context where
  "sample_context =
     (NewContext (capital_letters True) ''github.com/gin-gonic/gin'' ''gin'')\<lparr>rc_currentPackageTitle := ''Gin''\<rparr>"

lemma delegator_links_witness:
  "\<exists>c' d. Type (pt_Interceptor sample_point) (E_Struct []) None True sample_context =
      Some (T_Spec (me_InterceptorGeneratedName sample_method) (E_Struct []), c') \<and>
    process_decl (hd (MethodBuildForDelegator (E_Ident []) (\<lambda>m. []) (\<lambda>m. []) sample_method)) c' =
      Some (hd (MethodBuildForDelegator (E_Ident []) (\<lambda>m. []) (\<lambda>m. []) sample_method), d)"
proof -
  let ?t = "capital_letters True"
  obtain a' where m: "NewMethodEnhancement ?t sample_plugin sample_point sample_func ''gin.go'' CreateImportAnalyzer = (sample_method, a')"
    by (metis prod.collapse sample_method_def)
  have n: "me_packageName sample_method = ''gin''"
    unfolding method_names(1) [OF m] by (simp add: point_package_def sample_point_def sample_plugin_def join_path_def path_base_def)
  have t: "?t ''gin'' = ''Gin''" by code_simp
  have s: "CHR ''/'' \<notin> set (?t (me_packageName sample_method))" unfolding n t by simp
  have b: "pg_BasePackage sample_plugin \<noteq> []" "me_packageName sample_method \<noteq> []" by (simp_all add: n sample_plugin_def)
  have x: "rc_titleCase sample_context = ?t" "rc_currentPackageTitle sample_context = ?t (me_packageName sample_method)"
    "rewriteVarNames (rc_rewriteMapping sample_context) \<noteq> []" "rewriteTypeNames (rc_rewriteMapping sample_context) \<noteq> []"
    unfolding n t by (simp_all add: sample_context_def NewContext_def newRewriteFuncMapping_def)
  have g: "\<not> alreadyGenerated sample_context (pt_Interceptor sample_point)"
    unfolding alreadyGenerated_def x by code_simp
  have c: "\<forall>x y. ?t (x @ ''/'' @ y) = ?t x @ ''/'' @ ?t y" by (simp add: capital_letters_append)
  have d: "\<not> ContainsDirective None DirectivePublic" by (simp add: ContainsDirective_def)
  show ?thesis
    using delegator_links [OF m c s b x g d, of "E_Struct []" "E_Ident []" "\<lambda>m. []" "\<lambda>m. []"] by blast
qed

definition sample_built :: method_enhance where
  "sample_built = fst (BuildForInvoker sample_method [])"

lemma markers_replaced_witness:
  "fold (\<lambda>m. ReplaceFileContent m ''gin.go'') [sample_built]
     (''func ServeHTTP() { '' @ me_replacementKey sample_built @ ''}'') =
     ''func ServeHTTP() { '' @ me_replacementValue sample_built @ ''}''"
proof -
  have p: "me_path sample_built = ''gin.go''"
    by (simp add: sample_built_def BuildForInvoker_def sample_method_def NewMethodEnhancement_def Let_def split_beta)
  let ?ps = "[(''func ServeHTTP() { '', sample_built)]"
  have "CHR ''/'' \<notin> set (assembled me_replacementValue ?ps ''}'')" by code_simp
  moreover have "CHR ''/'' \<in> set (u @ marker @ v)" for u v by (simp add: marker_def)
  ultimately have n: "\<nexists>u v. assembled me_replacementValue ?ps ''}'' = u @ marker @ v" by metis
  have "\<forall>m\<in>set [sample_built]. built m" by (auto simp: built_def sample_built_def)
  from markers_replaced [OF _ this n, of "''gin.go''"] show ?thesis by (simp add: p)
qed

end
