(* ===== verification/Plugin_Files.thy ===== *)
theory Plugin_Files
  imports Enhance_Method Plugin_Config
begin

text \<open>
  The files a plugin adds to the package it enhances (tools/go-agent/instrument/plugins/instrument.go,
  from AfterEnhanceFile on): the copies of the agent's support packages and of the plugin's own files, and
  the delegator with the adapters of the enhanced methods.

  File systems, parsing, printing and the templates answer through the record build_tool.  An error of a
  function is its text (Inl), a panic is None.  The error of an output is not told apart from that of a
  later one, as either ends the compilation.
\<close>

section \<open>Arguments\<close>

record dir_entry =
  de_Name :: string
  de_IsDir :: bool

text \<open>A declaration of a parsed configuration file: whether it declares variables, its comments, and its specifications, None for one that is no variable.\<close>

type_synonym config_decl = "bool \<times> string list option \<times> (string \<times> expr) option list"

record build_tool =
  bt_title :: "string \<Rightarrow> string"
  bt_other :: gexpr
  bt_before :: "method_enhance \<Rightarrow> gstmt list"
  bt_after :: "method_enhance \<Rightarrow> gstmt list"
  bt_assignments :: "config_assignment list \<Rightarrow> gstmt list"
  bt_config :: "string list \<Rightarrow> string + string_value option"
  bt_unquote :: "string \<Rightarrow> string option"
  bt_pluginDir :: "string \<Rightarrow> string + dir_entry list"
  bt_pluginFile :: "string \<Rightarrow> string + string"
  bt_sourcePath :: "string option"
  bt_coreDir :: "string \<Rightarrow> string + dir_entry list"
  bt_coreFile :: "string \<Rightarrow> string + string"
  bt_parse :: "string \<Rightarrow> string \<Rightarrow> string + gfile"
  bt_references :: "string \<Rightarrow> string + (ref_node \<times> string list option) list"
  bt_configDecls :: "string \<Rightarrow> string + config_decl list"
  bt_write :: "file_info \<Rightarrow> gfile \<Rightarrow> string option"
  bt_order1 :: "string \<Rightarrow> nat list"
  bt_order2 :: "string \<Rightarrow> nat list"
  bt_writeLinker :: "string option"
  bt_writeDelegator :: "gfile \<Rightarrow> string option"
  bt_used :: "import_analyzer \<Rightarrow> import_spec list"
  bt_DebugDir :: string

section \<open>Enhancements\<close>

datatype enhancement = Method method_enhance | Instance instance_enhance | Config config_enhance

fun PackageName :: "enhancement \<Rightarrow> string" where
  "PackageName (Method m) = me_packageName m"
| "PackageName (Instance i) = ie_packageName i"
| "PackageName (Config e) = []"

definition toolsImports :: string where
  "toolsImports = ''github.com/apache/skywalking-go/plugins/core/tools''"

definition ConfigBuildImports :: "import_spec list \<Rightarrow> import_spec list" where
  "ConfigBuildImports decl =
     (if list_ex (\<lambda>i. is_Path i = toolsImports) decl then decl else decl @ [\<lparr>is_Name = None, is_Path = toolsImports\<rparr>])"

fun BuildImports :: "import_spec list \<Rightarrow> enhancement \<Rightarrow> import_spec list \<times> string set \<Rightarrow> import_spec list \<times> string set" where
  "BuildImports used (Method m) s = MethodBuildImports used m s"
| "BuildImports used (Instance i) s = s"
| "BuildImports used (Config e) s = (ConfigBuildImports (fst s), snd s)"

definition config_func :: "string \<Rightarrow> gstmt list \<Rightarrow> gfunc" where
  "config_func name body =
     \<lparr>fd_Decs = Some [], fd_Recv = None, fd_Name = name, fd_Params = None, fd_Results = None, fd_Body = Some body\<rparr>"

fun EnhanceBuildForDelegator :: "build_tool \<Rightarrow> enhancement \<Rightarrow> gdecl list option" where
  "EnhanceBuildForDelegator b (Method m) = Some (MethodBuildForDelegator (bt_other b) (bt_before b) (bt_after b) m)"
| "EnhanceBuildForDelegator b (Instance i) = Some (InstanceBuildForDelegator i)"
| "EnhanceBuildForDelegator b (Config e) =
     (case BuildForDelegator (bt_config b) e of
        Inl panic \<Rightarrow> None
      | Inr as \<Rightarrow> Some [D_Func (config_func (ce_GenerateConfigFunName e) (bt_assignments b as))])"

fun EnhanceReplaceFileContent :: "enhancement \<Rightarrow> string \<Rightarrow> string \<Rightarrow> string" where
  "EnhanceReplaceFileContent (Method m) path content = ReplaceFileContent m path content"
| "EnhanceReplaceFileContent (Instance i) path content = content"
| "EnhanceReplaceFileContent (Config e) path content = content"

text \<open>The functions to call when the package starts, with whether they wait for the start of the agent.\<close>

fun InitFunctions :: "enhancement \<Rightarrow> (string \<times> bool) list" where
  "InitFunctions (Method m) = []"
| "InitFunctions (Instance i) = []"
| "InitFunctions (Config e) = [(ce_GenerateConfigFunName e, True)]"

section \<open>After a file was printed\<close>

text \<open>The content read from the new path, and what is written there: None when nothing changed.\<close>

definition AfterEnhanceFile :: "enhancement list \<Rightarrow> string \<Rightarrow> string + string \<Rightarrow> string + string option" where
  "AfterEnhanceFile es fromPath readNew =
     (case readNew of
        Inl err \<Rightarrow> Inl err
      | Inr oldContent \<Rightarrow>
          (let content = fold (\<lambda>e. EnhanceReplaceFileContent e fromPath) es oldContent
           in Inr (if oldContent = content then None else Some content)))"

section \<open>Directives of a plugin file\<close>

definition DirectiveNoCopy :: string where
  "DirectiveNoCopy = ''//skywalking:nocopy''"

fun config_specs :: "build_tool \<Rightarrow> plugin \<Rightarrow> string list option \<Rightarrow> (string \<times> expr) option list \<Rightarrow> enhancement list \<Rightarrow> string + enhancement list" where
  "config_specs b inst decs [] es = Inr es"
| "config_specs b inst decs (None # ss) es = Inl ''invalid type of spec for config''"
| "config_specs b inst decs (Some (n, ty) # ss) es =
     (case NewConfigEnhance (bt_unquote b) (pg_Name inst) decs n ty of
        Inl err \<Rightarrow> Inl err
      | Inr e \<Rightarrow> config_specs b inst decs ss (es @ [Config e]))"

fun config_decls :: "build_tool \<Rightarrow> plugin \<Rightarrow> config_decl list \<Rightarrow> enhancement list \<Rightarrow> string + enhancement list" where
  "config_decls b inst [] es = Inr es"
| "config_decls b inst ((isVar, decs, specs) # ds) es =
     (if \<not> isVar \<or> \<not> ContainsDirective decs DirectiveConfig then config_decls b inst ds es
      else (case config_specs b inst decs specs es of Inl err \<Rightarrow> Inl err | Inr es1 \<Rightarrow> config_decls b inst ds es1))"

definition processPluginConfig :: "build_tool \<Rightarrow> plugin \<Rightarrow> string \<Rightarrow> enhancement list \<Rightarrow> string + enhancement list" where
  "processPluginConfig b inst fileContent es =
     (case bt_configDecls b fileContent of Inl err \<Rightarrow> Inl err | Inr ds \<Rightarrow> config_decls b inst ds es)"

text \<open>Whether the file is left out of the copy, with the context and the enhancements after it.\<close>

definition processDirectiveInFile ::
    "build_tool \<Rightarrow> plugin \<Rightarrow> string \<Rightarrow> rw_context \<times> enhancement list \<Rightarrow> (string + bool \<times> rw_context \<times> enhancement list) option" where
  "processDirectiveInFile b inst fileContent s =
     (let (c, es) = s in
      if contains_text fileContent DirectiveNoCopy then Some (Inr (True, c, es))
      else if contains_text fileContent DirectiveNative \<or> contains_text fileContent DirectiveReferenceGenerate then
        (case bt_references b fileContent of
           Inl err \<Rightarrow> Some (Inl err)
         | Inr ds \<Rightarrow> map_option (\<lambda>c1. Inr (True, c1, es)) (IncludeNativeOrReferenceGenerateFiles ds c))
      else if contains_text fileContent DirectiveConfig then
        (case processPluginConfig b inst fileContent es of
           Inl err \<Rightarrow> Some (Inl err)
         | Inr es1 \<Rightarrow> Some (Inr (False, c, es1)))
      else Some (Inr (False, c, es)))"

section \<open>The plugin's own files\<close>

text \<open>filepath.Join with a clean second path, which may be a dot.\<close>

definition join_dir :: "string \<Rightarrow> string \<Rightarrow> string" where
  "join_dir a d = (if d = ''.'' then a else a @ ''/'' @ d)"

definition sub_package :: "string \<Rightarrow> string \<Rightarrow> string" where
  "sub_package pkg base =
     (let rest = (if has_prefix pkg base then drop (length base) pkg else pkg)
      in if rest = [] then ''.'' else drop 1 rest)"

definition debug_base :: "build_tool \<Rightarrow> plugin \<Rightarrow> string \<Rightarrow> string" where
  "debug_base b inst sub =
     (if bt_DebugDir b = [] then []
      else (let p = bt_DebugDir b @ ''/plugins/'' @ pg_Name inst;
                p = (case bt_sourcePath b of None \<Rightarrow> p | Some d \<Rightarrow> join_dir p d)
            in join_dir p sub))"

definition skipped_entry :: "dir_entry \<Rightarrow> bool" where
  "skipped_entry e =
     (de_IsDir e \<or> de_Name e = ''go.mod'' \<or> de_Name e = ''go.sum'' \<or> has_suffix (de_Name e) ''_test.go'')"

fun collect_files ::
    "build_tool \<Rightarrow> plugin \<Rightarrow> string \<Rightarrow> string \<Rightarrow> dir_entry list \<Rightarrow> file_info list \<Rightarrow> rw_context \<times> enhancement list \<Rightarrow>
     (string + file_info list \<times> rw_context \<times> enhancement list) option" where
  "collect_files b inst sub packageName [] fs s = Some (Inr (fs, s))"
| "collect_files b inst sub packageName (entry # entries) fs s =
     (if skipped_entry entry then collect_files b inst sub packageName entries fs s
      else (case bt_pluginFile b (path_join sub (de_Name entry)) of
              Inl err \<Rightarrow> Some (Inl err)
            | Inr readFile \<Rightarrow>
                (case processDirectiveInFile b inst readFile s of
                   None \<Rightarrow> None
                 | Some (Inl err) \<Rightarrow> Some (Inl err)
                 | Some (Inr (shouldContinue, s1)) \<Rightarrow>
                     collect_files b inst sub packageName entries
                       (if shouldContinue then fs
                        else fs @ [NewFileWithDebug packageName (de_Name entry) readFile (debug_base b inst sub)]) s1)))"

text \<open>The outcome of a copy: the paths written, the context and the enhancements.\<close>

type_synonym copied = "(string + string list \<times> rw_context \<times> enhancement list) option"

definition copyFrameworkFS :: "build_tool \<Rightarrow> plugin \<Rightarrow> string \<Rightarrow> string \<Rightarrow> string \<Rightarrow> rw_context \<times> enhancement list \<Rightarrow> copied" where
  "copyFrameworkFS b inst compilePkgFullPath baseDir packageName s =
     (let sub = sub_package compilePkgFullPath (pg_BasePackage inst) in
      case bt_pluginDir b sub of
        Inl err \<Rightarrow> Some (Inl err)
      | Inr entries \<Rightarrow>
          (case collect_files b inst sub packageName entries [] s of
             None \<Rightarrow> None
           | Some (Inl err) \<Rightarrow> Some (Inl err)
           | Some (Inr (files, c, es)) \<Rightarrow>
               map_option (\<lambda>r. case r of Inl err \<Rightarrow> Inl err | Inr (written, c1) \<Rightarrow> Inr (map fst written, c1, es))
                 (MultipleFilesWithWritten (bt_parse b) (bt_write b) (bt_order1 b sub) (bt_order2 b sub)
                    ''skywalking_enhance_'' baseDir packageName files c)))"

section \<open>The agent's support packages\<close>

fun core_files :: "build_tool \<Rightarrow> string \<Rightarrow> dir_entry list \<Rightarrow> string + file_info list" where
  "core_files b dir [] = Inr []"
| "core_files b dir (entry # entries) =
     (if has_suffix (de_Name entry) ''_test.go'' \<or> has_suffix (de_Name entry) ''_test_base.go'' then core_files b dir entries
      else (case bt_coreFile b (to_slash (path_join dir (de_Name entry))) of
              Inl err \<Rightarrow> Inl err
            | Inr file \<Rightarrow>
                (case core_files b dir entries of
                   Inl err \<Rightarrow> Inl err
                 | Inr fs \<Rightarrow>
                     Inr ((if bt_DebugDir b \<noteq> [] then NewFileWithDebug dir (de_Name entry) file (bt_DebugDir b @ ''/plugins/core/'' @ dir)
                           else NewFile dir (de_Name entry) file) # fs))))"

fun copy_core_dirs :: "build_tool \<Rightarrow> string \<Rightarrow> string list \<Rightarrow> rw_context \<Rightarrow> (string + string list \<times> rw_context) option" where
  "copy_core_dirs b baseDir [] c = Some (Inr ([], c))"
| "copy_core_dirs b baseDir (dir # dirs) c =
     (case bt_coreDir b dir of
        Inl err \<Rightarrow> Some (Inl err)
      | Inr entries \<Rightarrow>
          (case core_files b dir entries of
             Inl err \<Rightarrow> Some (Inl err)
           | Inr files \<Rightarrow>
               (case MultipleFilesWithWritten (bt_parse b) (bt_write b) (bt_order1 b dir) (bt_order2 b dir)
                       ''skywalking_agent_core_'' baseDir (path_base dir) files c of
                  None \<Rightarrow> None
                | Some (Inl err) \<Rightarrow> Some (Inl err)
                | Some (Inr (written, c1)) \<Rightarrow>
                    map_option (\<lambda>r. case r of Inl err \<Rightarrow> Inl err | Inr (rest, c2) \<Rightarrow> Inr (map fst written @ rest, c2))
                      (copy_core_dirs b baseDir dirs c1))))"

definition copyOperatorsFS :: "build_tool \<Rightarrow> string \<Rightarrow> rw_context \<Rightarrow> (string + string list \<times> rw_context) option" where
  "copyOperatorsFS b baseDir c =
     map_option (\<lambda>r. case r of
         Inl err \<Rightarrow> Inl err
       | Inr (paths, c1) \<Rightarrow>
           (case bt_writeLinker b of
              Some err \<Rightarrow> Inl err
            | None \<Rightarrow> Inr (paths @ [path_join baseDir ''skywalking_agent_core_linker.go''], c1)))
       (copy_core_dirs b baseDir OperatorDirs c)"

section \<open>The delegator\<close>

definition AppendTracerInitNotify :: string where
  "AppendTracerInitNotify = VarPrefix @ ''OperatorAppendInitNotify''"

definition init_stmt :: "string \<times> bool \<Rightarrow> gstmt" where
  "init_stmt f =
     (if snd f then S_Expr (E_Call (E_Ident AppendTracerInitNotify) [E_Ident (fst f)]) else S_Expr (E_Call (E_Ident (fst f)) []))"

fun delegator_decls :: "build_tool \<Rightarrow> enhancement list \<Rightarrow> gdecl list option" where
  "delegator_decls b [] = Some []"
| "delegator_decls b (e # es) =
     do { ds \<leftarrow> EnhanceBuildForDelegator b e; rest \<leftarrow> delegator_decls b es; Some (ds @ rest) }"

definition init_func :: "gstmt list \<Rightarrow> gfunc" where
  "init_func body =
     \<lparr>fd_Decs = Some [], fd_Recv = None, fd_Name = ''init'', fd_Params = None, fd_Results = None, fd_Body = Some body\<rparr>"

text \<open>The statements appended to the init function, which is the first declaration.\<close>

definition append_init :: "gstmt list \<Rightarrow> gfile \<Rightarrow> gfile" where
  "append_init ss f =
     (case file_Decls f of
        D_Func g # ds \<Rightarrow> f\<lparr>file_Decls := D_Func (g\<lparr>fd_Body := map_option (\<lambda>body. body @ ss) (fd_Body g)\<rparr>) # ds\<rparr>
      | _ \<Rightarrow> f)"

definition delegator_file :: "build_tool \<Rightarrow> enhancement list \<Rightarrow> import_analyzer \<Rightarrow> string set \<Rightarrow> (gfile \<times> string set) option" where
  "delegator_file b es a seen =
     (let (imports, seen1) = fold (BuildImports (bt_used b a)) es ([], seen)
      in map_option (\<lambda>decls.
           (\<lparr>file_Name = ''delegator'', file_Imports = [imports],
             file_Decls = D_Func (init_func (map init_stmt (concat (map InitFunctions es)))) # decls\<rparr>, seen1))
         (delegator_decls b es))"

definition rewritten_delegator :: "gfile \<Rightarrow> rw_context \<Rightarrow> (gfile \<times> rw_context) option" where
  "rewritten_delegator f c =
     do { (f1, c1) \<leftarrow> SingleFile f c;
          Some (append_init (map (\<lambda>n. init_stmt (n, True)) (rc_InitFuncDetector c1)) f1, c1) }"

definition writeDelegatorFile ::
    "build_tool \<Rightarrow> string \<Rightarrow> rw_context \<Rightarrow> enhancement list \<Rightarrow> import_analyzer \<Rightarrow> string set \<Rightarrow>
     (string + string list \<times> gfile \<times> string set) option" where
  "writeDelegatorFile b basePath c es a seen =
     do {
       (f, seen1) \<leftarrow> delegator_file b es a seen;
       (f1, c1) \<leftarrow> rewritten_delegator f c;
       Some (case bt_writeDelegator b f1 of
               Some err \<Rightarrow> Inl err
             | None \<Rightarrow> Inr ([path_join basePath ''skywalking_delegator.go''], f1, seen1))
     }"

section \<open>All extra files\<close>

record plugin_run = instrument_state +
  pr_enhancements :: "enhancement list"
  pr_extraFilesWrote :: bool
  pr_analyzer :: import_analyzer
  pr_adapterDirs :: "string set"

fun first_package :: "enhancement list \<Rightarrow> string \<Rightarrow> string" where
  "first_package [] d = d"
| "first_package (e # es) d = (if PackageName e \<noteq> [] then PackageName e else first_package es d)"

definition write_extra :: "build_tool \<Rightarrow> string \<Rightarrow> plugin \<Rightarrow> plugin_run \<Rightarrow> (string + string list \<times> gfile \<times> plugin_run) option" where
  "write_extra b basePath inst i =
     (let pkg = in_Package i;
          packageName = first_package (pr_enhancements i) (path_base pkg);
          i = i\<lparr>pr_extraFilesWrote := True\<rparr>
      in case copyOperatorsFS b basePath (NewContext (bt_title b) pkg packageName) of
           None \<Rightarrow> None
         | Some (Inl err) \<Rightarrow> Some (Inl err)
         | Some (Inr (files1, c1)) \<Rightarrow>
             (case copyFrameworkFS b inst pkg basePath packageName (c1, pr_enhancements i) of
                None \<Rightarrow> None
              | Some (Inl err) \<Rightarrow> Some (Inl err)
              | Some (Inr (files2, c2, es)) \<Rightarrow>
                  map_option (\<lambda>r. case r of
                      Inl err \<Rightarrow> Inl err
                    | Inr (files3, f, seen) \<Rightarrow>
                        Inr (files1 @ files2 @ files3, f, i\<lparr>pr_enhancements := es, pr_adapterDirs := seen\<rparr>))
                    (writeDelegatorFile b basePath c2 es (pr_analyzer i) (pr_adapterDirs i))))"

text \<open>WriteExtraFiles; the delegator that was written, if one was, is returned as well.\<close>

definition WriteExtraFiles :: "build_tool \<Rightarrow> string \<Rightarrow> plugin_run \<Rightarrow> (string + string list \<times> gfile option \<times> plugin_run) option" where
  "WriteExtraFiles b basePath i =
     (if (pr_enhancements i = [] \<and> \<not> in_forceEnhance i) \<or> pr_extraFilesWrote i then Some (Inr ([], None, i))
      else (case in_realInst i of
              None \<Rightarrow> None
            | Some inst \<Rightarrow>
                map_option (\<lambda>r. case r of Inl err \<Rightarrow> Inl err | Inr (fs, f, i1) \<Rightarrow> Inr (fs, Some f, i1)) (write_extra b basePath inst i)))"

end
