(* ===== verification/Delegator.thy ===== *)
theory Delegator
  imports Plugin_Files Rewrite_Props
begin

text \<open>
  Properties of the files a plugin adds: what is copied, that it happens once, and that the delegator after
  its rewriting has everything the other files refer to.
\<close>

section \<open>What the rewriting of a declaration keeps\<close>

definition same_titles :: "rw_context \<Rightarrow> rw_context \<Rightarrow> bool" where
  "same_titles c d \<longleftrightarrow> rc_titleCase d = rc_titleCase c \<and> rc_currentPackageTitle d = rc_currentPackageTitle c"

lemma same_titles_setting: "same_setting c d \<Longrightarrow> same_titles c d"
  by (simp add: same_setting_def same_titles_def)

interpretation titling: declaration_relation same_titles
proof unfold_locales
  show "same_titles c e" if "same_titles (pushBlockStack c) d" "popBlockStack d = Some e" for c d e
    using that same_setting_steps(3) [of c] same_setting_steps(4) [of d e] by (simp add: same_setting_def same_titles_def)
qed (simp add: same_titles_def, simp add: same_titles_def,
    (rule same_titles_setting, rule same_setting_steps; assumption)+, simp add: same_titles_def appendInitFunction_def)

lemma titles_kept: "process_decl d c = Some (e, c1) \<Longrightarrow> same_titles c c1"
  using titling.leads_decl [of c d] by (simp add: leads_def)

lemma each_result:
  assumes "each f i xs s = Some (ys, t)" "x \<in> set xs"
    and "\<And>i x y s t. f i x s = Some (y, t) \<Longrightarrow> Q s t" "\<And>s. Q s s" "\<And>s t u. Q s t \<Longrightarrow> Q t u \<Longrightarrow> Q s u"
  shows "\<exists>j y s1 t1. f j x s1 = Some (y, t1) \<and> Q s s1 \<and> y \<in> set ys"
  using assms(1,2)
proof (induction xs arbitrary: i s ys)
  case (Cons a xs)
  from Cons.prems(1) obtain y s1 ys' where y: "f i a s = Some (y, s1)" and rest: "each f (Suc i) xs s1 = Some (ys', t)"
    and ys: "ys = y # ys'" by (auto simp: Option.bind_eq_Some_conv)
  show ?case
  proof (cases "x = a")
    case True
    with y ys assms(4) show ?thesis by force
  next
    case False
    with Cons.IH [OF rest] Cons.prems(2) obtain j y' s' t' where "f j x s' = Some (y', t') \<and> Q s1 s' \<and> y' \<in> set ys'" by auto
    with assms(3) [OF y] assms(5) ys show ?thesis by force
  qed
qed simp

lemma function_renamed:
  assumes "each (\<lambda>i. process_decl) k ds c = Some (ds1, c1)" "D_Func g \<in> set ds" "fd_Recv g = None"
  shows "\<exists>h s. D_Func h \<in> set ds1 \<and> same_titles c s \<and> fd_Name h = fd_Name (rename_func g s)"
proof -
  have "\<exists>(j :: nat) y s t. process_decl (D_Func g) s = Some (y, t) \<and> same_titles c s \<and> y \<in> set ds1"
    by (rule each_result [where Q = same_titles, OF assms(1,2)]) (erule titles_kept, rule titling.R_refl, erule titling.R_trans)
  then obtain y s t where y: "process_decl (D_Func g) s = Some (y, t)" "same_titles c s" "y \<in> set ds1" by blast
  then obtain h where "y = D_Func h" "fd_Name h = fd_Name (rename_func g s)"
    using assms(3) by (auto simp: process_decl_def Func_def Option.bind_eq_Some_conv)
  with y show ?thesis by blast
qed

section \<open>The init function\<close>

definition unmapped :: "rw_context \<Rightarrow> string \<Rightarrow> bool" where
  "unmapped c n \<longleftrightarrow> plain_name n \<and> \<not> contains_text n BeforeInterStart \<and>
     findVarMappingName c n = [] \<and> findTypeMappingName c n = [] \<and> findNativeTypeMapping c n = None"

lemma init_stmt_rewritten:
  assumes "unmapped c n"
  shows "enhanceFuncStmt (init_stmt (n, True)) c = Some (init_stmt (StaticMethodPrefix @ rc_currentPackageTitle c @ n, True), c)"
proof -
  have a: "enhanceType (E_Ident AppendTracerInitNotify) In_Call (- 1) c = Some ((E_Ident AppendTracerInitNotify, Keep, no_names), c)"
    by (simp add: enhanceType.simps enhance_ident_def AppendTracerInitNotify_def)
  have n: "enhanceType (E_Ident n) In_Call i c =
      Some ((E_Ident (StaticMethodPrefix @ rc_currentPackageTitle c @ n), Keep, (n, StaticMethodPrefix @ rc_currentPackageTitle c @ n)), c)" for i
    using assms by (simp add: enhanceType.simps enhance_ident_def unmapped_def plain_name_def Let_def)
  have "enhanceType (E_Call (E_Ident AppendTracerInitNotify) [E_Ident n]) In_Other (- 1) c =
      Some ((E_Call (E_Ident AppendTracerInitNotify) [E_Ident (StaticMethodPrefix @ rc_currentPackageTitle c @ n)], Keep, no_names), c)"
    by (subst enhanceType.simps) (simp add: n a overridden_def called_def filled_def)
  then show ?thesis by (simp add: init_stmt_def enhanceFuncStmt.simps)
qed

lemma init_body_rewritten:
  assumes "\<forall>f\<in>set fs. snd f \<and> unmapped c (fst f)"
  shows "each (\<lambda>i. enhanceFuncStmt) k (map init_stmt fs) c =
    Some (map (\<lambda>f. init_stmt (StaticMethodPrefix @ rc_currentPackageTitle c @ fst f, True)) fs, c)"
  using assms
proof (induction fs arbitrary: k)
  case (Cons f fs)
  obtain n where n: "f = (n, True)" "unmapped c n" using Cons.prems by (cases f) auto
  have fs: "\<forall>f\<in>set fs. snd f \<and> unmapped c (fst f)" using Cons.prems by simp
  show ?case using init_stmt_rewritten [OF n(2)] Cons.IH [OF fs] by (simp add: n(1))
qed simp

lemma init_func_rewritten:
  assumes "\<forall>f\<in>set fs. snd f \<and> unmapped c (fst f)"
  shows "process_decl (D_Func (init_func (map init_stmt fs))) c =
    Some (D_Func (init_func (map (\<lambda>f. init_stmt (StaticMethodPrefix @ rc_currentPackageTitle c @ fst f, True)) fs)), c)"
  by (simp add: process_decl_def Func_def init_func_def rename_func_def isInitFunc_def no_list_def initFunctionDetector_def
      FindDirective_def enhanceFuncParameter.simps opt_def init_body_rewritten [OF assms])

section \<open>The delegator is complete\<close>

lemma imports_keep_names:
  "rc_rewriteMapping (snd (process_imports imps c)) = rc_rewriteMapping c \<and> same_titles c (snd (process_imports imps c)) \<and>
   rc_InitFuncDetector (snd (process_imports imps c)) = rc_InitFuncDetector c"
proof (induction imps arbitrary: c)
  case (Cons imp imps)
  have "rc_rewriteMapping (fst (Import imp c)) = rc_rewriteMapping c \<and> same_titles c (fst (Import imp c)) \<and>
      rc_InitFuncDetector (fst (Import imp c)) = rc_InitFuncDetector c"
    by (simp add: Import_def Let_def same_titles_def)
  with Cons.IH [of "fst (Import imp c)"] show ?case by (simp add: case_prod_beta Let_def same_titles_def)
qed (simp add: same_titles_def)

lemma import_decls_keep_names:
  "rc_rewriteMapping (snd (process_import_decls gens c)) = rc_rewriteMapping c \<and> same_titles c (snd (process_import_decls gens c))"
proof (induction gens arbitrary: c)
  case (Cons gen gens)
  with imports_keep_names [of gen c] show ?case by (simp add: case_prod_beta Let_def same_titles_def)
qed (simp add: same_titles_def)

lemma unmapped_same:
  "rc_rewriteMapping d = rc_rewriteMapping c \<Longrightarrow> unmapped d n = unmapped c n"
  by (simp add: unmapped_def findVarMappingName_def findTypeMappingName_def findNativeTypeMapping_def)

lemma config_name_plain: "plain_name (''initConfig'' @ v)"
  by (simp add: plain_name_def typeIsBasicTypeValueOrEnhanceName_def callIsBasicNamesOrEnhanceName_def has_prefix_def
      OperatePrefix_def GenerateMethodPrefix_def GenerateCommonPrefix_def IsBasicDataType_def basicDataTypes_def float_word_def to_lower_def)

lemma delegator_member:
  "delegator_decls b es = Some ds \<Longrightarrow> e \<in> set es \<Longrightarrow> \<exists>es'. EnhanceBuildForDelegator b e = Some es' \<and> set es' \<subseteq> set ds"
proof (induction es arbitrary: ds)
  case (Cons a es)
  then obtain y ya where y: "EnhanceBuildForDelegator b a = Some y" "delegator_decls b es = Some ya" "ds = y @ ya"
    by (auto simp: Option.bind_eq_Some_conv)
  with Cons.IH [OF y(2)] Cons.prems(2) show ?case by (cases "e = a") auto
qed simp

definition named_function :: "gfile \<Rightarrow> string \<Rightarrow> bool" where
  "named_function f n \<longleftrightarrow> (\<exists>h. D_Func h \<in> set (file_Decls f) \<and> fd_Name h = n)"

definition runs_at_start :: "gfile \<Rightarrow> string \<Rightarrow> bool" where
  "runs_at_start f n \<longleftrightarrow> (\<exists>body ds. file_Decls f = D_Func (init_func body) # ds \<and> init_stmt (n, True) \<in> set body)"

definition config_func_name :: "rw_context \<Rightarrow> config_enhance \<Rightarrow> string" where
  "config_func_name c e = StaticMethodPrefix @ rc_titleCase c (rc_targetPackage c) @ ce_GenerateConfigFunName e"

lemma rewritten_delegator_shape:
  assumes f: "delegator_file b es a seen = Some (f, seen1)" and w: "rewritten_delegator f c = Some (f1, c1)"
    and names: "\<forall>fn\<in>set (concat (map InitFunctions es)). snd fn \<and> unmapped c (fst fn)"
  obtains ds ds1 c0 where "delegator_decls b es = Some ds" "same_titles (c\<lparr>rc_currentPackageTitle := rc_titleCase c (rc_targetPackage c)\<rparr>) c0"
    "each (\<lambda>i. process_decl) 1 ds c0 = Some (ds1, c1)"
    "file_Decls f1 = D_Func (init_func
       (map (\<lambda>fn. init_stmt (StaticMethodPrefix @ rc_titleCase c (rc_targetPackage c) @ fst fn, True)) (concat (map InitFunctions es)) @
        map (\<lambda>n. init_stmt (n, True)) (rc_InitFuncDetector c1))) # ds1"
proof -
  let ?c = "c\<lparr>rc_currentPackageTitle := rc_titleCase c (rc_targetPackage c)\<rparr>" and ?fs = "concat (map InitFunctions es)"
  obtain ds imps where ds: "delegator_decls b es = Some ds"
    and f': "f = \<lparr>file_Name = ''delegator'', file_Imports = [imps], file_Decls = D_Func (init_func (map init_stmt ?fs)) # ds\<rparr>"
    using f by (auto simp: delegator_file_def split: prod.splits)
  obtain gens ci where i: "process_import_decls [imps] ?c = (gens, ci)" by (cases "process_import_decls [imps] ?c")
  define c0 where "c0 = ci\<lparr>rc_imports := gens\<rparr>"
  from import_decls_keep_names [of "[imps]" ?c] i have m: "rc_rewriteMapping c0 = rc_rewriteMapping c" "same_titles ?c c0"
    by (simp_all add: c0_def same_titles_def)
  have fs: "\<forall>fn\<in>set ?fs. snd fn \<and> unmapped c0 (fst fn)" using names unmapped_same [OF m(1)] by simp
  note I = init_func_rewritten [OF fs]
  obtain f2 where sf: "SingleFile f c = Some (f2, c1)"
    and f1: "f1 = append_init (map (\<lambda>n. init_stmt (n, True)) (rc_InitFuncDetector c1)) f2"
    using w by (auto simp: rewritten_delegator_def Option.bind_eq_Some_conv)
  have t: "rc_currentPackageTitle c0 = rc_titleCase c (rc_targetPackage c)" using m(2) by (simp add: same_titles_def)
  from sf i obtain all where all: "each (\<lambda>i. process_decl) 0 (D_Func (init_func (map init_stmt ?fs)) # ds) c0 = Some (all, c1)"
    and f2: "file_Decls f2 = all"
    by (auto simp: SingleFile_def processSingleFile_def f' c0_def RemoveImportDefineIfNoPackage_def Option.bind_eq_Some_conv split_beta
        simp del: each.simps)
  from all I obtain ds1 where ds1: "each (\<lambda>i. process_decl) 1 ds c0 = Some (ds1, c1)"
    "all = D_Func (init_func (map (\<lambda>fn. init_stmt (StaticMethodPrefix @ rc_titleCase c (rc_targetPackage c) @ fst fn, True)) ?fs)) # ds1"
    by (auto simp: t Option.bind_eq_Some_conv)
  then have "file_Decls f1 = D_Func (init_func
       (map (\<lambda>fn. init_stmt (StaticMethodPrefix @ rc_titleCase c (rc_targetPackage c) @ fst fn, True)) ?fs @
        map (\<lambda>n. init_stmt (n, True)) (rc_InitFuncDetector c1))) # ds1"
    by (simp add: f1 append_init_def f2 init_func_def)
  with that ds m(2) ds1(1) show thesis by blast
qed

lemma delegator_declares:
  assumes "delegator_decls b es = Some ds" "each (\<lambda>i. process_decl) 1 ds c0 = Some (ds1, c1)" "file_Decls f1 = d # ds1"
    and "e \<in> set es" "EnhanceBuildForDelegator b e = Some es'" "D_Func g \<in> set es'" "fd_Recv g = None"
    and "\<And>s. same_titles c0 s \<Longrightarrow> fd_Name (rename_func g s) = n"
  shows "named_function f1 n"
proof -
  have "D_Func g \<in> set ds" using delegator_member [OF assms(1,4)] assms(5,6) by auto
  from function_renamed [OF assms(2) this assms(7)] assms(8) show ?thesis unfolding named_function_def assms(3) by fastforce
qed

lemma config_declared:
  assumes "delegator_decls b es = Some ds" "each (\<lambda>i. process_decl) 1 ds c0 = Some (ds1, c1)" "file_Decls f1 = d # ds1"
    and "same_titles (c\<lparr>rc_currentPackageTitle := rc_titleCase c (rc_targetPackage c)\<rparr>) c0"
    and "Config e \<in> set es" "ce_GenerateConfigFunName e = ''initConfig'' @ ce_VarName e"
  shows "named_function f1 (config_func_name c e)"
proof -
  obtain as where as: "EnhanceBuildForDelegator b (Config e) = Some [D_Func (config_func (ce_GenerateConfigFunName e) (bt_assignments b as))]"
    using delegator_member [OF assms(1,5)] by (auto split: sum.splits)
  have n: "\<not> has_prefix (ce_GenerateConfigFunName e) GenerateMethodPrefix" "ce_GenerateConfigFunName e \<noteq> ''init''"
    using assms(6) by (auto simp: has_prefix_def GenerateMethodPrefix_def GenerateCommonPrefix_def)
  show ?thesis
  proof (rule delegator_declares [OF assms(1-3,5) as])
    show "D_Func (config_func (ce_GenerateConfigFunName e) (bt_assignments b as)) \<in> set [D_Func (config_func (ce_GenerateConfigFunName e) (bt_assignments b as))]"
      by simp
    show "fd_Name (rename_func (config_func (ce_GenerateConfigFunName e) (bt_assignments b as)) s) = config_func_name c e" if "same_titles c0 s" for s
      using that assms(4) n by (simp add: rename_func_def config_func_def isInitFunc_def config_func_name_def same_titles_def ContainsDirective_def)
  qed (simp add: config_func_def)
qed

lemma adapters_declared:
  assumes "delegator_decls b es = Some ds" "each (\<lambda>i. process_decl) 1 ds c0 = Some (ds1, c1)" "file_Decls f1 = d # ds1"
    and "Method m \<in> set es" "me_AdapterPreFuncName m = GenerateMethodPrefix @ i" "me_AdapterPostFuncName m = GenerateMethodPrefix @ j"
  shows "named_function f1 (me_AdapterPreFuncName m) \<and> named_function f1 (me_AdapterPostFuncName m)"
proof -
  have "fd_Name (rename_func (pre_func other body m) s) = me_AdapterPreFuncName m"
    "fd_Name (rename_func (post_func other body m) s) = me_AdapterPostFuncName m" for other body s
    using assms(5,6) by (simp_all add: rename_func_def pre_func_def post_func_def)
  note names = this
  have "named_function f1 (me_AdapterPreFuncName m)"
  proof (rule delegator_declares [OF assms(1-4) EnhanceBuildForDelegator.simps(1)])
    show "D_Func (pre_func (bt_other b) (bt_before b m) m) \<in> set (MethodBuildForDelegator (bt_other b) (bt_before b) (bt_after b) m)"
      by (simp add: MethodBuildForDelegator_def)
  qed (simp add: pre_func_def, rule names)
  moreover have "named_function f1 (me_AdapterPostFuncName m)"
  proof (rule delegator_declares [OF assms(1-4) EnhanceBuildForDelegator.simps(1)])
    show "D_Func (post_func (bt_other b) (bt_after b m) m) \<in> set (MethodBuildForDelegator (bt_other b) (bt_before b) (bt_after b) m)"
      by (simp add: MethodBuildForDelegator_def)
  qed (simp add: post_func_def, rule names)
  ultimately show ?thesis by simp
qed

text \<open>
  C26. The delegator after its rewriting is complete.  For every configuration of the plugin it declares the
  function that fills it and hands exactly that function, under its new name, to the start of the agent;
  so it does with the initialisers the rewriting found in the plugin's files; and it declares the two
  adapters of every enhanced method under the names the call in the method uses.
\<close>

theorem delegator_complete:
  assumes f: "delegator_file b es a seen = Some (f, seen1)" and w: "rewritten_delegator f c = Some (f1, c1)"
    and configs: "\<forall>e. Config e \<in> set es \<longrightarrow> unmapped c (ce_GenerateConfigFunName e) \<and>
      ce_GenerateConfigFunName e = ''initConfig'' @ ce_VarName e"
    and methods: "\<forall>m. Method m \<in> set es \<longrightarrow> me_AdapterPreFuncName m = GenerateMethodPrefix @ me_FuncID m \<and>
      me_AdapterPostFuncName m = GenerateMethodPrefix @ me_FuncID m @ ''_ret''"
  shows "(\<forall>e. Config e \<in> set es \<longrightarrow> named_function f1 (config_func_name c e) \<and> runs_at_start f1 (config_func_name c e)) \<and>
    (\<forall>n\<in>set (rc_InitFuncDetector c1). runs_at_start f1 n) \<and>
    (\<forall>m. Method m \<in> set es \<longrightarrow> named_function f1 (me_AdapterPreFuncName m) \<and> named_function f1 (me_AdapterPostFuncName m))"
proof -
  have names: "snd fn \<and> unmapped c (fst fn)" if "e \<in> set es" "fn \<in> set (InitFunctions e)" for e fn
  proof (cases e)
    case (Config x)
    with that(2) have "fn = (ce_GenerateConfigFunName x, True)" by simp
    moreover from configs that(1) Config have "unmapped c (ce_GenerateConfigFunName x)" by blast
    ultimately show ?thesis by simp
  qed (use that(2) in simp_all)
  then have "\<forall>fn\<in>set (concat (map InitFunctions es)). snd fn \<and> unmapped c (fst fn)" by auto
  from rewritten_delegator_shape [OF f w this] obtain ds ds1 c0 where ds: "delegator_decls b es = Some ds"
    and t: "same_titles (c\<lparr>rc_currentPackageTitle := rc_titleCase c (rc_targetPackage c)\<rparr>) c0"
    and ds1: "each (\<lambda>i. process_decl) 1 ds c0 = Some (ds1, c1)"
    and f1: "file_Decls f1 = D_Func (init_func
       (map (\<lambda>fn. init_stmt (StaticMethodPrefix @ rc_titleCase c (rc_targetPackage c) @ fst fn, True)) (concat (map InitFunctions es)) @
        map (\<lambda>n. init_stmt (n, True)) (rc_InitFuncDetector c1))) # ds1" .
  have "runs_at_start f1 (config_func_name c e)" if "Config e \<in> set es" for e
  proof -
    have "(ce_GenerateConfigFunName e, True) \<in> set (concat (map InitFunctions es))" using that by force
    then show ?thesis unfolding runs_at_start_def f1 config_func_name_def by force
  qed
  moreover have "runs_at_start f1 n" if "n \<in> set (rc_InitFuncDetector c1)" for n
    unfolding runs_at_start_def f1 using that by force
  ultimately show ?thesis
    using config_declared [OF ds ds1 f1 t] adapters_declared [OF ds ds1 f1] configs methods by blast
qed

section \<open>A concrete delegator\<close>

definition sample_tool :: build_tool where
  "sample_tool = \<lparr>bt_title = capital_letters True, bt_other = E_Ident [], bt_before = (\<lambda>m. []), bt_after = (\<lambda>m. []),
     bt_assignments = map (\<lambda>a. S_Assign [E_Ident (as_target a)] ''='' [E_BasicLit (as_default a)]), bt_config = demo_parse,
     bt_unquote = Some, bt_pluginDir = (\<lambda>d. Inr []), bt_pluginFile = (\<lambda>p. Inr []), bt_sourcePath = None,
     bt_coreDir = (\<lambda>d. Inr []), bt_coreFile = (\<lambda>p. Inr []), bt_parse = (\<lambda>n s. Inl []), bt_references = (\<lambda>s. Inr []),
     bt_configDecls = (\<lambda>s. Inr []), bt_write = (\<lambda>i f. None), bt_order1 = (\<lambda>d. []), bt_order2 = (\<lambda>d. []),
     bt_writeLinker = None, bt_writeDelegator = (\<lambda>f. None), bt_used = (\<lambda>a. []), bt_DebugDir = []\<rparr>"

definition demo_enhancements :: "enhancement list" where
  "demo_enhancements = [Config demo_enhance, Method sample_built]"

definition demo_delegator :: gfile where
  "demo_delegator = fst (the (delegator_file sample_tool demo_enhancements CreateImportAnalyzer {}))"

definition demo_start :: rw_context where
  "demo_start = NewContext (capital_letters True) ''github.com/gin-gonic/gin'' ''gin''"

lemma delegator_complete_witness:
  "case rewritten_delegator demo_delegator demo_start of
     None \<Rightarrow> False
   | Some (f1, c1) \<Rightarrow>
       named_function f1 (StaticMethodPrefix @ ''GininitConfigconfig'') \<and> runs_at_start f1 (StaticMethodPrefix @ ''GininitConfigconfig'') \<and>
       named_function f1 (me_AdapterPreFuncName sample_built) \<and> named_function f1 (me_AdapterPostFuncName sample_built)"
proof -
  have "delegator_file sample_tool demo_enhancements CreateImportAnalyzer {} \<noteq> None" by code_simp
  then obtain seen where d: "delegator_file sample_tool demo_enhancements CreateImportAnalyzer {} = Some (demo_delegator, seen)"
    by (auto simp: demo_delegator_def)
  have "(case rewritten_delegator demo_delegator demo_start of None \<Rightarrow> False | Some r \<Rightarrow> True)" by code_simp
  then obtain f1 c1 where w: "rewritten_delegator demo_delegator demo_start = Some (f1, c1)" by (auto split: option.splits)
  have "unmapped demo_start (ce_GenerateConfigFunName demo_enhance)" by code_simp
  then have c: "\<forall>e. Config e \<in> set demo_enhancements \<longrightarrow> unmapped demo_start (ce_GenerateConfigFunName e) \<and>
      ce_GenerateConfigFunName e = ''initConfig'' @ ce_VarName e"
    by (simp add: demo_enhancements_def) (simp add: demo_enhance_def)
  have m: "\<forall>m. Method m \<in> set demo_enhancements \<longrightarrow> me_AdapterPreFuncName m = GenerateMethodPrefix @ me_FuncID m \<and>
      me_AdapterPostFuncName m = GenerateMethodPrefix @ me_FuncID m @ ''_ret''"
    by (simp add: demo_enhancements_def sample_built_def BuildForInvoker_def Let_def sample_method_def
        method_names(4,5) [OF prod.collapse [symmetric]])
  have t: "rc_titleCase demo_start (rc_targetPackage demo_start) = ''Gin''" by code_simp
  have n: "config_func_name demo_start demo_enhance = StaticMethodPrefix @ ''GininitConfigconfig''"
    by (simp add: config_func_name_def t) (simp add: demo_enhance_def)
  show ?thesis
    using delegator_complete [OF d w c m] by (simp add: w n [symmetric]) (simp add: demo_enhancements_def)
qed

section \<open>Files\<close>

lemma write_extra_wrote:
  assumes "write_extra b basePath inst i = Some (Inr r)"
  shows "pr_extraFilesWrote (snd (snd r))"
proof -
  let ?p = "first_package (pr_enhancements i) (path_base (in_Package i))"
  obtain files1 c1 where 1: "copyOperatorsFS b basePath (NewContext (bt_title b) (in_Package i) ?p) = Some (Inr (files1, c1))"
    using assms by (auto simp: write_extra_def Let_def split: option.split_asm sum.split_asm)
  obtain files2 c2 es where 2: "copyFrameworkFS b inst (in_Package i) basePath ?p (c1, pr_enhancements i) = Some (Inr (files2, c2, es))"
    using assms by (auto simp: write_extra_def Let_def 1 split: option.split_asm sum.split_asm)
  from assms obtain z where "writeDelegatorFile b basePath c2 es (pr_analyzer i) (pr_adapterDirs i) = Some z"
    by (auto simp: write_extra_def Let_def 1 2)
  with assms show ?thesis by (cases z) (auto simp: write_extra_def Let_def 1 2)
qed

text \<open>The extra files of a package are written once: a second call writes nothing and changes nothing.\<close>

theorem extra_files_once:
  assumes "WriteExtraFiles b basePath i = Some (Inr (fs, f, i1))"
  shows "WriteExtraFiles b' basePath' i1 = Some (Inr ([], None, i1))"
proof (cases "(pr_enhancements i = [] \<and> \<not> in_forceEnhance i) \<or> pr_extraFilesWrote i")
  case True
  with assms show ?thesis by (simp add: WriteExtraFiles_def)
next
  case False
  with assms obtain inst f' where "write_extra b basePath inst i = Some (Inr (fs, f', i1))"
    by (cases "in_realInst i"; cases "write_extra b basePath (the (in_realInst i)) i"; cases "the (write_extra b basePath (the (in_realInst i)) i)")
      (auto simp: WriteExtraFiles_def)
  from write_extra_wrote [OF this] show ?thesis by (simp add: WriteExtraFiles_def)
qed

end
