(* ===== verification/Runtime_Metrics.thy ===== *)
theory Runtime_Metrics
  imports Meters
begin

text \<open>
  The metrics of the Go runtime (plugins/runtimemetrics/registers.go): the table of the names, the
  registration when the agent has started, and the hook that runs before the metrics are collected.

  runtime/metrics answers through arguments: the names it knows in their order, and a reading for each
  name.  Floats are any linear order with the operations the code uses; the agent is present, so a
  histogram is made by the core (Meters).  A panic is None.
\<close>

section \<open>Samples\<close>

record 'f float_ops =
  fo_of_uint :: "u64 \<Rightarrow> 'f"
  fo_plus :: "'f \<Rightarrow> 'f \<Rightarrow> 'f"
  fo_times :: "'f \<Rightarrow> int \<Rightarrow> 'f"
  fo_MaxFloat64 :: 'f
  fo_zero :: 'f

text \<open>A value that was never read has the kind bad; a histogram has its counts and its buckets.\<close>

datatype 'f sample_value = KindBad | KindUint64 u64 | KindFloat64 'f | KindFloat64Histogram "u64 list" "'f list"

type_synonym 'f sample = "string \<times> 'f sample_value"

record 'f meter_info =
  mi_name :: string
  mi_tagOpts :: "(string \<times> string) list"
  mi_isHistogram :: bool
  mi_histogramMultiple :: int
  mi_gaugeValue :: 'f
  mi_latestHistogramValue :: "u64 list option"
  mi_histogramMetric :: "'f buckets option"
  mi_histogramStartInx :: nat
  mi_needsMetricsNames :: "string list"
  mi_combinedGaugeValue :: 'f

text \<open>The labels of a pair of arguments each; an odd number of them panics.\<close>

fun tag_pairs :: "string list \<Rightarrow> (string \<times> string) list option" where
  "tag_pairs [] = Some []"
| "tag_pairs [t] = None"
| "tag_pairs (k # v # tags) = map_option (\<lambda>ps. (k, v) # ps) (tag_pairs tags)"

definition empty_info :: "'f float_ops \<Rightarrow> string \<Rightarrow> 'f meter_info" where
  "empty_info fl name =
     \<lparr>mi_name = name, mi_tagOpts = [], mi_isHistogram = False, mi_histogramMultiple = 0, mi_gaugeValue = fo_zero fl,
      mi_latestHistogramValue = None, mi_histogramMetric = None, mi_histogramStartInx = 0, mi_needsMetricsNames = [],
      mi_combinedGaugeValue = fo_zero fl\<rparr>"

definition newMetricsGaugeReplaceInfo :: "'f float_ops \<Rightarrow> string \<Rightarrow> string list \<Rightarrow> 'f meter_info option" where
  "newMetricsGaugeReplaceInfo fl name tags = map_option (\<lambda>ps. (empty_info fl name)\<lparr>mi_tagOpts := ps\<rparr>) (tag_pairs tags)"

definition newMetricsHistogramReplaceInfo :: "'f float_ops \<Rightarrow> string \<Rightarrow> int \<Rightarrow> 'f meter_info option" where
  "newMetricsHistogramReplaceInfo fl name multiples =
     Some ((empty_info fl name)\<lparr>mi_isHistogram := True, mi_histogramMultiple := multiples\<rparr>)"

definition newCombinedGaugeInfo :: "'f float_ops \<Rightarrow> string \<Rightarrow> string list \<Rightarrow> string list \<Rightarrow> 'f meter_info option" where
  "newCombinedGaugeInfo fl name needsMetrics tags =
     map_option (\<lambda>ps. (empty_info fl name)\<lparr>mi_tagOpts := ps, mi_needsMetricsNames := needsMetrics\<rparr>) (tag_pairs tags)"

definition nameReplacing :: "'f float_ops \<Rightarrow> (string \<times> 'f meter_info option) list" where
  "nameReplacing fl =
     [(''/gc/cycles/automatic:gc-cycles'', newMetricsGaugeReplaceInfo fl ''instance_golang_gc_count_labeled'' [''type'', ''automatic'']),
      (''/gc/cycles/forced:gc-cycles'', newMetricsGaugeReplaceInfo fl ''instance_golang_gc_count_labeled'' [''type'', ''forced'']),
      (''/gc/cycles/total:gc-cycles'', newMetricsGaugeReplaceInfo fl ''instance_golang_gc_count_labeled'' [''type'', ''total'']),
      (''/gc/heap/allocs:bytes'', newMetricsGaugeReplaceInfo fl ''instance_golang_heap_alloc_size'' []),
      (''/gc/heap/allocs:objects'', newMetricsGaugeReplaceInfo fl ''instance_golang_heap_alloc_objects'' []),
      (''/gc/heap/frees:bytes'', newMetricsGaugeReplaceInfo fl ''instance_golang_heap_frees'' []),
      (''/gc/heap/frees:objects'', newMetricsGaugeReplaceInfo fl ''instance_golang_heap_frees_objects'' []),
      (''/memory/classes/heap/free:bytes'', newMetricsGaugeReplaceInfo fl ''instance_golang_memory_heap_labeled'' [''type'', ''free'']),
      (''/memory/classes/heap/objects:bytes'', newMetricsGaugeReplaceInfo fl ''instance_golang_memory_heap_labeled'' [''type'', ''objects'']),
      (''/memory/classes/heap/released:bytes'', newMetricsGaugeReplaceInfo fl ''instance_golang_memory_heap_labeled'' [''type'', ''released'']),
      (''/memory/classes/heap/stacks:bytes'', newMetricsGaugeReplaceInfo fl ''instance_golang_memory_heap_labeled'' [''type'', ''stacks'']),
      (''/memory/classes/heap/unused:bytes'', newMetricsGaugeReplaceInfo fl ''instance_golang_memory_heap_labeled'' [''type'', ''unused'']),
      (''/memory/classes/metadata/mcache/free:bytes'', newMetricsGaugeReplaceInfo fl ''instance_golang_metadata_mcache_labeled'' [''type'', ''free'']),
      (''/memory/classes/metadata/mcache/inuse:bytes'', newMetricsGaugeReplaceInfo fl ''instance_golang_metadata_mcache_labeled'' [''type'', ''inuse'']),
      (''/memory/classes/metadata/mspan/free:bytes'', newMetricsGaugeReplaceInfo fl ''instance_golang_metadata_mspan_labeled'' [''type'', ''free'']),
      (''/memory/classes/metadata/mspan/inuse:bytes'', newMetricsGaugeReplaceInfo fl ''instance_golang_metadata_mspan_labeled'' [''type'', ''inuse'']),
      (''/sched/gomaxprocs:threads'', newMetricsGaugeReplaceInfo fl ''instance_golang_os_threads_num'' []),
      (''/sched/goroutines:goroutines'', newMetricsGaugeReplaceInfo fl ''instance_golang_live_goroutines_num'' []),
      (''/cgo/go-to-c-calls:calls'', newMetricsGaugeReplaceInfo fl ''instance_golang_cgo_calls'' []),
      (''/gc/heap/goal:bytes'', newMetricsGaugeReplaceInfo fl ''instance_golang_gc_heap_goal'' []),
      (''/gc/heap/objects:objects'', newMetricsGaugeReplaceInfo fl ''instance_golang_gc_heap_objects'' []),
      (''/gc/heap/tiny/allocs:objects'', newMetricsGaugeReplaceInfo fl ''instance_golang_gc_heap_tiny_allocs'' []),
      (''/gc/limiter/last-enabled:gc-cycle'', newMetricsGaugeReplaceInfo fl ''instance_golang_gc_limiter_last_enabled'' []),
      (''/gc/stack/starting-size:bytes'', newMetricsGaugeReplaceInfo fl ''instance_golang_gc_stack_starting_size'' []),
      (''/memory/classes/metadata/other:bytes'', newMetricsGaugeReplaceInfo fl ''instance_golang_memory_metadata_other'' []),
      (''/memory/classes/os-stacks:bytes'', newMetricsGaugeReplaceInfo fl ''instance_golang_memory_os_stacks'' []),
      (''/memory/classes/other:bytes'', newMetricsGaugeReplaceInfo fl ''instance_golang_memory_other'' []),
      (''/memory/classes/profiling/buckets:bytes'', newMetricsGaugeReplaceInfo fl ''instance_golang_memory_profiling_buckets'' []),
      (''/memory/classes/total:bytes'', newMetricsGaugeReplaceInfo fl ''instance_golang_memory_total'' []),
      (''/gc/heap/allocs-by-size:bytes'', newMetricsHistogramReplaceInfo fl ''instance_golang_gc_heap_allocs_by_size'' 1),
      (''/gc/heap/frees-by-size:bytes'', newMetricsHistogramReplaceInfo fl ''instance_golang_gc_heap_frees_by_size'' 1),
      (''/gc/pauses:seconds'', newMetricsHistogramReplaceInfo fl ''instance_golang_gc_pauses'' 1000000000),
      (''/sched/latencies:seconds'', newMetricsHistogramReplaceInfo fl ''instance_golang_sched_latencies'' 1000000000)]"

definition combinedMetrics :: "'f float_ops \<Rightarrow> 'f meter_info option list" where
  "combinedMetrics fl =
     [newCombinedGaugeInfo fl ''instance_golang_memory_heap_labeled''
        [''/memory/classes/heap/free:bytes'', ''/memory/classes/heap/objects:bytes'', ''/memory/classes/heap/released:bytes'',
         ''/memory/classes/heap/stacks:bytes'', ''/memory/classes/heap/unused:bytes''] [''type'', ''total'']]"

section \<open>One metric\<close>

definition readingFloat64 :: "'f float_ops \<Rightarrow> 'f sample \<Rightarrow> 'f option" where
  "readingFloat64 fl s =
     (case snd s of KindUint64 n \<Rightarrow> Some (fo_of_uint fl n) | KindFloat64 v \<Rightarrow> Some v | _ \<Rightarrow> None)"

definition readingHistogram :: "'f sample \<Rightarrow> (u64 list \<times> 'f list) option" where
  "readingHistogram s = (case snd s of KindFloat64Histogram counts buckets \<Rightarrow> Some (counts, buckets) | _ \<Rightarrow> None)"

text \<open>The loop over the buckets: the scaled bounds that are finite and not negative, and how many come before them.\<close>

fun bounds_loop :: "('f::linorder) float_ops \<Rightarrow> int \<Rightarrow> 'f list \<Rightarrow> 'f list \<Rightarrow> u64 list \<Rightarrow> nat \<Rightarrow> bool \<Rightarrow> 'f list \<times> u64 list \<times> nat" where
  "bounds_loop fl k [] float64s val startInx hasAdded = (float64s, val, startInx)"
| "bounds_loop fl k (b # bs) float64s val startInx hasAdded =
     (if b > fo_MaxFloat64 fl \<or> b < fo_zero fl
      then bounds_loop fl k bs float64s val (if \<not> hasAdded then startInx + 1 else startInx) hasAdded
      else bounds_loop fl k bs (float64s @ [fo_times fl b k]) (val @ [0]) startInx True)"

definition initHistogramIfNeeds :: "('f::linorder) float_ops \<Rightarrow> 'f sample \<Rightarrow> 'f meter_info \<Rightarrow> 'f meter_info option" where
  "initHistogramIfNeeds fl sample m =
     (if mi_histogramMetric m \<noteq> None then Some m
      else case readingHistogram sample of
             None \<Rightarrow> Some m
           | Some (counts, buckets) \<Rightarrow>
               (let (float64s, val, startInx) = bounds_loop fl (mi_histogramMultiple m) buckets [] [] 0 False
                in case newHistogramFromSteps (fo_zero fl) float64s of
                     Inl panic \<Rightarrow> None
                   | Inr h \<Rightarrow> Some (m\<lparr>mi_histogramStartInx := startInx, mi_histogramMetric := Some h, mi_latestHistogramValue := Some val\<rparr>)))"

text \<open>The loop over the counts from an index on, with the histogram and the counts of the last time.\<close>

fun counts_loop ::
    "('f::linorder) float_ops \<Rightarrow> int \<Rightarrow> nat \<Rightarrow> 'f list \<Rightarrow> nat \<Rightarrow> u64 list \<Rightarrow> 'f buckets \<times> u64 list \<Rightarrow> ('f buckets \<times> u64 list) option" where
  "counts_loop fl k startInx buckets i [] s = Some s"
| "counts_loop fl k startInx buckets i (newestValue # vals) (h, latest) =
     (if i < startInx then counts_loop fl k startInx buckets (Suc i) vals (h, latest)
      else if i \<ge> length latest then Some (h, latest)
      else (let add = newestValue - latest ! i
            in if sint add > 0 then
                 (if i < length buckets
                  then counts_loop fl k startInx buckets (Suc i) vals
                         (ObserveWithCount (fo_times fl (buckets ! i) k) add h, latest[i := newestValue])
                  else None)
               else counts_loop fl k startInx buckets (Suc i) vals (h, latest)))"

definition updateMetricValue :: "('f::linorder) float_ops \<Rightarrow> 'f sample \<Rightarrow> 'f meter_info \<Rightarrow> 'f meter_info option" where
  "updateMetricValue fl sample m =
     (if \<not> mi_isHistogram m then
        Some (case readingFloat64 fl sample of None \<Rightarrow> m | Some v \<Rightarrow> m\<lparr>mi_gaugeValue := v\<rparr>)
      else case initHistogramIfNeeds fl sample m of
             None \<Rightarrow> None
           | Some m \<Rightarrow>
               (case (mi_histogramMetric m, mi_latestHistogramValue m, readingHistogram sample) of
                  (Some h, Some latest, Some (counts, buckets)) \<Rightarrow>
                    map_option (\<lambda>(h, latest). m\<lparr>mi_histogramMetric := Some h, mi_latestHistogramValue := Some latest\<rparr>)
                      (counts_loop fl (mi_histogramMultiple m) (mi_histogramStartInx m) buckets 0 counts (h, latest))
                | _ \<Rightarrow> Some m))"

text \<open>The first sample of each name, if it is a number.\<close>

fun combined_sum :: "'f float_ops \<Rightarrow> 'f sample list \<Rightarrow> string list \<Rightarrow> 'f \<Rightarrow> 'f" where
  "combined_sum fl samples [] acc = acc"
| "combined_sum fl samples (name # names) acc =
     combined_sum fl samples names
       (case List.find (\<lambda>s. fst s = name) samples of
          None \<Rightarrow> acc
        | Some s \<Rightarrow> (case readingFloat64 fl s of None \<Rightarrow> acc | Some v \<Rightarrow> fo_plus fl acc v))"

definition updateCombinedMetricValue :: "'f float_ops \<Rightarrow> 'f sample list \<Rightarrow> 'f meter_info \<Rightarrow> 'f meter_info" where
  "updateCombinedMetricValue fl samples m =
     m\<lparr>mi_combinedGaugeValue := combined_sum fl samples (mi_needsMetricsNames m) (fo_zero fl)\<rparr>"

section \<open>Registration and collection\<close>

text \<open>A gauge that was registered, with the value its getter reads.\<close>

datatype meter_source = GaugeOf string | CombinedOf nat

record registration =
  rg_name :: string
  rg_labels :: "(string \<times> string) list"
  rg_source :: meter_source

record 'f runtime_meters =
  rm_table :: "string \<rightharpoonup> 'f meter_info"
  rm_samples :: "'f sample list"
  rm_combined :: "'f meter_info list"
  rm_gauges :: "registration list"

text \<open>init of one metric: what it reads goes into a slice of its own, so the sample stays unread.\<close>

definition init_metric :: "('f::linorder) float_ops \<Rightarrow> string \<Rightarrow> 'f sample \<Rightarrow> 'f meter_info \<Rightarrow> ('f meter_info \<times> registration list) option" where
  "init_metric fl key sample m =
     (if \<not> mi_isHistogram m then Some (m, [\<lparr>rg_name = mi_name m, rg_labels = mi_tagOpts m, rg_source = GaugeOf key\<rparr>])
      else map_option (\<lambda>m. (m, [])) (initHistogramIfNeeds fl sample m))"

definition register_metric :: "('f::linorder) float_ops \<Rightarrow> string \<Rightarrow> 'f runtime_meters \<Rightarrow> 'f runtime_meters option" where
  "register_metric fl name w =
     (case rm_table w name of
        None \<Rightarrow> Some w
      | Some info \<Rightarrow>
          map_option (\<lambda>(info, gs). w\<lparr>rm_table := (rm_table w)(name \<mapsto> info), rm_samples := rm_samples w @ [(name, KindBad)],
              rm_gauges := rm_gauges w @ gs\<rparr>)
            (init_metric fl name (name, KindBad) info))"

fun register_all :: "('f::linorder) float_ops \<Rightarrow> string list \<Rightarrow> 'f runtime_meters \<Rightarrow> 'f runtime_meters option" where
  "register_all fl [] w = Some w"
| "register_all fl (name # names) w =
     (case register_metric fl name w of None \<Rightarrow> None | Some w1 \<Rightarrow> register_all fl names w1)"

definition register_combined :: "'f meter_info list \<Rightarrow> 'f runtime_meters \<Rightarrow> 'f runtime_meters" where
  "register_combined ms w =
     w\<lparr>rm_combined := ms,
       rm_gauges := rm_gauges w @
         map (\<lambda>i. \<lparr>rg_name = mi_name (ms ! i), rg_labels = mi_tagOpts (ms ! i), rg_source = CombinedOf i\<rparr>) [0..<length ms]\<rparr>"

definition present :: "(string \<times> 'f meter_info option) list \<Rightarrow> string \<rightharpoonup> 'f meter_info" where
  "present t = (\<lambda>name. case map_of t name of None \<Rightarrow> None | Some m \<Rightarrow> m)"

definition start_runtime_metrics :: "('f::linorder) float_ops \<Rightarrow> string list \<Rightarrow> 'f runtime_meters option" where
  "start_runtime_metrics fl allMetrics =
     map_option (register_combined (map the (combinedMetrics fl)))
       (register_all fl allMetrics \<lparr>rm_table = present (nameReplacing fl), rm_samples = [], rm_combined = [], rm_gauges = []\<rparr>)"

fun update_all :: "('f::linorder) float_ops \<Rightarrow> 'f sample list \<Rightarrow> (string \<rightharpoonup> 'f meter_info) \<Rightarrow> (string \<rightharpoonup> 'f meter_info) option" where
  "update_all fl [] infos = Some infos"
| "update_all fl (s # ss) infos =
     (case infos (fst s) of
        None \<Rightarrow> update_all fl ss infos
      | Some i \<Rightarrow>
          (case updateMetricValue fl s i of
             None \<Rightarrow> None
           | Some i1 \<Rightarrow> update_all fl ss (infos(fst s \<mapsto> i1))))"

text \<open>The hook: every sample is read, then every metric is updated; every sample is of a registered name.\<close>

definition collect_hook :: "('f::linorder) float_ops \<Rightarrow> (string \<Rightarrow> 'f sample_value) \<Rightarrow> 'f runtime_meters \<Rightarrow> 'f runtime_meters option" where
  "collect_hook fl read w =
     (let samples = map (\<lambda>s. (fst s, read (fst s))) (rm_samples w)
      in map_option (\<lambda>infos. w\<lparr>rm_table := infos, rm_samples := samples,
             rm_combined := map (updateCombinedMetricValue fl samples) (rm_combined w)\<rparr>)
           (update_all fl samples (rm_table w)))"

section \<open>Histograms of the runtime\<close>

definition usable :: "('f::linorder) float_ops \<Rightarrow> 'f \<Rightarrow> bool" where
  "usable fl b \<longleftrightarrow> \<not> (b > fo_MaxFloat64 fl \<or> b < fo_zero fl)"

lemma bounds_loop_result:
  "bounds_loop fl k bs fs val st added =
     (fs @ map (\<lambda>b. fo_times fl b k) (filter (usable fl) bs), val @ replicate (length (filter (usable fl) bs)) 0,
      st + (if added then 0 else length (takeWhile (\<lambda>b. \<not> usable fl b) bs)))"
  by (induction bs arbitrary: fs val st added) (auto simp: usable_def)

lemma observe_key:
  assumes "sorted (map fst h)" "distinct (map fst h)" "v \<in> set (map fst h)"
  shows "map_of (ObserveWithCount v c h) = (map_of h)(v \<mapsto> the (map_of h v) + c)"
proof -
  obtain i where i: "i < length h" "fst (h ! i) = v" using assms(3) by (auto simp: in_set_conv_nth)
  have "v < map fst h ! Suc i" if "Suc i < length h"
    using i sorted_wrt_nth_less [OF strict_sorted_iff [THEN iffD2, OF conjI [OF assms(1,2)]], of i "Suc i"] that by simp
  then have "in_bucket (map fst h) i v" using i by (simp add: in_bucket_def)
  then have f: "findBucket (map fst h) v = Some i" using findBucket_spec [OF assms(1,2)] by simp
  have d: "distinct h" using assms(2) by (simp add: distinct_map)
  have k: "map fst (h[i := (v, x)]) = map fst h" for x using i by (simp add: map_update list_update_same_conv)
  have v: "map_of h v = Some (snd (h ! i))" using i assms(2) by (metis map_of_is_SomeI nth_mem prod.collapse)
  show ?thesis
  proof
    fix w
    have "map_of (h[i := (v, x)]) w = (if w = v then Some x else map_of h w)" for x
    proof (cases "w = v")
      case True
      then show ?thesis using i assms(2) k set_update_memI [OF i(1), of "(v, x)"] by (simp add: map_of_is_SomeI)
    next
      case False
      have "(w, y) \<in> set (h[i := (v, x)]) \<longleftrightarrow> (w, y) \<in> set h" for y
        using False i by (auto simp: set_update_distinct [OF d i(1)]) (metis fst_conv)
      then have "map_of (h[i := (v, x)]) w = Some y \<longleftrightarrow> map_of h w = Some y" for y
        using assms(2) k by (metis map_of_eq_Some_iff)
      with False show ?thesis by (metis not_Some_eq)
    qed
    then show "map_of (ObserveWithCount v c h) w = ((map_of h)(v \<mapsto> the (map_of h v) + c)) w"
      using i by (simp add: ObserveWithCount_def f v)
  qed
qed

text \<open>The bucket of every counted bound holds the count that was seen last.\<close>

definition mirrors :: "('f::linorder) float_ops \<Rightarrow> int \<Rightarrow> nat \<Rightarrow> 'f list \<Rightarrow> 'f buckets \<Rightarrow> u64 list \<Rightarrow> bool" where
  "mirrors fl k st buckets h latest \<longleftrightarrow>
     sorted (map fst h) \<and> distinct (map fst h) \<and>
     (\<forall>i. st \<le> i \<longrightarrow> i < length latest \<longrightarrow> map_of h (fo_times fl (buckets ! i) k) = Some (latest ! i))"

definition seen_after :: "nat \<Rightarrow> u64 list \<Rightarrow> u64 list \<Rightarrow> nat \<Rightarrow> u64" where
  "seen_after n vals latest i =
     (if n \<le> i \<and> i < n + length vals \<and> sint (vals ! (i - n) - latest ! i) > 0 then vals ! (i - n) else latest ! i)"

lemma seen_after_simps:
  "seen_after n [] latest i = latest ! i"
  "Suc n \<le> i \<Longrightarrow> seen_after n (v # vals) latest i = seen_after (Suc n) vals latest i"
  "i \<le> n \<Longrightarrow> seen_after (Suc n) vals latest i = latest ! i"
  "seen_after n (v # vals) latest n = (if sint (v - latest ! n) > 0 then v else latest ! n)"
  by (auto simp: seen_after_def nth_Cons')

definition counted :: "('f::linorder) float_ops \<Rightarrow> int \<Rightarrow> nat \<Rightarrow> 'f list \<Rightarrow> nat \<Rightarrow> u64 list \<Rightarrow> 'f buckets \<Rightarrow> u64 list \<Rightarrow> 'f buckets \<Rightarrow> u64 list \<Rightarrow> bool" where
  "counted fl k st buckets n vals h latest h' latest' \<longleftrightarrow>
     counts_loop fl k st buckets n vals (h, latest) = Some (h', latest') \<and>
     mirrors fl k st buckets h' latest' \<and> length latest' = length latest \<and> map fst h' = map fst h \<and>
     (\<forall>i. st \<le> i \<longrightarrow> i < length latest \<longrightarrow> latest' ! i = seen_after n vals latest i) \<and>
     (\<forall>w. (\<forall>i. st \<le> i \<longrightarrow> i < length latest \<longrightarrow> w \<noteq> fo_times fl (buckets ! i) k) \<longrightarrow> map_of h' w = map_of h w)"

lemma counted_later:
  assumes "counted fl k st buckets (Suc n) vals h latest h' latest'"
    and "counts_loop fl k st buckets n (v # vals) (h, latest) = counts_loop fl k st buckets (Suc n) vals (h, latest)"
    and "st \<le> n \<Longrightarrow> \<not> sint (v - latest ! n) > 0"
  shows "counted fl k st buckets n (v # vals) h latest h' latest'"
proof -
  have "seen_after n (v # vals) latest i = seen_after (Suc n) vals latest i" if "st \<le> i" for i
  proof -
    consider "Suc n \<le> i" | "i = n" | "i < n" by linarith
    then show ?thesis
      using assms(3) that by cases (simp_all add: seen_after_simps, simp add: seen_after_def)
  qed
  with assms(1,2) show ?thesis by (simp add: counted_def del: counts_loop.simps)
qed

lemma counts_loop_counted:
  assumes "mirrors fl k st buckets h latest" "length latest \<le> length buckets"
    and "\<And>i j. st \<le> i \<Longrightarrow> i < length latest \<Longrightarrow> st \<le> j \<Longrightarrow> j < length latest \<Longrightarrow>
      fo_times fl (buckets ! i) k = fo_times fl (buckets ! j) k \<Longrightarrow> i = j"
  shows "\<exists>h' latest'. counted fl k st buckets n vals h latest h' latest'"
  using assms
proof (induction vals arbitrary: n h latest)
  case Nil
  then show ?case by (auto simp: counted_def seen_after_simps)
next
  case (Cons v vals)
  consider (skip) "n < st" | (stop) "st \<le> n" "length latest \<le> n" | (same) "st \<le> n" "n < length latest" "\<not> sint (v - latest ! n) > 0"
    | (more) "st \<le> n" "n < length latest" "sint (v - latest ! n) > 0" by linarith
  then show ?case
  proof cases
    case skip
    from Cons.IH [OF Cons.prems, of "Suc n"] obtain h' l' where "counted fl k st buckets (Suc n) vals h latest h' l'" by blast
    from counted_later [OF this] skip show ?thesis by (intro exI) simp
  next
    case stop
    then have "counted fl k st buckets n (v # vals) h latest h latest"
      using Cons.prems(1) by (simp add: counted_def seen_after_def)
    then show ?thesis by blast
  next
    case same
    from Cons.IH [OF Cons.prems, of "Suc n"] obtain h' l' where "counted fl k st buckets (Suc n) vals h latest h' l'" by blast
    from counted_later [OF this] same show ?thesis by (intro exI) simp
  next
    case more
    let ?b = "fo_times fl (buckets ! n) k" and ?add = "v - latest ! n"
    let ?h = "ObserveWithCount ?b ?add h" and ?l = "latest[n := v]"
    have m: "map_of h ?b = Some (latest ! n)" using Cons.prems(1) more by (simp add: mirrors_def)
    then have b: "?b \<in> set (map fst h)" by (metis domI dom_map_of_conv_image_fst set_map)
    have sd: "sorted (map fst h)" "distinct (map fst h)" using Cons.prems(1) by (simp_all add: mirrors_def)
    have o: "map_of ?h = (map_of h)(?b \<mapsto> v)" unfolding observe_key [OF sd b] m by simp
    have "mirrors fl k st buckets ?h ?l"
      using Cons.prems(1,3) more by (auto simp: mirrors_def o nth_list_update)
    moreover have "length ?l \<le> length buckets" using Cons.prems(2) by simp
    moreover have "i = j" if "st \<le> i" "i < length ?l" "st \<le> j" "j < length ?l" "fo_times fl (buckets ! i) k = fo_times fl (buckets ! j) k" for i j
      using Cons.prems(3) [of i j] that by simp
    ultimately obtain h' l' where IH: "counted fl k st buckets (Suc n) vals ?h ?l h' l'" using Cons.IH [of ?h ?l "Suc n"] by blast
    have "counts_loop fl k st buckets n (v # vals) (h, latest) = Some (h', l')"
      using more IH Cons.prems(2) by (simp add: counted_def)
    moreover have "l' ! i = seen_after n (v # vals) latest i" if i: "st \<le> i" "i < length latest" for i
    proof -
      have l: "l' ! i = seen_after (Suc n) vals ?l i" using IH i by (simp add: counted_def)
      consider "Suc n \<le> i" | "i = n" | "i < n" by linarith
      then show ?thesis
        using more i unfolding l by cases (simp_all add: seen_after_simps seen_after_def nth_Cons')
    qed
    moreover have "map_of h' w = map_of h w" if "\<forall>i. st \<le> i \<longrightarrow> i < length latest \<longrightarrow> w \<noteq> fo_times fl (buckets ! i) k" for w
      using IH that more by (simp add: counted_def o)
    ultimately have "counted fl k st buckets n (v # vals) h latest h' l'" using IH by (simp add: counted_def)
    then show ?thesis by blast
  qed
qed

lemma growing_word:
  fixes a b :: u64
  assumes "a \<le> b" "b < 2 ^ 63"
  shows "(if sint (b - a) > 0 then b else a) = b"
proof -
  let ?n = "unat b - unat a"
  have "unat b < 2 ^ 63" using assms(2) unat_mono [OF assms(2)] by simp
  then have n: "?n < 2 ^ 63" by simp
  have "b - a = of_nat ?n" using assms(1) by (simp add: word_le_nat_alt of_nat_diff)
  then have s: "sint (b - a) = int ?n" using n by (simp add: signed_of_nat signed_take_bit_int_eq_self)
  show ?thesis
  proof (cases "?n = 0")
    case True
    with assms(1) show ?thesis by (simp add: word_le_nat_alt word_unat_eq_iff)
  next
    case False
    then have "0 < int ?n" by linarith
    then have "0 < sint (b - a)" unfolding s .
    then show ?thesis by simp
  qed
qed

text \<open>Counts of a later reading: none has fallen, and all are below the limit of int64.\<close>

definition grown_to :: "u64 list \<Rightarrow> u64 list \<Rightarrow> bool" where
  "grown_to c d \<longleftrightarrow> list_all2 (\<le>) c d \<and> list_all (\<lambda>n. n < 2 ^ 63) d"

definition tracks :: "('f::linorder) float_ops \<Rightarrow> int \<Rightarrow> 'f list \<Rightarrow> nat \<Rightarrow> nat \<Rightarrow> ('f \<rightharpoonup> u64) \<Rightarrow> u64 list \<Rightarrow> 'f meter_info \<Rightarrow> bool" where
  "tracks fl k bs st n other c m \<longleftrightarrow>
     (\<exists>h l. mi_isHistogram m \<and> mi_histogramMultiple m = k \<and> mi_histogramMetric m = Some h \<and> mi_latestHistogramValue m = Some l \<and> mi_histogramStartInx m = st \<and>
        length l = n \<and> mirrors fl k st bs h l \<and> (\<forall>i. st \<le> i \<longrightarrow> i < n \<longrightarrow> l ! i = c ! i) \<and>
        (\<forall>w. (\<forall>i. st \<le> i \<longrightarrow> i < n \<longrightarrow> w \<noteq> fo_times fl (bs ! i) k) \<longrightarrow> map_of h w = other w))"

lemma tracks_step:
  assumes t: "tracks fl k bs st n other c m" and c: "grown_to c c1" "n \<le> length c1" "n \<le> length bs"
    and inj: "\<And>i j. st \<le> i \<Longrightarrow> i < n \<Longrightarrow> st \<le> j \<Longrightarrow> j < n \<Longrightarrow>
      fo_times fl (bs ! i) k = fo_times fl (bs ! j) k \<Longrightarrow> i = j"
  obtains m1 where "updateMetricValue fl (name, KindFloat64Histogram c1 bs) m = Some m1" "tracks fl k bs st n other c1 m1"
proof -
  obtain h l where m: "mi_isHistogram m" "mi_histogramMetric m = Some h" "mi_latestHistogramValue m = Some l" "mi_histogramStartInx m = st"
      "length l = n" "mirrors fl k st bs h l" "\<forall>i. st \<le> i \<longrightarrow> i < n \<longrightarrow> l ! i = c ! i"
      "\<forall>w. (\<forall>i. st \<le> i \<longrightarrow> i < n \<longrightarrow> w \<noteq> fo_times fl (bs ! i) k) \<longrightarrow> map_of h w = other w"
    using t by (auto simp: tracks_def)
  have k: "mi_histogramMultiple m = k" using t by (auto simp: tracks_def)
  obtain h1 l1 where r: "counted fl k st bs 0 c1 h l h1 l1"
    using counts_loop_counted [OF m(6), of 0 c1] c(3) inj m(5) by metis
  let ?m1 = "m\<lparr>mi_histogramMetric := Some h1, mi_latestHistogramValue := Some l1\<rparr>"
  have "l1 ! i = c1 ! i" if "st \<le> i" "i < n" for i
  proof -
    have "c ! i \<le> c1 ! i" "c1 ! i < 2 ^ 63"
      using c(1,2) that by (auto simp: grown_to_def list_all2_conv_all_nth list_all_length)
    from growing_word [OF this] show ?thesis using r m(5,7) that c(2) by (auto simp: counted_def seen_after_def)
  qed
  then have "tracks fl k bs st n other c1 ?m1" using r m k by (auto simp: tracks_def counted_def)
  moreover have "updateMetricValue fl (name, KindFloat64Histogram c1 bs) m = Some ?m1"
    using r m k by (simp add: updateMetricValue_def initHistogramIfNeeds_def readingHistogram_def counted_def)
  ultimately show thesis using that by simp
qed

definition read_all :: "('f::linorder) float_ops \<Rightarrow> string \<Rightarrow> 'f list \<Rightarrow> u64 list list \<Rightarrow> 'f meter_info \<Rightarrow> 'f meter_info option" where
  "read_all fl name bs cs m = fold (\<lambda>c r. Option.bind r (updateMetricValue fl (name, KindFloat64Histogram c bs))) cs (Some m)"

lemma tracks_all:
  assumes "tracks fl k bs st n other c m" "successively grown_to (c # cs)" "n \<le> length c" "n \<le> length bs"
    and "\<And>i j. st \<le> i \<Longrightarrow> i < n \<Longrightarrow> st \<le> j \<Longrightarrow> j < n \<Longrightarrow>
      fo_times fl (bs ! i) k = fo_times fl (bs ! j) k \<Longrightarrow> i = j"
  shows "\<exists>m'. read_all fl name bs cs m = Some m' \<and> tracks fl k bs st n other (last (c # cs)) m'"
  using assms
proof (induction cs arbitrary: c m)
  case Nil
  then show ?case by (simp add: read_all_def)
next
  case (Cons c1 cs)
  have g: "grown_to c c1" "successively grown_to (c1 # cs)" using Cons.prems(2) by simp_all
  then have l: "n \<le> length c1" using Cons.prems(3) list_all2_lengthD [of "(\<le>)" c c1] by (simp add: grown_to_def)
  from tracks_step [OF Cons.prems(1) g(1) l Cons.prems(4,5)] obtain m1 where
    m1: "updateMetricValue fl (name, KindFloat64Histogram c1 bs) m = Some m1" "tracks fl k bs st n other c1 m1" by blast
  from Cons.IH [OF m1(2) g(2) l Cons.prems(4)] Cons.prems(5) m1(1) show ?case by (simp add: read_all_def)
qed

lemma bounds_kept:
  assumes "bs = out @ valid @ rest" "list_all (\<lambda>b. \<not> usable fl b) (out @ rest)" "list_all (usable fl) valid" "valid \<noteq> []"
  shows "bounds_loop fl k bs [] [] 0 False = (map (\<lambda>b. fo_times fl b k) valid, replicate (length valid) 0, length out)"
proof -
  have "filter (usable fl) bs = valid" using assms(1-3) by (simp add: list_all_iff filter_empty_conv)
  moreover have "takeWhile (\<lambda>b. \<not> usable fl b) bs = out"
    using assms by (cases valid) (auto simp: list_all_iff takeWhile_append)
  ultimately show ?thesis by (simp add: bounds_loop_result)
qed

lemma histogram_made:
  assumes "sorted_wrt (\<lambda>x y. fo_times fl x k < fo_times fl y k) valid" "\<forall>b\<in>set valid. fo_zero fl \<le> fo_times fl b k" "valid \<noteq> []"
  obtains h where "newHistogramFromSteps (fo_zero fl) (map (\<lambda>b. fo_times fl b k) valid) = Ok h"
    "sorted (map fst h)" "distinct (map fst h)" "\<forall>j<length valid. map_of h (fo_times fl (valid ! j) k) = Some 0"
proof -
  let ?fs = "map (\<lambda>b. fo_times fl b k) valid"
  have "sorted_wrt (<) ?fs" using assms(1) by (simp add: sorted_wrt_map)
  then have sd: "sorted ?fs" "distinct ?fs" by (simp_all add: strict_sorted_iff)
  obtain h where h: "newHistogramFromSteps (fo_zero fl) ?fs = Ok h"
    using has_dup_sorted [OF sd(1)] sd assms(3) by (auto simp: newHistogramFromSteps_def Let_def sorted_sort_id)
  have hk: "sorted (map fst h)" "distinct (map fst h)" "list_all (\<lambda>b. snd b = 0) h" "set (map fst h) = insert (fo_zero fl) (set ?fs)"
    using newHistogram_ok [OF h] assms(2) by auto
  have "map_of h (fo_times fl (valid ! j) k) = Some 0" if "j < length valid" for j
  proof -
    have "fo_times fl (valid ! j) k \<in> fst ` set h" using hk(4) that by auto
    then obtain y where y: "map_of h (fo_times fl (valid ! j) k) = Some y" by (metis domD dom_map_of_conv_image_fst)
    from map_of_SomeD [OF this] hk(3) have "y = 0" by (auto simp: list_all_iff)
    with y show ?thesis by simp
  qed
  with that h hk show thesis by blast
qed

text \<open>The first reading makes the histogram; all else happens as if it had been there, empty.\<close>

lemma histogram_started:
  assumes m: "mi_isHistogram m" "mi_histogramMetric m = None" "k = mi_histogramMultiple m"
    and b: "bs = out @ valid @ rest" "list_all (\<lambda>b. \<not> usable fl b) (out @ rest)" "list_all (usable fl) valid" "valid \<noteq> []" "rest \<noteq> []"
    and scale: "sorted_wrt (\<lambda>x y. fo_times fl x k < fo_times fl y k) valid" "\<forall>b\<in>set valid. fo_zero fl \<le> fo_times fl b k"
  obtains h m0 where "\<forall>c cs. read_all fl name bs (c # cs) m = read_all fl name bs (c # cs) m0"
    "tracks fl k bs (length out) (length valid) (map_of h) (replicate (length bs - 1) 0) m0"
    "\<forall>j<length valid. map_of h (fo_times fl (valid ! j) k) = Some 0"
proof -
  let ?st = "length out" and ?n = "length valid"
  obtain h where h: "newHistogramFromSteps (fo_zero fl) (map (\<lambda>b. fo_times fl b k) valid) = Ok h"
    "sorted (map fst h)" "distinct (map fst h)" "\<forall>j<length valid. map_of h (fo_times fl (valid ! j) k) = Some 0"
    by (rule histogram_made [OF scale b(4)])
  define m0 where "m0 = m\<lparr>mi_histogramStartInx := ?st, mi_histogramMetric := Some h, mi_latestHistogramValue := Some (replicate ?n 0)\<rparr>"
  have i0: "initHistogramIfNeeds fl (name, KindFloat64Histogram c bs) m = Some m0" for c
    using bounds_kept [OF b(1-4), of k] h(1) m by (simp add: initHistogramIfNeeds_def readingHistogram_def m0_def)
  have "updateMetricValue fl (name, KindFloat64Histogram c bs) m = updateMetricValue fl (name, KindFloat64Histogram c bs) m0" for c
  proof -
    have "initHistogramIfNeeds fl s m0 = Some m0" for s by (simp add: initHistogramIfNeeds_def m0_def)
    moreover have "mi_isHistogram m0" using m(1) by (simp add: m0_def)
    ultimately show ?thesis using m(1) i0 by (simp add: updateMetricValue_def)
  qed
  then have r: "\<forall>c cs. read_all fl name bs (c # cs) m = read_all fl name bs (c # cs) m0" by (simp add: read_all_def)
  have "bs ! i = valid ! (i - ?st)" if "?st \<le> i" "i < ?n" for i
    using that by (simp add: b(1) nth_append less_imp_diff_less)
  then have "mirrors fl k ?st bs h (replicate ?n 0)" using h(2-4) by (simp add: mirrors_def less_imp_diff_less)
  moreover have "?n \<le> length bs - 1" using b(1,5) by (auto simp: neq_Nil_conv)
  ultimately have "tracks fl k bs ?st ?n (map_of h) (replicate (length bs - 1) 0) m0"
    using m by (auto simp: tracks_def m0_def)
  with that r h(4) show thesis by blast
qed

text \<open>
  C25. A histogram of the runtime becomes the histogram of the meter up to its last buckets.  However often
  it is read, when the counts never fall, the bucket of a finite bound that is not negative holds the count
  of the last reading; but as many of the last bounds as there are leading buckets that are left out, for
  the times the one that begins at minus infinity, never count anything.
\<close>

theorem runtime_histogram_counts:
  assumes m: "mi_isHistogram m" "mi_histogramMetric m = None" "k = mi_histogramMultiple m"
    and b: "bs = out @ valid @ rest" "list_all (\<lambda>b. \<not> usable fl b) (out @ rest)" "list_all (usable fl) valid" "valid \<noteq> []" "rest \<noteq> []"
    and scale: "sorted_wrt (\<lambda>x y. fo_times fl x k < fo_times fl y k) valid" "\<forall>b\<in>set valid. fo_zero fl \<le> fo_times fl b k"
    and counts: "successively grown_to (replicate (length bs - 1) 0 # c # cs)"
  shows "\<exists>m' h. read_all fl name bs (c # cs) m = Some m' \<and> mi_histogramMetric m' = Some h \<and>
    (\<forall>j<length valid. map_of h (fo_times fl (valid ! j) k) =
       Some (if length out + j < length valid then last (c # cs) ! (length out + j) else 0))"
proof -
  let ?st = "length out" and ?n = "length valid"
  obtain h m0 where r: "\<forall>c cs. read_all fl name bs (c # cs) m = read_all fl name bs (c # cs) m0"
    and t: "tracks fl k bs ?st ?n (map_of h) (replicate (length bs - 1) 0) m0"
    and z: "\<forall>j<?n. map_of h (fo_times fl (valid ! j) k) = Some 0"
    by (rule histogram_started [OF m b scale, of name])
  have "distinct (map (\<lambda>b. fo_times fl b k) valid)"
    using scale(1) strict_sorted_iff [of "map (\<lambda>b. fo_times fl b k) valid"] by (simp add: sorted_wrt_map)
  then have inj: "i = j" if "i < ?n" "j < ?n" "fo_times fl (valid ! i) k = fo_times fl (valid ! j) k" for i j
    using nth_eq_iff_index_eq [of "map (\<lambda>b. fo_times fl b k) valid" i j] that by simp
  have at: "bs ! i = valid ! (i - ?st)" if "?st \<le> i" "i < ?n" for i
    using that by (simp add: b(1) nth_append less_imp_diff_less)
  have eq: "i = j" if "?st \<le> i" "i < ?n" "?st \<le> j" "j < ?n" "fo_times fl (bs ! i) k = fo_times fl (bs ! j) k" for i j
    using inj [of "i - ?st" "j - ?st"] that by (simp add: at less_imp_diff_less)
  have n: "?n \<le> length (replicate (length bs - 1) (0 :: u64))" "?n \<le> length bs" using b(1,5) by (auto simp: neq_Nil_conv)
  have "\<exists>m'. read_all fl name bs (c # cs) m0 = Some m' \<and>
      tracks fl k bs ?st ?n (map_of h) (last (replicate (length bs - 1) 0 # c # cs)) m'"
    by (rule tracks_all [OF t counts n]) (rule eq)
  then obtain m' where m': "read_all fl name bs (c # cs) m0 = Some m'" "tracks fl k bs ?st ?n (map_of h) (last (c # cs)) m'"
    unfolding last_ConsR [OF list.distinct(2)] by (elim exE conjE) (rule that)
  obtain h1 l where h1: "mi_histogramMetric m' = Some h1" "length l = ?n" "mirrors fl k ?st bs h1 l"
      "\<forall>i. ?st \<le> i \<longrightarrow> i < ?n \<longrightarrow> l ! i = last (c # cs) ! i"
      "\<forall>w. (\<forall>i. ?st \<le> i \<longrightarrow> i < ?n \<longrightarrow> w \<noteq> fo_times fl (bs ! i) k) \<longrightarrow> map_of h1 w = map_of h w"
    using m'(2) by (auto simp: tracks_def)
  have "map_of h1 (fo_times fl (valid ! j) k) = Some (if ?st + j < ?n then last (c # cs) ! (?st + j) else 0)" if j: "j < ?n" for j
  proof (cases "?st + j < ?n")
    case True
    then have "map_of h1 (fo_times fl (bs ! (?st + j)) k) = Some (l ! (?st + j))" using h1(2,3) by (simp add: mirrors_def)
    with True show ?thesis using h1(4) at [of "?st + j"] by simp
  next
    case False
    have "fo_times fl (valid ! j) k \<noteq> fo_times fl (bs ! i) k" if "?st \<le> i" "i < ?n" for i
      using inj [of j "i - ?st"] at [OF that] that j False by (auto simp: less_imp_diff_less)
    with h1(5) z j False show ?thesis by simp
  qed
  with h1(1) show ?thesis unfolding r [rule_format] m'(1) by simp
qed

text \<open>An interpretation of the operations over the integers, with limits.\<close>

definition int_floats :: "int float_ops" where
  "int_floats = \<lparr>fo_of_uint = uint, fo_plus = (+), fo_times = (*), fo_MaxFloat64 = 1000, fo_zero = 0\<rparr>"

definition pauses_info :: "int meter_info" where
  "pauses_info = the (newMetricsHistogramReplaceInfo int_floats ''instance_golang_gc_pauses'' 10)"

text \<open>
  Pauses in buckets from minus infinity, 0, 1 and 5 on: in the last reading seven took five or longer,
  and the bucket of 5 stays empty.
\<close>

lemma runtime_histogram_counts_witness:
  "\<exists>m' h. read_all int_floats ''/gc/pauses:seconds'' [-2000, 0, 1, 5, 2000] [[0, 1, 2, 3], [0, 4, 2, 7]] pauses_info = Some m' \<and>
     mi_histogramMetric m' = Some h \<and> map_of h 0 = Some 4 \<and> map_of h 10 = Some 2 \<and> map_of h 50 = Some 0"
proof -
  have "\<exists>m' h. read_all int_floats ''/gc/pauses:seconds'' [-2000, 0, 1, 5, 2000] ([0, 1, 2, 3] # [[0, 4, 2, 7]]) pauses_info = Some m' \<and>
     mi_histogramMetric m' = Some h \<and>
     (\<forall>j<length [0, 1, 5 :: int]. map_of h (fo_times int_floats ([0, 1, 5] ! j) 10) =
       Some (if length [-2000 :: int] + j < length [0, 1, 5 :: int] then last ([0, 1, 2, 3] # [[0, 4, 2, 7]]) ! (length [-2000 :: int] + j) else 0))"
    by (rule runtime_histogram_counts [where rest = "[2000]"])
      (simp_all add: pauses_info_def newMetricsHistogramReplaceInfo_def empty_info_def int_floats_def usable_def grown_to_def)
  then show ?thesis by (auto simp: All_less_Suc int_floats_def numeral_nat)
qed

section \<open>Registration\<close>

text \<open>
  The reading of a metric before it is registered is lost: init leaves a histogram without a meter, which
  the first collection makes and fills with all that was counted since the program started.
\<close>

theorem init_reads_nothing:
  assumes "mi_isHistogram m" "mi_histogramMetric m = None"
  shows "init_metric fl key (key, KindBad) m = Some (m, [])"
  using assms by (simp add: init_metric_def initHistogramIfNeeds_def readingHistogram_def)

lemma table_entries:
  "present (nameReplacing fl) name = Some m \<Longrightarrow> mi_histogramMetric m = None"
proof -
  have "list_all (\<lambda>(n, r). \<exists>m. r = Some m \<and> mi_histogramMetric m = None) (nameReplacing fl)"
    by (simp add: nameReplacing_def newMetricsGaugeReplaceInfo_def newMetricsHistogramReplaceInfo_def empty_info_def)
  then show "present (nameReplacing fl) name = Some m \<Longrightarrow> mi_histogramMetric m = None"
    by (auto simp: present_def list_all_iff split: option.splits dest!: map_of_SomeD)
qed

lemma register_all_result:
  assumes "distinct names" "\<forall>name\<in>set names. \<forall>m. rm_table w name = Some m \<longrightarrow> mi_histogramMetric m = None"
  shows "register_all fl names w = Some (w\<lparr>
     rm_samples := rm_samples w @ map (\<lambda>n. (n, KindBad)) (filter (\<lambda>n. rm_table w n \<noteq> None) names),
     rm_gauges := rm_gauges w @ map (\<lambda>n. \<lparr>rg_name = mi_name (the (rm_table w n)), rg_labels = mi_tagOpts (the (rm_table w n)), rg_source = GaugeOf n\<rparr>)
       (filter (\<lambda>n. \<exists>m. rm_table w n = Some m \<and> \<not> mi_isHistogram m) names)\<rparr>)"
  using assms
proof (induction names arbitrary: w)
  case (Cons n names)
  show ?case
  proof (cases "rm_table w n")
    case None
    with Cons show ?thesis by (simp add: register_metric_def)
  next
    case (Some m)
    then have r: "register_metric fl n w = Some (w\<lparr>rm_samples := rm_samples w @ [(n, KindBad)],
        rm_gauges := rm_gauges w @ (if mi_isHistogram m then [] else [\<lparr>rg_name = mi_name m, rg_labels = mi_tagOpts m, rg_source = GaugeOf n\<rparr>])\<rparr>)"
      using Cons.prems(2) init_reads_nothing [of m fl n] by (auto simp: register_metric_def init_metric_def fun_upd_idem)
    show ?thesis using Cons Some by (simp add: r)
  qed
qed simp

text \<open>
  When the agent starts, each metric the runtime has and the table names gets one sample, and each that
  is no histogram one gauge; the combined gauge is added, and no histogram exists yet.
\<close>

theorem runtime_metrics_registered:
  assumes "distinct allMetrics"
  shows "\<exists>w. start_runtime_metrics fl allMetrics = Some w \<and> rm_table w = present (nameReplacing fl) \<and>
    map fst (rm_samples w) = filter (\<lambda>n. present (nameReplacing fl) n \<noteq> None) allMetrics \<and>
    map rg_source (rm_gauges w) =
      map GaugeOf (filter (\<lambda>n. \<exists>m. present (nameReplacing fl) n = Some m \<and> \<not> mi_isHistogram m) allMetrics) @ [CombinedOf 0] \<and>
    (\<forall>n m. rm_table w n = Some m \<longrightarrow> mi_histogramMetric m = None)"
proof -
  let ?w = "\<lparr>rm_table = present (nameReplacing fl), rm_samples = [], rm_combined = [], rm_gauges = []\<rparr>"
  have "\<forall>name\<in>set allMetrics. \<forall>m. rm_table ?w name = Some m \<longrightarrow> mi_histogramMetric m = None" using table_entries by auto
  note r = register_all_result [OF assms this]
  show ?thesis
    unfolding start_runtime_metrics_def r using table_entries
    by (auto simp: register_combined_def combinedMetrics_def comp_def)
qed

end
