(* ===== verification/Core_Copy.thy ===== *)
theory Core_Copy
  imports "HOL-Library.Multiset" Plugin_Files Line_Directive
begin

text \<open>
  The copy of the agent core into the package agent/core of the program
  (tools/go-agent/instrument/agentcore/instrument.go, tools/copy.go, ChangePackageImportPath of
  tools/dst.go), and the start in package main (instrument/entry/instrument.go).

  Paths have slashes.  Directories, parsing, printing and the templates answer through the record
  copy_tool; a map that is ranged over is a list in the order of the range.
\<close>

section \<open>Packages\<close>

definition ProjectBasePackage :: string where
  "ProjectBasePackage = ''github.com/apache/skywalking-go/''"

definition EnhanceBasePackage :: string where
  "EnhanceBasePackage = ProjectBasePackage @ ''agent/core''"

definition CopiedSubPackages :: "string list" where
  "CopiedSubPackages = [[], ''tracing'', ''operator'', ''metrics'', ''profile'']"

definition protocolsPackages :: "string list" where
  "protocolsPackages =
     [''github.com/apache/skywalking-go/protocols/collect/common/v3'',
      ''github.com/apache/skywalking-go/protocols/collect/language/agent/v3'',
      ''github.com/apache/skywalking-go/protocols/collect/logging/v3'',
      ''github.com/apache/skywalking-go/protocols/collect/management/v3'',
      ''github.com/apache/skywalking-go/protocols/collect/agent/configuration/v3'']"

text \<open>The map pkgUpdates; its second loop writes what is there when paths have slashes.\<close>

definition pkgUpdates :: "(string \<times> string) list" where
  "pkgUpdates =
     map (\<lambda>p. (join_path EnhanceFromBasePackage p, join_path EnhanceBasePackage p)) CopiedSubPackages @
     [(join_path EnhanceFromBasePackage ''reporter'', ProjectBasePackage @ ''agent/reporter'')] @
     map (\<lambda>p. (p, p)) protocolsPackages"

section \<open>Which directory is compiled\<close>

text \<open>
  The pattern CopiedBasePackage, as the decision of MatchString: the path ends in the package below
  skywalking-go or below skywalking-go with a version.
\<close>

definition version_char :: "char \<Rightarrow> bool" where
  "version_char c \<longleftrightarrow> c \<in> set ''0123456789abcdefghijklmnopqrstuvwxyzABCDEFGHIJKLMNOPQRSTUVWXYZ_.-''"

definition core_suffix :: "string \<Rightarrow> string" where
  "core_suffix sub = ''/agent/core'' @ (if sub = [] then [] else ''/'' @ sub)"

definition core_dir :: "string \<Rightarrow> string \<Rightarrow> bool" where
  "core_dir sub dir \<longleftrightarrow>
     has_suffix dir (core_suffix sub) \<and>
     (let r = take (length dir - length (core_suffix sub)) dir;
          rest = dropWhile version_char (rev r)
      in has_suffix r ''skywalking-go'' \<or>
         (takeWhile version_char (rev r) \<noteq> [] \<and> has_suffix (rev rest) ''skywalking-go@''))"

record core_instrument =
  ci_hasCopyPath :: bool
  ci_needsCopyDir :: string
  ci_DebugDir :: string

definition core_CouldHandle :: "string \<Rightarrow> bool" where
  "core_CouldHandle pkg = has_prefix pkg EnhanceBasePackage"

definition core_FilterAndEdit :: "string \<Rightarrow> core_instrument \<Rightarrow> core_instrument \<times> bool" where
  "core_FilterAndEdit path i =
     (if ci_hasCopyPath i then (i, False)
      else case List.find (\<lambda>sub. core_dir sub (path_dir path)) CopiedSubPackages of
             None \<Rightarrow> (i, False)
           | Some sub \<Rightarrow> (i\<lparr>ci_needsCopyDir := sub, ci_hasCopyPath := True\<rparr>, True))"

section \<open>The copy\<close>

record copy_tool =
  ct_dir :: "string \<Rightarrow> string + dir_entry list"
  ct_file :: "string \<Rightarrow> string + string"
  ct_parse :: "string \<Rightarrow> string + gfile"
  ct_write :: "string \<Rightarrow> gfile \<Rightarrow> debug_info option \<Rightarrow> string option"
  ct_linker :: "string option"
  ct_init :: "string option"

text \<open>The loop over the map, for one import.\<close>

definition changed_path :: "(string \<times> string) list \<Rightarrow> string \<Rightarrow> string" where
  "changed_path pkgChanges path = fold (\<lambda>(originalPkg, targetPkg) p. if p = originalPkg then targetPkg else p) pkgChanges path"

definition ChangePackageImportPath :: "(string \<times> string) list \<Rightarrow> gfile \<Rightarrow> gfile" where
  "ChangePackageImportPath pkgChanges f =
     f\<lparr>file_Imports := map (map (\<lambda>s. s\<lparr>is_Path := changed_path pkgChanges (is_Path s)\<rparr>)) (file_Imports f)\<rparr>"

definition buildDSTDebugInfo :: "string \<Rightarrow> string \<Rightarrow> string + debug_info option" where
  "buildDSTDebugInfo DebugDir name =
     (if DebugDir = [] then Inr None
      else (case BuildDSTDebugInfo (\<lambda>p. Inl []) (DebugDir @ ''/plugins/core/'' @ name) None of
              Inl err \<Rightarrow> Inl err
            | Inr d \<Rightarrow> Inr (Some d)))"

definition copied_name :: "string \<Rightarrow> bool" where
  "copied_name n \<longleftrightarrow> has_suffix n ''.go'' \<and> \<not> (has_suffix n ''_test.go'' \<or> has_suffix n ''_test_base.go'')"

text \<open>CopyGoFiles: what is written, in order, with the debug information.\<close>

fun copy_entries ::
    "copy_tool \<Rightarrow> string \<Rightarrow> string \<Rightarrow> (string \<Rightarrow> string + debug_info option) \<Rightarrow> (gfile \<Rightarrow> gfile) \<Rightarrow> dir_entry list \<Rightarrow>
     string + (string \<times> gfile \<times> debug_info option) list" where
  "copy_entries b fromDir targetDir debug peek [] = Inr []"
| "copy_entries b fromDir targetDir debug peek (f # fs) =
     (if \<not> copied_name (de_Name f) then copy_entries b fromDir targetDir debug peek fs
      else (case ct_file b (to_slash (path_join fromDir (de_Name f))) of
              Inl err \<Rightarrow> Inl err
            | Inr readFile \<Rightarrow>
                (if contains_text readFile DirectiveNoCopy then copy_entries b fromDir targetDir debug peek fs
                 else (case ct_parse b readFile of
                         Inl err \<Rightarrow> Inl err
                       | Inr parsed \<Rightarrow>
                           (case debug (de_Name f) of
                              Inl err \<Rightarrow> Inl err
                            | Inr debugInfo \<Rightarrow>
                                (let path = to_slash (path_join targetDir (de_Name f))
                                 in case ct_write b path (peek parsed) debugInfo of
                                      Some err \<Rightarrow> Inl err
                                    | None \<Rightarrow>
                                        (case copy_entries b fromDir targetDir debug peek fs of
                                           Inl err \<Rightarrow> Inl err
                                         | Inr rest \<Rightarrow> Inr ((path, peek parsed, debugInfo) # rest))))))))"

definition CopyGoFiles ::
    "copy_tool \<Rightarrow> string \<Rightarrow> string \<Rightarrow> (string \<Rightarrow> string + debug_info option) \<Rightarrow> (gfile \<Rightarrow> gfile) \<Rightarrow>
     string + (string \<times> gfile \<times> debug_info option) list" where
  "CopyGoFiles b fromDir targetDir debug peek =
     (case ct_dir b fromDir of Inl err \<Rightarrow> Inl err | Inr fs \<Rightarrow> copy_entries b fromDir targetDir debug peek fs)"

text \<open>WriteExtraFiles; order is the order in which the range visits pkgUpdates.\<close>

definition core_WriteExtraFiles ::
    "copy_tool \<Rightarrow> (string \<times> string) list \<Rightarrow> string \<Rightarrow> core_instrument \<Rightarrow> string + string list" where
  "core_WriteExtraFiles b order dir i =
     (if \<not> ci_hasCopyPath i then Inr []
      else (let sub = (if ci_needsCopyDir i = [] then ''.'' else ci_needsCopyDir i)
            in case CopyGoFiles b sub dir (buildDSTDebugInfo (ci_DebugDir i)) (ChangePackageImportPath order) of
                 Inl err \<Rightarrow> Inl err
               | Inr copied \<Rightarrow>
                   (if sub \<noteq> ''.'' then Inr (map fst copied)
                    else (case (ct_linker b, ct_init b) of
                            (Some err, _) \<Rightarrow> Inl err
                          | (None, Some err) \<Rightarrow> Inl err
                          | (None, None) \<Rightarrow>
                              Inr (map fst copied @ [path_join dir ''runtime_linker.go'', path_join dir ''tracer_init.go''])))))"

section \<open>The generated start\<close>

text \<open>
  init of runtime_linker.go: a function of the runtime package is used where it was linked; those of a
  pair only together.  The result says whether the tracer was made the global operator.
\<close>

record 'f core_links =
  cl_tlsGet :: "'f option"
  cl_tlsSet :: "'f option"
  cl_goid :: "'f option"
  cl_setOperator :: "'f option"
  cl_getOperator :: "'f option"
  cl_initNotify :: "'f option"
  cl_metricsObtain :: "'f option"

record 'f core_hooks =
  GetGLS :: 'f
  SetGLS :: 'f
  GetGoID :: 'f
  SetGlobalOperator :: 'f
  GetGlobalOperator :: 'f
  GetInitNotify :: 'f
  MetricsObtain :: 'f

definition linker_init :: "'f core_links \<Rightarrow> 'f core_hooks \<Rightarrow> 'f core_hooks \<times> bool" where
  "linker_init l h =
     (let h = (case (cl_tlsGet l, cl_tlsSet l) of (Some g, Some s) \<Rightarrow> h\<lparr>GetGLS := g, SetGLS := s\<rparr> | _ \<Rightarrow> h);
          h = (case cl_goid l of Some f \<Rightarrow> h\<lparr>GetGoID := f\<rparr> | None \<Rightarrow> h);
          (h, started) = (case (cl_setOperator l, cl_getOperator l) of
             (Some s, Some g) \<Rightarrow> (h\<lparr>SetGlobalOperator := s, GetGlobalOperator := g\<rparr>, True) | _ \<Rightarrow> (h, False));
          h = (case cl_initNotify l of Some f \<Rightarrow> h\<lparr>GetInitNotify := f\<rparr> | None \<Rightarrow> h);
          h = (case cl_metricsObtain l of Some f \<Rightarrow> h\<lparr>MetricsObtain := f\<rparr> | None \<Rightarrow> h)
      in (h, started))"

section \<open>Package main\<close>

definition entry_CouldHandle :: "string \<Rightarrow> bool" where
  "entry_CouldHandle pkg \<longleftrightarrow> pkg = ''main''"

definition entry_FilterAndEdit :: "bool \<Rightarrow> bool \<times> bool" where
  "entry_FilterAndEdit hasFound = (if hasFound then (True, False) else (True, True))"

definition entry_WriteExtraFiles :: "(string \<Rightarrow> string option) \<Rightarrow> string \<Rightarrow> string + string list" where
  "entry_WriteExtraFiles write_error dir =
     (let file = path_join dir ''skywalking_init.go''
      in case write_error file of Some err \<Rightarrow> Inl err | None \<Rightarrow> Inr [file])"

text \<open>The init function of skywalking_init.go: the operator, if it was linked and set, and can start.\<close>

definition entry_init :: "'o option option \<Rightarrow> ('o \<Rightarrow> bool) \<Rightarrow> 'o option" where
  "entry_init getter initiator =
     (case getter of Some (Some op) \<Rightarrow> if initiator op then Some op else None | _ \<Rightarrow> None)"

section \<open>The directory of a package is recognised\<close>

lemma version_char_special [simp]: "\<not> version_char CHR ''@''" "\<not> version_char CHR ''/''"
  by (simp_all add: version_char_def)

lemma suffix_alternatives:
  "(\<exists>r. d = r @ cs \<and> ((\<exists>u. r = u @ a) \<or> (\<exists>pre v. v \<noteq> [] \<and> P v \<and> r = pre @ b @ v))) \<longleftrightarrow>
     (\<exists>pre. d = pre @ a @ cs) \<or> (\<exists>pre v. v \<noteq> [] \<and> P v \<and> d = pre @ b @ v @ cs)"
  by (metis append.assoc)

text \<open>
  A directory is taken for a package of the agent exactly when its path ends in a directory of the
  module, with or without a version, and the place of the package in it.
\<close>

theorem core_dir_matches:
  "core_dir sub dir \<longleftrightarrow>
     (\<exists>pre. dir = pre @ ''skywalking-go'' @ core_suffix sub) \<or>
     (\<exists>pre v. v \<noteq> [] \<and> list_all version_char v \<and> dir = pre @ ''skywalking-go@'' @ v @ core_suffix sub)"
  (is "_ \<longleftrightarrow> ?plain \<or> ?version")
proof -
  have split: "core_dir sub dir \<longleftrightarrow> (\<exists>r. dir = r @ core_suffix sub \<and> (has_suffix r ''skywalking-go'' \<or>
      (takeWhile version_char (rev r) \<noteq> [] \<and> has_suffix (rev (dropWhile version_char (rev r))) ''skywalking-go@'')))"
    by (auto simp: core_dir_def has_suffix_iff Let_def)
  have "(takeWhile version_char (rev r) \<noteq> [] \<and> has_suffix (rev (dropWhile version_char (rev r))) ''skywalking-go@'') \<longleftrightarrow>
      (\<exists>pre v. v \<noteq> [] \<and> list_all version_char v \<and> r = pre @ ''skywalking-go@'' @ v)" (is "?l = ?r") for r
  proof
    assume l: ?l
    then obtain pre where "rev (dropWhile version_char (rev r)) = pre @ ''skywalking-go@''" by (auto simp: has_suffix_iff)
    then have "r = pre @ ''skywalking-go@'' @ rev (takeWhile version_char (rev r))"
      by (metis append.assoc rev_append rev_rev_ident takeWhile_dropWhile_id)
    moreover have "list_all version_char (rev (takeWhile version_char (rev r)))"
      by (auto simp: list_all_iff dest: set_takeWhileD)
    ultimately show ?r using l by (metis Nil_is_rev_conv)
  next
    assume ?r
    then obtain pre v where v: "v \<noteq> []" "list_all version_char v" "r = pre @ ''skywalking-go@'' @ v" by blast
    then have p: "rev r = rev v @ CHR ''@'' # rev (pre @ ''skywalking-go'')" by simp
    have "takeWhile version_char (rev v @ ys) = rev v @ takeWhile version_char ys"
      "dropWhile version_char (rev v @ ys) = dropWhile version_char ys" for ys
      using v(2) by (auto simp: list_all_iff intro!: takeWhile_append2 dropWhile_append2)
    with v(1) show ?l unfolding p by (simp add: has_suffix_iff)
  qed
  then show ?thesis unfolding split has_suffix_iff suffix_alternatives [symmetric] by (simp only:)
qed

lemma core_suffixes_differ:
  assumes "sub \<in> set CopiedSubPackages" "sub' \<in> set CopiedSubPackages" "sub \<noteq> sub'"
  shows "\<not> has_suffix (x @ core_suffix sub) (core_suffix sub')"
proof -
  have e: "has_suffix y s \<longleftrightarrow> (\<exists>z. rev y = rev s @ z)" for y s
    by (metis has_suffix_iff rev_append rev_rev_ident)
  show ?thesis using assms unfolding e by (auto simp: CopiedSubPackages_def core_suffix_def)
qed

text \<open>
  Each package of the agent is copied from its own directory: the first file that is compiled in the
  directory of a package decides it, whatever the place and the version of the module.
\<close>

theorem own_package_copied:
  assumes "sub \<in> set CopiedSubPackages" "path_dir path = pre @ ''skywalking-go'' @ v @ core_suffix sub"
    and "v = [] \<or> (\<exists>n. n \<noteq> [] \<and> list_all version_char n \<and> v = ''@'' @ n)" "\<not> ci_hasCopyPath i"
  shows "core_FilterAndEdit path i = (i\<lparr>ci_needsCopyDir := sub, ci_hasCopyPath := True\<rparr>, True)"
proof -
  have own: "core_dir sub (path_dir path)"
    unfolding core_dir_matches assms(2) using assms(3) by auto
  have other: "\<not> core_dir sub' (path_dir path)" if "sub' \<in> set CopiedSubPackages" "sub' \<noteq> sub" for sub'
    using core_suffixes_differ [OF assms(1) that(1), of "pre @ ''skywalking-go'' @ v"] that(2) by (simp add: core_dir_def assms(2))
  have "List.find (\<lambda>s. core_dir s (path_dir path)) xs = Some sub" if "sub \<in> set xs" "set xs \<subseteq> set CopiedSubPackages" for xs
    using that other own by (induction xs) auto
  from this [OF assms(1) order.refl] show ?thesis using assms(4) by (simp add: core_FilterAndEdit_def)
qed

section \<open>Imports of the copy\<close>

lemma changed_once:
  assumes "distinct (map fst ps)" "\<forall>(o', t)\<in>set ps. \<forall>(o2, t2)\<in>set ps. t = o2 \<longrightarrow> t2 = o2"
  shows "changed_path ps path = (case map_of ps path of None \<Rightarrow> path | Some t \<Rightarrow> t)"
proof -
  have keep: "changed_path qs t = t" if "\<forall>(o2, t2)\<in>set qs. t = o2 \<longrightarrow> t2 = o2" for qs t
    using that unfolding changed_path_def by (induction qs) auto
  show ?thesis using assms
  proof (induction ps)
    case (Cons p ps)
    obtain o1 t1 where p: "p = (o1, t1)" by (cases p)
    show ?case
    proof (cases "path = o1")
      case True
      have "changed_path ps t1 = t1" by (rule keep) (use Cons.prems(2) p in auto)
      with True show ?thesis by (simp add: p changed_path_def)
    next
      case False
      have "changed_path ps path = (case map_of ps path of None \<Rightarrow> path | Some t \<Rightarrow> t)"
        by (rule Cons.IH) (use Cons.prems in auto)
      with False show ?thesis by (simp add: p changed_path_def)
    qed
  qed (simp add: changed_path_def)
qed

text \<open>
  In whatever order the packages are visited, the copy of a file imports the copied package where the
  file imported a package of the core that is copied, and every other import stays, its name too.
\<close>

theorem copied_imports:
  assumes "mset order = mset pkgUpdates"
  shows "file_Imports (ChangePackageImportPath order f) =
    map (map (\<lambda>s. s\<lparr>is_Path := (case map_of pkgUpdates (is_Path s) of None \<Rightarrow> is_Path s | Some t \<Rightarrow> t)\<rparr>)) (file_Imports f)"
proof -
  have s: "set order = set pkgUpdates" using assms by (metis set_mset_mset)
  have d: "distinct (map fst pkgUpdates)"
    by (simp add: pkgUpdates_def CopiedSubPackages_def protocolsPackages_def join_path_def EnhanceFromBasePackage_def)
  have d2: "distinct (map fst order)" using d assms by (metis mset_eq_imp_distinct_iff mset_map)
  have c: "\<forall>(o', t)\<in>set pkgUpdates. \<forall>(o2, t2)\<in>set pkgUpdates. t = o2 \<longrightarrow> t2 = o2"
    by (simp add: pkgUpdates_def CopiedSubPackages_def protocolsPackages_def join_path_def EnhanceFromBasePackage_def
        EnhanceBasePackage_def ProjectBasePackage_def)
  have "map_of order = map_of pkgUpdates" using s d d2 by (metis map_of_inject_set)
  then have "changed_path order p = (case map_of pkgUpdates p of None \<Rightarrow> p | Some t \<Rightarrow> t)" for p
    using changed_once [OF d2, of p] c s by simp
  then show ?thesis by (simp add: ChangePackageImportPath_def)
qed

text \<open>
  The debugger is sent to the wrong file: the path of a copied file leaves out its package, so files of
  one name in two packages are taken for the same file, and it is one of the core itself.
\<close>

theorem debug_path_loses_package:
  assumes "ci_DebugDir i \<noteq> []" "CopyGoFiles b sub dir (buildDSTDebugInfo (ci_DebugDir i)) peek = Inr copied"
    and "(path, f, d) \<in> set copied"
  shows "\<exists>n. path = to_slash (path_join dir n) \<and>
    d = Some \<lparr>di_FilePath = ci_DebugDir i @ ''/plugins/core/'' @ n, di_Line = 1, di_CheckOldLine = False\<rparr>"
proof -
  have "copy_entries b sub dir (buildDSTDebugInfo (ci_DebugDir i)) peek fs = Inr copied \<Longrightarrow> ?thesis" for fs
    using assms(3)
  proof (induction fs arbitrary: copied)
    case (Cons e fs)
    then show ?case
      using assms(1)
      by (auto simp: buildDSTDebugInfo_def BuildDSTDebugInfo_def Let_def split: if_split_asm sum.split_asm option.split_asm)
  qed simp
  with assms(2) show ?thesis by (auto simp: CopyGoFiles_def split: sum.split_asm)
qed

lemma core_dir_matches_sample: "core_dir ''tracing'' ''/go/pkg/mod/github.com/apache/skywalking-go@v0.5.0/agent/core/tracing''"
  by code_simp

lemma own_package_copied_witness:
  "core_FilterAndEdit ''/mod/skywalking-go@v0.5.0/agent/core/tracing/api.go'' \<lparr>ci_hasCopyPath = False, ci_needsCopyDir = [], ci_DebugDir = []\<rparr> =
     (\<lparr>ci_hasCopyPath = True, ci_needsCopyDir = ''tracing'', ci_DebugDir = []\<rparr>, True)"
proof -
  have p: "path_dir ''/mod/skywalking-go@v0.5.0/agent/core/tracing/api.go'' =
      ''/mod/'' @ ''skywalking-go'' @ (''@'' @ ''v0.5.0'') @ core_suffix ''tracing''" by code_simp
  have v: "list_all version_char ''v0.5.0''" by code_simp
  have s: "''tracing'' \<in> set CopiedSubPackages" by (simp add: CopiedSubPackages_def)
  from own_package_copied [OF s p, of "\<lparr>ci_hasCopyPath = False, ci_needsCopyDir = [], ci_DebugDir = []\<rparr>"] v show ?thesis by auto
qed

end
