(* ===== verification/Log_Frameworks.thy ===== *)
theory Log_Frameworks
  imports Strconv
begin

text \<open>
  What the agent adds to the log frameworks zap and logrus at run time
  (tools/go-agent/instrument/logger/frameworks: zap_core.go, zap_root.go, logrus_format.go,
  logrus_adapt.go; instrument/logger/context.go).

  The agent core answers GetLogContext with a context or nil (Log_Report models it); stringer gives
  the text of a context that has one.  A report is a value, the arguments of ReportLog.
\<close>

record log_settings =
  LogTracingContextEnable :: bool
  LogReporterEnable :: bool
  LogReporterLabelKeys :: "string list"
  LogTracingContextKey :: string

record log_line =
  le_Time :: int
  le_Level :: string
  le_Message :: string

record 'c log_report =
  lr_ctx :: 'c
  lr_line :: log_line
  lr_labels :: "string \<rightharpoonup> string"

text \<open>GetLogContextString of context.go: the empty string without a context that has a text.\<close>

definition GetLogContextString :: "(bool \<Rightarrow> 'c option) \<Rightarrow> ('c \<Rightarrow> string option) \<Rightarrow> string" where
  "GetLogContextString getctx stringer =
     (case getctx False of None \<Rightarrow> [] | Some c \<Rightarrow> (case stringer c of None \<Rightarrow> [] | Some s \<Rightarrow> s))"

section \<open>zap\<close>

text \<open>A field of zapcore: an interface value is its text under the verb v.\<close>

record zap_field =
  zf_Key :: string
  zf_Interface :: "string option"
  zf_Integer :: int
  zf_String :: string

definition zap_String :: "string \<Rightarrow> string \<Rightarrow> zap_field" where
  "zap_String key val = \<lparr>zf_Key = key, zf_Interface = None, zf_Integer = 0, zf_String = val\<rparr>"

definition generateLabelKeyValueFromField :: "zap_field \<Rightarrow> string \<times> string" where
  "generateLabelKeyValueFromField f =
     (case zf_Interface f of
        Some v \<Rightarrow> (zf_Key f, v)
      | None \<Rightarrow>
          if zf_Integer f > 0 then (zf_Key f, itoa (zf_Integer f))
          else if zf_String f \<noteq> [] then (zf_Key f, zf_String f)
          else ([], []))"

definition add_label :: "zap_field \<Rightarrow> (string \<rightharpoonup> string) \<Rightarrow> string \<rightharpoonup> string" where
  "add_label f labels =
     (let (k, v) = generateLabelKeyValueFromField f in if k \<noteq> [] then labels(k \<mapsto> v) else labels)"

text \<open>ReportLogFromZapEntry: the fields the entry is written with, and the report if there is one.\<close>

definition ReportLogFromZapEntry ::
    "log_line \<Rightarrow> zap_field list \<Rightarrow> zap_field list \<Rightarrow> 'c option \<Rightarrow> zap_field option \<Rightarrow> bool \<Rightarrow> bool \<Rightarrow> string list \<Rightarrow>
     zap_field list \<times> 'c log_report option" where
  "ReportLogFromZapEntry entry fs0 needs tracingContext tracingContextField reporterEnable logEnable reportLabelsKeys =
     (let report =
            (case tracingContext of
               Some ctx \<Rightarrow>
                 if reporterEnable then
                   (let labels = fold (\<lambda>key. fold (\<lambda>f l. if zf_Key f = key then add_label f l else l) fs0) reportLabelsKeys Map.empty;
                        labels = fold add_label needs labels
                    in Some \<lparr>lr_ctx = ctx, lr_line = entry, lr_labels = labels\<rparr>)
                 else None
             | None \<Rightarrow> None);
          fs0 = (case tracingContextField of Some f \<Rightarrow> if logEnable then fs0 @ [f] else fs0 | None \<Rightarrow> fs0)
      in (fs0, report))"

definition TracingContextEnhance ::
    "log_settings \<Rightarrow> (bool \<Rightarrow> 'c option) \<Rightarrow> ('c \<Rightarrow> string option) \<Rightarrow> 'c option \<times> zap_field option" where
  "TracingContextEnhance g getctx stringer =
     (if LogReporterEnable g \<or> LogTracingContextEnable g then
        (case getctx (LogReporterEnable g) of
           None \<Rightarrow> (None, None)
         | Some ctx \<Rightarrow>
             (case stringer ctx of
                None \<Rightarrow> (None, None)
              | Some s \<Rightarrow> (Some ctx, Some (zap_String (LogTracingContextKey g) s))))
      else (None, None))"

definition KnownFieldFilter :: "string list \<Rightarrow> zap_field list \<Rightarrow> zap_field list \<Rightarrow> zap_field list" where
  "KnownFieldFilter keys fs existingFields = concat (map (\<lambda>k. filter (\<lambda>f. zf_Key f = k) fs) keys) @ existingFields"

text \<open>
  A logger made by a chain of calls of With, then one line: the deferred calls that are added to With,
  check and Write, in the order they run.
\<close>

definition with_chain :: "log_settings \<Rightarrow> zap_field list list \<Rightarrow> zap_field list" where
  "with_chain g withs = foldl (\<lambda>existing fs. KnownFieldFilter (LogReporterLabelKeys g) fs existing) [] withs"

definition zap_line ::
    "log_settings \<Rightarrow> (bool \<Rightarrow> 'c option) \<Rightarrow> ('c \<Rightarrow> string option) \<Rightarrow> zap_field list list \<Rightarrow> log_line \<Rightarrow> zap_field list \<Rightarrow>
     zap_field list \<times> 'c log_report option" where
  "zap_line g getctx stringer withs entry fs0 =
     (let (ctx, field) = TracingContextEnhance g getctx stringer
      in ReportLogFromZapEntry entry fs0 (with_chain g withs) ctx field
           (LogReporterEnable g) (LogTracingContextEnable g) (LogReporterLabelKeys g))"

section \<open>logrus\<close>

datatype 'r log_formatter = Formatter "log_line \<Rightarrow> (string \<rightharpoonup> string) \<Rightarrow> 'r" | WrapFormat "'r log_formatter" string

definition Wrap :: "'r log_formatter \<Rightarrow> string \<Rightarrow> 'r log_formatter" where
  "Wrap base contextKey = WrapFormat base (if contextKey = [] then ''SW_CTX'' else contextKey)"

text \<open>The data of the entry are the values under the verb v; they are changed in place.\<close>

fun Format ::
    "log_settings \<Rightarrow> (bool \<Rightarrow> 'c option) \<Rightarrow> ('c \<Rightarrow> string option) \<Rightarrow> 'r log_formatter \<Rightarrow> log_line \<Rightarrow> (string \<rightharpoonup> string) \<Rightarrow>
     'r \<times> (string \<rightharpoonup> string) \<times> 'c log_report list" where
  "Format g getctx stringer (Formatter fmt) entry data = (fmt entry data, data, [])"
| "Format g getctx stringer (WrapFormat base key) entry data =
     (if LogReporterEnable g then
        (case getctx True of
           None \<Rightarrow> Format g getctx stringer base entry data
         | Some ctx \<Rightarrow>
             (let labels = fold (\<lambda>k l. case data k of None \<Rightarrow> l | Some v \<Rightarrow> l(k \<mapsto> v)) (LogReporterLabelKeys g) Map.empty;
                  text = (case stringer ctx of None \<Rightarrow> GetLogContextString getctx stringer | Some s \<Rightarrow> s);
                  (out, data', rs) = Format g getctx stringer base entry (data(key \<mapsto> text))
              in (out, data', \<lparr>lr_ctx = ctx, lr_line = entry, lr_labels = labels\<rparr> # rs)))
      else Format g getctx stringer base entry (data(key \<mapsto> GetLogContextString getctx stringer)))"

text \<open>UpdateLogrusLogger, for the formatter of the logger.\<close>

definition UpdateLogrusLogger :: "log_settings \<Rightarrow> 'r log_formatter \<Rightarrow> 'r log_formatter" where
  "UpdateLogrusLogger g f =
     (if LogTracingContextEnable g then
        (case f of WrapFormat b k \<Rightarrow> f | Formatter fmt \<Rightarrow> Wrap f (LogTracingContextKey g))
      else f)"

section \<open>Labels of zap\<close>

definition label_of :: "zap_field \<Rightarrow> (string \<times> string) option" where
  "label_of f = (let (k, v) = generateLabelKeyValueFromField f in if k \<noteq> [] then Some (k, v) else None)"

lemma add_label_of: "add_label f l = (case label_of f of None \<Rightarrow> l | Some (k, v) \<Rightarrow> l(k \<mapsto> v))"
  by (auto simp: add_label_def label_of_def Let_def split: prod.splits)

lemma label_key: "label_of f = Some (k, v) \<Longrightarrow> zf_Key f = k"
  by (auto simp: label_of_def generateLabelKeyValueFromField_def split: option.splits if_splits)

text \<open>The value of a key in the fields of one call: that of the last field with the key that has a label.\<close>

fun call_value :: "zap_field list \<Rightarrow> string \<Rightarrow> string option" where
  "call_value [] k = None"
| "call_value (f # fs) k =
     (case call_value fs k of
        Some v \<Rightarrow> Some v
      | None \<Rightarrow> (case label_of f of Some (k1, v) \<Rightarrow> if k1 = k then Some v else None | None \<Rightarrow> None))"

lemma add_labels: "fold add_label fs l k = (case call_value fs k of None \<Rightarrow> l k | Some v \<Rightarrow> Some v)"
  by (induction fs arbitrary: l) (auto simp: add_label_of split: option.splits)

lemma call_value_append: "call_value (fs @ gs) k = (case call_value gs k of None \<Rightarrow> call_value fs k | Some v \<Rightarrow> Some v)"
  by (induction fs) (auto split: option.splits)

lemma call_value_filter: "call_value (filter (\<lambda>f. zf_Key f = k') fs) k = (if k = k' then call_value fs k else None)"
  by (induction fs) (auto dest: label_key split: option.splits)

lemma call_value_known:
  "call_value (concat (map (\<lambda>k'. filter (\<lambda>f. zf_Key f = k') fs) keys)) k = (if k \<in> set keys then call_value fs k else None)"
  by (induction keys) (auto simp: call_value_append call_value_filter split: option.splits)

fun first_value :: "string \<Rightarrow> zap_field list list \<Rightarrow> string option" where
  "first_value k [] = None"
| "first_value k (fs # fss) = (case call_value fs k of None \<Rightarrow> first_value k fss | Some v \<Rightarrow> Some v)"

lemma first_value_append: "first_value k (xs @ ys) = (case first_value k xs of None \<Rightarrow> first_value k ys | Some v \<Rightarrow> Some v)"
  by (induction xs) (auto split: option.splits)

lemma with_chain_value:
  "call_value (with_chain g withs) k = (if k \<in> set (LogReporterLabelKeys g) then first_value k withs else None)"
proof (induction withs rule: rev_induct)
  case Nil
  then show ?case by (simp add: with_chain_def)
next
  case (snoc fs withs)
  then show ?case
    by (auto simp: with_chain_def KnownFieldFilter_def call_value_append call_value_known first_value_append split: option.splits)
qed

lemma call_labels:
  "fold (\<lambda>key. fold (\<lambda>f l. if zf_Key f = key then add_label f l else l) fs0) keys l k =
     (case (if k \<in> set keys then call_value fs0 k else None) of None \<Rightarrow> l k | Some v \<Rightarrow> Some v)"
proof -
  have "fold (\<lambda>f l. if zf_Key f = key then add_label f l else l) fs0 = fold add_label (filter (\<lambda>f. zf_Key f = key) fs0)" for key
    by (induction fs0) (auto simp: fun_eq_iff)
  then show ?thesis
    by (induction keys arbitrary: l) (auto simp: add_labels call_value_filter split: option.splits)
qed

text \<open>
  What zap reports for one line.  A line is reported when reporting is on and there is a context with
  a text; its labels are the configured keys, each with the value of the oldest call of With that gives it
  one, and of the line itself only if no call of With does, which is the reverse of what the line says.
\<close>

theorem zap_labels_reported:
  assumes "zap_line g getctx stringer withs entry fs0 = (fs1, report)"
  shows "(report = None \<longleftrightarrow> \<not> LogReporterEnable g \<or> Option.bind (getctx True) stringer = None) \<and>
    (\<forall>r. report = Some r \<longrightarrow> lr_line r = entry \<and> Some (lr_ctx r) = getctx True \<and>
       (\<forall>k. lr_labels r k = (if k \<in> set (LogReporterLabelKeys g) then first_value k (withs @ [fs0]) else None)))"
proof -
  have l: "fold add_label (with_chain g withs) (fold (\<lambda>key. fold (\<lambda>f l. if zf_Key f = key then add_label f l else l) fs0)
      (LogReporterLabelKeys g) Map.empty) k = (if k \<in> set (LogReporterLabelKeys g) then first_value k (withs @ [fs0]) else None)" for k
    by (auto simp: add_labels call_labels with_chain_value first_value_append split: option.splits)
  show ?thesis
    using assms l
    by (auto simp: zap_line_def TracingContextEnhance_def ReportLogFromZapEntry_def Let_def split: option.splits if_splits)
qed

text \<open>Zero, a negative number and the empty string are no labels.\<close>

theorem zero_not_labelled:
  "\<lbrakk>zf_Interface f = None; zf_Integer f \<le> 0; zf_String f = []\<rbrakk> \<Longrightarrow> add_label f l = l"
  by (simp add: add_label_def generateLabelKeyValueFromField_def)

definition sample_settings :: log_settings where
  "sample_settings = \<lparr>LogTracingContextEnable = True, LogReporterEnable = True, LogReporterLabelKeys = [''user''], LogTracingContextKey = ''SW_CTX''\<rparr>"

text \<open>A logger with user a, then with user b, and a line with user c: reported is a.\<close>

lemma zap_labels_reported_witness:
  "\<exists>fs1 r. zap_line sample_settings (\<lambda>b. Some ''ctx'') Some [[zap_String ''user'' ''a''], [zap_String ''user'' ''b'']]
      \<lparr>le_Time = 0, le_Level = ''info'', le_Message = ''m''\<rparr> [zap_String ''user'' ''c''] = (fs1, Some r) \<and> lr_labels r ''user'' = Some ''a''"
proof -
  obtain fs1 report where z: "zap_line sample_settings (\<lambda>b. Some ''ctx'') Some [[zap_String ''user'' ''a''], [zap_String ''user'' ''b'']]
      \<lparr>le_Time = 0, le_Level = ''info'', le_Message = ''m''\<rparr> [zap_String ''user'' ''c''] = (fs1, report)" by fastforce
  from zap_labels_reported [OF z] obtain r where r: "report = Some r"
    "lr_labels r ''user'' = first_value ''user'' ([[zap_String ''user'' ''a''], [zap_String ''user'' ''b'']] @ [[zap_String ''user'' ''c'']])"
    by (cases report) (auto simp: sample_settings_def)
  have "first_value ''user'' ([[zap_String ''user'' ''a''], [zap_String ''user'' ''b'']] @ [[zap_String ''user'' ''c'']]) = Some ''a''"
    by code_simp
  with z r show ?thesis by auto
qed

section \<open>The formatter of logrus\<close>

lemma logrus_labels:
  "fold (\<lambda>k l. case data k of None \<Rightarrow> l | Some v \<Rightarrow> l(k \<mapsto> v)) keys l k = (if k \<in> set keys \<and> data k \<noteq> None then data k else l k)"
  by (induction keys arbitrary: l) (auto split: option.splits)

text \<open>
  A logger of logrus whose formatter was taken over, any number of times, formats each line once and
  reports it at most once: with tracing switched on, the line gets the context, unless logs are
  reported and there is none, and the report has the configured keys of the line as labels.
\<close>

theorem logrus_line:
  assumes "LogTracingContextEnable g" "LogTracingContextKey g \<noteq> []" "0 < n"
  shows "Format g getctx stringer ((UpdateLogrusLogger g ^^ n) (Formatter fmt)) entry data =
    (if LogReporterEnable g \<and> getctx True = None then (fmt entry data, data, [])
     else (let text = (case (if LogReporterEnable g then Option.bind (getctx True) stringer else None) of
                         None \<Rightarrow> GetLogContextString getctx stringer | Some s \<Rightarrow> s);
               data' = data(LogTracingContextKey g \<mapsto> text)
           in (fmt entry data', data',
               if LogReporterEnable g
               then [\<lparr>lr_ctx = the (getctx True), lr_line = entry, lr_labels = data |` set (LogReporterLabelKeys g)\<rparr>] else [])))"
proof -
  have "(UpdateLogrusLogger g ^^ Suc m) (Formatter fmt) = WrapFormat (Formatter fmt) (LogTracingContextKey g)" for m
    using assms(1,2) by (induction m) (simp_all add: UpdateLogrusLogger_def Wrap_def)
  then have "(UpdateLogrusLogger g ^^ n) (Formatter fmt) = WrapFormat (Formatter fmt) (LogTracingContextKey g)"
    using assms(3) by (metis gr0_conv_Suc)
  moreover have "fold (\<lambda>k l. case data k of None \<Rightarrow> l | Some v \<Rightarrow> l(k \<mapsto> v)) (LogReporterLabelKeys g) Map.empty = data |` set (LogReporterLabelKeys g)"
    by (auto simp: fun_eq_iff logrus_labels restrict_map_def)
  ultimately show ?thesis by (auto simp: Let_def split: option.splits)
qed

text \<open>Without tracing the formatter is not taken over, so nothing is reported, although reporting is on.\<close>

theorem logrus_reports_only_traced:
  "\<not> LogTracingContextEnable g \<Longrightarrow>
   Format g getctx stringer ((UpdateLogrusLogger g ^^ n) (Formatter fmt)) entry data = (fmt entry data, data, [])"
proof -
  assume "\<not> LogTracingContextEnable g"
  then have "(UpdateLogrusLogger g ^^ n) (Formatter fmt) = Formatter fmt" by (induction n) (simp_all add: UpdateLogrusLogger_def)
  then show ?thesis by simp
qed

end
