(* ===== verification/Logger_Instrument.thy ===== *)
theory Logger_Instrument
  imports "HOL-Library.AList" Enhance_Method
begin

text \<open>
  How the tool instruments a log framework (tools/go-agent/instrument/logger/instrument.go with the
  decisions of frameworks/logrus.go and zap.go and the template automatic_bind): which packages and
  declarations it edits, the text it puts in them, and the functions it declares beside them.
  Log_Frameworks models what the added code does.

  Trees and arguments are as in Enhance_Method.  A panic is None.  The content of the generated
  delegator and of the file skywalking_init.go is printed by a function of the argument.
\<close>

section \<open>Frameworks\<close>

record package_configuration =
  NeedsHelpers :: bool
  NeedsVariables :: bool
  NeedsChangeLoggerFunc :: bool

datatype log_framework = Logrus | Zap

definition zapPackageRootPath :: string where "zapPackageRootPath = ''go.uber.org/zap''"

definition zapPackageCorePath :: string where "zapPackageCorePath = ''go.uber.org/zap/zapcore''"

definition zapStaticFuncNames :: "string list" where
  "zapStaticFuncNames = [''New'', ''NewNop'', ''NewProduction'', ''NewDevelopment'', ''NewExample'']"

fun PackagePaths :: "log_framework \<Rightarrow> (string \<times> package_configuration) list" where
  "PackagePaths Logrus =
     [(''github.com/sirupsen/logrus'', \<lparr>NeedsHelpers = True, NeedsVariables = True, NeedsChangeLoggerFunc = True\<rparr>)]"
| "PackagePaths Zap =
     [(zapPackageRootPath, \<lparr>NeedsHelpers = True, NeedsVariables = True, NeedsChangeLoggerFunc = True\<rparr>),
      (zapPackageCorePath, \<lparr>NeedsHelpers = True, NeedsVariables = False, NeedsChangeLoggerFunc = False\<rparr>)]"

text \<open>Whether a list of fields has a number of entries and the first is of a type.\<close>

definition first_type :: "(nat \<Rightarrow> bool) \<Rightarrow> field list option \<Rightarrow> string \<Rightarrow> bool" where
  "first_type len fl t =
     (case fl of Some (f # fs) \<Rightarrow> len (length (f # fs)) \<and> GenerateTypeNameByExp (fieldType f) = t | _ \<Rightarrow> False)"

text \<open>The code for a function, None where it is the empty string.\<close>

definition LogrusAutomaticBind :: "func_decl \<Rightarrow> string option" where
  "LogrusAutomaticBind fun =
     (if fn_Name fun = ''New'' \<and> first_type (\<lambda>n. n = 1) (fn_Results fun) ''*Logger''
      then Some (StaticMethodPrefix @ ''LogrusinitFunc();'' @ StaticMethodPrefix @ ''LogrusUpdateLogrusLogger(*ret_0)'')
      else if first_type (\<lambda>n. n = 1) (fn_Recv fun) ''*Logger'' \<and> (fn_Name fun = ''SetOutput'' \<or> fn_Name fun = ''SetFormatter'')
      then Some (StaticMethodPrefix @ ''LogrusUpdateLogrusLogger(*recv_0)'')
      else None)"

definition ZapAutomaticBind :: "func_decl \<Rightarrow> string option" where
  "ZapAutomaticBind fun =
     (if fn_Recv fun \<noteq> None \<or> \<not> first_type (\<lambda>n. True) (fn_Results fun) ''*Logger'' then None
      else if fn_Name fun \<notin> set zapStaticFuncNames then None
      else Some (StaticMethodPrefix @ ''ZapUpdateZapLogger(*ret_0)''))"

fun AutomaticBindFunctions :: "log_framework \<Rightarrow> func_decl \<Rightarrow> string option" where
  "AutomaticBindFunctions Logrus f = LogrusAutomaticBind f"
| "AutomaticBindFunctions Zap f = ZapAutomaticBind f"

section \<open>Edits of zap\<close>

text \<open>
  What CustomizedEnhance does to a node: a struct gets fields, and its file variables; a method gets a
  comment, which is replaced by code when the file was printed.
\<close>

datatype custom_edit =
    NoCustom
  | StructEdit type_spec "(string list \<times> string) list"
  | MethodEdit func_decl "string list" string string

definition add_fields :: "type_spec \<Rightarrow> field list \<Rightarrow> field list \<Rightarrow> type_spec" where
  "add_fields ts fs new = ts\<lparr>ts_Type := StructType (fs @ new)\<rparr>"

definition entry_fields :: "field list" where
  "entry_fields =
     [Field [''SWContext''] (Ident ''interface{}'') None, Field [''SWContextField''] (StarExpr (Ident ''Field'')) None,
      Field [''SWFields''] (ArrayType None (Ident ''Field'')) None]"

definition entry_vars :: "(string list \<times> string) list" where
  "entry_vars =
     [([''SWReporterEnable'', ''SWLogEnable''], ''bool''), ([''SWReporterLabelKeys''], ''[]string''),
      ([''SWLogTracingContextKey''], ''string''), ([''SWFields''], ''[]Field'')]"

definition zap_enhanceMethod :: "func_decl \<Rightarrow> string \<Rightarrow> custom_edit" where
  "zap_enhanceMethod fun goCode =
     (let replaceKey = marker @ BuildFuncIdentity zapPackageRootPath fun
      in MethodEdit fun [[newline], replaceKey] replaceKey goCode)"

definition is_check :: "func_decl \<Rightarrow> bool" where
  "is_check n \<longleftrightarrow> first_type (\<lambda>k. k = 1) (fn_Recv n) ''*Logger'' \<and> fn_Name n = ''check'' \<and>
     first_type (\<lambda>k. True) (fn_Results n) ''*zapcore.CheckedEntry''"

definition is_With :: "func_decl \<Rightarrow> bool" where
  "is_With n \<longleftrightarrow> first_type (\<lambda>k. k = 1) (fn_Recv n) ''*Logger'' \<and> fn_Name n = ''With'' \<and>
     first_type (\<lambda>k. k = 1) (Some (fn_Params n)) ''[]Field''"

definition is_Write :: "func_decl \<Rightarrow> bool" where
  "is_Write n \<longleftrightarrow> first_type (\<lambda>k. k = 1) (fn_Recv n) ''*CheckedEntry'' \<and> fn_Name n = ''Write'' \<and>
     first_type (\<lambda>k. k = 1) (Some (fn_Params n)) ''[]Field''"

text \<open>The names of the parts after they were named; the function with the new names.\<close>

definition name_parts :: "func_decl \<Rightarrow> func_decl \<times> string list \<times> string list \<times> string list" where
  "name_parts n =
     (let (rv, recvs) = EnhanceParameterNames (fn_Recv n) FieldListTypeRecv;
          (ps, params) = EnhanceParameterNames (Some (fn_Params n)) FieldListTypeParam;
          (rs, results) = EnhanceParameterNames (fn_Results n) FieldListTypeResult
      in (\<lparr>fn_Recv = rv, fn_Name = fn_Name n, fn_Params = the ps, fn_Results = rs\<rparr>,
          map pi_Name recvs, map pi_Name params, map pi_Name results))"

definition check_code :: "string \<Rightarrow> string \<Rightarrow> string" where
  "check_code e r =
     ''defer func() {if '' @ e @ '' != nil {'' @ e @ ''.SWContext, '' @ e @ ''.SWContextField = '' @ StaticMethodPrefix @
     ''ZapTracingContextEnhance('' @ e @ ''); '' @ e @ ''.SWFields = '' @ r @ ''.SWFields;}}()''"

definition With_code :: "string \<Rightarrow> string \<Rightarrow> string \<Rightarrow> string" where
  "With_code res p r =
     ''defer func() {if '' @ res @ '' != nil { '' @ res @ ''.SWFields = '' @ StaticMethodPrefix @ ''ZapKnownFieldFilter('' @ p @
     '', '' @ r @ ''.SWFields) }}()''"

definition Write_code :: "string \<Rightarrow> string \<Rightarrow> string" where
  "Write_code r p =
     ''if '' @ r @ '' != nil { '' @ p @ '' = '' @ StaticMethodPrefix @ ''ZapcoreReportLogFromZapEntry('' @ r @ '', '' @ p @ '', '' @ r @
     ''.SWFields, '' @ r @ ''.SWContext, '' @ r @ ''.SWContextField, SWReporterEnable, SWLogEnable, SWReporterLabelKeys) }''"

definition ZapCustomizedEnhance :: "ast_node \<Rightarrow> custom_edit option" where
  "ZapCustomizedEnhance node =
     (case node of
        TypeSpecNode ts \<Rightarrow>
          Some (case ts_Type ts of
                  StructType fs \<Rightarrow>
                    if ts_Name ts = ''CheckedEntry'' then StructEdit (add_fields ts fs entry_fields) entry_vars
                    else if ts_Name ts = ''Logger'' then StructEdit (add_fields ts fs [Field [''SWFields''] (Ident ''[]zapcore.Field'') None]) []
                    else NoCustom
                | _ \<Rightarrow> NoCustom)
      | FuncDeclNode n \<Rightarrow>
          (let (n1, recvs, params, results) = name_parts n
           in if is_check n then
                (case (results, recvs) of
                   (e # _, r # _) \<Rightarrow> Some (zap_enhanceMethod (n1\<lparr>fn_Params := fn_Params n\<rparr>) (check_code e r))
                 | _ \<Rightarrow> None)
              else if is_With n then
                (case (results, params, recvs) of
                   (e # _, p # _, r # _) \<Rightarrow> Some (zap_enhanceMethod n1 (With_code e p r))
                 | _ \<Rightarrow> None)
              else if is_Write n then
                (case (params, recvs) of
                   (p # _, r # _) \<Rightarrow> Some (zap_enhanceMethod (n1\<lparr>fn_Results := fn_Results n\<rparr>) (Write_code r p))
                 | _ \<Rightarrow> None)
              else Some NoCustom)
      | OtherNode \<Rightarrow> Some NoCustom)"

fun CustomizedEnhance :: "log_framework \<Rightarrow> ast_node \<Rightarrow> custom_edit option" where
  "CustomizedEnhance Logrus node = Some NoCustom"
| "CustomizedEnhance Zap node = ZapCustomizedEnhance node"

section \<open>The instrument\<close>

record automatic_function =
  af_Path :: string
  af_Func :: func_decl
  af_FuncName :: string
  af_RealInvoker :: string
  af_ReplaceName :: string
  af_DelegateBody :: string
  af_ImportAnalyzer :: import_analyzer

record logger_instrument =
  li_Package :: string
  li_DebugDir :: string
  li_framework :: log_framework
  li_packageConf :: package_configuration
  li_automaticFunc :: "automatic_function list"
  li_customizedReplace :: "string \<rightharpoonup> (string \<times> string) list"

definition logger_CouldHandle :: "string \<Rightarrow> (log_framework \<times> package_configuration) option" where
  "logger_CouldHandle pkg =
     (case List.find (\<lambda>(f, p, conf). p = pkg) (concat (map (\<lambda>f. map (\<lambda>(p, conf). (f, p, conf)) (PackagePaths f)) [Logrus, Zap])) of
        None \<Rightarrow> None
      | Some (f, p, conf) \<Rightarrow> Some (f, conf))"

text \<open>The template automatic_bind.\<close>

definition automatic_bind :: "string \<Rightarrow> string list \<Rightarrow> string list \<Rightarrow> string list \<Rightarrow> string" where
  "automatic_bind name recvs params results =
     ''defer '' @ name @ ''('' @ concat (map (\<lambda>n. ''&'' @ n @ '','') recvs) @ concat (map (\<lambda>n. ''&'' @ n @ '','') params) @
     concat (numbered (\<lambda>i n. (if i \<noteq> 0 then '','' else []) @ ''&'' @ n) 0 results) @ '');''"

definition bind_marker :: string where
  "bind_marker = ''//goagent:bind_''"

text \<open>addAutomaticBindFunc; the function gets the comments before its body as well.\<close>

definition addAutomaticBindFunc ::
    "string \<Rightarrow> string \<Rightarrow> import_spec list \<Rightarrow> func_decl \<Rightarrow> string \<Rightarrow> automatic_function \<times> string list" where
  "addAutomaticBindFunc pkg path curImports fun body =
     (let funcID = BuildFuncIdentity pkg fun;
          generateFuncName = GenerateMethodPrefix @ ''automaticLoggerBind'' @ funcID;
          replaceName = bind_marker @ funcID @ [newline];
          (fun, recvs, params, results) = name_parts fun;
          a = AnalyzeFileImports path curImports CreateImportAnalyzer;
          a = (case fn_Recv fun of None \<Rightarrow> a | Some r \<Rightarrow> AnalyzeNeedsImports path r a);
          a = AnalyzeNeedsImports path (fn_Params fun) a;
          a = (case fn_Results fun of None \<Rightarrow> a | Some r \<Rightarrow> AnalyzeNeedsImports path r a)
      in (\<lparr>af_Path = path, af_Func = fun, af_FuncName = generateFuncName,
           af_RealInvoker = automatic_bind generateFuncName recvs params results, af_ReplaceName = replaceName,
           af_DelegateBody = body, af_ImportAnalyzer = a\<rparr>, [[newline], replaceName]))"

datatype logger_edit = BindEdit func_decl "string list" | CustomEdit custom_edit

text \<open>FilterAndEdit: the instrument, the edit of the node, and whether there was one.\<close>

definition logger_FilterAndEdit ::
    "string \<Rightarrow> import_spec list \<Rightarrow> ast_node \<Rightarrow> logger_instrument \<Rightarrow> (logger_instrument \<times> logger_edit \<times> bool) option" where
  "logger_FilterAndEdit path curImports node i =
     (case (case node of FuncDeclNode f \<Rightarrow> map_option (\<lambda>body. (f, body)) (AutomaticBindFunctions (li_framework i) f) | _ \<Rightarrow> None) of
        Some (f, body) \<Rightarrow>
          (let (af, decs) = addAutomaticBindFunc (li_Package i) path curImports f body
           in Some (i\<lparr>li_automaticFunc := li_automaticFunc i @ [af]\<rparr>, BindEdit (af_Func af) decs, True))
      | None \<Rightarrow>
          map_option (\<lambda>e. case e of
              NoCustom \<Rightarrow> (i, CustomEdit e, False)
            | StructEdit ts vars \<Rightarrow> (i, CustomEdit e, True)
            | MethodEdit f decs k v \<Rightarrow>
                (i\<lparr>li_customizedReplace := (li_customizedReplace i)(path \<mapsto>
                    AList.update k v (case li_customizedReplace i path of None \<Rightarrow> [] | Some r \<Rightarrow> r))\<rparr>, CustomEdit e, True))
            (CustomizedEnhance (li_framework i) node))"

text \<open>The content after the replacements; order is the order of the range over those of the file.\<close>

definition logger_content :: "logger_instrument \<Rightarrow> string \<Rightarrow> (string \<times> string) list \<Rightarrow> string \<Rightarrow> string" where
  "logger_content i fromPath order content =
     fold (\<lambda>(k, v) c. replace_first c k v) order
       (fold (\<lambda>e c. if af_Path e = fromPath then replace_first c (af_ReplaceName e) (af_RealInvoker e) else c)
          (li_automaticFunc i) content)"

definition logger_AfterEnhanceFile ::
    "logger_instrument \<Rightarrow> string \<Rightarrow> (string \<times> string) list \<Rightarrow> string + string \<Rightarrow> string + string option" where
  "logger_AfterEnhanceFile i fromPath order readNew =
     (case readNew of
        Inl err \<Rightarrow> Inl err
      | Inr old \<Rightarrow> (let content = logger_content i fromPath order old in Inr (if old = content then None else Some content)))"

section \<open>Extra files\<close>

definition bind_delegator :: "gexpr \<Rightarrow> (string \<Rightarrow> gstmt list) \<Rightarrow> string \<Rightarrow> automatic_function \<Rightarrow> gfunc" where
  "bind_delegator other parse packageName fun =
     \<lparr>fd_Decs = Some [], fd_Recv = None, fd_Name = af_FuncName fun,
      fd_Params = Some (
        numbered (\<lambda>i r. gfield_of other (''recv_'' @ nat_digits i) (StarExpr (PackagedType r))) 0
          (snd (EnhanceParameterNamesWithPackagePrefix packageName (fn_Recv (af_Func fun)) FieldListTypeRecv)) @
        numbered (\<lambda>i p. gfield_of other (''param_'' @ nat_digits i) (StarExpr (changeTypeIfNeeds (PackagedType p)))) 0
          (snd (EnhanceParameterNamesWithPackagePrefix packageName (Some (fn_Params (af_Func fun))) FieldListTypeParam)) @
        numbered (\<lambda>i r. gfield_of other (''ret_'' @ nat_digits i) (StarExpr (PackagedType r))) 0
          (snd (EnhanceParameterNamesWithPackagePrefix packageName (fn_Results (af_Func fun)) FieldListTypeResult))),
      fd_Results = None, fd_Body = Some (parse (af_DelegateBody fun))\<rparr>"

text \<open>writeDelegatorFile: the file that is printed; used are the imports of one analyzer in the order of its range.\<close>

definition logger_delegator ::
    "gexpr \<Rightarrow> (string \<Rightarrow> gstmt list) \<Rightarrow> (import_analyzer \<Rightarrow> import_spec list) \<Rightarrow> logger_instrument \<Rightarrow> string \<Rightarrow> gfile" where
  "logger_delegator other parse used i pkgName =
     \<lparr>file_Name = pkgName,
      file_Imports = [fold (\<lambda>f decl. AppendUsedImports (used (af_ImportAnalyzer f)) decl) (li_automaticFunc i)
        [\<lparr>is_Name = Some ''_'', is_Path = ''unsafe''\<rparr>, \<lparr>is_Name = None, is_Path = li_Package i\<rparr>]],
      file_Decls = map (\<lambda>f. D_Func (bind_delegator other parse (path_base (li_Package i)) f)) (li_automaticFunc i)\<rparr>"

text \<open>The file of zap is chosen by the package; any other package has no file, which panics.\<close>

definition GenerateExtraFiles :: "(string \<Rightarrow> string) \<Rightarrow> log_framework \<Rightarrow> string \<Rightarrow> string \<Rightarrow> file_info list option" where
  "GenerateExtraFiles framework_file fw pkgPath debugDir =
     (let new = (\<lambda>pkg name. if debugDir = [] then NewFile pkg name (framework_file name)
                   else NewFileWithDebug pkg name (framework_file name) (debugDir @ ''/tools/go-agent/instrument/logger/frameworks''))
      in case fw of
           Logrus \<Rightarrow> Some [new ''logrus'' ''logrus_adapt.go'', new ''logrus'' ''logrus_format.go'']
         | Zap \<Rightarrow>
             if pkgPath = zapPackageRootPath then Some [new ''zap'' ''zap_root.go'']
             else if pkgPath = zapPackageCorePath then Some [new ''zap'' ''zap_core.go''] else None)"

record logger_tool =
  lt_contextFile :: string
  lt_framework_file :: "string \<Rightarrow> string"
  lt_other :: gexpr
  lt_parse_body :: "string \<Rightarrow> gstmt list"
  lt_used :: "import_analyzer \<Rightarrow> import_spec list"
  lt_print :: "gfile \<Rightarrow> string + string"
  lt_initContent :: "logger_instrument \<Rightarrow> string \<Rightarrow> string"

text \<open>The files WriteExtraFiles hands to the rewriting, with the prefix of their names.\<close>

definition logger_files :: "logger_tool \<Rightarrow> logger_instrument \<Rightarrow> (string + file_info list) option" where
  "logger_files b i =
     (let packageName = path_base (li_Package i);
          contextFile = (if li_DebugDir i = [] then NewFile packageName ''context.go'' (lt_contextFile b)
            else NewFileWithDebug packageName ''context.go'' (lt_contextFile b) (li_DebugDir i @ ''/tools/go-agent/instrument/logger''))
      in case lt_print b (logger_delegator (lt_other b) (lt_parse_body b) (lt_used b) i packageName) of
           Inl err \<Rightarrow> Some (Inl err)
         | Inr delegatorContent \<Rightarrow>
             map_option (\<lambda>extra. Inr ([contextFile, NewFile packageName ''delegator.go'' delegatorContent] @ extra @
                 (if NeedsHelpers (li_packageConf i)
                  then [NewFile packageName ''skywalking_init.go'' (lt_initContent b i packageName)] else [])))
               (GenerateExtraFiles (lt_framework_file b) (li_framework i) (li_Package i) (li_DebugDir i)))"

definition logger_WriteExtraFiles ::
    "logger_tool \<Rightarrow> (string \<Rightarrow> string) \<Rightarrow> (string \<Rightarrow> string \<Rightarrow> string + gfile) \<Rightarrow> (file_info \<Rightarrow> gfile \<Rightarrow> string option) \<Rightarrow> nat list \<Rightarrow> nat list \<Rightarrow>
     string \<Rightarrow> logger_instrument \<Rightarrow> (string + string list) option" where
  "logger_WriteExtraFiles b title parse write order1 order2 dir i =
     (let packageName = path_base (li_Package i) in
      case logger_files b i of
        None \<Rightarrow> None
      | Some (Inl err) \<Rightarrow> Some (Inl err)
      | Some (Inr files) \<Rightarrow>
          map_option (\<lambda>r. case r of Inl err \<Rightarrow> Inl err | Inr (written, c) \<Rightarrow> Inr (map fst written))
            (MultipleFilesWithWritten parse write order1 order2 ''skywalking_'' dir packageName files
               (NewContext title (li_Package i) packageName)))"

section \<open>The call fits the function\<close>

lemma renamed_length: "length (rename_blank d ns) = length ns"
  by (induction ns) auto

lemma renamed_Nil: "rename_blank d ns = [] \<longleftrightarrow> ns = []"
  by (cases ns) auto

definition names_of_field :: "field \<Rightarrow> nat" where
  "names_of_field f = (if fieldNames f = [] then 1 else length (fieldNames f))"

lemma named_fields:
  "length (infos_of (enhance_fields ft i fs)) = sum_list (map names_of_field fs) \<and>
   map names_of_field (enhance_fields ft i fs) = map names_of_field fs"
proof (induction fs arbitrary: i)
  case (Cons f fs)
  have "length (fieldNames (enhance_field ft i f)) = names_of_field f \<and> names_of_field (enhance_field ft i f) = names_of_field f"
    by (simp add: enhance_field_def names_of_field_def renamed_length renamed_Nil)
  with Cons show ?case by (simp add: infos_of_def)
qed (simp add: infos_of_def)

definition part_size :: "field list option \<Rightarrow> nat" where
  "part_size fl = (case fl of None \<Rightarrow> 0 | Some fs \<Rightarrow> sum_list (map names_of_field fs))"

lemma named_part:
  "length (snd (EnhanceParameterNames fl ft)) = part_size fl" "part_size (fst (EnhanceParameterNames fl ft)) = part_size fl"
  "length (snd (EnhanceParameterNamesWithPackagePrefix pkg fl ft)) = part_size fl"
  using named_fields [of ft 0] by (auto simp: EnhanceParameterNamesWithPackagePrefix_def EnhanceParameterNames_def part_size_def split: option.splits)

lemma length_numbered [simp]: "length (numbered f i xs) = length xs"
  by (induction xs arbitrary: i) auto

text \<open>
  The call that replaces the marker of a function fits the function declared beside it: it calls it
  by its name and hands it the address of every part of the function, as many as it has parameters,
  although the parts are named twice.
\<close>

theorem bound_call_fits:
  assumes "addAutomaticBindFunc pkg path curImports f body = (af, decs)"
  shows "\<exists>recvs params results. af_RealInvoker af = automatic_bind (fd_Name (bind_delegator other parse p af)) recvs params results \<and>
    length (the (fd_Params (bind_delegator other parse p af))) = length recvs + length params + length results \<and>
    length recvs = part_size (fn_Recv f) \<and> length params = part_size (Some (fn_Params f)) \<and> length results = part_size (fn_Results f) \<and>
    decs = [[newline], af_ReplaceName af]"
proof -
  obtain f1 recvs params results where n: "name_parts f = (f1, recvs, params, results)" by (metis prod_cases4)
  let ?rv = "EnhanceParameterNames (fn_Recv f) FieldListTypeRecv" and ?ps = "EnhanceParameterNames (Some (fn_Params f)) FieldListTypeParam"
    and ?rs = "EnhanceParameterNames (fn_Results f) FieldListTypeResult"
  have l: "length recvs = part_size (fn_Recv f)" "length params = part_size (Some (fn_Params f))" "length results = part_size (fn_Results f)"
    and s: "fn_Recv f1 = fst ?rv" "Some (fn_Params f1) = fst ?ps" "fn_Results f1 = fst ?rs"
    using n named_part(1) [of "fn_Recv f"] named_part(1) [of "Some (fn_Params f)"] named_part(1) [of "fn_Results f"]
    by (auto simp: name_parts_def split_beta Let_def EnhanceParameterNames_def)
  have a: "af_Func af = f1" "af_RealInvoker af = automatic_bind (af_FuncName af) recvs params results" "decs = [[newline], af_ReplaceName af]"
    using assms n by (auto simp: addAutomaticBindFunc_def Let_def)
  have "length (the (fd_Params (bind_delegator other parse p af))) =
      part_size (fn_Recv f1) + part_size (Some (fn_Params f1)) + part_size (fn_Results f1)"
    by (simp add: bind_delegator_def a(1) named_part(3))
  also have "\<dots> = length recvs + length params + length results" unfolding s l by (simp add: named_part(2))
  finally show ?thesis using a l by (intro exI [of _ recvs] exI [of _ params] exI [of _ results]) (simp add: bind_delegator_def)
qed

text \<open>
  A package the instrument accepts has its files: the file of zap is found for each of its packages,
  and for no accepted package does writing the extra files panic before they are rewritten.
\<close>

theorem accepted_has_files:
  "logger_CouldHandle pkg = Some (fw, conf) \<Longrightarrow> li_Package i = pkg \<Longrightarrow> li_framework i = fw \<Longrightarrow> logger_files b i \<noteq> None"
  by (auto simp: logger_CouldHandle_def logger_files_def GenerateExtraFiles_def Let_def zapPackageRootPath_def zapPackageCorePath_def
      split: if_splits sum.splits option.splits)

end
