(* ===== verification/Spec2Isabelle.thy ===== *)
theory Spec2Isabelle
  imports Prelude Strconv Base64 Propagation Carriers Trace_Ignore Context_Store Id_Generator
    Sampler Span Segment Tracing Tracing_Heap Tracing_Props Meters Transform Profile_Events
    Profile_Manager Backends Connections Transport Send_Pipeline Grpc_Reporter Kafka_Reporter Dynamic_Config Pprof Reporter_Start
    Metrics_Handover So11y Meter_Registry Log_Report Interceptor
    Agent_Config Go_Syntax Plugin_Config Plugin_Match Agent_Flags Agent_Inject
    Rewrite_Context Rewrite_Tree Rewrite_File Rewrite_Scopes Rewrite_Props Line_Directive Compile_Run
    Facade Db_Peer Span_Calls Sql_Plugin Sql_Props Tracer_Start Plugin_Tools
    Enhance_Method Plugin_Files Delegator Runtime_Metrics Core_Copy Log_Frameworks Logger_Instrument
begin

text \<open>
  A model of the agent core of skywalking-go, the Go agent that is compiled into a program and
  traces, measures and profiles it for a SkyWalking collector.  Paths are below src/; the core is
  plugins/core.

  \<^bold>\<open>The program.\<close>  Plugins intercept calls of frameworks and ask the tracer for spans.  A span
  belongs to a segment, the spans of one goroutine; a root span owns a collector goroutine that
  gathers the ended spans and hands the segment to the reporter.  Trace context travels between
  processes in two headers (propagating.go) that plugins inject and extract, and between goroutines
  in snapshots.  The reporter queues segments, meters and logs and sends them over gRPC streams or
  to Kafka.  The collector answers with commands: configuration (a sampling rate), trace profiling
  tasks, and profiles on demand.  Before the agent is started, counters and hooks registered by
  other packages wait in package runtime.

  \<^bold>\<open>The theories\<close>, in the order in which they build on each other:
  \<^item> Prelude: result types, strings (split, join, prefixes, trimming) and their lemmas.  Strconv and
    Base64: the functions of the standard library the code uses, with their round trips.
  \<^item> Propagation (propagating.go): SpanContext, DecodeSW8, EncodeSW8, the correlation header, every
    error branch.  Carriers: the injectors and extractors of plugins/segmentio-kafka, pulsar, http
    and amqp over the messages they write.
  \<^item> Trace_Ignore (tracer_ignore.go): the two wildcard matchers with their index arithmetic, against
    the language of a pattern.  Context_Store (correlation.go, context.go), Id_Generator (id.go,
    16 and 64 bit words), Sampler (sampler.go; float64 is a record of operations).
  \<^item> Span (span_default.go, span.go): a record, each method one critical section; the concurrent span
    is the step relation span_step.  Segment (span_tracing.go): registration by compare-and-swap,
    the unbuffered channels, the collector goroutine and its shutdown as the step relation seg_step.
  \<^item> Tracing (tracing.go, context.go, span_tracing.go, span_noop.go): the operations of the tracer on
    an explicit heap of spans, segments, contexts and correlation stores, with the goroutine slot.
    Tracing_Heap: the typing of that heap.  Tracing_Props: what the operations achieve.  Log_Report
    (logreport.go): the context of a log line on this heap.
  \<^item> Meters, Meter_Registry (metrics.go, metrics/bridge.go): counters, gauges, histograms, their
    stand-ins before the start, the registry, the round that reports.  Metrics_Handover (the template of
    tools/go-agent/instrument/runtime): the handing over, one memory access at a time.  So11y
    (so11y.go): the agent's own counters, with goroutines racing for a new one.
  \<^item> Transform (reporter/transform.go): segments and meters to protocol messages.
  \<^item> Profile_Events, Profile_Manager (profile*.go, prof_labels.go, trace_profiling_event_manager.go):
    trace profiling, with timers, the monitor, the report worker and the reporter interleaved; the
    slice aliasing of the label sets.  Pprof (pprof.go, reporter/pprof_manager.go): profiles on demand.
  \<^item> Backends (backend_addresses.go, static_backend_resolver.go), Connections and Transport
    (conn_manager.go, auth_failure_log.go): parsing of addresses, reference counts of connections
    under races, the first-frame deadline, timers.
  \<^item> Send_Pipeline, Grpc_Reporter, Kafka_Reporter (reporter/grpc, reporter/kafka), Dynamic_Config
    (config_discovery.go, cds_manager.go), Reporter_Start (the template of
    tools/go-agent/instrument/reporter): the channels with their loops, Boot and Close, the fallbacks.

  \<^item> Interceptor (plugins/core/operator/invocation.go and the method templates of
    tools/go-agent/instrument/plugins): the call of an instrumented method, with the two adapters around it.
  \<^item> The tool that instruments at compile time (tools/go-agent).  Agent_Flags (tools/flags.go, cmd/main.go,
    instrument/api/flags.go): the command line and the decisions of main.  Agent_Config (config/loader.go):
    values with environment variables, the merge of two files, the generated readers.  Go_Syntax
    (tools/enhancement.go, tools/dst.go): types, parameter names, identities, imports.  Plugin_Config
    (instrument/plugins/enhance_config.go): configuration structs of plugins.  Plugin_Match
    (instrument/plugins/instrument.go, tools/vendor.go, plugins/core/instrument): the plugin of a
    compilation and the declarations it enhances.  Agent_Inject (cmd/injector.go): modules, main packages
    and the import added to them.
  \<^item> The rewriting of the plugin files into the package they instrument (tools/go-agent/instrument/plugins/rewrite).
    Rewrite_Context (context.go, import.go): scopes, native types, names, imports.  Rewrite_Tree (context.go,
    func.go): the traversals of expressions and statements.  Rewrite_File (func.go, type.go, var.go,
    rewrite.go): declarations and files.  Rewrite_Scopes and Rewrite_Props: what they do to the scopes, the
    names and the imports.  Line_Directive (tools/dst.go): the text of a rewritten file with the directive
    that lets a debugger find the original.  Compile_Run (instrument/instrument.go): the instrumentation of
    one compilation and the arguments of the compiler after it.
  \<^item> The files a plugin adds.  Enhance_Method (enhance_method.go, enhance_instance.go): the marker and the
    call in a method, its adapters, the field of a struct.  Plugin_Files (instrument.go): the copies, their
    directives and the delegator.  Delegator: the delegator after its rewriting has what the others refer to.
    Core_Copy (instrument/agentcore, instrument/entry, tools/copy.go): the copy of the agent core itself and
    its start in package main.
  \<^item> Log_Frameworks (instrument/logger/frameworks): what the code added to zap and logrus reports of a line.
    Logger_Instrument (instrument/logger): how the tool adds it.
  \<^item> Facade (plugins/core/tracing/api.go, bridge.go, span.go): package tracing as plugins call it, with and
    without an agent.  Span_Calls: what an interceptor that opens and ends one span does to the heap.
    Db_Peer (tracing/postgres_peer.go), Sql_Plugin and Sql_Props (plugins/sql): the interceptors of
    database/sql with the drivers' descriptions of a database, as a client of that package.
  \<^item> Tracer_Start (tracer.go, tool.go, the template of tools/go-agent/instrument/agentcore): the entity, Init
    write by write, and the start from the configuration.  Plugin_Tools (tracer_tools.go, plugins/core/tools):
    fields of any struct, shared maps.
  \<^item> Runtime_Metrics (plugins/runtimemetrics): gauges and histograms of the Go runtime, read before each collection.

  \<^bold>\<open>How code is modelled.\<close>  A struct is a record, an enumeration a datatype, a machine integer a word
  or an int with the wrap-around written out, a map a partial function, an error or a panic a value
  of a sum type.  Functions without shared state are HOL functions that compute.  State that
  goroutines share is a world record with an inductive step relation whose steps are the critical
  sections or atomic accesses of the code; properties of all schedules are invariants by rule
  induction.  Clock readings, random draws, the order of a map, the end of a network call, file
  contents and the stop of a timer are arguments or free choices of a step.

  \<^bold>\<open>Interfaces.\<close>  The locale config_watcher states what the configuration service asks of a watcher
  and is interpreted on the dynamic sampler; task_command states what the profiling manager asks of
  a command and is interpreted on the profiling command of the core.  context_relation states what a
  relation of rewriting contexts needs to be kept by every traversal; it is interpreted on the growth
  of the scopes, the fixed part of the context and the imports.  span_discipline states what a plugin
  needs of spans to bracket a call: a span it opened stays its own until it ends it; it is interpreted
  on the operations of package tracing.

  \<^bold>\<open>What the lemmas show.\<close>  For each component a type or state invariant kept by every operation, then
  its behaviour: segments are reported once and complete, the children first and the root last, and delivery
  terminates when all spans ended; nested use restores the active span; trace and parent identifiers
  survive encoding, a carrier and decoding; the wildcard matchers decide the pattern language; the
  reporter refines three independent queues and drains them after Close; held connections stay open;
  profiling tasks exclude each other and their output arrives in order; chunked uploads and written
  chunks concatenate to their content; counters neither lose nor invent increments.  Theorems that
  state a shortcoming of the code say so in their text: a lost header table, a leaked exit span, a
  label set overwritten through a shared slice, messages lost on Close of the Kafka writer, a
  duration that wraps before it is checked.

  \<^bold>\<open>Bounds and fuel.\<close>  No definition takes fuel: the loops recurse on their data or have a termination
  measure, and findEndpointNameBySpan, which follows parent pointers, is a partial function that is
  proved to return on every reachable heap.  The segment theorems assume fewer than 2 to the 31
  children (small), the identifier theorem 10000 consecutive calls within the clock's range, the loop
  theorem two transitions for each queued message and two more.

  \<^bold>\<open>Not modelled.\<close>  The parsing and printing of syntax trees, most of the text of the
  templates, the adapters that hand the levels of the agent's own log to zap and logrus, the interceptors of the other plugins, TLS files and gRPC
  options, generated protocols and logging.  Package net, strconv, base64, sort and unicode are
  modelled as far as used; gRPC, Kafka clients and runtime/pprof answer through arguments.
\<close>

end
